(* ===== verification/Vault_Prelude.thy ===== *)
theory Vault_Prelude
  imports
    Main
    "HOL-Library.AList"
    "HOL-Library.Char_ord"
    "HOL-Library.List_Lexorder"
    "HOL-Library.Multiset"
    "HOL-Library.Product_Lexorder"
begin

text \<open>
  Shared vocabulary of the development: Python exceptions and result values, effects over
  an explicit store, JSON values with their canonical text, dictionaries built by
  comprehension, stable sorting, and the collections of lemmas the component theories
  hand to the simplifier.

  Conventions. A Python \<open>str\<close> is a \<open>string\<close>; its order is the lexicographic order on
  character codes. A Python \<open>int\<close> is an \<open>int\<close>. \<open>None\<close> is the \<open>None\<close> of an option type.
  A raised exception is the left summand of a result; an operation with side effects
  returns its result together with the store as it is at that point, so that what was
  written before an exception stays written.
\<close>

named_theorems result_simps \<open>rewriting of results, effects and validation chains\<close>
named_theorems wf_intros \<open>well-formedness of the records built by the code\<close>

section \<open>Exceptions and results\<close>

datatype py_exn =
    ValueError string
  | KeyError string
  | TypeError string
  | IllTyped string
  | IntegrityError string
  | OSError string
  | PowerLoss

type_synonym 'a result = "py_exn + 'a"

definition rbind :: "'e + 'a \<Rightarrow> ('a \<Rightarrow> 'e + 'b) \<Rightarrow> 'e + 'b" where
  "rbind m f = (case m of Inl e \<Rightarrow> Inl e | Inr x \<Rightarrow> f x)"

lemma rbind_Inl [simp]: "rbind (Inl e) f = Inl e"
  by (simp add: rbind_def)

lemma rbind_Inr [simp]: "rbind (Inr x) f = f x"
  by (simp add: rbind_def)

lemma rbind_eq_Inr [result_simps]:
  "rbind m f = Inr y \<longleftrightarrow> (\<exists>x. m = Inr x \<and> f x = Inr y)"
  by (cases m) auto

lemma rbind_eq_Inl [result_simps]:
  "rbind m f = Inl e \<longleftrightarrow> m = Inl e \<or> (\<exists>x. m = Inr x \<and> f x = Inl e)"
  by (cases m) auto

lemma rbind_cong [fundef_cong]:
  "m = m' \<Longrightarrow> (\<And>x. m' = Inr x \<Longrightarrow> f x = g x) \<Longrightarrow> rbind m f = rbind m' g"
  by (cases m') auto

lemma if_raise_eq_Inr [result_simps]:
  "(if b then Inl e else r) = Inr y \<longleftrightarrow> \<not> b \<and> r = Inr y"
  by simp

lemma not_islD: "\<not> isl r \<Longrightarrow> \<exists>x. r = Inr x"
  by (cases r) auto

lemma if_ok_eq_Inr [result_simps]:
  "(if b then r else Inl e) = Inr y \<longleftrightarrow> b \<and> r = Inr y"
  by simp

fun mapM :: "('a \<Rightarrow> 'e + 'b) \<Rightarrow> 'a list \<Rightarrow> 'e + 'b list" where
  "mapM f [] = Inr []"
| "mapM f (x # xs) = rbind (f x) (\<lambda>y. rbind (mapM f xs) (\<lambda>ys. Inr (y # ys)))"

lemma mapM_eq_Inr:
  "mapM f xs = Inr ys \<longleftrightarrow> list_all2 (\<lambda>x y. f x = Inr y) xs ys"
  by (induction xs arbitrary: ys) (auto simp: result_simps list_all2_Cons1)

lemma mapM_pure: "(\<And>x. x \<in> set xs \<Longrightarrow> f x = Inr (g x)) \<Longrightarrow> mapM f xs = Inr (map g xs)"
  by (induction xs) auto

lemma mapM_cong [fundef_cong]:
  "xs = ys \<Longrightarrow> (\<And>x. x \<in> set ys \<Longrightarrow> f x = g x) \<Longrightarrow> mapM f xs = mapM g ys"
  by (induction ys arbitrary: xs) auto

text \<open>
  The check chain of a \<open>__post_init__\<close>: the first check that fails raises a
  \<open>ValueError\<close> with its message, otherwise the object is returned.
\<close>

fun validate :: "(bool \<times> string) list \<Rightarrow> 'a \<Rightarrow> 'a result" where
  "validate [] x = Inr x"
| "validate ((ok, msg) # cs) x = (if ok then validate cs x else Inl (ValueError msg))"

lemma validate_eq_Inr [result_simps]:
  "validate cs x = Inr y \<longleftrightarrow> y = x \<and> list_all fst cs"
proof (induction cs)
  case Nil
  then show ?case by auto
next
  case (Cons c cs)
  then show ?case by (cases c) auto
qed

lemma validate_pass: "list_all fst cs \<Longrightarrow> validate cs x = Inr x"
  by (simp add: result_simps)

lemma validate_append:
  "validate (cs @ ds) x = (if list_all fst cs then validate ds x else validate cs x)"
proof (induction cs)
  case (Cons c cs)
  then show ?case by (cases c) auto
qed simp

lemma validate_map_const:
  "(\<And>a. a \<in> set xs \<Longrightarrow> snd (f a) = msg) \<Longrightarrow>
     validate (map f xs) x = (if \<forall>a \<in> set xs. fst (f a) then Inr x else Inl (ValueError msg))"
proof (induction xs)
  case (Cons a xs)
  from Cons.prems [of a] have "snd (f a) = msg" by simp
  with Cons show ?case by (cases "f a") auto
qed simp

section \<open>Effects over a store\<close>

type_synonym ('s, 'e, 'a) eff = "'s \<Rightarrow> ('e + 'a) \<times> 's"

definition eret :: "'a \<Rightarrow> ('s, 'e, 'a) eff" where
  "eret x s = (Inr x, s)"

definition eraise :: "'e \<Rightarrow> ('s, 'e, 'a) eff" where
  "eraise e s = (Inl e, s)"

definition elift :: "'e + 'a \<Rightarrow> ('s, 'e, 'a) eff" where
  "elift r s = (r, s)"

definition eget :: "('s \<Rightarrow> 'a) \<Rightarrow> ('s, 'e, 'a) eff" where
  "eget f s = (Inr (f s), s)"

definition emodify :: "('s \<Rightarrow> 's) \<Rightarrow> ('s, 'e, unit) eff" where
  "emodify f s = (Inr (), f s)"

definition eread :: "('s \<Rightarrow> 'e + 'a) \<Rightarrow> ('s, 'e, 'a) eff" where
  "eread f s = (f s, s)"

definition ebind :: "('s, 'e, 'a) eff \<Rightarrow> ('a \<Rightarrow> ('s, 'e, 'b) eff) \<Rightarrow> ('s, 'e, 'b) eff" where
  "ebind m f s = (case m s of (Inl e, s') \<Rightarrow> (Inl e, s') | (Inr x, s') \<Rightarrow> f x s')"

lemma eret_apply [simp]: "eret x s = (Inr x, s)" by (simp add: eret_def)
lemma eraise_apply [simp]: "eraise e s = (Inl e, s)" by (simp add: eraise_def)
lemma elift_Inl [simp]: "elift (Inl e) s = (Inl e, s)" by (simp add: elift_def)
lemma elift_Inr [simp]: "elift (Inr x) s = (Inr x, s)" by (simp add: elift_def)
lemma eget_apply [simp]: "eget f s = (Inr (f s), s)" by (simp add: eget_def)
lemma emodify_apply [simp]: "emodify f s = (Inr (), f s)" by (simp add: emodify_def)

lemma eread_apply [simp]: "eread f s = (f s, s)" by (simp add: eread_def)

lemma ebind_eread: "ebind (eread f) g s = (case f s of Inl e \<Rightarrow> (Inl e, s) | Inr x \<Rightarrow> g x s)"
  by (simp add: ebind_def split: sum.splits)

lemma ebind_elift: "ebind (elift r) g s = (case r of Inl e \<Rightarrow> (Inl e, s) | Inr x \<Rightarrow> g x s)"
  by (cases r) (simp_all add: ebind_def)

lemma ebind_eq_Inr [result_simps]:
  "ebind m f s = (Inr y, t) \<longleftrightarrow> (\<exists>x s'. m s = (Inr x, s') \<and> f x s' = (Inr y, t))"
  by (auto simp: ebind_def split: prod.splits sum.splits)

lemma ebind_apply_Inr: "m s = (Inr x, s') \<Longrightarrow> ebind m f s = f x s'"
  by (simp add: ebind_def)

lemma ebind_apply_Inl: "m s = (Inl e, s') \<Longrightarrow> ebind m f s = (Inl e, s')"
  by (simp add: ebind_def)

lemma ebind_eget [simp]: "ebind (eget g) f s = f (g s) s"
  by (simp add: ebind_def)

lemma ebind_emodify [simp]: "ebind (emodify g) f s = f () (g s)"
  by (simp add: ebind_def)

lemma ebind_eret [simp]: "ebind (eret x) f s = f x s"
  by (simp add: ebind_def)

lemma ebind_eraise [simp]: "ebind (eraise e) f s = (Inl e, s)"
  by (simp add: ebind_def)

lemma ebind_elift_Inr [simp]: "ebind (elift (Inr x)) f s = f x s"
  by (simp add: ebind_def)

lemma ebind_elift_Inl [simp]: "ebind (elift (Inl e)) f s = (Inl e, s)"
  by (simp add: ebind_def)

lemma elift_eq_Inr [result_simps]: "elift r s = (Inr x, t) \<longleftrightarrow> r = Inr x \<and> t = s"
  by (auto simp: elift_def)

lemma if_eraise_eq_Inr [result_simps]:
  "(if b then eraise e else m) s = (Inr x, t) \<longleftrightarrow> \<not> b \<and> m s = (Inr x, t)"
  by simp

section \<open>Decimal text and joins\<close>

definition digit_char :: "nat \<Rightarrow> char" where
  "digit_char d = char_of (48 + d)"

fun nat_str :: "nat \<Rightarrow> string" where
  "nat_str n = (if n < 10 then [digit_char n] else nat_str (n div 10) @ [digit_char (n mod 10)])"

declare nat_str.simps [simp del]

definition int_str :: "int \<Rightarrow> string" where
  "int_str i = (if i < 0 then CHR ''-'' # nat_str (nat (- i)) else nat_str (nat i))"

fun join :: "string \<Rightarrow> string list \<Rightarrow> string" where
  "join sep [] = []"
| "join sep [x] = x"
| "join sep (x # y # xs) = x @ sep @ join sep (y # xs)"


section \<open>JSON values\<close>

text \<open>
  The values \<open>json.loads\<close> builds. An object is the list of its entries in insertion order,
  with distinct keys, as a Python \<open>dict\<close> is; a float is kept as its text, since the code
  only ever asks whether a value is a float by asking whether it is an \<open>int\<close>. A Python
  \<open>bool\<close> is an \<open>int\<close> (\<open>isinstance(True, int)\<close> holds), which \<open>py_int\<close> reproduces.
\<close>

datatype json =
    JNull
  | JBool bool
  | JInt int
  | JFloat string
  | JStr string
  | JArr "json list"
  | JObj "(string \<times> json) list"

type_synonym dict = "(string \<times> json) list"

definition dget :: "dict \<Rightarrow> string \<Rightarrow> json" where
  "dget d k = (case map_of d k of None \<Rightarrow> JNull | Some v \<Rightarrow> v)"

definition ditem :: "dict \<Rightarrow> string \<Rightarrow> json result" where
  "ditem d k = (case map_of d k of None \<Rightarrow> Inl (KeyError k) | Some v \<Rightarrow> Inr v)"

fun py_int :: "json \<Rightarrow> int option" where
  "py_int (JInt i) = Some i"
| "py_int (JBool b) = Some (if b then 1 else 0)"
| "py_int _ = None"

fun py_str :: "json \<Rightarrow> string option" where
  "py_str (JStr s) = Some s"
| "py_str _ = None"

fun py_bool :: "json \<Rightarrow> bool option" where
  "py_bool (JBool b) = Some b"
| "py_bool _ = None"

fun opt_json :: "('a \<Rightarrow> json) \<Rightarrow> 'a option \<Rightarrow> json" where
  "opt_json f None = JNull"
| "opt_json f (Some x) = f x"

text \<open>An entry that \<open>to_dict\<close> adds only when the value is present.\<close>

fun opt_entry :: "string \<Rightarrow> ('a \<Rightarrow> json) \<Rightarrow> 'a option \<Rightarrow> dict" where
  "opt_entry k f None = []"
| "opt_entry k f (Some x) = [(k, f x)]"

text \<open>
  The text \<open>json.dumps(v, ensure_ascii=False, sort_keys=True, separators=(",", ":"))\<close>
  writes: entries sorted by key at every level, no blanks, strings escaped as the standard
  library does.
\<close>

definition hex_digit :: "nat \<Rightarrow> char" where
  "hex_digit d = (if d < 10 then char_of (48 + d) else char_of (87 + d))"

definition esc_char :: "char \<Rightarrow> string" where
  "esc_char c =
     (let n = (of_char c :: nat); bs = char_of (92 :: nat) in
      if n = 34 then [bs, c]
      else if n = 92 then [bs, c]
      else if n = 10 then [bs, CHR ''n'']
      else if n = 13 then [bs, CHR ''r'']
      else if n = 9 then [bs, CHR ''t'']
      else if n = 12 then [bs, CHR ''f'']
      else if n = 8 then [bs, CHR ''b'']
      else if n < 32 then bs # ''u00'' @ [hex_digit (n div 16), hex_digit (n mod 16)]
      else [c])"

definition quote_str :: "string \<Rightarrow> string" where
  "quote_str s = char_of (34 :: nat) # concat (map esc_char s) @ [char_of (34 :: nat)]"

fun json_dumps :: "json \<Rightarrow> string" where
  "json_dumps JNull = ''null''"
| "json_dumps (JBool b) = (if b then ''true'' else ''false'')"
| "json_dumps (JInt i) = int_str i"
| "json_dumps (JFloat s) = s"
| "json_dumps (JStr s) = quote_str s"
| "json_dumps (JArr vs) = ''['' @ join '','' (map json_dumps vs) @ '']''"
| "json_dumps (JObj kvs) =
     ''{'' @ join '','' (map (\<lambda>(k, t). quote_str k @ '':'' @ t)
              (sort_key fst (map (\<lambda>(k, v). (k, json_dumps v)) kvs))) @ ''}''"

section \<open>Dictionaries by comprehension, sets and stable sorting\<close>

text \<open>
  \<open>dict_of k xs\<close> is \<open>{k(x): x for x in xs}\<close>: the last item with a key wins.
  \<open>sorted(set(xs))\<close> is \<open>sorted_set xs\<close>; \<open>sorted(xs, key=k)\<close> is the library's
  stable \<open>sort_key k xs\<close>.
\<close>

definition dict_of :: "('a \<Rightarrow> 'k) \<Rightarrow> 'a list \<Rightarrow> 'k \<Rightarrow> 'a option" where
  "dict_of k xs i = map_of (rev (map (\<lambda>x. (k x, x)) xs)) i"

lemma dict_of_Nil [simp]: "dict_of k [] i = None"
  by (simp add: dict_of_def)

lemma dict_of_snoc [simp]:
  "dict_of k (xs @ [x]) i = (if i = k x then Some x else dict_of k xs i)"
  by (simp add: dict_of_def)

lemma dict_of_SomeD: "dict_of k xs i = Some x \<Longrightarrow> x \<in> set xs \<and> k x = i"
  by (induction xs rule: rev_induct) (auto split: if_splits)

lemma dict_of_eq_None [simp]: "dict_of k xs i = None \<longleftrightarrow> i \<notin> k ` set xs"
  by (induction xs rule: rev_induct) auto

lemma dom_dict_of [simp]: "dom (dict_of k xs) = k ` set xs"
  unfolding dom_def by (simp only: mem_Collect_eq dict_of_eq_None) auto

lemma dict_of_in: "i \<in> k ` set xs \<Longrightarrow> \<exists>x. dict_of k xs i = Some x \<and> x \<in> set xs \<and> k x = i"
  by (metis dict_of_SomeD dict_of_eq_None not_None_eq)

lemma dict_of_distinct:
  "distinct (map k xs) \<Longrightarrow> dict_of k xs i = Some x \<longleftrightarrow> x \<in> set xs \<and> k x = i"
proof -
  assume d: "distinct (map k xs)"
  have "x \<in> set xs \<Longrightarrow> dict_of k xs (k x) = Some x"
  proof -
    assume x: "x \<in> set xs"
    then obtain y where y: "dict_of k xs (k x) = Some y" "y \<in> set xs" "k y = k x"
      using dict_of_in [of "k x" k xs] by auto
    with x d have "y = x" by (auto simp: distinct_map dest: inj_onD)
    with y show ?thesis by simp
  qed
  then show ?thesis by (auto dest: dict_of_SomeD)
qed

lemma distinct_map_mset:
  "mset xs = mset ys \<Longrightarrow> distinct (map f xs) = distinct (map f ys)"
  by (metis mset_eq_imp_distinct_iff mset_map)

lemma distinct_map_sort_key [simp]: "distinct (map f (sort_key k xs)) = distinct (map f xs)"
  by (rule distinct_map_mset) simp

lemma sort_key_idem [simp]: "sort_key k (sort_key k xs) = sort_key k xs"
  by (rule sort_key_id_if_sorted) simp

definition sorted_set :: "'a::linorder list \<Rightarrow> 'a list" where
  "sorted_set xs = sort (remdups xs)"

lemma set_sorted_set [simp]: "set (sorted_set xs) = set xs"
  by (simp add: sorted_set_def)

lemma sorted_sorted_set [simp]: "sorted (sorted_set xs)"
  by (simp add: sorted_set_def)

lemma distinct_sorted_set [simp]: "distinct (sorted_set xs)"
  by (simp add: sorted_set_def)

lemma sorted_set_eqI: "set xs = set ys \<Longrightarrow> sorted_set xs = sorted_set ys"
  by (simp add: sorted_set_def sorted_list_of_set_sort_remdups [symmetric])

lemma sorted_set_eq_Nil [simp]: "sorted_set xs = [] \<longleftrightarrow> xs = []"
  by (metis set_empty set_sorted_set)

text \<open>Python's \<open>a or b\<close> on optional strings: \<open>None\<close> and the empty string are false.\<close>

fun str_or :: "string option \<Rightarrow> string option \<Rightarrow> string option" where
  "str_or (Some (c # cs)) b = Some (c # cs)"
| "str_or _ b = b"

lemma str_or_alt: "str_or a b = (if a = None \<or> a = Some [] then b else a)"
  by (cases "(a, b)" rule: str_or.cases) auto

lemma str_or_idem [simp]:
  "str_or a (str_or a b) = str_or a b" "str_or (str_or a b) b = str_or a b" "str_or a a = a"
  by (auto simp: str_or_alt)

lemma str_or_cases: "str_or a b = a \<or> str_or a b = b"
  by (cases "(a, b)" rule: str_or.cases) auto

section \<open>Maps\<close>

lemma bex_map_if:
  "(\<exists>r \<in> set (map (\<lambda>r. if P r then f r else r) xs). Q r) \<longleftrightarrow>
     (\<exists>r \<in> set xs. P r \<and> Q (f r)) \<or> (\<exists>r \<in> set xs. \<not> P r \<and> Q r)"
  by (induction xs) auto

lemma map_some_eqI: "(\<And>p j. m p = Some j \<longleftrightarrow> m' p = Some j) \<Longrightarrow> m = m'"
  by (rule ext) (metis not_Some_eq)

lemma mem_map_filter [simp]:
  "y \<in> set (List.map_filter f xs) \<longleftrightarrow> (\<exists>x \<in> set xs. f x = Some y)"
  by (induction xs) (auto split: option.splits)

end
