(* ===== verification/Models.thy ===== *)
theory Models
  imports Vault_Prelude
begin

text \<open>
  The records of \<open>vault_core/models.py\<close>. A frozen dataclass is a \<open>record\<close> whose fields carry
  a prefix; its constructor with the checks of \<open>__post_init__\<close> is the definition with the
  class's name, which returns the object or the first check's exception; \<open>wf_\<dots>\<close> is what the
  constructor guarantees of every object that exists. \<open>to_dict\<close> and \<open>from_dict\<close> go to and
  from JSON objects.

  \<open>from_dict\<close> in the code stores payload values without looking at their types. The readers
  below reproduce what the checks then do: a value that is not an int becomes \<open>-1\<close>, which
  every integer check rejects with the message the code gives; a false value where a string is
  expected becomes the empty string, which the non-emptiness check rejects; a payload with a
  true non-string in a string field would give an object outside its declared type, and the
  model reports it as \<open>IllTyped\<close>.
\<close>

section \<open>Readers\<close>

fun py_false :: "json \<Rightarrow> bool" where
  "py_false JNull = True"
| "py_false (JBool b) = (\<not> b)"
| "py_false (JInt i) = (i = 0)"
| "py_false (JFloat s) = (s = ''0.0'' \<or> s = ''-0.0'')"
| "py_false (JStr s) = (s = [])"
| "py_false (JArr vs) = (vs = [])"
| "py_false (JObj kvs) = (kvs = [])"

definition as_str :: "string \<Rightarrow> json \<Rightarrow> string result" where
  "as_str k v = (case v of JStr s \<Rightarrow> Inr s
                 | _ \<Rightarrow> if py_false v then Inr [] else Inl (IllTyped k))"

definition as_enum :: "string \<Rightarrow> json \<Rightarrow> string result" where
  "as_enum k v = (case v of JStr s \<Rightarrow> Inr s | _ \<Rightarrow> Inl (IllTyped k))"

definition as_opt_str :: "string \<Rightarrow> json \<Rightarrow> string option result" where
  "as_opt_str k v = (case v of JNull \<Rightarrow> Inr None | JStr s \<Rightarrow> Inr (Some s) | _ \<Rightarrow> Inl (IllTyped k))"

definition as_int :: "json \<Rightarrow> int" where
  "as_int v = (case py_int v of Some i \<Rightarrow> i | None \<Rightarrow> -1)"

definition as_opt_int :: "json \<Rightarrow> int option" where
  "as_opt_int v = (case v of JNull \<Rightarrow> None | _ \<Rightarrow> Some (as_int v))"

definition as_opt_dict :: "string \<Rightarrow> json \<Rightarrow> dict option result" where
  "as_opt_dict k v = (case v of JNull \<Rightarrow> Inr None | JObj d \<Rightarrow> Inr (Some d) | _ \<Rightarrow> Inl (IllTyped k))"

text \<open>\<open>payload.get(key, [])\<close> iterated by a comprehension whose items are read as objects.\<close>

definition get_list :: "dict \<Rightarrow> string \<Rightarrow> json list result" where
  "get_list d k = (case map_of d k of None \<Rightarrow> Inr [] | Some (JArr vs) \<Rightarrow> Inr vs
                   | Some _ \<Rightarrow> Inl (TypeError k))"

definition as_object :: "json \<Rightarrow> dict result" where
  "as_object v = (case v of JObj d \<Rightarrow> Inr d | _ \<Rightarrow> Inl (TypeError ''object''))"

lemma reader_simps [simp]:
  "as_str k (JStr s) = Inr s"
  "as_enum k (JStr s) = Inr s"
  "as_opt_str k JNull = Inr None"
  "as_opt_str k (JStr s) = Inr (Some s)"
  "as_int (JInt i) = i"
  "as_opt_int JNull = None"
  "as_opt_int (JInt i) = Some i"
  "as_opt_dict k JNull = Inr None"
  "as_opt_dict k (JObj d) = Inr (Some d)"
  "as_object (JObj d) = Inr d"
  by (simp_all add: as_str_def as_enum_def as_opt_str_def as_int_def as_opt_int_def
      as_opt_dict_def as_object_def)

text \<open>The sets of valid enumeration values.\<close>

definition VALID_FILE_TYPES :: "string list" where
  "VALID_FILE_TYPES = [''note'', ''attachment'', ''ai_wiki'', ''ai_index'', ''ai_agents'']"

definition VALID_FILE_STATUSES :: "string list" where
  "VALID_FILE_STATUSES = [''active'', ''deleted'', ''conflict_copy'']"

definition VALID_WIKI_TASK_STATUSES :: "string list" where
  "VALID_WIKI_TASK_STATUSES =
     [''pending'', ''running'', ''done'', ''failed'', ''skipped'', ''superseded'']"

definition VALID_COMMIT_INTENT_STATUSES :: "string list" where
  "VALID_COMMIT_INTENT_STATUSES = [''prepared'', ''submitted'', ''acknowledged'']"

definition VALID_SYNC_APPLY_PHASES :: "string list" where
  "VALID_SYNC_APPLY_PHASES =
     [''preparing'', ''staging'', ''materializing'', ''filemap_rewrite'', ''finalizing'']"

definition VALID_FILE_VERSION_SOURCES :: "string list" where
  "VALID_FILE_VERSION_SOURCES =
     [''commit_success'', ''manual_checkpoint'', ''manual_meeting_checkpoint'', ''restore'']"

lemmas valid_sets = VALID_FILE_TYPES_def VALID_FILE_STATUSES_def VALID_WIKI_TASK_STATUSES_def
  VALID_COMMIT_INTENT_STATUSES_def VALID_SYNC_APPLY_PHASES_def VALID_FILE_VERSION_SOURCES_def

text \<open>The shared integer and string checks, as entries of a check chain.\<close>

definition non_negative :: "string \<Rightarrow> int \<Rightarrow> bool \<times> string" where
  "non_negative name v = (0 \<le> v, name @ '' must be a non-negative integer'')"

definition opt_non_negative :: "string \<Rightarrow> int option \<Rightarrow> bool \<times> string" where
  "opt_non_negative name v =
     ((case v of None \<Rightarrow> True | Some i \<Rightarrow> 0 \<le> i), name @ '' must be a non-negative integer'')"

definition positive :: "string \<Rightarrow> int \<Rightarrow> bool \<times> string" where
  "positive name v = (0 < v, name @ '' must be a positive integer'')"

definition opt_positive :: "string \<Rightarrow> int option \<Rightarrow> bool \<times> string" where
  "opt_positive name v =
     ((case v of None \<Rightarrow> True | Some i \<Rightarrow> 0 < i), name @ '' must be a positive integer'')"

definition opt_non_empty :: "string \<Rightarrow> string option \<Rightarrow> bool \<times> string" where
  "opt_non_empty name v = (v \<noteq> Some [], name @ '' must be a non-empty string when provided'')"

lemmas check_defs = non_negative_def opt_non_negative_def positive_def opt_positive_def
  opt_non_empty_def

section \<open>File map records\<close>

record file_record =
  fr_file_id :: string
  fr_path :: string
  fr_type :: string
  fr_status :: string
  fr_updated_at :: int
  fr_content_hash :: "string option"
  fr_last_known_revision :: "int option"
  fr_conflict_source_file_id :: "string option"
  fr_meta :: "dict option"

definition FileRecord :: "file_record \<Rightarrow> file_record result" where
  "FileRecord r = validate
     [(fr_file_id r \<noteq> [], ''file_id must be non-empty''),
      (fr_path r \<noteq> [], ''path must be non-empty''),
      (fr_type r \<in> set VALID_FILE_TYPES, ''unsupported file type: '' @ fr_type r),
      (fr_status r \<in> set VALID_FILE_STATUSES, ''unsupported file status: '' @ fr_status r),
      non_negative ''updated_at'' (fr_updated_at r),
      opt_non_negative ''last_known_revision'' (fr_last_known_revision r),
      (fr_status r = ''conflict_copy'' \<longrightarrow>
         fr_conflict_source_file_id r \<noteq> None \<and> fr_conflict_source_file_id r \<noteq> Some [],
       ''conflict_copy records must include conflict_source_file_id'')] r"

definition wf_file_record :: "file_record \<Rightarrow> bool" where
  "wf_file_record r = (FileRecord r = Inr r)"

definition file_record_to_dict :: "file_record \<Rightarrow> dict" where
  "file_record_to_dict r =
     [(''file_id'', JStr (fr_file_id r)), (''path'', JStr (fr_path r)),
      (''type'', JStr (fr_type r)), (''status'', JStr (fr_status r)),
      (''updated_at'', JInt (fr_updated_at r))]
     @ opt_entry ''content_hash'' JStr (fr_content_hash r)
     @ (if fr_last_known_revision r \<noteq> None \<or> fr_status r = ''conflict_copy''
        then [(''last_known_revision'', opt_json JInt (fr_last_known_revision r))] else [])
     @ opt_entry ''conflict_source_file_id'' JStr (fr_conflict_source_file_id r)
     @ opt_entry ''meta'' JObj (fr_meta r)"

definition file_record_from_dict :: "dict \<Rightarrow> file_record result" where
  "file_record_from_dict d =
     rbind (rbind (ditem d ''file_id'') (as_str ''file_id'')) (\<lambda>file_id.
     rbind (rbind (ditem d ''path'') (as_str ''path'')) (\<lambda>path.
     rbind (rbind (ditem d ''type'') (as_enum ''type'')) (\<lambda>type.
     rbind (rbind (ditem d ''status'') (as_enum ''status'')) (\<lambda>status.
     rbind (ditem d ''updated_at'') (\<lambda>updated_at.
     rbind (as_opt_str ''content_hash'' (dget d ''content_hash'')) (\<lambda>content_hash.
     rbind (as_opt_str ''conflict_source_file_id'' (dget d ''conflict_source_file_id''))
       (\<lambda>conflict_source.
     rbind (as_opt_dict ''meta'' (dget d ''meta'')) (\<lambda>meta.
     FileRecord \<lparr>fr_file_id = file_id, fr_path = path, fr_type = type, fr_status = status,
       fr_updated_at = as_int updated_at, fr_content_hash = content_hash,
       fr_last_known_revision = as_opt_int (dget d ''last_known_revision''),
       fr_conflict_source_file_id = conflict_source, fr_meta = meta\<rparr>))))))))"

record filemap_document =
  fd_vault_id :: string
  fd_updated_at :: int
  fd_files :: "file_record list"
  fd_schema_version :: string
  fd_meta :: "dict option"

definition FileMapDocument :: "filemap_document \<Rightarrow> filemap_document result" where
  "FileMapDocument d = validate
     [(fd_schema_version d = ''v1'', ''unsupported schema_version''),
      (fd_vault_id d \<noteq> [], ''vault_id must be non-empty''),
      non_negative ''updated_at'' (fd_updated_at d)] d"

definition wf_document :: "filemap_document \<Rightarrow> bool" where
  "wf_document d \<longleftrightarrow> FileMapDocument d = Inr d \<and> list_all wf_file_record (fd_files d)"

definition fd_sorted_files :: "filemap_document \<Rightarrow> file_record list" where
  "fd_sorted_files d = sort_key (\<lambda>r. (fr_path r, fr_file_id r)) (fd_files d)"

definition filemap_to_dict :: "filemap_document \<Rightarrow> dict" where
  "filemap_to_dict d =
     [(''schema_version'', JStr (fd_schema_version d)), (''vault_id'', JStr (fd_vault_id d)),
      (''updated_at'', JInt (fd_updated_at d)),
      (''files'', JArr (map (JObj \<circ> file_record_to_dict) (fd_sorted_files d)))]
     @ opt_entry ''meta'' JObj (fd_meta d)"

definition schema_of :: "dict \<Rightarrow> string result" where
  "schema_of d = (case map_of d ''schema_version'' of None \<Rightarrow> Inr ''v1''
                  | Some v \<Rightarrow> as_enum ''schema_version'' v)"

definition filemap_from_dict :: "dict \<Rightarrow> filemap_document result" where
  "filemap_from_dict d =
     rbind (schema_of d) (\<lambda>schema.
     rbind (rbind (ditem d ''vault_id'') (as_str ''vault_id'')) (\<lambda>vault_id.
     rbind (ditem d ''updated_at'') (\<lambda>updated_at.
     rbind (rbind (get_list d ''files'')
              (mapM (\<lambda>v. rbind (as_object v) file_record_from_dict))) (\<lambda>files.
     rbind (as_opt_dict ''meta'' (dget d ''meta'')) (\<lambda>meta.
     FileMapDocument \<lparr>fd_vault_id = vault_id, fd_updated_at = as_int updated_at,
       fd_files = files, fd_schema_version = schema, fd_meta = meta\<rparr>)))))"

definition replace_files ::
  "filemap_document \<Rightarrow> file_record list \<Rightarrow> int \<Rightarrow> filemap_document result" where
  "replace_files d files updated_at =
     FileMapDocument \<lparr>fd_vault_id = fd_vault_id d, fd_updated_at = updated_at,
       fd_files = files, fd_schema_version = fd_schema_version d, fd_meta = fd_meta d\<rparr>"

lemma replace_files_eq_Inr [result_simps]:
  "replace_files d files t = Inr d' \<longleftrightarrow>
     d' = d\<lparr>fd_files := files, fd_updated_at := t\<rparr> \<and> fd_schema_version d = ''v1''
     \<and> fd_vault_id d \<noteq> [] \<and> 0 \<le> t"
  by (auto simp: replace_files_def FileMapDocument_def result_simps check_defs)

lemma wf_file_record_iff:
  "wf_file_record r \<longleftrightarrow>
     fr_file_id r \<noteq> [] \<and> fr_path r \<noteq> [] \<and> fr_type r \<in> set VALID_FILE_TYPES
     \<and> fr_status r \<in> set VALID_FILE_STATUSES \<and> 0 \<le> fr_updated_at r
     \<and> (\<forall>i. fr_last_known_revision r = Some i \<longrightarrow> 0 \<le> i)
     \<and> (fr_status r = ''conflict_copy'' \<longrightarrow>
          fr_conflict_source_file_id r \<noteq> None \<and> fr_conflict_source_file_id r \<noteq> Some [])"
  by (auto simp: wf_file_record_def FileRecord_def result_simps check_defs split: option.splits)

lemma FileRecord_eq_Inr [result_simps]: "FileRecord r = Inr r' \<longleftrightarrow> r' = r \<and> wf_file_record r"
  by (auto simp: wf_file_record_def FileRecord_def result_simps)

lemma wf_document_iff:
  "wf_document d \<longleftrightarrow> fd_schema_version d = ''v1'' \<and> fd_vault_id d \<noteq> [] \<and> 0 \<le> fd_updated_at d
     \<and> (\<forall>r \<in> set (fd_files d). wf_file_record r)"
  by (auto simp: wf_document_def FileMapDocument_def result_simps check_defs list_all_iff)

lemma set_fd_sorted_files [simp]: "set (fd_sorted_files d) = set (fd_files d)"
  by (simp add: fd_sorted_files_def)

section \<open>Tombstones\<close>

record tombstone =
  tb_file_id :: string
  tb_deleted_revision :: "int option"
  tb_deleted_at :: int
  tb_local_delete_seq :: int
  tb_last_known_path :: "string option"
  tb_deleted_by_device :: "string option"
  tb_meta :: "dict option"

definition TombstoneRecord :: "tombstone \<Rightarrow> tombstone result" where
  "TombstoneRecord t = validate
     [(tb_file_id t \<noteq> [], ''file_id must be non-empty''),
      non_negative ''local_delete_seq'' (tb_local_delete_seq t),
      non_negative ''deleted_at'' (tb_deleted_at t),
      opt_positive ''deleted_revision'' (tb_deleted_revision t)] t"

definition wf_tombstone :: "tombstone \<Rightarrow> bool" where
  "wf_tombstone t = (TombstoneRecord t = Inr t)"

definition tombstone_to_dict :: "tombstone \<Rightarrow> dict" where
  "tombstone_to_dict t =
     [(''file_id'', JStr (tb_file_id t)),
      (''deleted_revision'', opt_json JInt (tb_deleted_revision t)),
      (''deleted_at'', JInt (tb_deleted_at t)),
      (''local_delete_seq'', JInt (tb_local_delete_seq t))]
     @ opt_entry ''last_known_path'' JStr (tb_last_known_path t)
     @ opt_entry ''deleted_by_device'' JStr (tb_deleted_by_device t)
     @ opt_entry ''meta'' JObj (tb_meta t)"

definition tombstone_from_dict :: "dict \<Rightarrow> tombstone result" where
  "tombstone_from_dict d =
     rbind (rbind (ditem d ''file_id'') (as_str ''file_id'')) (\<lambda>file_id.
     rbind (ditem d ''deleted_at'') (\<lambda>deleted_at.
     rbind (ditem d ''local_delete_seq'') (\<lambda>local_delete_seq.
     rbind (as_opt_str ''last_known_path'' (dget d ''last_known_path'')) (\<lambda>last_known_path.
     rbind (as_opt_str ''deleted_by_device'' (dget d ''deleted_by_device'')) (\<lambda>by_device.
     rbind (as_opt_dict ''meta'' (dget d ''meta'')) (\<lambda>meta.
     TombstoneRecord \<lparr>tb_file_id = file_id,
       tb_deleted_revision = as_opt_int (dget d ''deleted_revision''),
       tb_deleted_at = as_int deleted_at, tb_local_delete_seq = as_int local_delete_seq,
       tb_last_known_path = last_known_path, tb_deleted_by_device = by_device,
       tb_meta = meta\<rparr>))))))"

lemma wf_tombstone_iff:
  "wf_tombstone t \<longleftrightarrow>
     tb_file_id t \<noteq> [] \<and> 0 \<le> tb_local_delete_seq t \<and> 0 \<le> tb_deleted_at t
     \<and> (\<forall>i. tb_deleted_revision t = Some i \<longrightarrow> 0 < i)"
  by (auto simp: wf_tombstone_def TombstoneRecord_def result_simps check_defs split: option.splits)

lemma TombstoneRecord_eq_Inr [result_simps]:
  "TombstoneRecord t = Inr t' \<longleftrightarrow> t' = t \<and> wf_tombstone t"
  by (auto simp: wf_tombstone_def TombstoneRecord_def result_simps)

section \<open>Manifest records\<close>

record manifest_file =
  mf_file_id :: string
  mf_path :: string
  mf_type :: string
  mf_content_hash :: string
  mf_blob_id :: string
  mf_size :: int
  mf_mtime :: int
  mf_mime_type :: "string option"
  mf_meta :: "dict option"

definition ManifestFileEntry :: "manifest_file \<Rightarrow> manifest_file result" where
  "ManifestFileEntry e = validate
     [(mf_file_id e \<noteq> [], ''file_id must be non-empty''),
      (mf_path e \<noteq> [], ''path must be non-empty''),
      (mf_type e \<in> set VALID_FILE_TYPES, ''unsupported file type: '' @ mf_type e),
      (mf_content_hash e \<noteq> [], ''content_hash must be non-empty''),
      (mf_blob_id e \<noteq> [], ''blob_id must be non-empty''),
      non_negative ''size'' (mf_size e),
      non_negative ''mtime'' (mf_mtime e)] e"

definition wf_manifest_file :: "manifest_file \<Rightarrow> bool" where
  "wf_manifest_file e = (ManifestFileEntry e = Inr e)"

definition manifest_file_to_dict :: "manifest_file \<Rightarrow> dict" where
  "manifest_file_to_dict e =
     [(''file_id'', JStr (mf_file_id e)), (''path'', JStr (mf_path e)),
      (''type'', JStr (mf_type e)), (''content_hash'', JStr (mf_content_hash e)),
      (''blob_id'', JStr (mf_blob_id e)), (''size'', JInt (mf_size e)),
      (''mtime'', JInt (mf_mtime e))]
     @ opt_entry ''mime_type'' JStr (mf_mime_type e)
     @ opt_entry ''meta'' JObj (mf_meta e)"

definition manifest_file_from_dict :: "dict \<Rightarrow> manifest_file result" where
  "manifest_file_from_dict d =
     rbind (rbind (ditem d ''file_id'') (as_str ''file_id'')) (\<lambda>file_id.
     rbind (rbind (ditem d ''path'') (as_str ''path'')) (\<lambda>path.
     rbind (rbind (ditem d ''type'') (as_enum ''type'')) (\<lambda>type.
     rbind (rbind (ditem d ''content_hash'') (as_str ''content_hash'')) (\<lambda>content_hash.
     rbind (rbind (ditem d ''blob_id'') (as_str ''blob_id'')) (\<lambda>blob_id.
     rbind (ditem d ''size'') (\<lambda>size.
     rbind (ditem d ''mtime'') (\<lambda>mtime.
     rbind (as_opt_str ''mime_type'' (dget d ''mime_type'')) (\<lambda>mime_type.
     rbind (as_opt_dict ''meta'' (dget d ''meta'')) (\<lambda>meta.
     ManifestFileEntry \<lparr>mf_file_id = file_id, mf_path = path, mf_type = type,
       mf_content_hash = content_hash, mf_blob_id = blob_id, mf_size = as_int size,
       mf_mtime = as_int mtime, mf_mime_type = mime_type, mf_meta = meta\<rparr>)))))))))"

record manifest =
  mn_vault_id :: string
  mn_revision :: int
  mn_base_revision :: int
  mn_created_by_device :: string
  mn_created_at :: int
  mn_files :: "manifest_file list"
  mn_tombstones :: "tombstone list"
  mn_summary_hash :: string
  mn_schema_version :: string
  mn_meta :: "dict option"

definition ManifestRecord :: "manifest \<Rightarrow> manifest result" where
  "ManifestRecord m = validate
     [(mn_schema_version m = ''v1'', ''unsupported schema_version''),
      (mn_vault_id m \<noteq> [], ''vault_id must be non-empty''),
      (mn_created_by_device m \<noteq> [], ''created_by_device must be non-empty''),
      (mn_summary_hash m \<noteq> [], ''summary_hash must be non-empty''),
      non_negative ''revision'' (mn_revision m),
      non_negative ''base_revision'' (mn_base_revision m),
      non_negative ''created_at'' (mn_created_at m)] m"

definition wf_manifest :: "manifest \<Rightarrow> bool" where
  "wf_manifest m \<longleftrightarrow> ManifestRecord m = Inr m
     \<and> list_all wf_manifest_file (mn_files m) \<and> list_all wf_tombstone (mn_tombstones m)"

definition mn_sorted_files :: "manifest \<Rightarrow> manifest_file list" where
  "mn_sorted_files m = sort_key (\<lambda>e. (mf_path e, mf_file_id e)) (mn_files m)"

definition mn_sorted_tombstones :: "manifest \<Rightarrow> tombstone list" where
  "mn_sorted_tombstones m = sort_key tb_file_id (mn_tombstones m)"

definition manifest_to_dict :: "manifest \<Rightarrow> dict" where
  "manifest_to_dict m =
     [(''schema_version'', JStr (mn_schema_version m)), (''vault_id'', JStr (mn_vault_id m)),
      (''revision'', JInt (mn_revision m)), (''base_revision'', JInt (mn_base_revision m)),
      (''created_by_device'', JStr (mn_created_by_device m)),
      (''created_at'', JInt (mn_created_at m)),
      (''files'', JArr (map (JObj \<circ> manifest_file_to_dict) (mn_sorted_files m))),
      (''tombstones'', JArr (map (JObj \<circ> tombstone_to_dict) (mn_sorted_tombstones m))),
      (''summary_hash'', JStr (mn_summary_hash m))]
     @ opt_entry ''meta'' JObj (mn_meta m)"

definition manifest_from_dict :: "dict \<Rightarrow> manifest result" where
  "manifest_from_dict d =
     rbind (schema_of d) (\<lambda>schema.
     rbind (rbind (ditem d ''vault_id'') (as_str ''vault_id'')) (\<lambda>vault_id.
     rbind (ditem d ''revision'') (\<lambda>revision.
     rbind (ditem d ''base_revision'') (\<lambda>base_revision.
     rbind (rbind (ditem d ''created_by_device'') (as_str ''created_by_device'')) (\<lambda>device.
     rbind (ditem d ''created_at'') (\<lambda>created_at.
     rbind (rbind (get_list d ''files'')
              (mapM (\<lambda>v. rbind (as_object v) manifest_file_from_dict))) (\<lambda>files.
     rbind (rbind (get_list d ''tombstones'')
              (mapM (\<lambda>v. rbind (as_object v) tombstone_from_dict))) (\<lambda>tombstones.
     rbind (rbind (ditem d ''summary_hash'') (as_str ''summary_hash'')) (\<lambda>summary.
     rbind (as_opt_dict ''meta'' (dget d ''meta'')) (\<lambda>meta.
     ManifestRecord \<lparr>mn_vault_id = vault_id, mn_revision = as_int revision,
       mn_base_revision = as_int base_revision, mn_created_by_device = device,
       mn_created_at = as_int created_at, mn_files = files, mn_tombstones = tombstones,
       mn_summary_hash = summary, mn_schema_version = schema, mn_meta = meta\<rparr>))))))))))"

lemma wf_manifest_file_iff:
  "wf_manifest_file e \<longleftrightarrow>
     mf_file_id e \<noteq> [] \<and> mf_path e \<noteq> [] \<and> mf_type e \<in> set VALID_FILE_TYPES
     \<and> mf_content_hash e \<noteq> [] \<and> mf_blob_id e \<noteq> [] \<and> 0 \<le> mf_size e \<and> 0 \<le> mf_mtime e"
  by (auto simp: wf_manifest_file_def ManifestFileEntry_def result_simps check_defs)

lemma ManifestFileEntry_eq_Inr [result_simps]:
  "ManifestFileEntry e = Inr e' \<longleftrightarrow> e' = e \<and> wf_manifest_file e"
  by (auto simp: wf_manifest_file_def ManifestFileEntry_def result_simps)

lemma ManifestRecord_eq_Inr [result_simps]:
  "ManifestRecord m = Inr m' \<longleftrightarrow> m' = m \<and> mn_schema_version m = ''v1'' \<and> mn_vault_id m \<noteq> []
     \<and> mn_created_by_device m \<noteq> [] \<and> mn_summary_hash m \<noteq> [] \<and> 0 \<le> mn_revision m
     \<and> 0 \<le> mn_base_revision m \<and> 0 \<le> mn_created_at m"
  by (auto simp: ManifestRecord_def result_simps check_defs)

lemma set_mn_sorted [simp]:
  "set (mn_sorted_files m) = set (mn_files m)"
  "set (mn_sorted_tombstones m) = set (mn_tombstones m)"
  by (simp_all add: mn_sorted_files_def mn_sorted_tombstones_def)

section \<open>Reading back what was written\<close>

lemma map_of_opt_entry [simp]:
  "map_of (opt_entry k f x) k' = (if k' = k then map_option f x else None)"
  by (cases x) auto

lemma map_add_apply: "(f ++ g) k = (case g k of None \<Rightarrow> f k | Some v \<Rightarrow> Some v)"
  by (simp add: map_add_def)

lemma opt_readers [simp]:
  "as_opt_str k (opt_json JStr x) = Inr x"
  "as_opt_dict k (opt_json JObj y) = Inr y"
  "as_opt_int (opt_json JInt z) = z"
  by (cases x, simp_all) (cases y, simp_all, cases z, simp_all)

lemma opt_json_conv:
  "(case map_option f x of None \<Rightarrow> JNull | Some v \<Rightarrow> v) = opt_json f x"
  by (cases x) auto

lemmas dict_read = dget_def ditem_def map_add_apply opt_json_conv

lemma tombstone_round_trip [simp]:
  "wf_tombstone t \<Longrightarrow> tombstone_from_dict (tombstone_to_dict t) = Inr t"
  by (cases t; cases "tb_last_known_path t"; cases "tb_deleted_by_device t"; cases "tb_meta t")
     (simp_all add: tombstone_from_dict_def tombstone_to_dict_def dict_read TombstoneRecord_eq_Inr)

lemma manifest_file_round_trip [simp]:
  "wf_manifest_file t \<Longrightarrow> manifest_file_from_dict (manifest_file_to_dict t) = Inr t"
  by (cases t; cases "mf_mime_type t"; cases "mf_meta t")
     (simp_all add: manifest_file_from_dict_def manifest_file_to_dict_def dict_read
        ManifestFileEntry_eq_Inr)

lemma file_record_round_trip [simp]:
  "wf_file_record t \<Longrightarrow> file_record_from_dict (file_record_to_dict t) = Inr t"
  by (cases t; cases "fr_content_hash t"; cases "fr_last_known_revision t";
      cases "fr_conflict_source_file_id t"; cases "fr_meta t")
     (auto simp: file_record_from_dict_def file_record_to_dict_def dict_read FileRecord_eq_Inr)

lemma mapM_objects:
  "(\<And>x. x \<in> set xs \<Longrightarrow> g (f x) = Inr x) \<Longrightarrow>
    mapM (\<lambda>v. rbind (as_object v) g) (map (JObj \<circ> f) xs) = Inr xs"
  by (induction xs) auto

lemma manifest_round_trip:
  assumes "wf_manifest m"
  shows "manifest_from_dict (manifest_to_dict m)
     = Inr (m\<lparr>mn_files := mn_sorted_files m, mn_tombstones := mn_sorted_tombstones m\<rparr>)"
proof -
  have "mapM (\<lambda>v. rbind (as_object v) manifest_file_from_dict)
      (map (JObj \<circ> manifest_file_to_dict) (mn_sorted_files m)) = Inr (mn_sorted_files m)"
    using assms by (intro mapM_objects) (simp add: wf_manifest_def list_all_iff)
  moreover have "mapM (\<lambda>v. rbind (as_object v) tombstone_from_dict)
      (map (JObj \<circ> tombstone_to_dict) (mn_sorted_tombstones m)) = Inr (mn_sorted_tombstones m)"
    using assms by (intro mapM_objects) (simp add: wf_manifest_def list_all_iff)
  moreover have "ManifestRecord m = Inr m" using assms by (simp add: wf_manifest_def)
  ultimately show ?thesis
    by (cases "mn_meta m")
       (simp_all add: manifest_from_dict_def manifest_to_dict_def dict_read get_list_def
          schema_of_def ManifestRecord_eq_Inr)
qed

lemma filemap_round_trip:
  assumes "wf_document d"
  shows "filemap_from_dict (filemap_to_dict d) = Inr (d\<lparr>fd_files := fd_sorted_files d\<rparr>)"
proof -
  have "mapM (\<lambda>v. rbind (as_object v) file_record_from_dict)
      (map (JObj \<circ> file_record_to_dict) (fd_sorted_files d)) = Inr (fd_sorted_files d)"
    using assms by (intro mapM_objects) (simp add: wf_document_iff)
  with assms show ?thesis
    by (cases "fd_meta d")
       (simp_all add: filemap_from_dict_def filemap_to_dict_def dict_read get_list_def
          schema_of_def wf_document_iff FileMapDocument_def check_defs)
qed

end
