(* ===== verification/Operations.thy ===== *)
theory Operations
  imports Models
begin

text \<open>
  \<open>vault_core/operations.py\<close>: the edits of the file map document. Each operation returns the
  new document or the exception of the check that stopped it. The specification below reads a
  document as the map from live paths to file identifiers and every operation as an update of
  that map; the invariant is that identifiers and live paths are unique.
\<close>

section \<open>The operations\<close>

definition assert_path_available ::
  "filemap_document \<Rightarrow> string \<Rightarrow> string option \<Rightarrow> unit result" where
  "assert_path_available d path ignore_file_id =
     (if \<exists>r \<in> set (fd_files d). \<not> (ignore_file_id \<noteq> None \<and> Some (fr_file_id r) = ignore_file_id)
           \<and> fr_status r \<noteq> ''deleted'' \<and> fr_path r = path
      then Inl (ValueError (''path already occupied: '' @ path)) else Inr ())"

definition add_file ::
  "filemap_document \<Rightarrow> string \<Rightarrow> string \<Rightarrow> string \<Rightarrow> int \<Rightarrow> string option \<Rightarrow> int option
     \<Rightarrow> filemap_document result" where
  "add_file d file_id path type updated_at content_hash last_known_revision =
     rbind (assert_path_available d path None) (\<lambda>_.
     rbind (FileRecord \<lparr>fr_file_id = file_id, fr_path = path, fr_type = type,
         fr_status = ''active'', fr_updated_at = updated_at, fr_content_hash = content_hash,
         fr_last_known_revision = last_known_revision, fr_conflict_source_file_id = None,
         fr_meta = None\<rparr>) (\<lambda>r.
     replace_files d (fd_files d @ [r]) updated_at))"

definition rename_file ::
  "filemap_document \<Rightarrow> string \<Rightarrow> string \<Rightarrow> int \<Rightarrow> filemap_document result" where
  "rename_file d file_id new_path updated_at =
     rbind (assert_path_available d new_path (Some file_id)) (\<lambda>_.
     rbind (mapM (\<lambda>r. if fr_file_id r = file_id
              then FileRecord (r\<lparr>fr_path := new_path, fr_updated_at := updated_at\<rparr>)
              else Inr r) (fd_files d)) (\<lambda>files.
     if \<not> (\<exists>r \<in> set (fd_files d). fr_file_id r = file_id)
     then Inl (KeyError (''file_id not found: '' @ file_id))
     else replace_files d files updated_at))"

definition register_conflict_copy ::
  "filemap_document \<Rightarrow> string \<Rightarrow> string \<Rightarrow> string \<Rightarrow> int \<Rightarrow> string option
     \<Rightarrow> filemap_document result" where
  "register_conflict_copy d source_file_id conflict_file_id conflict_path updated_at content_hash =
     (case find (\<lambda>r. fr_file_id r = source_file_id) (fd_files d) of
        None \<Rightarrow> Inl (KeyError (''source file_id not found: '' @ source_file_id))
      | Some source \<Rightarrow>
          rbind (assert_path_available d conflict_path None) (\<lambda>_.
          rbind (FileRecord \<lparr>fr_file_id = conflict_file_id, fr_path = conflict_path,
              fr_type = fr_type source, fr_status = ''conflict_copy'',
              fr_updated_at = updated_at, fr_content_hash = content_hash,
              fr_last_known_revision = None,
              fr_conflict_source_file_id = Some source_file_id, fr_meta = None\<rparr>) (\<lambda>r.
          replace_files d (fd_files d @ [r]) updated_at)))"

definition remove_conflict_copy ::
  "filemap_document \<Rightarrow> string \<Rightarrow> int \<Rightarrow> filemap_document result" where
  "remove_conflict_copy d file_id updated_at =
     (if \<exists>r \<in> set (fd_files d). fr_file_id r = file_id \<and> fr_status r \<noteq> ''conflict_copy''
      then Inl (ValueError (''file_id is not a conflict_copy: '' @ file_id))
      else if \<not> (\<exists>r \<in> set (fd_files d). fr_file_id r = file_id)
      then Inl (KeyError (''conflict file_id not found: '' @ file_id))
      else replace_files d (filter (\<lambda>r. fr_file_id r \<noteq> file_id) (fd_files d)) updated_at)"

definition deleted_record :: "int \<Rightarrow> int option \<Rightarrow> file_record \<Rightarrow> file_record" where
  "deleted_record deleted_at deleted_revision r =
     \<lparr>fr_file_id = fr_file_id r, fr_path = fr_path r, fr_type = fr_type r,
      fr_status = ''deleted'', fr_updated_at = deleted_at, fr_content_hash = fr_content_hash r,
      fr_last_known_revision = (if deleted_revision \<noteq> None then deleted_revision
                                else fr_last_known_revision r),
      fr_conflict_source_file_id = None, fr_meta = fr_meta r\<rparr>"

text \<open>The loop leaves the last record with the identifier in \<open>target\<close>.\<close>

definition mark_deleted ::
  "filemap_document \<Rightarrow> string \<Rightarrow> int \<Rightarrow> int \<Rightarrow> int option \<Rightarrow> string option
     \<Rightarrow> (filemap_document \<times> tombstone) result" where
  "mark_deleted d file_id deleted_at local_delete_seq deleted_revision deleted_by_device =
     rbind (mapM (\<lambda>r. if fr_file_id r = file_id
              then FileRecord (deleted_record deleted_at deleted_revision r)
              else Inr r) (fd_files d)) (\<lambda>files.
     (case dict_of fr_file_id (fd_files d) file_id of
        None \<Rightarrow> Inl (KeyError (''file_id not found: '' @ file_id))
      | Some target \<Rightarrow>
          rbind (TombstoneRecord \<lparr>tb_file_id = fr_file_id target,
              tb_deleted_revision = deleted_revision, tb_deleted_at = deleted_at,
              tb_local_delete_seq = local_delete_seq, tb_last_known_path = Some (fr_path target),
              tb_deleted_by_device = deleted_by_device, tb_meta = None\<rparr>) (\<lambda>t.
          rbind (replace_files d files deleted_at) (\<lambda>d'. Inr (d', t)))))"

section \<open>Edits as commands\<close>

datatype doc_edit =
    AddFile string string string int "string option" "int option"
  | RenameFile string string int
  | RegisterConflictCopy string string string int "string option"
  | RemoveConflictCopy string int
  | MarkDeleted string int int "int option" "string option"

fun apply_edit :: "filemap_document \<Rightarrow> doc_edit \<Rightarrow> filemap_document result" where
  "apply_edit d (AddFile i p ty at h rv) = add_file d i p ty at h rv"
| "apply_edit d (RenameFile i p at) = rename_file d i p at"
| "apply_edit d (RegisterConflictCopy s i p at h) = register_conflict_copy d s i p at h"
| "apply_edit d (RemoveConflictCopy i at) = remove_conflict_copy d i at"
| "apply_edit d (MarkDeleted i at sq rv dev) = rbind (mark_deleted d i at sq rv dev) (Inr \<circ> fst)"

text \<open>The identifier an edit introduces; the callers draw it from \<open>uuid4\<close>.\<close>

fun new_id :: "doc_edit \<Rightarrow> string option" where
  "new_id (AddFile i p ty at h rv) = Some i"
| "new_id (RegisterConflictCopy s i p at h) = Some i"
| "new_id _ = None"

definition live :: "file_record \<Rightarrow> bool" where
  "live r \<longleftrightarrow> fr_status r \<noteq> ''deleted''"

definition unique_document :: "filemap_document \<Rightarrow> bool" where
  "unique_document d \<longleftrightarrow> distinct (map fr_file_id (fd_files d))
     \<and> distinct (map fr_path (filter live (fd_files d)))"

text \<open>The abstraction: live paths to identifiers, and the edits on it.\<close>

definition path_map :: "filemap_document \<Rightarrow> string \<Rightarrow> string option" where
  "path_map d p = map_option fr_file_id (dict_of fr_path (filter live (fd_files d)) p)"

definition drop_id :: "string \<Rightarrow> (string \<Rightarrow> string option) \<Rightarrow> string \<Rightarrow> string option" where
  "drop_id i m = (\<lambda>p. if m p = Some i then None else m p)"

fun edit_paths :: "(string \<Rightarrow> string option) \<Rightarrow> doc_edit \<Rightarrow> string \<Rightarrow> string option" where
  "edit_paths m (AddFile i p ty at h rv) = m(p \<mapsto> i)"
| "edit_paths m (RenameFile i p at) = (if i \<in> ran m then (drop_id i m)(p \<mapsto> i) else m)"
| "edit_paths m (RegisterConflictCopy s i p at h) = m(p \<mapsto> i)"
| "edit_paths m (RemoveConflictCopy i at) = drop_id i m"
| "edit_paths m (MarkDeleted i at sq rv dev) = drop_id i m"

section \<open>What the operations do to the records\<close>

lemma mapM_edit [result_simps]:
  "mapM (\<lambda>r. if P r then FileRecord (f r) else Inr r) xs = Inr ys \<longleftrightarrow>
     ys = map (\<lambda>r. if P r then f r else r) xs \<and> (\<forall>r \<in> set xs. P r \<longrightarrow> wf_file_record (f r))"
  by (induction xs arbitrary: ys) (auto simp: result_simps mapM_eq_Inr)

lemma assert_path_available_eq_Inr [result_simps]:
  "assert_path_available d p ign = Inr u \<longleftrightarrow>
     (\<forall>r \<in> set (fd_files d). live r \<and> fr_path r = p \<longrightarrow> ign = Some (fr_file_id r))"
  by (auto simp: assert_path_available_def live_def)

text \<open>\<open>appended d r d'\<close>: one live record at a path no live record had.\<close>

definition appended :: "filemap_document \<Rightarrow> file_record \<Rightarrow> filemap_document \<Rightarrow> bool" where
  "appended d r d' \<longleftrightarrow> live r \<and> wf_file_record r \<and> fd_files d' = fd_files d @ [r]
     \<and> fd_schema_version d' = ''v1'' \<and> fd_vault_id d' \<noteq> [] \<and> 0 \<le> fd_updated_at d'
     \<and> (\<forall>q \<in> set (fd_files d). live q \<longrightarrow> fr_path q \<noteq> fr_path r)"

text \<open>\<open>edited f i d d'\<close>: the records with the identifier are replaced by their image.\<close>

definition edited ::
  "(file_record \<Rightarrow> file_record) \<Rightarrow> string \<Rightarrow> filemap_document \<Rightarrow> filemap_document \<Rightarrow> bool" where
  "edited f i d d' \<longleftrightarrow>
     fd_files d' = map (\<lambda>r. if fr_file_id r = i then f r else r) (fd_files d)
     \<and> fd_schema_version d' = ''v1'' \<and> fd_vault_id d' \<noteq> [] \<and> 0 \<le> fd_updated_at d'
     \<and> (\<forall>r \<in> set (fd_files d). fr_file_id r = i \<longrightarrow> wf_file_record (f r) \<and> fr_file_id (f r) = i)
     \<and> i \<in> fr_file_id ` set (fd_files d)"

lemma add_file_appended:
  "add_file d i p ty at h rv = Inr d' \<Longrightarrow> \<exists>r. fr_file_id r = i \<and> fr_path r = p \<and> appended d r d'"
  by (auto simp: add_file_def result_simps appended_def) (auto simp: live_def)

lemma register_conflict_copy_appended:
  "register_conflict_copy d s i p at h = Inr d' \<Longrightarrow>
     \<exists>r. fr_file_id r = i \<and> fr_path r = p \<and> appended d r d'"
  by (auto simp: register_conflict_copy_def result_simps appended_def split: option.splits)
     (auto simp: live_def)

lemma rename_file_edited:
  "rename_file d i p at = Inr d' \<longleftrightarrow>
     edited (\<lambda>r. r\<lparr>fr_path := p, fr_updated_at := at\<rparr>) i d d' \<and>
     (\<forall>r \<in> set (fd_files d). live r \<and> fr_path r = p \<longrightarrow> fr_file_id r = i) \<and>
     d' = d\<lparr>fd_files := fd_files d', fd_updated_at := at\<rparr>"
  by (auto simp: rename_file_def result_simps mapM_edit edited_def)

lemma mark_deleted_edited:
  "mark_deleted d i at sq rv dev = Inr (d', t) \<Longrightarrow>
     edited (deleted_record at rv) i d d' \<and> wf_tombstone t \<and>
     (\<exists>r \<in> set (fd_files d). fr_file_id r = i \<and> tb_last_known_path t = Some (fr_path r))
     \<and> tb_file_id t = i \<and> tb_deleted_revision t = rv \<and> tb_deleted_at t = at
     \<and> tb_local_delete_seq t = sq \<and> tb_deleted_by_device t = dev"
  by (auto simp: mark_deleted_def result_simps mapM_edit edited_def deleted_record_def
      split: option.splits dest!: dict_of_SomeD)

lemma remove_conflict_copy_eq_Inr:
  "remove_conflict_copy d i at = Inr d' \<longleftrightarrow>
     (\<forall>r \<in> set (fd_files d). fr_file_id r = i \<longrightarrow> fr_status r = ''conflict_copy'')
     \<and> i \<in> fr_file_id ` set (fd_files d) \<and> fd_schema_version d = ''v1''
     \<and> fd_vault_id d \<noteq> [] \<and> 0 \<le> at
     \<and> d' = d\<lparr>fd_files := filter (\<lambda>r. fr_file_id r \<noteq> i) (fd_files d), fd_updated_at := at\<rparr>"
  by (auto simp: remove_conflict_copy_def result_simps)

lemma live_deleted_record [simp]: "\<not> live (deleted_record at rv r)"
  by (simp add: live_def deleted_record_def)

lemma live_update [simp]:
  "live (r\<lparr>fr_path := p\<rparr>) = live r" "live (r\<lparr>fr_updated_at := t\<rparr>) = live r"
  by (simp_all add: live_def)

section \<open>The invariant\<close>

lemma appended_unique:
  "appended d r d' \<Longrightarrow> unique_document d \<Longrightarrow> fr_file_id r \<notin> fr_file_id ` set (fd_files d)
     \<Longrightarrow> unique_document d'"
  by (auto simp: appended_def unique_document_def)

lemma appended_wf: "appended d r d' \<Longrightarrow> wf_document d \<Longrightarrow> wf_document d'"
  by (auto simp: appended_def wf_document_iff)

lemma edited_wf: "edited f i d d' \<Longrightarrow> wf_document d \<Longrightarrow> wf_document d'"
  by (auto simp: edited_def wf_document_iff)

lemma edited_ids: "edited f i d d' \<Longrightarrow> map fr_file_id (fd_files d') = map fr_file_id (fd_files d)"
  by (auto simp: edited_def)


lemma edited_removed:
  assumes "\<And>r. \<not> live (f r)"
  shows "filter live (map (\<lambda>r. if fr_file_id r = i then f r else r) rs)
    = filter live (filter (\<lambda>r. fr_file_id r \<noteq> i) rs)"
  using assms by (induction rs) auto

lemma distinct_map_filter_sub: "distinct (map g (filter P xs)) \<Longrightarrow> distinct (map g (filter (\<lambda>x. Q x \<and> P x) xs))"
  by (induction xs) (auto split: if_splits)

lemma renamed_distinct:
  assumes "distinct (map fr_file_id rs)" "distinct (map fr_path (filter live rs))"
    and "\<forall>r \<in> set rs. live r \<and> fr_path r = p \<longrightarrow> fr_file_id r = i"
  shows "distinct (map fr_path (filter live
    (map (\<lambda>r. if fr_file_id r = i then r\<lparr>fr_path := p, fr_updated_at := at\<rparr> else r) rs)))"
  using assms
proof (induction rs)
  case (Cons a rs)
  show ?case
  proof (cases "fr_file_id a = i")
    case True
    then have "map (\<lambda>r. if fr_file_id r = i then r\<lparr>fr_path := p, fr_updated_at := at\<rparr> else r) rs = rs"
      using Cons.prems(1) by (intro map_idI) (auto simp: image_iff)
    moreover have "\<forall>r \<in> set rs. fr_file_id r \<noteq> i" using True Cons.prems(1) by (auto simp: image_iff)
    ultimately show ?thesis using True Cons.prems by (auto simp: live_def)
  next
    case False
    with Cons show ?thesis by (auto simp: live_def split: if_splits)
  qed
qed simp

lemma edit_unique:
  assumes "unique_document d" "apply_edit d e = Inr d'"
    and "\<And>i. new_id e = Some i \<Longrightarrow> i \<notin> fr_file_id ` set (fd_files d)"
  shows "unique_document d'"
proof (cases e)
  case (AddFile i p ty at h rv)
  with assms show ?thesis by (auto dest!: add_file_appended intro: appended_unique)
next
  case (RegisterConflictCopy s i p at h)
  with assms show ?thesis by (auto dest!: register_conflict_copy_appended intro: appended_unique)
next
  case (RenameFile i p at)
  then have e: "edited (\<lambda>r. r\<lparr>fr_path := p, fr_updated_at := at\<rparr>) i d d'"
    and p: "\<forall>r \<in> set (fd_files d). live r \<and> fr_path r = p \<longrightarrow> fr_file_id r = i"
    using assms(2) by (auto simp: rename_file_edited)
  show ?thesis
    using renamed_distinct [OF _ _ p, of at] e assms(1)
    by (simp add: unique_document_def edited_ids [OF e]) (simp add: edited_def)
next
  case (RemoveConflictCopy i at)
  with assms show ?thesis
    by (auto simp: remove_conflict_copy_eq_Inr unique_document_def distinct_map_filter
        intro: distinct_map_filter_sub)
next
  case (MarkDeleted i at sq rv dev)
  then obtain t where "mark_deleted d i at sq rv dev = Inr (d', t)"
    using assms(2) by (auto simp: result_simps)
  then have e: "edited (deleted_record at rv) i d d'" by (auto dest: mark_deleted_edited)
  then show ?thesis
    using assms(1) by (simp add: unique_document_def edited_ids [OF e])
      (simp add: edited_def edited_removed distinct_map_filter_sub)
qed

lemma edit_wf:
  assumes "wf_document d" "apply_edit d e = Inr d'"
  shows "wf_document d'"
proof (cases e)
  case (AddFile i p ty at h rv)
  with assms show ?thesis by (auto dest!: add_file_appended intro: appended_wf)
next
  case (RegisterConflictCopy s i p at h)
  with assms show ?thesis by (auto dest!: register_conflict_copy_appended intro: appended_wf)
next
  case (RenameFile i p at)
  with assms show ?thesis using edited_wf by (auto simp: rename_file_edited)
next
  case (RemoveConflictCopy i at)
  with assms show ?thesis by (auto simp: remove_conflict_copy_eq_Inr wf_document_iff)
next
  case (MarkDeleted i at sq rv dev)
  with assms show ?thesis using edited_wf
    by (auto simp: rbind_eq_Inr dest!: mark_deleted_edited)
qed

lemma path_map_iff:
  "unique_document d \<Longrightarrow> path_map d p = Some i \<longleftrightarrow>
     (\<exists>r \<in> set (fd_files d). live r \<and> fr_path r = p \<and> fr_file_id r = i)"
  by (auto simp: path_map_def unique_document_def dict_of_distinct)

lemma ran_path_map:
  "unique_document d \<Longrightarrow> i \<in> ran (path_map d) \<longleftrightarrow>
     (\<exists>r \<in> set (fd_files d). live r \<and> fr_file_id r = i)"
  by (auto simp: ran_def path_map_iff)

lemma same_record:
  "unique_document d \<Longrightarrow> r \<in> set (fd_files d) \<Longrightarrow> q \<in> set (fd_files d) \<Longrightarrow>
     fr_file_id r = fr_file_id q \<Longrightarrow> r = q"
  by (auto simp: unique_document_def distinct_map dest: inj_onD)

lemma appended_path_map:
  assumes "appended d r d'" "unique_document d" "unique_document d'"
  shows "path_map d' = (path_map d)(fr_path r \<mapsto> fr_file_id r)"
  using assms by (intro map_some_eqI) (auto simp: path_map_iff appended_def)

lemma renamed_live:
  assumes "edited (\<lambda>r. r\<lparr>fr_path := p, fr_updated_at := at\<rparr>) i d d'"
  shows "(\<exists>r \<in> set (fd_files d'). live r \<and> fr_path r = q \<and> fr_file_id r = j) \<longleftrightarrow>
    (if j = i then q = p \<and> (\<exists>r \<in> set (fd_files d). live r \<and> fr_file_id r = i)
     else \<exists>r \<in> set (fd_files d). live r \<and> fr_path r = q \<and> fr_file_id r = j)"
proof -
  have f: "fd_files d' = map (\<lambda>r. if fr_file_id r = i
      then r\<lparr>fr_path := p, fr_updated_at := at\<rparr> else r) (fd_files d)"
    using assms by (simp add: edited_def)
  show ?thesis unfolding f bex_map_if by auto
qed

lemma drop_id_iff: "drop_id i m q = Some j \<longleftrightarrow> m q = Some j \<and> j \<noteq> i"
  by (auto simp: drop_id_def)

lemma edit_refines:
  assumes u: "unique_document d" and e: "apply_edit d e = Inr d'" and u': "unique_document d'"
  shows "path_map d' = edit_paths (path_map d) e"
proof (cases e)
  case (AddFile i p ty at h rv)
  then show ?thesis using e appended_path_map [OF _ u u'] by (auto dest!: add_file_appended)
next
  case (RegisterConflictCopy s i p at h)
  then show ?thesis
    using e appended_path_map [OF _ u u'] by (auto dest!: register_conflict_copy_appended)
next
  case (RenameFile i p at)
  then have ed: "edited (\<lambda>r. r\<lparr>fr_path := p, fr_updated_at := at\<rparr>) i d d'"
    and p: "\<forall>r \<in> set (fd_files d). live r \<and> fr_path r = p \<longrightarrow> fr_file_id r = i"
    using e by (auto simp: rename_file_edited)
  have pm: "path_map d p = Some j \<Longrightarrow> j = i" for j
    using p by (auto simp: path_map_iff [OF u])
  have "path_map d' q = Some j \<longleftrightarrow> (if j = i then q = p \<and> i \<in> ran (path_map d)
      else path_map d q = Some j)" for q j
    unfolding path_map_iff [OF u'] renamed_live [OF ed] ran_path_map [OF u]
    by (simp add: path_map_iff [OF u])
  then show ?thesis
    using RenameFile pm by (intro map_some_eqI) (auto simp: drop_id_def ran_def)
next
  case (RemoveConflictCopy i at)
  then show ?thesis
    using e u u'
    by (intro map_some_eqI) (auto simp: path_map_iff remove_conflict_copy_eq_Inr drop_id_iff)
next
  case (MarkDeleted i at sq rv dev)
  then have "edited (deleted_record at rv) i d d'"
    using e by (auto simp: rbind_eq_Inr dest!: mark_deleted_edited)
  then have f: "fd_files d' = map (\<lambda>r. if fr_file_id r = i then deleted_record at rv r else r) (fd_files d)"
    by (simp add: edited_def)
  have "path_map d' q = Some j \<longleftrightarrow> path_map d q = Some j \<and> j \<noteq> i" for q j
    unfolding path_map_iff [OF u] path_map_iff [OF u'] f bex_map_if by auto
  then show ?thesis using MarkDeleted by (intro map_some_eqI) (simp add: drop_id_iff)
qed

section \<open>Sequences of edits\<close>

text \<open>An edit that raises leaves the document as it was; the second component lists the edits
  that went through.\<close>

fun run_edits :: "filemap_document \<Rightarrow> doc_edit list \<Rightarrow> filemap_document \<times> doc_edit list" where
  "run_edits d [] = (d, [])"
| "run_edits d (e # es) = (case apply_edit d e of
     Inl _ \<Rightarrow> run_edits d es
   | Inr d' \<Rightarrow> (let (d'', ok) = run_edits d' es in (d'', e # ok)))"

definition new_ids :: "doc_edit list \<Rightarrow> string list" where
  "new_ids es = List.map_filter new_id es"

lemma new_ids_simps [simp]:
  "new_ids [] = []"
  "new_ids (e # es) = (case new_id e of None \<Rightarrow> new_ids es | Some i \<Rightarrow> i # new_ids es)"
  by (simp_all add: new_ids_def map_filter_simps split: option.splits)

text \<open>The identifiers of a sequence are fresh and drawn once each.\<close>

definition fresh_ids :: "filemap_document \<Rightarrow> doc_edit list \<Rightarrow> bool" where
  "fresh_ids d es \<longleftrightarrow> distinct (new_ids es) \<and> set (new_ids es) \<inter> fr_file_id ` set (fd_files d) = {}"

lemma edit_ids:
  assumes "apply_edit d e = Inr d'"
  shows "fr_file_id ` set (fd_files d') \<subseteq> fr_file_id ` set (fd_files d) \<union> set_option (new_id e)"
  using assms
proof (cases e)
  case (RenameFile i p at)
  with assms have "map fr_file_id (fd_files d') = map fr_file_id (fd_files d)"
    by (auto simp: rename_file_edited edited_ids)
  then show ?thesis by (metis Un_upper1 set_map)
next
  case (MarkDeleted i at sq rv dev)
  with assms have "map fr_file_id (fd_files d') = map fr_file_id (fd_files d)"
    by (auto simp: rbind_eq_Inr edited_ids dest!: mark_deleted_edited)
  then show ?thesis by (metis Un_upper1 set_map)
qed (auto simp: remove_conflict_copy_eq_Inr appended_def
    dest!: add_file_appended register_conflict_copy_appended)

lemma fresh_ids_step:
  assumes "fresh_ids d (e # es)"
  shows "new_id e = Some i \<Longrightarrow> i \<notin> fr_file_id ` set (fd_files d)"
    and "fresh_ids d es" and "apply_edit d e = Inr d' \<Longrightarrow> fresh_ids d' es"
  using assms edit_ids [of d e d']
  by (auto simp: fresh_ids_def disjoint_iff split: option.splits)

lemma run_edits_sound:
  assumes "unique_document d" "wf_document d" "fresh_ids d es" "run_edits d es = (d', ok)"
  shows "unique_document d' \<and> wf_document d' \<and> path_map d' = foldl edit_paths (path_map d) ok"
  using assms
proof (induction es arbitrary: d ok)
  case (Cons e es)
  show ?case
  proof (cases "apply_edit d e")
    case (Inl x)
    with Cons fresh_ids_step(2) [OF Cons.prems(3)] show ?thesis by simp
  next
    case (Inr d1)
    then obtain ok' where r: "run_edits d1 es = (d', ok')" "ok = e # ok'"
      using Cons.prems(4) by (auto split: prod.splits)
    have u: "unique_document d1"
      using edit_unique [OF Cons.prems(1) Inr] fresh_ids_step(1) [OF Cons.prems(3)] by blast
    from Cons.IH [OF u edit_wf [OF Cons.prems(2) Inr] fresh_ids_step(3) [OF Cons.prems(3) Inr] r(1)]
    show ?thesis using r(2) edit_refines [OF Cons.prems(1) Inr u] by simp
  qed
qed simp

section \<open>Properties\<close>

text \<open>C36: Starting from a document whose records are well formed and whose file identifiers
  and live paths are unique, any sequence of file map edits (adding, renaming, registering and
  removing conflict copies, deleting, some of which may raise) whose new identifiers are fresh
  ends in such a document again: no two live records share a path, no two records an id.\<close>

theorem edits_keep_paths_unique:
  assumes "unique_document d" "wf_document d" "fresh_ids d es"
  shows "unique_document (fst (run_edits d es)) \<and> wf_document (fst (run_edits d es))"
  using run_edits_sound [OF assms] by (metis prod.collapse)

definition sample_document :: filemap_document where
  "sample_document = \<lparr>fd_vault_id = ''v'', fd_updated_at = 0, fd_files = [],
     fd_schema_version = ''v1'', fd_meta = None\<rparr>"

definition sample_edits :: "doc_edit list" where
  "sample_edits =
     [AddFile ''f1'' ''a.md'' ''note'' 1 None None, AddFile ''f2'' ''a.md'' ''note'' 2 None None,
      AddFile ''f3'' ''b.md'' ''note'' 3 None None, RenameFile ''f1'' ''c.md'' 4,
      RegisterConflictCopy ''f3'' ''f4'' ''b.conflict.md'' 5 None,
      MarkDeleted ''f3'' 6 1 None None, RemoveConflictCopy ''f4'' 7]"

lemma sample_start:
  "unique_document sample_document" "wf_document sample_document"
  "fresh_ids sample_document sample_edits"
  by code_simp+

theorem edits_keep_paths_unique_witness:
  "unique_document (fst (run_edits sample_document sample_edits))
   \<and> wf_document (fst (run_edits sample_document sample_edits))"
  by (rule edits_keep_paths_unique [OF sample_start])

text \<open>C37: The edits refine updates of the map from live paths to file identifiers: after any
  sequence, looking up a path in the document gives what the updates of the edits that went
  through give on the map the document started with.\<close>

theorem edits_refine_path_map:
  assumes "unique_document d" "wf_document d" "fresh_ids d es" "run_edits d es = (d', ok)"
  shows "path_map d' = foldl edit_paths (path_map d) ok"
  using run_edits_sound [OF assms] by simp

theorem edits_refine_path_map_witness:
  "path_map (fst (run_edits sample_document sample_edits))
     = foldl edit_paths (path_map sample_document) (snd (run_edits sample_document sample_edits))
   \<and> length (snd (run_edits sample_document sample_edits)) = 6"
  by (rule conjI, rule edits_refine_path_map [OF sample_start surjective_pairing], code_simp)

text \<open>Adding a file, renaming one or registering a conflict copy at a path a live record of
  another file holds raises the "path already occupied" error (a deleted record does not
  occupy its path), and marking an unknown file deleted raises a \<open>KeyError\<close>.\<close>

lemma occupied_path_rejected:
  assumes "r \<in> set (fd_files d)" "fr_status r \<noteq> ''deleted''" "fr_path r = p"
  shows "add_file d i p ty at h rv = Inl (ValueError (''path already occupied: '' @ p))
    \<and> (fr_file_id r \<noteq> i \<longrightarrow>
         rename_file d i p at = Inl (ValueError (''path already occupied: '' @ p)))
    \<and> (s \<in> fr_file_id ` set (fd_files d) \<longrightarrow>
         register_conflict_copy d s i p at h = Inl (ValueError (''path already occupied: '' @ p)))"
proof -
  have "assert_path_available d p None = Inl (ValueError (''path already occupied: '' @ p))"
    using assms by (auto simp: assert_path_available_def)
  moreover have "fr_file_id r \<noteq> i \<Longrightarrow>
      assert_path_available d p (Some i) = Inl (ValueError (''path already occupied: '' @ p))"
    using assms by (auto simp: assert_path_available_def)
  moreover have "s \<in> fr_file_id ` set (fd_files d) \<Longrightarrow>
      \<exists>x. find (\<lambda>r. fr_file_id r = s) (fd_files d) = Some x"
    by (cases "find (\<lambda>r. fr_file_id r = s) (fd_files d)") (auto simp: find_None_iff)
  ultimately show ?thesis by (auto simp: add_file_def rename_file_def register_conflict_copy_def)
qed

definition occupied_document :: filemap_document where
  "occupied_document = fst (run_edits sample_document sample_edits)"

lemma occupied_path_rejected_witness:
  "add_file occupied_document ''f9'' ''c.md'' ''note'' 9 None None
     = Inl (ValueError ''path already occupied: c.md'')
   \<and> rename_file occupied_document ''f4'' ''c.md'' 9
     = Inl (ValueError ''path already occupied: c.md'')"
proof -
  let ?r = "hd (fd_files occupied_document)"
  have "?r \<in> set (fd_files occupied_document)" "fr_status ?r \<noteq> ''deleted''"
    "fr_path ?r = ''c.md''" "fr_file_id ?r \<noteq> ''f4''"
    by code_simp+
  from occupied_path_rejected [OF this(1-3)] this(4) show ?thesis by simp
qed

text \<open>Marking a file deleted flips exactly the records with its identifier to the deleted
  status (path, type, hash and meta kept), leaves every other record untouched, and returns
  the tombstone of the file: pending unless a revision was given, with the sequence number, the
  device and the path the file had.\<close>

lemma mark_deleted_functional:
  assumes "mark_deleted d i at sq rv dev = Inr (d', t)"
  shows "fd_files d' = map (\<lambda>r. if fr_file_id r = i then deleted_record at rv r else r) (fd_files d)
    \<and> fd_updated_at d' = at
    \<and> (\<exists>r \<in> set (fd_files d). fr_file_id r = i \<and>
         t = \<lparr>tb_file_id = i, tb_deleted_revision = rv, tb_deleted_at = at,
              tb_local_delete_seq = sq, tb_last_known_path = Some (fr_path r),
              tb_deleted_by_device = dev, tb_meta = None\<rparr>)"
  using assms
  by (auto simp: mark_deleted_def result_simps split: option.splits dest!: dict_of_SomeD)

lemma mark_deleted_functional_witness:
  "case mark_deleted occupied_document ''f1'' 20 2 None (Some ''dev'') of
     Inl e \<Rightarrow> False
   | Inr (d', t) \<Rightarrow> fd_files d' = map (\<lambda>r. if fr_file_id r = ''f1''
       then deleted_record 20 None r else r) (fd_files occupied_document)"
proof (cases "mark_deleted occupied_document ''f1'' 20 2 None (Some ''dev'')")
  case (Inl e)
  have "\<not> isl (mark_deleted occupied_document ''f1'' 20 2 None (Some ''dev''))" by code_simp
  with Inl show ?thesis by simp
next
  case (Inr x)
  then show ?thesis using mark_deleted_functional by (cases x) auto
qed

end
