(* ===== verification/State_Records.thy ===== *)
theory State_Records
  imports Models
begin

text \<open>
  The remaining records of \<open>vault_core/models.py\<close>: file versions, commit directives and the
  retention policy, the vault state, wiki tasks and the two journals. As in \<open>Models\<close> a
  constructor is the chain of its \<open>__post_init__\<close> checks.
\<close>

section \<open>File versions\<close>

record file_version =
  fv_version_id :: string
  fv_file_id :: string
  fv_path_at_revision :: string
  fv_revision :: int
  fv_content_hash :: string
  fv_blob_id :: string
  fv_size :: int
  fv_mtime :: int
  fv_created_at :: int
  fv_created_by_device :: string
  fv_source :: string
  fv_version_label :: "string option"
  fv_change_note :: "string option"
  fv_is_pinned :: bool
  fv_meta :: "dict option"

definition FileVersionRecord :: "file_version \<Rightarrow> file_version result" where
  "FileVersionRecord v = validate
     [(fv_version_id v \<noteq> [], ''version_id must be non-empty''),
      (fv_file_id v \<noteq> [], ''file_id must be non-empty''),
      (fv_path_at_revision v \<noteq> [], ''path_at_revision must be non-empty''),
      (fv_content_hash v \<noteq> [], ''content_hash must be non-empty''),
      (fv_blob_id v \<noteq> [], ''blob_id must be non-empty''),
      (fv_created_by_device v \<noteq> [], ''created_by_device must be non-empty''),
      (fv_source v \<in> set VALID_FILE_VERSION_SOURCES,
       ''unsupported file version source: '' @ fv_source v),
      positive ''revision'' (fv_revision v),
      non_negative ''size'' (fv_size v),
      non_negative ''mtime'' (fv_mtime v),
      non_negative ''created_at'' (fv_created_at v),
      opt_non_empty ''version_label'' (fv_version_label v),
      opt_non_empty ''change_note'' (fv_change_note v)] v"

definition file_version_to_dict :: "file_version \<Rightarrow> dict" where
  "file_version_to_dict v =
     [(''version_id'', JStr (fv_version_id v)), (''file_id'', JStr (fv_file_id v)),
      (''path_at_revision'', JStr (fv_path_at_revision v)),
      (''revision'', JInt (fv_revision v)), (''content_hash'', JStr (fv_content_hash v)),
      (''blob_id'', JStr (fv_blob_id v)), (''size'', JInt (fv_size v)),
      (''mtime'', JInt (fv_mtime v)), (''created_at'', JInt (fv_created_at v)),
      (''created_by_device'', JStr (fv_created_by_device v)),
      (''source'', JStr (fv_source v)), (''is_pinned'', JBool (fv_is_pinned v))]
     @ opt_entry ''version_label'' JStr (fv_version_label v)
     @ opt_entry ''change_note'' JStr (fv_change_note v)
     @ opt_entry ''meta'' JObj (fv_meta v)"

text \<open>A flag with a default that must be a Python \<open>bool\<close>; \<open>None\<close> is the failed check.\<close>

definition get_bool :: "dict \<Rightarrow> string \<Rightarrow> bool \<Rightarrow> bool option" where
  "get_bool d k dflt = (case map_of d k of None \<Rightarrow> Some dflt | Some v \<Rightarrow> py_bool v)"

text \<open>The \<open>is_pinned\<close> check is the last of the chain, so it runs on the checked object.\<close>

definition with_pinned :: "bool option \<Rightarrow> 'a result \<Rightarrow> (bool \<Rightarrow> 'a \<Rightarrow> 'a) \<Rightarrow> 'a result" where
  "with_pinned p r upd = rbind r (\<lambda>x. case p of
     None \<Rightarrow> Inl (ValueError ''is_pinned must be a boolean'') | Some b \<Rightarrow> Inr (upd b x))"

definition file_version_from_dict :: "dict \<Rightarrow> file_version result" where
  "file_version_from_dict d =
     rbind (rbind (ditem d ''version_id'') (as_str ''version_id'')) (\<lambda>version_id.
     rbind (rbind (ditem d ''file_id'') (as_str ''file_id'')) (\<lambda>file_id.
     rbind (rbind (ditem d ''path_at_revision'') (as_str ''path_at_revision'')) (\<lambda>path.
     rbind (ditem d ''revision'') (\<lambda>revision.
     rbind (rbind (ditem d ''content_hash'') (as_str ''content_hash'')) (\<lambda>content_hash.
     rbind (rbind (ditem d ''blob_id'') (as_str ''blob_id'')) (\<lambda>blob_id.
     rbind (ditem d ''size'') (\<lambda>size.
     rbind (ditem d ''mtime'') (\<lambda>mtime.
     rbind (ditem d ''created_at'') (\<lambda>created_at.
     rbind (rbind (ditem d ''created_by_device'') (as_str ''created_by_device'')) (\<lambda>device.
     rbind (rbind (ditem d ''source'') (as_enum ''source'')) (\<lambda>source.
     rbind (as_opt_str ''version_label'' (dget d ''version_label'')) (\<lambda>label.
     rbind (as_opt_str ''change_note'' (dget d ''change_note'')) (\<lambda>note.
     rbind (as_opt_dict ''meta'' (dget d ''meta'')) (\<lambda>meta.
     with_pinned (get_bool d ''is_pinned'' False)
       (FileVersionRecord \<lparr>fv_version_id = version_id, fv_file_id = file_id,
         fv_path_at_revision = path, fv_revision = as_int revision,
         fv_content_hash = content_hash, fv_blob_id = blob_id, fv_size = as_int size,
         fv_mtime = as_int mtime, fv_created_at = as_int created_at,
         fv_created_by_device = device, fv_source = source, fv_version_label = label,
         fv_change_note = note, fv_is_pinned = False, fv_meta = meta\<rparr>)
       (\<lambda>b v. v\<lparr>fv_is_pinned := b\<rparr>)))))))))))))))"

record version_directive =
  vd_file_id :: string
  vd_source :: string
  vd_version_label :: "string option"
  vd_change_note :: "string option"
  vd_is_pinned :: bool

definition FileVersionCommitDirective :: "version_directive \<Rightarrow> version_directive result" where
  "FileVersionCommitDirective v = validate
     [(vd_file_id v \<noteq> [], ''file_id must be non-empty''),
      (vd_source v \<in> set VALID_FILE_VERSION_SOURCES,
       ''unsupported file version source: '' @ vd_source v),
      opt_non_empty ''version_label'' (vd_version_label v),
      opt_non_empty ''change_note'' (vd_change_note v)] v"

definition version_directive_to_dict :: "version_directive \<Rightarrow> dict" where
  "version_directive_to_dict v =
     [(''file_id'', JStr (vd_file_id v)), (''source'', JStr (vd_source v)),
      (''is_pinned'', JBool (vd_is_pinned v))]
     @ opt_entry ''version_label'' JStr (vd_version_label v)
     @ opt_entry ''change_note'' JStr (vd_change_note v)"

definition version_directive_from_dict :: "dict \<Rightarrow> version_directive result" where
  "version_directive_from_dict d =
     rbind (rbind (ditem d ''file_id'') (as_str ''file_id'')) (\<lambda>file_id.
     rbind (rbind (ditem d ''source'') (as_enum ''source'')) (\<lambda>source.
     rbind (as_opt_str ''version_label'' (dget d ''version_label'')) (\<lambda>label.
     rbind (as_opt_str ''change_note'' (dget d ''change_note'')) (\<lambda>note.
     with_pinned (get_bool d ''is_pinned'' False)
       (FileVersionCommitDirective \<lparr>vd_file_id = file_id, vd_source = source,
         vd_version_label = label, vd_change_note = note, vd_is_pinned = False\<rparr>)
       (\<lambda>b v. v\<lparr>vd_is_pinned := b\<rparr>)))))"

record retention_policy =
  rp_keep_latest :: int
  rp_keep_pinned :: bool
  rp_max_age_days :: "int option"

definition FileVersionRetentionPolicy :: "retention_policy \<Rightarrow> retention_policy result" where
  "FileVersionRetentionPolicy p = validate
     [positive ''keep_latest'' (rp_keep_latest p),
      opt_positive ''max_age_days'' (rp_max_age_days p)] p"

definition retention_policy_to_dict :: "retention_policy \<Rightarrow> dict" where
  "retention_policy_to_dict p =
     [(''keep_latest'', JInt (rp_keep_latest p)), (''keep_pinned'', JBool (rp_keep_pinned p))]
     @ opt_entry ''max_age_days'' JInt (rp_max_age_days p)"

definition retention_policy_from_dict :: "dict \<Rightarrow> retention_policy result" where
  "retention_policy_from_dict d =
     (let keep_latest = (case map_of d ''keep_latest'' of None \<Rightarrow> 50 | Some v \<Rightarrow> as_int v);
          keep_pinned = get_bool d ''keep_pinned'' True in
      rbind (validate [positive ''keep_latest'' keep_latest,
                       (keep_pinned \<noteq> None, ''keep_pinned must be a boolean'')] ()) (\<lambda>_.
      FileVersionRetentionPolicy \<lparr>rp_keep_latest = keep_latest,
        rp_keep_pinned = the keep_pinned,
        rp_max_age_days = as_opt_int (dget d ''max_age_days'')\<rparr>))"

lemma FileVersionRecord_eq_Inr [result_simps]:
  "FileVersionRecord v = Inr v' \<longleftrightarrow> v' = v \<and> fv_version_id v \<noteq> [] \<and> fv_file_id v \<noteq> []
     \<and> fv_path_at_revision v \<noteq> [] \<and> fv_content_hash v \<noteq> [] \<and> fv_blob_id v \<noteq> []
     \<and> fv_created_by_device v \<noteq> [] \<and> fv_source v \<in> set VALID_FILE_VERSION_SOURCES
     \<and> 0 < fv_revision v \<and> 0 \<le> fv_size v \<and> 0 \<le> fv_mtime v \<and> 0 \<le> fv_created_at v
     \<and> fv_version_label v \<noteq> Some [] \<and> fv_change_note v \<noteq> Some []"
  by (auto simp: FileVersionRecord_def result_simps check_defs)

lemma FileVersionCommitDirective_eq_Inr [result_simps]:
  "FileVersionCommitDirective v = Inr v' \<longleftrightarrow> v' = v \<and> vd_file_id v \<noteq> []
     \<and> vd_source v \<in> set VALID_FILE_VERSION_SOURCES
     \<and> vd_version_label v \<noteq> Some [] \<and> vd_change_note v \<noteq> Some []"
  by (auto simp: FileVersionCommitDirective_def result_simps check_defs)

lemma FileVersionRetentionPolicy_eq_Inr [result_simps]:
  "FileVersionRetentionPolicy p = Inr p' \<longleftrightarrow> p' = p \<and> 0 < rp_keep_latest p
     \<and> (\<forall>n. rp_max_age_days p = Some n \<longrightarrow> 0 < n)"
  by (auto simp: FileVersionRetentionPolicy_def result_simps check_defs split: option.splits)

section \<open>Vault state\<close>

record vault_state =
  vs_vault_id :: string
  vs_last_applied_revision :: int
  vs_remote_head_revision :: int
  vs_acked_revision :: int
  vs_pending_ack_to_server :: "int list"
  vs_commit_in_progress :: bool
  vs_last_manifest_summary :: "string option"
  vs_last_manifest_summary_status :: string
  vs_local_delete_sequence :: int
  vs_has_unresolved_conflicts :: bool
  vs_schema_version :: string
  vs_meta :: "dict option"

definition VaultStateRecord :: "vault_state \<Rightarrow> vault_state result" where
  "VaultStateRecord s = validate
     ([(vs_schema_version s = ''v1'', ''unsupported schema_version''),
       (vs_vault_id s \<noteq> [], ''vault_id must be non-empty''),
       non_negative ''last_applied_revision'' (vs_last_applied_revision s),
       non_negative ''remote_head_revision'' (vs_remote_head_revision s),
       non_negative ''acked_revision'' (vs_acked_revision s),
       non_negative ''local_delete_sequence'' (vs_local_delete_sequence s),
       (vs_last_manifest_summary_status s \<in> {''valid'', ''missing'', ''stale''},
        ''unsupported last_manifest_summary_status'')]
      @ map (positive ''pending_ack_to_server revision'') (vs_pending_ack_to_server s)) s"

definition wf_vault_state :: "vault_state \<Rightarrow> bool" where
  "wf_vault_state s = (VaultStateRecord s = Inr s)"

lemma wf_vault_state_iff:
  "wf_vault_state s \<longleftrightarrow>
     vs_schema_version s = ''v1'' \<and> vs_vault_id s \<noteq> [] \<and> 0 \<le> vs_last_applied_revision s
     \<and> 0 \<le> vs_remote_head_revision s \<and> 0 \<le> vs_acked_revision s
     \<and> 0 \<le> vs_local_delete_sequence s
     \<and> vs_last_manifest_summary_status s \<in> {''valid'', ''missing'', ''stale''}
     \<and> (\<forall>r \<in> set (vs_pending_ack_to_server s). 0 < r)"
  by (auto simp: wf_vault_state_def VaultStateRecord_def result_simps check_defs list_all_iff)

lemma VaultStateRecord_eq_Inr [result_simps]:
  "VaultStateRecord s = Inr s' \<longleftrightarrow> s' = s \<and> wf_vault_state s"
  by (auto simp: wf_vault_state_def VaultStateRecord_def result_simps)

section \<open>Wiki tasks and journals\<close>

record wiki_task =
  wt_task_id :: string
  wt_target_wiki_path :: string
  wt_task_base_page_hash :: "string option"
  wt_task_base_revision :: int
  wt_task_sources_hash :: string
  wt_status :: string
  wt_created_at :: int
  wt_updated_at :: int

definition WikiTaskRecord :: "wiki_task \<Rightarrow> wiki_task result" where
  "WikiTaskRecord t = validate
     [(wt_task_id t \<noteq> [], ''task_id must be non-empty''),
      (wt_target_wiki_path t \<noteq> [], ''target_wiki_path must be non-empty''),
      (wt_task_sources_hash t \<noteq> [], ''task_sources_hash must be non-empty''),
      (wt_status t \<in> set VALID_WIKI_TASK_STATUSES,
       ''unsupported wiki task status: '' @ wt_status t),
      non_negative ''task_base_revision'' (wt_task_base_revision t),
      non_negative ''created_at'' (wt_created_at t),
      non_negative ''updated_at'' (wt_updated_at t)] t"

record commit_journal =
  cj_vault_id :: string
  cj_commit_intent_id :: string
  cj_intent_manifest_hash :: string
  cj_base_revision :: int
  cj_created_by_device :: string
  cj_status :: string
  cj_created_at :: int
  cj_updated_at :: int
  cj_intent_delete_seq_upper_bound :: "int option"

definition CommitIntentJournalRecord :: "commit_journal \<Rightarrow> commit_journal result" where
  "CommitIntentJournalRecord j = validate
     [(cj_vault_id j \<noteq> [], ''vault_id must be non-empty''),
      (cj_commit_intent_id j \<noteq> [], ''commit_intent_id must be non-empty''),
      (cj_intent_manifest_hash j \<noteq> [], ''intent_manifest_hash must be non-empty''),
      (cj_created_by_device j \<noteq> [], ''created_by_device must be non-empty''),
      (cj_status j \<in> set VALID_COMMIT_INTENT_STATUSES,
       ''unsupported commit intent status: '' @ cj_status j),
      non_negative ''base_revision'' (cj_base_revision j),
      non_negative ''created_at'' (cj_created_at j),
      non_negative ''updated_at'' (cj_updated_at j),
      opt_positive ''intent_delete_seq_upper_bound'' (cj_intent_delete_seq_upper_bound j)] j"

definition wf_commit_journal :: "commit_journal \<Rightarrow> bool" where
  "wf_commit_journal j = (CommitIntentJournalRecord j = Inr j)"

record apply_journal =
  aj_vault_id :: string
  aj_journal_id :: string
  aj_target_revision :: int
  aj_target_manifest_hash :: string
  aj_phase :: string
  aj_created_at :: int
  aj_updated_at :: int
  aj_ops_hash :: "string option"

definition SyncApplyJournalRecord :: "apply_journal \<Rightarrow> apply_journal result" where
  "SyncApplyJournalRecord j = validate
     [(aj_vault_id j \<noteq> [], ''vault_id must be non-empty''),
      (aj_journal_id j \<noteq> [], ''journal_id must be non-empty''),
      (aj_target_manifest_hash j \<noteq> [], ''target_manifest_hash must be non-empty''),
      (aj_phase j \<in> set VALID_SYNC_APPLY_PHASES,
       ''unsupported sync apply phase: '' @ aj_phase j),
      non_negative ''target_revision'' (aj_target_revision j),
      non_negative ''created_at'' (aj_created_at j),
      non_negative ''updated_at'' (aj_updated_at j)] j"

definition wf_apply_journal :: "apply_journal \<Rightarrow> bool" where
  "wf_apply_journal j = (SyncApplyJournalRecord j = Inr j)"

lemma WikiTaskRecord_eq_Inr [result_simps]:
  "WikiTaskRecord t = Inr t' \<longleftrightarrow> t' = t \<and> wt_task_id t \<noteq> [] \<and> wt_target_wiki_path t \<noteq> []
     \<and> wt_task_sources_hash t \<noteq> [] \<and> wt_status t \<in> set VALID_WIKI_TASK_STATUSES
     \<and> 0 \<le> wt_task_base_revision t \<and> 0 \<le> wt_created_at t \<and> 0 \<le> wt_updated_at t"
  by (auto simp: WikiTaskRecord_def result_simps check_defs)

lemma wf_commit_journal_iff:
  "wf_commit_journal j \<longleftrightarrow> cj_vault_id j \<noteq> [] \<and> cj_commit_intent_id j \<noteq> []
     \<and> cj_intent_manifest_hash j \<noteq> [] \<and> cj_created_by_device j \<noteq> []
     \<and> cj_status j \<in> set VALID_COMMIT_INTENT_STATUSES \<and> 0 \<le> cj_base_revision j
     \<and> 0 \<le> cj_created_at j \<and> 0 \<le> cj_updated_at j
     \<and> (\<forall>n. cj_intent_delete_seq_upper_bound j = Some n \<longrightarrow> 0 < n)"
  by (auto simp: wf_commit_journal_def CommitIntentJournalRecord_def result_simps check_defs
      split: option.splits)

lemma CommitIntentJournalRecord_eq_Inr [result_simps]:
  "CommitIntentJournalRecord j = Inr j' \<longleftrightarrow> j' = j \<and> wf_commit_journal j"
  by (auto simp: wf_commit_journal_def CommitIntentJournalRecord_def result_simps)

lemma wf_apply_journal_iff:
  "wf_apply_journal j \<longleftrightarrow> aj_vault_id j \<noteq> [] \<and> aj_journal_id j \<noteq> []
     \<and> aj_target_manifest_hash j \<noteq> [] \<and> aj_phase j \<in> set VALID_SYNC_APPLY_PHASES
     \<and> 0 \<le> aj_target_revision j \<and> 0 \<le> aj_created_at j \<and> 0 \<le> aj_updated_at j"
  by (auto simp: wf_apply_journal_def SyncApplyJournalRecord_def result_simps check_defs)

lemma SyncApplyJournalRecord_eq_Inr [result_simps]:
  "SyncApplyJournalRecord j = Inr j' \<longleftrightarrow> j' = j \<and> wf_apply_journal j"
  by (auto simp: wf_apply_journal_def SyncApplyJournalRecord_def result_simps)

section \<open>Reading back what was written\<close>

lemma file_version_round_trip [simp]:
  "FileVersionRecord v = Inr v \<Longrightarrow> file_version_from_dict (file_version_to_dict v) = Inr v"
  by (cases v; cases "fv_version_label v"; cases "fv_change_note v"; cases "fv_meta v")
     (auto simp: file_version_from_dict_def file_version_to_dict_def dict_read get_bool_def
        with_pinned_def FileVersionRecord_eq_Inr rbind_eq_Inr)

lemma version_directive_round_trip [simp]:
  "FileVersionCommitDirective v = Inr v \<Longrightarrow>
     version_directive_from_dict (version_directive_to_dict v) = Inr v"
  by (cases v; cases "vd_version_label v"; cases "vd_change_note v")
     (auto simp: version_directive_from_dict_def version_directive_to_dict_def dict_read
        get_bool_def with_pinned_def FileVersionCommitDirective_eq_Inr rbind_eq_Inr)

lemma retention_policy_round_trip [simp]:
  "FileVersionRetentionPolicy p = Inr p \<Longrightarrow>
     retention_policy_from_dict (retention_policy_to_dict p) = Inr p"
  by (cases p; cases "rp_max_age_days p")
     (auto simp: retention_policy_from_dict_def retention_policy_to_dict_def dict_read
        get_bool_def FileVersionRetentionPolicy_eq_Inr check_defs)

text \<open>Reading back the JSON object written for a file version, a version directive of a
  commit or a retention policy gives the record that was written, for every record its
  constructor accepts.\<close>

lemma version_records_round_trip:
  assumes "FileVersionRecord v = Inr v" "FileVersionCommitDirective c = Inr c"
    and "FileVersionRetentionPolicy p = Inr p"
  shows "file_version_from_dict (file_version_to_dict v) = Inr v
    \<and> version_directive_from_dict (version_directive_to_dict c) = Inr c
    \<and> retention_policy_from_dict (retention_policy_to_dict p) = Inr p"
  using assms by simp

definition sample_version :: file_version where
  "sample_version = \<lparr>fv_version_id = ''ver'', fv_file_id = ''f1'', fv_path_at_revision = ''a.md'',
     fv_revision = 3, fv_content_hash = ''h'', fv_blob_id = ''b'', fv_size = 10, fv_mtime = 5,
     fv_created_at = 6, fv_created_by_device = ''dev'', fv_source = ''manual_checkpoint'',
     fv_version_label = Some ''draft'', fv_change_note = None, fv_is_pinned = True,
     fv_meta = None\<rparr>"

definition sample_directive :: version_directive where
  "sample_directive = \<lparr>vd_file_id = ''f1'', vd_source = ''restore'', vd_version_label = None,
     vd_change_note = Some ''back'', vd_is_pinned = False\<rparr>"

definition sample_policy :: retention_policy where
  "sample_policy = \<lparr>rp_keep_latest = 50, rp_keep_pinned = True, rp_max_age_days = Some 30\<rparr>"

lemma version_records_round_trip_witness:
  "file_version_from_dict (file_version_to_dict sample_version) = Inr sample_version
    \<and> version_directive_from_dict (version_directive_to_dict sample_directive) = Inr sample_directive
    \<and> retention_policy_from_dict (retention_policy_to_dict sample_policy) = Inr sample_policy"
  by (rule version_records_round_trip) code_simp+

end
