(* ===== verification/Recovery.thy ===== *)
theory Recovery
  imports State_Records
begin

text \<open>
  \<open>vault_core/recovery.py\<close> and \<open>vault_core/sync_plan.py\<close>: the decisions taken on the vault
  state and the transformers that move it forward after a pull, a commit or a crash. Every
  transformer builds its result through \<open>VaultStateRecord\<close>, so its checks may raise.

  The contract the callers rely on is the locale \<open>state_transformer\<close>: a transformer keeps the
  identity of the vault and its delete counter, and never moves a revision backwards.
\<close>

section \<open>Decisions\<close>

definition sorted_unique_revisions :: "int list \<Rightarrow> int list" where
  "sorted_unique_revisions rs = sorted_set rs"

definition should_block_new_commit :: "vault_state \<Rightarrow> bool \<Rightarrow> bool" where
  "should_block_new_commit s has_active_commit_journal =
     (if has_active_commit_journal then True
      else if vs_commit_in_progress s then True
      else if vs_has_unresolved_conflicts s then True
      else if vs_last_manifest_summary_status s \<noteq> ''valid'' then True
      else vs_last_manifest_summary s = None)"

definition requires_full_pull :: "vault_state \<Rightarrow> bool" where
  "requires_full_pull s =
     (if vs_last_manifest_summary_status s \<noteq> ''valid'' then True
      else if vs_last_manifest_summary s = None then True
      else False)"

record reconcile_plan =
  pl_observed_head_revision :: int
  pl_target_revision :: int
  pl_should_download_manifest :: bool
  pl_requires_full_pull :: bool
  pl_can_use_summary_shortcut :: bool

definition plan_pull_reconcile :: "vault_state \<Rightarrow> int \<Rightarrow> reconcile_plan" where
  "plan_pull_reconcile s observed_head_revision =
     (let full_pull = requires_full_pull s;
          should_download = full_pull \<or> observed_head_revision > vs_last_applied_revision s in
      \<lparr>pl_observed_head_revision = observed_head_revision,
       pl_target_revision = observed_head_revision,
       pl_should_download_manifest = should_download,
       pl_requires_full_pull = full_pull,
       pl_can_use_summary_shortcut = should_download \<and> \<not> full_pull\<rparr>)"

section \<open>State transformers\<close>

definition apply_manifest_summary_stale :: "vault_state \<Rightarrow> vault_state result" where
  "apply_manifest_summary_stale s = VaultStateRecord
     (s\<lparr>vs_last_manifest_summary := None, vs_last_manifest_summary_status := ''stale''\<rparr>)"

definition apply_manifest_reconciled_state ::
  "vault_state \<Rightarrow> int \<Rightarrow> string \<Rightarrow> vault_state result" where
  "apply_manifest_reconciled_state s target_revision manifest_summary =
     (let pending_ack =
        sorted_unique_revisions (vs_pending_ack_to_server s @ [target_revision]) in
      VaultStateRecord
       (s\<lparr>vs_last_applied_revision := max (vs_last_applied_revision s) target_revision,
          vs_remote_head_revision := max (vs_remote_head_revision s) target_revision,
          vs_acked_revision := max (vs_acked_revision s) target_revision,
          vs_pending_ack_to_server := pending_ack,
          vs_last_manifest_summary := Some manifest_summary,
          vs_last_manifest_summary_status := ''valid''\<rparr>))"

definition apply_sync_finalizing_recovery ::
  "vault_state \<Rightarrow> apply_journal \<Rightarrow> vault_state result" where
  "apply_sync_finalizing_recovery s j =
     apply_manifest_reconciled_state s (aj_target_revision j) (aj_target_manifest_hash j)"

definition apply_prepared_commit_recovery :: "vault_state \<Rightarrow> vault_state result" where
  "apply_prepared_commit_recovery s = VaultStateRecord (s\<lparr>vs_commit_in_progress := False\<rparr>)"

definition apply_orphaned_commit_lock_recovery :: "vault_state \<Rightarrow> vault_state result" where
  "apply_orphaned_commit_lock_recovery s = apply_prepared_commit_recovery s"

definition apply_commit_success_state ::
  "vault_state \<Rightarrow> int \<Rightarrow> string \<Rightarrow> vault_state result" where
  "apply_commit_success_state s committed_revision manifest_summary = VaultStateRecord
     (s\<lparr>vs_last_applied_revision := max (vs_last_applied_revision s) committed_revision,
        vs_remote_head_revision := max (vs_remote_head_revision s) committed_revision,
        vs_acked_revision := max (vs_acked_revision s) committed_revision,
        vs_commit_in_progress := False,
        vs_last_manifest_summary := Some manifest_summary,
        vs_last_manifest_summary_status := ''valid''\<rparr>)"

definition apply_submitted_commit_match_recovery ::
  "vault_state \<Rightarrow> int \<Rightarrow> int \<Rightarrow> string option \<Rightarrow> vault_state result" where
  "apply_submitted_commit_match_recovery s matched_revision observed_head matched_summary =
     VaultStateRecord
     (s\<lparr>vs_last_applied_revision := max (vs_last_applied_revision s) matched_revision,
        vs_remote_head_revision := max (vs_remote_head_revision s) observed_head,
        vs_acked_revision := max (vs_acked_revision s) matched_revision,
        vs_commit_in_progress := False,
        vs_last_manifest_summary := matched_summary,
        vs_last_manifest_summary_status :=
          (case matched_summary of None \<Rightarrow> ''stale'' | Some _ \<Rightarrow> ''valid'')\<rparr>)"

definition apply_submitted_commit_miss_recovery :: "vault_state \<Rightarrow> vault_state result" where
  "apply_submitted_commit_miss_recovery s = apply_prepared_commit_recovery s"

section \<open>Journals and tombstones\<close>

definition normalize_commit_journal_for_recovery ::
  "commit_journal \<Rightarrow> int \<Rightarrow> commit_journal result" where
  "normalize_commit_journal_for_recovery j normalized_at =
     (if cj_status j \<noteq> ''acknowledged'' then Inr j
      else CommitIntentJournalRecord
        (j\<lparr>cj_status := ''submitted'', cj_updated_at := normalized_at\<rparr>))"

definition covered_by_intent :: "commit_journal \<Rightarrow> tombstone \<Rightarrow> bool" where
  "covered_by_intent j t =
     (if tb_deleted_revision t \<noteq> None then False
      else case cj_intent_delete_seq_upper_bound j of
             Some bound \<Rightarrow> tb_local_delete_seq t \<le> bound
           | None \<Rightarrow> tb_deleted_at t \<le> cj_created_at j)"

definition select_pending_tombstones_for_commit ::
  "tombstone list \<Rightarrow> commit_journal \<Rightarrow> tombstone list" where
  "select_pending_tombstones_for_commit ts j = filter (covered_by_intent j) ts"

definition apply_committed_tombstones ::
  "tombstone list \<Rightarrow> commit_journal \<Rightarrow> int \<Rightarrow> tombstone list result" where
  "apply_committed_tombstones ts j committed_revision =
     (let selected_ids = map tb_file_id (select_pending_tombstones_for_commit ts j) in
      mapM (\<lambda>t. if tb_file_id t \<notin> set selected_ids then Inr t
                else TombstoneRecord (t\<lparr>tb_deleted_revision := Some committed_revision\<rparr>)) ts)"

section \<open>The contract of a state transformer\<close>

text \<open>What a step may do to the vault state: identity, schema, metadata, conflict flag and
  delete counter stay, revisions never decrease.\<close>

definition state_advances :: "vault_state \<Rightarrow> vault_state \<Rightarrow> bool" where
  "state_advances s s' \<longleftrightarrow> vs_vault_id s' = vs_vault_id s
     \<and> vs_schema_version s' = vs_schema_version s \<and> vs_meta s' = vs_meta s
     \<and> vs_local_delete_sequence s' = vs_local_delete_sequence s
     \<and> vs_has_unresolved_conflicts s' = vs_has_unresolved_conflicts s
     \<and> vs_last_applied_revision s \<le> vs_last_applied_revision s'
     \<and> vs_remote_head_revision s \<le> vs_remote_head_revision s'
     \<and> vs_acked_revision s \<le> vs_acked_revision s'
     \<and> set (vs_pending_ack_to_server s) \<subseteq> set (vs_pending_ack_to_server s')"

lemma state_advances_refl [simp]: "state_advances s s"
  by (simp add: state_advances_def)

lemma state_advances_trans: "state_advances s s' \<Longrightarrow> state_advances s' s'' \<Longrightarrow> state_advances s s''"
  by (auto simp: state_advances_def)

locale state_transformer =
  fixes step :: "'i \<Rightarrow> vault_state \<Rightarrow> vault_state result"
  assumes step_advances: "step i s = Inr s' \<Longrightarrow> state_advances s s'"
    and step_wf: "step i s = Inr s' \<Longrightarrow> wf_vault_state s'"
begin

fun run :: "vault_state \<Rightarrow> 'i list \<Rightarrow> vault_state" where
  "run s [] = s"
| "run s (i # is) = run (case step i s of Inl e \<Rightarrow> s | Inr s' \<Rightarrow> s') is"

lemma run_advances: "state_advances s (run s is)"
proof (induction "is" arbitrary: s)
  case (Cons i "is")
  show ?case
    using Cons.IH [of "case step i s of Inl e \<Rightarrow> s | Inr s' \<Rightarrow> s'"]
    by (auto split: sum.splits dest: step_advances intro: state_advances_trans)
qed simp

lemma run_wf: "wf_vault_state s \<Longrightarrow> wf_vault_state (run s is)"
  by (induction "is" arbitrary: s) (auto split: sum.splits dest: step_wf)

end

text \<open>The transformers of the code as one step function, for the interpretation.\<close>

datatype state_event =
    SummaryStale
  | Reconciled int string
  | SyncFinalizing apply_journal
  | PreparedRecovery
  | OrphanedLock
  | CommitSuccess int string
  | SubmittedMatch int int "string option"
  | SubmittedMiss

fun apply_event :: "state_event \<Rightarrow> vault_state \<Rightarrow> vault_state result" where
  "apply_event SummaryStale s = apply_manifest_summary_stale s"
| "apply_event (Reconciled r h) s = apply_manifest_reconciled_state s r h"
| "apply_event (SyncFinalizing j) s = apply_sync_finalizing_recovery s j"
| "apply_event PreparedRecovery s = apply_prepared_commit_recovery s"
| "apply_event OrphanedLock s = apply_orphaned_commit_lock_recovery s"
| "apply_event (CommitSuccess r h) s = apply_commit_success_state s r h"
| "apply_event (SubmittedMatch r o' h) s = apply_submitted_commit_match_recovery s r o' h"
| "apply_event SubmittedMiss s = apply_submitted_commit_miss_recovery s"

lemmas transformer_defs = apply_manifest_summary_stale_def apply_manifest_reconciled_state_def
  apply_sync_finalizing_recovery_def apply_prepared_commit_recovery_def
  apply_orphaned_commit_lock_recovery_def apply_commit_success_state_def
  apply_submitted_commit_match_recovery_def apply_submitted_commit_miss_recovery_def
  sorted_unique_revisions_def Let_def

lemma apply_event_advances: "apply_event e s = Inr s' \<Longrightarrow> state_advances s s'"
  by (cases e) (auto simp: transformer_defs result_simps state_advances_def)

lemma apply_event_wf: "apply_event e s = Inr s' \<Longrightarrow> wf_vault_state s'"
  by (cases e) (auto simp: transformer_defs result_simps)

interpretation transformers: state_transformer apply_event
  by unfold_locales (auto intro: apply_event_advances apply_event_wf)

definition apply_events :: "vault_state \<Rightarrow> state_event list \<Rightarrow> vault_state" where
  "apply_events s es = foldl (\<lambda>s e. case apply_event e s of Inl _ \<Rightarrow> s | Inr s' \<Rightarrow> s') s es"

lemma apply_events_run: "apply_events s es = transformers.run s es"
  by (induction es arbitrary: s) (simp_all add: apply_events_def)

lemma apply_events_Cons:
  "apply_events s (e # es) = apply_events (case apply_event e s of Inl _ \<Rightarrow> s | Inr s' \<Rightarrow> s') es"
  by (simp add: apply_events_def)

section \<open>When the transformers succeed\<close>

lemma reconciled_eq_Inr [result_simps]:
  "apply_manifest_reconciled_state s r h = Inr s' \<longleftrightarrow>
     s' = s\<lparr>vs_last_applied_revision := max (vs_last_applied_revision s) r,
            vs_remote_head_revision := max (vs_remote_head_revision s) r,
            vs_acked_revision := max (vs_acked_revision s) r,
            vs_pending_ack_to_server := sorted_set (vs_pending_ack_to_server s @ [r]),
            vs_last_manifest_summary := Some h,
            vs_last_manifest_summary_status := ''valid''\<rparr>
     \<and> wf_vault_state s'"
  by (auto simp: transformer_defs result_simps)

lemma commit_success_wf:
  "wf_vault_state s \<Longrightarrow> \<exists>s'. apply_commit_success_state s r h = Inr s'"
  by (auto simp: apply_commit_success_state_def VaultStateRecord_eq_Inr wf_vault_state_iff)

lemma prepared_recovery_eq [simp]:
  "wf_vault_state s \<Longrightarrow>
     apply_prepared_commit_recovery s = Inr (s\<lparr>vs_commit_in_progress := False\<rparr>)"
  by (simp add: apply_prepared_commit_recovery_def VaultStateRecord_eq_Inr wf_vault_state_iff)

lemma covered_by_intent_iff:
  "covered_by_intent j t \<longleftrightarrow> tb_deleted_revision t = None
     \<and> (case cj_intent_delete_seq_upper_bound j of
          Some bound \<Rightarrow> tb_local_delete_seq t \<le> bound
        | None \<Rightarrow> tb_deleted_at t \<le> cj_created_at j)"
  by (auto simp: covered_by_intent_def split: option.splits)

lemma committed_tombstones_eq_Inr:
  assumes "distinct (map tb_file_id ts)"
  shows "apply_committed_tombstones ts j r = Inr ts' \<longleftrightarrow>
    ts' = map (\<lambda>t. if covered_by_intent j t then t\<lparr>tb_deleted_revision := Some r\<rparr> else t) ts
    \<and> (\<forall>t \<in> set ts. covered_by_intent j t \<longrightarrow>
         wf_tombstone (t\<lparr>tb_deleted_revision := Some r\<rparr>))"
proof -
  have sel: "tb_file_id t \<in> tb_file_id ` set (filter (covered_by_intent j) ts)
      \<longleftrightarrow> covered_by_intent j t" if "t \<in> set ts" for t
    using assms that by (auto simp: distinct_map dest: inj_onD)
  have "apply_committed_tombstones ts j r =
      mapM (\<lambda>t. if covered_by_intent j t
         then TombstoneRecord (t\<lparr>tb_deleted_revision := Some r\<rparr>) else Inr t) ts"
    unfolding apply_committed_tombstones_def select_pending_tombstones_for_commit_def Let_def
    by (rule mapM_cong [OF refl]) (use sel in auto)
  also have "\<dots> = Inr ts' \<longleftrightarrow>
    ts' = map (\<lambda>t. if covered_by_intent j t then t\<lparr>tb_deleted_revision := Some r\<rparr> else t) ts
    \<and> (\<forall>t \<in> set ts. covered_by_intent j t \<longrightarrow>
         wf_tombstone (t\<lparr>tb_deleted_revision := Some r\<rparr>))"
  proof (induction ts arbitrary: ts')
    case (Cons t ts)
    then show ?case by (auto simp: result_simps)
  qed auto
  finally show ?thesis .
qed

section \<open>Properties\<close>

text \<open>No sequence of state transformations of recovery.py (stale summary, reconciliation,
  crash recovery of an apply, commit success, recovery of a prepared, orphaned or submitted
  commit), whichever of them raise, moves a revision of the vault state backwards, loses a
  pending acknowledgement, or touches its identity, metadata, conflict flag or delete counter;
  and a valid state stays valid.\<close>

lemma vault_state_advances:
  assumes "wf_vault_state s"
  shows "state_advances s (apply_events s es) \<and> wf_vault_state (apply_events s es)"
  using transformers.run_advances [of s es] transformers.run_wf [OF assms, of es]
  by (simp add: apply_events_run)

definition fresh_state :: vault_state where
  "fresh_state = \<lparr>vs_vault_id = ''v'', vs_last_applied_revision = 0, vs_remote_head_revision = 0,
     vs_acked_revision = 0, vs_pending_ack_to_server = [], vs_commit_in_progress = False,
     vs_last_manifest_summary = None, vs_last_manifest_summary_status = ''missing'',
     vs_local_delete_sequence = 0, vs_has_unresolved_conflicts = False,
     vs_schema_version = ''v1'', vs_meta = None\<rparr>"

lemma wf_fresh_state: "wf_vault_state fresh_state"
  by (simp add: wf_vault_state_iff fresh_state_def)

theorem vault_state_advances_witness:
  "state_advances fresh_state
     (apply_events fresh_state [Reconciled 3 ''h3'', Reconciled 0 ''h0'', CommitSuccess 4 ''h4''])
   \<and> wf_vault_state
     (apply_events fresh_state [Reconciled 3 ''h3'', Reconciled 0 ''h0'', CommitSuccess 4 ''h4''])"
  by (rule vault_state_advances [OF wf_fresh_state])

text \<open>Reconciling a valid state with a manifest succeeds exactly when the target revision is
  positive; then the pending acknowledgements are the old ones and the target, sorted and
  without duplicates, and the summary is valid, while revision 0 (the empty head of a vault
  nobody has committed to) raises the \<open>pending_ack_to_server\<close> check.\<close>

lemma reconcile_tracks_acknowledgement:
  assumes "wf_vault_state s"
  shows "case apply_manifest_reconciled_state s r h of
      Inl e \<Rightarrow> r \<le> 0 \<and>
        e = ValueError ''pending_ack_to_server revision must be a positive integer''
    | Inr s' \<Rightarrow> 0 < r \<and> sorted (vs_pending_ack_to_server s')
        \<and> distinct (vs_pending_ack_to_server s')
        \<and> set (vs_pending_ack_to_server s') = insert r (set (vs_pending_ack_to_server s))
        \<and> vs_last_applied_revision s' = max (vs_last_applied_revision s) r
        \<and> vs_last_manifest_summary s' = Some h"
proof (cases "0 < r")
  case True
  then have "\<exists>s'. apply_manifest_reconciled_state s r h = Inr s'"
    using assms by (auto simp: reconciled_eq_Inr wf_vault_state_iff)
  then obtain s' where "apply_manifest_reconciled_state s r h = Inr s'" ..
  moreover from this have "s' = s\<lparr>vs_last_applied_revision := max (vs_last_applied_revision s) r,
      vs_remote_head_revision := max (vs_remote_head_revision s) r,
      vs_acked_revision := max (vs_acked_revision s) r,
      vs_pending_ack_to_server := sorted_set (vs_pending_ack_to_server s @ [r]),
      vs_last_manifest_summary := Some h, vs_last_manifest_summary_status := ''valid''\<rparr>"
    by (simp add: reconciled_eq_Inr)
  ultimately show ?thesis using True by simp
next
  case False
  then have "apply_manifest_reconciled_state s r h =
      Inl (ValueError ''pending_ack_to_server revision must be a positive integer'')"
    using assms
    by (subst apply_manifest_reconciled_state_def, unfold Let_def VaultStateRecord_def
        validate_append, subst validate_map_const)
      (auto simp: check_defs wf_vault_state_iff sorted_unique_revisions_def)
  then show ?thesis using False by simp
qed

theorem reconcile_tracks_acknowledgement_witness:
  "apply_manifest_reconciled_state fresh_state 0 ''h'' =
     Inl (ValueError ''pending_ack_to_server revision must be a positive integer'')
   \<and> \<not> isl (apply_manifest_reconciled_state fresh_state 7 ''h'')"
  using reconcile_tracks_acknowledgement [OF wf_fresh_state, of 0 "''h''"]
    reconcile_tracks_acknowledgement [OF wf_fresh_state, of 7 "''h''"]
  by (auto split: sum.splits)

text \<open>A pull that reconciles the state lifts the block on new commits: afterwards a commit
  is blocked only by an active commit journal, the commit lock or unresolved conflicts, and a
  pull plan for a head that has been applied downloads nothing.\<close>

lemma reconcile_unblocks_commit:
  assumes "apply_manifest_reconciled_state s r h = Inr s'"
  shows "should_block_new_commit s' journal
      = (journal \<or> vs_commit_in_progress s \<or> vs_has_unresolved_conflicts s)
    \<and> (o' \<le> max (vs_last_applied_revision s) r \<longrightarrow>
         \<not> pl_should_download_manifest (plan_pull_reconcile s' o'))"
  using assms
  by (auto simp: reconciled_eq_Inr should_block_new_commit_def plan_pull_reconcile_def
      requires_full_pull_def Let_def)

theorem reconcile_unblocks_commit_witness:
  "case apply_manifest_reconciled_state fresh_state 3 ''h'' of
     Inl e \<Rightarrow> False
   | Inr s' \<Rightarrow> should_block_new_commit fresh_state False \<and> \<not> should_block_new_commit s' False
       \<and> \<not> pl_should_download_manifest (plan_pull_reconcile s' 3)"
proof -
  obtain s' where s: "apply_manifest_reconciled_state fresh_state 3 ''h'' = Inr s'"
    by (simp add: reconciled_eq_Inr wf_vault_state_iff fresh_state_def)
  have "should_block_new_commit fresh_state False" by code_simp
  then show ?thesis
    using s reconcile_unblocks_commit [OF s, of False 3] by (simp add: fresh_state_def)
qed

text \<open>After a commit, exactly the pending tombstones the intent covered (by delete sequence
  when the journal recorded a bound, by time otherwise) carry the committed revision; those
  already committed and those deleted after the intent was frozen are untouched, and the ledger
  keeps its order.\<close>

lemma committed_tombstones_exact:
  assumes "distinct (map tb_file_id ts)" "list_all wf_tombstone ts" "0 < r"
  shows "apply_committed_tombstones ts j r = Inr (map (\<lambda>t.
      if tb_deleted_revision t = None \<and>
         (case cj_intent_delete_seq_upper_bound j of
            Some bound \<Rightarrow> tb_local_delete_seq t \<le> bound
          | None \<Rightarrow> tb_deleted_at t \<le> cj_created_at j)
      then t\<lparr>tb_deleted_revision := Some r\<rparr> else t) ts)"
  unfolding covered_by_intent_iff [symmetric]
  using assms by (auto simp: committed_tombstones_eq_Inr list_all_iff wf_tombstone_iff)

definition sample_journal :: commit_journal where
  "sample_journal = \<lparr>cj_vault_id = ''v'', cj_commit_intent_id = ''c1'',
     cj_intent_manifest_hash = ''sha256:x'', cj_base_revision = 3, cj_created_by_device = ''dev'',
     cj_status = ''submitted'', cj_created_at = 10, cj_updated_at = 10,
     cj_intent_delete_seq_upper_bound = Some 2\<rparr>"

definition sample_ledger :: "tombstone list" where
  "sample_ledger = map (\<lambda>(i, rv, sq). \<lparr>tb_file_id = i, tb_deleted_revision = rv,
       tb_deleted_at = 5, tb_local_delete_seq = sq, tb_last_known_path = Some (i @ ''.md''),
       tb_deleted_by_device = None, tb_meta = None\<rparr>)
     [(''t1'', Some 1, 1), (''t2'', None, 2), (''t3'', None, 3)]"

theorem committed_tombstones_exact_witness:
  "rbind (apply_committed_tombstones sample_ledger sample_journal 4)
     (\<lambda>ts. Inr (map tb_deleted_revision ts)) = Inr [Some 1, Some 4, None]"
proof -
  have "distinct (map tb_file_id sample_ledger)" "list_all wf_tombstone sample_ledger"
    by code_simp+
  from committed_tombstones_exact [OF this, of 4 sample_journal]
  show ?thesis by (simp add: sample_ledger_def sample_journal_def)
qed

end
