(* ===== verification/Convergence.thy ===== *)
theory Convergence
  imports Recovery
begin

text \<open>
  \<open>vault_core/convergence.py\<close>: merging the local delete ledger with the tombstones of a
  manifest, reclaiming tombstones the server has dropped, and rebuilding the file map from a
  manifest. The lists the code iterates are lists here, so an iterable that can be read once
  only is outside the model; every caller passes a list.
\<close>

section \<open>Merging tombstones\<close>

definition starts_with :: "string \<Rightarrow> string \<Rightarrow> bool" where
  "starts_with p s \<longleftrightarrow> take (length p) s = p"

definition infer_file_type :: "string \<Rightarrow> string" where
  "infer_file_type path =
     (if starts_with ''Attachments/'' path then ''attachment''
      else if starts_with ''.ai/wiki/'' path then ''ai_wiki''
      else if starts_with ''.ai/index/'' path then ''ai_index''
      else if path = ''AGENTS.md'' \<or> starts_with ''.ai/agents/'' path then ''ai_agents''
      else ''note'')"

definition merge_tombstone :: "tombstone \<Rightarrow> tombstone \<Rightarrow> tombstone result" where
  "merge_tombstone l r = TombstoneRecord
     \<lparr>tb_file_id = tb_file_id l,
      tb_deleted_revision = (if tb_deleted_revision l \<noteq> None then tb_deleted_revision l
                             else tb_deleted_revision r),
      tb_deleted_at = max (tb_deleted_at l) (tb_deleted_at r),
      tb_local_delete_seq = tb_local_delete_seq l,
      tb_last_known_path = str_or (tb_last_known_path l) (tb_last_known_path r),
      tb_deleted_by_device = str_or (tb_deleted_by_device l) (tb_deleted_by_device r),
      tb_meta = (if tb_meta l \<noteq> None then tb_meta l else tb_meta r)\<rparr>"

text \<open>
  The loop over the local records pops the manifest's tombstones by identifier, so a second
  local record with the same identifier finds none. It returns the merged records and what is
  left of the dict.
\<close>

fun merge_local ::
  "(string \<Rightarrow> tombstone option) \<Rightarrow> tombstone list
     \<Rightarrow> (tombstone list \<times> (string \<Rightarrow> tombstone option)) result" where
  "merge_local m [] = Inr ([], m)"
| "merge_local m (t # ts) = (case m (tb_file_id t) of
     None \<Rightarrow> rbind (merge_local m ts) (\<lambda>(xs, m'). Inr (t # xs, m'))
   | Some r \<Rightarrow> rbind (merge_tombstone t r) (\<lambda>x.
       rbind (merge_local (m(tb_file_id t := None)) ts) (\<lambda>(xs, m'). Inr (x # xs, m'))))"

definition imported_tombstone :: "tombstone \<Rightarrow> tombstone result" where
  "imported_tombstone r = TombstoneRecord (r\<lparr>tb_local_delete_seq := 0\<rparr>)"

definition merge_manifest_tombstones ::
  "tombstone list \<Rightarrow> tombstone list \<Rightarrow> tombstone list result" where
  "merge_manifest_tombstones local_ts manifest_ts =
     rbind (merge_local (dict_of tb_file_id manifest_ts) local_ts) (\<lambda>(merged, rest).
     rbind (mapM imported_tombstone
              (List.map_filter rest (sorted_set (map tb_file_id manifest_ts)))) (\<lambda>imported.
     Inr (merged @ imported)))"

definition reclaimable :: "tombstone list \<Rightarrow> int \<Rightarrow> tombstone \<Rightarrow> bool" where
  "reclaimable manifest_ts target_revision t =
     (if tb_file_id t \<in> tb_file_id ` set manifest_ts then False
      else case tb_deleted_revision t of
             None \<Rightarrow> False
           | Some r \<Rightarrow> target_revision \<ge> r)"

definition select_reclaimable_tombstones ::
  "tombstone list \<Rightarrow> tombstone list \<Rightarrow> int \<Rightarrow> tombstone list" where
  "select_reclaimable_tombstones local_ts manifest_ts target_revision =
     filter (reclaimable manifest_ts target_revision) local_ts"

section \<open>Rebuilding the file map\<close>

definition current_by_id :: "filemap_document \<Rightarrow> string \<Rightarrow> file_record option" where
  "current_by_id d = dict_of fr_file_id (filter (\<lambda>r. fr_status r \<noteq> ''conflict_copy'') (fd_files d))"

definition rebuilt_active ::
  "filemap_document \<Rightarrow> manifest \<Rightarrow> int \<Rightarrow> manifest_file \<Rightarrow> file_record result" where
  "rebuilt_active d m rewritten_at e = FileRecord
     \<lparr>fr_file_id = mf_file_id e, fr_path = mf_path e, fr_type = mf_type e,
      fr_status = ''active'', fr_updated_at = rewritten_at,
      fr_content_hash = Some (mf_content_hash e),
      fr_last_known_revision = Some (mn_revision m), fr_conflict_source_file_id = None,
      fr_meta = (case current_by_id d (mf_file_id e) of None \<Rightarrow> None | Some r \<Rightarrow> fr_meta r)\<rparr>"

definition tombstone_path :: "filemap_document \<Rightarrow> tombstone \<Rightarrow> string option" where
  "tombstone_path d t =
     str_or (tb_last_known_path t) (map_option fr_path (current_by_id d (tb_file_id t)))"

definition rebuilt_deleted :: "filemap_document \<Rightarrow> tombstone \<Rightarrow> file_record result" where
  "rebuilt_deleted d t =
     (let existing = current_by_id d (tb_file_id t) in
      case tombstone_path d t of
        None \<Rightarrow> Inl (ValueError
          (''cannot rebuild deleted record without a path: '' @ tb_file_id t))
      | Some path \<Rightarrow> FileRecord
          \<lparr>fr_file_id = tb_file_id t, fr_path = path,
           fr_type = (case existing of Some r \<Rightarrow> fr_type r | None \<Rightarrow> infer_file_type path),
           fr_status = ''deleted'', fr_updated_at = tb_deleted_at t,
           fr_content_hash = (case existing of Some r \<Rightarrow> fr_content_hash r | None \<Rightarrow> None),
           fr_last_known_revision = tb_deleted_revision t, fr_conflict_source_file_id = None,
           fr_meta = (case existing of Some r \<Rightarrow> fr_meta r | None \<Rightarrow> None)\<rparr>)"

definition tombstone_sort_key :: "tombstone \<Rightarrow> string \<times> string" where
  "tombstone_sort_key t =
     (case tb_last_known_path t of None \<Rightarrow> [] | Some p \<Rightarrow> p, tb_file_id t)"

definition rebuild_filemap_from_manifest ::
  "filemap_document \<Rightarrow> manifest \<Rightarrow> tombstone list \<Rightarrow> int \<Rightarrow> filemap_document result" where
  "rebuild_filemap_from_manifest d m local_ts rewritten_at =
     (let retained = filter (\<lambda>t. tb_file_id t \<notin> mf_file_id ` set (mn_files m)) local_ts in
      rbind (mapM (rebuilt_active d m rewritten_at) (mn_sorted_files m)) (\<lambda>actives.
      rbind (mapM (rebuilt_deleted d) (sort_key tombstone_sort_key retained)) (\<lambda>deleted.
      replace_files d
        (actives @ deleted @ filter (\<lambda>r. fr_status r = ''conflict_copy'') (fd_files d))
        rewritten_at)))"

section \<open>Convergence\<close>

record convergence =
  cv_filemap :: filemap_document
  cv_tombstones :: "tombstone list"
  cv_reclaimed_tombstones :: "tombstone list"

definition converge_manifest_state ::
  "filemap_document \<Rightarrow> manifest \<Rightarrow> tombstone list \<Rightarrow> int \<Rightarrow> convergence result" where
  "converge_manifest_state d m local_ts rewritten_at =
     rbind (merge_manifest_tombstones local_ts (mn_tombstones m)) (\<lambda>merged.
     let reclaimed = select_reclaimable_tombstones merged (mn_tombstones m) (mn_revision m);
         retained = sort_key (\<lambda>t. (tb_local_delete_seq t, tb_file_id t))
           (filter (\<lambda>t. tb_file_id t \<notin> tb_file_id ` set reclaimed) merged) in
     rbind (rebuild_filemap_from_manifest d m retained rewritten_at) (\<lambda>rebuilt.
     Inr \<lparr>cv_filemap = rebuilt, cv_tombstones = retained, cv_reclaimed_tombstones = reclaimed\<rparr>))"

section \<open>The merged ledger\<close>

definition merged_with :: "(string \<Rightarrow> tombstone option) \<Rightarrow> tombstone \<Rightarrow> tombstone" where
  "merged_with m t = (case m (tb_file_id t) of None \<Rightarrow> t | Some r \<Rightarrow>
     \<lparr>tb_file_id = tb_file_id t,
      tb_deleted_revision = (if tb_deleted_revision t \<noteq> None then tb_deleted_revision t
                             else tb_deleted_revision r),
      tb_deleted_at = max (tb_deleted_at t) (tb_deleted_at r),
      tb_local_delete_seq = tb_local_delete_seq t,
      tb_last_known_path = str_or (tb_last_known_path t) (tb_last_known_path r),
      tb_deleted_by_device = str_or (tb_deleted_by_device t) (tb_deleted_by_device r),
      tb_meta = (if tb_meta t \<noteq> None then tb_meta t else tb_meta r)\<rparr>)"

lemma merged_with_keys [simp]:
  "tb_file_id (merged_with m t) = tb_file_id t"
  "tb_local_delete_seq (merged_with m t) = tb_local_delete_seq t"
  by (simp_all add: merged_with_def split: option.splits)

lemma merged_with_None: "m (tb_file_id t) = None \<Longrightarrow> merged_with m t = t"
  by (simp add: merged_with_def)

lemma merge_local_eq:
  assumes "distinct (map tb_file_id ts)" "\<forall>t \<in> set ts. wf_tombstone t"
    and "\<forall>i r. m i = Some r \<longrightarrow> wf_tombstone r"
  shows "merge_local m ts = Inr (map (merged_with m) ts, m |` (- tb_file_id ` set ts))"
  using assms
proof (induction ts arbitrary: m)
  case Nil
  then show ?case by (simp add: restrict_map_def)
next
  case (Cons t ts)
  show ?case
  proof (cases "m (tb_file_id t)")
    case None
    with Cons show ?thesis
      by (auto simp: merged_with_None restrict_map_def)
  next
    case (Some r)
    let ?m = "m(tb_file_id t := None)"
    have "map (merged_with ?m) ts = map (merged_with m) ts"
      using Cons.prems(1) by (intro map_cong refl) (auto simp: merged_with_def image_iff)
    moreover have "merge_tombstone t r = Inr (merged_with m t)"
      using Cons.prems(2,3) Some
      by (auto simp: merge_tombstone_def merged_with_def TombstoneRecord_eq_Inr wf_tombstone_iff)
    moreover have "?m |` (- tb_file_id ` set ts) = m |` (- tb_file_id ` set (t # ts))"
      by (auto simp: restrict_map_def)
    moreover have "merge_local ?m ts = Inr (map (merged_with ?m) ts, ?m |` (- tb_file_id ` set ts))"
      using Cons.prems by (intro Cons.IH) (auto split: if_splits)
    ultimately show ?thesis using Some by simp
  qed
qed

text \<open>Tombstones that only the manifest has, imported with delete sequence 0.\<close>

definition imported_of :: "tombstone list \<Rightarrow> tombstone list \<Rightarrow> tombstone list" where
  "imported_of ls ms = map (\<lambda>r. r\<lparr>tb_local_delete_seq := 0\<rparr>)
     (List.map_filter (dict_of tb_file_id ms |` (- tb_file_id ` set ls))
       (sorted_set (map tb_file_id ms)))"

lemma merge_eq:
  assumes "distinct (map tb_file_id ls)" "\<forall>t \<in> set ls. wf_tombstone t"
    and "\<forall>t \<in> set ms. wf_tombstone t"
  shows "merge_manifest_tombstones ls ms =
    Inr (map (merged_with (dict_of tb_file_id ms)) ls @ imported_of ls ms)"
proof -
  have "\<forall>i r. dict_of tb_file_id ms i = Some r \<longrightarrow> wf_tombstone r"
    using assms(3) by (auto dest: dict_of_SomeD)
  note m = merge_local_eq [OF assms(1,2) this]
  have "mapM imported_tombstone
      (List.map_filter (dict_of tb_file_id ms |` (- tb_file_id ` set ls))
         (sorted_set (map tb_file_id ms))) = Inr (imported_of ls ms)"
    unfolding imported_of_def
    using assms(3) by (intro mapM_pure)
      (auto simp: imported_tombstone_def TombstoneRecord_eq_Inr wf_tombstone_iff
        restrict_map_def split: if_splits dest!: dict_of_SomeD)
  with m show ?thesis by (simp add: merge_manifest_tombstones_def)
qed

definition merged_ledger :: "tombstone list \<Rightarrow> tombstone list \<Rightarrow> tombstone list" where
  "merged_ledger ls ms = map (merged_with (dict_of tb_file_id ms)) ls @ imported_of ls ms"

definition retained_ledger :: "tombstone list \<Rightarrow> manifest \<Rightarrow> tombstone list" where
  "retained_ledger ls m = sort_key (\<lambda>t. (tb_local_delete_seq t, tb_file_id t))
     (filter (\<lambda>t. \<not> reclaimable (mn_tombstones m) (mn_revision m) t)
        (merged_ledger ls (mn_tombstones m)))"

text \<open>The inputs of a convergence: records that exist, and identifiers listed once.\<close>

definition convergence_input :: "filemap_document \<Rightarrow> manifest \<Rightarrow> tombstone list \<Rightarrow> int \<Rightarrow> bool" where
  "convergence_input d m ls at \<longleftrightarrow> wf_document d \<and> wf_manifest m \<and> list_all wf_tombstone ls
     \<and> distinct (map tb_file_id ls) \<and> distinct (map mf_file_id (mn_files m)) \<and> 0 \<le> at"

lemma ids_imported:
  "map tb_file_id (imported_of ls ms) =
     filter (\<lambda>i. i \<notin> tb_file_id ` set ls) (sorted_set (map tb_file_id ms))"
proof -
  have "(\<forall>i \<in> set is. i \<in> tb_file_id ` set ms) \<Longrightarrow>
    map tb_file_id (List.map_filter (dict_of tb_file_id ms |` (- tb_file_id ` set ls)) is)
      = filter (\<lambda>i. i \<notin> tb_file_id ` set ls) is" for "is"
  proof (induction "is")
    case (Cons i "is")
    then obtain r where "dict_of tb_file_id ms i = Some r" "tb_file_id r = i"
      using dict_of_in [of i tb_file_id ms] by auto
    with Cons show ?case by (auto simp: restrict_map_def)
  qed simp
  then show ?thesis by (simp add: imported_of_def comp_def)
qed

lemma ids_merged:
  assumes "distinct (map tb_file_id ls)"
  shows "distinct (map tb_file_id (merged_ledger ls ms))"
    and "tb_file_id ` set (merged_ledger ls ms) = tb_file_id ` set ls \<union> tb_file_id ` set ms"
proof -
  have m: "map tb_file_id (merged_ledger ls ms) = map tb_file_id ls
      @ filter (\<lambda>i. i \<notin> tb_file_id ` set ls) (sorted_set (map tb_file_id ms))"
    by (simp add: merged_ledger_def ids_imported)
  show "distinct (map tb_file_id (merged_ledger ls ms))"
    unfolding m using assms by auto
  have "set (map tb_file_id (merged_ledger ls ms)) = tb_file_id ` set ls \<union> tb_file_id ` set ms"
    unfolding m by auto
  then show "tb_file_id ` set (merged_ledger ls ms) = tb_file_id ` set ls \<union> tb_file_id ` set ms"
    by simp
qed

lemma not_reclaimed:
  assumes "distinct (map tb_file_id xs)"
  shows "filter (\<lambda>t. tb_file_id t \<notin> tb_file_id ` set (filter P xs)) xs = filter (\<lambda>t. \<not> P t) xs"
  using assms by (intro filter_cong refl) (auto simp: distinct_map dest: inj_onD)

section \<open>The rebuilt file map\<close>

definition active_of :: "filemap_document \<Rightarrow> manifest \<Rightarrow> int \<Rightarrow> manifest_file \<Rightarrow> file_record" where
  "active_of d m at e =
     \<lparr>fr_file_id = mf_file_id e, fr_path = mf_path e, fr_type = mf_type e,
      fr_status = ''active'', fr_updated_at = at, fr_content_hash = Some (mf_content_hash e),
      fr_last_known_revision = Some (mn_revision m), fr_conflict_source_file_id = None,
      fr_meta = (case current_by_id d (mf_file_id e) of None \<Rightarrow> None | Some r \<Rightarrow> fr_meta r)\<rparr>"

definition deleted_of :: "filemap_document \<Rightarrow> tombstone \<Rightarrow> file_record" where
  "deleted_of d t = (let existing = current_by_id d (tb_file_id t);
        path = (case tombstone_path d t of None \<Rightarrow> [] | Some p \<Rightarrow> p) in
      \<lparr>fr_file_id = tb_file_id t, fr_path = path,
       fr_type = (case existing of Some r \<Rightarrow> fr_type r | None \<Rightarrow> infer_file_type path),
       fr_status = ''deleted'', fr_updated_at = tb_deleted_at t,
       fr_content_hash = (case existing of Some r \<Rightarrow> fr_content_hash r | None \<Rightarrow> None),
       fr_last_known_revision = tb_deleted_revision t, fr_conflict_source_file_id = None,
       fr_meta = (case existing of Some r \<Rightarrow> fr_meta r | None \<Rightarrow> None)\<rparr>)"

definition deleted_tombstones :: "tombstone list \<Rightarrow> manifest \<Rightarrow> tombstone list" where
  "deleted_tombstones ts m =
     sort_key tombstone_sort_key (filter (\<lambda>t. tb_file_id t \<notin> mf_file_id ` set (mn_files m)) ts)"

definition rebuilt_files :: "filemap_document \<Rightarrow> manifest \<Rightarrow> tombstone list \<Rightarrow> int \<Rightarrow> file_record list" where
  "rebuilt_files d m ts at = map (active_of d m at) (mn_sorted_files m)
     @ map (deleted_of d) (deleted_tombstones ts m)
     @ filter (\<lambda>r. fr_status r = ''conflict_copy'') (fd_files d)"

lemma active_of_fields [simp]:
  "fr_file_id (active_of d m at e) = mf_file_id e"
  "fr_status (active_of d m at e) = ''active''"
  by (simp_all add: active_of_def)

lemma deleted_of_fields [simp]:
  "fr_file_id (deleted_of d t) = tb_file_id t"
  "fr_status (deleted_of d t) = ''deleted''"
  by (simp_all add: deleted_of_def Let_def)

lemma current_by_id_wf:
  "wf_document d \<Longrightarrow> current_by_id d i = Some r \<Longrightarrow> wf_file_record r"
  by (auto simp: current_by_id_def wf_document_iff dest!: dict_of_SomeD)

lemma tombstone_path_non_empty:
  "wf_document d \<Longrightarrow> tombstone_path d t \<noteq> Some []"
  by (cases "(tb_last_known_path t, map_option fr_path (current_by_id d (tb_file_id t)))" rule: str_or.cases)
     (auto simp: tombstone_path_def wf_file_record_iff dest!: current_by_id_wf)

lemma rebuilt_active_eq:
  assumes "wf_document d" "wf_manifest_file e" "0 \<le> mn_revision m" "0 \<le> at"
  shows "rebuilt_active d m at e = Inr (active_of d m at e)"
  using assms
  by (auto simp: rebuilt_active_def active_of_def FileRecord_eq_Inr wf_file_record_iff
      wf_manifest_file_iff valid_sets)

lemma infer_valid: "infer_file_type p \<in> set VALID_FILE_TYPES"
  by (simp add: infer_file_type_def valid_sets)

lemma rebuilt_deleted_eq:
  assumes "wf_document d" "wf_tombstone t"
  shows "rebuilt_deleted d t = (case tombstone_path d t of
      None \<Rightarrow> Inl (ValueError (''cannot rebuild deleted record without a path: '' @ tb_file_id t))
    | Some p \<Rightarrow> Inr (deleted_of d t))"
proof (cases "tombstone_path d t")
  case (Some p)
  then have "p \<noteq> []" using tombstone_path_non_empty [OF assms(1)] by auto
  moreover have "infer_file_type p \<in> set VALID_FILE_TYPES" by (rule infer_valid)
  ultimately have "wf_file_record (deleted_of d t)"
    using Some assms
    by (auto simp: deleted_of_def Let_def wf_file_record_iff wf_tombstone_iff valid_sets
        split: option.splits dest: current_by_id_wf)
  with Some show ?thesis
    by (simp add: rebuilt_deleted_def deleted_of_def Let_def FileRecord_eq_Inr)
qed (simp add: rebuilt_deleted_def Let_def)

section \<open>The result of a convergence\<close>

lemma mapM_pathless:
  assumes "wf_document d" "\<forall>t \<in> set ts. wf_tombstone t"
  shows "mapM (rebuilt_deleted d) ts = (case find (\<lambda>t. tombstone_path d t = None) ts of
      None \<Rightarrow> Inr (map (deleted_of d) ts)
    | Some t \<Rightarrow> Inl (ValueError (''cannot rebuild deleted record without a path: '' @ tb_file_id t)))"
  using assms(2)
proof (induction ts)
  case (Cons t ts)
  then show ?case
    by (cases "tombstone_path d t") (auto simp: rebuilt_deleted_eq [OF assms(1)] split: option.splits)
qed simp

lemma wf_merged:
  assumes "list_all wf_tombstone ls" "list_all wf_tombstone ms"
  shows "\<forall>t \<in> set (merged_ledger ls ms). wf_tombstone t"
  using assms
  by (auto simp: merged_ledger_def imported_of_def merged_with_def list_all_iff wf_tombstone_iff
      restrict_map_def max_def dest!: dict_of_SomeD split: option.splits if_splits)

lemma rebuild_eq:
  assumes "wf_document d" "wf_manifest m" "\<forall>t \<in> set ts. wf_tombstone t" "0 \<le> at"
  shows "rebuild_filemap_from_manifest d m ts at =
    (case find (\<lambda>t. tombstone_path d t = None) (deleted_tombstones ts m) of
       None \<Rightarrow> Inr (d\<lparr>fd_files := rebuilt_files d m ts at, fd_updated_at := at\<rparr>)
     | Some t \<Rightarrow> Inl (ValueError (''cannot rebuild deleted record without a path: '' @ tb_file_id t)))"
proof -
  have "mapM (rebuilt_active d m at) (mn_sorted_files m) = Inr (map (active_of d m at) (mn_sorted_files m))"
    using assms by (intro mapM_pure rebuilt_active_eq)
      (auto simp: wf_manifest_def list_all_iff ManifestRecord_eq_Inr)
  moreover have "mapM (rebuilt_deleted d) (deleted_tombstones ts m) = (case
      find (\<lambda>t. tombstone_path d t = None) (deleted_tombstones ts m) of
      None \<Rightarrow> Inr (map (deleted_of d) (deleted_tombstones ts m))
    | Some t \<Rightarrow> Inl (ValueError (''cannot rebuild deleted record without a path: '' @ tb_file_id t)))"
    using assms by (intro mapM_pathless) (auto simp: deleted_tombstones_def)
  moreover have "replace_files d fs at = Inr (d\<lparr>fd_files := fs, fd_updated_at := at\<rparr>)" for fs
    using assms by (simp add: replace_files_eq_Inr wf_document_iff)
  ultimately show ?thesis
    by (simp add: rebuild_filemap_from_manifest_def deleted_tombstones_def rebuilt_files_def
        Let_def split: option.splits)
qed

lemma converge_eq:
  assumes "convergence_input d m ls at"
  shows "converge_manifest_state d m ls at =
    (case find (\<lambda>t. tombstone_path d t = None) (deleted_tombstones (retained_ledger ls m) m) of
       None \<Rightarrow> Inr
         \<lparr>cv_filemap = d\<lparr>fd_files := rebuilt_files d m (retained_ledger ls m) at, fd_updated_at := at\<rparr>,
          cv_tombstones = retained_ledger ls m,
          cv_reclaimed_tombstones = filter (reclaimable (mn_tombstones m) (mn_revision m))
            (merged_ledger ls (mn_tombstones m))\<rparr>
     | Some t \<Rightarrow> Inl (ValueError (''cannot rebuild deleted record without a path: '' @ tb_file_id t)))"
proof -
  have w: "wf_document d" "wf_manifest m" "0 \<le> at" "list_all wf_tombstone (mn_tombstones m)"
    "distinct (map tb_file_id ls)" "list_all wf_tombstone ls"
    using assms by (auto simp: convergence_input_def wf_manifest_def)
  have me: "merge_manifest_tombstones ls (mn_tombstones m) = Inr (merged_ledger ls (mn_tombstones m))"
    unfolding merged_ledger_def using w by (intro merge_eq) (auto simp: list_all_iff)
  have wr: "\<forall>t \<in> set (retained_ledger ls m). wf_tombstone t"
    using wf_merged [OF w(6,4)] by (simp add: retained_ledger_def)
  show ?thesis
    unfolding converge_manifest_state_def me rbind_Inr Let_def select_reclaimable_tombstones_def
      not_reclaimed [OF ids_merged(1) [OF w(5)]] retained_ledger_def [symmetric]
      rebuild_eq [OF w(1,2) wr w(3)]
    by (simp split: option.splits)
qed

text \<open>When a convergence succeeds, and with what.\<close>

lemma find_eq_None: "find P xs = None \<longleftrightarrow> (\<forall>x \<in> set xs. \<not> P x)"
  by (auto simp: find_None_iff)

lemma converge_eq_Inr:
  assumes "convergence_input d m ls at"
  shows "converge_manifest_state d m ls at = Inr c \<longleftrightarrow>
     (\<forall>t \<in> set (deleted_tombstones (retained_ledger ls m) m). tombstone_path d t \<noteq> None)
     \<and> c = \<lparr>cv_filemap = d\<lparr>fd_files := rebuilt_files d m (retained_ledger ls m) at, fd_updated_at := at\<rparr>,
          cv_tombstones = retained_ledger ls m,
          cv_reclaimed_tombstones = filter (reclaimable (mn_tombstones m) (mn_revision m))
            (merged_ledger ls (mn_tombstones m))\<rparr>"
proof (cases "find (\<lambda>t. tombstone_path d t = None) (deleted_tombstones (retained_ledger ls m) m)")
  case None
  then have "\<forall>t \<in> set (deleted_tombstones (retained_ledger ls m) m). tombstone_path d t \<noteq> None"
    by (simp only: find_eq_None simp_thms)
  with None show ?thesis unfolding converge_eq [OF assms] by auto
next
  case (Some a)
  then have "a \<in> set (deleted_tombstones (retained_ledger ls m) m)" "tombstone_path d a = None"
    by (auto simp: find_Some_iff)
  with Some show ?thesis unfolding converge_eq [OF assms] by auto
qed

section \<open>Idempotence\<close>

lemma merged_with_idem: "merged_with m (merged_with m t) = merged_with m t"
  by (auto simp: merged_with_def split: option.splits)

lemma imported_mem:
  assumes "t \<in> set (imported_of ls ms)"
  shows "tb_file_id t \<notin> tb_file_id ` set ls \<and>
     (\<exists>r. dict_of tb_file_id ms (tb_file_id t) = Some r \<and> r \<in> set ms
        \<and> t = r\<lparr>tb_local_delete_seq := 0\<rparr>)"
proof -
  from assms obtain i r where "i \<notin> tb_file_id ` set ls" "dict_of tb_file_id ms i = Some r"
    "t = r\<lparr>tb_local_delete_seq := 0\<rparr>"
    by (auto simp: imported_of_def restrict_map_def split: if_splits)
  moreover from this have "r \<in> set ms" "tb_file_id r = i" by (auto dest: dict_of_SomeD)
  ultimately show ?thesis by auto
qed

lemma remerge:
  assumes "distinct (map tb_file_id ls)"
  shows "merged_ledger (retained_ledger ls m) (mn_tombstones m) = retained_ledger ls m"
proof -
  let ?ms = "mn_tombstones m" and ?d = "dict_of tb_file_id (mn_tombstones m)"
  have fix_: "merged_with ?d t = t" if "t \<in> set (merged_ledger ls ?ms)" for t
  proof (cases "t \<in> set (imported_of ls ?ms)")
    case True
    then obtain r where "?d (tb_file_id t) = Some r" "t = r\<lparr>tb_local_delete_seq := 0\<rparr>"
      by (auto dest: imported_mem)
    then show ?thesis by (simp add: merged_with_def)
  next
    case False
    with that show ?thesis by (auto simp: merged_ledger_def merged_with_idem)
  qed
  have "map (merged_with ?d) (retained_ledger ls m) = retained_ledger ls m"
    using fix_ by (intro map_idI) (auto simp: retained_ledger_def)
  moreover have "imported_of (retained_ledger ls m) ?ms = []"
  proof -
    have "i \<in> tb_file_id ` set (retained_ledger ls m)" if "i \<in> tb_file_id ` set ?ms" for i
    proof -
      have "i \<in> tb_file_id ` set (merged_ledger ls ?ms)" using that ids_merged(2) [OF assms] by auto
      then show ?thesis using that by (auto simp: retained_ledger_def reclaimable_def)
    qed
    then have "map tb_file_id (imported_of (retained_ledger ls m) ?ms) = []"
      unfolding ids_imported by (auto simp: filter_empty_conv)
    then show ?thesis by simp
  qed
  ultimately show ?thesis by (simp add: merged_ledger_def)
qed

lemma retained_distinct:
  "distinct (map tb_file_id ls) \<Longrightarrow> distinct (map tb_file_id (retained_ledger ls m))"
proof -
  assume "distinct (map tb_file_id ls)"
  from ids_merged(1) [OF this, of "mn_tombstones m"]
  have "distinct (map tb_file_id (filter (\<lambda>t. \<not> reclaimable (mn_tombstones m) (mn_revision m) t)
      (merged_ledger ls (mn_tombstones m))))"
    by (auto simp: distinct_map_filter)
  then show ?thesis
    by (simp add: retained_ledger_def)
qed

lemma reretain:
  assumes "distinct (map tb_file_id ls)"
  shows "retained_ledger (retained_ledger ls m) m = retained_ledger ls m"
    and "filter (reclaimable (mn_tombstones m) (mn_revision m)) (retained_ledger ls m) = []"
proof -
  have n: "\<not> reclaimable (mn_tombstones m) (mn_revision m) t" if "t \<in> set (retained_ledger ls m)" for t
    using that by (auto simp: retained_ledger_def)
  have "filter (\<lambda>t. \<not> reclaimable (mn_tombstones m) (mn_revision m) t) (retained_ledger ls m)
      = retained_ledger ls m"
    using n by (simp add: filter_id_conv)
  then show "retained_ledger (retained_ledger ls m) m = retained_ledger ls m"
    unfolding retained_ledger_def [of "retained_ledger ls m"] remerge [OF assms]
    by (simp add: retained_ledger_def)
  show "filter (reclaimable (mn_tombstones m) (mn_revision m)) (retained_ledger ls m) = []"
    using n by (simp add: filter_empty_conv)
qed

text \<open>The second run reads the records the first one wrote.\<close>

lemma rebuilt_regular_distinct:
  assumes "distinct (map mf_file_id (mn_files m))" "distinct (map tb_file_id ts)"
  shows "distinct (map fr_file_id (filter (\<lambda>r. fr_status r \<noteq> ''conflict_copy'') (rebuilt_files d m ts at)))"
proof -
  have "distinct (map mf_file_id (mn_sorted_files m))"
    using assms(1) by (simp add: mn_sorted_files_def)
  moreover have "distinct (map tb_file_id (deleted_tombstones ts m))"
    using assms(2) by (simp add: deleted_tombstones_def distinct_map_filter)
  ultimately show ?thesis
    by (simp add: rebuilt_files_def filter_map comp_def) (force simp: deleted_tombstones_def)
qed

lemma current_by_id_rebuilt:
  assumes "distinct (map mf_file_id (mn_files m))" "distinct (map tb_file_id ts)"
    and "fd_files d' = rebuilt_files d m ts at"
  shows "e \<in> set (mn_files m) \<Longrightarrow> current_by_id d' (mf_file_id e) = Some (active_of d m at e)"
    and "t \<in> set (deleted_tombstones ts m) \<Longrightarrow> current_by_id d' (tb_file_id t) = Some (deleted_of d t)"
proof -
  let ?xs = "map (active_of d m at) (mn_sorted_files m) @ map (deleted_of d) (deleted_tombstones ts m)"
  have f: "filter (\<lambda>r. fr_status r \<noteq> ''conflict_copy'') (fd_files d') = ?xs"
    by (simp add: assms(3) rebuilt_files_def filter_map comp_def)
  have d: "distinct (map fr_file_id ?xs)"
    using rebuilt_regular_distinct [OF assms(1,2), of d at] f assms(3) by simp
  show "e \<in> set (mn_files m) \<Longrightarrow> current_by_id d' (mf_file_id e) = Some (active_of d m at e)"
    unfolding current_by_id_def f dict_of_distinct [OF d] by auto
  show "t \<in> set (deleted_tombstones ts m) \<Longrightarrow> current_by_id d' (tb_file_id t) = Some (deleted_of d t)"
    unfolding current_by_id_def f dict_of_distinct [OF d] by auto
qed

lemma rebuilt_again:
  assumes "distinct (map mf_file_id (mn_files m))" "distinct (map tb_file_id ts)"
    and "fd_files d' = rebuilt_files d m ts at"
    and p: "\<forall>t \<in> set (deleted_tombstones ts m). tombstone_path d t \<noteq> None"
  shows "rebuilt_files d' m ts at = rebuilt_files d m ts at"
    and "find (\<lambda>t. tombstone_path d' t = None) (deleted_tombstones ts m) = None"
proof -
  note cur = current_by_id_rebuilt [OF assms(1-3)]
  have "active_of d' m at e = active_of d m at e" if "e \<in> set (mn_files m)" for e
    using cur(1) [OF that] by (simp add: active_of_def)
  moreover have path: "tombstone_path d' t = tombstone_path d t"
    if t: "t \<in> set (deleted_tombstones ts m)" for t
  proof -
    obtain q where q: "tombstone_path d t = Some q" using p t by auto
    then have "fr_path (deleted_of d t) = q" by (simp add: deleted_of_def Let_def)
    with cur(2) [OF t] q show ?thesis by (auto simp: tombstone_path_def str_or_alt split: if_splits)
  qed
  moreover have "deleted_of d' t = deleted_of d t" if t: "t \<in> set (deleted_tombstones ts m)" for t
  proof -
    obtain q where q: "tombstone_path d t = Some q" using p t by auto
    show ?thesis using cur(2) [OF t] path [OF t] q by (simp add: deleted_of_def Let_def)
  qed
  moreover have "filter (\<lambda>r. fr_status r = ''conflict_copy'') (fd_files d')
      = filter (\<lambda>r. fr_status r = ''conflict_copy'') (fd_files d)"
    by (simp add: assms(3) rebuilt_files_def filter_map comp_def)
  ultimately show "rebuilt_files d' m ts at = rebuilt_files d m ts at"
    unfolding rebuilt_files_def by simp
  show "find (\<lambda>t. tombstone_path d' t = None) (deleted_tombstones ts m) = None"
    using p path by (auto simp: find_None_iff)
qed

lemma converged_input:
  assumes i: "convergence_input d m ls at" and c: "converge_manifest_state d m ls at = Inr c"
  shows "convergence_input (cv_filemap c) m (cv_tombstones c) at"
proof -
  have w: "wf_document d" "wf_manifest m" "0 \<le> at" "list_all wf_tombstone (mn_tombstones m)"
    "distinct (map tb_file_id ls)" "list_all wf_tombstone ls"
    using i by (auto simp: convergence_input_def wf_manifest_def)
  have wt: "\<forall>t \<in> set (retained_ledger ls m). wf_tombstone t"
    using wf_merged [OF w(6,4)] by (simp add: retained_ledger_def)
  have "wf_file_record (active_of d m at e)" if "e \<in> set (mn_files m)" for e
    using rebuilt_active_eq [OF w(1) _ _ w(3), of e m] w(2) that
    by (auto simp: rebuilt_active_def FileRecord_eq_Inr wf_manifest_def list_all_iff
        ManifestRecord_eq_Inr)
  moreover have "wf_file_record (deleted_of d t)"
    if t: "t \<in> set (deleted_tombstones (retained_ledger ls m) m)" for t
  proof -
    obtain p where p: "tombstone_path d t = Some p"
      using c t unfolding converge_eq_Inr [OF i] by auto
    have "wf_tombstone t" using t wt by (simp add: deleted_tombstones_def)
    from rebuilt_deleted_eq [OF w(1) this] p show ?thesis
      by (auto simp: rebuilt_deleted_def Let_def FileRecord_eq_Inr)
  qed
  ultimately have "wf_document (cv_filemap c)"
    using c w(1,3) unfolding converge_eq_Inr [OF i]
    by (auto simp: wf_document_iff rebuilt_files_def)
  then show ?thesis
    using c i wt retained_distinct [OF w(5), of m] unfolding converge_eq_Inr [OF i]
    by (simp add: convergence_input_def list_all_iff)
qed

lemma converge_twice:
  assumes i: "convergence_input d m ls at" and c: "converge_manifest_state d m ls at = Inr c"
  shows "converge_manifest_state (cv_filemap c) m (cv_tombstones c) at
    = Inr (c\<lparr>cv_reclaimed_tombstones := []\<rparr>)"
proof -
  have ce: "\<forall>t \<in> set (deleted_tombstones (retained_ledger ls m) m). tombstone_path d t \<noteq> None"
    and c': "c = \<lparr>cv_filemap = d\<lparr>fd_files := rebuilt_files d m (retained_ledger ls m) at, fd_updated_at := at\<rparr>,
          cv_tombstones = retained_ledger ls m,
          cv_reclaimed_tombstones = filter (reclaimable (mn_tombstones m) (mn_revision m))
            (merged_ledger ls (mn_tombstones m))\<rparr>"
    using c unfolding converge_eq_Inr [OF i] by auto
  have dl: "distinct (map tb_file_id ls)" and df: "distinct (map mf_file_id (mn_files m))"
    using i by (auto simp: convergence_input_def)
  have fd: "fd_files (cv_filemap c) = rebuilt_files d m (retained_ledger ls m) at" by (simp add: c')
  note again = rebuilt_again [OF df retained_distinct [OF dl] fd ce]
  show ?thesis
    unfolding converge_eq_Inr [OF converged_input [OF i c]]
    using again reretain [OF dl, of m] remerge [OF dl, of m]
    by (simp add: c' find_eq_None)
qed

section \<open>Properties\<close>

text \<open>C25: Converging on a manifest makes the file map mirror it: the active records are exactly the
  manifest's files (identifier, path, type, hash) at the manifest's revision, sorted by path;
  conflict copies are kept as they were; and the deleted records are exactly the retained
  tombstones of files the manifest does not list.\<close>

theorem convergence_mirrors_manifest:
  assumes "convergence_input d m ls at" "converge_manifest_state d m ls at = Inr c"
  shows "map (\<lambda>r. (fr_file_id r, fr_path r, fr_type r, fr_content_hash r, fr_last_known_revision r))
        (filter (\<lambda>r. fr_status r = ''active'') (fd_files (cv_filemap c)))
      = map (\<lambda>e. (mf_file_id e, mf_path e, mf_type e, Some (mf_content_hash e), Some (mn_revision m)))
        (mn_sorted_files m)
    \<and> filter (\<lambda>r. fr_status r = ''conflict_copy'') (fd_files (cv_filemap c))
      = filter (\<lambda>r. fr_status r = ''conflict_copy'') (fd_files d)
    \<and> fr_file_id ` {r \<in> set (fd_files (cv_filemap c)). fr_status r = ''deleted''}
      = tb_file_id ` set (cv_tombstones c) - mf_file_id ` set (mn_files m)"
proof -
  have c: "fd_files (cv_filemap c) = rebuilt_files d m (retained_ledger ls m) at"
    "cv_tombstones c = retained_ledger ls m"
    using assms(2) unfolding converge_eq_Inr [OF assms(1)] by auto
  have "fr_file_id ` {r \<in> set (rebuilt_files d m ts at). fr_status r = ''deleted''}
      = tb_file_id ` set ts - mf_file_id ` set (mn_files m)" for ts
  proof -
    have "{r \<in> set (rebuilt_files d m ts at). fr_status r = ''deleted''}
        = deleted_of d ` set (deleted_tombstones ts m)"
      by (auto simp: rebuilt_files_def)
    then show ?thesis by (auto simp: image_image deleted_tombstones_def)
  qed
  then show ?thesis
    unfolding c by (auto simp: rebuilt_files_def filter_map comp_def active_of_def)
qed

definition local_document :: filemap_document where
  "local_document = \<lparr>fd_vault_id = ''v'', fd_updated_at = 1, fd_files =
     [\<lparr>fr_file_id = ''f1'', fr_path = ''old.md'', fr_type = ''note'', fr_status = ''active'',
        fr_updated_at = 1, fr_content_hash = Some ''h0'', fr_last_known_revision = Some 1,
        fr_conflict_source_file_id = None, fr_meta = Some [(''k'', JInt 1)]\<rparr>,
      \<lparr>fr_file_id = ''c1'', fr_path = ''old.conflict.md'', fr_type = ''note'',
        fr_status = ''conflict_copy'', fr_updated_at = 1, fr_content_hash = None,
        fr_last_known_revision = None, fr_conflict_source_file_id = Some ''f1'',
        fr_meta = None\<rparr>],
     fd_schema_version = ''v1'', fd_meta = None\<rparr>"

definition remote_tombstone :: "string \<Rightarrow> int option \<Rightarrow> int \<Rightarrow> string option \<Rightarrow> tombstone" where
  "remote_tombstone i rv sq p = \<lparr>tb_file_id = i, tb_deleted_revision = rv, tb_deleted_at = 5,
     tb_local_delete_seq = sq, tb_last_known_path = p, tb_deleted_by_device = None,
     tb_meta = None\<rparr>"

definition remote_manifest :: manifest where
  "remote_manifest = \<lparr>mn_vault_id = ''v'', mn_revision = 4, mn_base_revision = 3,
     mn_created_by_device = ''dev'', mn_created_at = 7,
     mn_files = [\<lparr>mf_file_id = ''f1'', mf_path = ''new.md'', mf_type = ''note'',
       mf_content_hash = ''h1'', mf_blob_id = ''b1'', mf_size = 3, mf_mtime = 4,
       mf_mime_type = None, mf_meta = None\<rparr>],
     mn_tombstones = [remote_tombstone ''t1'' (Some 4) 9 (Some ''gone.md'')],
     mn_summary_hash = ''s'', mn_schema_version = ''v1'', mn_meta = None\<rparr>"

definition local_ledger :: "tombstone list" where
  "local_ledger = [remote_tombstone ''t2'' (Some 2) 1 (Some ''a.md''),
     remote_tombstone ''t3'' None 2 (Some ''b.md'')]"

lemma sample_convergence:
  "convergence_input local_document remote_manifest local_ledger 8"
  "\<exists>c. converge_manifest_state local_document remote_manifest local_ledger 8 = Inr c"
proof -
  show "convergence_input local_document remote_manifest local_ledger 8" by code_simp
  have "\<not> isl (converge_manifest_state local_document remote_manifest local_ledger 8)" by code_simp
  then show "\<exists>c. converge_manifest_state local_document remote_manifest local_ledger 8 = Inr c"
    by (rule not_islD)
qed

theorem convergence_mirrors_manifest_witness:
  "\<exists>c. converge_manifest_state local_document remote_manifest local_ledger 8 = Inr c
    \<and> map fr_path (filter (\<lambda>r. fr_status r = ''active'') (fd_files (cv_filemap c))) = [''new.md'']"
proof -
  obtain c where c: "converge_manifest_state local_document remote_manifest local_ledger 8 = Inr c"
    using sample_convergence by auto
  from convergence_mirrors_manifest [OF sample_convergence(1) c]
  have "map (fst \<circ> snd) (map (\<lambda>r. (fr_file_id r, fr_path r, fr_type r, fr_content_hash r,
       fr_last_known_revision r)) (filter (\<lambda>r. fr_status r = ''active'') (fd_files (cv_filemap c))))
     = map (fst \<circ> snd) (map (\<lambda>e. (mf_file_id e, mf_path e, mf_type e, Some (mf_content_hash e),
       Some (mn_revision remote_manifest))) (mn_sorted_files remote_manifest))"
    by simp
  then have "map fr_path (filter (\<lambda>r. fr_status r = ''active'') (fd_files (cv_filemap c)))
     = map mf_path (mn_sorted_files remote_manifest)"
    by (simp add: comp_def)
  moreover have "map mf_path (mn_sorted_files remote_manifest) = [''new.md'']" by code_simp
  ultimately show ?thesis using c by auto
qed

text \<open>C26: Convergence is idempotent: running it again on its own result, with the same manifest and
  time, changes neither the file map nor the ledger and reclaims nothing. This is what makes it
  safe to run again after a crash in the middle of an apply.\<close>

theorem convergence_idempotent:
  assumes "convergence_input d m ls at" "converge_manifest_state d m ls at = Inr c"
  shows "converge_manifest_state (cv_filemap c) m (cv_tombstones c) at
    = Inr (c\<lparr>cv_reclaimed_tombstones := []\<rparr>)"
  by (rule converge_twice [OF assms])

theorem convergence_idempotent_witness:
  "\<exists>c. converge_manifest_state local_document remote_manifest local_ledger 8 = Inr c
    \<and> converge_manifest_state (cv_filemap c) remote_manifest (cv_tombstones c) 8
      = Inr (c\<lparr>cv_reclaimed_tombstones := []\<rparr>)"
  using sample_convergence convergence_idempotent by blast

text \<open>No pending deletion is lost: a local tombstone without a revision is always retained, as
  is every tombstone the manifest still lists. What is reclaimed is a local tombstone that the
  manifest no longer lists and whose deletion was committed at or before the manifest's
  revision, and the retained and reclaimed identifiers together are those of both ledgers.\<close>

lemma pending_tombstones_survive:
  assumes "convergence_input d m ls at" "converge_manifest_state d m ls at = Inr c"
  shows "(\<forall>t \<in> set ls. tb_deleted_revision t = None \<longrightarrow> tb_file_id t \<in> tb_file_id ` set (cv_tombstones c))
    \<and> (\<forall>t \<in> set (mn_tombstones m). tb_file_id t \<in> tb_file_id ` set (cv_tombstones c))
    \<and> (\<forall>t \<in> set (cv_reclaimed_tombstones c). t \<in> set ls
         \<and> tb_file_id t \<notin> tb_file_id ` set (mn_tombstones m)
         \<and> (\<exists>r. tb_deleted_revision t = Some r \<and> r \<le> mn_revision m))
    \<and> tb_file_id ` set (cv_tombstones c) \<union> tb_file_id ` set (cv_reclaimed_tombstones c)
      = tb_file_id ` set ls \<union> tb_file_id ` set (mn_tombstones m)"
proof -
  let ?ms = "mn_tombstones m" and ?P = "reclaimable (mn_tombstones m) (mn_revision m)"
  have c: "cv_tombstones c = retained_ledger ls m"
    "cv_reclaimed_tombstones c = filter ?P (merged_ledger ls ?ms)"
    using assms(2) unfolding converge_eq_Inr [OF assms(1)] by auto
  have ids: "tb_file_id ` set (merged_ledger ls ?ms) = tb_file_id ` set ls \<union> tb_file_id ` set ?ms"
    using assms(1) by (intro ids_merged) (simp add: convergence_input_def)
  have keep: "t \<in> set ls" if "t \<in> set (merged_ledger ls ?ms)" "tb_file_id t \<notin> tb_file_id ` set ?ms" for t
    using that
    by (auto simp: merged_ledger_def merged_with_None dest: imported_mem split: option.splits)
  have mem: "t \<in> set (cv_tombstones c) \<longleftrightarrow> t \<in> set (merged_ledger ls ?ms) \<and> \<not> ?P t" for t
    by (simp add: c retained_ledger_def)
  have "tb_file_id t \<in> tb_file_id ` set (cv_tombstones c)"
    if t: "t \<in> set ls" "tb_deleted_revision t = None" for t
  proof -
    let ?u = "merged_with (dict_of tb_file_id ?ms) t"
    have "?u \<in> set (merged_ledger ls ?ms)" using t by (simp add: merged_ledger_def)
    moreover have "\<not> ?P ?u"
      using t by (auto simp: reclaimable_def merged_with_None split: option.splits)
    ultimately show ?thesis using mem by (metis imageI merged_with_keys(1))
  qed
  moreover have "tb_file_id t \<in> tb_file_id ` set (cv_tombstones c)" if t: "t \<in> set ?ms" for t
  proof -
    obtain u where "u \<in> set (merged_ledger ls ?ms)" "tb_file_id u = tb_file_id t"
      using ids t by (metis UnI2 imageE imageI)
    moreover from this t have "\<not> ?P u" by (auto simp: reclaimable_def)
    ultimately show ?thesis using mem by (metis imageI)
  qed
  moreover have "t \<in> set ls \<and> tb_file_id t \<notin> tb_file_id ` set ?ms
      \<and> (\<exists>r. tb_deleted_revision t = Some r \<and> r \<le> mn_revision m)"
    if "t \<in> set (cv_reclaimed_tombstones c)" for t
    using that keep by (auto simp: c reclaimable_def split: if_splits option.splits)
  moreover have "tb_file_id ` set (cv_tombstones c) \<union> tb_file_id ` set (cv_reclaimed_tombstones c)
      = tb_file_id ` set (merged_ledger ls ?ms)"
  proof -
    have "set (cv_tombstones c) \<union> set (cv_reclaimed_tombstones c) = set (merged_ledger ls ?ms)"
      using mem by (auto simp only: c(2) set_filter)
    then show ?thesis by (metis image_Un)
  qed
  ultimately show ?thesis unfolding ids by blast
qed

theorem pending_tombstones_survive_witness:
  "\<exists>c. converge_manifest_state local_document remote_manifest local_ledger 8 = Inr c
    \<and> ''t3'' \<in> tb_file_id ` set (cv_tombstones c) \<and> ''t1'' \<in> tb_file_id ` set (cv_tombstones c)"
proof -
  obtain c where c: "converge_manifest_state local_document remote_manifest local_ledger 8 = Inr c"
    using sample_convergence by auto
  have "remote_tombstone ''t3'' None 2 (Some ''b.md'') \<in> set local_ledger"
    "remote_tombstone ''t1'' (Some 4) 9 (Some ''gone.md'') \<in> set (mn_tombstones remote_manifest)"
    by (simp_all add: local_ledger_def remote_manifest_def)
  with c pending_tombstones_survive [OF sample_convergence(1) c] show ?thesis
    by (auto simp: remote_tombstone_def)
qed

text \<open>A convergence succeeds whenever every tombstone of the local ledger and of the manifest
  records the path the file had; the only failure is a retained tombstone without a path for
  which the file map has no record either.\<close>

lemma convergence_total:
  assumes "convergence_input d m ls at"
    and "\<forall>t \<in> set ls \<union> set (mn_tombstones m).
           tb_last_known_path t \<noteq> None \<and> tb_last_known_path t \<noteq> Some []"
  shows "\<exists>c. converge_manifest_state d m ls at = Inr c"
proof -
  have path: "tb_last_known_path t \<noteq> None \<and> tb_last_known_path t \<noteq> Some []"
    if "t \<in> set (merged_ledger ls (mn_tombstones m))" for t
  proof (cases "t \<in> set (imported_of ls (mn_tombstones m))")
    case True
    then show ?thesis using assms(2) imported_mem [OF True] by auto
  next
    case False
    then obtain x where "x \<in> set ls" "t = merged_with (dict_of tb_file_id (mn_tombstones m)) x"
      using \<open>t \<in> set (merged_ledger ls (mn_tombstones m))\<close> by (auto simp: merged_ledger_def)
    moreover from this(1) assms(2)
    have "tb_last_known_path x \<noteq> None" "tb_last_known_path x \<noteq> Some []" by auto
    ultimately show ?thesis by (auto simp: merged_with_def str_or_alt split: option.splits)
  qed
  have "tombstone_path d t \<noteq> None" if "t \<in> set (retained_ledger ls m)" for t
  proof -
    have "t \<in> set (merged_ledger ls (mn_tombstones m))" using that by (simp add: retained_ledger_def)
    from path [OF this] show ?thesis by (auto simp: tombstone_path_def str_or_alt)
  qed
  then show ?thesis
    unfolding converge_eq_Inr [OF assms(1)] by (auto simp: deleted_tombstones_def)
qed

theorem convergence_total_witness:
  "\<exists>c. converge_manifest_state local_document remote_manifest local_ledger 8 = Inr c"
  by (rule convergence_total [OF sample_convergence(1)])
     (simp add: local_ledger_def remote_manifest_def remote_tombstone_def)

end
