(* ===== verification/Manifest.thy ===== *)
theory Manifest
  imports State_Records
begin

text \<open>
  \<open>vault_core/manifest.py\<close>: the canonical payload of a manifest, its text, and the two hashes
  computed from it, the final summary and the intent hash. Two functions are parameters:
  \<open>nfc\<close> is \<open>unicodedata.normalize("NFC", _)\<close> and \<open>sha\<close> is the hexadecimal SHA-256 digest of
  the UTF-8 encoding of a text.
\<close>

section \<open>The canonical payload\<close>

datatype hash_purpose = Final | Intent

definition normalize_file_entry :: "(string \<Rightarrow> string) \<Rightarrow> manifest_file \<Rightarrow> dict" where
  "normalize_file_entry nfc e =
     AList.update ''path'' (JStr (nfc (mf_path e))) (manifest_file_to_dict e)"

definition normalize_tombstone ::
  "(string \<Rightarrow> string) \<Rightarrow> hash_purpose \<Rightarrow> tombstone \<Rightarrow> dict" where
  "normalize_tombstone nfc purpose t =
     (let payload = tombstone_to_dict t;
          payload = (case tb_last_known_path t of None \<Rightarrow> payload
                     | Some p \<Rightarrow> AList.update ''last_known_path'' (JStr (nfc p)) payload) in
      if purpose = Intent \<and> dget payload ''deleted_revision'' = JNull
      then AList.delete ''deleted_revision'' payload else payload)"

text \<open>The sort keys read the normalized objects, as the lambdas of the code do.\<close>

definition dstr :: "dict \<Rightarrow> string \<Rightarrow> string" where
  "dstr d k = (case dget d k of JStr s \<Rightarrow> s | _ \<Rightarrow> [])"

definition dint :: "dict \<Rightarrow> string \<Rightarrow> int" where
  "dint d k = (case dget d k of JInt i \<Rightarrow> i | _ \<Rightarrow> 0)"

definition canonical_files :: "(string \<Rightarrow> string) \<Rightarrow> manifest_file list \<Rightarrow> dict list" where
  "canonical_files nfc es =
     sort_key (\<lambda>d. (dstr d ''path'', dstr d ''file_id'')) (map (normalize_file_entry nfc) es)"

definition canonical_tombstones ::
  "(string \<Rightarrow> string) \<Rightarrow> hash_purpose \<Rightarrow> tombstone list \<Rightarrow> dict list" where
  "canonical_tombstones nfc purpose ts =
     sort_key (\<lambda>d. (dint d ''local_delete_seq'', dstr d ''file_id''))
       (map (normalize_tombstone nfc purpose) ts)"

definition canonical_manifest_payload ::
  "(string \<Rightarrow> string) \<Rightarrow> hash_purpose \<Rightarrow> manifest \<Rightarrow> dict" where
  "canonical_manifest_payload nfc purpose m =
     (let files = JArr (map JObj (canonical_files nfc (mn_files m)));
          tombstones = JArr (map JObj (canonical_tombstones nfc purpose (mn_tombstones m))) in
      case purpose of
        Final \<Rightarrow> [(''schema_version'', JStr (mn_schema_version m)),
                  (''revision'', JInt (mn_revision m)),
                  (''files'', files), (''tombstones'', tombstones)]
      | Intent \<Rightarrow> [(''schema_version'', JStr (mn_schema_version m)),
                  (''vault_id'', JStr (mn_vault_id m)),
                  (''base_revision'', JInt (mn_base_revision m)),
                  (''created_by_device'', JStr (mn_created_by_device m)),
                  (''created_at'', JInt (mn_created_at m)),
                  (''files'', files), (''tombstones'', tombstones)])"

definition serialize_manifest_canonical ::
  "(string \<Rightarrow> string) \<Rightarrow> hash_purpose \<Rightarrow> manifest \<Rightarrow> string" where
  "serialize_manifest_canonical nfc purpose m =
     json_dumps (JObj (canonical_manifest_payload nfc purpose m))"

definition sha256_hex :: "(string \<Rightarrow> string) \<Rightarrow> string \<Rightarrow> string" where
  "sha256_hex sha payload = ''sha256:'' @ sha payload"

definition compute_manifest_summary_hash ::
  "(string \<Rightarrow> string) \<Rightarrow> (string \<Rightarrow> string) \<Rightarrow> manifest \<Rightarrow> string" where
  "compute_manifest_summary_hash sha nfc m =
     sha256_hex sha (serialize_manifest_canonical nfc Final m)"

definition compute_intent_manifest_hash ::
  "(string \<Rightarrow> string) \<Rightarrow> (string \<Rightarrow> string) \<Rightarrow> manifest \<Rightarrow> string" where
  "compute_intent_manifest_hash sha nfc m =
     sha256_hex sha (serialize_manifest_canonical nfc Intent m)"

definition with_computed_manifest_summary ::
  "(string \<Rightarrow> string) \<Rightarrow> (string \<Rightarrow> string) \<Rightarrow> manifest \<Rightarrow> manifest result" where
  "with_computed_manifest_summary sha nfc m = ManifestRecord
     \<lparr>mn_vault_id = mn_vault_id m, mn_revision = mn_revision m,
      mn_base_revision = mn_base_revision m, mn_created_by_device = mn_created_by_device m,
      mn_created_at = mn_created_at m, mn_files = mn_files m, mn_tombstones = mn_tombstones m,
      mn_summary_hash = compute_manifest_summary_hash sha nfc m,
      mn_schema_version = mn_schema_version m, mn_meta = mn_meta m\<rparr>"

definition finalize_manifest_revision ::
  "(string \<Rightarrow> string) \<Rightarrow> (string \<Rightarrow> string) \<Rightarrow> manifest \<Rightarrow> int \<Rightarrow> manifest result" where
  "finalize_manifest_revision sha nfc m revision =
     rbind (ManifestRecord
       \<lparr>mn_vault_id = mn_vault_id m, mn_revision = revision,
        mn_base_revision = mn_base_revision m, mn_created_by_device = mn_created_by_device m,
        mn_created_at = mn_created_at m, mn_files = mn_files m,
        mn_tombstones = mn_tombstones m, mn_summary_hash = ''placeholder'',
        mn_schema_version = mn_schema_version m, mn_meta = mn_meta m\<rparr>)
     (with_computed_manifest_summary sha nfc)"

definition build_empty_vault_manifest_summary ::
  "(string \<Rightarrow> string) \<Rightarrow> (string \<Rightarrow> string) \<Rightarrow> string result" where
  "build_empty_vault_manifest_summary sha nfc =
     rbind (ManifestRecord
       \<lparr>mn_vault_id = ''__empty_vault__'', mn_revision = 0, mn_base_revision = 0,
        mn_created_by_device = ''__system__'', mn_created_at = 0, mn_files = [],
        mn_tombstones = [], mn_summary_hash = ''placeholder'', mn_schema_version = ''v1'',
        mn_meta = None\<rparr>)
     (\<lambda>m. Inr (compute_manifest_summary_hash sha nfc m))"

section \<open>Facts about the payload\<close>

lemma dget_update [simp]: "dget (AList.update k v d) k' = (if k' = k then v else dget d k')"
  by (simp add: dget_def update_conv' fun_upd_def)

lemma dget_delete: "k' \<noteq> k \<Longrightarrow> dget (AList.delete k d) k' = dget d k'"
  by (simp add: dget_def delete_conv')

lemma normalize_file_entry_keys [simp]:
  "dstr (normalize_file_entry nfc e) ''path'' = nfc (mf_path e)"
  "dstr (normalize_file_entry nfc e) ''file_id'' = mf_file_id e"
  by (simp_all add: dstr_def normalize_file_entry_def,
      simp add: dget_def manifest_file_to_dict_def)

lemma normalize_tombstone_keys [simp]:
  "dint (normalize_tombstone nfc p t) ''local_delete_seq'' = tb_local_delete_seq t"
  "dstr (normalize_tombstone nfc p t) ''file_id'' = tb_file_id t"
  by (auto simp add: dint_def dstr_def normalize_tombstone_def Let_def dget_delete
      split: option.splits)
     (auto simp add: dget_def tombstone_to_dict_def)

lemma canonical_files_perm:
  assumes "mset es = mset es'" "distinct (map mf_file_id es)"
  shows "canonical_files nfc es = canonical_files nfc es'"
proof -
  let ?k = "\<lambda>d. (dstr d ''path'', dstr d ''file_id'')"
  have "inj_on ?k (set (map (normalize_file_entry nfc) es))"
    using assms(2) by (fastforce simp: inj_on_def distinct_map)
  with assms(1) show ?thesis
    unfolding canonical_files_def by (intro sort_key_eq_sort_key) (auto simp: mset_map)
qed

lemma canonical_tombstones_perm:
  assumes "mset ts = mset ts'" "distinct (map tb_file_id ts)"
  shows "canonical_tombstones nfc p ts = canonical_tombstones nfc p ts'"
proof -
  let ?k = "\<lambda>d. (dint d ''local_delete_seq'', dstr d ''file_id'')"
  have "inj_on ?k (set (map (normalize_tombstone nfc p) ts))"
    using assms(2) by (fastforce simp: inj_on_def distinct_map)
  with assms(1) show ?thesis
    unfolding canonical_tombstones_def by (intro sort_key_eq_sort_key) (auto simp: mset_map)
qed

lemma summary_ignores:
  "compute_manifest_summary_hash sha nfc (m\<lparr>mn_summary_hash := h\<rparr>)
     = compute_manifest_summary_hash sha nfc m"
  by (simp add: compute_manifest_summary_hash_def serialize_manifest_canonical_def
      canonical_manifest_payload_def)

lemma sha256_hex_non_empty [simp]: "sha256_hex sha p \<noteq> []"
  by (simp add: sha256_hex_def)

lemma summary_non_empty [simp]: "compute_manifest_summary_hash sha nfc m \<noteq> []"
  by (simp add: compute_manifest_summary_hash_def)

lemma intent_non_empty [simp]: "compute_intent_manifest_hash sha nfc m \<noteq> []"
  by (simp add: compute_intent_manifest_hash_def)

lemma with_computed_eq_Inr [result_simps]:
  "with_computed_manifest_summary sha nfc m = Inr m' \<longleftrightarrow>
     m' = m\<lparr>mn_summary_hash := compute_manifest_summary_hash sha nfc m\<rparr>
     \<and> mn_schema_version m = ''v1'' \<and> mn_vault_id m \<noteq> [] \<and> mn_created_by_device m \<noteq> []
     \<and> 0 \<le> mn_revision m \<and> 0 \<le> mn_base_revision m \<and> 0 \<le> mn_created_at m"
  by (auto simp: with_computed_manifest_summary_def result_simps)

lemma finalize_eq_Inr [result_simps]:
  "finalize_manifest_revision sha nfc m rv = Inr m' \<longleftrightarrow>
     m' = m\<lparr>mn_revision := rv,
            mn_summary_hash := compute_manifest_summary_hash sha nfc (m\<lparr>mn_revision := rv\<rparr>)\<rparr>
     \<and> mn_schema_version m = ''v1'' \<and> mn_vault_id m \<noteq> [] \<and> mn_created_by_device m \<noteq> []
     \<and> 0 \<le> rv \<and> 0 \<le> mn_base_revision m \<and> 0 \<le> mn_created_at m"
proof -
  have eq: "compute_manifest_summary_hash sha nfc
      \<lparr>mn_vault_id = mn_vault_id m, mn_revision = rv, mn_base_revision = mn_base_revision m,
       mn_created_by_device = mn_created_by_device m, mn_created_at = mn_created_at m,
       mn_files = mn_files m, mn_tombstones = mn_tombstones m, mn_summary_hash = ''placeholder'',
       mn_schema_version = mn_schema_version m, mn_meta = mn_meta m\<rparr>
     = compute_manifest_summary_hash sha nfc (m\<lparr>mn_revision := rv\<rparr>)"
    by (simp add: compute_manifest_summary_hash_def serialize_manifest_canonical_def
        canonical_manifest_payload_def)
  show ?thesis
    unfolding finalize_manifest_revision_def by (auto simp: result_simps eq)
qed

lemma canonical_payload_perm:
  assumes "mset (mn_files m) = mset (mn_files m')"
    and "mset (mn_tombstones m) = mset (mn_tombstones m')"
    and "distinct (map mf_file_id (mn_files m))" "distinct (map tb_file_id (mn_tombstones m))"
    and "mn_vault_id m = mn_vault_id m'" "mn_revision m = mn_revision m'"
    and "mn_base_revision m = mn_base_revision m'"
    and "mn_created_by_device m = mn_created_by_device m'"
    and "mn_created_at m = mn_created_at m'" "mn_schema_version m = mn_schema_version m'"
  shows "canonical_manifest_payload nfc p m = canonical_manifest_payload nfc p m'"
  using canonical_files_perm [OF assms(1,3)] canonical_tombstones_perm [OF assms(2,4)] assms(5-)
  by (simp add: canonical_manifest_payload_def Let_def split: hash_purpose.splits)

section \<open>Properties\<close>

text \<open>The canonical text, and so both hashes, do not depend on the order in which files and
  tombstones are listed: two manifests with the same header fields whose files and tombstones
  are permutations of each other (identifiers listed once) have the same summary hash and the
  same intent hash, whatever digest and normalization functions are used.\<close>

lemma hashes_order_independent:
  assumes "mset (mn_files m) = mset fs" "mset (mn_tombstones m) = mset ts"
    and "distinct (map mf_file_id (mn_files m))" "distinct (map tb_file_id (mn_tombstones m))"
  shows "compute_manifest_summary_hash sha nfc (m\<lparr>mn_files := fs, mn_tombstones := ts\<rparr>)
           = compute_manifest_summary_hash sha nfc m
    \<and> compute_intent_manifest_hash sha nfc (m\<lparr>mn_files := fs, mn_tombstones := ts\<rparr>)
           = compute_intent_manifest_hash sha nfc m"
proof -
  have "canonical_manifest_payload nfc p m
      = canonical_manifest_payload nfc p (m\<lparr>mn_files := fs, mn_tombstones := ts\<rparr>)" for p
    using assms by (intro canonical_payload_perm) auto
  then show ?thesis
    by (simp add: compute_manifest_summary_hash_def compute_intent_manifest_hash_def
        serialize_manifest_canonical_def)
qed

definition sample_entry :: "string \<Rightarrow> string \<Rightarrow> manifest_file" where
  "sample_entry i p = \<lparr>mf_file_id = i, mf_path = p, mf_type = ''note'',
     mf_content_hash = ''sha256:'' @ i, mf_blob_id = ''blob-'' @ i, mf_size = 3, mf_mtime = 4,
     mf_mime_type = None, mf_meta = None\<rparr>"

definition sample_tombstone :: "string \<Rightarrow> int option \<Rightarrow> int \<Rightarrow> tombstone" where
  "sample_tombstone i rv sq = \<lparr>tb_file_id = i, tb_deleted_revision = rv, tb_deleted_at = 5,
     tb_local_delete_seq = sq, tb_last_known_path = Some (i @ ''.md''),
     tb_deleted_by_device = None, tb_meta = None\<rparr>"

definition sample_manifest :: manifest where
  "sample_manifest = \<lparr>mn_vault_id = ''v'', mn_revision = 2, mn_base_revision = 1,
     mn_created_by_device = ''dev'', mn_created_at = 7,
     mn_files = [sample_entry ''f2'' ''z.md'', sample_entry ''f1'' ''b.md''],
     mn_tombstones = [sample_tombstone ''t2'' (Some 2) 4, sample_tombstone ''t1'' (Some 1) 3],
     mn_summary_hash = ''placeholder'', mn_schema_version = ''v1'', mn_meta = None\<rparr>"

theorem hashes_order_independent_witness:
  "compute_manifest_summary_hash rev id (sample_manifest
       \<lparr>mn_files := rev (mn_files sample_manifest),
        mn_tombstones := rev (mn_tombstones sample_manifest)\<rparr>)
     = compute_manifest_summary_hash rev id sample_manifest"
proof -
  have "distinct (map mf_file_id (mn_files sample_manifest))"
    "distinct (map tb_file_id (mn_tombstones sample_manifest))"
    by code_simp+
  then show ?thesis
    using hashes_order_independent [of sample_manifest "rev (mn_files sample_manifest)"
        "rev (mn_tombstones sample_manifest)" rev id] by simp
qed

text \<open>A manifest written as JSON and read back is the manifest with its files sorted by path
  and its tombstones by identifier, every other field kept; so its summary hash and its intent
  hash recomputed from the file are those of the manifest that was written.\<close>

lemma manifest_file_round_trip_hashes:
  assumes "wf_manifest m"
    and "distinct (map mf_file_id (mn_files m))" "distinct (map tb_file_id (mn_tombstones m))"
  shows "\<exists>m'. manifest_from_dict (manifest_to_dict m) = Inr m'
    \<and> m' = m\<lparr>mn_files := mn_sorted_files m, mn_tombstones := mn_sorted_tombstones m\<rparr>
    \<and> compute_manifest_summary_hash sha nfc m' = compute_manifest_summary_hash sha nfc m
    \<and> compute_intent_manifest_hash sha nfc m' = compute_intent_manifest_hash sha nfc m"
proof -
  let ?m = "m\<lparr>mn_files := mn_sorted_files m, mn_tombstones := mn_sorted_tombstones m\<rparr>"
  have "canonical_manifest_payload nfc p m = canonical_manifest_payload nfc p ?m" for p
    using assms by (intro canonical_payload_perm)
      (simp_all add: mn_sorted_files_def mn_sorted_tombstones_def)
  then show ?thesis
    by (simp add: manifest_round_trip [OF assms(1)] compute_manifest_summary_hash_def
        compute_intent_manifest_hash_def serialize_manifest_canonical_def)
qed

theorem manifest_file_round_trip_hashes_witness:
  "\<exists>m'. manifest_from_dict (manifest_to_dict sample_manifest) = Inr m'
    \<and> map mf_path (mn_files m') = [''b.md'', ''z.md'']"
proof -
  have "wf_manifest sample_manifest" "distinct (map mf_file_id (mn_files sample_manifest))"
    "distinct (map tb_file_id (mn_tombstones sample_manifest))"
    by code_simp+
  from manifest_file_round_trip_hashes [OF this]
  obtain m' where "manifest_from_dict (manifest_to_dict sample_manifest) = Inr m'"
    "mn_files m' = mn_sorted_files sample_manifest" by fastforce
  moreover have "map mf_path (mn_sorted_files sample_manifest) = [''b.md'', ''z.md'']"
    by code_simp
  ultimately show ?thesis by auto
qed

text \<open>Finalizing a manifest at a revision gives a manifest that carries its own summary,
  keeps the files, tombstones and intent hash (so a replay of the same intent is recognised
  whatever revision it got), and is a fixed point: finalizing it again at that revision changes
  nothing.\<close>

lemma finalized_manifest_is_consistent:
  assumes "finalize_manifest_revision sha nfc m rv = Inr m'"
  shows "mn_summary_hash m' = compute_manifest_summary_hash sha nfc m' \<and> mn_revision m' = rv
    \<and> mn_files m' = mn_files m \<and> mn_tombstones m' = mn_tombstones m
    \<and> compute_intent_manifest_hash sha nfc m' = compute_intent_manifest_hash sha nfc m
    \<and> finalize_manifest_revision sha nfc m' rv = Inr m'"
  using assms
  by (auto simp: finalize_eq_Inr compute_manifest_summary_hash_def compute_intent_manifest_hash_def
      serialize_manifest_canonical_def canonical_manifest_payload_def)

theorem finalized_manifest_is_consistent_witness:
  "case finalize_manifest_revision rev id sample_manifest 9 of
     Inl e \<Rightarrow> False
   | Inr m' \<Rightarrow> finalize_manifest_revision rev id m' 9 = Inr m' \<and> mn_revision m' = 9"
proof -
  obtain m' where "finalize_manifest_revision rev id sample_manifest 9 = Inr m'"
    by (simp add: finalize_eq_Inr sample_manifest_def)
  from finalized_manifest_is_consistent [OF this] this show ?thesis by simp
qed

end
