(* ===== verification/Local_Store.thy ===== *)
theory Local_Store
  imports Convergence Manifest
begin

text \<open>
  What a device keeps on disk: the SQLite tables of \<open>vault_core/sqlite_store.py\<close>, the file map
  with its temporary file (\<open>filemap.py\<close>), the tombstone ledger (\<open>ledger.py\<close>) and the staging
  directory.

  A table with a primary key is a map from the key to the row; a row is the record it is
  written from, and loading it goes through the record's constructor again, as the code does.
  Every durable step (a \<open>connection.commit()\<close>, a \<open>with connection:\<close> block, a file write that
  was flushed, a rename, an unlink) goes through \<open>persist\<close>. The field \<open>cl_power\<close> is the number
  of durable steps before the power fails (\<open>None\<close>: it does not fail), so that a statement about
  every value of it is a statement about every crash point. A text file whose write was cut
  short is \<open>Torn\<close>: its text is not JSON.
\<close>

section \<open>The store\<close>

datatype file_content = Text json | Torn

record index_row =
  ix_path :: string
  ix_type :: string
  ix_status :: string
  ix_content_hash :: "string option"
  ix_last_known_revision :: "int option"
  ix_local_mtime :: "int option"
  ix_size :: "int option"
  ix_updated_at :: int

record client =
  cl_vault_state :: "string \<Rightarrow> vault_state option"
  cl_commit_journal :: "string \<Rightarrow> commit_journal option"
  cl_apply_journal :: "string \<Rightarrow> apply_journal option"
  cl_file_index :: "(string \<times> string \<times> index_row) list"
  cl_wiki_tasks :: "wiki_task list"
  cl_filemap :: "file_content option"
  cl_filemap_tmp :: "file_content option"
  cl_ledger :: "file_content list option"
  cl_staging :: "(string \<times> string) list"
  cl_staging_orphans :: "(string \<times> string) list"
  cl_power :: "nat option"

type_synonym 'a io = "(client, py_exn, 'a) eff"

definition persist :: "(client \<Rightarrow> client) \<Rightarrow> unit io" where
  "persist f s = (case cl_power s of
     None \<Rightarrow> (Inr (), f s)
   | Some 0 \<Rightarrow> (Inl PowerLoss, s)
   | Some (Suc n) \<Rightarrow> (Inr (), f (s\<lparr>cl_power := Some n\<rparr>)))"

section \<open>Tables\<close>

text \<open>The interface of a table with a primary key.\<close>

locale keyed_table =
  fixes put :: "'r \<Rightarrow> client \<Rightarrow> client"
    and get :: "client \<Rightarrow> string \<Rightarrow> 'r option"
    and del :: "string \<Rightarrow> client \<Rightarrow> client"
    and key :: "'r \<Rightarrow> string"
  assumes get_put: "get (put r s) k = (if k = key r then Some r else get s k)"
    and get_del: "get (del k s) k' = (if k' = k then None else get s k')"
begin

definition rows_ok :: "('r \<Rightarrow> bool) \<Rightarrow> client \<Rightarrow> bool" where
  "rows_ok ok s \<longleftrightarrow> (\<forall>k r. get s k = Some r \<longrightarrow> key r = k \<and> ok r)"

lemma rows_ok_put: "rows_ok ok s \<Longrightarrow> ok r \<Longrightarrow> rows_ok ok (put r s)"
  by (auto simp: rows_ok_def get_put split: if_splits)

lemma rows_ok_del: "rows_ok ok s \<Longrightarrow> rows_ok ok (del k s)"
  by (auto simp: rows_ok_def get_del split: if_splits)

lemma rows_okD: "rows_ok ok s \<Longrightarrow> get s k = Some r \<Longrightarrow> key r = k \<and> ok r"
  by (auto simp: rows_ok_def)

end

definition put_vault_state :: "vault_state \<Rightarrow> client \<Rightarrow> client" where
  "put_vault_state r s = s\<lparr>cl_vault_state := (cl_vault_state s)(vs_vault_id r \<mapsto> r)\<rparr>"

definition put_commit_journal :: "commit_journal \<Rightarrow> client \<Rightarrow> client" where
  "put_commit_journal r s = s\<lparr>cl_commit_journal := (cl_commit_journal s)(cj_vault_id r \<mapsto> r)\<rparr>"

definition put_apply_journal :: "apply_journal \<Rightarrow> client \<Rightarrow> client" where
  "put_apply_journal r s = s\<lparr>cl_apply_journal := (cl_apply_journal s)(aj_vault_id r \<mapsto> r)\<rparr>"

definition del_vault_state :: "string \<Rightarrow> client \<Rightarrow> client" where
  "del_vault_state k s = s\<lparr>cl_vault_state := (cl_vault_state s)(k := None)\<rparr>"

definition del_commit_journal :: "string \<Rightarrow> client \<Rightarrow> client" where
  "del_commit_journal k s = s\<lparr>cl_commit_journal := (cl_commit_journal s)(k := None)\<rparr>"

definition del_apply_journal :: "string \<Rightarrow> client \<Rightarrow> client" where
  "del_apply_journal k s = s\<lparr>cl_apply_journal := (cl_apply_journal s)(k := None)\<rparr>"

lemmas table_defs = put_vault_state_def put_commit_journal_def put_apply_journal_def
  del_vault_state_def del_commit_journal_def del_apply_journal_def

interpretation vault_states: keyed_table put_vault_state cl_vault_state del_vault_state vs_vault_id
  by unfold_locales (simp_all add: table_defs)

interpretation commit_journals:
  keyed_table put_commit_journal cl_commit_journal del_commit_journal cj_vault_id
  by unfold_locales (simp_all add: table_defs)

interpretation apply_journals:
  keyed_table put_apply_journal cl_apply_journal del_apply_journal aj_vault_id
  by unfold_locales (simp_all add: table_defs)

definition load_vault_state :: "string \<Rightarrow> client \<Rightarrow> vault_state option result" where
  "load_vault_state vault_id s = (case cl_vault_state s vault_id of
     None \<Rightarrow> Inr None | Some row \<Rightarrow> rbind (VaultStateRecord row) (Inr \<circ> Some))"

definition load_commit_intent_journal :: "string \<Rightarrow> client \<Rightarrow> commit_journal option result" where
  "load_commit_intent_journal vault_id s = (case cl_commit_journal s vault_id of
     None \<Rightarrow> Inr None | Some row \<Rightarrow> rbind (CommitIntentJournalRecord row) (Inr \<circ> Some))"

definition load_sync_apply_journal :: "string \<Rightarrow> client \<Rightarrow> apply_journal option result" where
  "load_sync_apply_journal vault_id s = (case cl_apply_journal s vault_id of
     None \<Rightarrow> Inr None | Some row \<Rightarrow> rbind (SyncApplyJournalRecord row) (Inr \<circ> Some))"

definition upsert_vault_state :: "vault_state \<Rightarrow> unit io" where
  "upsert_vault_state r = persist (put_vault_state r)"

definition upsert_commit_intent_journal :: "commit_journal \<Rightarrow> unit io" where
  "upsert_commit_intent_journal r = persist (put_commit_journal r)"

definition upsert_sync_apply_journal :: "apply_journal \<Rightarrow> unit io" where
  "upsert_sync_apply_journal r = persist (put_apply_journal r)"

definition clear_commit_intent_journal :: "string \<Rightarrow> unit io" where
  "clear_commit_intent_journal vault_id = persist (del_commit_journal vault_id)"

definition clear_sync_apply_journal :: "string \<Rightarrow> unit io" where
  "clear_sync_apply_journal vault_id = persist (del_apply_journal vault_id)"

section \<open>Vault state\<close>

definition build_initial_vault_state ::
  "(string \<Rightarrow> string) \<Rightarrow> (string \<Rightarrow> string) \<Rightarrow> string \<Rightarrow> int \<Rightarrow> bool \<Rightarrow> dict option
     \<Rightarrow> vault_state result" where
  "build_initial_vault_state sha nfc vault_id local_delete_sequence conflicts meta =
     rbind (build_empty_vault_manifest_summary sha nfc) (\<lambda>empty_summary.
     VaultStateRecord
       \<lparr>vs_vault_id = vault_id, vs_last_applied_revision = 0, vs_remote_head_revision = 0,
        vs_acked_revision = 0, vs_pending_ack_to_server = [], vs_commit_in_progress = False,
        vs_last_manifest_summary = Some empty_summary,
        vs_last_manifest_summary_status = ''valid'',
        vs_local_delete_sequence = local_delete_sequence,
        vs_has_unresolved_conflicts = conflicts, vs_schema_version = ''v1'',
        vs_meta = meta\<rparr>)"

definition initialize_vault_state ::
  "(string \<Rightarrow> string) \<Rightarrow> (string \<Rightarrow> string) \<Rightarrow> string \<Rightarrow> int \<Rightarrow> bool \<Rightarrow> dict option
     \<Rightarrow> vault_state io" where
  "initialize_vault_state sha nfc vault_id local_delete_sequence conflicts meta =
     ebind (eread (load_vault_state vault_id)) (\<lambda>existing.
     case existing of
       Some r \<Rightarrow> eret r
     | None \<Rightarrow>
         ebind (elift (build_initial_vault_state sha nfc vault_id local_delete_sequence
                         conflicts meta)) (\<lambda>r.
         ebind (upsert_vault_state r) (\<lambda>_. eret r)))"

section \<open>Recovery transactions\<close>

definition both_exist :: "'a option \<Rightarrow> 'b option \<Rightarrow> string \<Rightarrow> ('a \<times> 'b) result" where
  "both_exist a b msg = (case (a, b) of
     (Some x, Some y) \<Rightarrow> Inr (x, y) | _ \<Rightarrow> Inl (KeyError msg))"

definition recover_sync_apply_finalizing_state :: "string \<Rightarrow> vault_state io" where
  "recover_sync_apply_finalizing_state vault_id =
     ebind (eread (load_vault_state vault_id)) (\<lambda>state.
     ebind (eread (load_sync_apply_journal vault_id)) (\<lambda>journal.
     ebind (elift (both_exist state journal
       ''vault_state and sync_apply_journal must both exist'')) (\<lambda>(state, journal).
     ebind (elift (apply_sync_finalizing_recovery state journal)) (\<lambda>recovered.
     ebind (persist (del_apply_journal vault_id \<circ> put_vault_state recovered)) (\<lambda>_.
     eret recovered)))))"

definition recover_prepared_commit_cleanup :: "string \<Rightarrow> vault_state io" where
  "recover_prepared_commit_cleanup vault_id =
     ebind (eread (load_vault_state vault_id)) (\<lambda>state.
     ebind (eread (load_commit_intent_journal vault_id)) (\<lambda>journal.
     ebind (elift (both_exist state journal
       ''vault_state and commit_intent_journal must both exist'')) (\<lambda>(state, journal).
     if cj_status journal \<noteq> ''prepared''
     then eraise (ValueError ''prepared recovery requires a prepared journal'')
     else ebind (elift (apply_prepared_commit_recovery state)) (\<lambda>recovered.
     ebind (persist (del_commit_journal vault_id \<circ> put_vault_state recovered)) (\<lambda>_.
     eret recovered)))))"

definition recover_orphaned_commit_lock :: "string \<Rightarrow> vault_state io" where
  "recover_orphaned_commit_lock vault_id =
     ebind (eread (load_vault_state vault_id)) (\<lambda>state.
     ebind (eread (load_commit_intent_journal vault_id)) (\<lambda>journal.
     case state of
       None \<Rightarrow> eraise (KeyError ''vault_state must exist'')
     | Some state \<Rightarrow>
         if journal \<noteq> None
         then eraise (ValueError ''orphaned commit lock recovery requires no active journal'')
         else if \<not> vs_commit_in_progress state
         then eraise (ValueError
           ''orphaned commit lock recovery requires commit_in_progress=true'')
         else ebind (elift (apply_orphaned_commit_lock_recovery state)) (\<lambda>recovered.
         ebind (persist (put_vault_state recovered)) (\<lambda>_.
         eret recovered))))"

definition finalize_committed_state :: "string \<Rightarrow> int \<Rightarrow> string \<Rightarrow> vault_state io" where
  "finalize_committed_state vault_id committed_revision manifest_summary =
     ebind (eread (load_vault_state vault_id)) (\<lambda>state.
     ebind (eread (load_commit_intent_journal vault_id)) (\<lambda>journal.
     ebind (elift (both_exist state journal
       ''vault_state and commit_intent_journal must both exist'')) (\<lambda>(state, journal).
     if cj_status journal \<noteq> ''submitted''
     then eraise (ValueError ''commit finalization requires a submitted journal'')
     else ebind (elift (apply_commit_success_state state committed_revision manifest_summary))
       (\<lambda>updated.
     ebind (persist (del_commit_journal vault_id \<circ> put_vault_state updated)) (\<lambda>_.
     eret updated)))))"

text \<open>The status update of a normalized journal and its deletion are one transaction.\<close>

definition set_journal_status :: "commit_journal \<Rightarrow> commit_journal \<Rightarrow> client \<Rightarrow> client" where
  "set_journal_status normalized journal s =
     (if normalized = journal then s
      else s\<lparr>cl_commit_journal := (cl_commit_journal s)(cj_vault_id journal \<mapsto>
        journal\<lparr>cj_status := cj_status normalized, cj_updated_at := cj_updated_at normalized\<rparr>)\<rparr>)"

definition recover_submitted_commit_match ::
  "string \<Rightarrow> int \<Rightarrow> int \<Rightarrow> string option \<Rightarrow> int \<Rightarrow> vault_state io" where
  "recover_submitted_commit_match vault_id matched_revision observed_head matched_summary at =
     ebind (eread (load_vault_state vault_id)) (\<lambda>state.
     ebind (eread (load_commit_intent_journal vault_id)) (\<lambda>journal.
     ebind (elift (both_exist state journal
       ''vault_state and commit_intent_journal must both exist'')) (\<lambda>(state, journal).
     ebind (elift (normalize_commit_journal_for_recovery journal at)) (\<lambda>normalized.
     ebind (elift (apply_submitted_commit_match_recovery state matched_revision observed_head
       matched_summary)) (\<lambda>recovered.
     ebind (persist (del_commit_journal vault_id \<circ> put_vault_state recovered
       \<circ> set_journal_status normalized journal)) (\<lambda>_.
     eret recovered))))))"

definition recover_submitted_commit_from_manifest ::
  "(string \<Rightarrow> string) \<Rightarrow> (string \<Rightarrow> string) \<Rightarrow> string \<Rightarrow> manifest option \<Rightarrow> int \<Rightarrow> int \<Rightarrow> int
     \<Rightarrow> vault_state io" where
  "recover_submitted_commit_from_manifest sha nfc vault_id matched_manifest matched_revision
     observed_head at =
     recover_submitted_commit_match vault_id matched_revision observed_head
       (case matched_manifest of None \<Rightarrow> None
        | Some m \<Rightarrow> Some (compute_manifest_summary_hash sha nfc m)) at"

definition recover_submitted_commit_miss :: "string \<Rightarrow> int \<Rightarrow> vault_state io" where
  "recover_submitted_commit_miss vault_id at =
     ebind (eread (load_vault_state vault_id)) (\<lambda>state.
     ebind (eread (load_commit_intent_journal vault_id)) (\<lambda>journal.
     ebind (elift (both_exist state journal
       ''vault_state and commit_intent_journal must both exist'')) (\<lambda>(state, journal).
     ebind (elift (normalize_commit_journal_for_recovery journal at)) (\<lambda>normalized.
     ebind (elift (apply_submitted_commit_miss_recovery state)) (\<lambda>recovered.
     ebind (persist (del_commit_journal vault_id \<circ> put_vault_state recovered
       \<circ> set_journal_status normalized journal)) (\<lambda>_.
     eret recovered))))))"

definition normalize_legacy_acknowledged_commit_intent ::
  "string \<Rightarrow> int \<Rightarrow> commit_journal option io" where
  "normalize_legacy_acknowledged_commit_intent vault_id normalized_at =
     ebind (eread (load_commit_intent_journal vault_id)) (\<lambda>current.
     case current of
       None \<Rightarrow> eret None
     | Some j \<Rightarrow>
         if cj_status j \<noteq> ''acknowledged'' then eret (Some j)
         else ebind (elift (CommitIntentJournalRecord
                (j\<lparr>cj_status := ''submitted'', cj_updated_at := normalized_at\<rparr>))) (\<lambda>n.
           ebind (upsert_commit_intent_journal n) (\<lambda>_. eret (Some n))))"

section \<open>File index and wiki tasks\<close>

definition upsert_file_index_entry ::
  "string \<Rightarrow> file_record \<Rightarrow> int option \<Rightarrow> int option \<Rightarrow> unit io" where
  "upsert_file_index_entry vault_id r local_mtime size_bytes =
     (let row = \<lparr>ix_path = fr_path r, ix_type = fr_type r, ix_status = fr_status r,
          ix_content_hash = fr_content_hash r,
          ix_last_known_revision = fr_last_known_revision r, ix_local_mtime = local_mtime,
          ix_size = size_bytes, ix_updated_at = fr_updated_at r\<rparr> in
      persist (\<lambda>s. s\<lparr>cl_file_index :=
        filter (\<lambda>(v, i, _). \<not> (v = vault_id \<and> i = fr_file_id r)) (cl_file_index s)
        @ [(vault_id, fr_file_id r, row)]\<rparr>))"

definition list_file_index :: "string \<Rightarrow> client \<Rightarrow> (string \<times> string \<times> index_row) list" where
  "list_file_index vault_id s =
     sort_key (\<lambda>(v, i, row). (ix_path row, i)) (filter (\<lambda>(v, _). v = vault_id) (cl_file_index s))"

definition active_task :: "wiki_task \<Rightarrow> bool" where
  "active_task t \<longleftrightarrow> wt_status t \<in> {''pending'', ''running''}"

text \<open>
  The primary key of the table and the partial unique index over the active tasks of a path:
  an insert that would violate either raises and rolls the transaction back.
\<close>

definition insert_wiki_task :: "wiki_task \<Rightarrow> wiki_task list \<Rightarrow> wiki_task list result" where
  "insert_wiki_task t ts =
     (if wt_task_id t \<in> wt_task_id ` set ts
      then Inl (IntegrityError ''UNIQUE constraint failed: wiki_tasks.task_id'')
      else if active_task t
        \<and> (\<exists>u \<in> set ts. active_task u \<and> wt_target_wiki_path u = wt_target_wiki_path t)
      then Inl (IntegrityError ''UNIQUE constraint failed: wiki_tasks.target_wiki_path'')
      else Inr (ts @ [t]))"

definition supersede_wiki_tasks :: "wiki_task \<Rightarrow> wiki_task list \<Rightarrow> wiki_task list" where
  "supersede_wiki_tasks t ts = map (\<lambda>u.
     if wt_target_wiki_path u = wt_target_wiki_path t \<and> active_task u
     then u\<lparr>wt_status := ''superseded'', wt_updated_at := wt_updated_at t\<rparr> else u) ts"

definition replace_active_wiki_task :: "wiki_task \<Rightarrow> unit io" where
  "replace_active_wiki_task t =
     ebind (eread (\<lambda>s. insert_wiki_task t (supersede_wiki_tasks t (cl_wiki_tasks s)))) (\<lambda>ts.
     persist (\<lambda>s. s\<lparr>cl_wiki_tasks := ts\<rparr>))"

section \<open>The file map on disk\<close>

text \<open>
  \<open>open("w")\<close> truncates the temporary file before the document is written and flushed; the
  rename installs it. A crash between the first two leaves a torn temporary file.
\<close>

definition write_filemap_atomic :: "filemap_document \<Rightarrow> unit io" where
  "write_filemap_atomic d =
     ebind (persist (\<lambda>s. s\<lparr>cl_filemap_tmp := Some Torn\<rparr>)) (\<lambda>_.
     ebind (persist (\<lambda>s. s\<lparr>cl_filemap_tmp := Some (Text (JObj (filemap_to_dict d)))\<rparr>)) (\<lambda>_.
     persist (\<lambda>s. s\<lparr>cl_filemap := cl_filemap_tmp s, cl_filemap_tmp := None\<rparr>)))"

fun json_load :: "file_content \<Rightarrow> json result" where
  "json_load Torn = Inl (ValueError ''JSONDecodeError'')"
| "json_load (Text v) = Inr v"

definition parse_filemap :: "file_content option \<Rightarrow> filemap_document result" where
  "parse_filemap f = (case f of
     None \<Rightarrow> Inl (OSError ''FileNotFoundError'')
   | Some c \<Rightarrow> rbind (json_load c) (\<lambda>v. rbind (as_object v) filemap_from_dict))"

definition load_filemap :: "client \<Rightarrow> filemap_document result" where
  "load_filemap s = parse_filemap (cl_filemap s)"

definition recover_filemap :: "bool io" where
  "recover_filemap =
     ebind (eget cl_filemap_tmp) (\<lambda>tmp.
     if tmp = None then eret False
     else ebind (elift (parse_filemap tmp)) (\<lambda>_.
       ebind (persist (\<lambda>s. s\<lparr>cl_filemap := cl_filemap_tmp s, cl_filemap_tmp := None\<rparr>)) (\<lambda>_.
       eret True)))"

section \<open>The tombstone ledger on disk\<close>

text \<open>
  One line per tombstone. A rewrite goes through a temporary file that nothing reads, so it is
  one durable step; an append may leave a torn last line.
\<close>

definition ledger_line :: "tombstone \<Rightarrow> file_content" where
  "ledger_line t = Text (JObj (tombstone_to_dict t))"

definition rewrite_tombstone_ledger :: "tombstone list \<Rightarrow> unit io" where
  "rewrite_tombstone_ledger ts = persist (\<lambda>s. s\<lparr>cl_ledger := Some (map ledger_line ts)\<rparr>)"

definition ledger_lines :: "client \<Rightarrow> file_content list" where
  "ledger_lines s = (case cl_ledger s of None \<Rightarrow> [] | Some ls \<Rightarrow> ls)"

definition append_tombstone :: "tombstone \<Rightarrow> unit io" where
  "append_tombstone t =
     ebind (eget ledger_lines) (\<lambda>ls.
     ebind (persist (\<lambda>s. s\<lparr>cl_ledger := Some (ls @ [Torn])\<rparr>)) (\<lambda>_.
     persist (\<lambda>s. s\<lparr>cl_ledger := Some (ls @ [ledger_line t])\<rparr>)))"

text \<open>
  A line without \<open>local_delete_seq\<close> (or with null) is from an old version: it gets the next
  sequence number, and the ledger is rewritten once all lines have been read.
\<close>

definition ledger_entry :: "int \<Rightarrow> dict \<Rightarrow> (dict \<times> int \<times> bool) result" where
  "ledger_entry max_seq payload =
     (case dget payload ''local_delete_seq'' of
        JNull \<Rightarrow> Inr (AList.update ''local_delete_seq'' (JInt (max_seq + 1)) payload,
                      max_seq + 1, True)
      | v \<Rightarrow> if as_int v < 0
             then Inl (ValueError
               ''local_delete_seq must be a non-negative integer when present'')
             else Inr (payload, max max_seq (as_int v), False))"

fun read_ledger ::
  "int \<Rightarrow> file_content list \<Rightarrow> (tombstone list \<times> bool) result" where
  "read_ledger max_seq [] = Inr ([], False)"
| "read_ledger max_seq (l # ls) =
     rbind (json_load l) (\<lambda>v.
     rbind (as_object v) (\<lambda>payload.
     rbind (ledger_entry max_seq payload) (\<lambda>(payload, max_seq', legacy).
     rbind (tombstone_from_dict payload) (\<lambda>t.
     rbind (read_ledger max_seq' ls) (\<lambda>(ts, needs_rewrite).
     Inr (t # ts, legacy \<or> needs_rewrite))))))"

definition load_tombstone_ledger :: "bool \<Rightarrow> tombstone list io" where
  "load_tombstone_ledger rewrite_legacy =
     ebind (eget cl_ledger) (\<lambda>ledger.
     case ledger of
       None \<Rightarrow> eret []
     | Some ls \<Rightarrow>
         ebind (elift (read_ledger 0 ls)) (\<lambda>(ts, needs_rewrite).
         ebind (if needs_rewrite \<and> rewrite_legacy then rewrite_tombstone_ledger ts else eret ())
           (\<lambda>_. eret ts)))"

section \<open>Persisting a convergence\<close>

definition persist_manifest_convergence ::
  "filemap_document \<Rightarrow> manifest \<Rightarrow> tombstone list \<Rightarrow> int \<Rightarrow> convergence io" where
  "persist_manifest_convergence d m local_ts rewritten_at =
     ebind (elift (converge_manifest_state d m local_ts rewritten_at)) (\<lambda>c.
     ebind (write_filemap_atomic (cv_filemap c)) (\<lambda>_.
     ebind (rewrite_tombstone_ledger (cv_tombstones c)) (\<lambda>_.
     eret c)))"

text \<open>The \<open>except\<close> clause covers the errors of reading the temporary file, not a power loss.\<close>

fun caught_by_recovery :: "py_exn \<Rightarrow> bool" where
  "caught_by_recovery (OSError m) = True"
| "caught_by_recovery (ValueError m) = True"
| "caught_by_recovery _ = False"

definition try_recover_filemap :: "bool io" where
  "try_recover_filemap s = (case recover_filemap s of
     (Inl e, s') \<Rightarrow> if caught_by_recovery e then (Inr False, s') else (Inl e, s')
   | (Inr b, s') \<Rightarrow> (Inr b, s'))"

definition recover_filemap_rewrite_convergence ::
  "filemap_document \<Rightarrow> manifest \<Rightarrow> tombstone list \<Rightarrow> int \<Rightarrow> convergence io" where
  "recover_filemap_rewrite_convergence d m local_ts rewritten_at =
     ebind (elift (converge_manifest_state d m local_ts rewritten_at)) (\<lambda>c.
     ebind try_recover_filemap (\<lambda>recovered.
     if recovered
     then ebind (rewrite_tombstone_ledger (cv_tombstones c)) (\<lambda>_.
          ebind (eread load_filemap) (\<lambda>d'.
          eret (c\<lparr>cv_filemap := d'\<rparr>)))
     else ebind (write_filemap_atomic (cv_filemap c)) (\<lambda>_.
          ebind (rewrite_tombstone_ledger (cv_tombstones c)) (\<lambda>_.
          eret c))))"

end
