(* ===== verification/Crash_Safety.thy ===== *)
theory Crash_Safety
  imports Local_Store
begin

text \<open>
  Crash safety of the filemap rewrite phase, ledger round trips, and the wiki task table.
\<close>

section \<open>Durable steps\<close>

lemma persist_on [simp]: "cl_power s = None \<Longrightarrow> persist f s = (Inr (), f s)"
  by (simp add: persist_def)

lemma persist_0 [simp]: "cl_power s = Some 0 \<Longrightarrow> persist f s = (Inl PowerLoss, s)"
  by (simp add: persist_def)

lemma persist_Suc [simp]:
  "cl_power s = Some (Suc n) \<Longrightarrow> persist f s = (Inr (), f (s\<lparr>cl_power := Some n\<rparr>))"
  by (simp add: persist_def)

lemma ebind_persist_on [simp]: "cl_power s = None \<Longrightarrow> ebind (persist f) g s = g () (f s)"
  by (simp add: ebind_def)

lemma ebind_persist_0 [simp]: "cl_power s = Some 0 \<Longrightarrow> ebind (persist f) g s = (Inl PowerLoss, s)"
  by (simp add: ebind_def)

lemma ebind_persist_Suc [simp]:
  "cl_power s = Some (Suc n) \<Longrightarrow> ebind (persist f) g s = g () (f (s\<lparr>cl_power := Some n\<rparr>))"
  by (simp add: ebind_def)

section \<open>Files written and read back\<close>

lemma parse_written:
  "wf_document d \<Longrightarrow> parse_filemap (Some (Text (JObj (filemap_to_dict d))))
     = Inr (d\<lparr>fd_files := fd_sorted_files d\<rparr>)"
  by (simp add: parse_filemap_def filemap_round_trip)

lemma dget_seq_written: "dget (tombstone_to_dict t) ''local_delete_seq'' = JInt (tb_local_delete_seq t)"
  by (simp add: dget_def tombstone_to_dict_def)

lemma read_written_ledger:
  "\<forall>t \<in> set ts. wf_tombstone t \<Longrightarrow> read_ledger n (map ledger_line ts) = Inr (ts, False)"
proof (induction ts arbitrary: n)
  case (Cons t ts)
  then have "wf_tombstone t" "0 \<le> tb_local_delete_seq t" by (auto simp: wf_tombstone_iff)
  with Cons show ?case by (simp add: ledger_line_def ledger_entry_def dget_seq_written)
qed simp

lemma tombstone_from_dict_wf: "tombstone_from_dict d = Inr t \<Longrightarrow> wf_tombstone t"
  by (auto simp: tombstone_from_dict_def result_simps)

lemma read_ledger_wf: "read_ledger n ls = Inr (ts, b) \<Longrightarrow> \<forall>t \<in> set ts. wf_tombstone t"
proof (induction ls arbitrary: n ts b)
  case (Cons l ls)
  then show ?case by (auto simp: result_simps dest: tombstone_from_dict_wf)
qed simp

section \<open>Converging from what the disk holds\<close>

lemma sort_key_append_sorted: "sort_key k (xs @ sort_key k ys) = sort_key k (xs @ ys)"
proof (rule properties_for_sort_key)
  show "mset (sort_key k (xs @ ys)) = mset (xs @ sort_key k ys)" by simp
  show "filter (\<lambda>x. k y = k x) (sort_key k (xs @ ys)) = filter (\<lambda>x. k y = k x) (xs @ sort_key k ys)"
    if "y \<in> set (sort_key k (xs @ ys))" for y
    by (simp add: eq_commute [of "k y"] sort_key_stable)
  show "sorted (map k (sort_key k (xs @ ys)))" by simp
qed

lemma dict_of_sort:
  "distinct (map f xs) \<Longrightarrow> dict_of f (sort_key k xs) = dict_of f xs"
  by (rule map_some_eqI) (simp add: dict_of_distinct)


text \<open>\<open>converge_eq\<close> spelled out once, for a document that is the one a convergence produced with
  its records in the order the file holds them.\<close>

definition reread :: "filemap_document \<Rightarrow> filemap_document" where
  "reread d = d\<lparr>fd_files := fd_sorted_files d\<rparr>"

lemma current_by_id_reread:
  assumes "distinct (map fr_file_id (filter (\<lambda>r. fr_status r \<noteq> ''conflict_copy'') (fd_files d)))"
  shows "current_by_id (reread d) = current_by_id d"
proof -
  have "filter (\<lambda>r. fr_status r \<noteq> ''conflict_copy'') (fd_sorted_files d)
      = sort_key (\<lambda>r. (fr_path r, fr_file_id r))
          (filter (\<lambda>r. fr_status r \<noteq> ''conflict_copy'') (fd_files d))"
    by (simp add: fd_sorted_files_def filter_sort)
  then show ?thesis
    using assms by (simp add: current_by_id_def reread_def dict_of_sort)
qed

lemma rebuilt_reread:
  assumes "current_by_id d' = current_by_id d"
    and "filter (\<lambda>r. fr_status r = ''conflict_copy'') (fd_files d')
      = sort_key (\<lambda>r. (fr_path r, fr_file_id r)) (filter (\<lambda>r. fr_status r = ''conflict_copy'') (fd_files d))"
  shows "sort_key (\<lambda>r. (fr_path r, fr_file_id r)) (rebuilt_files d' m ts at)
      = sort_key (\<lambda>r. (fr_path r, fr_file_id r)) (rebuilt_files d m ts at)"
proof -
  have "active_of d' m at = active_of d m at" "deleted_of d' = deleted_of d"
    by (simp_all add: active_of_def deleted_of_def fun_eq_iff tombstone_path_def assms(1))
  then show ?thesis
    unfolding rebuilt_files_def assms(2) append_assoc [symmetric]
    by (simp only: sort_key_append_sorted)
qed

lemma input_reread:
  "convergence_input d m ls at \<Longrightarrow> convergence_input (reread d) m ls at"
  by (simp add: convergence_input_def reread_def wf_document_iff)

lemma converge_reread:
  assumes i: "convergence_input d m ls at" and c: "converge_manifest_state d m ls at = Inr c"
    and dist: "distinct (map fr_file_id (filter (\<lambda>r. fr_status r \<noteq> ''conflict_copy'') (fd_files d)))"
  shows "\<exists>c'. converge_manifest_state (reread d) m ls at = Inr c'
    \<and> filemap_to_dict (cv_filemap c') = filemap_to_dict (cv_filemap c)
    \<and> cv_tombstones c' = cv_tombstones c"
proof -
  have cur: "current_by_id (reread d) = current_by_id d" by (rule current_by_id_reread [OF dist])
  have conf: "filter (\<lambda>r. fr_status r = ''conflict_copy'') (fd_files (reread d))
      = sort_key (\<lambda>r. (fr_path r, fr_file_id r)) (filter (\<lambda>r. fr_status r = ''conflict_copy'') (fd_files d))"
    by (simp add: reread_def fd_sorted_files_def filter_sort)
  have tp: "tombstone_path (reread d) = tombstone_path d"
    by (simp add: fun_eq_iff tombstone_path_def cur)
  obtain c' where c': "converge_manifest_state (reread d) m ls at = Inr c'"
    using c unfolding converge_eq_Inr [OF i] converge_eq_Inr [OF input_reread [OF i]] tp by simp
  then show ?thesis
    using c rebuilt_reread [OF cur conf, of m "retained_ledger ls m" at]
    unfolding converge_eq_Inr [OF i] converge_eq_Inr [OF input_reread [OF i]]
    by (simp add: filemap_to_dict_def fd_sorted_files_def reread_def)
qed

text \<open>After a crash the ledger on disk is the old one or the converged one, and the file map is
  the old one or the converged one; each combination that can arise leads to the same result.\<close>

lemma converge_after_filemap:
  assumes i: "convergence_input d m ls at" and c: "converge_manifest_state d m ls at = Inr c"
    and l: "ls' = ls \<or> ls' = cv_tombstones c"
  shows "\<exists>c'. converge_manifest_state (reread (cv_filemap c)) m ls' at = Inr c'
    \<and> filemap_to_dict (cv_filemap c') = filemap_to_dict (cv_filemap c)
    \<and> cv_tombstones c' = cv_tombstones c"
proof -
  have dl: "distinct (map tb_file_id ls)" and df: "distinct (map mf_file_id (mn_files m))"
    using i by (auto simp: convergence_input_def)
  have fd: "fd_files (cv_filemap c) = rebuilt_files d m (retained_ledger ls m) at"
    and ct: "cv_tombstones c = retained_ledger ls m"
    and paths: "\<forall>t \<in> set (deleted_tombstones (retained_ledger ls m) m). tombstone_path d t \<noteq> None"
    using c unfolding converge_eq_Inr [OF i] by auto
  have dist: "distinct (map fr_file_id (filter (\<lambda>r. fr_status r \<noteq> ''conflict_copy'') (fd_files (cv_filemap c))))"
    unfolding fd by (rule rebuilt_regular_distinct [OF df retained_distinct [OF dl]])
  have j: "convergence_input (cv_filemap c) m ls at"
    using converged_input [OF i c] i by (simp add: convergence_input_def)
  have twice: "converge_manifest_state (cv_filemap c) m (cv_tombstones c) at
      = Inr (c\<lparr>cv_reclaimed_tombstones := []\<rparr>)"
    by (rule converge_twice [OF i c])
  have tw: "\<forall>t \<in> set (deleted_tombstones (retained_ledger ls m) m). tombstone_path (cv_filemap c) t \<noteq> None"
    and same: "(cv_filemap c)\<lparr>fd_files := rebuilt_files (cv_filemap c) m (retained_ledger ls m) at,
        fd_updated_at := at\<rparr> = cv_filemap c"
    using twice unfolding converge_eq_Inr [OF converged_input [OF i c]]
    unfolding ct reretain(1) [OF dl]
    by (auto dest: arg_cong [where f = cv_filemap])
  have old: "\<exists>c1. converge_manifest_state (cv_filemap c) m ls at = Inr c1
      \<and> cv_filemap c1 = cv_filemap c \<and> cv_tombstones c1 = cv_tombstones c"
    using tw same unfolding converge_eq_Inr [OF j] unfolding ct by auto
  show ?thesis
  proof (cases "ls' = ls")
    case True
    from old obtain c1 where c1: "converge_manifest_state (cv_filemap c) m ls at = Inr c1"
      "cv_filemap c1 = cv_filemap c" "cv_tombstones c1 = cv_tombstones c" by blast
    from converge_reread [OF j c1(1) dist] c1 True show ?thesis by auto
  next
    case False
    with l have "ls' = cv_tombstones c" by simp
    with converge_reread [OF converged_input [OF i c] twice dist] show ?thesis by simp
  qed
qed

lemma recover_rewrites:
  assumes "cl_power s = None" "cl_filemap_tmp s = None \<or> cl_filemap_tmp s = Some Torn"
    and "converge_manifest_state d m ls at = Inr c"
  shows "recover_filemap_rewrite_convergence d m ls at s = (Inr c,
    s\<lparr>cl_filemap := Some (Text (JObj (filemap_to_dict (cv_filemap c)))), cl_filemap_tmp := None,
      cl_ledger := Some (map ledger_line (cv_tombstones c))\<rparr>)"
proof -
  have "try_recover_filemap s = (Inr False, s)"
    using assms(1,2)
    by (auto simp: try_recover_filemap_def recover_filemap_def parse_filemap_def)
  then show ?thesis
    using assms(1,3)
    by (simp add: recover_filemap_rewrite_convergence_def ebind_def write_filemap_atomic_def
        rewrite_tombstone_ledger_def)
qed

lemma recover_installs:
  assumes "cl_power s = None" "cl_filemap_tmp s = Some (Text (JObj (filemap_to_dict (cv_filemap c))))"
    and "converge_manifest_state d m ls at = Inr c" "wf_document (cv_filemap c)"
  shows "\<exists>c'. recover_filemap_rewrite_convergence d m ls at s = (Inr c',
    s\<lparr>cl_filemap := Some (Text (JObj (filemap_to_dict (cv_filemap c)))), cl_filemap_tmp := None,
      cl_ledger := Some (map ledger_line (cv_tombstones c))\<rparr>)"
proof -
  have "try_recover_filemap s = (Inr True,
      s\<lparr>cl_filemap := Some (Text (JObj (filemap_to_dict (cv_filemap c)))), cl_filemap_tmp := None\<rparr>)"
    using assms(1,2,4) by (simp add: try_recover_filemap_def recover_filemap_def parse_written)
  then show ?thesis
    using assms(1,3,4)
    by (simp add: recover_filemap_rewrite_convergence_def ebind_def
        rewrite_tombstone_ledger_def load_filemap_def parse_written)
qed

text \<open>What the disk holds after \<open>n\<close> durable steps of persisting a convergence.\<close>

lemma crashed_persist:
  assumes "cl_power s = Some n" "converge_manifest_state d m ls at = Inr c"
    and "persist_manifest_convergence d m ls at s = (r, s1)"
  shows "cl_filemap_tmp s1 = (if n = 0 then cl_filemap_tmp s else if n = 1 then Some Torn
       else if n = 2 then Some (Text (JObj (filemap_to_dict (cv_filemap c)))) else None)
    \<and> cl_filemap s1 = (if n < 3 then cl_filemap s
       else Some (Text (JObj (filemap_to_dict (cv_filemap c)))))
    \<and> cl_ledger s1 = (if n < 4 then cl_ledger s else Some (map ledger_line (cv_tombstones c)))"
proof -
  consider "n = 0" | "n = 1" | "n = 2" | "n = 3" | k where "n = Suc (Suc (Suc (Suc k)))"
    by (metis One_nat_def Suc_1 numeral_3_eq_3 old.nat.exhaust)
  then show ?thesis
    using assms
    by cases (auto simp: persist_manifest_convergence_def write_filemap_atomic_def
        rewrite_tombstone_ledger_def ebind_def persist_def numeral_2_eq_2 numeral_3_eq_3)
qed

lemma load_written_ledger:
  assumes "cl_ledger s = Some (map ledger_line ts)" "list_all wf_tombstone ts"
  shows "load_tombstone_ledger rw s = (Inr ts, s)"
  using read_written_ledger [of ts 0] assms
  by (simp add: load_tombstone_ledger_def list_all_iff)


definition empty_client :: client where
  "empty_client = \<lparr>cl_vault_state = (\<lambda>_. None), cl_commit_journal = (\<lambda>_. None),
     cl_apply_journal = (\<lambda>_. None), cl_file_index = [], cl_wiki_tasks = [], cl_filemap = None,
     cl_filemap_tmp = None, cl_ledger = None, cl_staging = [], cl_staging_orphans = [],
     cl_power = None\<rparr>"

definition stored_client :: client where
  "stored_client = empty_client\<lparr>cl_filemap := Some (Text (JObj (filemap_to_dict local_document))),
     cl_ledger := Some (map ledger_line local_ledger)\<rparr>"


text \<open>Reading the ledger is stable: whatever lines it holds (entries of old versions get the next
  sequence numbers and trigger a rewrite), once it has been read with legacy rewriting, reading
  it again gives the same tombstones and writes nothing.\<close>

lemma ledger_load_stable:
  assumes "cl_power s = None" "load_tombstone_ledger True s = (Inr ts, s')"
  shows "load_tombstone_ledger rw s' = (Inr ts, s') \<and> (\<forall>t \<in> set ts. 0 \<le> tb_local_delete_seq t)"
proof (cases "cl_ledger s")
  case None
  with assms show ?thesis by (auto simp: load_tombstone_ledger_def)
next
  case (Some ls)
  then obtain nr where r: "read_ledger 0 ls = Inr (ts, nr)"
    and s': "s' = (if nr then s\<lparr>cl_ledger := Some (map ledger_line ts)\<rparr> else s)"
    using assms by (cases "read_ledger 0 ls")
      (auto simp: load_tombstone_ledger_def rewrite_tombstone_ledger_def ebind_def
        split: prod.splits if_splits)
  have w: "\<forall>t \<in> set ts. wf_tombstone t" by (rule read_ledger_wf [OF r])
  then have "load_tombstone_ledger rw s' = (Inr ts, s')"
  proof (cases nr)
    case True
    with w s' show ?thesis by (intro load_written_ledger) (auto simp: list_all_iff)
  next
    case False
    with r s' Some show ?thesis by (simp add: load_tombstone_ledger_def)
  qed
  with w show ?thesis by (auto simp: wf_tombstone_iff)
qed

definition legacy_client :: client where
  "legacy_client = empty_client\<lparr>cl_ledger := Some
     [Text (JObj [(''file_id'', JStr ''a''), (''deleted_at'', JInt 3)]),
      Text (JObj [(''file_id'', JStr ''b''), (''deleted_at'', JInt 4), (''local_delete_seq'', JInt 7)]),
      Text (JObj [(''file_id'', JStr ''c''), (''deleted_at'', JInt 5)])]\<rparr>"

lemma ledger_load_stable_witness:
  "\<exists>ts s'. load_tombstone_ledger True legacy_client = (Inr ts, s')
     \<and> map tb_local_delete_seq ts = [1, 7, 8] \<and> load_tombstone_ledger False s' = (Inr ts, s')"
proof -
  let ?r = "load_tombstone_ledger True legacy_client"
  have "(case fst ?r of Inr ts \<Rightarrow> map tb_local_delete_seq ts = [1, 7, 8] | Inl e \<Rightarrow> False)"
    by (simp add: legacy_client_def empty_client_def load_tombstone_ledger_def ledger_entry_def
        dget_def ditem_def tombstone_from_dict_def TombstoneRecord_def check_defs
        rewrite_tombstone_ledger_def)
  then obtain ts s' where r: "?r = (Inr ts, s')" and q: "map tb_local_delete_seq ts = [1, 7, 8]"
    by (cases ?r) (auto split: sum.splits)
  have "cl_power legacy_client = None" by (simp add: legacy_client_def empty_client_def)
  from ledger_load_stable [OF this r, of False] r q show ?thesis by auto
qed

text \<open>Appending a tombstone to a ledger that loads makes it load with the tombstone at the end;
  but the append is not atomic: if the power fails between the two durable steps of the write,
  the torn last line makes every later load raise a JSON error, whatever the ledger held.\<close>

lemma ledger_append:
  assumes "list_all wf_tombstone ts" "wf_tombstone t" "cl_ledger s = Some (map ledger_line ts)"
    and "cl_power s = None"
  shows "load_tombstone_ledger rw (snd (append_tombstone t s)) = (Inr (ts @ [t]), snd (append_tombstone t s))
    \<and> fst (load_tombstone_ledger rw
         ((snd (append_tombstone t (s\<lparr>cl_power := Some 1\<rparr>)))\<lparr>cl_power := None\<rparr>))
       = Inl (ValueError ''JSONDecodeError'')"
proof -
  have "load_tombstone_ledger rw (snd (append_tombstone t s)) = (Inr (ts @ [t]), snd (append_tombstone t s))"
    using assms by (intro load_written_ledger) (simp_all add: append_tombstone_def ledger_lines_def)
  moreover have "read_ledger n (map ledger_line ts @ [Torn]) = Inl (ValueError ''JSONDecodeError'')" for n
    using assms(1)
  proof (induction ts arbitrary: n)
    case (Cons u us)
    then have "wf_tombstone u" "0 \<le> tb_local_delete_seq u" by (auto simp: wf_tombstone_iff)
    with Cons show ?case by (simp add: ledger_line_def ledger_entry_def dget_seq_written)
  qed simp
  ultimately show ?thesis
    using assms(3) by (simp add: append_tombstone_def ledger_lines_def load_tombstone_ledger_def)
qed

lemma ledger_append_witness:
  "fst (load_tombstone_ledger True (snd (append_tombstone (hd local_ledger) stored_client)))
     = Inr (local_ledger @ [hd local_ledger])"
proof -
  have "list_all wf_tombstone local_ledger" "wf_tombstone (hd local_ledger)" by code_simp+
  from ledger_append [OF this, of stored_client True] show ?thesis
    by (simp add: stored_client_def empty_client_def)
qed

lemma distinct_map_filter_mono:
  "distinct (map g (filter P xs)) \<Longrightarrow> (\<And>x. Q x \<Longrightarrow> P x) \<Longrightarrow> distinct (map g (filter Q xs))"
  by (induction xs) (auto split: if_splits)

lemma supersede_active:
  "filter active_task (supersede_wiki_tasks t ts)
    = filter (\<lambda>u. wt_target_wiki_path u \<noteq> wt_target_wiki_path t) (filter active_task ts)"
proof (induction ts)
  case (Cons u us)
  then show ?case by (simp add: supersede_wiki_tasks_def active_task_def)
qed (simp add: supersede_wiki_tasks_def)

text \<open>The wiki task table never holds two active tasks for a page: replacing the active task
  succeeds exactly when the task's identifier is new; it then supersedes every pending or
  running task of the page, and the table keeps unique identifiers and at most one active task
  per page; when it raises, the table is untouched.\<close>

lemma wiki_task_replacement:
  assumes "cl_power s = None"
    and "distinct (map wt_task_id (cl_wiki_tasks s))"
    and "distinct (map wt_target_wiki_path (filter active_task (cl_wiki_tasks s)))"
  shows "case replace_active_wiki_task t s of
      (Inl e, s') \<Rightarrow> s' = s \<and> wt_task_id t \<in> wt_task_id ` set (cl_wiki_tasks s)
    | (Inr _, s') \<Rightarrow> wt_task_id t \<notin> wt_task_id ` set (cl_wiki_tasks s)
        \<and> distinct (map wt_task_id (cl_wiki_tasks s'))
        \<and> distinct (map wt_target_wiki_path (filter active_task (cl_wiki_tasks s')))
        \<and> t \<in> set (cl_wiki_tasks s')
        \<and> (\<forall>u \<in> set (cl_wiki_tasks s'). active_task u
              \<and> wt_target_wiki_path u = wt_target_wiki_path t \<longrightarrow> u = t)"
proof -
  let ?ts = "supersede_wiki_tasks t (cl_wiki_tasks s)"
  have ids: "map wt_task_id ?ts = map wt_task_id (cl_wiki_tasks s)"
    by (simp add: supersede_wiki_tasks_def)
  then have idset: "wt_task_id ` set ?ts = wt_task_id ` set (cl_wiki_tasks s)"
    by (metis set_map)
  have act: "filter active_task ?ts = filter (\<lambda>u. wt_target_wiki_path u \<noteq> wt_target_wiki_path t)
      (filter active_task (cl_wiki_tasks s))"
    by (rule supersede_active)
  have none: "\<not> (active_task u \<and> wt_target_wiki_path u = wt_target_wiki_path t)" if "u \<in> set ?ts" for u
  proof
    assume u: "active_task u \<and> wt_target_wiki_path u = wt_target_wiki_path t"
    with that have "u \<in> set (filter active_task ?ts)" by simp
    with u show False unfolding act by simp
  qed
  have ins: "insert_wiki_task t ?ts = (if wt_task_id t \<in> wt_task_id ` set (cl_wiki_tasks s)
      then Inl (IntegrityError ''UNIQUE constraint failed: wiki_tasks.task_id'')
      else Inr (?ts @ [t]))"
    using none by (auto simp: insert_wiki_task_def idset)
  have d: "distinct (map wt_task_id ?ts)" using assms(2) by (simp only: ids)
  have d': "distinct (map wt_target_wiki_path (filter active_task ?ts))"
    unfolding act filter_filter by (rule distinct_map_filter_mono [OF assms(3)]) simp
  show ?thesis
  proof (cases "wt_task_id t \<in> wt_task_id ` set (cl_wiki_tasks s)")
    case True
    then show ?thesis by (simp add: replace_active_wiki_task_def ebind_eread ins)
  next
    case False
    then have "replace_active_wiki_task t s = (Inr (), s\<lparr>cl_wiki_tasks := ?ts @ [t]\<rparr>)"
      using assms(1) by (simp add: replace_active_wiki_task_def ebind_eread ins)
    moreover have "wt_task_id t \<notin> wt_task_id ` set ?ts" using False idset by simp
    moreover have "\<forall>u \<in> set ?ts. active_task u \<longrightarrow> wt_target_wiki_path u \<noteq> wt_target_wiki_path t" using none by blast
    ultimately show ?thesis using False d d' by auto
  qed
qed

definition wiki_task_of :: "string \<Rightarrow> string \<Rightarrow> string \<Rightarrow> wiki_task" where
  "wiki_task_of i p st = \<lparr>wt_task_id = i, wt_target_wiki_path = p, wt_task_base_page_hash = None,
     wt_task_base_revision = 1, wt_task_sources_hash = ''h'', wt_status = st, wt_created_at = 1,
     wt_updated_at = 1\<rparr>"

definition wiki_client :: client where
  "wiki_client = empty_client\<lparr>cl_wiki_tasks :=
     [wiki_task_of ''a'' ''p.md'' ''running'', wiki_task_of ''b'' ''q.md'' ''done'']\<rparr>"

lemma wiki_task_replacement_witness:
  "case replace_active_wiki_task (wiki_task_of ''c'' ''p.md'' ''pending'') wiki_client of
     (Inl e, s') \<Rightarrow> False
   | (Inr _, s') \<Rightarrow> distinct (map wt_target_wiki_path (filter active_task (cl_wiki_tasks s')))"
proof -
  have "cl_power wiki_client = None" "distinct (map wt_task_id (cl_wiki_tasks wiki_client))"
    "distinct (map wt_target_wiki_path (filter active_task (cl_wiki_tasks wiki_client)))"
    "wt_task_id (wiki_task_of ''c'' ''p.md'' ''pending'') \<notin> wt_task_id ` set (cl_wiki_tasks wiki_client)"
    by (simp_all add: wiki_client_def empty_client_def wiki_task_of_def active_task_def)
  from wiki_task_replacement [OF this(1-3), of "wiki_task_of ''c'' ''p.md'' ''pending''"] this(4)
  show ?thesis by (auto split: prod.splits sum.splits)
qed
end
