(* ===== verification/Commit_Plan.thy ===== *)
theory Commit_Plan
  imports Local_Store Manifest
begin

text \<open>
  The pure part of \<open>vault_core/sync_commit.py\<close>: building the manifest of a commit from the file
  map, freezing the content snapshot and detecting drift, the blob check, the upload plan and
  the request of \<open>create_commit\<close>. Paths under the vault are strings; hashing and
  normalization are the parameters of \<open>Manifest\<close>.
\<close>

section \<open>The commit manifest\<close>

fun json_is_str :: "json \<Rightarrow> bool" where
  "json_is_str (JStr s) = True"
| "json_is_str _ = False"

definition manifest_file_meta :: "file_record \<Rightarrow> dict result" where
  "manifest_file_meta r = (case fr_meta r of
     None \<Rightarrow> Inl (ValueError (''active file is missing manifest metadata: '' @ fr_file_id r))
   | Some meta \<Rightarrow> Inr meta)"

definition build_manifest_file_entry :: "file_record \<Rightarrow> manifest_file result" where
  "build_manifest_file_entry r = (case fr_content_hash r of
     None \<Rightarrow> Inl (ValueError (''active file is missing content_hash: '' @ fr_file_id r))
   | Some content_hash \<Rightarrow>
     rbind (manifest_file_meta r) (\<lambda>meta.
     let blob_id = dget meta ''blob_id''; sz = dget meta ''size''; mtime = dget meta ''mtime'';
         mime_type = dget meta ''mime_type'' in
     rbind (validate
       [(json_is_str blob_id \<and> blob_id \<noteq> JStr [],
         ''active file is missing blob_id: '' @ fr_file_id r),
        (0 \<le> as_int sz, ''active file is missing size: '' @ fr_file_id r),
        (0 \<le> as_int mtime, ''active file is missing mtime: '' @ fr_file_id r),
        (mime_type = JNull \<or> json_is_str mime_type,
         ''active file has invalid mime_type: '' @ fr_file_id r)] ()) (\<lambda>_.
     ManifestFileEntry \<lparr>mf_file_id = fr_file_id r, mf_path = fr_path r, mf_type = fr_type r,
       mf_content_hash = content_hash, mf_blob_id = dstr meta ''blob_id'',
       mf_size = as_int sz, mf_mtime = as_int mtime, mf_mime_type = py_str mime_type,
       mf_meta = None\<rparr>)))"

text \<open>The first loop of the path validation keeps the identifier seen at each normalized path.\<close>

fun collect_active_paths ::
  "(string \<Rightarrow> string) \<Rightarrow> (string \<Rightarrow> string option) \<Rightarrow> file_record list
     \<Rightarrow> (string \<Rightarrow> string option) result" where
  "collect_active_paths nfc seen [] = Inr seen"
| "collect_active_paths nfc seen (r # rs) =
     (if fr_status r \<noteq> ''active'' then collect_active_paths nfc seen rs
      else case seen (nfc (fr_path r)) of
        Some previous \<Rightarrow> Inl (ValueError (''active file paths collide after NFC normalization: ''
          @ previous @ '', '' @ fr_file_id r))
      | None \<Rightarrow> collect_active_paths nfc (seen(nfc (fr_path r) \<mapsto> fr_file_id r)) rs)"

definition validate_commit_document_paths ::
  "(string \<Rightarrow> string) \<Rightarrow> filemap_document \<Rightarrow> unit result" where
  "validate_commit_document_paths nfc d =
     rbind (collect_active_paths nfc (\<lambda>_. None) (fd_files d)) (\<lambda>active_paths.
     case find (\<lambda>r. fr_status r = ''conflict_copy'' \<and> active_paths (nfc (fr_path r)) \<noteq> None)
            (fd_files d) of
       Some r \<Rightarrow> Inl (ValueError
         (''conflict copy path overlaps active file path after NFC normalization: '' @ fr_file_id r))
     | None \<Rightarrow> Inr ())"

definition has_unresolved_conflict_copy :: "filemap_document \<Rightarrow> bool" where
  "has_unresolved_conflict_copy d \<longleftrightarrow> (\<exists>r \<in> set (fd_files d). fr_status r = ''conflict_copy'')"

definition active_files :: "filemap_document \<Rightarrow> file_record list" where
  "active_files d = filter (\<lambda>r. fr_status r = ''active'') (fd_files d)"

definition missing_tombstones :: "filemap_document \<Rightarrow> tombstone list \<Rightarrow> string list" where
  "missing_tombstones d ts =
     filter (\<lambda>i. i \<notin> tb_file_id ` set ts)
       (sorted_set (map fr_file_id (filter (\<lambda>r. fr_status r = ''deleted'') (fd_files d))))"

definition assert_tombstones :: "filemap_document \<Rightarrow> tombstone list \<Rightarrow> unit result" where
  "assert_tombstones d ts = (let missing = missing_tombstones d ts in
     if missing \<noteq> []
     then Inl (ValueError (''deleted filemap entries are missing tombstones: ''
       @ join '', '' missing))
     else Inr ())"

definition pending_manifest ::
  "filemap_document \<Rightarrow> manifest_file list \<Rightarrow> tombstone list \<Rightarrow> int \<Rightarrow> string \<Rightarrow> int \<Rightarrow> manifest result" where
  "pending_manifest d files ts base_revision device created_at = ManifestRecord
     \<lparr>mn_vault_id = fd_vault_id d, mn_revision = 0, mn_base_revision = base_revision,
      mn_created_by_device = device, mn_created_at = created_at, mn_files = files,
      mn_tombstones = ts, mn_summary_hash = ''pending'', mn_schema_version = ''v1'',
      mn_meta = None\<rparr>"

definition build_commit_manifest ::
  "(string \<Rightarrow> string) \<Rightarrow> filemap_document \<Rightarrow> tombstone list \<Rightarrow> int \<Rightarrow> string \<Rightarrow> int
     \<Rightarrow> manifest result" where
  "build_commit_manifest nfc d ts base_revision device created_at =
     rbind (validate_commit_document_paths nfc d) (\<lambda>_.
     rbind (assert_tombstones d ts) (\<lambda>_.
     rbind (mapM build_manifest_file_entry (active_files d)) (\<lambda>files.
     pending_manifest d files ts base_revision device created_at)))"

definition apply_commit_submitted_state :: "vault_state \<Rightarrow> vault_state result" where
  "apply_commit_submitted_state s = VaultStateRecord (s\<lparr>vs_commit_in_progress := True\<rparr>)"

section \<open>The content snapshot\<close>

record snapshot_file =
  sf_file_id :: string
  sf_path :: string
  sf_type :: string
  sf_content_hash :: string
  sf_blob_id :: string
  sf_size :: int
  sf_mtime :: int
  sf_mime_type :: "string option"
  sf_source_version_token :: string
  sf_snapshot_path :: string
  sf_blob_staging_path :: string

record snapshot_plan =
  sp_vault_id :: string
  sp_base_revision :: int
  sp_created_at :: int
  sp_files :: "snapshot_file list"

definition snapshot_plain_path :: "string \<Rightarrow> string" where
  "snapshot_plain_path file_id = ''.noteapp/staging/'' @ file_id @ ''.snapshot.plain''"

definition blob_staging_path :: "string \<Rightarrow> string" where
  "blob_staging_path blob_id = ''.noteapp/staging/'' @ blob_id @ ''.blob.staging''"

definition derive_snapshot_source_version :: "file_record \<Rightarrow> string result" where
  "derive_snapshot_source_version r =
     (let meta = (case fr_meta r of None \<Rightarrow> [] | Some m \<Rightarrow> m);
          token = dget meta ''source_version_token'' in
      if token \<noteq> JNull then
        (case token of
           JStr (c # cs) \<Rightarrow> Inr (c # cs)
         | _ \<Rightarrow> Inl (ValueError (''active file has invalid source_version_token: '' @ fr_file_id r)))
      else case fr_content_hash r of
        None \<Rightarrow> Inl (ValueError (''active file is missing content_hash: '' @ fr_file_id r))
      | Some h \<Rightarrow>
          let mtime = as_int (dget meta ''mtime''); sz = as_int (dget meta ''size'') in
          if 0 \<le> mtime \<and> 0 \<le> sz
          then Inr (''mtime:'' @ int_str mtime @ '':size:'' @ int_str sz @ '':hash:'' @ h)
          else Inr (''updated_at:'' @ int_str (fr_updated_at r) @ '':hash:'' @ h))"

definition freeze_file :: "file_record \<Rightarrow> snapshot_file result" where
  "freeze_file r =
     rbind (build_manifest_file_entry r) (\<lambda>e.
     rbind (derive_snapshot_source_version r) (\<lambda>token.
     Inr \<lparr>sf_file_id = fr_file_id r, sf_path = fr_path r, sf_type = fr_type r,
       sf_content_hash = mf_content_hash e, sf_blob_id = mf_blob_id e, sf_size = mf_size e,
       sf_mtime = mf_mtime e, sf_mime_type = mf_mime_type e, sf_source_version_token = token,
       sf_snapshot_path = snapshot_plain_path (fr_file_id r),
       sf_blob_staging_path = blob_staging_path (mf_blob_id e)\<rparr>))"

definition build_content_snapshot_plan ::
  "(string \<Rightarrow> string) \<Rightarrow> filemap_document \<Rightarrow> int \<Rightarrow> int \<Rightarrow> snapshot_plan result" where
  "build_content_snapshot_plan nfc d base_revision created_at =
     rbind (validate_commit_document_paths nfc d) (\<lambda>_.
     rbind (mapM freeze_file (filter (\<lambda>r. fr_status r = ''active'') (fd_sorted_files d)))
       (\<lambda>files.
     Inr \<lparr>sp_vault_id = fd_vault_id d, sp_base_revision = base_revision,
       sp_created_at = created_at, sp_files = files\<rparr>))"

definition current_active :: "filemap_document \<Rightarrow> string \<Rightarrow> file_record option" where
  "current_active d = dict_of fr_file_id (active_files d)"

fun drifted :: "(string \<Rightarrow> file_record option) \<Rightarrow> snapshot_file list \<Rightarrow> string list result" where
  "drifted cur [] = Inr []"
| "drifted cur (f # fs) = (case cur (sf_file_id f) of
     None \<Rightarrow> rbind (drifted cur fs) (\<lambda>ids. Inr (sf_file_id f # ids))
   | Some r \<Rightarrow>
       if fr_path r \<noteq> sf_path f \<or> fr_type r \<noteq> sf_type f
       then rbind (drifted cur fs) (\<lambda>ids. Inr (sf_file_id f # ids))
       else rbind (derive_snapshot_source_version r) (\<lambda>token.
         rbind (drifted cur fs) (\<lambda>ids.
         Inr (if token \<noteq> sf_source_version_token f then sf_file_id f # ids else ids))))"

definition detect_content_snapshot_drift ::
  "snapshot_plan \<Rightarrow> filemap_document \<Rightarrow> string list result" where
  "detect_content_snapshot_drift p d = drifted (current_active d) (sp_files p)"

definition assert_content_snapshot_plan_matches ::
  "snapshot_plan \<Rightarrow> filemap_document \<Rightarrow> unit result" where
  "assert_content_snapshot_plan_matches p d =
     rbind (detect_content_snapshot_drift p d) (\<lambda>ids.
     if ids \<noteq> [] then Inl (ValueError (''content snapshot drift detected: '' @ join '', '' (sort ids)))
     else Inr ())"

definition build_manifest_file_entry_from_snapshot :: "snapshot_file \<Rightarrow> manifest_file result" where
  "build_manifest_file_entry_from_snapshot f = ManifestFileEntry
     \<lparr>mf_file_id = sf_file_id f, mf_path = sf_path f, mf_type = sf_type f,
      mf_content_hash = sf_content_hash f, mf_blob_id = sf_blob_id f, mf_size = sf_size f,
      mf_mtime = sf_mtime f, mf_mime_type = sf_mime_type f, mf_meta = None\<rparr>"

definition assert_snapshot_plan_covers_document ::
  "snapshot_plan \<Rightarrow> filemap_document \<Rightarrow> (string \<Rightarrow> snapshot_file option) result" where
  "assert_snapshot_plan_covers_document p d =
     (if fd_vault_id d \<noteq> sp_vault_id p
      then Inl (ValueError ''document vault_id does not match snapshot plan vault'')
      else let frozen = dict_of sf_file_id (sp_files p) in
      if fr_file_id ` set (active_files d) \<noteq> sf_file_id ` set (sp_files p)
      then Inl (ValueError ''content snapshot plan active file set does not match document'')
      else case find (\<lambda>r. case frozen (fr_file_id r) of None \<Rightarrow> True
                 | Some f \<Rightarrow> sf_path f \<noteq> fr_path r \<or> sf_type f \<noteq> fr_type r) (active_files d) of
        Some r \<Rightarrow> Inl (ValueError
          (''content snapshot plan structure mismatch for file_id '' @ fr_file_id r))
      | None \<Rightarrow> Inr frozen)"

definition entry_from_plan ::
  "(string \<Rightarrow> snapshot_file option) \<Rightarrow> file_record \<Rightarrow> manifest_file result" where
  "entry_from_plan frozen r = (case frozen (fr_file_id r) of
     None \<Rightarrow> Inl (KeyError (fr_file_id r))
   | Some f \<Rightarrow> build_manifest_file_entry_from_snapshot f)"

definition build_commit_manifest_from_snapshot_plan ::
  "(string \<Rightarrow> string) \<Rightarrow> filemap_document \<Rightarrow> snapshot_plan \<Rightarrow> tombstone list \<Rightarrow> int \<Rightarrow> string \<Rightarrow> int
     \<Rightarrow> manifest result" where
  "build_commit_manifest_from_snapshot_plan nfc d p ts base_revision device created_at =
     rbind (validate_commit_document_paths nfc d) (\<lambda>_.
     rbind (assert_snapshot_plan_covers_document p d) (\<lambda>frozen.
     rbind (assert_tombstones d ts) (\<lambda>_.
     rbind (mapM (entry_from_plan frozen) (active_files d)) (\<lambda>files.
     pending_manifest d files ts base_revision device created_at))))"

section \<open>Snapshot table, blob check and upload plan\<close>

record materialized_snapshot =
  ms_file_id :: string
  ms_snapshot_path :: string
  ms_content_hash :: string
  ms_size_bytes :: int

record snapshot_materialization =
  sm_snapshot_plan :: snapshot_plan
  sm_files :: "materialized_snapshot list"

record materialized_blob =
  mb_file_id :: string
  mb_blob_id :: string
  mb_snapshot_path :: string
  mb_blob_staging_path :: string
  mb_content_hash :: string
  mb_plaintext_size :: int
  mb_encrypted_size :: int

record blob_materialization =
  bm_snapshot_plan :: snapshot_plan
  bm_files :: "materialized_blob list"

record snapshot_entry =
  se_file_id :: string
  se_path :: string
  se_type :: string
  se_content_hash :: string
  se_blob_id :: string
  se_plaintext_size :: int
  se_encrypted_size :: int
  se_mtime :: int
  se_mime_type :: "string option"
  se_snapshot_path :: string
  se_blob_staging_path :: string

record snapshot_table =
  st_vault_id :: string
  st_base_revision :: int
  st_created_at :: int
  st_entries :: "snapshot_entry list"

definition snapshot_table_entry ::
  "(string \<Rightarrow> materialized_snapshot option) \<Rightarrow> (string \<Rightarrow> materialized_blob option)
     \<Rightarrow> snapshot_file \<Rightarrow> snapshot_entry result" where
  "snapshot_table_entry snapshots blobs f =
     (case snapshots (sf_file_id f) of
        None \<Rightarrow> Inl (KeyError (''materialized snapshot not found for file_id: '' @ sf_file_id f))
      | Some s \<Rightarrow> (case blobs (sf_file_id f) of
        None \<Rightarrow> Inl (KeyError (''materialized blob staging not found for file_id: '' @ sf_file_id f))
      | Some b \<Rightarrow> validate
         [(ms_content_hash s = sf_content_hash f,
           ''materialized snapshot hash mismatch for file_id '' @ sf_file_id f),
          (ms_size_bytes s = sf_size f,
           ''materialized snapshot size mismatch for file_id '' @ sf_file_id f),
          (mb_blob_id b = sf_blob_id f,
           ''materialized blob id mismatch for file_id '' @ sf_file_id f),
          (mb_content_hash b = sf_content_hash f,
           ''materialized blob hash mismatch for file_id '' @ sf_file_id f),
          (mb_plaintext_size b = sf_size f,
           ''materialized blob plaintext size mismatch for file_id '' @ sf_file_id f),
          (mb_snapshot_path b = ms_snapshot_path s,
           ''materialized snapshot path mismatch for file_id '' @ sf_file_id f)]
         \<lparr>se_file_id = sf_file_id f, se_path = sf_path f, se_type = sf_type f,
          se_content_hash = sf_content_hash f, se_blob_id = sf_blob_id f,
          se_plaintext_size = sf_size f, se_encrypted_size = mb_encrypted_size b,
          se_mtime = sf_mtime f, se_mime_type = sf_mime_type f,
          se_snapshot_path = ms_snapshot_path s,
          se_blob_staging_path = mb_blob_staging_path b\<rparr>))"

definition build_commit_snapshot_table ::
  "snapshot_plan \<Rightarrow> snapshot_materialization \<Rightarrow> blob_materialization \<Rightarrow> snapshot_table result" where
  "build_commit_snapshot_table p sm bm =
     (if sm_snapshot_plan sm \<noteq> p
      then Inl (ValueError ''snapshot materialization result does not match snapshot plan'')
      else if bm_snapshot_plan bm \<noteq> p
      then Inl (ValueError ''blob staging materialization result does not match snapshot plan'')
      else rbind (mapM (snapshot_table_entry (dict_of ms_file_id (sm_files sm))
                    (dict_of mb_file_id (bm_files bm))) (sp_files p)) (\<lambda>entries.
        Inr \<lparr>st_vault_id = sp_vault_id p, st_base_revision = sp_base_revision p,
          st_created_at = sp_created_at p, st_entries = entries\<rparr>))"

definition build_blob_check_request :: "snapshot_table \<Rightarrow> string list" where
  "build_blob_check_request st = sorted_set (map se_blob_id (st_entries st))"

record blob_check =
  bc_requested_blob_ids :: "string list"
  bc_existing_blob_ids :: "string list"
  bc_missing_blob_ids :: "string list"

definition resolve_blob_check_result ::
  "snapshot_table \<Rightarrow> string list \<Rightarrow> string list \<Rightarrow> blob_check result" where
  "resolve_blob_check_result st existing missing =
     (let requested = sorted_set (map se_blob_id (st_entries st));
          unknown = filter (\<lambda>b. b \<notin> set requested) (sorted_set (existing @ missing));
          overlapping = filter (\<lambda>b. b \<in> set missing) (sorted_set existing);
          unresolved = filter (\<lambda>b. b \<notin> set existing \<and> b \<notin> set missing) requested in
      validate
        [(unknown = [], ''blob check response contains unknown blob_ids: '' @ join '', '' unknown),
         (overlapping = [],
          ''blob check response contains overlapping blob_ids: '' @ join '', '' overlapping),
         (unresolved = [],
          ''blob check response does not cover requested blob_ids: '' @ join '', '' unresolved)]
        \<lparr>bc_requested_blob_ids = requested, bc_existing_blob_ids = sorted_set existing,
         bc_missing_blob_ids = sorted_set missing\<rparr>)"

record upload_entry =
  ue_blob_id :: string
  ue_content_hash :: string
  ue_encrypted_size :: int
  ue_blob_staging_path :: string
  ue_file_ids :: "string list"

record upload_plan =
  up_vault_id :: string
  up_entries :: "upload_entry list"

text \<open>The dict of planned uploads is the list of its values; a later entry of a blob appends its
  file to the planned one.\<close>

definition add_upload :: "snapshot_entry \<Rightarrow> upload_entry list \<Rightarrow> upload_entry list result" where
  "add_upload e us = (case find (\<lambda>u. ue_blob_id u = se_blob_id e) us of
     None \<Rightarrow> Inr (us @ [\<lparr>ue_blob_id = se_blob_id e, ue_content_hash = se_content_hash e,
       ue_encrypted_size = se_encrypted_size e, ue_blob_staging_path = se_blob_staging_path e,
       ue_file_ids = [se_file_id e]\<rparr>])
   | Some existing \<Rightarrow> validate
       [(ue_content_hash existing = se_content_hash e,
         ''blob upload plan content hash mismatch for blob_id '' @ se_blob_id e),
        (ue_encrypted_size existing = se_encrypted_size e,
         ''blob upload plan encrypted size mismatch for blob_id '' @ se_blob_id e),
        (ue_blob_staging_path existing = se_blob_staging_path e,
         ''blob upload plan staging path mismatch for blob_id '' @ se_blob_id e)]
       (map (\<lambda>u. if ue_blob_id u = se_blob_id e
                  then u\<lparr>ue_file_ids := ue_file_ids u @ [se_file_id e]\<rparr> else u) us))"

fun collect_uploads ::
  "string list \<Rightarrow> snapshot_entry list \<Rightarrow> upload_entry list \<Rightarrow> upload_entry list result" where
  "collect_uploads missing [] us = Inr us"
| "collect_uploads missing (e # es) us =
     (if se_blob_id e \<notin> set missing then collect_uploads missing es us
      else rbind (add_upload e us) (collect_uploads missing es))"

definition build_blob_upload_plan :: "snapshot_table \<Rightarrow> string list \<Rightarrow> upload_plan result" where
  "build_blob_upload_plan st missing =
     (let unknown = filter (\<lambda>b. b \<notin> se_blob_id ` set (st_entries st)) (sorted_set missing) in
      if unknown \<noteq> []
      then Inl (ValueError (''missing blob_ids are not present in commit snapshot table: ''
             @ join '', '' unknown))
      else rbind (collect_uploads missing (st_entries st) []) (\<lambda>us.
        Inr \<lparr>up_vault_id = st_vault_id st, up_entries = sort_key ue_blob_id us\<rparr>))"

section \<open>The commit request\<close>

record submission =
  su_manifest :: manifest
  su_intent_manifest_hash :: string
  su_journal :: commit_journal
  su_state :: vault_state
  su_snapshot_plan :: "snapshot_plan option"
  su_file_version_directives :: "version_directive list"

record commit_request =
  rq_commit_intent_id :: string
  rq_base_revision :: int
  rq_created_by_device :: string
  rq_intent_manifest_hash :: string
  rq_intent_delete_seq_upper_bound :: "int option"
  rq_manifest :: manifest
  rq_blob_refs :: "(string \<times> string) list"
  rq_file_version_directives :: "version_directive list"

definition check_manifest_entry ::
  "(string \<Rightarrow> snapshot_entry option) \<Rightarrow> manifest_file \<Rightarrow> unit result" where
  "check_manifest_entry entries f = (case entries (mf_file_id f) of
     None \<Rightarrow> Inl (KeyError (mf_file_id f))
   | Some e \<Rightarrow> validate
      [(mf_path f = se_path e \<and> mf_type f = se_type e,
        ''commit submission manifest structure mismatch for file_id '' @ mf_file_id f),
       (mf_content_hash f = se_content_hash e,
        ''commit submission manifest content hash mismatch for file_id '' @ mf_file_id f),
       (mf_blob_id f = se_blob_id e,
        ''commit submission manifest blob id mismatch for file_id '' @ mf_file_id f),
       (mf_size f = se_plaintext_size e,
        ''commit submission manifest size mismatch for file_id '' @ mf_file_id f),
       (mf_mtime f = se_mtime e,
        ''commit submission manifest mtime mismatch for file_id '' @ mf_file_id f),
       (mf_mime_type f = se_mime_type e,
        ''commit submission manifest mime_type mismatch for file_id '' @ mf_file_id f)] ())"

text \<open>The dict of manifest files keeps the last entry of an identifier at the place of its first.\<close>

definition dict_items :: "('a \<Rightarrow> 'k) \<Rightarrow> 'a list \<Rightarrow> 'a list" where
  "dict_items k xs = List.map_filter (dict_of k xs) (rev (remdups (rev (map k xs))))"

definition build_create_commit_request_payload ::
  "submission \<Rightarrow> snapshot_table \<Rightarrow> commit_request result" where
  "build_create_commit_request_payload su st =
     (let m = su_manifest su; j = su_journal su in
      rbind (validate
        [(mn_vault_id m = st_vault_id st,
          ''snapshot table vault_id does not match commit submission manifest''),
         (cj_base_revision j = st_base_revision st,
          ''snapshot table base_revision does not match commit journal''),
         (cj_created_at j = st_created_at st,
          ''snapshot table created_at does not match commit journal''),
         (mn_base_revision m = cj_base_revision j,
          ''commit manifest base_revision does not match commit journal''),
         (mf_file_id ` set (mn_files m) = se_file_id ` set (st_entries st),
          ''commit submission manifest files do not match snapshot table entries'')] ()) (\<lambda>_.
      rbind (mapM (check_manifest_entry (dict_of se_file_id (st_entries st)))
               (dict_items mf_file_id (mn_files m))) (\<lambda>_.
      Inr \<lparr>rq_commit_intent_id = cj_commit_intent_id j, rq_base_revision = cj_base_revision j,
        rq_created_by_device = cj_created_by_device j,
        rq_intent_manifest_hash = su_intent_manifest_hash su,
        rq_intent_delete_seq_upper_bound = cj_intent_delete_seq_upper_bound j,
        rq_manifest = m,
        rq_blob_refs = map (\<lambda>e. (se_blob_id e, se_file_id e))
          (sort_key (\<lambda>e. (se_file_id e, se_blob_id e)) (st_entries st)),
        rq_file_version_directives = su_file_version_directives su\<rparr>)))"

record network_plan =
  np_request :: commit_request
  np_blob_check :: blob_check
  np_blob_uploads :: upload_plan

definition build_commit_network_plan ::
  "submission \<Rightarrow> snapshot_table \<Rightarrow> blob_check \<Rightarrow> network_plan result" where
  "build_commit_network_plan su st bc =
     (if bc_requested_blob_ids bc \<noteq> sorted_set (map se_blob_id (st_entries st))
      then Inl (ValueError ''blob check result does not match snapshot table blob_ids'')
      else rbind (build_create_commit_request_payload su st) (\<lambda>rq.
        rbind (build_blob_upload_plan st (bc_missing_blob_ids bc)) (\<lambda>up.
        Inr \<lparr>np_request = rq, np_blob_check = bc, np_blob_uploads = up\<rparr>)))"

lemma list_all2_in1: "list_all2 P xs ys \<Longrightarrow> x \<in> set xs \<Longrightarrow> \<exists>y \<in> set ys. P x y"
  by (induction rule: list_all2_induct) auto

lemma list_all2_in2: "list_all2 P xs ys \<Longrightarrow> y \<in> set ys \<Longrightarrow> \<exists>x \<in> set xs. P x y"
  by (induction rule: list_all2_induct) auto

section \<open>What a commit manifest contains\<close>

lemma collect_active_paths_ok:
  assumes "collect_active_paths nfc seen rs = Inr seen'"
  shows "distinct (map (nfc \<circ> fr_path) (filter (\<lambda>r. fr_status r = ''active'') rs))
    \<and> (\<forall>r \<in> set rs. fr_status r = ''active'' \<longrightarrow> nfc (fr_path r) \<notin> dom seen)
    \<and> dom seen' = dom seen \<union> (nfc \<circ> fr_path) ` {r \<in> set rs. fr_status r = ''active''}"
  using assms
proof (induction rs arbitrary: seen)
  case (Cons r rs)
  show ?case
  proof (cases "fr_status r = ''active''")
    case True
    with Cons.prems have n: "seen (nfc (fr_path r)) = None"
      and c: "collect_active_paths nfc (seen(nfc (fr_path r) \<mapsto> fr_file_id r)) rs = Inr seen'"
      by (auto split: option.splits)
    from Cons.IH [OF c] have d: "distinct (map (nfc \<circ> fr_path) (filter (\<lambda>r. fr_status r = ''active'') rs))"
      and u: "\<forall>q \<in> set rs. fr_status q = ''active'' \<longrightarrow> nfc (fr_path q) \<noteq> nfc (fr_path r) \<and> nfc (fr_path q) \<notin> dom seen"
      and e: "dom seen' = insert (nfc (fr_path r)) (dom seen) \<union> (nfc \<circ> fr_path) ` {q \<in> set rs. fr_status q = ''active''}"
      by (auto simp: comp_def)
    have "{q \<in> set (r # rs). fr_status q = ''active''} = insert r {q \<in> set rs. fr_status q = ''active''}"
      using True by auto
    moreover have "distinct (map (nfc \<circ> fr_path) (filter (\<lambda>r. fr_status r = ''active'') (r # rs)))"
      using d u True by (auto simp: image_iff)
    ultimately show ?thesis using u n e by (auto simp: domIff comp_def)
  next
    case False
    with Cons.prems have "collect_active_paths nfc seen rs = Inr seen'" by simp
    from Cons.IH [OF this] False show ?thesis by auto
  qed
qed simp

lemma collect_active_paths_total:
  assumes "distinct (map (nfc \<circ> fr_path) (filter (\<lambda>r. fr_status r = ''active'') rs))"
    and "\<forall>r \<in> set rs. fr_status r = ''active'' \<longrightarrow> seen (nfc (fr_path r)) = None"
  shows "\<exists>seen'. collect_active_paths nfc seen rs = Inr seen'"
  using assms
proof (induction rs arbitrary: seen)
  case (Cons r rs)
  show ?case
  proof (cases "fr_status r = ''active''")
    case True
    then have "\<exists>seen'. collect_active_paths nfc (seen(nfc (fr_path r) \<mapsto> fr_file_id r)) rs = Inr seen'"
      using Cons.prems by (intro Cons.IH) (auto simp: image_iff)
    with True Cons.prems show ?thesis by simp
  next
    case False
    with Cons show ?thesis by simp
  qed
qed simp

definition commit_paths_ok :: "(string \<Rightarrow> string) \<Rightarrow> filemap_document \<Rightarrow> bool" where
  "commit_paths_ok nfc d \<longleftrightarrow> distinct (map (nfc \<circ> fr_path) (active_files d))
     \<and> (\<forall>r \<in> set (fd_files d). fr_status r = ''conflict_copy''
          \<longrightarrow> nfc (fr_path r) \<notin> (nfc \<circ> fr_path) ` set (active_files d))"

lemma validate_paths_iff:
  "(\<exists>u. validate_commit_document_paths nfc d = Inr u) \<longleftrightarrow> commit_paths_ok nfc d"
proof (cases "collect_active_paths nfc (\<lambda>_. None) (fd_files d)")
  case (Inl e)
  then have "\<not> distinct (map (nfc \<circ> fr_path) (active_files d))"
    using collect_active_paths_total [of nfc "fd_files d" "\<lambda>_. None"]
    by (auto simp: active_files_def)
  with Inl show ?thesis by (simp add: validate_commit_document_paths_def commit_paths_ok_def)
next
  case (Inr seen)
  from collect_active_paths_ok [OF this]
  have d: "distinct (map (nfc \<circ> fr_path) (active_files d))"
    and s: "dom seen = (nfc \<circ> fr_path) ` set (active_files d)"
    by (auto simp: active_files_def)
  let ?P = "\<lambda>r. fr_status r = ''conflict_copy'' \<and> seen (nfc (fr_path r)) \<noteq> None"
  have "(\<exists>u. validate_commit_document_paths nfc d = Inr u) \<longleftrightarrow> find ?P (fd_files d) = None"
    by (simp add: validate_commit_document_paths_def Inr split: option.splits)
  also have "\<dots> \<longleftrightarrow> (\<forall>r \<in> set (fd_files d). \<not> ?P r)" by (rule find_eq_None)
  also have "\<dots> \<longleftrightarrow> (\<forall>r \<in> set (fd_files d). fr_status r = ''conflict_copy''
      \<longrightarrow> nfc (fr_path r) \<notin> dom seen)" by blast
  finally show ?thesis using d s by (simp add: commit_paths_ok_def)
qed

lemma validate_paths_eq_Inr [result_simps]:
  "validate_commit_document_paths nfc d = Inr u \<longleftrightarrow> commit_paths_ok nfc d"
  by (metis (full_types) validate_paths_iff old.unit.exhaust)

lemma assert_tombstones_eq_Inr [result_simps]:
  "assert_tombstones d ts = Inr u \<longleftrightarrow>
     (\<forall>r \<in> set (fd_files d). fr_status r = ''deleted'' \<longrightarrow> fr_file_id r \<in> tb_file_id ` set ts)"
  by (auto simp: assert_tombstones_def missing_tombstones_def Let_def filter_empty_conv)

lemma entry_fields:
  "build_manifest_file_entry r = Inr e \<Longrightarrow>
     mf_file_id e = fr_file_id r \<and> mf_path e = fr_path r \<and> mf_type e = fr_type r
     \<and> Some (mf_content_hash e) = fr_content_hash r \<and> wf_manifest_file e \<and> mf_meta e = None"
  by (auto simp: build_manifest_file_entry_def manifest_file_meta_def Let_def result_simps
      split: option.splits)

lemma freeze_fields:
  "freeze_file r = Inr f \<Longrightarrow> sf_file_id f = fr_file_id r \<and> sf_path f = fr_path r
     \<and> sf_type f = fr_type r \<and> derive_snapshot_source_version r = Inr (sf_source_version_token f)"
  by (auto simp: freeze_file_def result_simps)

lemma entry_of_frozen:
  assumes "freeze_file r = Inr f"
  shows "build_manifest_file_entry_from_snapshot f = build_manifest_file_entry r"
proof -
  obtain e where e: "build_manifest_file_entry r = Inr e" and f: "sf_file_id f = fr_file_id r"
    "sf_path f = fr_path r" "sf_type f = fr_type r" "sf_content_hash f = mf_content_hash e"
    "sf_blob_id f = mf_blob_id e" "sf_size f = mf_size e" "sf_mtime f = mf_mtime e"
    "sf_mime_type f = mf_mime_type e"
    using assms by (auto simp: freeze_file_def result_simps)
  have "mf_file_id e = fr_file_id r" "mf_path e = fr_path r" "mf_type e = fr_type r"
    "mf_meta e = None" "wf_manifest_file e"
    using entry_fields [OF e] by auto
  then have "\<lparr>mf_file_id = fr_file_id r, mf_path = fr_path r, mf_type = fr_type r,
      mf_content_hash = mf_content_hash e, mf_blob_id = mf_blob_id e, mf_size = mf_size e,
      mf_mtime = mf_mtime e, mf_mime_type = mf_mime_type e, mf_meta = None\<rparr> = e"
    by (cases e) simp
  then have "build_manifest_file_entry_from_snapshot f = ManifestFileEntry e"
    by (simp add: build_manifest_file_entry_from_snapshot_def f)
  with e \<open>wf_manifest_file e\<close> show ?thesis by (simp add: ManifestFileEntry_eq_Inr)
qed

lemma active_sorted: "set (filter (\<lambda>r. fr_status r = ''active'') (fd_sorted_files d)) = set (active_files d)"
  by (auto simp: active_files_def)

text \<open>A plan that was built froze every active file of the document.\<close>

lemma plan_frozen:
  assumes "build_content_snapshot_plan nfc d b t = Inr p"
    and "distinct (map fr_file_id (active_files d))"
  shows "sp_vault_id p = fd_vault_id d" "sp_base_revision p = b" "sp_created_at p = t"
    and "sf_file_id ` set (sp_files p) = fr_file_id ` set (active_files d)"
    and "distinct (map sf_file_id (sp_files p))"
    and "r \<in> set (active_files d) \<Longrightarrow>
      \<exists>f. dict_of sf_file_id (sp_files p) (fr_file_id r) = Some f \<and> freeze_file r = Inr f"
    and "f \<in> set (sp_files p) \<Longrightarrow> \<exists>r \<in> set (active_files d). freeze_file r = Inr f"
proof -
  let ?as = "filter (\<lambda>r. fr_status r = ''active'') (fd_sorted_files d)"
  have l: "list_all2 (\<lambda>r f. freeze_file r = Inr f) ?as (sp_files p)"
    and p: "sp_vault_id p = fd_vault_id d" "sp_base_revision p = b" "sp_created_at p = t"
    using assms(1) by (auto simp: build_content_snapshot_plan_def result_simps mapM_eq_Inr)
  have ids: "map sf_file_id (sp_files p) = map fr_file_id ?as"
    using l by (induction rule: list_all2_induct) (auto dest: freeze_fields)
  have "filter (\<lambda>r. fr_status r = ''active'') (fd_sorted_files d)
      = sort_key (\<lambda>r. (fr_path r, fr_file_id r)) (active_files d)"
    by (simp add: fd_sorted_files_def active_files_def filter_sort)
  then have d: "distinct (map sf_file_id (sp_files p))" using ids assms(2) by simp
  have "set (map sf_file_id (sp_files p)) = set (map fr_file_id ?as)" using ids by simp
  then show "sf_file_id ` set (sp_files p) = fr_file_id ` set (active_files d)"
    by (simp add: active_files_def)
  show "distinct (map sf_file_id (sp_files p))" by (rule d)
  show "\<exists>f. dict_of sf_file_id (sp_files p) (fr_file_id r) = Some f \<and> freeze_file r = Inr f"
    if "r \<in> set (active_files d)"
  proof -
    have "r \<in> set ?as" using that active_sorted by auto
    then obtain f where "f \<in> set (sp_files p)" "freeze_file r = Inr f"
      using list_all2_in1 [OF l \<open>r \<in> set ?as\<close>] by blast
    then show ?thesis using freeze_fields by (auto simp: dict_of_distinct [OF d])
  qed
  show "\<exists>r \<in> set (active_files d). freeze_file r = Inr f" if "f \<in> set (sp_files p)"
  proof -
    obtain r where "r \<in> set ?as" "freeze_file r = Inr f"
      using list_all2_in2 [OF l \<open>f \<in> set (sp_files p)\<close>] by blast
    then show ?thesis using active_sorted by auto
  qed
qed (use assms in \<open>auto simp: build_content_snapshot_plan_def result_simps\<close>)

lemma plan_covers:
  assumes "build_content_snapshot_plan nfc d b t = Inr p"
    and "distinct (map fr_file_id (active_files d))"
  shows "assert_snapshot_plan_covers_document p d = Inr (dict_of sf_file_id (sp_files p))"
proof -
  have "find (\<lambda>r. case dict_of sf_file_id (sp_files p) (fr_file_id r) of None \<Rightarrow> True
      | Some f \<Rightarrow> sf_path f \<noteq> fr_path r \<or> sf_type f \<noteq> fr_type r) (active_files d) = None"
    unfolding find_eq_None using plan_frozen(6) [OF assms] by (fastforce dest: freeze_fields)
  then show ?thesis
    using plan_frozen(1,4) [OF assms] by (simp add: assert_snapshot_plan_covers_document_def Let_def)
qed


lemma manifest_from_plan:
  assumes "build_content_snapshot_plan nfc d b t = Inr p"
    and "distinct (map fr_file_id (active_files d))"
  shows "build_commit_manifest_from_snapshot_plan nfc d p ts base dev at
    = build_commit_manifest nfc d ts base dev at"
proof -
  have "mapM (entry_from_plan (dict_of sf_file_id (sp_files p))) (active_files d)
      = mapM build_manifest_file_entry (active_files d)"
  proof (rule mapM_cong [OF refl])
    fix r assume "r \<in> set (active_files d)"
    then obtain f where "dict_of sf_file_id (sp_files p) (fr_file_id r) = Some f"
      "freeze_file r = Inr f"
      using plan_frozen(6) [OF assms] by blast
    then show "entry_from_plan (dict_of sf_file_id (sp_files p)) r = build_manifest_file_entry r"
      by (simp add: entry_from_plan_def entry_of_frozen)
  qed
  then show ?thesis
    by (simp add: build_commit_manifest_from_snapshot_plan_def build_commit_manifest_def
        plan_covers [OF assms])
qed

lemma drifted_empty:
  assumes "\<forall>f \<in> set fs. \<exists>r. cur (sf_file_id f) = Some r \<and> fr_path r = sf_path f
      \<and> fr_type r = sf_type f \<and> derive_snapshot_source_version r = Inr (sf_source_version_token f)"
  shows "drifted cur fs = Inr []"
  using assms by (induction fs) auto

lemma drifted_sound:
  assumes "drifted cur fs = Inr ids" "f \<in> set fs"
  shows "sf_file_id f \<in> set ids \<or> (\<exists>r. cur (sf_file_id f) = Some r \<and> fr_path r = sf_path f
      \<and> fr_type r = sf_type f \<and> derive_snapshot_source_version r = Inr (sf_source_version_token f))"
  using assms
proof (induction fs arbitrary: ids)
  case (Cons g fs)
  then show ?case
    by (auto simp: result_simps split: option.splits if_splits)
qed simp

section \<open>Properties\<close>

text \<open>C30: Submitting through a frozen snapshot plan sends the same manifest as building it from
  the file map directly: when the plan of a document with unique active identifiers was built,
  the two constructions agree on every input, results and errors alike, so freezing the content
  does not change what is committed; and the fresh plan shows no drift.\<close>

theorem snapshot_plan_faithful:
  assumes "build_content_snapshot_plan nfc d b t = Inr p"
    and "distinct (map fr_file_id (active_files d))"
  shows "build_commit_manifest_from_snapshot_plan nfc d p ts base dev at
      = build_commit_manifest nfc d ts base dev at
    \<and> detect_content_snapshot_drift p d = Inr []"
proof -
  have "\<exists>r. current_active d (sf_file_id f) = Some r \<and> fr_path r = sf_path f
      \<and> fr_type r = sf_type f \<and> derive_snapshot_source_version r = Inr (sf_source_version_token f)"
    if f: "f \<in> set (sp_files p)" for f
  proof -
    obtain r where "r \<in> set (active_files d)" "freeze_file r = Inr f"
      using plan_frozen(7) [OF assms f] by blast
    moreover from this have "current_active d (sf_file_id f) = Some r"
      using freeze_fields [of r f] by (simp add: current_active_def dict_of_distinct [OF assms(2)])
    ultimately show ?thesis using freeze_fields [of r f] by auto
  qed
  then have "detect_content_snapshot_drift p d = Inr []"
    unfolding detect_content_snapshot_drift_def by (intro drifted_empty) blast
  then show ?thesis using manifest_from_plan [OF assms] by simp
qed

definition sample_active :: "string \<Rightarrow> string \<Rightarrow> string \<Rightarrow> file_record" where
  "sample_active i p b = \<lparr>fr_file_id = i, fr_path = p, fr_type = ''note'', fr_status = ''active'',
     fr_updated_at = 1, fr_content_hash = Some (''h-'' @ i), fr_last_known_revision = None,
     fr_conflict_source_file_id = None,
     fr_meta = Some [(''blob_id'', JStr b), (''size'', JInt 3), (''mtime'', JInt 9)]\<rparr>"

definition commit_document :: filemap_document where
  "commit_document = \<lparr>fd_vault_id = ''v'', fd_updated_at = 1,
     fd_files = [sample_active ''f2'' ''b.md'' ''blob2'', sample_active ''f1'' ''a.md'' ''blob1''],
     fd_schema_version = ''v1'', fd_meta = None\<rparr>"

theorem snapshot_plan_faithful_witness:
  "\<exists>p. build_content_snapshot_plan id commit_document 3 10 = Inr p
    \<and> build_commit_manifest_from_snapshot_plan id commit_document p [] 3 ''dev'' 10
      = build_commit_manifest id commit_document [] 3 ''dev'' 10
    \<and> \<not> isl (build_commit_manifest id commit_document [] 3 ''dev'' 10)"
proof -
  have "\<not> isl (build_content_snapshot_plan id commit_document 3 10)" by code_simp
  then obtain p where p: "build_content_snapshot_plan id commit_document 3 10 = Inr p"
    by (auto dest: not_islD)
  have d: "distinct (map fr_file_id (active_files commit_document))" by code_simp
  have "\<not> isl (build_commit_manifest id commit_document [] 3 ''dev'' 10)" by code_simp
  with p snapshot_plan_faithful [OF p d] show ?thesis by blast
qed

text \<open>A commit manifest describes exactly the active files: when it is built, its entries are
  the active records in order with their identifier, path, type and hash, no two of them have
  the same path after normalization, every deleted record has a tombstone, the tombstones are
  the ledger's, and the revision is the placeholder 0 over the given base.\<close>

lemma commit_manifest_describes_active_files:
  assumes "build_commit_manifest nfc d ts base dev at = Inr m"
  shows "map (\<lambda>e. (mf_file_id e, mf_path e, mf_type e, Some (mf_content_hash e))) (mn_files m)
      = map (\<lambda>r. (fr_file_id r, fr_path r, fr_type r, fr_content_hash r)) (active_files d)
    \<and> distinct (map (nfc \<circ> mf_path) (mn_files m))
    \<and> (\<forall>r \<in> set (fd_files d). fr_status r = ''deleted'' \<longrightarrow> fr_file_id r \<in> tb_file_id ` set (mn_tombstones m))
    \<and> mn_tombstones m = ts \<and> mn_vault_id m = fd_vault_id d
    \<and> mn_revision m = 0 \<and> mn_base_revision m = base \<and> mn_created_by_device m = dev
    \<and> list_all wf_manifest_file (mn_files m)"
proof -
  obtain es where es: "list_all2 (\<lambda>r e. build_manifest_file_entry r = Inr e) (active_files d) es"
    and m: "mn_files m = es" "mn_tombstones m = ts" "mn_vault_id m = fd_vault_id d"
      "mn_revision m = 0" "mn_base_revision m = base" "mn_created_by_device m = dev"
    and p: "commit_paths_ok nfc d"
    and t: "\<forall>r \<in> set (fd_files d). fr_status r = ''deleted'' \<longrightarrow> fr_file_id r \<in> tb_file_id ` set ts"
    using assms
    by (auto simp: build_commit_manifest_def result_simps mapM_eq_Inr pending_manifest_def)
  have "map (\<lambda>e. (mf_file_id e, mf_path e, mf_type e, Some (mf_content_hash e))) es
      = map (\<lambda>r. (fr_file_id r, fr_path r, fr_type r, fr_content_hash r)) (active_files d)"
    using es by (induction rule: list_all2_induct) (auto dest: entry_fields)
  moreover have "map (nfc \<circ> mf_path) es = map (nfc \<circ> fr_path) (active_files d)"
    using es by (induction rule: list_all2_induct) (auto dest: entry_fields)
  moreover have "list_all wf_manifest_file es"
    using es by (induction rule: list_all2_induct) (auto dest: entry_fields)
  moreover have "distinct (map (nfc \<circ> fr_path) (active_files d))"
    using p by (simp add: commit_paths_ok_def)
  ultimately show ?thesis using m t by simp
qed

theorem commit_manifest_describes_active_files_witness:
  "\<exists>m. build_commit_manifest id commit_document [] 3 ''dev'' 10 = Inr m
    \<and> map mf_file_id (mn_files m) = [''f2'', ''f1''] \<and> mn_base_revision m = 3"
proof -
  have "\<not> isl (build_commit_manifest id commit_document [] 3 ''dev'' 10)" by code_simp
  then obtain m where m: "build_commit_manifest id commit_document [] 3 ''dev'' 10 = Inr m"
    by (auto dest: not_islD)
  from commit_manifest_describes_active_files [OF m]
  have "map fst (map (\<lambda>e. (mf_file_id e, mf_path e, mf_type e, Some (mf_content_hash e))) (mn_files m))
      = map fst (map (\<lambda>r. (fr_file_id r, fr_path r, fr_type r, fr_content_hash r)) (active_files commit_document))"
    "mn_base_revision m = 3" by auto
  moreover have "map fr_file_id (active_files commit_document) = [''f2'', ''f1'']" by code_simp
  ultimately show ?thesis using m by (auto simp: comp_def)
qed

text \<open>Drift detection is exact for what it watches: when it answers, every frozen file it does
  not report is still an active file of the document with the same path, type and source version
  token; so an empty answer means that nothing the plan froze has changed.\<close>

lemma unreported_files_unchanged:
  assumes "detect_content_snapshot_drift p d = Inr ids" "f \<in> set (sp_files p)"
    and "sf_file_id f \<notin> set ids"
  shows "\<exists>r. current_active d (sf_file_id f) = Some r \<and> fr_path r = sf_path f
      \<and> fr_type r = sf_type f \<and> derive_snapshot_source_version r = Inr (sf_source_version_token f)"
  using drifted_sound [OF assms(1) [unfolded detect_content_snapshot_drift_def] assms(2)] assms(3)
  by blast

theorem unreported_files_unchanged_witness:
  "case build_content_snapshot_plan id commit_document 3 10 of
     Inl e \<Rightarrow> False
   | Inr p \<Rightarrow> current_active commit_document (sf_file_id (hd (sp_files p))) \<noteq> None"
proof -
  have "(case build_content_snapshot_plan id commit_document 3 10 of Inl e \<Rightarrow> False
      | Inr p \<Rightarrow> sp_files p \<noteq> [] \<and> detect_content_snapshot_drift p commit_document = Inr [])"
    by code_simp
  then obtain p where p: "build_content_snapshot_plan id commit_document 3 10 = Inr p"
    "sp_files p \<noteq> []" "detect_content_snapshot_drift p commit_document = Inr []"
    by (auto split: sum.splits)
  from unreported_files_unchanged [OF p(3), of "hd (sp_files p)"] p show ?thesis by auto
qed

section \<open>Blobs of a commit\<close>

text \<open>The answer to a blob check is accepted exactly when the two lists of blobs, existing and
  missing, partition the blobs of the snapshot table (duplicates aside); the result then holds
  the three sets sorted. An answer that names an unknown blob, names one twice over, or leaves
  one out raises.\<close>

lemma blob_check_partition:
  "(\<exists>bc. resolve_blob_check_result st existing missing = Inr bc
      \<and> bc_requested_blob_ids bc = sorted_set (map se_blob_id (st_entries st))
      \<and> bc_existing_blob_ids bc = sorted_set existing
      \<and> bc_missing_blob_ids bc = sorted_set missing)
   = (set existing \<inter> set missing = {}
      \<and> set existing \<union> set missing = se_blob_id ` set (st_entries st))"
  (is "?l = ?r")
proof -
  have "?l \<longleftrightarrow> (\<forall>b \<in> set existing \<union> set missing. b \<in> se_blob_id ` set (st_entries st))
      \<and> (\<forall>b \<in> set existing. b \<notin> set missing)
      \<and> (\<forall>b \<in> se_blob_id ` set (st_entries st). b \<in> set existing \<or> b \<in> set missing)"
    by (auto simp: resolve_blob_check_result_def Let_def result_simps filter_empty_conv)
  also have "\<dots> \<longleftrightarrow> ?r" by blast
  finally show ?thesis .
qed

text \<open>The planned uploads of the entries seen so far.\<close>

definition planned :: "string list \<Rightarrow> snapshot_entry list \<Rightarrow> upload_entry list \<Rightarrow> bool" where
  "planned missing es us \<longleftrightarrow> distinct (map ue_blob_id us)
     \<and> ue_blob_id ` set us = se_blob_id ` set es \<inter> set missing
     \<and> (\<forall>u \<in> set us. ue_file_ids u = map se_file_id (filter (\<lambda>e. se_blob_id e = ue_blob_id u) es)
          \<and> (\<forall>e \<in> set es. se_blob_id e = ue_blob_id u \<longrightarrow> se_content_hash e = ue_content_hash u
               \<and> se_encrypted_size e = ue_encrypted_size u
               \<and> se_blob_staging_path e = ue_blob_staging_path u))"

lemma planned_skip:
  "planned missing es us \<Longrightarrow> se_blob_id e \<notin> set missing \<Longrightarrow> planned missing (es @ [e]) us"
proof -
  assume p: "planned missing es us" and e: "se_blob_id e \<notin> set missing"
  have "ue_blob_id u \<in> set missing" if "u \<in> set us" for u
  proof -
    have "ue_blob_id u \<in> ue_blob_id ` set us" using that by simp
    then show ?thesis using p by (simp add: planned_def)
  qed
  with p e show ?thesis by (auto simp: planned_def)
qed

lemma planned_add:
  assumes p: "planned missing es us" and m: "se_blob_id e \<in> set missing"
    and a: "add_upload e us = Inr us'"
  shows "planned missing (es @ [e]) us'"
proof (cases "find (\<lambda>u. ue_blob_id u = se_blob_id e) us")
  case None
  then have n: "se_blob_id e \<notin> ue_blob_id ` set us" by (auto simp: find_None_iff)
  let ?u = "\<lparr>ue_blob_id = se_blob_id e, ue_content_hash = se_content_hash e,
       ue_encrypted_size = se_encrypted_size e, ue_blob_staging_path = se_blob_staging_path e,
       ue_file_ids = [se_file_id e]\<rparr>"
  have us': "us' = us @ [?u]" using a None by (simp add: add_upload_def)
  have other: "se_blob_id e' \<noteq> se_blob_id e" if "e' \<in> set es" for e'
  proof
    assume "se_blob_id e' = se_blob_id e"
    then have "se_blob_id e \<in> se_blob_id ` set es \<inter> set missing" using that m by (metis IntI imageI)
    with p n show False by (simp add: planned_def)
  qed
  then have "filter (\<lambda>e'. se_blob_id e' = se_blob_id e) es = []" by (simp add: filter_empty_conv)
  then show ?thesis
    using p m n other unfolding planned_def us' by auto
next
  case (Some x)
  then have x: "x \<in> set us" "ue_blob_id x = se_blob_id e" by (auto simp: find_Some_iff)
  have same: "ue_content_hash x = se_content_hash e" "ue_encrypted_size x = se_encrypted_size e"
      "ue_blob_staging_path x = se_blob_staging_path e"
    and us': "us' = map (\<lambda>u. if ue_blob_id u = se_blob_id e
        then u\<lparr>ue_file_ids := ue_file_ids u @ [se_file_id e]\<rparr> else u) us"
    using a Some by (auto simp: add_upload_def result_simps)
  have only: "u = x" if "u \<in> set us" "ue_blob_id u = se_blob_id e" for u
  proof -
    have "inj_on ue_blob_id (set us)" using p by (simp add: planned_def distinct_map)
    then show ?thesis by (rule inj_onD) (use that x in auto)
  qed
  have ids: "map ue_blob_id us' = map ue_blob_id us" by (auto simp: us')
  then have "ue_blob_id ` set us' = ue_blob_id ` set us" by (metis set_map)
  moreover have "\<forall>u \<in> set us'. ue_file_ids u
        = map se_file_id (filter (\<lambda>e'. se_blob_id e' = ue_blob_id u) (es @ [e]))
      \<and> (\<forall>e' \<in> set (es @ [e]). se_blob_id e' = ue_blob_id u \<longrightarrow> se_content_hash e' = ue_content_hash u
           \<and> se_encrypted_size e' = ue_encrypted_size u
           \<and> se_blob_staging_path e' = ue_blob_staging_path u)"
  proof
    fix u assume "u \<in> set us'"
    then obtain v where v: "v \<in> set us" and u: "u = (if ue_blob_id v = se_blob_id e
        then v\<lparr>ue_file_ids := ue_file_ids v @ [se_file_id e]\<rparr> else v)"
      by (auto simp: us')
    have pv: "ue_file_ids v = map se_file_id (filter (\<lambda>e'. se_blob_id e' = ue_blob_id v) es)"
      "\<forall>e' \<in> set es. se_blob_id e' = ue_blob_id v \<longrightarrow> se_content_hash e' = ue_content_hash v
         \<and> se_encrypted_size e' = ue_encrypted_size v \<and> se_blob_staging_path e' = ue_blob_staging_path v"
      using p v by (auto simp: planned_def)
    show "ue_file_ids u = map se_file_id (filter (\<lambda>e'. se_blob_id e' = ue_blob_id u) (es @ [e]))
      \<and> (\<forall>e' \<in> set (es @ [e]). se_blob_id e' = ue_blob_id u \<longrightarrow> se_content_hash e' = ue_content_hash u
           \<and> se_encrypted_size e' = ue_encrypted_size u
           \<and> se_blob_staging_path e' = ue_blob_staging_path u)"
    proof (cases "ue_blob_id v = se_blob_id e")
      case True
      then have "v = x" using only v by blast
      with True u pv same show ?thesis by simp
    next
      case False
      with u pv show ?thesis by simp
    qed
  qed
  moreover have "se_blob_id e \<in> se_blob_id ` set es"
  proof -
    have "ue_blob_id x \<in> ue_blob_id ` set us" using x(1) by (rule imageI)
    then show ?thesis using x p by (simp add: planned_def)
  qed
  ultimately show ?thesis
    using p m ids unfolding planned_def by (simp add: insert_absorb)
qed

lemma collect_uploads_planned:
  "planned missing es0 us \<Longrightarrow> collect_uploads missing es us = Inr us' \<Longrightarrow>
     planned missing (es0 @ es) us'"
proof (induction es arbitrary: es0 us)
  case (Cons e es)
  show ?case
  proof (cases "se_blob_id e \<in> set missing")
    case True
    then obtain us1 where "add_upload e us = Inr us1" "collect_uploads missing es us1 = Inr us'"
      using Cons.prems(2) by (auto simp: result_simps)
    with Cons.IH [OF planned_add [OF Cons.prems(1) True]] show ?thesis by fastforce
  next
    case False
    with Cons.IH [OF planned_skip [OF Cons.prems(1) False]] Cons.prems(2) show ?thesis by simp
  qed
qed simp

lemma upload_plan_planned:
  assumes "build_blob_upload_plan st missing = Inr up"
  shows "\<exists>us. planned missing (st_entries st) us \<and> up_entries up = sort_key ue_blob_id us
    \<and> set missing \<subseteq> se_blob_id ` set (st_entries st)"
proof -
  obtain us where c: "collect_uploads missing (st_entries st) [] = Inr us"
    and u: "up_entries up = sort_key ue_blob_id us"
    and s: "\<forall>b \<in> set missing. b \<in> se_blob_id ` set (st_entries st)"
    using assms by (auto simp: build_blob_upload_plan_def Let_def result_simps filter_empty_conv)
  have "planned missing ([] @ st_entries st) us"
    by (rule collect_uploads_planned [OF _ c]) (simp add: planned_def)
  with u s show ?thesis by (intro exI [of _ us]) auto
qed

text \<open>The upload plan has exactly one entry per missing blob, sorted by blob id; the entry lists
  the files that use the blob, in order, and agrees with every one of them on the content hash,
  the encrypted size and the staged file, so no missing blob is skipped or uploaded twice and
  two different contents never share a blob id.\<close>

lemma upload_plan_one_entry_per_blob:
  assumes "build_blob_upload_plan st missing = Inr up"
  shows "map ue_blob_id (up_entries up) = sorted_set missing
    \<and> (\<forall>u \<in> set (up_entries up).
         ue_file_ids u = map se_file_id (filter (\<lambda>e. se_blob_id e = ue_blob_id u) (st_entries st))
       \<and> (\<forall>e \<in> set (st_entries st). se_blob_id e = ue_blob_id u \<longrightarrow>
            se_content_hash e = ue_content_hash u \<and> se_encrypted_size e = ue_encrypted_size u
            \<and> se_blob_staging_path e = ue_blob_staging_path u))"
proof -
  obtain us where p: "planned missing (st_entries st) us" and u: "up_entries up = sort_key ue_blob_id us"
    and s: "set missing \<subseteq> se_blob_id ` set (st_entries st)"
    using upload_plan_planned [OF assms] by auto
  have "ue_blob_id ` set us = set missing" using p s by (auto simp: planned_def)
  then have "map ue_blob_id (sort_key ue_blob_id us) = sorted_set missing"
    using p by (intro sorted_distinct_set_unique) (auto simp: planned_def)
  then show ?thesis using p u by (auto simp: planned_def)
qed

definition table_entry :: "string \<Rightarrow> string \<Rightarrow> string \<Rightarrow> snapshot_entry" where
  "table_entry i p b = \<lparr>se_file_id = i, se_path = p, se_type = ''note'', se_content_hash = ''h'' @ b,
     se_blob_id = b, se_plaintext_size = 3, se_encrypted_size = 19, se_mtime = 9,
     se_mime_type = None, se_snapshot_path = snapshot_plain_path i,
     se_blob_staging_path = blob_staging_path b\<rparr>"

definition sample_table :: snapshot_table where
  "sample_table = \<lparr>st_vault_id = ''v'', st_base_revision = 3, st_created_at = 10,
     st_entries = [table_entry ''f1'' ''a.md'' ''b2'', table_entry ''f2'' ''b.md'' ''b1'',
       table_entry ''f3'' ''c.md'' ''b2'']\<rparr>"

theorem upload_plan_one_entry_per_blob_witness:
  "\<exists>up. build_blob_upload_plan sample_table [''b2'', ''b1''] = Inr up
     \<and> map ue_blob_id (up_entries up) = [''b1'', ''b2'']"
proof -
  have "\<not> isl (build_blob_upload_plan sample_table [''b2'', ''b1''])" by code_simp
  then obtain up where up: "build_blob_upload_plan sample_table [''b2'', ''b1''] = Inr up"
    by (auto dest: not_islD)
  have "sorted_set [''b2'', ''b1''] = [''b1'', ''b2'']" by code_simp
  with upload_plan_one_entry_per_blob [OF up] up show ?thesis by simp
qed

section \<open>The request\<close>

lemma dict_items_mem:
  "distinct (map k xs) \<Longrightarrow> x \<in> set xs \<Longrightarrow> x \<in> set (dict_items k xs)"
  by (auto simp: dict_items_def dict_of_distinct intro!: bexI [of _ "k x"])

lemma request_eq_Inr:
  assumes "build_create_commit_request_payload su st = Inr rq"
  shows "rq_manifest rq = su_manifest su \<and> rq_commit_intent_id rq = cj_commit_intent_id (su_journal su)
    \<and> rq_base_revision rq = cj_base_revision (su_journal su)
    \<and> rq_intent_manifest_hash rq = su_intent_manifest_hash su
    \<and> set (rq_blob_refs rq) = (\<lambda>e. (se_blob_id e, se_file_id e)) ` set (st_entries st)
    \<and> mn_base_revision (su_manifest su) = cj_base_revision (su_journal su)
    \<and> mf_file_id ` set (mn_files (su_manifest su)) = se_file_id ` set (st_entries st)
    \<and> (\<forall>f \<in> set (dict_items mf_file_id (mn_files (su_manifest su))).
         \<exists>u. check_manifest_entry (dict_of se_file_id (st_entries st)) f = Inr u)"
proof -
  obtain us where "list_all2 (\<lambda>f u. check_manifest_entry (dict_of se_file_id (st_entries st)) f = Inr u)
      (dict_items mf_file_id (mn_files (su_manifest su))) us"
    using assms by (auto simp: build_create_commit_request_payload_def Let_def rbind_eq_Inr mapM_eq_Inr)
  then have "\<forall>f \<in> set (dict_items mf_file_id (mn_files (su_manifest su))).
      \<exists>u. check_manifest_entry (dict_of se_file_id (st_entries st)) f = Inr u"
    using list_all2_in1 by fastforce
  moreover have "rq_manifest rq = su_manifest su \<and> rq_commit_intent_id rq = cj_commit_intent_id (su_journal su)
    \<and> rq_base_revision rq = cj_base_revision (su_journal su)
    \<and> rq_intent_manifest_hash rq = su_intent_manifest_hash su
    \<and> set (rq_blob_refs rq) = (\<lambda>e. (se_blob_id e, se_file_id e)) ` set (st_entries st)
    \<and> mn_base_revision (su_manifest su) = cj_base_revision (su_journal su)
    \<and> mf_file_id ` set (mn_files (su_manifest su)) = se_file_id ` set (st_entries st)"
    using assms
    by (auto simp: build_create_commit_request_payload_def Let_def rbind_eq_Inr validate_eq_Inr
        simp del: validate.simps)
  ultimately show ?thesis by blast
qed

text \<open>The network plan of a commit is complete: every file of the submitted manifest (file
  identifiers listed once) is referenced in the request with its blob, and every referenced
  blob is either reported as existing by the server or uploaded by the plan, for that very file,
  with the content hash the manifest has. The request carries the journal's intent id and base
  revision and the hash computed at submission.\<close>

lemma network_plan_complete:
  assumes "resolve_blob_check_result st existing missing = Inr bc"
    and "build_commit_network_plan su st bc = Inr np"
    and "distinct (map mf_file_id (mn_files (su_manifest su)))"
  shows "rq_manifest (np_request np) = su_manifest su
    \<and> rq_commit_intent_id (np_request np) = cj_commit_intent_id (su_journal su)
    \<and> rq_base_revision (np_request np) = mn_base_revision (su_manifest su)
    \<and> rq_intent_manifest_hash (np_request np) = su_intent_manifest_hash su
    \<and> (\<forall>f \<in> set (mn_files (su_manifest su)).
         (mf_blob_id f, mf_file_id f) \<in> set (rq_blob_refs (np_request np))
       \<and> (mf_blob_id f \<in> set existing
          \<or> (\<exists>u \<in> set (up_entries (np_blob_uploads np)). ue_blob_id u = mf_blob_id f
               \<and> mf_file_id f \<in> set (ue_file_ids u) \<and> ue_content_hash u = mf_content_hash f)))"
proof -
  obtain rq up where rq: "build_create_commit_request_payload su st = Inr rq"
    and up: "build_blob_upload_plan st (bc_missing_blob_ids bc) = Inr up"
    and np: "np_request np = rq" "np_blob_uploads np = up"
    using assms(2) by (auto simp: build_commit_network_plan_def result_simps)
  have bc: "bc_missing_blob_ids bc = sorted_set missing"
    and cover: "\<forall>b \<in> se_blob_id ` set (st_entries st). b \<in> set existing \<or> b \<in> set missing"
    using assms(1)
    by (auto simp: resolve_blob_check_result_def Let_def result_simps filter_empty_conv)
  obtain us where pl: "planned (sorted_set missing) (st_entries st) us"
    and us: "up_entries up = sort_key ue_blob_id us"
    using upload_plan_planned [OF up] bc by auto
  note r = request_eq_Inr [OF rq]
  have "(mf_blob_id f, mf_file_id f) \<in> set (rq_blob_refs rq)
      \<and> (mf_blob_id f \<in> set existing
          \<or> (\<exists>u \<in> set (up_entries up). ue_blob_id u = mf_blob_id f
               \<and> mf_file_id f \<in> set (ue_file_ids u) \<and> ue_content_hash u = mf_content_hash f))"
    if f: "f \<in> set (mn_files (su_manifest su))" for f
  proof -
    have "f \<in> set (dict_items mf_file_id (mn_files (su_manifest su)))"
      by (rule dict_items_mem [OF assms(3) f])
    then obtain u where "check_manifest_entry (dict_of se_file_id (st_entries st)) f = Inr u"
      using r by blast
    then obtain e where e: "dict_of se_file_id (st_entries st) (mf_file_id f) = Some e"
      "mf_blob_id f = se_blob_id e" "mf_content_hash f = se_content_hash e"
      by (auto simp: check_manifest_entry_def validate_eq_Inr simp del: validate.simps
          split: option.splits)
    then have m: "e \<in> set (st_entries st)" "se_file_id e = mf_file_id f" by (auto dest: dict_of_SomeD)
    have ref: "(mf_blob_id f, mf_file_id f) \<in> set (rq_blob_refs rq)"
      using r m e by auto
    show ?thesis
    proof (cases "se_blob_id e \<in> set missing")
      case True
      then have "se_blob_id e \<in> ue_blob_id ` set us" using pl m by (auto simp: planned_def)
      then obtain w where w: "w \<in> set us" "ue_blob_id w = se_blob_id e" by auto
      have "ue_file_ids w = map se_file_id (filter (\<lambda>e. se_blob_id e = ue_blob_id w) (st_entries st))"
        "ue_content_hash w = se_content_hash e"
        using pl w m by (auto simp: planned_def)
      then have "mf_file_id f \<in> set (ue_file_ids w)" "ue_content_hash w = mf_content_hash f"
        using m w e by (auto simp: image_iff)
      with w ref e us show ?thesis by auto
    next
      case False
      then show ?thesis using cover m e ref by auto
    qed
  qed
  with np r show ?thesis by auto
qed

definition commit_table :: snapshot_table where
  "commit_table = \<lparr>st_vault_id = ''v'', st_base_revision = 3, st_created_at = 10,
     st_entries = map (\<lambda>(i, p, b). (table_entry i p b)\<lparr>se_content_hash := ''h-'' @ i\<rparr>)
       [(''f1'', ''a.md'', ''blob1''), (''f2'', ''b.md'', ''blob2'')]\<rparr>"

definition sample_submission :: submission where
  "sample_submission = \<lparr>su_manifest =
       (case build_commit_manifest id commit_document [] 3 ''dev'' 10 of
          Inr m \<Rightarrow> m | Inl e \<Rightarrow> sample_manifest),
     su_intent_manifest_hash = ''sha256:i'', su_journal = sample_journal,
     su_state = fresh_state, su_snapshot_plan = None, su_file_version_directives = []\<rparr>"

theorem network_plan_complete_witness:
  "\<exists>bc np. resolve_blob_check_result commit_table [''blob1''] [''blob2''] = Inr bc
     \<and> build_commit_network_plan sample_submission commit_table bc = Inr np
     \<and> (\<forall>f \<in> set (mn_files (su_manifest sample_submission)).
          (mf_blob_id f, mf_file_id f) \<in> set (rq_blob_refs (np_request np)))"
proof -
  have "\<not> isl (rbind (resolve_blob_check_result commit_table [''blob1''] [''blob2''])
      (build_commit_network_plan sample_submission commit_table))"
    by code_simp
  then obtain bc np where bc: "resolve_blob_check_result commit_table [''blob1''] [''blob2''] = Inr bc"
    and np: "build_commit_network_plan sample_submission commit_table bc = Inr np"
    by (auto simp: rbind_eq_Inr dest!: not_islD)
  have "distinct (map mf_file_id (mn_files (su_manifest sample_submission)))" by code_simp
  from network_plan_complete [OF bc np this] bc np show ?thesis by blast
qed

end
