(* ===== verification/Paths.thy ===== *)
theory Paths
  imports Vault_Prelude
begin

text \<open>
  \<open>vault_core/paths.py\<close>: sanitizing a device name for a file name, and choosing a name that no
  file has for a conflict copy or an orphan. A directory is the list of the names in it; a file
  name is split into stem and suffix as \<open>pathlib\<close> does.
\<close>

section \<open>Device names\<close>

definition char_in :: "char \<Rightarrow> nat \<Rightarrow> nat \<Rightarrow> bool" where
  "char_in c a b \<longleftrightarrow> a \<le> of_char c \<and> (of_char c :: nat) \<le> b"

definition ascii_alnum :: "char \<Rightarrow> bool" where
  "ascii_alnum c \<longleftrightarrow> char_in c 48 57 \<or> char_in c 65 90 \<or> char_in c 97 122"

definition sanitize_char :: "bool \<Rightarrow> char \<Rightarrow> char" where
  "sanitize_char allow_spaces c =
     (if ascii_alnum c \<or> c = CHR ''-'' \<or> (allow_spaces \<and> c = CHR '' '') then c else CHR ''-'')"

definition strip_chars :: "string \<Rightarrow> string \<Rightarrow> string" where
  "strip_chars cs s = rev (dropWhile (\<lambda>c. c \<in> set cs) (rev (dropWhile (\<lambda>c. c \<in> set cs) s)))"

text \<open>\<open>s.replace("--", "-")\<close>, one pass from the left.\<close>

fun replace_dashes :: "string \<Rightarrow> string" where
  "replace_dashes [] = []"
| "replace_dashes [c] = [c]"
| "replace_dashes (c # c' # s) =
     (if c = CHR ''-'' \<and> c' = CHR ''-'' then CHR ''-'' # replace_dashes s
      else c # replace_dashes (c' # s))"

fun has_double_dash :: "string \<Rightarrow> bool" where
  "has_double_dash (c # c' # s) \<longleftrightarrow> (c = CHR ''-'' \<and> c' = CHR ''-'') \<or> has_double_dash (c' # s)"
| "has_double_dash _ \<longleftrightarrow> False"

lemma length_replace_dashes: "length (replace_dashes s) \<le> length s"
  by (induction s rule: replace_dashes.induct) auto

lemma replace_dashes_shrinks: "has_double_dash s \<Longrightarrow> length (replace_dashes s) < length s"
  by (induction s rule: replace_dashes.induct) (auto simp: length_replace_dashes less_Suc_eq_le
      split: if_splits)

text \<open>\<open>while "--" in s: s = s.replace("--", "-")\<close>; every pass shortens the text.\<close>

function collapse_dashes :: "string \<Rightarrow> string" where
  "collapse_dashes s = (if has_double_dash s then collapse_dashes (replace_dashes s) else s)"
  by auto
termination by (relation "measure length") (auto simp: replace_dashes_shrinks)

declare collapse_dashes.simps [simp del]

definition sanitize_device_name :: "nat \<Rightarrow> bool \<Rightarrow> string \<Rightarrow> string" where
  "sanitize_device_name max_length allow_spaces device_name =
     (let truncated = take max_length device_name;
          sanitized = strip_chars '' '' (map (sanitize_char allow_spaces) truncated);
          sanitized = strip_chars ''- '' (collapse_dashes sanitized) in
      if sanitized = [] then ''unknown-device'' else sanitized)"

section \<open>Free names\<close>

text \<open>\<open>Path.name\<close>, \<open>Path.suffix\<close> and \<open>Path.stem\<close>: the suffix starts at the last dot, unless that
  dot is the first or the last character.\<close>

definition path_name :: "string \<Rightarrow> string" where
  "path_name p = rev (takeWhile (\<lambda>c. c \<noteq> CHR ''/'') (rev p))"

definition path_suffix :: "string \<Rightarrow> string" where
  "path_suffix n = (let ext = rev (takeWhile (\<lambda>c. c \<noteq> CHR ''.'') (rev n)) in
     if ext = [] \<or> length n \<le> length ext + 1 then [] else CHR ''.'' # ext)"

definition path_stem :: "string \<Rightarrow> string" where
  "path_stem n = take (length n - length (path_suffix n)) n"

definition numbered_name :: "string \<Rightarrow> nat \<Rightarrow> string" where
  "numbered_name n k = path_stem n @ '' '' @ nat_str k @ path_suffix n"

text \<open>The loop counts from 2 and stops at the first free name; among the first
  \<open>length existing + 1\<close> candidates one is free, so the search is bounded.\<close>

definition next_available_path :: "string list \<Rightarrow> string \<Rightarrow> string" where
  "next_available_path existing n =
     (if n \<notin> set existing then n
      else case find (\<lambda>k. numbered_name n k \<notin> set existing) [2..<length existing + 3] of
             Some k \<Rightarrow> numbered_name n k | None \<Rightarrow> n)"

definition allocate_conflict_copy_path ::
  "string list \<Rightarrow> string \<Rightarrow> string \<Rightarrow> string \<Rightarrow> string" where
  "allocate_conflict_copy_path existing name iso_date device_name =
     (let suffix = path_suffix name;
          stem = (if suffix = [] then name else path_stem name);
          base = stem @ '' (conflict '' @ iso_date @ '' '' @ sanitize_device_name 32 True device_name
            @ '')'' in
      next_available_path existing (base @ suffix))"

section \<open>Facts\<close>

lemma digit_char_inj: "d < 10 \<Longrightarrow> e < 10 \<Longrightarrow> digit_char d = digit_char e \<Longrightarrow> d = e"
proof -
  assume a: "d < 10" "e < 10" "digit_char d = digit_char e"
  then have "(of_char (digit_char d) :: nat) = of_char (digit_char e)" by simp
  with a show ?thesis by (simp add: digit_char_def of_char_of)
qed

lemma nat_str_inj: "nat_str a = nat_str b \<Longrightarrow> a = b"
proof (induction a arbitrary: b rule: nat_str.induct)
  case (1 a)
  have ne: "nat_str n \<noteq> []" for n by (subst nat_str.simps) simp
  show ?case
  proof (cases "a < 10"; cases "b < 10")
    assume "a < 10" "b < 10"
    with 1(2) show ?thesis by (simp add: nat_str.simps [of a] nat_str.simps [of b] digit_char_inj)
  next
    assume "a < 10" "\<not> b < 10"
    with 1(2) ne [of "b div 10"] show ?thesis
      by (cases "nat_str (b div 10)") (simp_all add: nat_str.simps [of a] nat_str.simps [of b])
  next
    assume "\<not> a < 10" "b < 10"
    with 1(2) ne [of "a div 10"] show ?thesis
      by (cases "nat_str (a div 10)") (simp_all add: nat_str.simps [of a] nat_str.simps [of b])
  next
    assume ab: "\<not> a < 10" "\<not> b < 10"
    with 1(2) have "nat_str (a div 10) = nat_str (b div 10)" "digit_char (a mod 10) = digit_char (b mod 10)"
      by (simp_all add: nat_str.simps [of a] nat_str.simps [of b])
    with 1(1) [OF ab(1)] have "a div 10 = b div 10" "a mod 10 = b mod 10"
      by (auto intro: digit_char_inj)
    then show ?thesis by (metis mult_div_mod_eq)
  qed
qed

lemma numbered_name_inj: "numbered_name n k = numbered_name n l \<Longrightarrow> k = l"
  by (auto simp: numbered_name_def dest: nat_str_inj)

lemma next_available_free: "next_available_path existing n \<notin> set existing"
proof (cases "n \<in> set existing")
  case True
  let ?ks = "[2..<length existing + 3]"
  have "\<exists>k \<in> set ?ks. numbered_name n k \<notin> set existing"
  proof (rule ccontr)
    assume "\<not> ?thesis"
    then have "numbered_name n ` set ?ks \<subseteq> set existing" by auto
    then have "card (numbered_name n ` set ?ks) \<le> card (set existing)" by (simp add: card_mono)
    moreover have "card (numbered_name n ` set ?ks) = length existing + 1"
      by (subst card_image) (auto intro!: inj_onI dest: numbered_name_inj)
    moreover have "card (set existing) \<le> length existing" by (rule card_length)
    ultimately show False by simp
  qed
  then obtain k where "find (\<lambda>k. numbered_name n k \<notin> set existing) ?ks = Some k"
    by (metis (mono_tags, lifting) find_None_iff not_None_eq)
  moreover from this have "numbered_name n k \<notin> set existing" by (auto simp: find_Some_iff)
  ultimately show ?thesis using True by (simp add: next_available_path_def)
qed (simp add: next_available_path_def)


lemma set_replace_dashes: "set (replace_dashes s) \<subseteq> set s"
  by (induction s rule: replace_dashes.induct) auto

lemma collapse_no_double: "\<not> has_double_dash (collapse_dashes s)"
proof (induction s rule: collapse_dashes.induct)
  case (1 s)
  then show ?case by (cases "has_double_dash s") (simp_all add: collapse_dashes.simps [of s])
qed

lemma set_collapse_dashes: "set (collapse_dashes s) \<subseteq> set s"
proof (induction s rule: collapse_dashes.induct)
  case (1 s)
  then show ?case
    using set_replace_dashes [of s]
    by (cases "has_double_dash s") (auto simp: collapse_dashes.simps [of s])
qed

lemma has_double_dash_append: "has_double_dash xs \<Longrightarrow> has_double_dash (ys @ xs)"
proof (induction ys)
  case (Cons y ys)
  then show ?case by (cases "ys @ xs") auto
qed simp

lemma has_double_dash_prefix: "has_double_dash xs \<Longrightarrow> has_double_dash (xs @ ys)"
  by (induction xs rule: has_double_dash.induct) auto

lemma strip_chars_part: "\<exists>a b. s = a @ strip_chars cs s @ b"
proof -
  let ?P = "\<lambda>c. c \<in> set cs"
  let ?r = "dropWhile ?P s"
  have "s = takeWhile ?P s @ ?r" by simp
  moreover have "?r = rev (dropWhile ?P (rev ?r)) @ rev (takeWhile ?P (rev ?r))"
    by (metis rev_append rev_rev_ident takeWhile_dropWhile_id)
  ultimately show ?thesis unfolding strip_chars_def by metis
qed

lemma strip_chars_ends:
  assumes "strip_chars cs s \<noteq> []"
  shows "hd (strip_chars cs s) \<notin> set cs" "last (strip_chars cs s) \<notin> set cs"
proof -
  let ?P = "\<lambda>c. c \<in> set cs"
  have ne: "dropWhile ?P (rev (dropWhile ?P s)) \<noteq> []" using assms by (simp add: strip_chars_def)
  then show "last (strip_chars cs s) \<notin> set cs"
    unfolding strip_chars_def last_rev by (rule hd_dropWhile)
  have "dropWhile ?P s \<noteq> []" using ne by (metis dropWhile.simps(1) rev.simps(1))
  then have "hd (dropWhile ?P s) \<notin> set cs" by (rule hd_dropWhile)
  moreover have "hd (rev (dropWhile ?P (rev (dropWhile ?P s)))) = hd (dropWhile ?P s)"
  proof -
    have "dropWhile ?P s = rev (dropWhile ?P (rev (dropWhile ?P s))) @ rev (takeWhile ?P (rev (dropWhile ?P s)))"
      by (metis rev_append rev_rev_ident takeWhile_dropWhile_id)
    then show ?thesis using ne by (metis hd_append2 rev_is_Nil_conv)
  qed
  ultimately show "hd (strip_chars cs s) \<notin> set cs" by (simp add: strip_chars_def)
qed

lemma length_collapse_dashes: "length (collapse_dashes s) \<le> length s"
proof (induction s rule: collapse_dashes.induct)
  case (1 s)
  then show ?case
    using length_replace_dashes [of s]
    by (cases "has_double_dash s") (auto simp: collapse_dashes.simps [of s])
qed

lemma strip_chars_set: "set (strip_chars cs s) \<subseteq> set s"
  using strip_chars_part [of s cs] by (metis Un_iff set_append subsetI)

lemma strip_chars_length: "length (strip_chars cs s) \<le> length s"
  by (simp add: strip_chars_def) (metis length_dropWhile_le length_rev le_trans)

section \<open>Properties\<close>

text \<open>A sanitized device name is safe to put in a file name, whatever the device is called: it is
  not empty, holds only ASCII letters, digits, dashes and (when allowed) blanks, neither starts
  nor ends with a dash or a blank, has no two dashes in a row, and is at most as long as the
  limit unless it is the fallback name.\<close>

lemma sanitized_device_name_safe:
  "sanitize_device_name n spaces dev \<noteq> []
    \<and> set (sanitize_device_name n spaces dev)
        \<subseteq> {c. ascii_alnum c \<or> c = CHR ''-'' \<or> spaces \<and> c = CHR '' ''}
    \<and> hd (sanitize_device_name n spaces dev) \<notin> {CHR ''-'', CHR '' ''}
    \<and> last (sanitize_device_name n spaces dev) \<notin> {CHR ''-'', CHR '' ''}
    \<and> \<not> has_double_dash (sanitize_device_name n spaces dev)
    \<and> (sanitize_device_name n spaces dev = ''unknown-device''
       \<or> length (sanitize_device_name n spaces dev) \<le> n)"
proof -
  define t where "t = strip_chars '' '' (map (sanitize_char spaces) (take n dev))"
  define u where "u = collapse_dashes t"
  define v where "v = strip_chars ''- '' u"
  have r: "sanitize_device_name n spaces dev = (if v = [] then ''unknown-device'' else v)"
    by (simp add: sanitize_device_name_def t_def u_def v_def Let_def)
  show ?thesis
  proof (cases "v = []")
    case True
    then show ?thesis unfolding r by (simp add: ascii_alnum_def char_in_def)
  next
    case False
    have "set v \<subseteq> sanitize_char spaces ` set (take n dev)"
      using strip_chars_set [of "''- ''" u] set_collapse_dashes [of t]
        strip_chars_set [of "'' ''" "map (sanitize_char spaces) (take n dev)"]
      by (auto simp: t_def u_def v_def)
    then have "\<forall>c \<in> set v. ascii_alnum c \<or> c = CHR ''-'' \<or> spaces \<and> c = CHR '' ''"
      by (auto simp: sanitize_char_def split: if_splits)
    moreover have "length v \<le> n"
      using strip_chars_length [of "''- ''" u] length_collapse_dashes [of t]
        strip_chars_length [of "'' ''" "map (sanitize_char spaces) (take n dev)"]
      by (simp add: t_def u_def v_def)
    moreover have "\<not> has_double_dash v"
    proof
      assume "has_double_dash v"
      then have "has_double_dash (a @ v @ b)" for a b
        by (intro has_double_dash_append has_double_dash_prefix)
      moreover obtain a b where "u = a @ v @ b"
        using strip_chars_part [of u "''- ''"] by (auto simp: v_def)
      ultimately show False using collapse_no_double [of t] by (simp add: u_def)
    qed
    moreover have "hd v \<notin> {CHR ''-'', CHR '' ''}" "last v \<notin> {CHR ''-'', CHR '' ''}"
      using strip_chars_ends [of "''- ''" u] False by (simp_all add: v_def)
    ultimately show ?thesis using False unfolding r by (simp add: subset_iff)
  qed
qed

text \<open>The name chosen for a conflict copy or an orphan is one no file in the directory has, and
  the bounded search finds it: it is the candidate itself when that is free.\<close>

lemma conflict_copy_name_free:
  "allocate_conflict_copy_path existing name iso_date device \<notin> set existing
    \<and> (n \<notin> set existing \<longrightarrow> next_available_path existing n = n)
    \<and> next_available_path existing n \<notin> set existing"
  by (simp add: allocate_conflict_copy_path_def Let_def next_available_free)
     (simp add: next_available_path_def)

lemma conflict_copy_name_free_witness:
  "next_available_path [''a.md''] ''b.md'' = ''b.md''
   \<and> next_available_path [''a.md'', ''a 2.md''] ''a.md'' = ''a 3.md''"
proof -
  have "next_available_path [''a.md''] ''b.md'' = ''b.md''"
    using conflict_copy_name_free [of "[''a.md'']" "''a.md''" "''2024-01-01''" "''d''" "''b.md''"] by simp
  moreover have "next_available_path [''a.md'', ''a 2.md''] ''a.md'' = ''a 3.md''" by code_simp
  ultimately show ?thesis by simp
qed

end
