(* ===== verification/Commit_Flow.thy ===== *)
theory Commit_Flow
  imports Commit_Plan Crash_Safety Paths
begin

text \<open>
  The stateful part of \<open>vault_core/sync_commit.py\<close>: starting, submitting, finalizing and
  recovering a commit. Every durable write is a \<open>persist\<close> step of \<open>Local_Store\<close>, in the order of
  the code, so the state between any two of them is a state a crash can leave.
\<close>

section \<open>Staging files\<close>

text \<open>Names are relative to the staging directory, and the listing is sorted by name.\<close>

definition staged_files :: "client \<Rightarrow> (string \<times> string) list" where
  "staged_files s = sort_key fst (cl_staging s)"

definition move_staging_orphan :: "string \<Rightarrow> string io" where
  "move_staging_orphan name =
     ebind (eget (\<lambda>s. next_available_path (map fst (cl_staging_orphans s)) (path_name name))) (\<lambda>target.
     ebind (persist (\<lambda>s. case map_of (cl_staging s) name of
         None \<Rightarrow> s
       | Some content \<Rightarrow> s\<lparr>cl_staging := filter (\<lambda>(n, _). n \<noteq> name) (cl_staging s),
           cl_staging_orphans := cl_staging_orphans s @ [(target, content)]\<rparr>)) (\<lambda>_.
     eret target))"

fun each :: "('a \<Rightarrow> 'b io) \<Rightarrow> 'a list \<Rightarrow> 'b list io" where
  "each f [] = eret []"
| "each f (x # xs) = ebind (f x) (\<lambda>y. ebind (each f xs) (\<lambda>ys. eret (y # ys)))"

definition isolate_staging_orphans :: "string list io" where
  "isolate_staging_orphans =
     ebind (eget (map fst \<circ> staged_files)) (each move_staging_orphan)"

definition ends_with :: "string \<Rightarrow> string \<Rightarrow> bool" where
  "ends_with suf s \<longleftrightarrow> length suf \<le> length s \<and> drop (length s - length suf) s = suf"

definition is_commit_staging_artifact :: "string \<Rightarrow> bool" where
  "is_commit_staging_artifact name \<longleftrightarrow>
     ends_with ''.snapshot.plain'' (path_name name) \<or> ends_with ''.blob.staging'' (path_name name)"

definition unlink_staging :: "string \<Rightarrow> unit io" where
  "unlink_staging name =
     persist (\<lambda>s. s\<lparr>cl_staging := filter (\<lambda>(n, _). n \<noteq> name) (cl_staging s)\<rparr>)"

definition cleanup_commit_staging_artifacts :: "string list io" where
  "cleanup_commit_staging_artifacts =
     ebind (eget (filter is_commit_staging_artifact \<circ> map fst \<circ> staged_files))
       (each (\<lambda>n. ebind (unlink_staging n) (\<lambda>_. eret n)))"

section \<open>Starting and submitting a commit\<close>

definition prepare_commit_intent ::
  "vault_state \<Rightarrow> string \<Rightarrow> string \<Rightarrow> int \<Rightarrow> (commit_journal \<times> vault_state) io" where
  "prepare_commit_intent state commit_intent_id created_by_device created_at =
     ebind (eread (load_commit_intent_journal (vs_vault_id state))) (\<lambda>active.
     if should_block_new_commit state (active \<noteq> None)
     then eraise (ValueError ''vault_state is not eligible to start a new commit'')
     else ebind (elift (CommitIntentJournalRecord
         \<lparr>cj_vault_id = vs_vault_id state, cj_commit_intent_id = commit_intent_id,
          cj_intent_manifest_hash = ''pending'',
          cj_base_revision = vs_last_applied_revision state,
          cj_created_by_device = created_by_device, cj_status = ''prepared'',
          cj_created_at = created_at, cj_updated_at = created_at,
          cj_intent_delete_seq_upper_bound =
            (if vs_local_delete_sequence state > 0 then Some (vs_local_delete_sequence state)
             else None)\<rparr>)) (\<lambda>journal.
     ebind (elift (apply_commit_submitted_state state)) (\<lambda>updated_state.
     ebind (upsert_commit_intent_journal journal) (\<lambda>_.
     ebind (upsert_vault_state updated_state) (\<lambda>_.
     eret (journal, updated_state))))))"

definition prepare_frozen_commit_intent ::
  "(string \<Rightarrow> string) \<Rightarrow> vault_state \<Rightarrow> filemap_document \<Rightarrow> string \<Rightarrow> string \<Rightarrow> int
     \<Rightarrow> (commit_journal \<times> vault_state \<times> snapshot_plan) io" where
  "prepare_frozen_commit_intent nfc state d commit_intent_id created_by_device created_at =
     (if has_unresolved_conflict_copy d
      then eraise (ValueError ''document contains unresolved conflict_copy entries'')
      else ebind (prepare_commit_intent state commit_intent_id created_by_device created_at)
        (\<lambda>(journal, state').
      ebind (elift (build_content_snapshot_plan nfc d (cj_base_revision journal) created_at))
        (\<lambda>plan.
      eret (journal, state', plan))))"

definition submission_manifest ::
  "(string \<Rightarrow> string) \<Rightarrow> string \<Rightarrow> filemap_document \<Rightarrow> tombstone list \<Rightarrow> commit_journal
     \<Rightarrow> snapshot_plan option \<Rightarrow> manifest result" where
  "submission_manifest nfc vault_id d ts j plan = (case plan of
     None \<Rightarrow> build_commit_manifest nfc d ts (cj_base_revision j) (cj_created_by_device j)
               (cj_created_at j)
   | Some p \<Rightarrow> rbind (validate
       [(sp_vault_id p = vault_id,
         ''snapshot_plan vault_id does not match submitted commit vault''),
        (sp_base_revision p = cj_base_revision j,
         ''snapshot_plan base_revision does not match prepared journal''),
        (sp_created_at p = cj_created_at j,
         ''snapshot_plan created_at does not match prepared journal'')] ()) (\<lambda>_.
       build_commit_manifest_from_snapshot_plan nfc d p ts (cj_base_revision j)
         (cj_created_by_device j) (cj_created_at j)))"

definition submit_prepared_commit ::
  "(string \<Rightarrow> string) \<Rightarrow> (string \<Rightarrow> string) \<Rightarrow> string \<Rightarrow> filemap_document \<Rightarrow> tombstone list \<Rightarrow> int
     \<Rightarrow> snapshot_plan option \<Rightarrow> submission io" where
  "submit_prepared_commit sha nfc vault_id d ts submitted_at plan =
     ebind (eread (load_commit_intent_journal vault_id)) (\<lambda>journal.
     case journal of
       None \<Rightarrow> eraise (KeyError (''commit_intent_journal not found: '' @ vault_id))
     | Some j \<Rightarrow>
       if cj_status j \<noteq> ''prepared''
       then eraise (ValueError ''prepared journal is required before submitting a commit'')
       else ebind (eread (load_vault_state vault_id)) (\<lambda>state.
       case state of
         None \<Rightarrow> eraise (KeyError (''vault_state not found: '' @ vault_id))
       | Some st \<Rightarrow>
         ebind (elift (submission_manifest nfc vault_id d ts j plan)) (\<lambda>m.
         let h = compute_intent_manifest_hash sha nfc m in
         ebind (elift (CommitIntentJournalRecord (j\<lparr>cj_intent_manifest_hash := h,
           cj_status := ''submitted'', cj_updated_at := submitted_at\<rparr>))) (\<lambda>j'.
         ebind (upsert_commit_intent_journal j') (\<lambda>_.
         eret \<lparr>su_manifest = m, su_intent_manifest_hash = h, su_journal = j', su_state = st,
           su_snapshot_plan = None, su_file_version_directives = []\<rparr>)))))"

definition prepare_commit_submission ::
  "(string \<Rightarrow> string) \<Rightarrow> (string \<Rightarrow> string) \<Rightarrow> vault_state \<Rightarrow> filemap_document \<Rightarrow> tombstone list
     \<Rightarrow> string \<Rightarrow> string \<Rightarrow> int \<Rightarrow> submission io" where
  "prepare_commit_submission sha nfc state d ts commit_intent_id created_by_device created_at =
     ebind (prepare_frozen_commit_intent nfc state d commit_intent_id created_by_device created_at)
       (\<lambda>(journal, state', plan).
     ebind (submit_prepared_commit sha nfc (vs_vault_id state) d ts created_at (Some plan)) (\<lambda>su.
     eret (su\<lparr>su_snapshot_plan := Some plan\<rparr>)))"

section \<open>Finalizing a commit\<close>

definition finalize_commit_manifest ::
  "(string \<Rightarrow> string) \<Rightarrow> (string \<Rightarrow> string) \<Rightarrow> manifest \<Rightarrow> int \<Rightarrow> manifest result" where
  "finalize_commit_manifest sha nfc m committed_revision =
     finalize_manifest_revision sha nfc m committed_revision"

definition finalize_commit_submission ::
  "(string \<Rightarrow> string) \<Rightarrow> (string \<Rightarrow> string) \<Rightarrow> manifest \<Rightarrow> tombstone list \<Rightarrow> int
     \<Rightarrow> (manifest \<times> tombstone list \<times> vault_state) io" where
  "finalize_commit_submission sha nfc m local_ts committed_revision =
     ebind (eread (load_commit_intent_journal (mn_vault_id m))) (\<lambda>journal.
     case journal of
       None \<Rightarrow> eraise (KeyError (''commit_intent_journal not found: '' @ mn_vault_id m))
     | Some j \<Rightarrow>
       if cj_status j \<noteq> ''submitted''
       then eraise (ValueError ''commit finalization requires a submitted journal'')
       else ebind (elift (finalize_commit_manifest sha nfc m committed_revision)) (\<lambda>finalized.
       ebind (elift (apply_committed_tombstones local_ts j committed_revision)) (\<lambda>ts.
       ebind (rewrite_tombstone_ledger ts) (\<lambda>_.
       ebind (finalize_committed_state (mn_vault_id m) committed_revision
                (mn_summary_hash finalized)) (\<lambda>st.
       eret (finalized, ts, st))))))"

definition finalize_commit_submission_cleanup ::
  "(string \<Rightarrow> string) \<Rightarrow> (string \<Rightarrow> string) \<Rightarrow> manifest \<Rightarrow> tombstone list \<Rightarrow> int
     \<Rightarrow> ((manifest \<times> tombstone list \<times> vault_state) \<times> string list) io" where
  "finalize_commit_submission_cleanup sha nfc m local_ts committed_revision =
     ebind (finalize_commit_submission sha nfc m local_ts committed_revision) (\<lambda>finalized.
     ebind cleanup_commit_staging_artifacts (\<lambda>removed. eret (finalized, removed)))"

definition cleanup_failed_commit_submission :: "string \<Rightarrow> int \<Rightarrow> vault_state io" where
  "cleanup_failed_commit_submission vault_id normalized_at =
     ebind (eread (load_commit_intent_journal vault_id)) (\<lambda>journal.
     case journal of
       None \<Rightarrow> eraise (KeyError (''commit_intent_journal not found: '' @ vault_id))
     | Some j \<Rightarrow>
       if cj_status j = ''prepared'' then recover_prepared_commit_cleanup vault_id
       else if cj_status j \<in> {''submitted'', ''acknowledged''}
       then recover_submitted_commit_miss vault_id normalized_at
       else eraise (ValueError (''unsupported commit journal status: '' @ cj_status j)))"

definition abort_drifted_commit_snapshot ::
  "string \<Rightarrow> snapshot_plan \<Rightarrow> filemap_document
     \<Rightarrow> (vault_state \<times> string list \<times> string list) io" where
  "abort_drifted_commit_snapshot vault_id p d =
     (if sp_vault_id p \<noteq> vault_id
      then eraise (ValueError ''snapshot_plan vault_id does not match aborted commit vault'')
      else if fd_vault_id d \<noteq> vault_id
      then eraise (ValueError ''document vault_id does not match aborted commit vault'')
      else ebind (elift (detect_content_snapshot_drift p d)) (\<lambda>ids.
      if ids = []
      then eraise (ValueError ''content snapshot plan still matches current document'')
      else ebind (recover_prepared_commit_cleanup vault_id) (\<lambda>st.
      ebind cleanup_commit_staging_artifacts (\<lambda>removed.
      eret (st, sort ids, removed)))))"

section \<open>Local recovery\<close>

datatype recovery_mode = Idle | Orphaned_Lock | Prepared_Cleanup | Submitted_Confirmation

definition plan_commit_recovery ::
  "vault_state \<Rightarrow> commit_journal option \<Rightarrow> recovery_mode result" where
  "plan_commit_recovery state journal = (case journal of
     None \<Rightarrow> Inr (if vs_commit_in_progress state then Orphaned_Lock else Idle)
   | Some j \<Rightarrow>
       if cj_status j = ''prepared'' then Inr Prepared_Cleanup
       else if cj_status j \<in> {''submitted'', ''acknowledged''} then Inr Submitted_Confirmation
       else Inl (ValueError (''unsupported commit journal status: '' @ cj_status j)))"

definition recover_orphaned_commit_session :: "string \<Rightarrow> (vault_state \<times> string list) io" where
  "recover_orphaned_commit_session vault_id =
     ebind isolate_staging_orphans (\<lambda>moved.
     ebind (recover_orphaned_commit_lock vault_id) (\<lambda>st. eret (st, moved)))"

definition recover_local_commit_state ::
  "string \<Rightarrow> (recovery_mode \<times> vault_state \<times> string list) io" where
  "recover_local_commit_state vault_id =
     ebind (eread (load_vault_state vault_id)) (\<lambda>state.
     case state of
       None \<Rightarrow> eraise (KeyError (''vault_state not found: '' @ vault_id))
     | Some st \<Rightarrow>
       ebind (eread (load_commit_intent_journal vault_id)) (\<lambda>journal.
       ebind (elift (plan_commit_recovery st journal)) (\<lambda>mode.
       case mode of
         Idle \<Rightarrow> eret (Idle, st, [])
       | Orphaned_Lock \<Rightarrow>
           ebind (recover_orphaned_commit_session vault_id) (\<lambda>(st', moved).
           eret (Orphaned_Lock, st', moved))
       | Prepared_Cleanup \<Rightarrow>
           ebind isolate_staging_orphans (\<lambda>moved.
           ebind (recover_prepared_commit_cleanup vault_id) (\<lambda>st'.
           eret (Prepared_Cleanup, st', moved)))
       | Submitted_Confirmation \<Rightarrow> eraise (ValueError
           ''local commit recovery requires remote confirmation for submitted journal state''))))"

section \<open>Confirming a submitted commit\<close>

record revision_metadata =
  rm_revision :: int
  rm_commit_intent_id :: string
  rm_intent_manifest_hash :: string
  rm_created_by_device :: string
  rm_created_at :: int

datatype confirmation_mode = Head_Match | Miss | Scan_Range

record confirmation_plan =
  cp_mode :: confirmation_mode
  cp_observed_head_revision :: int
  cp_matched_revision :: "int option"
  cp_scan_from_revision :: "int option"
  cp_scan_to_revision :: "int option"

definition plan_submitted_confirmation ::
  "commit_journal \<Rightarrow> int \<Rightarrow> string \<Rightarrow> confirmation_plan result" where
  "plan_submitted_confirmation j observed_head head_commit_intent_id =
     (if observed_head < cj_base_revision j
      then Inl (ValueError ''observed_head_revision cannot be older than journal.base_revision'')
      else if head_commit_intent_id = cj_commit_intent_id j
      then Inr \<lparr>cp_mode = Head_Match, cp_observed_head_revision = observed_head,
             cp_matched_revision = Some observed_head, cp_scan_from_revision = None,
             cp_scan_to_revision = None\<rparr>
      else let scan_from = cj_base_revision j + 1 in
      if scan_from > observed_head
      then Inr \<lparr>cp_mode = Miss, cp_observed_head_revision = observed_head,
             cp_matched_revision = None, cp_scan_from_revision = None,
             cp_scan_to_revision = None\<rparr>
      else Inr \<lparr>cp_mode = Scan_Range, cp_observed_head_revision = observed_head,
             cp_matched_revision = None, cp_scan_from_revision = Some scan_from,
             cp_scan_to_revision = Some observed_head\<rparr>)"

definition find_matching_revision_metadata ::
  "revision_metadata list \<Rightarrow> string \<Rightarrow> revision_metadata option" where
  "find_matching_revision_metadata revs commit_intent_id =
     find (\<lambda>r. rm_commit_intent_id r = commit_intent_id) revs"

definition resolve_submitted_confirmation ::
  "confirmation_plan \<Rightarrow> string \<Rightarrow> revision_metadata list \<Rightarrow> revision_metadata option" where
  "resolve_submitted_confirmation plan commit_intent_id revs = (case cp_mode plan of
     Head_Match \<Rightarrow> None
   | Miss \<Rightarrow> None
   | Scan_Range \<Rightarrow> find_matching_revision_metadata revs commit_intent_id)"

end
