(* ===== verification/Sync_Apply.thy ===== *)
theory Sync_Apply
  imports Commit_Flow
begin

text \<open>
  \<open>vault_core/sync_apply.py\<close> and \<open>vault_core/sync_reconcile.py\<close>: applying a pulled manifest,
  and resolving a commit whose outcome the client did not see, from what the server reports.
\<close>

section \<open>Applying a pulled manifest\<close>

record applied_manifest =
  am_convergence :: convergence
  am_state :: vault_state
  am_required_blob_ids :: "string list"

definition needs_blob :: "filemap_document \<Rightarrow> manifest_file \<Rightarrow> bool" where
  "needs_blob d e = (case dict_of fr_file_id (filter (\<lambda>r. fr_status r = ''active'') (fd_files d))
       (mf_file_id e) of
     None \<Rightarrow> True
   | Some r \<Rightarrow> fr_content_hash r \<noteq> Some (mf_content_hash e))"

definition plan_required_blob_ids :: "filemap_document \<Rightarrow> manifest \<Rightarrow> string list" where
  "plan_required_blob_ids d m =
     rev (remdups (rev (map mf_blob_id (filter (needs_blob d) (mn_sorted_files m)))))"

definition apply_pulled_manifest ::
  "(string \<Rightarrow> string) \<Rightarrow> (string \<Rightarrow> string) \<Rightarrow> filemap_document \<Rightarrow> manifest \<Rightarrow> tombstone list \<Rightarrow> int
     \<Rightarrow> applied_manifest io" where
  "apply_pulled_manifest sha nfc d m local_ts rewritten_at =
     ebind (eread (load_vault_state (mn_vault_id m))) (\<lambda>state.
     case state of
       None \<Rightarrow> eraise (KeyError (''vault_state not found: '' @ mn_vault_id m))
     | Some st \<Rightarrow>
       ebind (persist_manifest_convergence d m local_ts rewritten_at) (\<lambda>c.
       ebind (elift (apply_manifest_reconciled_state st (mn_revision m)
         (compute_manifest_summary_hash sha nfc m))) (\<lambda>st'.
       ebind (upsert_vault_state st') (\<lambda>_.
       eret \<lparr>am_convergence = c, am_state = st',
         am_required_blob_ids = plan_required_blob_ids d m\<rparr>))))"

definition execute_pull_reconcile ::
  "(string \<Rightarrow> string) \<Rightarrow> (string \<Rightarrow> string) \<Rightarrow> filemap_document \<Rightarrow> vault_state \<Rightarrow> tombstone list
     \<Rightarrow> int \<Rightarrow> int \<Rightarrow> manifest option
     \<Rightarrow> (reconcile_plan \<times> vault_state \<times> applied_manifest option) io" where
  "execute_pull_reconcile sha nfc d current_state local_ts observed_head rewritten_at manifest =
     (let plan = plan_pull_reconcile current_state observed_head in
      if \<not> pl_should_download_manifest plan then eret (plan, current_state, None)
      else case manifest of
        None \<Rightarrow> eraise (ValueError
          ''manifest is required when reconcile plan requires a download'')
      | Some m \<Rightarrow>
          if mn_vault_id m \<noteq> vs_vault_id current_state
          then eraise (ValueError ''manifest vault_id does not match current state'')
          else if mn_revision m \<noteq> pl_target_revision plan
          then eraise (ValueError ''manifest revision does not match reconcile target_revision'')
          else ebind (apply_pulled_manifest sha nfc d m local_ts rewritten_at) (\<lambda>applied.
            eret (plan, am_state applied, Some applied)))"

section \<open>Recovering a submitted commit\<close>

record submitted_recovery =
  sr_state :: vault_state
  sr_tombstones :: "tombstone list"
  sr_requires_full_pull :: bool

definition recover_submitted_commit_flow ::
  "(string \<Rightarrow> string) \<Rightarrow> (string \<Rightarrow> string) \<Rightarrow> string \<Rightarrow> tombstone list \<Rightarrow> int \<Rightarrow> int \<Rightarrow> int
     \<Rightarrow> manifest option \<Rightarrow> submitted_recovery io" where
  "recover_submitted_commit_flow sha nfc vault_id local_ts matched_revision observed_head
     normalized_at matched_manifest =
     ebind (eread (load_commit_intent_journal vault_id)) (\<lambda>journal.
     case journal of
       None \<Rightarrow> eraise (KeyError (''commit_intent_journal not found: '' @ vault_id))
     | Some j \<Rightarrow>
       ebind (elift (apply_committed_tombstones local_ts j matched_revision)) (\<lambda>ts.
       ebind (case matched_manifest of
           None \<Rightarrow> recover_submitted_commit_match vault_id matched_revision observed_head None
             normalized_at
         | Some m \<Rightarrow> recover_submitted_commit_from_manifest sha nfc vault_id (Some m)
             matched_revision observed_head normalized_at) (\<lambda>st.
       ebind (rewrite_tombstone_ledger ts) (\<lambda>_.
       eret \<lparr>sr_state = st, sr_tombstones = ts, sr_requires_full_pull = requires_full_pull st\<rparr>))))"

record remote_confirmation =
  rc_observed_head_revision :: int
  rc_head_commit_intent_id :: string
  rc_revisions :: "revision_metadata list"
  rc_matched_manifest :: "manifest option"

definition SubmittedConfirmationRemoteState ::
  "remote_confirmation \<Rightarrow> remote_confirmation result" where
  "SubmittedConfirmationRemoteState r = validate
     [(0 \<le> rc_observed_head_revision r, ''observed_head_revision must be a non-negative integer''),
      (rc_head_commit_intent_id r \<noteq> [], ''head_commit_intent_id must be non-empty'')] r"

definition validate_scan_revision_metadata ::
  "confirmation_plan \<Rightarrow> revision_metadata list \<Rightarrow> unit result" where
  "validate_scan_revision_metadata plan revs =
     (if cp_mode plan \<noteq> Scan_Range then Inr ()
      else case (cp_scan_from_revision plan, cp_scan_to_revision plan) of
        (Some lo, Some hi) \<Rightarrow>
          if \<exists>r \<in> set revs. rm_revision r < lo \<or> rm_revision r > hi
          then Inl (ValueError
            ''revision metadata falls outside submitted confirmation scan range'')
          else Inr ()
      | _ \<Rightarrow> Inl (ValueError
          ''scan_range submitted confirmation plan must define a revision window''))"

definition validate_submitted_confirmation_manifest ::
  "string \<Rightarrow> confirmation_plan \<Rightarrow> revision_metadata option \<Rightarrow> manifest option \<Rightarrow> unit result" where
  "validate_submitted_confirmation_manifest vault_id plan matched manifest = (case manifest of
     None \<Rightarrow> Inr ()
   | Some m \<Rightarrow>
     if mn_vault_id m \<noteq> vault_id
     then Inl (ValueError ''matched_manifest vault_id does not match submitted confirmation vault'')
     else if cp_mode plan = Miss
     then Inl (ValueError ''matched_manifest is not allowed when submitted confirmation misses'')
     else rbind (if cp_mode plan = Head_Match then Inr (cp_matched_revision plan)
                 else case matched of
                   None \<Rightarrow> Inl (ValueError ''matched_manifest requires a matched submitted revision'')
                 | Some r \<Rightarrow> Inr (Some (rm_revision r))) (\<lambda>expected.
     case expected of
       None \<Rightarrow> Inl (ValueError ''submitted confirmation did not resolve a matched revision'')
     | Some r \<Rightarrow> if mn_revision m \<noteq> r
         then Inl (ValueError
           ''matched_manifest revision does not match submitted confirmation target'')
         else Inr ()))"

record confirmation_result =
  cr_plan :: confirmation_plan
  cr_matched_metadata :: "revision_metadata option"
  cr_recovery :: submitted_recovery

definition execute_submitted_commit_confirmation_remote_state ::
  "(string \<Rightarrow> string) \<Rightarrow> (string \<Rightarrow> string) \<Rightarrow> string \<Rightarrow> tombstone list \<Rightarrow> int
     \<Rightarrow> remote_confirmation \<Rightarrow> confirmation_result io" where
  "execute_submitted_commit_confirmation_remote_state sha nfc vault_id local_ts normalized_at remote =
     ebind (eread (load_commit_intent_journal vault_id)) (\<lambda>journal.
     case journal of
       None \<Rightarrow> eraise (KeyError (''commit_intent_journal not found: '' @ vault_id))
     | Some j \<Rightarrow>
       ebind (elift (plan_submitted_confirmation j (rc_observed_head_revision remote)
         (rc_head_commit_intent_id remote))) (\<lambda>plan.
       ebind (elift (validate_scan_revision_metadata plan (rc_revisions remote))) (\<lambda>_.
       let matched = resolve_submitted_confirmation plan (cj_commit_intent_id j)
             (rc_revisions remote) in
       ebind (elift (validate_submitted_confirmation_manifest vault_id plan matched
         (rc_matched_manifest remote))) (\<lambda>_.
       if cp_mode plan = Miss \<or> (cp_mode plan = Scan_Range \<and> matched = None)
       then ebind (recover_submitted_commit_miss vault_id normalized_at) (\<lambda>st.
         eret \<lparr>cr_plan = plan, cr_matched_metadata = matched,
           cr_recovery = \<lparr>sr_state = st, sr_tombstones = local_ts,
             sr_requires_full_pull = False\<rparr>\<rparr>)
       else ebind (recover_submitted_commit_flow sha nfc vault_id local_ts
           (case matched of None \<Rightarrow> rc_observed_head_revision remote | Some r \<Rightarrow> rm_revision r)
           (rc_observed_head_revision remote) normalized_at (rc_matched_manifest remote)) (\<lambda>r.
         eret \<lparr>cr_plan = plan, cr_matched_metadata = matched, cr_recovery = r\<rparr>)))))"

definition execute_submitted_commit_confirmation ::
  "(string \<Rightarrow> string) \<Rightarrow> (string \<Rightarrow> string) \<Rightarrow> string \<Rightarrow> tombstone list \<Rightarrow> int \<Rightarrow> string \<Rightarrow> int
     \<Rightarrow> revision_metadata list \<Rightarrow> manifest option \<Rightarrow> confirmation_result io" where
  "execute_submitted_commit_confirmation sha nfc vault_id local_ts observed_head head_intent
     normalized_at revs matched_manifest =
     ebind (elift (SubmittedConfirmationRemoteState
       \<lparr>rc_observed_head_revision = observed_head, rc_head_commit_intent_id = head_intent,
        rc_revisions = revs, rc_matched_manifest = matched_manifest\<rparr>))
     (execute_submitted_commit_confirmation_remote_state sha nfc vault_id local_ts normalized_at)"

section \<open>Resuming\<close>

record resume_inputs =
  ri_ledger_path_given :: bool
  ri_local_tombstones :: "tombstone list"
  ri_observed_head_revision :: "int option"
  ri_head_commit_intent_id :: "string option"
  ri_revisions :: "revision_metadata list"
  ri_matched_manifest :: "manifest option"
  ri_remote_state :: "remote_confirmation option"

record resume_result =
  rr_mode :: recovery_mode
  rr_requires_full_pull :: bool
  rr_local :: "(vault_state \<times> string list) option"
  rr_submitted :: "confirmation_result option"

definition remote_of_inputs :: "resume_inputs \<Rightarrow> remote_confirmation result" where
  "remote_of_inputs i =
     (if \<not> ri_ledger_path_given i
      then Inl (ValueError ''ledger_path is required for submitted confirmation recovery'')
      else case ri_remote_state i of
        Some r \<Rightarrow>
          if ri_observed_head_revision i \<noteq> None \<or> ri_head_commit_intent_id i \<noteq> None
             \<or> ri_revisions i \<noteq> [] \<or> ri_matched_manifest i \<noteq> None
          then Inl (ValueError
            ''remote_state cannot be combined with legacy submitted confirmation inputs'')
          else Inr r
      | None \<Rightarrow> (case ri_observed_head_revision i of
          None \<Rightarrow> Inl (ValueError
            ''observed_head_revision is required for submitted confirmation recovery'')
        | Some observed \<Rightarrow> (case ri_head_commit_intent_id i of
            None \<Rightarrow> Inl (ValueError
              ''head_commit_intent_id is required for submitted confirmation recovery'')
          | Some head_intent \<Rightarrow> SubmittedConfirmationRemoteState
              \<lparr>rc_observed_head_revision = observed, rc_head_commit_intent_id = head_intent,
               rc_revisions = ri_revisions i, rc_matched_manifest = ri_matched_manifest i\<rparr>)))"

definition resume_commit_recovery ::
  "(string \<Rightarrow> string) \<Rightarrow> (string \<Rightarrow> string) \<Rightarrow> string \<Rightarrow> int \<Rightarrow> resume_inputs \<Rightarrow> resume_result io" where
  "resume_commit_recovery sha nfc vault_id normalized_at i =
     ebind (eread (load_vault_state vault_id)) (\<lambda>state.
     case state of
       None \<Rightarrow> eraise (KeyError (''vault_state not found: '' @ vault_id))
     | Some st \<Rightarrow>
       ebind (eread (load_commit_intent_journal vault_id)) (\<lambda>journal.
       ebind (elift (plan_commit_recovery st journal)) (\<lambda>mode.
       if mode \<noteq> Submitted_Confirmation
       then ebind (recover_local_commit_state vault_id) (\<lambda>(_, st', moved).
         eret \<lparr>rr_mode = mode, rr_requires_full_pull = requires_full_pull st',
           rr_local = Some (st', moved), rr_submitted = None\<rparr>)
       else ebind (elift (remote_of_inputs i)) (\<lambda>remote.
         ebind (execute_submitted_commit_confirmation_remote_state sha nfc vault_id
           (ri_local_tombstones i) normalized_at remote) (\<lambda>r.
         eret \<lparr>rr_mode = mode, rr_requires_full_pull = sr_requires_full_pull (cr_recovery r),
           rr_local = None, rr_submitted = Some r\<rparr>)))))"

end
