(* ===== verification/Commit_Protocol.thy ===== *)
theory Commit_Protocol
  imports Sync_Apply
begin

text \<open>
  The commit protocol of a device as a transition system over its durable store. A step is one
  session-level operation, run with any number of durable steps left before the power fails, or
  the power coming back. The theory shows which combinations of vault state and commit journal
  can ever be on disk, and that recovery gets out of each of them.
\<close>

section \<open>Where an operation leaves the store\<close>

definition ends_in :: "('s \<Rightarrow> bool) \<Rightarrow> ('s, 'e, 'a) eff \<Rightarrow> 's \<Rightarrow> bool" where
  "ends_in P m s \<longleftrightarrow> P (snd (m s))"

text \<open>The two tables the protocol is about; everything else on disk is irrelevant to it.\<close>

definition tables ::
  "client \<Rightarrow> (string \<Rightarrow> vault_state option) \<times> (string \<Rightarrow> commit_journal option)" where
  "tables s = (cl_vault_state s, cl_commit_journal s)"

definition tabular :: "(client \<Rightarrow> bool) \<Rightarrow> bool" where
  "tabular P \<longleftrightarrow> (\<forall>s s'. tables s = tables s' \<longrightarrow> P s = P s')"

definition keeps_tables :: "'a io \<Rightarrow> bool" where
  "keeps_tables m \<longleftrightarrow> (\<forall>s. tables (snd (m s)) = tables s)"

named_theorems ends_simps \<open>stepping through an operation towards its final store\<close>

lemma ends_in_basic [ends_simps]:
  "ends_in P (eret x) s = P s" "ends_in P (eraise e) s = P s" "ends_in P (elift r) s = P s"
  "ends_in P (ebind (eread f) g) s = (case f s of Inl e \<Rightarrow> P s | Inr x \<Rightarrow> ends_in P (g x) s)"
  "ends_in P (ebind (elift r) g) s = (case r of Inl e \<Rightarrow> P s | Inr x \<Rightarrow> ends_in P (g x) s)"
  "ends_in P (ebind (eget h) g) s = ends_in P (g (h s)) s"
  by (auto simp: ends_in_def ebind_eread ebind_elift elift_def split: sum.splits)

lemma ends_in_assoc [ends_simps]:
  "ends_in P (ebind (ebind m f) g) s = ends_in P (ebind m (\<lambda>x. ebind (f x) g)) s"
  by (simp add: ends_in_def ebind_def split: prod.splits sum.splits)

lemma ends_in_bind_done [ends_simps]:
  "ends_in P (ebind (eraise e) g) s = P s" "ends_in P (ebind (eret x) h) s = ends_in P (h x) s"
  by (simp_all add: ends_in_def)

lemma ends_in_bind_if [ends_simps]:
  "ends_in P (ebind (if b then m else m') g) s
     = (if b then ends_in P (ebind m g) s else ends_in P (ebind m' g) s)"
  by simp

lemma ends_in_if [ends_simps]:
  "ends_in P (if b then m else m') s = (if b then ends_in P m s else ends_in P m' s)"
  by simp

lemma ends_in_option [ends_simps]:
  "ends_in P (case a of None \<Rightarrow> m | Some x \<Rightarrow> f x) s
     = (case a of None \<Rightarrow> ends_in P m s | Some x \<Rightarrow> ends_in P (f x) s)"
  by (simp split: option.splits)

lemma ends_in_prod [ends_simps]:
  "ends_in P (case p of (a, b) \<Rightarrow> f a b) s = (case p of (a, b) \<Rightarrow> ends_in P (f a b) s)"
  by (simp split: prod.splits)

lemma tables_power [simp]: "tables (s\<lparr>cl_power := p\<rparr>) = tables s"
  by (simp add: tables_def)

lemma ends_in_bind:
  "ends_in P (ebind m g) s \<longleftrightarrow> (case m s of (Inl e, s') \<Rightarrow> P s' | (Inr x, s') \<Rightarrow> ends_in P (g x) s')"
  by (auto simp: ends_in_def ebind_def split: prod.splits sum.splits)

lemma ends_in_bindI:
  "ends_in P (ebind m g) s" if "ends_in Q m s" "\<And>s'. Q s' \<Longrightarrow> P s'"
    "\<And>x s'. Q s' \<Longrightarrow> ends_in P (g x) s'"
  using that unfolding ends_in_bind by (auto simp: ends_in_def split: prod.splits sum.splits)

lemma persist_cases:
  "persist f s = (Inl PowerLoss, s) \<or> (\<exists>p. persist f s = (Inr (), f (s\<lparr>cl_power := p\<rparr>)))"
proof (cases "cl_power s")
  case None
  then have "s\<lparr>cl_power := None\<rparr> = s" by simp
  with None show ?thesis by (metis persist_on)
next
  case (Some n)
  then show ?thesis by (cases n) (auto simp: persist_def)
qed

lemma ends_in_persist:
  "P s \<Longrightarrow> (\<And>p. P (f (s\<lparr>cl_power := p\<rparr>))) \<Longrightarrow> ends_in P (persist f) s"
  using persist_cases [of f s] by (auto simp: ends_in_def)

lemma ends_in_bind_persist:
  "P s \<Longrightarrow> (\<And>p. ends_in P (g ()) (f (s\<lparr>cl_power := p\<rparr>))) \<Longrightarrow> ends_in P (ebind (persist f) g) s"
  using persist_cases [of f s] by (auto simp: ends_in_bind)

lemma tabularD: "tabular P \<Longrightarrow> tables s = tables s' \<Longrightarrow> P s = P s'"
  unfolding tabular_def by blast

lemma keeps_tables_basic [simp]:
  "keeps_tables (eret x)" "keeps_tables (eraise e)" "keeps_tables (elift r)"
  "keeps_tables (eget h)" "keeps_tables (eread q)"
  by (simp_all add: keeps_tables_def elift_def)

lemma keeps_tables_bind [intro]:
  "keeps_tables m \<Longrightarrow> (\<And>x. keeps_tables (g x)) \<Longrightarrow> keeps_tables (ebind m g)"
  by (auto simp: keeps_tables_def ebind_def split: prod.splits sum.splits) (metis snd_conv)+

lemma keeps_tables_persist: "(\<And>s. tables (f s) = tables s) \<Longrightarrow> keeps_tables (persist f)"
  by (metis keeps_tables_def persist_cases snd_conv tables_power)

lemma keeps_tables_each [intro]: "(\<And>x. keeps_tables (f x)) \<Longrightarrow> keeps_tables (each f xs)"
  by (induction xs) (auto intro!: keeps_tables_bind)

lemma keeps_tables_files:
  "keeps_tables (write_filemap_atomic d)" "keeps_tables (rewrite_tombstone_ledger ts)"
  "keeps_tables (move_staging_orphan n)" "keeps_tables (unlink_staging n)"
  by (auto simp: write_filemap_atomic_def rewrite_tombstone_ledger_def move_staging_orphan_def
      unlink_staging_def tables_def intro!: keeps_tables_bind keeps_tables_persist split: option.splits)

lemma keeps_tables_operations [simp]:
  "keeps_tables (write_filemap_atomic d)" "keeps_tables (rewrite_tombstone_ledger ts)"
  "keeps_tables (persist_manifest_convergence d m ls at)"
  "keeps_tables isolate_staging_orphans" "keeps_tables cleanup_commit_staging_artifacts"
  by (auto simp: persist_manifest_convergence_def isolate_staging_orphans_def
      cleanup_commit_staging_artifacts_def intro!: keeps_tables_bind keeps_tables_files)

lemma ends_in_keeps:
  "keeps_tables m \<Longrightarrow> tabular P \<Longrightarrow> P s \<Longrightarrow>
     (\<And>x s'. tables s' = tables s \<Longrightarrow> P s' \<Longrightarrow> ends_in P (g x) s') \<Longrightarrow> ends_in P (ebind m g) s"
  unfolding ends_in_bind keeps_tables_def tabular_def
  by (cases "m s") (metis (no_types, lifting) snd_conv sum.case_eq_if prod.case)

section \<open>What can be on disk\<close>

text \<open>
  Rows are well formed and stored under their vault. Without a journal the vault is not locked;
  with one the vault exists and the journal is \<open>prepared\<close>, or \<open>submitted\<close> and the vault locked.
\<close>

definition coherent_vault :: "vault_state option \<Rightarrow> commit_journal option \<Rightarrow> bool" where
  "coherent_vault st j \<longleftrightarrow> (case (st, j) of
     (None, None) \<Rightarrow> True
   | (None, Some _) \<Rightarrow> False
   | (Some s, None) \<Rightarrow> \<not> vs_commit_in_progress s
   | (Some s, Some j) \<Rightarrow> cj_status j = ''prepared''
       \<or> cj_status j = ''submitted'' \<and> vs_commit_in_progress s)"

definition commit_coherent :: "client \<Rightarrow> bool" where
  "commit_coherent s \<longleftrightarrow> vault_states.rows_ok wf_vault_state s
     \<and> commit_journals.rows_ok wf_commit_journal s
     \<and> (\<forall>v. coherent_vault (cl_vault_state s v) (cl_commit_journal s v))"

lemma coherent_tabular [simp]: "tabular commit_coherent"
  by (simp add: tabular_def tables_def commit_coherent_def vault_states.rows_ok_def
      commit_journals.rows_ok_def)

lemma coherent_rows:
  assumes "commit_coherent s"
  shows "cl_vault_state s v = Some st \<Longrightarrow> vs_vault_id st = v \<and> wf_vault_state st"
    "cl_commit_journal s v = Some j \<Longrightarrow> cj_vault_id j = v \<and> wf_commit_journal j"
  using assms unfolding commit_coherent_def
  by (blast dest: vault_states.rows_okD commit_journals.rows_okD)+

lemma coherent_loads:
  assumes "commit_coherent s"
  shows "load_vault_state v s = Inr (cl_vault_state s v)"
    "load_commit_intent_journal v s = Inr (cl_commit_journal s v)"
  using coherent_rows [OF assms, of v]
  by (auto simp: load_vault_state_def load_commit_intent_journal_def VaultStateRecord_eq_Inr
      CommitIntentJournalRecord_eq_Inr rbind_eq_Inr split: option.splits)

lemma coherent_vaultD: "commit_coherent s \<Longrightarrow> coherent_vault (cl_vault_state s v) (cl_commit_journal s v)"
  by (simp add: commit_coherent_def)

lemma coherent_put_state:
  assumes "commit_coherent s" "wf_vault_state st" "coherent_vault (Some st) (cl_commit_journal s (vs_vault_id st))"
  shows "commit_coherent (put_vault_state st s)"
  using assms vault_states.rows_ok_put [of wf_vault_state s st]
  by (auto simp: commit_coherent_def put_vault_state_def commit_journals.rows_ok_def)

lemma coherent_put_journal:
  assumes "commit_coherent s" "wf_commit_journal j" "coherent_vault (cl_vault_state s (cj_vault_id j)) (Some j)"
  shows "commit_coherent (put_commit_journal j s)"
  using assms commit_journals.rows_ok_put [of wf_commit_journal s j]
  by (auto simp: commit_coherent_def put_commit_journal_def vault_states.rows_ok_def)

lemma coherent_power [simp]: "commit_coherent (s\<lparr>cl_power := p\<rparr>) = commit_coherent s"
  using coherent_tabular by (metis tables_power tabular_def)

text \<open>The recovery and finalization transactions: one write that unlocks and drops the journal.\<close>

lemma release_status [simp]:
  "cj_vault_id j = v \<Longrightarrow> del_commit_journal v (put_vault_state st (set_journal_status n j s))
     = del_commit_journal v (put_vault_state st s)"
  by (simp add: table_defs set_journal_status_def fun_upd_twist)

lemma coherent_release:
  assumes "commit_coherent s" "wf_vault_state st" "\<not> vs_commit_in_progress st" "vs_vault_id st = v"
  shows "commit_coherent (del_commit_journal v (put_vault_state st s))"
proof -
  let ?s = "del_commit_journal v (put_vault_state st s)"
  have "vault_states.rows_ok wf_vault_state ?s = vault_states.rows_ok wf_vault_state (put_vault_state st s)"
    by (simp add: vault_states.rows_ok_def del_commit_journal_def)
  moreover have "vault_states.rows_ok wf_vault_state (put_vault_state st s)"
    using assms(1,2) by (simp add: vault_states.rows_ok_put commit_coherent_def)
  moreover have "commit_journals.rows_ok wf_commit_journal ?s"
    using assms(1) by (intro commit_journals.rows_ok_del)
      (simp add: commit_coherent_def commit_journals.rows_ok_def put_vault_state_def)
  moreover have "coherent_vault (cl_vault_state ?s w) (cl_commit_journal ?s w)" for w
    using coherent_vaultD [OF assms(1), of w] assms(3,4)
    by (simp add: table_defs coherent_vault_def split: option.splits)
  ultimately show ?thesis by (simp add: commit_coherent_def)
qed

section \<open>Every operation keeps it\<close>

lemma released:
  "apply_prepared_commit_recovery st = Inr st' \<Longrightarrow>
     wf_vault_state st' \<and> \<not> vs_commit_in_progress st' \<and> vs_vault_id st' = vs_vault_id st"
  "apply_commit_success_state st r h = Inr st' \<Longrightarrow>
     wf_vault_state st' \<and> \<not> vs_commit_in_progress st' \<and> vs_vault_id st' = vs_vault_id st"
  "apply_submitted_commit_match_recovery st r ob mh = Inr st' \<Longrightarrow>
     wf_vault_state st' \<and> \<not> vs_commit_in_progress st' \<and> vs_vault_id st' = vs_vault_id st"
  by (auto simp: transformer_defs VaultStateRecord_eq_Inr)

lemmas release_defs = recover_prepared_commit_cleanup_def finalize_committed_state_def
  recover_submitted_commit_match_def recover_submitted_commit_miss_def
  recover_submitted_commit_from_manifest_def recover_orphaned_commit_lock_def
  apply_submitted_commit_miss_recovery_def apply_orphaned_commit_lock_recovery_def both_exist_def

lemma release_step:
  assumes c: "commit_coherent s" and st: "cl_vault_state s v = Some st"
    and w: "wf_vault_state st' \<and> \<not> vs_commit_in_progress st' \<and> vs_vault_id st' = vs_vault_id st"
    and j: "cl_commit_journal s v = Some j"
  shows "ends_in commit_coherent (ebind (persist (del_commit_journal v \<circ> put_vault_state st'
      \<circ> set_journal_status n j)) (\<lambda>_. eret x)) s"
    "ends_in commit_coherent (ebind (persist (del_commit_journal v \<circ> put_vault_state st')) (\<lambda>_. eret x)) s"
proof -
  have v: "vs_vault_id st' = v" using coherent_rows(1) [OF c st] w by simp
  have jv: "cj_vault_id j = v" using coherent_rows(2) [OF c j] by simp
  have "commit_coherent (del_commit_journal v (put_vault_state st' (s\<lparr>cl_power := p\<rparr>)))" for p
    by (rule coherent_release) (use c w v in simp_all)
  then show "ends_in commit_coherent (ebind (persist (del_commit_journal v \<circ> put_vault_state st'
      \<circ> set_journal_status n j)) (\<lambda>_. eret x)) s"
    "ends_in commit_coherent (ebind (persist (del_commit_journal v \<circ> put_vault_state st')) (\<lambda>_. eret x)) s"
    using c jv by (auto intro!: ends_in_bind_persist simp: ends_simps)
qed

lemma release_coherent:
  assumes c: "commit_coherent s"
  shows "ends_in commit_coherent (recover_prepared_commit_cleanup v) s"
    "ends_in commit_coherent (finalize_committed_state v r h) s"
    "ends_in commit_coherent (recover_submitted_commit_match v r ob mh at) s"
    "ends_in commit_coherent (recover_submitted_commit_miss v at) s"
    "ends_in commit_coherent (recover_orphaned_commit_lock v) s"
proof -
  note rows = coherent_rows [OF c, of v]
  show "ends_in commit_coherent (recover_prepared_commit_cleanup v) s"
    "ends_in commit_coherent (finalize_committed_state v r h) s"
    "ends_in commit_coherent (recover_submitted_commit_match v r ob mh at) s"
    "ends_in commit_coherent (recover_submitted_commit_miss v at) s"
    using c by (auto simp: release_defs ends_simps coherent_loads split: option.splits sum.splits
      intro!: release_step dest: released)
  show "ends_in commit_coherent (recover_orphaned_commit_lock v) s"
    using c coherent_vaultD [OF c, of v]
    by (auto simp: release_defs ends_simps coherent_loads coherent_vault_def split: option.splits sum.splits)
qed

lemma ends_in_compose:
  "ends_in commit_coherent m s \<Longrightarrow> (\<And>x s'. commit_coherent s' \<Longrightarrow> ends_in commit_coherent (g x) s')
     \<Longrightarrow> ends_in commit_coherent (ebind m g) s"
  unfolding ends_in_bind by (auto simp: ends_in_def split: prod.splits sum.splits)

lemma ends_in_kept:
  "keeps_tables m \<Longrightarrow> commit_coherent s \<Longrightarrow>
     (\<And>x s'. tables s' = tables s \<Longrightarrow> commit_coherent s' \<Longrightarrow> ends_in commit_coherent (g x) s')
     \<Longrightarrow> ends_in commit_coherent (ebind m g) s"
  by (rule ends_in_keeps) simp_all

lemma ends_in_keeps_only: "keeps_tables m \<Longrightarrow> commit_coherent s \<Longrightarrow> ends_in commit_coherent m s"
  unfolding ends_in_def keeps_tables_def using coherent_tabular by (metis tabular_def)

lemma submitted_state: 
  "apply_commit_submitted_state st = Inr st' \<longleftrightarrow> st' = st\<lparr>vs_commit_in_progress := True\<rparr> \<and> wf_vault_state st'"
  by (auto simp: apply_commit_submitted_state_def VaultStateRecord_eq_Inr)

text \<open>Starting and submitting a commit, from the state the device holds.\<close>

lemma submit_keeps:
  assumes c: "commit_coherent s" and l: "\<And>st. cl_vault_state s v = Some st \<Longrightarrow> vs_commit_in_progress st"
  shows "ends_in commit_coherent (submit_prepared_commit sha nfc v d ts at plan) s"
proof -
  have "commit_coherent (put_commit_journal j' (s\<lparr>cl_power := p\<rparr>))"
    if "cl_vault_state s v = Some st" "wf_commit_journal j'" "cj_vault_id j' = v"
      "cj_status j' = ''submitted''" for j' p st
    using that l by (intro coherent_put_journal) (simp_all add: c coherent_vault_def)
  then show ?thesis
    using c coherent_rows(2) [OF c, of v]
    by (auto simp: submit_prepared_commit_def ends_simps coherent_loads Let_def upsert_commit_intent_journal_def
        CommitIntentJournalRecord_eq_Inr
        split: option.splits sum.splits intro!: ends_in_bind_persist)
qed

definition started_journal :: "vault_state \<Rightarrow> string \<Rightarrow> string \<Rightarrow> int \<Rightarrow> commit_journal" where
  "started_journal st i dev at = \<lparr>cj_vault_id = vs_vault_id st, cj_commit_intent_id = i,
     cj_intent_manifest_hash = ''pending'', cj_base_revision = vs_last_applied_revision st,
     cj_created_by_device = dev, cj_status = ''prepared'', cj_created_at = at, cj_updated_at = at,
     cj_intent_delete_seq_upper_bound =
       (if vs_local_delete_sequence st > 0 then Some (vs_local_delete_sequence st) else None)\<rparr>"

lemmas start_defs = prepare_commit_submission_def prepare_frozen_commit_intent_def
  prepare_commit_intent_def [folded started_journal_def] upsert_commit_intent_journal_def
  upsert_vault_state_def

lemma started_journal_sel [simp]:
  "cj_vault_id (started_journal st i dev at) = vs_vault_id st"
  "cj_status (started_journal st i dev at) = ''prepared''"
  "cj_base_revision (started_journal st i dev at) = vs_last_applied_revision st"
  by (simp_all add: started_journal_def)

lemma prepare_keeps:
  assumes c: "commit_coherent s" and st: "cl_vault_state s v = Some st"
  shows "ends_in commit_coherent (prepare_commit_submission sha nfc st d ts i dev at) s"
proof -
  have v: "vs_vault_id st = v" "wf_vault_state st" using coherent_rows(1) [OF c st] by simp_all
  have j: "commit_coherent (put_commit_journal j (s\<lparr>cl_power := p\<rparr>))"
    if "wf_commit_journal j" "cj_vault_id j = v" "cj_status j = ''prepared''" for j p
    using that st by (intro coherent_put_journal) (simp_all add: c coherent_vault_def)
  have js: "commit_coherent (put_vault_state st' (put_commit_journal j (s\<lparr>cl_power := p\<rparr>)\<lparr>cl_power := q\<rparr>))"
    if "wf_commit_journal j" "cj_vault_id j = v" "cj_status j = ''prepared''" "wf_vault_state st'"
      "vs_vault_id st' = v" for j p q st'
    using j [of j p] that
    by (intro coherent_put_state; simp) (simp add: coherent_vault_def table_defs)
  show ?thesis
    using c v
    by (auto simp: start_defs ends_simps coherent_loads submitted_state CommitIntentJournalRecord_eq_Inr
        vault_states.get_put
        split: option.splits sum.splits intro!: ends_in_bind_persist j js ends_in_compose [OF submit_keeps])
qed

lemma orphaned_keeps:
  "commit_coherent s \<Longrightarrow> ends_in commit_coherent (recover_orphaned_commit_session v) s"
  by (auto simp: recover_orphaned_commit_session_def ends_simps
      intro!: ends_in_kept ends_in_compose [OF release_coherent(5)])

lemma session_keeps:
  assumes c: "commit_coherent s"
  shows "ends_in commit_coherent (finalize_commit_submission sha nfc m ts r) s"
    "ends_in commit_coherent (cleanup_failed_commit_submission v at) s"
    "ends_in commit_coherent (abort_drifted_commit_snapshot v p d) s"
    "ends_in commit_coherent (recover_local_commit_state v) s"
proof -
  show "ends_in commit_coherent (finalize_commit_submission sha nfc m ts r) s"
    using c
    by (auto simp: finalize_commit_submission_def ends_simps coherent_loads
        split: option.splits sum.splits
        intro!: ends_in_kept ends_in_compose [OF release_coherent(2)])
  show "ends_in commit_coherent (cleanup_failed_commit_submission v at) s"
    using c
    by (auto simp: cleanup_failed_commit_submission_def ends_simps coherent_loads
        split: option.splits sum.splits intro!: release_coherent)
  show "ends_in commit_coherent (abort_drifted_commit_snapshot v p d) s"
    using c
    by (auto simp: abort_drifted_commit_snapshot_def ends_simps split: option.splits sum.splits
        intro!: ends_in_compose [OF release_coherent(1)] ends_in_kept)
  show "ends_in commit_coherent (recover_local_commit_state v) s"
    using c
    by (auto simp: recover_local_commit_state_def ends_simps coherent_loads
        split: option.splits sum.splits recovery_mode.splits
        intro!: ends_in_compose [OF release_coherent(1)] ends_in_compose [OF orphaned_keeps]
          ends_in_kept [of isolate_staging_orphans])
qed

lemma finalize_cleanup_keeps:
  "commit_coherent s \<Longrightarrow> ends_in commit_coherent (finalize_commit_submission_cleanup sha nfc m ts r) s"
  by (auto simp: finalize_commit_submission_cleanup_def ends_simps
      intro!: ends_in_compose [OF session_keeps(1)] ends_in_kept)

text \<open>Moving the state forward without touching the lock.\<close>

lemma same_lock_keeps:
  assumes c: "commit_coherent s" and st: "cl_vault_state s v = Some st"
    and st': "wf_vault_state st'" "vs_vault_id st' = v" "vs_commit_in_progress st' = vs_commit_in_progress st"
  shows "commit_coherent (put_vault_state st' (s\<lparr>cl_power := p\<rparr>))"
  using coherent_vaultD [OF c, of v] c st st'
  by (intro coherent_put_state) (auto simp: coherent_vault_def split: option.splits)

lemma reconciled_keeps:
  assumes c: "commit_coherent s" and st: "cl_vault_state s v = Some st"
  shows "apply_manifest_reconciled_state st r h = Inr st' \<Longrightarrow> commit_coherent (put_vault_state st' (s\<lparr>cl_power := p\<rparr>))"
    "apply_manifest_summary_stale st = Inr st' \<Longrightarrow> commit_coherent (put_vault_state st' (s\<lparr>cl_power := p\<rparr>))"
  using coherent_rows(1) [OF c st]
  by (auto simp: reconciled_eq_Inr apply_manifest_summary_stale_def VaultStateRecord_eq_Inr
      intro!: same_lock_keeps [OF c st])

lemma pulled_state_keeps:
  assumes c: "commit_coherent s" and st: "cl_vault_state s (mn_vault_id m) = Some st"
  shows "ends_in commit_coherent (ebind (persist_manifest_convergence d m ts at) (\<lambda>c.
     ebind (elift (apply_manifest_reconciled_state st (mn_revision m) h)) (\<lambda>st'.
     ebind (upsert_vault_state st') (\<lambda>_. eret (x c st'))))) s"
proof (rule ends_in_kept [OF _ c])
  fix y s' assume t: "tables s' = tables s" and c': "commit_coherent s'"
  then have "cl_vault_state s' (mn_vault_id m) = Some st" using st by (simp add: tables_def)
  from reconciled_keeps(1) [OF c' this] c'
  show "ends_in commit_coherent (ebind (elift (apply_manifest_reconciled_state st (mn_revision m) h)) (\<lambda>st'.
     ebind (upsert_vault_state st') (\<lambda>_. eret (x y st')))) s'"
    by (auto simp: ends_simps upsert_vault_state_def intro!: ends_in_bind_persist split: sum.splits)
qed simp

lemma pull_keeps:
  "commit_coherent s \<Longrightarrow> ends_in commit_coherent (apply_pulled_manifest sha nfc d m ts at) s"
  by (auto simp: apply_pulled_manifest_def ends_simps coherent_loads split: option.splits
      intro: pulled_state_keeps)

lemma execute_pull_keeps:
  "commit_coherent s \<Longrightarrow> ends_in commit_coherent (execute_pull_reconcile sha nfc d st ts head at mo) s"
  by (auto simp: execute_pull_reconcile_def ends_simps Let_def split: option.splits
      intro!: ends_in_compose [OF pull_keeps])

lemma finalizing_keeps:
  assumes c: "commit_coherent s"
  shows "ends_in commit_coherent (recover_sync_apply_finalizing_state v) s"
proof -
  have "commit_coherent (del_apply_journal w s') = commit_coherent s'" for w s'
    by (rule tabularD [OF coherent_tabular]) (simp add: tables_def del_apply_journal_def)
  then show ?thesis
    using c
    by (auto simp: recover_sync_apply_finalizing_state_def both_exist_def ends_simps coherent_loads
        apply_sync_finalizing_recovery_def split: option.splits sum.splits
        intro!: ends_in_bind_persist reconciled_keeps(1) [OF c])
qed

lemma confirmation_keeps:
  assumes c: "commit_coherent s"
  shows "ends_in commit_coherent (recover_submitted_commit_flow sha nfc v ts r ob at mo) s"
    "ends_in commit_coherent (execute_submitted_commit_confirmation_remote_state sha nfc v ts at remote) s"
proof -
  show "ends_in commit_coherent (recover_submitted_commit_flow sha nfc v ts r ob at mo) s" for r ob mo
    using c
    by (cases mo) (auto simp: recover_submitted_commit_flow_def recover_submitted_commit_from_manifest_def
        ends_simps coherent_loads
        split: option.splits sum.splits intro!: ends_in_compose [OF release_coherent(3)] ends_in_kept)
  then show "ends_in commit_coherent (execute_submitted_commit_confirmation_remote_state sha nfc v ts at remote) s"
    using c
    by (auto simp: execute_submitted_commit_confirmation_remote_state_def ends_simps coherent_loads Let_def
        split: option.splits sum.splits intro!: ends_in_compose ends_in_compose [OF release_coherent(4)])
qed

lemma resume_keeps:
  "commit_coherent s \<Longrightarrow> ends_in commit_coherent (resume_commit_recovery sha nfc v at i) s"
  by (auto simp: resume_commit_recovery_def ends_simps coherent_loads
      split: option.splits sum.splits
      intro!: ends_in_compose [OF session_keeps(4)] ends_in_compose [OF confirmation_keeps(2)])

lemma initialize_keeps:
  assumes c: "commit_coherent s"
  shows "ends_in commit_coherent (initialize_vault_state sha nfc v n b meta) s"
proof -
  have "commit_coherent (put_vault_state r (s\<lparr>cl_power := p\<rparr>))"
    if n: "cl_vault_state s v = None" and r: "build_initial_vault_state sha nfc v n b meta = Inr r" for r p
    using coherent_vaultD [OF c, of v] n r c
    by (intro coherent_put_state)
      (auto simp: build_initial_vault_state_def result_simps coherent_vault_def split: option.splits)
  then show ?thesis
    using c by (auto simp: initialize_vault_state_def ends_simps coherent_loads upsert_vault_state_def
        split: option.splits sum.splits intro!: ends_in_bind_persist)
qed

section \<open>The transition system\<close>

text \<open>One session-level operation with its outcome forgotten: what counts is the store it leaves,
  wherever the power failed. Operations that take the vault state get the one the store holds.\<close>

inductive client_step ::
  "(string \<Rightarrow> string) \<Rightarrow> (string \<Rightarrow> string) \<Rightarrow> client \<Rightarrow> client \<Rightarrow> bool" for sha nfc where
  Initialize: "client_step sha nfc s (snd (initialize_vault_state sha nfc v n b meta s))"
| Start: "load_vault_state v s = Inr (Some st) \<Longrightarrow>
    client_step sha nfc s (snd (prepare_commit_submission sha nfc st d ts i dev at s))"
| Finalize: "client_step sha nfc s (snd (finalize_commit_submission_cleanup sha nfc m ts r s))"
| Abandon: "client_step sha nfc s (snd (cleanup_failed_commit_submission v at s))"
| Abort_Drift: "client_step sha nfc s (snd (abort_drifted_commit_snapshot v p d s))"
| Resume: "client_step sha nfc s (snd (resume_commit_recovery sha nfc v at i s))"
| Pull: "client_step sha nfc s (snd (execute_pull_reconcile sha nfc d st ts head at mo s))"
| Finish_Apply: "client_step sha nfc s (snd (recover_sync_apply_finalizing_state v s))"
| Mark_Stale: "load_vault_state v s = Inr (Some st) \<Longrightarrow> apply_manifest_summary_stale st = Inr st' \<Longrightarrow>
    client_step sha nfc s (snd (upsert_vault_state st' s))"
| Power: "client_step sha nfc s (s\<lparr>cl_power := p\<rparr>)"

inductive client_reachable ::
  "(string \<Rightarrow> string) \<Rightarrow> (string \<Rightarrow> string) \<Rightarrow> client \<Rightarrow> bool" for sha nfc where
  Fresh: "cl_vault_state s = (\<lambda>_. None) \<Longrightarrow> cl_commit_journal s = (\<lambda>_. None) \<Longrightarrow> client_reachable sha nfc s"
| Step: "client_reachable sha nfc s \<Longrightarrow> client_step sha nfc s s' \<Longrightarrow> client_reachable sha nfc s'"

lemma fresh_coherent:
  "cl_vault_state s = (\<lambda>_. None) \<Longrightarrow> cl_commit_journal s = (\<lambda>_. None) \<Longrightarrow> commit_coherent s"
  by (simp add: commit_coherent_def vault_states.rows_ok_def commit_journals.rows_ok_def coherent_vault_def)

lemma step_coherent: "client_step sha nfc s s' \<Longrightarrow> commit_coherent s \<Longrightarrow> commit_coherent s'"
proof (induction rule: client_step.induct)
  case (Start v s st d ts i dev at)
  then show ?case using prepare_keeps [of s v st] by (simp add: coherent_loads ends_in_def)
next
  case (Mark_Stale v s st st')
  then show ?case
    using ends_in_persist [of commit_coherent s "put_vault_state st'"] reconciled_keeps(2) [of s v st]
    by (simp add: coherent_loads ends_in_def upsert_vault_state_def)
qed (use initialize_keeps finalize_cleanup_keeps session_keeps execute_pull_keeps resume_keeps
       finalizing_keeps in \<open>auto simp: ends_in_def\<close>)

lemma reachable_coherent: "client_reachable sha nfc s \<Longrightarrow> commit_coherent s"
  by (induction rule: client_reachable.induct) (auto intro: fresh_coherent step_coherent)

end
