(* ===== verification/Commit_Recovery.thy ===== *)
theory Commit_Recovery
  imports Commit_Protocol
begin

text \<open>
  Getting out of an interrupted commit: what local recovery does with power, what a submission
  cut short can leave behind, the confirmation of a submitted commit against the server, and the
  finalization of an accepted one.
\<close>

section \<open>Running with power\<close>

lemma move_with_power:
  assumes "cl_power s = None"
  shows "\<exists>t s'. move_staging_orphan n s = (Inr t, s') \<and> cl_power s' = None \<and> tables s' = tables s
    \<and> cl_staging s' = filter (\<lambda>(m, _). m \<noteq> n) (cl_staging s)"
proof (cases "map_of (cl_staging s) n")
  case None
  then have "\<forall>e \<in> set (cl_staging s). fst e \<noteq> n" by (auto simp: map_of_eq_None_iff)
  then have "filter (\<lambda>(m, _). m \<noteq> n) (cl_staging s) = cl_staging s" by (simp add: filter_id_conv split_def)
  with None assms show ?thesis by (simp add: move_staging_orphan_def del: map_of_eq_None_iff)
next
  case (Some a)
  with assms show ?thesis by (simp add: move_staging_orphan_def tables_def)
qed

lemma isolate_with_power:
  assumes "cl_power s = None"
  shows "\<exists>ts s'. isolate_staging_orphans s = (Inr ts, s') \<and> cl_power s' = None \<and> tables s' = tables s
    \<and> cl_staging s' = []"
proof -
  have "\<exists>ts s'. each move_staging_orphan ns s = (Inr ts, s') \<and> cl_power s' = None \<and> tables s' = tables s
      \<and> cl_staging s' = filter (\<lambda>(m, _). m \<notin> set ns) (cl_staging s)" if "cl_power s = None" for ns s
    using that
  proof (induction ns arbitrary: s)
    case (Cons n ns)
    obtain t s1 where 1: "move_staging_orphan n s = (Inr t, s1)" "cl_power s1 = None" "tables s1 = tables s"
      "cl_staging s1 = filter (\<lambda>(m, _). m \<noteq> n) (cl_staging s)"
      using move_with_power [OF Cons.prems] by blast
    obtain ts s2 where "each move_staging_orphan ns s1 = (Inr ts, s2)" "cl_power s2 = None"
      "tables s2 = tables s1" "cl_staging s2 = filter (\<lambda>(m, _). m \<notin> set ns) (cl_staging s1)"
      using Cons.IH [OF 1(2)] by blast
    with 1 show ?case by (auto simp: ebind_def split_def conj_commute intro!: filter_cong)
  qed (simp add: split_def)
  from this [OF assms, of "map fst (staged_files s)"] show ?thesis
    by (auto simp: isolate_staging_orphans_def staged_files_def split_def filter_empty_conv image_iff)
qed

lemma tables_eqD:
  "tables s = tables s' \<Longrightarrow> cl_vault_state s = cl_vault_state s' \<and> cl_commit_journal s = cl_commit_journal s'"
  by (simp add: tables_def)

lemma prepared_cleanup_with_power:
  assumes "commit_coherent s" "cl_power s = None" "cl_vault_state s v = Some st"
    and "cl_commit_journal s v = Some j" "cj_status j = ''prepared''"
  shows "recover_prepared_commit_cleanup v s = (Inr (st\<lparr>vs_commit_in_progress := False\<rparr>),
    del_commit_journal v (put_vault_state (st\<lparr>vs_commit_in_progress := False\<rparr>) s))"
  using assms coherent_rows(1) [OF assms(1,3)]
  by (simp add: recover_prepared_commit_cleanup_def coherent_loads both_exist_def ebind_eread)

text \<open>What local recovery does in a coherent store whose journal is not submitted.\<close>

lemma local_recovery:
  assumes c: "commit_coherent s" and p: "cl_power s = None" and st: "cl_vault_state s v = Some st"
    and j: "\<And>j. cl_commit_journal s v = Some j \<Longrightarrow> cj_status j \<noteq> ''submitted''"
  shows "\<exists>mode moved s'. recover_local_commit_state v s
      = (Inr (mode, st\<lparr>vs_commit_in_progress := False\<rparr>, moved), s')
    \<and> tables s' = ((cl_vault_state s)(v \<mapsto> st\<lparr>vs_commit_in_progress := False\<rparr>), (cl_commit_journal s)(v := None))
    \<and> (cl_commit_journal s v = None \<and> s' = s
       \<or> cl_commit_journal s v \<noteq> None \<and> cl_staging s' = [])"
proof (cases "cl_commit_journal s v")
  case None
  then have "\<not> vs_commit_in_progress st"
    using coherent_vaultD [OF c, of v] st by (simp add: coherent_vault_def)
  then have "st\<lparr>vs_commit_in_progress := False\<rparr> = st" by simp
  with None st c show ?thesis
    by (simp add: recover_local_commit_state_def coherent_loads ebind_eread ebind_elift plan_commit_recovery_def
        \<open>\<not> vs_commit_in_progress st\<close> tables_def fun_upd_idem)
next
  case (Some j')
  then have pr: "cj_status j' = ''prepared''"
    using coherent_vaultD [OF c, of v] st assms(4) by (simp add: coherent_vault_def)
  obtain ts s1 where s1: "isolate_staging_orphans s = (Inr ts, s1)" "cl_power s1 = None"
    "tables s1 = tables s" "cl_staging s1 = []"
    using isolate_with_power [OF p] by blast
  have v: "vs_vault_id st = v" using coherent_rows(1) [OF c st] by simp
  have c1: "commit_coherent s1" using tabularD [OF coherent_tabular s1(3)] c by simp
  have "recover_prepared_commit_cleanup v s1 = (Inr (st\<lparr>vs_commit_in_progress := False\<rparr>),
      del_commit_journal v (put_vault_state (st\<lparr>vs_commit_in_progress := False\<rparr>) s1))"
    by (rule prepared_cleanup_with_power [OF c1 s1(2) _ _ pr])
      (use st Some tables_eqD [OF s1(3)] in simp_all)
  with s1 Some st c pr v tables_eqD [OF s1(3)] show ?thesis
    by (simp add: recover_local_commit_state_def coherent_loads ebind_eread ebind_elift plan_commit_recovery_def
        ebind_apply_Inr table_defs tables_def)
qed


text \<open>What submitting a commit can leave behind, by the journal it leaves.\<close>

definition submission_traces :: "client \<Rightarrow> string \<Rightarrow> vault_state \<Rightarrow> client \<Rightarrow> bool" where
  "submission_traces s v st s' \<longleftrightarrow>
     tables s' = tables s
     \<or> (\<exists>j st'. wf_commit_journal j \<and> cj_vault_id j = v \<and> cj_status j \<in> {''prepared'', ''submitted''}
         \<and> tables s' = ((cl_vault_state s)(v \<mapsto> st'), (cl_commit_journal s)(v \<mapsto> j))
         \<and> st' \<in> {st, st\<lparr>vs_commit_in_progress := True\<rparr>})"

lemma traces_tabular: "tables s' = tables s'' \<Longrightarrow> submission_traces s v st s' = submission_traces s v st s''"
  by (simp add: submission_traces_def)

lemma traces_power [simp]:
  "submission_traces s v st (s'\<lparr>cl_power := p\<rparr>) = submission_traces s v st s'"
  by (rule traces_tabular) simp

lemma submit_traces:
  assumes c: "commit_coherent s'" and t: "submission_traces s v st s'" and j: "cl_commit_journal s v = None"
  shows "ends_in (submission_traces s v st) (submit_prepared_commit sha nfc v d ts at plan) s'"
proof -
  have "submission_traces s v st (put_commit_journal j' (s'\<lparr>cl_power := p\<rparr>))"
    if k: "cl_commit_journal s' v = Some k" and j': "wf_commit_journal j'" "cj_vault_id j' = v"
      "cj_status j' = ''submitted''" for j' p k
  proof -
    from t j k obtain l st' where "tables s' = ((cl_vault_state s)(v \<mapsto> st'), (cl_commit_journal s)(v \<mapsto> l))"
      "st' \<in> {st, st\<lparr>vs_commit_in_progress := True\<rparr>}"
      by (auto simp: submission_traces_def tables_def)
    with j' show ?thesis
      by (auto simp: submission_traces_def tables_def put_commit_journal_def)
  qed
  then show ?thesis
    using c t coherent_rows(2) [OF c, of v]
    by (auto simp: submit_prepared_commit_def ends_simps coherent_loads Let_def upsert_commit_intent_journal_def
        CommitIntentJournalRecord_eq_Inr
        split: option.splits sum.splits intro!: ends_in_bind_persist)
qed

lemma ends_in_result: "ends_in P (ebind m (\<lambda>x. eret (h x))) s = ends_in P m s"
  by (simp add: ends_in_def ebind_def split: prod.splits sum.splits)

lemma prepare_traces:
  assumes c: "commit_coherent s" and st: "cl_vault_state s v = Some st"
    and j: "cl_commit_journal s v = None"
  shows "ends_in (submission_traces s v st) (prepare_commit_submission sha nfc st d ts i dev at) s"
proof -
  have v: "vs_vault_id st = v" "wf_vault_state st" using coherent_rows(1) [OF c st] by simp_all
  let ?j = "started_journal st i dev at" and ?st = "st\<lparr>vs_commit_in_progress := True\<rparr>"
  have s0: "submission_traces s v st s" by (simp add: submission_traces_def)
  have s1: "submission_traces s v st (put_commit_journal ?j (s\<lparr>cl_power := p\<rparr>))"
    and s2: "submission_traces s v st (put_vault_state ?st (put_commit_journal ?j (s\<lparr>cl_power := p\<rparr>)\<lparr>cl_power := q\<rparr>))"
    and c2: "commit_coherent (put_vault_state ?st (put_commit_journal ?j (s\<lparr>cl_power := p\<rparr>)\<lparr>cl_power := q\<rparr>))"
    if "wf_commit_journal ?j" for p q
  proof -
    have "(cl_vault_state s)(v \<mapsto> st) = cl_vault_state s" using st by (simp add: fun_upd_idem)
    then show "submission_traces s v st (put_commit_journal ?j (s\<lparr>cl_power := p\<rparr>))"
      "submission_traces s v st (put_vault_state ?st (put_commit_journal ?j (s\<lparr>cl_power := p\<rparr>)\<lparr>cl_power := q\<rparr>))"
      unfolding submission_traces_def using that v
      by (intro disjI2 exI [of _ ?j] exI [of _ st] exI [of _ ?st]; simp add: table_defs tables_def)+
    have "commit_coherent (put_commit_journal ?j (s\<lparr>cl_power := p\<rparr>))"
      using that st v by (intro coherent_put_journal) (simp_all add: c coherent_vault_def)
    moreover have "wf_vault_state ?st" using v by (simp add: wf_vault_state_iff)
    ultimately show "commit_coherent (put_vault_state ?st (put_commit_journal ?j (s\<lparr>cl_power := p\<rparr>)\<lparr>cl_power := q\<rparr>))"
      using v(1) by (intro coherent_put_state) (simp_all add: coherent_vault_def commit_journals.get_put)
  qed
  have compose: "ends_in (submission_traces s v st) (ebind (submit_prepared_commit sha nfc v d ts at plan)
      (\<lambda>su. eret (h su))) s'"
    if "commit_coherent s'" "submission_traces s v st s'" for s' plan and h :: "submission \<Rightarrow> submission"
    using submit_traces [OF that j, of sha nfc d ts at plan]
    by (simp add: ends_in_result)
  show ?thesis
    using c v(2) s0
    by (auto simp: v(1) start_defs ends_simps coherent_loads submitted_state CommitIntentJournalRecord_eq_Inr
        split: option.splits sum.splits intro!: ends_in_bind_persist s1 s2 c2 compose)
qed


section \<open>Properties\<close>

text \<open>C20: In every store a device can reach (any sequence of initialization, commit start,
  finalization, abandonment, drift abort, recovery, pull and apply recovery, each cut short by a
  power failure after any number of durable writes), a vault marked as committing has a commit
  journal, and a submitted journal has a vault that is marked as committing. The journal is never
  in the legacy acknowledged status, and recovery never finds an orphaned commit lock.\<close>

theorem reachable_commit_protocol:
  assumes "client_reachable sha nfc s" and "cl_vault_state s v = Some st"
  shows "(vs_commit_in_progress st \<longrightarrow> cl_commit_journal s v \<noteq> None)
    \<and> (\<forall>j. cl_commit_journal s v = Some j \<longrightarrow>
         cj_status j = ''prepared'' \<or> cj_status j = ''submitted'' \<and> vs_commit_in_progress st)
    \<and> plan_commit_recovery st (cl_commit_journal s v) \<noteq> Inr Orphaned_Lock"
  using coherent_vaultD [OF reachable_coherent [OF assms(1)], of v] assms(2)
  by (auto simp: coherent_vault_def plan_commit_recovery_def split: option.splits)

definition booted_client :: client where
  "booted_client = snd (initialize_vault_state (\<lambda>_. ''h'') id ''v'' 0 False None empty_client)"

definition booted_state :: vault_state where
  "booted_state = the (cl_vault_state booted_client ''v'')"

definition crashed_submission :: "client \<Rightarrow> nat option \<Rightarrow> (submission result \<times> client)" where
  "crashed_submission s p = prepare_commit_submission (\<lambda>_. ''h'') id booted_state (commit_document\<lparr>fd_files := []\<rparr>) [] ''c1'' ''dev'' 10
     (s\<lparr>cl_power := p\<rparr>)"

lemma booted_reachable: "client_reachable (\<lambda>_. ''h'') id booted_client"
  unfolding booted_client_def
  by (rule client_reachable.Step [OF client_reachable.Fresh client_step.Initialize])
    (simp_all add: empty_client_def)

lemma booted_state: "cl_vault_state booted_client ''v'' = Some booted_state"
proof -
  have "cl_vault_state booted_client ''v'' \<noteq> None" by code_simp
  then show ?thesis by (auto simp: booted_state_def)
qed

lemma booted_loads: "load_vault_state ''v'' booted_client = Inr (Some booted_state)"
  by (simp add: coherent_loads reachable_coherent [OF booted_reachable] booted_state)

lemma crashed_reachable: "client_reachable (\<lambda>_. ''h'') id (snd (crashed_submission booted_client p))"
proof -
  have "client_reachable (\<lambda>_. ''h'') id (booted_client\<lparr>cl_power := p\<rparr>)"
    by (rule client_reachable.Step [OF booted_reachable client_step.Power])
  moreover have "load_vault_state ''v'' (booted_client\<lparr>cl_power := p\<rparr>) = Inr (Some booted_state)"
    using booted_loads by (simp add: load_vault_state_def)
  ultimately show ?thesis
    unfolding crashed_submission_def by (intro client_reachable.Step [OF _ client_step.Start])
qed

theorem reachable_commit_protocol_witness:
  "\<exists>st. cl_vault_state (snd (crashed_submission booted_client (Some 2))) ''v'' = Some st
     \<and> vs_commit_in_progress st
     \<and> cl_commit_journal (snd (crashed_submission booted_client (Some 2))) ''v'' \<noteq> None"
proof -
  have "(case cl_vault_state (snd (crashed_submission booted_client (Some 2))) ''v'' of
      None \<Rightarrow> False | Some st \<Rightarrow> vs_commit_in_progress st)" by code_simp
  then obtain st where st: "cl_vault_state (snd (crashed_submission booted_client (Some 2))) ''v'' = Some st"
    "vs_commit_in_progress st" by (auto split: option.splits)
  with reachable_commit_protocol [OF crashed_reachable st(1)] show ?thesis by blast
qed

text \<open>C19: Submitting a commit is atomic up to recovery. Let a device with no commit in flight start
  and submit one, with any number of durable writes before the power fails, and any error the
  checks on the way may raise. If the journal left behind is not a submitted one, then running
  local recovery when the power is back succeeds, and gives the tables the device had before:
  the lock is released, the journal is gone, no row of another vault has changed.\<close>

theorem submission_atomic_up_to_recovery:
  assumes "client_reachable sha nfc s" and "cl_vault_state s v = Some st"
    and "cl_commit_journal s v = None"
    and "prepare_commit_submission sha nfc st d ts i dev at s = (r, s1)"
    and "\<And>j. cl_commit_journal s1 v = Some j \<Longrightarrow> cj_status j \<noteq> ''submitted''"
  shows "\<exists>mode moved s2. recover_local_commit_state v (s1\<lparr>cl_power := None\<rparr>) = (Inr (mode, st, moved), s2)
    \<and> cl_vault_state s2 = cl_vault_state s \<and> cl_commit_journal s2 = cl_commit_journal s"
proof -
  note c = reachable_coherent [OF assms(1)]
  have unlocked: "\<not> vs_commit_in_progress st"
    using coherent_vaultD [OF c, of v] assms(2,3) by (simp add: coherent_vault_def)
  have c1: "commit_coherent s1" and t: "submission_traces s v st s1"
    using prepare_keeps [OF c assms(2), of sha nfc d ts i dev at]
      prepare_traces [OF c assms(2,3), of sha nfc d ts i dev at] assms(4) by (simp_all add: ends_in_def)
  obtain st1 where st1: "cl_vault_state s1 v = Some st1" "st1\<lparr>vs_commit_in_progress := False\<rparr> = st"
    and rest: "(cl_vault_state s1)(v \<mapsto> st) = cl_vault_state s" "(cl_commit_journal s1)(v := None) = cl_commit_journal s"
    using t assms(2,3) unlocked by (auto simp: submission_traces_def tables_def fun_upd_idem)
  from local_recovery [of "s1\<lparr>cl_power := None\<rparr>" v st1] c1 st1 assms(5) rest show ?thesis
    by (auto simp: tables_def)
qed

theorem submission_atomic_up_to_recovery_witness:
  "\<exists>mode moved s2. recover_local_commit_state ''v''
       ((snd (crashed_submission booted_client (Some 2)))\<lparr>cl_power := None\<rparr>) = (Inr (mode, booted_state, moved), s2)
     \<and> cl_commit_journal s2 ''v'' = None"
proof -
  let ?s = "booted_client\<lparr>cl_power := Some 2\<rparr>"
  have r: "client_reachable (\<lambda>_. ''h'') id ?s"
    by (rule client_reachable.Step [OF booted_reachable client_step.Power])
  have "cl_commit_journal ?s ''v'' = None" by code_simp
  moreover have "case_option False (\<lambda>j. cj_status j \<noteq> ''submitted'')
      (cl_commit_journal (snd (crashed_submission booted_client (Some 2))) ''v'')" by code_simp
  ultimately show ?thesis
    using submission_atomic_up_to_recovery [OF r, of "''v''" booted_state "commit_document\<lparr>fd_files := []\<rparr>" "[]" "''c1''" "''dev''" 10
        "fst (crashed_submission booted_client (Some 2))" "snd (crashed_submission booted_client (Some 2))"]
      booted_state
    by (auto simp: crashed_submission_def split: option.splits)
qed

end
