(* ===== verification/Commit_Settlement.thy ===== *)
theory Commit_Settlement
  imports Commit_Recovery
begin

text \<open>
  Settling a commit: the confirmation of a submitted commit against what the server reports, the
  crash safety of finalization, and the crash window of the confirmation path.
\<close>

section \<open>Confirming a submitted commit\<close>

lemma miss_with_power:
  assumes "commit_coherent s" "cl_power s = None" "cl_vault_state s v = Some st"
    and "cl_commit_journal s v = Some j" "cj_status j = ''submitted''"
  shows "recover_submitted_commit_miss v at s = (Inr (st\<lparr>vs_commit_in_progress := False\<rparr>),
    del_commit_journal v (put_vault_state (st\<lparr>vs_commit_in_progress := False\<rparr>) s))"
  using assms coherent_rows [OF assms(1)]
  by (simp add: recover_submitted_commit_miss_def coherent_loads both_exist_def ebind_eread ebind_elift
      normalize_commit_journal_for_recovery_def apply_submitted_commit_miss_recovery_def)

definition matched_state :: "vault_state \<Rightarrow> int \<Rightarrow> int \<Rightarrow> string option \<Rightarrow> vault_state" where
  "matched_state s r ob h = s\<lparr>vs_last_applied_revision := max (vs_last_applied_revision s) r,
     vs_remote_head_revision := max (vs_remote_head_revision s) ob,
     vs_acked_revision := max (vs_acked_revision s) r, vs_commit_in_progress := False,
     vs_last_manifest_summary := h,
     vs_last_manifest_summary_status := (case h of None \<Rightarrow> ''stale'' | Some _ \<Rightarrow> ''valid'')\<rparr>"

lemma match_with_power:
  assumes "commit_coherent s" "cl_power s = None" "cl_vault_state s v = Some st"
    and "cl_commit_journal s v = Some j" "cj_status j = ''submitted''"
  shows "recover_submitted_commit_match v r ob h at s = (Inr (matched_state st r ob h),
    del_commit_journal v (put_vault_state (matched_state st r ob h) s))"
proof -
  have "wf_vault_state (matched_state st r ob h)"
    using coherent_rows(1) [OF assms(1,3)]
    by (auto simp: wf_vault_state_iff matched_state_def split: option.splits)
  then have "apply_submitted_commit_match_recovery st r ob h = Inr (matched_state st r ob h)"
    by (simp add: apply_submitted_commit_match_recovery_def VaultStateRecord_eq_Inr matched_state_def)
  with assms coherent_rows [OF assms(1)] show ?thesis
    by (simp add: recover_submitted_commit_match_def coherent_loads both_exist_def ebind_eread ebind_elift
      normalize_commit_journal_for_recovery_def)
qed

text \<open>The revision at which the server has the commit, if it has it.\<close>

definition remote_outcome :: "commit_journal \<Rightarrow> remote_confirmation \<Rightarrow> int option" where
  "remote_outcome j remote =
     (if rc_head_commit_intent_id remote = cj_commit_intent_id j
      then Some (rc_observed_head_revision remote)
      else map_option rm_revision (find (\<lambda>r. rm_commit_intent_id r = cj_commit_intent_id j) (rc_revisions remote)))"

definition consistent_report :: "commit_journal \<Rightarrow> remote_confirmation \<Rightarrow> bool" where
  "consistent_report j remote \<longleftrightarrow> cj_base_revision j \<le> rc_observed_head_revision remote
     \<and> list_all (\<lambda>r. cj_base_revision j < rm_revision r \<and> rm_revision r \<le> rc_observed_head_revision remote)
         (rc_revisions remote)
     \<and> (rc_head_commit_intent_id remote = cj_commit_intent_id j \<longrightarrow>
          cj_base_revision j < rc_observed_head_revision remote)
     \<and> (case rc_matched_manifest remote of None \<Rightarrow> True
        | Some m \<Rightarrow> mn_vault_id m = cj_vault_id j \<and> remote_outcome j remote = Some (mn_revision m))"

lemma find_SomeD: "find P xs = Some x \<Longrightarrow> x \<in> set xs \<and> P x"
  by (induction xs) (auto split: if_splits)

lemma outcome_after_base:
  "consistent_report j remote \<Longrightarrow> remote_outcome j remote = Some n \<Longrightarrow> cj_base_revision j < n"
  by (auto simp: consistent_report_def remote_outcome_def list_all_iff split: if_splits dest!: find_SomeD)

lemma flow_with_power:
  assumes c: "commit_coherent s" and p: "cl_power s = None" and st: "cl_vault_state s v = Some st"
    and j: "cl_commit_journal s v = Some j" "cj_status j = ''submitted''"
    and ts: "\<forall>t \<in> set ts. wf_tombstone t" "distinct (map tb_file_id ts)" and n: "0 < n"
  shows "\<exists>r s'. recover_submitted_commit_flow sha nfc v ts n ob at mo s = (Inr r, s')
    \<and> cl_commit_journal s' v = None \<and> cl_vault_state s' v = Some (sr_state r)
    \<and> sr_state r = matched_state st n ob (map_option (compute_manifest_summary_hash sha nfc) mo)
    \<and> cl_ledger s' = Some (map ledger_line (map (\<lambda>t. if covered_by_intent j t
         then t\<lparr>tb_deleted_revision := Some n\<rparr> else t) ts))"
proof -
  have v: "vs_vault_id st = v" using coherent_rows(1) [OF c st] by simp
  have t: "apply_committed_tombstones ts j n = Inr (map (\<lambda>t. if covered_by_intent j t
      then t\<lparr>tb_deleted_revision := Some n\<rparr> else t) ts)"
    using ts n by (auto simp: committed_tombstones_eq_Inr wf_tombstone_iff)
  have vm: "vs_vault_id (matched_state st n ob h) = v" for h using v by (simp add: matched_state_def)
  note m = match_with_power [OF c p st j]
  show ?thesis
    using p t j c
    by (cases mo) (simp_all add: recover_submitted_commit_flow_def recover_submitted_commit_from_manifest_def
        ebind_def coherent_loads m rewrite_tombstone_ledger_def table_defs vm)
qed

lemma confirmation_resolves_aux:
  assumes c: "commit_coherent s" and p: "cl_power s = None" and st: "cl_vault_state s v = Some st"
    and j: "cl_commit_journal s v = Some j" "cj_status j = ''submitted''"
    and r: "consistent_report j remote" and ts: "\<forall>t \<in> set ts. wf_tombstone t" "distinct (map tb_file_id ts)"
  shows "\<exists>res s'. execute_submitted_commit_confirmation_remote_state sha nfc v ts at remote s = (Inr res, s')
    \<and> cl_commit_journal s' v = None \<and> cl_vault_state s' v = Some (sr_state (cr_recovery res))
    \<and> (case remote_outcome j remote of
         None \<Rightarrow> sr_state (cr_recovery res) = st\<lparr>vs_commit_in_progress := False\<rparr> \<and> cl_ledger s' = cl_ledger s
       | Some n \<Rightarrow> sr_state (cr_recovery res) = matched_state st n (rc_observed_head_revision remote)
             (map_option (compute_manifest_summary_hash sha nfc) (rc_matched_manifest remote))
         \<and> cl_ledger s' = Some (map ledger_line (map (\<lambda>t. if covered_by_intent j t
               then t\<lparr>tb_deleted_revision := Some n\<rparr> else t) ts)))"
proof -
  note l = coherent_loads [OF c, of v] j st
  show ?thesis
  proof (cases "remote_outcome j remote")
    case None
    then have h: "rc_head_commit_intent_id remote \<noteq> cj_commit_intent_id j"
      and f: "find (\<lambda>r. rm_commit_intent_id r = cj_commit_intent_id j) (rc_revisions remote) = None"
      by (auto simp: remote_outcome_def split: if_splits)
    show ?thesis
      using r h f None miss_with_power [OF c p st j] l coherent_rows(1) [OF c st]
      by (auto simp: execute_submitted_commit_confirmation_remote_state_def plan_submitted_confirmation_def
          consistent_report_def ebind_eread ebind_elift Let_def validate_scan_revision_metadata_def
          validate_submitted_confirmation_manifest_def resolve_submitted_confirmation_def
          find_matching_revision_metadata_def list_all_iff ebind_apply_Inr table_defs split: option.splits)
  next
    case (Some n)
    have "0 < n" using outcome_after_base [OF r Some] coherent_rows(2) [OF c j(1)]
      by (simp add: wf_commit_journal_iff)
    note fl0 = flow_with_power [OF c p st j ts this, of sha nfc "rc_observed_head_revision remote" at
        "rc_matched_manifest remote"]
    obtain r' s' where fl: "recover_submitted_commit_flow sha nfc v ts n (rc_observed_head_revision remote) at
        (rc_matched_manifest remote) s = (Inr r', s')" "cl_commit_journal s' v = None"
      "cl_vault_state s' v = Some (sr_state r')"
      "sr_state r' = matched_state st n (rc_observed_head_revision remote)
         (map_option (compute_manifest_summary_hash sha nfc) (rc_matched_manifest remote))"
      "cl_ledger s' = Some (map ledger_line (map (\<lambda>t. if covered_by_intent j t
         then t\<lparr>tb_deleted_revision := Some n\<rparr> else t) ts))"
      using fl0 by blast
    have vj: "cj_vault_id j = v" using coherent_rows(2) [OF c j(1)] by simp
    show ?thesis
    proof (cases "rc_head_commit_intent_id remote = cj_commit_intent_id j")
      case True
      let ?p = "\<lparr>cp_mode = Head_Match, cp_observed_head_revision = rc_observed_head_revision remote,
        cp_matched_revision = Some (rc_observed_head_revision remote), cp_scan_from_revision = None,
        cp_scan_to_revision = None\<rparr>"
      have n: "n = rc_observed_head_revision remote" using True Some by (simp add: remote_outcome_def)
      have "plan_submitted_confirmation j (rc_observed_head_revision remote) (rc_head_commit_intent_id remote) = Inr ?p"
        using r True by (simp add: plan_submitted_confirmation_def consistent_report_def)
      moreover have "validate_submitted_confirmation_manifest v ?p None (rc_matched_manifest remote) = Inr ()"
        using r Some vj n by (auto simp: validate_submitted_confirmation_manifest_def consistent_report_def split: option.splits)
      ultimately show ?thesis
        using fl Some l n
        by (simp add: execute_submitted_commit_confirmation_remote_state_def ebind_def
          validate_scan_revision_metadata_def resolve_submitted_confirmation_def)
    next
      case False
      then obtain w where w: "find (\<lambda>r. rm_commit_intent_id r = cj_commit_intent_id j) (rc_revisions remote) = Some w"
        "rm_revision w = n" using Some by (auto simp: remote_outcome_def)
      let ?p = "\<lparr>cp_mode = Scan_Range, cp_observed_head_revision = rc_observed_head_revision remote,
        cp_matched_revision = None, cp_scan_from_revision = Some (cj_base_revision j + 1),
        cp_scan_to_revision = Some (rc_observed_head_revision remote)\<rparr>"
      have "cj_base_revision j < n \<and> n \<le> rc_observed_head_revision remote"
        using r find_SomeD [OF w(1)] w(2) by (auto simp: consistent_report_def list_all_iff)
      then have "plan_submitted_confirmation j (rc_observed_head_revision remote) (rc_head_commit_intent_id remote) = Inr ?p"
        using False by (simp add: plan_submitted_confirmation_def)
      moreover have "validate_scan_revision_metadata ?p (rc_revisions remote) = Inr ()"
        using r by (auto simp: validate_scan_revision_metadata_def consistent_report_def list_all_iff)
      moreover have "validate_submitted_confirmation_manifest v ?p (Some w) (rc_matched_manifest remote) = Inr ()"
        using r Some vj w by (auto simp: validate_submitted_confirmation_manifest_def consistent_report_def split: option.splits)
      ultimately show ?thesis
        using fl Some l w
        by (simp add: execute_submitted_commit_confirmation_remote_state_def ebind_def
          resolve_submitted_confirmation_def find_matching_revision_metadata_def)
    qed
  qed
qed

text \<open>C21: A submitted commit can always be settled. In every reachable store with a submitted journal,
  a report of the server that is consistent with the journal (a head not older than the base,
  revisions inside the scanned window, a manifest only for the revision that matches) makes the
  confirmation succeed: the journal is gone and the vault unlocked. If the report shows the commit
  (by its intent id, at the head or in the window) the state advances to that revision and exactly
  the pending tombstones the intent covered are stamped with it in the ledger; if it does not, the
  state is as before the commit and the ledger is not touched.\<close>

theorem submitted_commit_settled:
  assumes "client_reachable sha nfc s" and "cl_power s = None" and "cl_vault_state s v = Some st"
    and "cl_commit_journal s v = Some j" and "cj_status j = ''submitted''"
    and "consistent_report j remote" and "\<forall>t \<in> set ts. wf_tombstone t" and "distinct (map tb_file_id ts)"
  shows "\<exists>res s'. execute_submitted_commit_confirmation_remote_state sha nfc v ts at remote s = (Inr res, s')
    \<and> cl_commit_journal s' v = None \<and> cl_vault_state s' v = Some (sr_state (cr_recovery res))
    \<and> (case remote_outcome j remote of
         None \<Rightarrow> sr_state (cr_recovery res) = st\<lparr>vs_commit_in_progress := False\<rparr> \<and> cl_ledger s' = cl_ledger s
       | Some n \<Rightarrow> sr_state (cr_recovery res) = matched_state st n (rc_observed_head_revision remote)
             (map_option (compute_manifest_summary_hash sha nfc) (rc_matched_manifest remote))
         \<and> cl_ledger s' = Some (map ledger_line (map (\<lambda>t. if covered_by_intent j t
               then t\<lparr>tb_deleted_revision := Some n\<rparr> else t) ts)))"
  by (rule confirmation_resolves_aux [OF reachable_coherent [OF assms(1)] assms(2-8)])

section \<open>Finalizing an accepted commit\<close>

lemma stamped_twice:
  assumes "apply_committed_tombstones ts j r = Inr ts'" "distinct (map tb_file_id ts)"
  shows "apply_committed_tombstones ts' j r = Inr ts'"
proof -
  have ts': "ts' = map (\<lambda>t. if covered_by_intent j t then t\<lparr>tb_deleted_revision := Some r\<rparr> else t) ts"
    using assms by (simp add: committed_tombstones_eq_Inr)
  have n: "\<not> covered_by_intent j t" if "t \<in> set ts'" for t
    using that by (auto simp: ts' covered_by_intent_iff split: if_splits)
  have "map tb_file_id ts' = map tb_file_id ts" by (simp add: ts' comp_def if_distrib cong: map_cong)
  with assms(2) have "distinct (map tb_file_id ts')" by simp
  then have "apply_committed_tombstones ts' j r
      = Inr (map (\<lambda>t. if covered_by_intent j t then t\<lparr>tb_deleted_revision := Some r\<rparr> else t) ts')"
    using n by (simp add: committed_tombstones_eq_Inr)
  also have "map (\<lambda>t. if covered_by_intent j t then t\<lparr>tb_deleted_revision := Some r\<rparr> else t) ts' = ts'"
    using n by (simp add: map_idI)
  finally show ?thesis .
qed

lemma stamped_wf:
  assumes "apply_committed_tombstones ts j r = Inr ts'" "\<forall>t \<in> set ts. wf_tombstone t"
    and "distinct (map tb_file_id ts)"
  shows "\<forall>t \<in> set ts'. wf_tombstone t"
  using assms by (auto simp: committed_tombstones_eq_Inr)

lemma coherent_ledger [simp]: "commit_coherent (s\<lparr>cl_ledger := l\<rparr>) = commit_coherent s"
  by (rule tabularD [OF coherent_tabular]) (simp add: tables_def)

text \<open>What finalization computes before it writes, and its two durable writes.\<close>

definition finalize_input ::
  "(string \<Rightarrow> string) \<Rightarrow> (string \<Rightarrow> string) \<Rightarrow> manifest \<Rightarrow> tombstone list \<Rightarrow> int \<Rightarrow> client
     \<Rightarrow> manifest \<times> tombstone list \<times> vault_state \<Rightarrow> bool" where
  "finalize_input sha nfc m ts r s out \<longleftrightarrow> (case out of (f, ts', st') \<Rightarrow>
     (\<exists>j st. cl_commit_journal s (mn_vault_id m) = Some j \<and> cj_status j = ''submitted''
       \<and> finalize_commit_manifest sha nfc m r = Inr f \<and> apply_committed_tombstones ts j r = Inr ts'
       \<and> cl_vault_state s (mn_vault_id m) = Some st
       \<and> apply_commit_success_state st r (mn_summary_hash f) = Inr st'))"

lemma finalize_success_input:
  assumes c: "commit_coherent s" and p: "cl_power s = None"
    and f: "finalize_commit_submission sha nfc m ts r s = (Inr out, s')"
  shows "finalize_input sha nfc m ts r s out"
  using assms
  by (auto simp: finalize_commit_submission_def finalize_committed_state_def finalize_input_def both_exist_def
      ebind_def elift_def coherent_loads rewrite_tombstone_ledger_def
      split: option.splits sum.splits if_splits)

lemma finalize_run:
  assumes c: "commit_coherent s" and i: "finalize_input sha nfc m ts r s (f, ts', st')"
  shows "finalize_commit_submission sha nfc m ts r s =
    ebind (rewrite_tombstone_ledger ts') (\<lambda>_.
    ebind (persist (del_commit_journal (mn_vault_id m) \<circ> put_vault_state st')) (\<lambda>_. eret (f, ts', st'))) s"
proof -
  have "finalize_committed_state (mn_vault_id m) r (mn_summary_hash f) s1
      = ebind (persist (del_commit_journal (mn_vault_id m) \<circ> put_vault_state st')) (\<lambda>_. eret st') s1"
    if "tables s1 = tables s" for s1
    using that i c tabularD [OF coherent_tabular that]
    by (auto simp: finalize_input_def finalize_committed_state_def both_exist_def ebind_eread ebind_elift coherent_loads
        tables_def)
  then show ?thesis
    using i c
    by (auto simp: finalize_input_def finalize_commit_submission_def ebind_def coherent_loads tables_def
        rewrite_tombstone_ledger_def persist_def split: option.splits nat.splits sum.splits prod.splits)
qed

text \<open>C22: Finalizing an accepted commit survives a crash. In any reachable store where the
  finalization of a commit succeeds with power, let the power fail after any number of its durable
  writes instead. Then the ledger still loads, and finalizing again with the tombstones it holds
  succeeds with the same manifest, the same stamped tombstones and the same state, and leaves the
  very store the undisturbed run leaves.\<close>

theorem finalization_crash_safe:
  assumes "client_reachable sha nfc s" and p: "cl_power s = None"
    and "finalize_commit_submission sha nfc m ts r s = (Inr (f, ts', st'), s')"
    and l: "cl_ledger s = Some (map ledger_line ts)" "\<forall>t \<in> set ts. wf_tombstone t" "distinct (map tb_file_id ts)"
    and crash: "finalize_commit_submission sha nfc m ts r (s\<lparr>cl_power := Some n\<rparr>) = (Inl e, s1)"
  shows "\<exists>ts1. load_tombstone_ledger True (s1\<lparr>cl_power := None\<rparr>) = (Inr ts1, s1\<lparr>cl_power := None\<rparr>)
    \<and> finalize_commit_submission sha nfc m ts1 r (s1\<lparr>cl_power := None\<rparr>) = (Inr (f, ts', st'), s')"
proof -
  note c = reachable_coherent [OF assms(1)]
  note i = finalize_success_input [OF c p assms(3)]
  obtain j where j: "apply_committed_tombstones ts j r = Inr ts'"
    "cl_commit_journal s (mn_vault_id m) = Some j" using i by (auto simp: finalize_input_def)
  have i': "finalize_input sha nfc m ts r (s\<lparr>cl_power := q\<rparr>) (f, ts', st')"
    "finalize_input sha nfc m ts' r (s\<lparr>cl_ledger := k\<rparr>) (f, ts', st')" for q k
    using i j stamped_twice [OF j(1) l(3)] by (auto simp: finalize_input_def)
  note w = stamped_wf [OF j(1) l(2,3)]
  have s': "s' = del_commit_journal (mn_vault_id m) (put_vault_state st' (s\<lparr>cl_ledger := Some (map ledger_line ts')\<rparr>))"
    using assms(3) p unfolding finalize_run [OF c i] by (simp add: ebind_def rewrite_tombstone_ledger_def)
  consider "n = 0" | "n = 1" | k where "n = Suc (Suc k)" by (metis One_nat_def old.nat.exhaust)
  then show ?thesis
  proof cases
    case 1
    then have "s1 = s\<lparr>cl_power := Some 0\<rparr>"
      using crash c unfolding finalize_run [OF _ i'(1), of "Some n"] by (simp add: finalize_run [OF _ i'(1)] ebind_def rewrite_tombstone_ledger_def)
    moreover have "s\<lparr>cl_power := None\<rparr> = s" using p by simp
    ultimately show ?thesis
      using load_written_ledger [OF l(1), of True] l(2) assms(3) by (auto simp: list_all_iff)
  next
    case 2
    then have s1: "s1 = s\<lparr>cl_power := Some 0, cl_ledger := Some (map ledger_line ts')\<rparr>"
      using crash c by (simp add: finalize_run [OF _ i'(1)] ebind_def rewrite_tombstone_ledger_def)
    then have "load_tombstone_ledger True (s1\<lparr>cl_power := None\<rparr>) = (Inr ts', s1\<lparr>cl_power := None\<rparr>)"
      by (intro load_written_ledger) (use w in \<open>simp_all add: list_all_iff\<close>)
    moreover have "finalize_commit_submission sha nfc m ts' r (s1\<lparr>cl_power := None\<rparr>) = (Inr (f, ts', st'), s')"
    proof -
      have e: "s1\<lparr>cl_power := None\<rparr> = s\<lparr>cl_ledger := Some (map ledger_line ts')\<rparr>"
        using p by (cases s) (simp add: s1)
      show ?thesis
        using c p unfolding e finalize_run [OF _ i'(2), unfolded coherent_ledger, OF c]
        by (simp add: s' ebind_def rewrite_tombstone_ledger_def)
    qed
    ultimately show ?thesis by blast
  next
    case 3
    then show ?thesis
      using crash c by (simp add: finalize_run [OF _ i'(1)] ebind_def rewrite_tombstone_ledger_def)
  qed
qed


text \<open>C23: Settling a submitted commit is not crash safe in the same way: it commits the database
  transaction (unlock, advance, drop the journal) before it rewrites the ledger. If the power fails
  between the two, the commit is settled on disk but its deletions are still pending in the ledger,
  and settling again raises a \<open>KeyError\<close>, since the journal is gone.\<close>

theorem settling_crash_loses_stamps:
  assumes "client_reachable sha nfc s" and "cl_power s = Some 1" and "cl_vault_state s v = Some st"
    and "cl_commit_journal s v = Some j" and "cj_status j = ''submitted''"
    and "\<forall>t \<in> set ts. wf_tombstone t" and "distinct (map tb_file_id ts)" and "0 < n"
  shows "\<exists>s1. recover_submitted_commit_flow sha nfc v ts n ob at mo s = (Inl PowerLoss, s1)
    \<and> cl_vault_state s1 v = Some (matched_state st n ob (map_option (compute_manifest_summary_hash sha nfc) mo))
    \<and> cl_commit_journal s1 v = None \<and> cl_ledger s1 = cl_ledger s
    \<and> recover_submitted_commit_flow sha nfc v ts n ob at mo (s1\<lparr>cl_power := None\<rparr>)
        = (Inl (KeyError (''commit_intent_journal not found: '' @ v)), s1\<lparr>cl_power := None\<rparr>)"
proof -
  note c = reachable_coherent [OF assms(1)]
  have v: "vs_vault_id (matched_state st n ob h) = v" "wf_vault_state (matched_state st n ob h)" for h
    using coherent_rows(1) [OF c assms(3)] by (auto simp: matched_state_def wf_vault_state_iff split: option.splits)
  have "cj_vault_id j = v" using coherent_rows(2) [OF c assms(4)] by simp
  then have m: "recover_submitted_commit_match v n ob h at s = (Inr (matched_state st n ob h),
      del_commit_journal v (put_vault_state (matched_state st n ob h) (s\<lparr>cl_power := Some 0\<rparr>)))" for h
    using assms(2-5) c v(2) [of h, unfolded wf_vault_state_def]
    by (simp add: recover_submitted_commit_match_def both_exist_def coherent_loads ebind_eread ebind_elift
        normalize_commit_journal_for_recovery_def apply_submitted_commit_match_recovery_def
        flip: matched_state_def)
  have m': "(case mo of None \<Rightarrow> recover_submitted_commit_match v n ob None at
      | Some mf \<Rightarrow> recover_submitted_commit_from_manifest sha nfc v (Some mf) n ob at)
    = recover_submitted_commit_match v n ob (map_option (compute_manifest_summary_hash sha nfc) mo) at"
    by (simp add: recover_submitted_commit_from_manifest_def split: option.split)
  have t: "\<exists>ts'. apply_committed_tombstones ts j n = Inr ts'"
    using assms(6-8) by (auto simp: committed_tombstones_eq_Inr wf_tombstone_iff)
  let ?st = "matched_state st n ob (map_option (compute_manifest_summary_hash sha nfc) mo)"
  let ?s1 = "del_commit_journal v (put_vault_state ?st (s\<lparr>cl_power := Some 0\<rparr>))"
  have "recover_submitted_commit_flow sha nfc v ts n ob at mo s = (Inl PowerLoss, ?s1)"
    using t assms(4) c
    by (auto simp: recover_submitted_commit_flow_def ebind_def coherent_loads m m' rewrite_tombstone_ledger_def
        table_defs)
  moreover have "load_commit_intent_journal v (?s1\<lparr>cl_power := None\<rparr>) = Inr None"
    by (simp add: load_commit_intent_journal_def del_commit_journal_def)
  ultimately show ?thesis
    using v(1) by (intro exI [of _ ?s1])
      (simp add: recover_submitted_commit_flow_def ebind_eread table_defs)
qed

definition pending_tombstone :: tombstone where
  "pending_tombstone = remote_tombstone ''f9'' None 1 (Some ''z.md'')"


text \<open>A device with one pending deletion that has submitted a commit.\<close>

definition submitted_state :: vault_state where
  "submitted_state = \<lparr>vs_vault_id = ''v'', vs_last_applied_revision = 0, vs_remote_head_revision = 0,
     vs_acked_revision = 0, vs_pending_ack_to_server = [], vs_commit_in_progress = True,
     vs_last_manifest_summary = Some ''sha256:h'', vs_last_manifest_summary_status = ''valid'',
     vs_local_delete_sequence = 0, vs_has_unresolved_conflicts = False,
     vs_schema_version = ''v1'', vs_meta = None\<rparr>"

definition submitted_journal :: commit_journal where
  "submitted_journal = \<lparr>cj_vault_id = ''v'', cj_commit_intent_id = ''c1'',
     cj_intent_manifest_hash = ''sha256:h'', cj_base_revision = 0, cj_created_by_device = ''dev'',
     cj_status = ''submitted'', cj_created_at = 10, cj_updated_at = 10,
     cj_intent_delete_seq_upper_bound = None\<rparr>"

definition submitted_manifest :: manifest where
  "submitted_manifest = sample_manifest\<lparr>mn_revision := 0, mn_base_revision := 0, mn_files := [],
     mn_created_at := 10, mn_summary_hash := ''pending'',
     mn_tombstones := [pending_tombstone]\<rparr>"

definition empty_document :: filemap_document where
  "empty_document = commit_document\<lparr>fd_files := []\<rparr>"

abbreviation idle_state :: vault_state where
  "idle_state \<equiv> submitted_state\<lparr>vs_commit_in_progress := False\<rparr>"

definition device_client :: client where
  "device_client = snd (initialize_vault_state (\<lambda>_. ''h'') id ''v'' 0 False None
     (empty_client\<lparr>cl_ledger := Some [ledger_line pending_tombstone]\<rparr>))"

definition submitted_client :: client where
  "submitted_client = snd (prepare_commit_submission (\<lambda>_. ''h'') id idle_state
     empty_document [pending_tombstone] ''c1'' ''dev'' 10 device_client)"

lemma device_client_eq:
  "device_client = empty_client\<lparr>cl_ledger := Some [ledger_line pending_tombstone],
     cl_vault_state := [''v'' \<mapsto> idle_state]\<rparr>"
proof -
  have "build_initial_vault_state (\<lambda>_. ''h'') id ''v'' 0 False None = Inr idle_state"
    by code_simp
  then show ?thesis
    by (simp add: device_client_def initialize_vault_state_def load_vault_state_def upsert_vault_state_def
        put_vault_state_def empty_client_def ebind_def) (simp add: submitted_state_def)
qed

lemma idle_loads: "load_vault_state ''v'' device_client = Inr (Some idle_state)"
proof -
  have "VaultStateRecord idle_state = Inr idle_state" by code_simp
  then show ?thesis by (simp add: load_vault_state_def device_client_eq)
qed

lemma submitted_client_eq:
  "submitted_client = device_client\<lparr>cl_vault_state := [''v'' \<mapsto> submitted_state],
     cl_commit_journal := [''v'' \<mapsto> submitted_journal]\<rparr>"
proof -
  let ?p = "\<lparr>sp_vault_id = ''v'', sp_base_revision = 0, sp_created_at = 10, sp_files = []\<rparr>"
  let ?j = "started_journal idle_state ''c1'' ''dev'' 10"
  have p: "build_content_snapshot_plan id empty_document 0 10 = Inr ?p" by code_simp
  have m: "submission_manifest id ''v'' empty_document [pending_tombstone] ?j (Some ?p) = Inr submitted_manifest"
    by code_simp
  have h: "compute_intent_manifest_hash (\<lambda>_. ''h'') id submitted_manifest = ''sha256:h''"
    by (simp add: compute_intent_manifest_hash_def sha256_hex_def)
  have j: "CommitIntentJournalRecord ?j = Inr ?j" "CommitIntentJournalRecord submitted_journal = Inr submitted_journal"
    by code_simp+
  have j': "?j\<lparr>cj_intent_manifest_hash := ''sha256:h'', cj_status := ''submitted'', cj_updated_at := 10\<rparr>
      = submitted_journal" by code_simp
  have st: "VaultStateRecord submitted_state = Inr submitted_state" by code_simp
  have sub: "apply_commit_submitted_state idle_state = Inr submitted_state" by code_simp
  have b: "\<not> should_block_new_commit idle_state False" by code_simp
  have u: "\<not> has_unresolved_conflict_copy empty_document" by code_simp
  have v: "vs_vault_id submitted_state = ''v''" "vs_last_applied_revision submitted_state = 0"
    "cj_vault_id submitted_journal = ''v''"
    by (simp_all add: submitted_state_def submitted_journal_def)
  have n: "cl_commit_journal device_client = (\<lambda>_. None)" "cl_power device_client = None"
    by (simp_all add: device_client_eq empty_client_def)
  have o: "(cl_vault_state device_client)(''v'' \<mapsto> submitted_state) = [''v'' \<mapsto> submitted_state]"
    by (simp add: device_client_eq)
  show ?thesis
    using p m h j j' st sub b u n
    by (simp add: submitted_client_def start_defs submit_prepared_commit_def load_vault_state_def
        load_commit_intent_journal_def put_commit_journal_def put_vault_state_def ebind_def v o)
qed

lemma submitted_client_facts:
  "cl_power submitted_client = None"
  "cl_ledger submitted_client = Some (map ledger_line [pending_tombstone])"
  "\<exists>st. cl_vault_state submitted_client ''v'' = Some st"
  "\<exists>j. cl_commit_journal submitted_client ''v'' = Some j \<and> cj_status j = ''submitted''
     \<and> cj_commit_intent_id j = ''c1'' \<and> cj_base_revision j = 0 \<and> covered_by_intent j pending_tombstone"
  by (simp_all add: submitted_client_eq device_client_eq empty_client_def submitted_journal_def covered_by_intent_def
      pending_tombstone_def remote_tombstone_def)

lemma submitted_reachable: "client_reachable (\<lambda>_. ''h'') id submitted_client"
proof -
  have d: "client_reachable (\<lambda>_. ''h'') id device_client"
    unfolding device_client_def
    by (rule client_reachable.Step [OF client_reachable.Fresh client_step.Initialize])
      (simp_all add: empty_client_def)
  show ?thesis unfolding submitted_client_def
    by (rule client_reachable.Step [OF d client_step.Start [OF idle_loads]])
qed

lemma pending_ok: "\<forall>t \<in> set [pending_tombstone]. wf_tombstone t" "distinct (map tb_file_id [pending_tombstone])"
  by (simp_all add: wf_tombstone_iff pending_tombstone_def remote_tombstone_def)

theorem submitted_commit_settled_witness:
  "\<exists>res s'. execute_submitted_commit_confirmation_remote_state (\<lambda>_. ''h'') id ''v'' [pending_tombstone] 20
       \<lparr>rc_observed_head_revision = 1, rc_head_commit_intent_id = ''c1'', rc_revisions = [],
        rc_matched_manifest = None\<rparr> submitted_client = (Inr res, s')
     \<and> cl_commit_journal s' ''v'' = None
     \<and> cl_ledger s' = Some [ledger_line (pending_tombstone\<lparr>tb_deleted_revision := Some 1\<rparr>)]"
proof -
  obtain st j where st: "cl_vault_state submitted_client ''v'' = Some st"
    and j: "cl_commit_journal submitted_client ''v'' = Some j" "cj_status j = ''submitted''"
      "cj_commit_intent_id j = ''c1''" "cj_base_revision j = 0" "covered_by_intent j pending_tombstone"
    using submitted_client_facts(3,4) by blast
  let ?r = "\<lparr>rc_observed_head_revision = 1, rc_head_commit_intent_id = ''c1'', rc_revisions = [],
      rc_matched_manifest = None\<rparr>"
  have "consistent_report j ?r" and o: "remote_outcome j ?r = Some 1"
    using j by (simp_all add: consistent_report_def remote_outcome_def)
  from submitted_commit_settled [OF submitted_reachable submitted_client_facts(1) st j(1,2) this(1) pending_ok,
      of 20] o j(5)
  show ?thesis by auto
qed

theorem settling_crash_loses_stamps_witness:
  "\<exists>s1. recover_submitted_commit_flow (\<lambda>_. ''h'') id ''v'' [pending_tombstone] 1 1 20 None
       (submitted_client\<lparr>cl_power := Some 1\<rparr>) = (Inl PowerLoss, s1)
     \<and> cl_commit_journal s1 ''v'' = None \<and> cl_ledger s1 = Some [ledger_line pending_tombstone]"
proof -
  let ?s = "submitted_client\<lparr>cl_power := Some 1\<rparr>"
  have r: "client_reachable (\<lambda>_. ''h'') id ?s"
    by (rule client_reachable.Step [OF submitted_reachable client_step.Power])
  obtain st j where "cl_vault_state ?s ''v'' = Some st" "cl_commit_journal ?s ''v'' = Some j"
    "cj_status j = ''submitted''"
    using submitted_client_facts(3,4) by auto
  from settling_crash_loses_stamps [OF r _ this pending_ok, of 1 1 20 None] submitted_client_facts(2)
  show ?thesis by auto
qed

lemma submitted_finalizes:
  "\<exists>f ts' st'. \<forall>s. tables s = tables submitted_client \<longrightarrow>
     finalize_input (\<lambda>_. ''h'') id submitted_manifest [pending_tombstone] 1 s (f, ts', st')"
proof -
  have "\<not> isl (finalize_commit_manifest (\<lambda>_. ''h'') id submitted_manifest 1)" by code_simp
  then obtain f where f: "finalize_commit_manifest (\<lambda>_. ''h'') id submitted_manifest 1 = Inr f"
    by (auto dest: not_islD)
  have t: "apply_committed_tombstones [pending_tombstone] submitted_journal 1
      = Inr [pending_tombstone\<lparr>tb_deleted_revision := Some 1\<rparr>]" by code_simp
  have "wf_vault_state submitted_state" by (simp add: wf_vault_state_iff submitted_state_def)
  from commit_success_wf [OF this, of 1 "mn_summary_hash f"] f t show ?thesis
    by (fastforce simp: finalize_input_def tables_def submitted_client_eq device_client_eq submitted_manifest_def
        sample_manifest_def submitted_journal_def)
qed

theorem finalization_crash_safe_witness:
  "\<exists>e s1 ts1 out s'. finalize_commit_submission (\<lambda>_. ''h'') id submitted_manifest [pending_tombstone] 1
       (submitted_client\<lparr>cl_power := Some 1\<rparr>) = (Inl e, s1)
     \<and> load_tombstone_ledger True (s1\<lparr>cl_power := None\<rparr>) = (Inr ts1, s1\<lparr>cl_power := None\<rparr>)
     \<and> finalize_commit_submission (\<lambda>_. ''h'') id submitted_manifest ts1 1 (s1\<lparr>cl_power := None\<rparr>) = (Inr out, s')"
proof -
  note c = reachable_coherent [OF submitted_reachable]
  let ?run = "finalize_commit_submission (\<lambda>_. ''h'') id submitted_manifest [pending_tombstone] 1"
  obtain f0 ts0 st0 where i: "tables s = tables submitted_client \<Longrightarrow>
      finalize_input (\<lambda>_. ''h'') id submitted_manifest [pending_tombstone] 1 s (f0, ts0, st0)" for s
    using submitted_finalizes by blast
  obtain out s' where f: "?run submitted_client = (Inr out, s')"
    using i [of submitted_client] submitted_client_facts(1) c
    by (auto simp: finalize_run ebind_def rewrite_tombstone_ledger_def)
  obtain e s1 where e: "?run (submitted_client\<lparr>cl_power := Some 1\<rparr>) = (Inl e, s1)"
    using i [of "submitted_client\<lparr>cl_power := Some 1\<rparr>"] c
    by (auto simp: finalize_run ebind_def rewrite_tombstone_ledger_def)
  obtain g ts' st' where "out = (g, ts', st')" by (cases out)
  with finalization_crash_safe [OF submitted_reachable submitted_client_facts(1) _ submitted_client_facts(2)
      pending_ok e] f e
  show ?thesis by blast
qed

end
