(* ===== verification/Server_Manifest.thy ===== *)
theory Server_Manifest
  imports Manifest Commit_Plan
begin

text \<open>
  The pure helpers of \<open>noteapp-server/sync_store.py\<close>: reading request payloads, cutting a blob
  into chunks, and \<open>finalize_manifest_payload\<close>, which turns the manifest of a commit request
  into the one the server stores. Payloads and manifests are the JSON objects the server keeps,
  unknown entries included. \<open>sha\<close> and \<open>nfc\<close> are the parameters of \<open>Manifest\<close>.
\<close>

section \<open>Errors and readers\<close>

text \<open>\<open>PyRaise\<close> is an exception the server does not convert: a missing key of a nested object, or
  a value whose type the code does not check.\<close>

datatype server_error =
    SyncStoreError string string
  | BlobCapabilityError int string
  | CommitConflict string int "string option"
  | PyRaise py_exn

type_synonym 'a sresult = "server_error + 'a"

definition invalid_request :: "string \<Rightarrow> server_error" where
  "invalid_request msg = SyncStoreError ''invalid_request'' msg"

definition require_string :: "dict \<Rightarrow> string \<Rightarrow> string sresult" where
  "require_string d k = (case dget d k of
     JStr s \<Rightarrow> if s = [] then Inl (invalid_request (k @ '' must be a non-empty string'')) else Inr s
   | _ \<Rightarrow> Inl (invalid_request (k @ '' must be a non-empty string'')))"

definition require_non_negative_int :: "dict \<Rightarrow> string \<Rightarrow> int sresult" where
  "require_non_negative_int d k = (case py_int (dget d k) of
     Some i \<Rightarrow> if i < 0 then Inl (invalid_request (k @ '' must be a non-negative integer'')) else Inr i
   | None \<Rightarrow> Inl (invalid_request (k @ '' must be a non-negative integer'')))"

definition require_positive_int :: "dict \<Rightarrow> string \<Rightarrow> int sresult" where
  "require_positive_int d k = (case py_int (dget d k) of
     Some i \<Rightarrow> if i \<le> 0 then Inl (invalid_request (k @ '' must be a positive integer'')) else Inr i
   | None \<Rightarrow> Inl (invalid_request (k @ '' must be a positive integer'')))"

definition require_unique_strings :: "dict \<Rightarrow> string \<Rightarrow> string list sresult" where
  "require_unique_strings d k = (case dget d k of
     JArr (v # vs) \<Rightarrow>
       rbind (mapM (\<lambda>v. case py_str v of
           Some s \<Rightarrow> if s = [] then Inl (invalid_request (k @ '' items must be non-empty strings'')) else Inr s
         | None \<Rightarrow> Inl (invalid_request (k @ '' items must be non-empty strings''))) (v # vs)) (\<lambda>ss.
       if distinct ss then Inr ss else Inl (invalid_request (k @ '' must be unique'')))
   | _ \<Rightarrow> Inl (invalid_request (k @ '' must be a non-empty list'')))"

definition require_unique_positive_ints :: "dict \<Rightarrow> string \<Rightarrow> int list sresult" where
  "require_unique_positive_ints d k = (case dget d k of
     JArr (v # vs) \<Rightarrow>
       rbind (mapM (\<lambda>v. case py_int v of
           Some i \<Rightarrow> if i \<le> 0 then Inl (invalid_request (k @ '' items must be positive integers'')) else Inr i
         | None \<Rightarrow> Inl (invalid_request (k @ '' items must be positive integers''))) (v # vs)) (\<lambda>ns.
       if distinct ns then Inr ns else Inl (invalid_request (k @ '' must be unique'')))
   | _ \<Rightarrow> Inl (invalid_request (k @ '' must be a non-empty list'')))"

lemma require_string_eq_Inr [result_simps]:
  "require_string d k = Inr s \<longleftrightarrow> dget d k = JStr s \<and> s \<noteq> []"
  by (auto simp: require_string_def split: json.splits)

lemma require_non_negative_int_eq_Inr [result_simps]:
  "require_non_negative_int d k = Inr i \<longleftrightarrow> py_int (dget d k) = Some i \<and> 0 \<le> i"
  by (auto simp: require_non_negative_int_def split: option.splits)

lemma require_positive_int_eq_Inr [result_simps]:
  "require_positive_int d k = Inr i \<longleftrightarrow> py_int (dget d k) = Some i \<and> 0 < i"
  by (auto simp: require_positive_int_def split: option.splits)

section \<open>Chunks of a blob\<close>

record chunk =
  ch_chunk_id :: string
  ch_offset :: int
  ch_size :: int

definition chunk_id_of :: "(string \<Rightarrow> string) \<Rightarrow> string \<Rightarrow> int \<Rightarrow> int \<Rightarrow> string" where
  "chunk_id_of sha blob_id offset sz =
     ''chunk-'' @ take 32 (sha (blob_id @ '':'' @ int_str offset @ '':'' @ int_str sz))"

text \<open>The loop of the code: one chunk per turn, until the offset reaches the size.\<close>

function chunks_from :: "(string \<Rightarrow> string) \<Rightarrow> string \<Rightarrow> int \<Rightarrow> int \<Rightarrow> int \<Rightarrow> chunk list" where
  "chunks_from sha blob_id encrypted_size chunk_size offset =
     (if 0 < chunk_size \<and> offset < encrypted_size
      then let sz = min chunk_size (encrypted_size - offset) in
        \<lparr>ch_chunk_id = chunk_id_of sha blob_id offset sz, ch_offset = offset, ch_size = sz\<rparr>
        # chunks_from sha blob_id encrypted_size chunk_size (offset + sz)
      else [])"
  by pat_completeness auto
termination
  by (relation "measure (\<lambda>(_, _, n, _, k). nat (n - k))") auto

declare chunks_from.simps [simp del]

definition blob_chunks :: "(string \<Rightarrow> string) \<Rightarrow> string \<Rightarrow> int \<Rightarrow> int \<Rightarrow> chunk list sresult" where
  "blob_chunks sha blob_id encrypted_size chunk_size =
     (if encrypted_size < 0
      then Inl (invalid_request ''encrypted_size must be a non-negative integer'')
      else if chunk_size \<le> 0
      then Inl (invalid_request ''chunk_size must be a positive integer'')
      else if encrypted_size = 0
      then Inr [\<lparr>ch_chunk_id = chunk_id_of sha blob_id 0 0, ch_offset = 0, ch_size = 0\<rparr>]
      else Inr (chunks_from sha blob_id encrypted_size chunk_size 0))"

text \<open>The client's version of the same loop, in \<open>vault_core/sync_api.py\<close>.\<close>

definition build_blob_chunk_descriptors ::
  "(string \<Rightarrow> string) \<Rightarrow> string \<Rightarrow> int \<Rightarrow> int \<Rightarrow> chunk list result" where
  "build_blob_chunk_descriptors sha blob_id encrypted_size chunk_size =
     rbind (validate [(blob_id \<noteq> [], ''blob_id must be non-empty''),
       (0 \<le> encrypted_size, ''encrypted_size must be non-negative''),
       (0 < chunk_size, ''chunk_size must be positive'')] ()) (\<lambda>_.
     let chunks = chunks_from sha blob_id encrypted_size chunk_size 0 in
     if encrypted_size = 0
     then Inr [\<lparr>ch_chunk_id = chunk_id_of sha blob_id 0 0, ch_offset = 0, ch_size = 0\<rparr>]
     else Inr chunks)"

text \<open>A list of chunks that covers an interval without gaps or overlaps.\<close>

fun contiguous :: "int \<Rightarrow> chunk list \<Rightarrow> int \<Rightarrow> bool" where
  "contiguous a [] b \<longleftrightarrow> a = b"
| "contiguous a (c # cs) b \<longleftrightarrow> ch_offset c = a \<and> contiguous (a + ch_size c) cs b"

lemma chunks_from_partition:
  assumes "0 < k" "0 \<le> a" "a \<le> n"
  shows "contiguous a (chunks_from sha b n k a) n
    \<and> (\<forall>c \<in> set (chunks_from sha b n k a). 0 < ch_size c \<and> ch_size c \<le> k)
    \<and> int (length (chunks_from sha b n k a)) = (n - a + k - 1) div k"
  using assms
proof (induction sha b n k a rule: chunks_from.induct)
  case (1 sha b n k a)
  show ?case
  proof (cases "a < n")
    case False
    then show ?thesis using "1.prems" by (subst (1 2 3) chunks_from.simps) (simp add: div_pos_pos_trivial)
  next
    case True
    define m where "m = min k (n - a)"
    have m: "0 < m" "m \<le> k" "a + m \<le> n" using True "1.prems" by (auto simp: m_def)
    have IH: "contiguous (a + m) (chunks_from sha b n k (a + m)) n
      \<and> (\<forall>c \<in> set (chunks_from sha b n k (a + m)). 0 < ch_size c \<and> ch_size c \<le> k)
      \<and> int (length (chunks_from sha b n k (a + m))) = (n - (a + m) + k - 1) div k"
      unfolding m_def by (rule "1.IH") (use True "1.prems" m in \<open>simp_all add: m_def\<close>)
    have e: "chunks_from sha b n k a =
      \<lparr>ch_chunk_id = chunk_id_of sha b a m, ch_offset = a, ch_size = m\<rparr> # chunks_from sha b n k (a + m)"
      using True "1.prems" by (subst chunks_from.simps) (simp add: Let_def m_def)
    have "1 + (n - (a + m) + k - 1) div k = (n - a + k - 1) div k"
    proof (cases "k \<le> n - a")
      case True
      then have "n - a + k - 1 = (n - (a + m) + k - 1) + k" by (simp add: m_def)
      then show ?thesis using "1.prems" by (simp only: div_add_self2)
    next
      case False
      then have "m = n - a" by (simp add: m_def)
      moreover have "(k - 1) div k = 0" using "1.prems" by (simp add: div_pos_pos_trivial)
      moreover have "(n - a - 1 + k) div k = (n - a - 1) div k + 1" using "1.prems" by (simp add: div_add_self2)
      moreover have "(n - a - 1) div k = 0" using False True by (simp add: div_pos_pos_trivial)
      ultimately show ?thesis by (simp add: algebra_simps)
    qed
    with IH m show ?thesis unfolding e by simp
  qed
qed

section \<open>Finalizing a manifest\<close>

definition normalize_file_payload :: "(string \<Rightarrow> string) \<Rightarrow> dict \<Rightarrow> dict sresult" where
  "normalize_file_payload nfc d =
     rbind (require_string d ''path'') (\<lambda>p. Inr (AList.update ''path'' (JStr (nfc p)) d))"

definition normalize_tombstone_payload :: "(string \<Rightarrow> string) \<Rightarrow> int \<Rightarrow> dict \<Rightarrow> dict sresult" where
  "normalize_tombstone_payload nfc revision d =
     rbind (require_string d ''file_id'') (\<lambda>_.
     let d1 = (if dget d ''deleted_revision'' = JNull
               then AList.update ''deleted_revision'' (JInt revision) d else d) in
     rbind (case dget d1 ''last_known_path'' of
         JNull \<Rightarrow> Inr d1
       | JStr p \<Rightarrow> if p = []
           then Inl (SyncStoreError ''invalid_manifest''
             ''last_known_path must be a non-empty string when provided'')
           else Inr (AList.update ''last_known_path'' (JStr (nfc p)) d1)
       | _ \<Rightarrow> Inl (SyncStoreError ''invalid_manifest''
             ''last_known_path must be a non-empty string when provided'')) (\<lambda>d2.
     let d3 = (if map_of d2 ''deleted_at'' = None
               then AList.update ''deleted_at'' (JInt 0) d2 else d2) in
     Inr (if map_of d3 ''local_delete_seq'' = None
          then AList.update ''local_delete_seq'' (JInt 0) d3 else d3)))"

text \<open>
  The sort keys of the code raise when \<open>file_id\<close> is missing; comparing keys whose types differ
  raises too, which the model reports for any identifier that is not a string and any sequence
  number that is not an integer.
\<close>

definition file_payload_key :: "dict \<Rightarrow> (string \<times> string) sresult" where
  "file_payload_key d = (case ditem d ''file_id'' of
     Inl e \<Rightarrow> Inl (PyRaise e)
   | Inr (JStr i) \<Rightarrow> Inr (dstr d ''path'', i)
   | Inr _ \<Rightarrow> Inl (PyRaise (IllTyped ''file_id'')))"

definition tombstone_payload_key :: "dict \<Rightarrow> (int \<times> string) sresult" where
  "tombstone_payload_key d = (case py_int (dget d ''local_delete_seq'') of
     Some i \<Rightarrow> Inr (i, dstr d ''file_id'')
   | None \<Rightarrow> Inl (PyRaise (IllTyped ''local_delete_seq'')))"

definition sort_by_payload_key :: "(dict \<Rightarrow> 'k::linorder sresult) \<Rightarrow> dict list \<Rightarrow> dict list sresult" where
  "sort_by_payload_key key ds =
     rbind (mapM key ds) (\<lambda>ks. Inr (map snd (sort_key fst (zip ks ds))))"

text \<open>\<open>[f(item) for item in payload if isinstance(item, dict)]\<close>, then the check that none was
  skipped.\<close>

definition object_items :: "json list \<Rightarrow> dict list" where
  "object_items vs = List.map_filter (\<lambda>v. case v of JObj d \<Rightarrow> Some d | _ \<Rightarrow> None) vs"

definition normalize_items :: "(dict \<Rightarrow> dict sresult) \<Rightarrow> string \<Rightarrow> json list \<Rightarrow> dict list sresult" where
  "normalize_items f msg vs =
     rbind (mapM f (object_items vs)) (\<lambda>ds.
     if length ds \<noteq> length vs then Inl (SyncStoreError ''invalid_manifest'' msg) else Inr ds)"

definition manifest_list :: "dict \<Rightarrow> string \<Rightarrow> json list sresult" where
  "manifest_list d k = (case dget d k of
     JArr vs \<Rightarrow> Inr vs
   | _ \<Rightarrow> Inl (SyncStoreError ''invalid_manifest'' (''manifest.'' @ k @ '' must be a list'')))"

definition canonical_json_hash :: "(string \<Rightarrow> string) \<Rightarrow> dict \<Rightarrow> string" where
  "canonical_json_hash sha d = ''sha256:'' @ sha (json_dumps (JObj d))"

definition finalize_manifest_payload ::
  "(string \<Rightarrow> string) \<Rightarrow> (string \<Rightarrow> string) \<Rightarrow> dict \<Rightarrow> int \<Rightarrow> dict sresult" where
  "finalize_manifest_payload sha nfc m revision =
     (if map_of m ''schema_version'' \<notin> {None, Some (JStr ''v1'')}
      then Inl (SyncStoreError ''invalid_manifest'' ''manifest schema_version must be v1'')
      else rbind (require_string m ''vault_id'') (\<lambda>_.
      rbind (require_non_negative_int m ''base_revision'') (\<lambda>_.
      rbind (require_string m ''created_by_device'') (\<lambda>_.
      rbind (require_non_negative_int m ''created_at'') (\<lambda>_.
      rbind (manifest_list m ''files'') (\<lambda>files_payload.
      rbind (manifest_list m ''tombstones'') (\<lambda>tombstones_payload.
      rbind (normalize_items (normalize_file_payload nfc) ''manifest.files items must be objects''
        files_payload) (\<lambda>files.
      rbind (normalize_items (normalize_tombstone_payload nfc revision)
        ''manifest.tombstones items must be objects'' tombstones_payload) (\<lambda>tombstones.
      rbind (sort_by_payload_key file_payload_key files) (\<lambda>files.
      rbind (sort_by_payload_key tombstone_payload_key tombstones) (\<lambda>tombstones.
      let files = JArr (map JObj files); tombstones = JArr (map JObj tombstones) in
      Inr (AList.update ''summary_hash'' (JStr (canonical_json_hash sha
             [(''schema_version'', JStr ''v1''), (''revision'', JInt revision),
              (''files'', files), (''tombstones'', tombstones)]))
           (AList.update ''tombstones'' tombstones
           (AList.update ''files'' files
           (AList.update ''revision'' (JInt revision)
           (AList.update ''schema_version'' (JStr ''v1'') m))))))))))))))))"

section \<open>The server finalizes what the client sends\<close>

lemma insort_key_map: "insort_key g (f x) (map f xs) = map f (insort_key (\<lambda>x. g (f x)) x xs)"
  by (induction xs) auto

lemma sort_key_map_image: "sort_key g (map f xs) = map f (sort_key (\<lambda>x. g (f x)) xs)"
  by (induction xs) (simp_all add: insort_key_map)

lemma sort_by_payload_key_pure:
  assumes "\<And>d. d \<in> set ds \<Longrightarrow> key d = Inr (k d)"
  shows "sort_by_payload_key key ds = Inr (sort_key k ds)"
proof -
  have z: "zip (map k ds) ds = map (\<lambda>d. (k d, d)) ds" by (induction ds) auto
  have "mapM key ds = Inr (map k ds)" using assms by (rule mapM_pure)
  then show ?thesis
    unfolding sort_by_payload_key_def by (simp add: z sort_key_map_image comp_def)
qed

lemma object_items_objects [simp]: "object_items (map (JObj \<circ> f) xs) = map f xs"
  by (induction xs) (simp_all add: object_items_def)

lemma normalize_items_pure:
  assumes "\<And>x. x \<in> set xs \<Longrightarrow> f (g x) = Inr (h x)"
  shows "normalize_items f msg (map (JObj \<circ> g) xs) = Inr (map h xs)"
proof -
  have "mapM f (map g xs) = Inr (map h xs)" using assms by (induction xs) auto
  then show ?thesis by (simp add: normalize_items_def)
qed

lemma normalize_file_payload_entry:
  "mf_path e \<noteq> [] \<Longrightarrow>
     normalize_file_payload nfc (manifest_file_to_dict e) = Inr (normalize_file_entry nfc e)"
  by (simp add: normalize_file_payload_def normalize_file_entry_def require_string_def)
     (simp add: dget_def manifest_file_to_dict_def)

definition stamped :: "int \<Rightarrow> tombstone \<Rightarrow> tombstone" where
  "stamped r t = (if tb_deleted_revision t = None then t\<lparr>tb_deleted_revision := Some r\<rparr> else t)"

lemma normalize_tombstone_payload_record:
  assumes "tb_file_id t \<noteq> []" "tb_last_known_path t \<noteq> Some []"
  shows "normalize_tombstone_payload nfc r (tombstone_to_dict t)
    = Inr (normalize_tombstone nfc Final (stamped r t))"
  using assms
  by (cases t; cases "tb_deleted_revision t"; cases "tb_last_known_path t";
      cases "tb_deleted_by_device t"; cases "tb_meta t")
     (auto simp: normalize_tombstone_payload_def normalize_tombstone_def require_string_def stamped_def
        tombstone_to_dict_def dget_def Let_def split: list.splits)

lemma file_payload_key_entry:
  "file_payload_key (normalize_file_entry nfc e) = Inr (nfc (mf_path e), mf_file_id e)"
proof -
  have "ditem (normalize_file_entry nfc e) ''file_id'' = Inr (JStr (mf_file_id e))"
    by (simp add: normalize_file_entry_def ditem_def update_conv' manifest_file_to_dict_def)
  then show ?thesis by (simp add: file_payload_key_def)
qed

lemma tombstone_payload_key_record:
  "tombstone_payload_key (normalize_tombstone nfc Final t)
     = Inr (tb_local_delete_seq t, tb_file_id t)"
proof -
  have "dget (normalize_tombstone nfc Final t) ''local_delete_seq'' = JInt (tb_local_delete_seq t)"
    by (auto simp: normalize_tombstone_def Let_def split: option.splits)
       (simp_all add: dget_def tombstone_to_dict_def)
  then show ?thesis by (simp add: tombstone_payload_key_def)
qed

lemma stamped_file_id [simp]: "tb_file_id (stamped r t) = tb_file_id t"
  by (simp add: stamped_def)

lemma normalized_pending:
  "dget (normalize_tombstone nfc Final t) ''deleted_revision''
     = (case tb_deleted_revision t of None \<Rightarrow> JNull | Some r \<Rightarrow> JInt r)"
  by (auto simp: normalize_tombstone_def Let_def split: option.splits)
     (simp_all add: dget_def tombstone_to_dict_def)

text \<open>The manifest the server stores for the client's manifest \<open>m\<close>, at revision \<open>r\<close>.\<close>

definition server_view :: "int \<Rightarrow> manifest \<Rightarrow> manifest" where
  "server_view r m = m\<lparr>mn_revision := r, mn_tombstones := map (stamped r) (mn_tombstones m)\<rparr>"

lemma server_view_payload_eq:
  "canonical_manifest_payload nfc Final (server_view r m)
     = canonical_manifest_payload nfc Final (m\<lparr>mn_revision := r\<rparr>)
   \<longleftrightarrow> None \<notin> tb_deleted_revision ` set (mn_tombstones m)" (is "?eq \<longleftrightarrow> ?none")
proof
  let ?N = "normalize_tombstone nfc Final" and ?D = "\<lambda>d. dget d ''deleted_revision''"
  assume ?eq
  then have "map JObj (canonical_tombstones nfc Final (map (stamped r) (mn_tombstones m)))
      = map JObj (canonical_tombstones nfc Final (mn_tombstones m))"
    by (simp add: canonical_manifest_payload_def server_view_def)
  then have "canonical_tombstones nfc Final (map (stamped r) (mn_tombstones m))
      = canonical_tombstones nfc Final (mn_tombstones m)"
    by (simp add: inj_map_eq_map inj_def)
  then have "set (canonical_tombstones nfc Final (map (stamped r) (mn_tombstones m)))
      = set (canonical_tombstones nfc Final (mn_tombstones m))" by simp
  then have "?N ` stamped r ` set (mn_tombstones m) = ?N ` set (mn_tombstones m)"
    by (simp add: canonical_tombstones_def image_image)
  then have "?D ` ?N ` stamped r ` set (mn_tombstones m) = ?D ` ?N ` set (mn_tombstones m)"
    by (rule arg_cong)
  moreover have "JNull \<notin> ?D ` ?N ` stamped r ` set (mn_tombstones m)"
    by (auto simp: normalized_pending stamped_def split: option.splits)
  ultimately have n: "JNull \<notin> ?D ` ?N ` set (mn_tombstones m)" by simp
  show ?none
  proof
    assume "None \<in> tb_deleted_revision ` set (mn_tombstones m)"
    then obtain t where "t \<in> set (mn_tombstones m)" "tb_deleted_revision t = None" by auto
    then have "JNull \<in> ?D ` ?N ` set (mn_tombstones m)"
      by (intro image_eqI [of _ _ "?N t"]) (simp_all add: normalized_pending)
    with n show False by simp
  qed
next
  assume ?none
  then have "map (stamped r) (mn_tombstones m) = mn_tombstones m"
    by (intro map_idI) (force simp: stamped_def image_iff)
  then show ?eq by (simp add: server_view_def)
qed

text \<open>C31: The server finalizes the manifest file a client sends (\<open>manifest_to_dict\<close>) at any
  revision: it stores it under that revision with the summary hash the client's own functions
  compute for the manifest whose pending tombstones carry the revision. The text it hashes is
  the one the client hashes when it finalizes its copy exactly when the manifest has no pending
  tombstone; with one, the client's summary is computed from another text.\<close>

theorem server_summary_agrees:
  assumes "wf_manifest m" "Some [] \<notin> tb_last_known_path ` set (mn_tombstones m)"
    and "distinct (map mf_file_id (mn_files m))" "distinct (map tb_file_id (mn_tombstones m))"
  shows "(\<exists>p. finalize_manifest_payload sha nfc (manifest_to_dict m) r = Inr p
      \<and> dget p ''revision'' = JInt r
      \<and> dget p ''summary_hash'' = JStr (compute_manifest_summary_hash sha nfc (server_view r m)))
    \<and> (canonical_manifest_payload nfc Final (server_view r m)
         = canonical_manifest_payload nfc Final (m\<lparr>mn_revision := r\<rparr>)
       \<longleftrightarrow> None \<notin> tb_deleted_revision ` set (mn_tombstones m))"
proof -
  let ?files = "sort_key (\<lambda>d. (dstr d ''path'', dstr d ''file_id''))
    (map (normalize_file_entry nfc) (mn_sorted_files m))"
  let ?tombs = "sort_key (\<lambda>d. (dint d ''local_delete_seq'', dstr d ''file_id''))
    (map (\<lambda>t. normalize_tombstone nfc Final (stamped r t)) (mn_sorted_tombstones m))"
  have wf: "mn_schema_version m = ''v1''" "mn_vault_id m \<noteq> []" "mn_created_by_device m \<noteq> []"
    "0 \<le> mn_base_revision m" "0 \<le> mn_created_at m"
    using assms(1) by (simp_all add: wf_manifest_def result_simps)
  have wff: "mf_path e \<noteq> []" if "e \<in> set (mn_files m)" for e
  proof -
    have "wf_manifest_file e" using assms(1) that by (simp add: wf_manifest_def list_all_iff)
    then show ?thesis by (simp add: wf_manifest_file_def ManifestFileEntry_def result_simps)
  qed
  have wft: "tb_file_id t \<noteq> []" "tb_last_known_path t \<noteq> Some []"
    if "t \<in> set (mn_tombstones m)" for t
  proof -
    have "wf_tombstone t" using assms(1) that by (simp add: wf_manifest_def list_all_iff)
    then show "tb_file_id t \<noteq> []" by (simp add: wf_tombstone_def TombstoneRecord_def result_simps)
    show "tb_last_known_path t \<noteq> Some []" using assms(2) that by force
  qed
  have f: "normalize_items (normalize_file_payload nfc) msg
      (map (JObj \<circ> manifest_file_to_dict) (mn_sorted_files m))
    = Inr (map (normalize_file_entry nfc) (mn_sorted_files m))" for msg
    by (rule normalize_items_pure)
       (simp add: normalize_file_payload_entry wff mn_sorted_files_def)
  have t: "normalize_items (normalize_tombstone_payload nfc r) msg
      (map (JObj \<circ> tombstone_to_dict) (mn_sorted_tombstones m))
    = Inr (map (\<lambda>t. normalize_tombstone nfc Final (stamped r t)) (mn_sorted_tombstones m))" for msg
    by (rule normalize_items_pure)
       (simp add: normalize_tombstone_payload_record wft mn_sorted_tombstones_def)
  have fs: "sort_by_payload_key file_payload_key (map (normalize_file_entry nfc) (mn_sorted_files m))
      = Inr ?files"
    by (rule sort_by_payload_key_pure) (auto simp: file_payload_key_entry)
  have ts: "sort_by_payload_key tombstone_payload_key
      (map (\<lambda>t. normalize_tombstone nfc Final (stamped r t)) (mn_sorted_tombstones m)) = Inr ?tombs"
    by (rule sort_by_payload_key_pure) (auto simp: tombstone_payload_key_record)
  have cf: "?files = canonical_files nfc (mn_files m)"
    unfolding canonical_files_def [symmetric]
    using assms(3) by (intro canonical_files_perm) (simp_all add: mn_sorted_files_def distinct_map)
  have ct: "?tombs = canonical_tombstones nfc Final (map (stamped r) (mn_tombstones m))"
  proof -
    have "?tombs = canonical_tombstones nfc Final (map (stamped r) (mn_sorted_tombstones m))"
      by (simp add: canonical_tombstones_def comp_def)
    also have "\<dots> = canonical_tombstones nfc Final (map (stamped r) (mn_tombstones m))"
      using assms(4)
      by (intro canonical_tombstones_perm) (simp_all add: mn_sorted_tombstones_def comp_def distinct_map)
    finally show ?thesis .
  qed
  have r: "require_string d ''vault_id'' = Inr (mn_vault_id m)"
    "require_non_negative_int d ''base_revision'' = Inr (mn_base_revision m)"
    "require_string d ''created_by_device'' = Inr (mn_created_by_device m)"
    "require_non_negative_int d ''created_at'' = Inr (mn_created_at m)"
    "manifest_list d ''files'' = Inr (map (JObj \<circ> manifest_file_to_dict) (mn_sorted_files m))"
    "manifest_list d ''tombstones'' = Inr (map (JObj \<circ> tombstone_to_dict) (mn_sorted_tombstones m))"
    "map_of d ''schema_version'' = Some (JStr ''v1'')"
    if "d = manifest_to_dict m" for d
    using wf that by (simp_all add: require_string_def require_non_negative_int_def manifest_list_def
        dget_def manifest_to_dict_def)
  have h: "canonical_json_hash sha [(''schema_version'', JStr ''v1''), (''revision'', JInt r),
      (''files'', JArr (map JObj ?files)), (''tombstones'', JArr (map JObj ?tombs))]
    = compute_manifest_summary_hash sha nfc (server_view r m)"
    by (simp add: canonical_json_hash_def compute_manifest_summary_hash_def sha256_hex_def wf cf ct
        serialize_manifest_canonical_def canonical_manifest_payload_def server_view_def)
  define d where "d = manifest_to_dict m"
  have "\<exists>p. finalize_manifest_payload sha nfc d r = Inr p \<and> dget p ''revision'' = JInt r
      \<and> dget p ''summary_hash'' = JStr (compute_manifest_summary_hash sha nfc (server_view r m))"
    unfolding finalize_manifest_payload_def r [OF d_def] rbind_Inr f t fs ts Let_def h by simp
  then show ?thesis unfolding server_view_payload_eq d_def by simp
qed

theorem server_summary_agrees_witness:
  "\<exists>p. finalize_manifest_payload rev id (manifest_to_dict sample_manifest) 2 = Inr p
    \<and> dget p ''summary_hash'' = JStr (compute_manifest_summary_hash rev id sample_manifest)"
proof -
  have "wf_manifest sample_manifest" "Some [] \<notin> tb_last_known_path ` set (mn_tombstones sample_manifest)"
    "distinct (map mf_file_id (mn_files sample_manifest))"
    "distinct (map tb_file_id (mn_tombstones sample_manifest))"
    by code_simp+
  moreover have "server_view 2 sample_manifest = sample_manifest" by code_simp
  ultimately show ?thesis
    using server_summary_agrees [of sample_manifest rev id 2] by metis
qed

section \<open>Cutting a blob\<close>

lemma blob_chunks_eq_Inr:
  "blob_chunks sha b n k = Inr cs \<longleftrightarrow> 0 \<le> n \<and> 0 < k
     \<and> cs = (if n = 0 then [\<lparr>ch_chunk_id = chunk_id_of sha b 0 0, ch_offset = 0, ch_size = 0\<rparr>]
             else chunks_from sha b n k 0)"
  by (auto simp: blob_chunks_def not_less not_le)

text \<open>C34: Whatever the sizes, cutting a blob ends: with a negative size or a chunk size that is
  not positive it is refused, otherwise the chunks cover the blob from 0 to its size without gap
  or overlap, none is longer than the chunk size, there are \<open>ceil(size / chunk_size)\<close> of
  them (one, empty, for an empty blob), and client and server cut it into the same chunks, with
  the same identifiers.\<close>

theorem blob_chunks_partition:
  "case blob_chunks sha b n k of
     Inl e \<Rightarrow> n < 0 \<or> k \<le> 0
   | Inr cs \<Rightarrow> contiguous 0 cs n \<and> ch_size ` set cs \<subseteq> {(if n = 0 then 0 else 1)..k}
       \<and> int (length cs) = max 1 ((n + k - 1) div k)
       \<and> (b = [] \<or> build_blob_chunk_descriptors sha b n k = Inr cs)"
proof (cases "blob_chunks sha b n k")
  case (Inl e)
  then show ?thesis by (auto simp: blob_chunks_def not_less not_le split: if_splits)
next
  case (Inr cs)
  then have c: "0 \<le> n" "0 < k" "cs = (if n = 0
      then [\<lparr>ch_chunk_id = chunk_id_of sha b 0 0, ch_offset = 0, ch_size = 0\<rparr>]
      else chunks_from sha b n k 0)"
    by (simp_all add: blob_chunks_eq_Inr)
  have cl: "b = [] \<or> build_blob_chunk_descriptors sha b n k = Inr cs"
    using c by (simp add: build_blob_chunk_descriptors_def)
  show ?thesis
  proof (cases "n = 0")
    case True
    moreover have "(k - 1) div k = 0" using c(2) by (simp add: div_pos_pos_trivial)
    ultimately show ?thesis using c cl Inr by simp
  next
    case False
    then have "1 \<le> (n + k - 1) div k"
      using c by (simp add: pos_imp_zdiv_pos_iff int_one_le_iff_zero_less)
    moreover have "cs = chunks_from sha b n k 0" using c False by simp
    ultimately show ?thesis
      using chunks_from_partition [of k 0 n sha b] c(1,2) cl Inr False by (auto simp: Ball_def)
  qed
qed

end
