(* ===== verification/Server_State.thy ===== *)
theory Server_State
  imports Server_Manifest
begin

text \<open>
  The state of \<open>noteapp-server/sync_store.py\<close>. The code keeps one JSON object; every entry of
  it is written by the operations of the store, so its typed parts are records here and only
  what comes unchecked from a request stays JSON. The tables the code iterates over are
  association lists, the others maps; the keys of \<open>manifests\<close> are the revisions whose decimal
  text the code uses.

  An operation is a function from the state to an error or a value with the next state: the
  repository hands it a copy and stores the copy only when it returns, so an error leaves the
  stored state as it was. The clock (\<open>now\<close>, milliseconds) and fresh identifiers are arguments.
\<close>

section \<open>Text\<close>

definition is_space :: "char \<Rightarrow> bool" where
  "is_space c \<longleftrightarrow> (let n = of_char c :: nat in 9 \<le> n \<and> n \<le> 13 \<or> 28 \<le> n \<and> n \<le> 32 \<or> n = 133 \<or> n = 160)"

definition strip :: "string \<Rightarrow> string" where
  "strip s = rev (dropWhile is_space (rev (dropWhile is_space s)))"

section \<open>File versions\<close>

record version_row =
  vr_version_id :: string
  vr_file_id :: string
  vr_path :: json
  vr_revision :: int
  vr_content_hash :: json
  vr_blob_id :: string
  vr_size :: json
  vr_mtime :: json
  vr_created_at :: json
  vr_created_by_device :: json
  vr_source :: string
  vr_is_pinned :: bool
  vr_version_label :: "string option"
  vr_change_note :: "string option"

record file_versions =
  fv_records :: "string \<rightharpoonup> version_row"
  fv_by_file_id :: "string \<rightharpoonup> string list"
  fv_retention_policy :: dict

definition DEFAULT_FILE_VERSION_RETENTION_POLICY :: dict where
  "DEFAULT_FILE_VERSION_RETENTION_POLICY = [(''keep_latest'', JInt 50), (''keep_pinned'', JBool True)]"

section \<open>Vaults\<close>

datatype commit_kind = ClientCommit | TombstoneGC "string list"

record commit_record =
  cr_commit_intent_id :: string
  cr_intent_manifest_hash :: string
  cr_revision :: int
  cr_created_by_device :: string
  cr_committed_at_ms :: int
  cr_kind :: commit_kind

record blocked_tombstone =
  bt_item :: dict
  bt_reason :: string
  bt_retention_remaining_ms :: int
  bt_blocked_by_devices :: "(string \<times> int \<times> int) list"

record gc_result =
  gr_vault_id :: string
  gr_run_id :: string
  gr_ran_at_ms :: int
  gr_base_revision :: int
  gr_new_revision :: "int option"
  gr_head_revision :: int
  gr_active_device_ids :: "string list"
  gr_min_retention_ms :: int
  gr_inactive_after_ms :: int
  gr_reclaimed_tombstones :: "dict list"
  gr_blocked_tombstones :: "blocked_tombstone list"
  gr_reason :: string

record vault =
  vt_head_revision :: int
  vt_manifest_summary :: "string option"
  vt_manifests :: "int \<rightharpoonup> dict"
  vt_commits :: "string \<rightharpoonup> commit_record"
  vt_acks :: "(string \<times> int) list"
  vt_gc_runs :: "gc_result list"
  vt_file_versions :: file_versions

definition new_vault :: vault where
  "new_vault = \<lparr>vt_head_revision = 0, vt_manifest_summary = None, vt_manifests = Map.empty,
     vt_commits = Map.empty, vt_acks = [], vt_gc_runs = [],
     vt_file_versions = \<lparr>fv_records = Map.empty, fv_by_file_id = Map.empty,
       fv_retention_policy = DEFAULT_FILE_VERSION_RETENTION_POLICY\<rparr>\<rparr>"

section \<open>Accounts, devices and sessions\<close>

record password_record =
  pw_iterations :: int
  pw_salt :: string
  pw_hash :: string
  pw_updated_at_ms :: int

record user =
  us_account_key :: string
  us_display_name :: string
  us_status :: string
  us_auth_methods :: "string list"
  us_password_auth :: "password_record option"
  us_created_at_ms :: int
  us_updated_at_ms :: int

record device =
  dv_user_id :: string
  dv_device_name :: string
  dv_platform :: string
  dv_app_version :: json
  dv_protocol_version :: json
  dv_session_id :: string
  dv_access_token :: string
  dv_refresh_token :: string
  dv_access_token_expires_at_ms :: int
  dv_refresh_token_expires_at_ms :: int
  dv_revoked :: bool
  dv_revoked_at_ms :: "int option"
  dv_registered_at_ms :: int
  dv_last_seen_at_ms :: int

record session =
  ss_user_id :: string
  ss_device_id :: string
  ss_access_token :: string
  ss_refresh_token :: string
  ss_access_expires_at_ms :: int
  ss_refresh_expires_at_ms :: int
  ss_created_at_ms :: int
  ss_updated_at_ms :: int
  ss_revoked_at_ms :: "int option"

section \<open>Blobs and the permissions to move them\<close>

record blob =
  bl_vault_id :: string
  bl_object_key :: string
  bl_storage_backend :: string
  bl_encrypted_size :: int
  bl_content_hash :: string
  bl_encrypted_sha256 :: string
  bl_uploaded_at_ms :: int

datatype capability_kind =
    Upload int string string "string option"   \<comment> \<open>size, content hash, object key, digest\<close>
  | Download
  | ResumableDownload "(int \<times> int) list"        \<comment> \<open>authorized ranges\<close>

record capability =
  cp_kind :: capability_kind
  cp_vault_id :: string
  cp_blob_id :: string
  cp_device_id :: "string option"
  cp_expires_at_ms :: int

record upload_session =
  up_vault_id :: string
  up_blob_id :: string
  up_encrypted_size :: int
  up_content_hash :: string
  up_encrypted_sha256 :: string
  up_chunk_size :: int
  up_chunks :: "chunk list"
  up_uploaded_chunk_ids :: "string list"
  up_chunk_files :: "(string \<times> string) list"
  up_device_id :: "string option"
  up_expires_at_ms :: int
  up_created_at_ms :: int
  up_updated_at_ms :: int

section \<open>The state of the store\<close>

record server =
  sv_users :: "string \<rightharpoonup> user"
  sv_user_logins :: "string \<rightharpoonup> string"
  sv_devices :: "string \<rightharpoonup> device"
  sv_sessions :: "(string \<times> session) list"
  sv_tokens :: "string \<rightharpoonup> string"
  sv_refresh_tokens :: "string \<rightharpoonup> string"
  sv_vaults :: "(string \<times> vault) list"
  sv_blobs :: "string \<rightharpoonup> blob"
  sv_capabilities :: "string \<rightharpoonup> capability"
  sv_uploads :: "(string \<times> upload_session) list"

definition default_state :: server where
  "default_state = \<lparr>sv_users = Map.empty, sv_user_logins = Map.empty, sv_devices = Map.empty,
     sv_sessions = [], sv_tokens = Map.empty, sv_refresh_tokens = Map.empty, sv_vaults = [],
     sv_blobs = Map.empty, sv_capabilities = Map.empty, sv_uploads = []\<rparr>"

type_synonym 'a handler = "server \<Rightarrow> server_error + 'a \<times> server"

definition vault_of :: "server \<Rightarrow> string \<Rightarrow> vault" where
  "vault_of sv vid = (case map_of (sv_vaults sv) vid of Some v \<Rightarrow> v | None \<Rightarrow> new_vault)"

definition put_vault :: "string \<Rightarrow> vault \<Rightarrow> server \<Rightarrow> server" where
  "put_vault vid v sv = sv\<lparr>sv_vaults := AList.update vid v (sv_vaults sv)\<rparr>"

text \<open>\<open>setdefault\<close>: the vault, and the state that has it.\<close>

definition ensure_vault :: "string \<Rightarrow> server \<Rightarrow> vault \<times> server" where
  "ensure_vault vid sv = (vault_of sv vid, put_vault vid (vault_of sv vid) sv)"

definition joined_vault_device_ids :: "vault \<Rightarrow> string list" where
  "joined_vault_device_ids v = sort (filter (\<lambda>d. d \<noteq> []) (map fst (vt_acks v)))"

definition active_vault_device_ids :: "server \<Rightarrow> vault \<Rightarrow> string list" where
  "active_vault_device_ids sv v =
     filter (\<lambda>d. case sv_devices sv d of Some dv \<Rightarrow> \<not> dv_revoked dv | None \<Rightarrow> True)
       (joined_vault_device_ids v)"

definition list_vault_ids :: "server \<Rightarrow> string list" where
  "list_vault_ids sv = sort (filter (\<lambda>i. i \<noteq> []) (map fst (sv_vaults sv)))"

definition acked :: "vault \<Rightarrow> string \<Rightarrow> int" where
  "acked v d = (case map_of (vt_acks v) d of Some r \<Rightarrow> r | None \<Rightarrow> 0)"

definition record_ack :: "string \<Rightarrow> int \<Rightarrow> vault \<Rightarrow> vault" where
  "record_ack d r v = v\<lparr>vt_acks := AList.update d (max (acked v d) r) (vt_acks v)\<rparr>"

lemma vault_of_put [simp]: "vault_of (put_vault vid v sv) vid' = (if vid' = vid then v else vault_of sv vid')"
  by (simp add: vault_of_def put_vault_def update_conv')

lemma put_vault_fields [simp]:
  "sv_devices (put_vault vid v sv) = sv_devices sv"
  "sv_blobs (put_vault vid v sv) = sv_blobs sv"
  "sv_sessions (put_vault vid v sv) = sv_sessions sv"
  "sv_tokens (put_vault vid v sv) = sv_tokens sv"
  "sv_refresh_tokens (put_vault vid v sv) = sv_refresh_tokens sv"
  "sv_capabilities (put_vault vid v sv) = sv_capabilities sv"
  "sv_uploads (put_vault vid v sv) = sv_uploads sv"
  "sv_users (put_vault vid v sv) = sv_users sv"
  "sv_user_logins (put_vault vid v sv) = sv_user_logins sv"
  by (simp_all add: put_vault_def)

lemma put_vault_twice [simp]: "put_vault vid w (put_vault vid v sv) = put_vault vid w sv"
  by (simp add: put_vault_def)

lemma acked_record_ack [simp]:
  "acked (record_ack d r v) d' = (if d' = d then max (acked v d) r else acked v d')"
  by (simp add: record_ack_def acked_def update_conv')

lemma record_ack_fields [simp]:
  "vt_head_revision (record_ack d r v) = vt_head_revision v"
  "vt_manifest_summary (record_ack d r v) = vt_manifest_summary v"
  "vt_manifests (record_ack d r v) = vt_manifests v"
  "vt_commits (record_ack d r v) = vt_commits v"
  "vt_gc_runs (record_ack d r v) = vt_gc_runs v"
  "vt_file_versions (record_ack d r v) = vt_file_versions v"
  by (simp_all add: record_ack_def)

end
