(* ===== verification/Server_Commits.thy ===== *)
theory Server_Commits
  imports Server_State
begin

text \<open>
  Commits on the server (\<open>sync_store.py\<close>): the file versions a commit appends and their
  retention, \<open>create_commit\<close> and \<open>resolve_commit_intent\<close>, acknowledgements, and the collection of
  tombstones every active device has seen.
\<close>

section \<open>Appending file versions\<close>

definition VALID_FILE_VERSION_SOURCES_server :: "string list" where
  "VALID_FILE_VERSION_SOURCES_server =
     [''commit_success'', ''manual_checkpoint'', ''manual_meeting_checkpoint'', ''restore'']"

record stored_directive =
  sd_source :: string
  sd_version_label :: "string option"
  sd_change_note :: "string option"
  sd_is_pinned :: bool

definition file_version_id ::
  "(string \<Rightarrow> string) \<Rightarrow> string \<Rightarrow> string \<Rightarrow> int \<Rightarrow> string \<Rightarrow> string \<Rightarrow> string" where
  "file_version_id sha vault_id file_id revision blob_id source = ''fv_'' @ take 32
     (sha (vault_id @ '':'' @ file_id @ '':'' @ int_str revision @ '':'' @ blob_id @ '':'' @ source))"

definition optional_text :: "dict \<Rightarrow> string \<Rightarrow> string option sresult" where
  "optional_text d k = (case dget d k of
     JNull \<Rightarrow> Inr None
   | JStr s \<Rightarrow> if s = [] then Inl (invalid_request (k @ '' must be a non-empty string when provided''))
               else Inr (Some s)
   | _ \<Rightarrow> Inl (invalid_request (k @ '' must be a non-empty string when provided'')))"

definition parse_version_directive ::
  "(string \<times> stored_directive) list \<Rightarrow> json \<Rightarrow> (string \<times> stored_directive) sresult" where
  "parse_version_directive seen v = (case v of
     JObj d \<Rightarrow>
       rbind (require_string d ''file_id'') (\<lambda>file_id.
       if file_id \<in> set (map fst seen)
       then Inl (invalid_request ''file_version_directives file_id values must be unique'')
       else rbind (require_string d ''source'') (\<lambda>source.
       if source \<notin> set VALID_FILE_VERSION_SOURCES_server
       then Inl (invalid_request ''unsupported file version source'')
       else rbind (optional_text d ''version_label'') (\<lambda>version_label.
       rbind (optional_text d ''change_note'') (\<lambda>change_note.
       case map_of d ''is_pinned'' of
         None \<Rightarrow> Inr (file_id, \<lparr>sd_source = source, sd_version_label = version_label,
           sd_change_note = change_note, sd_is_pinned = False\<rparr>)
       | Some (JBool b) \<Rightarrow> Inr (file_id, \<lparr>sd_source = source, sd_version_label = version_label,
           sd_change_note = change_note, sd_is_pinned = b\<rparr>)
       | Some _ \<Rightarrow> Inl (invalid_request ''is_pinned must be a boolean'')))))
   | _ \<Rightarrow> Inl (invalid_request ''file_version_directives items must be objects''))"

fun parse_version_directives ::
  "(string \<times> stored_directive) list \<Rightarrow> json list \<Rightarrow> (string \<times> stored_directive) list sresult" where
  "parse_version_directives acc [] = Inr acc"
| "parse_version_directives acc (v # vs) =
     rbind (parse_version_directive acc v) (\<lambda>kd. parse_version_directives (acc @ [kd]) vs)"

definition parse_file_version_directives :: "dict \<Rightarrow> (string \<times> stored_directive) list sresult" where
  "parse_file_version_directives payload = (case map_of payload ''file_version_directives'' of
     None \<Rightarrow> Inr []
   | Some JNull \<Rightarrow> Inr []
   | Some (JArr vs) \<Rightarrow> parse_version_directives [] vs
   | Some _ \<Rightarrow> Inl (invalid_request ''file_version_directives must be a list when provided''))"

definition blob_refs_of :: "dict \<Rightarrow> json list sresult" where
  "blob_refs_of payload = (case map_of payload ''blob_refs'' of
     None \<Rightarrow> Inr []
   | Some JNull \<Rightarrow> Inr []
   | Some (JArr vs) \<Rightarrow> Inr vs
   | Some _ \<Rightarrow> Inl (invalid_request ''blob_refs must be a list when provided''))"

definition commit_blob_ref_file_ids :: "dict \<Rightarrow> string list sresult" where
  "commit_blob_ref_file_ids payload =
     rbind (blob_refs_of payload) (mapM (\<lambda>v. case v of
       JObj d \<Rightarrow> require_string d ''file_id''
     | _ \<Rightarrow> Inl (invalid_request ''blob_refs items must be objects'')))"

text \<open>\<open>{item["file_id"]: item for item in files if ...}\<close>: the last item of an identifier wins.\<close>

definition files_by_id :: "json list \<Rightarrow> (string \<times> dict) list" where
  "files_by_id vs = List.map_filter
     (\<lambda>d. map_option (\<lambda>i. (i, d)) (py_str (dget d ''file_id''))) (rev (object_items vs))"

definition previous_manifest_file_by_id :: "vault \<Rightarrow> int \<Rightarrow> (string \<times> dict) list" where
  "previous_manifest_file_by_id v base_revision =
     (if base_revision \<le> 0 then []
      else case vt_manifests v base_revision of
        None \<Rightarrow> []
      | Some m \<Rightarrow> (case dget m ''files'' of JArr vs \<Rightarrow> files_by_id vs | _ \<Rightarrow> []))"

subsection \<open>Retention\<close>

definition policy_keep_latest :: "dict \<Rightarrow> nat" where
  "policy_keep_latest p = (case map_of p ''keep_latest'' of
     Some v \<Rightarrow> (case py_int v of Some i \<Rightarrow> if i \<le> 0 then 50 else nat i | None \<Rightarrow> 50)
   | None \<Rightarrow> 50)"

definition policy_keep_pinned :: "dict \<Rightarrow> bool" where
  "policy_keep_pinned p = (case map_of p ''keep_pinned'' of Some (JBool b) \<Rightarrow> b | _ \<Rightarrow> True)"

text \<open>The loop over the sorted records: identifiers retained, and identifiers popped.\<close>

fun retain_versions ::
  "bool \<Rightarrow> nat \<Rightarrow> nat \<Rightarrow> version_row list \<Rightarrow> string list \<times> string list" where
  "retain_versions keep_pinned keep_latest n [] = ([], [])"
| "retain_versions keep_pinned keep_latest n (r # rs) =
     (if keep_pinned \<and> vr_is_pinned r
      then let (kept, popped) = retain_versions keep_pinned keep_latest n rs
           in (vr_version_id r # kept, popped)
      else if n < keep_latest
      then let (kept, popped) = retain_versions keep_pinned keep_latest (Suc n) rs
           in (vr_version_id r # kept, popped)
      else let (kept, popped) = retain_versions keep_pinned keep_latest n rs
           in (kept, vr_version_id r # popped))"

definition newest_first :: "version_row list \<Rightarrow> version_row list" where
  "newest_first = sort_key (\<lambda>r. (- vr_revision r, vr_version_id r))"

definition version_rows :: "file_versions \<Rightarrow> string list \<Rightarrow> version_row list" where
  "version_rows fvs ids = List.map_filter (fv_records fvs) ids"

definition apply_file_version_retention_policy :: "string \<Rightarrow> file_versions \<Rightarrow> file_versions" where
  "apply_file_version_retention_policy file_id fvs =
     (let policy = fv_retention_policy fvs in
      case fv_by_file_id fvs file_id of
        None \<Rightarrow> fvs
      | Some version_ids \<Rightarrow>
          let (kept, popped) = retain_versions (policy_keep_pinned policy) (policy_keep_latest policy) 0
                (newest_first (version_rows fvs version_ids)) in
          fvs\<lparr>fv_records := (\<lambda>i. if i \<in> set popped then None else fv_records fvs i),
              fv_by_file_id := (fv_by_file_id fvs)(file_id \<mapsto> kept)\<rparr>)"

subsection \<open>The versions of a commit\<close>

text \<open>The body of the loop, for a file of the manifest. \<open>item\<close> has passed the checks of
  \<open>finalize_manifest_payload\<close>; a key it lacks is a \<open>KeyError\<close>.\<close>

definition item_of :: "dict \<Rightarrow> string \<Rightarrow> json sresult" where
  "item_of d k = (case ditem d k of Inl e \<Rightarrow> Inl (PyRaise e) | Inr v \<Rightarrow> Inr v)"

definition string_item_of :: "dict \<Rightarrow> string \<Rightarrow> string sresult" where
  "string_item_of d k = rbind (item_of d k) (\<lambda>v. case v of
     JStr s \<Rightarrow> Inr s | _ \<Rightarrow> Inl (PyRaise (IllTyped k)))"

definition version_row_for ::
  "dict \<Rightarrow> int \<Rightarrow> stored_directive option \<Rightarrow> string \<Rightarrow> string \<Rightarrow> string \<Rightarrow> string \<Rightarrow> dict \<Rightarrow>
     version_row sresult" where
  "version_row_for manifest revision directive source version_id blob_id file_id item =
     rbind (item_of item ''path'') (\<lambda>path.
     rbind (item_of item ''content_hash'') (\<lambda>content_hash.
     rbind (item_of item ''size'') (\<lambda>size.
     rbind (item_of item ''mtime'') (\<lambda>mtime.
     rbind (item_of manifest ''created_at'') (\<lambda>created_at.
     rbind (item_of manifest ''created_by_device'') (\<lambda>created_by_device.
     Inr \<lparr>vr_version_id = version_id, vr_file_id = file_id, vr_path = path,
       vr_revision = revision, vr_content_hash = content_hash, vr_blob_id = blob_id,
       vr_size = size, vr_mtime = mtime, vr_created_at = created_at,
       vr_created_by_device = created_by_device, vr_source = source,
       vr_is_pinned = (case directive of Some dr \<Rightarrow> sd_is_pinned dr | None \<Rightarrow> False),
       vr_version_label = (case directive of Some dr \<Rightarrow> sd_version_label dr | None \<Rightarrow> None),
       vr_change_note = (case directive of Some dr \<Rightarrow> sd_change_note dr | None \<Rightarrow> None)\<rparr>))))))"

definition insert_version_row :: "version_row \<Rightarrow> file_versions \<Rightarrow> file_versions" where
  "insert_version_row row fvs =
     (let ids = (case fv_by_file_id fvs (vr_file_id row) of Some ids \<Rightarrow> ids | None \<Rightarrow> []) in
      fvs\<lparr>fv_records := (fv_records fvs)(vr_version_id row \<mapsto> row),
          fv_by_file_id := (fv_by_file_id fvs)(vr_file_id row \<mapsto>
            (if vr_version_id row \<in> set ids then ids else ids @ [vr_version_id row]))\<rparr>)"

definition append_file_version ::
  "(string \<Rightarrow> string) \<Rightarrow> dict \<Rightarrow> int \<Rightarrow> dict option \<Rightarrow> stored_directive option \<Rightarrow>
     string \<Rightarrow> dict \<Rightarrow> file_versions \<Rightarrow> file_versions sresult" where
  "append_file_version sha manifest revision previous directive file_id item fvs =
     (let content_changed = (case previous of
            None \<Rightarrow> True
          | Some p \<Rightarrow> dget p ''content_hash'' \<noteq> dget item ''content_hash''
              \<or> dget p ''blob_id'' \<noteq> dget item ''blob_id'');
          source = (case directive of Some dr \<Rightarrow> sd_source dr | None \<Rightarrow> ''commit_success'') in
      if directive = None \<and> \<not> content_changed then Inr fvs
      else rbind (string_item_of manifest ''vault_id'') (\<lambda>vault_id.
      rbind (string_item_of item ''blob_id'') (\<lambda>blob_id.
      let version_id = file_version_id sha vault_id file_id revision blob_id source in
      if fv_records fvs version_id \<noteq> None then Inr fvs
      else rbind (version_row_for manifest revision directive source version_id blob_id file_id item)
        (\<lambda>row. Inr (apply_file_version_retention_policy file_id (insert_version_row row fvs))))))"

fun append_versions ::
  "(string \<Rightarrow> file_versions \<Rightarrow> file_versions sresult) \<Rightarrow> string list \<Rightarrow> file_versions \<Rightarrow>
     file_versions sresult" where
  "append_versions f [] fvs = Inr fvs"
| "append_versions f (i # is) fvs = rbind (f i fvs) (append_versions f is)"

definition append_file_versions_for_commit ::
  "(string \<Rightarrow> string) \<Rightarrow> vault \<Rightarrow> dict \<Rightarrow> dict \<Rightarrow> int \<Rightarrow> file_versions sresult" where
  "append_file_versions_for_commit sha v payload manifest revision =
     rbind (parse_file_version_directives payload) (\<lambda>directives.
     rbind (commit_blob_ref_file_ids payload) (\<lambda>referenced.
     rbind (require_non_negative_int manifest ''base_revision'') (\<lambda>base_revision.
     let previous = previous_manifest_file_by_id v base_revision in
     rbind (manifest_list manifest ''files'') (\<lambda>files.
     let active = files_by_id files;
         unknown = sort (filter (\<lambda>i. i \<notin> set (map fst active)) (map fst directives)) in
     if unknown \<noteq> []
     then Inl (invalid_request (''file_version_directives reference files not present in manifest: ''
       @ join '', '' unknown))
     else append_versions (\<lambda>file_id fvs. case map_of active file_id of
         None \<Rightarrow> Inr fvs
       | Some item \<Rightarrow> append_file_version sha manifest revision (map_of previous file_id)
           (map_of directives file_id) file_id item fvs)
       (sort (remdups (referenced @ map fst directives))) (vt_file_versions v)))))"

section \<open>Committing\<close>

record commit_response =
  rs_vault_id :: string
  rs_new_revision :: int
  rs_head_manifest_summary :: "string option"
  rs_acked_revision_for_device :: int

definition commit_conflict :: "vault \<Rightarrow> string \<Rightarrow> server_error" where
  "commit_conflict v code = CommitConflict code (vt_head_revision v) (vt_manifest_summary v)"

fun require_blob_refs :: "server \<Rightarrow> json list \<Rightarrow> unit sresult" where
  "require_blob_refs sv [] = Inr ()"
| "require_blob_refs sv (JObj d # vs) =
     rbind (require_string d ''blob_id'') (\<lambda>blob_id.
     rbind (require_string d ''file_id'') (\<lambda>_.
     if sv_blobs sv blob_id = None
     then Inl (SyncStoreError ''blob_not_uploaded''
       (''Commit references a blob that has not been uploaded: '' @ blob_id))
     else require_blob_refs sv vs))"
| "require_blob_refs sv (_ # vs) = Inl (invalid_request ''blob_refs items must be objects'')"

definition require_commit_blobs_exist :: "server \<Rightarrow> dict \<Rightarrow> unit sresult" where
  "require_commit_blobs_exist sv payload = rbind (blob_refs_of payload) (require_blob_refs sv)"

text \<open>\<open>payload.get(..) or manifest.get(..) or auth_device_id\<close>, which must be a non-empty string.\<close>

definition commit_device :: "dict \<Rightarrow> dict \<Rightarrow> string option \<Rightarrow> string sresult" where
  "commit_device payload manifest auth_device_id =
     (let p = dget payload ''created_by_device''; m = dget manifest ''created_by_device'' in
      case (if \<not> py_false p then p else if \<not> py_false m then m
            else case auth_device_id of Some d \<Rightarrow> JStr d | None \<Rightarrow> JNull) of
        JStr d \<Rightarrow> if d = [] then Inl (invalid_request ''created_by_device is required'') else Inr d
      | _ \<Rightarrow> Inl (invalid_request ''created_by_device is required''))"

text \<open>The mutation \<open>create_commit\<close> runs inside \<open>repository.update\<close>.\<close>

definition commit_mutation ::
  "(string \<Rightarrow> string) \<Rightarrow> (string \<Rightarrow> string) \<Rightarrow> string \<Rightarrow> dict \<Rightarrow> string \<Rightarrow> int \<Rightarrow> string \<Rightarrow>
     dict \<Rightarrow> string \<Rightarrow> int \<Rightarrow> commit_response handler" where
  "commit_mutation sha nfc vault_id payload commit_intent_id base_revision intent_manifest_hash
       manifest created_by_device now sv =
     (let v = vault_of sv vault_id in
      case vt_commits v commit_intent_id of
        Some c \<Rightarrow>
          if cr_intent_manifest_hash c = intent_manifest_hash
          then let v' = record_ack created_by_device (cr_revision c) v in
            Inr (\<lparr>rs_vault_id = vault_id, rs_new_revision = cr_revision c,
                   rs_head_manifest_summary = vt_manifest_summary v',
                   rs_acked_revision_for_device = acked v' created_by_device\<rparr>,
                 put_vault vault_id v' sv)
          else Inl (commit_conflict v ''manifest_conflict'')
      | None \<Rightarrow>
          if base_revision \<noteq> vt_head_revision v
          then Inl (commit_conflict v ''base_revision_conflict'')
          else rbind (require_commit_blobs_exist sv payload) (\<lambda>_.
          let new_revision = vt_head_revision v + 1 in
          rbind (finalize_manifest_payload sha nfc manifest new_revision) (\<lambda>finalized.
          rbind (require_string finalized ''summary_hash'') (\<lambda>summary.
          let v1 = v\<lparr>vt_manifests := (vt_manifests v)(new_revision \<mapsto> finalized),
                vt_head_revision := new_revision, vt_manifest_summary := Some summary\<rparr> in
          rbind (append_file_versions_for_commit sha v1 payload finalized new_revision) (\<lambda>fvs.
          let v2 = v1\<lparr>vt_file_versions := fvs,
                vt_commits := (vt_commits v1)(commit_intent_id \<mapsto>
                  \<lparr>cr_commit_intent_id = commit_intent_id,
                   cr_intent_manifest_hash = intent_manifest_hash, cr_revision = new_revision,
                   cr_created_by_device = created_by_device, cr_committed_at_ms = now,
                   cr_kind = ClientCommit\<rparr>)\<rparr>;
              v3 = record_ack created_by_device new_revision v2 in
          Inr (\<lparr>rs_vault_id = vault_id, rs_new_revision = new_revision,
                 rs_head_manifest_summary = Some summary,
                 rs_acked_revision_for_device = acked v3 created_by_device\<rparr>,
               put_vault vault_id v3 sv))))))"

definition create_commit ::
  "(string \<Rightarrow> string) \<Rightarrow> (string \<Rightarrow> string) \<Rightarrow> string \<Rightarrow> dict \<Rightarrow> string option \<Rightarrow> int \<Rightarrow>
     commit_response handler" where
  "create_commit sha nfc vault_id payload auth_device_id now sv =
     rbind (require_string payload ''commit_intent_id'') (\<lambda>commit_intent_id.
     rbind (require_non_negative_int payload ''base_revision'') (\<lambda>base_revision.
     rbind (require_string payload ''intent_manifest_hash'') (\<lambda>intent_manifest_hash.
     case dget payload ''manifest'' of
       JObj manifest \<Rightarrow>
         if dget manifest ''vault_id'' \<noteq> JStr vault_id
         then Inl (SyncStoreError ''invalid_manifest'' ''manifest.vault_id must match path vault_id'')
         else if py_int (dget manifest ''base_revision'') \<noteq> Some base_revision
         then Inl (SyncStoreError ''invalid_manifest''
           ''manifest.base_revision must match request base_revision'')
         else rbind (commit_device payload manifest auth_device_id) (\<lambda>created_by_device.
           commit_mutation sha nfc vault_id payload commit_intent_id base_revision
             intent_manifest_hash manifest created_by_device now sv)
     | _ \<Rightarrow> Inl (invalid_request ''manifest must be an object''))))"

datatype intent_resolution =
    NotFound int "string option"
  | Mismatched int "string option"
  | Found int int "string option"

definition resolve_commit_intent :: "string \<Rightarrow> dict \<Rightarrow> server \<Rightarrow> intent_resolution sresult" where
  "resolve_commit_intent vault_id payload sv =
     rbind (require_string payload ''commit_intent_id'') (\<lambda>commit_intent_id.
     rbind (require_string payload ''intent_manifest_hash'') (\<lambda>intent_manifest_hash.
     let v = vault_of sv vault_id in
     Inr (case vt_commits v commit_intent_id of
       None \<Rightarrow> NotFound (vt_head_revision v) (vt_manifest_summary v)
     | Some c \<Rightarrow>
         if cr_intent_manifest_hash c \<noteq> intent_manifest_hash
         then Mismatched (vt_head_revision v) (vt_manifest_summary v)
         else Found (cr_revision c) (vt_head_revision v) (vt_manifest_summary v))))"

definition get_vault_head :: "string \<Rightarrow> (int \<times> string option) handler" where
  "get_vault_head vault_id sv = (case ensure_vault vault_id sv of
     (v, sv') \<Rightarrow> Inr ((vt_head_revision v, vt_manifest_summary v), sv'))"

definition get_manifest :: "string \<Rightarrow> int \<Rightarrow> server \<Rightarrow> dict option" where
  "get_manifest vault_id revision sv = vt_manifests (vault_of sv vault_id) revision"

definition check_blobs :: "string \<Rightarrow> dict \<Rightarrow> server \<Rightarrow> (string list \<times> string list) sresult" where
  "check_blobs vault_id payload sv =
     (if vault_id = [] then Inl (SyncStoreError ''invalid_vault_id'' ''vault_id must be non-empty'')
      else rbind (require_unique_strings payload ''blob_ids'') (\<lambda>blob_ids.
        let existing = filter (\<lambda>b. sv_blobs sv b \<noteq> None) blob_ids in
        Inr (existing, filter (\<lambda>b. b \<notin> set existing) blob_ids)))"

section \<open>Collecting tombstones\<close>

definition DEFAULT_TOMBSTONE_GC_MIN_RETENTION_MS :: int where
  "DEFAULT_TOMBSTONE_GC_MIN_RETENTION_MS = 604800000"

definition DEFAULT_DEVICE_INACTIVE_AFTER_MS :: int where
  "DEFAULT_DEVICE_INACTIVE_AFTER_MS = 604800000"

definition MAX_TOMBSTONE_GC_LOGS :: nat where
  "MAX_TOMBSTONE_GC_LOGS = 100"

definition append_tombstone_gc_log :: "gc_result \<Rightarrow> vault \<Rightarrow> vault" where
  "append_tombstone_gc_log g v =
     (let runs = vt_gc_runs v @ [g] in
      v\<lparr>vt_gc_runs := (if length runs > MAX_TOMBSTONE_GC_LOGS
                       then drop (length runs - MAX_TOMBSTONE_GC_LOGS) runs else runs)\<rparr>)"

definition tombstone_gc_item :: "dict \<Rightarrow> dict" where
  "tombstone_gc_item t = map (\<lambda>k. (k, dget t k))
     [''file_id'', ''deleted_revision'', ''deleted_at'', ''last_known_path'', ''deleted_by_device'']"

datatype gc_verdict = Retain | Block blocked_tombstone | Reclaim dict

text \<open>The body of the loop over the tombstones of the head manifest.\<close>

definition gc_judge :: "vault \<Rightarrow> string list \<Rightarrow> int \<Rightarrow> int \<Rightarrow> json \<Rightarrow> gc_verdict" where
  "gc_judge v active now min_retention_ms j = (case j of
     JObj t \<Rightarrow>
       (case py_int (dget t ''deleted_revision'') of
          Some deleted_revision \<Rightarrow>
            if deleted_revision \<le> 0
            then Block \<lparr>bt_item = tombstone_gc_item t, bt_reason = ''pending_deleted_revision'',
              bt_retention_remaining_ms = 0, bt_blocked_by_devices = []\<rparr>
            else
              let remaining = (case py_int (dget t ''deleted_at'') of
                    Some deleted_at \<Rightarrow> max 0 (min_retention_ms - max 0 (now - deleted_at))
                  | None \<Rightarrow> 0);
                  blocked_by = map (\<lambda>d. (d, acked v d, deleted_revision))
                    (filter (\<lambda>d. acked v d < deleted_revision) active) in
              if blocked_by \<noteq> [] \<or> remaining > 0
              then Block \<lparr>bt_item = tombstone_gc_item t,
                bt_reason = (if blocked_by \<noteq> [] \<and> remaining > 0 then ''waiting_for_ack_and_retention''
                             else if blocked_by \<noteq> [] then ''waiting_for_ack''
                             else ''retention_window''),
                bt_retention_remaining_ms = remaining, bt_blocked_by_devices = blocked_by\<rparr>
              else Reclaim (tombstone_gc_item t)
        | None \<Rightarrow> Block \<lparr>bt_item = tombstone_gc_item t, bt_reason = ''pending_deleted_revision'',
              bt_retention_remaining_ms = 0, bt_blocked_by_devices = []\<rparr>)
   | _ \<Rightarrow> Retain)"

fun gc_scan ::
  "(json \<Rightarrow> gc_verdict) \<Rightarrow> json list \<Rightarrow> json list \<times> dict list \<times> blocked_tombstone list" where
  "gc_scan f [] = ([], [], [])"
| "gc_scan f (j # js) = (let (retained, reclaimed, blocked) = gc_scan f js in
     case f j of
       Retain \<Rightarrow> (j # retained, reclaimed, blocked)
     | Block b \<Rightarrow> (j # retained, reclaimed, b # blocked)
     | Reclaim i \<Rightarrow> (retained, i # reclaimed, blocked))"

definition gc_commit_id :: "string \<Rightarrow> string" where
  "gc_commit_id run_id = ''tombstone-gc:'' @ run_id"

definition gc_manifest_of :: "dict \<Rightarrow> int \<Rightarrow> string \<Rightarrow> int \<Rightarrow> json list \<Rightarrow> dict" where
  "gc_manifest_of head base_revision actor now retained =
     AList.update ''tombstones'' (JArr retained)
     (AList.update ''created_at'' (JInt now)
     (AList.update ''created_by_device'' (JStr actor)
     (AList.update ''base_revision'' (JInt base_revision) head)))"

definition run_tombstone_gc_locked ::
  "(string \<Rightarrow> string) \<Rightarrow> (string \<Rightarrow> string) \<Rightarrow> string \<Rightarrow> string \<Rightarrow> int \<Rightarrow> int \<Rightarrow> int \<Rightarrow>
     string option \<Rightarrow> bool \<Rightarrow> server \<Rightarrow> vault \<Rightarrow> (gc_result \<times> vault) sresult" where
  "run_tombstone_gc_locked sha nfc vault_id run_id now min_retention_ms inactive_after_ms
       actor_device_id record_noop sv v =
     (let base_revision = vt_head_revision v;
          active = active_vault_device_ids sv v;
          report = (\<lambda>new head reclaimed blocked reason.
            \<lparr>gr_vault_id = vault_id, gr_run_id = run_id, gr_ran_at_ms = now,
             gr_base_revision = base_revision, gr_new_revision = new, gr_head_revision = head,
             gr_active_device_ids = active, gr_min_retention_ms = min_retention_ms,
             gr_inactive_after_ms = inactive_after_ms, gr_reclaimed_tombstones = reclaimed,
             gr_blocked_tombstones = blocked, gr_reason = reason\<rparr>) in
      case vt_manifests v base_revision of
        None \<Rightarrow>
          let g = report None base_revision [] [] ''no_head_manifest'' in
          Inr (g, if record_noop then append_tombstone_gc_log g v else v)
      | Some head_manifest \<Rightarrow>
          let tombstones = (case dget head_manifest ''tombstones'' of JArr vs \<Rightarrow> vs | _ \<Rightarrow> []);
              (retained, reclaimed, blocked) =
                gc_scan (gc_judge v active now min_retention_ms) tombstones in
          if reclaimed = []
          then let g = report None base_revision [] blocked ''no_reclaimable_tombstones'' in
            Inr (g, if record_noop then append_tombstone_gc_log g v else v)
          else
            let new_revision = base_revision + 1;
                actor = (case actor_device_id of
                    Some a \<Rightarrow> if a = [] then ''server:tombstone-gc'' else a
                  | None \<Rightarrow> ''server:tombstone-gc'');
                commit_intent_id = gc_commit_id run_id in
            rbind (finalize_manifest_payload sha nfc
                (gc_manifest_of head_manifest base_revision actor now retained) new_revision)
              (\<lambda>finalized.
            rbind (require_string finalized ''summary_hash'') (\<lambda>summary.
            let g = report (Some new_revision) new_revision reclaimed blocked ''reclaimed'' in
            Inr (g, append_tombstone_gc_log g
              (v\<lparr>vt_manifests := (vt_manifests v)(new_revision \<mapsto> finalized),
                 vt_head_revision := new_revision, vt_manifest_summary := Some summary,
                 vt_commits := (vt_commits v)(commit_intent_id \<mapsto>
                   \<lparr>cr_commit_intent_id = commit_intent_id, cr_intent_manifest_hash = summary,
                    cr_revision = new_revision, cr_created_by_device = actor,
                    cr_committed_at_ms = now,
                    cr_kind = TombstoneGC (List.map_filter (\<lambda>i. py_str (dget i ''file_id'')) reclaimed)
                   \<rparr>)\<rparr>)))))"

definition run_tombstone_gc ::
  "(string \<Rightarrow> string) \<Rightarrow> (string \<Rightarrow> string) \<Rightarrow> string \<Rightarrow> string \<Rightarrow> int \<Rightarrow> int \<Rightarrow> int \<Rightarrow>
     string option \<Rightarrow> gc_result handler" where
  "run_tombstone_gc sha nfc vault_id run_id now min_retention_ms inactive_after_ms
       actor_device_id sv =
     (if min_retention_ms < 0 then Inl (invalid_request ''min_retention_ms must be non-negative'')
      else if inactive_after_ms \<le> 0 then Inl (invalid_request ''inactive_after_ms must be positive'')
      else rbind (run_tombstone_gc_locked sha nfc vault_id run_id now min_retention_ms
          inactive_after_ms actor_device_id True sv (vault_of sv vault_id))
        (\<lambda>(g, v). Inr (g, put_vault vault_id v sv)))"

definition ack_revisions ::
  "(string \<Rightarrow> string) \<Rightarrow> (string \<Rightarrow> string) \<Rightarrow> string \<Rightarrow> dict \<Rightarrow> string option \<Rightarrow> string \<Rightarrow> int \<Rightarrow>
     int handler" where
  "ack_revisions sha nfc vault_id payload device_id run_id now sv =
     rbind (require_unique_positive_ints payload ''revisions'') (\<lambda>revisions.
     let actor = (case device_id of Some d \<Rightarrow> if d = [] then ''anonymous'' else d
                  | None \<Rightarrow> ''anonymous'');
         v = vault_of sv vault_id; max_revision = Max (set revisions) in
     if max_revision > vt_head_revision v
     then Inl (SyncStoreError ''ack_revision_ahead_of_head''
       ''Ack revision cannot exceed current vault head'')
     else let v1 = record_ack actor max_revision v in
       rbind (run_tombstone_gc_locked sha nfc vault_id run_id now
           DEFAULT_TOMBSTONE_GC_MIN_RETENTION_MS DEFAULT_DEVICE_INACTIVE_AFTER_MS (Some actor)
           False sv v1)
         (\<lambda>(g, v2). Inr (acked v2 actor, put_vault vault_id v2 sv)))"

record heartbeat =
  hb_vault_id :: string
  hb_device_id :: string
  hb_last_seen_at_ms :: int
  hb_acked_revision :: int
  hb_head_revision :: int

definition heartbeat_device :: "string \<Rightarrow> string \<Rightarrow> int \<Rightarrow> heartbeat handler" where
  "heartbeat_device vault_id device_id now sv = (case sv_devices sv device_id of
     Some dv \<Rightarrow>
       if dv_revoked dv then Inl (SyncStoreError ''device_not_found'' ''Device was not found'')
       else let (v, sv') = ensure_vault vault_id sv in
         Inr (\<lparr>hb_vault_id = vault_id, hb_device_id = device_id, hb_last_seen_at_ms = now,
                hb_acked_revision = acked v device_id, hb_head_revision = vt_head_revision v\<rparr>,
              sv'\<lparr>sv_devices := (sv_devices sv')(device_id \<mapsto> dv\<lparr>dv_last_seen_at_ms := now\<rparr>)\<rparr>)
   | None \<Rightarrow> Inl (SyncStoreError ''device_not_found'' ''Device was not found''))"

section \<open>Readers of requests\<close>

lemma case_object_eq_Inr [result_simps]:
  "(case v of JObj d \<Rightarrow> f d | _ \<Rightarrow> Inl e) = Inr y \<longleftrightarrow> (\<exists>d. v = JObj d \<and> f d = Inr y)"
  by (cases v) auto

lemma mapM_set: "mapM f xs = Inr ys \<Longrightarrow> y \<in> set ys \<Longrightarrow> \<exists>x \<in> set xs. f x = Inr y"
  by (induction xs arbitrary: ys) (auto simp: result_simps)

lemma unique_positive_intsD:
  assumes "require_unique_positive_ints d k = Inr ns"
  shows "ns \<noteq> [] \<and> distinct ns \<and> (\<forall>n \<in> set ns. 0 < n)"
proof -
  let ?f = "\<lambda>v. case py_int v of
      Some i \<Rightarrow> if i \<le> 0 then Inl (invalid_request (k @ '' items must be positive integers'')) else Inr i
    | None \<Rightarrow> Inl (invalid_request (k @ '' items must be positive integers''))"
  obtain v vs where "mapM ?f (v # vs) = Inr ns" "distinct ns"
    using assms unfolding require_unique_positive_ints_def
    by (auto simp only: rbind_eq_Inr if_ok_eq_Inr split: json.splits list.splits)
  moreover have "\<exists>v. ?f v = Inr n \<Longrightarrow> 0 < n" for n
    by (auto split: option.splits if_splits)
  ultimately show ?thesis using mapM_set [of ?f "v # vs" ns] by (auto simp: result_simps)
qed

end
