(* ===== verification/Server_History.thy ===== *)
theory Server_History
  imports Server_Commits
begin

text \<open>
  The history a vault of the server keeps: every revision from 1 to the head has one manifest
  and one commit, and no operation rewrites what is there. The invariant \<open>vault_ok\<close>, that
  each operation of \<open>Server_Commits\<close> keeps it, and the order \<open>extends\<close> between the states of a
  vault.
\<close>

section \<open>What finalizing guarantees\<close>

lemma finalize_payload_eq:
  assumes "finalize_manifest_payload sha nfc m r = Inr p"
  shows "dget p ''revision'' = JInt r \<and> (\<exists>s. dget p ''summary_hash'' = JStr s \<and> s \<noteq> [])
    \<and> dget p ''base_revision'' = dget m ''base_revision'' \<and> dget p ''vault_id'' = dget m ''vault_id''
    \<and> dget p ''schema_version'' = JStr ''v1''"
  using assms
  by (auto simp: finalize_manifest_payload_def result_simps Let_def canonical_json_hash_def
      simp del: One_nat_def split: if_splits)

section \<open>The invariant\<close>

definition manifests_ok :: "vault \<Rightarrow> bool" where
  "manifests_ok v \<longleftrightarrow> dom (vt_manifests v) = {1..vt_head_revision v}
     \<and> (\<forall>r m. vt_manifests v r = Some m \<longrightarrow>
          dget m ''revision'' = JInt r \<and> py_int (dget m ''base_revision'') = Some (r - 1))
     \<and> vt_manifest_summary v = (case vt_manifests v (vt_head_revision v) of
          None \<Rightarrow> None | Some m \<Rightarrow> py_str (dget m ''summary_hash''))"

definition commits_ok :: "vault \<Rightarrow> bool" where
  "commits_ok v \<longleftrightarrow> (\<forall>i c. vt_commits v i = Some c \<longrightarrow> cr_commit_intent_id c = i)
     \<and> cr_revision ` ran (vt_commits v) = {1..vt_head_revision v}
     \<and> inj_on cr_revision (ran (vt_commits v))"

definition acks_ok :: "vault \<Rightarrow> bool" where
  "acks_ok v \<longleftrightarrow> distinct (map fst (vt_acks v)) \<and> snd ` set (vt_acks v) \<subseteq> {1..vt_head_revision v}"

definition vault_ok :: "vault \<Rightarrow> bool" where
  "vault_ok v \<longleftrightarrow> 0 \<le> vt_head_revision v \<and> manifests_ok v \<and> commits_ok v \<and> acks_ok v
     \<and> length (vt_gc_runs v) \<le> MAX_TOMBSTONE_GC_LOGS"

lemma new_vault_ok [intro, simp]: "vault_ok new_vault"
  by (simp add: vault_ok_def manifests_ok_def commits_ok_def acks_ok_def new_vault_def)

lemma no_manifest_above: "vault_ok v \<Longrightarrow> vt_head_revision v < r \<Longrightarrow> vt_manifests v r = None"
  unfolding vault_ok_def manifests_ok_def by (metis atLeastAtMost_iff domIff not_less)

lemma commit_bounds:
  "vault_ok v \<Longrightarrow> vt_commits v i = Some c \<Longrightarrow>
     cr_commit_intent_id c = i \<and> 1 \<le> cr_revision c \<and> cr_revision c \<le> vt_head_revision v"
  unfolding vault_ok_def commits_ok_def set_eq_iff image_iff by (metis atLeastAtMost_iff ranI)

lemma acks_ok_bound: "acks_ok v \<Longrightarrow> 0 \<le> vt_head_revision v \<Longrightarrow> 0 \<le> acked v d \<and> acked v d \<le> vt_head_revision v"
  by (fastforce simp: acks_ok_def acked_def split: option.splits dest: map_of_SomeD)

lemma acked_fields [simp]:
  "acked (v\<lparr>vt_manifests := m\<rparr>) = acked v"
  "acked (v\<lparr>vt_head_revision := r\<rparr>) = acked v"
  "acked (v\<lparr>vt_manifest_summary := s\<rparr>) = acked v"
  "acked (v\<lparr>vt_commits := c\<rparr>) = acked v"
  "acked (v\<lparr>vt_file_versions := f\<rparr>) = acked v"
  "acked (v\<lparr>vt_gc_runs := g\<rparr>) = acked v"
  by (simp_all add: acked_def fun_eq_iff)

lemma record_ack_ok:
  assumes "vault_ok v" "1 \<le> r" "r \<le> vt_head_revision v"
  shows "vault_ok (record_ack d r v)"
proof -
  have "acks_ok v" "0 \<le> vt_head_revision v" using assms(1) by (simp_all add: vault_ok_def)
  then have b: "acked v d \<le> vt_head_revision v" by (simp add: acks_ok_bound)
  have "snd ` set (AList.update d k al) \<subseteq> insert k (snd ` set al)" for k and al :: "(string \<times> int) list"
    by (induction al) (auto split: if_splits)
  then have "snd ` set (AList.update d (max (acked v d) r) (vt_acks v)) \<subseteq> {1..vt_head_revision v}"
    using assms(2,3) b \<open>acks_ok v\<close> unfolding acks_ok_def by fastforce
  then have "acks_ok (record_ack d r v)"
    using \<open>acks_ok v\<close> by (simp add: acks_ok_def record_ack_def distinct_update)
  with assms(1) show ?thesis by (simp add: vault_ok_def manifests_ok_def commits_ok_def)
qed

text \<open>A revision added on top: a finalized manifest, its summary, and its commit.\<close>

definition push_revision :: "dict \<Rightarrow> string \<Rightarrow> commit_record \<Rightarrow> vault \<Rightarrow> vault" where
  "push_revision m s c v = v\<lparr>vt_manifests := (vt_manifests v)(vt_head_revision v + 1 \<mapsto> m),
     vt_head_revision := vt_head_revision v + 1, vt_manifest_summary := Some s,
     vt_commits := (vt_commits v)(cr_commit_intent_id c \<mapsto> c)\<rparr>"

lemma push_revision_ok:
  assumes v: "vault_ok v" and m: "dget m ''revision'' = JInt (vt_head_revision v + 1)"
    "py_int (dget m ''base_revision'') = Some (vt_head_revision v)" "dget m ''summary_hash'' = JStr s"
    and c: "vt_commits v (cr_commit_intent_id c) = None" "cr_revision c = vt_head_revision v + 1"
  shows "vault_ok (push_revision m s c v)"
proof -
  let ?v = "push_revision m s c v" and ?h = "vt_head_revision v"
  have h: "0 \<le> ?h" using v by (simp add: vault_ok_def)
  have iv: "{1..?h + 1} = insert (?h + 1) {1..?h}" using h by auto
  have mo: "manifests_ok ?v"
    using v m h by (auto simp: vault_ok_def manifests_ok_def push_revision_def iv)
  moreover have r: "ran (vt_commits ?v) = insert c (ran (vt_commits v))"
    using c(1) by (simp add: push_revision_def)
  moreover have "cr_revision c \<notin> cr_revision ` ran (vt_commits v)"
    using v c by (simp add: vault_ok_def commits_ok_def)
  then have "inj_on cr_revision (insert c (ran (vt_commits v)))"
    using v by (auto simp: vault_ok_def commits_ok_def)
  ultimately have "commits_ok ?v"
    using v c unfolding vault_ok_def commits_ok_def by (auto simp: push_revision_def iv)
  moreover have "acks_ok ?v"
    using v by (force simp: vault_ok_def acks_ok_def push_revision_def)
  ultimately show ?thesis
    using v h mo by (simp add: vault_ok_def) (simp add: push_revision_def)
qed

section \<open>Extension\<close>

definition extends :: "vault \<Rightarrow> vault \<Rightarrow> bool" where
  "extends v v' \<longleftrightarrow> vt_head_revision v \<le> vt_head_revision v' \<and> vt_manifests v \<subseteq>\<^sub>m vt_manifests v'
     \<and> vt_commits v \<subseteq>\<^sub>m vt_commits v' \<and> (\<forall>d. acked v d \<le> acked v' d)"

lemma extends_refl [intro, simp]: "extends v v"
  by (simp add: extends_def)

lemma extends_trans [trans]: "extends u v \<Longrightarrow> extends v w \<Longrightarrow> extends u w"
  unfolding extends_def by (meson map_le_trans order_trans)

lemma extends_record_ack [intro, simp]: "extends v (record_ack d r v)"
  by (simp add: extends_def)

lemma extends_gc_log [simp]: "extends v (append_tombstone_gc_log g w) \<longleftrightarrow> extends v w"
  by (simp add: extends_def append_tombstone_gc_log_def Let_def acked_def)

lemma gc_log_ok: "vault_ok v \<Longrightarrow> vault_ok (append_tombstone_gc_log g v)"
  by (auto simp: vault_ok_def manifests_ok_def commits_ok_def acks_ok_def append_tombstone_gc_log_def
      Let_def)

lemma extends_push:
  assumes "vault_ok v" "vt_commits v (cr_commit_intent_id c) = None"
  shows "extends v (push_revision m s c v)"
proof -
  have "vt_manifests v (vt_head_revision v + 1) = None"
    using assms(1) by (simp add: no_manifest_above)
  with assms(2) show ?thesis
    by (auto simp: extends_def push_revision_def map_le_def acked_def)
qed

lemma versions_irrelevant [simp]:
  "vault_ok (v\<lparr>vt_file_versions := f\<rparr>) = vault_ok v"
  "extends u (v\<lparr>vt_file_versions := f\<rparr>) = extends u v"
  by (simp_all add: vault_ok_def manifests_ok_def commits_ok_def acks_ok_def extends_def acked_def)

section \<open>Commits\<close>

definition client_commit :: "string \<Rightarrow> string \<Rightarrow> int \<Rightarrow> string \<Rightarrow> int \<Rightarrow> commit_record" where
  "client_commit i h r d now = \<lparr>cr_commit_intent_id = i, cr_intent_manifest_hash = h,
     cr_revision = r, cr_created_by_device = d, cr_committed_at_ms = now, cr_kind = ClientCommit\<rparr>"

lemma client_commit_sel [simp]:
  "cr_commit_intent_id (client_commit i h r d now) = i"
  "cr_intent_manifest_hash (client_commit i h r d now) = h"
  "cr_revision (client_commit i h r d now) = r"
  by (simp_all add: client_commit_def)

lemma commit_mutation_replay:
  assumes "vt_commits (vault_of sv vid) i = Some c"
  shows "commit_mutation sha nfc vid payload i b h m d now sv =
    (if cr_intent_manifest_hash c = h
     then Inr (\<lparr>rs_vault_id = vid, rs_new_revision = cr_revision c,
                rs_head_manifest_summary = vt_manifest_summary (vault_of sv vid),
                rs_acked_revision_for_device = max (acked (vault_of sv vid) d) (cr_revision c)\<rparr>,
               put_vault vid (record_ack d (cr_revision c) (vault_of sv vid)) sv)
     else Inl (commit_conflict (vault_of sv vid) ''manifest_conflict''))"
  using assms by (simp add: commit_mutation_def Let_def)

lemma versions_after_commits:
  "v\<lparr>vt_file_versions := f, vt_commits := c\<rparr> = v\<lparr>vt_commits := c, vt_file_versions := f\<rparr>"
  by simp

lemma commit_mutation_fresh:
  assumes "vt_commits (vault_of sv vid) i = None"
    and "commit_mutation sha nfc vid payload i b h m d now sv = Inr (rs, sv')"
  obtains fin s fvs where
    "b = vt_head_revision (vault_of sv vid)" "require_commit_blobs_exist sv payload = Inr ()"
    "finalize_manifest_payload sha nfc m (b + 1) = Inr fin" "dget fin ''summary_hash'' = JStr s"
    "sv' = put_vault vid (record_ack d (b + 1)
       ((push_revision fin s (client_commit i h (b + 1) d now) (vault_of sv vid))
         \<lparr>vt_file_versions := fvs\<rparr>)) sv"
    "rs = \<lparr>rs_vault_id = vid, rs_new_revision = b + 1, rs_head_manifest_summary = Some s,
       rs_acked_revision_for_device = max (acked (vault_of sv vid) d) (b + 1)\<rparr>"
    "\<exists>w. vt_file_versions w = vt_file_versions (vault_of sv vid)
       \<and> append_file_versions_for_commit sha w payload fin (b + 1) = Inr fvs"
proof -
  let ?v = "vault_of sv vid" let ?h = "vt_head_revision ?v"
  from assms obtain fin s fvs where f: "b = ?h" "require_commit_blobs_exist sv payload = Inr ()"
    "finalize_manifest_payload sha nfc m (?h + 1) = Inr fin" "dget fin ''summary_hash'' = JStr s"
    "sv' = put_vault vid (record_ack d (?h + 1) (?v\<lparr>vt_manifests := (vt_manifests ?v)(?h + 1 \<mapsto> fin),
       vt_head_revision := ?h + 1, vt_manifest_summary := Some s, vt_file_versions := fvs,
       vt_commits := (vt_commits ?v)(i \<mapsto> client_commit i h (?h + 1) d now)\<rparr>)) sv"
    "rs = \<lparr>rs_vault_id = vid, rs_new_revision = ?h + 1, rs_head_manifest_summary = Some s,
       rs_acked_revision_for_device = max (acked ?v d) (?h + 1)\<rparr>"
    "append_file_versions_for_commit sha (?v\<lparr>vt_manifests := (vt_manifests ?v)(?h + 1 \<mapsto> fin),
       vt_head_revision := ?h + 1, vt_manifest_summary := Some s\<rparr>) payload fin (?h + 1) = Inr fvs"
    by (auto simp: commit_mutation_def Let_def result_simps client_commit_def split: if_splits)
  from f(7) have "\<exists>w. vt_file_versions w = vt_file_versions ?v
       \<and> append_file_versions_for_commit sha w payload fin (b + 1) = Inr fvs"
    unfolding f(1) by (intro exI [of _ "?v\<lparr>vt_manifests := (vt_manifests ?v)(?h + 1 \<mapsto> fin),
       vt_head_revision := ?h + 1, vt_manifest_summary := Some s\<rparr>"]) simp
  then show ?thesis
    by (rule that [rotated -1]) (use f in \<open>simp_all add: push_revision_def versions_after_commits\<close>)
qed

lemma commit_mutation_keeps:
  assumes ok: "vault_ok (vault_of sv vid)" and b: "py_int (dget m ''base_revision'') = Some b"
    and r: "commit_mutation sha nfc vid payload i b h m d now sv = Inr (rs, sv')"
  shows "\<exists>v'. sv' = put_vault vid v' sv \<and> vault_ok v' \<and> extends (vault_of sv vid) v'"
proof (cases "vt_commits (vault_of sv vid) i")
  case (Some c)
  with r have "sv' = put_vault vid (record_ack d (cr_revision c) (vault_of sv vid)) sv"
    by (auto simp: commit_mutation_replay split: if_splits)
  moreover have "vault_ok (record_ack d (cr_revision c) (vault_of sv vid))"
    using commit_bounds [OF ok Some] by (intro record_ack_ok ok) auto
  ultimately show ?thesis by blast
next
  case None
  let ?v = "vault_of sv vid" let ?c = "client_commit i h (b + 1) d now"
  from commit_mutation_fresh [OF None r] obtain fin s fvs where f:
    "b = vt_head_revision ?v" "finalize_manifest_payload sha nfc m (b + 1) = Inr fin"
    "dget fin ''summary_hash'' = JStr s"
    "sv' = put_vault vid (record_ack d (b + 1) ((push_revision fin s ?c ?v)\<lparr>vt_file_versions := fvs\<rparr>)) sv"
    by metis
  have p: "vault_ok (push_revision fin s ?c ?v)"
    using finalize_payload_eq [OF f(2)] f b None by (intro push_revision_ok ok) simp_all
  moreover have h: "vt_head_revision (push_revision fin s ?c ?v) = b + 1" "0 \<le> b"
    using f(1) ok by (simp_all add: push_revision_def vault_ok_def)
  ultimately have "vault_ok (record_ack d (b + 1) ((push_revision fin s ?c ?v)\<lparr>vt_file_versions := fvs\<rparr>))"
    by (intro record_ack_ok) simp_all
  moreover have "extends ?v ((push_revision fin s ?c ?v)\<lparr>vt_file_versions := fvs\<rparr>)"
    using extends_push [OF ok] None by simp
  then have "extends ?v (record_ack d (b + 1) ((push_revision fin s ?c ?v)\<lparr>vt_file_versions := fvs\<rparr>))"
    using extends_record_ack extends_trans by blast
  ultimately show ?thesis using f(4) by blast
qed

section \<open>Collections\<close>

definition gc_commit :: "string \<Rightarrow> string \<Rightarrow> int \<Rightarrow> string \<Rightarrow> int \<Rightarrow> dict list \<Rightarrow> commit_record" where
  "gc_commit run s r who now reclaimed =
     \<lparr>cr_commit_intent_id = gc_commit_id run, cr_intent_manifest_hash = s, cr_revision = r,
      cr_created_by_device = who, cr_committed_at_ms = now,
      cr_kind = TombstoneGC (List.map_filter (\<lambda>i. py_str (dget i ''file_id'')) reclaimed)\<rparr>"

lemma gc_commit_sel [simp]:
  "cr_commit_intent_id (gc_commit run s r who now rs) = gc_commit_id run"
  "cr_revision (gc_commit run s r who now rs) = r"
  by (simp_all add: gc_commit_def)

lemma gc_locked_cases:
  assumes "run_tombstone_gc_locked sha nfc vid run now ret inact actor noop sv v = Inr (g, v')"
  obtains
    (idle) "v' \<in> {v, append_tombstone_gc_log g v}" "gr_new_revision g = None"
      "gr_reclaimed_tombstones g = []" "gr_head_revision g = vt_head_revision v"
  | (collected) head retained reclaimed blocked who fin s where
      "vt_manifests v (vt_head_revision v) = Some head"
      "gc_scan (gc_judge v (active_vault_device_ids sv v) now ret)
         (case dget head ''tombstones'' of JArr vs \<Rightarrow> vs | _ \<Rightarrow> []) = (retained, reclaimed, blocked)"
      "reclaimed \<noteq> []" "gr_reclaimed_tombstones g = reclaimed"
      "gr_new_revision g = Some (vt_head_revision v + 1)"
      "finalize_manifest_payload sha nfc
         (gc_manifest_of head (vt_head_revision v) who now retained) (vt_head_revision v + 1) = Inr fin"
      "dget fin ''summary_hash'' = JStr s"
      "v' = append_tombstone_gc_log g
         (push_revision fin s (gc_commit run s (vt_head_revision v + 1) who now reclaimed) v)"
proof (cases "vt_manifests v (vt_head_revision v)")
  case None
  with assms show ?thesis
    by (intro idle) (auto simp: run_tombstone_gc_locked_def Let_def)
next
  case (Some head)
  obtain retained reclaimed blocked where sc: "gc_scan (gc_judge v (active_vault_device_ids sv v) now ret)
      (case dget head ''tombstones'' of JArr vs \<Rightarrow> vs | _ \<Rightarrow> []) = (retained, reclaimed, blocked)"
    by (cases "gc_scan (gc_judge v (active_vault_device_ids sv v) now ret)
      (case dget head ''tombstones'' of JArr vs \<Rightarrow> vs | _ \<Rightarrow> [])") auto
  show ?thesis
  proof (cases "reclaimed = []")
    case True
    with assms Some sc show ?thesis
      by (intro idle) (auto simp: run_tombstone_gc_locked_def Let_def)
  next
    case False
    define who where "who = (case actor of Some a \<Rightarrow> if a = [] then ''server:tombstone-gc'' else a
      | None \<Rightarrow> ''server:tombstone-gc'')"
    from False assms Some sc obtain fin s where
      "finalize_manifest_payload sha nfc
         (gc_manifest_of head (vt_head_revision v) who now retained) (vt_head_revision v + 1) = Inr fin"
      "dget fin ''summary_hash'' = JStr s" "gr_reclaimed_tombstones g = reclaimed"
      "gr_new_revision g = Some (vt_head_revision v + 1)"
      "v' = append_tombstone_gc_log g
         (push_revision fin s (gc_commit run s (vt_head_revision v + 1) who now reclaimed) v)"
      by (auto simp: run_tombstone_gc_locked_def Let_def who_def [symmetric] result_simps
          push_revision_def gc_commit_def)
    with Some sc False show ?thesis using collected by blast
  qed
qed

lemma gc_locked_keeps:
  assumes ok: "vault_ok v" and fresh: "vt_commits v (gc_commit_id run) = None"
    and r: "run_tombstone_gc_locked sha nfc vid run now ret inact actor noop sv v = Inr (g, v')"
  shows "vault_ok v' \<and> extends v v'"
  using r
proof (cases rule: gc_locked_cases)
  case idle
  then show ?thesis using gc_log_ok [OF ok] ok by auto
next
  case (collected head retained reclaimed blocked who fin s)
  let ?c = "gc_commit run s (vt_head_revision v + 1) who now reclaimed"
  have "vault_ok (push_revision fin s ?c v)"
    using finalize_payload_eq [OF collected(6)] collected(7) fresh
    by (intro push_revision_ok ok) (simp_all add: gc_manifest_of_def)
  moreover have "extends v (push_revision fin s ?c v)"
    by (rule extends_push) (simp_all add: ok fresh)
  ultimately show ?thesis using collected(8) by (simp add: gc_log_ok)
qed

section \<open>The operations keep the history\<close>

definition server_ok :: "server \<Rightarrow> bool" where
  "server_ok sv \<longleftrightarrow> distinct (map fst (sv_vaults sv)) \<and> (\<forall>vid. vault_ok (vault_of sv vid))"

definition sv_extends :: "server \<Rightarrow> server \<Rightarrow> bool" where
  "sv_extends sv sv' \<longleftrightarrow> (\<forall>vid. extends (vault_of sv vid) (vault_of sv' vid))"

lemma sv_extends_refl [intro, simp]: "sv_extends sv sv"
  by (simp add: sv_extends_def)

lemma sv_extends_trans [trans]: "sv_extends a b \<Longrightarrow> sv_extends b c \<Longrightarrow> sv_extends a c"
  unfolding sv_extends_def using extends_trans by blast

lemma put_vault_keeps:
  assumes "server_ok sv" "vault_ok v" "extends (vault_of sv vid) v"
  shows "server_ok (put_vault vid v sv) \<and> sv_extends sv (put_vault vid v sv)"
  using assms by (simp add: server_ok_def sv_extends_def distinct_update) (simp add: put_vault_def distinct_update)

lemma vaults_unchanged:
  "sv_vaults sv' = sv_vaults sv \<Longrightarrow> server_ok sv \<Longrightarrow> server_ok sv' \<and> sv_extends sv sv'"
  by (simp add: server_ok_def sv_extends_def vault_of_def)

lemma create_commit_keeps:
  assumes "server_ok sv" "create_commit sha nfc vid payload auth now sv = Inr (rs, sv')"
  shows "server_ok sv' \<and> sv_extends sv sv'"
proof -
  from assms(2) obtain i b h m d where "py_int (dget m ''base_revision'') = Some b"
    "commit_mutation sha nfc vid payload i b h m d now sv = Inr (rs, sv')"
    by (auto simp: create_commit_def result_simps)
  with commit_mutation_keeps [of sv vid] assms(1) put_vault_keeps show ?thesis
    unfolding server_ok_def by metis
qed

lemma get_vault_head_keeps:
  "server_ok sv \<Longrightarrow> get_vault_head vid sv = Inr (x, sv') \<Longrightarrow> server_ok sv' \<and> sv_extends sv sv'"
  using put_vault_keeps [of sv "vault_of sv vid" vid]
  by (auto simp: get_vault_head_def ensure_vault_def server_ok_def)

lemma run_tombstone_gc_keeps:
  assumes ok: "server_ok sv" and fresh: "vt_commits (vault_of sv vid) (gc_commit_id run) = None"
    and r: "run_tombstone_gc sha nfc vid run now ret inact actor sv = Inr (g, sv')"
  shows "server_ok sv' \<and> sv_extends sv sv'"
proof -
  from r obtain v where "run_tombstone_gc_locked sha nfc vid run now ret inact actor True sv
      (vault_of sv vid) = Inr (g, v)" "sv' = put_vault vid v sv"
    by (auto simp: run_tombstone_gc_def result_simps split: if_splits)
  with gc_locked_keeps [OF _ fresh, of sha nfc vid now ret inact actor True sv g v] put_vault_keeps ok
  show ?thesis unfolding server_ok_def by metis
qed

lemma ack_revisions_keeps:
  assumes ok: "server_ok sv" and fresh: "vt_commits (vault_of sv vid) (gc_commit_id run) = None"
    and r: "ack_revisions sha nfc vid payload dev run now sv = Inr (x, sv')"
  shows "server_ok sv' \<and> sv_extends sv sv'"
proof -
  let ?v = "vault_of sv vid"
  from r obtain ns actor g v where n: "require_unique_positive_ints payload ''revisions'' = Inr ns"
    "\<not> vt_head_revision ?v < Max (set ns)"
    "run_tombstone_gc_locked sha nfc vid run now DEFAULT_TOMBSTONE_GC_MIN_RETENTION_MS
       DEFAULT_DEVICE_INACTIVE_AFTER_MS (Some actor) False sv (record_ack actor (Max (set ns)) ?v) = Inr (g, v)"
    "sv' = put_vault vid v sv"
    by (auto simp: ack_revisions_def result_simps Let_def split: if_splits)
  have "ns \<noteq> []" "\<forall>k \<in> set ns. 0 < k" using unique_positive_intsD [OF n(1)] by auto
  then have "1 \<le> Max (set ns)" by (simp add: int_one_le_iff_zero_less)
  then have "vault_ok (record_ack actor (Max (set ns)) ?v)"
    using n(2) ok by (intro record_ack_ok) (simp_all add: server_ok_def)
  from gc_locked_keeps [OF this _ n(3)] fresh have "vault_ok v" "extends ?v v"
    using extends_record_ack extends_trans by auto
  then show ?thesis using n(4) put_vault_keeps [OF ok] by simp
qed

lemma heartbeat_device_keeps:
  assumes ok: "server_ok sv" and r: "heartbeat_device vid dev now sv = Inr (x, sv')"
  shows "server_ok sv' \<and> sv_extends sv sv'"
proof -
  from r have "sv_vaults sv' = sv_vaults (put_vault vid (vault_of sv vid) sv)"
    by (auto simp: heartbeat_device_def ensure_vault_def split: option.splits if_splits)
  moreover have k: "server_ok (put_vault vid (vault_of sv vid) sv)
      \<and> sv_extends sv (put_vault vid (vault_of sv vid) sv)"
    using ok by (intro put_vault_keeps) (auto simp: server_ok_def)
  ultimately show ?thesis using vaults_unchanged sv_extends_trans by blast
qed

end
