(* ===== verification/Server_GC.thy ===== *)
theory Server_GC
  imports Server_History
begin

text \<open>
  What the collection of tombstones removes. A stored manifest is a fixed point of
  \<open>finalize_manifest_payload\<close>, so the manifest a collection stores has the files of the head
  and the tombstones of the head without those every active device has acknowledged.
\<close>

section \<open>Stored manifests are fixed points\<close>

text \<open>What is used of \<open>unicodedata.normalize("NFC", _)\<close>.\<close>

definition normal_form :: "(string \<Rightarrow> string) \<Rightarrow> bool" where
  "normal_form nfc \<longleftrightarrow> (\<forall>s. nfc (nfc s) = nfc s) \<and> (\<forall>s. s \<noteq> [] \<longrightarrow> nfc s \<noteq> [])"

lemma normal_form_id [simp]: "normal_form id"
  by (simp add: normal_form_def)

definition finalized_files :: "(string \<Rightarrow> string) \<Rightarrow> dict list \<Rightarrow> bool" where
  "finalized_files nfc fs \<longleftrightarrow> (\<forall>f \<in> set fs. normalize_file_payload nfc f = Inr f)
     \<and> sort_by_payload_key file_payload_key fs = Inr fs"

definition finalized_tombstones :: "(string \<Rightarrow> string) \<Rightarrow> dict list \<Rightarrow> bool" where
  "finalized_tombstones nfc ts \<longleftrightarrow> (\<forall>t \<in> set ts. \<forall>r. normalize_tombstone_payload nfc r t = Inr t)
     \<and> sort_by_payload_key tombstone_payload_key ts = Inr ts"

definition manifest_objects :: "dict \<Rightarrow> string \<Rightarrow> dict list" where
  "manifest_objects m k = (case dget m k of JArr vs \<Rightarrow> object_items vs | _ \<Rightarrow> [])"

definition stored_manifest :: "(string \<Rightarrow> string) \<Rightarrow> dict \<Rightarrow> bool" where
  "stored_manifest nfc m \<longleftrightarrow>
     dget m ''files'' = JArr (map JObj (manifest_objects m ''files''))
     \<and> dget m ''tombstones'' = JArr (map JObj (manifest_objects m ''tombstones''))
     \<and> finalized_files nfc (manifest_objects m ''files'')
     \<and> finalized_tombstones nfc (manifest_objects m ''tombstones'')"

lemma sort_by_payload_key_eq_Inr:
  "sort_by_payload_key key ds = Inr ds' \<longleftrightarrow>
     (\<forall>d \<in> set ds. \<exists>k. key d = Inr k) \<and> ds' = sort_key (\<lambda>d. projr (key d)) ds"
proof (cases "\<forall>d \<in> set ds. \<exists>k. key d = Inr k")
  case True
  then have "sort_by_payload_key key ds = Inr (sort_key (\<lambda>d. projr (key d)) ds)"
    by (intro sort_by_payload_key_pure) force
  with True show ?thesis by auto
next
  case False
  then obtain e where "mapM key ds = Inl e"
  proof (induction ds)
    case (Cons d ds)
    then show ?case by (cases "key d"; cases "mapM key ds") auto
  qed simp
  with False show ?thesis by (auto simp: sort_by_payload_key_def)
qed

lemma sort_by_payload_key_filter:
  assumes "sort_by_payload_key key ds = Inr ds"
  shows "sort_by_payload_key key (filter P ds) = Inr (filter P ds)"
proof -
  have "sorted (map (\<lambda>d. projr (key d)) ds)"
    using assms unfolding sort_by_payload_key_eq_Inr by (metis sorted_sort_key)
  then have "sorted (map (\<lambda>d. projr (key d)) (filter P ds))" by (rule sorted_filter)
  then show ?thesis using assms unfolding sort_by_payload_key_eq_Inr
    by (auto simp: sort_key_id_if_sorted)
qed

lemma sort_by_payload_key_idem:
  "sort_by_payload_key key ds = Inr ds' \<Longrightarrow>
     sort_by_payload_key key ds' = Inr ds' \<and> set ds' = set ds"
  unfolding sort_by_payload_key_eq_Inr by (auto simp: sort_key_id_if_sorted)

lemma normalize_file_payload_idem:
  assumes "normal_form nfc" "normalize_file_payload nfc d = Inr d'"
  shows "normalize_file_payload nfc d' = Inr d'"
  using assms by (auto simp: normalize_file_payload_def result_simps normal_form_def)

lemma update_same: "dget d k = JStr s \<Longrightarrow> AList.update k (JStr s) d = d"
  by (rule update_triv) (simp add: dget_def split: option.splits)

definition tombstone_settled :: "(string \<Rightarrow> string) \<Rightarrow> dict \<Rightarrow> bool" where
  "tombstone_settled nfc d \<longleftrightarrow> (\<exists>i. dget d ''file_id'' = JStr i \<and> i \<noteq> [])
     \<and> dget d ''deleted_revision'' \<noteq> JNull
     \<and> (dget d ''last_known_path'' = JNull
        \<or> (\<exists>p. dget d ''last_known_path'' = JStr p \<and> p \<noteq> [] \<and> nfc p = p))
     \<and> map_of d ''deleted_at'' \<noteq> None \<and> map_of d ''local_delete_seq'' \<noteq> None"

lemma tombstone_settled_fixed: "tombstone_settled nfc d \<Longrightarrow> normalize_tombstone_payload nfc r d = Inr d"
  by (auto simp: tombstone_settled_def normalize_tombstone_payload_def require_string_def update_same
      Let_def split: list.splits)

lemma normalize_tombstone_payload_settles:
  assumes nf: "normal_form nfc" and n: "normalize_tombstone_payload nfc r d = Inr d'"
  shows "tombstone_settled nfc d'"
proof -
  define d1 where "d1 = (if dget d ''deleted_revision'' = JNull
    then AList.update ''deleted_revision'' (JInt r) d else d)"
  have d1: "dget d1 ''deleted_revision'' \<noteq> JNull" "dget d1 ''file_id'' = dget d ''file_id''"
    by (simp_all add: d1_def)
  define g where "g d2 = (let d3 = (if map_of d2 ''deleted_at'' = None
      then AList.update ''deleted_at'' (JInt 0) d2 else d2) in
    if map_of d3 ''local_delete_seq'' = None
    then AList.update ''local_delete_seq'' (JInt 0) d3 else d3)" for d2
  obtain i where i: "require_string d ''file_id'' = Inr i"
    using n by (cases "require_string d ''file_id''") (simp_all add: normalize_tombstone_payload_def)
  then have ii: "dget d ''file_id'' = JStr i" "i \<noteq> []" by (simp_all add: require_string_eq_Inr)
  define path where "path = (case dget d1 ''last_known_path'' of
      JNull \<Rightarrow> Inr d1
    | JStr p \<Rightarrow> if p = [] then Inl (SyncStoreError ''invalid_manifest''
          ''last_known_path must be a non-empty string when provided'')
        else Inr (AList.update ''last_known_path'' (JStr (nfc p)) d1)
    | _ \<Rightarrow> Inl (SyncStoreError ''invalid_manifest''
          ''last_known_path must be a non-empty string when provided''))"
  have "normalize_tombstone_payload nfc r d = rbind (require_string d ''file_id'') (\<lambda>_.
      rbind path (\<lambda>d2. Inr (g d2)))"
    by (simp only: normalize_tombstone_payload_def d1_def path_def g_def Let_def if_distrib [of Inr])
  with n i obtain d2 where "path = Inr d2" "d' = g d2" by (cases path) auto
  moreover from \<open>path = Inr d2\<close> have d2: "d2 = d1 \<and> dget d1 ''last_known_path'' = JNull
      \<or> (\<exists>p. p \<noteq> [] \<and> d2 = AList.update ''last_known_path'' (JStr (nfc p)) d1)"
    unfolding path_def by (cases "dget d1 ''last_known_path''") (auto split: if_splits)
  ultimately have d': "d' = g d2" by simp
  have "dget d' ''file_id'' = JStr i" "dget d' ''deleted_revision'' \<noteq> JNull"
    using d2 d1 ii by (auto simp: d' g_def Let_def)
  moreover have "dget d' ''last_known_path'' = dget d2 ''last_known_path''"
    by (simp add: d' g_def Let_def)
  moreover have "dget d2 ''last_known_path'' = JNull
      \<or> (\<exists>p. dget d2 ''last_known_path'' = JStr p \<and> p \<noteq> [] \<and> nfc p = p)"
    using d2
  proof
    assume "\<exists>p. p \<noteq> [] \<and> d2 = AList.update ''last_known_path'' (JStr (nfc p)) d1"
    then obtain p where "p \<noteq> []" "dget d2 ''last_known_path'' = JStr (nfc p)" by auto
    then show ?thesis using nf unfolding normal_form_def by blast
  qed simp
  moreover have "map_of d' ''deleted_at'' \<noteq> None \<and> map_of d' ''local_delete_seq'' \<noteq> None"
    by (simp add: d' g_def Let_def update_conv')
  ultimately show ?thesis using ii(2) by (simp add: tombstone_settled_def)
qed

lemma finalized_filter:
  "finalized_tombstones nfc ts \<Longrightarrow> finalized_tombstones nfc (filter P ts)"
  by (auto simp: finalized_tombstones_def sort_by_payload_key_filter)

lemma normalize_items_finalized:
  "finalized_files nfc fs \<Longrightarrow> normalize_items (normalize_file_payload nfc) msg (map JObj fs) = Inr fs"
  "finalized_tombstones nfc ts \<Longrightarrow> normalize_items (normalize_tombstone_payload nfc r) msg (map JObj ts) = Inr ts"
  using normalize_items_pure [of fs "normalize_file_payload nfc" id id msg]
    normalize_items_pure [of ts "normalize_tombstone_payload nfc r" id id msg]
  by (simp_all add: finalized_files_def finalized_tombstones_def)

lemma finalize_stored:
  assumes nf: "normal_form nfc" and f: "finalize_manifest_payload sha nfc m r = Inr p"
  shows "stored_manifest nfc p"
proof -
  obtain fvs tvs fs ts fs' ts' where
    n: "normalize_items (normalize_file_payload nfc) ''manifest.files items must be objects'' fvs = Inr fs"
    "normalize_items (normalize_tombstone_payload nfc r) ''manifest.tombstones items must be objects'' tvs = Inr ts"
    and s: "sort_by_payload_key file_payload_key fs = Inr fs'"
    "sort_by_payload_key tombstone_payload_key ts = Inr ts'"
    and p: "dget p ''files'' = JArr (map JObj fs')" "dget p ''tombstones'' = JArr (map JObj ts')"
    using f by (auto simp: finalize_manifest_payload_def result_simps Let_def split: if_splits)
  have fs: "normalize_file_payload nfc f = Inr f" if "f \<in> set fs" for f
    using n(1) that normalize_file_payload_idem [OF nf]
    by (auto simp: normalize_items_def result_simps dest: mapM_set)
  have ts: "normalize_tombstone_payload nfc r' t = Inr t" if "t \<in> set ts" for t r'
    using n(2) that normalize_tombstone_payload_settles [OF nf] tombstone_settled_fixed
    by (fastforce simp: normalize_items_def result_simps dest: mapM_set)
  have o: "manifest_objects p ''files'' = fs'" "manifest_objects p ''tombstones'' = ts'"
    using object_items_objects [of id] by (simp_all add: manifest_objects_def p)
  show ?thesis
    using fs ts sort_by_payload_key_idem [OF s(1)] sort_by_payload_key_idem [OF s(2)]
    by (simp add: stored_manifest_def o p finalized_files_def finalized_tombstones_def)
qed

section \<open>What a collection reclaims\<close>

text \<open>A tombstone may go when its revision is known, every active device has acknowledged it and
  its retention has passed.\<close>

definition collectable :: "vault \<Rightarrow> string list \<Rightarrow> int \<Rightarrow> int \<Rightarrow> dict \<Rightarrow> bool" where
  "collectable v active now min_retention_ms t = (case py_int (dget t ''deleted_revision'') of
     None \<Rightarrow> False
   | Some r \<Rightarrow> 0 < r \<and> list_all (\<lambda>d. r \<le> acked v d) active
       \<and> (case py_int (dget t ''deleted_at'') of
            None \<Rightarrow> True
          | Some a \<Rightarrow> min_retention_ms \<le> max 0 (now - a)))"

definition block_of :: "gc_verdict \<Rightarrow> blocked_tombstone" where
  "block_of w = (case w of Block b \<Rightarrow> b)"

lemma gc_judge_object:
  "gc_judge v active now ret (JObj t) = (let w = gc_judge v active now ret (JObj t) in
     if collectable v active now ret t then Reclaim (tombstone_gc_item t) else Block (block_of w))"
proof (cases "py_int (dget t ''deleted_revision'')")
  case None
  then show ?thesis by (simp add: gc_judge_def collectable_def block_of_def Let_def)
next
  case (Some r)
  define remaining where "remaining = (case py_int (dget t ''deleted_at'') of
      Some deleted_at \<Rightarrow> max 0 (ret - max 0 (now - deleted_at)) | None \<Rightarrow> 0)"
  define blocked where "blocked = map (\<lambda>d. (d, acked v d, r)) (filter (\<lambda>d. acked v d < r) active)"
  have "collectable v active now ret t \<longleftrightarrow> 0 < r \<and> blocked = [] \<and> remaining \<le> 0"
    by (auto simp: collectable_def Some blocked_def remaining_def list_all_iff filter_empty_conv
        not_less split: option.splits)
  then show ?thesis
    by (simp add: gc_judge_def Some Let_def block_of_def blocked_def [symmetric]
        remaining_def [symmetric])
qed

lemma gc_scan_objects:
  "gc_scan (gc_judge v active now ret) (map JObj ts) =
     (map JObj (filter (\<lambda>t. \<not> collectable v active now ret t) ts),
      map tombstone_gc_item (filter (collectable v active now ret) ts),
      map (\<lambda>t. block_of (gc_judge v active now ret (JObj t)))
        (filter (\<lambda>t. \<not> collectable v active now ret t) ts))"
proof (induction ts)
  case (Cons t ts)
  have "gc_judge v active now ret (JObj t) = Reclaim (tombstone_gc_item t)"
    if "collectable v active now ret t"
    using that gc_judge_object [of v active now ret t] by simp
  moreover have "gc_judge v active now ret (JObj t) = Block (block_of (gc_judge v active now ret (JObj t)))"
    if "\<not> collectable v active now ret t"
    using that gc_judge_object [of v active now ret t] by simp
  ultimately show ?case
    by (cases "collectable v active now ret t")
       (auto simp: Cons.IH split: gc_verdict.splits dest: sym)
qed simp

lemma manifest_objects_simp:
  "dget m k = JArr (map JObj ds) \<Longrightarrow> manifest_objects m k = ds"
  using object_items_objects [of id ds] by (simp add: manifest_objects_def)

lemma finalize_stored_objects:
  assumes ff: "finalized_files nfc fs" and ft: "finalized_tombstones nfc ts"
    and d: "dget m ''files'' = JArr (map JObj fs)" "dget m ''tombstones'' = JArr (map JObj ts)"
    and f: "finalize_manifest_payload sha nfc m r = Inr p"
  shows "manifest_objects p ''files'' = fs \<and> manifest_objects p ''tombstones'' = ts"
proof -
  have l: "manifest_list m ''files'' = Inr (map JObj fs)" "manifest_list m ''tombstones'' = Inr (map JObj ts)"
    using d by (simp_all add: manifest_list_def)
  have s: "sort_by_payload_key file_payload_key fs = Inr fs"
    "sort_by_payload_key tombstone_payload_key ts = Inr ts"
    using ff ft by (simp_all add: finalized_files_def finalized_tombstones_def)
  have "dget p ''files'' = JArr (map JObj fs)" "dget p ''tombstones'' = JArr (map JObj ts)"
    using f unfolding finalize_manifest_payload_def l rbind_Inr normalize_items_finalized(1) [OF ff]
      normalize_items_finalized(2) [OF ft] s
    by (auto simp: result_simps Let_def split: if_splits)
  then show ?thesis by (simp add: manifest_objects_simp)
qed

definition head_tombstones :: "vault \<Rightarrow> dict list" where
  "head_tombstones v = (case vt_manifests v (vt_head_revision v) of
     None \<Rightarrow> [] | Some m \<Rightarrow> manifest_objects m ''tombstones'')"

definition head_files :: "vault \<Rightarrow> dict list" where
  "head_files v = (case vt_manifests v (vt_head_revision v) of
     None \<Rightarrow> [] | Some m \<Rightarrow> manifest_objects m ''files'')"

definition manifests_stored :: "(string \<Rightarrow> string) \<Rightarrow> vault \<Rightarrow> bool" where
  "manifests_stored nfc v \<longleftrightarrow> (\<forall>m \<in> ran (vt_manifests v). stored_manifest nfc m)"

lemma gc_log_fields [simp]:
  "vt_head_revision (append_tombstone_gc_log g v) = vt_head_revision v"
  "vt_manifests (append_tombstone_gc_log g v) = vt_manifests v"
  "vt_commits (append_tombstone_gc_log g v) = vt_commits v"
  "vt_acks (append_tombstone_gc_log g v) = vt_acks v"
  "acked (append_tombstone_gc_log g v) = acked v"
  "vt_file_versions (append_tombstone_gc_log g v) = vt_file_versions v"
  "vt_manifest_summary (append_tombstone_gc_log g v) = vt_manifest_summary v"
  by (simp_all add: append_tombstone_gc_log_def Let_def)

lemma push_revision_fields [simp]:
  "vt_head_revision (push_revision m s c v) = vt_head_revision v + 1"
  "vt_manifests (push_revision m s c v) = (vt_manifests v)(vt_head_revision v + 1 \<mapsto> m)"
  "vt_commits (push_revision m s c v) = (vt_commits v)(cr_commit_intent_id c \<mapsto> c)"
  "vt_acks (push_revision m s c v) = vt_acks v"
  "acked (push_revision m s c v) = acked v"
  "vt_file_versions (push_revision m s c v) = vt_file_versions v"
  "vt_manifest_summary (push_revision m s c v) = Some s"
  by (simp_all add: push_revision_def)

lemma gc_locked_effect:
  assumes st: "manifests_stored nfc v"
    and r: "run_tombstone_gc_locked sha nfc vid run now ret inact actor noop sv v = Inr (g, v')"
  defines "may_go \<equiv> collectable v (active_vault_device_ids sv v) now ret"
  shows "gr_reclaimed_tombstones g = map tombstone_gc_item (filter may_go (head_tombstones v))
    \<and> head_tombstones v' = filter (\<lambda>t. \<not> may_go t) (head_tombstones v)
    \<and> head_files v' = head_files v \<and> vt_file_versions v' = vt_file_versions v
    \<and> vt_acks v' = vt_acks v
    \<and> vt_head_revision v' = vt_head_revision v + (if filter may_go (head_tombstones v) = [] then 0 else 1)"
proof (cases "vt_manifests v (vt_head_revision v)")
  case None
  from r show ?thesis
  proof (cases rule: gc_locked_cases)
    case idle
    then show ?thesis using None by (auto simp: head_tombstones_def head_files_def)
  qed (use None in simp)
next
  case (Some head)
  then have sm: "stored_manifest nfc head" using st by (auto simp: manifests_stored_def ran_def)
  define ts where "ts = manifest_objects head ''tombstones''"
  have ts: "dget head ''tombstones'' = JArr (map JObj ts)" "finalized_tombstones nfc ts"
    "head_tombstones v = ts" "head_files v = manifest_objects head ''files''"
    using sm Some by (simp_all add: stored_manifest_def ts_def head_tombstones_def head_files_def)
  have scan: "gc_scan (gc_judge v (active_vault_device_ids sv v) now ret)
      (case dget head ''tombstones'' of JArr vs \<Rightarrow> vs | _ \<Rightarrow> [])
    = (map JObj (filter (\<lambda>t. \<not> may_go t) ts), map tombstone_gc_item (filter may_go ts),
       map (\<lambda>t. block_of (gc_judge v (active_vault_device_ids sv v) now ret (JObj t)))
         (filter (\<lambda>t. \<not> may_go t) ts))"
    by (simp add: ts gc_scan_objects may_go_def)
  show ?thesis
  proof (cases "filter may_go ts = []")
    case True
    then have "filter (\<lambda>t. \<not> may_go t) ts = ts" by (simp add: filter_empty_conv)
    moreover have "v' = v \<or> v' = append_tombstone_gc_log g v" "gr_reclaimed_tombstones g = []"
      using r Some True scan by (auto simp: run_tombstone_gc_locked_def Let_def)
    ultimately show ?thesis using True ts by (auto simp: head_tombstones_def head_files_def)
  next
    case False
    from r show ?thesis
    proof (cases rule: gc_locked_cases)
      case idle
      then show ?thesis
        using r Some False scan by (auto simp: run_tombstone_gc_locked_def Let_def result_simps)
    next
      case (collected head' retained reclaimed blocked who fin s)
      with Some scan have [simp]: "head' = head" "retained = map JObj (filter (\<lambda>t. \<not> may_go t) ts)"
        "reclaimed = map tombstone_gc_item (filter may_go ts)" by auto
      have "manifest_objects fin ''files'' = manifest_objects head ''files''
          \<and> manifest_objects fin ''tombstones'' = filter (\<lambda>t. \<not> may_go t) ts"
        using sm ts(2) collected(6)
        by (intro finalize_stored_objects [of nfc])
           (simp_all add: stored_manifest_def finalized_filter gc_manifest_of_def)
      then show ?thesis
        using collected(4,8) False ts
        by (simp add: head_tombstones_def head_files_def)
    qed
  qed
qed

end
