(* ===== verification/Server_Versions.thy ===== *)
theory Server_Versions
  imports Server_Commits
begin

text \<open>
  File versions on the server: the invariant that relates the records of a vault to the
  lists by file, what retention keeps, and the two operations on versions,
  \<open>list_file_versions\<close> and \<open>update_file_version\<close>.
\<close>

section \<open>Records and lists agree\<close>

definition versions_of :: "file_versions \<Rightarrow> string \<Rightarrow> string list" where
  "versions_of fvs f = (case fv_by_file_id fvs f of Some ids \<Rightarrow> ids | None \<Rightarrow> [])"

definition versions_ok :: "file_versions \<Rightarrow> bool" where
  "versions_ok fvs \<longleftrightarrow> (\<forall>f. distinct (versions_of fvs f))
     \<and> (\<forall>i r. fv_records fvs i = Some r \<longrightarrow> vr_version_id r = i \<and> i \<in> set (versions_of fvs (vr_file_id r)))
     \<and> (\<forall>f i. i \<in> set (versions_of fvs f) \<longrightarrow> (\<exists>r. fv_records fvs i = Some r \<and> vr_file_id r = f))"

lemma new_versions_ok [intro, simp]: "versions_ok (vt_file_versions new_vault)"
  by (simp add: versions_ok_def versions_of_def new_vault_def)

lemma versions_okD:
  assumes "versions_ok fvs"
  shows "distinct (versions_of fvs f)"
    and "fv_records fvs i = Some r \<Longrightarrow> vr_version_id r = i \<and> i \<in> set (versions_of fvs (vr_file_id r))"
    and "i \<in> set (versions_of fvs f) \<Longrightarrow> \<exists>r. fv_records fvs i = Some r \<and> vr_file_id r = f"
  using assms unfolding versions_ok_def by blast+

lemma version_rows_Cons:
  "version_rows fvs (i # is) = (case fv_records fvs i of None \<Rightarrow> [] | Some r \<Rightarrow> [r]) @ version_rows fvs is"
  by (simp add: version_rows_def split: option.splits)

lemma version_rows_ids:
  assumes ok: "versions_ok fvs" and "set is \<subseteq> set (versions_of fvs f)"
  shows "map vr_version_id (version_rows fvs is) = is \<and> (\<forall>r \<in> set (version_rows fvs is). vr_file_id r = f)"
  using assms(2)
proof (induction "is")
  case (Cons i "is")
  then obtain r where r: "fv_records fvs i = Some r" "vr_file_id r = f"
    using versions_okD(3) [OF ok, of i f] by auto
  moreover have "vr_version_id r = i" using versions_okD(2) [OF ok r(1)] by simp
  ultimately show ?case using Cons by (simp add: version_rows_Cons)
qed (simp add: version_rows_def)

lemma version_rows_set:
  "set (version_rows fvs is) = {r. \<exists>i \<in> set is. fv_records fvs i = Some r}"
  by (induction "is") (auto simp: version_rows_Cons version_rows_def split: option.splits)

section \<open>Retention\<close>

definition regular :: "bool \<Rightarrow> version_row \<Rightarrow> bool" where
  "regular keep_pinned r \<longleftrightarrow> \<not> (keep_pinned \<and> vr_is_pinned r)"

lemma retain_versions_sets:
  "set (fst (retain_versions kp kl n rs)) =
     vr_version_id ` (set (filter (\<lambda>r. \<not> regular kp r) rs) \<union> set (take (kl - n) (filter (regular kp) rs)))"
  "set (snd (retain_versions kp kl n rs)) = vr_version_id ` set (drop (kl - n) (filter (regular kp) rs))"
proof (induction rs arbitrary: n)
  case (Cons r rs)
  { case 1 show ?case
      using Cons.IH(1) [of n] Cons.IH(1) [of "Suc n"]
      by (cases "kl - n") (auto simp: regular_def split: prod.splits simp flip: Suc_diff_Suc)
  next
    case 2 show ?case
      using Cons.IH(2) [of n] Cons.IH(2) [of "Suc n"]
      by (cases "kl - n") (auto simp: regular_def split: prod.splits simp flip: Suc_diff_Suc) }
qed auto

lemma retain_versions_distinct:
  "distinct (map vr_version_id rs) \<Longrightarrow> distinct (fst (retain_versions kp kl n rs))"
proof (induction rs arbitrary: n)
  case (Cons r rs)
  have "set (fst (retain_versions kp kl k rs)) \<subseteq> vr_version_id ` set rs" for k
    by (auto simp: retain_versions_sets dest: in_set_takeD)
  then have "vr_version_id r \<notin> set (fst (retain_versions kp kl k rs))" for k
    using Cons.prems by auto
  then show ?case using Cons by (cases kp) (simp_all add: case_prod_beta Let_def)
qed simp

text \<open>What a file keeps: its pinned versions (when the policy says so) and the newest others.\<close>

definition kept_rows :: "bool \<Rightarrow> nat \<Rightarrow> version_row list \<Rightarrow> version_row set" where
  "kept_rows keep_pinned keep_latest rs =
     set (filter (\<lambda>r. \<not> regular keep_pinned r) rs)
     \<union> set (take keep_latest (filter (regular keep_pinned) (newest_first rs)))"

lemma newest_first_simps [simp]:
  "set (newest_first rs) = set rs"
  "distinct (map vr_version_id (newest_first rs)) = distinct (map vr_version_id rs)"
  "length (filter P (newest_first rs)) = length (filter P rs)"
proof -
  show "set (newest_first rs) = set rs" by (simp add: newest_first_def)
  show "distinct (map vr_version_id (newest_first rs)) = distinct (map vr_version_id rs)"
    by (simp add: newest_first_def distinct_map)
  have "mset (filter P (newest_first rs)) = mset (filter P rs)" by (simp add: newest_first_def)
  then show "length (filter P (newest_first rs)) = length (filter P rs)" by (metis size_mset)
qed

definition kept_versions :: "file_versions \<Rightarrow> string \<Rightarrow> version_row set" where
  "kept_versions fvs f = kept_rows (policy_keep_pinned (fv_retention_policy fvs))
     (policy_keep_latest (fv_retention_policy fvs)) (version_rows fvs (versions_of fvs f))"

lemma retention_loop:
  assumes ok: "versions_ok fvs" and ids: "fv_by_file_id fvs f = Some ids"
    and rt: "retain_versions (policy_keep_pinned (fv_retention_policy fvs))
      (policy_keep_latest (fv_retention_policy fvs)) 0 (newest_first (version_rows fvs ids)) = (kept, popped)"
  shows "set kept = vr_version_id ` kept_versions fvs f" "distinct kept"
    "set popped = vr_version_id ` (set (version_rows fvs ids) - kept_versions fvs f)"
    "set kept \<inter> set popped = {}" "set kept \<union> set popped = set ids"
proof -
  let ?kp = "policy_keep_pinned (fv_retention_policy fvs)"
  let ?kl = "policy_keep_latest (fv_retention_policy fvs)"
  let ?R = "filter (regular ?kp) (newest_first (version_rows fvs ids))"
  have v: "versions_of fvs f = ids" using ids by (simp add: versions_of_def)
  have r: "map vr_version_id (version_rows fvs ids) = ids" and d: "distinct ids"
    using version_rows_ids [OF ok, of ids f] versions_okD(1) [OF ok, of f] v by auto
  then have dr: "distinct (map vr_version_id (version_rows fvs ids))" by simp
  then have inj: "inj_on vr_version_id (set (version_rows fvs ids))" by (simp add: distinct_map)
  have k: "kept_versions fvs f = set (filter (\<lambda>r. \<not> regular ?kp r) (version_rows fvs ids)) \<union> set (take ?kl ?R)"
    by (simp add: kept_versions_def kept_rows_def v)
  have dR: "distinct ?R"
    using dr by (metis distinct_filter distinct_map newest_first_simps(2))
  have td: "set (take ?kl ?R) \<union> set (drop ?kl ?R) = set ?R" "set (take ?kl ?R) \<inter> set (drop ?kl ?R) = {}"
    using dR by (simp_all flip: set_append add: set_take_disj_set_drop_if_distinct)
  have R: "set ?R = {r \<in> set (version_rows fvs ids). regular ?kp r}" by auto
  show kept: "set kept = vr_version_id ` kept_versions fvs f"
    using retain_versions_sets(1) [of ?kp ?kl 0 "newest_first (version_rows fvs ids)"]
    by (simp add: rt k)
  have "set (drop ?kl ?R) = set (version_rows fvs ids) - kept_versions fvs f"
    using td R unfolding k by auto
  then show popped: "set popped = vr_version_id ` (set (version_rows fvs ids) - kept_versions fvs f)"
    using retain_versions_sets(2) [of ?kp ?kl 0 "newest_first (version_rows fvs ids)"]
    by (simp add: rt)
  have sub: "kept_versions fvs f \<subseteq> set (version_rows fvs ids)" using R td unfolding k by auto
  show "distinct kept"
    using retain_versions_distinct [of "newest_first (version_rows fvs ids)" ?kp ?kl 0] dr by (simp add: rt)
  show "set kept \<inter> set popped = {}"
    using inj_on_image_set_diff [OF inj, of "set (version_rows fvs ids)" "kept_versions fvs f"] sub
    unfolding kept popped by auto
  have "vr_version_id ` set (version_rows fvs ids) = set ids" using r by (metis set_map)
  then show "set kept \<union> set popped = set ids" using sub unfolding kept popped by blast
qed

lemma retention_records:
  assumes "fv_by_file_id fvs f = Some ids"
    and "retain_versions (policy_keep_pinned (fv_retention_policy fvs))
      (policy_keep_latest (fv_retention_policy fvs)) 0 (newest_first (version_rows fvs ids)) = (kept, popped)"
  shows "fv_records (apply_file_version_retention_policy f fvs) i
      = (if i \<in> set popped then None else fv_records fvs i)"
    and "versions_of (apply_file_version_retention_policy f fvs) g = (if g = f then kept else versions_of fvs g)"
  using assms by (auto simp: apply_file_version_retention_policy_def Let_def versions_of_def)

lemma retention_keeps_ok:
  assumes ok: "versions_ok fvs"
  shows "versions_ok (apply_file_version_retention_policy f fvs)
    \<and> ran (fv_records (apply_file_version_retention_policy f fvs))
        = {r \<in> ran (fv_records fvs). vr_file_id r = f \<longrightarrow> r \<in> kept_versions fvs f}"
proof (cases "fv_by_file_id fvs f")
  case None
  then have "versions_of fvs f = []" by (simp add: versions_of_def)
  then have "vr_file_id r \<noteq> f" if "r \<in> ran (fv_records fvs)" for r
    using that versions_okD(2) [OF ok] by (fastforce simp: ran_def)
  with None ok show ?thesis by (auto simp: apply_file_version_retention_policy_def Let_def)
next
  case (Some ids)
  let ?fvs = "apply_file_version_retention_policy f fvs"
  obtain kept popped where rt: "retain_versions (policy_keep_pinned (fv_retention_policy fvs))
      (policy_keep_latest (fv_retention_policy fvs)) 0 (newest_first (version_rows fvs ids)) = (kept, popped)"
    by (cases "retain_versions (policy_keep_pinned (fv_retention_policy fvs))
      (policy_keep_latest (fv_retention_policy fvs)) 0 (newest_first (version_rows fvs ids))") auto
  note l = retention_loop [OF ok Some rt] and e = retention_records [OF Some rt]
  have v: "versions_of fvs f = ids" using Some by (simp add: versions_of_def)
  have popped: "\<exists>r. fv_records fvs i = Some r \<and> vr_file_id r = f" if "i \<in> set popped" for i
    using that l(5) versions_okD(3) [OF ok, of i f] v by auto
  have 1: "distinct (versions_of ?fvs g)" for g
    using l(2) versions_okD(1) [OF ok] by (simp add: e)
  have 2: "vr_version_id r = i \<and> i \<in> set (versions_of ?fvs (vr_file_id r))"
    if "fv_records ?fvs i = Some r" for i r
    using that versions_okD(2) [OF ok, of i r] l(5) v by (auto simp: e split: if_splits)
  have 3: "\<exists>r. fv_records ?fvs i = Some r \<and> vr_file_id r = g" if "i \<in> set (versions_of ?fvs g)" for i g
  proof (cases "g = f")
    case True
    with that l(4,5) versions_okD(3) [OF ok, of i f] v show ?thesis by (auto simp: e)
  next
    case False
    with that versions_okD(3) [OF ok, of i g] popped [of i] show ?thesis by (auto simp: e)
  qed
  have rows: "r \<in> set (version_rows fvs ids) \<longleftrightarrow> r \<in> ran (fv_records fvs) \<and> vr_file_id r = f" for r
    using versions_okD(2,3) [OF ok] v unfolding version_rows_set ran_def by fastforce
  have "ran (fv_records ?fvs) = {r \<in> ran (fv_records fvs). vr_version_id r \<notin> set popped}"
    using versions_okD(2) [OF ok] by (auto simp: e ran_def)
  also have "\<dots> = {r \<in> ran (fv_records fvs). vr_file_id r = f \<longrightarrow> r \<in> kept_versions fvs f}"
  proof -
    have "vr_version_id r \<in> set popped \<longleftrightarrow> vr_file_id r = f \<and> r \<notin> kept_versions fvs f"
      if r: "r \<in> ran (fv_records fvs)" for r
    proof
      assume "vr_version_id r \<in> set popped"
      then obtain q where q: "q \<in> set (version_rows fvs ids)" "q \<notin> kept_versions fvs f"
        "vr_version_id r = vr_version_id q" unfolding l(3) by auto
      then have "q = r" using r versions_okD(2) [OF ok] unfolding rows ran_def by fastforce
      with q show "vr_file_id r = f \<and> r \<notin> kept_versions fvs f" by (simp add: rows)
    next
      assume "vr_file_id r = f \<and> r \<notin> kept_versions fvs f"
      with r show "vr_version_id r \<in> set popped" unfolding l(3) by (simp add: rows)
    qed
    then show ?thesis by blast
  qed
  finally show ?thesis using 1 2 3 by (simp add: versions_ok_def)
qed

lemma policy_keep_latest_pos: "1 \<le> policy_keep_latest p"
  by (auto simp: policy_keep_latest_def split: option.splits)

lemma rows_of_file:
  assumes "versions_ok fvs"
  shows "set (version_rows fvs (versions_of fvs f)) = {r \<in> ran (fv_records fvs). vr_file_id r = f}"
    and "distinct (version_rows fvs (versions_of fvs f))"
proof -
  show "set (version_rows fvs (versions_of fvs f)) = {r \<in> ran (fv_records fvs). vr_file_id r = f}"
    using versions_okD(2,3) [OF assms] unfolding version_rows_set ran_def by fastforce
  show "distinct (version_rows fvs (versions_of fvs f))"
    using version_rows_ids [OF assms, of "versions_of fvs f" f] versions_okD(1) [OF assms, of f]
    by (metis distinct_map order_refl)
qed

text \<open>The newest \<open>keep_latest\<close> of the regular rows of a file.\<close>

lemma kept_regular:
  fixes fvs f
  defines "kp \<equiv> policy_keep_pinned (fv_retention_policy fvs)"
    and "kl \<equiv> policy_keep_latest (fv_retention_policy fvs)"
  defines "regulars \<equiv> {r \<in> ran (fv_records fvs). vr_file_id r = f \<and> regular kp r}"
    and "kept \<equiv> {r \<in> kept_versions fvs f. regular kp r}"
  assumes ok: "versions_ok fvs"
  shows "kept \<subseteq> regulars" "finite regulars" "card kept = min kl (card regulars)"
    and "old \<in> regulars - kept \<Longrightarrow> r \<in> kept \<Longrightarrow> vr_revision old \<le> vr_revision r"
    and "kept_versions fvs f = kept \<union> {r \<in> ran (fv_records fvs). vr_file_id r = f \<and> \<not> regular kp r}"
proof -
  let ?R = "filter (regular kp) (newest_first (version_rows fvs (versions_of fvs f)))"
  have R: "set ?R = regulars" by (auto simp: rows_of_file [OF ok] regulars_def)
  have k: "kept_versions fvs f = {r \<in> ran (fv_records fvs). vr_file_id r = f \<and> \<not> regular kp r} \<union> set (take kl ?R)"
    using rows_of_file(1) [OF ok, of f] by (auto simp: kept_versions_def kept_rows_def kp_def kl_def)
  then have kept: "kept = set (take kl ?R)" using R set_take_subset [of kl ?R] by (auto simp: kept_def)
  then show "kept \<subseteq> regulars" using R set_take_subset [of kl ?R] by simp
  show "finite regulars" using R by (metis List.finite_set)
  have d: "distinct ?R"
    using rows_of_file(2) [OF ok, of f] by (simp add: newest_first_def)
  then have "card (set (take kl ?R)) = min kl (length ?R)" "card (set ?R) = length ?R"
    by (simp_all add: distinct_card del: set_filter)
  then show "card kept = min kl (card regulars)" unfolding kept R by simp
  show "kept_versions fvs f = kept \<union> {r \<in> ran (fv_records fvs). vr_file_id r = f \<and> \<not> regular kp r}"
    unfolding kept k by (rule Un_commute)
  let ?k = "\<lambda>r. (- vr_revision r, vr_version_id r)"
  have "sorted (map ?k ?R)" unfolding newest_first_def by (rule sorted_filter) simp
  then have s: "sorted (map ?k (take kl ?R) @ map ?k (drop kl ?R))"
    by (simp flip: map_append)
  assume "old \<in> regulars - kept" "r \<in> kept"
  moreover have "regulars = set (take kl ?R) \<union> set (drop kl ?R)"
    unfolding R [symmetric] by (metis append_take_drop_id set_append)
  ultimately have "old \<in> set (drop kl ?R)" "r \<in> set (take kl ?R)"
    unfolding kept by blast+
  then have "?k r \<le> ?k old" using s by (auto simp: sorted_append)
  then show "vr_revision old \<le> vr_revision r" by (auto simp: less_eq_prod_def)
qed

section \<open>What a commit appends\<close>

lemma append_file_version_cases:
  assumes "append_file_version sha m rv prev dr f item fvs = Inr fvs'"
  obtains "fvs' = fvs"
  | row where "fv_records fvs (vr_version_id row) = None" "vr_file_id row = f" "vr_revision row = rv"
      "fvs' = apply_file_version_retention_policy f (insert_version_row row fvs)"
proof -
  have "vr_version_id row = i \<and> vr_file_id row = f \<and> vr_revision row = rv"
    if "version_row_for m rv dr s i b f item = Inr row" for s i b row
    using that by (auto simp: version_row_for_def result_simps)
  moreover have "fvs' = fvs \<or> (\<exists>s i b row. version_row_for m rv dr s i b f item = Inr row
      \<and> fv_records fvs i = None
      \<and> fvs' = apply_file_version_retention_policy f (insert_version_row row fvs))"
    using assms unfolding append_file_version_def Let_def
    by (auto simp: result_simps split: if_splits)
  ultimately show ?thesis using that by blast
qed

lemma insert_version_row_ok:
  assumes ok: "versions_ok fvs" and new: "fv_records fvs (vr_version_id row) = None"
  shows "versions_ok (insert_version_row row fvs)
    \<and> ran (fv_records (insert_version_row row fvs)) = insert row (ran (fv_records fvs))
    \<and> fv_retention_policy (insert_version_row row fvs) = fv_retention_policy fvs"
proof -
  let ?F = "insert_version_row row fvs" and ?i = "vr_version_id row"
  have n: "?i \<notin> set (versions_of fvs g)" for g using versions_okD(3) [OF ok, of ?i g] new by auto
  have r: "fv_records ?F = (fv_records fvs)(?i \<mapsto> row)"
    by (simp add: insert_version_row_def Let_def)
  have v: "versions_of ?F g = (if g = vr_file_id row then versions_of fvs g @ [?i] else versions_of fvs g)" for g
    using n [of g] by (auto simp: insert_version_row_def Let_def versions_of_def split: option.splits)
  have 1: "distinct (versions_of ?F g)" for g
    using versions_okD(1) [OF ok] n by (simp add: v)
  have 2: "vr_version_id q = i \<and> i \<in> set (versions_of ?F (vr_file_id q))" if "fv_records ?F i = Some q" for i q
    using that versions_okD(2) [OF ok, of i q] by (auto simp: v r split: if_splits)
  have 3: "\<exists>q. fv_records ?F i = Some q \<and> vr_file_id q = g" if "i \<in> set (versions_of ?F g)" for i g
    using that versions_okD(3) [OF ok, of i g] new by (auto simp: v r split: if_splits)
  have "ran (fv_records ?F) = insert row (ran (fv_records fvs))" using new by (simp add: r)
  moreover have "fv_retention_policy ?F = fv_retention_policy fvs"
    by (simp add: insert_version_row_def Let_def)
  ultimately show ?thesis using 1 2 3 by (simp add: versions_ok_def)
qed

text \<open>Consistent lists, and no version of a revision after \<open>rv\<close>.\<close>

definition versions_upto :: "int \<Rightarrow> file_versions \<Rightarrow> bool" where
  "versions_upto rv fvs \<longleftrightarrow> versions_ok fvs \<and> (\<forall>r \<in> ran (fv_records fvs). vr_revision r \<le> rv)"

lemma append_file_version_upto:
  assumes "versions_upto rv fvs" "append_file_version sha m rv prev dr f item fvs = Inr fvs'"
  shows "versions_upto rv fvs'"
  using assms(2)
proof (cases rule: append_file_version_cases)
  case (2 row)
  let ?F = "insert_version_row row fvs"
  have F: "versions_ok ?F" "ran (fv_records ?F) = insert row (ran (fv_records fvs))"
    using assms(1) 2(1) by (simp_all add: versions_upto_def insert_version_row_ok)
  show ?thesis
    using retention_keeps_ok [OF F(1), of f] F(2) assms(1) 2(3) unfolding 2(4) versions_upto_def by auto
qed (use assms(1) in simp)

lemma append_versions_upto:
  assumes "append_versions g is fvs = Inr fvs'" "versions_upto rv fvs"
    and step: "\<And>i fvs fvs'. versions_upto rv fvs \<Longrightarrow> g i fvs = Inr fvs' \<Longrightarrow> versions_upto rv fvs'"
  shows "versions_upto rv fvs'"
  using assms(1,2)
proof (induction "is" arbitrary: fvs)
  case (Cons i "is")
  from Cons.prems(1) obtain f1 where "g i fvs = Inr f1" "append_versions g is f1 = Inr fvs'"
    by (auto simp: result_simps)
  then show ?case using Cons.IH step [OF Cons.prems(2)] by blast
qed simp

lemma append_file_versions_for_commit_upto:
  assumes "versions_upto rv (vt_file_versions v)" "append_file_versions_for_commit sha v payload m rv = Inr fvs"
  shows "versions_upto rv fvs"
proof -
  from assms(2) obtain active previous directives ids where
    "append_versions (\<lambda>file_id fvs. case map_of active file_id of
         None \<Rightarrow> Inr fvs
       | Some item \<Rightarrow> append_file_version sha m rv (map_of previous file_id)
           (map_of directives file_id) file_id item fvs) ids (vt_file_versions v) = Inr fvs"
    by (auto simp: append_file_versions_for_commit_def result_simps Let_def split: if_splits)
  then show ?thesis
    by (rule append_versions_upto [OF _ assms(1)])
       (auto split: option.splits intro: append_file_version_upto)
qed

text \<open>Appending a version to a file: the records and the lists by file stay consistent, no
  version of another file and no pinned version goes (when the policy keeps pinned versions),
  the file keeps exactly its newest \<open>keep_latest\<close> regular versions (all, when it has fewer),
  none that goes is newer than one that stays, and the version of a new revision is itself
  among those kept.\<close>

lemma append_version_retention:
  assumes ok: "versions_ok fvs" and newest: "vr_revision ` ran (fv_records fvs) \<subseteq> {..<rv}"
    and app: "append_file_version sha m rv prev dr f item fvs = Inr fvs'" and changed: "fvs' \<noteq> fvs"
  defines "p \<equiv> fv_retention_policy fvs"
  defines "reg \<equiv> regular (policy_keep_pinned p)"
  shows "versions_ok fvs' \<and> (\<exists>row. vr_file_id row = f \<and> vr_revision row = rv
      \<and> row \<in> ran (fv_records fvs') \<and> ran (fv_records fvs') \<subseteq> insert row (ran (fv_records fvs))
      \<and> {r \<in> ran (fv_records fvs). vr_file_id r \<noteq> f \<or> \<not> reg r} \<subseteq> ran (fv_records fvs')
      \<and> card {r \<in> ran (fv_records fvs'). vr_file_id r = f \<and> reg r}
          = min (policy_keep_latest p)
              (card {r \<in> insert row (ran (fv_records fvs)). vr_file_id r = f \<and> reg r})
      \<and> (\<forall>old \<in> ran (fv_records fvs) - ran (fv_records fvs').
           \<forall>r \<in> {r \<in> ran (fv_records fvs'). vr_file_id r = f \<and> reg r}.
             vr_file_id old = f \<and> reg old \<and> vr_revision old \<le> vr_revision r))"
  using app
proof (cases rule: append_file_version_cases)
  case (2 row)
  let ?F = "insert_version_row row fvs" and ?old = "ran (fv_records fvs)"
  let ?regs = "{r \<in> insert row ?old. vr_file_id r = f \<and> reg r}"
  let ?kept = "{r \<in> kept_versions ?F f. reg r}"
  note F = insert_version_row_ok [OF ok 2(1)]
  have Fo: "versions_ok ?F" using F by simp
  have Fp: "fv_retention_policy ?F = p" and Fr: "ran (fv_records ?F) = insert row ?old"
    using F by (simp_all add: p_def)
  have ran': "ran (fv_records fvs') = {r \<in> insert row ?old. vr_file_id r = f \<longrightarrow> r \<in> kept_versions ?F f}"
    using retention_keeps_ok [OF Fo, of f] by (simp add: 2(4) Fr)
  note k = kept_regular [OF Fo, where f = f, unfolded Fp Fr, folded reg_def]
  have kv: "r \<in> kept_versions ?F f \<longleftrightarrow> r \<in> ?kept \<or> r \<in> insert row ?old \<and> vr_file_id r = f \<and> \<not> reg r" for r
    using k(5) by blast
  have regs': "{r \<in> ran (fv_records fvs'). vr_file_id r = f \<and> reg r} = ?kept"
    using k(1) unfolding ran' by blast
  have new: "row \<in> ran (fv_records fvs')"
  proof (rule ccontr)
    assume "row \<notin> ran (fv_records fvs')"
    then have out: "row \<in> ?regs - ?kept" using 2(2) kv unfolding ran' by blast
    then have "card ?regs \<noteq> 0" using k(2) by auto
    then have "card ?kept \<noteq> 0" using k(3) policy_keep_latest_pos [of p] by simp
    then have "?kept \<noteq> {}" by (metis card.empty)
    then obtain r where r: "r \<in> ?kept" by blast
    then have "vr_revision row \<le> vr_revision r" using k(4) out by blast
    moreover have "r \<in> ?old" using r out k(1) by blast
    ultimately show False using newest 2(3) by force
  qed
  have gone: "vr_file_id old = f \<and> reg old \<and> vr_revision old \<le> vr_revision r"
    if "old \<in> ?old - ran (fv_records fvs')" "r \<in> ?kept" for old r
    using that k(4) [of old r] kv [of old] unfolding ran' by blast
  have "{r \<in> ?old. vr_file_id r \<noteq> f \<or> \<not> reg r} \<subseteq> ran (fv_records fvs')"
    unfolding ran' using kv by blast
  moreover have "ran (fv_records fvs') \<subseteq> insert row ?old" unfolding ran' by blast
  moreover have "versions_ok fvs'" using retention_keeps_ok [OF Fo, of f] by (simp add: 2(4))
  ultimately show ?thesis
    unfolding regs' using 2(2,3) new gone k(3) by (intro conjI exI [of _ row]) simp_all
qed (use changed in simp)

definition sample_row :: "string \<Rightarrow> int \<Rightarrow> bool \<Rightarrow> version_row" where
  "sample_row i rv pinned = \<lparr>vr_version_id = i, vr_file_id = ''f'', vr_path = JStr ''a.md'',
     vr_revision = rv, vr_content_hash = JStr ''h'', vr_blob_id = ''b'', vr_size = JInt 1,
     vr_mtime = JInt 1, vr_created_at = JInt 1, vr_created_by_device = JStr ''d'',
     vr_source = ''commit_success'', vr_is_pinned = pinned, vr_version_label = None,
     vr_change_note = None\<rparr>"

definition sample_versions :: file_versions where
  "sample_versions = insert_version_row (sample_row ''v2'' 2 False) (insert_version_row (sample_row ''v1'' 1 True)
     \<lparr>fv_records = Map.empty, fv_by_file_id = Map.empty,
      fv_retention_policy = [(''keep_latest'', JInt 1), (''keep_pinned'', JBool True)]\<rparr>)"

definition sample_item :: dict where
  "sample_item = [(''file_id'', JStr ''f''), (''path'', JStr ''a.md''), (''content_hash'', JStr ''h3''),
     (''blob_id'', JStr ''b3''), (''size'', JInt 2), (''mtime'', JInt 3)]"

definition sample_stored :: dict where
  "sample_stored = [(''vault_id'', JStr ''v''), (''created_at'', JInt 3), (''created_by_device'', JStr ''d'')]"

theorem append_version_retention_witness:
  "\<exists>fvs'. append_file_version rev sample_stored 3 None None ''f'' sample_item sample_versions = Inr fvs'
     \<and> versions_ok fvs' \<and> sample_row ''v1'' 1 True \<in> ran (fv_records fvs')
     \<and> fv_records fvs' ''v2'' = None"
proof -
  let ?a = "append_file_version rev sample_stored 3 None None ''f'' sample_item sample_versions"
  have ok: "versions_ok sample_versions" and rows: "vr_revision ` ran (fv_records sample_versions) \<subseteq> {..<3}"
    unfolding sample_versions_def
    by (simp_all add: insert_version_row_ok insert_version_row_def versions_ok_def versions_of_def sample_row_def)
  have "case ?a of Inl e \<Rightarrow> False | Inr fvs' \<Rightarrow> fv_records fvs' ''v2'' = None" by code_simp
  then obtain fvs' where a: "?a = Inr fvs'" "fv_records fvs' ''v2'' = None"
    by (cases ?a) simp_all
  have "fv_records sample_versions ''v2'' \<noteq> None" by code_simp
  with a(2) have "fvs' \<noteq> sample_versions" by metis
  note r = append_version_retention [OF ok rows a(1) this]
  have "sample_row ''v1'' 1 True \<in> ran (fv_records sample_versions)"
    by (rule ranI [of _ "''v1''"]) code_simp
  moreover have "policy_keep_pinned (fv_retention_policy sample_versions)" by code_simp
  ultimately have "sample_row ''v1'' 1 True \<in> ran (fv_records fvs')"
    using r by (auto simp: regular_def sample_row_def)
  with r a show ?thesis by blast
qed

section \<open>Reading and editing versions\<close>

text \<open>\<open>int(text)\<close> for decimal text: surrounding white space, a sign, digits that single underscores
  may separate.\<close>

definition digit_value :: "char \<Rightarrow> nat option" where
  "digit_value c = (let n = of_char c :: nat in if 48 \<le> n \<and> n \<le> 57 then Some (n - 48) else None)"

fun digits_value :: "nat \<Rightarrow> bool \<Rightarrow> string \<Rightarrow> nat option" where
  "digits_value acc after_digit [] = (if after_digit then Some acc else None)"
| "digits_value acc after_digit (c # cs) = (case digit_value c of
     Some d \<Rightarrow> digits_value (10 * acc + d) True cs
   | None \<Rightarrow> if c = CHR ''_'' \<and> after_digit then digits_value acc False cs else None)"

definition int_of_text :: "string \<Rightarrow> int option" where
  "int_of_text s = (case strip s of
     [] \<Rightarrow> None
   | c # cs \<Rightarrow> if c = CHR ''-'' then map_option (\<lambda>n. - int n) (digits_value 0 False cs)
              else if c = CHR ''+'' then map_option int (digits_value 0 False cs)
              else map_option int (digits_value 0 False (c # cs)))"

definition starts_with :: "string \<Rightarrow> string \<Rightarrow> bool" where
  "starts_with s p \<longleftrightarrow> take (length p) s = p"

definition parse_version_cursor :: "dict \<Rightarrow> nat sresult" where
  "parse_version_cursor payload = (case dget payload ''cursor'' of
     JNull \<Rightarrow> Inr 0
   | JStr s \<Rightarrow>
       if s = [] then Inl (invalid_request ''cursor must be a non-empty string when provided'')
       else if \<not> starts_with s ''offset:'' then Inl (invalid_request ''cursor is invalid'')
       else (case int_of_text (drop 7 s) of
           None \<Rightarrow> Inl (invalid_request ''cursor is invalid'')
         | Some i \<Rightarrow> if i < 0 then Inl (invalid_request ''cursor is invalid'') else Inr (nat i))
   | _ \<Rightarrow> Inl (invalid_request ''cursor must be a non-empty string when provided''))"

record version_page =
  pg_file_id :: string
  pg_versions :: "version_row list"
  pg_next_cursor :: "string option"
  pg_retention_policy :: dict

definition list_file_versions :: "string \<Rightarrow> dict \<Rightarrow> server \<Rightarrow> version_page sresult" where
  "list_file_versions vault_id payload sv =
     rbind (require_string payload ''file_id'') (\<lambda>file_id.
     case (case map_of payload ''limit'' of None \<Rightarrow> Some 50 | Some v \<Rightarrow> py_int v) of
       None \<Rightarrow> Inl (invalid_request ''limit must be a positive integer'')
     | Some limit \<Rightarrow>
         if limit \<le> 0 then Inl (invalid_request ''limit must be a positive integer'')
         else rbind (if dget payload ''cursor'' \<noteq> JNull \<and> (py_str (dget payload ''cursor'') = None
               \<or> py_str (dget payload ''cursor'') = Some [])
             then Inl (invalid_request ''cursor must be a non-empty string when provided'')
             else Inr ()) (\<lambda>_.
           rbind (case map_of payload ''include_pinned'' of
               None \<Rightarrow> Inr True
             | Some (JBool b) \<Rightarrow> Inr b
             | Some _ \<Rightarrow> Inl (invalid_request ''include_pinned must be a boolean'')) (\<lambda>include_pinned.
           rbind (parse_version_cursor payload) (\<lambda>offset.
           let fvs = vt_file_versions (vault_of sv vault_id);
               rows = version_rows fvs (case fv_by_file_id fvs file_id of Some ids \<Rightarrow> ids | None \<Rightarrow> []);
               rows = (if include_pinned then rows else filter (\<lambda>r. \<not> vr_is_pinned r) rows);
               rows = newest_first rows;
               page = take (nat limit) (drop offset rows);
               next_offset = offset + length page in
           Inr \<lparr>pg_file_id = file_id, pg_versions = page,
                pg_next_cursor = (if next_offset < length rows
                                  then Some (''offset:'' @ nat_str next_offset) else None),
                pg_retention_policy = fv_retention_policy fvs\<rparr>))))"

text \<open>A label or note that is null and one that is absent are the same here, and so are a null and
  a false \<open>is_pinned\<close>: every reader treats them alike.\<close>

definition edited_row :: "dict \<Rightarrow> string option \<Rightarrow> string option \<Rightarrow> bool \<Rightarrow> version_row \<Rightarrow> version_row" where
  "edited_row payload version_label change_note is_pinned r =
     (let r1 = (if map_of payload ''version_label'' \<noteq> None
                then r\<lparr>vr_version_label := version_label\<rparr> else r);
          r2 = (if map_of payload ''change_note'' \<noteq> None
                then r1\<lparr>vr_change_note := change_note\<rparr> else r1) in
      if map_of payload ''is_pinned'' \<noteq> None then r2\<lparr>vr_is_pinned := is_pinned\<rparr> else r2)"

definition update_file_version :: "string \<Rightarrow> string \<Rightarrow> dict \<Rightarrow> version_row handler" where
  "update_file_version vault_id version_id payload sv =
     (if version_id = [] then Inl (invalid_request ''version_id must be non-empty'')
      else if payload = [] then Inl (invalid_request ''file version update payload must not be empty'')
      else let unexpected = sort (filter (\<lambda>k. k \<notin> {''version_label'', ''change_note'', ''is_pinned''})
             (map fst payload)) in
      if unexpected \<noteq> []
      then Inl (invalid_request (''unsupported file version update fields: '' @ join '', '' unexpected))
      else rbind (optional_text payload ''version_label'') (\<lambda>version_label.
      rbind (optional_text payload ''change_note'') (\<lambda>change_note.
      rbind (case dget payload ''is_pinned'' of
          JNull \<Rightarrow> Inr False
        | JBool b \<Rightarrow> Inr b
        | _ \<Rightarrow> Inl (invalid_request ''is_pinned must be a boolean when provided'')) (\<lambda>is_pinned.
      let v = vault_of sv vault_id; fvs = vt_file_versions v in
      case fv_records fvs version_id of
        None \<Rightarrow> Inl (SyncStoreError ''file_version_not_found'' ''File version was not found'')
      | Some r \<Rightarrow>
          let r3 = edited_row payload version_label change_note is_pinned r in
          Inr (r3, put_vault vault_id (v\<lparr>vt_file_versions :=
            fvs\<lparr>fv_records := (fv_records fvs)(version_id \<mapsto> r3)\<rparr>\<rparr>) sv)))))"

lemma relabelled_row_ok:
  assumes "versions_ok fvs" "fv_records fvs i = Some r" "vr_version_id r' = vr_version_id r"
    "vr_file_id r' = vr_file_id r"
  shows "versions_ok (fvs\<lparr>fv_records := (fv_records fvs)(i \<mapsto> r')\<rparr>)"
proof -
  let ?F = "fvs\<lparr>fv_records := (fv_records fvs)(i \<mapsto> r')\<rparr>"
  have v: "versions_of ?F = versions_of fvs" by (simp add: versions_of_def fun_eq_iff)
  have r: "vr_version_id r' = i" "i \<in> set (versions_of fvs (vr_file_id r'))"
    using versions_okD(2) [OF assms(1,2)] assms(3,4) by simp_all
  have "\<exists>q. fv_records ?F j = Some q \<and> vr_file_id q = f" if "j \<in> set (versions_of fvs f)" for j f
    using versions_okD(3) [OF assms(1) that] assms(2,4) by (cases "j = i") auto
  moreover have "vr_version_id q = j \<and> j \<in> set (versions_of fvs (vr_file_id q))" if "fv_records ?F j = Some q" for j q
    using versions_okD(2) [OF assms(1), of j q] that r by (auto split: if_splits)
  ultimately show ?thesis using versions_okD(1) [OF assms(1)] by (simp add: versions_ok_def v)
qed

lemma edited_row_fields [simp]:
  "vr_version_id (edited_row p l n b r) = vr_version_id r"
  "vr_file_id (edited_row p l n b r) = vr_file_id r"
  "vr_revision (edited_row p l n b r) = vr_revision r"
  by (simp_all add: edited_row_def Let_def)

lemma update_file_version_effect:
  assumes "update_file_version vid i payload sv = Inr (r', sv')"
  obtains r where "fv_records (vt_file_versions (vault_of sv vid)) i = Some r"
    "vr_version_id r' = vr_version_id r" "vr_file_id r' = vr_file_id r" "vr_revision r' = vr_revision r"
    "sv' = put_vault vid ((vault_of sv vid)\<lparr>vt_file_versions := (vt_file_versions (vault_of sv vid))
       \<lparr>fv_records := (fv_records (vt_file_versions (vault_of sv vid)))(i \<mapsto> r')\<rparr>\<rparr>) sv"
proof -
  from assms obtain l n b r where "fv_records (vt_file_versions (vault_of sv vid)) i = Some r"
    "r' = edited_row payload l n b r"
    "sv' = put_vault vid ((vault_of sv vid)\<lparr>vt_file_versions := (vt_file_versions (vault_of sv vid))
       \<lparr>fv_records := (fv_records (vt_file_versions (vault_of sv vid)))(i \<mapsto> r')\<rparr>\<rparr>) sv"
    by (auto simp: update_file_version_def result_simps Let_def simp del: json.case
        split: if_splits option.splits)
  then show ?thesis using that by simp
qed

subsection \<open>Following the cursors\<close>

lemma digit_value_digit_char: "d < 10 \<Longrightarrow> digit_value (digit_char d) = Some d"
  by (simp add: digit_value_def digit_char_def Let_def)

lemma digits_value_nat_str:
  "\<exists>l. digits_value acc p (nat_str n @ s) = digits_value (acc * 10 ^ l + n) True s"
proof (induction n arbitrary: acc p s rule: nat_str.induct)
  case (1 n)
  show ?case
  proof (cases "n < 10")
    case True
    then show ?thesis
      by (intro exI [of _ 1]) (subst nat_str.simps, simp add: digit_value_digit_char algebra_simps)
  next
    case False
    obtain l where "digits_value acc p (nat_str (n div 10) @ digit_char (n mod 10) # s)
        = digits_value (acc * 10 ^ l + n div 10) True (digit_char (n mod 10) # s)"
      using "1.IH" [OF False] by blast
    then have "digits_value acc p (nat_str n @ s)
        = digits_value (10 * (acc * 10 ^ l + n div 10) + n mod 10) True s"
      using False by (subst nat_str.simps) (simp add: digit_value_digit_char)
    then show ?thesis by (intro exI [of _ "Suc l"]) (simp add: algebra_simps)
  qed
qed

lemma nat_str_digits: "nat_str n \<noteq> [] \<and> (\<forall>c \<in> set (nat_str n). \<exists>d < 10. c = digit_char d)"
proof (induction n rule: nat_str.induct)
  case (1 n)
  have "\<exists>d < 10. digit_char (n mod 10) = digit_char d" by (rule exI [of _ "n mod 10"]) simp
  with 1 show ?case by (cases "n < 10") (auto simp: nat_str.simps [of n])
qed

lemma digit_char_plain:
  "d < 10 \<Longrightarrow> \<not> is_space (digit_char d) \<and> digit_char d \<noteq> CHR ''-'' \<and> digit_char d \<noteq> CHR ''+''"
  by (auto simp: is_space_def digit_char_def Let_def dest: arg_cong [where f = "of_char :: char \<Rightarrow> nat"])

lemma int_of_text_nat_str: "int_of_text (nat_str n) = Some (int n)"
proof -
  have plain: "\<not> is_space c" "c \<noteq> CHR ''-''" "c \<noteq> CHR ''+''" if "c \<in> set (nat_str n)" for c
  proof -
    have "\<exists>d<10. c = digit_char d"
      by (rule bspec [OF conjunct2 [OF nat_str_digits] that])
    then obtain d where "d < 10" "c = digit_char d" by (elim exE conjE)
    then show "\<not> is_space c" "c \<noteq> CHR ''-''" "c \<noteq> CHR ''+''" using digit_char_plain [of d] by simp_all
  qed
  have "dropWhile is_space (nat_str n) = nat_str n" "dropWhile is_space (rev (nat_str n)) = rev (nat_str n)"
    using plain(1) nat_str_digits [of n]
    by (simp_all add: dropWhile_eq_self_iff hd_in_set hd_rev last_in_set)
  moreover have "digits_value 0 False (nat_str n) = Some n"
    using digits_value_nat_str [of 0 False n "[]"] by auto
  moreover obtain c cs where "nat_str n = c # cs" using nat_str_digits [of n] by (cases "nat_str n") auto
  ultimately show ?thesis using plain [of c] by (simp add: int_of_text_def strip_def)
qed

lemma cursor_round_trip:
  "dget payload ''cursor'' = JStr (''offset:'' @ nat_str n) \<Longrightarrow> parse_version_cursor payload = Inr n"
  by (simp add: parse_version_cursor_def starts_with_def int_of_text_nat_str)

text \<open>A client that follows the cursors: the pages it collects, with as many requests as fuel.\<close>

fun follow_cursors ::
  "nat \<Rightarrow> (string option \<Rightarrow> version_page sresult) \<Rightarrow> string option \<Rightarrow> version_row list option" where
  "follow_cursors 0 request cursor = None"
| "follow_cursors (Suc n) request cursor = (case request cursor of
     Inl e \<Rightarrow> None
   | Inr p \<Rightarrow> (case pg_next_cursor p of
       None \<Rightarrow> Some (pg_versions p)
     | Some c \<Rightarrow> map_option (\<lambda>rs. pg_versions p @ rs) (follow_cursors n request (Some c))))"

definition versions_request :: "string \<Rightarrow> int \<Rightarrow> bool \<Rightarrow> string option \<Rightarrow> dict" where
  "versions_request file_id limit include_pinned cursor =
     [(''file_id'', JStr file_id), (''limit'', JInt limit), (''include_pinned'', JBool include_pinned),
      (''cursor'', (case cursor of None \<Rightarrow> JNull | Some c \<Rightarrow> JStr c))]"

definition listed_rows :: "server \<Rightarrow> string \<Rightarrow> string \<Rightarrow> bool \<Rightarrow> version_row list" where
  "listed_rows sv vid f include_pinned =
     (let fvs = vt_file_versions (vault_of sv vid); rows = version_rows fvs (versions_of fvs f) in
      newest_first (if include_pinned then rows else filter (\<lambda>r. \<not> vr_is_pinned r) rows))"

lemma list_file_versions_page:
  assumes "f \<noteq> []" "0 < limit" "parse_version_cursor (versions_request f limit b c) = Inr k"
  shows "\<exists>p. list_file_versions vid (versions_request f limit b c) sv = Inr p
    \<and> pg_versions p = take (nat limit) (drop k (listed_rows sv vid f b))
    \<and> pg_next_cursor p = (let n = k + length (pg_versions p) in
        if n < length (listed_rows sv vid f b) then Some (''offset:'' @ nat_str n) else None)"
proof -
  let ?q = "versions_request f limit b c"
  have q: "require_string ?q ''file_id'' = Inr f" "map_of ?q ''limit'' = Some (JInt limit)"
    "map_of ?q ''include_pinned'' = Some (JBool b)"
    "dget ?q ''cursor'' = (case c of None \<Rightarrow> JNull | Some c \<Rightarrow> JStr c)"
    using assms(1) by (simp_all add: versions_request_def require_string_def dget_def)
  have c: "c \<noteq> Some []"
    using assms(3) by (auto simp: parse_version_cursor_def q)
  show ?thesis
    unfolding list_file_versions_def q assms(3)
    using assms(2) c by (cases c) (auto simp: listed_rows_def versions_of_def Let_def)
qed

text \<open>C33: Listing the versions of a file page by page gives every version once, newest first: with
  any positive limit, a client that starts without a cursor and follows the cursors it gets
  is done after at most one request more than there are versions, and the pages it has are the
  sorted list of the (selected) versions. The cursor it sends is read back as the offset the
  server wrote.\<close>

theorem version_listing_complete:
  assumes "f \<noteq> []" "0 < limit"
  shows "follow_cursors (Suc (length (listed_rows sv vid f b)))
      (\<lambda>c. list_file_versions vid (versions_request f limit b c) sv) None
    = Some (listed_rows sv vid f b)"
proof -
  let ?rows = "listed_rows sv vid f b"
  let ?req = "\<lambda>c. list_file_versions vid (versions_request f limit b c) sv"
  have "follow_cursors (Suc n) ?req c = Some (drop k ?rows)"
    if "parse_version_cursor (versions_request f limit b c) = Inr k" "length ?rows \<le> k + n" for n k c
    using that
  proof (induction n arbitrary: k c)
    case 0
    from list_file_versions_page [OF assms 0(1), of vid sv] 0(2) show ?case by (auto simp: Let_def)
  next
    case (Suc n)
    from list_file_versions_page [OF assms Suc.prems(1), of vid sv] obtain p where
      p: "?req c = Inr p" "pg_versions p = take (nat limit) (drop k ?rows)"
      "pg_next_cursor p = (let m = k + length (pg_versions p) in
        if m < length ?rows then Some (''offset:'' @ nat_str m) else None)" by blast
    let ?m = "k + length (pg_versions p)"
    show ?case
    proof (cases "?m < length ?rows")
      case False
      then have "pg_versions p = drop k ?rows" unfolding p(2) by (auto simp: min_def split: if_splits)
      moreover have "pg_next_cursor p = None" using False p(3) by (simp add: Let_def)
      ultimately show ?thesis using p(1) by simp
    next
      case True
      have "pg_versions p \<noteq> []" using True assms(2) by (auto simp: p(2))
      then have "length ?rows \<le> ?m + n" using Suc.prems(2) by (cases "pg_versions p") auto
      moreover have "parse_version_cursor (versions_request f limit b (Some (''offset:'' @ nat_str ?m))) = Inr ?m"
        by (rule cursor_round_trip) (simp add: versions_request_def dget_def)
      ultimately have "follow_cursors (Suc n) ?req (Some (''offset:'' @ nat_str ?m)) = Some (drop ?m ?rows)"
        by (rule Suc.IH [rotated])
      moreover have "pg_versions p @ drop ?m ?rows = drop k ?rows"
      proof -
        have "take (length (take a xs)) xs = take a xs" for a and xs :: "version_row list"
          by (cases "a \<le> length xs") simp_all
        then have "pg_versions p = take (length (pg_versions p)) (drop k ?rows)" unfolding p(2) by metis
        moreover have "drop ?m ?rows = drop (length (pg_versions p)) (drop k ?rows)"
          by (simp add: add.commute)
        ultimately show ?thesis by (metis append_take_drop_id)
      qed
      moreover have "pg_next_cursor p = Some (''offset:'' @ nat_str ?m)" using True p(3) by (simp add: Let_def)
      ultimately show ?thesis using p(1) by (simp del: append_Cons)
    qed
  qed
  from this [of None 0 "length ?rows"] show ?thesis
    by (simp add: parse_version_cursor_def versions_request_def dget_def)
qed

theorem version_listing_complete_witness:
  "follow_cursors 3 (\<lambda>c. list_file_versions ''v'' (versions_request ''f'' 1 True c)
      (put_vault ''v'' (new_vault\<lparr>vt_file_versions := sample_versions\<rparr>) default_state)) None
    = Some [sample_row ''v2'' 2 False, sample_row ''v1'' 1 True]"
proof -
  let ?sv = "put_vault ''v'' (new_vault\<lparr>vt_file_versions := sample_versions\<rparr>) default_state"
  have r: "listed_rows ?sv ''v'' ''f'' True = [sample_row ''v2'' 2 False, sample_row ''v1'' 1 True]"
    by code_simp
  show ?thesis
    using version_listing_complete [of "''f''" 1 ?sv "''v''" True] unfolding r
    by (simp add: numeral_3_eq_3 del: follow_cursors.simps)
qed

end
