(* ===== verification/Server_Auth.thy ===== *)
theory Server_Auth
  imports Server_GC
begin

text \<open>
  Accounts, devices and sessions of \<open>sync_store.py\<close>: registration, passwords, access and refresh
  tokens, and their revocation. The identifiers and tokens the code draws at random are
  arguments, and \<open>kdf\<close> is \<open>hashlib.pbkdf2_hmac("sha256", password, salt, iterations)\<close>.
\<close>

section \<open>Passwords\<close>

definition b64_chars :: string where
  "b64_chars = ''ABCDEFGHIJKLMNOPQRSTUVWXYZabcdefghijklmnopqrstuvwxyz0123456789-_''"

fun b64_sextets :: "nat list \<Rightarrow> nat list" where
  "b64_sextets [] = []"
| "b64_sextets [a] = [a div 4, (a mod 4) * 16]"
| "b64_sextets [a, b] = [a div 4, (a mod 4) * 16 + b div 16, (b mod 16) * 4]"
| "b64_sextets (a # b # c # r) =
     a div 4 # ((a mod 4) * 16 + b div 16) # ((b mod 16) * 4 + c div 64) # c mod 64 # b64_sextets r"

fun b64_bytes :: "nat list \<Rightarrow> nat list option" where
  "b64_bytes [] = Some []"
| "b64_bytes [x] = None"
| "b64_bytes [x, y] = Some [x * 4 + y div 16]"
| "b64_bytes [x, y, z] = Some [x * 4 + y div 16, (y mod 16) * 16 + z div 4]"
| "b64_bytes (x # y # z # w # r) =
     map_option (\<lambda>bs. (x * 4 + y div 16) # ((y mod 16) * 16 + z div 4) # ((z mod 4) * 64 + w) # bs)
       (b64_bytes r)"

fun index_of :: "'a \<Rightarrow> 'a list \<Rightarrow> nat option" where
  "index_of x [] = None"
| "index_of x (y # ys) = (if x = y then Some 0 else map_option Suc (index_of x ys))"

text \<open>\<open>_b64url_encode\<close> and \<open>_b64url_decode\<close>, on bytes as characters; decoding is of text without
  padding, as the encoder writes it.\<close>

definition b64url_encode :: "string \<Rightarrow> string" where
  "b64url_encode bs = map (\<lambda>i. b64_chars ! i) (b64_sextets (map of_char bs))"

definition b64url_decode :: "string \<Rightarrow> string option" where
  "b64url_decode s =
     (let is = map (\<lambda>c. index_of c b64_chars) s in
      if None \<in> set is then None
      else map_option (map char_of) (b64_bytes (map the is)))"

definition PASSWORD_HASH_ITERATIONS :: int where "PASSWORD_HASH_ITERATIONS = 210000"
definition MIN_PASSWORD_LENGTH :: nat where "MIN_PASSWORD_LENGTH = 12"

definition password_hash_record ::
  "(string \<Rightarrow> string \<Rightarrow> int \<Rightarrow> string) \<Rightarrow> string \<Rightarrow> string \<Rightarrow> int \<Rightarrow> password_record" where
  "password_hash_record kdf password salt now =
     \<lparr>pw_iterations = PASSWORD_HASH_ITERATIONS, pw_salt = b64url_encode salt,
      pw_hash = b64url_encode (kdf password salt PASSWORD_HASH_ITERATIONS), pw_updated_at_ms = now\<rparr>"

definition verify_password ::
  "(string \<Rightarrow> string \<Rightarrow> int \<Rightarrow> string) \<Rightarrow> string \<Rightarrow> password_record option \<Rightarrow> bool" where
  "verify_password kdf password rc = (case rc of
     None \<Rightarrow> False
   | Some p \<Rightarrow>
       if pw_iterations p \<le> 0 then False
       else (case (b64url_decode (pw_salt p), b64url_decode (pw_hash p)) of
           (Some salt, Some expected) \<Rightarrow> kdf password salt (pw_iterations p) = expected
         | _ \<Rightarrow> False))"

definition require_password :: "bool \<Rightarrow> dict \<Rightarrow> string sresult" where
  "require_password enforce_min_length payload = (case dget payload ''password'' of
     JStr p \<Rightarrow>
       if enforce_min_length \<and> length p < MIN_PASSWORD_LENGTH
       then Inl (SyncStoreError ''password_too_short'' ''password must be at least 12 characters'')
       else Inr p
   | _ \<Rightarrow> Inl (invalid_request ''password must be a string''))"

section \<open>Readers\<close>

definition optional_account_key :: "string \<Rightarrow> dict \<Rightarrow> string sresult" where
  "optional_account_key dflt payload =
     (let v = (case map_of payload ''account_key'' of Some v \<Rightarrow> v
               | None \<Rightarrow> (case map_of payload ''login_key'' of Some v \<Rightarrow> v | None \<Rightarrow> JStr dflt)) in
      case v of
        JStr s \<Rightarrow> if strip s = []
          then Inl (invalid_request ''account_key must be a non-empty string when provided'')
          else Inr (strip s)
      | _ \<Rightarrow> Inl (invalid_request ''account_key must be a non-empty string when provided''))"

definition optional_positive_int :: "dict \<Rightarrow> string \<Rightarrow> int \<Rightarrow> int sresult" where
  "optional_positive_int payload k dflt = (case map_of payload k of
     None \<Rightarrow> Inr dflt
   | Some v \<Rightarrow> (case py_int v of
       Some i \<Rightarrow> if i \<le> 0 then Inl (invalid_request (k @ '' must be a positive integer'')) else Inr i
     | None \<Rightarrow> Inl (invalid_request (k @ '' must be a positive integer''))))"

definition display_name_of :: "string \<Rightarrow> dict \<Rightarrow> string sresult" where
  "display_name_of account_key payload = (case dget payload ''display_name'' of
     JNull \<Rightarrow> Inr account_key
   | JStr s \<Rightarrow> if s = [] then Inl (invalid_request ''display_name must be a non-empty string when provided'')
               else Inr s
   | _ \<Rightarrow> Inl (invalid_request ''display_name must be a non-empty string when provided''))"

section \<open>Users and sessions\<close>

definition DEFAULT_ACCESS_TOKEN_TTL_MS :: int where "DEFAULT_ACCESS_TOKEN_TTL_MS = 3600000"
definition DEFAULT_REFRESH_TOKEN_TTL_MS :: int where "DEFAULT_REFRESH_TOKEN_TTL_MS = 2592000000"

definition create_user_locked ::
  "string \<Rightarrow> string \<Rightarrow> string \<Rightarrow> int \<Rightarrow> server \<Rightarrow> server" where
  "create_user_locked user_id account_key display_name now sv =
     sv\<lparr>sv_users := (sv_users sv)(user_id \<mapsto>
          \<lparr>us_account_key = account_key,
           us_display_name = (if display_name = [] then account_key else display_name),
           us_status = ''active'', us_auth_methods = [], us_password_auth = None,
           us_created_at_ms = now, us_updated_at_ms = now\<rparr>),
        sv_user_logins := (sv_user_logins sv)(account_key \<mapsto> user_id)\<rparr>"

text \<open>The user of an account, created under \<open>new_user_id\<close> when there is none.\<close>

definition ensure_user ::
  "string \<Rightarrow> string \<Rightarrow> string \<Rightarrow> int \<Rightarrow> server \<Rightarrow> string \<times> server" where
  "ensure_user new_user_id account_key display_name now sv =
     (case sv_user_logins sv account_key of
        Some user_id \<Rightarrow> (case sv_users sv user_id of
            Some u \<Rightarrow> (user_id, sv\<lparr>sv_users := (sv_users sv)(user_id \<mapsto>
              u\<lparr>us_display_name := (if display_name \<noteq> [] then display_name
                   else if us_display_name u \<noteq> [] then us_display_name u else account_key),
                us_updated_at_ms := now\<rparr>)\<rparr>)
          | None \<Rightarrow> (new_user_id, create_user_locked new_user_id account_key display_name now sv))
      | None \<Rightarrow> (new_user_id, create_user_locked new_user_id account_key display_name now sv))"

record fresh_ids =
  fr_device_id :: string
  fr_session_id :: string
  fr_access_token :: string
  fr_refresh_token :: string

record token_response =
  tr_user_id :: string
  tr_device_id :: string
  tr_access_token :: string
  tr_refresh_token :: string
  tr_expires_at_ms :: int
  tr_refresh_expires_at_ms :: int

definition new_device ::
  "fresh_ids \<Rightarrow> string \<Rightarrow> dict \<Rightarrow> string \<Rightarrow> string \<Rightarrow> int \<Rightarrow> int \<Rightarrow> int \<Rightarrow> device" where
  "new_device fr user_id payload device_name platform now attl rttl =
     \<lparr>dv_user_id = user_id, dv_device_name = device_name, dv_platform = platform,
      dv_app_version = dget payload ''app_version'',
      dv_protocol_version = (case map_of payload ''protocol_version'' of
          Some v \<Rightarrow> v | None \<Rightarrow> JStr ''v1''),
      dv_session_id = fr_session_id fr, dv_access_token = fr_access_token fr,
      dv_refresh_token = fr_refresh_token fr, dv_access_token_expires_at_ms = now + attl,
      dv_refresh_token_expires_at_ms = now + rttl, dv_revoked = False,
      dv_revoked_at_ms = None, dv_registered_at_ms = now, dv_last_seen_at_ms = now\<rparr>"

definition new_session :: "fresh_ids \<Rightarrow> string \<Rightarrow> int \<Rightarrow> int \<Rightarrow> int \<Rightarrow> session" where
  "new_session fr user_id now attl rttl =
     \<lparr>ss_user_id = user_id, ss_device_id = fr_device_id fr,
      ss_access_token = fr_access_token fr, ss_refresh_token = fr_refresh_token fr,
      ss_access_expires_at_ms = now + attl, ss_refresh_expires_at_ms = now + rttl,
      ss_created_at_ms = now, ss_updated_at_ms = now, ss_revoked_at_ms = None\<rparr>"

definition create_device_session_locked ::
  "fresh_ids \<Rightarrow> string \<Rightarrow> dict \<Rightarrow> int \<Rightarrow> token_response handler" where
  "create_device_session_locked fr user_id payload now sv =
     rbind (require_string payload ''device_name'') (\<lambda>device_name.
     rbind (require_string payload ''platform'') (\<lambda>platform.
     if platform \<notin> {''desktop'', ''mobile'', ''web''}
     then Inl (SyncStoreError ''invalid_platform'' ''platform must be desktop, mobile, or web'')
     else rbind (optional_positive_int payload ''access_token_ttl_ms'' DEFAULT_ACCESS_TOKEN_TTL_MS) (\<lambda>attl.
     rbind (optional_positive_int payload ''refresh_token_ttl_ms'' DEFAULT_REFRESH_TOKEN_TTL_MS) (\<lambda>rttl.
     Inr (\<lparr>tr_user_id = user_id, tr_device_id = fr_device_id fr,
            tr_access_token = fr_access_token fr, tr_refresh_token = fr_refresh_token fr,
            tr_expires_at_ms = now + attl, tr_refresh_expires_at_ms = now + rttl\<rparr>,
       sv\<lparr>sv_devices := (sv_devices sv)(fr_device_id fr \<mapsto>
            new_device fr user_id payload device_name platform now attl rttl),
          sv_sessions := AList.update (fr_session_id fr) (new_session fr user_id now attl rttl)
            (sv_sessions sv),
          sv_tokens := (sv_tokens sv)(fr_access_token fr \<mapsto> fr_session_id fr),
          sv_refresh_tokens := (sv_refresh_tokens sv)(fr_refresh_token fr \<mapsto> fr_session_id fr)\<rparr>)))))"

definition register_device ::
  "string \<Rightarrow> fresh_ids \<Rightarrow> dict \<Rightarrow> int \<Rightarrow> token_response handler" where
  "register_device new_user_id fr payload now sv =
     rbind (optional_account_key ''local-dev'' payload) (\<lambda>account_key.
     rbind (display_name_of account_key payload) (\<lambda>display_name.
     let (user_id, sv1) = ensure_user new_user_id account_key display_name now sv in
     if (case sv_users sv1 user_id of Some u \<Rightarrow> us_password_auth u \<noteq> None | None \<Rightarrow> False)
     then Inl (SyncStoreError ''password_required'' ''Password authentication is required for this account'')
     else create_device_session_locked fr user_id payload now sv1))"

definition register_password_account ::
  "(string \<Rightarrow> string \<Rightarrow> int \<Rightarrow> string) \<Rightarrow> string \<Rightarrow> string \<Rightarrow> fresh_ids \<Rightarrow> dict \<Rightarrow> int \<Rightarrow>
     token_response handler" where
  "register_password_account kdf salt new_user_id fr payload now sv =
     rbind (optional_account_key ''local-dev'' payload) (\<lambda>account_key.
     rbind (require_password True payload) (\<lambda>password.
     rbind (display_name_of account_key payload) (\<lambda>display_name.
     if sv_user_logins sv account_key \<noteq> None
     then Inl (SyncStoreError ''account_exists'' ''Account already exists'')
     else let sv1 = create_user_locked new_user_id account_key display_name now sv;
              sv2 = sv1\<lparr>sv_users := (sv_users sv1)(new_user_id \<mapsto>
                (the (sv_users sv1 new_user_id))\<lparr>us_auth_methods := [''password''],
                  us_password_auth := Some (password_hash_record kdf password salt now)\<rparr>)\<rparr> in
       create_device_session_locked fr new_user_id payload now sv2)))"

definition login_password_account ::
  "(string \<Rightarrow> string \<Rightarrow> int \<Rightarrow> string) \<Rightarrow> fresh_ids \<Rightarrow> dict \<Rightarrow> int \<Rightarrow> token_response handler" where
  "login_password_account kdf fr payload now sv =
     rbind (optional_account_key [] payload) (\<lambda>account_key.
     rbind (require_password False payload) (\<lambda>password.
     case sv_user_logins sv account_key of
       None \<Rightarrow> Inl (SyncStoreError ''invalid_credentials'' ''Account key or password is invalid'')
     | Some user_id \<Rightarrow> (case sv_users sv user_id of
         None \<Rightarrow> Inl (SyncStoreError ''invalid_credentials'' ''Account key or password is invalid'')
       | Some u \<Rightarrow>
           if us_status u \<noteq> ''active''
           then Inl (SyncStoreError ''account_disabled'' ''Account is disabled'')
           else if \<not> verify_password kdf password (us_password_auth u)
           then Inl (SyncStoreError ''invalid_credentials'' ''Account key or password is invalid'')
           else create_device_session_locked fr user_id payload now
             (sv\<lparr>sv_users := (sv_users sv)(user_id \<mapsto> u\<lparr>us_updated_at_ms := now\<rparr>)\<rparr>))))"

section \<open>Tokens\<close>

record authorization =
  au_user_id :: string
  au_device_id :: string
  au_session_id :: string

definition device_of_token_error :: server_error where
  "device_of_token_error = SyncStoreError ''device_revoked'' ''Device token is invalid or revoked''"

definition authorize_access_token :: "string \<Rightarrow> int \<Rightarrow> server \<Rightarrow> authorization sresult" where
  "authorize_access_token token now sv = (case sv_tokens sv token of
     None \<Rightarrow> Inl (SyncStoreError ''invalid_access_token'' ''Access token is invalid'')
   | Some session_id \<Rightarrow> (case map_of (sv_sessions sv) session_id of
       Some ss \<Rightarrow>
         if (case sv_devices sv (ss_device_id ss) of Some dv \<Rightarrow> dv_revoked dv | None \<Rightarrow> True)
            \<or> ss_revoked_at_ms ss \<noteq> None
         then Inl device_of_token_error
         else if ss_access_expires_at_ms ss \<le> now
         then Inl (SyncStoreError ''access_token_expired'' ''Access token has expired'')
         else Inr \<lparr>au_user_id = ss_user_id ss, au_device_id = ss_device_id ss, au_session_id = session_id\<rparr>
     | None \<Rightarrow> \<comment> \<open>a token of an older state names a device\<close>
         (case sv_devices sv session_id of
            Some dv \<Rightarrow> if dv_revoked dv then Inl device_of_token_error
              else Inr \<lparr>au_user_id = dv_user_id dv, au_device_id = session_id, au_session_id = []\<rparr>
          | None \<Rightarrow> Inl device_of_token_error)))"

definition device_id_for_token :: "string \<Rightarrow> int \<Rightarrow> server \<Rightarrow> string option" where
  "device_id_for_token token now sv = (case authorize_access_token token now sv of
     Inr a \<Rightarrow> Some (au_device_id a) | Inl _ \<Rightarrow> None)"

definition touch_device :: "string option \<Rightarrow> int \<Rightarrow> server \<Rightarrow> server" where
  "touch_device device_id now sv = (case device_id of
     None \<Rightarrow> sv
   | Some d \<Rightarrow> if d = [] then sv
       else (case sv_devices sv d of
           Some dv \<Rightarrow> if dv_revoked dv then sv
             else sv\<lparr>sv_devices := (sv_devices sv)(d \<mapsto> dv\<lparr>dv_last_seen_at_ms := now\<rparr>)\<rparr>
         | None \<Rightarrow> sv))"

text \<open>The updates of a refresh: the session, its device and the two token tables.\<close>

definition rotate_tokens ::
  "string \<Rightarrow> string \<Rightarrow> string \<Rightarrow> int \<Rightarrow> int \<Rightarrow> int \<Rightarrow> string \<Rightarrow> session \<Rightarrow> device \<Rightarrow> server \<Rightarrow> server" where
  "rotate_tokens new_access new_refresh old_refresh now access_expires refresh_expires session_id ss dv sv =
     sv\<lparr>sv_sessions := AList.update session_id
          (ss\<lparr>ss_access_token := new_access, ss_refresh_token := new_refresh,
              ss_access_expires_at_ms := access_expires,
              ss_refresh_expires_at_ms := refresh_expires, ss_updated_at_ms := now\<rparr>)
          (sv_sessions sv),
        sv_devices := (sv_devices sv)(ss_device_id ss \<mapsto>
          dv\<lparr>dv_access_token := new_access, dv_refresh_token := new_refresh,
             dv_access_token_expires_at_ms := access_expires,
             dv_refresh_token_expires_at_ms := refresh_expires, dv_last_seen_at_ms := now\<rparr>),
        sv_tokens := (sv_tokens sv)(ss_access_token ss := None, new_access \<mapsto> session_id),
        sv_refresh_tokens := (sv_refresh_tokens sv)
          (old_refresh := None, new_refresh \<mapsto> session_id)\<rparr>"

definition refresh_session :: "string \<Rightarrow> string \<Rightarrow> dict \<Rightarrow> int \<Rightarrow> token_response handler" where
  "refresh_session new_access new_refresh payload now sv =
     rbind (require_string payload ''refresh_token'') (\<lambda>refresh_token.
     rbind (optional_positive_int payload ''access_token_ttl_ms'' DEFAULT_ACCESS_TOKEN_TTL_MS) (\<lambda>attl.
     rbind (optional_positive_int payload ''refresh_token_ttl_ms'' DEFAULT_REFRESH_TOKEN_TTL_MS) (\<lambda>rttl.
     case sv_refresh_tokens sv refresh_token of
       None \<Rightarrow> Inl (SyncStoreError ''invalid_refresh_token'' ''Refresh token is invalid'')
     | Some session_id \<Rightarrow> (case map_of (sv_sessions sv) session_id of
         None \<Rightarrow> Inl (SyncStoreError ''invalid_refresh_token'' ''Refresh token is invalid'')
       | Some ss \<Rightarrow> (case sv_devices sv (ss_device_id ss) of
           None \<Rightarrow> Inl device_of_token_error
         | Some dv \<Rightarrow>
             if dv_revoked dv \<or> ss_revoked_at_ms ss \<noteq> None then Inl device_of_token_error
             else if ss_refresh_expires_at_ms ss \<le> now
             then Inl (SyncStoreError ''refresh_token_expired'' ''Refresh token has expired'')
             else Inr (\<lparr>tr_user_id = ss_user_id ss, tr_device_id = ss_device_id ss,
                 tr_access_token = new_access, tr_refresh_token = new_refresh,
                 tr_expires_at_ms = now + attl, tr_refresh_expires_at_ms = now + rttl\<rparr>,
               rotate_tokens new_access new_refresh refresh_token now (now + attl) (now + rttl)
                 session_id ss dv sv))))))"

definition revoke_session_for_token :: "string \<Rightarrow> int \<Rightarrow> server \<Rightarrow> bool \<times> server" where
  "revoke_session_for_token token now sv = (case sv_tokens sv token of
     None \<Rightarrow> (False, sv)
   | Some session_id \<Rightarrow> (case map_of (sv_sessions sv) session_id of
       None \<Rightarrow> (False, sv)
     | Some ss \<Rightarrow> (True, sv\<lparr>sv_tokens := (sv_tokens sv)(token := None),
         sv_sessions := AList.update session_id (ss\<lparr>ss_revoked_at_ms := Some now\<rparr>) (sv_sessions sv),
         sv_refresh_tokens := (sv_refresh_tokens sv)(ss_refresh_token ss := None)\<rparr>)))"

section \<open>Encoding bytes\<close>

lemma b64_round: "list_all (\<lambda>b. b < 256) bs \<Longrightarrow> b64_bytes (b64_sextets bs) = Some bs"
proof (induction bs rule: b64_sextets.induct)
  case (4 a b c r)
  then have "a < 256" "b < 256" "c < 256" by simp_all
  then have "b div 16 < 16" "c div 64 < 4" by simp_all
  then have "a div 4 * 4 + (a mod 4 * 16 + b div 16) div 16 = a"
    "(a mod 4 * 16 + b div 16) mod 16 * 16 + (b mod 16 * 4 + c div 64) div 4 = b"
    "(b mod 16 * 4 + c div 64) mod 4 * 64 + c mod 64 = c"
    by simp_all
  with 4 show ?case by simp
next
  case (3 a b)
  then have "b < 256" by simp
  then have "b div 16 < 16" by simp
  then show ?case by simp
qed simp_all

lemma b64_sextets_range: "list_all (\<lambda>b. b < 256) bs \<Longrightarrow> list_all (\<lambda>s. s < 64) (b64_sextets bs)"
  by (induction bs rule: b64_sextets.induct) auto

lemma index_of_nth: "distinct xs \<Longrightarrow> i < length xs \<Longrightarrow> index_of (xs ! i) xs = Some i"
  by (induction xs arbitrary: i) (auto simp: nth_Cons split: nat.splits)

lemma b64url_round_trip: "b64url_decode (b64url_encode s) = Some s"
proof -
  let ?bs = "map of_char s :: nat list"
  have bs: "list_all (\<lambda>b. b < 256) ?bs" by (simp add: list_all_iff)
  have "distinct b64_chars" "length b64_chars = 64" by code_simp+
  then have "map (\<lambda>c. index_of c b64_chars) (b64url_encode s) = map Some (b64_sextets ?bs)"
    using b64_sextets_range [OF bs] by (auto simp: b64url_encode_def list_all_iff index_of_nth)
  moreover have "map char_of ?bs = s" by (simp add: comp_def)
  ultimately show ?thesis
    by (auto simp: b64url_decode_def Let_def b64_round [OF bs] comp_def)
qed

lemma verify_own_password:
  "verify_password kdf p' (Some (password_hash_record kdf p salt now)) \<longleftrightarrow>
     kdf p' salt PASSWORD_HASH_ITERATIONS = kdf p salt PASSWORD_HASH_ITERATIONS"
  by (simp add: verify_password_def password_hash_record_def b64url_round_trip PASSWORD_HASH_ITERATIONS_def)

section \<open>Sessions and tokens agree\<close>

definition auth_ok :: "server \<Rightarrow> bool" where
  "auth_ok sv \<longleftrightarrow>
     (\<forall>t s. sv_tokens sv t = Some s \<longrightarrow>
        (\<exists>ss. map_of (sv_sessions sv) s = Some ss \<and> ss_access_token ss = t))
   \<and> (\<forall>t s. sv_refresh_tokens sv t = Some s \<longrightarrow>
        (\<exists>ss. map_of (sv_sessions sv) s = Some ss \<and> ss_refresh_token ss = t))
   \<and> (\<forall>s ss. map_of (sv_sessions sv) s = Some ss \<longrightarrow>
        (\<exists>dv. sv_devices sv (ss_device_id ss) = Some dv \<and> dv_user_id dv = ss_user_id ss))"

lemma default_auth_ok [simp]: "auth_ok default_state"
  by (simp add: auth_ok_def default_state_def)

lemma auth_okD:
  assumes "auth_ok sv"
  shows "sv_tokens sv t = Some s \<Longrightarrow> \<exists>ss. map_of (sv_sessions sv) s = Some ss \<and> ss_access_token ss = t"
    and "sv_refresh_tokens sv t = Some s \<Longrightarrow> \<exists>ss. map_of (sv_sessions sv) s = Some ss \<and> ss_refresh_token ss = t"
    and "map_of (sv_sessions sv) s = Some ss \<Longrightarrow>
      \<exists>dv. sv_devices sv (ss_device_id ss) = Some dv \<and> dv_user_id dv = ss_user_id ss"
  using assms unfolding auth_ok_def by blast+

text \<open>The identifiers a registration draws are not in use.\<close>

definition fresh_for :: "fresh_ids \<Rightarrow> server \<Rightarrow> bool" where
  "fresh_for fr sv \<longleftrightarrow> sv_devices sv (fr_device_id fr) = None
     \<and> map_of (sv_sessions sv) (fr_session_id fr) = None
     \<and> sv_tokens sv (fr_access_token fr) = None \<and> sv_refresh_tokens sv (fr_refresh_token fr) = None"

lemma create_device_session_cases:
  assumes "create_device_session_locked fr u payload now sv = Inr (r, sv')"
  obtains name platform attl rttl where "0 < attl"
    "r = \<lparr>tr_user_id = u, tr_device_id = fr_device_id fr, tr_access_token = fr_access_token fr,
       tr_refresh_token = fr_refresh_token fr, tr_expires_at_ms = now + attl,
       tr_refresh_expires_at_ms = now + rttl\<rparr>"
    "sv' = sv\<lparr>sv_devices := (sv_devices sv)(fr_device_id fr \<mapsto>
         new_device fr u payload name platform now attl rttl),
       sv_sessions := AList.update (fr_session_id fr) (new_session fr u now attl rttl) (sv_sessions sv),
       sv_tokens := (sv_tokens sv)(fr_access_token fr \<mapsto> fr_session_id fr),
       sv_refresh_tokens := (sv_refresh_tokens sv)(fr_refresh_token fr \<mapsto> fr_session_id fr)\<rparr>"
proof -
  have "0 < i" if "optional_positive_int payload k j = Inr i" "0 < j" for k i j
    using that by (auto simp: optional_positive_int_def split: option.splits if_splits)
  moreover have "0 < DEFAULT_ACCESS_TOKEN_TTL_MS" by (simp add: DEFAULT_ACCESS_TOKEN_TTL_MS_def)
  ultimately show ?thesis
    using assms that unfolding create_device_session_locked_def rbind_eq_Inr if_raise_eq_Inr
    by (elim exE conjE) (simp only: sum.inject prod.inject, blast)
qed

lemma create_device_session_keeps:
  assumes ok: "auth_ok sv" and fr: "fresh_for fr sv"
    and r: "create_device_session_locked fr u payload now sv = Inr (r, sv')"
  shows "auth_ok sv' \<and> authorize_access_token (fr_access_token fr) now sv'
    = Inr \<lparr>au_user_id = u, au_device_id = fr_device_id fr, au_session_id = fr_session_id fr\<rparr>"
  using r
proof (cases rule: create_device_session_cases)
  case (1 name platform attl rttl)
  have other: "map_of (sv_sessions sv) (fr_session_id fr) = None" using fr by (simp add: fresh_for_def)
  have dev: "ss_device_id q \<noteq> fr_device_id fr" if "map_of (sv_sessions sv) s = Some q" for s q
    using auth_okD(3) [OF ok that] fr by (auto simp: fresh_for_def)
  have tok: "sv_tokens sv t \<noteq> Some (fr_session_id fr)" "sv_refresh_tokens sv t \<noteq> Some (fr_session_id fr)" for t
    using auth_okD(1,2) [OF ok, of t "fr_session_id fr"] other by auto
  have "auth_ok sv'"
    unfolding auth_ok_def 1(3)
    using auth_okD [OF ok] tok dev by (auto simp: update_conv' new_device_def new_session_def)
  then show ?thesis
    using 1(1) by (simp add: authorize_access_token_def update_conv' 1(3) new_device_def new_session_def)
qed

section \<open>Properties\<close>

text \<open>What the encoder writes the decoder reads back, for every sequence of bytes.\<close>

lemma base64_round_trip: "b64url_decode (b64url_encode s) = Some s"
  by (rule b64url_round_trip)

text \<open>A password account opens to its password. Once an account is registered with a password,
  logging in to it gives a session exactly when the password offered has the same derived key
  under the stored salt, and is refused as invalid credentials otherwise; registering a device
  without a password, and registering the account again, are refused.\<close>

lemma password_account_opens:
  assumes reg: "register_password_account kdf salt uid fr payload now sv = Inr (r, sv1)"
    and acc: "optional_account_key ''local-dev'' payload = Inr acct" "require_password True payload = Inr p"
    and q: "optional_account_key [] q = Inr acct" "optional_account_key ''local-dev'' q = Inr acct"
      "require_password False q = Inr p'"
      "display_name_of acct q = Inr dn"
  shows "login_password_account kdf fr' q now' sv1 =
      (if kdf p' salt PASSWORD_HASH_ITERATIONS = kdf p salt PASSWORD_HASH_ITERATIONS
       then create_device_session_locked fr' uid q now' (sv1\<lparr>sv_users := (sv_users sv1)(uid \<mapsto>
         (the (sv_users sv1 uid))\<lparr>us_updated_at_ms := now'\<rparr>)\<rparr>)
       else Inl (SyncStoreError ''invalid_credentials'' ''Account key or password is invalid''))
    \<and> register_device uid' fr' q now' sv1
        = Inl (SyncStoreError ''password_required'' ''Password authentication is required for this account'')
    \<and> isl (register_password_account kdf salt' uid' fr' q now' sv1)"
proof -
  from reg obtain u where u: "sv_user_logins sv1 acct = Some uid" "sv_users sv1 uid = Some u"
    "us_status u = ''active''" "us_password_auth u = Some (password_hash_record kdf p salt now)"
    by (auto simp: register_password_account_def acc result_simps Let_def create_user_locked_def
        elim!: create_device_session_cases)
  have "login_password_account kdf fr' q now' sv1 =
      (if kdf p' salt PASSWORD_HASH_ITERATIONS = kdf p salt PASSWORD_HASH_ITERATIONS
       then create_device_session_locked fr' uid q now' (sv1\<lparr>sv_users := (sv_users sv1)(uid \<mapsto>
         (the (sv_users sv1 uid))\<lparr>us_updated_at_ms := now'\<rparr>)\<rparr>)
       else Inl (SyncStoreError ''invalid_credentials'' ''Account key or password is invalid''))"
    using u by (simp add: login_password_account_def q verify_own_password)
  moreover have "register_device uid' fr' q now' sv1
      = Inl (SyncStoreError ''password_required'' ''Password authentication is required for this account'')"
    using u by (simp add: register_device_def q ensure_user_def)
  moreover have "isl (register_password_account kdf salt' uid' fr' q now' sv1)"
    using u by (cases "require_password True q") (simp_all add: register_password_account_def q)
  ultimately show ?thesis by blast
qed

definition sample_registration :: dict where
  "sample_registration = [(''account_key'', JStr ''ann''), (''password'', JStr ''correct horse''),
     (''device_name'', JStr ''laptop''), (''platform'', JStr ''desktop'')]"

definition sample_ids :: "string \<Rightarrow> fresh_ids" where
  "sample_ids n = \<lparr>fr_device_id = ''dev_'' @ n, fr_session_id = ''sess_'' @ n,
     fr_access_token = ''at_'' @ n, fr_refresh_token = ''rt_'' @ n\<rparr>"

definition weak_kdf :: "string \<Rightarrow> string \<Rightarrow> int \<Rightarrow> string" where
  "weak_kdf p salt n = p @ salt"

theorem password_account_opens_witness:
  "\<exists>r sv1. register_password_account weak_kdf ''salt'' ''u1'' (sample_ids ''1'') sample_registration 5
        default_state = Inr (r, sv1)
    \<and> login_password_account weak_kdf (sample_ids ''2'')
        (AList.update ''password'' (JStr ''battery'') sample_registration) 6 sv1
      = Inl (SyncStoreError ''invalid_credentials'' ''Account key or password is invalid'')"
proof -
  let ?q = "AList.update ''password'' (JStr ''battery'') sample_registration"
  let ?r = "register_password_account weak_kdf ''salt'' ''u1'' (sample_ids ''1'') sample_registration 5
        default_state"
  have a: "optional_account_key ''local-dev'' sample_registration = Inr ''ann''"
    "require_password True sample_registration = Inr ''correct horse''"
    "optional_account_key [] ?q = Inr ''ann''" "optional_account_key ''local-dev'' ?q = Inr ''ann''"
    "require_password False ?q = Inr ''battery''" "display_name_of ''ann'' ?q = Inr ''ann''"
    by code_simp+
  have "\<not> isl ?r" by code_simp
  then obtain r sv1 where r: "?r = Inr (r, sv1)" by (cases ?r) auto
  have "weak_kdf ''battery'' ''salt'' n \<noteq> weak_kdf ''correct horse'' ''salt'' n" for n
    by (simp add: weak_kdf_def)
  then show ?thesis
    using password_account_opens [OF r a, of "sample_ids ''2''" 6] r by auto
qed

text \<open>C35: Refreshing rotates both tokens of a session: with new tokens that are not in use, the old
  refresh token and the old access token are refused from then on, the new access token is
  accepted for the same user, device and session up to its expiry and not after, and sessions,
  tokens and devices stay consistent.\<close>

theorem refresh_rotates_tokens:
  assumes ok: "auth_ok sv" and fresh: "sv_tokens sv na = None" "sv_refresh_tokens sv nr = None"
    and tok: "dget payload ''refresh_token'' = JStr old" "sv_refresh_tokens sv old = Some sid"
    and r: "refresh_session na nr payload now sv = Inr (tr, sv')"
    and again: "require_string again ''refresh_token'' = Inr old"
      "optional_positive_int again ''access_token_ttl_ms'' DEFAULT_ACCESS_TOKEN_TTL_MS = Inr i"
      "optional_positive_int again ''refresh_token_ttl_ms'' DEFAULT_REFRESH_TOKEN_TTL_MS = Inr j"
  shows "auth_ok sv' \<and> sv_refresh_tokens sv' old = None
    \<and> refresh_session na' nr' again now' sv'
        = Inl (SyncStoreError ''invalid_refresh_token'' ''Refresh token is invalid'')
    \<and> (\<forall>t. sv_tokens sv t = Some sid \<longrightarrow> authorize_access_token t now' sv'
        = Inl (SyncStoreError ''invalid_access_token'' ''Access token is invalid''))
    \<and> authorize_access_token na now' sv' =
        (if tr_expires_at_ms tr \<le> now'
         then Inl (SyncStoreError ''access_token_expired'' ''Access token has expired'')
         else Inr \<lparr>au_user_id = tr_user_id tr, au_device_id = tr_device_id tr, au_session_id = sid\<rparr>)"
proof -
  have "require_string payload ''refresh_token'' = Inr old"
    using r tok(1) by (cases "require_string payload ''refresh_token''")
      (simp_all add: refresh_session_def require_string_eq_Inr)
  moreover obtain attl rttl where
    "optional_positive_int payload ''access_token_ttl_ms'' DEFAULT_ACCESS_TOKEN_TTL_MS = Inr attl"
    "optional_positive_int payload ''refresh_token_ttl_ms'' DEFAULT_REFRESH_TOKEN_TTL_MS = Inr rttl"
    using r unfolding refresh_session_def rbind_eq_Inr by blast
  ultimately have req: "require_string payload ''refresh_token'' = Inr old"
      "optional_positive_int payload ''access_token_ttl_ms'' DEFAULT_ACCESS_TOKEN_TTL_MS = Inr attl"
      "optional_positive_int payload ''refresh_token_ttl_ms'' DEFAULT_REFRESH_TOKEN_TTL_MS = Inr rttl"
    by simp_all
  obtain ss where ss: "map_of (sv_sessions sv) sid = Some ss"
    using auth_okD(2) [OF ok tok(2)] by blast
  obtain dv where dv0: "sv_devices sv (ss_device_id ss) = Some dv" using auth_okD(3) [OF ok ss] by blast
  define ae where "ae = now + attl"
  define re where "re = now + rttl"
  have s: "map_of (sv_sessions sv) sid = Some ss" "sv_devices sv (ss_device_id ss) = Some dv"
      "\<not> dv_revoked dv" "ss_revoked_at_ms ss = None"
    and tr: "tr_user_id tr = ss_user_id ss" "tr_device_id tr = ss_device_id ss" "tr_expires_at_ms tr = ae"
    and sv': "sv' = rotate_tokens na nr old now ae re sid ss dv sv"
    using r by (auto simp: refresh_session_def req tok(2) ss dv0 ae_def re_def split: if_splits)
  note sv' = sv' [unfolded rotate_tokens_def]
  have rt: "ss_refresh_token ss = old" using auth_okD(2) [OF ok tok(2)] s(1) by auto
  have at: "t = ss_access_token ss" if "sv_tokens sv t = Some sid" for t
    using auth_okD(1) [OF ok that] s(1) by auto
  have rt': "t = old" if "sv_refresh_tokens sv t = Some sid" for t
    using auth_okD(2) [OF ok that] s(1) rt by auto
  have dv: "dv_user_id dv = ss_user_id ss" using auth_okD(3) [OF ok s(1)] s(2) by auto
  have dv': "ss_user_id q = ss_user_id ss"
    if "map_of (sv_sessions sv) k = Some q" "ss_device_id q = ss_device_id ss" for k q
    using auth_okD(3) [OF ok that(1)] that(2) s(2) dv by auto
  have new: "nr \<noteq> old" using fresh(2) tok(2) by auto
  have "auth_ok sv'"
    unfolding auth_ok_def
  proof (intro conjI allI impI)
    fix t k assume "sv_tokens sv' t = Some k"
    then show "\<exists>q. map_of (sv_sessions sv') k = Some q \<and> ss_access_token q = t"
      using auth_okD(1) [OF ok, of t k] at [of t] by (auto simp: sv' update_conv' split: if_splits)
  next
    fix t k assume "sv_refresh_tokens sv' t = Some k"
    then show "\<exists>q. map_of (sv_sessions sv') k = Some q \<and> ss_refresh_token q = t"
      using auth_okD(2) [OF ok, of t k] rt' [of t] by (auto simp: sv' update_conv' split: if_splits)
  next
    fix k q assume q: "map_of (sv_sessions sv') k = Some q"
    show "\<exists>d. sv_devices sv' (ss_device_id q) = Some d \<and> dv_user_id d = ss_user_id q"
    proof (cases "k = sid")
      case True
      with q dv show ?thesis by (auto simp: sv' update_conv')
    next
      case False
      then have "map_of (sv_sessions sv) k = Some q" using q by (simp add: sv' update_conv')
      with auth_okD(3) [OF ok this] dv' [OF this] dv show ?thesis
        by (cases "ss_device_id q = ss_device_id ss") (auto simp: sv')
    qed
  qed
  moreover have ref: "sv_refresh_tokens sv' old = None" using new by (simp add: sv')
  moreover have "refresh_session na' nr' again now' sv'
      = Inl (SyncStoreError ''invalid_refresh_token'' ''Refresh token is invalid'')"
    using ref by (simp add: refresh_session_def again)
  moreover have "authorize_access_token t now' sv'
      = Inl (SyncStoreError ''invalid_access_token'' ''Access token is invalid'')"
    if "sv_tokens sv t = Some sid" for t
    using at [OF that] that fresh(1) by (auto simp: authorize_access_token_def sv')
  moreover have "authorize_access_token na now' sv' =
      (if tr_expires_at_ms tr \<le> now'
       then Inl (SyncStoreError ''access_token_expired'' ''Access token has expired'')
       else Inr \<lparr>au_user_id = tr_user_id tr, au_device_id = tr_device_id tr, au_session_id = sid\<rparr>)"
    using s tr by (simp add: authorize_access_token_def sv' update_conv')
  ultimately show ?thesis by blast
qed

definition registered_server :: server where
  "registered_server = (case register_device ''u1'' (sample_ids ''1'') sample_registration 5 default_state of
     Inr (r, sv) \<Rightarrow> sv | Inl e \<Rightarrow> default_state)"

lemma registered_server_ok: "auth_ok registered_server"
proof -
  let ?u = "create_user_locked ''u1'' ''ann'' ''ann'' 5 default_state"
  have "optional_account_key ''local-dev'' sample_registration = Inr ''ann''"
    "display_name_of ''ann'' sample_registration = Inr ''ann''" by code_simp+
  then have r: "register_device ''u1'' (sample_ids ''1'') sample_registration 5 default_state
      = create_device_session_locked (sample_ids ''1'') ''u1'' sample_registration 5 ?u"
    by (simp add: register_device_def ensure_user_def) (simp add: default_state_def create_user_locked_def)
  have "\<not> isl (create_device_session_locked (sample_ids ''1'') ''u1'' sample_registration 5 ?u)"
    by code_simp
  then obtain x sv where c: "create_device_session_locked (sample_ids ''1'') ''u1'' sample_registration 5 ?u
      = Inr (x, sv)"
    by (cases "create_device_session_locked (sample_ids ''1'') ''u1'' sample_registration 5 ?u") auto
  moreover from c have "registered_server = sv" by (simp add: registered_server_def r)
  moreover have "auth_ok ?u" "fresh_for (sample_ids ''1'') ?u"
    by (simp_all add: auth_ok_def create_user_locked_def default_state_def fresh_for_def)
  ultimately show ?thesis using create_device_session_keeps by blast
qed

theorem refresh_rotates_tokens_witness:
  "\<exists>tr sv'. refresh_session ''at_2'' ''rt_2'' [(''refresh_token'', JStr ''rt_1'')] 9 registered_server = Inr (tr, sv')
    \<and> auth_ok sv'
    \<and> authorize_access_token ''at_1'' 10 sv'
        = Inl (SyncStoreError ''invalid_access_token'' ''Access token is invalid'')
    \<and> authorize_access_token ''at_2'' (tr_expires_at_ms tr) sv'
        = Inl (SyncStoreError ''access_token_expired'' ''Access token has expired'')"
proof -
  let ?q = "[(''refresh_token'', JStr ''rt_1'')]"
  let ?r = "refresh_session ''at_2'' ''rt_2'' ?q 9 registered_server"
  have t: "sv_tokens registered_server ''at_2'' = None" "sv_refresh_tokens registered_server ''rt_2'' = None"
    "dget ?q ''refresh_token'' = JStr ''rt_1''"
    "sv_refresh_tokens registered_server ''rt_1'' = Some ''sess_1''"
    and a: "sv_tokens registered_server ''at_1'' = Some ''sess_1''"
    by code_simp+
  have g: "require_string ?q ''refresh_token'' = Inr ''rt_1''"
    "optional_positive_int ?q ''access_token_ttl_ms'' DEFAULT_ACCESS_TOKEN_TTL_MS = Inr 3600000"
    "optional_positive_int ?q ''refresh_token_ttl_ms'' DEFAULT_REFRESH_TOKEN_TTL_MS = Inr 2592000000"
    by code_simp+
  have "\<not> isl ?r" by code_simp
  then obtain tr sv' where r: "?r = Inr (tr, sv')" by (cases ?r) auto
  note refresh_rotates_tokens [OF registered_server_ok t r g, of _ _ 10]
    refresh_rotates_tokens [OF registered_server_ok t r g, of _ _ "tr_expires_at_ms tr"]
  then show ?thesis using r a by (intro exI [of _ tr] exI [of _ sv']) simp
qed

end
