(* ===== verification/Server_Blobs.thy ===== *)
theory Server_Blobs
  imports Server_Auth
begin

text \<open>
  Blobs: \<open>FileSystemBlobStore\<close> of \<open>blob_storage.py\<close> and the part of \<open>sync_store.py\<close> that
  issues upload and download permissions, takes single and resumable uploads and serves
  ranges. Bytes are characters; \<open>digest\<close> is the hexadecimal SHA-256 of bytes. The chunk files
  and the objects lie outside the repository: an operation changes them at once, while the
  state is stored only when the operation returns. One clock reading stands for those of a
  request.
\<close>

section \<open>The object store\<close>

datatype storage_error = BlobStorageError int string | StorageRaise py_exn

definition split_path :: "string \<Rightarrow> string list" where
  "split_path s = filter (\<lambda>p. p \<noteq> [])
     (foldr (\<lambda>c parts. if c = CHR ''/'' then [] # parts else (c # hd parts) # tl parts)
       (map (\<lambda>c. if c = char_of (92::nat) then CHR ''/'' else c) s) [[]])"

text \<open>Files below the root directory of the store, by the parts of their path.\<close>

type_synonym objects = "(string list \<times> string) list"

definition path_for_key :: "string \<Rightarrow> storage_error + string list" where
  "path_for_key key = (let parts = split_path key in
     if parts = [] \<or> ''.'' \<in> set parts \<or> ''..'' \<in> set parts
     then Inl (BlobStorageError 400 ''invalid_object_key'') else Inr parts)"

definition proper_prefix :: "'a list \<Rightarrow> 'a list \<Rightarrow> bool" where
  "proper_prefix xs ys \<longleftrightarrow> length xs < length ys \<and> take (length xs) ys = xs"

definition is_directory :: "string list \<Rightarrow> objects \<Rightarrow> bool" where
  "is_directory p os \<longleftrightarrow> list_ex (\<lambda>(q, _). proper_prefix p q) os"

definition below_file :: "string list \<Rightarrow> objects \<Rightarrow> bool" where
  "below_file p os \<longleftrightarrow> list_ex (\<lambda>(q, _). proper_prefix q p) os"

definition put_object :: "string \<Rightarrow> string \<Rightarrow> objects \<Rightarrow> storage_error + objects" where
  "put_object key payload os = rbind (path_for_key key) (\<lambda>p.
     if below_file p os \<or> is_directory p os then Inl (StorageRaise (OSError ''not a directory or a directory''))
     else Inr (AList.update p payload os))"

definition read_object :: "string \<Rightarrow> objects \<Rightarrow> storage_error + string" where
  "read_object key os = rbind (path_for_key key) (\<lambda>p.
     case map_of os p of
       Some b \<Rightarrow> Inr b
     | None \<Rightarrow> if is_directory p os then Inl (StorageRaise (OSError ''is a directory''))
               else Inl (BlobStorageError 404 ''object_not_found''))"

definition read_range :: "string \<Rightarrow> int \<Rightarrow> int \<Rightarrow> objects \<Rightarrow> storage_error + string" where
  "read_range key offset sz os = rbind (read_object key os) (\<lambda>b.
     Inr (take (nat sz) (drop (nat offset) b)))"

text \<open>\<open>urllib.parse.quote(text, safe="")\<close>.\<close>

definition utf8 :: "char \<Rightarrow> nat list" where
  "utf8 c = (let n = of_char c :: nat in if n < 128 then [n] else [192 + n div 64, 128 + n mod 64])"

definition hex_digit :: "nat \<Rightarrow> char" where
  "hex_digit d = (if d < 10 then char_of (48 + d) else char_of (55 + d))"

definition unreserved :: "char \<Rightarrow> bool" where
  "unreserved c \<longleftrightarrow> (let n = of_char c :: nat in 48 \<le> n \<and> n \<le> 57 \<or> 65 \<le> n \<and> n \<le> 90 \<or> 97 \<le> n \<and> n \<le> 122)
     \<or> c \<in> set ''_.-~''"

definition quote :: "string \<Rightarrow> string" where
  "quote s = concat (map (\<lambda>c. if unreserved c then [c]
     else concat (map (\<lambda>b. [CHR ''%'', hex_digit (b div 16), hex_digit (b mod 16)]) (utf8 c))) s)"

definition blob_object_key :: "(string \<Rightarrow> string) \<Rightarrow> string \<Rightarrow> string \<Rightarrow> string" where
  "blob_object_key sha vault_id blob_id = ''vaults/'' @ quote vault_id @ ''/blobs/'' @ sha blob_id"

definition chunk_filename :: "(string \<Rightarrow> string) \<Rightarrow> string \<Rightarrow> string \<Rightarrow> string" where
  "chunk_filename sha session_id chunk_id = sha (session_id @ '':'' @ chunk_id)"

definition sha256_payload :: "(string \<Rightarrow> string) \<Rightarrow> string \<Rightarrow> string" where
  "sha256_payload digest payload = ''sha256:'' @ digest payload"

section \<open>Operations on state and files\<close>

record disk =
  dk_objects :: objects
  dk_chunks :: "string \<rightharpoonup> string"

type_synonym 'a blob_op = "server \<times> disk \<Rightarrow> (server_error + 'a) \<times> server \<times> disk"

text \<open>The value and state of a request that went through, or the error, the stored state as it
  was and the files as they are.\<close>

definition commit_state :: "server \<Rightarrow> (server_error + 'a \<times> server) \<times> disk \<Rightarrow> (server_error + 'a) \<times> server \<times> disk" where
  "commit_state sv r = (case r of
     (Inl e, dk) \<Rightarrow> (Inl e, sv, dk)
   | (Inr (x, sv'), dk) \<Rightarrow> (Inr x, sv', dk))"

definition storage_capability_error :: "storage_error \<Rightarrow> server_error" where
  "storage_capability_error e = (case e of
     BlobStorageError status code \<Rightarrow> BlobCapabilityError status code | StorageRaise x \<Rightarrow> PyRaise x)"

definition storage_sync_error :: "storage_error \<Rightarrow> server_error" where
  "storage_sync_error e = (case e of
     BlobStorageError status code \<Rightarrow> SyncStoreError code ''object storage'' | StorageRaise x \<Rightarrow> PyRaise x)"

definition validate_vault_id :: "string \<Rightarrow> unit sresult" where
  "validate_vault_id vault_id = (if vault_id = []
     then Inl (SyncStoreError ''invalid_vault_id'' ''vault_id must be non-empty'') else Inr ())"

definition require_items :: "dict \<Rightarrow> string \<Rightarrow> json list sresult" where
  "require_items d k = (case dget d k of
     JArr (v # vs) \<Rightarrow> Inr (v # vs)
   | _ \<Rightarrow> Inl (invalid_request (k @ '' must be a non-empty list'')))"

definition require_object :: "string \<Rightarrow> json \<Rightarrow> dict sresult" where
  "require_object k v = (case v of
     JObj d \<Rightarrow> Inr d | _ \<Rightarrow> Inl (invalid_request (k @ '' items must be objects'')))"

definition rstrip_slash :: "string \<Rightarrow> string" where
  "rstrip_slash s = rev (dropWhile (\<lambda>c. c = CHR ''/'') (rev s))"

definition capability_url :: "string \<Rightarrow> string \<Rightarrow> string" where
  "capability_url base token = rstrip_slash base @ ''/_capabilities/blobs/'' @ token"

definition resumable_upload_url :: "string \<Rightarrow> string \<Rightarrow> string" where
  "resumable_upload_url base session_id =
     rstrip_slash base @ ''/_capabilities/blobs/resumable-upload/'' @ session_id"

definition resumable_download_url :: "string \<Rightarrow> string \<Rightarrow> string" where
  "resumable_download_url base token =
     rstrip_slash base @ ''/_capabilities/blobs/resumable-download/'' @ token"

definition CAPABILITY_TTL_MS :: int where "CAPABILITY_TTL_MS = 15 * 60 * 1000"

section \<open>Single uploads\<close>

record upload_ticket =
  ut_blob_id :: string
  ut_upload_url :: string

definition upload_capability ::
  "(string \<Rightarrow> string) \<Rightarrow> string \<Rightarrow> string option \<Rightarrow> int \<Rightarrow> json \<Rightarrow> capability sresult" where
  "upload_capability sha vault_id device_id now v =
     rbind (require_object ''blobs'' v) (\<lambda>d.
     rbind (require_string d ''blob_id'') (\<lambda>blob_id.
     rbind (require_non_negative_int d ''encrypted_size'') (\<lambda>encrypted_size.
     rbind (require_string d ''content_hash'') (\<lambda>content_hash.
     rbind (optional_text d ''encrypted_sha256'') (\<lambda>encrypted_sha256.
     Inr \<lparr>cp_kind = Upload encrypted_size content_hash (blob_object_key sha vault_id blob_id) encrypted_sha256,
          cp_vault_id = vault_id, cp_blob_id = blob_id, cp_device_id = device_id,
          cp_expires_at_ms = now + CAPABILITY_TTL_MS\<rparr>)))))"

fun issue_capabilities ::
  "(json \<Rightarrow> capability sresult) \<Rightarrow> string list \<Rightarrow> json list \<Rightarrow> (string \<times> capability) list handler" where
  "issue_capabilities f tokens [] sv = Inr ([], sv)"
| "issue_capabilities f tokens (v # vs) sv =
     rbind (f v) (\<lambda>c.
     rbind (issue_capabilities f (tl tokens) vs
       (sv\<lparr>sv_capabilities := (sv_capabilities sv)(hd tokens \<mapsto> c)\<rparr>)) (\<lambda>(cs, sv').
     Inr ((hd tokens, c) # cs, sv')))"

text \<open>\<open>tokens\<close> are the tokens drawn, one per item.\<close>

definition init_blob_upload ::
  "(string \<Rightarrow> string) \<Rightarrow> string \<Rightarrow> dict \<Rightarrow> string \<Rightarrow> string option \<Rightarrow> string list \<Rightarrow> int \<Rightarrow>
     upload_ticket list handler" where
  "init_blob_upload sha vault_id payload base device_id tokens now sv =
     rbind (validate_vault_id vault_id) (\<lambda>_.
     rbind (require_items payload ''blobs'') (\<lambda>items.
     rbind (issue_capabilities (upload_capability sha vault_id device_id now) tokens items sv) (\<lambda>(cs, sv').
     Inr (map (\<lambda>(t, c). \<lparr>ut_blob_id = cp_blob_id c, ut_upload_url = capability_url base t\<rparr>) cs, sv'))))"

text \<open>\<open>_consume_capability\<close> takes the capability out of the state; whether that is stored depends
  on what the caller does next.\<close>

definition kind_matches :: "string \<Rightarrow> capability_kind \<Rightarrow> bool" where
  "kind_matches expected k = (case k of
     Upload _ _ _ _ \<Rightarrow> expected = ''upload''
   | Download \<Rightarrow> expected = ''download''
   | ResumableDownload _ \<Rightarrow> expected = ''resumable_download'')"

definition get_capability :: "string \<Rightarrow> string \<Rightarrow> int \<Rightarrow> server \<Rightarrow> capability sresult" where
  "get_capability token expected now sv = (case sv_capabilities sv token of
     None \<Rightarrow> Inl (BlobCapabilityError 404 ''capability_not_found'')
   | Some c \<Rightarrow>
       if \<not> kind_matches expected (cp_kind c) then Inl (BlobCapabilityError 403 ''capability_wrong_kind'')
       else if cp_expires_at_ms c < now then Inl (BlobCapabilityError 403 ''capability_expired'')
       else Inr c)"

definition consume_capability :: "string \<Rightarrow> string \<Rightarrow> int \<Rightarrow> capability handler" where
  "consume_capability token expected now sv =
     rbind (get_capability token expected now sv) (\<lambda>c.
     Inr (c, sv\<lparr>sv_capabilities := (sv_capabilities sv)(token := None)\<rparr>))"

definition available_blob :: "string \<Rightarrow> string \<Rightarrow> string \<Rightarrow> string \<Rightarrow> int \<Rightarrow> string \<Rightarrow> blob" where
  "available_blob vault_id object_key content_hash encrypted_sha256 now payload =
     \<lparr>bl_vault_id = vault_id, bl_object_key = object_key, bl_storage_backend = ''local'',
      bl_encrypted_size = int (length payload), bl_content_hash = content_hash,
      bl_encrypted_sha256 = encrypted_sha256, bl_uploaded_at_ms = now\<rparr>"

definition complete_blob_upload ::
  "(string \<Rightarrow> string) \<Rightarrow> string \<Rightarrow> string \<Rightarrow> int \<Rightarrow> unit blob_op" where
  "complete_blob_upload digest token payload now = (\<lambda>(sv, dk). commit_state sv
     (case consume_capability token ''upload'' now sv of
       Inl e \<Rightarrow> (Inl e, dk)
     | Inr (c, sv') \<Rightarrow> (case cp_kind c of
         Upload expected_size content_hash object_key expected_sha256 \<Rightarrow>
           if int (length payload) \<noteq> expected_size
           then (Inl (BlobCapabilityError 400 ''blob_size_mismatch''), dk)
           else let encrypted_sha256 = sha256_payload digest payload in
             if expected_sha256 \<noteq> None \<and> expected_sha256 \<noteq> Some encrypted_sha256
             then (Inl (BlobCapabilityError 400 ''blob_hash_mismatch''), dk)
             else (case put_object object_key payload (dk_objects dk) of
                 Inl e \<Rightarrow> (Inl (storage_capability_error e), dk)
               | Inr os \<Rightarrow> (Inr ((), sv'\<lparr>sv_blobs := (sv_blobs sv')(cp_blob_id c \<mapsto>
                     available_blob (cp_vault_id c) object_key content_hash encrypted_sha256 now payload)\<rparr>),
                   dk\<lparr>dk_objects := os\<rparr>))
       | _ \<Rightarrow> (Inl (BlobCapabilityError 403 ''capability_wrong_kind''), dk))))"

section \<open>Downloads\<close>

record download_ticket =
  dt_blob_id :: string
  dt_download_url :: string
  dt_encrypted_size :: int
  dt_ranges :: "(int \<times> int) list"

definition blob_not_found :: server_error where
  "blob_not_found = BlobCapabilityError 404 ''blob_not_found''"

fun issue_downloads ::
  "(string \<Rightarrow> blob \<Rightarrow> capability_kind sresult) \<Rightarrow> string \<Rightarrow> string option \<Rightarrow> (string \<Rightarrow> string) \<Rightarrow> int \<Rightarrow>
     string list \<Rightarrow> string list \<Rightarrow> download_ticket list handler" where
  "issue_downloads kind vault_id device_id url now tokens [] sv = Inr ([], sv)"
| "issue_downloads kind vault_id device_id url now tokens (b # bs) sv = (case sv_blobs sv b of
     None \<Rightarrow> Inl (SyncStoreError ''blob_not_found'' (''Blob was not found: '' @ b))
   | Some bl \<Rightarrow>
       rbind (kind b bl) (\<lambda>k.
       let c = \<lparr>cp_kind = k, cp_vault_id = vault_id, cp_blob_id = b, cp_device_id = device_id,
             cp_expires_at_ms = now + CAPABILITY_TTL_MS\<rparr> in
       rbind (issue_downloads kind vault_id device_id url now (tl tokens) bs
         (sv\<lparr>sv_capabilities := (sv_capabilities sv)(hd tokens \<mapsto> c)\<rparr>)) (\<lambda>(ts, sv').
       Inr (\<lparr>dt_blob_id = b, dt_download_url = url (hd tokens), dt_encrypted_size = bl_encrypted_size bl,
              dt_ranges = (case k of ResumableDownload rs \<Rightarrow> rs | _ \<Rightarrow> [])\<rparr> # ts, sv'))))"

definition init_blob_download ::
  "string \<Rightarrow> dict \<Rightarrow> string \<Rightarrow> string option \<Rightarrow> string list \<Rightarrow> int \<Rightarrow> download_ticket list handler" where
  "init_blob_download vault_id payload base device_id tokens now sv =
     rbind (validate_vault_id vault_id) (\<lambda>_.
     rbind (require_unique_strings payload ''blob_ids'') (\<lambda>blob_ids.
     case filter (\<lambda>b. sv_blobs sv b = None) blob_ids of
       b # _ \<Rightarrow> Inl (SyncStoreError ''blob_not_found'' (''Blob was not found: '' @ b))
     | [] \<Rightarrow> issue_downloads (\<lambda>_ _. Inr Download) vault_id device_id (capability_url base) now tokens
               blob_ids sv))"

definition resolve_range :: "int \<Rightarrow> json \<Rightarrow> (int \<times> int) sresult" where
  "resolve_range encrypted_size v = (case v of
     JObj d \<Rightarrow>
       rbind (require_non_negative_int d ''offset'') (\<lambda>offset.
       rbind (require_positive_int d ''size'') (\<lambda>sz.
       if offset + sz > encrypted_size
       then Inl (SyncStoreError ''invalid_range'' ''download range exceeds blob encrypted_size'')
       else Inr (offset, sz)))
   | _ \<Rightarrow> Inl (SyncStoreError ''invalid_range'' ''ranges items must be objects''))"

definition resolve_download_ranges :: "json \<Rightarrow> int \<Rightarrow> (int \<times> int) list sresult" where
  "resolve_download_ranges ranges_payload encrypted_size =
     (if encrypted_size = 0 then Inr []
      else case ranges_payload of
        JNull \<Rightarrow> Inr [(0, encrypted_size)]
      | JArr (v # vs) \<Rightarrow> mapM (resolve_range encrypted_size) (v # vs)
      | _ \<Rightarrow> Inl (SyncStoreError ''invalid_range'' ''ranges must be a non-empty list when provided''))"

definition range_is_authorized :: "(int \<times> int) list \<Rightarrow> int \<Rightarrow> int \<Rightarrow> bool" where
  "range_is_authorized ranges offset sz = list_ex (\<lambda>(allowed_offset, allowed_size).
     offset \<ge> allowed_offset \<and> offset + sz \<le> allowed_offset + allowed_size) ranges"

text \<open>The blobs a request names, each once, with what it asks of them.\<close>

fun named_blobs :: "string list \<Rightarrow> json list \<Rightarrow> (string \<times> dict) list sresult" where
  "named_blobs seen [] = Inr []"
| "named_blobs seen (v # vs) =
     rbind (require_object ''blobs'' v) (\<lambda>d.
     rbind (require_string d ''blob_id'') (\<lambda>b.
     if b \<in> set seen then Inl (invalid_request ''blob_id values must be unique'')
     else rbind (named_blobs (b # seen) vs) (\<lambda>bs. Inr ((b, d) # bs))))"

definition init_resumable_blob_download ::
  "string \<Rightarrow> dict \<Rightarrow> string \<Rightarrow> string option \<Rightarrow> string list \<Rightarrow> int \<Rightarrow> download_ticket list handler" where
  "init_resumable_blob_download vault_id payload base device_id tokens now sv =
     rbind (validate_vault_id vault_id) (\<lambda>_.
     rbind (require_items payload ''blobs'') (\<lambda>items.
     rbind (named_blobs [] items) (\<lambda>blobs.
     issue_downloads (\<lambda>b bl. rbind (resolve_download_ranges
           (case map_of blobs b of Some d \<Rightarrow> dget d ''ranges'' | None \<Rightarrow> JNull) (bl_encrypted_size bl))
         (\<lambda>rs. Inr (ResumableDownload rs)))
       vault_id device_id (resumable_download_url base) now tokens (map fst blobs) sv)))"

definition read_blob_download :: "string \<Rightarrow> int \<Rightarrow> string blob_op" where
  "read_blob_download token now = (\<lambda>(sv, dk). commit_state sv
     (case consume_capability token ''download'' now sv of
       Inl e \<Rightarrow> (Inl e, dk)
     | Inr (c, sv') \<Rightarrow> (case sv_blobs sv (cp_blob_id c) of
         None \<Rightarrow> (Inl blob_not_found, dk)
       | Some bl \<Rightarrow> (case read_object (bl_object_key bl) (dk_objects dk) of
           Inl e \<Rightarrow> (Inl (storage_capability_error e), dk)
         | Inr b \<Rightarrow> (Inr (b, sv'), dk)))))"

definition read_resumable_blob_download :: "string \<Rightarrow> int \<Rightarrow> int \<Rightarrow> int \<Rightarrow> string blob_op" where
  "read_resumable_blob_download token offset sz now = (\<lambda>(sv, dk). commit_state sv
     (if offset < 0 \<or> sz \<le> 0 then (Inl (BlobCapabilityError 400 ''invalid_range''), dk)
      else case get_capability token ''resumable_download'' now sv of
        Inl e \<Rightarrow> (Inl e, dk)
      | Inr c \<Rightarrow>
          if \<not> range_is_authorized (case cp_kind c of ResumableDownload rs \<Rightarrow> rs | _ \<Rightarrow> []) offset sz
          then (Inl (BlobCapabilityError 403 ''range_not_authorized''), dk)
          else (case sv_blobs sv (cp_blob_id c) of
              None \<Rightarrow> (Inl blob_not_found, dk)
            | Some bl \<Rightarrow> (case read_range (bl_object_key bl) offset sz (dk_objects dk) of
                Inl e \<Rightarrow> (Inl (storage_capability_error e), dk)
              | Inr b \<Rightarrow>
                  if int (length b) \<noteq> sz then (Inl (BlobCapabilityError 416 ''range_not_satisfiable''), dk)
                  else (Inr (b, sv), dk)))))"

section \<open>Resumable uploads\<close>

record upload_request =
  rq_blob_id :: string
  rq_encrypted_size :: int
  rq_content_hash :: string
  rq_encrypted_sha256 :: string
  rq_chunk_size :: int
  rq_chunks :: "chunk list"

definition parse_chunk :: "json \<Rightarrow> chunk sresult" where
  "parse_chunk v =
     rbind (require_object ''chunks'' v) (\<lambda>d.
     rbind (require_string d ''chunk_id'') (\<lambda>i.
     rbind (require_non_negative_int d ''offset'') (\<lambda>offset.
     rbind (require_non_negative_int d ''size'') (\<lambda>sz.
     Inr \<lparr>ch_chunk_id = i, ch_offset = offset, ch_size = sz\<rparr>))))"

definition require_blob_chunks ::
  "(string \<Rightarrow> string) \<Rightarrow> dict \<Rightarrow> string \<Rightarrow> int \<Rightarrow> int \<Rightarrow> chunk list sresult" where
  "require_blob_chunks sha d blob_id encrypted_size chunk_size =
     rbind (blob_chunks sha blob_id encrypted_size chunk_size) (\<lambda>expected.
     case dget d ''chunks'' of
       JNull \<Rightarrow> Inr expected
     | JArr (v # vs) \<Rightarrow> rbind (mapM parse_chunk (v # vs)) (\<lambda>chunks.
         if chunks \<noteq> expected
         then Inl (invalid_request ''chunks must match blob_id, encrypted_size, and chunk_size'')
         else Inr chunks)
     | _ \<Rightarrow> Inl (invalid_request ''chunks must be a non-empty list''))"

fun parse_upload_requests :: "(string \<Rightarrow> string) \<Rightarrow> string list \<Rightarrow> json list \<Rightarrow> upload_request list sresult" where
  "parse_upload_requests sha seen [] = Inr []"
| "parse_upload_requests sha seen (v # vs) =
     rbind (require_object ''blobs'' v) (\<lambda>d.
     rbind (require_string d ''blob_id'') (\<lambda>b.
     if b \<in> set seen then Inl (invalid_request ''blob_id values must be unique'')
     else rbind (require_non_negative_int d ''encrypted_size'') (\<lambda>n.
     rbind (require_string d ''content_hash'') (\<lambda>h.
     rbind (require_string d ''encrypted_sha256'') (\<lambda>e.
     rbind (require_positive_int d ''chunk_size'') (\<lambda>k.
     rbind (require_blob_chunks sha d b n k) (\<lambda>cs.
     rbind (parse_upload_requests sha (b # seen) vs) (\<lambda>rs.
     Inr (\<lparr>rq_blob_id = b, rq_encrypted_size = n, rq_content_hash = h, rq_encrypted_sha256 = e,
            rq_chunk_size = k, rq_chunks = cs\<rparr> # rs)))))))))"

definition validate_existing_blob_metadata ::
  "blob \<Rightarrow> int \<Rightarrow> string option \<Rightarrow> string \<Rightarrow> unit sresult" where
  "validate_existing_blob_metadata bl encrypted_size content_hash encrypted_sha256 =
     (if bl_encrypted_size bl \<noteq> encrypted_size
      then Inl (SyncStoreError ''blob_metadata_mismatch''
        ''Existing blob encrypted_size does not match request'')
      else if content_hash \<noteq> None \<and> content_hash \<noteq> Some (bl_content_hash bl)
      then Inl (SyncStoreError ''blob_metadata_mismatch''
        ''Existing blob content_hash does not match request'')
      else if bl_encrypted_sha256 bl \<noteq> encrypted_sha256
      then Inl (SyncStoreError ''blob_metadata_mismatch''
        ''Existing blob encrypted_sha256 does not match request'')
      else Inr ())"

definition delete_session_chunk_files :: "upload_session \<Rightarrow> disk \<Rightarrow> disk" where
  "delete_session_chunk_files up dk = dk\<lparr>dk_chunks :=
     (\<lambda>f. if f \<in> set (map snd (up_chunk_files up)) then None else dk_chunks dk f)\<rparr>"

definition purge_expired_uploads :: "int \<Rightarrow> server \<times> disk \<Rightarrow> server \<times> disk" where
  "purge_expired_uploads now = (\<lambda>(sv, dk).
     (sv\<lparr>sv_uploads := filter (\<lambda>(_, up). \<not> up_expires_at_ms up < now) (sv_uploads sv)\<rparr>,
      fold (\<lambda>(_, up) dk. if up_expires_at_ms up < now then delete_session_chunk_files up dk else dk)
        (sv_uploads sv) dk))"

definition session_serves ::
  "string \<Rightarrow> upload_request \<Rightarrow> string option \<Rightarrow> int \<Rightarrow> upload_session \<Rightarrow> bool" where
  "session_serves vault_id rq device_id now up \<longleftrightarrow> \<not> up_expires_at_ms up < now
     \<and> up_vault_id up = vault_id \<and> up_blob_id up = rq_blob_id rq
     \<and> up_encrypted_size up = rq_encrypted_size rq \<and> up_content_hash up = rq_content_hash rq
     \<and> up_encrypted_sha256 up = rq_encrypted_sha256 rq \<and> up_chunk_size up = rq_chunk_size rq
     \<and> up_device_id up = device_id"

definition find_upload_session ::
  "string \<Rightarrow> upload_request \<Rightarrow> string option \<Rightarrow> int \<Rightarrow> server \<Rightarrow> (string \<times> upload_session) option" where
  "find_upload_session vault_id rq device_id now sv =
     List.find (\<lambda>(_, up). session_serves vault_id rq device_id now up) (sv_uploads sv)"

definition new_upload_session ::
  "string \<Rightarrow> upload_request \<Rightarrow> string option \<Rightarrow> bool \<Rightarrow> int \<Rightarrow> upload_session" where
  "new_upload_session vault_id rq device_id blob_exists now =
     \<lparr>up_vault_id = vault_id, up_blob_id = rq_blob_id rq, up_encrypted_size = rq_encrypted_size rq,
      up_content_hash = rq_content_hash rq, up_encrypted_sha256 = rq_encrypted_sha256 rq,
      up_chunk_size = rq_chunk_size rq, up_chunks = rq_chunks rq,
      up_uploaded_chunk_ids = (if blob_exists then map ch_chunk_id (rq_chunks rq) else []),
      up_chunk_files = [], up_device_id = device_id, up_expires_at_ms = now + CAPABILITY_TTL_MS,
      up_created_at_ms = now, up_updated_at_ms = now\<rparr>"

record upload_plan_entry =
  ue_blob_id :: string
  ue_session_id :: string
  ue_upload_url :: string
  ue_chunk_size :: int
  ue_encrypted_size :: int
  ue_uploaded_chunks :: "chunk list"
  ue_missing_chunks :: "chunk list"

definition resumable_upload_capability :: "upload_session \<Rightarrow> string \<Rightarrow> string \<Rightarrow> upload_plan_entry" where
  "resumable_upload_capability up session_id base =
     (let uploaded = filter (\<lambda>i. i \<noteq> []) (up_uploaded_chunk_ids up) in
      \<lparr>ue_blob_id = up_blob_id up, ue_session_id = session_id,
       ue_upload_url = resumable_upload_url base session_id, ue_chunk_size = up_chunk_size up,
       ue_encrypted_size = up_encrypted_size up,
       ue_uploaded_chunks = filter (\<lambda>c. ch_chunk_id c \<in> set uploaded) (up_chunks up),
       ue_missing_chunks = filter (\<lambda>c. ch_chunk_id c \<notin> set uploaded) (up_chunks up)\<rparr>)"

fun open_upload_sessions ::
  "string \<Rightarrow> string \<Rightarrow> string option \<Rightarrow> string list \<Rightarrow> int \<Rightarrow> upload_request list \<Rightarrow>
     upload_plan_entry list handler" where
  "open_upload_sessions vault_id base device_id fresh now [] sv = Inr ([], sv)"
| "open_upload_sessions vault_id base device_id fresh now (rq # rqs) sv =
     rbind (case sv_blobs sv (rq_blob_id rq) of
         None \<Rightarrow> Inr ()
       | Some bl \<Rightarrow> validate_existing_blob_metadata bl (rq_encrypted_size rq) (Some (rq_content_hash rq))
           (rq_encrypted_sha256 rq)) (\<lambda>_.
     let (session_id, up) = (case find_upload_session vault_id rq device_id now sv of
           Some (i, up) \<Rightarrow> (i, up\<lparr>up_updated_at_ms := now\<rparr>)
         | None \<Rightarrow> (hd fresh, new_upload_session vault_id rq device_id
             (sv_blobs sv (rq_blob_id rq) \<noteq> None) now)) in
     rbind (open_upload_sessions vault_id base device_id (tl fresh) now rqs
         (sv\<lparr>sv_uploads := AList.update session_id up (sv_uploads sv)\<rparr>)) (\<lambda>(es, sv').
     Inr (resumable_upload_capability up session_id base # es, sv')))"

definition init_resumable_blob_upload ::
  "(string \<Rightarrow> string) \<Rightarrow> string \<Rightarrow> dict \<Rightarrow> string \<Rightarrow> string option \<Rightarrow> string list \<Rightarrow> int \<Rightarrow>
     upload_plan_entry list blob_op" where
  "init_resumable_blob_upload sha vault_id payload base device_id fresh now = (\<lambda>(sv, dk). commit_state sv
     (case rbind (validate_vault_id vault_id) (\<lambda>_. rbind (require_items payload ''blobs'')
         (parse_upload_requests sha [])) of
       Inl e \<Rightarrow> (Inl e, dk)
     | Inr rqs \<Rightarrow> let (sv1, dk1) = purge_expired_uploads now (sv, dk) in
         (open_upload_sessions vault_id base device_id fresh now rqs sv1, dk1)))"

definition session_chunk_by_id :: "upload_session \<Rightarrow> string \<Rightarrow> chunk option" where
  "session_chunk_by_id up chunk_id = List.find (\<lambda>c. ch_chunk_id c = chunk_id) (up_chunks up)"

definition put_resumable_blob_chunk ::
  "(string \<Rightarrow> string) \<Rightarrow> string \<Rightarrow> string \<Rightarrow> int \<Rightarrow> int \<Rightarrow> string \<Rightarrow> int \<Rightarrow> unit blob_op" where
  "put_resumable_blob_chunk sha session_id chunk_id offset sz payload now = (\<lambda>(sv, dk). commit_state sv
     (if session_id = [] then (Inl (BlobCapabilityError 404 ''resumable_upload_session_not_found''), dk)
      else if chunk_id = [] then (Inl (BlobCapabilityError 400 ''invalid_chunk''), dk)
      else if offset < 0 \<or> sz < 0 then (Inl (BlobCapabilityError 400 ''invalid_chunk''), dk)
      else if int (length payload) \<noteq> sz then (Inl (BlobCapabilityError 400 ''chunk_size_mismatch''), dk)
      else case map_of (sv_uploads sv) session_id of
        None \<Rightarrow> (Inl (BlobCapabilityError 404 ''resumable_upload_session_not_found''), dk)
      | Some up \<Rightarrow>
          if up_expires_at_ms up < now
          then (Inl (BlobCapabilityError 403 ''resumable_upload_session_expired''), dk)
          else (case session_chunk_by_id up chunk_id of
              None \<Rightarrow> (Inl (BlobCapabilityError 400 ''chunk_not_found''), dk)
            | Some c \<Rightarrow>
                if ch_offset c \<noteq> offset \<or> ch_size c \<noteq> sz
                then (Inl (BlobCapabilityError 400 ''chunk_range_mismatch''), dk)
                else let f = chunk_filename sha session_id chunk_id;
                         ids = filter (\<lambda>i. i \<noteq> []) (up_uploaded_chunk_ids up);
                         up' = up\<lparr>up_chunk_files := AList.update chunk_id f (up_chunk_files up),
                           up_uploaded_chunk_ids := (if chunk_id \<in> set ids then ids else ids @ [chunk_id]),
                           up_updated_at_ms := now\<rparr> in
                  (Inr ((), sv\<lparr>sv_uploads := AList.update session_id up' (sv_uploads sv)\<rparr>),
                   dk\<lparr>dk_chunks := (dk_chunks dk)(f \<mapsto> payload)\<rparr>))))"

subsection \<open>Completion\<close>

record complete_request =
  cq_blob_id :: string
  cq_session_id :: string
  cq_encrypted_size :: int
  cq_encrypted_sha256 :: string
  cq_uploaded_chunk_ids :: "string list"

fun parse_complete_requests :: "string list \<Rightarrow> json list \<Rightarrow> complete_request list sresult" where
  "parse_complete_requests seen [] = Inr []"
| "parse_complete_requests seen (v # vs) =
     rbind (require_object ''uploads'' v) (\<lambda>d.
     rbind (require_string d ''blob_id'') (\<lambda>b.
     rbind (require_string d ''session_id'') (\<lambda>s.
     if s \<in> set seen then Inl (invalid_request ''session_id values must be unique'')
     else rbind (require_unique_strings d ''uploaded_chunk_ids'') (\<lambda>ids.
     rbind (require_non_negative_int d ''encrypted_size'') (\<lambda>n.
     rbind (require_string d ''encrypted_sha256'') (\<lambda>e.
     rbind (parse_complete_requests (s # seen) vs) (\<lambda>rs.
     Inr (\<lparr>cq_blob_id = b, cq_session_id = s, cq_encrypted_size = n, cq_encrypted_sha256 = e,
            cq_uploaded_chunk_ids = ids\<rparr> # rs))))))))"

datatype upload_result =
    AlreadyExists string
  | Incomplete string "chunk list"
  | Accepted string

definition chunk_missing :: "upload_session \<Rightarrow> disk \<Rightarrow> chunk \<Rightarrow> bool" where
  "chunk_missing up dk c \<longleftrightarrow> ch_chunk_id c \<notin> set (filter (\<lambda>i. i \<noteq> []) (up_uploaded_chunk_ids up))
     \<or> 0 < ch_size c \<and> (case map_of (up_chunk_files up) (ch_chunk_id c) of
         None \<Rightarrow> True | Some f \<Rightarrow> dk_chunks dk f = None)"

definition missing_session_chunks :: "upload_session \<Rightarrow> disk \<Rightarrow> chunk list" where
  "missing_session_chunks up dk = filter (chunk_missing up dk) (up_chunks up)"

definition validate_resumable_complete_request ::
  "string \<Rightarrow> upload_session \<Rightarrow> complete_request \<Rightarrow> unit sresult" where
  "validate_resumable_complete_request vault_id up cq =
     (let mismatch = (\<lambda>m. Inl (SyncStoreError ''resumable_upload_session_mismatch''
            (''Resumable upload session '' @ m @ '' does not match request''))) in
      if up_vault_id up \<noteq> vault_id then mismatch ''vault''
      else if up_blob_id up \<noteq> cq_blob_id cq then mismatch ''blob_id''
      else if up_encrypted_size up \<noteq> cq_encrypted_size cq then mismatch ''encrypted_size''
      else if up_encrypted_sha256 up \<noteq> cq_encrypted_sha256 cq then mismatch ''encrypted_sha256''
      else if \<not> set (cq_uploaded_chunk_ids cq) \<subseteq> set (map ch_chunk_id (up_chunks up))
      then Inl (invalid_request ''uploaded_chunk_ids contains unknown chunks'')
      else Inr ())"

fun gather_chunks :: "upload_session \<Rightarrow> disk \<Rightarrow> chunk list \<Rightarrow> string sresult" where
  "gather_chunks up dk [] = Inr []"
| "gather_chunks up dk (c # cs) =
     (if ch_size c = 0 then gather_chunks up dk cs
      else case map_of (up_chunk_files up) (ch_chunk_id c) of
        None \<Rightarrow> Inl (SyncStoreError ''resumable_upload_incomplete''
          ''Resumable upload is missing chunk payloads'')
      | Some f \<Rightarrow> (case dk_chunks dk f of
          None \<Rightarrow> Inl (PyRaise (OSError f))
        | Some b \<Rightarrow>
            if int (length b) \<noteq> ch_size c
            then Inl (SyncStoreError ''chunk_size_mismatch''
              ''Stored chunk size does not match session metadata'')
            else rbind (gather_chunks up dk cs) (\<lambda>r. Inr (b @ r))))"

definition finalize_resumable_upload_blob ::
  "(string \<Rightarrow> string) \<Rightarrow> (string \<Rightarrow> string) \<Rightarrow> string \<Rightarrow> upload_session \<Rightarrow> int \<Rightarrow> server \<times> disk \<Rightarrow>
     (server_error + server) \<times> disk" where
  "finalize_resumable_upload_blob sha digest session_id up now = (\<lambda>(sv, dk).
     case gather_chunks up dk (sort_key ch_offset (up_chunks up)) of
       Inl e \<Rightarrow> (Inl e, dk)
     | Inr payload \<Rightarrow>
         if int (length payload) \<noteq> up_encrypted_size up
         then (Inl (SyncStoreError ''blob_size_mismatch''
           ''Uploaded blob size does not match session metadata''), dk)
         else let encrypted_sha256 = sha256_payload digest payload in
           if encrypted_sha256 \<noteq> up_encrypted_sha256 up
           then (Inl (SyncStoreError ''blob_hash_mismatch''
             ''Uploaded blob encrypted_sha256 does not match session metadata''), dk)
           else let key = blob_object_key sha (up_vault_id up) (up_blob_id up) in
             (case put_object key payload (dk_objects dk) of
               Inl e \<Rightarrow> (Inl (storage_sync_error e), dk)
             | Inr os \<Rightarrow>
                 (Inr (sv\<lparr>sv_blobs := (sv_blobs sv)(up_blob_id up \<mapsto>
                        available_blob (up_vault_id up) key (up_content_hash up) encrypted_sha256 now payload),
                      sv_uploads := AList.delete session_id (sv_uploads sv)\<rparr>),
                  delete_session_chunk_files up (dk\<lparr>dk_objects := os\<rparr>))))"

definition complete_one_upload ::
  "(string \<Rightarrow> string) \<Rightarrow> (string \<Rightarrow> string) \<Rightarrow> string \<Rightarrow> int \<Rightarrow> complete_request \<Rightarrow> server \<times> disk \<Rightarrow>
     (server_error + upload_result \<times> server) \<times> disk" where
  "complete_one_upload sha digest vault_id now cq = (\<lambda>(sv, dk).
     case sv_blobs sv (cq_blob_id cq) of
       Some bl \<Rightarrow> (rbind (validate_existing_blob_metadata bl (cq_encrypted_size cq) None (cq_encrypted_sha256 cq))
           (\<lambda>_. Inr (AlreadyExists (cq_blob_id cq), sv)), dk)
     | None \<Rightarrow> (case map_of (sv_uploads sv) (cq_session_id cq) of
         None \<Rightarrow> (Inl (SyncStoreError ''resumable_upload_session_not_found''
           ''Resumable upload session was not found.''), dk)
       | Some up \<Rightarrow> (case validate_resumable_complete_request vault_id up cq of
           Inl e \<Rightarrow> (Inl e, dk)
         | Inr _ \<Rightarrow>
             if missing_session_chunks up dk \<noteq> []
             then (Inr (Incomplete (cq_blob_id cq) (missing_session_chunks up dk), sv), dk)
             else (case finalize_resumable_upload_blob sha digest (cq_session_id cq) up now (sv, dk) of
                 (Inl e, dk') \<Rightarrow> (Inl e, dk')
               | (Inr sv', dk') \<Rightarrow> (Inr (Accepted (cq_blob_id cq), sv'), dk')))))"

fun complete_uploads ::
  "(complete_request \<Rightarrow> server \<times> disk \<Rightarrow> (server_error + upload_result \<times> server) \<times> disk) \<Rightarrow>
     complete_request list \<Rightarrow> server \<times> disk \<Rightarrow> (server_error + upload_result list \<times> server) \<times> disk" where
  "complete_uploads f [] (sv, dk) = (Inr ([], sv), dk)"
| "complete_uploads f (cq # cqs) (sv, dk) = (case f cq (sv, dk) of
     (Inl e, dk') \<Rightarrow> (Inl e, dk')
   | (Inr (r, sv'), dk') \<Rightarrow> (case complete_uploads f cqs (sv', dk') of
       (Inl e, dk'') \<Rightarrow> (Inl e, dk'')
     | (Inr (rs, sv''), dk'') \<Rightarrow> (Inr (r # rs, sv''), dk'')))"

definition complete_resumable_blob_upload ::
  "(string \<Rightarrow> string) \<Rightarrow> (string \<Rightarrow> string) \<Rightarrow> string \<Rightarrow> dict \<Rightarrow> int \<Rightarrow> upload_result list blob_op" where
  "complete_resumable_blob_upload sha digest vault_id payload now = (\<lambda>(sv, dk). commit_state sv
     (case rbind (validate_vault_id vault_id) (\<lambda>_. rbind (require_items payload ''uploads'')
         (parse_complete_requests [])) of
       Inl e \<Rightarrow> (Inl e, dk)
     | Inr cqs \<Rightarrow> complete_uploads (complete_one_upload sha digest vault_id now) cqs
         (purge_expired_uploads now (sv, dk))))"

end
