(* ===== verification/Server_Devices.thy ===== *)
theory Server_Devices
  imports Server_GC Server_Versions Server_Auth Server_Blobs
begin

text \<open>
  Devices of a vault: the listing a client shows, and the removal of a device, which revokes it,
  ends its sessions, takes its permissions and uploads back, and collects the tombstones it was
  holding up. Nothing later in the life of the server lets a removed device in again.
\<close>

section \<open>The devices of a vault\<close>

record vault_device =
  vd_device_id :: string
  vd_device_name :: string
  vd_platform :: string
  vd_app_version :: "string option"
  vd_protocol_version :: string
  vd_registered_at_ms :: "int option"
  vd_last_seen_at_ms :: "int option"
  vd_acked_revision :: int
  vd_is_current_device :: bool
  vd_is_revoked :: bool
  vd_is_inactive_candidate :: bool

definition vault_device_of ::
  "server \<Rightarrow> vault \<Rightarrow> string option \<Rightarrow> int \<Rightarrow> int \<Rightarrow> string \<Rightarrow> vault_device" where
  "vault_device_of sv v current now inactive_after_ms d =
     (let dv = sv_devices sv d; last_seen = map_option dv_last_seen_at_ms dv;
          revoked = (case dv of Some x \<Rightarrow> dv_revoked x | None \<Rightarrow> False) in
      \<lparr>vd_device_id = d,
       vd_device_name = (case dv of Some x \<Rightarrow> dv_device_name x | None \<Rightarrow> d),
       vd_platform = (case dv of Some x \<Rightarrow> dv_platform x | None \<Rightarrow> ''unknown''),
       vd_app_version = (case dv of Some x \<Rightarrow> py_str (dv_app_version x) | None \<Rightarrow> None),
       vd_protocol_version = (case dv of
           Some x \<Rightarrow> (case py_str (dv_protocol_version x) of Some p \<Rightarrow> p | None \<Rightarrow> ''v1'')
         | None \<Rightarrow> ''v1''),
       vd_registered_at_ms = map_option dv_registered_at_ms dv,
       vd_last_seen_at_ms = last_seen,
       vd_acked_revision = acked v d,
       vd_is_current_device = (current = Some d),
       vd_is_revoked = revoked,
       vd_is_inactive_candidate = (\<not> revoked \<and> (case last_seen of
           Some t \<Rightarrow> inactive_after_ms \<le> now - t | None \<Rightarrow> False))\<rparr>)"

definition vault_device_key :: "vault_device \<Rightarrow> bool \<times> bool \<times> int \<times> string" where
  "vault_device_key x = (\<not> vd_is_current_device x, vd_is_revoked x,
     - (case vd_last_seen_at_ms x of Some t \<Rightarrow> t | None \<Rightarrow> 0), vd_device_id x)"

record vault_devices =
  vds_vault_id :: string
  vds_head_revision :: int
  vds_inactive_after_ms :: int
  vds_devices :: "vault_device list"

definition list_vault_devices :: "string \<Rightarrow> string option \<Rightarrow> int \<Rightarrow> int \<Rightarrow> vault_devices handler" where
  "list_vault_devices vault_id current_device_id now inactive_after_ms sv =
     (if inactive_after_ms \<le> 0 then Inl (invalid_request ''inactive_after_ms must be positive'')
      else let (v, sv') = ensure_vault vault_id sv in
        Inr (\<lparr>vds_vault_id = vault_id, vds_head_revision = vt_head_revision v,
               vds_inactive_after_ms = inactive_after_ms,
               vds_devices = sort_key vault_device_key
                 (map (vault_device_of sv v current_device_id now inactive_after_ms)
                   (joined_vault_device_ids v))\<rparr>, sv'))"

section \<open>Removing a device\<close>

definition revoke_device_sessions :: "string \<Rightarrow> int \<Rightarrow> server \<Rightarrow> server" where
  "revoke_device_sessions d revoked_at_ms sv =
     sv\<lparr>sv_sessions := map (\<lambda>(i, ss). (i, if ss_device_id ss = d
          then ss\<lparr>ss_revoked_at_ms := Some revoked_at_ms\<rparr> else ss)) (sv_sessions sv),
        sv_refresh_tokens := fold (\<lambda>(_, ss) m. if ss_device_id ss = d
          then m(ss_refresh_token ss := None) else m) (sv_sessions sv) (sv_refresh_tokens sv)\<rparr>"

text \<open>The state once the device is gone, before the vaults are collected.\<close>

definition revoked_device_state :: "string \<Rightarrow> device \<Rightarrow> int \<Rightarrow> server \<Rightarrow> server" where
  "revoked_device_state d dv revoked_at_ms sv =
     (let sv1 = revoke_device_sessions d revoked_at_ms (sv\<lparr>sv_devices := (sv_devices sv)(d \<mapsto>
            dv\<lparr>dv_revoked := True, dv_revoked_at_ms := Some revoked_at_ms\<rparr>)\<rparr>) in
      sv1\<lparr>sv_refresh_tokens := (sv_refresh_tokens sv1)(dv_refresh_token dv := None),
          sv_capabilities := (\<lambda>t. case sv_capabilities sv1 t of
              Some c \<Rightarrow> if cp_device_id c = Some d then None else Some c
            | None \<Rightarrow> None),
          sv_uploads := filter (\<lambda>(_, up). up_device_id up \<noteq> Some d) (sv_uploads sv1)\<rparr>)"

definition drop_device_chunk_files :: "string \<Rightarrow> (string \<times> upload_session) list \<Rightarrow> disk \<Rightarrow> disk" where
  "drop_device_chunk_files d ups = fold (\<lambda>(_, up) dk. if up_device_id up = Some d
     then delete_session_chunk_files up dk else dk) ups"

fun collect_vaults ::
  "(string \<Rightarrow> vault \<Rightarrow> (gc_result \<times> vault) sresult) \<Rightarrow> (string \<times> vault) list \<Rightarrow>
     (string \<times> vault) list sresult" where
  "collect_vaults gc [] = Inr []"
| "collect_vaults gc ((i, v) # vs) =
     rbind (gc i v) (\<lambda>(_, v'). rbind (collect_vaults gc vs) (\<lambda>vs'. Inr ((i, v') # vs')))"

definition delete_device ::
  "(string \<Rightarrow> string) \<Rightarrow> (string \<Rightarrow> string) \<Rightarrow> (string \<Rightarrow> string) \<Rightarrow> string \<Rightarrow> string option \<Rightarrow> int \<Rightarrow> int \<Rightarrow>
     bool blob_op" where
  "delete_device sha nfc run_ids device_id actor_device_id revoked_at_ms now = (\<lambda>(sv, dk).
     case sv_devices sv device_id of
       None \<Rightarrow> (Inr False, sv, dk)
     | Some dv \<Rightarrow>
         if (case actor_device_id of None \<Rightarrow> False | Some a \<Rightarrow> (case sv_devices sv a of
               None \<Rightarrow> True | Some av \<Rightarrow> dv_user_id av \<noteq> dv_user_id dv))
         then (Inl (SyncStoreError ''device_forbidden'' ''Device does not belong to the current user''), sv, dk)
         else let sv1 = revoked_device_state device_id dv revoked_at_ms sv in
           commit_state sv
             (rbind (collect_vaults (\<lambda>vault_id v. run_tombstone_gc_locked sha nfc vault_id (run_ids vault_id)
                  now DEFAULT_TOMBSTONE_GC_MIN_RETENTION_MS DEFAULT_DEVICE_INACTIVE_AFTER_MS None False sv1 v)
                (sv_vaults sv1)) (\<lambda>vs. Inr (True, sv1\<lparr>sv_vaults := vs\<rparr>)),
              drop_device_chunk_files device_id (sv_uploads sv) dk))"

lemma collect_vaults_lookup:
  assumes "collect_vaults gc vs = Inr vs'"
  shows "map fst vs' = map fst vs \<and> (case map_of vs i of
      None \<Rightarrow> map_of vs' i = None
    | Some v \<Rightarrow> \<exists>g v'. map_of vs' i = Some v' \<and> gc i v = Inr (g, v'))"
  using assms
proof (induction vs arbitrary: vs')
  case (Cons p vs)
  obtain j v where p: "p = (j, v)" by (cases p)
  with Cons.prems obtain g v' ws where "gc j v = Inr (g, v')" "collect_vaults gc vs = Inr ws"
    "vs' = (j, v') # ws" by (auto simp: result_simps)
  with Cons.IH [of ws] p show ?case by (auto split: option.splits)
qed simp

section \<open>A device that is gone\<close>

definition device_gone :: "string \<Rightarrow> server \<Rightarrow> bool" where
  "device_gone d sv \<longleftrightarrow> (\<exists>dv. sv_devices sv d = Some dv \<and> dv_revoked dv)"

lemma gone_not_authorized:
  assumes "device_gone d sv" "authorize_access_token token now sv = Inr a"
  shows "au_device_id a \<noteq> d"
  using assms by (auto simp: authorize_access_token_def device_gone_def split: option.splits if_splits)

lemma refresh_session_cases:
  assumes "refresh_session na nr payload now sv = Inr (t, sv')"
  obtains rt i ss dv attl rttl where "sv_refresh_tokens sv rt = Some i" "map_of (sv_sessions sv) i = Some ss"
    "sv_devices sv (ss_device_id ss) = Some dv" "\<not> dv_revoked dv" "ss_revoked_at_ms ss = None"
    "tr_device_id t = ss_device_id ss" "tr_user_id t = ss_user_id ss"
    "sv' = rotate_tokens na nr rt now (now + attl) (now + rttl) i ss dv sv"
proof -
  from assms obtain rt attl rttl where r: "(case sv_refresh_tokens sv rt of
       None \<Rightarrow> Inl (SyncStoreError ''invalid_refresh_token'' ''Refresh token is invalid'')
     | Some i \<Rightarrow> (case map_of (sv_sessions sv) i of
         None \<Rightarrow> Inl (SyncStoreError ''invalid_refresh_token'' ''Refresh token is invalid'')
       | Some ss \<Rightarrow> (case sv_devices sv (ss_device_id ss) of
           None \<Rightarrow> Inl device_of_token_error
         | Some dv \<Rightarrow>
             if dv_revoked dv \<or> ss_revoked_at_ms ss \<noteq> None then Inl device_of_token_error
             else if ss_refresh_expires_at_ms ss \<le> now
             then Inl (SyncStoreError ''refresh_token_expired'' ''Refresh token has expired'')
             else Inr (\<lparr>tr_user_id = ss_user_id ss, tr_device_id = ss_device_id ss,
                 tr_access_token = na, tr_refresh_token = nr,
                 tr_expires_at_ms = now + attl, tr_refresh_expires_at_ms = now + rttl\<rparr>,
               rotate_tokens na nr rt now (now + attl) (now + rttl) i ss dv sv)))) = Inr (t, sv')"
    unfolding refresh_session_def rbind_eq_Inr by blast
  then obtain i ss dv where o: "sv_refresh_tokens sv rt = Some i" "map_of (sv_sessions sv) i = Some ss"
    "sv_devices sv (ss_device_id ss) = Some dv"
    by (simp split: option.splits)
  have c: "\<not> dv_revoked dv" "ss_revoked_at_ms ss = None" "tr_device_id t = ss_device_id ss"
    "tr_user_id t = ss_user_id ss" "sv' = rotate_tokens na nr rt now (now + attl) (now + rttl) i ss dv sv"
    using r by (auto simp: o split: if_splits)
  show ?thesis by (rule that [OF o c])
qed

lemma gone_not_refreshed:
  assumes "device_gone d sv" "refresh_session a r payload now sv = Inr (t, sv')"
  shows "tr_device_id t \<noteq> d"
  using assms(2,1) by (cases rule: refresh_session_cases) (auto simp: device_gone_def)

lemma gone_no_heartbeat:
  "device_gone d sv \<Longrightarrow>
     heartbeat_device vid d now sv = Inl (SyncStoreError ''device_not_found'' ''Device was not found'')"
  by (auto simp: heartbeat_device_def device_gone_def)

lemma gone_not_active: "device_gone d sv \<Longrightarrow> d \<notin> set (active_vault_device_ids sv v)"
  by (auto simp: active_vault_device_ids_def device_gone_def)

lemma revoked_device_state_fields [simp]:
  "sv_devices (revoked_device_state d dv t sv) =
     (sv_devices sv)(d \<mapsto> dv\<lparr>dv_revoked := True, dv_revoked_at_ms := Some t\<rparr>)"
  "sv_vaults (revoked_device_state d dv t sv) = sv_vaults sv"
  "sv_blobs (revoked_device_state d dv t sv) = sv_blobs sv"
  "sv_tokens (revoked_device_state d dv t sv) = sv_tokens sv"
  "vault_of (revoked_device_state d dv t sv) vid = vault_of sv vid"
  "sv_uploads (revoked_device_state d dv t sv) = filter (\<lambda>(_, up). up_device_id up \<noteq> Some d) (sv_uploads sv)"
  by (simp_all add: revoked_device_state_def revoke_device_sessions_def vault_of_def)

text \<open>What removing a device does when it succeeds.\<close>

lemma delete_device_cases:
  assumes "delete_device sha nfc run_ids d actor t now (sv, dk) = (res, sv', dk')"
  obtains (unchanged) "sv' = sv" "res \<noteq> Inr True"
  | (removed) dv vs where "sv_devices sv d = Some dv" "res = Inr True"
      "sv' = (revoked_device_state d dv t sv)\<lparr>sv_vaults := vs\<rparr>"
      "collect_vaults (\<lambda>vault_id v. run_tombstone_gc_locked sha nfc vault_id (run_ids vault_id)
         now DEFAULT_TOMBSTONE_GC_MIN_RETENTION_MS DEFAULT_DEVICE_INACTIVE_AFTER_MS None False
         (revoked_device_state d dv t sv) v) (sv_vaults sv) = Inr vs"
      "dk' = drop_device_chunk_files d (sv_uploads sv) dk"
proof (cases "sv_devices sv d")
  case None
  then show ?thesis using assms unchanged by (auto simp: delete_device_def)
next
  case (Some dv)
  let ?s = "revoked_device_state d dv t sv"
  let ?c = "collect_vaults (\<lambda>vault_id v. run_tombstone_gc_locked sha nfc vault_id (run_ids vault_id)
         now DEFAULT_TOMBSTONE_GC_MIN_RETENTION_MS DEFAULT_DEVICE_INACTIVE_AFTER_MS None False ?s v) (sv_vaults sv)"
  show ?thesis
  proof (cases "?c")
    case (Inl e)
    then show ?thesis using assms Some unchanged
      by (auto simp: delete_device_def commit_state_def Let_def split: if_splits)
  next
    case (Inr vs)
    then show ?thesis using assms Some unchanged removed [OF Some _ _ Inr]
      by (auto simp: delete_device_def commit_state_def Let_def split: if_splits)
  qed
qed

lemma delete_device_gone:
  assumes "delete_device sha nfc run_ids d actor t now (sv, dk) = (Inr True, sv', dk')"
  shows "device_gone d sv' \<and> (\<forall>c \<in> ran (sv_capabilities sv'). cp_device_id c \<noteq> Some d)
    \<and> (\<forall>(i, up) \<in> set (sv_uploads sv'). up_device_id up \<noteq> Some d)
    \<and> (\<forall>(i, ss) \<in> set (sv_sessions sv'). ss_device_id ss = d \<longrightarrow> ss_revoked_at_ms ss = Some t)"
  using assms
proof (cases rule: delete_device_cases)
  case (removed dv vs)
  have "\<forall>c \<in> ran (sv_capabilities (revoked_device_state d dv t sv)). cp_device_id c \<noteq> Some d"
    by (auto simp: revoked_device_state_def Let_def ran_def split: option.splits if_splits)
  then show ?thesis
    by (auto simp: removed device_gone_def revoked_device_state_def revoke_device_sessions_def Let_def)
qed simp

lemma delete_device_keeps:
  assumes ok: "server_ok sv" and fresh: "\<And>vid. vt_commits (vault_of sv vid) (gc_commit_id (run_ids vid)) = None"
    and r: "delete_device sha nfc run_ids d actor t now (sv, dk) = (res, sv', dk')"
  shows "server_ok sv' \<and> sv_extends sv sv'"
  using r
proof (cases rule: delete_device_cases)
  case (removed dv vs)
  have "vault_ok (vault_of sv' vid) \<and> extends (vault_of sv vid) (vault_of sv' vid)" for vid
  proof (cases "map_of (sv_vaults sv) vid")
    case None
    then have "map_of vs vid = None" using collect_vaults_lookup [OF removed(4), of vid] by simp
    with None show ?thesis by (simp add: vault_of_def removed(3))
  next
    case (Some v)
    with collect_vaults_lookup [OF removed(4), of vid] obtain g v' where v': "map_of vs vid = Some v'"
      "run_tombstone_gc_locked sha nfc vid (run_ids vid) now DEFAULT_TOMBSTONE_GC_MIN_RETENTION_MS
         DEFAULT_DEVICE_INACTIVE_AFTER_MS None False (revoked_device_state d dv t sv) v = Inr (g, v')"
      by auto
    have v: "vault_of sv vid = v" using Some by (simp add: vault_of_def)
    with gc_locked_keeps [OF _ _ v'(2)] ok fresh [of vid] have "vault_ok v' \<and> extends v v'"
      unfolding server_ok_def by metis
    with v v'(1) show ?thesis by (simp add: vault_of_def removed(3))
  qed
  moreover have "distinct (map fst (sv_vaults sv'))"
    using ok collect_vaults_lookup [OF removed(4)] by (simp add: server_ok_def removed(3))
  ultimately show ?thesis by (simp add: server_ok_def sv_extends_def)
qed (use ok in auto)

lemma revoke_tokens_subset:
  "fold (\<lambda>(_, ss) m. if ss_device_id ss = d then m(ss_refresh_token ss := None) else m) ssl m k = Some s \<Longrightarrow> m k = Some s"
proof (induction ssl arbitrary: m)
  case (Cons p ssl)
  let ?m = "(\<lambda>(_, ss) m. if ss_device_id ss = d then m(ss_refresh_token ss := None) else m) p m"
  have "?m k = Some s" using Cons.IH [of ?m] Cons.prems by simp
  then show ?case by (cases p) (simp split: if_splits)
qed simp

lemma map_of_map_snd: "map_of (map (\<lambda>(i, v). (i, f v)) al) k = map_option f (map_of al k)"
  by (induction al) auto

lemma delete_device_auth:
  assumes ok: "auth_ok sv" and r: "delete_device sha nfc run_ids d actor t now (sv, dk) = (res, sv', dk')"
  shows "auth_ok sv'"
  using r
proof (cases rule: delete_device_cases)
  case (removed dv vs)
  define f :: "session \<Rightarrow> session" where "f ss = (if ss_device_id ss = d then ss\<lparr>ss_revoked_at_ms := Some t\<rparr> else ss)" for ss
  have s: "map_of (sv_sessions sv') i = map_option f (map_of (sv_sessions sv) i)" for i
    by (simp add: removed(3) revoked_device_state_def revoke_device_sessions_def Let_def map_of_map_snd f_def [abs_def])
  have tk: "sv_tokens sv' = sv_tokens sv" by (simp add: removed(3))
  have rf: "sv_refresh_tokens sv k = Some i" if "sv_refresh_tokens sv' k = Some i" for k i
    using that revoke_tokens_subset [of d "sv_sessions sv" "sv_refresh_tokens sv" k i]
    by (simp add: removed(3) revoked_device_state_def revoke_device_sessions_def Let_def split: if_splits)
  have dv: "\<exists>x. sv_devices sv' e = Some x \<and> dv_user_id x = u"
    if "sv_devices sv e = Some y" "dv_user_id y = u" for e y u
    using that removed(1) by (auto simp: removed(3))
  have f: "ss_access_token (f ss) = ss_access_token ss" "ss_refresh_token (f ss) = ss_refresh_token ss"
    "ss_device_id (f ss) = ss_device_id ss" "ss_user_id (f ss) = ss_user_id ss" for ss
    by (simp_all add: f_def)
  have "\<exists>ss. map_of (sv_sessions sv') i = Some ss \<and> ss_access_token ss = k" if "sv_tokens sv' k = Some i" for k i
    using auth_okD(1) [OF ok, of k i] that unfolding tk s by (auto simp: f)
  moreover have "\<exists>ss. map_of (sv_sessions sv') i = Some ss \<and> ss_refresh_token ss = k"
    if "sv_refresh_tokens sv' k = Some i" for k i
    using auth_okD(2) [OF ok rf [OF that]] unfolding s by (auto simp: f)
  moreover have "\<exists>x. sv_devices sv' (ss_device_id ss) = Some x \<and> dv_user_id x = ss_user_id ss"
    if ss: "map_of (sv_sessions sv') i = Some ss" for i ss
  proof -
    from ss obtain q where q: "map_of (sv_sessions sv) i = Some q" "ss = f q" unfolding s by auto
    from auth_okD(3) [OF ok q(1)] dv show ?thesis unfolding q(2) f by blast
  qed
  ultimately show ?thesis unfolding auth_ok_def by blast
qed (use ok in simp)

end
