(* ===== verification/Server_Uploads.thy ===== *)
theory Server_Uploads
  imports Server_Blobs
begin

text \<open>
  Moving blobs in pieces: the contract of an object store, and what a resumable upload and the
  ranges of a download amount to.
\<close>

section \<open>The contract of an object store\<close>

definition piece :: "string \<Rightarrow> chunk \<Rightarrow> string" where
  "piece b c = take (nat (ch_size c)) (drop (nat (ch_offset c)) b)"

lemma contiguous_pieces:
  assumes "contiguous a cs n" "0 \<le> a" "n \<le> int (length b)" "\<forall>c \<in> set cs. 0 \<le> ch_size c"
  shows "concat (map (piece b) cs) = take (nat (n - a)) (drop (nat a) b) \<and> a \<le> n"
  using assms
proof (induction cs arbitrary: a)
  case (Cons c cs)
  let ?s = "ch_size c"
  have c: "ch_offset c = a" "0 \<le> ?s" "contiguous (a + ?s) cs n" using Cons.prems by auto
  then have IH: "concat (map (piece b) cs) = take (nat (n - (a + ?s))) (drop (nat (a + ?s)) b)" "a + ?s \<le> n"
    using Cons.IH [of "a + ?s"] Cons.prems by auto
  have "nat (n - a) = nat ?s + nat (n - (a + ?s))" "nat (a + ?s) = nat ?s + nat a"
    using IH(2) c(2) Cons.prems(2) by simp_all
  then show ?case using IH c by (simp add: piece_def [of b c] take_add)
qed simp

locale object_store =
  fixes put :: "string \<Rightarrow> string \<Rightarrow> 's \<Rightarrow> 'e + 's"
    and get :: "string \<Rightarrow> 's \<Rightarrow> 'e + string"
    and get_range :: "string \<Rightarrow> int \<Rightarrow> int \<Rightarrow> 's \<Rightarrow> 'e + string"
  assumes get_put: "put k b s = Inr s' \<Longrightarrow> get k s' = Inr b"
    and get_kept: "put k b s = Inr s' \<Longrightarrow> get k' s = Inr b' \<Longrightarrow> get k' s' = Inr b' \<or> get k' s' = Inr b"
    and range_get: "get k s = Inr b \<Longrightarrow> get_range k off n s = Inr (take (nat n) (drop (nat off) b))"
begin

text \<open>Ranges read one after the other give the object.\<close>

lemma ranges_give_object:
  assumes "get k s = Inr b" "contiguous 0 cs (int (length b))" "\<forall>c \<in> set cs. 0 \<le> ch_size c"
  shows "map (\<lambda>c. get_range k (ch_offset c) (ch_size c) s) cs = map (Inr \<circ> piece b) cs
    \<and> concat (map (piece b) cs) = b"
  using contiguous_pieces [OF assms(2) _ _ assms(3), of b]
  by (simp add: range_get [OF assms(1)] piece_def)

lemma put_then_ranges:
  assumes "put k b s = Inr s'" "contiguous 0 cs (int (length b))" "\<forall>c \<in> set cs. 0 \<le> ch_size c"
  shows "map (\<lambda>c. get_range k (ch_offset c) (ch_size c) s') cs = map (Inr \<circ> piece b) cs
    \<and> concat (map (piece b) cs) = b"
  using ranges_give_object [OF get_put [OF assms(1)] assms(2,3)] .

end

lemma put_object_eq_Inr:
  "put_object k b os = Inr os' \<longleftrightarrow> (\<exists>p. path_for_key k = Inr p \<and> \<not> below_file p os
     \<and> \<not> is_directory p os \<and> os' = AList.update p b os)"
  by (auto simp: put_object_def result_simps)

lemma read_object_eq_Inr:
  "read_object k os = Inr b \<longleftrightarrow> (\<exists>p. path_for_key k = Inr p \<and> map_of os p = Some b)"
  by (auto simp: read_object_def result_simps split: option.splits)

interpretation fs: object_store put_object read_object read_range
proof
  show "read_object k os' = Inr b" if "put_object k b os = Inr os'" for k b os os'
    using that by (auto simp: put_object_eq_Inr read_object_eq_Inr update_conv')
  show "read_object k' os' = Inr b' \<or> read_object k' os' = Inr b"
    if "put_object k b os = Inr os'" "read_object k' os = Inr b'" for k b os os' k' b'
    using that by (auto simp: put_object_eq_Inr read_object_eq_Inr update_conv')
  show "read_range k off n os = Inr (take (nat n) (drop (nat off) b))"
    if "read_object k os = Inr b" for k os b off n
    using that by (simp add: read_range_def)
qed

section \<open>Putting the chunks of a session\<close>

text \<open>The session \<open>sid\<close> keeps its description, and holds the pieces \<open>P\<close> of \<open>content\<close>.\<close>

definition progress ::
  "(string \<Rightarrow> string) \<Rightarrow> string \<Rightarrow> string \<Rightarrow> upload_session \<Rightarrow> chunk set \<Rightarrow> server \<times> disk \<Rightarrow> bool" where
  "progress sha sid content up0 P st \<longleftrightarrow> (case st of (sv, dk) \<Rightarrow>
     distinct (map fst (sv_uploads sv))
   \<and> (\<exists>up. map_of (sv_uploads sv) sid = Some up \<and> up_vault_id up = up_vault_id up0
       \<and> up_blob_id up = up_blob_id up0 \<and> up_encrypted_size up = up_encrypted_size up0
       \<and> up_content_hash up = up_content_hash up0 \<and> up_encrypted_sha256 up = up_encrypted_sha256 up0
       \<and> up_chunks up = up_chunks up0 \<and> up_expires_at_ms up = up_expires_at_ms up0
       \<and> (\<forall>c \<in> P. ch_chunk_id c \<in> set (up_uploaded_chunk_ids up)
            \<and> map_of (up_chunk_files up) (ch_chunk_id c) = Some (chunk_filename sha sid (ch_chunk_id c))
            \<and> dk_chunks dk (chunk_filename sha sid (ch_chunk_id c)) = Some (piece content c)))
   \<and> (\<forall>i u. (i, u) \<in> set (sv_uploads sv) \<longrightarrow> i = sid
       \<or> chunk_filename sha sid ` ch_chunk_id ` set (up_chunks up0) \<inter> snd ` set (up_chunk_files u) = {}))"

text \<open>A session whose chunks cut up \<open>content\<close>, with identifiers and file names of their own.\<close>

definition cuts_up :: "(string \<Rightarrow> string) \<Rightarrow> string \<Rightarrow> string \<Rightarrow> upload_session \<Rightarrow> bool" where
  "cuts_up sha sid content up \<longleftrightarrow> sid \<noteq> [] \<and> up_encrypted_size up = int (length content)
     \<and> (\<exists>k. blob_chunks sha (up_blob_id up) (up_encrypted_size up) k = Inr (up_chunks up))
     \<and> distinct (map ch_chunk_id (up_chunks up))
     \<and> inj_on (chunk_filename sha sid) (ch_chunk_id ` set (up_chunks up))"

lemma contiguous_bounds:
  assumes "contiguous a cs n" "\<forall>c \<in> set cs. 0 \<le> ch_size c" "c \<in> set cs"
  shows "a \<le> ch_offset c \<and> ch_offset c + ch_size c \<le> n"
  using assms
proof (induction cs arbitrary: a)
  case (Cons d ds)
  have "a + ch_size d \<le> n" if "contiguous (a + ch_size d) ds n" "\<forall>c \<in> set ds. 0 \<le> ch_size c" for a ds
    using that by (induction ds arbitrary: a d) force+
  then have "a + ch_size d \<le> n" using Cons.prems by auto
  with Cons show ?case by fastforce
qed simp

lemma cuts_up_chunks:
  assumes "cuts_up sha sid content up"
  shows "contiguous 0 (up_chunks up) (int (length content))"
    and "c \<in> set (up_chunks up) \<Longrightarrow> 0 \<le> ch_size c \<and> 0 \<le> ch_offset c
      \<and> ch_offset c + ch_size c \<le> int (length content) \<and> ch_chunk_id c \<noteq> []"
    and "sort_key ch_offset (up_chunks up) = up_chunks up"
    and "up_chunks up \<noteq> []"
proof -
  let ?n = "int (length content)" let ?cs = "up_chunks up" let ?b = "up_blob_id up"
  obtain k where k: "blob_chunks sha ?b ?n k = Inr ?cs" using assms by (auto simp: cuts_up_def)
  have "?cs = [\<lparr>ch_chunk_id = chunk_id_of sha ?b 0 0, ch_offset = 0, ch_size = 0\<rparr>] \<and> ?n = 0
      \<or> ?cs = chunks_from sha ?b ?n k 0 \<and> 0 < ?n" and k0: "0 < k"
    using k by (auto simp: blob_chunks_eq_Inr)
  then show c: "contiguous 0 ?cs ?n" using chunks_from_partition [of k 0 ?n sha ?b] by auto
  show ne: "?cs \<noteq> []" using c \<open>_ \<or> _\<close> by (cases ?cs) auto
  have pos: "0 \<le> ch_size c" if "c \<in> set ?cs" for c
    using \<open>_ \<or> _\<close> chunks_from_partition [of k 0 ?n sha ?b] k0 that by fastforce
  have id: "ch_chunk_id c \<noteq> []" if "c \<in> set (chunks_from sha b n k a)" for b n k a c
    using that
  proof (induction sha b n k a rule: chunks_from.induct)
    case (1 sha b n k a)
    then show ?case by (subst (asm) (2) chunks_from.simps)
      (auto simp: chunk_id_of_def Let_def split: if_splits)
  qed
  show "0 \<le> ch_size c \<and> 0 \<le> ch_offset c \<and> ch_offset c + ch_size c \<le> ?n \<and> ch_chunk_id c \<noteq> []"
    if "c \<in> set ?cs"
    using pos [OF that] contiguous_bounds [OF c _ that] pos id that \<open>_ \<or> _\<close> by (auto simp: chunk_id_of_def)
  have "sorted (map ch_offset cs)" if "contiguous a cs n" "\<forall>c \<in> set cs. 0 \<le> ch_size c" for a cs n
    using that
  proof (induction cs arbitrary: a)
    case (Cons d ds)
    have "\<forall>c \<in> set ds. a + ch_size d \<le> ch_offset c"
      using contiguous_bounds [of "a + ch_size d" ds n] Cons.prems by auto
    with Cons show ?case by fastforce
  qed simp
  with c pos show "sort_key ch_offset ?cs = ?cs" by (intro sort_key_id_if_sorted) blast
qed

definition put_piece :: "(string \<Rightarrow> string) \<Rightarrow> string \<Rightarrow> string \<Rightarrow> int \<Rightarrow> chunk \<Rightarrow> unit blob_op" where
  "put_piece sha sid content now c =
     put_resumable_blob_chunk sha sid (ch_chunk_id c) (ch_offset c) (ch_size c) (piece content c) now"

lemma find_chunk:
  "distinct (map ch_chunk_id cs) \<Longrightarrow> c \<in> set cs \<Longrightarrow> List.find (\<lambda>d. ch_chunk_id d = ch_chunk_id c) cs = Some c"
  by (induction cs) force+

lemma length_piece:
  "0 \<le> ch_size c \<Longrightarrow> 0 \<le> ch_offset c \<Longrightarrow> ch_offset c + ch_size c \<le> int (length b) \<Longrightarrow>
     int (length (piece b c)) = ch_size c"
  by (simp add: piece_def)

lemma set_update_subset: "set (AList.update k v al) \<subseteq> insert (k, v) (set al)"
  by (induction al) (auto split: if_splits)

lemma put_piece_progress:
  assumes cut: "cuts_up sha sid content up0" and c: "c \<in> set (up_chunks up0)"
    and now: "now \<le> up_expires_at_ms up0" and P: "P \<subseteq> set (up_chunks up0)"
    and pr: "progress sha sid content up0 P (sv, dk)"
  shows "\<exists>sv' dk'. put_piece sha sid content now c (sv, dk) = (Inr (), sv', dk')
    \<and> progress sha sid content up0 (insert c P) (sv', dk')
    \<and> sv_blobs sv' = sv_blobs sv \<and> dk_objects dk' = dk_objects dk"
proof -
  let ?f = "\<lambda>c. chunk_filename sha sid (ch_chunk_id c)"
  from pr obtain up where up: "map_of (sv_uploads sv) sid = Some up"
    "up_vault_id up = up_vault_id up0" "up_blob_id up = up_blob_id up0"
    "up_encrypted_size up = up_encrypted_size up0" "up_content_hash up = up_content_hash up0"
    "up_encrypted_sha256 up = up_encrypted_sha256 up0" "up_chunks up = up_chunks up0"
    "up_expires_at_ms up = up_expires_at_ms up0"
    and held: "\<forall>c \<in> P. ch_chunk_id c \<in> set (up_uploaded_chunk_ids up)
      \<and> map_of (up_chunk_files up) (ch_chunk_id c) = Some (?f c) \<and> dk_chunks dk (?f c) = Some (piece content c)"
    and d: "distinct (map fst (sv_uploads sv))"
    and other: "\<forall>i u. (i, u) \<in> set (sv_uploads sv) \<longrightarrow> i = sid
       \<or> chunk_filename sha sid ` ch_chunk_id ` set (up_chunks up0) \<inter> snd ` set (up_chunk_files u) = {}"
    by (auto simp: progress_def)
  note k = cuts_up_chunks(2) [OF cut c]
  have inj: "?f e = ?f c \<longleftrightarrow> ch_chunk_id e = ch_chunk_id c" if "e \<in> P" for e
    using cut that P c unfolding cuts_up_def by (metis imageI inj_on_eq_iff subsetD)
  have same: "e = c" if "e \<in> P" "ch_chunk_id e = ch_chunk_id c" for e
    using cut that P c unfolding cuts_up_def distinct_map by (meson inj_onD subsetD)
  let ?ids = "filter (\<lambda>i. i \<noteq> []) (up_uploaded_chunk_ids up)"
  let ?up = "up\<lparr>up_chunk_files := AList.update (ch_chunk_id c) (?f c) (up_chunk_files up),
    up_uploaded_chunk_ids := (if ch_chunk_id c \<in> set ?ids then ?ids else ?ids @ [ch_chunk_id c]),
    up_updated_at_ms := now\<rparr>"
  let ?sv = "sv\<lparr>sv_uploads := AList.update sid ?up (sv_uploads sv)\<rparr>"
  let ?dk = "dk\<lparr>dk_chunks := (dk_chunks dk)(?f c \<mapsto> piece content c)\<rparr>"
  have "put_piece sha sid content now c (sv, dk) = (Inr (), ?sv, ?dk)"
    using k cut now up(1,7,8) c length_piece [of c content]
    by (simp add: put_piece_def put_resumable_blob_chunk_def commit_state_def session_chunk_by_id_def
        cuts_up_def find_chunk Let_def)
  moreover have "progress sha sid content up0 (insert c P) (?sv, ?dk)"
  proof -
    have "(i, u) \<in> insert (sid, ?up) (set (sv_uploads sv))" if "(i, u) \<in> set (sv_uploads ?sv)" for i u
      using that set_update_subset [of sid ?up "sv_uploads sv"] by (simp add: subset_iff)
    then have "\<forall>i u. (i, u) \<in> set (sv_uploads ?sv) \<longrightarrow> i = sid
       \<or> chunk_filename sha sid ` ch_chunk_id ` set (up_chunks up0) \<inter> snd ` set (up_chunk_files u) = {}"
      using other by blast
    moreover have "\<forall>e \<in> insert c P. ch_chunk_id e \<in> set (up_uploaded_chunk_ids ?up)
        \<and> map_of (up_chunk_files ?up) (ch_chunk_id e) = Some (?f e) \<and> dk_chunks ?dk (?f e) = Some (piece content e)"
    proof
      fix e assume e: "e \<in> insert c P"
      show "ch_chunk_id e \<in> set (up_uploaded_chunk_ids ?up)
        \<and> map_of (up_chunk_files ?up) (ch_chunk_id e) = Some (?f e) \<and> dk_chunks ?dk (?f e) = Some (piece content e)"
      proof (cases "ch_chunk_id e = ch_chunk_id c")
        case True
        then have "e = c" using e same by blast
        then show ?thesis using k by (simp add: update_conv')
      next
        case False
        then have "e \<in> P" using e by blast
        moreover from this have "ch_chunk_id e \<noteq> []" using cuts_up_chunks(2) [OF cut] P by blast
        ultimately show ?thesis using held inj False by (simp add: update_conv')
      qed
    qed
    ultimately show ?thesis
      using up d unfolding progress_def by (simp add: update_conv' distinct_update)
  qed
  ultimately show ?thesis by (intro exI [of _ ?sv] exI [of _ ?dk]) simp
qed

text \<open>A client that sends pieces in some order: the answers, and the state it leaves.\<close>

fun put_pieces ::
  "(string \<Rightarrow> string) \<Rightarrow> string \<Rightarrow> string \<Rightarrow> int \<Rightarrow> chunk list \<Rightarrow> server \<times> disk \<Rightarrow>
     (server_error + unit) list \<times> server \<times> disk" where
  "put_pieces sha sid content now [] st = ([], st)"
| "put_pieces sha sid content now (c # cs) st =
     (let (r, st1) = put_piece sha sid content now c st;
          (rs, st2) = put_pieces sha sid content now cs st1 in (r # rs, st2))"

lemma put_pieces_progress:
  assumes cut: "cuts_up sha sid content up0" and now: "now \<le> up_expires_at_ms up0"
    and "set cs \<subseteq> set (up_chunks up0)" "P \<subseteq> set (up_chunks up0)" "progress sha sid content up0 P (sv, dk)"
  shows "\<exists>sv' dk'. put_pieces sha sid content now cs (sv, dk) = (map (\<lambda>_. Inr ()) cs, sv', dk')
    \<and> progress sha sid content up0 (P \<union> set cs) (sv', dk')
    \<and> sv_blobs sv' = sv_blobs sv \<and> dk_objects dk' = dk_objects dk"
  using assms(3-)
proof (induction cs arbitrary: P sv dk)
  case (Cons c cs)
  from put_piece_progress [OF cut _ now Cons.prems(2,3), of c] Cons.prems(1)
  obtain sv1 dk1 where 1: "put_piece sha sid content now c (sv, dk) = (Inr (), sv1, dk1)"
    "progress sha sid content up0 (insert c P) (sv1, dk1)" "sv_blobs sv1 = sv_blobs sv"
    "dk_objects dk1 = dk_objects dk" by auto
  from Cons.IH [OF _ _ 1(2)] Cons.prems(1,2) obtain sv2 dk2 where
    "put_pieces sha sid content now cs (sv1, dk1) = (map (\<lambda>_. Inr ()) cs, sv2, dk2)"
    "progress sha sid content up0 (insert c P \<union> set cs) (sv2, dk2)" "sv_blobs sv2 = sv_blobs sv1"
    "dk_objects dk2 = dk_objects dk1" by auto
  with 1 show ?case by (intro exI [of _ sv2] exI [of _ dk2]) simp
qed auto

section \<open>Completing\<close>

lemma delete_session_chunk_files_fields [simp]:
  "dk_objects (delete_session_chunk_files up dk) = dk_objects dk"
  "f \<notin> snd ` set (up_chunk_files up) \<Longrightarrow> dk_chunks (delete_session_chunk_files up dk) f = dk_chunks dk f"
  by (simp_all add: delete_session_chunk_files_def)

lemma purge_fold:
  assumes "\<And>i u. (i, u) \<in> set ups \<Longrightarrow> up_expires_at_ms u < now \<Longrightarrow> f \<notin> snd ` set (up_chunk_files u)"
  shows "dk_chunks (fold (\<lambda>(_, up) dk. if up_expires_at_ms up < now then delete_session_chunk_files up dk else dk) ups dk) f
      = dk_chunks dk f"
  using assms
proof (induction ups arbitrary: dk)
  case (Cons p ups)
  obtain i u where p: "p = (i, u)" by (cases p)
  have ups: "\<And>i u. (i, u) \<in> set ups \<Longrightarrow> up_expires_at_ms u < now \<Longrightarrow> f \<notin> snd ` set (up_chunk_files u)"
    using Cons.prems by (meson list.set_intros(2))
  show ?case
  proof (cases "up_expires_at_ms u < now")
    case True
    then have "dk_chunks (delete_session_chunk_files u dk) f = dk_chunks dk f"
      using Cons.prems [of i u] p by simp
    with True p Cons.IH [of "delete_session_chunk_files u dk"] ups show ?thesis by simp
  next
    case False
    with p Cons.IH [of dk] ups show ?thesis by simp
  qed
qed simp

lemma purge_fold_objects:
  "dk_objects (fold (\<lambda>(_, up) dk. if up_expires_at_ms up < now then delete_session_chunk_files up dk else dk) ups dk)
     = dk_objects dk"
  by (induction ups arbitrary: dk) (auto split: prod.splits)

lemma map_of_filter_unique:
  "distinct (map fst al) \<Longrightarrow> map_of al k = Some v \<Longrightarrow> Q v \<Longrightarrow> map_of (filter (\<lambda>(_, v). Q v) al) k = Some v"
proof (induction al)
  case (Cons p al)
  show ?case
  proof (cases "fst p = k")
    case True
    with Cons.prems show ?thesis by (cases p) auto
  next
    case False
    with Cons show ?thesis by (cases p) auto
  qed
qed simp

lemma purge_progress:
  assumes "progress sha sid content up0 P (sv, dk)" "now \<le> up_expires_at_ms up0" "P \<subseteq> set (up_chunks up0)"
  shows "progress sha sid content up0 P (purge_expired_uploads now (sv, dk))
    \<and> sv_blobs (fst (purge_expired_uploads now (sv, dk))) = sv_blobs sv
    \<and> dk_objects (snd (purge_expired_uploads now (sv, dk))) = dk_objects dk"
proof -
  from assms(1) obtain up where up: "map_of (sv_uploads sv) sid = Some up" "up_vault_id up = up_vault_id up0"
    "up_blob_id up = up_blob_id up0" "up_encrypted_size up = up_encrypted_size up0"
    "up_content_hash up = up_content_hash up0" "up_encrypted_sha256 up = up_encrypted_sha256 up0"
    "up_chunks up = up_chunks up0" "up_expires_at_ms up = up_expires_at_ms up0"
    and held: "\<forall>c \<in> P. ch_chunk_id c \<in> set (up_uploaded_chunk_ids up)
      \<and> map_of (up_chunk_files up) (ch_chunk_id c) = Some (chunk_filename sha sid (ch_chunk_id c))
      \<and> dk_chunks dk (chunk_filename sha sid (ch_chunk_id c)) = Some (piece content c)"
    and d: "distinct (map fst (sv_uploads sv))"
    and other: "\<forall>i u. (i, u) \<in> set (sv_uploads sv) \<longrightarrow> i = sid
       \<or> chunk_filename sha sid ` ch_chunk_id ` set (up_chunks up0) \<inter> snd ` set (up_chunk_files u) = {}"
    by (auto simp: progress_def)
  let ?ups = "filter (\<lambda>(_, up). \<not> up_expires_at_ms up < now) (sv_uploads sv)"
  have "map_of ?ups sid = Some up" using map_of_filter_unique [OF d up(1)] up(8) assms(2) by simp
  moreover have "dk_chunks (snd (purge_expired_uploads now (sv, dk))) f = dk_chunks dk f"
    if "f \<in> chunk_filename sha sid ` ch_chunk_id ` set (up_chunks up0)" for f
    unfolding purge_expired_uploads_def prod.case snd_conv
  proof (rule purge_fold)
    fix i u assume "(i, u) \<in> set (sv_uploads sv)" "up_expires_at_ms u < now"
    moreover from this have "i \<noteq> sid"
      using map_of_is_SomeI [OF d, of i u] up(1,8) assms(2) by auto
    ultimately show "f \<notin> snd ` set (up_chunk_files u)" using other that by blast
  qed
  moreover have "distinct (map fst ?ups)" using d by (rule distinct_map_filter)
  ultimately show ?thesis
    using up held other assms(3)
    by (auto simp: progress_def purge_expired_uploads_def purge_fold_objects subset_iff)
qed

lemma gather_pieces:
  assumes "\<forall>c \<in> set cs. 0 \<le> ch_size c \<and> 0 \<le> ch_offset c \<and> ch_offset c + ch_size c \<le> int (length content)
      \<and> (\<exists>f. map_of (up_chunk_files up) (ch_chunk_id c) = Some f \<and> dk_chunks dk f = Some (piece content c))"
  shows "gather_chunks up dk cs = Inr (concat (map (piece content) cs))"
  using assms
proof (induction cs)
  case (Cons c cs)
  then have "int (length (piece content c)) = ch_size c" by (intro length_piece) auto
  with Cons show ?case by (auto simp: piece_def)
qed simp

definition complete_payload :: "string \<Rightarrow> upload_session \<Rightarrow> dict" where
  "complete_payload sid up = [(''uploads'', JArr [JObj [(''blob_id'', JStr (up_blob_id up)),
     (''session_id'', JStr sid), (''uploaded_chunk_ids'', JArr (map (JStr \<circ> ch_chunk_id) (up_chunks up))),
     (''encrypted_size'', JInt (up_encrypted_size up)),
     (''encrypted_sha256'', JStr (up_encrypted_sha256 up))]])]"

lemma unique_strings_of:
  assumes "dget d k = JArr (map (JStr \<circ> f) xs)" "xs \<noteq> []" "distinct (map f xs)" "\<forall>x \<in> set xs. f x \<noteq> []"
  shows "require_unique_strings d k = Inr (map f xs)"
proof -
  obtain y ys where xs: "xs = y # ys" using assms(2) by (cases xs) auto
  have "mapM (\<lambda>v. case py_str v of
      Some s \<Rightarrow> if s = [] then Inl (invalid_request (k @ '' items must be non-empty strings'')) else Inr s
    | None \<Rightarrow> Inl (invalid_request (k @ '' items must be non-empty strings''))) (map (JStr \<circ> f) xs)
    = Inr (map f xs)"
    using assms(4) by (induction xs) auto
  then show ?thesis using assms(1,3) by (simp add: require_unique_strings_def xs)
qed

text \<open>C11: A resumable upload delivers the bytes it was given. Once a session is open for content of
  the declared size and digest, a client may send the pieces in any order and as often as it
  likes: as long as every chunk has been sent before the session expires, each is accepted,
  completing reports the blob as accepted, the blob is recorded with that size and digest, the
  object the store holds under its key is the content, byte for byte, and the session and the
  blob's absence are gone. (The store must accept the object; chunk identifiers and file names
  of the session must not collide with each other or those of other sessions.)\<close>

theorem resumable_upload_any_order:
  assumes cut: "cuts_up sha sid content up" and open_session: "progress sha sid content up {} (sv, dk)"
    and order: "set order = set (up_chunks up)" and t: "now \<le> up_expires_at_ms up" "now' \<le> up_expires_at_ms up"
    and h: "up_encrypted_sha256 up = sha256_payload digest content"
    and ids: "up_vault_id up \<noteq> []" "up_blob_id up \<noteq> []" and absent: "sv_blobs sv (up_blob_id up) = None"
    and accepts: "\<not> isl (put_object (blob_object_key sha (up_vault_id up) (up_blob_id up)) content (dk_objects dk))"
  shows "\<exists>sv1 dk1 sv2 dk2 bl. put_pieces sha sid content now order (sv, dk) = (map (\<lambda>_. Inr ()) order, sv1, dk1)
    \<and> complete_resumable_blob_upload sha digest (up_vault_id up) (complete_payload sid up) now' (sv1, dk1)
        = (Inr [Accepted (up_blob_id up)], sv2, dk2)
    \<and> sv_blobs sv2 (up_blob_id up) = Some bl \<and> bl_encrypted_size bl = int (length content)
    \<and> bl_encrypted_sha256 bl = sha256_payload digest content
    \<and> read_object (bl_object_key bl) (dk_objects dk2) = Inr content
    \<and> map_of (sv_uploads sv2) sid = None"
proof -
  obtain sv1 dk1 where 1: "put_pieces sha sid content now order (sv, dk) = (map (\<lambda>_. Inr ()) order, sv1, dk1)"
    "progress sha sid content up (set (up_chunks up)) (sv1, dk1)" "sv_blobs sv1 = sv_blobs sv"
    "dk_objects dk1 = dk_objects dk"
    using put_pieces_progress [OF cut t(1) _ _ open_session, of order] order by auto
  obtain svp dkp where p: "purge_expired_uploads now' (sv1, dk1) = (svp, dkp)"
    by (cases "purge_expired_uploads now' (sv1, dk1)")
  have pr: "progress sha sid content up (set (up_chunks up)) (svp, dkp)"
    and same: "sv_blobs svp = sv_blobs sv" "dk_objects dkp = dk_objects dk"
    using purge_progress [OF 1(2) t(2)] p 1(3,4) by auto
  obtain u where u: "map_of (sv_uploads svp) sid = Some u" "up_vault_id u = up_vault_id up"
    "up_blob_id u = up_blob_id up" "up_encrypted_size u = up_encrypted_size up"
    "up_encrypted_sha256 u = up_encrypted_sha256 up" "up_chunks u = up_chunks up"
    and held: "\<forall>c \<in> set (up_chunks up). ch_chunk_id c \<in> set (up_uploaded_chunk_ids u)
      \<and> map_of (up_chunk_files u) (ch_chunk_id c) = Some (chunk_filename sha sid (ch_chunk_id c))
      \<and> dk_chunks dkp (chunk_filename sha sid (ch_chunk_id c)) = Some (piece content c)"
    using pr by (auto simp: progress_def)
  note k = cuts_up_chunks [OF cut]
  have size: "up_encrypted_size up = int (length content)" using cut by (simp add: cuts_up_def)
  have missing: "missing_session_chunks u dkp = []"
    using held k(2) by (auto simp: missing_session_chunks_def filter_empty_conv chunk_missing_def u)
  have "gather_chunks u dkp (sort_key ch_offset (up_chunks u)) = Inr (concat (map (piece content) (up_chunks up)))"
    using held k(2) unfolding u k(3) by (intro gather_pieces) auto
  moreover have "concat (map (piece content) (up_chunks up)) = content"
    using contiguous_pieces [OF k(1), of content] k(2) by auto
  ultimately have gather: "gather_chunks u dkp (sort_key ch_offset (up_chunks u)) = Inr content" by simp
  obtain os where os: "put_object (blob_object_key sha (up_vault_id up) (up_blob_id up)) content (dk_objects dk) = Inr os"
    using accepts by (auto dest: not_islD)
  have un: "require_unique_strings [(''blob_id'', JStr (up_blob_id up)),
     (''session_id'', JStr sid), (''uploaded_chunk_ids'', JArr (map (JStr \<circ> ch_chunk_id) (up_chunks up))),
     (''encrypted_size'', JInt (up_encrypted_size up)),
     (''encrypted_sha256'', JStr (up_encrypted_sha256 up))] ''uploaded_chunk_ids'' = Inr (map ch_chunk_id (up_chunks up))"
    using k(2,4) cut by (intro unique_strings_of) (auto simp: dget_def cuts_up_def)
  define cq where "cq = \<lparr>cq_blob_id = up_blob_id up, cq_session_id = sid, cq_encrypted_size = up_encrypted_size up,
    cq_encrypted_sha256 = up_encrypted_sha256 up, cq_uploaded_chunk_ids = map ch_chunk_id (up_chunks up)\<rparr>"
  have parse: "rbind (validate_vault_id (up_vault_id up)) (\<lambda>_.
      rbind (require_items (complete_payload sid up) ''uploads'') (parse_complete_requests [])) = Inr [cq]"
    using un ids cut size h
    by (simp add: validate_vault_id_def require_items_def complete_payload_def dget_def require_object_def
        require_string_def require_non_negative_int_def cuts_up_def sha256_payload_def cq_def)
  have one: "complete_one_upload sha digest (up_vault_id up) now' cq (svp, dkp) =
    (Inr (Accepted (up_blob_id up), svp\<lparr>sv_blobs := (sv_blobs svp)(up_blob_id up \<mapsto>
        available_blob (up_vault_id up) (blob_object_key sha (up_vault_id up) (up_blob_id up)) (up_content_hash u)
          (sha256_payload digest content) now' content),
      sv_uploads := AList.delete sid (sv_uploads svp)\<rparr>),
     delete_session_chunk_files u (dkp\<lparr>dk_objects := os\<rparr>))"
    using u missing gather os same absent size h
    by (simp add: complete_one_upload_def validate_resumable_complete_request_def cq_def
        finalize_resumable_upload_blob_def Let_def image_subset_iff)
  let ?bl = "available_blob (up_vault_id up) (blob_object_key sha (up_vault_id up) (up_blob_id up))
    (up_content_hash u) (sha256_payload digest content) now' content"
  let ?sv = "svp\<lparr>sv_blobs := (sv_blobs svp)(up_blob_id up \<mapsto> ?bl), sv_uploads := AList.delete sid (sv_uploads svp)\<rparr>"
  have "complete_resumable_blob_upload sha digest (up_vault_id up) (complete_payload sid up) now' (sv1, dk1)
        = (Inr [Accepted (up_blob_id up)], ?sv, delete_session_chunk_files u (dkp\<lparr>dk_objects := os\<rparr>))"
    by (simp add: complete_resumable_blob_upload_def parse p one commit_state_def)
  moreover have "read_object (bl_object_key ?bl) os = Inr content"
    using fs.get_put [OF os] by (simp add: available_blob_def)
  ultimately show ?thesis using 1(1)
    by (intro exI [of _ sv1] exI [of _ dk1] exI [of _ ?sv] exI [of _ "delete_session_chunk_files u (dkp\<lparr>dk_objects := os\<rparr>)"]
          exI [of _ ?bl]) (simp add: available_blob_def delete_conv')
qed

definition demo_session :: upload_session where
  "demo_session = \<lparr>up_vault_id = ''v'', up_blob_id = ''b'', up_encrypted_size = 4, up_content_hash = ''c'',
     up_encrypted_sha256 = ''sha256:abcd'', up_chunk_size = 2,
     up_chunks = [\<lparr>ch_chunk_id = ''chunk-2:0:b'', ch_offset = 0, ch_size = 2\<rparr>,
       \<lparr>ch_chunk_id = ''chunk-2:2:b'', ch_offset = 2, ch_size = 2\<rparr>],
     up_uploaded_chunk_ids = [], up_chunk_files = [], up_device_id = None, up_expires_at_ms = 10,
     up_created_at_ms = 0, up_updated_at_ms = 0\<rparr>"

lemma demo_session_cuts: "cuts_up rev ''s'' ''abcd'' demo_session"
proof -
  have "blob_chunks rev ''b'' 4 2 = Inr (up_chunks demo_session)"
    unfolding demo_session_def by code_simp
  moreover have "inj_on (chunk_filename rev ''s'') A" for A
    by (simp add: inj_on_def chunk_filename_def)
  ultimately show ?thesis by (auto simp: cuts_up_def demo_session_def intro: exI [of _ 2])
qed

lemma resumable_upload_any_order_witness:
  "\<exists>sv1 dk1 sv2 dk2 bl. put_pieces rev ''s'' ''abcd'' 1 (rev (up_chunks demo_session))
       (default_state\<lparr>sv_uploads := [(''s'', demo_session)]\<rparr>, \<lparr>dk_objects = [], dk_chunks = Map.empty\<rparr>)
        = (map (\<lambda>_. Inr ()) (rev (up_chunks demo_session)), sv1, dk1)
    \<and> complete_resumable_blob_upload rev (\<lambda>x. x) (up_vault_id demo_session) (complete_payload ''s'' demo_session) 2 (sv1, dk1)
        = (Inr [Accepted (up_blob_id demo_session)], sv2, dk2)
    \<and> sv_blobs sv2 (up_blob_id demo_session) = Some bl \<and> bl_encrypted_size bl = int (length ''abcd'')
    \<and> bl_encrypted_sha256 bl = sha256_payload (\<lambda>x. x) ''abcd''
    \<and> read_object (bl_object_key bl) (dk_objects dk2) = Inr ''abcd''
    \<and> map_of (sv_uploads sv2) ''s'' = None"
proof (rule resumable_upload_any_order [OF demo_session_cuts])
  let ?sv = "default_state\<lparr>sv_uploads := [(''s'', demo_session)]\<rparr>"
  let ?dk = "\<lparr>dk_objects = [], dk_chunks = Map.empty\<rparr>"
  show "progress rev ''s'' ''abcd'' demo_session {} (?sv, ?dk)" by (simp add: progress_def)
  show "\<not> isl (put_object (blob_object_key rev (up_vault_id demo_session) (up_blob_id demo_session)) ''abcd'' (dk_objects ?dk))"
    unfolding demo_session_def by code_simp
qed (auto simp: demo_session_def sha256_payload_def default_state_def)

section \<open>Ranges of a download\<close>

lemma read_resumable_authorized:
  assumes "sv_capabilities sv token = Some c" "cp_kind c = ResumableDownload ranges" "now \<le> cp_expires_at_ms c"
    "sv_blobs sv (cp_blob_id c) = Some bl" "read_object (bl_object_key bl) (dk_objects dk) = Inr content"
    "0 \<le> offset" "0 < sz" "range_is_authorized ranges offset sz" "offset + sz \<le> int (length content)"
  shows "read_resumable_blob_download token offset sz now (sv, dk)
    = (Inr (take (nat sz) (drop (nat offset) content)), sv, dk)"
proof -
  have "int (length (take (nat sz) (drop (nat offset) content))) = sz" using assms(6,7,9) by simp
  then show ?thesis using assms(1-8)
    by (simp add: read_resumable_blob_download_def get_capability_def kind_matches_def commit_state_def fs.range_get)
qed

text \<open>C32: A download capability gives the bytes of its ranges and nothing else. While a resumable
  download capability has not expired, reading a range it authorizes inside the object returns
  exactly those bytes; reading any other range is refused with 403; a range with a negative
  offset or no bytes is refused with 400; none of these reads changes the store; and reading
  authorized ranges that partition the object, one after the other, rebuilds the object.\<close>

theorem resumable_download_exact:
  assumes cap: "sv_capabilities sv token = Some c" "cp_kind c = ResumableDownload ranges" "now \<le> cp_expires_at_ms c"
    and stored: "sv_blobs sv (cp_blob_id c) = Some bl"
      "read_object (bl_object_key bl) (dk_objects dk) = Inr content"
  shows "(\<forall>offset sz. snd (read_resumable_blob_download token offset sz now (sv, dk)) = (sv, dk)
      \<and> fst (read_resumable_blob_download token offset sz now (sv, dk))
        = (if offset < 0 \<or> sz \<le> 0 then Inl (BlobCapabilityError 400 ''invalid_range'')
           else if \<not> range_is_authorized ranges offset sz
           then Inl (BlobCapabilityError 403 ''range_not_authorized'')
           else if int (length content) < offset + sz
           then Inl (BlobCapabilityError 416 ''range_not_satisfiable'')
           else Inr (take (nat sz) (drop (nat offset) content))))
    \<and> (\<forall>cs. contiguous 0 cs (int (length content))
         \<and> (\<forall>r \<in> set cs. 0 < ch_size r \<and> range_is_authorized ranges (ch_offset r) (ch_size r))
       \<longrightarrow> (\<exists>parts. map (\<lambda>r. fst (read_resumable_blob_download token (ch_offset r) (ch_size r) now (sv, dk))) cs
             = map Inr parts \<and> concat parts = content))"
proof (intro conjI allI impI; (elim conjE)?)
  fix offset sz
  have r: "read_range (bl_object_key bl) offset sz (dk_objects dk) = Inr (take (nat sz) (drop (nat offset) content))"
    by (rule fs.range_get [OF stored(2)])
  have g: "get_capability token ''resumable_download'' now sv = Inr c"
    using cap by (simp add: get_capability_def kind_matches_def)
  have n: "int (length (take (nat sz) (drop (nat offset) content))) = sz \<longleftrightarrow> offset + sz \<le> int (length content)"
    if "0 \<le> offset" "0 < sz"
    using that by auto
  show "snd (read_resumable_blob_download token offset sz now (sv, dk)) = (sv, dk)"
    using stored(1) by (simp add: read_resumable_blob_download_def g r commit_state_def)
  show "fst (read_resumable_blob_download token offset sz now (sv, dk))
        = (if offset < 0 \<or> sz \<le> 0 then Inl (BlobCapabilityError 400 ''invalid_range'')
           else if \<not> range_is_authorized ranges offset sz
           then Inl (BlobCapabilityError 403 ''range_not_authorized'')
           else if int (length content) < offset + sz
           then Inl (BlobCapabilityError 416 ''range_not_satisfiable'')
           else Inr (take (nat sz) (drop (nat offset) content)))"
  proof (cases "0 \<le> offset \<and> 0 < sz")
    case True
    then show ?thesis using stored(1) cap(2) n
      by (simp add: read_resumable_blob_download_def g r commit_state_def del: length_take length_drop)
  next
    case False
    then show ?thesis by (auto simp: read_resumable_blob_download_def commit_state_def)
  qed
next
  fix cs :: "chunk list"
  assume cs: "contiguous 0 cs (int (length content))"
    "\<forall>r \<in> set cs. 0 < ch_size r \<and> range_is_authorized ranges (ch_offset r) (ch_size r)"
  have parts: "concat (map (piece content) cs) = content"
    using fs.ranges_give_object [OF stored(2) cs(1)] cs(2) by force
  have "fst (read_resumable_blob_download token (ch_offset r) (ch_size r) now (sv, dk)) = Inr (piece content r)"
    if "r \<in> set cs" for r
    using contiguous_bounds [OF cs(1) _ that] cs(2) that read_resumable_authorized [OF cap stored]
    by (simp add: piece_def order_le_less)
  then show "\<exists>parts. map (\<lambda>r. fst (read_resumable_blob_download token (ch_offset r) (ch_size r) now (sv, dk))) cs
             = map Inr parts \<and> concat parts = content"
    using parts by (intro exI [of _ "map (piece content) cs"]) simp
qed

lemma resumable_download_exact_witness:
  "\<exists>parts. map (\<lambda>r. fst (read_resumable_blob_download ''t'' (ch_offset r) (ch_size r) 1
      (default_state\<lparr>sv_capabilities := [''t'' \<mapsto> \<lparr>cp_kind = ResumableDownload [(0, 3)], cp_vault_id = ''v'',
           cp_blob_id = ''b'', cp_device_id = None, cp_expires_at_ms = 5\<rparr>],
         sv_blobs := [''b'' \<mapsto> available_blob ''v'' ''k'' ''h'' ''s'' 0 ''abc'']\<rparr>,
       \<lparr>dk_objects = [([''k''], ''abc'')], dk_chunks = Map.empty\<rparr>)))
      [\<lparr>ch_chunk_id = [], ch_offset = 0, ch_size = 2\<rparr>, \<lparr>ch_chunk_id = [], ch_offset = 2, ch_size = 1\<rparr>]
     = map Inr parts \<and> concat parts = ''abc''"
proof (rule resumable_download_exact [where ranges = "[(0, 3)]" and c = "\<lparr>cp_kind = ResumableDownload [(0, 3)],
      cp_vault_id = ''v'', cp_blob_id = ''b'', cp_device_id = None, cp_expires_at_ms = 5\<rparr>", THEN conjunct2, rule_format])
  show "read_object (bl_object_key (available_blob ''v'' ''k'' ''h'' ''s'' 0 ''abc''))
     (dk_objects \<lparr>dk_objects = [([''k''], ''abc'')], dk_chunks = Map.empty\<rparr>) = Inr ''abc''"
    by code_simp
qed (simp_all add: range_is_authorized_def)

end
