(* ===== verification/Server_Protocol.thy ===== *)
theory Server_Protocol
  imports Server_Devices Server_Uploads
begin

text \<open>
  The server as a state machine. A step is one request of any kind, handled under the lock and
  stored; a request that fails leaves the state as it was, but may have touched files. Drawn
  identifiers (run identifiers of collections, identifiers of devices) are taken to be new, as
  the code takes its random UUIDs to be.
\<close>

section \<open>Requests as steps\<close>

inductive server_step ::
  "(string \<Rightarrow> string) \<Rightarrow> (string \<Rightarrow> string) \<Rightarrow> (string \<Rightarrow> string) \<Rightarrow> (string \<Rightarrow> string \<Rightarrow> int \<Rightarrow> string) \<Rightarrow>
     server \<times> disk \<Rightarrow> server \<times> disk \<Rightarrow> bool"
  for sha nfc digest kdf where
  commit: "create_commit sha nfc vid payload auth now sv = Inr (rs, sv') \<Longrightarrow>
     server_step sha nfc digest kdf (sv, dk) (sv', dk)"
| head: "get_vault_head vid sv = Inr (x, sv') \<Longrightarrow> server_step sha nfc digest kdf (sv, dk) (sv', dk)"
| collect: "run_tombstone_gc sha nfc vid run now ret inact actor sv = Inr (g, sv') \<Longrightarrow>
     vt_commits (vault_of sv vid) (gc_commit_id run) = None \<Longrightarrow>
     server_step sha nfc digest kdf (sv, dk) (sv', dk)"
| acknowledge: "ack_revisions sha nfc vid payload dev run now sv = Inr (r, sv') \<Longrightarrow>
     vt_commits (vault_of sv vid) (gc_commit_id run) = None \<Longrightarrow>
     server_step sha nfc digest kdf (sv, dk) (sv', dk)"
| heartbeat: "heartbeat_device vid dev now sv = Inr (hb, sv') \<Longrightarrow>
     server_step sha nfc digest kdf (sv, dk) (sv', dk)"
| devices: "list_vault_devices vid current now inact sv = Inr (vds, sv') \<Longrightarrow>
     server_step sha nfc digest kdf (sv, dk) (sv', dk)"
| version_edit: "update_file_version vid i payload sv = Inr (row, sv') \<Longrightarrow>
     server_step sha nfc digest kdf (sv, dk) (sv', dk)"
| register: "register_device uid fr payload now sv = Inr (t, sv') \<Longrightarrow> fresh_for fr sv \<Longrightarrow>
     server_step sha nfc digest kdf (sv, dk) (sv', dk)"
| register_password: "register_password_account kdf salt uid fr payload now sv = Inr (t, sv') \<Longrightarrow>
     fresh_for fr sv \<Longrightarrow> server_step sha nfc digest kdf (sv, dk) (sv', dk)"
| login: "login_password_account kdf fr payload now sv = Inr (t, sv') \<Longrightarrow> fresh_for fr sv \<Longrightarrow>
     server_step sha nfc digest kdf (sv, dk) (sv', dk)"
| touch: "server_step sha nfc digest kdf (sv, dk) (touch_device dev now sv, dk)"
| refresh: "refresh_session na nr payload now sv = Inr (t, sv') \<Longrightarrow>
     server_step sha nfc digest kdf (sv, dk) (sv', dk)"
| logout: "revoke_session_for_token token now sv = (b, sv') \<Longrightarrow>
     server_step sha nfc digest kdf (sv, dk) (sv', dk)"
| remove_device: "delete_device sha nfc run_ids dev actor revoked_at now (sv, dk) = (res, sv', dk') \<Longrightarrow>
     \<forall>vid. vt_commits (vault_of sv vid) (gc_commit_id (run_ids vid)) = None \<Longrightarrow>
     server_step sha nfc digest kdf (sv, dk) (sv', dk')"
| upload_init: "init_blob_upload sha vid payload base dev tokens now sv = Inr (ts, sv') \<Longrightarrow>
     server_step sha nfc digest kdf (sv, dk) (sv', dk)"
| upload: "complete_blob_upload digest token bytes now (sv, dk) = (res, sv', dk') \<Longrightarrow>
     server_step sha nfc digest kdf (sv, dk) (sv', dk')"
| download_init: "init_blob_download vid payload base dev tokens now sv = Inr (dts, sv') \<Longrightarrow>
     server_step sha nfc digest kdf (sv, dk) (sv', dk)"
| resumable_download_init: "init_resumable_blob_download vid payload base dev tokens now sv = Inr (dts, sv') \<Longrightarrow>
     server_step sha nfc digest kdf (sv, dk) (sv', dk)"
| download: "read_blob_download token now (sv, dk) = (rd, sv', dk') \<Longrightarrow>
     server_step sha nfc digest kdf (sv, dk) (sv', dk')"
| resumable_download: "read_resumable_blob_download token offset sz now (sv, dk) = (rd, sv', dk') \<Longrightarrow>
     server_step sha nfc digest kdf (sv, dk) (sv', dk')"
| resumable_upload_init: "init_resumable_blob_upload sha vid payload base dev fresh now (sv, dk) = (es, sv', dk') \<Longrightarrow>
     server_step sha nfc digest kdf (sv, dk) (sv', dk')"
| chunk: "put_resumable_blob_chunk sha sid cid offset sz bytes now (sv, dk) = (res, sv', dk') \<Longrightarrow>
     server_step sha nfc digest kdf (sv, dk) (sv', dk')"
| resumable_upload: "complete_resumable_blob_upload sha digest vid payload now (sv, dk) = (rus, sv', dk') \<Longrightarrow>
     server_step sha nfc digest kdf (sv, dk) (sv', dk')"

abbreviation server_run where
  "server_run sha nfc digest kdf \<equiv> (server_step sha nfc digest kdf)\<^sup>*\<^sup>*"

definition empty_disk :: disk where
  "empty_disk = \<lparr>dk_objects = [], dk_chunks = Map.empty\<rparr>"

section \<open>Requests about blobs leave vaults and devices alone\<close>

definition aside :: "server \<Rightarrow> server \<Rightarrow> bool" where
  "aside sv sv' \<longleftrightarrow> sv_vaults sv' = sv_vaults sv \<and> sv_devices sv' = sv_devices sv"

lemma aside_refl [intro, simp]: "aside sv sv"
  by (simp add: aside_def)

lemma aside_trans: "aside a b \<Longrightarrow> aside b c \<Longrightarrow> aside a c"
  by (simp add: aside_def)

lemma aside_fields [simp]:
  "aside sv (s\<lparr>sv_capabilities := c\<rparr>) = aside sv s"
  "aside sv (s\<lparr>sv_blobs := b\<rparr>) = aside sv s"
  "aside sv (s\<lparr>sv_uploads := u\<rparr>) = aside sv s"
  "aside (s\<lparr>sv_capabilities := c\<rparr>) sv = aside s sv"
  "aside (s\<lparr>sv_uploads := u\<rparr>) sv = aside s sv"
  by (simp_all add: aside_def)

lemma issue_capabilities_aside: "issue_capabilities f tokens vs sv = Inr (cs, sv') \<Longrightarrow> aside sv sv'"
  by (induction f tokens vs sv arbitrary: cs rule: issue_capabilities.induct)
     (fastforce simp: result_simps)+

lemma issue_downloads_aside:
  "issue_downloads kind vid dev url now tokens bs sv = Inr (ts, sv') \<Longrightarrow> aside sv sv'"
proof (induction bs arbitrary: tokens sv ts)
  case (Cons b bs)
  then show ?case
    by (cases "sv_blobs sv b") (auto simp: rbind_eq_Inr Let_def dest!: Cons.IH)
qed simp

lemma open_upload_sessions_aside:
  "open_upload_sessions vid base dev fresh now rqs sv = Inr (es, sv') \<Longrightarrow> aside sv sv'"
proof (induction rqs arbitrary: fresh sv es)
  case (Cons rq rqs)
  then show ?case by (auto simp: rbind_eq_Inr split: prod.splits dest!: Cons.IH)
qed simp

lemma purge_aside: "purge_expired_uploads now (sv, dk) = (sv1, dk1) \<Longrightarrow> aside sv sv1"
  by (auto simp: purge_expired_uploads_def)

lemma complete_one_upload_aside:
  "complete_one_upload sha digest vid now cq (sv, dk) = (Inr (r, sv'), dk') \<Longrightarrow> aside sv sv'"
  by (auto simp: complete_one_upload_def finalize_resumable_upload_blob_def rbind_eq_Inr Let_def
      split: option.splits sum.splits if_splits prod.splits)

lemma complete_uploads_aside:
  assumes "\<And>cq sv dk r sv' dk'. f cq (sv, dk) = (Inr (r, sv'), dk') \<Longrightarrow> aside sv sv'"
  shows "complete_uploads f cqs (sv, dk) = (Inr (rs, sv'), dk') \<Longrightarrow> aside sv sv'"
proof (induction cqs arbitrary: sv dk rs)
  case (Cons cq cqs)
  from Cons.prems obtain r sv1 dk1 rs' where 1: "f cq (sv, dk) = (Inr (r, sv1), dk1)"
    "complete_uploads f cqs (sv1, dk1) = (Inr (rs', sv'), dk')"
    by (auto split: sum.splits prod.splits)
  from aside_trans [OF assms [OF 1(1)] Cons.IH [OF 1(2)]] show ?case .
qed simp

lemma commit_state_aside:
  assumes "commit_state sv x = (res, sv', dk')" "\<And>r s. fst x = Inr (r, s) \<Longrightarrow> aside sv s"
  shows "aside sv sv'"
  using assms by (cases x; cases "fst x") (auto simp: commit_state_def)

lemma consume_capability_aside: "consume_capability t k now sv = Inr (c, sv') \<Longrightarrow> aside sv sv'"
  by (auto simp: consume_capability_def rbind_eq_Inr)

lemma blob_requests_aside:
  "init_blob_upload sha vid payload base dev tokens now sv = Inr (ts, sv') \<Longrightarrow> aside sv sv'"
  "complete_blob_upload digest token bytes now (sv, dk) = (res, sv', dk') \<Longrightarrow> aside sv sv'"
  "init_blob_download vid payload base dev tokens now sv = Inr (dts, sv') \<Longrightarrow> aside sv sv'"
  "init_resumable_blob_download vid payload base dev tokens now sv = Inr (dts, sv') \<Longrightarrow> aside sv sv'"
  "read_blob_download token now (sv, dk) = (rd, sv', dk') \<Longrightarrow> aside sv sv'"
  "read_resumable_blob_download token offset sz now (sv, dk) = (rd, sv', dk') \<Longrightarrow> aside sv sv'"
  "init_resumable_blob_upload sha vid payload base dev fresh now (sv, dk) = (es, sv', dk') \<Longrightarrow> aside sv sv'"
  "put_resumable_blob_chunk sha sid cid offset sz bytes now (sv, dk) = (res, sv', dk') \<Longrightarrow> aside sv sv'"
  "complete_resumable_blob_upload sha digest vid payload now (sv, dk) = (rus, sv', dk') \<Longrightarrow> aside sv sv'"
proof -
  show "aside sv sv'" if "init_blob_upload sha vid payload base dev tokens now sv = Inr (ts, sv')"
    using that by (auto simp: init_blob_upload_def rbind_eq_Inr dest: issue_capabilities_aside)
  show "aside sv sv'" if "complete_blob_upload digest token bytes now (sv, dk) = (res, sv', dk')"
    using that unfolding complete_blob_upload_def prod.case
    by (rule commit_state_aside) (auto simp: Let_def split: sum.splits capability_kind.splits if_splits,
        (erule consume_capability_aside)+)
  show "aside sv sv'" if "init_blob_download vid payload base dev tokens now sv = Inr (dts, sv')"
  proof -
    from that obtain bs where "(case filter (\<lambda>b. sv_blobs sv b = None) bs of
        b # _ \<Rightarrow> Inl (SyncStoreError ''blob_not_found'' (''Blob was not found: '' @ b))
      | [] \<Rightarrow> issue_downloads (\<lambda>_ _. Inr Download) vid dev (capability_url base) now tokens bs sv) = Inr (dts, sv')"
      unfolding init_blob_download_def rbind_eq_Inr by blast
    then show ?thesis
      by (cases "filter (\<lambda>b. sv_blobs sv b = None) bs") (auto dest: issue_downloads_aside)
  qed
  show "aside sv sv'" if "init_resumable_blob_download vid payload base dev tokens now sv = Inr (dts, sv')"
    using that by (auto simp: init_resumable_blob_download_def rbind_eq_Inr dest: issue_downloads_aside)
  show "aside sv sv'" if "read_blob_download token now (sv, dk) = (rd, sv', dk')"
    using that unfolding read_blob_download_def prod.case
    by (rule commit_state_aside) (auto dest: consume_capability_aside split: sum.splits option.splits)
  show "aside sv sv'" if "read_resumable_blob_download token offset sz now (sv, dk) = (rd, sv', dk')"
    using that unfolding read_resumable_blob_download_def prod.case
    by (rule commit_state_aside) (auto split: sum.splits option.splits if_splits)
  show "aside sv sv'" if "init_resumable_blob_upload sha vid payload base dev fresh now (sv, dk) = (es, sv', dk')"
    using that unfolding init_resumable_blob_upload_def prod.case
    by (rule commit_state_aside) (auto intro: aside_trans dest: purge_aside open_upload_sessions_aside
        split: sum.splits prod.splits)
  show "aside sv sv'" if "put_resumable_blob_chunk sha sid cid offset sz bytes now (sv, dk) = (res, sv', dk')"
    using that unfolding put_resumable_blob_chunk_def prod.case
    by (rule commit_state_aside) (auto simp: Let_def split: sum.splits option.splits if_splits)
  show "aside sv sv'" if "complete_resumable_blob_upload sha digest vid payload now (sv, dk) = (rus, sv', dk')"
    using that unfolding complete_resumable_blob_upload_def prod.case
  proof (rule commit_state_aside)
    fix r s
    assume r: "fst (case rbind (validate_vault_id vid) (\<lambda>_. rbind (require_items payload ''uploads'')
         (parse_complete_requests [])) of
       Inl e \<Rightarrow> (Inl e, dk)
     | Inr cqs \<Rightarrow> complete_uploads (complete_one_upload sha digest vid now) cqs
         (purge_expired_uploads now (sv, dk))) = Inr (r, s)"
    obtain sv1 dk1 where p: "purge_expired_uploads now (sv, dk) = (sv1, dk1)"
      by (cases "purge_expired_uploads now (sv, dk)")
    from r obtain cqs where "fst (complete_uploads (complete_one_upload sha digest vid now) cqs (sv1, dk1)) = Inr (r, s)"
      by (auto simp: p split: sum.splits)
    then obtain dk2 where c: "complete_uploads (complete_one_upload sha digest vid now) cqs (sv1, dk1) = (Inr (r, s), dk2)"
      by (cases "complete_uploads (complete_one_upload sha digest vid now) cqs (sv1, dk1)") simp
    have "aside sv1 s" by (rule complete_uploads_aside [OF _ c]) (rule complete_one_upload_aside)
    with purge_aside [OF p] show "aside sv s" by (rule aside_trans)
  qed
qed

section \<open>Requests about accounts add devices and never bring one back\<close>

definition devices_move_on :: "server \<Rightarrow> server \<Rightarrow> bool" where
  "devices_move_on sv sv' \<longleftrightarrow> (\<forall>d. device_gone d sv \<longrightarrow> device_gone d sv')"

lemma devices_same: "sv_devices sv' = sv_devices sv \<Longrightarrow> devices_move_on sv sv'"
  by (simp add: devices_move_on_def device_gone_def)

lemma device_set:
  "sv_devices sv' = (sv_devices sv)(d \<mapsto> dv) \<Longrightarrow> \<not> device_gone d sv \<or> dv_revoked dv \<Longrightarrow> devices_move_on sv sv'"
  by (auto simp: devices_move_on_def device_gone_def)

lemma new_session_moves_on:
  assumes "create_device_session_locked fr u payload now sv1 = Inr (t, sv')" "sv_devices sv1 = sv_devices sv"
    "sv_vaults sv1 = sv_vaults sv" "fresh_for fr sv"
  shows "devices_move_on sv sv' \<and> sv_vaults sv' = sv_vaults sv"
  using assms(1)
proof (cases rule: create_device_session_cases)
  case (1 name platform attl rttl)
  have "\<not> device_gone (fr_device_id fr) sv" using assms(4) by (simp add: fresh_for_def device_gone_def)
  then have "devices_move_on sv sv'"
    by (intro device_set [of _ _ "fr_device_id fr"]) (simp_all add: 1(3) assms(2))
  then show ?thesis using assms(3) by (simp add: 1(3))
qed

lemma ensure_user_fields:
  "ensure_user uid key name now sv = (i, sv1) \<Longrightarrow> sv_devices sv1 = sv_devices sv \<and> sv_vaults sv1 = sv_vaults sv"
  by (auto simp: ensure_user_def create_user_locked_def split: option.splits)

lemma account_requests_move_on:
  "register_device uid fr payload now sv = Inr (t, sv') \<Longrightarrow> fresh_for fr sv \<Longrightarrow>
     devices_move_on sv sv' \<and> sv_vaults sv' = sv_vaults sv"
  "register_password_account kdf salt uid fr payload now sv = Inr (t, sv') \<Longrightarrow> fresh_for fr sv \<Longrightarrow>
     devices_move_on sv sv' \<and> sv_vaults sv' = sv_vaults sv"
  "login_password_account kdf fr payload now sv = Inr (t, sv') \<Longrightarrow> fresh_for fr sv \<Longrightarrow>
     devices_move_on sv sv' \<and> sv_vaults sv' = sv_vaults sv"
  "refresh_session na nr payload now sv = Inr (t, sv') \<Longrightarrow> devices_move_on sv sv' \<and> sv_vaults sv' = sv_vaults sv"
  "revoke_session_for_token token now sv = (b, sv') \<Longrightarrow> devices_move_on sv sv' \<and> sv_vaults sv' = sv_vaults sv"
  "devices_move_on sv (touch_device dev now sv) \<and> sv_vaults (touch_device dev now sv) = sv_vaults sv"
proof -
  show "devices_move_on sv sv' \<and> sv_vaults sv' = sv_vaults sv"
    if r: "register_device uid fr payload now sv = Inr (t, sv')" and f: "fresh_for fr sv"
  proof -
    from r obtain key name where r1: "(let (i, sv1) = ensure_user uid key name now sv in
      if (case sv_users sv1 i of Some u \<Rightarrow> us_password_auth u \<noteq> None | None \<Rightarrow> False)
      then Inl (SyncStoreError ''password_required'' ''Password authentication is required for this account'')
      else create_device_session_locked fr i payload now sv1) = Inr (t, sv')"
      unfolding register_device_def rbind_eq_Inr by blast
    obtain i sv1 where e: "ensure_user uid key name now sv = (i, sv1)" by (cases "ensure_user uid key name now sv")
    with r1 have "create_device_session_locked fr i payload now sv1 = Inr (t, sv')"
      by (auto split: if_splits)
    with new_session_moves_on ensure_user_fields [OF e] f show ?thesis by blast
  qed
  show "devices_move_on sv sv' \<and> sv_vaults sv' = sv_vaults sv"
    if r: "register_password_account kdf salt uid fr payload now sv = Inr (t, sv')" and f: "fresh_for fr sv"
  proof -
    from r obtain sv2 where "create_device_session_locked fr uid payload now sv2 = Inr (t, sv')"
      "sv_devices sv2 = sv_devices sv" "sv_vaults sv2 = sv_vaults sv"
      by (auto simp: register_password_account_def rbind_eq_Inr Let_def create_user_locked_def split: if_splits)
    with new_session_moves_on f show ?thesis by blast
  qed
  show "devices_move_on sv sv' \<and> sv_vaults sv' = sv_vaults sv"
    if r: "login_password_account kdf fr payload now sv = Inr (t, sv')" and f: "fresh_for fr sv"
  proof -
    from r obtain key p where r1: "(case sv_user_logins sv key of
       None \<Rightarrow> Inl (SyncStoreError ''invalid_credentials'' ''Account key or password is invalid'')
     | Some user_id \<Rightarrow> (case sv_users sv user_id of
         None \<Rightarrow> Inl (SyncStoreError ''invalid_credentials'' ''Account key or password is invalid'')
       | Some u \<Rightarrow>
           if us_status u \<noteq> ''active''
           then Inl (SyncStoreError ''account_disabled'' ''Account is disabled'')
           else if \<not> verify_password kdf p (us_password_auth u)
           then Inl (SyncStoreError ''invalid_credentials'' ''Account key or password is invalid'')
           else create_device_session_locked fr user_id payload now
             (sv\<lparr>sv_users := (sv_users sv)(user_id \<mapsto> u\<lparr>us_updated_at_ms := now\<rparr>)\<rparr>))) = Inr (t, sv')"
      unfolding login_password_account_def rbind_eq_Inr by blast
    then obtain uid' sv2 where "create_device_session_locked fr uid' payload now sv2 = Inr (t, sv')"
      "sv_devices sv2 = sv_devices sv" "sv_vaults sv2 = sv_vaults sv"
      by (auto split: option.splits if_splits)
    with new_session_moves_on f show ?thesis by blast
  qed
  show "devices_move_on sv sv' \<and> sv_vaults sv' = sv_vaults sv"
    if r: "refresh_session na nr payload now sv = Inr (t, sv')"
    using r
  proof (cases rule: refresh_session_cases)
    case (1 rt i ss dv attl rttl)
    have "\<not> device_gone (ss_device_id ss) sv" using 1(3,4) by (simp add: device_gone_def)
    then have "devices_move_on sv sv'"
      by (intro device_set [of _ _ "ss_device_id ss"]) (simp_all add: 1(8) rotate_tokens_def)
    then show ?thesis by (simp add: 1(8) rotate_tokens_def)
  qed
  show "devices_move_on sv sv' \<and> sv_vaults sv' = sv_vaults sv"
    if r: "revoke_session_for_token token now sv = (b, sv')"
    using r by (auto simp: revoke_session_for_token_def devices_move_on_def device_gone_def split: option.splits)
  show "devices_move_on sv (touch_device dev now sv) \<and> sv_vaults (touch_device dev now sv) = sv_vaults sv"
    by (auto simp: touch_device_def devices_move_on_def device_gone_def split: option.splits)
qed

section \<open>Requests about vaults keep the history\<close>

text \<open>Beside the history: every stored manifest is in normal form, and the file versions are
  consistent and not ahead of the head.\<close>

definition vault_data_ok :: "(string \<Rightarrow> string) \<Rightarrow> vault \<Rightarrow> bool" where
  "vault_data_ok nfc v \<longleftrightarrow> manifests_stored nfc v
     \<and> versions_upto (vt_head_revision v) (vt_file_versions v)"

lemma new_vault_data_ok [intro, simp]: "vault_data_ok nfc new_vault"
  by (simp add: vault_data_ok_def manifests_stored_def versions_upto_def) (simp add: new_vault_def)

lemma vault_data_ok_irrelevant [simp]:
  "vault_data_ok nfc (record_ack d r v) = vault_data_ok nfc v"
  "vault_data_ok nfc (append_tombstone_gc_log g v) = vault_data_ok nfc v"
  by (simp_all add: vault_data_ok_def manifests_stored_def)

lemma versions_upto_mono: "versions_upto r fvs \<Longrightarrow> r \<le> r' \<Longrightarrow> versions_upto r' fvs"
  by (fastforce simp: versions_upto_def)

lemma push_data_ok:
  assumes "vault_data_ok nfc v" "normal_form nfc" "finalize_manifest_payload sha nfc m r = Inr fin"
    "versions_upto (vt_head_revision v + 1) fvs"
  shows "vault_data_ok nfc ((push_revision fin s c v)\<lparr>vt_file_versions := fvs\<rparr>)"
  using assms finalize_stored [OF assms(2,3)]
  by (auto simp: vault_data_ok_def manifests_stored_def ran_def split: if_splits)

lemma gc_locked_data:
  assumes nf: "normal_form nfc" and ok: "vault_data_ok nfc v"
    and r: "run_tombstone_gc_locked sha nfc vid run now ret inact actor noop sv v = Inr (g, v')"
  shows "vault_data_ok nfc v'"
  using r
proof (cases rule: gc_locked_cases)
  case idle
  then show ?thesis using ok by auto
next
  case (collected head retained reclaimed blocked who fin s)
  have "versions_upto (vt_head_revision v + 1) (vt_file_versions v)"
    using ok versions_upto_mono [of "vt_head_revision v"] by (simp add: vault_data_ok_def)
  from push_data_ok [OF ok nf collected(6) this] show ?thesis
    by (simp add: collected(8) vault_data_ok_def manifests_stored_def)
qed

definition server_good :: "(string \<Rightarrow> string) \<Rightarrow> server \<Rightarrow> bool" where
  "server_good nfc sv \<longleftrightarrow> server_ok sv \<and> (\<forall>vid. vault_data_ok nfc (vault_of sv vid))"

lemma server_goodD:
  assumes "server_good nfc sv"
  shows "server_ok sv" "vault_ok (vault_of sv vid)" "vault_data_ok nfc (vault_of sv vid)"
    "manifests_stored nfc (vault_of sv vid)"
  using assms by (simp_all add: server_good_def server_ok_def vault_data_ok_def)

lemma default_state_good [intro, simp]: "server_good nfc default_state"
  by (simp add: server_good_def server_ok_def default_state_def vault_of_def)

definition keeps :: "(string \<Rightarrow> string) \<Rightarrow> server \<Rightarrow> server \<Rightarrow> bool" where
  "keeps nfc sv sv' \<longleftrightarrow> server_good nfc sv' \<and> sv_extends sv sv' \<and> devices_move_on sv sv'"

lemma keeps_trans: "keeps nfc a b \<Longrightarrow> keeps nfc b c \<Longrightarrow> keeps nfc a c"
  using sv_extends_trans by (auto simp: keeps_def devices_move_on_def)

lemma keeps_aside:
  "server_good nfc sv \<Longrightarrow> aside sv sv' \<Longrightarrow> keeps nfc sv sv'"
  using vaults_unchanged [of sv' sv] by (simp add: keeps_def server_good_def aside_def devices_same vault_of_def)

lemma keeps_account:
  "server_good nfc sv \<Longrightarrow> devices_move_on sv sv' \<and> sv_vaults sv' = sv_vaults sv \<Longrightarrow> keeps nfc sv sv'"
  using vaults_unchanged [of sv' sv] by (simp add: keeps_def server_good_def vault_of_def)

lemma keeps_put_vault:
  assumes "server_good nfc sv" "vault_ok v" "extends (vault_of sv vid) v" "vault_data_ok nfc v"
  shows "keeps nfc sv (put_vault vid v sv)"
  using put_vault_keeps [OF _ assms(2,3)] assms(1,4) by (simp add: keeps_def server_good_def devices_same)

lemma create_commit_data:
  assumes nf: "normal_form nfc" and ok: "vault_data_ok nfc (vault_of sv vid)"
    and r: "create_commit sha nfc vid payload auth now sv = Inr (rs, sv')"
  shows "vault_data_ok nfc (vault_of sv' vid) \<and> sv_devices sv' = sv_devices sv
    \<and> (\<forall>vid'. vid' \<noteq> vid \<longrightarrow> vault_of sv' vid' = vault_of sv vid')"
proof -
  let ?v = "vault_of sv vid"
  from r obtain i b h m d where m: "commit_mutation sha nfc vid payload i b h m d now sv = Inr (rs, sv')"
    by (auto simp: create_commit_def result_simps)
  show ?thesis
  proof (cases "vt_commits ?v i")
    case (Some c)
    with m ok show ?thesis by (auto simp: commit_mutation_replay split: if_splits)
  next
    case None
    from None m show ?thesis
    proof (cases rule: commit_mutation_fresh)
      case (1 fin s fvs)
      have "versions_upto (b + 1) (vt_file_versions ?v)"
        using ok versions_upto_mono [of "vt_head_revision ?v" _ "b + 1"] 1(1) by (simp add: vault_data_ok_def)
      then have "versions_upto (b + 1) fvs"
        using 1(7) append_file_versions_for_commit_upto by metis
      from push_data_ok [OF ok nf 1(3)] this 1(1) show ?thesis by (simp add: 1(5))
    qed
  qed
qed

lemma create_commit_step:
  assumes nf: "normal_form nfc" and ok: "server_good nfc sv"
    and r: "create_commit sha nfc vid payload auth now sv = Inr (rs, sv')"
  shows "keeps nfc sv sv'"
proof -
  note d = create_commit_data [OF nf server_goodD(3) [OF ok] r]
  have "vault_data_ok nfc (vault_of sv' i)" for i
    using d server_goodD(3) [OF ok, of i] by (cases "i = vid") simp_all
  then show ?thesis
    using create_commit_keeps [OF server_goodD(1) [OF ok] r] d
    by (simp add: keeps_def server_good_def devices_same)
qed

lemma gc_step:
  assumes nf: "normal_form nfc" and ok: "server_good nfc sv"
    and fresh: "vt_commits (vault_of sv vid) (gc_commit_id run) = None"
    and r: "run_tombstone_gc sha nfc vid run now ret inact actor sv = Inr (g, sv')"
  shows "keeps nfc sv sv'"
proof -
  from r obtain v where v: "run_tombstone_gc_locked sha nfc vid run now ret inact actor True sv
      (vault_of sv vid) = Inr (g, v)" "sv' = put_vault vid v sv"
    by (auto simp: run_tombstone_gc_def result_simps split: if_splits)
  show ?thesis
    unfolding v(2)
    using gc_locked_keeps [OF server_goodD(2) [OF ok] fresh v(1)] gc_locked_data [OF nf server_goodD(3) [OF ok] v(1)]
    by (intro keeps_put_vault ok) simp_all
qed

lemma ack_step:
  assumes nf: "normal_form nfc" and ok: "server_good nfc sv"
    and fresh: "vt_commits (vault_of sv vid) (gc_commit_id run) = None"
    and r: "ack_revisions sha nfc vid payload dev run now sv = Inr (x, sv')"
  shows "keeps nfc sv sv'"
proof -
  let ?v = "vault_of sv vid"
  from r obtain ns actor g v where n: "run_tombstone_gc_locked sha nfc vid run now
       DEFAULT_TOMBSTONE_GC_MIN_RETENTION_MS DEFAULT_DEVICE_INACTIVE_AFTER_MS (Some actor) False sv
       (record_ack actor (Max (set ns)) ?v) = Inr (g, v)" "sv' = put_vault vid v sv"
    by (auto simp: ack_revisions_def result_simps Let_def split: if_splits)
  have "vault_data_ok nfc v"
    by (rule gc_locked_data [OF nf _ n(1)]) (simp add: server_goodD [OF ok])
  then have "vault_data_ok nfc (vault_of sv' i)" for i
    using server_goodD(3) [OF ok] by (simp add: n(2))
  then show ?thesis
    using ack_revisions_keeps [OF server_goodD(1) [OF ok] fresh r]
    by (simp add: keeps_def server_good_def devices_same n(2))
qed

lemma put_same_vault: "server_good nfc sv \<Longrightarrow> keeps nfc sv (put_vault vid (vault_of sv vid) sv)"
  by (intro keeps_put_vault) (simp_all add: server_goodD)

lemma version_edit_step:
  assumes ok: "server_good nfc sv" and r: "update_file_version vid i payload sv = Inr (row, sv')"
  shows "keeps nfc sv sv'"
  using r
proof (cases rule: update_file_version_effect)
  case (1 r0)
  let ?v = "vault_of sv vid" let ?f = "vt_file_versions ?v"
  let ?f' = "?f\<lparr>fv_records := (fv_records ?f)(i \<mapsto> row)\<rparr>"
  have u: "versions_upto (vt_head_revision ?v) ?f" using server_goodD(3) [OF ok] by (simp add: vault_data_ok_def)
  then have "vr_revision row \<le> vt_head_revision ?v" using 1(1,4) by (auto simp: versions_upto_def ran_def)
  then have "versions_upto (vt_head_revision ?v) ?f'"
    using u relabelled_row_ok [of ?f i r0 row] 1 by (auto simp: versions_upto_def ran_def)
  then have "vault_data_ok nfc (?v\<lparr>vt_file_versions := ?f'\<rparr>)"
    using server_goodD(4) [OF ok] by (simp add: vault_data_ok_def manifests_stored_def)
  then show ?thesis
    unfolding 1(5) using server_goodD(2) [OF ok] by (intro keeps_put_vault ok) simp_all
qed

lemma heartbeat_step:
  assumes ok: "server_good nfc sv" and r: "heartbeat_device vid dev now sv = Inr (hb, sv')"
  shows "keeps nfc sv sv'"
proof -
  from r obtain dv where dv: "sv_devices sv dev = Some dv" "\<not> dv_revoked dv"
    "sv' = (put_vault vid (vault_of sv vid) sv)\<lparr>sv_devices := (sv_devices sv)(dev \<mapsto> dv\<lparr>dv_last_seen_at_ms := now\<rparr>)\<rparr>"
    by (auto simp: heartbeat_device_def ensure_vault_def split: option.splits if_splits)
  have "devices_move_on (put_vault vid (vault_of sv vid) sv) sv'"
    using dv by (intro device_set [of _ _ dev]) (simp_all add: device_gone_def)
  moreover have k: "keeps nfc sv (put_vault vid (vault_of sv vid) sv)" by (rule put_same_vault [OF ok])
  moreover have "sv_vaults sv' = sv_vaults (put_vault vid (vault_of sv vid) sv)" by (simp add: dv(3))
  ultimately show ?thesis
    using keeps_trans [OF k keeps_account [of nfc "put_vault vid (vault_of sv vid) sv" sv']] by (simp add: keeps_def)
qed

lemma remove_device_step:
  assumes nf: "normal_form nfc" and ok: "server_good nfc sv"
    and fresh: "\<forall>vid. vt_commits (vault_of sv vid) (gc_commit_id (run_ids vid)) = None"
    and r: "delete_device sha nfc run_ids d actor t now (sv, dk) = (res, sv', dk')"
  shows "keeps nfc sv sv'"
  using r
proof (cases rule: delete_device_cases)
  case unchanged
  then show ?thesis using ok by (auto intro: keeps_aside)
next
  case (removed dv vs)
  have "vault_data_ok nfc (vault_of sv' vid)" for vid
  proof (cases "map_of (sv_vaults sv) vid")
    case None
    then have "map_of vs vid = None" using collect_vaults_lookup [OF removed(4), of vid] by simp
    then show ?thesis by (simp add: vault_of_def removed(3))
  next
    case (Some v)
    with collect_vaults_lookup [OF removed(4), of vid] obtain g v' where v': "map_of vs vid = Some v'"
      "run_tombstone_gc_locked sha nfc vid (run_ids vid) now DEFAULT_TOMBSTONE_GC_MIN_RETENTION_MS
         DEFAULT_DEVICE_INACTIVE_AFTER_MS None False (revoked_device_state d dv t sv) v = Inr (g, v')"
      by auto
    have "vault_data_ok nfc v" using server_goodD(3) [OF ok, of vid] Some by (simp add: vault_of_def)
    from gc_locked_data [OF nf this v'(2)] v'(1) show ?thesis by (simp add: vault_of_def removed(3))
  qed
  moreover have "devices_move_on sv sv'"
    by (rule device_set [where d = d and dv = "dv\<lparr>dv_revoked := True, dv_revoked_at_ms := Some t\<rparr>"])
       (simp_all add: removed(3))
  ultimately show ?thesis
    using delete_device_keeps [OF server_goodD(1) [OF ok] _ r] fresh by (simp add: keeps_def server_good_def)
qed

text \<open>Every request keeps the invariant and the history, and lets no removed device back in.\<close>

lemma server_step_keeps:
  assumes nf: "normal_form nfc" and st: "server_step sha nfc digest kdf st st'" and ok: "server_good nfc (fst st)"
  shows "keeps nfc (fst st) (fst st')"
  using st ok
proof cases
  case (devices vid current now inact sv vds sv' dk)
  then have "sv' = put_vault vid (vault_of sv vid) sv"
    by (auto simp: list_vault_devices_def ensure_vault_def split: if_splits)
  with devices ok show ?thesis by (simp add: put_same_vault)
next
  case (head vid sv x sv' dk)
  then have "sv' = put_vault vid (vault_of sv vid) sv" by (auto simp: get_vault_head_def ensure_vault_def)
  with head ok show ?thesis by (simp add: put_same_vault)
qed (use ok in \<open>simp_all add: create_commit_step [OF nf] gc_step [OF nf] ack_step [OF nf] heartbeat_step
    version_edit_step remove_device_step [OF nf] keeps_account account_requests_move_on
    keeps_aside [OF _ blob_requests_aside(1)] keeps_aside [OF _ blob_requests_aside(2)]
    keeps_aside [OF _ blob_requests_aside(3)] keeps_aside [OF _ blob_requests_aside(4)]
    keeps_aside [OF _ blob_requests_aside(5)] keeps_aside [OF _ blob_requests_aside(6)]
    keeps_aside [OF _ blob_requests_aside(7)] keeps_aside [OF _ blob_requests_aside(8)]
    keeps_aside [OF _ blob_requests_aside(9)]\<close>)

lemma server_run_keeps:
  assumes "normal_form nfc" "server_run sha nfc digest kdf st st'" "server_good nfc (fst st)"
  shows "keeps nfc (fst st) (fst st')"
  using assms(2)
proof (induction rule: rtranclp_induct)
  case base
  then show ?case using keeps_aside [OF assms(3)] by simp
next
  case (step st1 st2)
  have "keeps nfc (fst st1) (fst st2)"
    using server_step_keeps [OF assms(1) step.hyps(2)] step.IH by (simp add: keeps_def)
  with step.IH show ?case by (rule keeps_trans)
qed

lemma reachable_good:
  "normal_form nfc \<Longrightarrow> server_run sha nfc digest kdf (default_state, empty_disk) st \<Longrightarrow> server_good nfc (fst st)"
  using server_run_keeps [of nfc sha digest kdf "(default_state, empty_disk)" st] by (simp add: keeps_def)

section \<open>A small run\<close>

definition sample_commit :: dict where
  "sample_commit = [(''commit_intent_id'', JStr ''i1''), (''base_revision'', JInt 0),
     (''intent_manifest_hash'', JStr ''h''), (''created_by_device'', JStr ''d1''),
     (''blob_refs'', JArr []),
     (''manifest'', JObj [(''vault_id'', JStr ''v''), (''base_revision'', JInt 0),
        (''created_by_device'', JStr ''d1''), (''created_at'', JInt 4), (''files'', JArr []),
        (''tombstones'', JArr [JObj [(''file_id'', JStr ''f''), (''deleted_revision'', JNull)]])])]"

definition committed :: server where
  "committed = (case create_commit rev id ''v'' sample_commit None 5 default_state of
     Inr (_, sv) \<Rightarrow> sv | Inl _ \<Rightarrow> default_state)"

lemma sample_commit_made:
  obtains rs where "create_commit rev id ''v'' sample_commit None 5 default_state = Inr (rs, committed)"
    "rs_new_revision rs = 1"
proof -
  have "case create_commit rev id ''v'' sample_commit None 5 default_state of
      Inr (rs, _) \<Rightarrow> rs_new_revision rs = 1 | Inl _ \<Rightarrow> False" by code_simp
  then show ?thesis
    using that by (cases "create_commit rev id ''v'' sample_commit None 5 default_state")
      (auto simp: committed_def)
qed

lemma committed_reached: "server_run rev id digest kdf (default_state, empty_disk) (committed, empty_disk)"
  by (rule sample_commit_made) (blast intro: r_into_rtranclp server_step.commit)

section \<open>What clients rely on\<close>

text \<open>C8: The history of every vault is append-only and complete. In every reachable state each vault
  has exactly the manifests of revisions 1 to its head, each stored under its own revision with
  the revision before it as its base, the head summary is that of the head manifest, the commit
  records stand in bijection with the revisions, no device has acknowledged more than the head,
  every stored manifest is in normal form and no file version is ahead of the head; and whatever
  requests follow, no stored manifest or commit record changes or goes, the head never moves back
  and no acknowledgement is lowered.\<close>

theorem reachable_history:
  assumes "normal_form nfc" "server_run sha nfc digest kdf (default_state, empty_disk) (sv, dk)"
    "server_run sha nfc digest kdf (sv, dk) (sv', dk')"
  shows "vault_ok (vault_of sv vid) \<and> vault_data_ok nfc (vault_of sv vid)
    \<and> extends (vault_of sv vid) (vault_of sv' vid)"
proof -
  have "server_good nfc sv" using reachable_good [OF assms(1,2)] by simp
  then show ?thesis
    using server_run_keeps [OF assms(1,3)] server_goodD by (simp add: keeps_def sv_extends_def)
qed

lemma reachable_history_witness:
  "vault_ok (vault_of default_state ''v'') \<and> vault_data_ok id (vault_of default_state ''v'')
    \<and> extends (vault_of default_state ''v'') (vault_of committed ''v'') \<and> vt_head_revision (vault_of committed ''v'') = 1"
proof -
  have "vt_head_revision (vault_of committed ''v'') = 1" by code_simp
  with reachable_history [OF normal_form_id rtranclp.rtrancl_refl committed_reached, where vid = "''v''"]
  show ?thesis by blast
qed

lemma create_commit_parts:
  assumes "create_commit sha nfc vid payload auth now sv = Inr (rs, sv')"
  obtains i b h m d where "require_string payload ''commit_intent_id'' = Inr i"
    "require_non_negative_int payload ''base_revision'' = Inr b"
    "require_string payload ''intent_manifest_hash'' = Inr h"
    "\<And>t s. create_commit sha nfc vid payload auth t s = commit_mutation sha nfc vid payload i b h m d t s"
    "commit_mutation sha nfc vid payload i b h m d now sv = Inr (rs, sv')"
    "vt_commits (vault_of sv' vid) i \<noteq> None"
    "cr_intent_manifest_hash (the (vt_commits (vault_of sv' vid) i)) = h"
    "cr_revision (the (vt_commits (vault_of sv' vid) i)) = rs_new_revision rs"
proof -
  from assms obtain i b h m d where p: "require_string payload ''commit_intent_id'' = Inr i"
    "require_non_negative_int payload ''base_revision'' = Inr b"
    "require_string payload ''intent_manifest_hash'' = Inr h" "dget payload ''manifest'' = JObj m"
    "dget m ''vault_id'' = JStr vid" "py_int (dget m ''base_revision'') = Some b"
    "commit_device payload m auth = Inr d"
    and c: "commit_mutation sha nfc vid payload i b h m d now sv = Inr (rs, sv')"
    by (auto simp: create_commit_def result_simps)
  have all: "create_commit sha nfc vid payload auth t s = commit_mutation sha nfc vid payload i b h m d t s" for t s
    by (simp add: create_commit_def p)
  have "\<exists>k. vt_commits (vault_of sv' vid) i = Some k \<and> cr_intent_manifest_hash k = h \<and> cr_revision k = rs_new_revision rs"
  proof (cases "vt_commits (vault_of sv vid) i")
    case (Some k)
    with c show ?thesis by (auto simp: commit_mutation_replay split: if_splits)
  next
    case None
    from None c show ?thesis
      by (cases rule: commit_mutation_fresh) (simp add: client_commit_def)
  qed
  then show ?thesis using that [OF p(1-3) all c] by auto
qed



text \<open>C9: One winner per base revision. After a commit created revision \<open>r\<close>, in every state the
  server reaches, a well-formed commit with a new intent whose base is before \<open>r\<close> is refused with
  \<open>base_revision_conflict\<close>, carrying the head the client has to pull; in particular of two clients
  that prepared a commit on the same head only one succeeds.\<close>

theorem stale_commit_refused:
  assumes nf: "normal_form nfc" and reach: "server_run sha nfc digest kdf (default_state, empty_disk) (sv, dk)"
    and c: "create_commit sha nfc vid payload auth now sv = Inr (rs, sv1)"
    and later: "server_run sha nfc digest kdf (sv1, dk) (sv2, dk2)"
    and q: "require_string q ''commit_intent_id'' = Inr j" "require_non_negative_int q ''base_revision'' = Inr b"
      "require_string q ''intent_manifest_hash'' = Inr h" "dget q ''manifest'' = JObj m"
      "dget m ''vault_id'' = JStr vid" "py_int (dget m ''base_revision'') = Some b"
      "commit_device q m auth' = Inr d"
    and stale: "vt_commits (vault_of sv2 vid) j = None" "b < rs_new_revision rs"
  shows "create_commit sha nfc vid q auth' now' sv2
    = Inl (commit_conflict (vault_of sv2 vid) ''base_revision_conflict'')"
proof -
  from c obtain i k where k: "vt_commits (vault_of sv1 vid) i = Some k" "cr_revision k = rs_new_revision rs"
    by (rule create_commit_parts) auto
  have good: "server_good nfc sv" using reachable_good [OF nf reach] by simp
  have good1: "server_good nfc sv1" using create_commit_step [OF nf good c] by (simp add: keeps_def)
  then have "extends (vault_of sv1 vid) (vault_of sv2 vid)"
    using server_run_keeps [OF nf later] by (simp add: keeps_def sv_extends_def)
  moreover have "rs_new_revision rs \<le> vt_head_revision (vault_of sv1 vid)"
    using commit_bounds [OF server_goodD(2) [OF good1] k(1)] k(2) by simp
  ultimately have "b \<noteq> vt_head_revision (vault_of sv2 vid)" using stale(2) by (simp add: extends_def)
  then show ?thesis using stale(1) by (simp add: create_commit_def q commit_mutation_def Let_def)
qed

lemma stale_commit_refused_witness:
  "create_commit rev id ''v'' (AList.update ''commit_intent_id'' (JStr ''i2'') sample_commit) (Some ''d2'') 9 committed
    = Inl (commit_conflict (vault_of committed ''v'') ''base_revision_conflict'')"
proof -
  let ?q = "AList.update ''commit_intent_id'' (JStr ''i2'') sample_commit"
  obtain rs where rs: "create_commit rev id ''v'' sample_commit None 5 default_state = Inr (rs, committed)"
    "rs_new_revision rs = 1" by (rule sample_commit_made)
  let ?m = "[(''vault_id'', JStr ''v''), (''base_revision'', JInt 0),
        (''created_by_device'', JStr ''d1''), (''created_at'', JInt 4), (''files'', JArr []),
        (''tombstones'', JArr [JObj [(''file_id'', JStr ''f''), (''deleted_revision'', JNull)]])]"
  show ?thesis
  proof (rule stale_commit_refused [OF normal_form_id rtranclp.rtrancl_refl rs(1) rtranclp.rtrancl_refl])
    show "require_string ?q ''commit_intent_id'' = Inr ''i2''" by code_simp
    show "require_non_negative_int ?q ''base_revision'' = Inr 0" by code_simp
    show "require_string ?q ''intent_manifest_hash'' = Inr ''h''" by code_simp
    show "dget ?q ''manifest'' = JObj ?m" by code_simp
    show "dget ?m ''vault_id'' = JStr ''v''" "py_int (dget ?m ''base_revision'') = Some 0" by code_simp+
    show "commit_device ?q ?m (Some ''d2'') = Inr ''d1''" by code_simp
    show "vt_commits (vault_of committed ''v'') ''i2'' = None" by code_simp
    show "0 < rs_new_revision rs" using rs(2) by simp
  qed
qed



text \<open>C16: A removed device stays out. Once a device is removed its sessions are revoked and its
  capabilities and uploads are gone, and in every state the server reaches afterwards no access
  token authorizes as that device, no refresh token renews a session of it, its heartbeat is
  refused, and it no longer holds up the collection of tombstones in any vault.\<close>

theorem removed_device_stays_out:
  assumes nf: "normal_form nfc" and reach: "server_run sha nfc digest kdf (default_state, empty_disk) (sv, dk)"
    and r: "delete_device sha nfc run_ids d actor t now (sv, dk) = (Inr True, sv1, dk1)"
    and fresh: "\<forall>vid. vt_commits (vault_of sv vid) (gc_commit_id (run_ids vid)) = None"
    and later: "server_run sha nfc digest kdf (sv1, dk1) (sv2, dk2)"
  shows "(\<forall>(i, ss) \<in> set (sv_sessions sv1). ss_device_id ss = d \<longrightarrow> ss_revoked_at_ms ss = Some t)
    \<and> (\<forall>c \<in> ran (sv_capabilities sv1). cp_device_id c \<noteq> Some d)
    \<and> (\<forall>(i, up) \<in> set (sv_uploads sv1). up_device_id up \<noteq> Some d)
    \<and> (\<forall>token now'. device_id_for_token token now' sv2 \<noteq> Some d)
    \<and> (\<forall>na nr payload now' t sv3. refresh_session na nr payload now' sv2 = Inr (t, sv3) \<longrightarrow> tr_device_id t \<noteq> d)
    \<and> (\<forall>vid now'. heartbeat_device vid d now' sv2
        = Inl (SyncStoreError ''device_not_found'' ''Device was not found''))
    \<and> (\<forall>v. d \<notin> set (active_vault_device_ids sv2 v))"
proof -
  have good: "server_good nfc sv" using reachable_good [OF nf reach] by simp
  have "server_good nfc sv1" using remove_device_step [OF nf good fresh r] by (simp add: keeps_def)
  then have "devices_move_on sv1 sv2" using server_run_keeps [OF nf later] by (simp add: keeps_def)
  then have gone: "device_gone d sv2"
    using delete_device_gone [OF r] by (simp add: devices_move_on_def)
  have "device_id_for_token token now' sv2 \<noteq> Some d" for token now'
    using gone_not_authorized [OF gone] by (auto simp: device_id_for_token_def split: sum.splits)
  with delete_device_gone [OF r] gone_not_refreshed [OF gone] gone_no_heartbeat [OF gone] gone_not_active [OF gone]
  show ?thesis by blast
qed

lemma removed_device_stays_out_witness:
  "\<exists>sv1. delete_device rev id id ''dev_1'' None 7 8 (registered_server, empty_disk) = (Inr True, sv1, empty_disk)
    \<and> device_id_for_token ''at_1'' 6 registered_server = Some ''dev_1''
    \<and> device_id_for_token ''at_1'' 6 sv1 \<noteq> Some ''dev_1''"
proof -
  let ?d = "delete_device rev id id ''dev_1'' None 7 8 (registered_server, empty_disk)"
  have "\<not> isl (register_device ''u1'' (sample_ids ''1'') sample_registration 5 default_state)" by code_simp
  then obtain t where "register_device ''u1'' (sample_ids ''1'') sample_registration 5 default_state
      = Inr (t, registered_server)"
    by (cases "register_device ''u1'' (sample_ids ''1'') sample_registration 5 default_state")
       (auto simp: registered_server_def)
  moreover have "fresh_for (sample_ids ''1'') default_state" by (simp add: fresh_for_def default_state_def)
  ultimately have reach: "server_run rev id rev weak_kdf (default_state, empty_disk) (registered_server, empty_disk)"
    by (blast intro: r_into_rtranclp server_step.register)
  have v: "sv_vaults registered_server = []" by code_simp
  then have fresh: "\<forall>vid. vt_commits (vault_of registered_server vid) (gc_commit_id (id vid)) = None"
    by (simp add: vault_of_def new_vault_def)
  have "fst ?d = Inr True" by code_simp
  then obtain sv1 dk1 where d: "?d = (Inr True, sv1, dk1)" by (cases ?d) auto
  have u: "sv_uploads registered_server = []" by code_simp
  have "dk1 = empty_disk"
    using d by (cases rule: delete_device_cases) (simp_all add: drop_device_chunk_files_def u)
  moreover have "device_id_for_token ''at_1'' 6 registered_server = Some ''dev_1''" by code_simp
  ultimately show ?thesis
    using removed_device_stays_out [OF normal_form_id reach d fresh rtranclp.rtrancl_refl] d by blast
qed

end
