(* ===== verification/Server_Repository.thy ===== *)
theory Server_Repository
  imports Server_Versions
begin

text \<open>
  The state repositories of \<open>noteapp-server/sync_repository.py\<close>: where the server keeps its one
  JSON document. The JSON profile holds it in a file; the SQLite profile holds it in the row
  \<open>current\<close> of \<open>sync_state\<close>, with a version that a writer must have seen, and derives fifteen
  tables from it in the same transaction.

  A document is a dictionary. The text of a document is represented by the document that was
  written; reading it back (\<open>json.loads\<close>) gives its entries in key order at every level, since
  \<open>json.dumps\<close> is called with \<open>sort_keys\<close>: that is \<open>json_canon\<close>.
\<close>

section \<open>Documents\<close>

fun json_canon :: "json \<Rightarrow> json" where
  "json_canon (JArr vs) = JArr (map json_canon vs)"
| "json_canon (JObj kvs) = JObj (sort_key fst (map (\<lambda>(k, v). (k, json_canon v)) kvs))"
| "json_canon v = v"

definition canon_dict :: "dict \<Rightarrow> dict" where
  "canon_dict d = sort_key fst (map (\<lambda>(k, v). (k, json_canon v)) d)"

abbreviation REPOSITORY_VERSION_KEY :: string where
  "REPOSITORY_VERSION_KEY \<equiv> ''_repository_version''"

definition strip_repository_metadata :: "dict \<Rightarrow> dict" where
  "strip_repository_metadata st = AList.delete REPOSITORY_VERSION_KEY st"

definition mark :: "int \<Rightarrow> dict \<Rightarrow> dict" where
  "mark v st = AList.update REPOSITORY_VERSION_KEY (JInt v) st"

datatype repo_error =
    StateRepositoryConflict string string
  | SqliteIntegrityError string
  | SqliteOverflowError
  | NotADocument
  | MutatorRaised server_error

section \<open>The JSON repository\<close>

datatype tmp_text = Partial | Whole dict

record json_files =
  jf_state :: "dict option"
  jf_tmp :: "tmp_text option"

definition json_repo_load :: "dict \<Rightarrow> json_files \<Rightarrow> dict" where
  "json_repo_load default_doc fs = mark 0 (case jf_state fs of None \<Rightarrow> default_doc | Some d \<Rightarrow> canon_dict d)"

text \<open>The writes of \<open>save\<close> in order: the temporary file is opened (and truncated), filled, and
  renamed over the state file.\<close>

definition json_save_writes :: "dict \<Rightarrow> (json_files \<Rightarrow> json_files) list" where
  "json_save_writes st =
     [\<lambda>fs. fs\<lparr>jf_tmp := Some Partial\<rparr>,
      \<lambda>fs. fs\<lparr>jf_tmp := Some (Whole (strip_repository_metadata st))\<rparr>,
      \<lambda>fs. fs\<lparr>jf_state := Some (strip_repository_metadata st), jf_tmp := None\<rparr>]"

definition json_save :: "dict \<Rightarrow> json_files \<Rightarrow> json_files" where
  "json_save st fs = fold (\<lambda>w. w) (json_save_writes st) fs"

definition json_save_interrupted :: "nat \<Rightarrow> dict \<Rightarrow> json_files \<Rightarrow> json_files" where
  "json_save_interrupted n st fs = fold (\<lambda>w. w) (take n (json_save_writes st)) fs"

definition json_update ::
  "dict \<Rightarrow> (dict \<Rightarrow> ('a \<times> dict) sresult) \<Rightarrow> json_files \<Rightarrow> (repo_error + 'a) \<times> json_files" where
  "json_update default_doc mutator fs =
     (case mutator (json_repo_load default_doc fs) of
        Inl e \<Rightarrow> (Inl (MutatorRaised e), fs)
      | Inr (x, st) \<Rightarrow> (Inr x, json_save st fs))"

section \<open>The tables\<close>

datatype column_type = SqlText | SqlInteger

record column =
  co_name :: string
  co_type :: column_type
  co_not_null :: bool

record table_def =
  td_columns :: "column list"
  td_primary_key :: "string list"

type_synonym sql_row = "(string \<times> json) list"
type_synonym sql_tables = "string \<Rightarrow> sql_row list"

definition text_col :: "string \<Rightarrow> column" where
  "text_col n = \<lparr>co_name = n, co_type = SqlText, co_not_null = False\<rparr>"

definition text_col_not_null :: "string \<Rightarrow> column" where
  "text_col_not_null n = \<lparr>co_name = n, co_type = SqlText, co_not_null = True\<rparr>"

definition int_col :: "string \<Rightarrow> column" where
  "int_col n = \<lparr>co_name = n, co_type = SqlInteger, co_not_null = False\<rparr>"

definition int_col_not_null :: "string \<Rightarrow> column" where
  "int_col_not_null n = \<lparr>co_name = n, co_type = SqlInteger, co_not_null = True\<rparr>"

definition PROJECTION_TABLES :: "string list" where
  "PROJECTION_TABLES = [''users'', ''user_logins'', ''devices'', ''sessions'', ''access_tokens'',
     ''refresh_tokens'', ''vaults'', ''manifests'', ''commits'', ''vault_acks'', ''blobs'',
     ''capabilities'', ''resumable_upload_sessions'', ''file_versions'', ''tombstone_gc_runs'']"

definition SQLITE_SCHEMA :: "(string \<times> table_def) list" where
  "SQLITE_SCHEMA = [
    (''users'', \<lparr>td_columns = [text_col ''user_id'', text_col ''account_key'', text_col ''display_name'',
       text_col ''status'', int_col ''created_at_ms'', int_col ''updated_at_ms'',
       text_col_not_null ''payload_json''], td_primary_key = [''user_id'']\<rparr>),
    (''user_logins'', \<lparr>td_columns = [text_col ''account_key'', text_col_not_null ''user_id''],
       td_primary_key = [''account_key'']\<rparr>),
    (''devices'', \<lparr>td_columns = [text_col ''device_id'', text_col ''user_id'', text_col ''device_name'',
       text_col ''platform'', text_col ''app_version'', text_col ''protocol_version'', text_col ''session_id'',
       int_col_not_null ''revoked'', int_col ''registered_at_ms'', int_col ''last_seen_at_ms'',
       int_col ''revoked_at_ms'', text_col_not_null ''payload_json''], td_primary_key = [''device_id'']\<rparr>),
    (''sessions'', \<lparr>td_columns = [text_col ''session_id'', text_col ''user_id'', text_col ''device_id'',
       text_col ''access_token'', text_col ''refresh_token'', int_col ''access_expires_at_ms'',
       int_col ''refresh_expires_at_ms'', int_col ''created_at_ms'', int_col ''updated_at_ms'',
       int_col ''revoked_at_ms'', text_col_not_null ''payload_json''], td_primary_key = [''session_id'']\<rparr>),
    (''access_tokens'', \<lparr>td_columns = [text_col ''token'', text_col_not_null ''session_id''],
       td_primary_key = [''token'']\<rparr>),
    (''refresh_tokens'', \<lparr>td_columns = [text_col ''token'', text_col_not_null ''session_id''],
       td_primary_key = [''token'']\<rparr>),
    (''vaults'', \<lparr>td_columns = [text_col ''vault_id'', int_col ''head_revision'', text_col ''manifest_summary'',
       text_col_not_null ''payload_json''], td_primary_key = [''vault_id'']\<rparr>),
    (''manifests'', \<lparr>td_columns = [text_col_not_null ''vault_id'', int_col_not_null ''revision'',
       text_col ''summary_hash'', text_col ''created_by_device'', int_col ''created_at_ms'',
       text_col_not_null ''payload_json''], td_primary_key = [''vault_id'', ''revision'']\<rparr>),
    (''commits'', \<lparr>td_columns = [text_col_not_null ''vault_id'', text_col_not_null ''commit_intent_id'',
       int_col ''revision'', text_col ''intent_manifest_hash'', text_col ''created_by_device'',
       int_col ''committed_at_ms'', text_col_not_null ''payload_json''],
       td_primary_key = [''vault_id'', ''commit_intent_id'']\<rparr>),
    (''vault_acks'', \<lparr>td_columns = [text_col_not_null ''vault_id'', text_col_not_null ''device_id'',
       int_col_not_null ''acked_revision''], td_primary_key = [''vault_id'', ''device_id'']\<rparr>),
    (''blobs'', \<lparr>td_columns = [text_col ''blob_id'', text_col ''filename'', text_col ''object_key'',
       text_col ''status'', int_col ''encrypted_size'', text_col ''content_hash'', text_col ''encrypted_sha256'',
       int_col ''uploaded_at_ms'', text_col_not_null ''payload_json''], td_primary_key = [''blob_id'']\<rparr>),
    (''capabilities'', \<lparr>td_columns = [text_col ''token'', text_col ''kind'', text_col ''vault_id'',
       text_col ''device_id'', text_col ''blob_id'', int_col ''expires_at_ms'',
       text_col_not_null ''payload_json''], td_primary_key = [''token'']\<rparr>),
    (''resumable_upload_sessions'', \<lparr>td_columns = [text_col ''session_id'', text_col ''vault_id'',
       text_col ''device_id'', text_col ''blob_id'', int_col ''encrypted_size'', int_col ''chunk_size'',
       int_col ''expires_at_ms'', int_col ''created_at_ms'', int_col ''updated_at_ms'',
       text_col_not_null ''payload_json''], td_primary_key = [''session_id'']\<rparr>),
    (''file_versions'', \<lparr>td_columns = [text_col ''version_id'', text_col_not_null ''vault_id'',
       text_col ''file_id'', int_col ''revision'', text_col ''blob_id'', text_col ''source'',
       int_col ''created_at_ms'', int_col_not_null ''pinned'', text_col_not_null ''payload_json''],
       td_primary_key = [''version_id'']\<rparr>),
    (''tombstone_gc_runs'', \<lparr>td_columns = [text_col_not_null ''vault_id'', int_col_not_null ''run_index'',
       int_col ''new_revision'', text_col ''reason'', text_col_not_null ''payload_json''],
       td_primary_key = [''vault_id'', ''run_index'']\<rparr>)]"

text \<open>What \<open>sqlite3\<close> does with an insert: a Python integer beyond 64 bits cannot be bound; then
  the \<open>NOT NULL\<close> and \<open>PRIMARY KEY\<close> constraints are enforced.\<close>

definition int64 :: "int \<Rightarrow> bool" where
  "int64 i \<longleftrightarrow> - (2 ^ 63) \<le> i \<and> i < 2 ^ 63"

fun binds :: "json \<Rightarrow> bool" where
  "binds (JInt i) = int64 i"
| "binds _ = True"

definition key_of :: "table_def \<Rightarrow> sql_row \<Rightarrow> json list" where
  "key_of td row = map (dget row) (td_primary_key td)"

definition no_nulls :: "table_def \<Rightarrow> sql_row \<Rightarrow> bool" where
  "no_nulls td row \<longleftrightarrow> (\<forall>c \<in> set (td_columns td). co_not_null c \<longrightarrow> dget row (co_name c) \<noteq> JNull)"

definition insert_row :: "string \<Rightarrow> sql_row \<Rightarrow> sql_tables \<Rightarrow> repo_error + sql_tables" where
  "insert_row t row ts = (case map_of SQLITE_SCHEMA t of
     None \<Rightarrow> Inl (SqliteIntegrityError t)
   | Some td \<Rightarrow>
       if \<not> list_all binds (map snd row) then Inl SqliteOverflowError
       else if \<not> no_nulls td row then Inl (SqliteIntegrityError t)
       else if key_of td row \<in> set (map (key_of td) (ts t)) then Inl (SqliteIntegrityError t)
       else Inr (ts(t := ts t @ [row])))"

fun insert_rows :: "(string \<times> sql_row) list \<Rightarrow> sql_tables \<Rightarrow> repo_error + sql_tables" where
  "insert_rows [] ts = Inr ts"
| "insert_rows ((t, row) # rows) ts = rbind (insert_row t row ts) (insert_rows rows)"

section \<open>The projection\<close>

definition db_int :: "int option \<Rightarrow> json" where
  "db_int = opt_json JInt"

definition db_as_int :: "dict \<Rightarrow> string \<Rightarrow> json" where
  "db_as_int payload key = db_int (py_int (dget payload key))"

definition db_as_str :: "dict \<Rightarrow> string \<Rightarrow> json" where
  "db_as_str payload key = opt_json JStr (py_str (dget payload key))"

definition db_as_bool_int :: "dict \<Rightarrow> string \<Rightarrow> json" where
  "db_as_bool_int payload key = JInt (if py_false (dget payload key) then 0 else 1)"

definition db_payload :: "dict \<Rightarrow> json" where
  "db_payload d = JStr (json_dumps (JObj d))"

text \<open>The entries of the object under a key (none if there is no object there), as the loops over
  \<open>state.get(key)\<close> see them, and the ones whose value is an object.\<close>

definition entries :: "dict \<Rightarrow> string \<Rightarrow> (string \<times> json) list" where
  "entries d key = (case dget d key of JObj kvs \<Rightarrow> kvs | _ \<Rightarrow> [])"

fun object_entry :: "string \<times> json \<Rightarrow> (string \<times> dict) list" where
  "object_entry (k, JObj d) = [(k, d)]"
| "object_entry _ = []"

definition object_entries :: "dict \<Rightarrow> string \<Rightarrow> (string \<times> dict) list" where
  "object_entries d key = concat (map object_entry (entries d key))"

fun str_entry :: "string \<times> json \<Rightarrow> (string \<times> string) list" where
  "str_entry (k, JStr s) = [(k, s)]"
| "str_entry _ = []"

definition str_entries :: "dict \<Rightarrow> string \<Rightarrow> (string \<times> string) list" where
  "str_entries d key = concat (map str_entry (entries d key))"

definition project_users :: "dict \<Rightarrow> (string \<times> sql_row) list" where
  "project_users st =
     map (\<lambda>(user_id, user). (''users'', [(''user_id'', JStr user_id),
       (''account_key'', db_as_str user ''account_key''),
       (''display_name'', db_as_str user ''display_name''),
       (''status'', db_as_str user ''status''),
       (''created_at_ms'', db_as_int user ''created_at_ms''),
       (''updated_at_ms'', db_as_int user ''updated_at_ms''),
       (''payload_json'', db_payload user)])) (object_entries st ''users'')
     @ map (\<lambda>(account_key, user_id). (''user_logins'', [(''account_key'', JStr account_key),
         (''user_id'', JStr user_id)])) (str_entries st ''user_logins'')"

definition project_devices :: "dict \<Rightarrow> (string \<times> sql_row) list" where
  "project_devices st =
     map (\<lambda>(device_id, device). (''devices'', [(''device_id'', JStr device_id),
       (''user_id'', db_as_str device ''user_id''),
       (''device_name'', db_as_str device ''device_name''),
       (''platform'', db_as_str device ''platform''),
       (''app_version'', db_as_str device ''app_version''),
       (''protocol_version'', db_as_str device ''protocol_version''),
       (''session_id'', db_as_str device ''session_id''),
       (''revoked'', db_as_bool_int device ''revoked''),
       (''registered_at_ms'', db_as_int device ''registered_at_ms''),
       (''last_seen_at_ms'', db_as_int device ''last_seen_at_ms''),
       (''revoked_at_ms'', db_as_int device ''revoked_at_ms''),
       (''payload_json'', db_payload device)])) (object_entries st ''devices'')"

definition project_sessions :: "dict \<Rightarrow> (string \<times> sql_row) list" where
  "project_sessions st =
     map (\<lambda>(session_id, session). (''sessions'', [(''session_id'', JStr session_id),
       (''user_id'', db_as_str session ''user_id''),
       (''device_id'', db_as_str session ''device_id''),
       (''access_token'', db_as_str session ''access_token''),
       (''refresh_token'', db_as_str session ''refresh_token''),
       (''access_expires_at_ms'', db_as_int session ''access_expires_at_ms''),
       (''refresh_expires_at_ms'', db_as_int session ''refresh_expires_at_ms''),
       (''created_at_ms'', db_as_int session ''created_at_ms''),
       (''updated_at_ms'', db_as_int session ''updated_at_ms''),
       (''revoked_at_ms'', db_as_int session ''revoked_at_ms''),
       (''payload_json'', db_payload session)])) (object_entries st ''sessions'')
     @ map (\<lambda>(token, session_id). (''access_tokens'', [(''token'', JStr token),
         (''session_id'', JStr session_id)])) (str_entries st ''tokens'')
     @ map (\<lambda>(token, session_id). (''refresh_tokens'', [(''token'', JStr token),
         (''session_id'', JStr session_id)])) (str_entries st ''refresh_tokens'')"

definition manifest_row_revision :: "string \<Rightarrow> dict \<Rightarrow> int option" where
  "manifest_row_revision revision_key manifest = (case py_int (dget manifest ''revision'') of
     Some r \<Rightarrow> Some r
   | None \<Rightarrow> int_of_text revision_key)"

definition project_manifests :: "string \<Rightarrow> dict \<Rightarrow> (string \<times> sql_row) list" where
  "project_manifests vault_id vault =
     concat (map (\<lambda>(revision_key, manifest). case manifest_row_revision revision_key manifest of
         None \<Rightarrow> []
       | Some revision \<Rightarrow> [(''manifests'', [(''vault_id'', JStr vault_id),
           (''revision'', JInt revision),
           (''summary_hash'', db_as_str manifest ''summary_hash''),
           (''created_by_device'', db_as_str manifest ''created_by_device''),
           (''created_at_ms'', db_as_int manifest ''created_at''),
           (''payload_json'', db_payload manifest)])]) (object_entries vault ''manifests''))"

definition project_commits :: "string \<Rightarrow> dict \<Rightarrow> (string \<times> sql_row) list" where
  "project_commits vault_id vault =
     map (\<lambda>(commit_intent_id, commit). (''commits'', [(''vault_id'', JStr vault_id),
       (''commit_intent_id'', JStr commit_intent_id),
       (''revision'', db_as_int commit ''revision''),
       (''intent_manifest_hash'', db_as_str commit ''intent_manifest_hash''),
       (''created_by_device'', db_as_str commit ''created_by_device''),
       (''committed_at_ms'', db_as_int commit ''committed_at_ms''),
       (''payload_json'', db_payload commit)])) (object_entries vault ''commits'')"

definition project_acks :: "string \<Rightarrow> dict \<Rightarrow> (string \<times> sql_row) list" where
  "project_acks vault_id vault =
     concat (map (\<lambda>(device_id, acked). case py_int acked of
         None \<Rightarrow> []
       | Some acked_revision \<Rightarrow> [(''vault_acks'', [(''vault_id'', JStr vault_id),
           (''device_id'', JStr device_id), (''acked_revision'', JInt acked_revision)])])
       (entries vault ''acks''))"

definition project_tombstone_gc_runs :: "string \<Rightarrow> dict \<Rightarrow> (string \<times> sql_row) list" where
  "project_tombstone_gc_runs vault_id vault = (case dget vault ''tombstone_gc'' of
     JObj tombstone_gc \<Rightarrow> (case dget tombstone_gc ''runs'' of
       JArr runs \<Rightarrow> concat (map (\<lambda>(index, run). case run of
           JObj run \<Rightarrow> [(''tombstone_gc_runs'', [(''vault_id'', JStr vault_id),
             (''run_index'', JInt (int index)),
             (''new_revision'', db_as_int run ''new_revision''),
             (''reason'', db_as_str run ''reason''),
             (''payload_json'', db_payload run)])]
         | _ \<Rightarrow> []) (List.enumerate 0 runs))
     | _ \<Rightarrow> [])
   | _ \<Rightarrow> [])"

definition project_file_versions :: "string \<Rightarrow> dict \<Rightarrow> (string \<times> sql_row) list" where
  "project_file_versions vault_id vault = (case dget vault ''file_versions'' of
     JObj file_versions \<Rightarrow>
       map (\<lambda>(version_id, record). (''file_versions'', [(''version_id'', JStr version_id),
         (''vault_id'', JStr vault_id),
         (''file_id'', db_as_str record ''file_id''),
         (''revision'', db_as_int record ''revision''),
         (''blob_id'', db_as_str record ''blob_id''),
         (''source'', db_as_str record ''source''),
         (''created_at_ms'', db_as_int record ''created_at''),
         (''pinned'', db_as_bool_int record ''pinned''),
         (''payload_json'', db_payload record)])) (object_entries file_versions ''records'')
   | _ \<Rightarrow> [])"

definition project_vaults :: "dict \<Rightarrow> (string \<times> sql_row) list" where
  "project_vaults st =
     concat (map (\<lambda>(vault_id, vault).
         (''vaults'', [(''vault_id'', JStr vault_id),
           (''head_revision'', db_as_int vault ''head_revision''),
           (''manifest_summary'', db_as_str vault ''manifest_summary''),
           (''payload_json'', db_payload vault)])
         # project_manifests vault_id vault @ project_commits vault_id vault
         @ project_acks vault_id vault @ project_tombstone_gc_runs vault_id vault
         @ project_file_versions vault_id vault) (object_entries st ''vaults''))"

definition project_blobs :: "dict \<Rightarrow> (string \<times> sql_row) list" where
  "project_blobs st =
     map (\<lambda>(blob_id, blob). (''blobs'', [(''blob_id'', JStr blob_id),
       (''filename'', db_as_str blob ''filename''),
       (''object_key'', db_as_str blob ''object_key''),
       (''status'', db_as_str blob ''status''),
       (''encrypted_size'', db_as_int blob ''encrypted_size''),
       (''content_hash'', db_as_str blob ''content_hash''),
       (''encrypted_sha256'', db_as_str blob ''encrypted_sha256''),
       (''uploaded_at_ms'', db_as_int blob ''uploaded_at_ms''),
       (''payload_json'', db_payload blob)])) (object_entries st ''blobs'')"

definition project_capabilities :: "dict \<Rightarrow> (string \<times> sql_row) list" where
  "project_capabilities st =
     map (\<lambda>(token, capability). (''capabilities'', [(''token'', JStr token),
       (''kind'', db_as_str capability ''kind''),
       (''vault_id'', db_as_str capability ''vault_id''),
       (''device_id'', db_as_str capability ''device_id''),
       (''blob_id'', db_as_str capability ''blob_id''),
       (''expires_at_ms'', db_as_int capability ''expires_at_ms''),
       (''payload_json'', db_payload capability)])) (object_entries st ''capabilities'')"

definition project_resumable_upload_sessions :: "dict \<Rightarrow> (string \<times> sql_row) list" where
  "project_resumable_upload_sessions st =
     map (\<lambda>(session_id, session). (''resumable_upload_sessions'', [(''session_id'', JStr session_id),
       (''vault_id'', db_as_str session ''vault_id''),
       (''device_id'', db_as_str session ''device_id''),
       (''blob_id'', db_as_str session ''blob_id''),
       (''encrypted_size'', db_as_int session ''encrypted_size''),
       (''chunk_size'', db_as_int session ''chunk_size''),
       (''expires_at_ms'', db_as_int session ''expires_at_ms''),
       (''created_at_ms'', db_as_int session ''created_at_ms''),
       (''updated_at_ms'', db_as_int session ''updated_at_ms''),
       (''payload_json'', db_payload session)])) (object_entries st ''resumable_upload_sessions'')"

definition projection :: "dict \<Rightarrow> (string \<times> sql_row) list" where
  "projection st = project_users st @ project_devices st @ project_sessions st @ project_vaults st
     @ project_blobs st @ project_capabilities st @ project_resumable_upload_sessions st"

definition clear_tables :: "sql_tables \<Rightarrow> sql_tables" where
  "clear_tables ts = fold (\<lambda>t ts. ts(t := [])) PROJECTION_TABLES ts"

definition replace_projection :: "dict \<Rightarrow> sql_tables \<Rightarrow> repo_error + sql_tables" where
  "replace_projection st ts = insert_rows (projection st) (clear_tables ts)"

section \<open>The SQLite repository\<close>

record sync_row =
  sr_version :: int
  sr_payload :: dict
  sr_updated_at_ms :: int

record database =
  db_current :: "sync_row option"
  db_tables :: sql_tables
  db_migrations :: "(int \<times> string \<times> int) list"
  db_blob_columns :: "string list"

definition sqlite_load :: "dict \<Rightarrow> database \<Rightarrow> dict" where
  "sqlite_load default_doc db = (case db_current db of
     None \<Rightarrow> mark 0 default_doc
   | Some row \<Rightarrow> mark (sr_version row) (canon_dict (sr_payload row)))"

definition write_state_locked :: "dict \<Rightarrow> int \<Rightarrow> int \<Rightarrow> database \<Rightarrow> repo_error + database" where
  "write_state_locked st version now db =
     (let persisted = strip_repository_metadata st in
      if \<not> int64 version \<or> \<not> int64 now then Inl SqliteOverflowError
      else rbind (replace_projection persisted (db_tables db)) (\<lambda>ts.
        Inr (db\<lparr>db_current := Some \<lparr>sr_version = version, sr_payload = persisted, sr_updated_at_ms = now\<rparr>,
                db_tables := ts\<rparr>)))"

definition expected_version :: "dict \<Rightarrow> repo_error + int option" where
  "expected_version st = (case dget st REPOSITORY_VERSION_KEY of
     JNull \<Rightarrow> Inr None
   | v \<Rightarrow> (case py_int v of
       Some i \<Rightarrow> Inr (Some i)
     | None \<Rightarrow> Inl (StateRepositoryConflict ''state_write_conflict''
                 ''Repository version marker must be an integer.'')))"

text \<open>\<open>save\<close> returns the caller's document, whose marker it moved on, and the database.\<close>

definition sqlite_save :: "dict \<Rightarrow> int \<Rightarrow> database \<Rightarrow> repo_error + dict \<times> database" where
  "sqlite_save st now db = rbind (expected_version st) (\<lambda>expected.
     rbind (case db_current db of
         None \<Rightarrow> if expected \<noteq> None \<and> expected \<noteq> Some 0
                 then Inl (StateRepositoryConflict ''state_write_conflict'' ''State was created by another process.'')
                 else Inr 1
       | Some row \<Rightarrow> if expected \<noteq> None \<and> expected \<noteq> Some (sr_version row)
                 then Inl (StateRepositoryConflict ''state_write_conflict''
                        ''State changed before this write could be saved.'')
                 else Inr (sr_version row + 1)) (\<lambda>next_version.
     rbind (write_state_locked st next_version now db) (\<lambda>db'.
     Inr (mark next_version st, db'))))"

definition sqlite_update ::
  "dict \<Rightarrow> (dict \<Rightarrow> ('a \<times> dict) sresult) \<Rightarrow> int \<Rightarrow> database \<Rightarrow> (repo_error + 'a) \<times> database" where
  "sqlite_update default_doc mutator now db =
     (let (loaded, next_version) = (case db_current db of
            None \<Rightarrow> (default_doc, 1)
          | Some row \<Rightarrow> (canon_dict (sr_payload row), sr_version row + 1))
      in case mutator (mark (next_version - 1) loaded) of
           Inl e \<Rightarrow> (Inl (MutatorRaised e), db)
         | Inr (x, st) \<Rightarrow> (case write_state_locked st next_version now db of
               Inl e \<Rightarrow> (Inl e, db)
             | Inr db' \<Rightarrow> (Inr x, db')))"

definition import_state :: "json \<Rightarrow> bool \<Rightarrow> int \<Rightarrow> database \<Rightarrow> (repo_error + unit) \<times> database" where
  "import_state payload force now db =
     (if db_current db \<noteq> None \<and> \<not> force
      then (Inl (StateRepositoryConflict ''sqlite_state_exists''
                  ''SQLite state already exists; pass force=True to replace it.''), db)
      else case payload of
          JObj st \<Rightarrow> (case write_state_locked st
                (case db_current db of None \<Rightarrow> 1 | Some row \<Rightarrow> sr_version row + 1) now db of
              Inl e \<Rightarrow> (Inl e, db)
            | Inr db' \<Rightarrow> (Inr (), db'))
        | _ \<Rightarrow> (Inl NotADocument, db))"

definition ensure_column :: "string \<Rightarrow> database \<Rightarrow> database" where
  "ensure_column c db =
     (if c \<in> set (db_blob_columns db) then db else db\<lparr>db_blob_columns := db_blob_columns db @ [c]\<rparr>)"

definition record_migration :: "int \<Rightarrow> string \<Rightarrow> int \<Rightarrow> database \<Rightarrow> database" where
  "record_migration v name now db =
     (if v \<in> fst ` set (db_migrations db) then db
      else db\<lparr>db_migrations := db_migrations db @ [(v, name, now)]\<rparr>)"

abbreviation SQLITE_SCHEMA_VERSION :: int where
  "SQLITE_SCHEMA_VERSION \<equiv> 2"

definition blob_schema_columns :: "string list" where
  "blob_schema_columns = (case map_of SQLITE_SCHEMA ''blobs'' of
     None \<Rightarrow> [] | Some td \<Rightarrow> map co_name (td_columns td))"

definition migrate :: "int \<Rightarrow> database \<Rightarrow> database" where
  "migrate now db =
     (let db = (if db_blob_columns db = [] then db\<lparr>db_blob_columns := blob_schema_columns\<rparr> else db);
          db = record_migration 1 ''initial_sync_repository_schema'' now db;
          db = ensure_column ''object_key'' db;
          db = ensure_column ''status'' db
      in record_migration SQLITE_SCHEMA_VERSION ''object_storage_blob_metadata'' now db)"

definition no_database :: database where
  "no_database = \<lparr>db_current = None, db_tables = (\<lambda>_. []), db_migrations = [], db_blob_columns = []\<rparr>"

definition sqlite_path_from_database_url :: "string \<Rightarrow> string result" where
  "sqlite_path_from_database_url url =
     (if url = ''sqlite:///:memory:''
      then Inl (ValueError ''The SQLite repository profile requires a file-backed database URL.'')
      else if \<not> starts_with url ''sqlite:///''
      then Inl (ValueError ''Only sqlite:/// database URLs are supported by the current noteapp-server profile.'')
      else Inr (drop (length ''sqlite:///'') url))"


section \<open>Diagnostics\<close>

record json_diagnostics =
  jd_ok :: bool
  jd_exists :: bool
  jd_parent_exists :: bool
  jd_writable :: bool
  jd_readable :: bool

definition json_diagnostics_of :: "bool \<Rightarrow> bool \<Rightarrow> bool \<Rightarrow> json_files \<Rightarrow> json_diagnostics" where
  "json_diagnostics_of parent_exists parent_access state_access fs =
     (let state_exists = (jf_state fs \<noteq> None);
          writable = (parent_exists \<and> parent_access);
          readable = (\<not> state_exists \<or> state_access)
      in \<lparr>jd_ok = parent_exists \<and> writable \<and> readable, jd_exists = state_exists,
          jd_parent_exists = parent_exists, jd_writable = writable, jd_readable = readable\<rparr>)"

record sqlite_diagnostics =
  sd_ok :: bool
  sd_migration_versions :: "int list"
  sd_applied_schema_version :: int
  sd_state_version :: "int option"
  sd_state_updated_at_ms :: "int option"
  sd_quick_check :: string

text \<open>The answer of \<open>PRAGMA quick_check\<close> is an argument.\<close>

definition sqlite_diagnostics_of :: "string \<Rightarrow> database \<Rightarrow> sqlite_diagnostics" where
  "sqlite_diagnostics_of quick_check db =
     (let migration_versions = sort (map fst (db_migrations db)) in
      \<lparr>sd_ok = (quick_check = ''ok''), sd_migration_versions = migration_versions,
       sd_applied_schema_version = (if migration_versions = [] then 0 else Max (set migration_versions)),
       sd_state_version = map_option sr_version (db_current db),
       sd_state_updated_at_ms = map_option sr_updated_at_ms (db_current db),
       sd_quick_check = quick_check\<rparr>)"

text \<open>The document the store starts from, and its \<open>_load\<close>, which adds the missing parts.\<close>

definition default_server_state :: dict where
  "default_server_state = [(''schema_version'', JStr ''server-dev-v1''), (''users'', JObj []), (''user_logins'', JObj []),
     (''devices'', JObj []), (''sessions'', JObj []), (''tokens'', JObj []), (''refresh_tokens'', JObj []),
     (''vaults'', JObj []), (''blobs'', JObj []), (''capabilities'', JObj []),
     (''resumable_upload_sessions'', JObj [])]"

definition setdefault :: "string \<times> json \<Rightarrow> dict \<Rightarrow> dict" where
  "setdefault kv st = (case map_of st (fst kv) of None \<Rightarrow> st @ [kv] | Some _ \<Rightarrow> st)"

definition store_load :: "(dict \<Rightarrow> 's \<Rightarrow> dict) \<Rightarrow> 's \<Rightarrow> dict" where
  "store_load load s = fold setdefault default_server_state (load default_server_state s)"

fun dict_count :: "json \<Rightarrow> nat" where
  "dict_count (JObj kvs) = length kvs"
| "dict_count _ = 0"

record state_diagnostics =
  sg_schema_version :: json
  sg_repository_version :: json
  sg_user_count :: nat
  sg_device_count :: nat
  sg_vault_count :: nat
  sg_blob_count :: nat
  sg_capability_count :: nat
  sg_resumable_upload_session_count :: nat

definition state_diagnostics_of :: "dict \<Rightarrow> state_diagnostics" where
  "state_diagnostics_of st =
     \<lparr>sg_schema_version = dget st ''schema_version'', sg_repository_version = dget st REPOSITORY_VERSION_KEY,
      sg_user_count = dict_count (dget st ''users''), sg_device_count = dict_count (dget st ''devices''),
      sg_vault_count = dict_count (dget st ''vaults''), sg_blob_count = dict_count (dget st ''blobs''),
      sg_capability_count = length (entries st ''capabilities''),
      sg_resumable_upload_session_count = dict_count (dget st ''resumable_upload_sessions'')\<rparr>"

section \<open>Reading a document back\<close>

lemma insort_key_map_snd:
  "insort_key fst (k, g v) (map (\<lambda>(k, v). (k, g v)) xs) = map (\<lambda>(k, v). (k, g v)) (insort_key fst (k, v) xs)"
  by (induction xs) auto

lemma sort_key_map_snd:
  "sort_key fst (map (\<lambda>(k, v). (k, g v)) xs) = map (\<lambda>(k, v). (k, g v)) (sort_key fst xs)"
proof (induction xs)
  case (Cons x xs)
  then show ?case by (cases x) (simp add: insort_key_map_snd)
qed simp

lemma sort_key_sorted: "sorted (map f xs) \<Longrightarrow> sort_key f xs = xs"
  by (rule properties_for_sort_key) auto

lemma sort_map_sorted:
  "sort_key fst (map (\<lambda>(k, v). (k, g v)) (sort_key fst xs)) = sort_key fst (map (\<lambda>(k, v). (k, g v)) xs)"
  by (simp only: sort_key_map_snd sort_key_sorted [OF sorted_sort_key])

lemma json_dumps_canon [simp]: "json_dumps (json_canon v) = json_dumps v"
proof (induction v rule: json_canon.induct)
  case (1 vs)
  then have "map json_dumps (map json_canon vs) = map json_dumps vs" by simp
  then show ?case by (simp only: json_canon.simps json_dumps.simps)
next
  case (2 kvs)
  have "map (\<lambda>(k, v). (k, json_dumps v)) (map (\<lambda>(k, v). (k, json_canon v)) kvs)
      = map (\<lambda>(k, v). (k, json_dumps v)) kvs"
    using 2 by (auto intro!: map_cong)
  then show ?case by (simp only: json_canon.simps json_dumps.simps sort_map_sorted)
qed simp_all

lemma json_canon_idem [simp]: "json_canon (json_canon v) = json_canon v"
proof (induction v rule: json_canon.induct)
  case (2 kvs)
  have "map (\<lambda>(k, v). (k, json_canon v)) (map (\<lambda>(k, v). (k, json_canon v)) kvs)
      = map (\<lambda>(k, v). (k, json_canon v)) kvs"
    using 2 by (auto intro!: map_cong)
  then show ?case by (simp only: json_canon.simps sort_map_sorted)
qed simp_all

lemma canon_dict_json: "json_canon (JObj d) = JObj (canon_dict d)"
  by (simp add: canon_dict_def)

lemma canon_dict_idem [simp]: "canon_dict (canon_dict d) = canon_dict d"
  using json_canon_idem [of "JObj d"] by (simp only: canon_dict_json json.inject)

lemma set_canon_dict [simp]: "fst ` set (canon_dict d) = fst ` set d"
  by (force simp: canon_dict_def)

lemma mset_canon_dict: "mset (canon_dict d) = mset (map (\<lambda>(k, v). (k, json_canon v)) d)"
  by (simp add: canon_dict_def)

lemma distinct_canon_dict [simp]: "distinct (map fst (canon_dict d)) = distinct (map fst d)"
proof -
  have "mset (map fst (canon_dict d)) = image_mset fst (mset (canon_dict d))" by simp
  also have "\<dots> = mset (map fst d)" unfolding mset_canon_dict by (simp add: case_prod_unfold image_mset.compositionality comp_def)
  finally show ?thesis by (rule mset_eq_imp_distinct_iff)
qed

lemma map_of_canon_dict:
  assumes "distinct (map fst d)"
  shows "map_of (canon_dict d) k = map_option json_canon (map_of d k)"
proof -
  have "map_of (canon_dict d) = map_of (map (\<lambda>(k, v). (k, json_canon v)) d)"
    by (rule map_of_inject_set [THEN iffD2]) (use assms in \<open>auto simp: canon_dict_def comp_def case_prod_unfold
      distinct_map sort_key_map_snd inj_on_def\<close>)
  then show ?thesis by (simp add: map_of_map)
qed

lemma strip_mark [simp]: "strip_repository_metadata (mark v d) = strip_repository_metadata d"
  by (simp add: strip_repository_metadata_def mark_def AList.delete_update_same AList.update_keys)

lemma map_of_mark [simp]: "map_of (mark v d) REPOSITORY_VERSION_KEY = Some (JInt v)"
  by (simp add: mark_def update_conv)

lemma strip_canon: "strip_repository_metadata (canon_dict d) = canon_dict (strip_repository_metadata d)"
  by (simp add: strip_repository_metadata_def canon_dict_def AList.delete_eq filter_sort filter_map comp_def
      case_prod_unfold)


section \<open>Rows fit the schema\<close>

fun cell_fits :: "column_type \<Rightarrow> json \<Rightarrow> bool" where
  "cell_fits _ JNull = True"
| "cell_fits SqlText v = (py_str v \<noteq> None)"
| "cell_fits SqlInteger v = (case v of JInt _ \<Rightarrow> True | _ \<Rightarrow> False)"

definition column_fits :: "column \<Rightarrow> string \<times> json \<Rightarrow> bool" where
  "column_fits c nv \<longleftrightarrow> fst nv = co_name c \<and> cell_fits (co_type c) (snd nv) \<and>
     (co_not_null c \<longrightarrow> snd nv \<noteq> JNull)"

definition row_fits :: "table_def \<Rightarrow> sql_row \<Rightarrow> bool" where
  "row_fits td row \<longleftrightarrow> list_all2 column_fits (td_columns td) row"

definition fits_table :: "string \<times> sql_row \<Rightarrow> bool" where
  "fits_table tr = (case map_of SQLITE_SCHEMA (fst tr) of None \<Rightarrow> False | Some td \<Rightarrow> row_fits td (snd tr))"

lemma cell_fits_simps [simp]:
  "cell_fits SqlInteger (db_as_int d k)" "cell_fits SqlText (db_as_str d k)"
  "cell_fits SqlInteger (db_as_bool_int d k)" "db_as_bool_int d k \<noteq> JNull"
  "cell_fits SqlText (db_payload d)" "db_payload d \<noteq> JNull"
proof -
  show "cell_fits SqlInteger (db_as_int d k)"
    by (cases "py_int (dget d k)") (simp_all add: db_as_int_def db_int_def)
  show "cell_fits SqlText (db_as_str d k)"
    by (cases "py_str (dget d k)") (simp_all add: db_as_str_def)
qed (simp_all add: db_as_bool_int_def db_payload_def)

lemmas column_simps = column_fits_def text_col_def text_col_not_null_def int_col_def int_col_not_null_def

lemma fits_map: "(\<And>k v. P (f (k, v))) \<Longrightarrow> list_all P (map f xs)"
  by (auto simp: list_all_iff)

lemma fits_concat_map: "(\<And>x. list_all P (f x)) \<Longrightarrow> list_all P (concat (map f xs))"
  by (auto simp: list_all_iff)

lemmas row_schema = fits_table_def SQLITE_SCHEMA_def row_fits_def column_simps

lemma fits_users: "list_all fits_table (project_users st)"
  unfolding project_users_def list_all_append
  by (intro conjI fits_map; simp add: row_schema)

lemma fits_devices: "list_all fits_table (project_devices st)"
  unfolding project_devices_def by (intro fits_map; simp add: row_schema)

lemma fits_sessions: "list_all fits_table (project_sessions st)"
  unfolding project_sessions_def list_all_append
  by (intro conjI fits_map; simp add: row_schema)

lemma fits_manifests: "list_all fits_table (project_manifests vid vault)"
  unfolding project_manifests_def
  by (intro fits_concat_map; simp add: row_schema split: option.splits prod.splits)

lemma fits_commits: "list_all fits_table (project_commits vid vault)"
  unfolding project_commits_def by (intro fits_map; simp add: row_schema)

lemma fits_acks: "list_all fits_table (project_acks vid vault)"
  unfolding project_acks_def
  by (intro fits_concat_map; simp add: row_schema split: option.splits prod.splits)

lemma fits_gc_runs: "list_all fits_table (project_tombstone_gc_runs vid vault)"
proof -
  have "list_all fits_table (case run of JObj run \<Rightarrow> [(''tombstone_gc_runs'', [(''vault_id'', JStr vid),
         (''run_index'', JInt i), (''new_revision'', db_as_int run ''new_revision''),
         (''reason'', db_as_str run ''reason''), (''payload_json'', db_payload run)])] | _ \<Rightarrow> [])" for run i
    by (cases run) (simp_all add: row_schema)
  then show ?thesis
    by (auto simp: project_tombstone_gc_runs_def intro!: fits_concat_map split: json.splits)
qed

lemma fits_file_versions: "list_all fits_table (project_file_versions vid vault)"
proof -
  have "list_all fits_table (map (\<lambda>(version_id, record). (''file_versions'', [(''version_id'', JStr version_id),
         (''vault_id'', JStr vid), (''file_id'', db_as_str record ''file_id''),
         (''revision'', db_as_int record ''revision''), (''blob_id'', db_as_str record ''blob_id''),
         (''source'', db_as_str record ''source''), (''created_at_ms'', db_as_int record ''created_at''),
         (''pinned'', db_as_bool_int record ''pinned''), (''payload_json'', db_payload record)])) xs)" for xs
    by (intro fits_map; simp add: row_schema)
  then show ?thesis by (simp add: project_file_versions_def split: json.splits)
qed

lemma fits_vaults: "list_all fits_table (project_vaults st)"
proof -
  have "fits_table (''vaults'', [(''vault_id'', JStr vid), (''head_revision'', db_as_int vault ''head_revision''),
      (''manifest_summary'', db_as_str vault ''manifest_summary''), (''payload_json'', db_payload vault)])" for vid vault
    by (simp add: row_schema)
  with fits_manifests fits_commits fits_acks fits_gc_runs fits_file_versions show ?thesis
    by (auto simp: project_vaults_def intro!: fits_concat_map)
qed

lemma fits_blobs: "list_all fits_table (project_blobs st)"
  unfolding project_blobs_def by (intro fits_map; simp add: row_schema)

lemma fits_capabilities: "list_all fits_table (project_capabilities st)"
  unfolding project_capabilities_def by (intro fits_map; simp add: row_schema)

lemma fits_uploads: "list_all fits_table (project_resumable_upload_sessions st)"
  unfolding project_resumable_upload_sessions_def by (intro fits_map; simp add: row_schema)

text \<open>C40: the projection of any document whatever is well typed: every row it inserts names a table of
  the schema, has exactly the columns of that table in order, holds in each a value of the column's
  type, and is null in no column declared \<open>NOT NULL\<close>.\<close>

theorem projection_well_typed: "list_all fits_table (projection st)"
  using fits_users fits_devices fits_sessions fits_vaults fits_blobs fits_capabilities fits_uploads
  by (simp add: projection_def)

section \<open>Writing the projection\<close>

lemma insert_rows_tables:
  "insert_rows rows ts = Inr ts' \<Longrightarrow> ts' t = ts t @ map snd (filter (\<lambda>tr. fst tr = t) rows)"
proof (induction rows ts arbitrary: ts' rule: insert_rows.induct)
  case (2 u row rows ts)
  from 2(2) obtain ts1 where 1: "insert_row u row ts = Inr ts1" "insert_rows rows ts1 = Inr ts'"
    by (auto simp: rbind_eq_Inr)
  from 1(1) have "ts1 = ts(u := ts u @ [row])"
    by (auto simp: insert_row_def split: option.splits if_splits)
  with 2(1) [OF 1] show ?case by auto
qed simp

lemma fold_clear: "fold (\<lambda>t ts. ts(t := [])) xs ts t = (if t \<in> set xs then [] else ts t)"
  by (induction xs arbitrary: ts) auto

lemma clear_tables_apply: "clear_tables ts t = (if t \<in> set PROJECTION_TABLES then [] else ts t)"
  by (simp add: clear_tables_def fold_clear)

lemma schema_tables: "fst ` set SQLITE_SCHEMA = set PROJECTION_TABLES"
  by (simp add: SQLITE_SCHEMA_def PROJECTION_TABLES_def insert_commute)

definition rows_of :: "dict \<Rightarrow> string \<Rightarrow> sql_row list" where
  "rows_of st t = map snd (filter (\<lambda>tr. fst tr = t) (projection st))"

lemma replace_projection_tables:
  assumes "replace_projection st ts = Inr ts'" "t \<in> set PROJECTION_TABLES"
  shows "ts' t = rows_of st t"
  using insert_rows_tables [OF assms(1) [unfolded replace_projection_def], of t] assms(2)
  by (simp add: clear_tables_apply rows_of_def)

text \<open>The keys of a table stay distinct, since an insert refuses a key that is there.\<close>

definition keyed :: "sql_tables \<Rightarrow> bool" where
  "keyed ts \<longleftrightarrow> (\<forall>t td. map_of SQLITE_SCHEMA t = Some td \<longrightarrow> distinct (map (key_of td) (ts t)))"

lemma insert_row_keyed: "insert_row t row ts = Inr ts' \<Longrightarrow> keyed ts \<Longrightarrow> keyed ts'"
  by (auto simp: insert_row_def keyed_def split: option.splits if_splits)

lemma insert_rows_keyed: "insert_rows rows ts = Inr ts' \<Longrightarrow> keyed ts \<Longrightarrow> keyed ts'"
  by (induction rows ts rule: insert_rows.induct) (auto simp: rbind_eq_Inr insert_row_keyed)

lemma map_of_schema: "map_of SQLITE_SCHEMA t = Some td \<Longrightarrow> t \<in> set PROJECTION_TABLES"
  using schema_tables by (metis map_of_eq_None_iff option.distinct(1))

lemma replace_projection_keyed: "replace_projection st ts = Inr ts' \<Longrightarrow> keyed ts'"
  unfolding replace_projection_def
  by (erule insert_rows_keyed) (auto simp: keyed_def clear_tables_apply dest: map_of_schema)

section \<open>Writers of one database\<close>

text \<open>Every way the database is written: an update in one transaction, a save of a document loaded
  earlier, an import. Refused writes are steps too. The schema part never changes here.\<close>

inductive db_step :: "database \<Rightarrow> database \<Rightarrow> bool" where
  update: "sqlite_update default_doc (mutator :: dict \<Rightarrow> (unit \<times> dict) sresult) now db = (res, db') \<Longrightarrow> db_step db db'"
| save: "sqlite_save st now db = Inr (st', db') \<Longrightarrow> db_step db db'"
| import_state: "import_state payload force now db = (res, db') \<Longrightarrow> db_step db db'"

abbreviation db_run :: "database \<Rightarrow> database \<Rightarrow> bool" where
  "db_run \<equiv> db_step\<^sup>*\<^sup>*"

definition version_of :: "database \<Rightarrow> int" where
  "version_of db = (case db_current db of None \<Rightarrow> 0 | Some row \<Rightarrow> sr_version row)"

lemma write_state_locked_Inr:
  assumes "write_state_locked st v now db = Inr db'"
  obtains ts where "replace_projection (strip_repository_metadata st) (db_tables db) = Inr ts"
    "db' = db\<lparr>db_current := Some \<lparr>sr_version = v, sr_payload = strip_repository_metadata st,
       sr_updated_at_ms = now\<rparr>, db_tables := ts\<rparr>"
  using assms by (auto simp: write_state_locked_def Let_def rbind_eq_Inr split: if_splits)

text \<open>A step either leaves the database as it was or writes one document with the next version.\<close>

lemma sqlite_update_db:
  assumes "sqlite_update default_doc mutator now db = (res, db')"
  shows "db' = db \<or> (\<exists>st. write_state_locked st (version_of db + 1) now db = Inr db')"
  using assms by (auto simp: sqlite_update_def version_of_def split: option.splits sum.splits prod.splits)

lemma sqlite_save_db:
  assumes "sqlite_save st now db = Inr (st', db')"
  shows "write_state_locked st (version_of db + 1) now db = Inr db'"
    and "st' = mark (version_of db + 1) st"
    and "\<exists>ex. expected_version st = Inr ex \<and> (ex = None \<or> ex = Some (version_of db))"
  using assms
  by (auto simp: sqlite_save_def version_of_def rbind_eq_Inr split: option.splits if_splits)

lemma import_state_db:
  assumes "import_state payload force now db = (res, db')"
  shows "db' = db \<or> (\<exists>st. write_state_locked st (version_of db + 1) now db = Inr db')"
  using assms
  by (auto simp: import_state_def version_of_def split: option.splits sum.splits json.splits if_splits)

lemma db_step_cases:
  assumes "db_step db db'"
  obtains "db' = db"
  | st now where "write_state_locked st (version_of db + 1) now db = Inr db'"
  using assms
proof (cases rule: db_step.cases)
  case update
  from sqlite_update_db [OF this] show thesis using that by blast
next
  case save
  from sqlite_save_db(1) [OF this] show thesis by (rule that(2))
next
  case import_state
  from import_state_db [OF this] show thesis using that by blast
qed

lemma write_version: "write_state_locked st v now db = Inr db' \<Longrightarrow> version_of db' = v"
  by (erule write_state_locked_Inr) (simp add: version_of_def)

lemma db_run_version: "db_run db db' \<Longrightarrow> version_of db \<le> version_of db' \<and> (version_of db' = version_of db \<longrightarrow> db' = db)"
proof (induction rule: rtranclp_induct)
  case (step y z)
  from step(2) show ?case
  proof (cases rule: db_step_cases)
    case 2
    from write_version [OF 2] step(3) show ?thesis by auto
  qed (use step(3) in simp)
qed simp


lemma expected_version_mark: "dget st REPOSITORY_VERSION_KEY = JInt v \<Longrightarrow> expected_version st = Inr (Some v)"
  by (simp add: expected_version_def)

lemma dget_mark [simp]: "dget (mark v d) REPOSITORY_VERSION_KEY = JInt v"
  by (simp add: dget_def)

lemma sqlite_load_marker [simp]: "dget (sqlite_load default_doc db) REPOSITORY_VERSION_KEY = JInt (version_of db)"
  by (simp add: sqlite_load_def version_of_def split: option.splits)

lemma sqlite_save_expected:
  assumes "expected_version st = Inr (Some v)"
  shows "sqlite_save st now db =
    (if v = version_of db
     then rbind (write_state_locked st (version_of db + 1) now db) (\<lambda>db'. Inr (mark (version_of db + 1) st, db'))
     else Inl (StateRepositoryConflict ''state_write_conflict''
       (case db_current db of None \<Rightarrow> ''State was created by another process.''
        | Some _ \<Rightarrow> ''State changed before this write could be saved.'')))"
  using assms by (auto simp: sqlite_save_def version_of_def split: option.splits)

text \<open>C6: saving a document that was loaded earlier is optimistic concurrency control. A client loads,
  others write in between, the client applies its mutator to what it loaded and saves. If anything
  was written in between, the save raises \<open>state_write_conflict\<close>; if nothing was, it does to the
  database exactly what the one-transaction update would have done, refused writes included. No
  write made between a load and its save is ever lost.\<close>

theorem optimistic_save_is_atomic_update:
  assumes "db_run db0 db1"
    and "mutator (sqlite_load default_doc db0) = Inr (x, st)"
    and "dget st REPOSITORY_VERSION_KEY = dget (sqlite_load default_doc db0) REPOSITORY_VERSION_KEY"
  shows "if db1 = db0
     then (case sqlite_save st now db1 of
             Inl e \<Rightarrow> sqlite_update default_doc mutator now db1 = (Inl e, db1)
           | Inr (st', db2) \<Rightarrow> sqlite_update default_doc mutator now db1 = (Inr x, db2))
     else \<exists>msg. sqlite_save st now db1 = Inl (StateRepositoryConflict ''state_write_conflict'' msg)"
proof -
  from assms(3) have e: "expected_version st = Inr (Some (version_of db0))"
    by (simp add: expected_version_mark)
  show ?thesis
  proof (cases "db1 = db0")
    case True
    have "sqlite_update default_doc mutator now db0 =
        (case write_state_locked st (version_of db0 + 1) now db0 of Inl e \<Rightarrow> (Inl e, db0) | Inr db' \<Rightarrow> (Inr x, db'))"
      using assms(2) by (simp add: sqlite_update_def sqlite_load_def version_of_def split: option.splits)
    with True show ?thesis
      by (cases "write_state_locked st (version_of db0 + 1) now db0") (simp_all add: sqlite_save_expected [OF e])
  next
    case False
    with db_run_version [OF assms(1)] have "version_of db0 \<noteq> version_of db1" by auto
    with False show ?thesis by (simp add: sqlite_save_expected [OF e])
  qed
qed

definition sample_doc :: dict where
  "sample_doc = [(''users'', JObj []), (''devices'', JObj [(''d1'', JObj [(''revoked'', JBool True)])])]"

definition fresh_database :: database where
  "fresh_database = migrate 1 no_database"

definition set_field :: "string \<Rightarrow> json \<Rightarrow> dict \<Rightarrow> (unit \<times> dict) sresult" where
  "set_field k v st = Inr ((), AList.update k v st)"

lemma optimistic_save_is_atomic_update_witness:
  "\<exists>db1 msg. db_run fresh_database db1 \<and> db1 \<noteq> fresh_database \<and>
     sqlite_save (AList.update ''a'' JNull (sqlite_load sample_doc fresh_database)) 9 db1
       = Inl (StateRepositoryConflict ''state_write_conflict'' msg) \<and>
     sqlite_update sample_doc (set_field ''a'' JNull) 9 fresh_database = (Inr (),
        snd (sqlite_update sample_doc (set_field ''a'' JNull) 9 fresh_database))"
proof -
  let ?u = "sqlite_update sample_doc (set_field ''b'' JNull) 5 fresh_database"
  let ?st = "AList.update ''a'' JNull (sqlite_load sample_doc fresh_database)"
  have run: "db_run fresh_database (snd ?u)"
    by (rule r_into_rtranclp, rule db_step.update) (rule prod.collapse [symmetric])
  have "db_current (snd ?u) \<noteq> None" "db_current fresh_database = None" by code_simp+
  then have ne: "snd ?u \<noteq> fresh_database" by metis
  have m: "set_field ''a'' JNull (sqlite_load sample_doc fresh_database) = Inr ((), ?st)"
    by (simp add: set_field_def)
  have k: "dget ?st REPOSITORY_VERSION_KEY = dget (sqlite_load sample_doc fresh_database) REPOSITORY_VERSION_KEY"
    by code_simp
  have "\<not> isl (sqlite_save ?st 9 fresh_database)" by code_simp
  then obtain p where p: "sqlite_save ?st 9 fresh_database = Inr p" by (auto dest: not_islD)
  from optimistic_save_is_atomic_update [where mutator = "set_field ''a'' JNull", OF run m k, of 9] ne
  obtain msg where "sqlite_save ?st 9 (snd ?u) = Inl (StateRepositoryConflict ''state_write_conflict'' msg)" by auto
  moreover from optimistic_save_is_atomic_update [where mutator = "set_field ''a'' JNull", OF rtranclp.rtrancl_refl m k, of 9] p
  have "sqlite_update sample_doc (set_field ''a'' JNull) 9 fresh_database = (Inr (), snd p)"
    by (cases p) auto
  ultimately show ?thesis using run ne by auto
qed

section \<open>The invariant of a database\<close>

definition database_ok :: "database \<Rightarrow> bool" where
  "database_ok db \<longleftrightarrow> keyed (db_tables db) \<and> (case db_current db of
     None \<Rightarrow> True
   | Some row \<Rightarrow> 1 \<le> sr_version row \<and> map_of (sr_payload row) REPOSITORY_VERSION_KEY = None \<and>
       (\<forall>t \<in> set PROJECTION_TABLES. db_tables db t = rows_of (sr_payload row) t))"

lemma version_of_ok: "database_ok db \<Longrightarrow> 0 \<le> version_of db"
  by (auto simp: database_ok_def version_of_def split: option.splits)

lemma write_database_ok:
  assumes "write_state_locked st v now db = Inr db'" "1 \<le> v"
  shows "database_ok db'"
  using assms(1)
proof (rule write_state_locked_Inr)
  fix ts
  assume r: "replace_projection (strip_repository_metadata st) (db_tables db) = Inr ts"
    and db': "db' = db\<lparr>db_current := Some \<lparr>sr_version = v, sr_payload = strip_repository_metadata st,
       sr_updated_at_ms = now\<rparr>, db_tables := ts\<rparr>"
  from r replace_projection_keyed replace_projection_tables [OF r] assms(2) show ?thesis
    by (simp add: database_ok_def db' strip_repository_metadata_def AList.delete_conv')
qed

lemma db_step_ok: "db_step db db' \<Longrightarrow> database_ok db \<Longrightarrow> database_ok db'"
proof (erule db_step_cases)
  fix st now
  assume "database_ok db" "write_state_locked st (version_of db + 1) now db = Inr db'"
  with version_of_ok [of db] show "database_ok db'" by (auto intro: write_database_ok)
qed simp

lemma no_database_tables [simp]: "db_tables (migrate now no_database) = (\<lambda>_. [])"
    "db_current (migrate now no_database) = None"
  by (simp_all add: migrate_def no_database_def record_migration_def ensure_column_def Let_def)

lemma fresh_database_ok: "database_ok (migrate now no_database)"
  by (simp add: database_ok_def keyed_def)

text \<open>C38: in every database the server can reach from a fresh one, by any interleaving of updates, saves
  and imports of any documents, the fifteen tables are exactly the projection of the stored
  document, with distinct primary keys, the stored version is at least one and the stored document
  carries no version marker: the derived tables never drift from the document.\<close>

theorem tables_follow_document:
  assumes "db_run (migrate now no_database) db"
  shows "keyed (db_tables db) \<and> (case db_current db of
      None \<Rightarrow> version_of db = 0
    | Some row \<Rightarrow> 1 \<le> sr_version row \<and> map_of (sr_payload row) REPOSITORY_VERSION_KEY = None \<and>
        (\<forall>t \<in> set PROJECTION_TABLES. db_tables db t = rows_of (sr_payload row) t))"
proof -
  from assms have "database_ok db"
    by (induction rule: rtranclp_induct) (auto intro: fresh_database_ok db_step_ok)
  then show ?thesis by (auto simp: database_ok_def version_of_def split: option.splits)
qed

lemma tables_follow_document_witness:
  "\<exists>db row. db_run (migrate 1 no_database) db \<and> db_current db = Some row \<and> keyed (db_tables db) \<and>
     db_tables db ''devices'' = rows_of (sr_payload row) ''devices'' \<and> 1 \<le> sr_version row \<and>
     map (\<lambda>r. dget r ''revoked'') (db_tables db ''devices'') = [JInt 1]"
proof -
  let ?u = "sqlite_update sample_doc (set_field ''b'' JNull) 5 (migrate 1 no_database)"
  have run: "db_run (migrate 1 no_database) (snd ?u)"
    by (rule r_into_rtranclp, rule db_step.update) (rule prod.collapse [symmetric])
  have "db_current (snd ?u) \<noteq> None" by code_simp
  then obtain row where row: "db_current (snd ?u) = Some row" by auto
  have t: "''devices'' \<in> set PROJECTION_TABLES" by (simp add: PROJECTION_TABLES_def)
  have "map (\<lambda>r. dget r ''revoked'') (db_tables (snd ?u) ''devices'') = [JInt 1]" by code_simp
  with tables_follow_document [OF run] row t run show ?thesis by (intro exI conjI) auto
qed

lemma migrations_kept:
  "db_migrations (record_migration v n now db) = db_migrations db @ (if v \<in> fst ` set (db_migrations db) then [] else [(v, n, now)])"
  "db_blob_columns (record_migration v n now db) = db_blob_columns db"
  "db_migrations (ensure_column c db) = db_migrations db"
  "set (db_blob_columns (ensure_column c db)) = insert c (set (db_blob_columns db))"
  by (auto simp: record_migration_def ensure_column_def)

lemma migrate_fixed:
  assumes "{1, 2} \<subseteq> fst ` set (db_migrations db)" "{''object_key'', ''status''} \<subseteq> set (db_blob_columns db)"
  shows "migrate now db = db"
proof -
  have r: "record_migration v n now db = db" if "v \<in> {1, 2}" for v n
    using that assms(1) unfolding record_migration_def by (meson subsetD)
  have e: "ensure_column c db = db" if "c \<in> {''object_key'', ''status''}" for c
    using that assms(2) unfolding ensure_column_def by (meson subsetD)
  from assms(2) have "db_blob_columns db \<noteq> []" by force
  then show ?thesis by (simp add: migrate_def r e)
qed

lemma migrate_columns: "{''object_key'', ''status''} \<subseteq> set (db_blob_columns (migrate now db))"
  by (simp add: migrate_def migrations_kept Let_def)

lemma migrate_versions: "{1, 2} \<subseteq> fst ` set (db_migrations (migrate now db))"
  by (simp add: migrate_def migrations_kept Let_def)

text \<open>Opening a database runs its migrations: afterwards the \<open>blobs\<close> table has the two columns of
  schema version 2, both versions are recorded, every migration recorded before keeps its place and
  the time it was applied at, and opening the database again, at any later time, changes nothing.\<close>

lemma migrate_idempotent:
  "migrate later (migrate now db) = migrate now db"
  "{''object_key'', ''status''} \<subseteq> set (db_blob_columns (migrate now db))"
  "{1, 2} \<subseteq> fst ` set (db_migrations (migrate now db))"
  "\<exists>new. db_migrations (migrate now db) = db_migrations db @ new"
  by (rule migrate_fixed [OF migrate_versions migrate_columns], rule migrate_columns, rule migrate_versions)
     (auto simp: migrate_def migrations_kept Let_def)

section \<open>One contract for both profiles\<close>

text \<open>What the server relies on: an update hands the mutator the stored document, returns its value and
  stores its document, or leaves everything as it was.\<close>

fun refused :: "repo_error + 'a \<Rightarrow> bool" where
  "refused (Inl (MutatorRaised e)) = False"
| "refused (Inl _) = True"
| "refused (Inr _) = False"

definition outcome :: "(dict \<Rightarrow> ('a \<times> dict) sresult) \<Rightarrow> dict \<Rightarrow> ('a \<times> dict) sresult" where
  "outcome f st = rbind (f st) (\<lambda>(x, st'). Inr (x, strip_repository_metadata st'))"

text \<open>A mutator that never looks at the version marker, as none of the server's does.\<close>

definition marker_blind :: "(dict \<Rightarrow> ('a \<times> dict) sresult) \<Rightarrow> bool" where
  "marker_blind f \<longleftrightarrow> (\<forall>st. outcome f st = outcome f (strip_repository_metadata st))"

definition visible :: "dict \<Rightarrow> dict option \<Rightarrow> dict" where
  "visible default_doc doc = strip_repository_metadata
     (case doc of None \<Rightarrow> default_doc | Some d \<Rightarrow> canon_dict d)"

text \<open>The abstract repository: one document, changed by a mutator that returns.\<close>

fun spec_updates :: "dict \<Rightarrow> (dict \<Rightarrow> (json \<times> dict) sresult) list \<Rightarrow> dict option \<Rightarrow>
    (repo_error + json) list \<times> dict option" where
  "spec_updates default_doc [] doc = ([], doc)"
| "spec_updates default_doc (f # fs) doc = (case outcome f (visible default_doc doc) of
     Inl e \<Rightarrow> (let (rs, doc') = spec_updates default_doc fs doc in (Inl (MutatorRaised e) # rs, doc'))
   | Inr (x, st) \<Rightarrow> (let (rs, doc') = spec_updates default_doc fs (Some st) in (Inr x # rs, doc')))"

fun repo_updates :: "(dict \<Rightarrow> (dict \<Rightarrow> (json \<times> dict) sresult) \<Rightarrow> int \<Rightarrow> 's \<Rightarrow> (repo_error + json) \<times> 's) \<Rightarrow>
    dict \<Rightarrow> ((dict \<Rightarrow> (json \<times> dict) sresult) \<times> int) list \<Rightarrow> 's \<Rightarrow> (repo_error + json) list \<times> 's" where
  "repo_updates upd default_doc [] s = ([], s)"
| "repo_updates upd default_doc ((f, now) # us) s =
     (let (r, s1) = upd default_doc f now s; (rs, s2) = repo_updates upd default_doc us s1 in (r # rs, s2))"

locale state_repository =
  fixes load :: "dict \<Rightarrow> 's \<Rightarrow> dict"
    and update :: "dict \<Rightarrow> (dict \<Rightarrow> (json \<times> dict) sresult) \<Rightarrow> int \<Rightarrow> 's \<Rightarrow> (repo_error + json) \<times> 's"
    and held :: "'s \<Rightarrow> dict option"
  assumes load_held: "strip_repository_metadata (load d s) = visible d (held s)"
    and raises: "f (load d s) = Inl e \<Longrightarrow> update d f now s = (Inl (MutatorRaised e), s)"
    and returns: "f (load d s) = Inr (x, st) \<Longrightarrow> update d f now s = (r, s') \<Longrightarrow> \<not> refused r \<Longrightarrow>
      r = Inr x \<and> held s' = Some (strip_repository_metadata st)"
begin

lemma updates_refine_spec:
  assumes "list_all (marker_blind \<circ> fst) us" "repo_updates update d us s = (rs, s')"
    "list_all (\<lambda>r. \<not> refused r) rs"
  shows "spec_updates d (map fst us) (held s) = (rs, held s')"
  using assms
proof (induction us arbitrary: s rs)
  case (Cons u us)
  obtain f now where u: "u = (f, now)" by (cases u)
  obtain r s1 where 1: "update d f now s = (r, s1)" by (cases "update d f now s")
  with Cons.prems(2) obtain rs1 where 2: "repo_updates update d us s1 = (rs1, s')" "rs = r # rs1"
    by (auto simp: u split: prod.splits)
  from Cons.prems 2 have IH: "spec_updates d (map fst us) (held s1) = (rs1, held s')"
    by (intro Cons.IH) auto
  from Cons.prems(1) have "marker_blind f" by (simp add: u)
  then have o1: "outcome f (load d s) = outcome f (visible d (held s))"
    by (simp add: marker_blind_def flip: load_held)
  show ?case
  proof (cases "f (load d s)")
    case (Inl e)
    with o1 have "outcome f (visible d (held s)) = Inl e" by (simp add: outcome_def)
    with raises [where f = f, OF Inl] 1 IH 2(2) show ?thesis by (simp add: u)
  next
    case (Inr p)
    obtain x st where p: "p = (x, st)" by (cases p)
    from Cons.prems(3) 2(2) have "\<not> refused r" by simp
    with returns [where f = f, OF Inr [unfolded p] 1] have "r = Inr x" "held s1 = Some (strip_repository_metadata st)" by auto
    with IH 2(2) have "spec_updates d (map fst us) (Some (strip_repository_metadata st)) = (rs1, held s')" "rs = Inr x # rs1"
      by auto
    moreover from o1 Inr p have "outcome f (visible d (held s)) = Inr (x, strip_repository_metadata st)"
      by (simp add: outcome_def)
    ultimately show ?thesis by (simp add: u)
  qed
qed simp

end

lemma strip_idem [simp]: "strip_repository_metadata (strip_repository_metadata d) = strip_repository_metadata d"
  by (simp add: strip_repository_metadata_def AList.delete_idem)

interpretation json_repo: state_repository json_repo_load "\<lambda>d f now. json_update d f" jf_state
proof unfold_locales
  fix d s
  show "strip_repository_metadata (json_repo_load d s) = visible d (jf_state s)"
    by (simp add: json_repo_load_def visible_def split: option.splits)
qed (auto simp: json_update_def json_save_def json_save_writes_def)

definition db_held :: "database \<Rightarrow> dict option" where
  "db_held db = map_option sr_payload (db_current db)"

lemma sqlite_update_marked:
  "sqlite_update d f now db = (case f (sqlite_load d db) of
     Inl e \<Rightarrow> (Inl (MutatorRaised e), db)
   | Inr (x, st) \<Rightarrow> (case write_state_locked st (version_of db + 1) now db of
       Inl e \<Rightarrow> (Inl e, db) | Inr db' \<Rightarrow> (Inr x, db')))"
  by (auto simp: sqlite_update_def sqlite_load_def version_of_def split: option.splits sum.split prod.split)

lemma insert_rows_refused: "insert_rows rows ts = Inl e \<Longrightarrow> refused (Inl e :: repo_error + json)"
  by (induction rows ts rule: insert_rows.induct)
     (auto simp: rbind_eq_Inl insert_row_def split: option.splits if_splits)

lemma write_refused: "write_state_locked st v now db = Inl e \<Longrightarrow> refused (Inl e :: repo_error + json)"
  by (auto simp: write_state_locked_def Let_def rbind_eq_Inl replace_projection_def insert_rows_refused split: if_splits)

interpretation sqlite_repo: state_repository sqlite_load sqlite_update db_held
proof unfold_locales
  fix d db
  show "strip_repository_metadata (sqlite_load d db) = visible d (db_held db)"
    by (simp add: sqlite_load_def visible_def db_held_def split: option.splits)
next
  fix f :: "dict \<Rightarrow> (json \<times> dict) sresult" and d db e now
  assume "f (sqlite_load d db) = Inl e"
  then show "sqlite_update d f now db = (Inl (MutatorRaised e), db)"
    by (simp add: sqlite_update_marked)
next
  fix f :: "dict \<Rightarrow> (json \<times> dict) sresult" and d db x st now r db'
  assume "f (sqlite_load d db) = Inr (x, st)" "sqlite_update d f now db = (r, db')" "\<not> refused r"
  then show "r = Inr x \<and> db_held db' = Some (strip_repository_metadata st)"
    by (auto simp: sqlite_update_marked db_held_def dest: write_refused elim!: write_state_locked_Inr
        split: sum.splits)
qed

lemma json_updates_not_refused:
  "repo_updates (\<lambda>d f now. json_update d f) d us fs = (rs, fs') \<Longrightarrow> list_all (\<lambda>r. \<not> refused r) rs"
proof (induction us arbitrary: fs rs)
  case (Cons u us)
  obtain f now where u: "u = (f, now)" by (cases u)
  obtain r s1 where 1: "json_update d f fs = (r, s1)" by (cases "json_update d f fs")
  then have "\<not> refused r" by (auto simp: json_update_def split: sum.splits)
  with Cons 1 show ?case by (auto simp: u split: prod.splits)
qed simp

text \<open>C39: the two profiles of the repository are interchangeable: started on the same document (or none)
  and given the same sequence of updates, by mutators that never look at the version marker, the
  file and the database answer every update alike, errors included, and end with the same
  document, unless the database refuses a write, which the file never does.\<close>

theorem repository_profiles_agree:
  assumes "list_all (marker_blind \<circ> fst) us"
    and "jf_state fs = db_held db"
    and "repo_updates sqlite_update d us db = (rs, db')"
    and "list_all (\<lambda>r. \<not> refused r) rs"
  shows "\<exists>fs'. repo_updates (\<lambda>d f now. json_update d f) d us fs = (rs, fs') \<and> jf_state fs' = db_held db'"
proof -
  obtain rs1 fs' where j: "repo_updates (\<lambda>d f now. json_update d f) d us fs = (rs1, fs')"
    by (cases "repo_updates (\<lambda>d f now. json_update d f) d us fs")
  from json_repo.updates_refine_spec [OF assms(1) j json_updates_not_refused [OF j]]
    sqlite_repo.updates_refine_spec [OF assms(1,3,4)] assms(2) j show ?thesis by auto
qed

definition failing :: "dict \<Rightarrow> (json \<times> dict) sresult" where
  "failing st = Inl (SyncStoreError ''invalid_request'' ''no'')"

definition put_field :: "string \<Rightarrow> json \<Rightarrow> dict \<Rightarrow> (json \<times> dict) sresult" where
  "put_field k v st = Inr (dget st k, AList.update k v st)"

lemma strip_update: "k \<noteq> REPOSITORY_VERSION_KEY \<Longrightarrow>
    strip_repository_metadata (AList.update k v st) = AList.update k v (strip_repository_metadata st)"
  by (simp add: strip_repository_metadata_def AList.delete_update)

lemma put_field_blind: "k \<noteq> REPOSITORY_VERSION_KEY \<Longrightarrow> marker_blind (put_field k v)"
  by (simp add: marker_blind_def outcome_def put_field_def strip_update)
     (simp add: strip_repository_metadata_def dget_def AList.delete_conv')

lemma repository_profiles_agree_witness:
  "\<exists>rs fs' db'. repo_updates sqlite_update sample_doc
      [(put_field ''a'' (JInt 1), 1), (failing, 2), (put_field ''a'' JNull, 3)] fresh_database = (rs, db') \<and>
    repo_updates (\<lambda>d f now. json_update d f) sample_doc
      [(put_field ''a'' (JInt 1), 1), (failing, 2), (put_field ''a'' JNull, 3)]
      \<lparr>jf_state = None, jf_tmp = None\<rparr> = (rs, fs') \<and>
    jf_state fs' = db_held db' \<and> map isl rs = [False, True, False]"
proof -
  let ?us = "[(put_field ''a'' (JInt 1), 1), (failing, 2), (put_field ''a'' JNull, 3)]"
  let ?r = "repo_updates sqlite_update sample_doc ?us fresh_database"
  have b: "list_all (marker_blind \<circ> fst) ?us"
    by (simp add: put_field_blind) (simp add: marker_blind_def outcome_def failing_def)
  have h: "jf_state \<lparr>jf_state = None, jf_tmp = None\<rparr> = db_held fresh_database" by code_simp
  have n: "list_all (\<lambda>r. \<not> refused r) (fst ?r)" "map isl (fst ?r) = [False, True, False]" by code_simp+
  from repository_profiles_agree [OF b h prod.collapse [symmetric] n(1)] n(2)
  show ?thesis by (metis prod.collapse)
qed

section \<open>Crashes of the JSON profile\<close>

text \<open>A crash in the middle of saving the state file, after any number of its writes, leaves a file
  from which the next start reads either the document as it was before or the one being saved, and
  never a truncated one; all three writes together have saved it.\<close>

lemma json_save_crash_safe:
  "json_repo_load d (json_save_interrupted n st fs) \<in> {json_repo_load d fs, json_repo_load d (json_save st fs)}"
  "json_repo_load d (json_save st fs) = mark 0 (canon_dict (strip_repository_metadata st))"
  "3 \<le> n \<Longrightarrow> json_save_interrupted n st fs = json_save st fs"
proof -
  consider "n = 0" | "n = 1" | "n = 2" | "3 \<le> n" by linarith
  then show "json_repo_load d (json_save_interrupted n st fs) \<in> {json_repo_load d fs, json_repo_load d (json_save st fs)}"
    by cases (simp_all add: json_save_interrupted_def json_save_def json_save_writes_def json_repo_load_def numeral_2_eq_2)
qed (simp_all add: json_save_interrupted_def json_save_def json_save_writes_def json_repo_load_def)

section \<open>Where the projection differs from the document\<close>

text \<open>The records of \<open>sync_store.py\<close> carry the flag \<open>is_pinned\<close>; the projection reads \<open>pinned\<close>.\<close>

lemma pinned_column_ignores_flag:
  assumes "map_of record ''pinned'' = None"
  shows "db_as_bool_int record ''pinned'' = JInt 0"
  using assms by (simp add: db_as_bool_int_def dget_def)

text \<open>The two profiles do differ on whole numbers: a document in which a manifest carries a creation
  time beyond 64 bits is stored by the file and refused by the database.\<close>

lemma database_refuses_wide_integers:
  assumes "(''manifests'', row) \<in> set (projection (strip_repository_metadata st))"
    and "(c, JInt i) \<in> set row" and "\<not> int64 i"
  shows "write_state_locked st v now db \<noteq> Inr db'"
proof -
  have "insert_rows rows ts \<noteq> Inr ts'" if "(''manifests'', row) \<in> set rows" for rows ts ts'
    using that
  proof (induction rows ts rule: insert_rows.induct)
    case (2 t r rows ts)
    have "\<not> list_all binds (map snd row)"
      using assms(2,3) by (force simp: list_all_iff)
    then have "insert_row ''manifests'' row ts \<noteq> Inr ts1" for ts1
      by (simp add: insert_row_def split: option.splits)
    with 2 show ?case by (auto simp: rbind_eq_Inr)
  qed simp
  with assms(1) show ?thesis
    by (auto simp: write_state_locked_def Let_def rbind_eq_Inr replace_projection_def)
qed


lemma setdefault_keeps: "map_of st k = Some v \<Longrightarrow> map_of (setdefault kv st) k = Some v"
  by (auto simp: setdefault_def map_add_def split: option.splits)

lemma fold_setdefault_keeps: "map_of st k = Some v \<Longrightarrow> map_of (fold setdefault kvs st) k = Some v"
  by (induction kvs arbitrary: st) (auto simp: setdefault_keeps)

lemma fold_setdefault_adds: "(k, v) \<in> set kvs \<Longrightarrow> map_of (fold setdefault kvs st) k \<noteq> None"
proof (induction kvs arbitrary: st)
  case (Cons kv kvs)
  have "map_of (setdefault (k, v) st) k \<noteq> None"
    by (auto simp: setdefault_def map_add_def split: option.splits)
  with Cons show ?case by (auto dest: fold_setdefault_keeps [of _ _ _ kvs])
qed simp

text \<open>Whatever an older server stored, the loaded document has every part of the default one, and what
  was stored is not touched.\<close>

lemma store_load_complete:
  "k \<in> fst ` set default_server_state \<Longrightarrow> map_of (store_load load s) k \<noteq> None"
  "map_of (load default_server_state s) k = Some v \<Longrightarrow> map_of (store_load load s) k = Some v"
proof -
  assume "k \<in> fst ` set default_server_state"
  then obtain v where "(k, v) \<in> set default_server_state" by auto
  then show "map_of (store_load load s) k \<noteq> None" unfolding store_load_def by (rule fold_setdefault_adds)
qed (simp add: store_load_def fold_setdefault_keeps)

end
