(* ===== verification/Server_Http.thy ===== *)
theory Server_Http
  imports Server_Protocol
begin

text \<open>
  The HTTP application of \<open>noteapp-server/main.py\<close>: the routes, what each hands to the store, and the
  reply it makes of the store's value or error. The clock, the drawn identifiers, the hashes and the
  texts of dates are the environment of a request. A reply that FastAPI makes by itself (an unknown
  route, a body that is not an object, an exception nobody catches) has its status only; the message
  of a capability error, which no caller reads, is its code.
\<close>

section \<open>Requests and replies\<close>

datatype http_body = NoBody | JsonBody json | BytesBody string

record http_request =
  hq_method :: string
  hq_path :: string
  hq_authorization :: "string option"
  hq_headers :: "(string \<times> string) list"
  hq_body :: http_body

datatype reply_body = EmptyReply | JsonReply dict | BytesReply string

record http_reply =
  hp_status :: int
  hp_body :: reply_body

record server_env =
  en_sha :: "string \<Rightarrow> string"
  en_nfc :: "string \<Rightarrow> string"
  en_digest :: "string \<Rightarrow> string"
  en_kdf :: "string \<Rightarrow> string \<Rightarrow> int \<Rightarrow> string"
  en_now :: int
  en_date_text :: "int \<Rightarrow> string"
  en_expires_at :: string
  en_path_int :: "string \<Rightarrow> int option"
  en_other :: "http_request \<Rightarrow> http_reply"
  en_base_url :: string
  en_salt :: string
  en_user_id :: string
  en_fresh_ids :: fresh_ids
  en_access_token :: string
  en_refresh_token :: string
  en_tokens :: "string list"
  en_run_id :: string
  en_run_ids :: "string \<Rightarrow> string"
  en_gc_min_retention_ms :: int
  en_gc_inactive_after_ms :: int

definition json_reply :: "int \<Rightarrow> dict \<Rightarrow> http_reply" where
  "json_reply status d = \<lparr>hp_status = status, hp_body = JsonReply d\<rparr>"

definition empty_reply :: "int \<Rightarrow> http_reply" where
  "empty_reply status = \<lparr>hp_status = status, hp_body = EmptyReply\<rparr>"

definition contract_error_response :: "int \<Rightarrow> string \<Rightarrow> string \<Rightarrow> http_reply" where
  "contract_error_response status code msg = json_reply status [(''code'', JStr code), (''message'', JStr msg)]"

definition STATUS_CODE_BY_CODE :: "(string \<times> int) list" where
  "STATUS_CODE_BY_CODE =
    [(''access_token_expired'', 401), (''blob_not_found'', 404), (''device_forbidden'', 403),
     (''device_not_found'', 404), (''device_revoked'', 403), (''file_version_not_found'', 404),
     (''invalid_access_token'', 401), (''invalid_credentials'', 401), (''invalid_refresh_token'', 401),
     (''object_not_found'', 404), (''object_storage_error'', 502), (''object_storage_unavailable'', 503),
     (''account_disabled'', 403), (''account_exists'', 409), (''password_required'', 401),
     (''refresh_token_expired'', 401), (''resumable_upload_session_not_found'', 404),
     (''state_write_conflict'', 409)]"

definition status_code_for_store_error :: "string \<Rightarrow> int" where
  "status_code_for_store_error code = (case map_of STATUS_CODE_BY_CODE code of Some s \<Rightarrow> s | None \<Rightarrow> 400)"

definition internal_error :: http_reply where
  "internal_error = empty_reply 500"

definition store_error_response :: "server_error \<Rightarrow> http_reply" where
  "store_error_response e = (case e of
     SyncStoreError code msg \<Rightarrow> contract_error_response (status_code_for_store_error code) code msg
   | _ \<Rightarrow> internal_error)"

definition capability_error_response :: "server_error \<Rightarrow> http_reply" where
  "capability_error_response e = (case e of
     BlobCapabilityError status code \<Rightarrow> contract_error_response status code code
   | _ \<Rightarrow> internal_error)"

definition conflict_reply :: "server_error \<Rightarrow> http_reply" where
  "conflict_reply e = (case e of
     CommitConflict code head summary \<Rightarrow> json_reply 409
       [(''code'', JStr code), (''current_head_revision'', JInt head),
        (''current_manifest_summary'', opt_json JStr summary)]
   | _ \<Rightarrow> store_error_response e)"

section \<open>The JSON of the store's values\<close>

definition token_response_json :: "(int \<Rightarrow> string) \<Rightarrow> token_response \<Rightarrow> dict" where
  "token_response_json date_text t =
     [(''user_id'', JStr (tr_user_id t)), (''device_id'', JStr (tr_device_id t)),
      (''access_token'', JStr (tr_access_token t)), (''refresh_token'', JStr (tr_refresh_token t)),
      (''expires_at'', JStr (date_text (tr_expires_at_ms t))),
      (''refresh_expires_at'', JStr (date_text (tr_refresh_expires_at_ms t)))]"

definition vault_device_json :: "vault_device \<Rightarrow> json" where
  "vault_device_json d = JObj
     [(''device_id'', JStr (vd_device_id d)), (''device_name'', JStr (vd_device_name d)),
      (''platform'', JStr (vd_platform d)), (''app_version'', opt_json JStr (vd_app_version d)),
      (''protocol_version'', JStr (vd_protocol_version d)),
      (''registered_at_ms'', opt_json JInt (vd_registered_at_ms d)),
      (''last_seen_at_ms'', opt_json JInt (vd_last_seen_at_ms d)),
      (''acked_revision'', JInt (vd_acked_revision d)),
      (''is_current_device'', JBool (vd_is_current_device d)), (''is_revoked'', JBool (vd_is_revoked d)),
      (''is_inactive_candidate'', JBool (vd_is_inactive_candidate d))]"

definition vault_devices_json :: "vault_devices \<Rightarrow> dict" where
  "vault_devices_json ds =
     [(''vault_id'', JStr (vds_vault_id ds)), (''head_revision'', JInt (vds_head_revision ds)),
      (''inactive_after_ms'', JInt (vds_inactive_after_ms ds)),
      (''devices'', JArr (map vault_device_json (vds_devices ds)))]"

definition heartbeat_json :: "heartbeat \<Rightarrow> dict" where
  "heartbeat_json h =
     [(''vault_id'', JStr (hb_vault_id h)), (''device_id'', JStr (hb_device_id h)),
      (''last_seen_at_ms'', JInt (hb_last_seen_at_ms h)), (''acked_revision'', JInt (hb_acked_revision h)),
      (''head_revision'', JInt (hb_head_revision h))]"

definition blocked_tombstone_json :: "blocked_tombstone \<Rightarrow> json" where
  "blocked_tombstone_json b = JObj (bt_item b @
     [(''reason'', JStr (bt_reason b)), (''retention_remaining_ms'', JInt (bt_retention_remaining_ms b)),
      (''blocked_by_devices'', JArr (map (\<lambda>(d, acked, required). JObj
        [(''device_id'', JStr d), (''acked_revision'', JInt acked), (''required_revision'', JInt required)])
        (bt_blocked_by_devices b)))])"

definition gc_result_json :: "gc_result \<Rightarrow> dict" where
  "gc_result_json g =
     [(''vault_id'', JStr (gr_vault_id g)), (''run_id'', JStr (gr_run_id g)), (''ran_at_ms'', JInt (gr_ran_at_ms g)),
      (''base_revision'', JInt (gr_base_revision g)), (''new_revision'', opt_json JInt (gr_new_revision g)),
      (''head_revision'', JInt (gr_head_revision g)),
      (''active_device_ids'', JArr (map JStr (gr_active_device_ids g))),
      (''active_device_count'', JInt (int (length (gr_active_device_ids g)))),
      (''min_retention_ms'', JInt (gr_min_retention_ms g)), (''inactive_after_ms'', JInt (gr_inactive_after_ms g)),
      (''reclaimed_tombstones'', JArr (map JObj (gr_reclaimed_tombstones g))),
      (''blocked_tombstones'', JArr (map blocked_tombstone_json (gr_blocked_tombstones g))),
      (''reclaimed_count'', JInt (int (length (gr_reclaimed_tombstones g)))), (''reason'', JStr (gr_reason g)),
      (''recovery_boundary'', JStr (''tombstone GC removes delete markers only after retention and device ack checks; ''
         @ ''blob bytes and file-version records are not deleted by this GC''))]"

definition vault_head_json :: "string \<Rightarrow> int \<times> string option \<Rightarrow> dict" where
  "vault_head_json vault_id hs = [(''vault_id'', JStr vault_id), (''head_revision'', JInt (fst hs)),
     (''manifest_summary'', opt_json JStr (snd hs))]"

definition commit_response_json :: "commit_response \<Rightarrow> dict" where
  "commit_response_json r =
     [(''vault_id'', JStr (rs_vault_id r)), (''new_revision'', JInt (rs_new_revision r)),
      (''head_manifest_summary'', opt_json JStr (rs_head_manifest_summary r)),
      (''acked_revision_for_device'', JInt (rs_acked_revision_for_device r))]"

fun intent_resolution_json :: "intent_resolution \<Rightarrow> dict" where
  "intent_resolution_json (NotFound head summary) =
     [(''status'', JStr ''not_found''), (''observed_head_revision'', JInt head),
      (''head_manifest_summary'', opt_json JStr summary)]"
| "intent_resolution_json (Mismatched head summary) =
     [(''status'', JStr ''mismatched''), (''observed_head_revision'', JInt head),
      (''head_manifest_summary'', opt_json JStr summary)]"
| "intent_resolution_json (Found revision head summary) =
     [(''status'', JStr ''found''), (''matched_revision'', JInt revision), (''observed_head_revision'', JInt head),
      (''head_manifest_summary'', opt_json JStr summary)]"

definition version_row_json :: "version_row \<Rightarrow> dict" where
  "version_row_json r =
     [(''version_id'', JStr (vr_version_id r)), (''file_id'', JStr (vr_file_id r)), (''path_at_revision'', vr_path r),
      (''revision'', JInt (vr_revision r)), (''content_hash'', vr_content_hash r), (''blob_id'', JStr (vr_blob_id r)),
      (''size'', vr_size r), (''mtime'', vr_mtime r), (''created_at'', vr_created_at r),
      (''created_by_device'', vr_created_by_device r), (''source'', JStr (vr_source r)),
      (''is_pinned'', JBool (vr_is_pinned r))]
     @ opt_entry ''version_label'' JStr (vr_version_label r) @ opt_entry ''change_note'' JStr (vr_change_note r)"

definition version_page_json :: "version_page \<Rightarrow> dict" where
  "version_page_json p =
     [(''file_id'', JStr (pg_file_id p)), (''versions'', JArr (map (JObj \<circ> version_row_json) (pg_versions p))),
      (''next_cursor'', opt_json JStr (pg_next_cursor p)), (''retention_policy'', JObj (pg_retention_policy p))]"

definition blob_check_json :: "string list \<times> string list \<Rightarrow> dict" where
  "blob_check_json em = [(''existing_blob_ids'', JArr (map JStr (fst em))),
     (''missing_blob_ids'', JArr (map JStr (snd em)))]"

definition upload_ticket_json :: "string \<Rightarrow> upload_ticket \<Rightarrow> json" where
  "upload_ticket_json expires_at t = JObj
     [(''blob_id'', JStr (ut_blob_id t)), (''upload_url'', JStr (ut_upload_url t)), (''method'', JStr ''PUT''),
      (''headers'', JObj []), (''expires_at'', JStr expires_at)]"

definition download_ticket_json :: "string \<Rightarrow> download_ticket \<Rightarrow> json" where
  "download_ticket_json expires_at t = JObj
     [(''blob_id'', JStr (dt_blob_id t)), (''download_url'', JStr (dt_download_url t)),
      (''encrypted_size'', JInt (dt_encrypted_size t)), (''headers'', JObj []), (''expires_at'', JStr expires_at)]"

definition resumable_download_ticket_json :: "string \<Rightarrow> download_ticket \<Rightarrow> json" where
  "resumable_download_ticket_json expires_at t = JObj
     [(''blob_id'', JStr (dt_blob_id t)), (''download_url'', JStr (dt_download_url t)),
      (''encrypted_size'', JInt (dt_encrypted_size t)),
      (''ranges'', JArr (map (\<lambda>(offset, sz). JObj [(''offset'', JInt offset), (''size'', JInt sz)]) (dt_ranges t))),
      (''headers'', JObj []), (''expires_at'', JStr expires_at)]"

definition chunk_state_json :: "string \<Rightarrow> chunk \<Rightarrow> json" where
  "chunk_state_json status c = JObj
     [(''chunk_id'', JStr (ch_chunk_id c)), (''offset'', JInt (ch_offset c)), (''size'', JInt (ch_size c)),
      (''status'', JStr status)]"

definition upload_plan_entry_json :: "string \<Rightarrow> upload_plan_entry \<Rightarrow> json" where
  "upload_plan_entry_json expires_at u = JObj
     [(''blob_id'', JStr (ue_blob_id u)), (''session_id'', JStr (ue_session_id u)),
      (''upload_url'', JStr (ue_upload_url u)), (''method'', JStr ''PUT''), (''headers'', JObj []),
      (''expires_at'', JStr expires_at), (''chunk_size'', JInt (ue_chunk_size u)),
      (''encrypted_size'', JInt (ue_encrypted_size u)),
      (''uploaded_chunks'', JArr (map (chunk_state_json ''uploaded'') (ue_uploaded_chunks u))),
      (''missing_chunks'', JArr (map (chunk_state_json ''missing'') (ue_missing_chunks u)))]"

definition chunk_json :: "chunk \<Rightarrow> json" where
  "chunk_json c = JObj [(''chunk_id'', JStr (ch_chunk_id c)), (''offset'', JInt (ch_offset c)),
     (''size'', JInt (ch_size c))]"

fun upload_result_json :: "upload_result \<Rightarrow> json" where
  "upload_result_json (AlreadyExists b) = JObj
     [(''blob_id'', JStr b), (''status'', JStr ''already_exists''), (''missing_chunks'', JArr [])]"
| "upload_result_json (Incomplete b cs) = JObj
     [(''blob_id'', JStr b), (''status'', JStr ''incomplete''), (''missing_chunks'', JArr (map chunk_json cs))]"
| "upload_result_json (Accepted b) = JObj
     [(''blob_id'', JStr b), (''status'', JStr ''accepted''), (''missing_chunks'', JArr [])]"

section \<open>Routes\<close>

datatype route =
    Health | RegisterDevice | RegisterAccount | Login | RefreshToken | Logout
  | DeleteDevice string | ListDevices string | Heartbeat string | CollectTombstones string
  | VaultHead string | ManifestAt string string | CreateCommit string | ResolveIntent string | Ack string
  | ListVersions string | UpdateVersion string string
  | CheckBlobs string | UploadInit string | ResumableUploadInit string | ResumableUploadComplete string
  | DownloadInit string | ResumableDownloadInit string
  | UploadBlob string | UploadChunk string | DownloadBlob string | DownloadRange string

definition path_segments :: "string \<Rightarrow> string list" where
  "path_segments s = foldr (\<lambda>c parts. if c = CHR ''/'' then [] # parts else (c # hd parts) # tl parts) s [[]]"

text \<open>The routes of a vault, by the segments after its identifier.\<close>

definition vault_route :: "string \<Rightarrow> string \<Rightarrow> string list \<Rightarrow> route option" where
  "vault_route verb v rest =
     (if rest = [''devices''] \<and> verb = ''GET'' then Some (ListDevices v)
      else if rest = [''devices'', ''heartbeat''] \<and> verb = ''POST'' then Some (Heartbeat v)
      else if rest = [''tombstones'', ''gc''] \<and> verb = ''POST'' then Some (CollectTombstones v)
      else if rest = [''head''] \<and> verb = ''GET'' then Some (VaultHead v)
      else if length rest = 2 \<and> hd rest = ''manifests'' \<and> last rest \<noteq> [] \<and> verb = ''GET''
        then Some (ManifestAt v (last rest))
      else if rest = [''commits''] \<and> verb = ''POST'' then Some (CreateCommit v)
      else if rest = [''commits'', ''resolve-intent''] \<and> verb = ''POST'' then Some (ResolveIntent v)
      else if rest = [''ack''] \<and> verb = ''POST'' then Some (Ack v)
      else if rest = [''file-versions'', ''list''] \<and> verb = ''POST'' then Some (ListVersions v)
      else if length rest = 2 \<and> hd rest = ''file-versions'' \<and> last rest \<noteq> [] \<and> verb = ''PATCH''
        then Some (UpdateVersion v (last rest))
      else if rest = [''blobs'', ''check''] \<and> verb = ''POST'' then Some (CheckBlobs v)
      else if rest = [''blobs'', ''upload-init''] \<and> verb = ''POST'' then Some (UploadInit v)
      else if rest = [''blobs'', ''resumable-upload-init''] \<and> verb = ''POST'' then Some (ResumableUploadInit v)
      else if rest = [''blobs'', ''resumable-upload-complete''] \<and> verb = ''POST''
        then Some (ResumableUploadComplete v)
      else if rest = [''blobs'', ''download-init''] \<and> verb = ''POST'' then Some (DownloadInit v)
      else if rest = [''blobs'', ''resumable-download-init''] \<and> verb = ''POST'' then Some (ResumableDownloadInit v)
      else None)"

definition capability_route :: "string \<Rightarrow> string list \<Rightarrow> route option" where
  "capability_route verb rest = (case rest of
     [token] \<Rightarrow> if token = [] then None else if verb = ''PUT'' then Some (UploadBlob token)
       else if verb = ''GET'' then Some (DownloadBlob token) else None
   | [kind, token] \<Rightarrow> if token = [] then None
       else if kind = ''resumable-upload'' \<and> verb = ''PUT'' then Some (UploadChunk token)
       else if kind = ''resumable-download'' \<and> verb = ''GET'' then Some (DownloadRange token)
       else None
   | _ \<Rightarrow> None)"

definition route_of :: "string \<Rightarrow> string \<Rightarrow> route option" where
  "route_of verb path = (case path_segments path of
     root # a # rest \<Rightarrow>
       if root \<noteq> [] then None
       else if a = ''health'' \<and> rest = [] \<and> verb = ''GET'' then Some Health
       else if a = ''devices'' \<and> rest = [''register''] \<and> verb = ''POST'' then Some RegisterDevice
       else if a = ''auth'' \<and> rest = [''register''] \<and> verb = ''POST'' then Some RegisterAccount
       else if a = ''auth'' \<and> rest = [''login''] \<and> verb = ''POST'' then Some Login
       else if a = ''auth'' \<and> rest = [''refresh''] \<and> verb = ''POST'' then Some RefreshToken
       else if a = ''auth'' \<and> rest = [''logout''] \<and> verb = ''POST'' then Some Logout
       else if a = ''devices'' \<and> length rest = 1 \<and> hd rest \<noteq> [] \<and> verb = ''DELETE''
         then Some (DeleteDevice (hd rest))
       else if a = ''vaults'' \<and> rest \<noteq> [] \<and> hd rest \<noteq> [] then vault_route verb (hd rest) (tl rest)
       else if a = ''_capabilities'' \<and> rest \<noteq> [] \<and> hd rest = ''blobs'' then capability_route verb (tl rest)
       else None
   | _ \<Rightarrow> None)"

section \<open>Authorization and headers\<close>

definition lower_ascii :: "char \<Rightarrow> char" where
  "lower_ascii c = (let n = (of_char c :: nat) in if 65 \<le> n \<and> n \<le> 90 then char_of (n + 32) else c)"

definition bearer_token :: "http_request \<Rightarrow> http_reply + string option" where
  "bearer_token rq = (case hq_authorization rq of
     None \<Rightarrow> Inr None
   | Some a \<Rightarrow> if a = [] then Inr None
       else let scheme = takeWhile (\<lambda>c. c \<noteq> CHR '' '') a; token = drop (length scheme + 1) a in
         if map lower_ascii scheme \<noteq> ''bearer'' \<or> token = []
         then Inl (contract_error_response 401 ''invalid_authorization'' ''Authorization must use a bearer token.'')
         else Inr (Some token))"

definition missing_authorization :: http_reply where
  "missing_authorization =
     contract_error_response 401 ''missing_authorization'' ''Authorization bearer token is required.''"

definition required_auth_context :: "http_request \<Rightarrow> int \<Rightarrow> server \<Rightarrow> (http_reply + authorization) \<times> server" where
  "required_auth_context rq now sv = (case bearer_token rq of
     Inl r \<Rightarrow> (Inl r, sv)
   | Inr None \<Rightarrow> (Inl missing_authorization, sv)
   | Inr (Some token) \<Rightarrow> (case authorize_access_token token now sv of
       Inl e \<Rightarrow> (Inl (store_error_response e), sv)
     | Inr au \<Rightarrow> (Inr au, touch_device (Some (au_device_id au)) now sv)))"

definition required_int_header :: "http_request \<Rightarrow> string \<Rightarrow> http_reply + int" where
  "required_int_header rq name = (case map_of (hq_headers rq) name of
     None \<Rightarrow> Inl (contract_error_response 400 ''missing_chunk_header'' (name @ '' header is required.''))
   | Some v \<Rightarrow> (case int_of_text v of
       None \<Rightarrow> Inl (contract_error_response 400 ''invalid_chunk_header'' (name @ '' header must be an integer.''))
     | Some n \<Rightarrow> if n < 0
         then Inl (contract_error_response 400 ''invalid_chunk_header'' (name @ '' header must be non-negative.''))
         else Inr n))"

definition required_string_header :: "http_request \<Rightarrow> string \<Rightarrow> http_reply + string" where
  "required_string_header rq name = (case map_of (hq_headers rq) name of
     None \<Rightarrow> Inl (contract_error_response 400 ''missing_chunk_header'' (name @ '' header is required.''))
   | Some v \<Rightarrow> if v = []
       then Inl (contract_error_response 400 ''missing_chunk_header'' (name @ '' header is required.''))
       else Inr v)"

text \<open>The bytes of a body; those of a JSON body are its text.\<close>

definition body_bytes :: "http_request \<Rightarrow> string" where
  "body_bytes rq = (case hq_body rq of NoBody \<Rightarrow> [] | JsonBody v \<Rightarrow> json_dumps v | BytesBody b \<Rightarrow> b)"

section \<open>Serving a request\<close>

type_synonym served = "http_reply \<times> server \<times> disk"

text \<open>What a route makes of the store's answer, by the kind of operation. An operation that raises
  leaves the state as it was; one on files says itself what it leaves.\<close>

definition answer :: "('a \<Rightarrow> http_reply) \<Rightarrow> (server_error \<Rightarrow> http_reply) \<Rightarrow> 'a handler \<Rightarrow> server \<times> disk \<Rightarrow> served" where
  "answer ok err h sd = (case h (fst sd) of
     Inl e \<Rightarrow> (err e, sd) | Inr (x, sv') \<Rightarrow> (ok x, sv', snd sd))"

definition answer_read :: "('a \<Rightarrow> http_reply) \<Rightarrow> (server_error \<Rightarrow> http_reply) \<Rightarrow> (server \<Rightarrow> 'a sresult) \<Rightarrow> server \<times> disk \<Rightarrow> served" where
  "answer_read ok err h sd = (case h (fst sd) of Inl e \<Rightarrow> (err e, sd) | Inr x \<Rightarrow> (ok x, sd))"

definition answer_op :: "('a \<Rightarrow> http_reply) \<Rightarrow> (server_error \<Rightarrow> http_reply) \<Rightarrow> 'a blob_op \<Rightarrow> server \<times> disk \<Rightarrow> served" where
  "answer_op ok err h sd = (case h sd of (Inl e, sd') \<Rightarrow> (err e, sd') | (Inr x, sd') \<Rightarrow> (ok x, sd'))"

definition ok_json :: "dict \<Rightarrow> http_reply" where
  "ok_json = json_reply 200"

definition no_content :: "'a \<Rightarrow> http_reply" where
  "no_content _ = empty_reply 204"

definition octets :: "string \<Rightarrow> http_reply" where
  "octets b = \<lparr>hp_status = 200, hp_body = BytesReply b\<rparr>"

definition uploads_json :: "('a \<Rightarrow> json) \<Rightarrow> 'a list \<Rightarrow> dict" where
  "uploads_json f xs = [(''uploads'', JArr (map f xs))]"

definition downloads_json :: "('a \<Rightarrow> json) \<Rightarrow> 'a list \<Rightarrow> dict" where
  "downloads_json f xs = [(''downloads'', JArr (map f xs))]"

text \<open>A body that is not a JSON object is refused by FastAPI before the route runs.\<close>

definition with_body :: "server_env \<Rightarrow> http_request \<Rightarrow> (dict \<Rightarrow> server \<times> disk \<Rightarrow> served) \<Rightarrow> server \<times> disk \<Rightarrow> served" where
  "with_body env rq k sd = (case hq_body rq of JsonBody (JObj d) \<Rightarrow> k d sd | _ \<Rightarrow> (en_other env rq, sd))"

definition with_auth :: "server_env \<Rightarrow> http_request \<Rightarrow> (string \<Rightarrow> server \<times> disk \<Rightarrow> served) \<Rightarrow> server \<times> disk \<Rightarrow> served" where
  "with_auth env rq k sd = (case required_auth_context rq (en_now env) (fst sd) of
     (Inl r, sv1) \<Rightarrow> (r, sv1, snd sd)
   | (Inr au, sv1) \<Rightarrow> k (au_device_id au) (sv1, snd sd))"

definition register_device_route :: "server_env \<Rightarrow> dict \<Rightarrow> server \<times> disk \<Rightarrow> served" where
  "register_device_route env d = answer (ok_json \<circ> token_response_json (en_date_text env)) store_error_response
     (register_device (en_user_id env) (en_fresh_ids env) d (en_now env))"

definition register_account_route :: "server_env \<Rightarrow> dict \<Rightarrow> server \<times> disk \<Rightarrow> served" where
  "register_account_route env d = answer (ok_json \<circ> token_response_json (en_date_text env)) store_error_response
     (register_password_account (en_kdf env) (en_salt env) (en_user_id env) (en_fresh_ids env) d (en_now env))"

definition login_route :: "server_env \<Rightarrow> dict \<Rightarrow> server \<times> disk \<Rightarrow> served" where
  "login_route env d = (if map_of d ''password'' \<noteq> None
     then answer (ok_json \<circ> token_response_json (en_date_text env)) store_error_response
       (login_password_account (en_kdf env) (en_fresh_ids env) d (en_now env))
     else register_device_route env d)"

definition refresh_token_route :: "server_env \<Rightarrow> dict \<Rightarrow> server \<times> disk \<Rightarrow> served" where
  "refresh_token_route env d = answer (ok_json \<circ> token_response_json (en_date_text env)) store_error_response
     (refresh_session (en_access_token env) (en_refresh_token env) d (en_now env))"

definition logout_route :: "server_env \<Rightarrow> http_request \<Rightarrow> server \<times> disk \<Rightarrow> served" where
  "logout_route env rq sd = (case bearer_token rq of
     Inl r \<Rightarrow> (r, sd)
   | Inr None \<Rightarrow> (missing_authorization, sd)
   | Inr (Some token) \<Rightarrow> (empty_reply 204, snd (revoke_session_for_token token (en_now env) (fst sd)), snd sd))"

definition delete_device_route :: "server_env \<Rightarrow> string \<Rightarrow> string \<Rightarrow> server \<times> disk \<Rightarrow> served" where
  "delete_device_route env device_id actor = answer_op
     (\<lambda>deleted. if deleted then empty_reply 204
        else contract_error_response 404 ''device_not_found'' ''Device was not found.'') store_error_response
     (delete_device (en_sha env) (en_nfc env) (en_run_ids env) device_id (Some actor) (en_now env) (en_now env))"

definition gc_option :: "dict \<Rightarrow> string \<Rightarrow> int \<Rightarrow> http_reply + int" where
  "gc_option d key given = (case map_of d key of
     None \<Rightarrow> Inr given
   | Some v \<Rightarrow> (case v of
       JInt n \<Rightarrow> Inr n
     | JBool b \<Rightarrow> Inr (if b then 1 else 0)
     | _ \<Rightarrow> Inl (contract_error_response 400 ''invalid_request'' (key @ '' must be an integer''))))"

text \<open>The body of a collection may be missing, null or empty.\<close>

definition run_tombstone_gc_route :: "server_env \<Rightarrow> http_request \<Rightarrow> string \<Rightarrow> server \<times> disk \<Rightarrow> served" where
  "run_tombstone_gc_route env rq vault_id sd =
     (let run = (\<lambda>d. with_auth env rq (\<lambda>device_id sd1.
        case rbind (gc_option d ''now_ms'' (en_now env)) (\<lambda>now.
             rbind (gc_option d ''min_retention_ms'' (en_gc_min_retention_ms env)) (\<lambda>ret.
             rbind (gc_option d ''inactive_after_ms'' (en_gc_inactive_after_ms env)) (\<lambda>inact.
             Inr (now, ret, inact)))) of
          Inl r \<Rightarrow> (r, sd1)
        | Inr (now, ret, inact) \<Rightarrow> answer (ok_json \<circ> gc_result_json) store_error_response
            (run_tombstone_gc (en_sha env) (en_nfc env) vault_id (en_run_id env) now ret inact (Some device_id)) sd1) sd)
      in case hq_body rq of
        NoBody \<Rightarrow> run [] | JsonBody JNull \<Rightarrow> run [] | JsonBody (JObj d) \<Rightarrow> run d | _ \<Rightarrow> (en_other env rq, sd))"

definition get_manifest_route :: "server_env \<Rightarrow> http_request \<Rightarrow> string \<Rightarrow> string \<Rightarrow> server \<times> disk \<Rightarrow> served" where
  "get_manifest_route env rq vault_id revision sd = (case en_path_int env revision of
     None \<Rightarrow> (en_other env rq, sd)
   | Some n \<Rightarrow> with_auth env rq (\<lambda>_ sd1. case get_manifest vault_id n (fst sd1) of
       None \<Rightarrow> (contract_error_response 404 ''manifest_not_found'' ''Manifest revision was not found.'', sd1)
     | Some m \<Rightarrow> (ok_json m, sd1)) sd)"

definition create_commit_route :: "server_env \<Rightarrow> string \<Rightarrow> dict \<Rightarrow> string \<Rightarrow> server \<times> disk \<Rightarrow> served" where
  "create_commit_route env vault_id d device_id = answer (ok_json \<circ> commit_response_json) conflict_reply
     (create_commit (en_sha env) (en_nfc env) vault_id d (Some device_id) (en_now env))"

definition ack_route :: "server_env \<Rightarrow> string \<Rightarrow> dict \<Rightarrow> string \<Rightarrow> server \<times> disk \<Rightarrow> served" where
  "ack_route env vault_id d device_id = answer (\<lambda>n. ok_json [(''max_acked_revision'', JInt n)]) store_error_response
     (ack_revisions (en_sha env) (en_nfc env) vault_id d (Some device_id) (en_run_id env) (en_now env))"

definition upload_chunk_route :: "server_env \<Rightarrow> http_request \<Rightarrow> string \<Rightarrow> server \<times> disk \<Rightarrow> served" where
  "upload_chunk_route env rq session_id sd =
     (case rbind (required_string_header rq ''x-noteapp-chunk-id'') (\<lambda>chunk_id.
           rbind (required_int_header rq ''x-noteapp-chunk-offset'') (\<lambda>offset.
           rbind (required_int_header rq ''x-noteapp-chunk-size'') (\<lambda>sz. Inr (chunk_id, offset, sz)))) of
       Inl r \<Rightarrow> (r, sd)
     | Inr (chunk_id, offset, sz) \<Rightarrow> answer_op no_content capability_error_response
         (put_resumable_blob_chunk (en_sha env) session_id chunk_id offset sz (body_bytes rq) (en_now env)) sd)"

definition download_range_route :: "server_env \<Rightarrow> http_request \<Rightarrow> string \<Rightarrow> server \<times> disk \<Rightarrow> served" where
  "download_range_route env rq token sd =
     (case rbind (required_int_header rq ''x-noteapp-range-offset'') (\<lambda>offset.
           rbind (required_int_header rq ''x-noteapp-range-size'') (\<lambda>sz. Inr (offset, sz))) of
       Inl r \<Rightarrow> (r, sd)
     | Inr (offset, sz) \<Rightarrow> answer_op octets capability_error_response
         (read_resumable_blob_download token offset sz (en_now env)) sd)"

text \<open>The routes of a device that must prove itself, with and without a body.\<close>

definition authorized_body ::
  "server_env \<Rightarrow> http_request \<Rightarrow> (dict \<Rightarrow> string \<Rightarrow> server \<times> disk \<Rightarrow> served) \<Rightarrow> server \<times> disk \<Rightarrow> served" where
  "authorized_body env rq k = with_body env rq (\<lambda>d. with_auth env rq (k d))"

text \<open>The routes that move blobs, and all routes.\<close>

fun serve_blob_route :: "server_env \<Rightarrow> http_request \<Rightarrow> route \<Rightarrow> server \<times> disk \<Rightarrow> served" where
  "serve_blob_route env rq (CheckBlobs v) sd = authorized_body env rq (\<lambda>d _.
     answer_read (ok_json \<circ> blob_check_json) store_error_response (check_blobs v d)) sd"
| "serve_blob_route env rq (UploadInit v) sd = authorized_body env rq (\<lambda>d dev.
     answer (ok_json \<circ> uploads_json (upload_ticket_json (en_expires_at env))) store_error_response
       (init_blob_upload (en_sha env) v d (en_base_url env) (Some dev) (en_tokens env) (en_now env))) sd"
| "serve_blob_route env rq (ResumableUploadInit v) sd = authorized_body env rq (\<lambda>d dev.
     answer_op (ok_json \<circ> uploads_json (upload_plan_entry_json (en_expires_at env))) store_error_response
       (init_resumable_blob_upload (en_sha env) v d (en_base_url env) (Some dev) (en_tokens env) (en_now env))) sd"
| "serve_blob_route env rq (ResumableUploadComplete v) sd = authorized_body env rq (\<lambda>d _.
     answer_op (ok_json \<circ> uploads_json upload_result_json) store_error_response
       (complete_resumable_blob_upload (en_sha env) (en_digest env) v d (en_now env))) sd"
| "serve_blob_route env rq (DownloadInit v) sd = authorized_body env rq (\<lambda>d dev.
     answer (ok_json \<circ> downloads_json (download_ticket_json (en_expires_at env))) store_error_response
       (init_blob_download v d (en_base_url env) (Some dev) (en_tokens env) (en_now env))) sd"
| "serve_blob_route env rq (ResumableDownloadInit v) sd = authorized_body env rq (\<lambda>d dev.
     answer (ok_json \<circ> downloads_json (resumable_download_ticket_json (en_expires_at env))) store_error_response
       (init_resumable_blob_download v d (en_base_url env) (Some dev) (en_tokens env) (en_now env))) sd"
| "serve_blob_route env rq (UploadBlob t) sd = answer_op no_content capability_error_response
     (complete_blob_upload (en_digest env) t (body_bytes rq) (en_now env)) sd"
| "serve_blob_route env rq (UploadChunk i) sd = upload_chunk_route env rq i sd"
| "serve_blob_route env rq (DownloadBlob t) sd = answer_op octets capability_error_response
     (read_blob_download t (en_now env)) sd"
| "serve_blob_route env rq (DownloadRange t) sd = download_range_route env rq t sd"
| "serve_blob_route env rq r sd = (en_other env rq, sd)"

fun serve_route :: "server_env \<Rightarrow> http_request \<Rightarrow> route \<Rightarrow> server \<times> disk \<Rightarrow> served" where
  "serve_route env rq Health sd = (ok_json [(''ok'', JBool True)], sd)"
| "serve_route env rq RegisterDevice sd = with_body env rq (register_device_route env) sd"
| "serve_route env rq RegisterAccount sd = with_body env rq (register_account_route env) sd"
| "serve_route env rq Login sd = with_body env rq (login_route env) sd"
| "serve_route env rq RefreshToken sd = with_body env rq (refresh_token_route env) sd"
| "serve_route env rq Logout sd = logout_route env rq sd"
| "serve_route env rq (DeleteDevice d) sd = with_auth env rq (delete_device_route env d) sd"
| "serve_route env rq (ListDevices v) sd = with_auth env rq (\<lambda>dev.
     answer (ok_json \<circ> vault_devices_json) store_error_response
       (list_vault_devices v (Some dev) (en_now env) DEFAULT_DEVICE_INACTIVE_AFTER_MS)) sd"
| "serve_route env rq (Heartbeat v) sd = with_auth env rq (\<lambda>dev.
     answer (ok_json \<circ> heartbeat_json) store_error_response (heartbeat_device v dev (en_now env))) sd"
| "serve_route env rq (CollectTombstones v) sd = run_tombstone_gc_route env rq v sd"
| "serve_route env rq (VaultHead v) sd = with_auth env rq (\<lambda>_.
     answer (ok_json \<circ> vault_head_json v) (\<lambda>_. internal_error) (get_vault_head v)) sd"
| "serve_route env rq (ManifestAt v n) sd = get_manifest_route env rq v n sd"
| "serve_route env rq (CreateCommit v) sd = authorized_body env rq (create_commit_route env v) sd"
| "serve_route env rq (ResolveIntent v) sd = authorized_body env rq (\<lambda>d _.
     answer_read (ok_json \<circ> intent_resolution_json) store_error_response (resolve_commit_intent v d)) sd"
| "serve_route env rq (Ack v) sd = authorized_body env rq (ack_route env v) sd"
| "serve_route env rq (ListVersions v) sd = authorized_body env rq (\<lambda>d _.
     answer_read (ok_json \<circ> version_page_json) store_error_response (list_file_versions v d)) sd"
| "serve_route env rq (UpdateVersion v i) sd = authorized_body env rq (\<lambda>d _.
     answer (\<lambda>row. ok_json [(''version'', JObj (version_row_json row))]) store_error_response
       (update_file_version v i d)) sd"
| "serve_route env rq r sd = serve_blob_route env rq r sd"

definition serve :: "server_env \<Rightarrow> http_request \<Rightarrow> server \<times> disk \<Rightarrow> served" where
  "serve env rq sd = (case route_of (hq_method rq) (hq_path rq) of
     None \<Rightarrow> (en_other env rq, sd) | Some r \<Rightarrow> serve_route env rq r sd)"

section \<open>A served request is a run of the server\<close>

text \<open>The identifiers a request draws are not in use.\<close>

definition fresh_env :: "server_env \<Rightarrow> server \<Rightarrow> bool" where
  "fresh_env env sv \<longleftrightarrow> fresh_for (en_fresh_ids env) sv \<and>
     (\<forall>vid. vt_commits (vault_of sv vid) (gc_commit_id (en_run_id env)) = None \<and>
            vt_commits (vault_of sv vid) (gc_commit_id (en_run_ids env vid)) = None)"

lemma fresh_touch: "fresh_env env sv \<Longrightarrow> fresh_env env (touch_device d now sv)"
  by (auto simp: fresh_env_def fresh_for_def touch_device_def vault_of_def split: option.splits)

abbreviation env_run :: "server_env \<Rightarrow> server \<times> disk \<Rightarrow> server \<times> disk \<Rightarrow> bool" where
  "env_run env \<equiv> server_run (en_sha env) (en_nfc env) (en_digest env) (en_kdf env)"

abbreviation env_step :: "server_env \<Rightarrow> server \<times> disk \<Rightarrow> server \<times> disk \<Rightarrow> bool" where
  "env_step env \<equiv> server_step (en_sha env) (en_nfc env) (en_digest env) (en_kdf env)"

lemma answer_runs:
  assumes "\<And>x sv'. h sv = Inr (x, sv') \<Longrightarrow> env_step env (sv, dk) (sv', dk)"
  shows "env_run env (sv, dk) (snd (answer ok err h (sv, dk)))"
  using assms by (auto simp: answer_def split: sum.splits)

lemma answer_read_runs: "env_run env sd (snd (answer_read ok err h sd))"
  by (auto simp: answer_read_def split: sum.splits)

lemma answer_op_runs:
  assumes "\<And>x sv' dk'. h (sv, dk) = (x, sv', dk') \<Longrightarrow> env_step env (sv, dk) (sv', dk')"
  shows "env_run env (sv, dk) (snd (answer_op ok err h (sv, dk)))"
  using assms by (auto simp: answer_op_def split: sum.splits prod.splits)

lemma with_body_runs:
  assumes "\<And>d. env_run env sd (snd (k d sd))"
  shows "env_run env sd (snd (with_body env rq k sd))"
  using assms by (auto simp: with_body_def split: http_body.splits json.splits)

lemma with_auth_runs:
  assumes "fresh_env env (fst sd)"
    and "\<And>d sv. fresh_env env sv \<Longrightarrow> env_run env (sv, snd sd) (snd (k d (sv, snd sd)))"
  shows "env_run env sd (snd (with_auth env rq k sd))"
proof -
  obtain sv dk where sd: "sd = (sv, dk)" by (cases sd)
  show ?thesis
  proof (cases "\<exists>au. fst (required_auth_context rq (en_now env) sv) = Inr au")
    case True
    then obtain au where au: "required_auth_context rq (en_now env) sv =
        (Inr au, touch_device (Some (au_device_id au)) (en_now env) sv)"
      by (auto simp: required_auth_context_def split: sum.splits option.splits)
    let ?sv = "touch_device (Some (au_device_id au)) (en_now env) sv"
    have "env_step env (sv, dk) (?sv, dk)" by (rule server_step.touch)
    moreover have "env_run env (?sv, dk) (snd (k (au_device_id au) (?sv, dk)))"
      using assms(2) [of ?sv] fresh_touch assms(1) by (simp add: sd)
    ultimately show ?thesis by (simp add: with_auth_def sd au)
  next
    case False
    then have "snd (with_auth env rq k sd) = sd"
      by (auto simp: with_auth_def required_auth_context_def sd split: sum.splits option.splits)
    then show ?thesis by simp
  qed
qed

lemma authorized_body_runs:
  assumes "fresh_env env (fst sd)"
    and "\<And>d dev sv. fresh_env env sv \<Longrightarrow> env_run env (sv, snd sd) (snd (k d dev (sv, snd sd)))"
  shows "env_run env sd (snd (authorized_body env rq k sd))"
  unfolding authorized_body_def using assms by (blast intro: with_body_runs with_auth_runs)

lemmas answers_run = answer_runs answer_read_runs answer_op_runs

lemma serve_route_runs:
  assumes f: "fresh_env env (fst sd)"
  shows "env_run env sd (snd (serve_route env rq r sd))"
proof -
  obtain sv0 dk where sd: "sd = (sv0, dk)" by (cases sd)
  have f0: "fresh_for (en_fresh_ids env) sv0" using f by (simp add: sd fresh_env_def)
  note dest = server_step.intros
  have auth: "env_run env sd (snd (with_auth env rq k sd))"
    if "\<And>d sv. fresh_env env sv \<Longrightarrow> env_run env (sv, dk) (snd (k d (sv, dk)))" for k
    by (rule with_auth_runs [OF f]) (simp add: sd that)
  have authb: "env_run env sd (snd (authorized_body env rq k sd))"
    if "\<And>d dev sv. fresh_env env sv \<Longrightarrow> env_run env (sv, dk) (snd (k d dev (sv, dk)))" for k
    by (rule authorized_body_runs [OF f]) (simp add: sd that)
  show ?thesis
  proof (cases r)
    case RegisterDevice
    then show ?thesis
      using f0 by (auto simp: sd register_device_route_def intro!: with_body_runs answer_runs dest(8))
  next
    case RegisterAccount
    then show ?thesis
      using f0 by (auto simp: sd register_account_route_def intro!: with_body_runs answer_runs dest(9))
  next
    case Login
    then show ?thesis
      using f0 by (auto simp: sd login_route_def register_device_route_def
          intro: dest(8,10) intro!: with_body_runs answer_runs)
  next
    case RefreshToken
    then show ?thesis by (auto simp: sd refresh_token_route_def intro!: with_body_runs answer_runs dest(12))
  next
    case Logout
    have "env_step env (sv0, dk) (snd (revoke_session_for_token t (en_now env) sv0), dk)" for t
      by (rule dest(13) [of t _ _ "fst (revoke_session_for_token t (en_now env) sv0)"]) simp
    with Logout show ?thesis by (auto simp: sd logout_route_def split: sum.splits option.splits)
  next
    case (DeleteDevice d)
    then show ?thesis
      by (auto simp: delete_device_route_def fresh_env_def intro!: auth answer_op_runs dest(14))
  next
    case (CollectTombstones v)
    have "env_run env (sv, dk) (snd (answer ok err (run_tombstone_gc (en_sha env) (en_nfc env) v (en_run_id env) now ret
        inact actor) (sv, dk)))" if "fresh_env env sv" for sv now ret inact actor ok err
      using that by (auto simp: fresh_env_def intro!: answer_runs dest(3))
    then have "env_run env sd (snd (with_auth env rq (\<lambda>device_id sd1.
        case x of Inl r \<Rightarrow> (r, sd1)
        | Inr (now, ret, inact) \<Rightarrow> answer (ok_json \<circ> gc_result_json) store_error_response
            (run_tombstone_gc (en_sha env) (en_nfc env) v (en_run_id env) now ret inact (Some device_id)) sd1) sd))" for x
      by (intro auth) (auto split: sum.splits)
    with CollectTombstones show ?thesis
      by (auto simp: run_tombstone_gc_route_def Let_def split: http_body.splits json.splits)
  next
    case (ManifestAt v n)
    then show ?thesis
      by (auto simp: get_manifest_route_def split: option.splits intro!: auth)
  next
    case (CreateCommit v)
    then show ?thesis by (auto simp: create_commit_route_def intro!: authb answer_runs dest(1))
  next
    case (Ack v)
    then show ?thesis by (auto simp: ack_route_def fresh_env_def intro!: authb answer_runs dest(4))
  next
    case (UploadChunk i)
    then show ?thesis
      by (auto simp: sd upload_chunk_route_def split: sum.splits intro!: answer_op_runs dest(22))
  next
    case (DownloadRange i)
    then show ?thesis
      by (auto simp: sd download_range_route_def split: sum.splits intro!: answer_op_runs dest(20))
  next
    case (VaultHead v)
    then show ?thesis by (auto intro!: auth answer_runs dest(2))
  next
    case (Heartbeat v)
    then show ?thesis by (auto intro!: auth answer_runs dest(5))
  next
    case (ListDevices v)
    then show ?thesis by (auto intro!: auth answer_runs dest(6))
  next
    case (UpdateVersion v i)
    then show ?thesis by (auto intro!: authb answer_runs dest(7))
  next
    case (UploadInit v)
    then show ?thesis by (auto intro!: authb answer_runs dest(15))
  next
    case (DownloadInit v)
    then show ?thesis by (auto intro!: authb answer_runs dest(17))
  next
    case (ResumableDownloadInit v)
    then show ?thesis by (auto intro!: authb answer_runs dest(18))
  next
    case (ResumableUploadInit v)
    then show ?thesis by (auto intro!: authb answer_op_runs dest(21))
  next
    case (ResumableUploadComplete v)
    then show ?thesis by (auto intro!: authb answer_op_runs dest(23))
  next
    case (UploadBlob t)
    then show ?thesis by (auto simp: sd intro!: answer_op_runs dest(16))
  next
    case (DownloadBlob t)
    then show ?thesis by (auto simp: sd intro!: answer_op_runs dest(19))
  qed (auto intro!: authb answer_read_runs)
qed

text \<open>C5: the HTTP application refines the server's state machine: whatever request arrives, known or unknown route,
  with or without a token or a body, and whatever the reply, the state the application is left in is
  reached by steps of the server from the one it was in; so every invariant of the server's runs holds of
  the application.\<close>

theorem served_request_is_server_run:
  assumes "fresh_env env sv" and "serve env rq (sv, dk) = (reply, sv', dk')"
  shows "server_run (en_sha env) (en_nfc env) (en_digest env) (en_kdf env) (sv, dk) (sv', dk')"
proof -
  have "env_run env (sv, dk) (snd (serve env rq (sv, dk)))"
    using serve_route_runs [of env "(sv, dk)"] assms(1) by (auto simp: serve_def split: option.splits)
  then show ?thesis by (simp add: assms(2))
qed

definition sample_env :: "nat \<Rightarrow> server_env" where
  "sample_env n = (let t = (\<lambda>s. s @ replicate n CHR ''x'') in
     \<lparr>en_sha = id, en_nfc = id, en_digest = id, en_kdf = (\<lambda>p salt _. p @ salt), en_now = 1000 + int n,
      en_date_text = (\<lambda>_. ''date''), en_expires_at = ''later'', en_path_int = int_of_text,
      en_other = (\<lambda>_. empty_reply 404), en_base_url = ''http://h/'', en_salt = t ''salt'', en_user_id = t ''u'',
      en_fresh_ids = \<lparr>fr_device_id = t ''d'', fr_session_id = t ''s'', fr_access_token = t ''a'', fr_refresh_token = t ''r''\<rparr>,
      en_access_token = t ''a2'', en_refresh_token = t ''r2'', en_tokens = [t ''0'', t ''1'', t ''2''],
      en_run_id = t ''run'', en_run_ids = (\<lambda>v. t v), en_gc_min_retention_ms = 0, en_gc_inactive_after_ms = 1\<rparr>)"

definition sample_request :: "string \<Rightarrow> string \<Rightarrow> string option \<Rightarrow> http_body \<Rightarrow> http_request" where
  "sample_request verb path token body =
     \<lparr>hq_method = verb, hq_path = path, hq_authorization = map_option (\<lambda>t. ''Bearer '' @ t) token,
      hq_headers = [], hq_body = body\<rparr>"

definition sample_registration :: http_request where
  "sample_registration = sample_request ''POST'' ''/devices/register'' None (JsonBody (JObj
     [(''device_name'', JStr ''n''), (''platform'', JStr ''desktop'')]))"

lemma served_request_is_server_run_witness:
  "let (reply, sv', dk') = serve (sample_env 0) sample_registration (default_state, empty_disk)
   in hp_status reply = 200 \<and> sv_devices sv' ''d'' \<noteq> None \<and>
      server_run id id id (\<lambda>p salt _. p @ salt) (default_state, empty_disk) (sv', dk')"
proof -
  let ?s = "serve (sample_env 0) sample_registration (default_state, empty_disk)"
  have st: "hp_status (fst ?s) = 200 \<and> sv_devices (fst (snd ?s)) ''d'' \<noteq> None" by code_simp
  have "fresh_env (sample_env 0) default_state"
    by (simp add: fresh_env_def fresh_for_def default_state_def vault_of_def new_vault_def)
  from served_request_is_server_run [OF this, of sample_registration empty_disk "fst ?s" "fst (snd ?s)" "snd (snd ?s)"] st
  show ?thesis by (simp add: case_prod_beta sample_env_def)
qed

section \<open>Who may do what\<close>

fun needs_authorization :: "route \<Rightarrow> bool" where
  "needs_authorization Health = False"
| "needs_authorization RegisterDevice = False"
| "needs_authorization RegisterAccount = False"
| "needs_authorization Login = False"
| "needs_authorization RefreshToken = False"
| "needs_authorization Logout = False"
| "needs_authorization (UploadBlob _) = False"
| "needs_authorization (UploadChunk _) = False"
| "needs_authorization (DownloadBlob _) = False"
| "needs_authorization (DownloadRange _) = False"
| "needs_authorization _ = True"

definition authenticated :: "http_request \<Rightarrow> int \<Rightarrow> server \<Rightarrow> bool" where
  "authenticated rq now sv = (case bearer_token rq of
     Inr (Some token) \<Rightarrow> (case authorize_access_token token now sv of Inr _ \<Rightarrow> True | Inl _ \<Rightarrow> False)
   | _ \<Rightarrow> False)"

lemma with_auth_refused:
  assumes "\<not> authenticated rq (en_now env) (fst sd)"
  shows "\<exists>r. with_auth env rq k sd = (r, sd) \<and> hp_status r \<in> {401, 403}"
proof -
  have st: "hp_status (store_error_response e) \<in> {401, 403}" if "authorize_access_token t now sv = Inl e" for t now sv e
    using that by (auto simp: authorize_access_token_def device_of_token_error_def store_error_response_def
        contract_error_response_def json_reply_def status_code_for_store_error_def STATUS_CODE_BY_CODE_def
        split: option.splits if_splits)
  have "hp_status r = 401" if "bearer_token rq = Inl r" for r
    using that by (auto simp: bearer_token_def Let_def contract_error_response_def json_reply_def split: option.splits if_splits)
  then show ?thesis
    using assms st [of _ "en_now env" "fst sd"]
    by (auto simp: authenticated_def with_auth_def required_auth_context_def missing_authorization_def
        contract_error_response_def json_reply_def split: sum.splits option.splits)
qed

text \<open>C17: without a valid token nothing happens: a request for a route that needs authorization, whose header is missing
  or malformed or whose token is unknown, expired or revoked, is answered 401 or 403 (or refused by the
  framework before the route runs) and leaves the server's state and files exactly as they were.\<close>

theorem unauthorized_request_refused:
  assumes "route_of (hq_method rq) (hq_path rq) = Some r" and "needs_authorization r"
    and "\<not> authenticated rq (en_now env) sv"
  shows "snd (serve env rq (sv, dk)) = (sv, dk) \<and>
    (fst (serve env rq (sv, dk)) = en_other env rq \<or> hp_status (fst (serve env rq (sv, dk))) \<in> {401, 403})"
proof -
  have a: "snd (with_auth env rq k (sv, dk)) = (sv, dk) \<and>
      hp_status (fst (with_auth env rq k (sv, dk))) \<in> {401, 403}" for k
    using with_auth_refused [of rq env "(sv, dk)" k] assms(3) by auto
  then have b: "snd (authorized_body env rq k (sv, dk)) = (sv, dk) \<and>
      (fst (authorized_body env rq k (sv, dk)) = en_other env rq \<or>
       hp_status (fst (authorized_body env rq k (sv, dk))) \<in> {401, 403})" for k
    by (auto simp: authorized_body_def with_body_def split: http_body.splits json.splits)
  have s: "serve env rq (sv, dk) = serve_route env rq r (sv, dk)"
    using assms(1) by (simp add: serve_def)
  show ?thesis
    using assms(2) a b unfolding s
    by (cases r) (simp_all add: run_tombstone_gc_route_def get_manifest_route_def Let_def
        split: http_body.split json.split option.split)
qed

lemma unauthorized_request_refused_witness:
  "let (reply, sd) = serve (sample_env 0) (sample_request ''GET'' ''/vaults/v/head'' (Some ''no'') NoBody)
     (default_state, empty_disk)
   in sd = (default_state, empty_disk) \<and> hp_status reply = 401"
proof -
  let ?rq = "sample_request ''GET'' ''/vaults/v/head'' (Some ''no'') NoBody"
  have "route_of (hq_method ?rq) (hq_path ?rq) = Some (VaultHead ''v'')" "needs_authorization (VaultHead ''v'')"
    "\<not> authenticated ?rq (en_now (sample_env 0)) default_state" by code_simp+
  from unauthorized_request_refused [OF this, of empty_disk]
  have "snd (serve (sample_env 0) ?rq (default_state, empty_disk)) = (default_state, empty_disk)" by blast
  moreover have "hp_status (fst (serve (sample_env 0) ?rq (default_state, empty_disk))) = 401" by code_simp
  ultimately show ?thesis by (simp add: case_prod_beta)
qed

end
