(* ===== verification/Server_Worker.thy ===== *)
theory Server_Worker
  imports Server_Http Complex_Main
begin

text \<open>
  The background worker and the counters of \<open>noteapp-server/main.py\<close>: the pass of
  \<open>TombstoneGcWorker\<close> over all vaults, and \<open>RuntimeMetrics\<close>, fed by the middleware with every
  request. Rates are exact quotients here, which the code rounds to six digits; the waits for the
  database lock, which are floats, are left out.
\<close>

section \<open>Collecting in the background\<close>

text \<open>One collection after the other, each under the lock; a vault that raises is noted and passed over.\<close>

fun collect_all ::
  "server_env \<Rightarrow> string list \<Rightarrow> server \<Rightarrow> (string \<times> gc_result) list \<times> (string \<times> server_error) list \<times> server" where
  "collect_all env [] sv = ([], [], sv)"
| "collect_all env (v # vs) sv =
     (case run_tombstone_gc (en_sha env) (en_nfc env) v (en_run_ids env v) (en_now env) (en_gc_min_retention_ms env)
         (en_gc_inactive_after_ms env) (Some ''server:tombstone-gc-worker'') sv of
       Inl e \<Rightarrow> (case collect_all env vs sv of (rs, es, sv') \<Rightarrow> (rs, (v, e) # es, sv'))
     | Inr (g, sv1) \<Rightarrow> (case collect_all env vs sv1 of (rs, es, sv') \<Rightarrow> ((v, g) # rs, es, sv')))"

record gc_summary =
  gs_vault_count :: int
  gs_reclaimed_count :: int
  gs_results :: "gc_result list"
  gs_errors :: "(string \<times> server_error) list"

definition run_once :: "server_env \<Rightarrow> server \<Rightarrow> gc_summary \<times> server" where
  "run_once env sv = (let vault_ids = list_vault_ids sv in
     case collect_all env vault_ids sv of (results, errors, sv') \<Rightarrow>
       (\<lparr>gs_vault_count = int (length vault_ids),
         gs_reclaimed_count = sum_list (map (\<lambda>(_, g). int (length (gr_reclaimed_tombstones g))) results),
         gs_results = map snd results, gs_errors = errors\<rparr>, sv'))"

section \<open>A pass treats each vault as if alone\<close>

abbreviation worker_gc :: "server_env \<Rightarrow> string \<Rightarrow> gc_result handler" where
  "worker_gc env v \<equiv> run_tombstone_gc (en_sha env) (en_nfc env) v (en_run_ids env v) (en_now env)
     (en_gc_min_retention_ms env) (en_gc_inactive_after_ms env) (Some ''server:tombstone-gc-worker'')"

lemma gc_locked_devices_only:
  "sv_devices sv = sv_devices sv' \<Longrightarrow>
     run_tombstone_gc_locked sha nfc vid run now ret inact actor noop sv v =
     run_tombstone_gc_locked sha nfc vid run now ret inact actor noop sv' v"
  by (simp add: run_tombstone_gc_locked_def active_vault_device_ids_def)

lemma worker_gc_effect:
  assumes "worker_gc env v sv = Inr (g, sv1)"
  obtains w where "sv1 = put_vault v w sv" "vault_of sv1 v = w"
  using assms by (auto simp: run_tombstone_gc_def result_simps split: if_splits)

text \<open>What the worker does to one vault does not depend on what became of another.\<close>

lemma worker_gc_aside:
  assumes "u \<noteq> v"
  shows "worker_gc env v (put_vault u w sv) = (case worker_gc env v sv of
     Inl e \<Rightarrow> Inl e | Inr (g, sv1) \<Rightarrow> Inr (g, put_vault v (vault_of sv1 v) (put_vault u w sv)))"
  using assms gc_locked_devices_only [of "put_vault u w sv" sv]
  by (auto simp: run_tombstone_gc_def rbind_def split: sum.split prod.split)

definition as_if_alone :: "server_env \<Rightarrow> server \<Rightarrow> string \<Rightarrow> gc_result option \<Rightarrow> server_error option \<Rightarrow> vault \<Rightarrow> bool" where
  "as_if_alone env sv v r e w = (case worker_gc env v sv of
     Inl e' \<Rightarrow> r = None \<and> e = Some e' \<and> w = vault_of sv v
   | Inr (g, sv1) \<Rightarrow> r = Some g \<and> e = None \<and> w = vault_of sv1 v)"

lemma as_if_alone_aside:
  assumes "u \<noteq> v"
  shows "as_if_alone env (put_vault u w sv) v r e x = as_if_alone env sv v r e x"
  using assms by (simp add: as_if_alone_def worker_gc_aside split: sum.split prod.split)

lemma collect_all_alone:
  "distinct vs \<Longrightarrow> collect_all env vs sv = (rs, es, sv') \<Longrightarrow>
     map fst rs @ map fst es \<in> {xs. set xs = set vs} \<and>
     (\<forall>v. if v \<in> set vs then as_if_alone env sv v (map_of rs v) (map_of es v) (vault_of sv' v)
          else vault_of sv' v = vault_of sv v)"
proof (induction env vs sv arbitrary: rs es sv' rule: collect_all.induct)
  case (2 env v vs sv)
  show ?case
  proof (cases "worker_gc env v sv")
    case (Inl e)
    with 2(4) obtain es1 where c: "collect_all env vs sv = (rs, es1, sv')" "es = (v, e) # es1"
      by (auto split: prod.splits)
    from 2(1) [OF Inl _ c(1)] 2(3) have IH: "set (map fst rs @ map fst es1) = set vs"
      "\<forall>u. if u \<in> set vs then as_if_alone env sv u (map_of rs u) (map_of es1 u) (vault_of sv' u)
          else vault_of sv' u = vault_of sv u" by auto
    from IH(1) 2(3) have "map_of rs v = None" by (auto simp: map_of_eq_None_iff)
    with IH(2) 2(3) c(2) Inl have "as_if_alone env sv v (map_of rs v) (map_of es v) (vault_of sv' v)"
      by (auto simp: as_if_alone_def)
    with IH c(2) 2(3) show ?thesis by auto
  next
    case (Inr gs)
    obtain g sv1 where gs: "gs = (g, sv1)" by (cases gs)
    with 2(4) Inr obtain rs1 where c: "collect_all env vs sv1 = (rs1, es, sv')" "rs = (v, g) # rs1"
      by (auto split: prod.splits)
    obtain w where w: "sv1 = put_vault v w sv" "vault_of sv1 v = w"
      using worker_gc_effect Inr gs by blast
    from 2(2) [OF Inr gs [symmetric] _ c(1)] 2(3) have IH: "set (map fst rs1 @ map fst es) = set vs"
      "\<forall>u. if u \<in> set vs then as_if_alone env sv1 u (map_of rs1 u) (map_of es u) (vault_of sv' u)
          else vault_of sv' u = vault_of sv1 u" by auto
    from IH(1) 2(3) have n: "map_of es v = None" by (auto simp: map_of_eq_None_iff)
    have "as_if_alone env sv u (map_of rs u) (map_of es u) (vault_of sv' u)" if "u \<in> set vs" for u
    proof -
      from that 2(3) have "v \<noteq> u" by auto
      moreover have "as_if_alone env sv1 u (map_of rs1 u) (map_of es u) (vault_of sv' u)" using IH(2) that by auto
      ultimately show ?thesis using c(2) by (simp add: w(1) as_if_alone_aside)
    qed
    moreover have "as_if_alone env sv v (map_of rs v) (map_of es v) (vault_of sv' v)"
      using IH(2) 2(3) n c(2) Inr gs by (auto simp: as_if_alone_def)
    moreover have "vault_of sv' u = vault_of sv u" if "u \<noteq> v" "u \<notin> set vs" for u
      using IH(2) that w(1) by simp
    ultimately show ?thesis using IH(1) c(2) by auto
  qed
qed simp

lemma collect_all_runs:
  "distinct vs \<Longrightarrow> \<forall>v \<in> set vs. vt_commits (vault_of sv v) (gc_commit_id (en_run_ids env v)) = None \<Longrightarrow>
     collect_all env vs sv = (rs, es, sv') \<Longrightarrow> env_run env (sv, dk) (sv', dk)"
proof (induction env vs sv arbitrary: rs es sv' rule: collect_all.induct)
  case (2 env v vs sv)
  show ?case
  proof (cases "worker_gc env v sv")
    case (Inl e)
    with 2 show ?thesis by (auto split: prod.splits)
  next
    case (Inr gs)
    obtain g sv1 where gs: "gs = (g, sv1)" by (cases gs)
    with 2(5) Inr obtain rs1 where c: "collect_all env vs sv1 = (rs1, es, sv')" by (auto split: prod.splits)
    obtain w where w: "sv1 = put_vault v w sv" using worker_gc_effect Inr gs by blast
    have "env_step env (sv, dk) (sv1, dk)"
      by (rule server_step.collect [OF Inr [unfolded gs]]) (use 2(4) in simp)
    moreover have "env_run env (sv1, dk) (sv', dk)"
      by (rule 2(2) [OF Inr gs [symmetric] _ _ c]) (use 2(3,4) in \<open>auto simp: w\<close>)
    ultimately show ?thesis by simp
  qed
qed simp

lemma list_vault_ids_distinct: "server_ok sv \<Longrightarrow> distinct (list_vault_ids sv)"
  by (simp add: list_vault_ids_def server_ok_def distinct_map_filter)

text \<open>A pass of the background worker collects every vault exactly as if it were the only one: the result it
  reports for a vault and the state it leaves that vault in are those of collecting that vault alone from
  the state the pass began with, a vault whose collection raises is reported with its error and left as
  it was without stopping the others, and the pass is a run of the server's state machine.\<close>

lemma worker_pass_collects_each_vault:
  assumes "server_ok sv" and "fresh_env env sv" and "collect_all env (list_vault_ids sv) sv = (rs, es, sv')"
  shows "set (map fst rs @ map fst es) = set (list_vault_ids sv) \<and>
    (\<forall>v \<in> set (list_vault_ids sv). case worker_gc env v sv of
       Inl e \<Rightarrow> map_of es v = Some e \<and> vault_of sv' v = vault_of sv v
     | Inr (g, sv1) \<Rightarrow> map_of rs v = Some g \<and> vault_of sv' v = vault_of sv1 v) \<and>
    server_run (en_sha env) (en_nfc env) (en_digest env) (en_kdf env) (sv, dk) (sv', dk)"
proof -
  note d = list_vault_ids_distinct [OF assms(1)]
  from collect_all_alone [OF d assms(3)]
  have "set (map fst rs @ map fst es) = set (list_vault_ids sv)"
    "\<forall>v \<in> set (list_vault_ids sv). as_if_alone env sv v (map_of rs v) (map_of es v) (vault_of sv' v)" by auto
  moreover have "env_run env (sv, dk) (sv', dk)"
    by (rule collect_all_runs [OF d _ assms(3)]) (use assms(2) in \<open>simp add: fresh_env_def\<close>)
  ultimately show ?thesis by (auto simp: as_if_alone_def split: sum.splits)
qed

lemma committed_fresh: "fresh_env ((sample_env 0)\<lparr>en_sha := sha\<rparr>) committed"
proof -
  have "fresh_for (en_fresh_ids (sample_env 0)) committed" by code_simp
  moreover have "map fst (sv_vaults committed) = [''v'']" by code_simp
  then have "vault_of committed vid = new_vault" if "vid \<noteq> ''v''" for vid
    using that by (auto simp: vault_of_def split: option.splits dest: map_of_SomeD)
  moreover have "vt_commits (vault_of committed ''v'') (gc_commit_id (en_run_id (sample_env 0))) = None \<and>
      vt_commits (vault_of committed ''v'') (gc_commit_id (en_run_ids (sample_env 0) ''v'')) = None" by code_simp
  ultimately have "vt_commits (vault_of committed vid) (gc_commit_id (en_run_id (sample_env 0))) = None \<and>
      vt_commits (vault_of committed vid) (gc_commit_id (en_run_ids (sample_env 0) vid)) = None" for vid
    by (cases "vid = ''v''") (auto simp: new_vault_def)
  with \<open>fresh_for _ committed\<close> show ?thesis by (simp add: fresh_env_def)
qed

lemma worker_pass_collects_each_vault_witness:
  "let env = (sample_env 0)\<lparr>en_sha := rev\<rparr>; (rs, es, sv') = collect_all env (list_vault_ids committed) committed
   in es = [] \<and> map (\<lambda>(v, g). (v, length (gr_reclaimed_tombstones g))) rs = [(''v'', 1)] \<and>
      server_run rev id id (\<lambda>p salt _. p @ salt) (committed, empty_disk) (sv', empty_disk)"
proof -
  let ?e = "(sample_env 0)\<lparr>en_sha := rev\<rparr>"
  let ?c = "collect_all ?e (list_vault_ids committed) committed"
  let ?g = "run_tombstone_gc rev id ''v'' ''v'' 1000 0 1 (Some ''server:tombstone-gc-worker'') committed"
  have "case ?g of Inr (g, _) \<Rightarrow> length (gr_reclaimed_tombstones g) = 1 | Inl _ \<Rightarrow> False" by code_simp
  then obtain g sv1 where g: "?g = Inr (g, sv1)" "length (gr_reclaimed_tombstones g) = 1" by (cases ?g) auto
  have vs: "list_vault_ids committed = [''v'']" by code_simp
  have "?c = ([(''v'', g)], [], sv1)"
    using g(1) unfolding vs by (simp add: sample_env_def)
  with g(2) have r: "fst (snd ?c) = [] \<and> map (\<lambda>(v, g). (v, length (gr_reclaimed_tombstones g))) (fst ?c) = [(''v'', 1)]"
    by (simp only: fst_conv snd_conv list.map prod.case simp_thms)
  have "server_ok committed"
    using reachable_good [OF normal_form_id committed_reached] by (simp add: server_good_def)
  note ok = this
  obtain rs es sv' where c: "?c = (rs, es, sv')" by (cases ?c)
  have fields: "en_sha ?e = rev" "en_nfc ?e = id" "en_digest ?e = id" "en_kdf ?e = (\<lambda>p salt _. p @ salt)"
    by (simp_all add: sample_env_def)
  have "server_run rev id id (\<lambda>p salt _. p @ salt) (committed, empty_disk) (sv', empty_disk)"
    using worker_pass_collects_each_vault [OF ok committed_fresh [of rev] c, of empty_disk] unfolding fields by blast
  with r show ?thesis unfolding Let_def c by simp
qed

section \<open>Counting requests\<close>

type_synonym counter = "string \<Rightarrow> int"

record runtime_metrics =
  rm_counters :: counter
  rm_status_codes :: "int \<Rightarrow> int"
  rm_methods :: counter

definition metrics_reset :: runtime_metrics where
  "metrics_reset = \<lparr>rm_counters = (\<lambda>_. 0), rm_status_codes = (\<lambda>_. 0), rm_methods = (\<lambda>_. 0)\<rparr>"

definition count_when :: "string \<Rightarrow> bool \<Rightarrow> runtime_metrics \<Rightarrow> runtime_metrics" where
  "count_when name when m = (if when then m\<lparr>rm_counters := (rm_counters m)(name := rm_counters m name + 1)\<rparr> else m)"

definition COMMITS_ROUTE :: string where "COMMITS_ROUTE = ''/vaults/{vault_id}/commits''"

definition record_request :: "string \<Rightarrow> string \<Rightarrow> int \<Rightarrow> string option \<Rightarrow> runtime_metrics \<Rightarrow> runtime_metrics" where
  "record_request verb route_path status_code error_code m =
     (let commit = (route_path = COMMITS_ROUTE \<and> verb = ''POST'');
          upload = (route_path \<in> {''/_capabilities/blobs/{capability_token}'',
              ''/_capabilities/blobs/resumable-upload/{session_id}''} \<and> verb = ''PUT'');
          error_in = (\<lambda>codes. case error_code of Some c \<Rightarrow> c \<in> set codes | None \<Rightarrow> False) in
      count_when ''state_write_conflicts_total'' (error_in [''state_write_conflict''])
      (count_when ''object_storage_failures_total'' (error_in [''object_storage_error'', ''object_storage_unavailable''])
      (count_when ''capability_missing_or_revoked_total''
         (error_in [''capability_not_found''] \<and> starts_with route_path ''/_capabilities/'')
      (count_when ''capability_expired_total'' (error_in [''capability_expired''])
      (count_when ''blob_upload_failures_total'' (upload \<and> status_code \<ge> 400)
      (count_when ''blob_upload_attempts_total'' upload
      (count_when ''commit_cas_rejections_total''
         (commit \<and> error_in [''base_revision_conflict'', ''manifest_conflict'', ''state_write_conflict''])
      (count_when ''commit_conflicts_total'' (commit \<and> error_in [''base_revision_conflict'', ''manifest_conflict''])
      (count_when ''commit_attempts_total'' commit
      (count_when ''errors_total'' (status_code \<ge> 400)
      (m\<lparr>rm_counters := (rm_counters m)(''requests_total'' := rm_counters m ''requests_total'' + 1),
         rm_status_codes := (rm_status_codes m)(status_code := rm_status_codes m status_code + 1),
         rm_methods := (rm_methods m)(verb := rm_methods m verb + 1)\<rparr>)))))))))))"

definition record_capability_revocation_event :: "runtime_metrics \<Rightarrow> runtime_metrics" where
  "record_capability_revocation_event = count_when ''capability_revocation_events_total'' True"

definition record_tombstone_gc :: "int \<Rightarrow> runtime_metrics \<Rightarrow> runtime_metrics" where
  "record_tombstone_gc reclaimed_count m = m\<lparr>rm_counters := (rm_counters m)(''tombstone_gc_deleted_total'' :=
     rm_counters m ''tombstone_gc_deleted_total'' + max 0 reclaimed_count)\<rparr>"

text \<open>\<open>_rate\<close>, unrounded: zero when nothing was counted.\<close>

definition rate :: "int \<Rightarrow> int \<Rightarrow> rat" where
  "rate numerator denominator = (if denominator \<le> 0 then 0 else of_int numerator / of_int denominator)"

record metrics_snapshot =
  ms_status_codes :: "int \<Rightarrow> int"
  ms_methods :: counter
  ms_requests_total :: int
  ms_errors_total :: int
  ms_error_rate :: rat
  ms_commit_attempts_total :: int
  ms_commit_conflicts_total :: int
  ms_commit_conflict_rate :: rat
  ms_commit_cas_rejections_total :: int
  ms_blob_upload_attempts_total :: int
  ms_blob_upload_failures_total :: int
  ms_blob_upload_failure_rate :: rat
  ms_capability_expired_total :: int
  ms_capability_missing_or_revoked_total :: int
  ms_capability_revocation_events_total :: int
  ms_object_storage_failures_total :: int
  ms_state_write_conflicts_total :: int
  ms_tombstone_gc_deleted_total :: int

definition metrics_snapshot_of :: "runtime_metrics \<Rightarrow> metrics_snapshot" where
  "metrics_snapshot_of m = (let c = rm_counters m in
     \<lparr>ms_status_codes = rm_status_codes m, ms_methods = rm_methods m,
      ms_requests_total = c ''requests_total'', ms_errors_total = c ''errors_total'',
      ms_error_rate = rate (c ''errors_total'') (c ''requests_total''),
      ms_commit_attempts_total = c ''commit_attempts_total'', ms_commit_conflicts_total = c ''commit_conflicts_total'',
      ms_commit_conflict_rate = rate (c ''commit_conflicts_total'') (c ''commit_attempts_total''),
      ms_commit_cas_rejections_total = c ''commit_cas_rejections_total'',
      ms_blob_upload_attempts_total = c ''blob_upload_attempts_total'',
      ms_blob_upload_failures_total = c ''blob_upload_failures_total'',
      ms_blob_upload_failure_rate = rate (c ''blob_upload_failures_total'') (c ''blob_upload_attempts_total''),
      ms_capability_expired_total = c ''capability_expired_total'',
      ms_capability_missing_or_revoked_total = c ''capability_missing_or_revoked_total'',
      ms_capability_revocation_events_total = c ''capability_revocation_events_total'',
      ms_object_storage_failures_total = c ''object_storage_failures_total'',
      ms_state_write_conflicts_total = c ''state_write_conflicts_total'',
      ms_tombstone_gc_deleted_total = c ''tombstone_gc_deleted_total''\<rparr>)"

text \<open>The middleware: a served request is counted under the template of its route, with the error code of
  the header, which is that of the body of an error reply.\<close>

fun route_template :: "route \<Rightarrow> string" where
  "route_template Health = ''/health''"
| "route_template RegisterDevice = ''/devices/register''"
| "route_template RegisterAccount = ''/auth/register''"
| "route_template Login = ''/auth/login''"
| "route_template RefreshToken = ''/auth/refresh''"
| "route_template Logout = ''/auth/logout''"
| "route_template (DeleteDevice _) = ''/devices/{device_id}''"
| "route_template (ListDevices _) = ''/vaults/{vault_id}/devices''"
| "route_template (Heartbeat _) = ''/vaults/{vault_id}/devices/heartbeat''"
| "route_template (CollectTombstones _) = ''/vaults/{vault_id}/tombstones/gc''"
| "route_template (VaultHead _) = ''/vaults/{vault_id}/head''"
| "route_template (ManifestAt _ _) = ''/vaults/{vault_id}/manifests/{revision}''"
| "route_template (CreateCommit _) = ''/vaults/{vault_id}/commits''"
| "route_template (ResolveIntent _) = ''/vaults/{vault_id}/commits/resolve-intent''"
| "route_template (Ack _) = ''/vaults/{vault_id}/ack''"
| "route_template (ListVersions _) = ''/vaults/{vault_id}/file-versions/list''"
| "route_template (UpdateVersion _ _) = ''/vaults/{vault_id}/file-versions/{version_id}''"
| "route_template (CheckBlobs _) = ''/vaults/{vault_id}/blobs/check''"
| "route_template (UploadInit _) = ''/vaults/{vault_id}/blobs/upload-init''"
| "route_template (ResumableUploadInit _) = ''/vaults/{vault_id}/blobs/resumable-upload-init''"
| "route_template (ResumableUploadComplete _) = ''/vaults/{vault_id}/blobs/resumable-upload-complete''"
| "route_template (DownloadInit _) = ''/vaults/{vault_id}/blobs/download-init''"
| "route_template (ResumableDownloadInit _) = ''/vaults/{vault_id}/blobs/resumable-download-init''"
| "route_template (UploadBlob _) = ''/_capabilities/blobs/{capability_token}''"
| "route_template (UploadChunk _) = ''/_capabilities/blobs/resumable-upload/{session_id}''"
| "route_template (DownloadBlob _) = ''/_capabilities/blobs/{capability_token}''"
| "route_template (DownloadRange _) = ''/_capabilities/blobs/resumable-download/{capability_token}''"

definition reply_error_code :: "http_reply \<Rightarrow> string option" where
  "reply_error_code r = (if hp_status r < 400 then None
     else case hp_body r of JsonReply d \<Rightarrow> py_str (dget d ''code'') | _ \<Rightarrow> Some ''unhandled_exception'')"

definition observe :: "http_request \<Rightarrow> http_reply \<Rightarrow> runtime_metrics \<Rightarrow> runtime_metrics" where
  "observe rq r = record_request (hq_method rq)
     (case route_of (hq_method rq) (hq_path rq) of Some ro \<Rightarrow> route_template ro | None \<Rightarrow> hq_path rq)
     (hp_status r) (reply_error_code r)"

definition counters_ok :: "counter \<Rightarrow> bool" where
  "counters_ok c \<longleftrightarrow> 0 \<le> c ''errors_total'' \<and> c ''errors_total'' \<le> c ''requests_total'' \<and>
     0 \<le> c ''commit_conflicts_total'' \<and> c ''commit_conflicts_total'' \<le> c ''commit_cas_rejections_total'' \<and>
     c ''commit_cas_rejections_total'' \<le> c ''commit_attempts_total'' \<and>
     c ''commit_attempts_total'' \<le> c ''requests_total'' \<and>
     0 \<le> c ''blob_upload_failures_total'' \<and> c ''blob_upload_failures_total'' \<le> c ''blob_upload_attempts_total'' \<and>
     c ''blob_upload_attempts_total'' \<le> c ''requests_total''"

lemma count_counters: "rm_counters (count_when n b m) k = rm_counters m k + (if b \<and> k = n then 1 else 0)"
  by (simp add: count_when_def)

lemma record_request_counters:
  "rm_counters (record_request verb path status code m) ''requests_total'' = rm_counters m ''requests_total'' + 1"
  "rm_counters (record_request verb path status code m) ''errors_total'' =
     rm_counters m ''errors_total'' + (if status \<ge> 400 then 1 else 0)"
  by (simp_all add: record_request_def Let_def count_counters)

lemma record_request_ok:
  "counters_ok (rm_counters m) \<Longrightarrow> counters_ok (rm_counters (record_request verb path status code m))"
  by (cases code) (simp_all add: counters_ok_def record_request_def Let_def count_counters COMMITS_ROUTE_def)

lemma rate_bounds: "0 \<le> n \<Longrightarrow> n \<le> d \<Longrightarrow> 0 \<le> rate n d \<and> rate n d \<le> 1"
  by (simp add: rate_def divide_le_eq_1)

text \<open>The numbers of \<open>/metrics\<close> are consistent however the requests fall: after any sequence of requests since the
  counters were reset, \<open>requests_total\<close> is their number and \<open>errors_total\<close> the number answered with
  a status of 400 or more, refused commits never outnumber the attempts, and all three rates lie
  between zero and one.\<close>

lemma metrics_consistent:
  fixes rs :: "(http_request \<times> http_reply) list"
  defines "s \<equiv> metrics_snapshot_of (fold (\<lambda>(rq, r). observe rq r) rs metrics_reset)"
  shows "ms_requests_total s = int (length rs) \<and>
    ms_errors_total s = int (length (filter (\<lambda>(rq, r). hp_status r \<ge> 400) rs)) \<and>
    ms_commit_conflicts_total s \<le> ms_commit_cas_rejections_total s \<and>
    ms_commit_cas_rejections_total s \<le> ms_commit_attempts_total s \<and>
    ms_error_rate s \<in> {0..1} \<and> ms_commit_conflict_rate s \<in> {0..1} \<and> ms_blob_upload_failure_rate s \<in> {0..1}"
proof -
  have n: "rm_counters (fold (\<lambda>(rq, r). observe rq r) rs m) ''requests_total'' =
        rm_counters m ''requests_total'' + int (length rs) \<and>
      rm_counters (fold (\<lambda>(rq, r). observe rq r) rs m) ''errors_total'' =
        rm_counters m ''errors_total'' + int (length (filter (\<lambda>(rq, r). hp_status r \<ge> 400) rs)) \<and>
      (counters_ok (rm_counters m) \<longrightarrow> counters_ok (rm_counters (fold (\<lambda>(rq, r). observe rq r) rs m)))" for m
    by (induction rs arbitrary: m) (auto simp: observe_def record_request_counters record_request_ok)
  have "counters_ok (rm_counters metrics_reset)" by (simp add: counters_ok_def metrics_reset_def)
  with n [of metrics_reset] show ?thesis
    using rate_bounds by (simp add: s_def metrics_snapshot_of_def Let_def metrics_reset_def counters_ok_def)
qed

end
