(* ===== verification/Sync_Api.thy ===== *)
theory Sync_Api
  imports Commit_Plan Server_Manifest
begin

text \<open>
  The requests and responses of the sync protocol as the client sees them: the records of
  \<open>vault_core/sync_api.py\<close>, the functions that serialize a request and the ones that parse the
  JSON object of a response. A parser reads the fields in the order of the code and raises the
  \<open>ValueError\<close> of the first one that is wrong, so a response that is accepted has every field it
  promises.
\<close>

section \<open>Responses and requests\<close>

record blob_check_response =
  cr_existing_blob_ids :: "string list"
  cr_missing_blob_ids :: "string list"

record vault_head_response =
  hr_vault_id :: string
  hr_head_revision :: int
  hr_manifest_summary :: "string option"

record device_record =
  dr_device_id :: string
  dr_device_name :: string
  dr_platform :: string
  dr_protocol_version :: string
  dr_acked_revision :: int
  dr_is_current_device :: bool
  dr_is_revoked :: bool
  dr_is_inactive_candidate :: bool
  dr_app_version :: "string option"
  dr_registered_at_ms :: "int option"
  dr_last_seen_at_ms :: "int option"

record device_list_response =
  lr_vault_id :: string
  lr_head_revision :: int
  lr_inactive_after_ms :: int
  lr_devices :: "device_record list"

record heartbeat_response =
  br_vault_id :: string
  br_device_id :: string
  br_last_seen_at_ms :: int
  br_acked_revision :: int
  br_head_revision :: int

record gc_request =
  gq_now_ms :: "int option"
  gq_min_retention_ms :: "int option"
  gq_inactive_after_ms :: "int option"

record gc_tombstone =
  gt_file_id :: string
  gt_deleted_revision :: "int option"
  gt_deleted_at :: "int option"
  gt_last_known_path :: "string option"
  gt_deleted_by_device :: "string option"

record gc_blocked_device =
  gd_device_id :: string
  gd_acked_revision :: int
  gd_required_revision :: int

record gc_blocked_tombstone =
  gb_tombstone :: gc_tombstone
  gb_reason :: string
  gb_retention_remaining_ms :: int
  gb_blocked_by_devices :: "gc_blocked_device list"

record gc_response =
  gp_vault_id :: string
  gp_run_id :: string
  gp_ran_at_ms :: int
  gp_base_revision :: int
  gp_new_revision :: "int option"
  gp_head_revision :: int
  gp_active_device_ids :: "string list"
  gp_active_device_count :: int
  gp_min_retention_ms :: int
  gp_inactive_after_ms :: int
  gp_reclaimed_tombstones :: "gc_tombstone list"
  gp_blocked_tombstones :: "gc_blocked_tombstone list"
  gp_reclaimed_count :: int
  gp_reason :: string

type_synonym http_headers = "(string \<times> string) list"

record upload_init_item =
  ui_blob_id :: string
  ui_encrypted_size :: int
  ui_content_hash :: string

record upload_capability_response =
  uc_blob_id :: string
  uc_upload_url :: string
  uc_expires_at :: string
  uc_method :: string
  uc_headers :: "http_headers option"

record download_capability_response =
  dc_blob_id :: string
  dc_download_url :: string
  dc_encrypted_size :: int
  dc_expires_at :: string
  dc_headers :: "http_headers option"

definition DEFAULT_RESUMABLE_BLOB_CHUNK_SIZE :: int where
  "DEFAULT_RESUMABLE_BLOB_CHUNK_SIZE = 4 * 1024 * 1024"

record resumable_upload_item =
  ri_blob_id :: string
  ri_encrypted_size :: int
  ri_content_hash :: string
  ri_encrypted_sha256 :: string
  ri_chunk_size :: int

record chunk_state =
  cs_chunk_id :: string
  cs_offset :: int
  cs_size :: int
  cs_status :: string

record resumable_upload_capability_response =
  rc_blob_id :: string
  rc_session_id :: string
  rc_upload_url :: string
  rc_expires_at :: string
  rc_chunk_size :: int
  rc_encrypted_size :: int
  rc_uploaded_chunks :: "chunk_state list"
  rc_missing_chunks :: "chunk_state list"
  rc_method :: string
  rc_headers :: "http_headers option"

record resumable_complete_item =
  ci_blob_id :: string
  ci_session_id :: string
  ci_encrypted_size :: int
  ci_encrypted_sha256 :: string
  ci_uploaded_chunk_ids :: "string list"

record resumable_complete_response =
  co_blob_id :: string
  co_status :: string
  co_missing_chunks :: "chunk list"

record download_range =
  rg_offset :: int
  rg_size :: int

record resumable_download_item =
  di_blob_id :: string
  di_ranges :: "download_range list option"

record resumable_download_capability_response =
  rd_blob_id :: string
  rd_download_url :: string
  rd_encrypted_size :: int
  rd_expires_at :: string
  rd_ranges :: "download_range list"
  rd_headers :: "http_headers option"

record version_list_request =
  vq_file_id :: string
  vq_limit :: int
  vq_cursor :: "string option"
  vq_include_pinned :: bool

record version_list_response =
  vl_file_id :: string
  vl_versions :: "file_version list"
  vl_next_cursor :: "string option"
  vl_retention_policy :: "retention_policy option"

record version_update_request =
  vu_version_label :: "string option"
  vu_change_note :: "string option"
  vu_is_pinned :: "bool option"

record resolve_request =
  rr_commit_intent_id :: string
  rr_intent_manifest_hash :: string

record resolve_response =
  rv_status :: string
  rv_matched_revision :: "int option"
  rv_observed_head_revision :: "int option"
  rv_head_manifest_summary :: "string option"

record commit_response_payload =
  cm_vault_id :: string
  cm_new_revision :: int
  cm_head_manifest_summary :: string
  cm_acked_revision_for_device :: int

record conflict_response =
  cf_code :: string
  cf_current_head_revision :: int
  cf_current_manifest_summary :: "string option"

section \<open>Readers\<close>

definition api_string :: "dict \<Rightarrow> string \<Rightarrow> string result" where
  "api_string d k = (case dget d k of
     JStr s \<Rightarrow> if s = [] then Inl (ValueError (k @ '' must be a non-empty string'')) else Inr s
   | _ \<Rightarrow> Inl (ValueError (k @ '' must be a non-empty string'')))"

definition api_non_negative_int :: "dict \<Rightarrow> string \<Rightarrow> int result" where
  "api_non_negative_int d k = (case py_int (dget d k) of
     None \<Rightarrow> Inl (ValueError (k @ '' must be a non-negative integer''))
   | Some i \<Rightarrow> if i < 0 then Inl (ValueError (k @ '' must be a non-negative integer'')) else Inr i)"

definition api_positive_int :: "dict \<Rightarrow> string \<Rightarrow> int result" where
  "api_positive_int d k = (case py_int (dget d k) of
     None \<Rightarrow> Inl (ValueError (k @ '' must be a positive integer''))
   | Some i \<Rightarrow> if i \<le> 0 then Inl (ValueError (k @ '' must be a positive integer'')) else Inr i)"

definition api_string_item :: "string \<Rightarrow> json \<Rightarrow> string result" where
  "api_string_item k v = (case v of
     JStr s \<Rightarrow> if s = [] then Inl (ValueError (k @ '' items must be non-empty strings'')) else Inr s
   | _ \<Rightarrow> Inl (ValueError (k @ '' items must be non-empty strings'')))"

definition api_list :: "bool \<Rightarrow> dict \<Rightarrow> string \<Rightarrow> json list result" where
  "api_list allow_empty d k = (case dget d k of
     JArr vs \<Rightarrow> if \<not> allow_empty \<and> vs = [] then Inl (ValueError (k @ '' must be a non-empty list'')) else Inr vs
   | _ \<Rightarrow> Inl (ValueError (k @ '' must be a list'')))"

definition api_string_list :: "bool \<Rightarrow> dict \<Rightarrow> string \<Rightarrow> string list result" where
  "api_string_list allow_empty d k = rbind (api_list allow_empty d k) (mapM (api_string_item k))"

definition api_header :: "string \<Rightarrow> string \<times> json \<Rightarrow> (string \<times> string) result" where
  "api_header k hv =
     (if fst hv = [] then Inl (ValueError (k @ '' header names must be non-empty strings''))
      else case snd hv of
          JStr s \<Rightarrow> Inr (fst hv, s)
        | _ \<Rightarrow> Inl (ValueError (k @ '' header values must be strings'')))"

definition api_optional_headers :: "dict \<Rightarrow> string \<Rightarrow> http_headers option result" where
  "api_optional_headers d k = (case dget d k of
     JNull \<Rightarrow> Inr None
   | JObj kvs \<Rightarrow> rbind (mapM (api_header k) kvs) (\<lambda>hs. Inr (Some hs))
   | _ \<Rightarrow> Inl (ValueError (k @ '' must be an object when provided'')))"

definition api_optional_string :: "dict \<Rightarrow> string \<Rightarrow> string option result" where
  "api_optional_string d k = (case dget d k of
     JNull \<Rightarrow> Inr None
   | JStr s \<Rightarrow> if s = [] then Inl (ValueError (k @ '' must be a non-empty string or null'')) else Inr (Some s)
   | _ \<Rightarrow> Inl (ValueError (k @ '' must be a non-empty string or null'')))"

definition api_optional_positive_int :: "dict \<Rightarrow> string \<Rightarrow> int option result" where
  "api_optional_positive_int d k = (case dget d k of
     JNull \<Rightarrow> Inr None
   | v \<Rightarrow> (case py_int v of
       None \<Rightarrow> Inl (ValueError (k @ '' must be a positive integer or null''))
     | Some i \<Rightarrow> if i \<le> 0 then Inl (ValueError (k @ '' must be a positive integer or null'')) else Inr (Some i)))"

definition api_optional_non_negative_int :: "dict \<Rightarrow> string \<Rightarrow> int option result" where
  "api_optional_non_negative_int d k = (case dget d k of
     JNull \<Rightarrow> Inr None
   | v \<Rightarrow> (case py_int v of
       None \<Rightarrow> Inl (ValueError (k @ '' must be a non-negative integer or null''))
     | Some i \<Rightarrow> if i < 0 then Inl (ValueError (k @ '' must be a non-negative integer or null''))
                else Inr (Some i)))"

definition api_object_item :: "string \<Rightarrow> json \<Rightarrow> dict result" where
  "api_object_item k v = (case v of JObj d \<Rightarrow> Inr d | _ \<Rightarrow> Inl (ValueError (k @ '' items must be objects'')))"

definition api_object_list :: "dict \<Rightarrow> string \<Rightarrow> dict list result" where
  "api_object_list d k = rbind (api_list True d k) (mapM (api_object_item k))"

definition api_bool :: "dict \<Rightarrow> string \<Rightarrow> bool result" where
  "api_bool d k = (case dget d k of JBool b \<Rightarrow> Inr b | _ \<Rightarrow> Inl (ValueError (k @ '' must be a boolean'')))"

definition api_supported_status :: "json \<Rightarrow> string \<Rightarrow> string list \<Rightarrow> string result" where
  "api_supported_status v k allowed = (case v of
     JStr s \<Rightarrow> if s \<in> set allowed then Inr s
              else Inl (ValueError (k @ '' must be one of: '' @ join '', '' (sort allowed)))
   | _ \<Rightarrow> Inl (ValueError (k @ '' must be one of: '' @ join '', '' (sort allowed))))"

section \<open>File versions of a manifest\<close>

definition build_file_version_id ::
  "(string \<Rightarrow> string) \<Rightarrow> string \<Rightarrow> string \<Rightarrow> int \<Rightarrow> string \<Rightarrow> string \<Rightarrow> string result" where
  "build_file_version_id sha vault_id file_id revision blob_id source = validate
     [(vault_id \<noteq> [], ''vault_id must be non-empty''), (file_id \<noteq> [], ''file_id must be non-empty''),
      (0 < revision, ''revision must be a positive integer''), (blob_id \<noteq> [], ''blob_id must be non-empty''),
      (source \<noteq> [], ''source must be non-empty'')]
     (''fv_'' @ take 32 (sha (vault_id @ '':'' @ file_id @ '':'' @ int_str revision @ '':'' @ blob_id @ '':'' @ source)))"

definition unique_directives :: "string \<Rightarrow> version_directive list \<Rightarrow> unit result" where
  "unique_directives msg ds = validate [(distinct (map vd_file_id ds), msg)] ()"

definition version_record_for ::
  "(string \<Rightarrow> string) \<Rightarrow> manifest \<Rightarrow> string \<Rightarrow> (string \<Rightarrow> version_directive option) \<Rightarrow> manifest_file \<Rightarrow> file_version result" where
  "version_record_for sha m default_source directives f =
     (let directive = directives (mf_file_id f);
          source = (case directive of Some d \<Rightarrow> vd_source d | None \<Rightarrow> default_source) in
      rbind (build_file_version_id sha (mn_vault_id m) (mf_file_id f) (mn_revision m) (mf_blob_id f) source) (\<lambda>i.
      FileVersionRecord \<lparr>fv_version_id = i, fv_file_id = mf_file_id f, fv_path_at_revision = mf_path f,
        fv_revision = mn_revision m, fv_content_hash = mf_content_hash f, fv_blob_id = mf_blob_id f,
        fv_size = mf_size f, fv_mtime = mf_mtime f, fv_created_at = mn_created_at m,
        fv_created_by_device = mn_created_by_device m, fv_source = source,
        fv_version_label = (case directive of Some d \<Rightarrow> vd_version_label d | None \<Rightarrow> None),
        fv_change_note = (case directive of Some d \<Rightarrow> vd_change_note d | None \<Rightarrow> None),
        fv_is_pinned = (case directive of Some d \<Rightarrow> vd_is_pinned d | None \<Rightarrow> False), fv_meta = None\<rparr>))"

definition build_file_version_records_from_manifest ::
  "(string \<Rightarrow> string) \<Rightarrow> manifest \<Rightarrow> version_directive list \<Rightarrow> string \<Rightarrow> file_version list result" where
  "build_file_version_records_from_manifest sha m directives default_source =
     (if mn_revision m \<le> 0
      then Inl (ValueError ''manifest revision must be finalized before building file version records'')
      else rbind (unique_directives ''file version directives must have unique file_id values'' directives) (\<lambda>_.
        rbind (mapM (version_record_for sha m default_source (dict_of vd_file_id directives)) (mn_sorted_files m)) (\<lambda>records.
        let unknown = filter (\<lambda>i. i \<notin> fv_file_id ` set records) (sorted_set (map vd_file_id directives)) in
        if unknown \<noteq> []
        then Inl (ValueError (''file version directives reference files not present in manifest: '' @ join '', '' unknown))
        else Inr records)))"


section \<open>Serializing and parsing\<close>

definition serialize_chunk_descriptor :: "chunk \<Rightarrow> dict" where
  "serialize_chunk_descriptor c =
     [(''chunk_id'', JStr (ch_chunk_id c)), (''offset'', JInt (ch_offset c)), (''size'', JInt (ch_size c))]"

definition parse_chunk_descriptor :: "dict \<Rightarrow> chunk result" where
  "parse_chunk_descriptor d =
     rbind (api_string d ''chunk_id'') (\<lambda>chunk_id.
     rbind (api_non_negative_int d ''offset'') (\<lambda>offset.
     rbind (api_non_negative_int d ''size'') (\<lambda>sz.
     Inr \<lparr>ch_chunk_id = chunk_id, ch_offset = offset, ch_size = sz\<rparr>)))"

definition parse_upload_chunk_state :: "dict \<Rightarrow> chunk_state result" where
  "parse_upload_chunk_state d =
     rbind (api_string d ''chunk_id'') (\<lambda>chunk_id.
     rbind (api_non_negative_int d ''offset'') (\<lambda>offset.
     rbind (api_non_negative_int d ''size'') (\<lambda>sz.
     rbind (api_supported_status (dget d ''status'') ''status'' [''missing'', ''uploaded'']) (\<lambda>status.
     Inr \<lparr>cs_chunk_id = chunk_id, cs_offset = offset, cs_size = sz, cs_status = status\<rparr>))))"

definition serialize_download_range :: "download_range \<Rightarrow> dict result" where
  "serialize_download_range r = validate
     [(0 \<le> rg_offset r, ''download range offset must be non-negative''),
      (0 < rg_size r, ''download range size must be positive'')]
     [(''offset'', JInt (rg_offset r)), (''size'', JInt (rg_size r))]"

definition parse_download_range :: "dict \<Rightarrow> download_range result" where
  "parse_download_range d =
     rbind (api_non_negative_int d ''offset'') (\<lambda>offset.
     rbind (api_positive_int d ''size'') (\<lambda>sz.
     Inr \<lparr>rg_offset = offset, rg_size = sz\<rparr>))"

definition serialize_blob_check_request :: "string list \<Rightarrow> dict" where
  "serialize_blob_check_request blob_ids = [(''blob_ids'', JArr (map JStr blob_ids))]"

definition parse_vault_head_response :: "dict \<Rightarrow> vault_head_response result" where
  "parse_vault_head_response d =
     rbind (api_optional_string d ''manifest_summary'') (\<lambda>manifest_summary.
     rbind (api_string d ''vault_id'') (\<lambda>vault_id.
     rbind (api_non_negative_int d ''head_revision'') (\<lambda>head_revision.
     Inr \<lparr>hr_vault_id = vault_id, hr_head_revision = head_revision, hr_manifest_summary = manifest_summary\<rparr>)))"

definition parse_vault_device_record :: "dict \<Rightarrow> device_record result" where
  "parse_vault_device_record d =
     rbind (api_string d ''device_id'') (\<lambda>device_id.
     rbind (api_string d ''device_name'') (\<lambda>device_name.
     rbind (api_string d ''platform'') (\<lambda>platform.
     rbind (api_optional_string d ''app_version'') (\<lambda>app_version.
     rbind (api_string d ''protocol_version'') (\<lambda>protocol_version.
     rbind (api_optional_non_negative_int d ''registered_at_ms'') (\<lambda>registered_at_ms.
     rbind (api_optional_non_negative_int d ''last_seen_at_ms'') (\<lambda>last_seen_at_ms.
     rbind (api_non_negative_int d ''acked_revision'') (\<lambda>acked_revision.
     rbind (api_bool d ''is_current_device'') (\<lambda>is_current_device.
     rbind (api_bool d ''is_revoked'') (\<lambda>is_revoked.
     rbind (api_bool d ''is_inactive_candidate'') (\<lambda>is_inactive_candidate.
     Inr \<lparr>dr_device_id = device_id, dr_device_name = device_name, dr_platform = platform,
       dr_protocol_version = protocol_version, dr_acked_revision = acked_revision,
       dr_is_current_device = is_current_device, dr_is_revoked = is_revoked,
       dr_is_inactive_candidate = is_inactive_candidate, dr_app_version = app_version,
       dr_registered_at_ms = registered_at_ms, dr_last_seen_at_ms = last_seen_at_ms\<rparr>)))))))))))"

definition parse_vault_device_list_response :: "dict \<Rightarrow> device_list_response result" where
  "parse_vault_device_list_response d =
     rbind (api_string d ''vault_id'') (\<lambda>vault_id.
     rbind (api_non_negative_int d ''head_revision'') (\<lambda>head_revision.
     rbind (api_positive_int d ''inactive_after_ms'') (\<lambda>inactive_after_ms.
     rbind (rbind (api_object_list d ''devices'') (mapM parse_vault_device_record)) (\<lambda>devices.
     Inr \<lparr>lr_vault_id = vault_id, lr_head_revision = head_revision, lr_inactive_after_ms = inactive_after_ms,
       lr_devices = devices\<rparr>))))"

definition parse_vault_device_heartbeat_response :: "dict \<Rightarrow> heartbeat_response result" where
  "parse_vault_device_heartbeat_response d =
     rbind (api_string d ''vault_id'') (\<lambda>vault_id.
     rbind (api_string d ''device_id'') (\<lambda>device_id.
     rbind (api_non_negative_int d ''last_seen_at_ms'') (\<lambda>last_seen_at_ms.
     rbind (api_non_negative_int d ''acked_revision'') (\<lambda>acked_revision.
     rbind (api_non_negative_int d ''head_revision'') (\<lambda>head_revision.
     Inr \<lparr>br_vault_id = vault_id, br_device_id = device_id, br_last_seen_at_ms = last_seen_at_ms,
       br_acked_revision = acked_revision, br_head_revision = head_revision\<rparr>)))))"

definition serialize_tombstone_gc_request :: "gc_request \<Rightarrow> dict result" where
  "serialize_tombstone_gc_request q = validate
     [(case gq_now_ms q of None \<Rightarrow> True | Some i \<Rightarrow> 0 \<le> i, ''now_ms must be non-negative''),
      (case gq_min_retention_ms q of None \<Rightarrow> True | Some i \<Rightarrow> 0 \<le> i, ''min_retention_ms must be non-negative''),
      (case gq_inactive_after_ms q of None \<Rightarrow> True | Some i \<Rightarrow> 0 < i, ''inactive_after_ms must be positive'')]
     (opt_entry ''now_ms'' JInt (gq_now_ms q) @ opt_entry ''min_retention_ms'' JInt (gq_min_retention_ms q)
      @ opt_entry ''inactive_after_ms'' JInt (gq_inactive_after_ms q))"

definition parse_tombstone_gc_tombstone :: "dict \<Rightarrow> gc_tombstone result" where
  "parse_tombstone_gc_tombstone d =
     rbind (api_string d ''file_id'') (\<lambda>file_id.
     rbind (api_optional_positive_int d ''deleted_revision'') (\<lambda>deleted_revision.
     rbind (api_optional_non_negative_int d ''deleted_at'') (\<lambda>deleted_at.
     rbind (api_optional_string d ''last_known_path'') (\<lambda>last_known_path.
     rbind (api_optional_string d ''deleted_by_device'') (\<lambda>deleted_by_device.
     Inr \<lparr>gt_file_id = file_id, gt_deleted_revision = deleted_revision, gt_deleted_at = deleted_at,
       gt_last_known_path = last_known_path, gt_deleted_by_device = deleted_by_device\<rparr>)))))"

definition parse_tombstone_gc_blocked_device :: "dict \<Rightarrow> gc_blocked_device result" where
  "parse_tombstone_gc_blocked_device d =
     rbind (api_string d ''device_id'') (\<lambda>device_id.
     rbind (api_non_negative_int d ''acked_revision'') (\<lambda>acked_revision.
     rbind (api_positive_int d ''required_revision'') (\<lambda>required_revision.
     Inr \<lparr>gd_device_id = device_id, gd_acked_revision = acked_revision, gd_required_revision = required_revision\<rparr>)))"

definition parse_tombstone_gc_blocked_tombstone :: "dict \<Rightarrow> gc_blocked_tombstone result" where
  "parse_tombstone_gc_blocked_tombstone d =
     rbind (parse_tombstone_gc_tombstone d) (\<lambda>tombstone.
     rbind (api_string d ''reason'') (\<lambda>reason.
     rbind (api_non_negative_int d ''retention_remaining_ms'') (\<lambda>retention_remaining_ms.
     rbind (rbind (api_object_list d ''blocked_by_devices'') (mapM parse_tombstone_gc_blocked_device)) (\<lambda>devices.
     Inr \<lparr>gb_tombstone = tombstone, gb_reason = reason, gb_retention_remaining_ms = retention_remaining_ms,
       gb_blocked_by_devices = devices\<rparr>))))"

definition parse_tombstone_gc_response :: "dict \<Rightarrow> gc_response result" where
  "parse_tombstone_gc_response d =
     rbind (api_optional_positive_int d ''new_revision'') (\<lambda>new_revision.
     rbind (api_string d ''vault_id'') (\<lambda>vault_id.
     rbind (api_string d ''run_id'') (\<lambda>run_id.
     rbind (api_non_negative_int d ''ran_at_ms'') (\<lambda>ran_at_ms.
     rbind (api_non_negative_int d ''base_revision'') (\<lambda>base_revision.
     rbind (api_non_negative_int d ''head_revision'') (\<lambda>head_revision.
     rbind (api_string_list True d ''active_device_ids'') (\<lambda>active_device_ids.
     rbind (api_non_negative_int d ''active_device_count'') (\<lambda>active_device_count.
     rbind (api_non_negative_int d ''min_retention_ms'') (\<lambda>min_retention_ms.
     rbind (api_positive_int d ''inactive_after_ms'') (\<lambda>inactive_after_ms.
     rbind (rbind (api_object_list d ''reclaimed_tombstones'') (mapM parse_tombstone_gc_tombstone)) (\<lambda>reclaimed.
     rbind (rbind (api_object_list d ''blocked_tombstones'') (mapM parse_tombstone_gc_blocked_tombstone)) (\<lambda>blocked.
     rbind (api_non_negative_int d ''reclaimed_count'') (\<lambda>reclaimed_count.
     rbind (api_string d ''reason'') (\<lambda>reason.
     Inr \<lparr>gp_vault_id = vault_id, gp_run_id = run_id, gp_ran_at_ms = ran_at_ms, gp_base_revision = base_revision,
       gp_new_revision = new_revision, gp_head_revision = head_revision, gp_active_device_ids = active_device_ids,
       gp_active_device_count = active_device_count, gp_min_retention_ms = min_retention_ms,
       gp_inactive_after_ms = inactive_after_ms, gp_reclaimed_tombstones = reclaimed,
       gp_blocked_tombstones = blocked, gp_reclaimed_count = reclaimed_count, gp_reason = reason\<rparr>))))))))))))))"

definition parse_blob_check_response :: "dict \<Rightarrow> blob_check_response result" where
  "parse_blob_check_response d =
     rbind (api_string_list True d ''existing_blob_ids'') (\<lambda>existing.
     rbind (api_string_list True d ''missing_blob_ids'') (\<lambda>missing.
     Inr \<lparr>cr_existing_blob_ids = existing, cr_missing_blob_ids = missing\<rparr>))"

definition build_blob_upload_init_request :: "upload_plan \<Rightarrow> upload_init_item list result" where
  "build_blob_upload_init_request p =
     (if up_entries p = [] then Inl (ValueError ''blob upload plan does not contain any upload entries'')
      else Inr (map (\<lambda>e. \<lparr>ui_blob_id = ue_blob_id e, ui_encrypted_size = ue_encrypted_size e,
                          ui_content_hash = ue_content_hash e\<rparr>) (up_entries p)))"

definition serialize_blob_upload_init_request :: "upload_init_item list \<Rightarrow> dict" where
  "serialize_blob_upload_init_request blobs =
     [(''blobs'', JArr (map (\<lambda>i. JObj [(''blob_id'', JStr (ui_blob_id i)),
        (''encrypted_size'', JInt (ui_encrypted_size i)), (''content_hash'', JStr (ui_content_hash i))]) blobs))]"

definition api_method :: "dict \<Rightarrow> string" where
  "api_method d = (case map_of d ''method'' of Some (JStr s) \<Rightarrow> s | _ \<Rightarrow> ''PUT'')"

definition parse_upload_capability :: "dict \<Rightarrow> upload_capability_response result" where
  "parse_upload_capability d =
     rbind (api_string d ''blob_id'') (\<lambda>blob_id.
     rbind (api_string d ''upload_url'') (\<lambda>upload_url.
     rbind (api_string d ''expires_at'') (\<lambda>expires_at.
     rbind (api_optional_headers d ''headers'') (\<lambda>headers.
     Inr \<lparr>uc_blob_id = blob_id, uc_upload_url = upload_url, uc_expires_at = expires_at,
       uc_method = api_method d, uc_headers = headers\<rparr>))))"

text \<open>The loops that check an item to be an object and parse it before they look at the next.\<close>

definition parse_items :: "string \<Rightarrow> (dict \<Rightarrow> 'a result) \<Rightarrow> json list \<Rightarrow> 'a list result" where
  "parse_items k f vs = mapM (\<lambda>v. rbind (api_object_item k v) f) vs"

definition parse_blob_upload_init_response :: "dict \<Rightarrow> upload_capability_response list result" where
  "parse_blob_upload_init_response d =
     rbind (api_list True d ''uploads'') (parse_items ''uploads'' parse_upload_capability)"

definition serialize_blob_download_init_request :: "string list \<Rightarrow> dict result" where
  "serialize_blob_download_init_request blob_ids =
     rbind (api_string_list False [(''blob_ids'', JArr (map JStr blob_ids))] ''blob_ids'') (\<lambda>blob_ids.
     validate [(distinct blob_ids, ''blob_ids must be unique'')] [(''blob_ids'', JArr (map JStr blob_ids))])"

definition parse_download_capability :: "dict \<Rightarrow> download_capability_response result" where
  "parse_download_capability d =
     rbind (api_string d ''blob_id'') (\<lambda>blob_id.
     rbind (api_string d ''download_url'') (\<lambda>download_url.
     rbind (api_non_negative_int d ''encrypted_size'') (\<lambda>encrypted_size.
     rbind (api_string d ''expires_at'') (\<lambda>expires_at.
     rbind (api_optional_headers d ''headers'') (\<lambda>headers.
     Inr \<lparr>dc_blob_id = blob_id, dc_download_url = download_url, dc_encrypted_size = encrypted_size,
       dc_expires_at = expires_at, dc_headers = headers\<rparr>)))))"

definition parse_blob_download_init_response :: "dict \<Rightarrow> download_capability_response list result" where
  "parse_blob_download_init_response d =
     rbind (api_list True d ''downloads'') (parse_items ''downloads'' parse_download_capability)"

definition serialize_resumable_blob_upload_init_request ::
  "(string \<Rightarrow> string) \<Rightarrow> resumable_upload_item list \<Rightarrow> dict result" where
  "serialize_resumable_blob_upload_init_request sha blobs =
     (if blobs = [] then Inl (ValueError ''resumable upload-init request must contain at least one blob'')
      else if \<not> distinct (map ri_blob_id blobs)
      then Inl (ValueError ''resumable upload-init blob_ids must be unique'')
      else rbind (mapM (\<lambda>i. rbind (build_blob_chunk_descriptors sha (ri_blob_id i) (ri_encrypted_size i) (ri_chunk_size i))
          (\<lambda>cs. Inr (JObj [(''blob_id'', JStr (ri_blob_id i)), (''encrypted_size'', JInt (ri_encrypted_size i)),
            (''content_hash'', JStr (ri_content_hash i)), (''encrypted_sha256'', JStr (ri_encrypted_sha256 i)),
            (''chunk_size'', JInt (ri_chunk_size i)),
            (''chunks'', JArr (map (JObj \<circ> serialize_chunk_descriptor) cs))]))) blobs) (\<lambda>vs.
        Inr [(''blobs'', JArr vs)]))"

definition parse_resumable_upload_capability :: "dict \<Rightarrow> resumable_upload_capability_response result" where
  "parse_resumable_upload_capability d =
     rbind (api_string d ''blob_id'') (\<lambda>blob_id.
     rbind (api_string d ''session_id'') (\<lambda>session_id.
     rbind (api_string d ''upload_url'') (\<lambda>upload_url.
     rbind (api_string d ''expires_at'') (\<lambda>expires_at.
     rbind (api_positive_int d ''chunk_size'') (\<lambda>chunk_size.
     rbind (api_non_negative_int d ''encrypted_size'') (\<lambda>encrypted_size.
     rbind (rbind (api_object_list d ''uploaded_chunks'') (mapM parse_upload_chunk_state)) (\<lambda>uploaded.
     rbind (rbind (api_object_list d ''missing_chunks'') (mapM parse_upload_chunk_state)) (\<lambda>missing.
     rbind (api_optional_headers d ''headers'') (\<lambda>headers.
     Inr \<lparr>rc_blob_id = blob_id, rc_session_id = session_id, rc_upload_url = upload_url, rc_expires_at = expires_at,
       rc_chunk_size = chunk_size, rc_encrypted_size = encrypted_size, rc_uploaded_chunks = uploaded,
       rc_missing_chunks = missing, rc_method = api_method d, rc_headers = headers\<rparr>)))))))))"

definition parse_resumable_blob_upload_init_response :: "dict \<Rightarrow> resumable_upload_capability_response list result" where
  "parse_resumable_blob_upload_init_response d =
     rbind (api_object_list d ''uploads'') (mapM parse_resumable_upload_capability)"

definition serialize_resumable_blob_upload_complete_request :: "resumable_complete_item list \<Rightarrow> dict result" where
  "serialize_resumable_blob_upload_complete_request uploads =
     (if uploads = [] then Inl (ValueError ''resumable upload complete request must contain at least one upload'')
      else rbind (mapM (\<lambda>i. rbind (api_string_list False
            [(''uploaded_chunk_ids'', JArr (map JStr (ci_uploaded_chunk_ids i)))] ''uploaded_chunk_ids'') (\<lambda>ids.
          Inr (JObj [(''blob_id'', JStr (ci_blob_id i)), (''session_id'', JStr (ci_session_id i)),
            (''encrypted_size'', JInt (ci_encrypted_size i)), (''encrypted_sha256'', JStr (ci_encrypted_sha256 i)),
            (''uploaded_chunk_ids'', JArr (map JStr ids))]))) uploads) (\<lambda>vs.
        Inr [(''uploads'', JArr vs)]))"

definition parse_resumable_complete_item :: "dict \<Rightarrow> resumable_complete_response result" where
  "parse_resumable_complete_item d =
     rbind (api_string d ''blob_id'') (\<lambda>blob_id.
     rbind (api_supported_status (dget d ''status'') ''status'' [''accepted'', ''already_exists'', ''incomplete'']) (\<lambda>status.
     rbind (rbind (api_object_list d ''missing_chunks'') (mapM parse_chunk_descriptor)) (\<lambda>missing.
     Inr \<lparr>co_blob_id = blob_id, co_status = status, co_missing_chunks = missing\<rparr>)))"

definition parse_resumable_blob_upload_complete_response :: "dict \<Rightarrow> resumable_complete_response list result" where
  "parse_resumable_blob_upload_complete_response d =
     rbind (api_object_list d ''uploads'') (mapM parse_resumable_complete_item)"

definition serialize_resumable_download_item :: "resumable_download_item \<Rightarrow> json result" where
  "serialize_resumable_download_item i = (case di_ranges i of
     None \<Rightarrow> Inr (JObj [(''blob_id'', JStr (di_blob_id i))])
   | Some rs \<Rightarrow> rbind (mapM serialize_download_range rs) (\<lambda>ds.
       Inr (JObj [(''blob_id'', JStr (di_blob_id i)), (''ranges'', JArr (map JObj ds))])))"

definition serialize_resumable_blob_download_init_request :: "resumable_download_item list \<Rightarrow> dict result" where
  "serialize_resumable_blob_download_init_request blobs =
     (if blobs = [] then Inl (ValueError ''resumable download-init request must contain at least one blob'')
      else if \<not> distinct (map di_blob_id blobs)
      then Inl (ValueError ''resumable download-init blob_ids must be unique'')
      else rbind (mapM serialize_resumable_download_item blobs) (\<lambda>vs. Inr [(''blobs'', JArr vs)]))"

definition parse_resumable_download_capability :: "dict \<Rightarrow> resumable_download_capability_response result" where
  "parse_resumable_download_capability d =
     rbind (api_string d ''blob_id'') (\<lambda>blob_id.
     rbind (api_string d ''download_url'') (\<lambda>download_url.
     rbind (api_non_negative_int d ''encrypted_size'') (\<lambda>encrypted_size.
     rbind (api_string d ''expires_at'') (\<lambda>expires_at.
     rbind (rbind (api_object_list d ''ranges'') (mapM parse_download_range)) (\<lambda>ranges.
     rbind (api_optional_headers d ''headers'') (\<lambda>headers.
     Inr \<lparr>rd_blob_id = blob_id, rd_download_url = download_url, rd_encrypted_size = encrypted_size,
       rd_expires_at = expires_at, rd_ranges = ranges, rd_headers = headers\<rparr>))))))"

definition parse_resumable_blob_download_init_response :: "dict \<Rightarrow> resumable_download_capability_response list result" where
  "parse_resumable_blob_download_init_response d =
     rbind (api_object_list d ''downloads'') (mapM parse_resumable_download_capability)"

definition serialize_file_version_commit_directives :: "version_directive list \<Rightarrow> json list result" where
  "serialize_file_version_commit_directives ds =
     rbind (unique_directives ''file version directives must have unique file_id values'' ds) (\<lambda>_.
     Inr (map (JObj \<circ> version_directive_to_dict) ds))"

fun parse_directives_from :: "string list \<Rightarrow> json list \<Rightarrow> version_directive list result" where
  "parse_directives_from seen [] = Inr []"
| "parse_directives_from seen (v # vs) =
     rbind (api_object_item ''file_version_directives'' v) (\<lambda>d.
     rbind (version_directive_from_dict d) (\<lambda>directive.
     if vd_file_id directive \<in> set seen
     then Inl (ValueError ''file_version_directives file_id values must be unique'')
     else rbind (parse_directives_from (vd_file_id directive # seen) vs) (\<lambda>ds. Inr (directive # ds))))"

definition parse_file_version_commit_directives :: "json \<Rightarrow> version_directive list result" where
  "parse_file_version_commit_directives v = (case v of
     JNull \<Rightarrow> Inr []
   | JArr vs \<Rightarrow> parse_directives_from [] vs
   | _ \<Rightarrow> Inl (ValueError ''file_version_directives must be a list when provided''))"

definition serialize_file_version_list_request :: "version_list_request \<Rightarrow> dict result" where
  "serialize_file_version_list_request q = validate
     [(vq_file_id q \<noteq> [], ''file_id must be non-empty''), (0 < vq_limit q, ''limit must be positive''),
      (vq_cursor q \<noteq> Some [], ''cursor must be non-empty when provided'')]
     ([(''file_id'', JStr (vq_file_id q)), (''limit'', JInt (vq_limit q)),
       (''include_pinned'', JBool (vq_include_pinned q))] @ opt_entry ''cursor'' JStr (vq_cursor q))"

definition parse_file_version_list_response :: "dict \<Rightarrow> version_list_response result" where
  "parse_file_version_list_response d =
     rbind (case dget d ''retention_policy'' of
         JNull \<Rightarrow> Inr None
       | JObj p \<Rightarrow> rbind (retention_policy_from_dict p) (\<lambda>p. Inr (Some p))
       | _ \<Rightarrow> Inl (ValueError ''retention_policy must be an object when provided'')) (\<lambda>retention_policy.
     rbind (api_string d ''file_id'') (\<lambda>file_id.
     rbind (rbind (api_object_list d ''versions'') (mapM file_version_from_dict)) (\<lambda>versions.
     rbind (api_optional_string d ''next_cursor'') (\<lambda>next_cursor.
     Inr \<lparr>vl_file_id = file_id, vl_versions = versions, vl_next_cursor = next_cursor,
       vl_retention_policy = retention_policy\<rparr>))))"

definition serialize_file_version_update_request :: "version_update_request \<Rightarrow> dict result" where
  "serialize_file_version_update_request q =
     (let payload = opt_entry ''version_label'' JStr (vu_version_label q)
            @ opt_entry ''change_note'' JStr (vu_change_note q) @ opt_entry ''is_pinned'' JBool (vu_is_pinned q)
      in validate
        [(vu_version_label q \<noteq> Some [], ''version_label must be non-empty when provided''),
         (vu_change_note q \<noteq> Some [], ''change_note must be non-empty when provided''),
         (payload \<noteq> [], ''file version update request must contain at least one field'')] payload)"

definition parse_file_version_update_response :: "dict \<Rightarrow> file_version result" where
  "parse_file_version_update_response d = (case dget d ''version'' of
     JObj v \<Rightarrow> file_version_from_dict v
   | _ \<Rightarrow> Inl (ValueError ''version must be an object''))"

definition serialize_resolve_commit_intent_request :: "resolve_request \<Rightarrow> dict" where
  "serialize_resolve_commit_intent_request q =
     [(''commit_intent_id'', JStr (rr_commit_intent_id q)),
      (''intent_manifest_hash'', JStr (rr_intent_manifest_hash q))]"

definition parse_resolve_commit_intent_response :: "dict \<Rightarrow> resolve_response result" where
  "parse_resolve_commit_intent_response d =
     rbind (api_string d ''status'') (\<lambda>status.
     if status \<notin> {''found'', ''not_found'', ''mismatched''}
     then Inl (ValueError ''status must be a supported resolve-intent result'')
     else rbind (api_optional_positive_int d ''matched_revision'') (\<lambda>matched_revision.
       rbind (api_optional_non_negative_int d ''observed_head_revision'') (\<lambda>observed_head_revision.
       rbind (api_optional_string d ''head_manifest_summary'') (\<lambda>head_manifest_summary.
       validate
         [(\<not> (status = ''found'' \<and> matched_revision = None),
           ''matched_revision is required when resolve-intent status is found''),
          (\<not> (status \<noteq> ''found'' \<and> matched_revision \<noteq> None),
           ''matched_revision is only allowed when resolve-intent status is found'')]
         \<lparr>rv_status = status, rv_matched_revision = matched_revision,
          rv_observed_head_revision = observed_head_revision, rv_head_manifest_summary = head_manifest_summary\<rparr>))))"

definition parse_manifest_response :: "json \<Rightarrow> manifest result" where
  "parse_manifest_response v = (case v of
     JObj d \<Rightarrow> manifest_from_dict d
   | _ \<Rightarrow> Inl (ValueError ''manifest response payload must be an object''))"

definition serialize_ack_request :: "int list \<Rightarrow> dict result" where
  "serialize_ack_request revisions = validate
     [(revisions \<noteq> [], ''ack request must contain at least one revision''),
      (\<forall>r \<in> set revisions. 0 < r, ''ack request revisions must be positive integers''),
      (distinct revisions, ''ack request revisions must be unique'')]
     [(''revisions'', JArr (map JInt revisions))]"

definition parse_ack_response :: "dict \<Rightarrow> int result" where
  "parse_ack_response d = api_positive_int d ''max_acked_revision''"

definition serialize_create_commit_request :: "commit_request \<Rightarrow> dict result" where
  "serialize_create_commit_request q =
     rbind (if rq_file_version_directives q = [] then Inr []
            else rbind (serialize_file_version_commit_directives (rq_file_version_directives q)) (\<lambda>vs.
              Inr [(''file_version_directives'', JArr vs)])) (\<lambda>directives.
     Inr ([(''commit_intent_id'', JStr (rq_commit_intent_id q)), (''base_revision'', JInt (rq_base_revision q)),
       (''created_by_device'', JStr (rq_created_by_device q)),
       (''intent_manifest_hash'', JStr (rq_intent_manifest_hash q)),
       (''manifest'', JObj (manifest_to_dict (rq_manifest q))),
       (''blob_refs'', JArr (map (\<lambda>(b, f). JObj [(''blob_id'', JStr b), (''file_id'', JStr f)]) (rq_blob_refs q)))]
       @ opt_entry ''intent_delete_seq_upper_bound'' JInt (rq_intent_delete_seq_upper_bound q) @ directives))"

definition parse_create_commit_response :: "dict \<Rightarrow> commit_response_payload result" where
  "parse_create_commit_response d =
     rbind (api_string d ''vault_id'') (\<lambda>vault_id.
     rbind (api_positive_int d ''new_revision'') (\<lambda>new_revision.
     rbind (api_string d ''head_manifest_summary'') (\<lambda>head_manifest_summary.
     rbind (api_positive_int d ''acked_revision_for_device'') (\<lambda>acked.
     Inr \<lparr>cm_vault_id = vault_id, cm_new_revision = new_revision, cm_head_manifest_summary = head_manifest_summary,
       cm_acked_revision_for_device = acked\<rparr>))))"

definition parse_commit_conflict_response :: "dict \<Rightarrow> conflict_response result" where
  "parse_commit_conflict_response d =
     rbind (api_string d ''code'') (\<lambda>code.
     if code \<notin> {''base_revision_conflict'', ''manifest_conflict''}
     then Inl (ValueError ''code must be a supported commit conflict code'')
     else rbind (api_optional_string d ''current_manifest_summary'') (\<lambda>summary.
       rbind (api_non_negative_int d ''current_head_revision'') (\<lambda>current_head_revision.
       Inr \<lparr>cf_code = code, cf_current_head_revision = current_head_revision,
         cf_current_manifest_summary = summary\<rparr>)))"


section \<open>What an accepted response is\<close>

named_theorems api_simps \<open>when a reader accepts\<close>

lemma api_string_eq_Inr [api_simps]: "api_string d k = Inr s \<longleftrightarrow> dget d k = JStr s \<and> s \<noteq> []"
  by (auto simp: api_string_def split: json.splits)

lemma py_int_eq_Some: "py_int v = Some i \<longleftrightarrow> v = JInt i \<or> v = JBool (i = 1) \<and> i \<in> {0, 1}"
  by (cases v) auto

lemma api_non_negative_int_eq_Inr [api_simps]:
  "api_non_negative_int d k = Inr i \<longleftrightarrow> py_int (dget d k) = Some i \<and> 0 \<le> i"
  by (auto simp: api_non_negative_int_def split: option.splits)

lemma api_positive_int_eq_Inr [api_simps]:
  "api_positive_int d k = Inr i \<longleftrightarrow> py_int (dget d k) = Some i \<and> 0 < i"
  by (auto simp: api_positive_int_def split: option.splits)

lemma api_optional_string_eq_Inr [api_simps]:
  "api_optional_string d k = Inr r \<longleftrightarrow> (case r of None \<Rightarrow> dget d k = JNull | Some s \<Rightarrow> dget d k = JStr s \<and> s \<noteq> [])"
  by (auto simp: api_optional_string_def split: json.splits option.splits)

lemma api_optional_positive_int_eq_Inr [api_simps]:
  "api_optional_positive_int d k = Inr r \<longleftrightarrow>
     (case r of None \<Rightarrow> dget d k = JNull | Some i \<Rightarrow> py_int (dget d k) = Some i \<and> 0 < i)"
  by (cases "dget d k") (auto simp: api_optional_positive_int_def split: option.splits)

lemma api_optional_non_negative_int_eq_Inr [api_simps]:
  "api_optional_non_negative_int d k = Inr r \<longleftrightarrow>
     (case r of None \<Rightarrow> dget d k = JNull | Some i \<Rightarrow> py_int (dget d k) = Some i \<and> 0 \<le> i)"
  by (cases "dget d k") (auto simp: api_optional_non_negative_int_def split: option.splits)

lemma api_bool_eq_Inr [api_simps]: "api_bool d k = Inr b \<longleftrightarrow> dget d k = JBool b"
  by (auto simp: api_bool_def split: json.splits)

lemma api_list_eq_Inr [api_simps]:
  "api_list e d k = Inr vs \<longleftrightarrow> dget d k = JArr vs \<and> (e \<or> vs \<noteq> [])"
  by (auto simp: api_list_def split: json.splits)

lemma api_object_item_eq_Inr [api_simps]: "api_object_item k v = Inr d \<longleftrightarrow> v = JObj d"
  by (auto simp: api_object_item_def split: json.splits)

lemma api_string_item_eq_Inr [api_simps]: "api_string_item k v = Inr s \<longleftrightarrow> v = JStr s \<and> s \<noteq> []"
  by (auto simp: api_string_item_def split: json.splits)

lemma api_supported_status_eq_Inr [api_simps]:
  "api_supported_status v k allowed = Inr s \<longleftrightarrow> v = JStr s \<and> s \<in> set allowed"
  by (auto simp: api_supported_status_def split: json.splits)

lemma api_objects_of: "mapM (api_object_item k) vs = Inr ds \<longleftrightarrow> vs = map JObj ds"
proof (induction vs arbitrary: ds)
  case (Cons v vs)
  then show ?case by (cases ds) (auto simp: rbind_eq_Inr api_simps)
qed auto

lemma mapM_strings: "mapM (api_string_item k) vs = Inr ss \<longleftrightarrow> vs = map JStr ss \<and> [] \<notin> set ss"
proof (induction vs arbitrary: ss)
  case (Cons v vs)
  then show ?case by (cases ss) (auto simp: rbind_eq_Inr api_simps)
qed auto

lemma api_object_list_eq_Inr [api_simps]: "api_object_list d k = Inr ds \<longleftrightarrow> dget d k = JArr (map JObj ds)"
  by (simp add: api_object_list_def rbind_eq_Inr api_simps api_objects_of)

lemma api_string_list_eq_Inr [api_simps]:
  "api_string_list e d k = Inr ss \<longleftrightarrow> dget d k = JArr (map JStr ss) \<and> [] \<notin> set ss \<and> (e \<or> ss \<noteq> [])"
  by (auto simp: api_string_list_def rbind_eq_Inr api_simps mapM_strings)

lemma mapM_map: "mapM f (map g xs) = mapM (f \<circ> g) xs"
  by (induction xs) auto

section \<open>Round trips\<close>

lemma parse_serialized_chunk:
  "ch_chunk_id c \<noteq> [] \<Longrightarrow> 0 \<le> ch_offset c \<Longrightarrow> 0 \<le> ch_size c \<Longrightarrow>
     parse_chunk_descriptor (serialize_chunk_descriptor c) = Inr c"
  by (simp add: parse_chunk_descriptor_def rbind_eq_Inr api_simps serialize_chunk_descriptor_def dget_def)

lemma parse_serialized_range:
  "serialize_download_range r = Inr d \<Longrightarrow> parse_download_range d = Inr r"
  by (auto simp: serialize_download_range_def parse_download_range_def result_simps api_simps dget_def)

lemma directive_round_trip:
  assumes "FileVersionCommitDirective v = Inr v"
  shows "version_directive_from_dict (version_directive_to_dict v) = Inr v"
proof -
  obtain f src l n p where v: "v = \<lparr>vd_file_id = f, vd_source = src, vd_version_label = l, vd_change_note = n, vd_is_pinned = p\<rparr>"
    by (cases v)
  have "FileVersionCommitDirective \<lparr>vd_file_id = f, vd_source = src, vd_version_label = l, vd_change_note = n,
      vd_is_pinned = False\<rparr> = Inr \<lparr>vd_file_id = f, vd_source = src, vd_version_label = l, vd_change_note = n,
      vd_is_pinned = False\<rparr>"
    using assms by (simp add: v FileVersionCommitDirective_def result_simps)
  then show ?thesis
    by (cases l; cases n) (simp_all add: v version_directive_from_dict_def version_directive_to_dict_def ditem_def
      dget_def with_pinned_def get_bool_def)
qed

lemma parse_directives_from_serialized:
  assumes "\<forall>v \<in> set ds. FileVersionCommitDirective v = Inr v" "distinct (map vd_file_id ds)"
    "vd_file_id ` set ds \<inter> set seen = {}"
  shows "parse_directives_from seen (map (JObj \<circ> version_directive_to_dict) ds) = Inr ds"
  using assms
  by (induction ds arbitrary: seen) (auto simp: rbind_eq_Inr api_simps directive_round_trip)

text \<open>The directives a commit request carries survive the wire: whatever list of directives the client
  serializes, it parses back to the same list, and it refuses to serialize two directives for one
  file.\<close>

lemma directives_round_trip:
  assumes "\<forall>v \<in> set ds. FileVersionCommitDirective v = Inr v"
  shows "case serialize_file_version_commit_directives ds of
      Inr vs \<Rightarrow> parse_file_version_commit_directives (JArr vs) = Inr ds
    | Inl e \<Rightarrow> \<not> distinct (map vd_file_id ds)"
  using assms parse_directives_from_serialized [of ds "[]"]
  by (auto simp: serialize_file_version_commit_directives_def unique_directives_def
      parse_file_version_commit_directives_def)

lemma directives_round_trip_witness:
  "let d = \<lparr>vd_file_id = ''f'', vd_source = ''restore'', vd_version_label = Some ''l'', vd_change_note = None,
      vd_is_pinned = True\<rparr>
   in case serialize_file_version_commit_directives [d] of
      Inr vs \<Rightarrow> parse_file_version_commit_directives (JArr vs) = Inr [d]
    | Inl e \<Rightarrow> \<not> distinct (map vd_file_id [d])"
  unfolding Let_def
  by (rule directives_round_trip) (simp add: FileVersionCommitDirective_def valid_sets check_defs)

end
