(* ===== verification/Sync_Client.thy ===== *)
theory Sync_Client
  imports Sync_Api Commit_Settlement
begin

text \<open>
  \<open>vault_core/sync_client.py\<close>: the client's side of every exchange with the server. The transport
  is a parameter, the record of the operations of \<open>SyncCommitTransport\<close>; each is an effect on a
  state \<open>'w\<close> of the world beyond the client, and may raise (a lost connection) after it has had
  its effect. Functions that also use the client's database and files are effects on the world
  and the client together.
\<close>

section \<open>The transport\<close>

record http_response =
  hs_status_code :: int
  hs_payload :: dict

type_synonym ('w, 'a) net = "('w, py_exn, 'a) eff"

record 'w transport =
  tr_post_blob_check :: "string \<Rightarrow> dict \<Rightarrow> ('w, http_response) net"
  tr_post_blob_upload_init :: "string \<Rightarrow> dict \<Rightarrow> ('w, http_response) net"
  tr_post_resumable_blob_upload_init :: "string \<Rightarrow> dict \<Rightarrow> ('w, http_response) net"
  tr_post_resumable_blob_upload_complete :: "string \<Rightarrow> dict \<Rightarrow> ('w, http_response) net"
  tr_post_blob_download_init :: "string \<Rightarrow> dict \<Rightarrow> ('w, http_response) net"
  tr_post_resumable_blob_download_init :: "string \<Rightarrow> dict \<Rightarrow> ('w, http_response) net"
  tr_post_create_commit :: "string \<Rightarrow> dict \<Rightarrow> ('w, http_response) net"
  tr_post_resolve_commit_intent :: "string \<Rightarrow> dict \<Rightarrow> ('w, http_response) net"
  tr_get_manifest :: "string \<Rightarrow> int \<Rightarrow> ('w, http_response) net"
  tr_post_file_versions_list :: "string \<Rightarrow> dict \<Rightarrow> ('w, http_response) net"
  tr_patch_file_version :: "string \<Rightarrow> string \<Rightarrow> dict \<Rightarrow> ('w, http_response) net"
  tr_get_vault_head :: "string \<Rightarrow> ('w, http_response) net"
  tr_get_vault_devices :: "string \<Rightarrow> ('w, http_response) net"
  tr_post_vault_device_heartbeat :: "string \<Rightarrow> ('w, http_response) net"
  tr_post_tombstone_gc :: "string \<Rightarrow> dict \<Rightarrow> ('w, http_response) net"
  tr_delete_device :: "string \<Rightarrow> ('w, http_response) net"
  tr_post_ack :: "string \<Rightarrow> dict \<Rightarrow> ('w, http_response) net"

text \<open>The peers that move the bytes of blobs.\<close>

type_synonym 'w blob_uploader = "upload_entry \<Rightarrow> upload_capability_response \<Rightarrow> ('w, unit) net"
type_synonym 'w resumable_uploader =
  "upload_entry \<Rightarrow> resumable_upload_capability_response \<Rightarrow> ('w, string list) net"
type_synonym 'w blob_downloader = "download_capability_response \<Rightarrow> ('w, string) net"

record downloaded_range =
  dn_blob_id :: string
  dn_offset :: int
  dn_payload :: string

type_synonym 'w resumable_downloader =
  "resumable_download_capability_response \<Rightarrow> ('w, downloaded_range list) net"

fun each_of :: "('a \<Rightarrow> ('s, 'e, 'b) eff) \<Rightarrow> 'a list \<Rightarrow> ('s, 'e, 'b list) eff" where
  "each_of f [] = eret []"
| "each_of f (x # xs) = ebind (f x) (\<lambda>y. ebind (each_of f xs) (\<lambda>ys. eret (y # ys)))"

definition echeck :: "(bool \<times> string) list \<Rightarrow> ('s, py_exn, unit) eff" where
  "echeck cs = elift (validate cs ())"

definition require_status :: "http_response \<Rightarrow> int \<Rightarrow> string \<Rightarrow> ('w, unit) net" where
  "require_status r expected label = echeck
     [(hs_status_code r = expected, label @ '' returned unexpected status: '' @ int_str (hs_status_code r))]"

section \<open>Capabilities\<close>

definition validate_upload_capabilities :: "upload_plan \<Rightarrow> upload_capability_response list \<Rightarrow> unit result" where
  "validate_upload_capabilities up caps = validate
     [(set (map uc_blob_id caps) = set (map ue_blob_id (up_entries up)),
       ''upload-init response blob_ids do not match upload plan'')] ()"

definition index_upload_capabilities ::
  "upload_capability_response list \<Rightarrow> (string \<Rightarrow> upload_capability_response option) result" where
  "index_upload_capabilities caps = validate
     [(distinct (map uc_blob_id caps), ''upload-init response contains duplicate blob_ids'')]
     (dict_of uc_blob_id caps)"

definition index_download_capabilities ::
  "download_capability_response list \<Rightarrow> (string \<Rightarrow> download_capability_response option) result" where
  "index_download_capabilities caps = validate
     [(distinct (map dc_blob_id caps), ''download-init response contains duplicate blob_ids'')]
     (dict_of dc_blob_id caps)"

definition validate_resumable_upload_capabilities ::
  "upload_plan \<Rightarrow> resumable_upload_capability_response list \<Rightarrow> unit result" where
  "validate_resumable_upload_capabilities up caps = validate
     [(set (map rc_blob_id caps) = set (map ue_blob_id (up_entries up)),
       ''resumable upload-init response blob_ids do not match upload plan'')] ()"

definition index_resumable_upload_capabilities ::
  "resumable_upload_capability_response list \<Rightarrow> (string \<Rightarrow> resumable_upload_capability_response option) result" where
  "index_resumable_upload_capabilities caps = validate
     [(distinct (map rc_blob_id caps), ''resumable upload-init response contains duplicate blob_ids'')]
     (dict_of rc_blob_id caps)"

definition item_at :: "(string \<Rightarrow> 'a option) \<Rightarrow> string \<Rightarrow> 'a result" where
  "item_at m k = (case m k of None \<Rightarrow> Inl (KeyError k) | Some x \<Rightarrow> Inr x)"

section \<open>Committing\<close>

record preflight_result =
  pf_network_plan :: network_plan
  pf_upload_init_request :: "upload_init_item list option"
  pf_upload_init_response :: "upload_capability_response list option"

definition plan_only :: "network_plan \<Rightarrow> preflight_result" where
  "plan_only np = \<lparr>pf_network_plan = np, pf_upload_init_request = None, pf_upload_init_response = None\<rparr>"

definition execute_commit_preflight ::
  "'w transport \<Rightarrow> submission \<Rightarrow> snapshot_table \<Rightarrow> bool \<Rightarrow> ('w, preflight_result) net" where
  "execute_commit_preflight tr su st request_upload_capabilities =
     (if st_entries st = []
      then ebind (elift (build_commit_network_plan su st
          \<lparr>bc_requested_blob_ids = [], bc_existing_blob_ids = [], bc_missing_blob_ids = []\<rparr>)) (\<lambda>np.
        eret (plan_only np))
      else
        ebind (tr_post_blob_check tr (st_vault_id st) (serialize_blob_check_request (build_blob_check_request st))) (\<lambda>r.
        ebind (require_status r 200 ''blobs/check'') (\<lambda>_.
        ebind (elift (parse_blob_check_response (hs_payload r))) (\<lambda>cr.
        ebind (elift (resolve_blob_check_result st (cr_existing_blob_ids cr) (cr_missing_blob_ids cr))) (\<lambda>bc.
        ebind (elift (build_commit_network_plan su st bc)) (\<lambda>np.
        if up_entries (np_blob_uploads np) = [] \<or> \<not> request_upload_capabilities then eret (plan_only np)
        else
          ebind (elift (build_blob_upload_init_request (np_blob_uploads np))) (\<lambda>rq.
          ebind (tr_post_blob_upload_init tr (st_vault_id st) (serialize_blob_upload_init_request rq)) (\<lambda>r.
          ebind (require_status r 200 ''blobs/upload-init'') (\<lambda>_.
          ebind (elift (parse_blob_upload_init_response (hs_payload r))) (\<lambda>caps.
          ebind (elift (validate_upload_capabilities (np_blob_uploads np) caps)) (\<lambda>_.
          eret \<lparr>pf_network_plan = np, pf_upload_init_request = Some rq,
            pf_upload_init_response = Some caps\<rparr>)))))))))))"

definition execute_blob_uploads ::
  "'w blob_uploader \<Rightarrow> upload_plan \<Rightarrow> upload_capability_response list \<Rightarrow> ('w, string list) net" where
  "execute_blob_uploads uploader up caps =
     (if up_entries up = []
      then ebind (echeck [(caps = [], ''upload-init response must be empty when no uploads are planned'')]) (\<lambda>_. eret [])
      else ebind (elift (validate_upload_capabilities up caps)) (\<lambda>_.
        ebind (elift (index_upload_capabilities caps)) (\<lambda>by_id.
        each_of (\<lambda>e. ebind (elift (item_at by_id (ue_blob_id e))) (\<lambda>cap.
          ebind (uploader e cap) (\<lambda>_. eret (ue_blob_id e)))) (up_entries up))))"

datatype commit_execution =
    Committed commit_request commit_response_payload
  | Conflict commit_request conflict_response

definition execute_create_commit :: "'w transport \<Rightarrow> commit_request \<Rightarrow> ('w, commit_execution) net" where
  "execute_create_commit tr rq =
     ebind (elift (serialize_create_commit_request rq)) (\<lambda>payload.
     ebind (tr_post_create_commit tr (mn_vault_id (rq_manifest rq)) payload) (\<lambda>r.
     if hs_status_code r = 200
     then ebind (elift (parse_create_commit_response (hs_payload r))) (\<lambda>x. eret (Committed rq x))
     else if hs_status_code r = 409
     then ebind (elift (parse_commit_conflict_response (hs_payload r))) (\<lambda>x. eret (Conflict rq x))
     else eraise (ValueError (''commits returned unexpected status: '' @ int_str (hs_status_code r)))))"

record submission_execution =
  sx_preflight :: preflight_result
  sx_uploaded_blob_ids :: "string list"
  sx_commit :: commit_execution

definition execute_commit_submission ::
  "'w transport \<Rightarrow> 'w blob_uploader \<Rightarrow> submission \<Rightarrow> snapshot_table \<Rightarrow> ('w, submission_execution) net" where
  "execute_commit_submission tr uploader su st =
     ebind (execute_commit_preflight tr su st True) (\<lambda>pf.
     ebind (case pf_upload_init_response pf of
         None \<Rightarrow> eret []
       | Some caps \<Rightarrow> execute_blob_uploads uploader (np_blob_uploads (pf_network_plan pf)) caps) (\<lambda>uploaded.
     ebind (execute_create_commit tr (np_request (pf_network_plan pf))) (\<lambda>commit.
     eret \<lparr>sx_preflight = pf, sx_uploaded_blob_ids = uploaded, sx_commit = commit\<rparr>)))"

section \<open>Downloads\<close>

definition execute_blob_download_init ::
  "'w transport \<Rightarrow> string \<Rightarrow> string list \<Rightarrow> ('w, string list \<times> download_capability_response list) net" where
  "execute_blob_download_init tr vault_id blob_ids =
     ebind (elift (serialize_blob_download_init_request blob_ids)) (\<lambda>payload.
     ebind (tr_post_blob_download_init tr vault_id payload) (\<lambda>r.
     ebind (require_status r 200 ''blobs/download-init'') (\<lambda>_.
     ebind (elift (parse_blob_download_init_response (hs_payload r))) (\<lambda>caps. eret (blob_ids, caps)))))"

definition execute_blob_downloads ::
  "'w blob_downloader \<Rightarrow> download_capability_response list \<Rightarrow> ('w, (string \<times> string) list) net" where
  "execute_blob_downloads downloader caps =
     ebind (elift (index_download_capabilities caps)) (\<lambda>by_id.
     each_of (\<lambda>b. ebind (elift (item_at by_id b)) (\<lambda>cap. ebind (downloader cap) (\<lambda>bytes. eret (b, bytes))))
       (sorted_set (map dc_blob_id caps)))"

definition execute_blob_download_session where
  "execute_blob_download_session tr downloader vault_id blob_ids =
     ebind (execute_blob_download_init tr vault_id blob_ids) (\<lambda>init.
     ebind (execute_blob_downloads downloader (snd init)) (\<lambda>blobs. eret (init, blobs)))"

definition execute_resumable_blob_download_init ::
  "'w transport \<Rightarrow> string \<Rightarrow> resumable_download_item list
     \<Rightarrow> ('w, resumable_download_item list \<times> resumable_download_capability_response list) net" where
  "execute_resumable_blob_download_init tr vault_id blobs =
     ebind (elift (serialize_resumable_blob_download_init_request blobs)) (\<lambda>payload.
     ebind (tr_post_resumable_blob_download_init tr vault_id payload) (\<lambda>r.
     ebind (require_status r 200 ''blobs/resumable-download-init'') (\<lambda>_.
     ebind (elift (parse_resumable_blob_download_init_response (hs_payload r))) (\<lambda>caps. eret (blobs, caps)))))"

text \<open>The dictionary of downloaded ranges: the last capability of a blob wins.\<close>

fun execute_resumable_blob_downloads ::
  "'w resumable_downloader \<Rightarrow> resumable_download_capability_response list \<Rightarrow> (string \<times> downloaded_range list) list
     \<Rightarrow> ('w, (string \<times> downloaded_range list) list) net" where
  "execute_resumable_blob_downloads downloader [] acc = eret acc"
| "execute_resumable_blob_downloads downloader (cap # caps) acc =
     ebind (downloader cap) (\<lambda>rs.
     execute_resumable_blob_downloads downloader caps (AList.update (rd_blob_id cap) rs acc))"

text \<open>The loop over the sorted ranges: \<open>None\<close> when it breaks off.\<close>

fun assemble_ranges :: "int \<Rightarrow> string \<Rightarrow> downloaded_range list \<Rightarrow> (int \<times> string) option" where
  "assemble_ranges cursor payload [] = Some (cursor, payload)"
| "assemble_ranges cursor payload (r # rs) =
     (if dn_offset r \<noteq> cursor then None
      else assemble_ranges (cursor + int (length (dn_payload r))) (payload @ dn_payload r) rs)"

definition assemble_one ::
  "resumable_download_capability_response \<Rightarrow> (string \<times> downloaded_range list) list \<Rightarrow> string option" where
  "assemble_one cap downloaded =
     (if rd_ranges cap = [] then (if rd_encrypted_size cap = 0 then Some [] else None)
      else case assemble_ranges 0 [] (sort_key dn_offset
          (case map_of downloaded (rd_blob_id cap) of Some rs \<Rightarrow> rs | None \<Rightarrow> [])) of
        Some (cursor, payload) \<Rightarrow> if cursor = rd_encrypted_size cap then Some payload else None
      | None \<Rightarrow> None)"

definition assemble_complete_resumable_downloads ::
  "resumable_download_capability_response list \<Rightarrow> (string \<times> downloaded_range list) list \<Rightarrow> (string \<times> string) list" where
  "assemble_complete_resumable_downloads caps downloaded =
     fold (\<lambda>cap acc. case assemble_one cap downloaded of
        Some b \<Rightarrow> AList.update (rd_blob_id cap) b acc | None \<Rightarrow> acc) caps []"

definition execute_resumable_blob_download_session where
  "execute_resumable_blob_download_session tr downloader vault_id blobs =
     ebind (execute_resumable_blob_download_init tr vault_id blobs) (\<lambda>init.
     ebind (execute_resumable_blob_downloads downloader (snd init) []) (\<lambda>downloaded.
     eret (init, downloaded, assemble_complete_resumable_downloads (snd init) downloaded)))"

section \<open>Resumable uploads\<close>

text \<open>The staged files are read by path; their SHA-256 is a parameter.\<close>

definition blob_staging_sha256 :: "(string \<Rightarrow> string) \<Rightarrow> (string \<Rightarrow> string option) \<Rightarrow> string \<Rightarrow> string result" where
  "blob_staging_sha256 digest files path = (case files path of
     None \<Rightarrow> Inl (OSError path) | Some bytes \<Rightarrow> Inr (''sha256:'' @ digest bytes))"

definition build_resumable_blob_upload_init_request ::
  "(string \<Rightarrow> string) \<Rightarrow> (string \<Rightarrow> string option) \<Rightarrow> upload_plan \<Rightarrow> resumable_upload_item list result" where
  "build_resumable_blob_upload_init_request digest files up =
     (if up_entries up = [] then Inl (ValueError ''blob upload plan does not contain any upload entries'')
      else mapM (\<lambda>e. rbind (blob_staging_sha256 digest files (ue_blob_staging_path e)) (\<lambda>h.
        Inr \<lparr>ri_blob_id = ue_blob_id e, ri_encrypted_size = ue_encrypted_size e, ri_content_hash = ue_content_hash e,
          ri_encrypted_sha256 = h, ri_chunk_size = DEFAULT_RESUMABLE_BLOB_CHUNK_SIZE\<rparr>)) (up_entries up))"

definition execute_resumable_blob_upload_init ::
  "(string \<Rightarrow> string) \<Rightarrow> (string \<Rightarrow> string) \<Rightarrow> (string \<Rightarrow> string option) \<Rightarrow> 'w transport \<Rightarrow> upload_plan
     \<Rightarrow> ('w, resumable_upload_item list \<times> resumable_upload_capability_response list) net" where
  "execute_resumable_blob_upload_init sha digest files tr up =
     ebind (elift (build_resumable_blob_upload_init_request digest files up)) (\<lambda>rq.
     ebind (elift (serialize_resumable_blob_upload_init_request sha rq)) (\<lambda>payload.
     ebind (tr_post_resumable_blob_upload_init tr (up_vault_id up) payload) (\<lambda>r.
     ebind (require_status r 200 ''blobs/resumable-upload-init'') (\<lambda>_.
     ebind (elift (parse_resumable_blob_upload_init_response (hs_payload r))) (\<lambda>caps.
     ebind (elift (validate_resumable_upload_capabilities up caps)) (\<lambda>_.
     eret (rq, caps)))))))"

definition execute_resumable_blob_upload_chunks ::
  "'w resumable_uploader \<Rightarrow> upload_plan \<Rightarrow> resumable_upload_capability_response list
     \<Rightarrow> ('w, (string \<times> string list) list) net" where
  "execute_resumable_blob_upload_chunks uploader up caps =
     (if up_entries up = []
      then ebind (echeck [(caps = [],
          ''resumable upload-init response must be empty when no uploads are planned'')]) (\<lambda>_. eret [])
      else ebind (elift (validate_resumable_upload_capabilities up caps)) (\<lambda>_.
        ebind (elift (index_resumable_upload_capabilities caps)) (\<lambda>by_id.
        ebind (each_of (\<lambda>e. ebind (elift (item_at by_id (ue_blob_id e))) (\<lambda>cap.
          ebind (uploader e cap) (\<lambda>ids. eret (ue_blob_id e, ids)))) (up_entries up)) (\<lambda>ups.
        eret (fold (\<lambda>(b, ids). AList.update b ids) ups [])))))"

definition complete_item_for ::
  "(string \<Rightarrow> resumable_upload_item option) \<Rightarrow> (string \<Rightarrow> resumable_upload_capability_response option)
     \<Rightarrow> (string \<times> string list) list \<Rightarrow> upload_entry \<Rightarrow> resumable_complete_item result" where
  "complete_item_for requests caps uploaded e =
     rbind (item_at caps (ue_blob_id e)) (\<lambda>cap.
     rbind (item_at requests (ue_blob_id e)) (\<lambda>rq.
     let known = set (map cs_chunk_id (rc_uploaded_chunks cap @ rc_missing_chunks cap));
         ids = rev (remdups (rev (case map_of uploaded (ue_blob_id e) of Some ids \<Rightarrow> ids | None \<Rightarrow> []))) in
     validate
       [(ids \<noteq> [], ''resumable upload complete requires at least one uploaded chunk id''),
        (set ids \<subseteq> known, ''resumable upload complete contains unknown uploaded chunk ids'')]
       \<lparr>ci_blob_id = ue_blob_id e, ci_session_id = rc_session_id cap, ci_encrypted_size = ue_encrypted_size e,
        ci_encrypted_sha256 = ri_encrypted_sha256 rq, ci_uploaded_chunk_ids = ids\<rparr>))"

definition build_resumable_blob_upload_complete_request ::
  "(string \<Rightarrow> string) \<Rightarrow> (string \<Rightarrow> string option) \<Rightarrow> upload_plan \<Rightarrow> resumable_upload_capability_response list
     \<Rightarrow> (string \<times> string list) list \<Rightarrow> resumable_complete_item list result" where
  "build_resumable_blob_upload_complete_request digest files up caps uploaded =
     rbind (build_resumable_blob_upload_init_request digest files up) (\<lambda>rqs.
     rbind (index_resumable_upload_capabilities caps) (\<lambda>by_id.
     mapM (complete_item_for (dict_of ri_blob_id rqs) by_id uploaded) (up_entries up)))"

definition execute_resumable_blob_upload_complete ::
  "'w transport \<Rightarrow> string \<Rightarrow> resumable_complete_item list \<Rightarrow> ('w, resumable_complete_response list) net" where
  "execute_resumable_blob_upload_complete tr vault_id rq =
     ebind (elift (serialize_resumable_blob_upload_complete_request rq)) (\<lambda>payload.
     ebind (tr_post_resumable_blob_upload_complete tr vault_id payload) (\<lambda>r.
     ebind (require_status r 200 ''blobs/resumable-upload-complete'') (\<lambda>_.
     elift (parse_resumable_blob_upload_complete_response (hs_payload r)))))"

record resumable_upload_session =
  rx_init :: "resumable_upload_item list \<times> resumable_upload_capability_response list"
  rx_uploaded_chunk_ids :: "(string \<times> string list) list"
  rx_complete_request :: "resumable_complete_item list"
  rx_complete_response :: "resumable_complete_response list"

definition execute_resumable_blob_upload_session ::
  "(string \<Rightarrow> string) \<Rightarrow> (string \<Rightarrow> string) \<Rightarrow> (string \<Rightarrow> string option) \<Rightarrow> 'w transport \<Rightarrow> 'w resumable_uploader
     \<Rightarrow> upload_plan \<Rightarrow> ('w, resumable_upload_session) net" where
  "execute_resumable_blob_upload_session sha digest files tr uploader up =
     ebind (execute_resumable_blob_upload_init sha digest files tr up) (\<lambda>init.
     ebind (execute_resumable_blob_upload_chunks uploader up (snd init)) (\<lambda>uploaded.
     ebind (elift (build_resumable_blob_upload_complete_request digest files up (snd init) uploaded)) (\<lambda>rq.
     ebind (execute_resumable_blob_upload_complete tr (up_vault_id up) rq) (\<lambda>resp.
     let incomplete = map co_blob_id (filter (\<lambda>i. co_status i = ''incomplete'') resp) in
     ebind (echeck [(incomplete = [],
       ''resumable blob upload incomplete: '' @ join '', '' (sort incomplete))]) (\<lambda>_.
     eret \<lparr>rx_init = init, rx_uploaded_chunk_ids = uploaded, rx_complete_request = rq,
       rx_complete_response = resp\<rparr>)))))"


section \<open>Versions, devices and collections\<close>

definition execute_file_version_list ::
  "'w transport \<Rightarrow> string \<Rightarrow> version_list_request \<Rightarrow> ('w, version_list_request \<times> version_list_response) net" where
  "execute_file_version_list tr vault_id rq =
     ebind (elift (serialize_file_version_list_request rq)) (\<lambda>payload.
     ebind (tr_post_file_versions_list tr vault_id payload) (\<lambda>r.
     ebind (require_status r 200 ''file-versions/list'') (\<lambda>_.
     ebind (elift (parse_file_version_list_response (hs_payload r))) (\<lambda>x. eret (rq, x)))))"

definition execute_file_version_update ::
  "'w transport \<Rightarrow> string \<Rightarrow> string \<Rightarrow> version_update_request \<Rightarrow> ('w, version_update_request \<times> file_version) net" where
  "execute_file_version_update tr vault_id version_id rq =
     ebind (echeck [(version_id \<noteq> [], ''version_id must be non-empty'')]) (\<lambda>_.
     ebind (elift (serialize_file_version_update_request rq)) (\<lambda>payload.
     ebind (tr_patch_file_version tr vault_id version_id payload) (\<lambda>r.
     ebind (require_status r 200 (''file-versions/'' @ version_id)) (\<lambda>_.
     ebind (elift (parse_file_version_update_response (hs_payload r))) (\<lambda>x. eret (rq, x))))))"

definition execute_vault_device_list :: "'w transport \<Rightarrow> string \<Rightarrow> ('w, device_list_response) net" where
  "execute_vault_device_list tr vault_id =
     ebind (echeck [(vault_id \<noteq> [], ''vault_id must be non-empty'')]) (\<lambda>_.
     ebind (tr_get_vault_devices tr vault_id) (\<lambda>r.
     ebind (require_status r 200 ''devices'') (\<lambda>_.
     ebind (elift (parse_vault_device_list_response (hs_payload r))) (\<lambda>x.
     ebind (echeck [(lr_vault_id x = vault_id, ''devices response vault_id does not match requested vault'')]) (\<lambda>_.
     eret x)))))"

definition execute_vault_device_heartbeat :: "'w transport \<Rightarrow> string \<Rightarrow> ('w, heartbeat_response) net" where
  "execute_vault_device_heartbeat tr vault_id =
     ebind (echeck [(vault_id \<noteq> [], ''vault_id must be non-empty'')]) (\<lambda>_.
     ebind (tr_post_vault_device_heartbeat tr vault_id) (\<lambda>r.
     ebind (require_status r 200 ''devices/heartbeat'') (\<lambda>_.
     ebind (elift (parse_vault_device_heartbeat_response (hs_payload r))) (\<lambda>x.
     ebind (echeck [(br_vault_id x = vault_id,
       ''device heartbeat response vault_id does not match requested vault'')]) (\<lambda>_.
     eret x)))))"

definition execute_tombstone_gc ::
  "'w transport \<Rightarrow> string \<Rightarrow> gc_request option \<Rightarrow> ('w, gc_request \<times> gc_response) net" where
  "execute_tombstone_gc tr vault_id request =
     (let rq = (case request of Some q \<Rightarrow> q
         | None \<Rightarrow> \<lparr>gq_now_ms = None, gq_min_retention_ms = None, gq_inactive_after_ms = None\<rparr>) in
     ebind (echeck [(vault_id \<noteq> [], ''vault_id must be non-empty'')]) (\<lambda>_.
     ebind (elift (serialize_tombstone_gc_request rq)) (\<lambda>payload.
     ebind (tr_post_tombstone_gc tr vault_id payload) (\<lambda>r.
     ebind (require_status r 200 ''tombstones/gc'') (\<lambda>_.
     ebind (elift (parse_tombstone_gc_response (hs_payload r))) (\<lambda>x.
     ebind (echeck [(gp_vault_id x = vault_id, ''tombstone gc response vault_id does not match requested vault'')]) (\<lambda>_.
     eret (rq, x))))))))"

section \<open>Resolving a commit whose outcome was not seen\<close>

record resolve_execution =
  re_request :: resolve_request
  re_response :: resolve_response
  re_matched_manifest :: "manifest option"
  re_matched_manifest_missing :: bool

definition execute_resolve_commit_intent :: "'w transport \<Rightarrow> commit_journal \<Rightarrow> ('w, resolve_execution) net" where
  "execute_resolve_commit_intent tr j =
     (let rq = \<lparr>rr_commit_intent_id = cj_commit_intent_id j, rr_intent_manifest_hash = cj_intent_manifest_hash j\<rparr> in
     ebind (tr_post_resolve_commit_intent tr (cj_vault_id j) (serialize_resolve_commit_intent_request rq)) (\<lambda>r.
     ebind (require_status r 200 ''commits/resolve-intent'') (\<lambda>_.
     ebind (elift (parse_resolve_commit_intent_response (hs_payload r))) (\<lambda>x.
     if rv_status x \<noteq> ''found''
     then eret \<lparr>re_request = rq, re_response = x, re_matched_manifest = None, re_matched_manifest_missing = False\<rparr>
     else case rv_matched_revision x of
       None \<Rightarrow> eraise (TypeError ''matched_revision'')
     | Some matched \<Rightarrow>
       ebind (tr_get_manifest tr (cj_vault_id j) matched) (\<lambda>mr.
       if hs_status_code mr = 404
       then eret \<lparr>re_request = rq, re_response = x, re_matched_manifest = None, re_matched_manifest_missing = True\<rparr>
       else ebind (require_status mr 200 (''manifests/'' @ int_str matched)) (\<lambda>_.
         ebind (elift (parse_manifest_response (JObj (hs_payload mr)))) (\<lambda>m.
         ebind (echeck
           [(mn_vault_id m = cj_vault_id j, ''matched manifest vault_id does not match resolve-intent journal vault''),
            (mn_revision m = matched, ''matched manifest revision does not match resolve-intent response'')]) (\<lambda>_.
         eret \<lparr>re_request = rq, re_response = x, re_matched_manifest = Some m,
           re_matched_manifest_missing = False\<rparr>))))))))"

text \<open>Effects on the world, or on the client, as effects on both.\<close>

definition on_world :: "('w, 'e, 'a) eff \<Rightarrow> ('w \<times> client, 'e, 'a) eff" where
  "on_world m = (\<lambda>(w, c). case m w of (r, w') \<Rightarrow> (r, w', c))"

definition on_client :: "'a io \<Rightarrow> ('w \<times> client, py_exn, 'a) eff" where
  "on_client m = (\<lambda>(w, c). case m c of (r, c') \<Rightarrow> (r, w, c'))"

definition execute_submitted_recovery_via_resolve_intent ::
  "(string \<Rightarrow> string) \<Rightarrow> (string \<Rightarrow> string) \<Rightarrow> 'w transport \<Rightarrow> string \<Rightarrow> tombstone list \<Rightarrow> int
     \<Rightarrow> ('w \<times> client, py_exn, resolve_execution \<times> submitted_recovery) eff" where
  "execute_submitted_recovery_via_resolve_intent sha nfc tr vault_id local_tombstones normalized_at =
     ebind (on_client (eread (load_commit_intent_journal vault_id))) (\<lambda>journal.
     case journal of
       None \<Rightarrow> eraise (KeyError (''commit_intent_journal not found: '' @ vault_id))
     | Some j \<Rightarrow>
       ebind (echeck [(cj_status j \<in> {''submitted'', ''acknowledged''},
         ''submitted or acknowledged journal is required for resolve-intent recovery'')]) (\<lambda>_.
       ebind (on_world (execute_resolve_commit_intent tr j)) (\<lambda>resolved.
       case rv_observed_head_revision (re_response resolved) of
         None \<Rightarrow> eraise (ValueError
           ''resolve-intent response must include observed_head_revision for submitted recovery'')
       | Some observed \<Rightarrow>
         if rv_status (re_response resolved) = ''mismatched''
         then eraise (ValueError ''resolve-intent reported mismatched status for submitted recovery'')
         else if rv_status (re_response resolved) = ''not_found''
         then ebind (on_client (recover_submitted_commit_miss vault_id normalized_at)) (\<lambda>st.
           eret (resolved, \<lparr>sr_state = st, sr_tombstones = local_tombstones, sr_requires_full_pull = False\<rparr>))
         else case rv_matched_revision (re_response resolved) of
             None \<Rightarrow> eraise (ValueError ''resolve-intent found status must include matched_revision'')
           | Some matched \<Rightarrow>
             ebind (on_client (recover_submitted_commit_flow sha nfc vault_id local_tombstones matched observed
               normalized_at (re_matched_manifest resolved))) (\<lambda>recovery.
             eret (resolved, recovery)))))"

section \<open>Acknowledging and pulling\<close>

definition execute_ack_revisions :: "'w transport \<Rightarrow> string \<Rightarrow> int list \<Rightarrow> ('w, int list \<times> int) net" where
  "execute_ack_revisions tr vault_id revisions =
     ebind (elift (serialize_ack_request revisions)) (\<lambda>payload.
     ebind (tr_post_ack tr vault_id payload) (\<lambda>r.
     ebind (require_status r 200 ''ack'') (\<lambda>_.
     ebind (elift (parse_ack_response (hs_payload r))) (\<lambda>x. eret (revisions, x)))))"

definition execute_ack_pending_revisions :: "'w transport \<Rightarrow> vault_state \<Rightarrow> ('w, (int list \<times> int) option) net" where
  "execute_ack_pending_revisions tr st =
     (if vs_pending_ack_to_server st = [] then eret None
      else ebind (execute_ack_revisions tr (vs_vault_id st) (vs_pending_ack_to_server st)) (\<lambda>x. eret (Some x)))"

record pull_session =
  ps_head :: vault_head_response
  ps_manifest :: "manifest option"
  ps_reconcile :: "reconcile_plan \<times> vault_state \<times> applied_manifest option"

definition execute_pull_reconcile_session ::
  "(string \<Rightarrow> string) \<Rightarrow> (string \<Rightarrow> string) \<Rightarrow> 'w transport \<Rightarrow> filemap_document \<Rightarrow> vault_state \<Rightarrow> tombstone list \<Rightarrow> int
     \<Rightarrow> ('w \<times> client, py_exn, pull_session) eff" where
  "execute_pull_reconcile_session sha nfc tr d current_state local_tombstones rewritten_at =
     ebind (on_world (tr_get_vault_head tr (vs_vault_id current_state))) (\<lambda>r.
     ebind (require_status r 200 ''head'') (\<lambda>_.
     ebind (elift (parse_vault_head_response (hs_payload r))) (\<lambda>head.
     ebind (echeck [(hr_vault_id head = vs_vault_id current_state,
       ''head response vault_id does not match current state'')]) (\<lambda>_.
     let plan = plan_pull_reconcile current_state (hr_head_revision head) in
     ebind (if pl_should_download_manifest plan
         then ebind (on_world (tr_get_manifest tr (vs_vault_id current_state) (pl_target_revision plan))) (\<lambda>mr.
           ebind (require_status mr 200 (''manifests/'' @ int_str (pl_target_revision plan))) (\<lambda>_.
           ebind (elift (parse_manifest_response (JObj (hs_payload mr)))) (\<lambda>m. eret (Some m))))
         else eret None) (\<lambda>manifest.
     ebind (on_client (execute_pull_reconcile sha nfc d current_state local_tombstones (hr_head_revision head)
       rewritten_at manifest)) (\<lambda>rec.
     eret \<lparr>ps_head = head, ps_manifest = manifest, ps_reconcile = rec\<rparr>))))))"

definition execute_pull_sync_session where
  "execute_pull_sync_session sha nfc tr d current_state local_tombstones rewritten_at =
     ebind (execute_pull_reconcile_session sha nfc tr d current_state local_tombstones rewritten_at) (\<lambda>pull.
     ebind (on_world (execute_ack_pending_revisions tr (fst (snd (ps_reconcile pull))))) (\<lambda>ack.
     eret (pull, ack)))"

section \<open>Resuming after a crash\<close>

record recovery_session =
  cv_mode :: recovery_mode
  cv_requires_full_pull :: bool
  cv_local :: "(vault_state \<times> string list) option"
  cv_submitted :: "(resolve_execution \<times> submitted_recovery) option"

definition execute_commit_recovery_session ::
  "(string \<Rightarrow> string) \<Rightarrow> (string \<Rightarrow> string) \<Rightarrow> 'w transport \<Rightarrow> string \<Rightarrow> int \<Rightarrow> bool \<Rightarrow> tombstone list
     \<Rightarrow> ('w \<times> client, py_exn, recovery_session) eff" where
  "execute_commit_recovery_session sha nfc tr vault_id normalized_at ledger_given local_tombstones =
     ebind (on_client (eread (load_vault_state vault_id))) (\<lambda>state.
     case state of
       None \<Rightarrow> eraise (KeyError (''vault_state not found: '' @ vault_id))
     | Some st \<Rightarrow>
       ebind (on_client (eread (load_commit_intent_journal vault_id))) (\<lambda>journal.
       ebind (elift (plan_commit_recovery st journal)) (\<lambda>mode.
       if mode \<noteq> Submitted_Confirmation
       then ebind (on_client (recover_local_commit_state vault_id)) (\<lambda>(_, st', moved).
         eret \<lparr>cv_mode = mode, cv_requires_full_pull = requires_full_pull st', cv_local = Some (st', moved),
           cv_submitted = None\<rparr>)
       else ebind (echeck [(ledger_given, ''ledger_path is required for submitted confirmation recovery'')]) (\<lambda>_.
         ebind (execute_submitted_recovery_via_resolve_intent sha nfc tr vault_id local_tombstones normalized_at)
           (\<lambda>submitted.
         eret \<lparr>cv_mode = mode, cv_requires_full_pull = sr_requires_full_pull (snd submitted), cv_local = None,
           cv_submitted = Some submitted\<rparr>)))))"

section \<open>Sessions\<close>

record 'w vault_sync_session =
  sn_transport :: "'w transport"
  sn_uploader :: "'w blob_uploader option"
  sn_resumable_uploader :: "'w resumable_uploader option"
  sn_downloader :: "'w blob_downloader option"
  sn_resumable_downloader :: "'w resumable_downloader option"

definition session_submit_commit ::
  "(string \<Rightarrow> string) \<Rightarrow> (string \<Rightarrow> string) \<Rightarrow> (string \<Rightarrow> string option) \<Rightarrow> 'w vault_sync_session \<Rightarrow> submission
     \<Rightarrow> snapshot_table \<Rightarrow> ('w, submission_execution) net" where
  "session_submit_commit sha digest files sn su st =
     ebind (execute_commit_preflight (sn_transport sn) su st (sn_resumable_uploader sn = None)) (\<lambda>pf.
     ebind (case pf_upload_init_response pf of
         Some caps \<Rightarrow> (case sn_uploader sn of
             None \<Rightarrow> eraise (ValueError ''blob uploader is required for commit submissions with missing blobs'')
           | Some uploader \<Rightarrow> execute_blob_uploads uploader (np_blob_uploads (pf_network_plan pf)) caps)
       | None \<Rightarrow> (case sn_resumable_uploader sn of
             Some uploader \<Rightarrow>
               if up_entries (np_blob_uploads (pf_network_plan pf)) = [] then eret []
               else ebind (execute_resumable_blob_upload_session sha digest files (sn_transport sn) uploader
                   (np_blob_uploads (pf_network_plan pf))) (\<lambda>x.
                 eret (map co_blob_id (rx_complete_response x)))
           | None \<Rightarrow> eret [])) (\<lambda>uploaded.
     ebind (execute_create_commit (sn_transport sn) (np_request (pf_network_plan pf))) (\<lambda>commit.
     eret \<lparr>sx_preflight = pf, sx_uploaded_blob_ids = uploaded, sx_commit = commit\<rparr>)))"

definition session_download_blobs where
  "session_download_blobs sn vault_id blob_ids = (case sn_downloader sn of
     None \<Rightarrow> eraise (ValueError ''blob downloader is required for blob download sessions'')
   | Some d \<Rightarrow> execute_blob_download_session (sn_transport sn) d vault_id blob_ids)"

definition session_upload_blobs_resumable where
  "session_upload_blobs_resumable sha digest files sn up = (case sn_resumable_uploader sn of
     None \<Rightarrow> eraise (ValueError ''resumable blob uploader is required for resumable blob upload sessions'')
   | Some u \<Rightarrow> execute_resumable_blob_upload_session sha digest files (sn_transport sn) u up)"

definition session_download_blobs_resumable where
  "session_download_blobs_resumable sn vault_id blobs = (case sn_resumable_downloader sn of
     None \<Rightarrow> eraise (ValueError ''resumable blob downloader is required for resumable blob download sessions'')
   | Some d \<Rightarrow> execute_resumable_blob_download_session (sn_transport sn) d vault_id blobs)"

definition session_update_file_version where
  "session_update_file_version sn vault_id version_id label note pinned =
     execute_file_version_update (sn_transport sn) vault_id version_id
       \<lparr>vu_version_label = label, vu_change_note = note, vu_is_pinned = pinned\<rparr>"

definition session_run_tombstone_gc where
  "session_run_tombstone_gc sn vault_id now_ms min_retention_ms inactive_after_ms =
     execute_tombstone_gc (sn_transport sn) vault_id (Some \<lparr>gq_now_ms = now_ms,
       gq_min_retention_ms = min_retention_ms, gq_inactive_after_ms = inactive_after_ms\<rparr>)"


section \<open>Assembling downloaded ranges\<close>

lemma assemble_ranges_Some:
  "assemble_ranges cursor payload rs = Some (c, b) \<Longrightarrow> cursor = int (length payload) \<Longrightarrow>
     c = int (length b) \<and> b = payload @ concat (map dn_payload rs) \<and>
     (\<forall>r \<in> set rs. cursor \<le> dn_offset r \<and>
        take (length (dn_payload r)) (drop (nat (dn_offset r)) b) = dn_payload r)"
proof (induction cursor payload rs rule: assemble_ranges.induct)
  case (2 cursor payload r rs)
  from 2(2) have o: "dn_offset r = cursor" and
    a: "assemble_ranges (cursor + int (length (dn_payload r))) (payload @ dn_payload r) rs = Some (c, b)"
    by (auto split: if_splits)
  from 2(1) [OF _ a] o 2(3) have IH: "c = int (length b)" "b = (payload @ dn_payload r) @ concat (map dn_payload rs)"
    "\<forall>q \<in> set rs. cursor + int (length (dn_payload r)) \<le> dn_offset q \<and>
       take (length (dn_payload q)) (drop (nat (dn_offset q)) b) = dn_payload q" by auto
  have "take (length (dn_payload r)) (drop (nat (dn_offset r)) b) = dn_payload r"
    using o 2(3) IH(2) by simp
  with IH o show ?case by fastforce
qed auto

text \<open>A blob that a resumable download assembles is complete and in place: it has exactly the announced
  size, it is the concatenation of the downloaded ranges in the order of their offsets, and every
  range stands at its offset, whatever order the ranges were downloaded in.\<close>

lemma assembled_blob_exact:
  assumes "assemble_one cap downloaded = Some b" and "rd_ranges cap \<noteq> []"
    and "map_of downloaded (rd_blob_id cap) = Some rs"
  shows "int (length b) = rd_encrypted_size cap \<and> b = concat (map dn_payload (sort_key dn_offset rs)) \<and>
    (\<forall>r \<in> set rs. 0 \<le> dn_offset r \<and>
       take (length (dn_payload r)) (drop (nat (dn_offset r)) b) = dn_payload r)"
proof -
  from assms obtain c where "assemble_ranges 0 [] (sort_key dn_offset rs) = Some (c, b)" "c = rd_encrypted_size cap"
    by (auto simp: assemble_one_def split: option.splits if_splits)
  note c = this and a = assemble_ranges_Some [OF this(1), simplified]
  from a have "b = concat (map dn_payload (sort_key dn_offset rs))" and
    "\<forall>r \<in> set rs. 0 \<le> dn_offset r \<and>
       take (length (dn_payload r)) (drop (nat (dn_offset r)) b) = dn_payload r" by blast+
  moreover from a c(2) have "int (length b) = rd_encrypted_size cap" by simp
  ultimately show ?thesis by blast
qed

lemma assembled_blob_exact_witness:
  "let cap = \<lparr>rd_blob_id = ''b'', rd_download_url = ''u'', rd_encrypted_size = 3, rd_expires_at = ''t'',
        rd_ranges = [\<lparr>rg_offset = 2, rg_size = 1\<rparr>, \<lparr>rg_offset = 0, rg_size = 2\<rparr>], rd_headers = None\<rparr>;
      rs = [\<lparr>dn_blob_id = ''b'', dn_offset = 2, dn_payload = ''z''\<rparr>,
            \<lparr>dn_blob_id = ''b'', dn_offset = 0, dn_payload = ''xy''\<rparr>]
   in assemble_one cap [(''b'', rs)] = Some ''xyz'' \<and> int (length ''xyz'') = rd_encrypted_size cap \<and>
      ''xyz'' = concat (map dn_payload (sort_key dn_offset rs))"
proof -
  let ?cap = "\<lparr>rd_blob_id = ''b'', rd_download_url = ''u'', rd_encrypted_size = 3, rd_expires_at = ''t'',
        rd_ranges = [\<lparr>rg_offset = 2, rg_size = 1\<rparr>, \<lparr>rg_offset = 0, rg_size = 2\<rparr>], rd_headers = None\<rparr>"
  let ?rs = "[\<lparr>dn_blob_id = ''b'', dn_offset = 2, dn_payload = ''z''\<rparr>,
            \<lparr>dn_blob_id = ''b'', dn_offset = 0, dn_payload = ''xy''\<rparr>]"
  have a: "assemble_one ?cap [(''b'', ?rs)] = Some ''xyz''" by code_simp
  have "rd_ranges ?cap \<noteq> []" "map_of [(''b'', ?rs)] (rd_blob_id ?cap) = Some ?rs" by simp_all
  from assembled_blob_exact [OF a this] a show ?thesis by (simp add: Let_def)
qed

section \<open>Settling a commit over a service that tells the truth\<close>

text \<open>What the client relies on, for the vault identifiers it can name in a path: the service answers a resolve-intent request truthfully when it answers
  at all, and answering does not change what it holds. Requests may fail or time out.\<close>

locale commit_service =
  fixes tr :: "'w transport"
    and usable :: "string \<Rightarrow> bool"
    and good :: "'w \<Rightarrow> bool"
    and committed :: "'w \<Rightarrow> string \<Rightarrow> string \<Rightarrow> (string \<times> int) option"
    and head :: "'w \<Rightarrow> string \<Rightarrow> int"
  assumes resolve_keeps: "usable v \<Longrightarrow> good w \<Longrightarrow> tr_post_resolve_commit_intent tr v p w = (res, w') \<Longrightarrow>
      good w' \<and> committed w' = committed w \<and> head w' = head w"
    and manifest_keeps: "usable v \<Longrightarrow> good w \<Longrightarrow> tr_get_manifest tr v n w = (res, w') \<Longrightarrow>
      good w' \<and> committed w' = committed w \<and> head w' = head w"
    and resolve_true: "usable v \<Longrightarrow> good w \<Longrightarrow>
      tr_post_resolve_commit_intent tr v (serialize_resolve_commit_intent_request rq) w = (Inr r, w') \<Longrightarrow>
      hs_status_code r = 200 \<Longrightarrow> parse_resolve_commit_intent_response (hs_payload r) = Inr x \<Longrightarrow>
      rv_observed_head_revision x = Some (head w v) \<and>
      (case committed w v (rr_commit_intent_id rq) of
         None \<Rightarrow> rv_status x = ''not_found''
       | Some (h, n) \<Rightarrow> if h = rr_intent_manifest_hash rq
           then rv_status x = ''found'' \<and> rv_matched_revision x = Some n else rv_status x = ''mismatched'')"
begin

definition truthful :: "'w \<Rightarrow> string \<Rightarrow> resolve_request \<Rightarrow> resolve_response \<Rightarrow> bool" where
  "truthful w v rq x \<longleftrightarrow> rv_observed_head_revision x = Some (head w v) \<and>
     (case committed w v (rr_commit_intent_id rq) of
        None \<Rightarrow> rv_status x = ''not_found''
      | Some (h, n) \<Rightarrow> if h = rr_intent_manifest_hash rq
          then rv_status x = ''found'' \<and> rv_matched_revision x = Some n else rv_status x = ''mismatched'')"

lemma resolve_execution:
  assumes u: "usable (cj_vault_id j)" and g: "good w" and run: "execute_resolve_commit_intent tr j w = (r, w')"
  shows "good w' \<and> committed w' = committed w \<and> head w' = head w \<and>
    (\<forall>x. r = Inr x \<longrightarrow> truthful w (cj_vault_id j)
      \<lparr>rr_commit_intent_id = cj_commit_intent_id j, rr_intent_manifest_hash = cj_intent_manifest_hash j\<rparr> (re_response x))"
proof -
  let ?rq = "\<lparr>rr_commit_intent_id = cj_commit_intent_id j, rr_intent_manifest_hash = cj_intent_manifest_hash j\<rparr>"
  obtain r0 w0 where post: "tr_post_resolve_commit_intent tr (cj_vault_id j)
      (serialize_resolve_commit_intent_request ?rq) w = (r0, w0)" by fastforce
  note keep = resolve_keeps [OF u g post]
  show ?thesis
  proof (cases "\<exists>resp x. r0 = Inr resp \<and> hs_status_code resp = 200 \<and>
      parse_resolve_commit_intent_response (hs_payload resp) = Inr x")
    case False
    then have "w' = w0 \<and> isl r"
      using run post
      by (cases r0) (auto simp: execute_resolve_commit_intent_def Let_def ebind_def require_status_def echeck_def
          elift_def split: sum.splits)
    with keep show ?thesis by auto
  next
    case True
    then obtain resp x where x: "r0 = Inr resp" "hs_status_code resp = 200"
      "parse_resolve_commit_intent_response (hs_payload resp) = Inr x" by blast
    then have t: "truthful w (cj_vault_id j) ?rq x"
      using resolve_true [OF u g post [unfolded x(1)]] by (simp add: truthful_def)
    show ?thesis
    proof (cases "rv_status x = ''found'' \<and> rv_matched_revision x \<noteq> None")
      case False
      then have "w' = w0 \<and> (\<forall>y. r = Inr y \<longrightarrow> re_response y = x)"
        using run post x by (auto simp: execute_resolve_commit_intent_def Let_def ebind_def require_status_def
          echeck_def elift_def split: if_splits option.splits)
      with keep t show ?thesis by auto
    next
      case True
      then obtain n where n: "rv_matched_revision x = Some n" by auto
      obtain r1 w1 where m: "tr_get_manifest tr (cj_vault_id j) n w0 = (r1, w1)" by fastforce
      from keep have "good w0" by simp
      note keep1 = manifest_keeps [OF u this m]
      have "w' = w1 \<and> (\<forall>y. r = Inr y \<longrightarrow> re_response y = x)"
        using run post x True n m
        by (auto simp: execute_resolve_commit_intent_def Let_def ebind_def require_status_def
          echeck_def elift_def split: if_splits option.splits sum.splits)
      with keep keep1 t show ?thesis by auto
    qed
  qed
qed

text \<open>Recovery over such a service, from any coherent store with a submitted journal: it either raises and
  leaves the client as it was, to try again, or settles the commit as the service holds it.\<close>

lemma recovery_truthful:
  assumes u: "usable v" and g: "good w" and c: "commit_coherent s" "cl_power s = None" and st: "cl_vault_state s v = Some st"
    and j: "cl_commit_journal s v = Some j" "cj_status j = ''submitted''"
    and ts: "\<forall>t \<in> set ts. wf_tombstone t" "distinct (map tb_file_id ts)"
    and pos: "\<forall>h n. committed w v (cj_commit_intent_id j) = Some (h, n) \<longrightarrow> 0 < n"
    and run: "execute_submitted_recovery_via_resolve_intent sha nfc tr v ts at (w, s) = (res, w', s')"
  shows "good w' \<and> committed w' = committed w \<and> head w' = head w \<and> (case res of
      Inl e \<Rightarrow> s' = s
    | Inr (resolved, rec) \<Rightarrow> cl_commit_journal s' v = None \<and> cl_vault_state s' v = Some (sr_state rec) \<and>
        (case committed w v (cj_commit_intent_id j) of
           None \<Rightarrow> sr_state rec = st\<lparr>vs_commit_in_progress := False\<rparr> \<and> cl_ledger s' = cl_ledger s
         | Some (h, n) \<Rightarrow> h = cj_intent_manifest_hash j \<and>
             sr_state rec = matched_state st n (head w v)
               (map_option (compute_manifest_summary_hash sha nfc) (re_matched_manifest resolved)) \<and>
             cl_ledger s' = Some (map ledger_line (map (\<lambda>t. if covered_by_intent j t
               then t\<lparr>tb_deleted_revision := Some n\<rparr> else t) ts))))"
proof -
  have vj: "cj_vault_id j = v" using coherent_rows(2) [OF c(1) j(1)] by simp
  let ?rq = "\<lparr>rr_commit_intent_id = cj_commit_intent_id j, rr_intent_manifest_hash = cj_intent_manifest_hash j\<rparr>"
  obtain r w1 where rs: "execute_resolve_commit_intent tr j w = (r, w1)" by fastforce
  note ex = resolve_execution [OF u [folded vj] g rs]
  have run': "(case r of Inl e \<Rightarrow> (Inl e, w1, s) | Inr resolved \<Rightarrow>
      (case rv_observed_head_revision (re_response resolved) of
         None \<Rightarrow> eraise (ValueError
           ''resolve-intent response must include observed_head_revision for submitted recovery'')
       | Some observed \<Rightarrow>
         if rv_status (re_response resolved) = ''mismatched''
         then eraise (ValueError ''resolve-intent reported mismatched status for submitted recovery'')
         else if rv_status (re_response resolved) = ''not_found''
         then ebind (on_client (recover_submitted_commit_miss v at)) (\<lambda>st.
           eret (resolved, \<lparr>sr_state = st, sr_tombstones = ts, sr_requires_full_pull = False\<rparr>))
         else case rv_matched_revision (re_response resolved) of
             None \<Rightarrow> eraise (ValueError ''resolve-intent found status must include matched_revision'')
           | Some matched \<Rightarrow>
             ebind (on_client (recover_submitted_commit_flow sha nfc v ts matched observed at
               (re_matched_manifest resolved))) (\<lambda>recovery. eret (resolved, recovery))) (w1, s)) = (res, w', s')"
    using run rs j coherent_loads [OF c(1), of v]
    by (cases r) (simp_all add: execute_submitted_recovery_via_resolve_intent_def ebind_def on_client_def on_world_def
        echeck_def)
  show ?thesis
  proof (cases r)
    case (Inl e)
    with run' ex show ?thesis by auto
  next
    case (Inr resolved)
    from ex Inr have t: "truthful w v ?rq (re_response resolved)" by (simp add: vj)
    then have ob: "rv_observed_head_revision (re_response resolved) = Some (head w v)" by (simp add: truthful_def)
    show ?thesis
    proof (cases "committed w v (cj_commit_intent_id j)")
      case None
      with t have "rv_status (re_response resolved) = ''not_found''" by (simp add: truthful_def)
      with run' Inr ob miss_with_power [OF c st j] ex None coherent_rows(1) [OF c(1) st]
      show ?thesis by (auto simp: ebind_def on_client_def table_defs)
    next
      case (Some hn)
      obtain h n where hn: "hn = (h, n)" by (cases hn)
      show ?thesis
      proof (cases "h = cj_intent_manifest_hash j")
        case False
        with t Some hn have "rv_status (re_response resolved) = ''mismatched''" by (simp add: truthful_def)
        with run' Inr ob ex show ?thesis by auto
      next
        case True
        with t Some hn have f: "rv_status (re_response resolved) = ''found''"
          "rv_matched_revision (re_response resolved) = Some n" by (simp_all add: truthful_def)
        from pos Some hn have "0 < n" by auto
        from flow_with_power [OF c st j ts this, of sha nfc "head w v" at "re_matched_manifest resolved"]
        obtain rec s1 where fl: "recover_submitted_commit_flow sha nfc v ts n (head w v) at
            (re_matched_manifest resolved) s = (Inr rec, s1)" "cl_commit_journal s1 v = None"
          "cl_vault_state s1 v = Some (sr_state rec)"
          "sr_state rec = matched_state st n (head w v)
             (map_option (compute_manifest_summary_hash sha nfc) (re_matched_manifest resolved))"
          "cl_ledger s1 = Some (map ledger_line (map (\<lambda>t. if covered_by_intent j t
             then t\<lparr>tb_deleted_revision := Some n\<rparr> else t) ts))" by blast
        from run' Inr ob f fl(1) have "res = Inr (resolved, rec)" "w' = w1" "s' = s1"
          by (simp_all add: ebind_def on_client_def)
        with fl(2-5) ex Some hn True show ?thesis by simp
      qed
    qed
  qed
qed

end

end
