(* ===== verification/Sync_Http.thy ===== *)
theory Sync_Http
  imports Sync_Client
begin

text \<open>
  \<open>vault_core/sync_http.py\<close>: the transport over HTTP and the peers that move the bytes of blobs
  with capability URLs. The opener, which the code takes as an argument, is a parameter here too; the
  time limit it is given belongs to it. Bodies are kept as values: JSON text as the value it is the
  text of, other bytes as they are.
\<close>

section \<open>Requests and responses\<close>

datatype net_body = NoContent | JsonContent json | Octets string

record net_request =
  ur_url :: string
  ur_data :: net_body
  ur_headers :: "(string \<times> string) list"
  ur_method :: string

record net_response =
  nr_status :: int
  nr_body :: net_body

type_synonym 'w opener = "net_request \<Rightarrow> ('w, net_response) net"

definition strip_slash_left :: "string \<Rightarrow> string" where
  "strip_slash_left s = dropWhile (\<lambda>c. c = CHR ''/'') s"

definition strip_slash_right :: "string \<Rightarrow> string" where
  "strip_slash_right s = rev (strip_slash_left (rev s))"

definition join_url :: "string \<Rightarrow> string \<Rightarrow> string" where
  "join_url base_url path = strip_slash_right base_url @ ''/'' @ strip_slash_left path"

definition read_json_response :: "'w opener \<Rightarrow> net_request \<Rightarrow> ('w, http_response) net" where
  "read_json_response opener request =
     ebind (opener request) (\<lambda>r.
     ebind (case nr_body r of
         NoContent \<Rightarrow> eret []
       | JsonContent (JObj d) \<Rightarrow> eret d
       | JsonContent _ \<Rightarrow> eraise (ValueError ''HTTP JSON response body must be an object'')
       | Octets b \<Rightarrow> if b = [] then eret [] else eraise (ValueError ''Expecting value'')) (\<lambda>d.
     eret \<lparr>hs_status_code = nr_status r, hs_payload = d\<rparr>))"

definition merge_headers :: "(string \<times> string) list \<Rightarrow> (string \<times> string) list option \<Rightarrow> (string \<times> string) list" where
  "merge_headers base extra = (case extra of
     None \<Rightarrow> base | Some kvs \<Rightarrow> fold (\<lambda>(k, v) hs. AList.update k v hs) kvs base)"

section \<open>The transport\<close>

record 'w json_http_transport =
  jh_base_url :: string
  jh_bearer_token :: "string option"
  jh_user_agent :: string
  jh_opener :: "'w opener"

definition USER_AGENT :: string where
  "USER_AGENT = ''vault-core-sync-http/0.1''"

text \<open>The constructor checks the base URL.\<close>

definition new_json_http_transport :: "string \<Rightarrow> string option \<Rightarrow> 'w opener \<Rightarrow> 'w json_http_transport result" where
  "new_json_http_transport base_url bearer_token opener = validate
     [(base_url \<noteq> [], ''base_url must be non-empty'')]
     \<lparr>jh_base_url = base_url, jh_bearer_token = bearer_token, jh_user_agent = USER_AGENT, jh_opener = opener\<rparr>"

definition base_headers :: "'w json_http_transport \<Rightarrow> (string \<times> string) list" where
  "base_headers jh = [(''Accept'', ''application/json''), (''User-Agent'', jh_user_agent jh)] @
     (case jh_bearer_token jh of
        Some t \<Rightarrow> if t = [] then [] else [(''Authorization'', ''Bearer '' @ t)] | None \<Rightarrow> [])"

definition json_request ::
  "'w json_http_transport \<Rightarrow> string \<Rightarrow> string \<Rightarrow> dict option \<Rightarrow> ('w, http_response) net" where
  "json_request jh verb path payload = read_json_response (jh_opener jh)
     \<lparr>ur_url = join_url (jh_base_url jh) path,
      ur_data = (case payload of None \<Rightarrow> NoContent | Some d \<Rightarrow> JsonContent (JObj d)),
      ur_headers = base_headers jh @
        (case payload of None \<Rightarrow> [] | Some _ \<Rightarrow> [(''Content-Type'', ''application/json'')]),
      ur_method = verb\<rparr>"

definition vault_path :: "string \<Rightarrow> string \<Rightarrow> string" where
  "vault_path vault_id rest = ''/vaults/'' @ vault_id @ rest"

definition http_transport :: "'w json_http_transport \<Rightarrow> 'w transport" where
  "http_transport jh =
     \<lparr>tr_post_blob_check = (\<lambda>v d. json_request jh ''POST'' (vault_path v ''/blobs/check'') (Some d)),
      tr_post_blob_upload_init = (\<lambda>v d. json_request jh ''POST'' (vault_path v ''/blobs/upload-init'') (Some d)),
      tr_post_resumable_blob_upload_init =
        (\<lambda>v d. json_request jh ''POST'' (vault_path v ''/blobs/resumable-upload-init'') (Some d)),
      tr_post_resumable_blob_upload_complete =
        (\<lambda>v d. json_request jh ''POST'' (vault_path v ''/blobs/resumable-upload-complete'') (Some d)),
      tr_post_blob_download_init = (\<lambda>v d. json_request jh ''POST'' (vault_path v ''/blobs/download-init'') (Some d)),
      tr_post_resumable_blob_download_init =
        (\<lambda>v d. json_request jh ''POST'' (vault_path v ''/blobs/resumable-download-init'') (Some d)),
      tr_post_create_commit = (\<lambda>v d. json_request jh ''POST'' (vault_path v ''/commits'') (Some d)),
      tr_post_resolve_commit_intent =
        (\<lambda>v d. json_request jh ''POST'' (vault_path v ''/commits/resolve-intent'') (Some d)),
      tr_get_manifest = (\<lambda>v n. json_request jh ''GET'' (vault_path v (''/manifests/'' @ int_str n)) None),
      tr_post_file_versions_list = (\<lambda>v d. json_request jh ''POST'' (vault_path v ''/file-versions/list'') (Some d)),
      tr_patch_file_version =
        (\<lambda>v i d. json_request jh ''PATCH'' (vault_path v (''/file-versions/'' @ i)) (Some d)),
      tr_get_vault_head = (\<lambda>v. json_request jh ''GET'' (vault_path v ''/head'') None),
      tr_get_vault_devices = (\<lambda>v. json_request jh ''GET'' (vault_path v ''/devices'') None),
      tr_post_vault_device_heartbeat = (\<lambda>v. json_request jh ''POST'' (vault_path v ''/devices/heartbeat'') None),
      tr_post_tombstone_gc = (\<lambda>v d. json_request jh ''POST'' (vault_path v ''/tombstones/gc'') (Some d)),
      tr_delete_device = (\<lambda>d. json_request jh ''DELETE'' (''/devices/'' @ d) None),
      tr_post_ack = (\<lambda>v d. json_request jh ''POST'' (vault_path v ''/ack'') (Some d))\<rparr>"

section \<open>Moving the bytes of blobs\<close>

definition require_success :: "net_response \<Rightarrow> string \<Rightarrow> ('w, unit) net" where
  "require_success r label = echeck
     [(\<not> (nr_status r < 200 \<or> nr_status r \<ge> 300), label @ '' returned unexpected status: '' @ int_str (nr_status r))]"

definition response_bytes :: "net_response \<Rightarrow> string" where
  "response_bytes r = (case nr_body r of NoContent \<Rightarrow> [] | JsonContent v \<Rightarrow> json_dumps v | Octets b \<Rightarrow> b)"

text \<open>The staged files are read by path.\<close>

definition capability_blob_uploader :: "(string \<Rightarrow> string option) \<Rightarrow> 'w opener \<Rightarrow> 'w blob_uploader" where
  "capability_blob_uploader files opener up cap = (case files (ue_blob_staging_path up) of
     None \<Rightarrow> eraise (OSError (ue_blob_staging_path up))
   | Some payload \<Rightarrow>
       ebind (opener \<lparr>ur_url = uc_upload_url cap, ur_data = Octets payload,
         ur_headers = merge_headers [(''Content-Length'', int_str (int (length payload))), (''User-Agent'', USER_AGENT)]
           (uc_headers cap),
         ur_method = uc_method cap\<rparr>) (\<lambda>r. require_success r ''blob upload''))"

definition file_slice :: "string \<Rightarrow> int \<Rightarrow> int \<Rightarrow> string" where
  "file_slice bytes offset sz = take (nat sz) (drop (nat offset) bytes)"

fun upload_chunks ::
  "'w opener \<Rightarrow> string \<Rightarrow> resumable_upload_capability_response \<Rightarrow> chunk_state list \<Rightarrow> string list
     \<Rightarrow> ('w, string list) net" where
  "upload_chunks opener bytes cap [] ids = eret ids"
| "upload_chunks opener bytes cap (c # cs) ids =
     (let payload = file_slice bytes (cs_offset c) (cs_size c) in
      ebind (echeck [(int (length payload) = cs_size c, ''blob staging file is shorter than resumable upload chunk'')]) (\<lambda>_.
      ebind (opener \<lparr>ur_url = rc_upload_url cap, ur_data = Octets payload,
        ur_headers = merge_headers
          [(''Content-Length'', int_str (int (length payload))), (''User-Agent'', USER_AGENT),
           (''X-Noteapp-Chunk-Id'', cs_chunk_id c), (''X-Noteapp-Chunk-Offset'', int_str (cs_offset c)),
           (''X-Noteapp-Chunk-Size'', int_str (cs_size c))] (rc_headers cap),
        ur_method = rc_method cap\<rparr>) (\<lambda>r.
      ebind (require_success r ''resumable blob chunk upload'') (\<lambda>_.
      upload_chunks opener bytes cap cs (if cs_chunk_id c \<in> set ids then ids else ids @ [cs_chunk_id c])))))"

definition resumable_capability_blob_uploader ::
  "(string \<Rightarrow> string option) \<Rightarrow> 'w opener \<Rightarrow> 'w resumable_uploader" where
  "resumable_capability_blob_uploader files opener up cap = (case files (ue_blob_staging_path up) of
     None \<Rightarrow> eraise (OSError (ue_blob_staging_path up))
   | Some bytes \<Rightarrow> upload_chunks opener bytes cap (rc_missing_chunks cap) (map cs_chunk_id (rc_uploaded_chunks cap)))"

definition capability_blob_downloader :: "'w opener \<Rightarrow> 'w blob_downloader" where
  "capability_blob_downloader opener cap =
     ebind (opener \<lparr>ur_url = dc_download_url cap, ur_data = NoContent,
       ur_headers = merge_headers [(''User-Agent'', USER_AGENT)] (dc_headers cap), ur_method = ''GET''\<rparr>) (\<lambda>r.
     ebind (require_success r ''blob download'') (\<lambda>_.
     ebind (echeck [(int (length (response_bytes r)) = dc_encrypted_size cap,
       ''blob download size does not match download capability'')]) (\<lambda>_.
     eret (response_bytes r))))"

definition resumable_capability_blob_downloader :: "'w opener \<Rightarrow> 'w resumable_downloader" where
  "resumable_capability_blob_downloader opener cap = each_of (\<lambda>g.
     ebind (opener \<lparr>ur_url = rd_download_url cap, ur_data = NoContent,
       ur_headers = merge_headers
         [(''User-Agent'', USER_AGENT), (''X-Noteapp-Range-Offset'', int_str (rg_offset g)),
          (''X-Noteapp-Range-Size'', int_str (rg_size g))] (rd_headers cap), ur_method = ''GET''\<rparr>) (\<lambda>r.
     ebind (require_success r ''resumable blob range download'') (\<lambda>_.
     ebind (echeck [(int (length (response_bytes r)) = rg_size g,
       ''blob range download size does not match requested range'')]) (\<lambda>_.
     eret \<lparr>dn_blob_id = rd_blob_id cap, dn_offset = rg_offset g, dn_payload = response_bytes r\<rparr>)))) (rd_ranges cap)"

end
