(* ===== verification/Sync_System.thy ===== *)
theory Sync_System
  imports Sync_Http Server_Http
begin

text \<open>
  Client and server together: the transport of \<open>vault_core/sync_http.py\<close> with its default opener
  \<open>_default_urlopen\<close>, over a network whose other end is the HTTP application of
  \<open>noteapp-server/main.py\<close>. The network decides the fate of every request: it never arrives, it is
  served and answered, or it is served and the answer is lost.
\<close>

section \<open>The network\<close>

datatype fate = NotSent | Answered server_env | ReplyLost server_env

record net_world =
  nw_server :: server
  nw_disk :: disk
  nw_fates :: "fate list"

text \<open>The path of a URL, without query and fragment.\<close>

definition url_path :: "string \<Rightarrow> string" where
  "url_path url = takeWhile (\<lambda>c. c \<noteq> CHR ''?'' \<and> c \<noteq> CHR ''#'')
     (dropWhile (\<lambda>c. c \<noteq> CHR ''/'') (drop 2 (dropWhile (\<lambda>c. c \<noteq> CHR ''/'') url)))"

definition hex_value :: "char \<Rightarrow> nat option" where
  "hex_value c = (let n = (of_char c :: nat) in
     if 48 \<le> n \<and> n \<le> 57 then Some (n - 48) else if 65 \<le> n \<and> n \<le> 70 then Some (n - 55)
     else if 97 \<le> n \<and> n \<le> 102 then Some (n - 87) else None)"

text \<open>The server decodes the percent escapes of the path before it routes it.\<close>

fun unquote :: "string \<Rightarrow> string" where
  "unquote [] = []"
| "unquote (c # cs) = (if c = CHR ''%'' then (case cs of
       a # b # r \<Rightarrow> (case (hex_value a, hex_value b) of
           (Some x, Some y) \<Rightarrow> char_of (16 * x + y) # unquote r | _ \<Rightarrow> c # unquote cs)
     | _ \<Rightarrow> c # unquote cs)
     else c # unquote cs)"

definition wire_request :: "net_request \<Rightarrow> http_request" where
  "wire_request rq =
     \<lparr>hq_method = ur_method rq, hq_path = unquote (url_path (ur_url rq)),
      hq_authorization = map_of (ur_headers rq) ''Authorization'',
      hq_headers = map (\<lambda>(k, v). (map lower_ascii k, v)) (ur_headers rq),
      hq_body = (case ur_data rq of NoContent \<Rightarrow> NoBody | JsonContent v \<Rightarrow> JsonBody v | Octets b \<Rightarrow> BytesBody b)\<rparr>"

definition wire_response :: "http_reply \<Rightarrow> net_response" where
  "wire_response r =
     \<lparr>nr_status = hp_status r,
      nr_body = (case hp_body r of EmptyReply \<Rightarrow> NoContent | JsonReply d \<Rightarrow> JsonContent (JObj d)
        | BytesReply b \<Rightarrow> Octets b)\<rparr>"

definition arrive :: "server_env \<Rightarrow> net_request \<Rightarrow> net_world \<Rightarrow> http_reply \<times> net_world" where
  "arrive env rq w = (case serve env (wire_request rq) (nw_server w, nw_disk w) of
     (r, sv, dk) \<Rightarrow> (r, w\<lparr>nw_server := sv, nw_disk := dk\<rparr>))"

text \<open>\<open>urlopen\<close> raises \<open>HTTPError\<close>, an \<open>OSError\<close>, for every status outside 200 to 299, refuses a URL with
  characters it cannot send, and raises an \<open>OSError\<close> when the connection fails or times out.\<close>

definition default_urlopen :: "net_world opener" where
  "default_urlopen rq w =
     (if list_ex (\<lambda>c. (of_char c :: nat) \<le> 32 \<or> (of_char c :: nat) \<ge> 127) (ur_url rq)
      then (Inl (ValueError ''URL contains characters that cannot be sent''), w)
      else case nw_fates w of
        [] \<Rightarrow> (Inl (OSError ''urlopen error''), w)
      | NotSent # fs \<Rightarrow> (Inl (OSError ''urlopen error''), w\<lparr>nw_fates := fs\<rparr>)
      | ReplyLost env # fs \<Rightarrow> (Inl (OSError ''timed out''), snd (arrive env rq (w\<lparr>nw_fates := fs\<rparr>)))
      | Answered env # fs \<Rightarrow> (case arrive env rq (w\<lparr>nw_fates := fs\<rparr>) of (r, w') \<Rightarrow>
          if 200 \<le> hp_status r \<and> hp_status r < 300 then (Inr (wire_response r), w')
          else (Inl (OSError (''HTTP Error '' @ int_str (hp_status r))), w')))"

section \<open>Paths\<close>

definition plain_char :: "char \<Rightarrow> bool" where
  "plain_char c \<longleftrightarrow> c \<noteq> CHR ''/'' \<and> c \<noteq> CHR ''?'' \<and> c \<noteq> CHR ''#'' \<and> c \<noteq> CHR ''%''"

definition plain_segment :: "string \<Rightarrow> bool" where
  "plain_segment s \<longleftrightarrow> s \<noteq> [] \<and> list_all plain_char s"

definition server_origin :: "string \<Rightarrow> bool" where
  "server_origin s \<longleftrightarrow> (let og = strip_slash_right s; r = dropWhile (\<lambda>c. c \<noteq> CHR ''/'') og in
     take 2 r = ''//'' \<and> drop 2 r \<noteq> [] \<and> CHR ''/'' \<notin> set (drop 2 r))"

lemma unquote_plain: "CHR ''%'' \<notin> set s \<Longrightarrow> unquote s = s"
  by (induction s rule: unquote.induct) auto

lemma url_path_join:
  assumes "server_origin b" "p \<noteq> []" "hd p = CHR ''/''" "tl p = [] \<or> hd (tl p) \<noteq> CHR ''/''"
    "CHR ''?'' \<notin> set p" "CHR ''#'' \<notin> set p"
  shows "url_path (join_url b p) = p"
proof -
  define og where "og = strip_slash_right b"
  define r where "r = dropWhile (\<lambda>c. c \<noteq> CHR ''/'') og"
  have r: "take 2 r = ''//''" "drop 2 r \<noteq> []" "CHR ''/'' \<notin> set (drop 2 r)"
    using assms(1) by (simp_all add: server_origin_def og_def r_def Let_def)
  obtain q where p: "p = CHR ''/'' # q" using assms(2,3) by (cases p) auto
  have "strip_slash_left p = q" using assms(4) by (cases q) (auto simp: p strip_slash_left_def)
  then have j: "join_url b p = og @ p" by (simp add: join_url_def og_def p)
  have rr: "r = ''//'' @ drop 2 r" using r(1) append_take_drop_id [of 2 r] by simp
  have "dropWhile (\<lambda>c. c \<noteq> CHR ''/'') (og @ p) = r @ p"
    using rr unfolding r_def by (metis (mono_tags, lifting) append_is_Nil_conv dropWhile_append1 dropWhile_eq_Nil_conv list.distinct(1))
  then have "drop 2 (dropWhile (\<lambda>c. c \<noteq> CHR ''/'') (og @ p)) = drop 2 r @ p"
    using rr by (metis append_Cons append_Nil drop_Suc_Cons numeral_2_eq_2 drop0)
  moreover have "dropWhile (\<lambda>c. c \<noteq> CHR ''/'') (drop 2 r @ p) = p"
    using r(3) by (subst dropWhile_append2) (auto simp: p)
  ultimately show ?thesis
    using assms(5,6) by (simp add: url_path_def j) (auto intro!: takeWhile_eq_all_conv [THEN iffD2])
qed

lemma path_segments_Cons:
  "path_segments (c # s) = (if c = CHR ''/'' then [] # path_segments s
     else (c # hd (path_segments s)) # tl (path_segments s))"
  by (simp add: path_segments_def)

lemma path_segments_plain: "CHR ''/'' \<notin> set s \<Longrightarrow> path_segments s = [s]"
  by (induction s) (auto simp: path_segments_Cons path_segments_def [of "[]"])

lemma path_segments_slash: "CHR ''/'' \<notin> set s \<Longrightarrow> path_segments (s @ CHR ''/'' # t) = s # path_segments t"
  by (induction s) (auto simp: path_segments_Cons)

lemma plain_segmentD:
  assumes "plain_segment s"
  shows "s \<noteq> []" "CHR ''/'' \<notin> set s" "CHR ''?'' \<notin> set s" "CHR ''#'' \<notin> set s" "CHR ''%'' \<notin> set s"
  using assms by (auto simp: plain_segment_def plain_char_def list_all_iff)

lemma vault_url_path:
  assumes "server_origin b" "plain_segment v" "CHR ''?'' \<notin> set rest" "CHR ''#'' \<notin> set rest" "CHR ''%'' \<notin> set rest"
  shows "unquote (url_path (join_url b (vault_path v rest))) = ''/vaults/'' @ v @ rest"
proof -
  have "url_path (join_url b (vault_path v rest)) = ''/vaults/'' @ v @ rest"
    using plain_segmentD [OF assms(2)] assms(3,4)
    by (subst url_path_join [OF assms(1)]) (auto simp: vault_path_def)
  then show ?thesis using plain_segmentD [OF assms(2)] assms(5) by (simp add: unquote_plain)
qed

lemma vault_route_at:
  assumes v: "plain_segment v"
  shows "route_of verb (''/vaults/'' @ v @ CHR ''/'' # rest) = vault_route verb v (path_segments rest)"
proof -
  have p: "path_segments (''/vaults/'' @ v @ CHR ''/'' # rest) = [] # ''vaults'' # v # path_segments rest"
    using plain_segmentD [OF v] by (simp add: path_segments_Cons path_segments_slash)
  show ?thesis
    unfolding route_of_def p using plain_segmentD(1) [OF v] by simp
qed

text \<open>Where the requests of the transport arrive, for identifiers that are plain path segments.\<close>

lemma vault_routes:
  assumes v: "plain_segment v"
  shows "route_of ''GET'' (''/vaults/'' @ v @ ''/devices'') = Some (ListDevices v)"
    "route_of ''POST'' (''/vaults/'' @ v @ ''/devices/heartbeat'') = Some (Heartbeat v)"
    "route_of ''POST'' (''/vaults/'' @ v @ ''/tombstones/gc'') = Some (CollectTombstones v)"
    "route_of ''GET'' (''/vaults/'' @ v @ ''/head'') = Some (VaultHead v)"
    "route_of ''POST'' (''/vaults/'' @ v @ ''/commits'') = Some (CreateCommit v)"
    "route_of ''POST'' (''/vaults/'' @ v @ ''/commits/resolve-intent'') = Some (ResolveIntent v)"
    "route_of ''POST'' (''/vaults/'' @ v @ ''/ack'') = Some (Ack v)"
    "route_of ''POST'' (''/vaults/'' @ v @ ''/file-versions/list'') = Some (ListVersions v)"
    "route_of ''POST'' (''/vaults/'' @ v @ ''/blobs/check'') = Some (CheckBlobs v)"
    "route_of ''POST'' (''/vaults/'' @ v @ ''/blobs/upload-init'') = Some (UploadInit v)"
    "route_of ''POST'' (''/vaults/'' @ v @ ''/blobs/resumable-upload-init'') = Some (ResumableUploadInit v)"
    "route_of ''POST'' (''/vaults/'' @ v @ ''/blobs/resumable-upload-complete'') = Some (ResumableUploadComplete v)"
    "route_of ''POST'' (''/vaults/'' @ v @ ''/blobs/download-init'') = Some (DownloadInit v)"
    "route_of ''POST'' (''/vaults/'' @ v @ ''/blobs/resumable-download-init'') = Some (ResumableDownloadInit v)"
    "plain_segment n \<Longrightarrow> route_of ''GET'' (''/vaults/'' @ v @ ''/manifests/'' @ n) = Some (ManifestAt v n)"
    "plain_segment n \<Longrightarrow> route_of ''PATCH'' (''/vaults/'' @ v @ ''/file-versions/'' @ n) = Some (UpdateVersion v n)"
proof -
  show "route_of ''GET'' (''/vaults/'' @ v @ ''/devices'') = Some (ListDevices v)"
    by (rule trans [OF vault_route_at [OF v, where rest = "''devices''"]]) code_simp
  show "route_of ''POST'' (''/vaults/'' @ v @ ''/devices/heartbeat'') = Some (Heartbeat v)"
    by (rule trans [OF vault_route_at [OF v, where rest = "''devices/heartbeat''"]]) code_simp
  show "route_of ''POST'' (''/vaults/'' @ v @ ''/tombstones/gc'') = Some (CollectTombstones v)"
    by (rule trans [OF vault_route_at [OF v, where rest = "''tombstones/gc''"]]) code_simp
  show "route_of ''GET'' (''/vaults/'' @ v @ ''/head'') = Some (VaultHead v)"
    by (rule trans [OF vault_route_at [OF v, where rest = "''head''"]]) code_simp
  show "route_of ''POST'' (''/vaults/'' @ v @ ''/commits'') = Some (CreateCommit v)"
    by (rule trans [OF vault_route_at [OF v, where rest = "''commits''"]]) code_simp
  show "route_of ''POST'' (''/vaults/'' @ v @ ''/commits/resolve-intent'') = Some (ResolveIntent v)"
    by (rule trans [OF vault_route_at [OF v, where rest = "''commits/resolve-intent''"]]) code_simp
  show "route_of ''POST'' (''/vaults/'' @ v @ ''/ack'') = Some (Ack v)"
    by (rule trans [OF vault_route_at [OF v, where rest = "''ack''"]]) code_simp
  show "route_of ''POST'' (''/vaults/'' @ v @ ''/file-versions/list'') = Some (ListVersions v)"
    by (rule trans [OF vault_route_at [OF v, where rest = "''file-versions/list''"]]) code_simp
  show "route_of ''POST'' (''/vaults/'' @ v @ ''/blobs/check'') = Some (CheckBlobs v)"
    by (rule trans [OF vault_route_at [OF v, where rest = "''blobs/check''"]]) code_simp
  show "route_of ''POST'' (''/vaults/'' @ v @ ''/blobs/upload-init'') = Some (UploadInit v)"
    by (rule trans [OF vault_route_at [OF v, where rest = "''blobs/upload-init''"]]) code_simp
  show "route_of ''POST'' (''/vaults/'' @ v @ ''/blobs/resumable-upload-init'') = Some (ResumableUploadInit v)"
    by (rule trans [OF vault_route_at [OF v, where rest = "''blobs/resumable-upload-init''"]]) code_simp
  show "route_of ''POST'' (''/vaults/'' @ v @ ''/blobs/resumable-upload-complete'') = Some (ResumableUploadComplete v)"
    by (rule trans [OF vault_route_at [OF v, where rest = "''blobs/resumable-upload-complete''"]]) code_simp
  show "route_of ''POST'' (''/vaults/'' @ v @ ''/blobs/download-init'') = Some (DownloadInit v)"
    by (rule trans [OF vault_route_at [OF v, where rest = "''blobs/download-init''"]]) code_simp
  show "route_of ''POST'' (''/vaults/'' @ v @ ''/blobs/resumable-download-init'') = Some (ResumableDownloadInit v)"
    by (rule trans [OF vault_route_at [OF v, where rest = "''blobs/resumable-download-init''"]]) code_simp
  have two: "path_segments (''manifests/'' @ n) = [''manifests'', n]" "path_segments (''file-versions/'' @ n) = [''file-versions'', n]"
    if "plain_segment n" for n
    using plain_segmentD [OF that] by (simp_all add: path_segments_Cons path_segments_plain)
  show "route_of ''GET'' (''/vaults/'' @ v @ ''/manifests/'' @ n) = Some (ManifestAt v n)" if "plain_segment n"
    using vault_route_at [OF v, where rest = "''manifests/'' @ n"] two [OF that] plain_segmentD(1) [OF that]
    by (simp add: vault_route_def)
  show "route_of ''PATCH'' (''/vaults/'' @ v @ ''/file-versions/'' @ n) = Some (UpdateVersion v n)" if "plain_segment n"
    using vault_route_at [OF v, where rest = "''file-versions/'' @ n"] two [OF that] plain_segmentD(1) [OF that]
    by (simp add: vault_route_def)
qed

section \<open>A request through the network\<close>

definition json_wire :: "'w json_http_transport \<Rightarrow> string \<Rightarrow> string \<Rightarrow> dict option \<Rightarrow> http_request" where
  "json_wire jh verb path payload = wire_request
     \<lparr>ur_url = join_url (jh_base_url jh) path,
      ur_data = (case payload of None \<Rightarrow> NoContent | Some d \<Rightarrow> JsonContent (JObj d)),
      ur_headers = base_headers jh @
        (case payload of None \<Rightarrow> [] | Some _ \<Rightarrow> [(''Content-Type'', ''application/json'')]),
      ur_method = verb\<rparr>"

definition fate_envs :: "net_world \<Rightarrow> server_env set" where
  "fate_envs w = {env. Answered env \<in> set (nw_fates w) \<or> ReplyLost env \<in> set (nw_fates w)}"

lemma json_request_cases:
  assumes "jh_opener jh = default_urlopen" and run: "json_request jh verb path payload w = (res, w')"
  obtains (idle) e where "res = Inl e" "nw_server w' = nw_server w" "nw_disk w' = nw_disk w" "fate_envs w' \<subseteq> fate_envs w"
  | (served) env reply where "env \<in> fate_envs w" "fate_envs w' \<subseteq> fate_envs w"
      "serve env (json_wire jh verb path payload) (nw_server w, nw_disk w) = (reply, nw_server w', nw_disk w')"
      "\<And>r. res = Inr r \<Longrightarrow> hs_status_code r = hp_status reply \<and> 200 \<le> hp_status reply \<and> hp_status reply < 300 \<and>
         (\<forall>d. hp_body reply = JsonReply d \<longrightarrow> hs_payload r = d)"
proof -
  let ?rq = "\<lparr>ur_url = join_url (jh_base_url jh) path,
      ur_data = (case payload of None \<Rightarrow> NoContent | Some d \<Rightarrow> JsonContent (JObj d)),
      ur_headers = base_headers jh @
        (case payload of None \<Rightarrow> [] | Some _ \<Rightarrow> [(''Content-Type'', ''application/json'')]),
      ur_method = verb\<rparr>"
  obtain res0 w0 where op: "default_urlopen ?rq w = (res0, w0)" by fastforce
  have w': "w' = w0" and res: "\<And>r. res = Inr r \<Longrightarrow> \<exists>nr. res0 = Inr nr \<and> hs_status_code r = nr_status nr \<and>
      (\<forall>d. nr_body nr = JsonContent (JObj d) \<longrightarrow> hs_payload r = d)" and "isl res0 \<Longrightarrow> isl res"
    using run op assms(1)
    by (cases res0; auto simp: json_request_def read_json_response_def ebind_def eret_def eraise_def
        split: net_body.splits json.splits if_splits)+
  have env: "fate_envs (w\<lparr>nw_fates := fs\<rparr>) \<subseteq> fate_envs w" "env \<in> fate_envs w"
    if "nw_fates w = f # fs" "f = Answered env \<or> f = ReplyLost env" for f fs env
    using that by (auto simp: fate_envs_def)
  show ?thesis
  proof (cases "\<exists>env fs r. (nw_fates w = Answered env # fs \<or> nw_fates w = ReplyLost env # fs) \<and>
      arrive env ?rq (w\<lparr>nw_fates := fs\<rparr>) = (r, w0) \<and>
      (\<forall>nr. res0 = Inr nr \<longrightarrow> nr = wire_response r \<and> 200 \<le> hp_status r \<and> hp_status r < 300)")
    case True
    then obtain env fs r where t: "nw_fates w = Answered env # fs \<or> nw_fates w = ReplyLost env # fs"
      "arrive env ?rq (w\<lparr>nw_fates := fs\<rparr>) = (r, w0)"
      "\<And>nr. res0 = Inr nr \<Longrightarrow> nr = wire_response r \<and> 200 \<le> hp_status r \<and> hp_status r < 300" by blast
    show ?thesis
    proof (rule served [of env r])
      show "env \<in> fate_envs w" using t(1) by (auto simp: fate_envs_def)
      show "fate_envs w' \<subseteq> fate_envs w"
        using t(1,2) by (auto simp: w' fate_envs_def arrive_def split: prod.splits)
      show "serve env (json_wire jh verb path payload) (nw_server w, nw_disk w) = (r, nw_server w', nw_disk w')"
        using t(2) by (auto simp: w' arrive_def json_wire_def split: prod.splits)
      show "hs_status_code x = hp_status r \<and> 200 \<le> hp_status r \<and> hp_status r < 300 \<and>
         (\<forall>d. hp_body r = JsonReply d \<longrightarrow> hs_payload x = d)" if "res = Inr x" for x
        using res [OF that] t(3) by (auto simp: wire_response_def)
    qed
  next
    case False
    have "isl res0 \<and> nw_server w0 = nw_server w \<and> nw_disk w0 = nw_disk w \<and> fate_envs w0 \<subseteq> fate_envs w"
    proof (cases "list_ex (\<lambda>c. (of_char c :: nat) \<le> 32 \<or> (of_char c :: nat) \<ge> 127) (ur_url ?rq)")
      case True
      with op show ?thesis by (auto simp: default_urlopen_def)
    next
      case nf: False
      show ?thesis
      proof (cases "nw_fates w")
        case Nil
        with op nf show ?thesis by (auto simp: default_urlopen_def)
      next
        case (Cons f fs)
        with op nf False show ?thesis
          by (cases f; cases "arrive (case f of Answered env \<Rightarrow> env | ReplyLost env \<Rightarrow> env | NotSent \<Rightarrow> undefined) ?rq
              (w\<lparr>nw_fates := fs\<rparr>)") (auto simp: default_urlopen_def fate_envs_def split: prod.splits if_splits)
      qed
    qed
    then show ?thesis using idle \<open>isl res0 \<Longrightarrow> isl res\<close> w' by (cases res) auto
  qed
qed

section \<open>The server as the client's commit service\<close>

definition server_commits :: "net_world \<Rightarrow> string \<Rightarrow> string \<Rightarrow> (string \<times> int) option" where
  "server_commits w v i = map_option (\<lambda>c. (cr_intent_manifest_hash c, cr_revision c))
     (vt_commits (vault_of (nw_server w) v) i)"

definition server_head :: "net_world \<Rightarrow> string \<Rightarrow> int" where
  "server_head w v = vt_head_revision (vault_of (nw_server w) v)"

definition same_vaults :: "net_world \<Rightarrow> net_world \<Rightarrow> bool" where
  "same_vaults w w' \<longleftrightarrow> sv_vaults (nw_server w') = sv_vaults (nw_server w)"

lemma same_vaultsD:
  assumes "same_vaults w w'"
  shows "server_ok (nw_server w') = server_ok (nw_server w)" "server_commits w' = server_commits w"
    "server_head w' = server_head w"
  using assms by (auto simp: same_vaults_def server_ok_def vault_of_def server_commits_def server_head_def fun_eq_iff)

lemma touch_vaults [simp]: "sv_vaults (touch_device d now sv) = sv_vaults sv"
  by (auto simp: touch_device_def split: option.splits)

lemma with_auth_vaults:
  assumes "\<And>dev sv1. sv_vaults sv1 = sv_vaults sv \<Longrightarrow> sv_vaults (fst (snd (k dev (sv1, dk)))) = sv_vaults sv"
  shows "sv_vaults (fst (snd (with_auth env rq k (sv, dk)))) = sv_vaults sv"
  using assms by (auto simp: with_auth_def required_auth_context_def split: sum.splits option.splits)

lemma reading_routes_vaults:
  "sv_vaults (fst (snd (serve_route env rq (ResolveIntent v) (sv, dk)))) = sv_vaults sv"
  "sv_vaults (fst (snd (serve_route env rq (ManifestAt v n) (sv, dk)))) = sv_vaults sv"
  by (auto simp: authorized_body_def with_body_def answer_read_def get_manifest_route_def
      split: http_body.splits json.splits option.splits sum.splits intro!: with_auth_vaults)

lemma json_wire_fields [simp]:
  "hq_method (json_wire jh verb path payload) = verb"
  "hq_path (json_wire jh verb path payload) = unquote (url_path (join_url (jh_base_url jh) path))"
  "hq_body (json_wire jh verb path payload) = (case payload of None \<Rightarrow> NoBody | Some d \<Rightarrow> JsonBody (JObj d))"
  by (simp_all add: json_wire_def wire_request_def split: option.split)

definition to_server :: "net_world json_http_transport \<Rightarrow> bool" where
  "to_server jh \<longleftrightarrow> server_origin (jh_base_url jh) \<and> jh_opener jh = default_urlopen"

text \<open>A request of the transport for a vault either leaves the server alone or is served by the vault's route.\<close>

lemma vault_request_cases:
  assumes t: "jh_opener jh = default_urlopen" "server_origin (jh_base_url jh)" and v: "plain_segment v"
    and rest: "CHR ''?'' \<notin> set rest" "CHR ''#'' \<notin> set rest" "CHR ''%'' \<notin> set rest"
    and ro: "route_of verb (''/vaults/'' @ v @ rest) = Some ro"
    and run: "json_request jh verb (vault_path v rest) payload w = (res, w')"
  obtains (idle) e where "res = Inl e" "nw_server w' = nw_server w" "nw_disk w' = nw_disk w" "fate_envs w' \<subseteq> fate_envs w"
  | (served) env reply where "env \<in> fate_envs w" "fate_envs w' \<subseteq> fate_envs w"
      "serve_route env (json_wire jh verb (vault_path v rest) payload) ro (nw_server w, nw_disk w)
         = (reply, nw_server w', nw_disk w')"
      "\<And>r. res = Inr r \<Longrightarrow> hs_status_code r = hp_status reply \<and> 200 \<le> hp_status reply \<and> hp_status reply < 300 \<and>
         (\<forall>d. hp_body reply = JsonReply d \<longrightarrow> hs_payload r = d)"
proof (cases rule: json_request_cases [OF t(1) run, case_names idle served])
  case (served env reply)
  have "hq_path (json_wire jh verb (vault_path v rest) payload) = ''/vaults/'' @ v @ rest"
    using vault_url_path [OF t(2) v rest] by simp
  with served(3) ro have "serve_route env (json_wire jh verb (vault_path v rest) payload) ro (nw_server w, nw_disk w)
      = (reply, nw_server w', nw_disk w')" by (simp add: serve_def del: json_wire_fields(2))
  with served that(2) show ?thesis by blast
qed (use that(1) in blast)

lemma int_str_plain: "plain_segment (int_str n)"
proof -
  have d: "plain_char (digit_char k)" if "k < 10" for k
  proof -
    from that have "k \<in> set [0..<10]" by simp
    then show ?thesis by (auto simp: digit_char_def plain_char_def upt_rec char_of_eq_iff)
  qed
  have "nat_str k \<noteq> [] \<and> list_all plain_char (nat_str k)" for k
    by (induction k rule: nat_str.induct) (subst nat_str.simps, auto intro: d simp: nat_str.simps)
  then show ?thesis by (auto simp: plain_segment_def int_str_def) (auto simp: plain_char_def)
qed

lemma status_of_error:
  "hp_status (store_error_response e) \<ge> 400"
proof -
  have "status_code_for_store_error c \<ge> 400" for c
  proof (cases "map_of STATUS_CODE_BY_CODE c")
    case None
    then show ?thesis by (simp add: status_code_for_store_error_def)
  next
    case (Some n)
    then have "n \<in> snd ` set STATUS_CODE_BY_CODE" by (force dest: map_of_SomeD)
    with Some show ?thesis by (auto simp: status_code_for_store_error_def STATUS_CODE_BY_CODE_def)
  qed
  then show ?thesis
    by (cases e) (simp_all add: store_error_response_def contract_error_response_def json_reply_def internal_error_def
        empty_reply_def)
qed

lemma refused_status: "fst (required_auth_context rq now sv) = Inl r \<Longrightarrow> hp_status r \<ge> 400"
  using status_of_error
  by (auto simp: required_auth_context_def bearer_token_def Let_def missing_authorization_def
      contract_error_response_def json_reply_def split: option.splits sum.splits if_splits)

text \<open>A request to resolve an intent that is answered 200 carries what the server has about it.\<close>

lemma resolve_route_true:
  assumes run: "serve_route env rq (ResolveIntent v) (sv, dk) = (reply, sv', dk')"
    and b: "hq_body rq = JsonBody (JObj (serialize_resolve_commit_intent_request q))" and ok: "hp_status reply < 300"
  shows "\<exists>x. resolve_commit_intent v (serialize_resolve_commit_intent_request q) sv = Inr x \<and>
    reply = ok_json (intent_resolution_json x)"
proof -
  let ?d = "serialize_resolve_commit_intent_request q"
  have vaults: "resolve_commit_intent v ?d (touch_device t now sv) = resolve_commit_intent v ?d sv" for t now
    by (simp add: resolve_commit_intent_def vault_of_def)
  from run b have r: "(case required_auth_context rq (en_now env) sv of
       (Inl r, sv1) \<Rightarrow> (r, sv1, snd (sv, dk))
     | (Inr au, sv1) \<Rightarrow> answer_read (ok_json \<circ> intent_resolution_json) store_error_response (resolve_commit_intent v ?d)
         (sv1, snd (sv, dk))) = (reply, sv', dk')"
    by (simp add: authorized_body_def with_body_def with_auth_def)
  obtain a sv1 where a: "required_auth_context rq (en_now env) sv = (a, sv1)" by fastforce
  show ?thesis
  proof (cases a)
    case (Inl e)
    with r a refused_status [of rq "en_now env" sv e] ok show ?thesis by simp
  next
    case (Inr au)
    with a have "sv1 = touch_device (Some (au_device_id au)) (en_now env) sv"
      by (auto simp: required_auth_context_def split: sum.splits option.splits)
    with r a Inr vaults have "answer_read (ok_json \<circ> intent_resolution_json) store_error_response
        (resolve_commit_intent v ?d) (sv1, dk) = (reply, sv', dk')" "resolve_commit_intent v ?d sv1 = resolve_commit_intent v ?d sv"
      by simp_all
    then show ?thesis
      using ok status_of_error [of "projl (resolve_commit_intent v ?d sv)"]
      by (cases "resolve_commit_intent v ?d sv") (auto simp: answer_read_def)
  qed
qed

definition server_good_world :: "net_world \<Rightarrow> bool" where
  "server_good_world w \<longleftrightarrow> server_ok (nw_server w)"

lemma parsed_resolution:
  assumes p: "parse_resolve_commit_intent_response (intent_resolution_json y) = Inr x"
  shows "y = NotFound h s \<Longrightarrow> rv_observed_head_revision x = Some h \<and> rv_status x = ''not_found''"
    "y = Mismatched h s \<Longrightarrow> rv_observed_head_revision x = Some h \<and> rv_status x = ''mismatched''"
    "y = Found n h s \<Longrightarrow> rv_observed_head_revision x = Some h \<and> rv_status x = ''found'' \<and> rv_matched_revision x = Some n"
proof -
  let ?d = "intent_resolution_json y"
  from p obtain st mr oh hs where f: "api_string ?d ''status'' = Inr st"
    "api_optional_positive_int ?d ''matched_revision'' = Inr mr"
    "api_optional_non_negative_int ?d ''observed_head_revision'' = Inr oh"
    "x = \<lparr>rv_status = st, rv_matched_revision = mr, rv_observed_head_revision = oh, rv_head_manifest_summary = hs\<rparr>"
    by (auto simp: parse_resolve_commit_intent_response_def result_simps split: if_splits)
  note g = f(1-3) [unfolded api_simps]
  show "rv_observed_head_revision x = Some h \<and> rv_status x = ''not_found''" if "y = NotFound h s"
    using g f(4) that by (cases oh; cases mr) (auto simp: dget_def)
  show "rv_observed_head_revision x = Some h \<and> rv_status x = ''mismatched''" if "y = Mismatched h s"
    using g f(4) that by (cases oh; cases mr) (auto simp: dget_def)
  show "rv_observed_head_revision x = Some h \<and> rv_status x = ''found'' \<and> rv_matched_revision x = Some n"
    if "y = Found n h s"
    using g f(4) that by (cases oh; cases mr) (auto simp: dget_def)
qed

lemma resolve_parsed:
  assumes "resolve_commit_intent v (serialize_resolve_commit_intent_request q) sv = Inr y"
    "parse_resolve_commit_intent_response (intent_resolution_json y) = Inr x"
  shows "rv_observed_head_revision x = Some (vt_head_revision (vault_of sv v)) \<and>
    (case vt_commits (vault_of sv v) (rr_commit_intent_id q) of
       None \<Rightarrow> rv_status x = ''not_found''
     | Some c \<Rightarrow> if cr_intent_manifest_hash c = rr_intent_manifest_hash q
         then rv_status x = ''found'' \<and> rv_matched_revision x = Some (cr_revision c) else rv_status x = ''mismatched'')"
proof -
  let ?d = "serialize_resolve_commit_intent_request q"
  have "require_string ?d ''commit_intent_id'' = Inr i \<Longrightarrow> i = rr_commit_intent_id q"
    "require_string ?d ''intent_manifest_hash'' = Inr h \<Longrightarrow> h = rr_intent_manifest_hash q" for i h
    by (auto simp: require_string_def serialize_resolve_commit_intent_request_def dget_def split: if_splits)
  then have y: "y = (case vt_commits (vault_of sv v) (rr_commit_intent_id q) of
       None \<Rightarrow> NotFound (vt_head_revision (vault_of sv v)) (vt_manifest_summary (vault_of sv v))
     | Some c \<Rightarrow>
         if cr_intent_manifest_hash c \<noteq> rr_intent_manifest_hash q
         then Mismatched (vt_head_revision (vault_of sv v)) (vt_manifest_summary (vault_of sv v))
         else Found (cr_revision c) (vt_head_revision (vault_of sv v)) (vt_manifest_summary (vault_of sv v)))"
    using assms(1) by (auto simp: resolve_commit_intent_def rbind_eq_Inr Let_def)
  show ?thesis
    using parsed_resolution [OF assms(2)] y by (auto split: option.splits if_splits)
qed

text \<open>The HTTP server is a service of the kind the client's recovery relies on.\<close>

lemma resolve_request:
  assumes j: "to_server jh" and v: "plain_segment v"
    and run: "tr_post_resolve_commit_intent (http_transport jh) v p w = (res, w')"
  shows "same_vaults w w' \<and> fate_envs w' \<subseteq> fate_envs w \<and>
    (\<forall>q r x. p = serialize_resolve_commit_intent_request q \<longrightarrow> res = Inr r \<longrightarrow>
       parse_resolve_commit_intent_response (hs_payload r) = Inr x \<longrightarrow>
       rv_observed_head_revision x = Some (server_head w v) \<and>
       (case server_commits w v (rr_commit_intent_id q) of
          None \<Rightarrow> rv_status x = ''not_found''
        | Some (h, n) \<Rightarrow> if h = rr_intent_manifest_hash q
            then rv_status x = ''found'' \<and> rv_matched_revision x = Some n else rv_status x = ''mismatched''))"
proof -
  have t: "jh_opener jh = default_urlopen" "server_origin (jh_base_url jh)" using j by (simp_all add: to_server_def)
  from run have run: "json_request jh ''POST'' (vault_path v ''/commits/resolve-intent'') (Some p) w = (res, w')"
    by (simp add: http_transport_def)
  have rest: "CHR ''?'' \<notin> set ''/commits/resolve-intent''" "CHR ''#'' \<notin> set ''/commits/resolve-intent''"
    "CHR ''%'' \<notin> set ''/commits/resolve-intent''" by simp_all
  show ?thesis
  proof (cases rule: vault_request_cases [OF t v rest vault_routes(6) [OF v] run, case_names idle served])
    case (served env reply)
    let ?rq = "json_wire jh ''POST'' (vault_path v ''/commits/resolve-intent'') (Some p)"
    have "same_vaults w w'"
      using reading_routes_vaults(1) [of env ?rq v "nw_server w" "nw_disk w"] served(3) by (simp add: same_vaults_def)
    moreover have "rv_observed_head_revision x = Some (server_head w v) \<and>
       (case server_commits w v (rr_commit_intent_id q) of
          None \<Rightarrow> rv_status x = ''not_found''
        | Some (h, n) \<Rightarrow> if h = rr_intent_manifest_hash q
            then rv_status x = ''found'' \<and> rv_matched_revision x = Some n else rv_status x = ''mismatched'')"
      if p: "p = serialize_resolve_commit_intent_request q" and r: "res = Inr r"
        and x: "parse_resolve_commit_intent_response (hs_payload r) = Inr x" for q r x
    proof -
      have "hq_body ?rq = JsonBody (JObj (serialize_resolve_commit_intent_request q))" by (simp add: p)
      from resolve_route_true [OF served(3) this] served(4) [OF r] obtain y where
        y: "resolve_commit_intent v (serialize_resolve_commit_intent_request q) (nw_server w) = Inr y"
        "reply = ok_json (intent_resolution_json y)" by auto
      have "hs_payload r = intent_resolution_json y" using served(4) [OF r] y(2) by (simp add: ok_json_def json_reply_def)
      with x have "parse_resolve_commit_intent_response (intent_resolution_json y) = Inr x" by simp
      from resolve_parsed [OF y(1) this] show ?thesis
        by (auto simp: server_head_def server_commits_def split: option.splits)
    qed
    ultimately show ?thesis using served(2) by blast
  qed (auto simp: same_vaults_def)
qed

lemma manifest_request:
  assumes j: "to_server jh" and v: "plain_segment v"
    and run: "tr_get_manifest (http_transport jh) v n w = (res, w')"
  shows "same_vaults w w' \<and> fate_envs w' \<subseteq> fate_envs w"
proof -
  have t: "jh_opener jh = default_urlopen" "server_origin (jh_base_url jh)" using j by (simp_all add: to_server_def)
  from run have run: "json_request jh ''GET'' (vault_path v (''/manifests/'' @ int_str n)) None w = (res, w')"
    by (simp add: http_transport_def)
  note ro = vault_routes(15) [OF v int_str_plain [of n]]
  have rest: "CHR ''?'' \<notin> set (''/manifests/'' @ int_str n)" "CHR ''#'' \<notin> set (''/manifests/'' @ int_str n)"
    "CHR ''%'' \<notin> set (''/manifests/'' @ int_str n)"
    using plain_segmentD [OF int_str_plain [of n]] by simp_all
  show ?thesis
  proof (cases rule: vault_request_cases [OF t v rest ro run, case_names idle served])
    case (served env reply)
    let ?rq = "json_wire jh ''GET'' (vault_path v (''/manifests/'' @ int_str n)) None"
    have "same_vaults w w'"
      using reading_routes_vaults(2) [of env ?rq v "int_str n" "nw_server w" "nw_disk w"] served(3)
      by (simp add: same_vaults_def)
    with served(2) show ?thesis by blast
  qed (auto simp: same_vaults_def)
qed

interpretation http: commit_service "http_transport jh" "\<lambda>v. to_server jh \<and> plain_segment v" server_good_world
    server_commits server_head for jh
proof
  fix v p w res w'
  show "server_good_world w' \<and> server_commits w' = server_commits w \<and> server_head w' = server_head w"
    if "to_server jh \<and> plain_segment v" "server_good_world w"
      "tr_post_resolve_commit_intent (http_transport jh) v p w = (res, w')"
    using resolve_request [of jh v p w res w'] that same_vaultsD [of w w'] by (simp add: server_good_world_def)
next
  fix v n w res w'
  show "server_good_world w' \<and> server_commits w' = server_commits w \<and> server_head w' = server_head w"
    if "to_server jh \<and> plain_segment v" "server_good_world w" "tr_get_manifest (http_transport jh) v n w = (res, w')"
    using manifest_request [of jh v n w res w'] that same_vaultsD [of w w'] by (simp add: server_good_world_def)
next
  fix v rq w r w' x
  assume a: "to_server jh \<and> plain_segment v" "server_good_world w"
      "tr_post_resolve_commit_intent (http_transport jh) v (serialize_resolve_commit_intent_request rq) w = (Inr r, w')"
      "hs_status_code r = 200" "parse_resolve_commit_intent_response (hs_payload r) = Inr x"
  from resolve_request [OF conjunct1 [OF a(1)] conjunct2 [OF a(1)] a(3)] a(5)
  show "rv_observed_head_revision x = Some (server_head w v) \<and>
      (case server_commits w v (rr_commit_intent_id rq) of
         None \<Rightarrow> rv_status x = ''not_found''
       | Some (h, n) \<Rightarrow> if h = rr_intent_manifest_hash rq
           then rv_status x = ''found'' \<and> rv_matched_revision x = Some n else rv_status x = ''mismatched'')" by blast
qed

section \<open>Committing over the network\<close>

lemma create_commit_effect:
  assumes ok: "server_ok sv" and c: "create_commit sha nfc v d auth now sv = Inr (rs, sv')"
  shows "server_ok sv' \<and> sv_extends sv sv' \<and>
    vt_head_revision (vault_of sv' v) \<le> vt_head_revision (vault_of sv v) + 1 \<and>
    (\<exists>i h c. require_string d ''commit_intent_id'' = Inr i \<and> require_string d ''intent_manifest_hash'' = Inr h \<and>
       vt_commits (vault_of sv' v) i = Some c \<and> cr_intent_manifest_hash c = h \<and> cr_revision c = rs_new_revision rs)"
proof -
  from c obtain i b h m dv where p: "require_string d ''commit_intent_id'' = Inr i"
    "require_string d ''intent_manifest_hash'' = Inr h"
    "commit_mutation sha nfc v d i b h m dv now sv = Inr (rs, sv')"
    "vt_commits (vault_of sv' v) i \<noteq> None" "cr_intent_manifest_hash (the (vt_commits (vault_of sv' v) i)) = h"
    "cr_revision (the (vt_commits (vault_of sv' v) i)) = rs_new_revision rs"
    by (rule create_commit_parts)
  have "vt_head_revision (vault_of sv' v) \<le> vt_head_revision (vault_of sv v) + 1"
  proof (cases "vt_commits (vault_of sv v) i")
    case (Some k)
    with p(3) show ?thesis by (auto simp: commit_mutation_replay split: if_splits)
  next
    case None
    from None p(3) show ?thesis by (cases rule: commit_mutation_fresh) simp
  qed
  with create_commit_keeps [OF ok c] p show ?thesis by fastforce
qed

lemma server_ok_touch [simp]: "server_ok (touch_device d now sv) = server_ok sv"
  by (simp add: server_ok_def vault_of_def)

lemma vault_of_touch [simp]: "vault_of (touch_device d now sv) v = vault_of sv v"
  by (simp add: vault_of_def)

lemma conflict_status: "hp_status (conflict_reply e) \<ge> 400"
  using status_of_error by (cases e) (simp_all add: conflict_reply_def json_reply_def)

lemma create_commit_route_effect:
  assumes ok: "server_ok sv" and b: "hq_body rq = JsonBody (JObj d)"
    and run: "serve_route env rq (CreateCommit v) (sv, dk) = (reply, sv', dk')"
  shows "server_ok sv' \<and> sv_extends sv sv' \<and> vt_head_revision (vault_of sv' v) \<le> vt_head_revision (vault_of sv v) + 1 \<and>
    (hp_status reply < 300 \<longrightarrow> (\<exists>rs i h c. reply = ok_json (commit_response_json rs) \<and>
       require_string d ''commit_intent_id'' = Inr i \<and> require_string d ''intent_manifest_hash'' = Inr h \<and>
       vt_commits (vault_of sv' v) i = Some c \<and> cr_intent_manifest_hash c = h \<and> cr_revision c = rs_new_revision rs))"
proof -
  obtain a sv1 where a: "required_auth_context rq (en_now env) sv = (a, sv1)" by fastforce
  from run b have r: "(case a of Inl r \<Rightarrow> (r, sv1, dk)
     | Inr au \<Rightarrow> create_commit_route env v d (au_device_id au) (sv1, dk)) = (reply, sv', dk')"
    by (cases a) (simp_all add: authorized_body_def with_body_def with_auth_def a)
  have s1: "sv1 = sv \<or> (\<exists>t. sv1 = touch_device t (en_now env) sv)"
    using a by (auto simp: required_auth_context_def split: sum.splits option.splits)
  have ok1: "server_ok sv1" and ex: "sv_extends sv sv1" "\<And>u. vault_of sv1 u = vault_of sv u"
    using ok s1 by (auto simp: sv_extends_def)
  show ?thesis
  proof (cases a)
    case (Inl e)
    with r refused_status [of rq "en_now env" sv e] a ok1 ex show ?thesis by simp
  next
    case (Inr au)
    let ?c = "create_commit (en_sha env) (en_nfc env) v d (Some (au_device_id au)) (en_now env) sv1"
    show ?thesis
    proof (cases ?c)
      case (Inl e)
      with r Inr conflict_status [of e] ok1 ex show ?thesis
        by (auto simp: create_commit_route_def answer_def \<open>a = Inr au\<close>)
    next
      case (Inr x)
      obtain rs sv2 where x: "x = (rs, sv2)" by (cases x)
      with Inr \<open>a = Inr au\<close> r have "reply = ok_json (commit_response_json rs)" "sv' = sv2"
        by (simp_all add: create_commit_route_def answer_def)
      with create_commit_effect [OF ok1 Inr [unfolded x]] ex show ?thesis by (auto simp: sv_extends_def)
    qed
  qed
qed

lemma create_request:
  assumes j: "to_server jh" and v: "plain_segment (mn_vault_id (rq_manifest rq))" and ok: "server_ok (nw_server w)"
    and run: "execute_create_commit (http_transport jh) rq w = (r, w')"
  defines "v \<equiv> mn_vault_id (rq_manifest rq)"
  shows "server_ok (nw_server w') \<and> sv_extends (nw_server w) (nw_server w') \<and>
    server_head w' v \<le> server_head w v + 1 \<and>
    (case r of Inl _ \<Rightarrow> True | Inr (Conflict _ _) \<Rightarrow> False
     | Inr (Committed _ x) \<Rightarrow> server_commits w' v (rq_commit_intent_id rq)
         = Some (rq_intent_manifest_hash rq, cm_new_revision x))"
proof -
  have t: "jh_opener jh = default_urlopen" "server_origin (jh_base_url jh)" using j by (simp_all add: to_server_def)
  show ?thesis
  proof (cases "serialize_create_commit_request rq")
    case (Inl e)
    with run ok show ?thesis by (auto simp: execute_create_commit_def ebind_def elift_def server_head_def)
  next
    case (Inr d)
    obtain res w1 where q: "json_request jh ''POST'' (vault_path v ''/commits'') (Some d) w = (res, w1)" by fastforce
    have w1: "w' = w1" and rr: "\<And>e. r = Inr e \<Longrightarrow> \<exists>h. res = Inr h \<and>
        (hs_status_code h = 200 \<and> (\<exists>x. parse_create_commit_response (hs_payload h) = Inr x \<and> e = Committed rq x) \<or>
         hs_status_code h = 409)"
      using run q Inr by (auto simp: execute_create_commit_def ebind_def elift_def eret_def eraise_def http_transport_def v_def
          split: sum.splits if_splits)
    have ids: "require_string d ''commit_intent_id'' = Inr i \<Longrightarrow> i = rq_commit_intent_id rq"
      "require_string d ''intent_manifest_hash'' = Inr h \<Longrightarrow> h = rq_intent_manifest_hash rq" for i h
      using Inr by (auto simp: serialize_create_commit_request_def rbind_eq_Inr require_string_def dget_def split: if_splits)
    have rest: "CHR ''?'' \<notin> set ''/commits''" "CHR ''#'' \<notin> set ''/commits''" "CHR ''%'' \<notin> set ''/commits''" by simp_all
    note pv = v [folded v_def]
    show ?thesis
    proof (cases rule: vault_request_cases [OF t pv rest vault_routes(5) [OF pv] q, case_names idle served])
      case (idle e)
      with rr ok show ?thesis by (cases r) (auto simp: w1 sv_extends_refl server_head_def)
    next
      case (served env reply)
      have b: "hq_body (json_wire jh ''POST'' (vault_path v ''/commits'') (Some d)) = JsonBody (JObj d)" by simp
      note e = create_commit_route_effect [OF ok b served(3)]
      show ?thesis
      proof (cases r)
        case (Inl x)
        with e show ?thesis by (simp add: w1 server_head_def)
      next
        case (Inr ex)
        from rr [OF this] obtain h where h: "res = Inr h"
          "hs_status_code h = 200 \<and> (\<exists>x. parse_create_commit_response (hs_payload h) = Inr x \<and> ex = Committed rq x) \<or>
           hs_status_code h = 409" by blast
        with served(4) [OF h(1)] obtain x where x: "parse_create_commit_response (hs_payload h) = Inr x" "ex = Committed rq x"
          by auto
        from e served(4) [OF h(1)] obtain rs i hh c where c: "reply = ok_json (commit_response_json rs)"
          "require_string d ''commit_intent_id'' = Inr i" "require_string d ''intent_manifest_hash'' = Inr hh"
          "vt_commits (vault_of (nw_server w1) v) i = Some c" "cr_intent_manifest_hash c = hh"
          "cr_revision c = rs_new_revision rs" by auto
        have "hs_payload h = commit_response_json rs"
          using served(4) [OF h(1)] c(1) by (simp add: ok_json_def json_reply_def)
        with x(1) have "cm_new_revision x = rs_new_revision rs"
          by (auto simp: parse_create_commit_response_def rbind_eq_Inr api_simps commit_response_json_def dget_def)
        with c ids e x Inr show ?thesis by (simp add: w1 server_head_def server_commits_def)
      qed
    qed
  qed
qed

text \<open>C1: over the network a commit whose outcome the client did not see is settled as the server holds it. Whatever
  became of the commit request (never sent, refused, served with the reply lost, served and answered),
  it made at most one revision; and when the client, after whatever other devices did meanwhile, runs the
  recovery by resolve-intent, then either the recovery raises and leaves the client as it was, or the
  journal is gone and the client's state and tombstones are those of the revision the server recorded for
  this intent, or of no revision if it recorded none. Recovery changes nothing in the vaults.\<close>

theorem commit_settled_over_http:
  assumes net: "to_server jh" "plain_segment v" "server_ok (nw_server w0)"
    and attempt: "execute_create_commit (http_transport jh) rq w0 = (r, w1)" "mn_vault_id (rq_manifest rq) = v"
    and meanwhile: "server_ok (nw_server w2)" "sv_extends (nw_server w1) (nw_server w2)"
    and client: "commit_coherent s" "cl_power s = None" "cl_vault_state s v = Some st"
      "cl_commit_journal s v = Some j" "cj_status j = ''submitted''"
    and intent: "cj_commit_intent_id j = rq_commit_intent_id rq" "cj_intent_manifest_hash j = rq_intent_manifest_hash rq"
    and ts: "\<forall>t \<in> set ts. wf_tombstone t" "distinct (map tb_file_id ts)"
    and recovery: "execute_submitted_recovery_via_resolve_intent sha nfc (http_transport jh) v ts at (w2, s) = (res, w3, s3)"
  shows "server_head w1 v \<le> server_head w0 v + 1 \<and>
    (\<forall>q x. r = Inr (Committed q x) \<longrightarrow> server_commits w2 v (rq_commit_intent_id rq)
       = Some (rq_intent_manifest_hash rq, cm_new_revision x)) \<and>
    server_commits w3 = server_commits w2 \<and> server_head w3 = server_head w2 \<and>
    (case res of
       Inl e \<Rightarrow> s3 = s
     | Inr (resolved, rec) \<Rightarrow> cl_commit_journal s3 v = None \<and> cl_vault_state s3 v = Some (sr_state rec) \<and>
         (case server_commits w2 v (rq_commit_intent_id rq) of
            None \<Rightarrow> sr_state rec = st\<lparr>vs_commit_in_progress := False\<rparr> \<and> cl_ledger s3 = cl_ledger s
          | Some (h, n) \<Rightarrow> h = rq_intent_manifest_hash rq \<and>
              sr_state rec = matched_state st n (server_head w2 v)
                (map_option (compute_manifest_summary_hash sha nfc) (re_matched_manifest resolved)) \<and>
              cl_ledger s3 = Some (map ledger_line (map (\<lambda>t. if covered_by_intent j t
                then t\<lparr>tb_deleted_revision := Some n\<rparr> else t) ts))))"
proof -
  have v: "plain_segment (mn_vault_id (rq_manifest rq))" using net(2) attempt(2) by simp
  note c = create_request [OF net(1) v net(3) attempt(1), unfolded attempt(2)]
  have "server_commits w2 v (rq_commit_intent_id rq) = Some (rq_intent_manifest_hash rq, cm_new_revision x)"
    if "r = Inr (Committed q x)" for q x
  proof -
    have "vt_commits (vault_of (nw_server w1) v) \<subseteq>\<^sub>m vt_commits (vault_of (nw_server w2) v)"
      using meanwhile(2) by (simp add: sv_extends_def extends_def)
    moreover from c that have "server_commits w1 v (rq_commit_intent_id rq)
        = Some (rq_intent_manifest_hash rq, cm_new_revision x)" by simp
    ultimately show ?thesis by (auto simp: server_commits_def map_le_def dom_def)
  qed
  moreover
  have pos: "\<forall>h n. server_commits w2 v (cj_commit_intent_id j) = Some (h, n) \<longrightarrow> 0 < n"
    using meanwhile(1) commit_bounds [of "vault_of (nw_server w2) v" "cj_commit_intent_id j"]
    by (fastforce simp: server_commits_def server_ok_def)
  moreover have gw: "server_good_world w2" using meanwhile(1) by (simp add: server_good_world_def)
  moreover note http.recovery_truthful [OF conjI [OF net(1,2)] gw client ts pos recovery, unfolded intent]
  moreover have "server_head w1 v \<le> server_head w0 v + 1" using c by blast
  ultimately show ?thesis by blast
qed

definition http_env :: server_env where
  "http_env = (sample_env 1)\<lparr>en_sha := (\<lambda>_. ''h'')\<rparr>"

definition registered :: server where
  "registered = fst (snd (serve (sample_env 0) sample_registration (default_state, empty_disk)))"

definition registered_world :: "fate list \<Rightarrow> net_world" where
  "registered_world fs = \<lparr>nw_server = registered, nw_disk = empty_disk, nw_fates = fs\<rparr>"

definition sample_transport :: "net_world json_http_transport" where
  "sample_transport = \<lparr>jh_base_url = ''http://h'', jh_bearer_token = Some ''a'', jh_user_agent = USER_AGENT,
     jh_opener = default_urlopen\<rparr>"

definition submitted_request :: commit_request where
  "submitted_request = \<lparr>rq_commit_intent_id = ''c1'', rq_base_revision = 0, rq_created_by_device = ''dev'',
     rq_intent_manifest_hash = ''sha256:h'', rq_intent_delete_seq_upper_bound = None,
     rq_manifest = submitted_manifest, rq_blob_refs = [], rq_file_version_directives = []\<rparr>"

definition lost_reply_world :: net_world where
  "lost_reply_world = snd (execute_create_commit (http_transport sample_transport) submitted_request
     (registered_world [ReplyLost http_env, Answered http_env, Answered http_env]))"

lemma registered_ok: "server_ok registered"
proof -
  have "fresh_env (sample_env 0) default_state"
    by (simp add: fresh_env_def fresh_for_def default_state_def vault_of_def new_vault_def)
  then have "env_run (sample_env 0) (default_state, empty_disk) (snd (serve (sample_env 0) sample_registration
      (default_state, empty_disk)))"
    by (auto simp: serve_def split: option.split intro: serve_route_runs)
  from reachable_good [OF _ this] show ?thesis
    by (simp add: registered_def server_good_def sample_env_def normal_form_id)
qed

lemma sample_to_server: "to_server sample_transport"
  by (simp add: to_server_def sample_transport_def) code_simp

lemma first_attempt:
  obtains e where "execute_create_commit (http_transport sample_transport) submitted_request
    (registered_world [ReplyLost http_env, Answered http_env, Answered http_env]) = (Inl e, lost_reply_world)"
proof -
  let ?r = "execute_create_commit (http_transport sample_transport) submitted_request
    (registered_world [ReplyLost http_env, Answered http_env, Answered http_env])"
  have "isl (fst ?r)" by code_simp
  then show ?thesis using that unfolding lost_reply_world_def by (cases ?r) (auto simp: isl_def)
qed

lemma sample_vault: "plain_segment ''v''" "mn_vault_id (rq_manifest submitted_request) = ''v''"
  by code_simp+

lemma registered_world_ok: "server_ok (nw_server (registered_world fs))"
  by (simp add: registered_world_def registered_ok)

lemma lost_reply_ok: "server_ok (nw_server lost_reply_world)"
proof -
  obtain e where a: "execute_create_commit (http_transport sample_transport) submitted_request
    (registered_world [ReplyLost http_env, Answered http_env, Answered http_env]) = (Inl e, lost_reply_world)"
    by (rule first_attempt)
  from create_request [OF sample_to_server _ registered_world_ok a] sample_vault show ?thesis by simp
qed

lemma commit_settled_over_http_witness:
  "\<exists>e res w3 s3. execute_create_commit (http_transport sample_transport) submitted_request
      (registered_world [ReplyLost http_env, Answered http_env, Answered http_env]) = (Inl e, lost_reply_world)
    \<and> server_head lost_reply_world ''v'' = 1
    \<and> execute_submitted_recovery_via_resolve_intent (\<lambda>_. ''h'') id (http_transport sample_transport) ''v''
        [pending_tombstone] 20 (lost_reply_world, submitted_client) = (Inr res, w3, s3)
    \<and> server_head w3 ''v'' = 1 \<and> cl_commit_journal s3 ''v'' = None
    \<and> cl_ledger s3 = Some [ledger_line (pending_tombstone\<lparr>tb_deleted_revision := Some 1\<rparr>)]"
proof -
  let ?w0 = "registered_world [ReplyLost http_env, Answered http_env, Answered http_env]"
  let ?run = "execute_submitted_recovery_via_resolve_intent (\<lambda>_. ''h'') id (http_transport sample_transport) ''v''
        [pending_tombstone] 20 (lost_reply_world, submitted_client)"
  obtain e where a: "execute_create_commit (http_transport sample_transport) submitted_request ?w0 = (Inl e, lost_reply_world)"
    by (rule first_attempt)
  have h: "server_head lost_reply_world ''v'' = 1" by code_simp
  have c: "server_commits lost_reply_world ''v'' ''c1'' = Some (''sha256:h'', 1)" by code_simp
  have "\<not> isl (fst ?run)" unfolding submitted_client_eq device_client_eq by code_simp
  then obtain res w3 s3 where r: "?run = (Inr res, w3, s3)" by (cases ?run; cases "fst ?run") auto
  have coh: "commit_coherent submitted_client"
    by (rule reachable_coherent [OF submitted_reachable])
  obtain st j where st: "cl_vault_state submitted_client ''v'' = Some st"
    and j: "cl_commit_journal submitted_client ''v'' = Some j" "cj_status j = ''submitted''"
      "cj_commit_intent_id j = ''c1''" "cj_intent_manifest_hash j = ''sha256:h''" "covered_by_intent j pending_tombstone"
    by (simp add: submitted_client_eq submitted_journal_def covered_by_intent_def pending_tombstone_def remote_tombstone_def)
  have i: "cj_commit_intent_id j = rq_commit_intent_id submitted_request"
    "cj_intent_manifest_hash j = rq_intent_manifest_hash submitted_request"
    by (simp_all add: j submitted_request_def)
  have ids: "rq_commit_intent_id submitted_request = ''c1''" by (simp add: submitted_request_def)
  from commit_settled_over_http [OF sample_to_server sample_vault(1) registered_world_ok a sample_vault(2) lost_reply_ok
      sv_extends_refl coh submitted_client_facts(1) st j(1,2) i pending_ok r]
  have "server_head w3 = server_head lost_reply_world \<and> cl_commit_journal s3 ''v'' = None \<and>
      cl_ledger s3 = Some (map ledger_line (map (\<lambda>t. if covered_by_intent j t
                then t\<lparr>tb_deleted_revision := Some 1\<rparr> else t) [pending_tombstone]))"
    unfolding ids c by (cases res) simp
  with a h r j(5) show ?thesis by auto
qed

text \<open>C18: the conflict a server reports never reaches the client as a conflict: with the default opener, whatever the
  server answers and whatever the fate of the request, submitting a commit either raises or reports a
  commit; in particular the 409 of a base revision conflict is an exception here, so the branch that
  reads the server's head from it is not reached.\<close>

theorem conflict_reply_raises:
  assumes "to_server jh" and "plain_segment (mn_vault_id (rq_manifest rq))" and "server_ok (nw_server w)"
    and "execute_create_commit (http_transport jh) rq w = (res, w')"
  shows "(\<exists>e. res = Inl e) \<or> (\<exists>q rs. res = Inr (Committed q rs))"
proof (cases res)
  case (Inr x)
  with create_request [OF assms] show ?thesis by (cases x) auto
qed auto

lemma conflict_reply_raises_witness:
  "case execute_create_commit (http_transport sample_transport) (submitted_request\<lparr>rq_commit_intent_id := ''c2''\<rparr>)
      lost_reply_world of
     (Inl e, w') \<Rightarrow> e = OSError ''HTTP Error 409'' \<and> server_head w' ''v'' = 1
   | (Inr _, _) \<Rightarrow> False"
proof -
  let ?r = "execute_create_commit (http_transport sample_transport) (submitted_request\<lparr>rq_commit_intent_id := ''c2''\<rparr>)
      lost_reply_world"
  have v: "plain_segment (mn_vault_id (rq_manifest (submitted_request\<lparr>rq_commit_intent_id := ''c2''\<rparr>)))" by code_simp
  obtain res w' where r: "?r = (res, w')" by fastforce
  from conflict_reply_raises [OF sample_to_server v lost_reply_ok r]
  have "isl (fst ?r) \<or> (\<exists>q rs. fst ?r = Inr (Committed q rs))" by (auto simp: r)
  moreover have "case fst ?r of Inl e \<Rightarrow> e = OSError ''HTTP Error 409'' | Inr _ \<Rightarrow> False" by code_simp
  moreover have "server_head (snd ?r) ''v'' = 1" by code_simp
  ultimately show ?thesis by (auto simp: r split: sum.splits)
qed

end
