(* ===== verification/Change_Detection.thy ===== *)
theory Change_Detection
  imports Operations Manifest Paths
begin

text \<open>
  \<open>clients/desktop/workspace_filters.py\<close> and the first half of \<open>change_detection.py\<close>: the files of
  a workspace that are synchronized, and what changed in it since the file map was written. A
  workspace is the list of its regular files, in the order in which the directory walk meets them,
  each with the parts of its path below the vault root, its bytes and its modification time; there
  are no symbolic links, and nothing writes to it while the changes are read or a plan is built
  from them. Paths are POSIX paths; the messages show a path without the quotes of \<open>repr\<close>.
\<close>

section \<open>Loops that may raise\<close>

fun foldM :: "('s \<Rightarrow> 'a \<Rightarrow> 'e + 's) \<Rightarrow> 's \<Rightarrow> 'a list \<Rightarrow> 'e + 's" where
  "foldM f s [] = Inr s"
| "foldM f s (x # xs) = rbind (f s x) (\<lambda>t. foldM f t xs)"

lemma foldM_invariant:
  assumes "foldM f s xs = Inr t" "P s"
    and "\<And>s x t. x \<in> set xs \<Longrightarrow> P s \<Longrightarrow> f s x = Inr t \<Longrightarrow> P t"
  shows "P t"
  using assms
proof (induction xs arbitrary: s)
  case (Cons x xs)
  from Cons.prems(1) obtain u where u: "f s x = Inr u" "foldM f u xs = Inr t"
    by (auto simp: result_simps)
  show ?case
    by (rule Cons.IH [OF u(2)]) (use Cons.prems(2,3) u(1) in \<open>auto intro: Cons.prems(3) [of x s]\<close>)
qed simp

lemma foldM_fold:
  assumes "foldM f s xs = Inr t" "\<And>s x t. x \<in> set xs \<Longrightarrow> f s x = Inr t \<Longrightarrow> g t = h x (g s)"
  shows "g t = fold h xs (g s)"
  using assms
proof (induction xs arbitrary: s)
  case (Cons x xs)
  from Cons.prems(1) obtain u where u: "f s x = Inr u" "foldM f u xs = Inr t"
    by (auto simp: result_simps)
  have "g t = fold h xs (g u)" by (rule Cons.IH [OF u(2)]) (simp add: Cons.prems(2))
  then show ?case using Cons.prems(2) [OF _ u(1)] by simp
qed simp

section \<open>Paths of the workspace\<close>

fun split_slash :: "string \<Rightarrow> string list" where
  "split_slash [] = [[]]"
| "split_slash (c # s) = (if c = CHR ''/'' then [] # split_slash s
     else (c # hd (split_slash s)) # tl (split_slash s))"

text \<open>\<open>Path(value).parts\<close> of a path without a root; \<open>as_posix\<close> of the path with the parts.\<close>

definition path_parts :: "string \<Rightarrow> string list" where
  "path_parts s = filter (\<lambda>p. p \<noteq> [] \<and> p \<noteq> ''.'') (split_slash s)"

definition as_posix :: "string list \<Rightarrow> string" where
  "as_posix ps = (if ps = [] then ''.'' else join ''/'' ps)"

definition normalize_relative_path :: "string \<Rightarrow> string result" where
  "normalize_relative_path s =
     (if (s \<noteq> [] \<and> hd s = CHR ''/'') \<or> ''..'' \<in> set (path_parts s)
      then Inl (ValueError (''workspace file path is not safe: '' @ s))
      else Inr (as_posix (path_parts s)))"

definition resolve_workspace_file_path :: "string \<Rightarrow> string list result" where
  "resolve_workspace_file_path relative_path =
     rbind (normalize_relative_path relative_path) (\<lambda>normalized. Inr (path_parts normalized))"

text \<open>\<open>str.lower\<close> on the characters of a \<open>string\<close> (code points below 256).\<close>

definition lower_char :: "char \<Rightarrow> char" where
  "lower_char c = (let n = (of_char c :: nat) in
     if 65 \<le> n \<and> n \<le> 90 \<or> 192 \<le> n \<and> n \<le> 222 \<and> n \<noteq> 215 then char_of (n + 32) else c)"

definition lower :: "string \<Rightarrow> string" where
  "lower s = map lower_char s"

definition has_prefix :: "string \<Rightarrow> string \<Rightarrow> bool" where
  "has_prefix p s \<longleftrightarrow> take (length p) s = p"

definition last_part :: "string \<Rightarrow> string" where
  "last_part s = (let ps = path_parts s in if ps = [] then [] else last ps)"

section \<open>Filters and file types\<close>

definition OFFICE_LOCK_FILE_SUFFIXES :: "string list" where
  "OFFICE_LOCK_FILE_SUFFIXES =
     [''.doc'', ''.docm'', ''.docx'', ''.dot'', ''.dotm'', ''.dotx'', ''.pot'', ''.potm'', ''.potx'',
      ''.pps'', ''.ppsm'', ''.ppsx'', ''.ppt'', ''.pptm'', ''.pptx'', ''.xls'', ''.xlsb'', ''.xlsm'',
      ''.xlsx'', ''.xlt'', ''.xltm'', ''.xltx'']"

definition is_volatile_workspace_file_path :: "string \<Rightarrow> bool" where
  "is_volatile_workspace_file_path relative_path =
     (let name = last_part relative_path; lower_name = lower name in
      has_prefix ''~$'' name \<and> lower (path_suffix name) \<in> set OFFICE_LOCK_FILE_SUFFIXES
      \<or> has_prefix ''.~lock.'' lower_name \<and> lower_name \<noteq> [] \<and> last lower_name = CHR ''#'')"

definition infer_workspace_type :: "string \<Rightarrow> string" where
  "infer_workspace_type relative_path =
     (let ps = path_parts relative_path; suffix = lower (path_suffix (last_part relative_path));
          rooted = (relative_path \<noteq> [] \<and> hd relative_path = CHR ''/'');
          markdown = (suffix \<in> set [''.md'', ''.markdown'']) in
      if \<not> rooted \<and> ps = [''.ai'', ''index.md''] then ''ai_index''
      else if \<not> rooted \<and> take 2 ps = [''.ai'', ''wiki''] \<and> markdown then ''ai_wiki''
      else if \<not> rooted \<and> length ps = 2 \<and> hd ps = ''.ai'' \<and> lower (ps ! 1) = ''agents.md'' then ''ai_agents''
      else if markdown then ''note''
      else ''attachment'')"

definition is_sync_excluded_workspace_path :: "string \<Rightarrow> bool result" where
  "is_sync_excluded_workspace_path relative_path =
     rbind (normalize_relative_path relative_path) (\<lambda>normalized.
     let ps = path_parts normalized in
     Inr (is_volatile_workspace_file_path normalized
       \<or> take 2 ps = [''.ai'', ''raw'']
       \<or> length ps = 2 \<and> hd ps = ''.ai'' \<and> lower (ps ! 1) = ''log.md''))"

section \<open>The workspace\<close>

record disk_file =
  df_bytes :: string
  df_mtime_ns :: int

type_synonym workspace = "(string list \<times> disk_file) list"

definition mtime_ms :: "disk_file \<Rightarrow> int" where
  "mtime_ms f = df_mtime_ns f div 1000000"

definition NOTEAPP_DIRNAME :: string where
  "NOTEAPP_DIRNAME = ''.noteapp''"

definition VAULTINFO_FILENAME :: string where
  "VAULTINFO_FILENAME = ''.vaultinfo''"

definition iter_workspace_files :: "workspace \<Rightarrow> workspace result" where
  "iter_workspace_files ws = foldM (\<lambda>acc (ps, f).
     if NOTEAPP_DIRNAME \<in> set ps \<or> ps = [VAULTINFO_FILENAME] then Inr acc
     else rbind (is_sync_excluded_workspace_path (as_posix ps)) (\<lambda>excluded.
       Inr (if excluded then acc else acc @ [(ps, f)]))) [] ws"

text \<open>\<open>read_bytes\<close> and \<open>stat\<close> of a path relative to the vault root.\<close>

definition read_file :: "workspace \<Rightarrow> string \<Rightarrow> disk_file result" where
  "read_file ws relative_path =
     rbind (resolve_workspace_file_path relative_path) (\<lambda>ps.
     case map_of ws ps of None \<Rightarrow> Inl (OSError relative_path) | Some f \<Rightarrow> Inr f)"

section \<open>Detecting changes\<close>

record change_record =
  ch_kind :: string
  ch_path :: string
  ch_file_id :: "string option"
  ch_file_type :: string
  ch_record_status :: "string option"
  ch_content_hash :: "string option"
  ch_size_bytes :: "int option"
  ch_mtime_ms :: "int option"

record change_set =
  cs_vault_id :: string
  cs_tracked_record_count :: int
  cs_change_count :: int
  cs_modified_file_ids :: "string list"
  cs_missing_file_ids :: "string list"
  cs_changes :: "change_record list"

text \<open>\<open>sha\<close> is the hexadecimal SHA-256 digest.\<close>

definition build_modified_record ::
  "(string \<Rightarrow> string) \<Rightarrow> workspace \<Rightarrow> file_record \<Rightarrow> change_record option result" where
  "build_modified_record sha ws r =
     rbind (resolve_workspace_file_path (fr_path r)) (\<lambda>ps.
     rbind (normalize_relative_path (fr_path r)) (\<lambda>normalized_path.
     case map_of ws ps of
       None \<Rightarrow> Inr (Some \<lparr>ch_kind = ''missing'', ch_path = normalized_path,
         ch_file_id = Some (fr_file_id r), ch_file_type = fr_type r,
         ch_record_status = Some (fr_status r), ch_content_hash = fr_content_hash r,
         ch_size_bytes = None, ch_mtime_ms = None\<rparr>)
     | Some f \<Rightarrow>
         (let content_hash = sha256_hex sha (df_bytes f) in
          if Some content_hash = fr_content_hash r then Inr None
          else Inr (Some \<lparr>ch_kind = ''modified'', ch_path = normalized_path,
            ch_file_id = Some (fr_file_id r), ch_file_type = fr_type r,
            ch_record_status = Some (fr_status r), ch_content_hash = Some content_hash,
            ch_size_bytes = Some (int (length (df_bytes f))), ch_mtime_ms = Some (mtime_ms f)\<rparr>))))"

definition untracked_change ::
  "(string \<Rightarrow> string) \<Rightarrow> string list \<times> disk_file \<Rightarrow> change_record" where
  "untracked_change sha e =
     \<lparr>ch_kind = ''untracked'', ch_path = as_posix (fst e), ch_file_id = None,
      ch_file_type = infer_workspace_type (as_posix (fst e)), ch_record_status = None,
      ch_content_hash = Some (sha256_hex sha (df_bytes (snd e))),
      ch_size_bytes = Some (int (length (df_bytes (snd e)))), ch_mtime_ms = Some (mtime_ms (snd e))\<rparr>"

definition ids_of_kind :: "string \<Rightarrow> change_record list \<Rightarrow> string list" where
  "ids_of_kind k cs = List.map_filter (\<lambda>c. if ch_kind c = k then ch_file_id c else None) cs"

definition change_key :: "change_record \<Rightarrow> string \<times> string \<times> string" where
  "change_key c = (ch_path c, ch_kind c, case ch_file_id c of None \<Rightarrow> [] | Some i \<Rightarrow> i)"

definition detect_local_workspace_changes ::
  "(string \<Rightarrow> string) \<Rightarrow> workspace \<Rightarrow> filemap_document \<Rightarrow> change_set result" where
  "detect_local_workspace_changes sha ws d =
     (let tracked_records = filter (\<lambda>r. fr_status r \<noteq> ''deleted''
            \<and> \<not> is_volatile_workspace_file_path (fr_path r)) (fd_files d) in
      rbind (mapM (\<lambda>r. normalize_relative_path (fr_path r)) tracked_records) (\<lambda>tracked_paths.
      rbind (mapM (build_modified_record sha ws) tracked_records) (\<lambda>found.
      rbind (iter_workspace_files ws) (\<lambda>files.
      let tracked_changes = List.map_filter id found;
          untracked = map (untracked_change sha)
            (filter (\<lambda>e. as_posix (fst e) \<notin> set tracked_paths) files);
          changes = tracked_changes @ untracked in
      Inr \<lparr>cs_vault_id = fd_vault_id d,
           cs_tracked_record_count = int (length tracked_records),
           cs_change_count = int (length changes),
           cs_modified_file_ids = sort (ids_of_kind ''modified'' tracked_changes),
           cs_missing_file_ids = sort (ids_of_kind ''missing'' tracked_changes),
           cs_changes = sort_key change_key changes\<rparr>))))"

section \<open>Facts about paths\<close>

lemma split_slash_not_Nil [simp]: "split_slash s \<noteq> []"
  by (cases s) auto

lemma split_slash_free: "p \<in> set (split_slash s) \<Longrightarrow> CHR ''/'' \<notin> set p"
proof (induction s arbitrary: p)
  case (Cons c s)
  have "hd (split_slash s) \<in> set (split_slash s)" by simp
  then show ?case using Cons by (auto split: if_splits dest: list.set_sel(2) [rotated])
qed simp

lemma split_slash_append:
  "CHR ''/'' \<notin> set p \<Longrightarrow> split_slash (p @ s) = (p @ hd (split_slash s)) # tl (split_slash s)"
  by (induction p) auto

lemma split_slash_join:
  "ps \<noteq> [] \<Longrightarrow> \<forall>p \<in> set ps. CHR ''/'' \<notin> set p \<Longrightarrow> split_slash (join ''/'' ps) = ps"
proof (induction ps rule: induct_list012)
  case (2 p)
  then show ?case using split_slash_append [of p "[]"] by simp
qed (simp_all add: split_slash_append)

definition clean_parts :: "string list \<Rightarrow> bool" where
  "clean_parts ps \<longleftrightarrow> (\<forall>p \<in> set ps. p \<noteq> [] \<and> p \<noteq> ''.'' \<and> p \<noteq> ''..'' \<and> CHR ''/'' \<notin> set p)"

lemma path_parts_as_posix [simp]: "clean_parts ps \<Longrightarrow> path_parts (as_posix ps) = ps"
  by (auto simp: path_parts_def as_posix_def split_slash_join clean_parts_def)

lemma clean_path_parts: "''..'' \<notin> set (path_parts s) \<Longrightarrow> clean_parts (path_parts s)"
  by (auto simp: path_parts_def clean_parts_def dest: split_slash_free)

lemma as_posix_root: "clean_parts ps \<Longrightarrow> as_posix ps \<noteq> [] \<and> hd (as_posix ps) \<noteq> CHR ''/''"
proof (cases ps)
  case (Cons p qs)
  moreover assume "clean_parts ps"
  ultimately show ?thesis by (cases p; cases qs) (auto simp: as_posix_def clean_parts_def)
qed (simp add: as_posix_def)

lemma normalize_relative_path_as_posix [simp]:
  "clean_parts ps \<Longrightarrow> normalize_relative_path (as_posix ps) = Inr (as_posix ps)"
  using as_posix_root [of ps] by (auto simp: normalize_relative_path_def clean_parts_def)

lemma normalize_relative_path_eq_Inr:
  "normalize_relative_path s = Inr n \<longleftrightarrow>
     (s = [] \<or> hd s \<noteq> CHR ''/'') \<and> clean_parts (path_parts s) \<and> n = as_posix (path_parts s)"
  by (auto simp: normalize_relative_path_def dest: clean_path_parts) (auto simp: clean_parts_def)

lemma resolve_workspace_file_path_eq_Inr:
  "resolve_workspace_file_path s = Inr ps \<longleftrightarrow>
     (s = [] \<or> hd s \<noteq> CHR ''/'') \<and> clean_parts (path_parts s) \<and> ps = path_parts s"
  by (auto simp: resolve_workspace_file_path_def result_simps normalize_relative_path_eq_Inr)

lemma as_posix_inj: "clean_parts ps \<Longrightarrow> clean_parts qs \<Longrightarrow> as_posix ps = as_posix qs \<Longrightarrow> ps = qs"
  by (metis path_parts_as_posix)

section \<open>What the detection finds\<close>

definition wf_workspace :: "workspace \<Rightarrow> bool" where
  "wf_workspace ws \<longleftrightarrow> distinct (map fst ws) \<and> (\<forall>e \<in> set ws. fst e \<noteq> [] \<and> clean_parts (fst e))"

definition file_at :: "workspace \<Rightarrow> string \<Rightarrow> disk_file option" where
  "file_at ws p = map_of ws (path_parts p)"

definition disk_hash :: "(string \<Rightarrow> string) \<Rightarrow> workspace \<Rightarrow> string \<Rightarrow> string option" where
  "disk_hash sha ws p = map_option (\<lambda>f. sha256_hex sha (df_bytes f)) (file_at ws p)"

definition safe_path :: "string \<Rightarrow> bool" where
  "safe_path p \<longleftrightarrow> (p = [] \<or> hd p \<noteq> CHR ''/'') \<and> clean_parts (path_parts p)"

text \<open>The records the detection follows, and the files it looks at.\<close>

definition tracked :: "file_record \<Rightarrow> bool" where
  "tracked r \<longleftrightarrow> live r \<and> \<not> is_volatile_workspace_file_path (fr_path r)"

definition synced :: "string list \<Rightarrow> bool" where
  "synced ps \<longleftrightarrow> NOTEAPP_DIRNAME \<notin> set ps \<and> ps \<noteq> [VAULTINFO_FILENAME]
     \<and> is_sync_excluded_workspace_path (as_posix ps) = Inr False"

definition tracked_path :: "filemap_document \<Rightarrow> string \<Rightarrow> bool" where
  "tracked_path d p \<longleftrightarrow> (\<exists>r \<in> set (fd_files d). tracked r \<and> as_posix (path_parts (fr_path r)) = p)"

definition untracked_files :: "workspace \<Rightarrow> filemap_document \<Rightarrow> workspace" where
  "untracked_files ws d = filter (\<lambda>e. synced (fst e) \<and> \<not> tracked_path d (as_posix (fst e))) ws"

lemma normalize_eq_safe: "normalize_relative_path p = Inr n \<longleftrightarrow> safe_path p \<and> n = as_posix (path_parts p)"
  by (auto simp: normalize_relative_path_eq_Inr safe_path_def)

lemma read_file_eq_Inr [result_simps]:
  "read_file ws p = Inr f \<longleftrightarrow> safe_path p \<and> file_at ws p = Some f"
  by (auto simp: read_file_def result_simps resolve_workspace_file_path_eq_Inr safe_path_def
      file_at_def split: option.splits)

lemma safe_as_posix [simp]: "clean_parts ps \<Longrightarrow> safe_path (as_posix ps)"
  using as_posix_root [of ps] by (simp add: safe_path_def)

lemma file_at_as_posix [simp]: "clean_parts ps \<Longrightarrow> file_at ws (as_posix ps) = map_of ws ps"
  by (simp add: file_at_def)

lemma file_at_normal:
  "safe_path p \<Longrightarrow> file_at ws (as_posix (path_parts p)) = file_at ws p"
  "safe_path p \<Longrightarrow> safe_path (as_posix (path_parts p))"
  by (auto simp: safe_path_def file_at_def dest: as_posix_root)

lemma normalize_safe [simp]:
  "safe_path p \<Longrightarrow> normalize_relative_path p = Inr (as_posix (path_parts p))"
  "safe_path p \<Longrightarrow> resolve_workspace_file_path p = Inr (path_parts p)"
  by (auto simp: normalize_eq_safe resolve_workspace_file_path_eq_Inr safe_path_def)

lemma file_at_SomeD:
  assumes "wf_workspace ws" "file_at ws p = Some f"
  shows "(path_parts p, f) \<in> set ws" "clean_parts (path_parts p)" "path_parts p \<noteq> []"
  using assms by (auto simp: file_at_def wf_workspace_def dest: map_of_SomeD)

lemma file_at_mem: "wf_workspace ws \<Longrightarrow> (ps, f) \<in> set ws \<Longrightarrow> file_at ws (as_posix ps) = Some f"
  by (auto simp: wf_workspace_def)

lemma is_sync_excluded_total:
  assumes "clean_parts ps"
  shows "\<exists>b. is_sync_excluded_workspace_path (as_posix ps) = Inr b"
  using assms by (simp add: is_sync_excluded_workspace_path_def Let_def)

lemma iter_workspace_files_eq:
  assumes "wf_workspace ws"
  shows "iter_workspace_files ws = Inr (filter (\<lambda>e. synced (fst e)) ws)"
proof -
  have "foldM (\<lambda>acc (ps, f).
     if NOTEAPP_DIRNAME \<in> set ps \<or> ps = [VAULTINFO_FILENAME] then Inr acc
     else rbind (is_sync_excluded_workspace_path (as_posix ps)) (\<lambda>excluded.
       Inr (if excluded then acc else acc @ [(ps, f)]))) acc es
    = Inr (acc @ filter (\<lambda>e. synced (fst e)) es)" if "set es \<subseteq> set ws" for acc es
    using that
  proof (induction es arbitrary: acc)
    case (Cons e es)
    obtain ps f where e: "e = (ps, f)" by (cases e)
    then have "clean_parts ps" using Cons.prems assms by (auto simp: wf_workspace_def)
    then obtain b where "is_sync_excluded_workspace_path (as_posix ps) = Inr b"
      using is_sync_excluded_total by blast
    with Cons e show ?case by (auto simp: synced_def)
  qed simp
  from this [of ws "[]"] show ?thesis by (simp add: iter_workspace_files_def)
qed

definition edited_on_disk :: "(string \<Rightarrow> string) \<Rightarrow> workspace \<Rightarrow> file_record \<Rightarrow> bool" where
  "edited_on_disk sha ws r \<longleftrightarrow> tracked r \<and> file_at ws (fr_path r) \<noteq> None
     \<and> disk_hash sha ws (fr_path r) \<noteq> fr_content_hash r"

definition gone :: "workspace \<Rightarrow> file_record \<Rightarrow> bool" where
  "gone ws r \<longleftrightarrow> tracked r \<and> file_at ws (fr_path r) = None"

text \<open>The change a tracked record gives, if any.\<close>

definition missing_change :: "file_record \<Rightarrow> change_record" where
  "missing_change r = \<lparr>ch_kind = ''missing'', ch_path = as_posix (path_parts (fr_path r)),
     ch_file_id = Some (fr_file_id r), ch_file_type = fr_type r,
     ch_record_status = Some (fr_status r), ch_content_hash = fr_content_hash r,
     ch_size_bytes = None, ch_mtime_ms = None\<rparr>"

definition modified_change :: "(string \<Rightarrow> string) \<Rightarrow> file_record \<Rightarrow> disk_file \<Rightarrow> change_record" where
  "modified_change sha r f = \<lparr>ch_kind = ''modified'', ch_path = as_posix (path_parts (fr_path r)),
     ch_file_id = Some (fr_file_id r), ch_file_type = fr_type r,
     ch_record_status = Some (fr_status r),
     ch_content_hash = Some (sha256_hex sha (df_bytes f)),
     ch_size_bytes = Some (int (length (df_bytes f))), ch_mtime_ms = Some (mtime_ms f)\<rparr>"

definition record_change ::
  "(string \<Rightarrow> string) \<Rightarrow> workspace \<Rightarrow> file_record \<Rightarrow> change_record option" where
  "record_change sha ws r = (case file_at ws (fr_path r) of
     None \<Rightarrow> Some (missing_change r)
   | Some f \<Rightarrow> if disk_hash sha ws (fr_path r) = fr_content_hash r then None
       else Some (modified_change sha r f))"

lemmas change_defs = missing_change_def modified_change_def untracked_change_def

lemma change_fields [simp]:
  "ch_kind (missing_change r) = ''missing''" "ch_kind (modified_change sha r f) = ''modified''"
  "ch_kind (untracked_change sha e) = ''untracked''"
  "ch_file_id (missing_change r) = Some (fr_file_id r)"
  "ch_file_id (modified_change sha r f) = Some (fr_file_id r)"
  "ch_file_id (untracked_change sha e) = None"
  "ch_record_status (missing_change r) = Some (fr_status r)"
  "ch_record_status (modified_change sha r f) = Some (fr_status r)"
  "ch_content_hash (missing_change r) = fr_content_hash r"
  "ch_content_hash (untracked_change sha e) = Some (sha256_hex sha (df_bytes (snd e)))"
  "ch_path (missing_change r) = as_posix (path_parts (fr_path r))"
  "ch_path (untracked_change sha e) = as_posix (fst e)"
  "ch_file_type (untracked_change sha e) = infer_workspace_type (as_posix (fst e))"
  by (simp_all add: change_defs)

lemma build_modified_record_eq_Inr:
  "build_modified_record sha ws r = Inr c \<longleftrightarrow> safe_path (fr_path r) \<and> c = record_change sha ws r"
proof (cases "safe_path (fr_path r)")
  case True
  then show ?thesis
    by (auto simp: build_modified_record_def record_change_def disk_hash_def file_at_def change_defs
        Let_def split: option.splits)
qed (auto simp: build_modified_record_def result_simps resolve_workspace_file_path_eq_Inr safe_path_def)

lemma mapM_partial_eq_Inr:
  assumes "\<And>x y. f x = Inr y \<longleftrightarrow> P x \<and> y = g x"
  shows "mapM f xs = Inr ys \<longleftrightarrow> (\<forall>x \<in> set xs. P x) \<and> ys = map g xs"
  by (induction xs arbitrary: ys) (auto simp: result_simps assms)

text \<open>The detection as one equation: what it reports, in the order of the records and of the
  directory walk, before it is sorted.\<close>

definition found_changes ::
  "(string \<Rightarrow> string) \<Rightarrow> workspace \<Rightarrow> filemap_document \<Rightarrow> change_record list" where
  "found_changes sha ws d = List.map_filter (record_change sha ws) (filter tracked (fd_files d))"

lemma detect_eq_Inr:
  assumes "wf_workspace ws"
  shows "detect_local_workspace_changes sha ws d = Inr cs \<longleftrightarrow>
    (\<forall>r \<in> set (fd_files d). tracked r \<longrightarrow> safe_path (fr_path r)) \<and>
    cs = (let changes = found_changes sha ws d @ map (untracked_change sha) (untracked_files ws d) in
      \<lparr>cs_vault_id = fd_vault_id d, cs_tracked_record_count = int (length (filter tracked (fd_files d))),
       cs_change_count = int (length changes),
       cs_modified_file_ids = sort (ids_of_kind ''modified'' (found_changes sha ws d)),
       cs_missing_file_ids = sort (ids_of_kind ''missing'' (found_changes sha ws d)),
       cs_changes = sort_key change_key changes\<rparr>)"
proof -
  have t: "(\<lambda>r. fr_status r \<noteq> ''deleted'' \<and> \<not> is_volatile_workspace_file_path (fr_path r)) = tracked"
    by (auto simp: tracked_def live_def)
  have u: "filter (\<lambda>e. synced (fst e) \<and> as_posix (fst e)
      \<notin> (\<lambda>r. as_posix (path_parts (fr_path r))) ` {r \<in> set (fd_files d). tracked r}) ws
    = untracked_files ws d"
    unfolding untracked_files_def by (rule filter_cong) (auto simp: tracked_path_def image_iff)
  have f: "List.map_filter id (map (record_change sha ws) (filter tracked (fd_files d)))
      = found_changes sha ws d"
    by (simp add: found_changes_def List.map_filter_def filter_map o_def)
  show ?thesis
    unfolding detect_local_workspace_changes_def t iter_workspace_files_eq [OF assms]
    by (auto simp: result_simps Let_def f filter_filter u
      mapM_partial_eq_Inr [where P = "\<lambda>r. safe_path (fr_path r)", OF normalize_eq_safe]
      mapM_partial_eq_Inr [where P = "\<lambda>r. safe_path (fr_path r)", OF build_modified_record_eq_Inr])
qed

lemma set_map_filter: "y \<in> set (List.map_filter f xs) \<longleftrightarrow> (\<exists>x \<in> set xs. f x = Some y)"
  by (force simp: List.map_filter_def)

lemma set_found_changes:
  "c \<in> set (found_changes sha ws d) \<longleftrightarrow> (\<exists>r \<in> set (fd_files d).
     gone ws r \<and> c = missing_change r
     \<or> edited_on_disk sha ws r \<and> (\<exists>f. file_at ws (fr_path r) = Some f \<and> c = modified_change sha r f))"
proof -
  have "tracked r \<and> record_change sha ws r = Some c \<longleftrightarrow> gone ws r \<and> c = missing_change r
     \<or> edited_on_disk sha ws r \<and> (\<exists>f. file_at ws (fr_path r) = Some f \<and> c = modified_change sha r f)" for r
    by (auto simp: record_change_def gone_def edited_on_disk_def split: option.splits if_splits)
  then show ?thesis by (simp add: found_changes_def set_map_filter Bex_def conj_assoc)
qed

lemma found_ids:
  "i \<in> set (ids_of_kind ''modified'' (found_changes sha ws d)) \<longleftrightarrow>
     (\<exists>r \<in> set (fd_files d). edited_on_disk sha ws r \<and> fr_file_id r = i)"
  "i \<in> set (ids_of_kind ''missing'' (found_changes sha ws d)) \<longleftrightarrow>
     (\<exists>r \<in> set (fd_files d). gone ws r \<and> fr_file_id r = i)"
proof -
  have k: "i \<in> set (ids_of_kind k cs) \<longleftrightarrow> (\<exists>c. c \<in> set cs \<and> ch_kind c = k \<and> ch_file_id c = Some i)" for k cs
    by (auto simp: ids_of_kind_def set_map_filter split: if_splits)
  have f: "edited_on_disk sha ws r \<Longrightarrow> \<exists>f. file_at ws (fr_path r) = Some f" for r by (simp add: edited_on_disk_def)
  show "i \<in> set (ids_of_kind ''modified'' (found_changes sha ws d)) \<longleftrightarrow>
     (\<exists>r \<in> set (fd_files d). edited_on_disk sha ws r \<and> fr_file_id r = i)"
    unfolding k set_found_changes by (auto dest: f) (metis change_fields(2,5) f)
  show "i \<in> set (ids_of_kind ''missing'' (found_changes sha ws d)) \<longleftrightarrow>
     (\<exists>r \<in> set (fd_files d). gone ws r \<and> fr_file_id r = i)"
    unfolding k set_found_changes by auto
qed

lemma detectD:
  assumes ws: "wf_workspace ws" and cs: "detect_local_workspace_changes sha ws d = Inr cs"
  shows "r \<in> set (fd_files d) \<Longrightarrow> tracked r \<Longrightarrow> safe_path (fr_path r)"
    and "i \<in> set (cs_modified_file_ids cs) \<longleftrightarrow>
      (\<exists>r \<in> set (fd_files d). edited_on_disk sha ws r \<and> fr_file_id r = i)"
    and "i \<in> set (cs_missing_file_ids cs) \<longleftrightarrow>
      (\<exists>r \<in> set (fd_files d). gone ws r \<and> fr_file_id r = i)"
    and "c \<in> set (cs_changes cs) \<longleftrightarrow>
      c \<in> set (found_changes sha ws d) \<or> (\<exists>e \<in> set (untracked_files ws d). c = untracked_change sha e)"
  using cs by (auto simp: detect_eq_Inr [OF ws] Let_def found_ids)

end
