(* ===== verification/Pull_Plan.thy ===== *)
theory Pull_Plan
  imports Change_Detection Sync_Apply
begin

text \<open>
  \<open>clients/desktop/service.py\<close>: planning what a pulled manifest does to the workspace. The plan
  lists the files to write, to move and to delete, and the paths that are both left and taken
  (\<open>blocking_paths\<close>), which the application below clears before it fills them. It is kept in a file so
  that an interrupted application can be replayed.
\<close>

section \<open>The plan\<close>

record pull_write =
  px_file_id :: string
  px_target_path :: string
  px_staging_path :: string
  px_type :: string
  px_content_hash :: string
  px_previous_path :: "string option"
  px_expected_previous_content_hash :: "string option"

record pull_move =
  pm_file_id :: string
  pm_source_path :: string
  pm_target_path :: string
  pm_type :: string
  pm_content_hash :: string

record pull_delete =
  pd_file_id :: string
  pd_path :: string
  pd_reason :: string
  pd_expected_content_hash :: "string option"

record pull_plan =
  pp_vault_id :: string
  pp_revision :: int
  pp_writes :: "pull_write list"
  pp_moves :: "pull_move list"
  pp_deletes :: "pull_delete list"
  pp_blocking_paths :: "string list"
  pp_ops_hash :: string

definition STAGING_DIRNAME :: string where
  "STAGING_DIRNAME = ''.noteapp/staging''"

definition build_pull_apply_staging_relative_path :: "string \<Rightarrow> string result" where
  "build_pull_apply_staging_relative_path file_id =
     (if file_id = [] \<or> CHR ''/'' \<in> set file_id \<or> char_of (92 :: nat) \<in> set file_id
        \<or> file_id \<in> {''.'', ''..''}
      then Inl (ValueError (''file_id is not safe for staging: '' @ file_id))
      else Inr (STAGING_DIRNAME @ ''/'' @ file_id @ ''.staging''))"

text \<open>The values of \<open>{k(x): x for x in xs}\<close>, in the order in which the keys were first seen.\<close>

definition dict_values :: "('a \<Rightarrow> 'k) \<Rightarrow> 'a list \<Rightarrow> 'a list" where
  "dict_values k xs = List.map_filter (dict_of k xs) (rev (remdups (rev (map k xs))))"

definition active_records :: "filemap_document \<Rightarrow> file_record list" where
  "active_records d = filter (\<lambda>r. fr_status r = ''active'') (fd_files d)"

text \<open>What one file of the manifest asks for.\<close>

definition plan_entry ::
  "filemap_document \<Rightarrow> manifest_file \<Rightarrow> (pull_write list \<times> pull_move list \<times> pull_delete list) result" where
  "plan_entry d e =
     (let prior = dict_of fr_file_id (active_records d) (mf_file_id e) in
      if (case prior of None \<Rightarrow> True | Some r \<Rightarrow> fr_content_hash r \<noteq> Some (mf_content_hash e))
      then rbind (build_pull_apply_staging_relative_path (mf_file_id e)) (\<lambda>staging_path.
        Inr ([\<lparr>px_file_id = mf_file_id e, px_target_path = mf_path e, px_staging_path = staging_path,
               px_type = mf_type e, px_content_hash = mf_content_hash e,
               px_previous_path = map_option fr_path prior,
               px_expected_previous_content_hash = Option.bind prior fr_content_hash\<rparr>],
             [],
             (case prior of
                None \<Rightarrow> []
              | Some r \<Rightarrow> if fr_path r = mf_path e then []
                  else [\<lparr>pd_file_id = mf_file_id e, pd_path = fr_path r, pd_reason = ''replaced_old_path'',
                         pd_expected_content_hash = fr_content_hash r\<rparr>])))
      else Inr ([],
        (case prior of
           None \<Rightarrow> []
         | Some r \<Rightarrow> if fr_path r = mf_path e then []
             else [\<lparr>pm_file_id = mf_file_id e, pm_source_path = fr_path r, pm_target_path = mf_path e,
                    pm_type = mf_type e, pm_content_hash = mf_content_hash e\<rparr>]),
        []))"

definition gone_records :: "filemap_document \<Rightarrow> manifest \<Rightarrow> pull_delete list" where
  "gone_records d m = map (\<lambda>r. \<lparr>pd_file_id = fr_file_id r, pd_path = fr_path r, pd_reason = ''deleted'',
       pd_expected_content_hash = fr_content_hash r\<rparr>)
     (filter (\<lambda>r. fr_file_id r \<notin> mf_file_id ` set (mn_files m))
       (dict_values fr_file_id (active_records d)))"

definition blocking_paths ::
  "pull_write list \<Rightarrow> pull_move list \<Rightarrow> pull_delete list \<Rightarrow> string list" where
  "blocking_paths writes moves deletes =
     (let source_paths = map pm_source_path moves @ map pd_path deletes;
          target_paths = map px_target_path writes @ map pm_target_path moves in
      sorted_set (filter (\<lambda>p. p \<in> set source_paths) target_paths))"

section \<open>The plan as JSON\<close>

text \<open>\<open>json.dumps(_, sort_keys=True, separators=(",", ":"))\<close>: characters outside the printable
  ASCII range are written as escapes.\<close>

definition esc_ascii :: "char \<Rightarrow> string" where
  "esc_ascii c =
     (let n = (of_char c :: nat) in
      if n < 127 then esc_char c
      else char_of (92 :: nat) # ''u00'' @ [hex_digit (n div 16), hex_digit (n mod 16)])"

definition quote_ascii :: "string \<Rightarrow> string" where
  "quote_ascii s = char_of (34 :: nat) # concat (map esc_ascii s) @ [char_of (34 :: nat)]"

fun json_dumps_ascii :: "json \<Rightarrow> string" where
  "json_dumps_ascii JNull = ''null''"
| "json_dumps_ascii (JBool b) = (if b then ''true'' else ''false'')"
| "json_dumps_ascii (JInt i) = int_str i"
| "json_dumps_ascii (JFloat s) = s"
| "json_dumps_ascii (JStr s) = quote_ascii s"
| "json_dumps_ascii (JArr vs) = ''['' @ join '','' (map json_dumps_ascii vs) @ '']''"
| "json_dumps_ascii (JObj kvs) =
     ''{'' @ join '','' (map (\<lambda>(k, t). quote_ascii k @ '':'' @ t)
              (sort_key fst (map (\<lambda>(k, v). (k, json_dumps_ascii v)) kvs))) @ ''}''"

definition write_to_json :: "pull_write \<Rightarrow> json" where
  "write_to_json w = JObj
     [(''file_id'', JStr (px_file_id w)), (''target_path'', JStr (px_target_path w)),
      (''staging_path'', JStr (px_staging_path w)), (''type'', JStr (px_type w)),
      (''content_hash'', JStr (px_content_hash w)),
      (''previous_path'', opt_json JStr (px_previous_path w)),
      (''expected_previous_content_hash'', opt_json JStr (px_expected_previous_content_hash w))]"

definition move_to_json :: "pull_move \<Rightarrow> json" where
  "move_to_json m = JObj
     [(''file_id'', JStr (pm_file_id m)), (''source_path'', JStr (pm_source_path m)),
      (''target_path'', JStr (pm_target_path m)), (''type'', JStr (pm_type m)),
      (''content_hash'', JStr (pm_content_hash m))]"

definition delete_to_json :: "pull_delete \<Rightarrow> json" where
  "delete_to_json x = JObj
     [(''file_id'', JStr (pd_file_id x)), (''path'', JStr (pd_path x)),
      (''reason'', JStr (pd_reason x)),
      (''expected_content_hash'', opt_json JStr (pd_expected_content_hash x))]"

definition plan_entries :: "pull_plan \<Rightarrow> dict" where
  "plan_entries p =
     [(''vault_id'', JStr (pp_vault_id p)), (''revision'', JInt (pp_revision p)),
      (''writes'', JArr (map write_to_json (pp_writes p))),
      (''moves'', JArr (map move_to_json (pp_moves p))),
      (''deletes'', JArr (map delete_to_json (pp_deletes p))),
      (''blocking_paths'', JArr (map JStr (pp_blocking_paths p)))]"

definition build_pull_apply_plan_ops_hash :: "(string \<Rightarrow> string) \<Rightarrow> pull_plan \<Rightarrow> string" where
  "build_pull_apply_plan_ops_hash sha p = sha256_hex sha (json_dumps_ascii (JObj (plan_entries p)))"

definition build_pull_apply_plan ::
  "(string \<Rightarrow> string) \<Rightarrow> filemap_document \<Rightarrow> manifest option \<Rightarrow> pull_plan result" where
  "build_pull_apply_plan sha d manifest = (case manifest of
     None \<Rightarrow> Inl (ValueError ''pull manifest is required to build pull apply plan'')
   | Some m \<Rightarrow>
       rbind (mapM (plan_entry d) (mn_sorted_files m)) (\<lambda>ops.
       let writes = concat (map fst ops);
           moves = concat (map (fst \<circ> snd) ops);
           deletes = concat (map (snd \<circ> snd) ops) @ gone_records d m;
           plan = \<lparr>pp_vault_id = mn_vault_id m, pp_revision = mn_revision m, pp_writes = writes,
             pp_moves = moves, pp_deletes = deletes,
             pp_blocking_paths = blocking_paths writes moves deletes, pp_ops_hash = []\<rparr> in
       Inr (plan\<lparr>pp_ops_hash := build_pull_apply_plan_ops_hash sha plan\<rparr>)))"

text \<open>The file: \<open>asdict\<close> keeps every field, and reading it passes the entries to the constructors as
  keyword arguments, so a missing or an unknown key raises. As for the other records, a field of
  another type than the client writes is \<open>IllTyped\<close>.\<close>

definition serialize_pull_apply_plan :: "pull_plan \<Rightarrow> json" where
  "serialize_pull_apply_plan p = JObj (plan_entries p @ [(''ops_hash'', JStr (pp_ops_hash p))])"

definition keyword_arguments :: "string list \<Rightarrow> string list \<Rightarrow> dict \<Rightarrow> unit result" where
  "keyword_arguments required optional d =
     (case find (\<lambda>k. k \<notin> set required \<and> k \<notin> set optional) (map fst d) of
        Some k \<Rightarrow> Inl (TypeError (''unexpected keyword argument '' @ k))
      | None \<Rightarrow> (case find (\<lambda>k. map_of d k = None) required of
          Some k \<Rightarrow> Inl (TypeError (''missing argument '' @ k))
        | None \<Rightarrow> Inr ()))"

definition as_text :: "string \<Rightarrow> json \<Rightarrow> string result" where
  "as_text k v = (case v of JStr s \<Rightarrow> Inr s | _ \<Rightarrow> Inl (IllTyped k))"

lemma as_text_JStr [simp]: "as_text k (JStr s) = Inr s"
  by (simp add: as_text_def)

definition write_from_json :: "json \<Rightarrow> pull_write result" where
  "write_from_json v =
     rbind (as_object v) (\<lambda>d.
     rbind (keyword_arguments [''file_id'', ''target_path'', ''staging_path'', ''type'', ''content_hash'']
       [''previous_path'', ''expected_previous_content_hash''] d) (\<lambda>_.
     rbind (as_text ''file_id'' (dget d ''file_id'')) (\<lambda>file_id.
     rbind (as_text ''target_path'' (dget d ''target_path'')) (\<lambda>target_path.
     rbind (as_text ''staging_path'' (dget d ''staging_path'')) (\<lambda>staging_path.
     rbind (as_text ''type'' (dget d ''type'')) (\<lambda>type.
     rbind (as_text ''content_hash'' (dget d ''content_hash'')) (\<lambda>content_hash.
     rbind (as_opt_str ''previous_path'' (dget d ''previous_path'')) (\<lambda>previous_path.
     rbind (as_opt_str ''expected_previous_content_hash'' (dget d ''expected_previous_content_hash''))
       (\<lambda>expected.
     Inr \<lparr>px_file_id = file_id, px_target_path = target_path, px_staging_path = staging_path,
       px_type = type, px_content_hash = content_hash, px_previous_path = previous_path,
       px_expected_previous_content_hash = expected\<rparr>)))))))))"

definition move_from_json :: "json \<Rightarrow> pull_move result" where
  "move_from_json v =
     rbind (as_object v) (\<lambda>d.
     rbind (keyword_arguments [''file_id'', ''source_path'', ''target_path'', ''type'', ''content_hash''] [] d)
       (\<lambda>_.
     rbind (as_text ''file_id'' (dget d ''file_id'')) (\<lambda>file_id.
     rbind (as_text ''source_path'' (dget d ''source_path'')) (\<lambda>source_path.
     rbind (as_text ''target_path'' (dget d ''target_path'')) (\<lambda>target_path.
     rbind (as_text ''type'' (dget d ''type'')) (\<lambda>type.
     rbind (as_text ''content_hash'' (dget d ''content_hash'')) (\<lambda>content_hash.
     Inr \<lparr>pm_file_id = file_id, pm_source_path = source_path, pm_target_path = target_path,
       pm_type = type, pm_content_hash = content_hash\<rparr>)))))))"

definition delete_from_json :: "json \<Rightarrow> pull_delete result" where
  "delete_from_json v =
     rbind (as_object v) (\<lambda>d.
     rbind (keyword_arguments [''file_id'', ''path'', ''reason''] [''expected_content_hash''] d) (\<lambda>_.
     rbind (as_text ''file_id'' (dget d ''file_id'')) (\<lambda>file_id.
     rbind (as_text ''path'' (dget d ''path'')) (\<lambda>path.
     rbind (as_text ''reason'' (dget d ''reason'')) (\<lambda>reason.
     rbind (as_opt_str ''expected_content_hash'' (dget d ''expected_content_hash'')) (\<lambda>expected.
     Inr \<lparr>pd_file_id = file_id, pd_path = path, pd_reason = reason,
       pd_expected_content_hash = expected\<rparr>))))))"

definition as_integer :: "string \<Rightarrow> json \<Rightarrow> int result" where
  "as_integer k v = (case v of JInt i \<Rightarrow> Inr i | _ \<Rightarrow> Inl (IllTyped k))"

definition deserialize_pull_apply_plan :: "json \<Rightarrow> pull_plan result" where
  "deserialize_pull_apply_plan v =
     rbind (as_object v) (\<lambda>d.
     rbind (rbind (ditem d ''vault_id'') (as_text ''vault_id'')) (\<lambda>vault_id.
     rbind (rbind (ditem d ''revision'') (as_integer ''revision'')) (\<lambda>revision.
     rbind (rbind (get_list d ''writes'') (mapM write_from_json)) (\<lambda>writes.
     rbind (rbind (get_list d ''moves'') (mapM move_from_json)) (\<lambda>moves.
     rbind (rbind (get_list d ''deletes'') (mapM delete_from_json)) (\<lambda>deletes.
     rbind (rbind (get_list d ''blocking_paths'') (mapM (as_text ''blocking_paths''))) (\<lambda>blocking.
     rbind (rbind (ditem d ''ops_hash'') (as_text ''ops_hash'')) (\<lambda>ops_hash.
     Inr \<lparr>pp_vault_id = vault_id, pp_revision = revision, pp_writes = writes, pp_moves = moves,
       pp_deletes = deletes, pp_blocking_paths = blocking, pp_ops_hash = ops_hash\<rparr>))))))))"

lemma as_opt_str_opt_json [simp]: "as_opt_str k (opt_json JStr x) = Inr x"
  by (cases x) simp_all

lemma write_json_round_trip: "write_from_json (write_to_json w) = Inr w"
  by (simp add: write_from_json_def write_to_json_def keyword_arguments_def dget_def)

lemma move_json_round_trip: "move_from_json (move_to_json m) = Inr m"
  by (simp add: move_from_json_def move_to_json_def keyword_arguments_def dget_def)

lemma delete_json_round_trip: "delete_from_json (delete_to_json x) = Inr x"
  by (simp add: delete_from_json_def delete_to_json_def keyword_arguments_def dget_def)

lemma mapM_map_inverse: "(\<And>x. g (f x) = Inr x) \<Longrightarrow> mapM g (map f xs) = Inr xs"
  by (induction xs) simp_all

lemma plan_json_round_trip: "deserialize_pull_apply_plan (serialize_pull_apply_plan p) = Inr p"
  by (simp add: deserialize_pull_apply_plan_def serialize_pull_apply_plan_def plan_entries_def
      ditem_def get_list_def as_integer_def mapM_map_inverse write_json_round_trip
      move_json_round_trip delete_json_round_trip)

text \<open>C29: the replay file is faithful: reading back the file a plan was written to gives the plan, every
  write, move and delete with its optional fields, the blocking paths and the operations hash that
  the recovery compares with the journal.\<close>

theorem pull_plan_file_round_trip:
  "deserialize_pull_apply_plan (serialize_pull_apply_plan p) = Inr p"
  by (rule plan_json_round_trip)

section \<open>What a plan asks for\<close>

definition safe_file_id :: "string \<Rightarrow> bool" where
  "safe_file_id i \<longleftrightarrow> i \<noteq> [] \<and> CHR ''/'' \<notin> set i \<and> char_of (92 :: nat) \<notin> set i \<and> i \<noteq> ''.'' \<and> i \<noteq> ''..''"

definition staging_path_of :: "string \<Rightarrow> string" where
  "staging_path_of i = STAGING_DIRNAME @ ''/'' @ i @ ''.staging''"

lemma staging_relative_path_eq_Inr [result_simps]:
  "build_pull_apply_staging_relative_path i = Inr p \<longleftrightarrow> safe_file_id i \<and> p = staging_path_of i"
  by (auto simp: build_pull_apply_staging_relative_path_def safe_file_id_def staging_path_of_def)

definition known :: "filemap_document \<Rightarrow> manifest_file \<Rightarrow> file_record option" where
  "known d e = dict_of fr_file_id (active_records d) (mf_file_id e)"

definition changed :: "filemap_document \<Rightarrow> manifest_file \<Rightarrow> bool" where
  "changed d e \<longleftrightarrow> (\<forall>r. known d e = Some r \<longrightarrow> fr_content_hash r \<noteq> Some (mf_content_hash e))"

lemma changed_code [code]:
  "changed d e = (case known d e of None \<Rightarrow> True | Some r \<Rightarrow> fr_content_hash r \<noteq> Some (mf_content_hash e))"
  by (simp add: changed_def split: option.splits)

definition write_of :: "filemap_document \<Rightarrow> manifest_file \<Rightarrow> pull_write" where
  "write_of d e = \<lparr>px_file_id = mf_file_id e, px_target_path = mf_path e,
     px_staging_path = staging_path_of (mf_file_id e), px_type = mf_type e,
     px_content_hash = mf_content_hash e, px_previous_path = map_option fr_path (known d e),
     px_expected_previous_content_hash = Option.bind (known d e) fr_content_hash\<rparr>"

definition move_of :: "file_record \<Rightarrow> manifest_file \<Rightarrow> pull_move" where
  "move_of r e = \<lparr>pm_file_id = mf_file_id e, pm_source_path = fr_path r, pm_target_path = mf_path e,
     pm_type = mf_type e, pm_content_hash = mf_content_hash e\<rparr>"

definition replaced_of :: "file_record \<Rightarrow> manifest_file \<Rightarrow> pull_delete" where
  "replaced_of r e = \<lparr>pd_file_id = mf_file_id e, pd_path = fr_path r,
     pd_reason = ''replaced_old_path'', pd_expected_content_hash = fr_content_hash r\<rparr>"

definition relocated :: "filemap_document \<Rightarrow> manifest_file \<Rightarrow> file_record list" where
  "relocated d e = (case known d e of None \<Rightarrow> [] | Some r \<Rightarrow> if fr_path r = mf_path e then [] else [r])"

definition entry_ops ::
  "filemap_document \<Rightarrow> manifest_file \<Rightarrow> pull_write list \<times> pull_move list \<times> pull_delete list" where
  "entry_ops d e = (if changed d e
     then ([write_of d e], [], map (\<lambda>r. replaced_of r e) (relocated d e))
     else ([], map (\<lambda>r. move_of r e) (relocated d e), []))"

lemma plan_entry_eq_Inr:
  "plan_entry d e = Inr x \<longleftrightarrow> (changed d e \<longrightarrow> safe_file_id (mf_file_id e)) \<and> x = entry_ops d e"
proof -
  have c: "(case known d e of None \<Rightarrow> True | Some r \<Rightarrow> fr_content_hash r \<noteq> Some (mf_content_hash e))
      \<longleftrightarrow> changed d e"
    by (rule changed_code [symmetric])
  show ?thesis
    unfolding plan_entry_def Let_def known_def [symmetric] c
    by (cases "known d e") (auto simp: entry_ops_def result_simps write_of_def move_of_def replaced_of_def
        relocated_def)
qed

lemma build_pull_apply_plan_eq_Inr:
  "build_pull_apply_plan sha d (Some m) = Inr p \<longleftrightarrow>
     (\<forall>e \<in> set (mn_files m). changed d e \<longrightarrow> safe_file_id (mf_file_id e)) \<and>
     (let writes = concat (map (fst \<circ> entry_ops d) (mn_sorted_files m));
          moves = concat (map (fst \<circ> snd \<circ> entry_ops d) (mn_sorted_files m));
          deletes = concat (map (snd \<circ> snd \<circ> entry_ops d) (mn_sorted_files m)) @ gone_records d m;
          plan = \<lparr>pp_vault_id = mn_vault_id m, pp_revision = mn_revision m, pp_writes = writes,
             pp_moves = moves, pp_deletes = deletes,
             pp_blocking_paths = blocking_paths writes moves deletes, pp_ops_hash = []\<rparr> in
      p = plan\<lparr>pp_ops_hash := build_pull_apply_plan_ops_hash sha plan\<rparr>)"
  unfolding build_pull_apply_plan_def Let_def
  by (auto simp: rbind_eq_Inr mapM_partial_eq_Inr [OF plan_entry_eq_Inr] o_assoc comp_def)

lemma dict_values_distinct: "distinct (map k xs) \<Longrightarrow> dict_values k xs = xs"
proof -
  assume d: "distinct (map k xs)"
  have "List.map_filter (dict_of k xs) (map k ys) = ys" if "set ys \<subseteq> set xs" for ys
    using that
  proof (induction ys)
    case (Cons y ys)
    then have "dict_of k xs (k y) = Some y" using dict_of_distinct [OF d] by auto
    with Cons show ?case by (simp add: map_filter_simps)
  qed (simp add: map_filter_simps)
  from this [of xs] d show ?thesis by (simp add: dict_values_def distinct_remdups_id)
qed

text \<open>The plan in closed form, for documents and manifests without duplicates.\<close>

definition pull_input :: "filemap_document \<Rightarrow> manifest \<Rightarrow> bool" where
  "pull_input d m \<longleftrightarrow> distinct (map fr_file_id (active_records d)) \<and> distinct (map fr_path (active_records d))
     \<and> distinct (map mf_file_id (mn_files m)) \<and> distinct (map mf_path (mn_files m))"

definition relocates :: "filemap_document \<Rightarrow> manifest_file \<Rightarrow> bool" where
  "relocates d e \<longleftrightarrow> (\<exists>r. known d e = Some r \<and> fr_path r \<noteq> mf_path e)"

definition known_record :: "filemap_document \<Rightarrow> manifest_file \<Rightarrow> file_record" where
  "known_record d e = (case known d e of Some r \<Rightarrow> r | None \<Rightarrow> undefined)"

lemma relocated_eq: "relocated d e = (if relocates d e then [known_record d e] else [])"
  by (auto simp: relocated_def relocates_def known_record_def split: option.splits)

lemma concat_if: "concat (map (\<lambda>x. if P x then [f x] else []) xs) = map f (filter P xs)"
  by (induction xs) auto

lemma plan_lists:
  assumes "build_pull_apply_plan sha d (Some m) = Inr p" "pull_input d m"
  shows "pp_writes p = map (write_of d) (filter (changed d) (mn_sorted_files m))"
    and "pp_moves p = map (\<lambda>e. move_of (known_record d e) e)
      (filter (\<lambda>e. \<not> changed d e \<and> relocates d e) (mn_sorted_files m))"
    and "pp_deletes p = map (\<lambda>e. replaced_of (known_record d e) e)
        (filter (\<lambda>e. changed d e \<and> relocates d e) (mn_sorted_files m))
      @ map (\<lambda>r. \<lparr>pd_file_id = fr_file_id r, pd_path = fr_path r, pd_reason = ''deleted'',
          pd_expected_content_hash = fr_content_hash r\<rparr>)
        (filter (\<lambda>r. fr_file_id r \<notin> mf_file_id ` set (mn_files m)) (active_records d))"
    and "pp_blocking_paths p = blocking_paths (pp_writes p) (pp_moves p) (pp_deletes p)"
    and "pp_vault_id p = mn_vault_id m" "pp_revision p = mn_revision m"
proof -
  have w: "fst \<circ> entry_ops d = (\<lambda>e. if changed d e then [write_of d e] else [])"
    by (auto simp: entry_ops_def)
  have mv: "fst \<circ> snd \<circ> entry_ops d
      = (\<lambda>e. if \<not> changed d e \<and> relocates d e then [move_of (known_record d e) e] else [])"
    by (auto simp: entry_ops_def relocated_eq)
  have x: "snd \<circ> snd \<circ> entry_ops d
      = (\<lambda>e. if changed d e \<and> relocates d e then [replaced_of (known_record d e) e] else [])"
    by (auto simp: entry_ops_def relocated_eq)
  note p = assms(1) [unfolded build_pull_apply_plan_eq_Inr Let_def w mv x concat_if, THEN conjunct2]
  show "pp_writes p = map (write_of d) (filter (changed d) (mn_sorted_files m))"
    "pp_moves p = map (\<lambda>e. move_of (known_record d e) e)
      (filter (\<lambda>e. \<not> changed d e \<and> relocates d e) (mn_sorted_files m))"
    "pp_blocking_paths p = blocking_paths (pp_writes p) (pp_moves p) (pp_deletes p)"
    "pp_vault_id p = mn_vault_id m" "pp_revision p = mn_revision m"
    by (simp_all add: p)
  show "pp_deletes p = map (\<lambda>e. replaced_of (known_record d e) e)
        (filter (\<lambda>e. changed d e \<and> relocates d e) (mn_sorted_files m))
      @ map (\<lambda>r. \<lparr>pd_file_id = fr_file_id r, pd_path = fr_path r, pd_reason = ''deleted'',
          pd_expected_content_hash = fr_content_hash r\<rparr>)
        (filter (\<lambda>r. fr_file_id r \<notin> mf_file_id ` set (mn_files m)) (active_records d))"
    using assms(2) by (simp add: p gone_records_def pull_input_def dict_values_distinct)
qed

definition plan_targets :: "pull_plan \<Rightarrow> string list" where
  "plan_targets p = map px_target_path (pp_writes p) @ map pm_target_path (pp_moves p)"

definition plan_sources :: "pull_plan \<Rightarrow> string list" where
  "plan_sources p = map pm_source_path (pp_moves p) @ map pd_path (pp_deletes p)"

text \<open>The specification: the hash at a path after the plan, from the hash before.\<close>

definition target_hash :: "pull_plan \<Rightarrow> string \<Rightarrow> string option" where
  "target_hash p q = map_of (map (\<lambda>w. (px_target_path w, px_content_hash w)) (pp_writes p)
     @ map (\<lambda>v. (pm_target_path v, pm_content_hash v)) (pp_moves p)) q"

definition plan_effect :: "pull_plan \<Rightarrow> (string \<Rightarrow> string option) \<Rightarrow> string \<Rightarrow> string option" where
  "plan_effect p f q = (case target_hash p q of
     Some h \<Rightarrow> Some h | None \<Rightarrow> if q \<in> set (plan_sources p) then None else f q)"

definition path_content :: "filemap_document \<Rightarrow> string \<Rightarrow> string option" where
  "path_content d q = (case dict_of fr_path (active_records d) q of None \<Rightarrow> None | Some r \<Rightarrow> fr_content_hash r)"

definition manifest_content :: "manifest \<Rightarrow> string \<Rightarrow> string option" where
  "manifest_content m q = map_option mf_content_hash (dict_of mf_path (mn_files m) q)"

lemma known_iff:
  assumes "pull_input d m"
  shows "known d e = Some r \<longleftrightarrow> r \<in> set (active_records d) \<and> fr_file_id r = mf_file_id e"
  using assms by (auto simp: known_def pull_input_def dict_of_distinct)

lemma plan_targets_distinct:
  assumes p: "build_pull_apply_plan sha d (Some m) = Inr p" and i: "pull_input d m"
  shows "distinct (plan_targets p)" "target_hash p q = Some h \<longleftrightarrow>
    (\<exists>e \<in> set (mn_files m). mf_path e = q \<and> mf_content_hash e = h \<and> (changed d e \<or> relocates d e))"
    "q \<in> set (plan_targets p) \<longleftrightarrow> (\<exists>e \<in> set (mn_files m). mf_path e = q \<and> (changed d e \<or> relocates d e))"
proof -
  have d: "distinct (map mf_path (mn_sorted_files m))"
    using i by (simp add: pull_input_def mn_sorted_files_def)
  have t: "plan_targets p = map mf_path (filter (changed d) (mn_sorted_files m)
      @ filter (\<lambda>e. \<not> changed d e \<and> relocates d e) (mn_sorted_files m))"
    by (simp add: plan_targets_def plan_lists [OF p i] o_def write_of_def move_of_def)
  show "distinct (plan_targets p)"
    unfolding t using d by (auto simp: distinct_map distinct_map_filter dest: inj_onD intro: inj_on_subset)
  have "map fst (map (\<lambda>w. (px_target_path w, px_content_hash w)) (pp_writes p)
     @ map (\<lambda>v. (pm_target_path v, pm_content_hash v)) (pp_moves p)) = plan_targets p"
    by (simp add: plan_targets_def)
  then have "distinct (map fst (map (\<lambda>w. (px_target_path w, px_content_hash w)) (pp_writes p)
     @ map (\<lambda>v. (pm_target_path v, pm_content_hash v)) (pp_moves p)))"
    using \<open>distinct (plan_targets p)\<close> by simp
  then have "target_hash p q = Some h \<longleftrightarrow> (q, h) \<in> set (map (\<lambda>w. (px_target_path w, px_content_hash w)) (pp_writes p)
     @ map (\<lambda>v. (pm_target_path v, pm_content_hash v)) (pp_moves p))"
    unfolding target_hash_def by (rule map_of_eq_Some_iff)
  then show "target_hash p q = Some h \<longleftrightarrow>
    (\<exists>e \<in> set (mn_files m). mf_path e = q \<and> mf_content_hash e = h \<and> (changed d e \<or> relocates d e))"
    by (auto simp: plan_lists [OF p i] write_of_def move_of_def)
  show "q \<in> set (plan_targets p) \<longleftrightarrow>
      (\<exists>e \<in> set (mn_files m). mf_path e = q \<and> (changed d e \<or> relocates d e))"
    unfolding t by auto
qed

lemma known_recordD: "known d e = Some r \<Longrightarrow> known_record d e = r"
  by (simp add: known_record_def)

lemma plan_sources_iff:
  assumes p: "build_pull_apply_plan sha d (Some m) = Inr p" and i: "pull_input d m"
  shows "q \<in> set (plan_sources p) \<longleftrightarrow> (\<exists>r \<in> set (active_records d). fr_path r = q
    \<and> \<not> (\<exists>e \<in> set (mn_files m). mf_file_id e = fr_file_id r \<and> mf_path e = q))"
    and "distinct (plan_sources p)"
proof -
  have rel: "relocates d e \<longleftrightarrow> (\<exists>r \<in> set (active_records d). fr_file_id r = mf_file_id e \<and> fr_path r \<noteq> mf_path e)" for e
    using known_iff [OF i] by (auto simp: relocates_def)
  have kr: "relocates d e \<Longrightarrow> known d e = Some (known_record d e) \<and> known_record d e \<in> set (active_records d)
      \<and> fr_file_id (known_record d e) = mf_file_id e \<and> fr_path (known_record d e) \<noteq> mf_path e" for e
    using known_iff [OF i] by (auto simp: relocates_def known_recordD)
  have one: "e \<in> set (mn_files m) \<Longrightarrow> e' \<in> set (mn_files m) \<Longrightarrow> mf_file_id e = mf_file_id e' \<Longrightarrow> e = e'" for e e'
    using i by (auto simp: pull_input_def distinct_map dest: inj_onD)
  have src: "plan_sources p = map (fr_path \<circ> known_record d)
        (filter (\<lambda>e. \<not> changed d e \<and> relocates d e) (mn_sorted_files m)
         @ filter (\<lambda>e. changed d e \<and> relocates d e) (mn_sorted_files m))
      @ map fr_path (filter (\<lambda>r. fr_file_id r \<notin> mf_file_id ` set (mn_files m)) (active_records d))"
    by (simp add: plan_sources_def plan_lists [OF p i] move_of_def replaced_of_def o_def)
  have "q \<in> set (plan_sources p) \<longleftrightarrow> (\<exists>e \<in> set (mn_files m). relocates d e \<and> fr_path (known_record d e) = q)
      \<or> (\<exists>r \<in> set (active_records d). fr_file_id r \<notin> mf_file_id ` set (mn_files m) \<and> fr_path r = q)"
    unfolding src by (auto simp: image_iff)
  also have "\<dots> \<longleftrightarrow> (\<exists>r \<in> set (active_records d). fr_path r = q
    \<and> \<not> (\<exists>e \<in> set (mn_files m). mf_file_id e = fr_file_id r \<and> mf_path e = q))" (is "?l \<longleftrightarrow> ?r")
  proof
    assume ?l
    then show ?r using kr one by (metis image_eqI)
  next
    assume ?r
    then obtain r where r: "r \<in> set (active_records d)" "fr_path r = q"
      "\<not> (\<exists>e \<in> set (mn_files m). mf_file_id e = fr_file_id r \<and> mf_path e = q)" by auto
    show ?l
    proof (cases "fr_file_id r \<in> mf_file_id ` set (mn_files m)")
      case True
      then obtain e where e: "e \<in> set (mn_files m)" "mf_file_id e = fr_file_id r" by auto
      then have "known d e = Some r" using r known_iff [OF i] by simp
      moreover have "mf_path e \<noteq> q" using e r by auto
      ultimately have "relocates d e" "known_record d e = r"
        using r by (auto simp: relocates_def known_recordD)
      then show ?thesis using e r by (intro disjI1 bexI [of _ e]) auto
    qed (use r in auto)
  qed
  finally show "q \<in> set (plan_sources p) \<longleftrightarrow> (\<exists>r \<in> set (active_records d). fr_path r = q
    \<and> \<not> (\<exists>e \<in> set (mn_files m). mf_file_id e = fr_file_id r \<and> mf_path e = q))" .
  let ?es = "filter (\<lambda>e. \<not> changed d e \<and> relocates d e) (mn_sorted_files m)
         @ filter (\<lambda>e. changed d e \<and> relocates d e) (mn_sorted_files m)"
  have des: "distinct ?es" using i by (auto simp: pull_input_def mn_sorted_files_def distinct_map)
  have path: "r \<in> set (active_records d) \<Longrightarrow> r' \<in> set (active_records d) \<Longrightarrow> fr_path r = fr_path r' \<Longrightarrow> r = r'" for r r'
    using i by (auto simp: pull_input_def distinct_map dest: inj_onD)
  have "inj_on (fr_path \<circ> known_record d) (set ?es)"
    using kr one path by (intro inj_onI) (auto, metis+)
  then have "distinct (map (fr_path \<circ> known_record d) ?es)" using des by (simp only: distinct_map)
  moreover have "distinct (map fr_path (filter (\<lambda>r. fr_file_id r \<notin> mf_file_id ` set (mn_files m)) (active_records d)))"
    using i by (simp add: pull_input_def distinct_map_filter)
  moreover have "(fr_path \<circ> known_record d) ` set ?es \<inter>
      fr_path ` set (filter (\<lambda>r. fr_file_id r \<notin> mf_file_id ` set (mn_files m)) (active_records d)) = {}"
  proof -
    have "fr_path (known_record d e) \<noteq> fr_path r" if "e \<in> set (mn_files m)" "relocates d e"
      "r \<in> set (active_records d)" "fr_file_id r \<notin> mf_file_id ` set (mn_files m)" for e r
      using kr [OF that(2)] path that by (metis image_eqI)
    then show ?thesis by auto
  qed
  ultimately show "distinct (plan_sources p)" unfolding src by (simp only: distinct_append set_map simp_thms)
qed

lemma plan_effect_manifest:
  assumes p: "build_pull_apply_plan sha d (Some m) = Inr p" and i: "pull_input d m"
  shows "plan_effect p (path_content d) = manifest_content m
    \<and> distinct (plan_targets p) \<and> distinct (plan_sources p)
    \<and> set (pp_blocking_paths p) = set (plan_targets p) \<inter> set (plan_sources p)"
proof (intro conjI)
  have path: "e \<in> set (mn_files m) \<Longrightarrow> e' \<in> set (mn_files m) \<Longrightarrow> mf_path e = mf_path e' \<Longrightarrow> e = e'" for e e'
    using i by (auto simp: pull_input_def distinct_map dest: inj_onD)
  have rpath: "r \<in> set (active_records d) \<Longrightarrow> r' \<in> set (active_records d) \<Longrightarrow> fr_path r = fr_path r' \<Longrightarrow> r = r'" for r r'
    using i by (auto simp: pull_input_def distinct_map dest: inj_onD)
  have mc: "manifest_content m q = Some h \<longleftrightarrow> (\<exists>e \<in> set (mn_files m). mf_path e = q \<and> mf_content_hash e = h)" for q h
    using i by (auto simp: manifest_content_def pull_input_def dict_of_distinct)
  have pc: "path_content d q = Some h \<longleftrightarrow> (\<exists>r \<in> set (active_records d). fr_path r = q \<and> fr_content_hash r = Some h)" for q h
  proof (cases "dict_of fr_path (active_records d) q")
    case None
    have "r \<notin> set (active_records d)" if "fr_path r = q" for r
      using dict_of_distinct [of fr_path "active_records d" q r] i None that by (simp add: pull_input_def)
    then show ?thesis using None by (auto simp: path_content_def simp del: dict_of_eq_None)
  next
    case (Some r)
    then have "r \<in> set (active_records d)" "fr_path r = q" by (auto dest: dict_of_SomeD)
    then show ?thesis using Some rpath by (auto simp: path_content_def)
  qed
  note t = plan_targets_distinct [OF p i] and s = plan_sources_iff [OF p i]
  show "plan_effect p (path_content d) = manifest_content m"
  proof (intro map_some_eqI)
    fix q h
    show "plan_effect p (path_content d) q = Some h \<longleftrightarrow> manifest_content m q = Some h"
    proof (cases "target_hash p q")
      case (Some h')
      then show ?thesis using t(2) [of q h'] mc path by (auto simp: plan_effect_def)
    next
      case None
      then have nt: "\<not> (\<exists>e \<in> set (mn_files m). mf_path e = q \<and> (changed d e \<or> relocates d e))"
        using t(2) [of q] by auto
      have kept: "\<exists>r \<in> set (active_records d). fr_path r = q \<and> fr_file_id r = mf_file_id e
          \<and> fr_content_hash r = Some (mf_content_hash e)" if "e \<in> set (mn_files m)" "mf_path e = q" for e
        using nt that known_iff [OF i] unfolding changed_def relocates_def by blast
      show ?thesis
      proof
        assume "plan_effect p (path_content d) q = Some h"
        then have q: "q \<notin> set (plan_sources p)" "path_content d q = Some h"
          using None by (auto simp: plan_effect_def split: if_splits)
        then obtain r where r: "r \<in> set (active_records d)" "fr_path r = q" "fr_content_hash r = Some h"
          unfolding pc by blast
        with q(1) s(1) obtain e where e: "e \<in> set (mn_files m)" "mf_path e = q" by blast
        from kept [OF e] r rpath have "fr_content_hash r = Some (mf_content_hash e)" by metis
        with r e show "manifest_content m q = Some h" unfolding mc by auto
      next
        assume "manifest_content m q = Some h"
        then obtain e where e: "e \<in> set (mn_files m)" "mf_path e = q" "mf_content_hash e = h"
          unfolding mc by blast
        from kept [OF e(1,2)] obtain r where r: "r \<in> set (active_records d)" "fr_path r = q"
          "fr_file_id r = mf_file_id e" "fr_content_hash r = Some (mf_content_hash e)" by blast
        have "q \<notin> set (plan_sources p)" unfolding s(1) using r e rpath by metis
        moreover have "path_content d q = Some h" unfolding pc using r e by auto
        ultimately show "plan_effect p (path_content d) q = Some h"
          using None by (simp add: plan_effect_def)
      qed
    qed
  qed
  show "distinct (plan_targets p)" by (rule t(1))
  show "distinct (plan_sources p)" by (rule s(2))
  show "set (pp_blocking_paths p) = set (plan_targets p) \<inter> set (plan_sources p)"
    unfolding plan_lists(4) [OF p i] blocking_paths_def plan_targets_def plan_sources_def Let_def
    by auto
qed

text \<open>C14: a pull plan is exactly the difference between the file map and the manifest: taking the hash
  at every path of the active records, removing the plan's sources (moved and deleted paths) and then
  setting its targets (written and moved-to paths) to their hashes gives the hash at every path of
  the manifest, and nothing else. No path is left twice or taken twice, and the blocking paths are
  those both left and taken.\<close>

theorem pull_plan_reaches_manifest:
  assumes p: "build_pull_apply_plan sha d (Some m) = Inr p" and i: "pull_input d m"
  shows "plan_effect p (path_content d) = manifest_content m
    \<and> distinct (plan_targets p) \<and> distinct (plan_sources p)
    \<and> set (pp_blocking_paths p) = set (plan_targets p) \<inter> set (plan_sources p)"
  by (rule plan_effect_manifest [OF p i])

definition swap_rec :: "string \<Rightarrow> string \<Rightarrow> string \<Rightarrow> file_record" where
  "swap_rec i p h = \<lparr>fr_file_id = i, fr_path = p, fr_type = ''note'', fr_status = ''active'', fr_updated_at = 1,
     fr_content_hash = Some (''sha256:'' @ h), fr_last_known_revision = Some 1,
     fr_conflict_source_file_id = None, fr_meta = None\<rparr>"

definition swap_entry :: "string \<Rightarrow> string \<Rightarrow> string \<Rightarrow> manifest_file" where
  "swap_entry i p h = \<lparr>mf_file_id = i, mf_path = p, mf_type = ''note'', mf_content_hash = ''sha256:'' @ h, mf_blob_id = ''b'' @ h,
     mf_size = 1, mf_mtime = 1, mf_mime_type = None, mf_meta = None\<rparr>"

text \<open>The first two files change places, the third is deleted and its path is taken by a new file.\<close>

definition swap_document :: filemap_document where
  "swap_document = \<lparr>fd_vault_id = ''v'', fd_updated_at = 1, fd_files =
     [swap_rec ''1'' ''a.md'' ''A'', swap_rec ''2'' ''b.md'' ''B'', swap_rec ''3'' ''c.md'' ''C''],
     fd_schema_version = ''v1'', fd_meta = None\<rparr>"

definition swap_manifest :: manifest where
  "swap_manifest = \<lparr>mn_vault_id = ''v'', mn_revision = 2, mn_base_revision = 1, mn_created_by_device = ''d'',
     mn_created_at = 1, mn_files =
     [swap_entry ''1'' ''b.md'' ''A'', swap_entry ''2'' ''a.md'' ''B'', swap_entry ''4'' ''c.md'' ''D''],
     mn_tombstones = [], mn_summary_hash = ''s'', mn_schema_version = ''v1'', mn_meta = None\<rparr>"

lemma swap_input: "pull_input swap_document swap_manifest"
  by code_simp

lemma pull_plan_exists:
  assumes "\<forall>e \<in> set (mn_files m). safe_file_id (mf_file_id e)"
  obtains p where "build_pull_apply_plan sha d (Some m) = Inr p"
    "pp_writes p = concat (map (fst \<circ> entry_ops d) (mn_sorted_files m))"
    "pp_moves p = concat (map (fst \<circ> snd \<circ> entry_ops d) (mn_sorted_files m))"
    "pp_deletes p = concat (map (snd \<circ> snd \<circ> entry_ops d) (mn_sorted_files m)) @ gone_records d m"
    "pp_blocking_paths p = blocking_paths (pp_writes p) (pp_moves p) (pp_deletes p)"
    "pp_vault_id p = mn_vault_id m" "pp_revision p = mn_revision m"
proof -
  obtain p where "build_pull_apply_plan sha d (Some m) = Inr p"
    using assms unfolding build_pull_apply_plan_eq_Inr Let_def by blast
  with that show thesis by (simp add: build_pull_apply_plan_eq_Inr Let_def)
qed

lemma swap_plan:
  obtains p where "build_pull_apply_plan id swap_document (Some swap_manifest) = Inr p"
    "pp_writes p = [write_of swap_document (swap_entry ''4'' ''c.md'' ''D'')]"
    "pp_moves p = [move_of (swap_rec ''2'' ''b.md'' ''B'') (swap_entry ''2'' ''a.md'' ''B''),
       move_of (swap_rec ''1'' ''a.md'' ''A'') (swap_entry ''1'' ''b.md'' ''A'')]"
    "pp_blocking_paths p = [''a.md'', ''b.md'', ''c.md'']"
    "pp_vault_id p = ''v''" "pp_revision p = 2"
proof -
  have "\<forall>e \<in> set (mn_files swap_manifest). safe_file_id (mf_file_id e)" by code_simp
  then obtain p where p: "build_pull_apply_plan id swap_document (Some swap_manifest) = Inr p"
    "pp_writes p = concat (map (fst \<circ> entry_ops swap_document) (mn_sorted_files swap_manifest))"
    "pp_moves p = concat (map (fst \<circ> snd \<circ> entry_ops swap_document) (mn_sorted_files swap_manifest))"
    "pp_deletes p = concat (map (snd \<circ> snd \<circ> entry_ops swap_document) (mn_sorted_files swap_manifest))
      @ gone_records swap_document swap_manifest"
    "pp_blocking_paths p = blocking_paths (pp_writes p) (pp_moves p) (pp_deletes p)"
    "pp_vault_id p = mn_vault_id swap_manifest" "pp_revision p = mn_revision swap_manifest"
    by (rule pull_plan_exists)
  have e: "mn_sorted_files swap_manifest =
      [swap_entry ''2'' ''a.md'' ''B'', swap_entry ''1'' ''b.md'' ''A'', swap_entry ''4'' ''c.md'' ''D'']"
    by code_simp
  have k: "entry_ops swap_document (swap_entry ''2'' ''a.md'' ''B'')
        = ([], [move_of (swap_rec ''2'' ''b.md'' ''B'') (swap_entry ''2'' ''a.md'' ''B'')], [])"
      "entry_ops swap_document (swap_entry ''1'' ''b.md'' ''A'')
        = ([], [move_of (swap_rec ''1'' ''a.md'' ''A'') (swap_entry ''1'' ''b.md'' ''A'')], [])"
      "entry_ops swap_document (swap_entry ''4'' ''c.md'' ''D'')
        = ([write_of swap_document (swap_entry ''4'' ''c.md'' ''D'')], [], [])"
    by code_simp+
  have g: "gone_records swap_document swap_manifest = [\<lparr>pd_file_id = ''3'', pd_path = ''c.md'', pd_reason = ''deleted'',
      pd_expected_content_hash = Some ''sha256:C''\<rparr>]" by code_simp
  have b: "blocking_paths [write_of swap_document (swap_entry ''4'' ''c.md'' ''D'')]
      [move_of (swap_rec ''2'' ''b.md'' ''B'') (swap_entry ''2'' ''a.md'' ''B''),
       move_of (swap_rec ''1'' ''a.md'' ''A'') (swap_entry ''1'' ''b.md'' ''A'')]
      [\<lparr>pd_file_id = ''3'', pd_path = ''c.md'', pd_reason = ''deleted'',
        pd_expected_content_hash = Some ''sha256:C''\<rparr>] = [''a.md'', ''b.md'', ''c.md'']" by code_simp
  show thesis
    by (rule that [OF p(1)]) (simp_all add: p(2-7) e k g b, simp_all add: swap_manifest_def)
qed

theorem pull_plan_reaches_manifest_witness:
  "\<exists>p. build_pull_apply_plan id swap_document (Some swap_manifest) = Inr p
     \<and> plan_effect p (path_content swap_document) = manifest_content swap_manifest
     \<and> pp_blocking_paths p = [''a.md'', ''b.md'', ''c.md'']"
proof -
  obtain p where p: "build_pull_apply_plan id swap_document (Some swap_manifest) = Inr p"
    "pp_blocking_paths p = [''a.md'', ''b.md'', ''c.md'']" by (rule swap_plan)
  with pull_plan_reaches_manifest [OF p(1) swap_input] show ?thesis by auto
qed

end
