(* ===== verification/Desk_Files.thy ===== *)
theory Desk_Files
  imports Change_Detection Commit_Settlement
begin

text \<open>
  The files a desktop client works on: the workspace with the staging directory, directories, the
  file that holds the plan of a pull in progress, and the store of \<open>Local_Store\<close> below them. The
  functions of \<open>pathlib\<close> and \<open>os\<close> that \<open>clients/desktop/service.py\<close> uses are effects on them;
  each durable change is a step that may be the last one before the power fails. A path is the
  list of its parts below the vault root; the files in \<open>.noteapp/staging\<close> are the staging area of
  the store, every other file is kept in \<open>de_files\<close>. The database, the file map and the ledger are
  not among the files: no path of the workspace leads to them.
\<close>

section \<open>The state\<close>

record desk =
  de_client :: client
  de_files :: "(string list \<times> string) list"
  de_dirs :: "string list list"
  de_plan :: "file_content option"

type_synonym 'a desk_io = "(desk, py_exn, 'a) eff"

definition in_store :: "'a io \<Rightarrow> 'a desk_io" where
  "in_store m s = (case m (de_client s) of (r, c) \<Rightarrow> (r, s\<lparr>de_client := c\<rparr>))"

definition disk_step :: "(desk \<Rightarrow> desk) \<Rightarrow> unit desk_io" where
  "disk_step f s = (case persist id (de_client s) of
     (Inl e, c) \<Rightarrow> (Inl e, s) | (Inr _, c) \<Rightarrow> (Inr (), f (s\<lparr>de_client := c\<rparr>)))"

definition staging_name :: "string list \<Rightarrow> string option" where
  "staging_name ps = (if take 2 ps = [''.noteapp'', ''staging''] \<and> 2 < length ps
     then Some (join ''/'' (drop 2 ps)) else None)"

definition file_bytes :: "desk \<Rightarrow> string list \<Rightarrow> string option" where
  "file_bytes s ps = (case staging_name ps of
     Some n \<Rightarrow> map_of (cl_staging (de_client s)) n | None \<Rightarrow> map_of (de_files s) ps)"

definition put_bytes :: "string list \<Rightarrow> string \<Rightarrow> desk \<Rightarrow> desk" where
  "put_bytes ps b s = (case staging_name ps of
     Some n \<Rightarrow> s\<lparr>de_client := (de_client s)\<lparr>cl_staging := AList.update n b (cl_staging (de_client s))\<rparr>\<rparr>
   | None \<Rightarrow> s\<lparr>de_files := AList.update ps b (de_files s)\<rparr>)"

definition del_bytes :: "string list \<Rightarrow> desk \<Rightarrow> desk" where
  "del_bytes ps s = (case staging_name ps of
     Some n \<Rightarrow> s\<lparr>de_client := (de_client s)\<lparr>cl_staging := AList.delete n (cl_staging (de_client s))\<rparr>\<rparr>
   | None \<Rightarrow> s\<lparr>de_files := AList.delete ps (de_files s)\<rparr>)"

definition is_dir :: "desk \<Rightarrow> string list \<Rightarrow> bool" where
  "is_dir s ps \<longleftrightarrow> ps = [] \<or> ps \<in> set (de_dirs s)"

definition path_exists :: "desk \<Rightarrow> string list \<Rightarrow> bool" where
  "path_exists s ps \<longleftrightarrow> is_dir s ps \<or> file_bytes s ps \<noteq> None"

definition is_file :: "desk \<Rightarrow> string list \<Rightarrow> bool" where
  "is_file s ps \<longleftrightarrow> file_bytes s ps \<noteq> None"

section \<open>Operations on files\<close>

text \<open>The subclass of \<open>OSError\<close> stands at the head of the message.\<close>

definition os_error :: "string \<Rightarrow> string list \<Rightarrow> py_exn" where
  "os_error kind ps = OSError (kind @ '': '' @ as_posix ps)"

definition read_bytes :: "string list \<Rightarrow> string desk_io" where
  "read_bytes ps = eread (\<lambda>s. case file_bytes s ps of
     Some b \<Rightarrow> Inr b
   | None \<Rightarrow> Inl (os_error (if is_dir s ps then ''IsADirectoryError'' else ''FileNotFoundError'') ps))"

text \<open>\<open>mkdir(parents=True, exist_ok=True)\<close>, the directories in one step.\<close>

definition prefixes :: "string list \<Rightarrow> string list list" where
  "prefixes ps = map (\<lambda>n. take n ps) [1..<Suc (length ps)]"

definition make_dirs :: "string list \<Rightarrow> unit desk_io" where
  "make_dirs ps =
     ebind (eget (\<lambda>s. find (is_file s) (prefixes ps))) (\<lambda>blocked.
     case blocked of
       Some p \<Rightarrow> eraise (os_error (if p = ps then ''FileExistsError'' else ''NotADirectoryError'') ps)
     | None \<Rightarrow> disk_step (\<lambda>s. s\<lparr>de_dirs := de_dirs s @ filter (\<lambda>p. p \<notin> set (de_dirs s)) (prefixes ps)\<rparr>))"

definition check_target :: "string list \<Rightarrow> unit desk_io" where
  "check_target ps = eread (\<lambda>s.
     if is_dir s ps then Inl (os_error ''IsADirectoryError'' ps)
     else if \<not> is_dir s (butlast ps) then Inl (os_error ''FileNotFoundError'' ps) else Inr ())"

text \<open>\<open>write_bytes\<close> truncates the file before it writes.\<close>

definition write_bytes :: "string list \<Rightarrow> string \<Rightarrow> unit desk_io" where
  "write_bytes ps b =
     ebind (check_target ps) (\<lambda>_.
     ebind (disk_step (put_bytes ps [])) (\<lambda>_.
     disk_step (put_bytes ps b)))"

definition rename_path :: "string list \<Rightarrow> string list \<Rightarrow> unit desk_io" where
  "rename_path src dst =
     ebind (read_bytes src) (\<lambda>b.
     ebind (check_target dst) (\<lambda>_.
     disk_step (put_bytes dst b \<circ> del_bytes src)))"

text \<open>\<open>unlink(missing_ok=True)\<close>\<close>

definition unlink_path :: "string list \<Rightarrow> unit desk_io" where
  "unlink_path ps =
     ebind (eget (\<lambda>s. is_dir s ps)) (\<lambda>dir.
     if dir then eraise (os_error ''IsADirectoryError'' ps) else disk_step (del_bytes ps))"

text \<open>\<open>try: m finally: c\<close>; nothing runs after a power loss.\<close>

definition efinally :: "('s, py_exn, 'a) eff \<Rightarrow> ('s, py_exn, unit) eff \<Rightarrow> ('s, py_exn, 'a) eff" where
  "efinally m c s = (case m s of
     (Inl PowerLoss, s') \<Rightarrow> (Inl PowerLoss, s')
   | (r, s') \<Rightarrow> (case c s' of (Inl e, s'') \<Rightarrow> (Inl e, s'') | (Inr _, s'') \<Rightarrow> (r, s'')))"

definition with_tmp :: "string list \<Rightarrow> string list" where
  "with_tmp ps = (case rev ps of [] \<Rightarrow> [''.tmp''] | n # rest \<Rightarrow> rev rest @ [n @ ''.tmp''])"

definition write_bytes_atomic :: "string list \<Rightarrow> string \<Rightarrow> unit desk_io" where
  "write_bytes_atomic ps payload =
     ebind (make_dirs (butlast ps)) (\<lambda>_.
     efinally (ebind (write_bytes (with_tmp ps) payload) (\<lambda>_. rename_path (with_tmp ps) ps))
       (unlink_path (with_tmp ps)))"

definition resolve_desktop_path :: "string \<Rightarrow> string list result" where
  "resolve_desktop_path relative_path =
     (if (relative_path \<noteq> [] \<and> hd relative_path = CHR ''/'') \<or> ''..'' \<in> set (path_parts relative_path)
      then Inl (ValueError (''workspace file path is not safe: '' @ relative_path))
      else Inr (path_parts relative_path))"

section \<open>The files as a map\<close>

locale file_tree =
  fixes put :: "string list \<Rightarrow> string \<Rightarrow> 's \<Rightarrow> 's"
    and del :: "string list \<Rightarrow> 's \<Rightarrow> 's"
    and tree :: "'s \<Rightarrow> string list \<Rightarrow> string option"
    and usable :: "string list \<Rightarrow> bool"
  assumes tree_put: "usable p \<Longrightarrow> usable q \<Longrightarrow> tree (put p b s) q = (if q = p then Some b else tree s q)"
    and tree_del: "usable p \<Longrightarrow> usable q \<Longrightarrow> tree (del p s) q = (if q = p then None else tree s q)"
begin

text \<open>Renaming a file over a temporary one, as an atomic write does.\<close>

lemma tree_move:
  "usable p \<Longrightarrow> usable q \<Longrightarrow> usable r \<Longrightarrow>
     tree (put q b (del p s)) r = (if r = q then Some b else if r = p then None else tree s r)"
  by (simp add: tree_put tree_del)

lemma tree_replaced:
  "usable p \<Longrightarrow> usable q \<Longrightarrow> usable r \<Longrightarrow> p \<noteq> q \<Longrightarrow>
     tree (del p (put q b (del p (put p b (put p c s))))) r
       = (if r = q then Some b else if r = p then None else tree s r)"
  by (simp add: tree_put tree_del)

end

text \<open>Two paths of the staging area differ as soon as their names do.\<close>

lemma join_inj:
  "join ''/'' ps = join ''/'' qs \<Longrightarrow> ps \<noteq> [] \<Longrightarrow> qs \<noteq> [] \<Longrightarrow>
     \<forall>p \<in> set ps. CHR ''/'' \<notin> set p \<Longrightarrow> \<forall>p \<in> set qs. CHR ''/'' \<notin> set p \<Longrightarrow> ps = qs"
  by (metis split_slash_join)

lemma staging_name_inj:
  assumes "staging_name p = Some n" "staging_name q = Some n" "clean_parts p" "clean_parts q"
  shows "p = q"
proof -
  have "take 2 p = take 2 q" "2 < length p" "2 < length q" "join ''/'' (drop 2 p) = join ''/'' (drop 2 q)"
    using assms(1,2) by (auto simp: staging_name_def split: if_splits)
  moreover have "drop 2 p = drop 2 q"
    using calculation assms(3,4) by (intro join_inj) (auto simp: clean_parts_def dest: in_set_dropD)
  ultimately show ?thesis by (metis append_take_drop_id)
qed

interpretation desk_tree: file_tree put_bytes del_bytes file_bytes clean_parts
proof unfold_locales
  fix p q b and s :: desk
  assume c: "clean_parts p" "clean_parts q"
  show "file_bytes (put_bytes p b s) q = (if q = p then Some b else file_bytes s q)"
    using staging_name_inj [OF _ _ c]
    by (auto simp: file_bytes_def put_bytes_def update_conv' split: option.splits)
  show "file_bytes (del_bytes p s) q = (if q = p then None else file_bytes s q)"
    using staging_name_inj [OF _ _ c]
    by (auto simp: file_bytes_def del_bytes_def delete_conv' split: option.splits)
qed

section \<open>What the operations do\<close>

text \<open>Everything but the files and the directories.\<close>

definition besides :: "desk \<Rightarrow> client \<times> file_content option" where
  "besides s = ((de_client s)\<lparr>cl_staging := []\<rparr>, de_plan s)"

definition powered :: "desk \<Rightarrow> bool" where
  "powered s \<longleftrightarrow> cl_power (de_client s) = None"

lemma powered_besides: "besides s = besides t \<Longrightarrow> powered s = powered t"
  unfolding besides_def powered_def
  by (metis (no_types, lifting) Pair_inject client.select_convs(11) client.surjective client.update_convs(9))

lemma disk_step_on [simp]: "powered s \<Longrightarrow> disk_step f s = (Inr (), f s)"
  by (simp add: disk_step_def powered_def persist_def)

lemma besides_put [simp]: "besides (put_bytes p b s) = besides s"
  and besides_del [simp]: "besides (del_bytes p s) = besides s"
  and besides_dirs [simp]: "besides (s\<lparr>de_dirs := ds\<rparr>) = besides s"
  by (simp_all add: besides_def put_bytes_def del_bytes_def split: option.splits)

lemma powered_put [simp]: "powered (put_bytes p b s) = powered s"
  and powered_del [simp]: "powered (del_bytes p s) = powered s"
  and powered_dirs [simp]: "powered (s\<lparr>de_dirs := ds\<rparr>) = powered s"
  by (rule powered_besides, simp)+

lemma dirs_put [simp]: "de_dirs (put_bytes p b s) = de_dirs s"
  and dirs_del [simp]: "de_dirs (del_bytes p s) = de_dirs s"
  by (simp_all add: put_bytes_def del_bytes_def split: option.splits)

lemma is_dir_put [simp]: "is_dir (put_bytes p b s) q = is_dir s q"
  and is_dir_del [simp]: "is_dir (del_bytes p s) q = is_dir s q"
  by (simp_all add: is_dir_def)

lemma file_bytes_dirs [simp]: "file_bytes (s\<lparr>de_dirs := ds\<rparr>) q = file_bytes s q"
  by (simp add: file_bytes_def split: option.splits)

lemma clean_with_tmp: "clean_parts ps \<Longrightarrow> ps \<noteq> [] \<Longrightarrow> clean_parts (with_tmp ps)"
  by (cases ps rule: rev_cases) (auto simp: with_tmp_def clean_parts_def)

lemma with_tmp_parent [simp]: "ps \<noteq> [] \<Longrightarrow> butlast (with_tmp ps) = butlast ps"
  and with_tmp_not_Nil [simp]: "with_tmp ps \<noteq> []"
  and with_tmp_differs [simp]: "ps \<noteq> [] \<Longrightarrow> with_tmp ps \<noteq> ps"
  by (cases ps rule: rev_cases; simp add: with_tmp_def)+

lemma prefixes_iff: "p \<in> set (prefixes ps) \<longleftrightarrow> p \<noteq> [] \<and> (\<exists>q. ps = p @ q)"
proof
  assume "p \<in> set (prefixes ps)"
  then obtain n where "p = take n ps" "1 \<le> n" "n \<le> length ps" by (auto simp: prefixes_def)
  then show "p \<noteq> [] \<and> (\<exists>q. ps = p @ q)" by (auto intro!: exI [of _ "drop n ps"])
next
  assume "p \<noteq> [] \<and> (\<exists>q. ps = p @ q)"
  then have "length p \<in> set [1..<Suc (length ps)]" "p = take (length p) ps" by (auto simp: Suc_le_eq)
  then show "p \<in> set (prefixes ps)" unfolding prefixes_def set_map by blast
qed

lemma prefixes_self: "ps \<noteq> [] \<Longrightarrow> ps \<in> set (prefixes ps)"
  by (simp add: prefixes_iff)

lemma make_dirs_ok:
  assumes "powered s" "\<forall>p \<in> set (prefixes ps). file_bytes s p = None"
  obtains ds where "make_dirs ps s = (Inr (), s\<lparr>de_dirs := ds\<rparr>)"
    "set ds = set (de_dirs s) \<union> set (prefixes ps)"
proof
  have "find (is_file s) (prefixes ps) = None"
    using assms(2) by (simp add: find_None_iff is_file_def)
  then show "make_dirs ps s = (Inr (), s\<lparr>de_dirs := de_dirs s @ filter (\<lambda>p. p \<notin> set (de_dirs s)) (prefixes ps)\<rparr>)"
    using assms(1) by (simp add: make_dirs_def)
qed auto

text \<open>An atomic write changes the file and the temporary file beside it.\<close>

lemma write_bytes_atomic_ok:
  assumes on: "powered s" and ps: "clean_parts ps" "ps \<noteq> []"
    and free: "\<forall>p \<in> set (prefixes (butlast ps)). file_bytes s p = None"
    and target: "\<not> is_dir s ps" "\<not> is_dir s (with_tmp ps)" "ps \<notin> set (prefixes (butlast ps))"
      "with_tmp ps \<notin> set (prefixes (butlast ps))"
  obtains s' where "write_bytes_atomic ps b s = (Inr (), s')" "besides s' = besides s"
    "set (de_dirs s') = set (de_dirs s) \<union> set (prefixes (butlast ps))"
    "\<And>q. clean_parts q \<Longrightarrow> file_bytes s' q
       = (if q = ps then Some b else if q = with_tmp ps then None else file_bytes s q)"
proof -
  let ?t = "with_tmp ps"
  obtain ds where ds: "make_dirs (butlast ps) s = (Inr (), s\<lparr>de_dirs := ds\<rparr>)"
    "set ds = set (de_dirs s) \<union> set (prefixes (butlast ps))"
    using make_dirs_ok [OF on free] .
  let ?s = "s\<lparr>de_dirs := ds\<rparr>"
  have dir: "is_dir ?s (butlast ps)" "\<not> is_dir ?s ps" "\<not> is_dir ?s ?t"
    using ds(2) target ps prefixes_self [of "butlast ps"] by (auto simp: is_dir_def)
  let ?w = "put_bytes ?t b (put_bytes ?t [] ?s)"
  have w: "write_bytes ?t b ?s = (Inr (), ?w)"
    using on dir ps by (simp add: write_bytes_def check_target_def ebind_def)
  have t: "clean_parts ?t" by (rule clean_with_tmp [OF ps])
  have "file_bytes ?w ?t = Some b" using desk_tree.tree_put t by simp
  then have r: "rename_path ?t ps ?w = (Inr (), put_bytes ps b (del_bytes ?t ?w))"
    using on dir by (simp add: rename_path_def read_bytes_def check_target_def ebind_def)
  let ?e = "del_bytes ?t (put_bytes ps b (del_bytes ?t ?w))"
  have u: "unlink_path ?t (put_bytes ps b (del_bytes ?t ?w)) = (Inr (), ?e)"
    using on dir by (simp add: unlink_path_def)
  have "write_bytes_atomic ps b s = (Inr (), ?e)"
    by (simp add: write_bytes_atomic_def ebind_def ds w r u efinally_def)
  moreover have "besides ?e = besides s" "de_dirs ?e = ds" by simp_all
  moreover have "file_bytes ?e q = (if q = ps then Some b else if q = ?t then None else file_bytes s q)"
    if "clean_parts q" for q
    using desk_tree.tree_replaced [OF t ps(1) that, of b "[]" ?s] ps(2) by simp
  ultimately show thesis using ds(2) by (intro that [of ?e]) simp_all
qed

lemma read_bytes_ok: "file_bytes s p = Some b \<Longrightarrow> read_bytes p s = (Inr b, s)"
  by (simp add: read_bytes_def)

lemma rename_path_ok:
  assumes "powered s" "file_bytes s p = Some b" "\<not> is_dir s q" "is_dir s (butlast q)"
  shows "rename_path p q s = (Inr (), put_bytes q b (del_bytes p s))"
  using assms by (simp add: rename_path_def read_bytes_def check_target_def ebind_def)

lemma unlink_path_ok: "powered s \<Longrightarrow> \<not> is_dir s p \<Longrightarrow> unlink_path p s = (Inr (), del_bytes p s)"
  by (simp add: unlink_path_def)

end
