(* ===== verification/Pull_Apply.thy ===== *)
theory Pull_Apply
  imports Pull_Plan Desk_Files Sync_Client
begin

text \<open>
  \<open>clients/desktop/service.py\<close>: pulling. The manifest has been converged into the file map by the
  client library; the service plans what the workspace needs, downloads and decrypts the blobs,
  stages them, and applies the plan under a journal, so that an interrupted application can be
  replayed from the staged files or degraded to another pull.
\<close>

section \<open>The service\<close>

text \<open>What the service is built with: the digest, the date of a time stamp (UTC, ISO), the
  configured device and vault, the builder of file identifiers, and the crypto provider.\<close>

record apply_env =
  ae_sha :: "string \<Rightarrow> string"
  ae_iso_date :: "int \<Rightarrow> string"
  ae_device_id :: string
  ae_vault_id :: string
  ae_file_id :: "string \<Rightarrow> string"
  ae_journal_id :: string
  ae_decrypt :: "string \<Rightarrow> string \<Rightarrow> string result"

definition content_hash :: "apply_env \<Rightarrow> string \<Rightarrow> string" where
  "content_hash env b = sha256_hex (ae_sha env) b"

definition CONFLICT_ORPHANS_DIRNAME :: string where
  "CONFLICT_ORPHANS_DIRNAME = ''.noteapp/conflict-orphans''"

definition resolve_pull_apply_staging_path :: "string \<Rightarrow> string list result" where
  "resolve_pull_apply_staging_path file_id =
     rbind (build_pull_apply_staging_relative_path file_id) (\<lambda>p. Inr (path_parts p))"

definition file_not_found :: "string \<Rightarrow> py_exn" where
  "file_not_found msg = OSError (''FileNotFoundError: '' @ msg)"

record desk_snapshot =
  dn_document :: filemap_document
  dn_state :: vault_state
  dn_tombstones :: "tombstone list"

definition require_matching_vault :: "string \<Rightarrow> string \<Rightarrow> string \<Rightarrow> unit result" where
  "require_matching_vault expected actual label =
     (if actual \<noteq> expected
      then Inl (ValueError (label @ '' vault_id does not match desktop config: expected '' @ expected
        @ '', got '' @ actual))
      else Inr ())"

definition load_desk_snapshot :: "apply_env \<Rightarrow> desk_snapshot io" where
  "load_desk_snapshot env =
     ebind (eread load_filemap) (\<lambda>document.
     ebind (elift (require_matching_vault (ae_vault_id env) (fd_vault_id document) ''filemap'')) (\<lambda>_.
     ebind (eread (load_vault_state (ae_vault_id env))) (\<lambda>state.
     case state of
       None \<Rightarrow> eraise (KeyError (''vault_state not found: '' @ ae_vault_id env))
     | Some st \<Rightarrow>
       ebind (elift (require_matching_vault (ae_vault_id env) (vs_vault_id st) ''vault_state'')) (\<lambda>_.
       ebind (load_tombstone_ledger True) (\<lambda>ts.
       eret \<lparr>dn_document = document, dn_state = st, dn_tombstones = ts\<rparr>)))))"

definition require_no_active_sync_apply_journal :: "apply_env \<Rightarrow> string \<Rightarrow> unit io" where
  "require_no_active_sync_apply_journal env operation =
     ebind (eread (load_sync_apply_journal (ae_vault_id env))) (\<lambda>journal.
     case journal of
       None \<Rightarrow> eret ()
     | Some j \<Rightarrow> eraise (ValueError (operation @ '' is blocked while sync_apply_journal is active: ''
         @ aj_journal_id j @ '' ('' @ aj_phase j @ '')'')))"

section \<open>Conflict copies of dirty files\<close>

text \<open>The names in a directory, for the search of a free one.\<close>

definition all_paths :: "desk \<Rightarrow> string list list" where
  "all_paths s = map fst (de_files s) @ de_dirs s
     @ map (\<lambda>(n, _). [''.noteapp'', ''staging''] @ split_slash n) (cl_staging (de_client s))"

definition names_in :: "desk \<Rightarrow> string list \<Rightarrow> string list" where
  "names_in s dir = map last (filter (\<lambda>p. p \<noteq> [] \<and> butlast p = dir) (all_paths s))"

definition path_basename :: "string list \<Rightarrow> string" where
  "path_basename ps = (if ps = [] then [] else last ps)"

definition allocate_pull_conflict_copy_path :: "apply_env \<Rightarrow> string \<Rightarrow> int \<Rightarrow> string list desk_io" where
  "allocate_pull_conflict_copy_path env original_relative_path materialized_at =
     ebind (elift (resolve_desktop_path original_relative_path)) (\<lambda>original.
     let free = (\<lambda>s dir. dir @ [allocate_conflict_copy_path (names_in s dir) (path_basename original)
           (ae_iso_date env materialized_at) (ae_device_id env)]) in
     ebind (eget (\<lambda>s. path_exists s (butlast original))) (\<lambda>parent_exists.
     if parent_exists then eget (\<lambda>s. free s (butlast original))
     else let orphan_root = path_parts CONFLICT_ORPHANS_DIRNAME in
       ebind (make_dirs orphan_root) (\<lambda>_. eget (\<lambda>s. free s orphan_root))))"

definition flag_unresolved_conflicts :: "apply_env \<Rightarrow> unit io" where
  "flag_unresolved_conflicts env =
     ebind (eread (load_vault_state (ae_vault_id env))) (\<lambda>state.
     case state of
       None \<Rightarrow> eraise (KeyError (''vault_state not found: '' @ ae_vault_id env))
     | Some st \<Rightarrow>
       if vs_has_unresolved_conflicts st then eret ()
       else ebind (elift (VaultStateRecord (st\<lparr>vs_has_unresolved_conflicts := True\<rparr>))) upsert_vault_state)"

definition same_conflict :: "string \<Rightarrow> string \<Rightarrow> file_record \<Rightarrow> bool" where
  "same_conflict source_file_id actual_hash r \<longleftrightarrow> fr_status r = ''conflict_copy''
     \<and> fr_conflict_source_file_id r = Some source_file_id \<and> fr_content_hash r = Some actual_hash"

text \<open>\<open>_preserve_dirty_pull_conflict_copy\<close>: an earlier copy of the same bytes is used again.\<close>

definition preserve_dirty_pull_conflict_copy ::
  "apply_env \<Rightarrow> string \<Rightarrow> string list \<Rightarrow> string \<Rightarrow> string option \<Rightarrow> int \<Rightarrow> string list option desk_io" where
  "preserve_dirty_pull_conflict_copy env source_file_id live_path original_relative_path
       expected_content_hash materialized_at =
     (case expected_content_hash of None \<Rightarrow> eret None | Some expected \<Rightarrow>
     ebind (eget (\<lambda>s. is_file s live_path)) (\<lambda>live.
     if \<not> live then eret None else
     ebind (read_bytes live_path) (\<lambda>payload.
     let actual_hash = content_hash env payload in
     if actual_hash = expected then eret None else
     ebind (in_store (eread load_filemap)) (\<lambda>current_document.
     case find (same_conflict source_file_id actual_hash) (fd_files current_document) of
       Some r \<Rightarrow>
         ebind (elift (resolve_desktop_path (fr_path r))) (\<lambda>conflict_path.
         ebind (eget (\<lambda>s. map_option (content_hash env) (file_bytes s conflict_path))) (\<lambda>existing_hash.
         ebind (if existing_hash \<noteq> Some actual_hash then write_bytes_atomic conflict_path payload
                else eret ()) (\<lambda>_.
         ebind (in_store (flag_unresolved_conflicts env)) (\<lambda>_. eret (Some conflict_path)))))
     | None \<Rightarrow>
         ebind (allocate_pull_conflict_copy_path env original_relative_path materialized_at) (\<lambda>conflict_path.
         ebind (write_bytes_atomic conflict_path payload) (\<lambda>_.
         let conflict_relative_path = as_posix conflict_path in
         ebind (elift (register_conflict_copy current_document source_file_id
           (ae_file_id env (''pull-conflict:'' @ source_file_id @ '':'' @ conflict_relative_path @ '':''
              @ int_str materialized_at))
           conflict_relative_path materialized_at (Some actual_hash))) (\<lambda>updated_document.
         ebind (in_store (write_filemap_atomic updated_document)) (\<lambda>_.
         ebind (in_store (flag_unresolved_conflicts env)) (\<lambda>_. eret (Some conflict_path))))))))))"

section \<open>Applying a plan\<close>

text \<open>Checks the branches of the application share.\<close>

definition holds_content :: "apply_env \<Rightarrow> string list \<Rightarrow> string \<Rightarrow> string \<Rightarrow> bool desk_io" where
  "holds_content env target target_path expected =
     ebind (eget (\<lambda>s. path_exists s target)) (\<lambda>there.
     if \<not> there then eret False else
     ebind (eget (\<lambda>s. is_file s target)) (\<lambda>file.
     if \<not> file then eraise (ValueError (''pull apply target path is not a file: '' @ target_path))
     else ebind (read_bytes target) (\<lambda>b. eret (content_hash env b = expected))))"

definition staged_move_payload :: "apply_env \<Rightarrow> string list \<Rightarrow> pull_move \<Rightarrow> string desk_io" where
  "staged_move_payload env staged m =
     ebind (eget (\<lambda>s. is_file s staged)) (\<lambda>file.
     if \<not> file
     then eraise (file_not_found (''staged pull payload required for dirty move conflict: '' @ pm_file_id m))
     else ebind (read_bytes staged) (\<lambda>b.
       if content_hash env b \<noteq> pm_content_hash m
       then eraise (ValueError (''staged pull payload hash mismatch for file_id '' @ pm_file_id m))
       else eret b))"

definition already_moved :: "apply_env \<Rightarrow> string list \<Rightarrow> pull_move \<Rightarrow> unit desk_io" where
  "already_moved env target m =
     ebind (eget (\<lambda>s. path_exists s target)) (\<lambda>there.
     if \<not> there then eraise (file_not_found (''pull apply source path not found: '' @ pm_source_path m))
     else ebind (read_bytes target) (\<lambda>b.
       if content_hash env b \<noteq> pm_content_hash m
       then eraise (ValueError (''materialized move target hash mismatch for file_id '' @ pm_file_id m))
       else eret ()))"

definition is_blocking_move :: "pull_plan \<Rightarrow> pull_move \<Rightarrow> bool" where
  "is_blocking_move p m \<longleftrightarrow>
     pm_source_path m \<in> set (pp_blocking_paths p) \<or> pm_target_path m \<in> set (pp_blocking_paths p)"

text \<open>The first loop takes the files of blocking moves out of the way.\<close>

definition stage_blocking_move :: "apply_env \<Rightarrow> pull_plan \<Rightarrow> int \<Rightarrow> pull_move \<Rightarrow> unit desk_io" where
  "stage_blocking_move env p at m =
     (if \<not> is_blocking_move p m then eret () else
     ebind (elift (resolve_desktop_path (pm_source_path m))) (\<lambda>source.
     ebind (elift (resolve_pull_apply_staging_path (pm_file_id m))) (\<lambda>staged.
     ebind (elift (resolve_desktop_path (pm_target_path m))) (\<lambda>target.
     ebind (eget (\<lambda>s. path_exists s source)) (\<lambda>source_exists.
     if source_exists then
       ebind (read_bytes source) (\<lambda>payload.
       if content_hash env payload \<noteq> pm_content_hash m then
         ebind (preserve_dirty_pull_conflict_copy env (pm_file_id m) source (pm_source_path m)
           (Some (pm_content_hash m)) at) (\<lambda>_.
         ebind (holds_content env target (pm_target_path m) (pm_content_hash m)) (\<lambda>moved.
         if moved then unlink_path source
         else ebind (staged_move_payload env staged m) (\<lambda>_. unlink_path source)))
       else ebind (make_dirs (butlast staged)) (\<lambda>_. rename_path source staged))
     else
       ebind (eget (\<lambda>s. path_exists s staged)) (\<lambda>there.
       if there then eret () else already_moved env target m))))))"

text \<open>The loops over deletions, once for the blocking ones and once for the others.\<close>

definition apply_delete :: "apply_env \<Rightarrow> int \<Rightarrow> pull_delete \<Rightarrow> string list list desk_io" where
  "apply_delete env at x =
     ebind (elift (resolve_desktop_path (pd_path x))) (\<lambda>path.
     ebind (preserve_dirty_pull_conflict_copy env (pd_file_id x) path (pd_path x)
       (pd_expected_content_hash x) at) (\<lambda>_.
     ebind (eget (\<lambda>s. path_exists s path)) (\<lambda>there.
     if \<not> there then eret [] else ebind (unlink_path path) (\<lambda>_. eret [path]))))"

definition apply_write :: "apply_env \<Rightarrow> int \<Rightarrow> pull_write \<Rightarrow> (string \<times> string list) desk_io" where
  "apply_write env at w =
     ebind (elift (resolve_desktop_path (px_target_path w))) (\<lambda>target.
     ebind (elift (resolve_desktop_path (px_staging_path w))) (\<lambda>staged.
     ebind (eget (\<lambda>s. is_file s staged)) (\<lambda>there.
     if \<not> there then
       ebind (eget (\<lambda>s. path_exists s target)) (\<lambda>target_exists.
       ebind (if target_exists then
           ebind (eget (\<lambda>s. is_file s target)) (\<lambda>file.
           if \<not> file then eraise (ValueError (''pull apply target path is not a file: '' @ px_target_path w))
           else ebind (read_bytes target) (\<lambda>b. eret (content_hash env b = px_content_hash w)))
         else eret False) (\<lambda>written.
       if written then eret (px_file_id w, target)
       else eraise (file_not_found (''staged pull payload not found: '' @ px_staging_path w))))
     else
       ebind (read_bytes staged) (\<lambda>payload.
       if content_hash env payload \<noteq> px_content_hash w
       then eraise (ValueError (''staged pull payload hash mismatch for file_id '' @ px_file_id w))
       else
         ebind (if px_previous_path w = Some (px_target_path w)
           then preserve_dirty_pull_conflict_copy env (px_file_id w) target (px_target_path w)
             (px_expected_previous_content_hash w) at
           else eret None) (\<lambda>_.
         ebind (write_bytes_atomic target payload) (\<lambda>_. eret (px_file_id w, target)))))))"

definition apply_move ::
  "apply_env \<Rightarrow> pull_plan \<Rightarrow> int \<Rightarrow> pull_move \<Rightarrow> (string \<times> string list) desk_io" where
  "apply_move env p at m =
     ebind (elift (if is_blocking_move p m then resolve_pull_apply_staging_path (pm_file_id m)
       else resolve_desktop_path (pm_source_path m))) (\<lambda>source.
     ebind (elift (resolve_desktop_path (pm_target_path m))) (\<lambda>target.
     ebind (eget (\<lambda>s. path_exists s source)) (\<lambda>source_exists.
     ebind (if source_exists then
         ebind (read_bytes source) (\<lambda>payload.
         if content_hash env payload \<noteq> pm_content_hash m then
           if is_blocking_move p m
           then eraise (ValueError (''blocking move staging hash mismatch for file_id '' @ pm_file_id m))
           else
             ebind (preserve_dirty_pull_conflict_copy env (pm_file_id m) source (pm_source_path m)
               (Some (pm_content_hash m)) at) (\<lambda>_.
             ebind (holds_content env target (pm_target_path m) (pm_content_hash m)) (\<lambda>moved.
             if moved then unlink_path source
             else
               ebind (elift (resolve_pull_apply_staging_path (pm_file_id m))) (\<lambda>staged.
               ebind (staged_move_payload env staged m) (\<lambda>b.
               ebind (write_bytes_atomic target b) (\<lambda>_. unlink_path source)))))
         else ebind (make_dirs (butlast target)) (\<lambda>_. rename_path source target))
       else already_moved env target m) (\<lambda>_. eret (pm_file_id m, target)))))"

record apply_execution =
  ax_journal :: "apply_journal option"
  ax_written_paths :: "(string \<times> string list) list"
  ax_moved_paths :: "(string \<times> string list) list"
  ax_deleted_paths :: "string list list"

definition materialize_plan :: "apply_env \<Rightarrow> pull_plan \<Rightarrow> int
    \<Rightarrow> ((string \<times> string list) list \<times> (string \<times> string list) list \<times> string list list) desk_io" where
  "materialize_plan env p at =
     ebind (each_of (stage_blocking_move env p at) (pp_moves p)) (\<lambda>_.
     ebind (each_of (apply_delete env at)
       (filter (\<lambda>x. pd_path x \<in> set (pp_blocking_paths p)) (pp_deletes p))) (\<lambda>deleted.
     ebind (each_of (apply_write env at) (pp_writes p)) (\<lambda>written.
     ebind (each_of (apply_move env p at) (pp_moves p)) (\<lambda>moved.
     ebind (each_of (apply_delete env at)
       (filter (\<lambda>x. pd_path x \<notin> set (pp_blocking_paths p)) (pp_deletes p))) (\<lambda>deleted'.
     eret (written, moved, concat (deleted @ deleted')))))))"

definition apply_staged_pull_plan ::
  "apply_env \<Rightarrow> pull_plan \<Rightarrow> apply_journal option \<Rightarrow> int \<Rightarrow> apply_execution desk_io" where
  "apply_staged_pull_plan env p journal materialized_at = (case journal of
     None \<Rightarrow> eret \<lparr>ax_journal = None, ax_written_paths = [], ax_moved_paths = [], ax_deleted_paths = []\<rparr>
   | Some _ \<Rightarrow>
       ebind (in_store (eread (load_sync_apply_journal (ae_vault_id env)))) (\<lambda>current.
       case current of
         None \<Rightarrow> eraise (KeyError (''sync_apply_journal not found: '' @ ae_vault_id env))
       | Some j \<Rightarrow>
         if aj_target_revision j \<noteq> pp_revision p
         then eraise (ValueError ''sync_apply_journal target_revision does not match pull apply plan'')
         else if aj_vault_id j \<noteq> pp_vault_id p
         then eraise (ValueError ''sync_apply_journal vault_id does not match pull apply plan'')
         else
           ebind (elift (SyncApplyJournalRecord (j\<lparr>aj_phase := ''materializing'',
             aj_ops_hash := Some (pp_ops_hash p), aj_updated_at := materialized_at\<rparr>))) (\<lambda>materializing.
           ebind (in_store (upsert_sync_apply_journal materializing)) (\<lambda>_.
           ebind (materialize_plan env p materialized_at) (\<lambda>(written, moved, deleted).
           eret \<lparr>ax_journal = Some materializing, ax_written_paths = written, ax_moved_paths = moved,
             ax_deleted_paths = deleted\<rparr>)))))"

section \<open>Finishing\<close>

definition is_pull_staging_name :: "string \<Rightarrow> bool" where
  "is_pull_staging_name n \<longleftrightarrow>
     ends_with ''.staging'' (path_name n) \<and> \<not> ends_with ''.blob.staging'' (path_name n)"

definition cleanup_pull_apply_staging_artifacts :: "string list io" where
  "cleanup_pull_apply_staging_artifacts =
     ebind (eget (filter is_pull_staging_name \<circ> map fst \<circ> staged_files))
       (each (\<lambda>n. ebind (unlink_staging n) (\<lambda>_. eret n)))"

text \<open>The plan file: written through a temporary file that nothing reads.\<close>

definition write_pull_apply_plan_file :: "pull_plan \<Rightarrow> unit desk_io" where
  "write_pull_apply_plan_file p =
     ebind (disk_step id) (\<lambda>_. ebind (disk_step id) (\<lambda>_.
     disk_step (\<lambda>s. s\<lparr>de_plan := Some (Text (serialize_pull_apply_plan p))\<rparr>)))"

definition load_pull_apply_plan_file :: "desk \<Rightarrow> pull_plan option result" where
  "load_pull_apply_plan_file s = (case de_plan s of
     None \<Rightarrow> Inr None
   | Some c \<Rightarrow> rbind (json_load c) (\<lambda>v. rbind (deserialize_pull_apply_plan v) (\<lambda>p. Inr (Some p))))"

definition cleanup_pull_apply_plan_file :: "bool desk_io" where
  "cleanup_pull_apply_plan_file =
     ebind (eget de_plan) (\<lambda>plan.
     if plan = None then eret False
     else ebind (disk_step (\<lambda>s. s\<lparr>de_plan := None\<rparr>)) (\<lambda>_. eret True))"

record finalize_result =
  fz_state :: vault_state
  fz_removed_staging_paths :: "string list"
  fz_removed_plan :: bool

definition finalize_applied_pull_plan ::
  "apply_env \<Rightarrow> pull_plan \<Rightarrow> apply_execution \<Rightarrow> int \<Rightarrow> finalize_result option desk_io" where
  "finalize_applied_pull_plan env p execution finalized_at =
     (if ax_journal execution = None then eret None else
     ebind (in_store (eread (load_sync_apply_journal (ae_vault_id env)))) (\<lambda>current.
     case current of
       None \<Rightarrow> eraise (KeyError (''sync_apply_journal not found: '' @ ae_vault_id env))
     | Some j \<Rightarrow>
       if aj_vault_id j \<noteq> pp_vault_id p
       then eraise (ValueError ''sync_apply_journal vault_id does not match pull apply plan'')
       else if aj_target_revision j \<noteq> pp_revision p
       then eraise (ValueError ''sync_apply_journal target_revision does not match pull apply plan'')
       else if aj_phase j \<noteq> ''materializing''
       then eraise (ValueError ''sync_apply_journal must be in materializing phase before finalization'')
       else
         ebind (elift (SyncApplyJournalRecord
           (j\<lparr>aj_phase := ''filemap_rewrite'', aj_updated_at := finalized_at\<rparr>))) (\<lambda>rewriting.
         ebind (in_store (upsert_sync_apply_journal rewriting)) (\<lambda>_.
         ebind (elift (SyncApplyJournalRecord
           (rewriting\<lparr>aj_phase := ''finalizing'', aj_updated_at := finalized_at\<rparr>))) (\<lambda>finalizing.
         ebind (in_store (upsert_sync_apply_journal finalizing)) (\<lambda>_.
         ebind (in_store (recover_sync_apply_finalizing_state (ae_vault_id env))) (\<lambda>st.
         ebind (in_store cleanup_pull_apply_staging_artifacts) (\<lambda>removed.
         ebind cleanup_pull_apply_plan_file (\<lambda>plan_removed.
         eret (Some \<lparr>fz_state = st, fz_removed_staging_paths = removed,
           fz_removed_plan = plan_removed\<rparr>))))))))))"

section \<open>Recovering an interrupted pull\<close>

record pull_recovery =
  pv_mode :: string
  pv_requires_full_pull :: bool
  pv_journal_phase :: "string option"
  pv_state :: "vault_state option"
  pv_removed_staging_paths :: "string list"
  pv_isolated_staging_paths :: "string list"
  pv_removed_plan :: bool

definition workspace_matches_document :: "apply_env \<Rightarrow> filemap_document \<Rightarrow> bool desk_io" where
  "workspace_matches_document env d =
     eread (\<lambda>s. rbind (foldM (\<lambda>ok r.
       if \<not> ok \<or> fr_status r \<noteq> ''active'' then Inr ok
       else rbind (resolve_desktop_path (fr_path r)) (\<lambda>ps.
         Inr (map_option (content_hash env) (file_bytes s ps) \<noteq> None
           \<and> map_option (content_hash env) (file_bytes s ps) = fr_content_hash r)))
       True (fd_files d)) Inr)"

definition validate_recovery_pull_apply_plan :: "pull_plan \<Rightarrow> apply_journal \<Rightarrow> unit result" where
  "validate_recovery_pull_apply_plan p j = validate
     [(pp_vault_id p = aj_vault_id j,
       ''recovery pull apply plan vault_id does not match sync_apply_journal''),
      (pp_revision p = aj_target_revision j,
       ''recovery pull apply plan revision does not match sync_apply_journal''),
      (Some (pp_ops_hash p) = aj_ops_hash j,
       ''recovery pull apply plan ops_hash does not match sync_apply_journal'')] ()"

definition finalize_materializing_pull_apply_recovery ::
  "apply_env \<Rightarrow> apply_journal \<Rightarrow> int \<Rightarrow> pull_recovery desk_io" where
  "finalize_materializing_pull_apply_recovery env j normalized_at =
     ebind (elift (SyncApplyJournalRecord (j\<lparr>aj_phase := ''finalizing'', aj_updated_at := normalized_at\<rparr>)))
       (\<lambda>finalizing.
     ebind (in_store (upsert_sync_apply_journal finalizing)) (\<lambda>_.
     ebind (in_store (recover_sync_apply_finalizing_state (ae_vault_id env))) (\<lambda>st.
     ebind (in_store cleanup_pull_apply_staging_artifacts) (\<lambda>removed.
     ebind cleanup_pull_apply_plan_file (\<lambda>plan_removed.
     eret \<lparr>pv_mode = ''finalized'', pv_requires_full_pull = (vs_last_manifest_summary_status st \<noteq> ''valid''),
       pv_journal_phase = Some ''materializing'', pv_state = Some st, pv_removed_staging_paths = removed,
       pv_isolated_staging_paths = [], pv_removed_plan = plan_removed\<rparr>)))))"

definition degrade_pull_apply_recovery ::
  "apply_env \<Rightarrow> apply_journal \<Rightarrow> pull_recovery desk_io" where
  "degrade_pull_apply_recovery env j =
     ebind (in_store (eread (load_vault_state (ae_vault_id env)))) (\<lambda>state.
     case state of
       None \<Rightarrow> eraise (KeyError (''vault_state not found: '' @ ae_vault_id env))
     | Some st \<Rightarrow>
       ebind (elift (apply_manifest_summary_stale st)) (\<lambda>degraded.
       ebind (in_store (upsert_vault_state degraded)) (\<lambda>_.
       ebind (in_store (clear_sync_apply_journal (ae_vault_id env))) (\<lambda>_.
       ebind (in_store isolate_staging_orphans) (\<lambda>isolated.
       ebind cleanup_pull_apply_plan_file (\<lambda>plan_removed.
       eret \<lparr>pv_mode = ''degraded'', pv_requires_full_pull = True, pv_journal_phase = Some (aj_phase j),
         pv_state = Some degraded, pv_removed_staging_paths = [], pv_isolated_staging_paths = isolated,
         pv_removed_plan = plan_removed\<rparr>))))))"

definition isolate_unjournaled_pull_apply_staging :: "string list io" where
  "isolate_unjournaled_pull_apply_staging =
     ebind (eget (filter is_pull_staging_name \<circ> map fst \<circ> staged_files)) (each move_staging_orphan)"

definition recover_without_journal :: "apply_env \<Rightarrow> pull_recovery desk_io" where
  "recover_without_journal env =
     ebind (in_store isolate_unjournaled_pull_apply_staging) (\<lambda>isolated.
     ebind cleanup_pull_apply_plan_file (\<lambda>plan_removed.
     if isolated \<noteq> [] \<or> plan_removed then
       ebind (in_store (eread (load_vault_state (ae_vault_id env)))) (\<lambda>state.
       case state of
         None \<Rightarrow> eraise (KeyError (''vault_state not found: '' @ ae_vault_id env))
       | Some st \<Rightarrow>
         ebind (elift (apply_manifest_summary_stale st)) (\<lambda>stale.
         ebind (in_store (upsert_vault_state stale)) (\<lambda>_.
         eret \<lparr>pv_mode = ''orphaned'', pv_requires_full_pull = True, pv_journal_phase = None,
           pv_state = Some stale, pv_removed_staging_paths = [], pv_isolated_staging_paths = isolated,
           pv_removed_plan = plan_removed\<rparr>)))
     else eret \<lparr>pv_mode = ''idle'', pv_requires_full_pull = False, pv_journal_phase = None, pv_state = None,
       pv_removed_staging_paths = [], pv_isolated_staging_paths = [], pv_removed_plan = False\<rparr>))"

text \<open>The \<open>except\<close> clauses; \<open>JSONDecodeError\<close> and \<open>UnicodeDecodeError\<close> are \<open>ValueError\<close>s.\<close>

definition is_file_not_found :: "string \<Rightarrow> bool" where
  "is_file_not_found msg \<longleftrightarrow> has_prefix ''FileNotFoundError'' msg"

fun caught_by_load :: "py_exn \<Rightarrow> bool" where
  "caught_by_load (KeyError m) = True"
| "caught_by_load (TypeError m) = True"
| "caught_by_load (ValueError m) = True"
| "caught_by_load _ = False"

fun caught_by_replay :: "py_exn \<Rightarrow> bool" where
  "caught_by_replay (OSError m) = is_file_not_found m"
| "caught_by_replay (KeyError m) = True"
| "caught_by_replay (ValueError m) = True"
| "caught_by_replay _ = False"

definition etry :: "('s, py_exn, 'a) eff \<Rightarrow> (py_exn \<Rightarrow> bool) \<Rightarrow> ('s, py_exn, 'a) eff \<Rightarrow> ('s, py_exn, 'a) eff" where
  "etry m caught h s = (case m s of
     (Inl e, s') \<Rightarrow> if caught e then h s' else (Inl e, s')
   | (Inr x, s') \<Rightarrow> (Inr x, s'))"

definition replay_pull_apply_plan ::
  "apply_env \<Rightarrow> pull_plan \<Rightarrow> apply_journal \<Rightarrow> int \<Rightarrow> pull_recovery desk_io" where
  "replay_pull_apply_plan env p j normalized_at =
     ebind (apply_staged_pull_plan env p (Some j) normalized_at) (\<lambda>execution.
     ebind (finalize_applied_pull_plan env p execution normalized_at) (\<lambda>finalized.
     eret \<lparr>pv_mode = ''replayed'',
       pv_requires_full_pull = (case finalized of None \<Rightarrow> False
         | Some f \<Rightarrow> vs_last_manifest_summary_status (fz_state f) \<noteq> ''valid''),
       pv_journal_phase = Some (aj_phase j), pv_state = map_option fz_state finalized,
       pv_removed_staging_paths = (case finalized of None \<Rightarrow> [] | Some f \<Rightarrow> fz_removed_staging_paths f),
       pv_isolated_staging_paths = [],
       pv_removed_plan = (case finalized of None \<Rightarrow> False | Some f \<Rightarrow> fz_removed_plan f)\<rparr>))"

text \<open>What every failed replay falls back to; \<open>snapshot\<close> is the document read before it.\<close>

definition recover_unreplayable ::
  "apply_env \<Rightarrow> apply_journal \<Rightarrow> desk_snapshot option \<Rightarrow> int \<Rightarrow> pull_recovery desk_io" where
  "recover_unreplayable env j snapshot normalized_at =
     ebind (case (aj_phase j = ''materializing'', snapshot) of
         (True, Some sn) \<Rightarrow> workspace_matches_document env (dn_document sn)
       | _ \<Rightarrow> eret False) (\<lambda>matches.
     if matches then finalize_materializing_pull_apply_recovery env j normalized_at
     else degrade_pull_apply_recovery env j)"

definition finish_rewritten :: "apply_env \<Rightarrow> apply_journal \<Rightarrow> int \<Rightarrow> pull_recovery desk_io" where
  "finish_rewritten env j normalized_at =
     ebind (if aj_phase j = ''finalizing'' then eret j
       else elift (SyncApplyJournalRecord (j\<lparr>aj_phase := ''finalizing'', aj_updated_at := normalized_at\<rparr>)))
       (\<lambda>finalizing.
     ebind (if finalizing \<noteq> j then in_store (upsert_sync_apply_journal finalizing) else eret ()) (\<lambda>_.
     ebind (in_store (recover_sync_apply_finalizing_state (ae_vault_id env))) (\<lambda>st.
     ebind (in_store cleanup_pull_apply_staging_artifacts) (\<lambda>removed.
     ebind cleanup_pull_apply_plan_file (\<lambda>plan_removed.
     eret \<lparr>pv_mode = ''finalized'', pv_requires_full_pull = (vs_last_manifest_summary_status st \<noteq> ''valid''),
       pv_journal_phase = Some (aj_phase finalizing), pv_state = Some st, pv_removed_staging_paths = removed,
       pv_isolated_staging_paths = [], pv_removed_plan = plan_removed\<rparr>)))))"

definition resume_pull_apply_recovery :: "apply_env \<Rightarrow> int \<Rightarrow> pull_recovery desk_io" where
  "resume_pull_apply_recovery env normalized_at =
     ebind (in_store (eread (load_sync_apply_journal (ae_vault_id env)))) (\<lambda>journal.
     case journal of
       None \<Rightarrow> recover_without_journal env
     | Some j \<Rightarrow>
       ebind (if aj_phase j = ''materializing''
         then ebind (in_store (load_desk_snapshot env)) (\<lambda>sn. eret (Some sn)) else eret None) (\<lambda>snapshot.
       if aj_phase j \<in> {''staging'', ''materializing''} then
         ebind (etry (ebind (eread load_pull_apply_plan_file) (\<lambda>p. eret (Some p))) caught_by_load (eret None))
           (\<lambda>loaded.
         case loaded of
           None \<Rightarrow> recover_unreplayable env j snapshot normalized_at
         | Some None \<Rightarrow>
             if aj_phase j = ''materializing'' then recover_unreplayable env j snapshot normalized_at
             else degrade_pull_apply_recovery env j
         | Some (Some p) \<Rightarrow>
             (case validate_recovery_pull_apply_plan p j of
                Inl _ \<Rightarrow> recover_unreplayable env j snapshot normalized_at
              | Inr _ \<Rightarrow>
                  etry (replay_pull_apply_plan env p j normalized_at) caught_by_replay
                    (recover_unreplayable env j snapshot normalized_at)))
       else if aj_phase j \<in> {''filemap_rewrite'', ''finalizing''} then finish_rewritten env j normalized_at
       else if aj_phase j = ''preparing'' then degrade_pull_apply_recovery env j
       else eraise (ValueError (''pull apply recovery is not supported for journal phase: '' @ aj_phase j))))"

section \<open>The blobs a pull needs\<close>

record required_blob =
  bq_file_id :: string
  bq_path :: string
  bq_type :: string
  bq_blob_id :: string
  bq_content_hash :: string

record required_plan =
  bp_vault_id :: string
  bp_revision :: int
  bp_files :: "required_blob list"
  bp_blob_ids :: "string list"

text \<open>A move whose source no longer holds the bytes needs the blob as well.\<close>

definition move_requires :: "apply_env \<Rightarrow> manifest \<Rightarrow> string list \<Rightarrow> pull_move \<Rightarrow> string list desk_io" where
  "move_requires env m required v = (case dict_of mf_file_id (mn_sorted_files m) (pm_file_id v) of
     None \<Rightarrow> eraise (ValueError (''pull manifest is missing move target file_id: '' @ pm_file_id v))
   | Some e \<Rightarrow>
       ebind (elift (resolve_desktop_path (pm_source_path v))) (\<lambda>source.
       ebind (eget (\<lambda>s. file_bytes s source)) (\<lambda>bytes.
       eret (case bytes of
         None \<Rightarrow> required @ [mf_blob_id e]
       | Some b \<Rightarrow> if content_hash env b \<noteq> pm_content_hash v then required @ [mf_blob_id e] else required))))"

fun fold_each :: "('b \<Rightarrow> 'a \<Rightarrow> ('s, 'e, 'b) eff) \<Rightarrow> 'b \<Rightarrow> 'a list \<Rightarrow> ('s, 'e, 'b) eff" where
  "fold_each f b [] = eret b"
| "fold_each f b (x # xs) = ebind (f b x) (\<lambda>b'. fold_each f b' xs)"

definition require_entry :: "string list
    \<Rightarrow> required_blob list \<times> string list \<times> (string \<times> string) list \<Rightarrow> manifest_file
    \<Rightarrow> (required_blob list \<times> string list \<times> (string \<times> string) list) result" where
  "require_entry required = (\<lambda>(files, blob_ids, hashes) e.
     if mf_blob_id e \<notin> set required then Inr (files, blob_ids, hashes)
     else if (case map_of hashes (mf_blob_id e) of None \<Rightarrow> False | Some h \<Rightarrow> h \<noteq> mf_content_hash e)
     then Inl (ValueError (''required blob_id maps to multiple content hashes: '' @ mf_blob_id e))
     else Inr (files @ [\<lparr>bq_file_id = mf_file_id e, bq_path = mf_path e, bq_type = mf_type e,
                  bq_blob_id = mf_blob_id e, bq_content_hash = mf_content_hash e\<rparr>],
               if mf_blob_id e \<in> set blob_ids then blob_ids else blob_ids @ [mf_blob_id e],
               AList.update (mf_blob_id e) (mf_content_hash e) hashes))"

definition build_pull_required_blob_plan ::
  "apply_env \<Rightarrow> pull_session \<Rightarrow> pull_plan option \<Rightarrow> required_plan desk_io" where
  "build_pull_required_blob_plan env pull apply_plan =
     (let empty = \<lparr>bp_vault_id = ae_vault_id env, bp_revision = hr_head_revision (ps_head pull),
            bp_files = [], bp_blob_ids = []\<rparr> in
      case snd (snd (ps_reconcile pull)) of
        None \<Rightarrow> eret empty
      | Some applied \<Rightarrow> (case ps_manifest pull of
          None \<Rightarrow> if am_required_blob_ids applied \<noteq> []
            then eraise (ValueError ''pull result is missing manifest for required blob planning'')
            else eret empty
        | Some m \<Rightarrow>
            ebind (case apply_plan of
                None \<Rightarrow> eret (am_required_blob_ids applied)
              | Some p \<Rightarrow> fold_each (move_requires env m) (am_required_blob_ids applied) (pp_moves p)) (\<lambda>required.
            ebind (elift (foldM (require_entry required) ([], [], []) (mn_sorted_files m)))
              (\<lambda>(files, blob_ids, _).
            let missing = filter (\<lambda>b. b \<notin> mf_blob_id ` set (mn_files m)) required in
            if missing \<noteq> []
            then eraise (ValueError (''required blob_ids are missing from pull manifest: ''
              @ join '', '' (sorted_set missing)))
            else eret \<lparr>bp_vault_id = mn_vault_id m, bp_revision = mn_revision m, bp_files = files,
              bp_blob_ids = blob_ids\<rparr>))))"

definition decrypt_required :: "apply_env \<Rightarrow> (string \<times> string) list
    \<Rightarrow> (string \<times> string) list \<times> (string \<times> string) list \<Rightarrow> required_blob
    \<Rightarrow> ((string \<times> string) list \<times> (string \<times> string) list) result" where
  "decrypt_required env downloaded = (\<lambda>(by_blob, by_file) item.
     rbind (case map_of by_blob (bq_blob_id item) of
         Some plaintext \<Rightarrow> Inr (plaintext, by_blob)
       | None \<Rightarrow> (case map_of downloaded (bq_blob_id item) of
           None \<Rightarrow> Inl (KeyError (''downloaded blob payload not found: '' @ bq_blob_id item))
         | Some encrypted \<Rightarrow>
             rbind (ae_decrypt env encrypted (bq_content_hash item)) (\<lambda>plaintext.
             Inr (plaintext, AList.update (bq_blob_id item) plaintext by_blob))))
       (\<lambda>(plaintext, by_blob). Inr (by_blob, AList.update (bq_file_id item) plaintext by_file)))"

text \<open>Effects on the network and the desktop.\<close>

definition on_net :: "('w, 'e, 'a) eff \<Rightarrow> ('w \<times> desk, 'e, 'a) eff" where
  "on_net m = (\<lambda>(w, s). case m w of (r, w') \<Rightarrow> (r, w', s))"

definition on_desk :: "'a desk_io \<Rightarrow> ('w \<times> desk, py_exn, 'a) eff" where
  "on_desk m = (\<lambda>(w, s). case m s of (r, s') \<Rightarrow> (r, w, s'))"

definition on_session :: "('w \<times> client, py_exn, 'a) eff \<Rightarrow> ('w \<times> desk, py_exn, 'a) eff" where
  "on_session m = (\<lambda>(w, s). case m (w, de_client s) of (r, w', c) \<Rightarrow> (r, w', s\<lparr>de_client := c\<rparr>))"

definition download_and_decrypt_pull_required_blobs ::
  "apply_env \<Rightarrow> 'w vault_sync_session \<Rightarrow> pull_session \<Rightarrow> pull_plan option
     \<Rightarrow> ('w \<times> desk, py_exn, required_plan \<times> (string \<times> string) list) eff" where
  "download_and_decrypt_pull_required_blobs env sn pull apply_plan =
     ebind (on_desk (build_pull_required_blob_plan env pull apply_plan)) (\<lambda>plan.
     ebind (if bp_blob_ids plan = [] then eret []
       else ebind (on_net (session_download_blobs sn (ae_vault_id env) (bp_blob_ids plan))) (\<lambda>d. eret (snd d)))
       (\<lambda>downloaded.
     ebind (elift (foldM (decrypt_required env downloaded) ([], []) (bp_files plan))) (\<lambda>(_, by_file).
     eret (plan, by_file))))"

section \<open>Staging\<close>

definition materialize_pull_required_plaintext ::
  "required_plan \<Rightarrow> (string \<times> string) list \<Rightarrow> (string \<times> string list) list desk_io" where
  "materialize_pull_required_plaintext plan plaintext =
     each_of (\<lambda>item. case map_of plaintext (bq_file_id item) of
         None \<Rightarrow> eraise (KeyError (''plaintext payload not found for file_id: '' @ bq_file_id item))
       | Some b \<Rightarrow>
           ebind (elift (resolve_desktop_path (bq_path item))) (\<lambda>output.
           ebind (write_bytes_atomic output b) (\<lambda>_. eret (bq_file_id item, output)))) (bp_files plan)"

definition required_blob_to_json :: "required_blob \<Rightarrow> json" where
  "required_blob_to_json q = JObj [(''file_id'', JStr (bq_file_id q)), (''path'', JStr (bq_path q)),
     (''type'', JStr (bq_type q)), (''blob_id'', JStr (bq_blob_id q)),
     (''content_hash'', JStr (bq_content_hash q))]"

definition build_pull_apply_ops_hash :: "apply_env \<Rightarrow> required_plan \<Rightarrow> string" where
  "build_pull_apply_ops_hash env plan = sha256_hex (ae_sha env) (json_dumps_ascii (JObj
     [(''vault_id'', JStr (bp_vault_id plan)), (''revision'', JInt (bp_revision plan)),
      (''files'', JArr (map required_blob_to_json (bp_files plan)))]))"

definition staged_payload :: "(string \<times> string) list \<Rightarrow> required_blob
    \<Rightarrow> (string \<times> string list \<times> string) result" where
  "staged_payload plaintext item = (case map_of plaintext (bq_file_id item) of
     None \<Rightarrow> Inl (KeyError (''plaintext payload not found for file_id: '' @ bq_file_id item))
   | Some b \<Rightarrow> rbind (resolve_pull_apply_staging_path (bq_file_id item)) (\<lambda>ps.
       Inr (bq_file_id item, ps, b)))"

text \<open>The body of the \<open>try\<close>: the error, if any, and the staging files written until then.\<close>

fun write_staging_files ::
  "(string \<times> string list \<times> string) list \<Rightarrow> string list list \<Rightarrow> desk
     \<Rightarrow> (py_exn option \<times> string list list) \<times> desk" where
  "write_staging_files [] written s = ((None, written), s)"
| "write_staging_files ((_, ps, b) # items) written s = (case write_bytes_atomic ps b s of
     (Inl e, s') \<Rightarrow> ((Some e, written), s')
   | (Inr _, s') \<Rightarrow> write_staging_files items (written @ [ps]) s')"

definition stage_under_journal ::
  "pull_plan option \<Rightarrow> (string \<times> string list \<times> string) list \<Rightarrow> apply_journal \<Rightarrow> desk
     \<Rightarrow> (py_exn option \<times> string list list) \<times> desk" where
  "stage_under_journal apply_plan items staging s =
     (case (case apply_plan of None \<Rightarrow> eret () | Some p \<Rightarrow> write_pull_apply_plan_file p) s of
        (Inl e, s1) \<Rightarrow> ((Some e, []), s1)
      | (Inr _, s1) \<Rightarrow> (case write_staging_files items [] s1 of
          ((Some e, written), s2) \<Rightarrow> ((Some e, written), s2)
        | ((None, written), s2) \<Rightarrow> (case in_store (upsert_sync_apply_journal staging) s2 of
            (Inl e, s3) \<Rightarrow> ((Some e, written), s3)
          | (Inr _, s3) \<Rightarrow> ((None, written), s3))))"

definition suppress :: "('s, py_exn, 'a) eff \<Rightarrow> ('s, py_exn, unit) eff" where
  "suppress m s = (case m s of
     (Inl PowerLoss, s') \<Rightarrow> (Inl PowerLoss, s') | (_, s') \<Rightarrow> (Inr (), s'))"

definition undo_staging :: "string \<Rightarrow> string list list \<Rightarrow> py_exn \<Rightarrow> 'a desk_io" where
  "undo_staging vault_id written e =
     ebind (each_of unlink_path written) (\<lambda>_.
     ebind (suppress (in_store (clear_sync_apply_journal vault_id))) (\<lambda>_.
     ebind (suppress cleanup_pull_apply_plan_file) (\<lambda>_. eraise e)))"

definition stage_pull_required_plaintext_for_apply ::
  "apply_env \<Rightarrow> manifest option \<Rightarrow> required_plan \<Rightarrow> (string \<times> string) list \<Rightarrow> int \<Rightarrow> pull_plan option
     \<Rightarrow> (apply_journal option \<times> (string \<times> string list) list) desk_io" where
  "stage_pull_required_plaintext_for_apply env manifest plan plaintext started_at apply_plan =
     (case manifest of
        None \<Rightarrow> eraise (ValueError ''pull manifest is required to stage required plaintext'')
      | Some m \<Rightarrow>
        ebind (echeck
          ([(mn_vault_id m = bp_vault_id plan, ''pull manifest vault_id does not match required blob plan''),
            (mn_revision m = bp_revision plan, ''pull manifest revision does not match required blob plan'')]
           @ (case apply_plan of None \<Rightarrow> [] | Some p \<Rightarrow>
               [(pp_vault_id p = bp_vault_id plan,
                 ''pull apply plan vault_id does not match required blob plan''),
                (pp_revision p = bp_revision plan,
                 ''pull apply plan revision does not match required blob plan'')]))) (\<lambda>_.
        ebind (elift (mapM (staged_payload plaintext) (bp_files plan))) (\<lambda>items.
        if items = [] \<and> (case apply_plan of None \<Rightarrow> True
            | Some p \<Rightarrow> pp_writes p = [] \<and> pp_moves p = [] \<and> pp_deletes p = [])
        then eret (None, [])
        else
          ebind (elift (SyncApplyJournalRecord \<lparr>aj_vault_id = bp_vault_id plan,
              aj_journal_id = ae_journal_id env, aj_target_revision = bp_revision plan,
              aj_target_manifest_hash = mn_summary_hash m, aj_phase = ''preparing'',
              aj_created_at = started_at, aj_updated_at = started_at,
              aj_ops_hash = Some (case apply_plan of
                Some p \<Rightarrow> pp_ops_hash p | None \<Rightarrow> build_pull_apply_ops_hash env plan)\<rparr>)) (\<lambda>journal.
          ebind (in_store (require_no_active_sync_apply_journal env ''stage pull apply'')) (\<lambda>_.
          ebind (in_store (upsert_sync_apply_journal journal)) (\<lambda>_.
          let staging = journal\<lparr>aj_phase := ''staging'', aj_updated_at := started_at\<rparr> in
          (\<lambda>s. case stage_under_journal apply_plan items staging s of
             ((None, written), s') \<Rightarrow> (Inr (Some staging, map (\<lambda>(i, ps, _). (i, ps)) items), s')
           | ((Some PowerLoss, written), s') \<Rightarrow> (Inl PowerLoss, s')
           | ((Some e, written), s') \<Rightarrow> undo_staging (bp_vault_id plan) written e s')))))))"

section \<open>Pulling\<close>

record apply_session =
  as_pull :: pull_session
  as_plan :: pull_plan
  as_journal :: "apply_journal option"
  as_execution :: apply_execution
  as_finalized :: "finalize_result option"

definition pull_and_ack_with_snapshot ::
  "(string \<Rightarrow> string) \<Rightarrow> apply_env \<Rightarrow> 'w transport \<Rightarrow> int
     \<Rightarrow> ('w \<times> desk, py_exn, desk_snapshot \<times> pull_session \<times> (int list \<times> int) option) eff" where
  "pull_and_ack_with_snapshot nfc env tr rewritten_at =
     ebind (on_desk (in_store (load_desk_snapshot env))) (\<lambda>sn.
     ebind (on_desk (in_store (require_no_active_sync_apply_journal env ''pull''))) (\<lambda>_.
     if vs_commit_in_progress (dn_state sn)
     then eraise (ValueError ''pull cannot start while commit_in_progress is true'')
     else
       ebind (on_session (execute_pull_sync_session (ae_sha env) nfc tr (dn_document sn) (dn_state sn)
         (dn_tombstones sn) rewritten_at)) (\<lambda>pull. eret (sn, pull))))"

definition pull_and_plan_apply ::
  "(string \<Rightarrow> string) \<Rightarrow> apply_env \<Rightarrow> 'w transport \<Rightarrow> int \<Rightarrow> ('w \<times> desk, py_exn, pull_session \<times> pull_plan) eff" where
  "pull_and_plan_apply nfc env tr rewritten_at =
     ebind (pull_and_ack_with_snapshot nfc env tr rewritten_at) (\<lambda>(snapshot, pull, _).
     ebind (elift (build_pull_apply_plan (ae_sha env) (dn_document snapshot) (ps_manifest pull))) (\<lambda>plan.
     eret (pull, plan)))"

definition pull_and_apply ::
  "(string \<Rightarrow> string) \<Rightarrow> apply_env \<Rightarrow> 'w vault_sync_session \<Rightarrow> int \<Rightarrow> bool
     \<Rightarrow> ('w \<times> desk, py_exn, apply_session) eff" where
  "pull_and_apply nfc env sn rewritten_at reject_blocking_paths =
     ebind (pull_and_plan_apply nfc env (sn_transport sn) rewritten_at) (\<lambda>(pull, plan).
     if reject_blocking_paths \<and> pp_blocking_paths plan \<noteq> []
     then eraise (ValueError (''pull apply requires a later two-phase materialization boundary for blocking paths: ''
       @ join '', '' (pp_blocking_paths plan)))
     else
       ebind (download_and_decrypt_pull_required_blobs env sn pull (Some plan)) (\<lambda>(required, plaintext).
       ebind (on_desk (stage_pull_required_plaintext_for_apply env (ps_manifest pull) required plaintext
         rewritten_at (Some plan))) (\<lambda>(journal, _).
       ebind (on_desk (apply_staged_pull_plan env plan journal rewritten_at)) (\<lambda>execution.
       ebind (on_desk (finalize_applied_pull_plan env plan execution rewritten_at)) (\<lambda>finalized.
       eret \<lparr>as_pull = pull, as_plan = plan, as_journal = journal, as_execution = execution,
         as_finalized = finalized\<rparr>)))))"

end
