(* ===== verification/Pull_Workspace.thy ===== *)
theory Pull_Workspace
  imports Pull_Apply
begin

text \<open>
  What applying a pull does to the workspace. Seen as a map from paths to bytes, each step of the
  application updates the map at a few paths; the loops are folds of such updates, and their
  composition is the effect of the plan.
\<close>

section \<open>Loops over a list\<close>

lemma each_of_fold:
  assumes step: "\<And>x F s. x \<in> set xs \<Longrightarrow> R F s \<Longrightarrow> ok x F \<Longrightarrow> \<exists>y s'. f x s = (Inr y, s') \<and> R (g x F) s'"
    and keep: "\<And>x y F. x \<in> set xs \<Longrightarrow> y \<in> set xs \<Longrightarrow> x \<noteq> y \<Longrightarrow> ok y F \<Longrightarrow> ok y (g x F)"
    and "distinct xs" "\<forall>x \<in> set xs. ok x F" "R F s"
  shows "\<exists>ys s'. each_of f xs s = (Inr ys, s') \<and> R (fold g xs F) s'"
  using assms
proof (induction xs arbitrary: F s)
  case (Cons x xs)
  obtain y s1 where y: "f x s = (Inr y, s1)" "R (g x F) s1"
    using Cons.prems(1) [of x F s] Cons.prems(4,5) by auto
  have "\<forall>z \<in> set xs. ok z (g x F)"
    using Cons.prems(2-4) by auto
  then obtain ys s' where "each_of f xs s1 = (Inr ys, s')" "R (fold g xs (g x F)) s'"
  proof (atomize_elim, intro Cons.IH)
    show "distinct xs" using Cons.prems(3) by simp
  qed (use Cons.prems(1,2) y(2) in \<open>auto intro!: Cons.prems(1,2)\<close>)
  then show ?case by (simp add: ebind_def y)
qed simp

lemma fold_guarded: "fold (\<lambda>x F. if P x then g x F else F) xs F = fold g (filter P xs) F"
  by (induction xs arbitrary: F) simp_all

text \<open>Moving files: \<open>(a, b)\<close> takes the bytes at \<open>a\<close> to \<open>b\<close>.\<close>

type_synonym tree = "string list \<Rightarrow> string option"

definition moved :: "string list \<times> string list \<Rightarrow> tree \<Rightarrow> tree" where
  "moved e F = F(fst e := None, snd e := F (fst e))"

definition removed :: "string list \<Rightarrow> tree \<Rightarrow> tree" where
  "removed p F = F(p := None)"

definition stored :: "string list \<times> string \<Rightarrow> tree \<Rightarrow> tree" where
  "stored e F = F(fst e := Some (snd e))"

lemma fold_removed: "fold removed ps F q = (if q \<in> set ps then None else F q)"
  by (induction ps arbitrary: F) (auto simp: removed_def)

lemma fold_stored_other: "q \<notin> fst ` set es \<Longrightarrow> fold stored es F q = F q"
  by (induction es arbitrary: F) (auto simp: stored_def)

lemma fold_stored: "distinct (map fst es) \<Longrightarrow> (q, b) \<in> set es \<Longrightarrow> fold stored es F q = Some b"
proof (induction es arbitrary: F)
  case (Cons e es)
  show ?case
  proof (cases "q = fst e")
    case True
    then have "q \<notin> fst ` set es" using Cons.prems(1) by simp
    then have "fold stored (e # es) F q = stored e F q" "e = (q, b)"
      using Cons.prems(2) by (auto simp: fold_stored_other image_iff)
    then show ?thesis by (metis fst_conv fun_upd_same snd_conv stored_def)
  next
    case False
    then show ?thesis using Cons by auto
  qed
qed simp

definition apart :: "(string list \<times> string list) list \<Rightarrow> bool" where
  "apart es \<longleftrightarrow> distinct (map fst es) \<and> distinct (map snd es) \<and> fst ` set es \<inter> snd ` set es = {}"

lemma fold_moved_other: "q \<notin> fst ` set es \<Longrightarrow> q \<notin> snd ` set es \<Longrightarrow> fold moved es F q = F q"
  by (induction es arbitrary: F) (auto simp: moved_def)

lemma fold_moved:
  "apart es \<Longrightarrow> ((a, q) \<in> set es \<longrightarrow> fold moved es F q = F a) \<and> (q \<in> fst ` set es \<longrightarrow> fold moved es F q = None)"
proof (induction es arbitrary: F)
  case (Cons e es)
  then have IH: "((a, q) \<in> set es \<longrightarrow> fold moved es (moved e F) q = moved e F a)
      \<and> (q \<in> fst ` set es \<longrightarrow> fold moved es (moved e F) q = None)"
    by (auto simp: apart_def)
  have a: "(a, q) \<in> set es \<Longrightarrow> moved e F a = F a"
    using Cons.prems by (auto simp: apart_def moved_def image_iff)
  have e: "q = snd e \<Longrightarrow> fold moved es (moved e F) q = F (fst e)"
    "q = fst e \<Longrightarrow> fold moved es (moved e F) q = None"
    using Cons.prems by (auto simp: apart_def fold_moved_other moved_def)
  have "(a, q) = e \<Longrightarrow> q = snd e \<and> a = fst e" by auto
  then show ?case using IH a e by auto
qed simp

lemma fold_moved_to: "apart es \<Longrightarrow> (a, q) \<in> set es \<Longrightarrow> fold moved es F q = F a"
  and fold_moved_from: "apart es \<Longrightarrow> a \<in> fst ` set es \<Longrightarrow> fold moved es F a = None"
  using fold_moved by simp_all

section \<open>Paths\<close>

definition plain_path :: "string \<Rightarrow> bool" where
  "plain_path q \<longleftrightarrow> clean_parts (path_parts q) \<and> path_parts q \<noteq> [] \<and> as_posix (path_parts q) = q
     \<and> NOTEAPP_DIRNAME \<notin> set (path_parts q)"

lemma plain_path_inj: "plain_path p \<Longrightarrow> plain_path q \<Longrightarrow> path_parts p = path_parts q \<longleftrightarrow> p = q"
  by (metis plain_path_def)

lemma plain_path_resolves: "plain_path q \<Longrightarrow> resolve_desktop_path q = Inr (path_parts q)"
  using as_posix_root [of "path_parts q"]
  by (auto simp: plain_path_def resolve_desktop_path_def clean_parts_def)

definition staged_parts :: "string \<Rightarrow> string list" where
  "staged_parts i = [''.noteapp'', ''staging'', i @ ''.staging'']"

lemma staged_parts_clean: "safe_file_id i \<Longrightarrow> clean_parts (staged_parts i)"
  by (cases i) (auto simp: safe_file_id_def staged_parts_def clean_parts_def)

lemma staging_path_parts:
  assumes "safe_file_id i"
  shows "path_parts (staging_path_of i) = staged_parts i"
    "resolve_desktop_path (staging_path_of i) = Inr (staged_parts i)"
    "resolve_pull_apply_staging_path i = Inr (staged_parts i)"
proof -
  have e: "staging_path_of i = as_posix (staged_parts i)"
    by (simp add: staging_path_of_def staged_parts_def as_posix_def STAGING_DIRNAME_def)
  then show p: "path_parts (staging_path_of i) = staged_parts i"
    using staged_parts_clean [OF assms] by simp
  show "resolve_desktop_path (staging_path_of i) = Inr (staged_parts i)"
    using staged_parts_clean [OF assms] p
    by (auto simp: resolve_desktop_path_def clean_parts_def staging_path_of_def STAGING_DIRNAME_def)
  have "build_pull_apply_staging_relative_path i = Inr (staging_path_of i)"
    using assms by (simp add: staging_relative_path_eq_Inr)
  then show "resolve_pull_apply_staging_path i = Inr (staged_parts i)"
    by (simp add: resolve_pull_apply_staging_path_def p)
qed

lemma staged_parts_inj [simp]: "staged_parts i = staged_parts j \<longleftrightarrow> i = j"
  by (simp add: staged_parts_def)

lemma plain_not_staged: "plain_path q \<Longrightarrow> path_parts q \<noteq> staged_parts i"
  by (auto simp: plain_path_def staged_parts_def NOTEAPP_DIRNAME_def)

text \<open>The files of a state, as paths.\<close>

definition file_paths :: "desk \<Rightarrow> string list list" where
  "file_paths s = map fst (de_files s)
     @ map (\<lambda>(n, _). [''.noteapp'', ''staging''] @ split_slash n) (cl_staging (de_client s))"

lemma file_paths_complete:
  assumes "clean_parts q" "file_bytes s q \<noteq> None"
  shows "q \<in> set (file_paths s)"
proof (cases "staging_name q")
  case None
  then have "q \<in> fst ` set (de_files s)"
    using assms(2) by (auto simp: file_bytes_def map_of_eq_None_iff)
  then show ?thesis by (auto simp: file_paths_def)
next
  case (Some n)
  then have "take 2 q = [''.noteapp'', ''staging'']" and d: "drop 2 q \<noteq> []" "n = join ''/'' (drop 2 q)"
    by (auto simp: staging_name_def split: if_splits)
  then have q: "q = [''.noteapp'', ''staging''] @ drop 2 q" by (metis append_take_drop_id)
  have "\<forall>p \<in> set (drop 2 q). CHR ''/'' \<notin> set p"
    using assms(1) by (auto simp: clean_parts_def dest: in_set_dropD)
  with d have "split_slash n = drop 2 q" using split_slash_join by metis
  moreover have "n \<in> fst ` set (cl_staging (de_client s))"
    using assms(2) Some by (auto simp: file_bytes_def map_of_eq_None_iff)
  ultimately show ?thesis using q by (force simp: file_paths_def)
qed

section \<open>The steps\<close>

text \<open>What surrounds an application: everything but the files stays as in \<open>B\<close>, directories are made
  only within \<open>D\<close>, files only within \<open>U\<close>, and no path is both.\<close>

record 'b surroundings =
  su_besides :: 'b
  su_dirs :: "string list set"
  su_files :: "string list set"

definition follows :: "(client \<times> file_content option) surroundings \<Rightarrow> tree \<Rightarrow> desk \<Rightarrow> bool" where
  "follows E F s \<longleftrightarrow> powered s \<and> besides s = su_besides E \<and> (\<forall>q. clean_parts q \<longrightarrow> file_bytes s q = F q)
     \<and> (\<forall>q. F q \<noteq> None \<longrightarrow> clean_parts q \<and> q \<in> su_files E) \<and> set (de_dirs s) \<subseteq> su_dirs E
     \<and> su_files E \<inter> su_dirs E = {} \<and> [] \<notin> su_files E"

definition roomy :: "(client \<times> file_content option) surroundings \<Rightarrow> string list \<Rightarrow> bool" where
  "roomy E t \<longleftrightarrow> clean_parts t \<and> t \<in> su_files E \<and> set (prefixes (butlast t)) \<subseteq> su_dirs E"

lemma prefixes_clean: "clean_parts t \<Longrightarrow> p \<in> set (prefixes (butlast t)) \<Longrightarrow> clean_parts p"
proof -
  assume "clean_parts t" "p \<in> set (prefixes (butlast t))"
  then obtain q where "butlast t = p @ q" by (auto simp: prefixes_iff)
  then have "set p \<subseteq> set t" by (metis in_set_butlastD set_append subsetI Un_iff)
  with \<open>clean_parts t\<close> show ?thesis by (auto simp: clean_parts_def)
qed

lemma follows_not_dir:
  "follows E F s \<Longrightarrow> p \<in> su_files E \<Longrightarrow> \<not> is_dir s p"
  by (auto simp: follows_def is_dir_def)

lemma follows_no_file: "follows E F s \<Longrightarrow> clean_parts p \<Longrightarrow> p \<in> su_dirs E \<Longrightarrow> file_bytes s p = None"
  by (fastforce simp: follows_def)

lemma follows_file: "follows E F s \<Longrightarrow> F p = Some b \<Longrightarrow> file_bytes s p = Some b \<and> path_exists s p \<and> is_file s p"
  by (auto simp: follows_def path_exists_def is_file_def)

lemma follows_removed:
  assumes f: "follows E F s" and p: "clean_parts p" "p \<in> su_files E"
  shows "unlink_path p s = (Inr (), del_bytes p s)" "follows E (removed p F) (del_bytes p s)"
  using follows_not_dir [OF f p(2)] f p(1)
  by (auto simp: unlink_path_def follows_def removed_def desk_tree.tree_del)

lemma follows_moved:
  assumes f: "follows E F s" and src: "F p = Some b" "p \<noteq> q" and q: "roomy E q"
  obtains s' where "ebind (make_dirs (butlast q)) (\<lambda>_. rename_path p q) s = (Inr (), s')"
    "follows E (moved (p, q) F) s'"
proof -
  have on: "powered s" and b: "file_bytes s p = Some b" and p: "clean_parts p"
    using f src by (auto simp: follows_def)
  have none: "\<forall>r \<in> set (prefixes (butlast q)). file_bytes s r = None"
    using q prefixes_clean follows_no_file [OF f] by (auto simp: roomy_def)
  obtain ds where ds: "make_dirs (butlast q) s = (Inr (), s\<lparr>de_dirs := ds\<rparr>)"
    "set ds = set (de_dirs s) \<union> set (prefixes (butlast q))"
    using make_dirs_ok [OF on none] .
  let ?s = "s\<lparr>de_dirs := ds\<rparr>" and ?e = "put_bytes q b (del_bytes p (s\<lparr>de_dirs := ds\<rparr>))"
  have f': "follows E F ?s" using f ds(2) q by (auto simp: follows_def roomy_def)
  have "is_dir ?s (butlast q)"
    using ds(2) prefixes_self [of "butlast q"] by (auto simp: is_dir_def)
  then have "rename_path p q ?s = (Inr (), ?e)"
    using on b follows_not_dir [OF f'] q by (intro rename_path_ok) (auto simp: roomy_def)
  moreover have "follows E (moved (p, q) F) ?e"
    using f' q p src unfolding follows_def
    by (auto simp: moved_def desk_tree.tree_move roomy_def)
  ultimately show thesis by (intro that) (simp_all add: ebind_def ds)
qed

lemma follows_written:
  assumes f: "follows E F s" and q: "roomy E q" "with_tmp q \<notin> su_dirs E" "with_tmp q \<notin> su_files E"
  obtains s' where "write_bytes_atomic q b s = (Inr (), s')" "follows E (stored (q, b) F) s'"
proof -
  have ne: "q \<noteq> []" using f q(1) by (auto simp: follows_def roomy_def)
  have none: "\<forall>r \<in> set (prefixes (butlast q)). file_bytes s r = None"
    using q prefixes_clean follows_no_file [OF f] by (auto simp: roomy_def)
  have d: "\<not> is_dir s q" "\<not> is_dir s (with_tmp q)" "q \<notin> set (prefixes (butlast q))"
    "with_tmp q \<notin> set (prefixes (butlast q))"
    using f q by (auto simp: follows_def roomy_def is_dir_def)
  have c: "clean_parts q" using q by (simp add: roomy_def)
  obtain s' where s': "write_bytes_atomic q b s = (Inr (), s')" "besides s' = besides s"
    "set (de_dirs s') = set (de_dirs s) \<union> set (prefixes (butlast q))"
    "\<And>r. clean_parts r \<Longrightarrow> file_bytes s' r
       = (if r = q then Some b else if r = with_tmp q then None else file_bytes s r)"
    using write_bytes_atomic_ok [OF _ c ne none d, of b] f by (auto simp: follows_def)
  have "F (with_tmp q) = None" using f q(3) by (auto simp: follows_def)
  then have "follows E (stored (q, b) F) s'"
    using f s'(2-4) q c powered_besides [OF s'(2)] unfolding follows_def
    by (auto simp: stored_def roomy_def)
  with s'(1) show thesis by (rule that)
qed

lemma preserve_clean:
  assumes "follows E F s" "F p = Some b"
  shows "preserve_dirty_pull_conflict_copy env i p rel (Some (content_hash env b)) at s = (Inr None, s)"
  using follows_file [OF assms]
  by (simp add: preserve_dirty_pull_conflict_copy_def read_bytes_def ebind_def)

lemma stage_step:
  assumes f: "follows E F s" and m: "plain_path (pm_source_path m)" "plain_path (pm_target_path m)"
      "safe_file_id (pm_file_id m)"
    and b: "F (path_parts (pm_source_path m)) = Some b" "content_hash env b = pm_content_hash m"
    and room: "roomy E (staged_parts (pm_file_id m))"
  shows "\<exists>y s'. stage_blocking_move env p at m s = (Inr y, s') \<and> follows E (if is_blocking_move p m
    then moved (path_parts (pm_source_path m), staged_parts (pm_file_id m)) F else F) s'"
proof (cases "is_blocking_move p m")
  case True
  have ne: "path_parts (pm_source_path m) \<noteq> staged_parts (pm_file_id m)" by (rule plain_not_staged [OF m(1)])
  obtain s' where s': "ebind (make_dirs (butlast (staged_parts (pm_file_id m))))
        (\<lambda>_. rename_path (path_parts (pm_source_path m)) (staged_parts (pm_file_id m))) s = (Inr (), s')"
      "follows E (moved (path_parts (pm_source_path m), staged_parts (pm_file_id m)) F) s'"
    using follows_moved [OF f b(1) ne room] .
  have "stage_blocking_move env p at m s = (Inr (), s')"
    using True follows_file [OF f b(1)] s'(1) b(2)
    by (simp add: stage_blocking_move_def plain_path_resolves m staging_path_parts(3) ebind_apply_Inr [OF read_bytes_ok])
  with s'(2) True show ?thesis by auto
qed (use f in \<open>auto simp: stage_blocking_move_def\<close>)

lemma delete_step:
  assumes f: "follows E F s" and x: "plain_path (pd_path x)"
    and b: "F (path_parts (pd_path x)) = Some b" "pd_expected_content_hash x = Some (content_hash env b)"
  shows "\<exists>y s'. apply_delete env at x s = (Inr y, s') \<and> follows E (removed (path_parts (pd_path x)) F) s'"
proof -
  have p: "clean_parts (path_parts (pd_path x))" "path_parts (pd_path x) \<in> su_files E"
    using f b(1) unfolding follows_def by (metis option.distinct(1))+
  have "apply_delete env at x s = (Inr [path_parts (pd_path x)], del_bytes (path_parts (pd_path x)) s)"
    using follows_file [OF f b(1)] follows_removed(1) [OF f p] preserve_clean [OF f b(1)]
    by (simp add: apply_delete_def plain_path_resolves x b(2) ebind_def)
  with follows_removed(2) [OF f p] show ?thesis by auto
qed

lemma write_step:
  assumes f: "follows E F s" and w: "plain_path (px_target_path w)" "safe_file_id (px_file_id w)"
      "px_staging_path w = staging_path_of (px_file_id w)"
    and b: "F (staged_parts (px_file_id w)) = Some b" "content_hash env b = px_content_hash w"
    and inplace: "px_previous_path w = Some (px_target_path w) \<Longrightarrow> \<exists>c. F (path_parts (px_target_path w)) = Some c
      \<and> px_expected_previous_content_hash w = Some (content_hash env c)"
    and room: "roomy E (path_parts (px_target_path w))" "with_tmp (path_parts (px_target_path w)) \<notin> su_dirs E"
      "with_tmp (path_parts (px_target_path w)) \<notin> su_files E"
  shows "\<exists>y s'. apply_write env at w s = (Inr y, s') \<and> follows E (stored (path_parts (px_target_path w), b) F) s'"
proof -
  let ?t = "path_parts (px_target_path w)"
  have pre: "px_previous_path w = Some (px_target_path w) \<Longrightarrow>
      preserve_dirty_pull_conflict_copy env (px_file_id w) ?t (px_target_path w)
        (px_expected_previous_content_hash w) at s = (Inr None, s)"
    using inplace preserve_clean [OF f] by auto
  obtain s' where s': "write_bytes_atomic ?t b s = (Inr (), s')" "follows E (stored (?t, b) F) s'"
    using follows_written [OF f room] .
  have "apply_write env at w s = (Inr (px_file_id w, ?t), s')"
    using follows_file [OF f b(1)] b(2)
    by (cases "px_previous_path w = Some (px_target_path w)")
       (simp_all add: apply_write_def plain_path_resolves w staging_path_parts(2) ebind_def read_bytes_def
         pre s'(1))
  with s'(2) show ?thesis by auto
qed

definition move_from :: "pull_plan \<Rightarrow> pull_move \<Rightarrow> string list" where
  "move_from p m = (if is_blocking_move p m then staged_parts (pm_file_id m) else path_parts (pm_source_path m))"

lemma move_step:
  assumes f: "follows E F s" and m: "plain_path (pm_source_path m)" "plain_path (pm_target_path m)"
      "safe_file_id (pm_file_id m)"
    and b: "F (move_from p m) = Some b" "content_hash env b = pm_content_hash m"
    and room: "move_from p m \<noteq> path_parts (pm_target_path m)" "roomy E (path_parts (pm_target_path m))"
  shows "\<exists>y s'. apply_move env p at m s = (Inr y, s')
    \<and> follows E (moved (move_from p m, path_parts (pm_target_path m)) F) s'"
proof -
  let ?t = "path_parts (pm_target_path m)"
  have r: "(if is_blocking_move p m then resolve_pull_apply_staging_path (pm_file_id m)
      else resolve_desktop_path (pm_source_path m)) = Inr (move_from p m)"
    using m by (simp add: move_from_def plain_path_resolves staging_path_parts(3))
  obtain s' where s': "ebind (make_dirs (butlast ?t)) (\<lambda>_. rename_path (move_from p m) ?t) s = (Inr (), s')"
    "follows E (moved (move_from p m, ?t) F) s'"
    using follows_moved [OF f b(1) room] .
  have "apply_move env p at m s = (Inr (pm_file_id m, ?t), s')"
    using follows_file [OF f b(1)] b(2) s'(1)
    by (simp add: apply_move_def r plain_path_resolves m) (simp add: ebind_def read_bytes_def)
  with s'(2) show ?thesis by auto
qed

section \<open>The whole application\<close>

definition plan_ids :: "pull_plan \<Rightarrow> string list" where
  "plan_ids p = map px_file_id (pp_writes p) @ map pm_file_id (pp_moves p)"

definition overwrites :: "pull_write \<Rightarrow> bool" where
  "overwrites w \<longleftrightarrow> px_previous_path w = Some (px_target_path w)"

definition orderly :: "pull_plan \<Rightarrow> bool" where
  "orderly p \<longleftrightarrow> distinct (plan_targets p) \<and> distinct (plan_sources p) \<and> distinct (plan_ids p)
     \<and> list_all plain_path (plan_targets p @ plan_sources p) \<and> list_all safe_file_id (plan_ids p)
     \<and> list_all (\<lambda>w. px_staging_path w = staging_path_of (px_file_id w)
         \<and> (overwrites w \<longrightarrow> px_target_path w \<notin> set (plan_sources p))) (pp_writes p)
     \<and> set (pp_blocking_paths p) = set (plan_targets p) \<inter> set (plan_sources p)"

definition hash_at :: "apply_env \<Rightarrow> desk \<Rightarrow> string list \<Rightarrow> string option" where
  "hash_at env s ps = map_option (content_hash env) (file_bytes s ps)"

text \<open>The workspace is as the file map says, and the payloads are staged.\<close>

definition settled :: "apply_env \<Rightarrow> pull_plan \<Rightarrow> desk \<Rightarrow> bool" where
  "settled env p s \<longleftrightarrow>
     list_all (\<lambda>m. hash_at env s (path_parts (pm_source_path m)) = Some (pm_content_hash m)) (pp_moves p)
     \<and> list_all (\<lambda>x. hash_at env s (path_parts (pd_path x)) = pd_expected_content_hash x
         \<and> pd_expected_content_hash x \<noteq> None) (pp_deletes p)
     \<and> list_all (\<lambda>w. hash_at env s (staged_parts (px_file_id w)) = Some (px_content_hash w)
         \<and> (overwrites w \<longrightarrow> hash_at env s (path_parts (px_target_path w)) = px_expected_previous_content_hash w
            \<and> px_expected_previous_content_hash w \<noteq> None)) (pp_writes p)"

definition files_of_apply :: "pull_plan \<Rightarrow> desk \<Rightarrow> string list list" where
  "files_of_apply p s = file_paths s @ map path_parts (plan_targets p) @ map staged_parts (plan_ids p)"

definition dirs_of_apply :: "pull_plan \<Rightarrow> desk \<Rightarrow> string list list" where
  "dirs_of_apply p s = de_dirs s @ prefixes [''.noteapp'', ''staging'']
     @ concat (map (prefixes \<circ> butlast \<circ> path_parts) (plan_targets p))"

definition room_to_apply :: "pull_plan \<Rightarrow> desk \<Rightarrow> bool" where
  "room_to_apply p s \<longleftrightarrow> list_all (\<lambda>u. u \<notin> set (dirs_of_apply p s) \<and> u \<noteq> []) (files_of_apply p s)
     \<and> list_all (\<lambda>w. with_tmp (path_parts (px_target_path w))
         \<notin> set (dirs_of_apply p s) \<union> set (files_of_apply p s)) (pp_writes p)"

lemma hash_at_Some: "hash_at env s ps = Some h \<longleftrightarrow> (\<exists>b. file_bytes s ps = Some b \<and> content_hash env b = h)"
  by (auto simp: hash_at_def)

definition tree_of :: "desk \<Rightarrow> tree" where
  "tree_of s q = (if clean_parts q then file_bytes s q else None)"

definition around :: "pull_plan \<Rightarrow> desk \<Rightarrow> (client \<times> file_content option) surroundings" where
  "around p s = \<lparr>su_besides = besides s, su_dirs = set (dirs_of_apply p s), su_files = set (files_of_apply p s)\<rparr>"

lemma follows_start: "powered s \<Longrightarrow> room_to_apply p s \<Longrightarrow> follows (around p s) (tree_of s) s"
  using file_paths_complete
  by (fastforce simp: follows_def around_def tree_of_def room_to_apply_def files_of_apply_def dirs_of_apply_def
      list_all_iff split: if_splits)

lemma orderly_plain: "orderly p \<Longrightarrow> q \<in> set (plan_targets p) \<union> set (plan_sources p) \<Longrightarrow> plain_path q"
  by (auto simp: orderly_def list_all_iff)

lemma roomy_target:
  "orderly p \<Longrightarrow> q \<in> set (plan_targets p) \<Longrightarrow> roomy (around p s) (path_parts q)"
  using orderly_plain [of p q]
  by (auto simp: roomy_def around_def files_of_apply_def dirs_of_apply_def plain_path_def)

lemma roomy_staged: "orderly p \<Longrightarrow> i \<in> set (plan_ids p) \<Longrightarrow> roomy (around p s) (staged_parts i)"
  using staged_parts_clean [of i]
  by (auto simp: roomy_def around_def files_of_apply_def dirs_of_apply_def orderly_def list_all_iff
      staged_parts_def)

lemma distinct_parts:
  "distinct (map f xs) \<Longrightarrow> \<forall>x \<in> set xs. plain_path (f x) \<Longrightarrow> distinct (map (\<lambda>x. path_parts (f x)) xs)"
  by (auto simp: distinct_map inj_on_def plain_path_inj)

section \<open>What each loop leaves\<close>

abbreviation blocking :: "pull_plan \<Rightarrow> string set" where
  "blocking p \<equiv> set (pp_blocking_paths p)"

definition stage_pairs :: "pull_plan \<Rightarrow> (string list \<times> string list) list" where
  "stage_pairs p = map (\<lambda>m. (path_parts (pm_source_path m), staged_parts (pm_file_id m)))
     (filter (is_blocking_move p) (pp_moves p))"

definition move_pairs :: "pull_plan \<Rightarrow> (string list \<times> string list) list" where
  "move_pairs p = map (\<lambda>m. (move_from p m, path_parts (pm_target_path m))) (pp_moves p)"

definition payload_of :: "tree \<Rightarrow> pull_write \<Rightarrow> string" where
  "payload_of F w = the (F (staged_parts (px_file_id w)))"

definition write_pairs :: "tree \<Rightarrow> pull_plan \<Rightarrow> (string list \<times> string) list" where
  "write_pairs F p = map (\<lambda>w. (path_parts (px_target_path w), payload_of F w)) (pp_writes p)"

definition delete_parts :: "bool \<Rightarrow> pull_plan \<Rightarrow> string list list" where
  "delete_parts b p = map (\<lambda>x. path_parts (pd_path x)) (filter (\<lambda>x. (pd_path x \<in> blocking p) = b) (pp_deletes p))"

definition tree1 :: "pull_plan \<Rightarrow> tree \<Rightarrow> tree" where "tree1 p F = fold moved (stage_pairs p) F"
definition tree2 :: "pull_plan \<Rightarrow> tree \<Rightarrow> tree" where "tree2 p F = fold removed (delete_parts True p) (tree1 p F)"
definition tree3 :: "pull_plan \<Rightarrow> tree \<Rightarrow> tree" where "tree3 p F = fold stored (write_pairs F p) (tree2 p F)"
definition tree4 :: "pull_plan \<Rightarrow> tree \<Rightarrow> tree" where "tree4 p F = fold moved (move_pairs p) (tree3 p F)"
definition tree5 :: "pull_plan \<Rightarrow> tree \<Rightarrow> tree" where "tree5 p F = fold removed (delete_parts False p) (tree4 p F)"

lemma orderlyD:
  assumes "orderly p"
  shows "m \<in> set (pp_moves p) \<Longrightarrow> plain_path (pm_source_path m) \<and> plain_path (pm_target_path m)
      \<and> safe_file_id (pm_file_id m) \<and> pm_target_path m \<in> set (plan_targets p) \<and> pm_source_path m \<in> set (plan_sources p)
      \<and> pm_file_id m \<in> set (plan_ids p)"
    and "w \<in> set (pp_writes p) \<Longrightarrow> plain_path (px_target_path w) \<and> safe_file_id (px_file_id w)
      \<and> px_target_path w \<in> set (plan_targets p) \<and> px_file_id w \<in> set (plan_ids p)
      \<and> px_staging_path w = staging_path_of (px_file_id w)"
    and "x \<in> set (pp_deletes p) \<Longrightarrow> plain_path (pd_path x) \<and> pd_path x \<in> set (plan_sources p)"
  using assms by (auto simp: orderly_def list_all_iff plan_targets_def plan_sources_def plan_ids_def)

text \<open>Distinct operations work at distinct places.\<close>

lemma orderly_places:
  assumes o: "orderly p"
  shows "distinct (map (\<lambda>m. path_parts (pm_source_path m)) (pp_moves p))"
    and "distinct (map (\<lambda>m. path_parts (pm_target_path m)) (pp_moves p))"
    and "distinct (map (\<lambda>w. path_parts (px_target_path w)) (pp_writes p))"
    and "distinct (map (\<lambda>x. path_parts (pd_path x)) (pp_deletes p))"
    and "distinct (map pm_file_id (pp_moves p))"
    and "distinct (pp_moves p)" "distinct (pp_writes p)" "distinct (pp_deletes p)"
proof -
  have d: "distinct (map pm_source_path (pp_moves p))" "distinct (map pm_target_path (pp_moves p))"
    "distinct (map px_target_path (pp_writes p))" "distinct (map pd_path (pp_deletes p))"
    "distinct (map pm_file_id (pp_moves p))"
    using o by (simp_all add: orderly_def plan_targets_def plan_sources_def plan_ids_def)
  show "distinct (map (\<lambda>m. path_parts (pm_source_path m)) (pp_moves p))"
    "distinct (map (\<lambda>m. path_parts (pm_target_path m)) (pp_moves p))"
    "distinct (map (\<lambda>w. path_parts (px_target_path w)) (pp_writes p))"
    "distinct (map (\<lambda>x. path_parts (pd_path x)) (pp_deletes p))"
    by (rule distinct_parts; use d orderlyD [OF o] in blast)+
  show "distinct (map pm_file_id (pp_moves p))" by (rule d(5))
  show "distinct (pp_moves p)" "distinct (pp_writes p)" "distinct (pp_deletes p)"
    using d by (auto simp only: distinct_map)
qed

lemma orderly_cross:
  assumes o: "orderly p"
  shows "m \<in> set (pp_moves p) \<Longrightarrow> x \<in> set (pp_deletes p) \<Longrightarrow> path_parts (pm_source_path m) \<noteq> path_parts (pd_path x)"
    and "m \<in> set (pp_moves p) \<Longrightarrow> w \<in> set (pp_writes p) \<Longrightarrow> path_parts (pm_target_path m) \<noteq> path_parts (px_target_path w)
      \<and> pm_file_id m \<noteq> px_file_id w"
    and "m \<in> set (pp_moves p) \<Longrightarrow> \<not> is_blocking_move p m \<Longrightarrow> q \<in> set (plan_targets p) \<Longrightarrow>
      path_parts (pm_source_path m) \<noteq> path_parts q"
    and "x \<in> set (pp_deletes p) \<Longrightarrow> pd_path x \<notin> blocking p \<Longrightarrow> q \<in> set (plan_targets p) \<Longrightarrow>
      path_parts (pd_path x) \<noteq> path_parts q"
    and "w \<in> set (pp_writes p) \<Longrightarrow> overwrites w \<Longrightarrow> q \<in> set (plan_sources p) \<Longrightarrow>
      path_parts (px_target_path w) \<noteq> path_parts q"
proof -
  show "m \<in> set (pp_moves p) \<Longrightarrow> x \<in> set (pp_deletes p) \<Longrightarrow> path_parts (pm_source_path m) \<noteq> path_parts (pd_path x)"
    using orderlyD(1) [OF o, of m] orderlyD(3) [OF o, of x] o
    by (auto simp: plain_path_inj orderly_def plan_sources_def)
  show "m \<in> set (pp_moves p) \<Longrightarrow> w \<in> set (pp_writes p) \<Longrightarrow> path_parts (pm_target_path m) \<noteq> path_parts (px_target_path w)
      \<and> pm_file_id m \<noteq> px_file_id w"
    using orderlyD(1) [OF o, of m] orderlyD(2) [OF o, of w] o
    by (auto simp: plain_path_inj orderly_def plan_targets_def plan_ids_def)
  show "m \<in> set (pp_moves p) \<Longrightarrow> \<not> is_blocking_move p m \<Longrightarrow> q \<in> set (plan_targets p) \<Longrightarrow>
      path_parts (pm_source_path m) \<noteq> path_parts q"
    using orderlyD(1) [OF o, of m] orderly_plain [OF o, of q] o
    by (auto simp: plain_path_inj orderly_def is_blocking_move_def)
  show "x \<in> set (pp_deletes p) \<Longrightarrow> pd_path x \<notin> blocking p \<Longrightarrow> q \<in> set (plan_targets p) \<Longrightarrow>
      path_parts (pd_path x) \<noteq> path_parts q"
    using orderlyD(3) [OF o, of x] orderly_plain [OF o, of q] o
    by (auto simp: plain_path_inj orderly_def)
  show "w \<in> set (pp_writes p) \<Longrightarrow> overwrites w \<Longrightarrow> q \<in> set (plan_sources p) \<Longrightarrow>
      path_parts (px_target_path w) \<noteq> path_parts q"
    using orderlyD(2) [OF o, of w] orderly_plain [OF o, of q] o
    by (auto simp: plain_path_inj orderly_def list_all_iff)
qed

lemma distinct_map_filter_pair: "distinct (map f xs) \<Longrightarrow> distinct (map f (filter P xs))"
  by (rule distinct_map_filter)

lemma apart_stage: "orderly p \<Longrightarrow> apart (stage_pairs p)"
  using orderly_places(1,5) [of p] orderlyD(1) [of p] plain_not_staged
  by (fastforce simp: apart_def stage_pairs_def o_def distinct_map_filter distinct_map inj_on_def)

lemma move_not_target:
  assumes o: "orderly p" and m: "m \<in> set (pp_moves p)" "m' \<in> set (pp_moves p)"
  shows "move_from p m \<noteq> path_parts (pm_target_path m')"
  using orderly_cross(3) [OF o m(1)] orderlyD(1) [OF o m(2)] plain_not_staged [of "pm_target_path m'", THEN not_sym]
  by (auto simp: move_from_def)

lemma apart_move:
  assumes o: "orderly p"
  shows "apart (move_pairs p)"
proof -
  have "distinct (map (move_from p) (pp_moves p))"
    using orderly_places(1,5,6) [OF o] orderlyD(1) [OF o] plain_not_staged
    by (auto simp: distinct_map inj_on_def move_from_def split: if_splits) metis+
  then show ?thesis
    using orderly_places(2) [OF o] move_not_target [OF o] by (auto simp: apart_def move_pairs_def o_def)
qed

text \<open>The values the next loop starts from.\<close>

lemma tree1_other:
  "\<forall>m \<in> set (pp_moves p). is_blocking_move p m \<longrightarrow> q \<noteq> path_parts (pm_source_path m) \<and> q \<noteq> staged_parts (pm_file_id m) \<Longrightarrow>
     tree1 p F q = F q"
  unfolding tree1_def by (rule fold_moved_other) (auto simp: stage_pairs_def)

lemma tree1_staged:
  assumes "orderly p" "m \<in> set (pp_moves p)" "is_blocking_move p m"
  shows "tree1 p F (staged_parts (pm_file_id m)) = F (path_parts (pm_source_path m))"
    "tree1 p F (path_parts (pm_source_path m)) = None"
proof -
  have "(path_parts (pm_source_path m), staged_parts (pm_file_id m)) \<in> set (stage_pairs p)"
    using assms(2,3) by (auto simp: stage_pairs_def)
  note e = this
  show "tree1 p F (staged_parts (pm_file_id m)) = F (path_parts (pm_source_path m))"
    unfolding tree1_def by (rule fold_moved_to [OF apart_stage [OF assms(1)] e])
  show "tree1 p F (path_parts (pm_source_path m)) = None"
    unfolding tree1_def by (rule fold_moved_from [OF apart_stage [OF assms(1)] image_eqI [OF _ e]]) simp
qed

lemma tree2_eq: "tree2 p F q = (if q \<in> set (delete_parts True p) then None else tree1 p F q)"
  by (simp add: tree2_def fold_removed)

lemma tree3_other: "q \<notin> (\<lambda>w. path_parts (px_target_path w)) ` set (pp_writes p) \<Longrightarrow> tree3 p F q = tree2 p F q"
  unfolding tree3_def by (rule fold_stored_other) (auto simp: write_pairs_def)

lemma tree3_written:
  assumes "orderly p" "w \<in> set (pp_writes p)"
  shows "tree3 p F (path_parts (px_target_path w)) = Some (payload_of F w)"
  unfolding tree3_def
  by (rule fold_stored) (use assms orderly_places(3) [OF assms(1)] in \<open>auto simp: write_pairs_def o_def\<close>)

lemma tree4_other:
  "\<forall>m \<in> set (pp_moves p). q \<noteq> move_from p m \<and> q \<noteq> path_parts (pm_target_path m) \<Longrightarrow> tree4 p F q = tree3 p F q"
  unfolding tree4_def by (rule fold_moved_other) (auto simp: move_pairs_def)

lemma tree4_moved:
  assumes "orderly p" "m \<in> set (pp_moves p)"
  shows "tree4 p F (path_parts (pm_target_path m)) = tree3 p F (move_from p m)"
    "tree4 p F (move_from p m) = None"
proof -
  have "(move_from p m, path_parts (pm_target_path m)) \<in> set (move_pairs p)"
    using assms(2) by (auto simp: move_pairs_def)
  note e = this
  show "tree4 p F (path_parts (pm_target_path m)) = tree3 p F (move_from p m)"
    unfolding tree4_def by (rule fold_moved_to [OF apart_move [OF assms(1)] e])
  show "tree4 p F (move_from p m) = None"
    unfolding tree4_def by (rule fold_moved_from [OF apart_move [OF assms(1)] image_eqI [OF _ e]]) simp
qed

lemma tree5_eq: "tree5 p F q = (if q \<in> set (delete_parts False p) then None else tree4 p F q)"
  by (simp add: tree5_def fold_removed)

text \<open>A deletion, a write and a move find the bytes of the beginning.\<close>

lemma tree1_delete:
  assumes "orderly p" "x \<in> set (pp_deletes p)"
  shows "tree1 p F (path_parts (pd_path x)) = F (path_parts (pd_path x))"
proof (intro tree1_other ballI impI conjI)
  fix m assume m: "m \<in> set (pp_moves p)"
  show "path_parts (pd_path x) \<noteq> path_parts (pm_source_path m)"
    using orderly_cross(1) [OF assms(1) m assms(2)] by simp
  show "path_parts (pd_path x) \<noteq> staged_parts (pm_file_id m)"
    using orderlyD(3) [OF assms] plain_not_staged by blast
qed

lemma tree2_staged_write:
  assumes o: "orderly p" and w: "w \<in> set (pp_writes p)"
  shows "tree2 p F (staged_parts (px_file_id w)) = F (staged_parts (px_file_id w))"
proof -
  have "staged_parts (px_file_id w) \<notin> set (delete_parts True p)"
    using orderlyD(3) [OF o] plain_not_staged [THEN not_sym] by (auto simp: delete_parts_def)
  moreover have "tree1 p F (staged_parts (px_file_id w)) = F (staged_parts (px_file_id w))"
  proof (intro tree1_other ballI impI conjI)
    fix m assume m: "m \<in> set (pp_moves p)"
    show "staged_parts (px_file_id w) \<noteq> path_parts (pm_source_path m)"
      using orderlyD(1) [OF o m] plain_not_staged [THEN not_sym] by blast
    show "staged_parts (px_file_id w) \<noteq> staged_parts (pm_file_id m)"
      using orderly_cross(2) [OF o m w] by auto
  qed
  ultimately show ?thesis by (simp add: tree2_eq)
qed

lemma tree2_overwritten:
  assumes o: "orderly p" and w: "w \<in> set (pp_writes p)" "overwrites w"
  shows "tree2 p F (path_parts (px_target_path w)) = F (path_parts (px_target_path w))"
proof -
  have "path_parts (px_target_path w) \<notin> set (delete_parts True p)"
    using orderlyD(3) [OF o] orderly_cross(5) [OF o w] by (auto simp: delete_parts_def)
  moreover have "tree1 p F (path_parts (px_target_path w)) = F (path_parts (px_target_path w))"
  proof (intro tree1_other ballI impI conjI)
    fix m assume m: "m \<in> set (pp_moves p)"
    show "path_parts (px_target_path w) \<noteq> path_parts (pm_source_path m)"
      using orderly_cross(5) [OF o w] orderlyD(1) [OF o m] by blast
    show "path_parts (px_target_path w) \<noteq> staged_parts (pm_file_id m)"
      using orderlyD(2) [OF o w(1)] plain_not_staged by blast
  qed
  ultimately show ?thesis by (simp add: tree2_eq)
qed

lemma tree3_moved:
  assumes o: "orderly p" and m: "m \<in> set (pp_moves p)"
  shows "tree3 p F (move_from p m) = F (path_parts (pm_source_path m))"
proof -
  have "tree3 p F (move_from p m) = tree2 p F (move_from p m)"
    using orderly_cross(3) [OF o m] orderlyD(2) [OF o] plain_not_staged [THEN not_sym]
    by (intro tree3_other) (auto simp: move_from_def)
  also have "\<dots> = tree1 p F (move_from p m)"
    using orderly_cross(1) [OF o m] orderlyD(3) [OF o] plain_not_staged [THEN not_sym]
    by (auto simp: tree2_eq delete_parts_def move_from_def)
  also have "\<dots> = F (path_parts (pm_source_path m))"
  proof (cases "is_blocking_move p m")
    case True
    then show ?thesis using tree1_staged [OF o m] by (simp add: move_from_def)
  next
    case False
    have "m' = m" if "m' \<in> set (pp_moves p)" "path_parts (pm_source_path m') = path_parts (pm_source_path m)" for m'
      using orderly_places(1) [OF o] that m by (auto simp: distinct_map dest: inj_onD)
    then have "tree1 p F (path_parts (pm_source_path m)) = F (path_parts (pm_source_path m))"
      using False orderlyD(1) [OF o m] plain_not_staged [of "pm_source_path m"]
      by (intro tree1_other ballI impI conjI) metis+
    then show ?thesis using False by (simp add: move_from_def)
  qed
  finally show ?thesis .
qed

lemma tree4_delete:
  assumes o: "orderly p" and x: "x \<in> set (pp_deletes p)" "pd_path x \<notin> blocking p"
  shows "tree4 p F (path_parts (pd_path x)) = F (path_parts (pd_path x))"
proof -
  have "tree4 p F (path_parts (pd_path x)) = tree3 p F (path_parts (pd_path x))"
  proof (intro tree4_other ballI conjI)
    fix m assume m: "m \<in> set (pp_moves p)"
    show "path_parts (pd_path x) \<noteq> move_from p m"
      using orderly_cross(1) [OF o m x(1)] orderlyD(3) [OF o x(1)] plain_not_staged [of "pd_path x"]
      by (auto simp: move_from_def)
    show "path_parts (pd_path x) \<noteq> path_parts (pm_target_path m)"
      using orderly_cross(4) [OF o x] orderlyD(1) [OF o m] by blast
  qed
  also have "\<dots> = tree2 p F (path_parts (pd_path x))"
    using orderly_cross(4) [OF o x] orderlyD(2) [OF o] by (intro tree3_other) auto
  also have "\<dots> = tree1 p F (path_parts (pd_path x))"
  proof -
    have "x' = x" if "x' \<in> set (pp_deletes p)" "path_parts (pd_path x') = path_parts (pd_path x)" for x'
      using orderly_places(4) [OF o] that x by (auto simp: distinct_map dest: inj_onD)
    then show ?thesis using x(2) by (auto simp: tree2_eq delete_parts_def)
  qed
  finally show ?thesis using tree1_delete [OF o x(1)] by simp
qed

section \<open>Running the loops\<close>

lemma settledD:
  assumes "settled env p s"
  shows "m \<in> set (pp_moves p) \<Longrightarrow> plain_path (pm_source_path m) \<Longrightarrow>
      \<exists>b. tree_of s (path_parts (pm_source_path m)) = Some b \<and> content_hash env b = pm_content_hash m"
    and "x \<in> set (pp_deletes p) \<Longrightarrow> plain_path (pd_path x) \<Longrightarrow>
      \<exists>b. tree_of s (path_parts (pd_path x)) = Some b \<and> pd_expected_content_hash x = Some (content_hash env b)"
    and "w \<in> set (pp_writes p) \<Longrightarrow> safe_file_id (px_file_id w) \<Longrightarrow>
      tree_of s (staged_parts (px_file_id w)) = Some (payload_of (tree_of s) w)
        \<and> content_hash env (payload_of (tree_of s) w) = px_content_hash w"
    and "w \<in> set (pp_writes p) \<Longrightarrow> plain_path (px_target_path w) \<Longrightarrow> overwrites w \<Longrightarrow>
      \<exists>b. tree_of s (path_parts (px_target_path w)) = Some b
        \<and> px_expected_previous_content_hash w = Some (content_hash env b)"
  using assms staged_parts_clean
  by (fastforce simp: settled_def list_all_iff hash_at_def tree_of_def plain_path_def payload_of_def)+

lemma run_stage:
  assumes o: "orderly p" and st: "settled env p s0" and f: "follows (around p s0) (tree_of s0) s"
  obtains r s' where "each_of (stage_blocking_move env p at) (pp_moves p) s = (Inr r, s')"
    "follows (around p s0) (tree1 p (tree_of s0)) s'"
proof -
  let ?src = "\<lambda>m. path_parts (pm_source_path m)" and ?F = "tree_of s0"
  let ?g = "\<lambda>m F. if is_blocking_move p m then moved (?src m, staged_parts (pm_file_id m)) F else F"
  have "\<exists>ys s'. each_of (stage_blocking_move env p at) (pp_moves p) s = (Inr ys, s')
      \<and> follows (around p s0) (fold ?g (pp_moves p) ?F) s'"
  proof (rule each_of_fold [where ok = "\<lambda>m F. F (?src m) = ?F (?src m)"])
    fix m F s1 assume m: "m \<in> set (pp_moves p)" and f: "follows (around p s0) F s1" and eq: "F (?src m) = ?F (?src m)"
    note d = orderlyD(1) [OF o m]
    obtain b where b: "F (?src m) = Some b" "content_hash env b = pm_content_hash m"
      using settledD(1) [OF st m] d eq by auto
    show "\<exists>y s'. stage_blocking_move env p at m s1 = (Inr y, s') \<and> follows (around p s0) (?g m F) s'"
      by (rule stage_step [OF f _ _ _ b]) (use d roomy_staged [OF o] in auto)
  next
    fix m m' F assume m: "m \<in> set (pp_moves p)" "m' \<in> set (pp_moves p)" "m \<noteq> m'" and eq: "F (?src m') = ?F (?src m')"
    have "?src m' \<noteq> ?src m"
      using orderly_places(1) [OF o] m by (auto simp: distinct_map dest: inj_onD)
    then show "?g m F (?src m') = ?F (?src m')"
      using eq orderlyD(1) [OF o m(2)] plain_not_staged [of "pm_source_path m'"] by (auto simp: moved_def)
  qed (use orderly_places(6) [OF o] f in auto)
  moreover have "fold ?g (pp_moves p) ?F = tree1 p ?F"
    by (simp add: tree1_def stage_pairs_def fold_guarded fold_map o_def)
  ultimately show thesis using that by auto
qed

lemma run_deletes:
  assumes o: "orderly p" and st: "settled env p s0" and f: "follows (around p s0) F s"
    and same: "\<And>x. x \<in> set (pp_deletes p) \<Longrightarrow> (pd_path x \<in> blocking p) = c \<Longrightarrow>
      F (path_parts (pd_path x)) = tree_of s0 (path_parts (pd_path x))"
  obtains r s' where "each_of (apply_delete env at) (filter (\<lambda>x. (pd_path x \<in> blocking p) = c) (pp_deletes p)) s = (Inr r, s')"
    "follows (around p s0) (fold removed (delete_parts c p) F) s'"
proof -
  let ?path = "\<lambda>x. path_parts (pd_path x)" and ?xs = "filter (\<lambda>x. (pd_path x \<in> blocking p) = c) (pp_deletes p)"
  have "\<exists>ys s'. each_of (apply_delete env at) ?xs s = (Inr ys, s')
      \<and> follows (around p s0) (fold (\<lambda>x. removed (?path x)) ?xs F) s'"
  proof (rule each_of_fold [where ok = "\<lambda>x F. F (?path x) = tree_of s0 (?path x)"])
    fix x F s1 assume x: "x \<in> set ?xs" and f: "follows (around p s0) F s1" and eq: "F (?path x) = tree_of s0 (?path x)"
    from x have d: "x \<in> set (pp_deletes p)" "plain_path (pd_path x)" using orderlyD(3) [OF o] by auto
    obtain b where "F (?path x) = Some b" "pd_expected_content_hash x = Some (content_hash env b)"
      using settledD(2) [OF st d] eq by auto
    then show "\<exists>y s'. apply_delete env at x s1 = (Inr y, s') \<and> follows (around p s0) (removed (?path x) F) s'"
      by (rule delete_step [OF f d(2)])
  next
    fix x y F assume xy: "x \<in> set ?xs" "y \<in> set ?xs" "x \<noteq> y" and eq: "F (?path y) = tree_of s0 (?path y)"
    then have "?path x \<noteq> ?path y"
      using orderly_places(4) [OF o] by (auto simp: distinct_map dest: inj_onD)
    then show "removed (?path x) F (?path y) = tree_of s0 (?path y)" using eq by (auto simp: removed_def)
  qed (use orderly_places(8) [OF o] f same in auto)
  moreover have "fold (\<lambda>x. removed (?path x)) ?xs F = fold removed (delete_parts c p) F"
    by (simp add: delete_parts_def fold_map o_def)
  ultimately show thesis using that by auto
qed

lemma run_writes:
  assumes o: "orderly p" and st: "settled env p s0" and room: "room_to_apply p s0"
    and f: "follows (around p s0) (tree2 p (tree_of s0)) s"
  obtains r s' where "each_of (apply_write env at) (pp_writes p) s = (Inr r, s')"
    "follows (around p s0) (tree3 p (tree_of s0)) s'"
proof -
  let ?t = "\<lambda>w. path_parts (px_target_path w)" and ?i = "\<lambda>w. staged_parts (px_file_id w)" and ?F = "tree_of s0"
  let ?g = "\<lambda>w. stored (?t w, payload_of ?F w)"
  have "\<exists>ys s'. each_of (apply_write env at) (pp_writes p) s = (Inr ys, s')
      \<and> follows (around p s0) (fold ?g (pp_writes p) (tree2 p ?F)) s'"
  proof (rule each_of_fold [where ok = "\<lambda>w F. F (?i w) = ?F (?i w) \<and> (overwrites w \<longrightarrow> F (?t w) = ?F (?t w))"])
    fix w F s1 assume w: "w \<in> set (pp_writes p)" and f: "follows (around p s0) F s1"
      and eq: "F (?i w) = ?F (?i w) \<and> (overwrites w \<longrightarrow> F (?t w) = ?F (?t w))"
    note d = orderlyD(2) [OF o w]
    have b: "F (?i w) = Some (payload_of ?F w)" "content_hash env (payload_of ?F w) = px_content_hash w"
      using settledD(3) [OF st w] d eq by auto
    have tmp: "with_tmp (?t w) \<notin> su_dirs (around p s0)" "with_tmp (?t w) \<notin> su_files (around p s0)"
      using room w by (auto simp: room_to_apply_def list_all_iff around_def)
    show "\<exists>y s'. apply_write env at w s1 = (Inr y, s') \<and> follows (around p s0) (?g w F) s'"
      by (rule write_step [OF f _ _ _ b _ _ tmp])
         (use d eq settledD(4) [OF st w] roomy_target [OF o] in \<open>auto simp: overwrites_def\<close>)
  next
    fix w w' F assume w: "w \<in> set (pp_writes p)" "w' \<in> set (pp_writes p)" "w \<noteq> w'"
      and eq: "F (?i w') = ?F (?i w') \<and> (overwrites w' \<longrightarrow> F (?t w') = ?F (?t w'))"
    have "?t w' \<noteq> ?t w" using orderly_places(3) [OF o] w by (auto simp: distinct_map dest: inj_onD)
    then show "?g w F (?i w') = ?F (?i w') \<and> (overwrites w' \<longrightarrow> ?g w F (?t w') = ?F (?t w'))"
      using eq orderlyD(2) [OF o w(1)] plain_not_staged [of "px_target_path w", THEN not_sym] by (auto simp: stored_def)
  qed (use orderly_places(7) [OF o] f tree2_staged_write [OF o] tree2_overwritten [OF o] in auto)
  moreover have "fold ?g (pp_writes p) (tree2 p ?F) = tree3 p ?F"
    by (simp add: tree3_def write_pairs_def fold_map o_def)
  ultimately show thesis using that by auto
qed

lemma run_moves:
  assumes o: "orderly p" and st: "settled env p s0" and f: "follows (around p s0) (tree3 p (tree_of s0)) s"
  obtains r s' where "each_of (apply_move env p at) (pp_moves p) s = (Inr r, s')"
    "follows (around p s0) (tree4 p (tree_of s0)) s'"
proof -
  let ?src = "\<lambda>m. path_parts (pm_source_path m)" and ?t = "\<lambda>m. path_parts (pm_target_path m)" and ?F = "tree_of s0"
  let ?g = "\<lambda>m. moved (move_from p m, ?t m)"
  have ap: "apart (move_pairs p)" by (rule apart_move [OF o])
  note ne = move_not_target [OF o]
  have "\<exists>ys s'. each_of (apply_move env p at) (pp_moves p) s = (Inr ys, s')
      \<and> follows (around p s0) (fold ?g (pp_moves p) (tree3 p ?F)) s'"
  proof (rule each_of_fold [where ok = "\<lambda>m F. F (move_from p m) = ?F (?src m)"])
    fix m F s1 assume m: "m \<in> set (pp_moves p)" and f: "follows (around p s0) F s1" and eq: "F (move_from p m) = ?F (?src m)"
    note d = orderlyD(1) [OF o m]
    obtain b where b: "F (move_from p m) = Some b" "content_hash env b = pm_content_hash m"
      using settledD(1) [OF st m] d eq by auto
    show "\<exists>y s'. apply_move env p at m s1 = (Inr y, s') \<and> follows (around p s0) (?g m F) s'"
      by (rule move_step [OF f _ _ _ b]) (use d roomy_target [OF o] ne m in auto)
  next
    fix m m' F assume m: "m \<in> set (pp_moves p)" "m' \<in> set (pp_moves p)" "m \<noteq> m'" and eq: "F (move_from p m') = ?F (?src m')"
    have "distinct (map (move_from p) (pp_moves p))" using ap by (simp add: apart_def move_pairs_def o_def)
    then have "move_from p m' \<noteq> move_from p m" using m by (auto simp: distinct_map dest: inj_onD)
    then show "?g m F (move_from p m') = ?F (?src m')" using eq ne [OF m(2,1)] by (auto simp: moved_def)
  qed (use orderly_places(6) [OF o] f tree3_moved [OF o] in auto)
  moreover have "fold ?g (pp_moves p) (tree3 p ?F) = tree4 p ?F"
    by (simp add: tree4_def move_pairs_def fold_map o_def)
  ultimately show thesis using that by auto
qed

lemma materialize_follows:
  assumes o: "orderly p" and st: "settled env p s" and room: "room_to_apply p s" and on: "powered s"
  obtains r s' where "materialize_plan env p at s = (Inr r, s')" "follows (around p s) (tree5 p (tree_of s)) s'"
proof -
  have f0: "follows (around p s) (tree_of s) s" by (rule follows_start [OF on room])
  obtain r1 s1 where 1: "each_of (stage_blocking_move env p at) (pp_moves p) s = (Inr r1, s1)"
    "follows (around p s) (tree1 p (tree_of s)) s1" by (rule run_stage [OF o st f0])
  obtain r2 s2 where 2: "each_of (apply_delete env at) (filter (\<lambda>x. (pd_path x \<in> blocking p) = True) (pp_deletes p)) s1
      = (Inr r2, s2)" "follows (around p s) (tree2 p (tree_of s)) s2"
    using run_deletes [OF o st 1(2), of True] tree1_delete [OF o] unfolding tree2_def by metis
  obtain r3 s3 where 3: "each_of (apply_write env at) (pp_writes p) s2 = (Inr r3, s3)"
    "follows (around p s) (tree3 p (tree_of s)) s3" by (rule run_writes [OF o st room 2(2)])
  obtain r4 s4 where 4: "each_of (apply_move env p at) (pp_moves p) s3 = (Inr r4, s4)"
    "follows (around p s) (tree4 p (tree_of s)) s4" by (rule run_moves [OF o st 3(2)])
  obtain r5 s5 where 5: "each_of (apply_delete env at) (filter (\<lambda>x. (pd_path x \<in> blocking p) = False) (pp_deletes p)) s4
      = (Inr r5, s5)" "follows (around p s) (tree5 p (tree_of s)) s5"
    using run_deletes [OF o st 4(2), of False] tree4_delete [OF o] unfolding tree5_def by metis
  from 1(1) 2(1) 3(1) 4(1) 5 show thesis
    by (intro that) (simp_all add: materialize_plan_def ebind_def)
qed

section \<open>The effect of the plan\<close>

lemma target_hash_None: "target_hash p q = None \<longleftrightarrow> q \<notin> set (plan_targets p)"
  by (auto simp: target_hash_def plan_targets_def map_of_eq_None_iff image_iff)

lemma target_hash_Some:
  assumes "orderly p"
  shows "target_hash p q = Some h \<longleftrightarrow> (\<exists>w \<in> set (pp_writes p). px_target_path w = q \<and> px_content_hash w = h)
    \<or> (\<exists>m \<in> set (pp_moves p). pm_target_path m = q \<and> pm_content_hash m = h)"
proof -
  have "map fst (map (\<lambda>w. (px_target_path w, px_content_hash w)) (pp_writes p)
      @ map (\<lambda>m. (pm_target_path m, pm_content_hash m)) (pp_moves p)) = plan_targets p"
    by (simp add: plan_targets_def)
  then have "distinct (map fst (map (\<lambda>w. (px_target_path w, px_content_hash w)) (pp_writes p)
      @ map (\<lambda>m. (pm_target_path m, pm_content_hash m)) (pp_moves p)))"
    using assms by (simp add: orderly_def)
  then show ?thesis unfolding target_hash_def by (simp only: map_of_eq_Some_iff) auto
qed

lemma tree5_target:
  assumes o: "orderly p" and q: "q \<in> set (plan_targets p)"
  shows "tree5 p F (path_parts q) = tree4 p F (path_parts q)"
proof -
  have "path_parts q \<notin> set (delete_parts False p)"
    using orderly_cross(4) [OF o _ _ q] by (fastforce simp: delete_parts_def)
  then show ?thesis by (simp add: tree5_eq)
qed

lemma tree5_written:
  assumes o: "orderly p" and w: "w \<in> set (pp_writes p)"
  shows "tree5 p F (path_parts (px_target_path w)) = Some (payload_of F w)"
proof -
  have "\<forall>m \<in> set (pp_moves p). path_parts (px_target_path w) \<noteq> move_from p m
      \<and> path_parts (px_target_path w) \<noteq> path_parts (pm_target_path m)"
    using orderly_cross(2,3) [OF o] orderlyD(2) [OF o w] w plain_not_staged [of "px_target_path w"]
    unfolding move_from_def by metis
  then show ?thesis
    using tree5_target [OF o] tree4_other tree3_written [OF o w] orderlyD(2) [OF o w] by metis
qed

lemma tree5_moved:
  assumes o: "orderly p" and m: "m \<in> set (pp_moves p)"
  shows "tree5 p F (path_parts (pm_target_path m)) = F (path_parts (pm_source_path m))"
  using tree5_target [OF o, of "pm_target_path m"] orderlyD(1) [OF o m] tree4_moved(1) [OF o m] tree3_moved [OF o m]
  by simp

lemma tree5_not_target:
  assumes o: "orderly p" and q: "plain_path q" "q \<notin> set (plan_targets p)"
  shows "tree5 p F (path_parts q) = (if q \<in> set (plan_sources p) then None else F (path_parts q))"
proof -
  have nt: "path_parts q \<noteq> path_parts t" if "t \<in> set (plan_targets p)" for t
    using that q orderly_plain [OF o, of t] by (auto simp: plain_path_inj)
  have ns: "path_parts q \<noteq> staged_parts i" for i by (rule plain_not_staged [OF q(1)])
  have nb: "q \<notin> blocking p" using o q(2) by (simp add: orderly_def)
  have t3: "tree3 p F (path_parts q) = tree1 p F (path_parts q)"
  proof -
    have "path_parts q \<notin> set (delete_parts True p)"
      using q(1) nb orderlyD(3) [OF o] by (auto simp: delete_parts_def plain_path_inj)
    moreover have "path_parts q \<notin> (\<lambda>w. path_parts (px_target_path w)) ` set (pp_writes p)"
      using nt orderlyD(2) [OF o] by blast
    ultimately show ?thesis by (simp add: tree3_other tree2_eq)
  qed
  consider (deleted) x where "x \<in> set (pp_deletes p)" "pd_path x = q"
    | (taken) m where "m \<in> set (pp_moves p)" "pm_source_path m = q"
    | (kept) "q \<notin> set (plan_sources p)"
    by (auto simp: plan_sources_def)
  then show ?thesis
  proof cases
    case deleted
    then have "path_parts q \<in> set (delete_parts False p)" using nb by (auto simp: delete_parts_def)
    with deleted orderlyD(3) [OF o] show ?thesis by (auto simp: tree5_eq)
  next
    case taken
    have "tree4 p F (path_parts q) = None"
    proof (cases "is_blocking_move p m")
      case True
      have one: "m' = m" if "m' \<in> set (pp_moves p)" "path_parts (pm_source_path m') = path_parts (pm_source_path m)" for m'
        using inj_onD [OF _ that(2) that(1) taken(1)] orderly_places(1) [OF o] by (simp add: distinct_map)
      have "path_parts q \<noteq> move_from p m'" if "m' \<in> set (pp_moves p)" for m'
      proof (cases "is_blocking_move p m'")
        case False
        then have "m' \<noteq> m" using True by auto
        with one [OF that] False taken(2) show ?thesis by (auto simp: move_from_def)
      qed (simp add: move_from_def ns)
      then have "tree4 p F (path_parts q) = tree3 p F (path_parts q)"
        using nt orderlyD(1) [OF o] by (intro tree4_other) blast
      with t3 tree1_staged(2) [OF o taken(1) True] taken(2) show ?thesis by simp
    next
      case False
      with tree4_moved(2) [OF o taken(1)] taken(2) show ?thesis by (simp add: move_from_def)
    qed
    with taken orderlyD(1) [OF o] show ?thesis by (auto simp: tree5_eq)
  next
    case kept
    have "path_parts q \<notin> set (delete_parts False p)"
      using q(1) kept orderlyD(3) [OF o] by (auto simp: delete_parts_def plain_path_inj)
    moreover have src: "path_parts q \<noteq> path_parts (pm_source_path m)" if "m \<in> set (pp_moves p)" for m
      using q(1) kept orderlyD(1) [OF o that] by (auto simp: plain_path_inj)
    moreover have "tree4 p F (path_parts q) = tree3 p F (path_parts q)"
    proof (intro tree4_other ballI conjI)
      fix m assume m: "m \<in> set (pp_moves p)"
      show "path_parts q \<noteq> move_from p m" using src [OF m] ns by (simp add: move_from_def)
      show "path_parts q \<noteq> path_parts (pm_target_path m)" using nt orderlyD(1) [OF o m] by blast
    qed
    moreover have "tree1 p F (path_parts q) = F (path_parts q)"
      using src ns by (intro tree1_other) blast
    ultimately show ?thesis using t3 kept by (simp add: tree5_eq)
  qed
qed

lemma tree5_effect:
  assumes o: "orderly p" and st: "settled env p s" and q: "plain_path q"
  shows "map_option (content_hash env) (tree5 p (tree_of s) (path_parts q))
    = plan_effect p (\<lambda>q. hash_at env s (path_parts q)) q"
proof (cases "target_hash p q")
  case None
  then have "q \<notin> set (plan_targets p)" by (metis target_hash_None)
  then show ?thesis
    using tree5_not_target [OF o q] q
    by (simp add: plan_effect_def None tree_of_def plain_path_def hash_at_def)
next
  case (Some h)
  then consider w where "w \<in> set (pp_writes p)" "px_target_path w = q" "px_content_hash w = h"
    | m where "m \<in> set (pp_moves p)" "pm_target_path m = q" "pm_content_hash m = h"
    unfolding target_hash_Some [OF o] by auto
  then have "map_option (content_hash env) (tree5 p (tree_of s) (path_parts q)) = Some h"
  proof cases
    case 1
    then show ?thesis
      using tree5_written [OF o 1(1)] settledD(3) [OF st 1(1)] orderlyD(2) [OF o 1(1)] by auto
  next
    case 2
    then show ?thesis
      using tree5_moved [OF o 2(1)] settledD(1) [OF st 2(1)] orderlyD(1) [OF o 2(1)] by auto
  qed
  then show ?thesis using Some by (simp add: plan_effect_def)
qed

lemma materialized:
  assumes o: "orderly p" and st: "settled env p s" and room: "room_to_apply p s" and on: "powered s"
  obtains r s' where "materialize_plan env p at s = (Inr r, s')" "besides s' = besides s"
    "\<forall>q. plain_path q \<longrightarrow> hash_at env s' (path_parts q) = plan_effect p (\<lambda>q. hash_at env s (path_parts q)) q"
proof -
  obtain r s' where s': "materialize_plan env p at s = (Inr r, s')" "follows (around p s) (tree5 p (tree_of s)) s'"
    by (rule materialize_follows [OF assms])
  have "hash_at env s' (path_parts q) = plan_effect p (\<lambda>q. hash_at env s (path_parts q)) q" if "plain_path q" for q
    using tree5_effect [OF o st that] s'(2) that by (simp add: follows_def hash_at_def plain_path_def)
  with s' show thesis by (intro that [OF s'(1)]) (auto simp: follows_def around_def)
qed

section \<open>Plans built from a manifest\<close>

definition usable_names :: "filemap_document \<Rightarrow> manifest \<Rightarrow> bool" where
  "usable_names d m \<longleftrightarrow> list_all (\<lambda>r. plain_path (fr_path r)) (active_records d)
     \<and> list_all (\<lambda>e. plain_path (mf_path e) \<and> safe_file_id (mf_file_id e)) (mn_files m)"

lemma built_plan_orderly:
  assumes p: "build_pull_apply_plan sha d (Some m) = Inr p" and i: "pull_input d m" and n: "usable_names d m"
  shows "orderly p"
proof -
  note t = plan_targets_distinct [OF p i] and s = plan_sources_iff [OF p i]
    and w = plan_lists(1) [OF p i] and v = plan_lists(2) [OF p i]
  have rpath: "r \<in> set (active_records d) \<Longrightarrow> r' \<in> set (active_records d) \<Longrightarrow> fr_path r = fr_path r' \<Longrightarrow> r = r'" for r r'
    using i by (auto simp: pull_input_def distinct_map dest: inj_onD)
  have ids: "plan_ids p = map mf_file_id (filter (changed d) (mn_sorted_files m)
      @ filter (\<lambda>e. \<not> changed d e \<and> relocates d e) (mn_sorted_files m))"
    by (simp add: plan_ids_def w v write_of_def move_of_def o_def)
  have "distinct (map mf_file_id (mn_sorted_files m))" using i by (simp add: pull_input_def mn_sorted_files_def)
  then have "distinct (plan_ids p)"
    unfolding ids by (auto simp: distinct_map distinct_map_filter dest: inj_onD intro: inj_on_subset)
  moreover have "list_all plain_path (plan_targets p @ plan_sources p)"
    using n t(3) s(1) by (fastforce simp: usable_names_def list_all_iff)
  moreover have "list_all safe_file_id (plan_ids p)"
    using n unfolding ids by (auto simp: usable_names_def list_all_iff mn_sorted_files_def)
  moreover have "px_staging_path x = staging_path_of (px_file_id x) \<and> (overwrites x \<longrightarrow> px_target_path x \<notin> set (plan_sources p))"
    if "x \<in> set (pp_writes p)" for x
  proof -
    from that obtain e where e: "e \<in> set (mn_files m)" "x = write_of d e" by (auto simp: w)
    have "px_target_path x \<notin> set (plan_sources p)" if "overwrites x"
    proof -
      from that e obtain r where r: "known d e = Some r" "fr_path r = mf_path e" by (auto simp: overwrites_def write_of_def)
      then have "r \<in> set (active_records d)" "fr_file_id r = mf_file_id e" using known_iff [OF i] by auto
      with r e rpath have "\<exists>e' \<in> set (mn_files m). mf_file_id e' = fr_file_id r' \<and> mf_path e' = mf_path e"
        if "r' \<in> set (active_records d)" "fr_path r' = mf_path e" for r' using that by metis
      then show ?thesis unfolding s(1) using e(2) by (auto simp: write_of_def)
    qed
    with e(2) show ?thesis by (simp add: write_of_def)
  qed
  moreover have "set (pp_blocking_paths p) = set (plan_targets p) \<inter> set (plan_sources p)"
    unfolding plan_lists(4) [OF p i] blocking_paths_def plan_targets_def plan_sources_def Let_def by auto
  ultimately show ?thesis using t(1) s(2) by (simp add: orderly_def list_all_iff)
qed

definition workspace_agrees :: "apply_env \<Rightarrow> filemap_document \<Rightarrow> desk \<Rightarrow> bool" where
  "workspace_agrees env d s \<longleftrightarrow> list_all (\<lambda>r. fr_content_hash r \<noteq> None
     \<and> hash_at env s (path_parts (fr_path r)) = fr_content_hash r) (active_records d)"

definition writes_staged :: "apply_env \<Rightarrow> pull_plan \<Rightarrow> desk \<Rightarrow> bool" where
  "writes_staged env p s \<longleftrightarrow>
     list_all (\<lambda>w. hash_at env s (staged_parts (px_file_id w)) = Some (px_content_hash w)) (pp_writes p)"

lemma built_plan_settled:
  assumes p: "build_pull_apply_plan sha d (Some m) = Inr p" and i: "pull_input d m"
    and a: "workspace_agrees env d s" and st: "writes_staged env p s"
  shows "settled env p s"
proof -
  note w = plan_lists(1) [OF p i] and v = plan_lists(2) [OF p i] and x = plan_lists(3) [OF p i]
  have agree: "hash_at env s (path_parts (fr_path r)) = fr_content_hash r \<and> fr_content_hash r \<noteq> None"
    if "r \<in> set (active_records d)" for r
    using a that by (auto simp: workspace_agrees_def list_all_iff)
  have known: "known d e = Some r \<Longrightarrow> r \<in> set (active_records d)" for e r using known_iff [OF i] by simp
  have rel: "relocates d e \<Longrightarrow> known d e = Some (known_record d e)" for e
    by (auto simp: relocates_def known_recordD)
  have "hash_at env s (path_parts (pm_source_path y)) = Some (pm_content_hash y)" if "y \<in> set (pp_moves p)" for y
  proof -
    from that obtain e where e: "y = move_of (known_record d e) e" "\<not> changed d e" "relocates d e" by (auto simp: v)
    then have "fr_content_hash (known_record d e) = Some (mf_content_hash e)"
      using rel by (auto simp: changed_def)
    with e agree [OF known [OF rel]] show ?thesis by (simp add: move_of_def)
  qed
  moreover have "hash_at env s (path_parts (pd_path y)) = pd_expected_content_hash y \<and> pd_expected_content_hash y \<noteq> None"
    if "y \<in> set (pp_deletes p)" for y
    using that agree [OF known [OF rel]] agree by (auto simp: x replaced_of_def)
  moreover have "hash_at env s (path_parts (px_target_path y)) = px_expected_previous_content_hash y
      \<and> px_expected_previous_content_hash y \<noteq> None" if y: "y \<in> set (pp_writes p)" "overwrites y" for y
  proof -
    from y obtain e r where e: "y = write_of d e" "known d e = Some r" "fr_path r = mf_path e"
      by (auto simp: w overwrites_def write_of_def)
    with agree [OF known [OF e(2)]] show ?thesis by (simp add: write_of_def)
  qed
  ultimately show ?thesis using st by (simp add: settled_def writes_staged_def list_all_iff)
qed

lemma effect_is_manifest:
  assumes p: "build_pull_apply_plan sha d (Some m) = Inr p" and i: "pull_input d m" and a: "workspace_agrees env d s"
  shows "plan_effect p (\<lambda>q. hash_at env s (path_parts q)) q
    = (if q \<in> fr_path ` set (active_records d) \<or> manifest_content m q \<noteq> None then manifest_content m q
       else hash_at env s (path_parts q))"
proof -
  have e: "plan_effect p (path_content d) q = manifest_content m q"
    using plan_effect_manifest [OF p i] by simp
  show ?thesis
  proof (cases "q \<in> fr_path ` set (active_records d)")
    case True
    then obtain r where r: "r \<in> set (active_records d)" "fr_path r = q" by auto
    then have "dict_of fr_path (active_records d) q = Some r"
      using dict_of_distinct [of fr_path "active_records d" q r] i by (simp add: pull_input_def)
    then have "path_content d q = hash_at env s (path_parts q)"
      using a r by (auto simp: path_content_def workspace_agrees_def list_all_iff)
    then have "plan_effect p (\<lambda>q. hash_at env s (path_parts q)) q = plan_effect p (path_content d) q"
      by (simp add: plan_effect_def split: option.splits)
    with e True show ?thesis by simp
  next
    case False
    then have "dict_of fr_path (active_records d) q = None" by simp
    then have "path_content d q = None" by (simp add: path_content_def del: dict_of_eq_None)
    moreover have "q \<notin> set (plan_sources p)" using False plan_sources_iff(1) [OF p i, of q] by auto
    ultimately show ?thesis using e False by (auto simp: plan_effect_def split: option.splits)
  qed
qed

section \<open>A pull applied to a clean workspace\<close>

lemma in_store_on:
  "powered s \<Longrightarrow> in_store (persist f) s = (Inr (), s\<lparr>de_client := f (de_client s)\<rparr>)"
  by (simp add: in_store_def persist_def powered_def)

lemma journal_put [simp]:
  "hash_at env (s\<lparr>de_client := put_apply_journal j (de_client s)\<rparr>) q = hash_at env s q"
  "file_paths (s\<lparr>de_client := put_apply_journal j (de_client s)\<rparr>) = file_paths s"
  "powered (s\<lparr>de_client := put_apply_journal j (de_client s)\<rparr>) = powered s"
  by (simp_all add: hash_at_def file_bytes_def file_paths_def powered_def put_apply_journal_def split: option.splits)

definition apply_journal_for :: "apply_env \<Rightarrow> pull_plan \<Rightarrow> desk \<Rightarrow> apply_journal \<Rightarrow> bool" where
  "apply_journal_for env p s j \<longleftrightarrow> load_sync_apply_journal (ae_vault_id env) (de_client s) = Inr (Some j)
     \<and> aj_vault_id j = ae_vault_id env \<and> pp_vault_id p = ae_vault_id env \<and> aj_target_revision j = pp_revision p"

definition applicable :: "apply_env \<Rightarrow> filemap_document \<Rightarrow> manifest \<Rightarrow> pull_plan \<Rightarrow> desk \<Rightarrow> bool" where
  "applicable env d m p s \<longleftrightarrow> pull_input d m \<and> usable_names d m \<and> workspace_agrees env d s
     \<and> writes_staged env p s \<and> room_to_apply p s \<and> powered s"

text \<open>C2: applying a pull takes a workspace that agrees with the file map to the manifest: when the
  payloads are staged under the plan's journal, every path is a plain one, no path is to be a file
  and a directory, and no file has the name of a temporary one, the application goes through, also
  when files swap their paths; afterwards every path of the manifest holds a file with its hash,
  every other path the file map knew is gone, every other file of the workspace is as it was, and
  the journal is in its materializing phase.\<close>

theorem applied_pull_matches_manifest:
  assumes p: "build_pull_apply_plan sha d (Some m) = Inr p" and a: "applicable env d m p s"
    and j: "apply_journal_for env p s j" and at: "0 \<le> at"
  shows "\<exists>x s'. apply_staged_pull_plan env p (Some j) at s = (Inr x, s')
    \<and> (\<forall>q. plain_path q \<longrightarrow> hash_at env s' (path_parts q)
        = (if q \<in> fr_path ` set (active_records d) \<or> manifest_content m q \<noteq> None then manifest_content m q
           else hash_at env s (path_parts q)))
    \<and> map_option aj_phase (cl_apply_journal (de_client s') (ae_vault_id env)) = Some ''materializing''"
proof -
  let ?j = "j\<lparr>aj_phase := ''materializing'', aj_ops_hash := Some (pp_ops_hash p), aj_updated_at := at\<rparr>"
  let ?s = "s\<lparr>de_client := put_apply_journal ?j (de_client s)\<rparr>"
  have i: "pull_input d m" and on: "powered s" using a by (simp_all add: applicable_def)
  have o: "orderly p" using built_plan_orderly [OF p i] a by (simp add: applicable_def)
  have st: "settled env p s" using built_plan_settled [OF p i] a by (simp add: applicable_def)
  have h: "settled env p ?s" "room_to_apply p ?s" "powered ?s"
    using st a by (simp_all add: settled_def room_to_apply_def files_of_apply_def dirs_of_apply_def applicable_def)
  obtain r s' where s': "materialize_plan env p at ?s = (Inr r, s')" "besides s' = besides ?s"
    "\<forall>q. plain_path q \<longrightarrow> hash_at env s' (path_parts q) = plan_effect p (\<lambda>q. hash_at env ?s (path_parts q)) q"
    by (rule materialized [OF o h, where at = at])
  have wf: "wf_apply_journal ?j"
    using j at by (auto simp: apply_journal_for_def load_sync_apply_journal_def result_simps wf_apply_journal_iff
        VALID_SYNC_APPLY_PHASES_def split: option.splits)
  have up: "in_store (upsert_sync_apply_journal ?j) s = (Inr (), ?s)"
    by (simp add: upsert_sync_apply_journal_def in_store_on on)
  have ld: "in_store (eread (load_sync_apply_journal (ae_vault_id env))) s = (Inr (Some j), s)"
    using j by (simp add: in_store_def apply_journal_for_def)
  obtain w mv dl where r: "r = (w, mv, dl)" by (cases r)
  have "apply_staged_pull_plan env p (Some j) at s = (Inr \<lparr>ax_journal = Some ?j, ax_written_paths = w,
      ax_moved_paths = mv, ax_deleted_paths = dl\<rparr>, s')"
    using j wf by (simp add: apply_staged_pull_plan_def apply_journal_for_def
        ebind_def up s'(1) r elift_def SyncApplyJournalRecord_def wf_apply_journal_def ld)
  moreover have "cl_apply_journal (de_client s') = cl_apply_journal (de_client ?s)"
    using s'(2) unfolding besides_def
    by (metis (no_types, lifting) Pair_inject client.select_convs(3) client.surjective client.update_convs(9))
  then have "cl_apply_journal (de_client s') (ae_vault_id env) = Some ?j"
    using j by (simp add: put_apply_journal_def apply_journal_for_def)
  moreover have "hash_at env s' (path_parts q) = (if q \<in> fr_path ` set (active_records d) \<or> manifest_content m q \<noteq> None
      then manifest_content m q else hash_at env s (path_parts q))" if "plain_path q" for q
    using s'(3) that effect_is_manifest [OF p i, of env s q] a by (simp add: applicable_def)
  ultimately show ?thesis by auto
qed

text \<open>The workspace of \<open>swap_document\<close>, with a file the file map does not know and one payload staged.\<close>

definition swap_env :: apply_env where
  "swap_env = \<lparr>ae_sha = id, ae_iso_date = (\<lambda>_. ''2024-01-01''), ae_device_id = ''d'', ae_vault_id = ''v'',
     ae_file_id = id, ae_journal_id = ''j'', ae_decrypt = (\<lambda>b _. Inr b)\<rparr>"

definition swap_journal :: apply_journal where
  "swap_journal = \<lparr>aj_vault_id = ''v'', aj_journal_id = ''j'', aj_target_revision = 2,
     aj_target_manifest_hash = ''s'', aj_phase = ''staging'', aj_created_at = 1, aj_updated_at = 1,
     aj_ops_hash = None\<rparr>"

definition swap_desk :: desk where
  "swap_desk = \<lparr>de_client = put_apply_journal swap_journal (empty_client\<lparr>cl_staging := [(''4.staging'', ''D'')]\<rparr>),
     de_files = [([''a.md''], ''A''), ([''b.md''], ''B''), ([''c.md''], ''C''), ([''x.md''], ''X'')],
     de_dirs = [[''.noteapp''], [''.noteapp'', ''staging'']], de_plan = None\<rparr>"

lemma swap_applicable:
  assumes "pp_writes p = [write_of swap_document (swap_entry ''4'' ''c.md'' ''D'')]"
    "pp_moves p = [move_of (swap_rec ''2'' ''b.md'' ''B'') (swap_entry ''2'' ''a.md'' ''B''),
       move_of (swap_rec ''1'' ''a.md'' ''A'') (swap_entry ''1'' ''b.md'' ''A'')]"
  shows "applicable swap_env swap_document swap_manifest p swap_desk"
proof -
  have "usable_names swap_document swap_manifest" by code_simp
  moreover have "workspace_agrees swap_env swap_document swap_desk" by code_simp
  moreover have "writes_staged swap_env p swap_desk" unfolding writes_staged_def assms by code_simp
  moreover have "room_to_apply p swap_desk"
    unfolding room_to_apply_def files_of_apply_def dirs_of_apply_def plan_targets_def plan_ids_def assms
    by code_simp
  moreover have "powered swap_desk" by code_simp
  ultimately show ?thesis using swap_input by (simp add: applicable_def)
qed

theorem applied_pull_matches_manifest_witness:
  "\<exists>p x s'. build_pull_apply_plan id swap_document (Some swap_manifest) = Inr p
     \<and> apply_staged_pull_plan swap_env p (Some swap_journal) 5 swap_desk = (Inr x, s')
     \<and> map (\<lambda>q. hash_at swap_env s' [q]) [''a.md'', ''b.md'', ''c.md'', ''x.md'']
       = [Some ''sha256:B'', Some ''sha256:A'', Some ''sha256:D'', Some ''sha256:X'']"
proof -
  obtain p where p: "build_pull_apply_plan id swap_document (Some swap_manifest) = Inr p"
    "pp_writes p = [write_of swap_document (swap_entry ''4'' ''c.md'' ''D'')]"
    "pp_moves p = [move_of (swap_rec ''2'' ''b.md'' ''B'') (swap_entry ''2'' ''a.md'' ''B''),
       move_of (swap_rec ''1'' ''a.md'' ''A'') (swap_entry ''1'' ''b.md'' ''A'')]"
    "pp_vault_id p = ''v''" "pp_revision p = 2" by (rule swap_plan)
  have "load_sync_apply_journal ''v'' (de_client swap_desk) = Inr (Some swap_journal)" by code_simp
  then have j: "apply_journal_for swap_env p swap_desk swap_journal"
    by (simp add: apply_journal_for_def p swap_env_def swap_journal_def)
  obtain x s' where s': "apply_staged_pull_plan swap_env p (Some swap_journal) 5 swap_desk = (Inr x, s')"
    "\<forall>q. plain_path q \<longrightarrow> hash_at swap_env s' (path_parts q)
      = (if q \<in> fr_path ` set (active_records swap_document) \<or> manifest_content swap_manifest q \<noteq> None
         then manifest_content swap_manifest q else hash_at swap_env swap_desk (path_parts q))"
    using applied_pull_matches_manifest [OF p(1) swap_applicable [OF p(2,3)] j, of 5] by auto
  have plain: "plain_path q \<and> path_parts q = [q]" if "q \<in> {''a.md'', ''b.md'', ''c.md'', ''x.md''}" for q
  proof -
    have "list_all (\<lambda>q. plain_path q \<and> path_parts q = [q]) [''a.md'', ''b.md'', ''c.md'', ''x.md'']" by code_simp
    with that show ?thesis by (auto simp: list_all_iff)
  qed
  have at: "hash_at swap_env s' [q]
      = (if q \<in> set (map fr_path (active_records swap_document)) \<or> manifest_content swap_manifest q \<noteq> None
         then manifest_content swap_manifest q else hash_at swap_env swap_desk [q])"
    if "q \<in> {''a.md'', ''b.md'', ''c.md'', ''x.md''}" for q
    using s'(2) plain [OF that] by (metis set_map)
  have "map (\<lambda>q. hash_at swap_env s' [q]) [''a.md'', ''b.md'', ''c.md'', ''x.md'']
      = map (\<lambda>q. if q \<in> set (map fr_path (active_records swap_document)) \<or> manifest_content swap_manifest q \<noteq> None
         then manifest_content swap_manifest q else hash_at swap_env swap_desk [q])
        [''a.md'', ''b.md'', ''c.md'', ''x.md'']"
    by (rule map_cong [OF refl]) (use at in simp)
  also have "\<dots> = [Some ''sha256:B'', Some ''sha256:A'', Some ''sha256:D'', Some ''sha256:X'']" by code_simp
  finally show ?thesis by (intro exI conjI) (rule p(1) s'(1) | assumption)+
qed

end
