(* ===== verification/Pull_Replay.thy ===== *)
theory Pull_Replay
  imports Pull_Workspace
begin

text \<open>
  Interrupted pulls: the power fails at any durable step of an application, and the recovery replays
  the plan.
\<close>

section \<open>Assertions that survive a power loss\<close>

text \<open>An assertion is kept by an effect when it holds afterwards however the effect ends.\<close>

definition keeps :: "('s \<Rightarrow> bool) \<Rightarrow> ('s, 'e, 'a) eff \<Rightarrow> bool" where
  "keeps P m \<longleftrightarrow> (\<forall>s. P s \<longrightarrow> P (snd (m s)))"

lemma keepsD: "keeps P m \<Longrightarrow> P s \<Longrightarrow> P (snd (m s))"
  by (simp add: keeps_def)

lemma keepsI: "(\<And>s. P s \<Longrightarrow> P (snd (m s))) \<Longrightarrow> keeps P m"
  by (simp add: keeps_def)

lemma keeps_bind: "keeps P m \<Longrightarrow> (\<And>x. keeps P (f x)) \<Longrightarrow> keeps P (ebind m f)"
  by (fastforce simp: keeps_def ebind_def split: prod.splits sum.splits)

lemma keeps_reading [simp]: "keeps P (eret x)" "keeps P (eraise e)" "keeps P (eread g)" "keeps P (eget h)"
    "keeps P (elift r)"
  by (auto simp: keeps_def eret_def eraise_def eread_def eget_def elift_def split: sum.splits)

lemma ebind_lifted_value: "ebind (elift (Inr x)) f = f x"
  by (simp add: fun_eq_iff ebind_def)

lemma keeps_finally: "keeps P m \<Longrightarrow> keeps P c \<Longrightarrow> keeps P (efinally m c)"
  by (fastforce simp: keeps_def efinally_def split: prod.splits sum.splits py_exn.splits)

lemma keeps_each: "(\<And>x. x \<in> set xs \<Longrightarrow> keeps P (f x)) \<Longrightarrow> keeps P (each_of f xs)"
  by (induction xs) (auto intro!: keeps_bind)

text \<open>The power that is left.\<close>

definition set_power :: "nat option \<Rightarrow> desk \<Rightarrow> desk" where
  "set_power k s = s\<lparr>de_client := (de_client s)\<lparr>cl_power := k\<rparr>\<rparr>"

abbreviation reboot :: "desk \<Rightarrow> desk" where "reboot \<equiv> set_power None"

lemma powered_reboot [simp]: "powered (reboot s)"
  by (simp add: powered_def set_power_def)

lemma set_power_twice [simp]: "set_power k (set_power l s) = set_power k s"
  by (simp add: set_power_def)

lemma set_power_same: "powered s \<Longrightarrow> reboot s = s"
  by (simp add: set_power_def powered_def)

lemma set_power_fields [simp]: "de_files (set_power k s) = de_files s" "de_dirs (set_power k s) = de_dirs s"
    "de_plan (set_power k s) = de_plan s" "cl_staging (de_client (set_power k s)) = cl_staging (de_client s)"
    "file_bytes (set_power k s) = file_bytes s"
  by (simp_all add: set_power_def file_bytes_def fun_eq_iff split: option.splits)

lemma disk_step_cases:
  obtains (lost) "disk_step f s = (Inl PowerLoss, s)" | (made) k where "disk_step f s = (Inr (), f (set_power k s))"
proof (cases "cl_power (de_client s)")
  case None
  then have "disk_step f s = (Inr (), f s)" "set_power None s = s"
    using set_power_same [of s] by (simp_all add: disk_step_def persist_def powered_def)
  then show thesis by (metis made)
next
  case (Some n)
  then show thesis
    by (cases n) (auto simp: disk_step_def persist_def set_power_def intro: lost made)
qed

lemma keeps_disk_step:
  "(\<And>s k. P s \<Longrightarrow> P (f (set_power k s))) \<Longrightarrow> keeps P (disk_step f)"
  by (rule keepsI) (metis disk_step_cases snd_conv)

lemma besides_reboot [simp]: "besides (reboot (set_power k s)) = besides (reboot s)"
    "besides (reboot (put_bytes p b s)) = besides (reboot s)"
    "besides (reboot (del_bytes p s)) = besides (reboot s)"
    "besides (reboot (s\<lparr>de_dirs := ds\<rparr>)) = besides (reboot s)"
  by (simp_all add: besides_def set_power_def put_bytes_def del_bytes_def split: option.splits)


section \<open>The workspace in the middle of an application\<close>

text \<open>A plan without blocking paths that overwrites no file in place.\<close>

definition quiet_plan :: "pull_plan \<Rightarrow> bool" where
  "quiet_plan p \<longleftrightarrow> pp_blocking_paths p = [] \<and> list_all (\<lambda>w. \<not> overwrites w) (pp_writes p)"

definition replayable :: "apply_env \<Rightarrow> pull_plan \<Rightarrow> desk \<Rightarrow> bool" where
  "replayable env p s \<longleftrightarrow> orderly p \<and> settled env p s \<and> room_to_apply p s \<and> quiet_plan p"

abbreviation target_of :: "pull_write \<Rightarrow> string list" where
  "target_of w \<equiv> path_parts (px_target_path w)"

definition written_places :: "pull_plan \<Rightarrow> string list set" where
  "written_places p = target_of ` set (pp_writes p) \<union> (with_tmp \<circ> target_of) ` set (pp_writes p)"

definition touched :: "pull_plan \<Rightarrow> string list set" where
  "touched p = path_parts ` set (plan_targets p) \<union> path_parts ` set (plan_sources p) \<union> written_places p"

text \<open>Each move is made or not, each deletion is made or not, and nothing is said of the targets of writes.\<close>

definition midway :: "apply_env \<Rightarrow> pull_plan \<Rightarrow> desk \<Rightarrow> desk \<Rightarrow> bool" where
  "midway env p s0 s \<longleftrightarrow> besides (reboot s) = besides (reboot s0) \<and> set (de_dirs s) \<subseteq> set (dirs_of_apply p s0)
     \<and> (\<forall>q. clean_parts q \<and> q \<notin> touched p \<longrightarrow> file_bytes s q = file_bytes s0 q)
     \<and> (\<forall>m \<in> set (pp_moves p). hash_at env s (path_parts (pm_source_path m)) = Some (pm_content_hash m)
         \<or> file_bytes s (path_parts (pm_source_path m)) = None
           \<and> hash_at env s (path_parts (pm_target_path m)) = Some (pm_content_hash m))
     \<and> (\<forall>x \<in> set (pp_deletes p). hash_at env s (path_parts (pd_path x)) = pd_expected_content_hash x
         \<or> file_bytes s (path_parts (pd_path x)) = None)"

lemma midwayD:
  assumes "midway env p s0 s"
  shows "set (de_dirs s) \<subseteq> set (dirs_of_apply p s0)"
    and "clean_parts q \<Longrightarrow> q \<notin> touched p \<Longrightarrow> file_bytes s q = file_bytes s0 q"
    and "m \<in> set (pp_moves p) \<Longrightarrow> hash_at env s (path_parts (pm_source_path m)) = Some (pm_content_hash m)
         \<or> file_bytes s (path_parts (pm_source_path m)) = None
           \<and> hash_at env s (path_parts (pm_target_path m)) = Some (pm_content_hash m)"
    and "x \<in> set (pp_deletes p) \<Longrightarrow> hash_at env s (path_parts (pd_path x)) = pd_expected_content_hash x
         \<or> file_bytes s (path_parts (pd_path x)) = None"
  using assms by (simp_all add: midway_def)

lemma midway_power [simp]: "midway env p s0 (set_power k s) \<longleftrightarrow> midway env p s0 s"
  by (simp add: midway_def hash_at_def)

lemma midway_start: "settled env p s \<Longrightarrow> room_to_apply p s \<Longrightarrow> midway env p s (set_power k s)"
  by (auto simp: midway_def settled_def list_all_iff dirs_of_apply_def hash_at_def)

text \<open>The places of a quiet plan do not meet.\<close>

lemma replayableD:
  assumes "replayable env p s0"
  shows "orderly p" "settled env p s0" "room_to_apply p s0" "quiet_plan p"
  using assms by (simp_all add: replayable_def)

lemma quiet_places:
  assumes r: "replayable env p s0" and q: "q \<in> set (plan_targets p)" and a: "a \<in> set (plan_sources p)"
  shows "path_parts q \<noteq> path_parts a"
proof -
  have "set (plan_targets p) \<inter> set (plan_sources p) = {}"
    using replayableD(1,4) [OF r] by (simp add: orderly_def quiet_plan_def)
  then show ?thesis
    using orderly_plain [OF replayableD(1) [OF r]] q a plain_path_inj by blast
qed

lemma source_is_file:
  assumes r: "replayable env p s0" and a: "a \<in> set (plan_sources p)"
  shows "path_parts a \<in> set (files_of_apply p s0)"
proof -
  note o = replayableD(1) [OF r] and st = replayableD(2) [OF r]
  have "plain_path a" using orderly_plain [OF o] a by simp
  then have c: "clean_parts (path_parts a)" by (simp add: plain_path_def)
  have "hash_at env s0 (path_parts a) \<noteq> None"
    using a st by (auto simp: plan_sources_def settled_def list_all_iff)
  then have "file_bytes s0 (path_parts a) \<noteq> None" by (simp add: hash_at_def)
  from file_paths_complete [OF c this] show ?thesis by (simp add: files_of_apply_def)
qed

lemma tmp_apart:
  assumes r: "replayable env p s0" and w: "w \<in> set (pp_writes p)"
  shows "with_tmp (target_of w) \<notin> set (dirs_of_apply p s0)" "with_tmp (target_of w) \<notin> set (files_of_apply p s0)"
    "clean_parts (with_tmp (target_of w))" "clean_parts (target_of w)" "target_of w \<noteq> []"
  using replayableD(3) [OF r] w orderlyD(2) [OF replayableD(1) [OF r] w] clean_with_tmp [of "target_of w"]
  by (auto simp: room_to_apply_def list_all_iff plain_path_def)

lemma places_apart:
  assumes r: "replayable env p s0" and q: "q \<in> written_places p"
  shows "m \<in> set (pp_moves p) \<Longrightarrow> q \<noteq> path_parts (pm_source_path m) \<and> q \<noteq> path_parts (pm_target_path m)"
    and "x \<in> set (pp_deletes p) \<Longrightarrow> q \<noteq> path_parts (pd_path x)"
proof -
  note o = replayableD(1) [OF r]
  from q obtain w where w: "w \<in> set (pp_writes p)" "q = target_of w \<or> q = with_tmp (target_of w)"
    by (auto simp: written_places_def)
  note d = orderlyD(2) [OF o w(1)]
  have f: "path_parts t \<in> set (files_of_apply p s0)" if "t \<in> set (plan_targets p)" for t
    using that by (auto simp: files_of_apply_def)
  show "q \<noteq> path_parts (pm_source_path m) \<and> q \<noteq> path_parts (pm_target_path m)" if m: "m \<in> set (pp_moves p)"
    using w(2) tmp_apart(2) [OF r w(1)] quiet_places [OF r, of "px_target_path w" "pm_source_path m"]
      orderlyD(1) [OF o m] d source_is_file [OF r] f orderly_cross(2) [OF o m w(1)] by metis
  show "q \<noteq> path_parts (pd_path x)" if x: "x \<in> set (pp_deletes p)"
    using w(2) tmp_apart(2) [OF r w(1)] quiet_places [OF r, of "px_target_path w" "pd_path x"]
      orderlyD(3) [OF o x] d source_is_file [OF r] by metis
qed

lemma midway_written:
  assumes r: "replayable env p s0" and s: "midway env p s0 s" and q: "q \<in> written_places p" "clean_parts q"
  shows "midway env p s0 (put_bytes q b s)" "midway env p s0 (del_bytes q s)"
proof -
  have t: "q \<in> touched p" using q(1) by (simp add: touched_def)
  have c: "m \<in> set (pp_moves p) \<Longrightarrow> clean_parts (path_parts (pm_source_path m)) \<and> clean_parts (path_parts (pm_target_path m))"
    "x \<in> set (pp_deletes p) \<Longrightarrow> clean_parts (path_parts (pd_path x))" for m x
    using orderlyD [OF replayableD(1) [OF r]] by (auto simp: plain_path_def)
  show "midway env p s0 (put_bytes q b s)" "midway env p s0 (del_bytes q s)"
    using s c places_apart [OF r q(1)] t q(2) unfolding midway_def
    by (auto simp: hash_at_def desk_tree.tree_put desk_tree.tree_del)
qed


section \<open>Every step stays in the middle\<close>

lemma midway_not_dir:
  assumes "replayable env p s0" "midway env p s0 s"
  shows "q \<in> set (files_of_apply p s0) \<Longrightarrow> \<not> is_dir s q"
    and "w \<in> set (pp_writes p) \<Longrightarrow> \<not> is_dir s (with_tmp (target_of w))"
  using assms(1) midwayD(1) [OF assms(2)] tmp_apart(1) [OF assms(1)]
  by (auto simp: is_dir_def replayable_def room_to_apply_def list_all_iff with_tmp_def split: list.splits)

lemma target_is_file: "q \<in> set (plan_targets p) \<Longrightarrow> path_parts q \<in> set (files_of_apply p s0)"
  by (simp add: files_of_apply_def)

lemma keeps_make_dirs:
  "set (prefixes ps) \<subseteq> set (dirs_of_apply p s0) \<Longrightarrow> keeps (midway env p s0) (make_dirs ps)"
  unfolding make_dirs_def
  by (auto intro!: keeps_bind keeps_disk_step split: option.split simp: subset_iff midway_def hash_at_def)

lemma target_dirs: "q \<in> set (plan_targets p) \<Longrightarrow> set (prefixes (butlast (path_parts q))) \<subseteq> set (dirs_of_apply p s0)"
  by (auto simp: dirs_of_apply_def)

lemma keeps_write_bytes_atomic:
  assumes r: "replayable env p s0" and w: "w \<in> set (pp_writes p)"
  shows "keeps (midway env p s0) (write_bytes_atomic (target_of w) b)"
proof -
  note c = tmp_apart(3,4) [OF r w]
  have q: "target_of w \<in> written_places p" "with_tmp (target_of w) \<in> written_places p"
    using w by (auto simp: written_places_def)
  note m = midway_written [OF r _ q(1) c(2)] midway_written [OF r _ q(2) c(1)]
  have d: "keeps (midway env p s0) (make_dirs (butlast (target_of w)))"
    using orderlyD(2) [OF replayableD(1) [OF r] w] by (intro keeps_make_dirs target_dirs) blast
  show ?thesis
    unfolding write_bytes_atomic_def write_bytes_def rename_path_def unlink_path_def check_target_def read_bytes_def
    by (auto intro!: keeps_bind keeps_finally d keeps_disk_step m)
qed

lemma keeps_apply_write:
  assumes r: "replayable env p s0" and w: "w \<in> set (pp_writes p)"
  shows "keeps (midway env p s0) (apply_write env at w)"
proof -
  have "px_previous_path w \<noteq> Some (px_target_path w)"
    using replayableD(4) [OF r] w by (auto simp: quiet_plan_def list_all_iff overwrites_def)
  moreover have "resolve_desktop_path (px_target_path w) = Inr (target_of w)"
    using orderlyD(2) [OF replayableD(1) [OF r] w] by (simp add: plain_path_resolves)
  ultimately show ?thesis
    unfolding apply_write_def read_bytes_def
    by (auto intro!: keeps_bind keeps_write_bytes_atomic [OF r w] simp: ebind_lifted_value split: if_splits)
qed

text \<open>A file that is to be deleted is clean, so no conflict copy is made of it.\<close>

lemma midway_preserve:
  assumes "hash_at env s q = expected \<or> file_bytes s q = None"
  shows "preserve_dirty_pull_conflict_copy env i q rel expected at s = (Inr None, s)"
  using assms
  by (auto simp: preserve_dirty_pull_conflict_copy_def ebind_def read_bytes_def is_file_def hash_at_def split: option.splits)

lemma apply_delete_midway:
  assumes r: "replayable env p s0" and s: "midway env p s0 s" and x: "x \<in> set (pp_deletes p)"
  shows "apply_delete env at x s = (if file_bytes s (path_parts (pd_path x)) = None then (Inr [], s)
    else ebind (disk_step (del_bytes (path_parts (pd_path x)))) (\<lambda>_. eret [path_parts (pd_path x)]) s)"
proof -
  note d = orderlyD(3) [OF replayableD(1) [OF r] x]
  have n: "\<not> is_dir s (path_parts (pd_path x))" using midway_not_dir(1) [OF r s] source_is_file [OF r] d by blast
  show ?thesis
    using midway_preserve [OF midwayD(4) [OF s x]] n
    by (auto simp: apply_delete_def plain_path_resolves d ebind_def path_exists_def unlink_path_def)
qed

lemma midway_deleted:
  assumes r: "replayable env p s0" and s: "midway env p s0 s" and x: "x \<in> set (pp_deletes p)"
  shows "midway env p s0 (del_bytes (path_parts (pd_path x)) s)"
proof -
  note o = replayableD(1) [OF r]
  note d = orderlyD(3) [OF o x]
  have c: "clean_parts (path_parts (pd_path x))" using d by (simp add: plain_path_def)
  have t: "path_parts (pd_path x) \<in> touched p" using d by (auto simp: touched_def)
  have m: "path_parts (pm_source_path m) \<noteq> path_parts (pd_path x) \<and> path_parts (pm_target_path m) \<noteq> path_parts (pd_path x)
      \<and> clean_parts (path_parts (pm_source_path m)) \<and> clean_parts (path_parts (pm_target_path m))"
    if "m \<in> set (pp_moves p)" for m
    using orderly_cross(1) [OF o that x] quiet_places [OF r, of "pm_target_path m" "pd_path x"] d orderlyD(1) [OF o that]
    by (auto simp: plain_path_def)
  have y: "clean_parts (path_parts (pd_path y))" if "y \<in> set (pp_deletes p)" for y
    using orderlyD(3) [OF o that] by (simp add: plain_path_def)
  show ?thesis
    using s m t c y unfolding midway_def by (auto simp: hash_at_def desk_tree.tree_del)
qed

lemma keeps_apply_delete:
  assumes r: "replayable env p s0" and x: "x \<in> set (pp_deletes p)"
  shows "keeps (midway env p s0) (apply_delete env at x)"
proof (rule keepsI)
  fix s assume s: "midway env p s0 s"
  have k: "midway env p s0 (del_bytes (path_parts (pd_path x)) (set_power k s))" for k
    using midway_deleted [OF r _ x, of "set_power k s"] s by simp
  show "midway env p s0 (snd (apply_delete env at x s))"
    by (rule disk_step_cases [of "del_bytes (path_parts (pd_path x))" s])
      (simp_all add: apply_delete_midway [OF r s x] s k ebind_def)
qed


lemma move_places:
  assumes r: "replayable env p s0" and m: "m \<in> set (pp_moves p)"
  shows "x \<in> set (pp_deletes p) \<Longrightarrow> path_parts (pd_path x) \<noteq> path_parts (pm_source_path m)
      \<and> path_parts (pd_path x) \<noteq> path_parts (pm_target_path m)"
    and "m' \<in> set (pp_moves p) \<Longrightarrow> path_parts (pm_source_path m') \<noteq> path_parts (pm_target_path m)"
    and "m' \<in> set (pp_moves p) \<Longrightarrow> m' \<noteq> m \<Longrightarrow> path_parts (pm_source_path m') \<noteq> path_parts (pm_source_path m)
      \<and> path_parts (pm_target_path m') \<noteq> path_parts (pm_target_path m)"
    and "path_parts (pm_source_path m) \<in> touched p" "path_parts (pm_target_path m) \<in> touched p"
    and "clean_parts (path_parts (pm_source_path m))" "clean_parts (path_parts (pm_target_path m))"
proof -
  note o = replayableD(1) [OF r]
  note d = orderlyD(1) [OF o]
  show "x \<in> set (pp_deletes p) \<Longrightarrow> path_parts (pd_path x) \<noteq> path_parts (pm_source_path m)
      \<and> path_parts (pd_path x) \<noteq> path_parts (pm_target_path m)"
    using orderly_cross(1) [OF o m] quiet_places [OF r, of "pm_target_path m" "pd_path x"] d [OF m] orderlyD(3) [OF o]
    by metis
  show "m' \<in> set (pp_moves p) \<Longrightarrow> path_parts (pm_source_path m') \<noteq> path_parts (pm_target_path m)"
    using quiet_places [OF r, of "pm_target_path m" "pm_source_path m'"] d [OF m] d [of m'] by metis
  show "m' \<in> set (pp_moves p) \<Longrightarrow> m' \<noteq> m \<Longrightarrow> path_parts (pm_source_path m') \<noteq> path_parts (pm_source_path m)
      \<and> path_parts (pm_target_path m') \<noteq> path_parts (pm_target_path m)"
    using orderly_places(1,2) [OF o] m by (auto simp: distinct_map dest: inj_onD)
  show "path_parts (pm_source_path m) \<in> touched p" "path_parts (pm_target_path m) \<in> touched p"
    using d [OF m] by (simp_all add: touched_def)
  show "clean_parts (path_parts (pm_source_path m))" "clean_parts (path_parts (pm_target_path m))"
    using d [OF m] by (simp_all add: plain_path_def)
qed

lemma midway_moved:
  assumes r: "replayable env p s0" and s: "midway env p s0 s" and m: "m \<in> set (pp_moves p)"
    and b: "content_hash env b = pm_content_hash m"
  shows "midway env p s0 (put_bytes (path_parts (pm_target_path m)) b (del_bytes (path_parts (pm_source_path m)) s))"
    (is "midway env p s0 ?s'")
proof -
  let ?src = "\<lambda>m. path_parts (pm_source_path m)" and ?t = "\<lambda>m. path_parts (pm_target_path m)"
  note c = move_places(6,7) [OF r m]
  have e: "file_bytes ?s' q = (if q = ?t m then Some b else if q = ?src m then None else file_bytes s q)"
    if "clean_parts q" for q by (rule desk_tree.tree_move [OF c that])
  have mv: "hash_at env ?s' (?src m') = Some (pm_content_hash m')
      \<or> file_bytes ?s' (?src m') = None \<and> hash_at env ?s' (?t m') = Some (pm_content_hash m')" if m': "m' \<in> set (pp_moves p)" for m'
  proof (cases "m' = m")
    case True
    then show ?thesis using e c b move_places(2) [OF r m m] by (simp add: hash_at_def)
  next
    case False
    note n = move_places(3) [OF r m m' False] move_places(2) [OF r m m'] move_places(2) [OF r m' m] move_places(6,7) [OF r m']
    show ?thesis using midwayD(3) [OF s m'] n e by (auto simp: hash_at_def)
  qed
  have dl: "hash_at env ?s' (path_parts (pd_path x)) = pd_expected_content_hash x
      \<or> file_bytes ?s' (path_parts (pd_path x)) = None" if x: "x \<in> set (pp_deletes p)" for x
    using midwayD(4) [OF s x] move_places(1) [OF r m x] e orderlyD(3) [OF replayableD(1) [OF r] x]
    by (auto simp: hash_at_def plain_path_def)
  have "besides (reboot ?s') = besides (reboot s0)" "set (de_dirs ?s') \<subseteq> set (dirs_of_apply p s0)"
    "\<forall>q. clean_parts q \<and> q \<notin> touched p \<longrightarrow> file_bytes ?s' q = file_bytes s0 q"
    using s e move_places(4,5) [OF r m] by (auto simp: midway_def)
  with mv dl show ?thesis by (simp add: midway_def)
qed

lemma apply_move_midway:
  assumes r: "replayable env p s0" and s: "midway env p s0 s" and m: "m \<in> set (pp_moves p)"
  shows "apply_move env p at m s = (if file_bytes s (path_parts (pm_source_path m)) = None
    then (Inr (pm_file_id m, path_parts (pm_target_path m)), s)
    else ebind (ebind (make_dirs (butlast (path_parts (pm_target_path m))))
        (\<lambda>_. rename_path (path_parts (pm_source_path m)) (path_parts (pm_target_path m))))
      (\<lambda>_. eret (pm_file_id m, path_parts (pm_target_path m))) s)"
proof -
  note d = orderlyD(1) [OF replayableD(1) [OF r] m]
  have b: "\<not> is_blocking_move p m" using replayableD(4) [OF r] by (simp add: quiet_plan_def is_blocking_move_def)
  have n: "\<not> is_dir s (path_parts (pm_source_path m))"
    using midway_not_dir(1) [OF r s] source_is_file [OF r] d by blast
  show ?thesis
    using midwayD(3) [OF s m] d b n
    by (auto simp: apply_move_def already_moved_def plain_path_resolves ebind_lifted_value ebind_def path_exists_def
        read_bytes_def hash_at_def)
qed

lemma make_dirs_files: "file_bytes (snd (make_dirs ps s)) = file_bytes s"
  by (rule disk_step_cases [of "\<lambda>s. s\<lparr>de_dirs := de_dirs s @ filter (\<lambda>p. p \<notin> set (de_dirs s)) (prefixes ps)\<rparr>" s])
    (auto simp: make_dirs_def ebind_def split: option.splits)

lemma keeps_apply_move:
  assumes r: "replayable env p s0" and m: "m \<in> set (pp_moves p)"
  shows "keeps (midway env p s0) (apply_move env p at m)"
proof (rule keepsI)
  fix s assume s: "midway env p s0 s"
  let ?src = "path_parts (pm_source_path m)" and ?t = "path_parts (pm_target_path m)"
  have n: "\<not> is_dir s ?src"
    using midway_not_dir(1) [OF r s] source_is_file [OF r] orderlyD(1) [OF replayableD(1) [OF r] m] by blast
  show "midway env p s0 (snd (apply_move env p at m s))"
  proof (cases "file_bytes s ?src")
    case None
    then show ?thesis using s by (simp add: apply_move_midway [OF r s m])
  next
    case (Some b)
    obtain x s1 where s1: "make_dirs (butlast ?t) s = (x, s1)" by (cases "make_dirs (butlast ?t) s")
    have k: "midway env p s0 s1" "file_bytes s1 = file_bytes s"
      using keepsD [OF keeps_make_dirs s] target_dirs orderlyD(1) [OF replayableD(1) [OF r] m] s1 make_dirs_files
      by (metis snd_conv)+
    have h: "content_hash env b = pm_content_hash m" using midwayD(3) [OF s m] Some by (auto simp: hash_at_def)
    have rn: "midway env p s0 (snd (rename_path ?src ?t s1))"
      by (rule disk_step_cases [of "put_bytes ?t b \<circ> del_bytes ?src" s1])
        (auto simp: rename_path_def check_target_def read_bytes_def ebind_def k Some midway_moved [OF r _ m h])
    show ?thesis
      using Some s1 k rn by (cases "rename_path ?src ?t s1"; cases x)
        (auto simp: apply_move_midway [OF r s m] ebind_def split: sum.splits)
  qed
qed


section \<open>A replay goes through\<close>

lemma each_of_done:
  assumes "\<And>x s. x \<in> set xs \<Longrightarrow> I s \<Longrightarrow> \<exists>y s'. f x s = (Inr y, s') \<and> I s' \<and> D x s' \<and> (\<forall>z \<in> set xs. D z s \<longrightarrow> D z s')"
    and "I s"
  shows "\<exists>ys s'. each_of f xs s = (Inr ys, s') \<and> I s' \<and> (\<forall>x \<in> set xs. D x s')"
proof -
  have "\<exists>ys s'. each_of f zs s = (Inr ys, s') \<and> I s' \<and> (\<forall>x \<in> set zs \<union> {x \<in> set xs. D x s}. D x s')"
    if "set zs \<subseteq> set xs" "I s" for zs s
    using that
  proof (induction zs arbitrary: s)
    case (Cons z zs)
    obtain y s1 where y: "f z s = (Inr y, s1)" "I s1" "D z s1" "\<forall>x \<in> set xs. D x s \<longrightarrow> D x s1"
      using assms(1) [of z s] Cons.prems by auto
    obtain ys s' where "each_of f zs s1 = (Inr ys, s')" "I s'" "\<forall>x \<in> set zs \<union> {x \<in> set xs. D x s1}. D x s'"
      using Cons.IH [of s1] Cons.prems(1) y(2) by auto
    with y Cons.prems(1) show ?case by (auto simp: ebind_def)
  qed simp
  from this [of xs s] assms(2) show ?thesis by auto
qed

definition write_done :: "apply_env \<Rightarrow> pull_write \<Rightarrow> desk \<Rightarrow> bool" where
  "write_done env w s \<longleftrightarrow> hash_at env s (target_of w) = Some (px_content_hash w)
     \<and> file_bytes s (with_tmp (target_of w)) = None"

definition move_done :: "pull_move \<Rightarrow> desk \<Rightarrow> bool" where
  "move_done m s \<longleftrightarrow> file_bytes s (path_parts (pm_source_path m)) = None"

definition delete_done :: "pull_delete \<Rightarrow> desk \<Rightarrow> bool" where
  "delete_done x s \<longleftrightarrow> file_bytes s (path_parts (pd_path x)) = None"

lemma parents_free:
  assumes r: "replayable env p s0" and s: "midway env p s0 s" and t: "t \<in> set (plan_targets p)"
    and q: "q \<in> set (prefixes (butlast (path_parts t)))"
  shows "file_bytes s q = None"
proof -
  have d: "q \<in> set (dirs_of_apply p s0)" using target_dirs [OF t] q by blast
  have c: "clean_parts q"
    using prefixes_clean q orderly_plain [OF replayableD(1) [OF r]] t by (auto simp: plain_path_def)
  have nf: "q \<notin> set (files_of_apply p s0)"
    using replayableD(3) [OF r] d by (auto simp: room_to_apply_def list_all_iff)
  have "q \<notin> touched p"
    using nf d target_is_file [of _ p s0] source_is_file [OF r] tmp_apart(1) [OF r]
      orderlyD(2) [OF replayableD(1) [OF r]] by (auto simp: touched_def written_places_def)
  then have "file_bytes s q = file_bytes s0 q" using midwayD(2) [OF s c] by simp
  moreover have "file_bytes s0 q = None"
    using file_paths_complete [OF c, of s0] nf by (auto simp: files_of_apply_def)
  ultimately show ?thesis by simp
qed

lemma midway_staged:
  assumes r: "replayable env p s0" and s: "midway env p s0 s" and w: "w \<in> set (pp_writes p)"
  obtains b where "file_bytes s (staged_parts (px_file_id w)) = Some b" "content_hash env b = px_content_hash w"
proof -
  note o = replayableD(1) [OF r]
  note d = orderlyD(2) [OF o w]
  have c: "clean_parts (staged_parts (px_file_id w))" using d staged_parts_clean by simp
  have "staged_parts (px_file_id w) \<in> set (files_of_apply p s0)" using d by (simp add: files_of_apply_def)
  then have "staged_parts (px_file_id w) \<notin> touched p"
    using orderly_plain [OF o] plain_not_staged [of _ "px_file_id w"] tmp_apart(2) [OF r] orderlyD(2) [OF o]
    by (fastforce simp: touched_def written_places_def)
  then have "hash_at env s (staged_parts (px_file_id w)) = Some (px_content_hash w)"
    using midwayD(2) [OF s c] replayableD(2) [OF r] w by (simp add: settled_def list_all_iff hash_at_def)
  with that show thesis by (auto simp: hash_at_def)
qed

abbreviation on_track :: "apply_env \<Rightarrow> pull_plan \<Rightarrow> desk \<Rightarrow> desk \<Rightarrow> bool" where
  "on_track env p s0 s \<equiv> midway env p s0 s \<and> powered s"

lemma write_on_track:
  assumes r: "replayable env p s0" and s: "on_track env p s0 s" and w: "w \<in> set (pp_writes p)"
  shows "\<exists>y s'. apply_write env at w s = (Inr y, s') \<and> on_track env p s0 s' \<and> write_done env w s'
    \<and> (\<forall>q. clean_parts q \<and> q \<noteq> target_of w \<and> q \<noteq> with_tmp (target_of w) \<longrightarrow> file_bytes s' q = file_bytes s q)"
proof -
  have m: "midway env p s0 s" and on: "powered s" using s by simp_all
  let ?t = "target_of w"
  note d = orderlyD(2) [OF replayableD(1) [OF r] w] and c = tmp_apart [OF r w]
  have t: "px_target_path w \<in> set (plan_targets p)" using d by simp
  have np: "?t \<notin> set (prefixes (butlast ?t))" "with_tmp ?t \<notin> set (prefixes (butlast ?t))"
    using target_dirs [OF t, of s0] c(1) replayableD(3) [OF r] target_is_file [OF t, of s0]
    by (auto simp: room_to_apply_def list_all_iff)
  have free: "\<forall>q \<in> set (prefixes (butlast ?t)). file_bytes s q = None" using parents_free [OF r m t] by blast
  obtain b where b: "file_bytes s (staged_parts (px_file_id w)) = Some b" "content_hash env b = px_content_hash w"
    by (rule midway_staged [OF r m w])
  obtain s' where s': "write_bytes_atomic ?t b s = (Inr (), s')" "besides s' = besides s"
    "\<And>q. clean_parts q \<Longrightarrow> file_bytes s' q = (if q = ?t then Some b else if q = with_tmp ?t then None else file_bytes s q)"
    using write_bytes_atomic_ok [OF on c(4,5) free midway_not_dir(1) [OF r m target_is_file [OF t]]
        midway_not_dir(2) [OF r m w] np, of b] by metis
  have "px_previous_path w \<noteq> Some (px_target_path w)"
    using replayableD(4) [OF r] w by (auto simp: quiet_plan_def list_all_iff overwrites_def)
  then have a: "apply_write env at w s = (Inr (px_file_id w, ?t), s')"
    using d b s'(1) by (simp add: apply_write_def plain_path_resolves staging_path_parts(2) ebind_def is_file_def read_bytes_def)
  have "midway env p s0 s'" using keepsD [OF keeps_apply_write [OF r w] m, of at] a by simp
  moreover have "write_done env w s'" using s'(3) c(3,4) b(2) by (simp add: write_done_def hash_at_def c(5))
  ultimately show ?thesis using a s'(3) on powered_besides [OF s'(2)] by auto
qed

lemma move_on_track:
  assumes r: "replayable env p s0" and s: "on_track env p s0 s" and m: "m \<in> set (pp_moves p)"
  shows "\<exists>y s'. apply_move env p at m s = (Inr y, s') \<and> on_track env p s0 s' \<and> move_done m s'
    \<and> (\<forall>q. clean_parts q \<and> q \<noteq> path_parts (pm_source_path m) \<and> q \<noteq> path_parts (pm_target_path m) \<longrightarrow>
        file_bytes s' q = file_bytes s q)"
proof -
  let ?src = "path_parts (pm_source_path m)" and ?t = "path_parts (pm_target_path m)"
  have mw: "midway env p s0 s" and on: "powered s" using s by simp_all
  note d = orderlyD(1) [OF replayableD(1) [OF r] m]
  show ?thesis
  proof (cases "file_bytes s ?src")
    case None
    then show ?thesis using s by (simp add: apply_move_midway [OF r mw m] move_done_def)
  next
    case (Some b)
    have t: "pm_target_path m \<in> set (plan_targets p)" using d by simp
    have free: "\<forall>q \<in> set (prefixes (butlast ?t)). file_bytes s q = None" using parents_free [OF r mw t] by blast
    obtain ds where ds: "make_dirs (butlast ?t) s = (Inr (), s\<lparr>de_dirs := ds\<rparr>)"
      "set ds = set (de_dirs s) \<union> set (prefixes (butlast ?t))" by (rule make_dirs_ok [OF on free])
    let ?s = "s\<lparr>de_dirs := ds\<rparr>"
    have "midway env p s0 ?s"
      using keepsD [OF keeps_make_dirs [OF target_dirs [OF t]] mw] ds(1) by (metis snd_conv)
    then have nd: "\<not> is_dir ?s ?t" by (rule midway_not_dir(1) [OF r]) (rule target_is_file [OF t])
    have "is_dir ?s (butlast ?t)" using ds(2) prefixes_self [of "butlast ?t"] by (auto simp: is_dir_def)
    then have "rename_path ?src ?t ?s = (Inr (), put_bytes ?t b (del_bytes ?src ?s))"
      using on Some nd by (intro rename_path_ok) auto
    then have a: "apply_move env p at m s = (Inr (pm_file_id m, ?t), put_bytes ?t b (del_bytes ?src ?s))"
      using Some ds(1) by (simp add: apply_move_midway [OF r mw m] ebind_def)
    have e: "file_bytes (put_bytes ?t b (del_bytes ?src ?s)) q
        = (if q = ?t then Some b else if q = ?src then None else file_bytes s q)" if "clean_parts q" for q
      using desk_tree.tree_move [OF move_places(6,7) [OF r m] that] by simp
    have "midway env p s0 (put_bytes ?t b (del_bytes ?src ?s))"
      using keepsD [OF keeps_apply_move [OF r m] mw, of at] a by simp
    then show ?thesis
      using a e on move_places(2) [OF r m m] move_places(6) [OF r m] by (simp add: move_done_def)
  qed
qed

lemma delete_on_track:
  assumes r: "replayable env p s0" and s: "on_track env p s0 s" and x: "x \<in> set (pp_deletes p)"
  shows "\<exists>y s'. apply_delete env at x s = (Inr y, s') \<and> on_track env p s0 s' \<and> delete_done x s'
    \<and> (\<forall>q. clean_parts q \<and> q \<noteq> path_parts (pd_path x) \<longrightarrow> file_bytes s' q = file_bytes s q)"
proof -
  have mw: "midway env p s0 s" and on: "powered s" using s by simp_all
  have c: "clean_parts (path_parts (pd_path x))"
    using orderlyD(3) [OF replayableD(1) [OF r] x] by (simp add: plain_path_def)
  show ?thesis
    using s on c midway_deleted [OF r mw x]
    by (cases "file_bytes s (path_parts (pd_path x))")
       (auto simp: apply_delete_midway [OF r mw x] ebind_def delete_done_def desk_tree.tree_del)
qed


lemma with_tmp_inj: "p \<noteq> [] \<Longrightarrow> q \<noteq> [] \<Longrightarrow> with_tmp p = with_tmp q \<longleftrightarrow> p = q"
  by (cases p rule: rev_cases; cases q rule: rev_cases) (auto simp: with_tmp_def)

lemma quiet_loops:
  assumes "quiet_plan p"
  shows "each_of (stage_blocking_move env p at) ms s = (Inr (map (\<lambda>_. ()) ms), s)"
    "each_of (apply_delete env at) (filter (\<lambda>x. pd_path x \<in> blocking p) xs) s = (Inr [], s)"
    "filter (\<lambda>x. pd_path x \<notin> blocking p) xs = xs"
proof -
  have b: "pp_blocking_paths p = []" using assms by (simp add: quiet_plan_def)
  then show "each_of (stage_blocking_move env p at) ms s = (Inr (map (\<lambda>_. ()) ms), s)"
    by (induction ms) (simp_all add: stage_blocking_move_def is_blocking_move_def ebind_def)
  show "each_of (apply_delete env at) (filter (\<lambda>x. pd_path x \<in> blocking p) xs) s = (Inr [], s)"
    "filter (\<lambda>x. pd_path x \<notin> blocking p) xs = xs" using b by simp_all
qed

lemma keeps_materialize:
  assumes r: "replayable env p s0"
  shows "keeps (midway env p s0) (materialize_plan env p at)"
proof -
  note q = quiet_loops [OF replayableD(4) [OF r]]
  have "keeps (midway env p s0) (each_of (stage_blocking_move env p at) (pp_moves p))"
    "keeps (midway env p s0) (each_of (apply_delete env at) (filter (\<lambda>x. pd_path x \<in> blocking p) (pp_deletes p)))"
    by (simp_all add: keeps_def q)
  moreover have "keeps (midway env p s0) (each_of (apply_write env at) (pp_writes p))"
    "keeps (midway env p s0) (each_of (apply_move env p at) (pp_moves p))"
    "keeps (midway env p s0) (each_of (apply_delete env at) (pp_deletes p))"
    using keeps_apply_write [OF r] keeps_apply_move [OF r] keeps_apply_delete [OF r] by (auto intro: keeps_each)
  ultimately show ?thesis
    unfolding materialize_plan_def q(3) by (auto intro!: keeps_bind)
qed

text \<open>What is done stays done.\<close>

lemma write_done_kept:
  assumes r: "replayable env p s0" and w: "w \<in> set (pp_writes p)"
    and f: "\<And>q. clean_parts q \<Longrightarrow> q \<in> written_places p \<Longrightarrow> file_bytes s' q = file_bytes s q"
  shows "write_done env w s \<Longrightarrow> write_done env w s'"
  using f tmp_apart(3,4) [OF r w] w by (auto simp: write_done_def hash_at_def written_places_def)

lemma write_done_other:
  assumes r: "replayable env p s0" and w: "w \<in> set (pp_writes p)" "z \<in> set (pp_writes p)"
    and f: "\<forall>q. clean_parts q \<and> q \<noteq> target_of w \<and> q \<noteq> with_tmp (target_of w) \<longrightarrow> file_bytes s' q = file_bytes s q"
    and d: "write_done env w s'" "write_done env z s"
  shows "write_done env z s'"
proof (cases "target_of z = target_of w")
  case True
  then have "z = w" using orderly_places(3) [OF replayableD(1) [OF r]] w by (auto simp: distinct_map dest: inj_onD)
  then show ?thesis using d(1) by simp
next
  case False
  note t = target_is_file [of _ p s0] orderlyD(2) [OF replayableD(1) [OF r]]
  have "target_of z \<noteq> with_tmp (target_of w)" "with_tmp (target_of z) \<noteq> target_of w"
    using tmp_apart(2) [OF r] t w by metis+
  moreover have "with_tmp (target_of z) \<noteq> with_tmp (target_of w)"
    using False with_tmp_inj tmp_apart(5) [OF r] w by simp
  ultimately show ?thesis
    using f d(2) False tmp_apart(3,4) [OF r w(2)] by (simp add: write_done_def hash_at_def)
qed

lemma replayed:
  assumes r: "replayable env p s0" and s: "on_track env p s0 s"
  obtains y s' where "materialize_plan env p at s = (Inr y, s')" "on_track env p s0 s'"
    "\<forall>w \<in> set (pp_writes p). write_done env w s'" "\<forall>m \<in> set (pp_moves p). move_done m s'"
    "\<forall>x \<in> set (pp_deletes p). delete_done x s'"
proof -
  note o = replayableD(1) [OF r] and q = quiet_loops [OF replayableD(4) [OF r]]
  let ?W = "\<lambda>s. on_track env p s0 s \<and> (\<forall>w \<in> set (pp_writes p). write_done env w s)"
  let ?M = "\<lambda>s. ?W s \<and> (\<forall>m \<in> set (pp_moves p). move_done m s)"
  have "\<exists>ys s'. each_of (apply_write env at) (pp_writes p) s = (Inr ys, s') \<and> on_track env p s0 s'
      \<and> (\<forall>w \<in> set (pp_writes p). write_done env w s')"
  proof (rule each_of_done)
    fix w s1 assume w: "w \<in> set (pp_writes p)" and s1: "on_track env p s0 s1"
    from write_on_track [OF r s1 w] write_done_other [OF r w]
    show "\<exists>y s'. apply_write env at w s1 = (Inr y, s') \<and> on_track env p s0 s' \<and> write_done env w s'
        \<and> (\<forall>z \<in> set (pp_writes p). write_done env z s1 \<longrightarrow> write_done env z s')" by metis
  qed (rule s)
  then obtain ys1 s1 where 1: "each_of (apply_write env at) (pp_writes p) s = (Inr ys1, s1)" "?W s1" by blast
  have "\<exists>ys s'. each_of (apply_move env p at) (pp_moves p) s1 = (Inr ys, s') \<and> ?W s' \<and> (\<forall>m \<in> set (pp_moves p). move_done m s')"
  proof (rule each_of_done [where I = ?W])
    fix m s2 assume m: "m \<in> set (pp_moves p)" and s2: "?W s2"
    obtain y s' where y: "apply_move env p at m s2 = (Inr y, s')" "on_track env p s0 s'" "move_done m s'"
      "\<forall>q. clean_parts q \<and> q \<noteq> path_parts (pm_source_path m) \<and> q \<noteq> path_parts (pm_target_path m) \<longrightarrow>
        file_bytes s' q = file_bytes s2 q" using move_on_track [OF r conjunct1 [OF s2] m] by blast
    have "\<forall>w \<in> set (pp_writes p). write_done env w s'"
      using s2 y(4) places_apart(1) [OF r _ m] by (blast intro: write_done_kept [OF r])
    moreover have "\<forall>z \<in> set (pp_moves p). move_done z s2 \<longrightarrow> move_done z s'"
      using y(3,4) move_places(2,3) [OF r m] move_places(6) [OF r] by (metis move_done_def)
    ultimately show "\<exists>y s'. apply_move env p at m s2 = (Inr y, s') \<and> ?W s' \<and> move_done m s'
        \<and> (\<forall>z \<in> set (pp_moves p). move_done z s2 \<longrightarrow> move_done z s')" using y by blast
  qed (rule 1(2))
  then obtain ys2 s2 where 2: "each_of (apply_move env p at) (pp_moves p) s1 = (Inr ys2, s2)" "?M s2" by blast
  have "\<exists>ys s'. each_of (apply_delete env at) (pp_deletes p) s2 = (Inr ys, s') \<and> ?M s' \<and> (\<forall>x \<in> set (pp_deletes p). delete_done x s')"
  proof (rule each_of_done [where I = ?M])
    fix x s3 assume x: "x \<in> set (pp_deletes p)" and s3: "?M s3"
    obtain y s' where y: "apply_delete env at x s3 = (Inr y, s')" "on_track env p s0 s'" "delete_done x s'"
      "\<forall>q. clean_parts q \<and> q \<noteq> path_parts (pd_path x) \<longrightarrow> file_bytes s' q = file_bytes s3 q"
      using delete_on_track [OF r conjunct1 [OF conjunct1 [OF s3]] x] by blast
    have "\<forall>w \<in> set (pp_writes p). write_done env w s'"
      using s3 y(4) places_apart(2) [OF r _ x] by (blast intro: write_done_kept [OF r])
    moreover have "\<forall>m \<in> set (pp_moves p). move_done m s'"
      using s3 y(4) move_places(1) [OF r _ x] move_places(6) [OF r] by (metis move_done_def)
    moreover have "\<forall>z \<in> set (pp_deletes p). delete_done z s3 \<longrightarrow> delete_done z s'"
      using y(3,4) orderlyD(3) [OF o] by (metis delete_done_def plain_path_def)
    ultimately show "\<exists>y s'. apply_delete env at x s3 = (Inr y, s') \<and> ?M s' \<and> delete_done x s'
        \<and> (\<forall>z \<in> set (pp_deletes p). delete_done z s3 \<longrightarrow> delete_done z s')" using y by blast
  qed (rule 2(2))
  then obtain ys3 s3 where 3: "each_of (apply_delete env at) (pp_deletes p) s2 = (Inr ys3, s3)" "?M s3"
    "\<forall>x \<in> set (pp_deletes p). delete_done x s3" by blast
  have "materialize_plan env p at s = (Inr (ys1, ys2, concat ys3), s3)"
    unfolding materialize_plan_def using q 1(1) 2(1) 3(1) by (simp add: ebind_def)
  with 3 show thesis by (intro that) blast+
qed

lemma replay_effect:
  assumes r: "replayable env p s0" and s: "on_track env p s0 s"
    and d: "\<forall>w \<in> set (pp_writes p). write_done env w s" "\<forall>m \<in> set (pp_moves p). move_done m s"
      "\<forall>x \<in> set (pp_deletes p). delete_done x s"
    and q: "plain_path q"
  shows "hash_at env s (path_parts q) = plan_effect p (\<lambda>q. hash_at env s0 (path_parts q)) q"
proof (cases "target_hash p q")
  case (Some h)
  then consider w where "w \<in> set (pp_writes p)" "px_target_path w = q" "px_content_hash w = h"
    | m where "m \<in> set (pp_moves p)" "pm_target_path m = q" "pm_content_hash m = h"
    unfolding target_hash_Some [OF replayableD(1) [OF r]] by auto
  then have "hash_at env s (path_parts q) = Some h"
  proof cases
    case 1
    then show ?thesis using d(1) by (auto simp: write_done_def)
  next
    case 2
    then show ?thesis using d(2) midwayD(3) [OF conjunct1 [OF s] 2(1)] by (auto simp: move_done_def hash_at_def)
  qed
  with Some show ?thesis by (simp add: plan_effect_def)
next
  case None
  then have nt: "q \<notin> set (plan_targets p)" by (metis target_hash_None)
  note o = replayableD(1) [OF r]
  show ?thesis
  proof (cases "q \<in> set (plan_sources p)")
    case True
    then have "file_bytes s (path_parts q) = None"
      using d(2,3) by (auto simp: plan_sources_def move_done_def delete_done_def)
    with True None show ?thesis by (simp add: plan_effect_def hash_at_def)
  next
    case False
    have c: "clean_parts (path_parts q)" using q by (simp add: plain_path_def)
    have e: "file_bytes s (path_parts q) = file_bytes s0 (path_parts q)"
    proof (cases "path_parts q \<in> (with_tmp \<circ> target_of) ` set (pp_writes p)")
      case True
      then obtain w where w: "w \<in> set (pp_writes p)" "path_parts q = with_tmp (target_of w)" by auto
      then have "file_bytes s0 (path_parts q) = None"
        using tmp_apart(2) [OF r w(1)] file_paths_complete [OF c, of s0] by (auto simp: files_of_apply_def)
      then show ?thesis using w d(1) by (auto simp: write_done_def)
    next
      case other: False
      have "path_parts q \<notin> touched p"
        using other nt False q orderly_plain [OF o] orderlyD(2) [OF o]
        by (auto simp: touched_def written_places_def plain_path_inj)
      then show ?thesis using midwayD(2) [OF conjunct1 [OF s] c] by simp
    qed
    with False None show ?thesis by (simp add: plan_effect_def hash_at_def)
  qed
qed


section \<open>Finishing a replay\<close>

lemma same_store:
  assumes "besides (reboot s) = besides (reboot t)"
  shows "cl_filemap (de_client s) = cl_filemap (de_client t)" "cl_vault_state (de_client s) = cl_vault_state (de_client t)"
    "cl_apply_journal (de_client s) = cl_apply_journal (de_client t)" "cl_ledger (de_client s) = cl_ledger (de_client t)"
    "de_plan s = de_plan t"
proof -
  have e: "(de_client s)\<lparr>cl_power := None, cl_staging := []\<rparr> = (de_client t)\<lparr>cl_power := None, cl_staging := []\<rparr>"
    "de_plan s = de_plan t"
    using assms by (simp_all add: besides_def set_power_def)
  show "cl_filemap (de_client s) = cl_filemap (de_client t)" using arg_cong [OF e(1), of cl_filemap] by simp
  show "cl_vault_state (de_client s) = cl_vault_state (de_client t)" using arg_cong [OF e(1), of cl_vault_state] by simp
  show "cl_apply_journal (de_client s) = cl_apply_journal (de_client t)" using arg_cong [OF e(1), of cl_apply_journal] by simp
  show "cl_ledger (de_client s) = cl_ledger (de_client t)" using arg_cong [OF e(1), of cl_ledger] by simp
  show "de_plan s = de_plan t" by (rule e(2))
qed

text \<open>The tables and files the recovery reads.\<close>

definition store_ready :: "apply_env \<Rightarrow> vault_state \<Rightarrow> desk \<Rightarrow> bool" where
  "store_ready env st s \<longleftrightarrow>
     (case load_filemap (de_client s) of Inl _ \<Rightarrow> False | Inr d \<Rightarrow> fd_vault_id d = ae_vault_id env)
     \<and> load_vault_state (ae_vault_id env) (de_client s) = Inr (Some st) \<and> vs_vault_id st = ae_vault_id env
     \<and> (case cl_ledger (de_client s) of None \<Rightarrow> True
        | Some ls \<Rightarrow> (case read_ledger 0 ls of Inl _ \<Rightarrow> False | Inr (_, rewrite) \<Rightarrow> \<not> rewrite))"

lemma store_ready_same: "besides (reboot s) = besides (reboot t) \<Longrightarrow> store_ready env st s = store_ready env st t"
  by (simp add: store_ready_def load_filemap_def load_vault_state_def same_store [of s t])

lemma in_store_read [simp]: "in_store (eread g) s = (case g (de_client s) of Inl e \<Rightarrow> (Inl e, s) | Inr x \<Rightarrow> (Inr x, s))"
  by (simp add: in_store_def eread_def split: sum.splits)

lemma load_desk_snapshot_ready:
  assumes "store_ready env st s"
  obtains sn where "in_store (load_desk_snapshot env) s = (Inr sn, s)"
proof -
  from assms obtain d where d: "load_filemap (de_client s) = Inr d" "fd_vault_id d = ae_vault_id env"
    "load_vault_state (ae_vault_id env) (de_client s) = Inr (Some st)" "vs_vault_id st = ae_vault_id env"
    by (auto simp: store_ready_def split: sum.splits)
  obtain ts where "load_tombstone_ledger True (de_client s) = (Inr ts, de_client s)"
    using assms by (auto simp: store_ready_def load_tombstone_ledger_def ebind_def split: option.splits sum.splits)
  then have "load_desk_snapshot env (de_client s) = (Inr \<lparr>dn_document = d, dn_state = st, dn_tombstones = ts\<rparr>, de_client s)"
    using d by (simp add: load_desk_snapshot_def ebind_def require_matching_vault_def)
  then show thesis by (intro that) (simp add: in_store_def)
qed

text \<open>The staging files are no files of the workspace.\<close>

lemma plain_not_staging: "plain_path q \<Longrightarrow> staging_name (path_parts q) = None"
  by (cases "path_parts q") (auto simp: plain_path_def staging_name_def NOTEAPP_DIRNAME_def)

lemma cleanup_staging_ok:
  assumes "cl_power c = None"
  obtains xs c' where "cleanup_pull_apply_staging_artifacts c = (Inr xs, c')" "cl_power c' = None"
    "c'\<lparr>cl_staging := []\<rparr> = c\<lparr>cl_staging := []\<rparr>"
proof -
  define f where "f = (\<lambda>n. ebind (unlink_staging n) (\<lambda>_. eret n))"
  have f: "cl_power c = None \<Longrightarrow> f n c = (Inr n, c\<lparr>cl_staging := filter (\<lambda>(n', _). n' \<noteq> n) (cl_staging c)\<rparr>)" for n c
    by (simp add: f_def ebind_def unlink_staging_def persist_def)
  have "\<exists>xs c'. each f ns c = (Inr xs, c') \<and> cl_power c' = None \<and> c'\<lparr>cl_staging := []\<rparr> = c\<lparr>cl_staging := []\<rparr>" for ns
    using assms
  proof (induction ns arbitrary: c)
    case (Cons n ns)
    let ?c = "c\<lparr>cl_staging := filter (\<lambda>(n', _). n' \<noteq> n) (cl_staging c)\<rparr>"
    have "cl_power ?c = None" using Cons.prems by simp
    from Cons.IH [OF this] obtain xs c' where "each f ns ?c = (Inr xs, c')" "cl_power c' = None"
      "c'\<lparr>cl_staging := []\<rparr> = ?c\<lparr>cl_staging := []\<rparr>" by blast
    then show ?case using f [OF Cons.prems] by (simp add: ebind_def)
  qed simp
  from this [of "filter is_pull_staging_name (map fst (staged_files c))"] that show thesis
    by (auto simp: cleanup_pull_apply_staging_artifacts_def ebind_def eget_def o_def f_def)
qed

lemma finalize_ok:
  assumes on: "powered s" and j: "apply_journal_for env p s j" "aj_phase j = ''materializing''" and x: "ax_journal ex \<noteq> None"
    and st: "load_vault_state (ae_vault_id env) (de_client s) = Inr (Some st)"
    and st': "apply_manifest_reconciled_state st (pp_revision p) (aj_target_manifest_hash j) = Inr st'" and at: "0 \<le> at"
  obtains f s' where "finalize_applied_pull_plan env p ex at s = (Inr (Some f), s')" "fz_state f = st'"
    "cl_apply_journal (de_client s') (ae_vault_id env) = None"
    "\<forall>q. plain_path q \<longrightarrow> file_bytes s' (path_parts q) = file_bytes s (path_parts q)"
proof -
  let ?v = "ae_vault_id env"
  let ?j1 = "j\<lparr>aj_phase := ''filemap_rewrite'', aj_updated_at := at\<rparr>" and ?j2 = "j\<lparr>aj_phase := ''finalizing'', aj_updated_at := at\<rparr>"
  have v: "aj_vault_id j = ?v" "pp_vault_id p = ?v" "aj_target_revision j = pp_revision p"
    "load_sync_apply_journal ?v (de_client s) = Inr (Some j)" using j(1) by (simp_all add: apply_journal_for_def)
  then have w: "wf_apply_journal j" by (auto simp: load_sync_apply_journal_def result_simps split: option.splits)
  have c: "SyncApplyJournalRecord ?j1 = Inr ?j1" "SyncApplyJournalRecord ?j2 = Inr ?j2"
    using w at by (simp_all add: result_simps wf_apply_journal_iff VALID_SYNC_APPLY_PHASES_def)
  let ?s1 = "s\<lparr>de_client := put_apply_journal ?j1 (de_client s)\<rparr>"
  let ?s2 = "?s1\<lparr>de_client := put_apply_journal ?j2 (de_client ?s1)\<rparr>"
  let ?s3 = "?s2\<lparr>de_client := (del_apply_journal ?v \<circ> put_vault_state st') (de_client ?s2)\<rparr>"
  have p1: "powered ?s1" "powered ?s2" using on by (simp_all add: powered_def put_apply_journal_def)
  have u: "in_store (upsert_sync_apply_journal ?j1) s = (Inr (), ?s1)" "in_store (upsert_sync_apply_journal ?j2) ?s1 = (Inr (), ?s2)"
    using in_store_on on p1 by (simp_all add: upsert_sync_apply_journal_def)
  have ld: "load_vault_state ?v (de_client ?s2) = Inr (Some st)" "load_sync_apply_journal ?v (de_client ?s2) = Inr (Some ?j2)"
    using st c(2) v(1) by (simp_all add: load_vault_state_def load_sync_apply_journal_def put_apply_journal_def)
  have po: "cl_power (de_client ?s2) = None" using p1(2) by (simp add: powered_def)
  have r: "in_store (recover_sync_apply_finalizing_state ?v) ?s2 = (Inr st', ?s3)"
    using ld st' v(3) po
    by (simp add: in_store_def recover_sync_apply_finalizing_state_def ebind_def both_exist_def
        apply_sync_finalizing_recovery_def persist_def)
  have "cl_power (de_client ?s3) = None" using po by (simp add: del_apply_journal_def put_vault_state_def)
  then obtain xs c' where k: "cleanup_pull_apply_staging_artifacts (de_client ?s3) = (Inr xs, c')" "cl_power c' = None"
    "c'\<lparr>cl_staging := []\<rparr> = (de_client ?s3)\<lparr>cl_staging := []\<rparr>" by (rule cleanup_staging_ok)
  let ?s4 = "?s3\<lparr>de_client := c'\<rparr>"
  have i: "in_store cleanup_pull_apply_staging_artifacts ?s3 = (Inr xs, ?s4)" using k(1) by (simp add: in_store_def)
  have p4: "powered ?s4" using k(2) by (simp add: powered_def)
  obtain b s5 where s5: "cleanup_pull_apply_plan_file ?s4 = (Inr b, s5)" "de_client s5 = c'" "de_files s5 = de_files s"
  proof (cases "de_plan ?s4")
    case None
    then show thesis by (intro that [of False ?s4]) (simp_all add: cleanup_pull_apply_plan_file_def ebind_def)
  next
    case (Some y)
    then show thesis using p4
      by (intro that [of True "?s4\<lparr>de_plan := None\<rparr>"]) (simp_all add: cleanup_pull_apply_plan_file_def ebind_def)
  qed
  obtain y where y: "ax_journal ex = Some y" using x by auto
  have "finalize_applied_pull_plan env p ex at s = (Inr (Some \<lparr>fz_state = st', fz_removed_staging_paths = xs, fz_removed_plan = b\<rparr>), s5)"
    using v j(2) c u r i s5(1) by (simp add: finalize_applied_pull_plan_def y ebind_def)
  moreover have "cl_apply_journal c' = cl_apply_journal (de_client ?s3)" using arg_cong [OF k(3), of cl_apply_journal] by simp
  then have "cl_apply_journal (de_client s5) ?v = None" by (simp add: s5(2) del_apply_journal_def)
  moreover have "file_bytes s5 (path_parts q) = file_bytes s (path_parts q)" if "plain_path q" for q
    using plain_not_staging [OF that] by (simp add: file_bytes_def s5(3))
  ultimately show thesis by (intro that) auto
qed


section \<open>Recovering an interrupted application\<close>

definition put_journal :: "apply_journal \<Rightarrow> desk \<Rightarrow> desk" where
  "put_journal j s = s\<lparr>de_client := put_apply_journal j (de_client s)\<rparr>"

lemma put_journal_frame [simp]: "file_bytes (put_journal j s) = file_bytes s" "de_dirs (put_journal j s) = de_dirs s"
    "de_plan (put_journal j s) = de_plan s" "powered (put_journal j s) = powered s" "file_paths (put_journal j s) = file_paths s"
    "cl_vault_state (de_client (put_journal j s)) = cl_vault_state (de_client s)"
    "cl_filemap (de_client (put_journal j s)) = cl_filemap (de_client s)"
    "cl_ledger (de_client (put_journal j s)) = cl_ledger (de_client s)"
    "cl_apply_journal (de_client (put_journal j s)) = (cl_apply_journal (de_client s))(aj_vault_id j \<mapsto> j)"
  by (simp_all add: put_journal_def put_apply_journal_def file_bytes_def file_paths_def powered_def fun_eq_iff split: option.splits)

lemma besides_journal: "besides (reboot s) = besides (reboot t) \<Longrightarrow>
    besides (reboot (put_journal j s)) = besides (reboot (put_journal j t))"
proof -
  assume a: "besides (reboot s) = besides (reboot t)"
  have "besides (reboot (put_journal j s)) = (put_apply_journal j (fst (besides (reboot s))), snd (besides (reboot s)))" for s
    by (simp add: besides_def set_power_def put_journal_def put_apply_journal_def)
  with a show ?thesis by metis
qed

lemma midway_journal: "midway env p s0 s \<Longrightarrow> midway env p (put_journal j s0) (put_journal j s)"
  using besides_journal [of s s0 j] unfolding midway_def by (simp add: hash_at_def dirs_of_apply_def)

lemma replayable_journal: "replayable env p s \<Longrightarrow> replayable env p (put_journal j s)"
  by (simp add: replayable_def settled_def hash_at_def room_to_apply_def files_of_apply_def dirs_of_apply_def)

definition journal_ready :: "apply_env \<Rightarrow> pull_plan \<Rightarrow> desk \<Rightarrow> apply_journal \<Rightarrow> bool" where
  "journal_ready env p s j \<longleftrightarrow> apply_journal_for env p s j \<and> aj_ops_hash j = Some (pp_ops_hash p)
     \<and> aj_phase j \<in> {''staging'', ''materializing''}"

lemma upsert_journal:
  "powered s \<Longrightarrow> in_store (upsert_sync_apply_journal j) s = (Inr (), put_journal j s)"
  by (simp add: upsert_sync_apply_journal_def in_store_on put_journal_def)

lemma apply_journal_loads:
  "apply_journal_for env p s j \<Longrightarrow> wf_apply_journal j \<and> aj_vault_id j = ae_vault_id env \<and> pp_vault_id p = ae_vault_id env
     \<and> aj_target_revision j = pp_revision p \<and> load_sync_apply_journal (ae_vault_id env) (de_client s) = Inr (Some j)"
  by (auto simp: apply_journal_for_def load_sync_apply_journal_def result_simps split: option.splits)

abbreviation begun :: "apply_journal \<Rightarrow> pull_plan \<Rightarrow> int \<Rightarrow> apply_journal" where
  "begun j p at \<equiv> j\<lparr>aj_phase := ''materializing'', aj_ops_hash := Some (pp_ops_hash p), aj_updated_at := at\<rparr>"

lemma begun_journal:
  assumes "apply_journal_for env p s j" "0 \<le> at"
  shows "SyncApplyJournalRecord (begun j p at) = Inr (begun j p at)"
    "apply_journal_for env p (put_journal (begun j p at) t) (begun j p at)"
proof -
  show c: "SyncApplyJournalRecord (begun j p at) = Inr (begun j p at)"
    using apply_journal_loads [OF assms(1)] assms(2)
    by (auto simp: result_simps wf_apply_journal_iff VALID_SYNC_APPLY_PHASES_def)
  show "apply_journal_for env p (put_journal (begun j p at) t) (begun j p at)"
    using apply_journal_loads [OF assms(1)] c by (simp add: apply_journal_for_def load_sync_apply_journal_def)
qed

lemma apply_staged_begins:
  assumes "apply_journal_for env p s j" "0 \<le> at"
  shows "apply_staged_pull_plan env p (Some i) at s = ebind (in_store (upsert_sync_apply_journal (begun j p at)))
    (\<lambda>_. ebind (materialize_plan env p at) (\<lambda>(written, moved, deleted).
      eret \<lparr>ax_journal = Some (begun j p at), ax_written_paths = written, ax_moved_paths = moved, ax_deleted_paths = deleted\<rparr>)) s"
  using apply_journal_loads [OF assms(1)] begun_journal(1) [OF assms]
  by (simp add: apply_staged_pull_plan_def ebind_def)

lemma replay_ok:
  assumes r: "replayable env p s0" and s: "on_track env p s0 s" and j: "apply_journal_for env p s j"
    and st: "store_ready env st s" "apply_manifest_reconciled_state st (pp_revision p) (aj_target_manifest_hash j) = Inr st'"
    and at: "0 \<le> at"
  obtains v s' where "replay_pull_apply_plan env p i at s = (Inr v, s')" "pv_mode v = ''replayed''" "pv_state v = Some st'"
    "cl_apply_journal (de_client s') (ae_vault_id env) = None"
    "\<forall>q. plain_path q \<longrightarrow> hash_at env s' (path_parts q) = plan_effect p (\<lambda>q. hash_at env s0 (path_parts q)) q"
proof -
  let ?j = "begun j p at"
  have r': "replayable env p (put_journal ?j s0)" by (rule replayable_journal [OF r])
  have t: "on_track env p (put_journal ?j s0) (put_journal ?j s)" using s midway_journal by simp
  obtain y s1 where y: "materialize_plan env p at (put_journal ?j s) = (Inr y, s1)" "on_track env p (put_journal ?j s0) s1"
    "\<forall>w \<in> set (pp_writes p). write_done env w s1" "\<forall>m \<in> set (pp_moves p). move_done m s1"
    "\<forall>x \<in> set (pp_deletes p). delete_done x s1" by (rule replayed [OF r' t])
  obtain w mv dl where w: "y = (w, mv, dl)" by (cases y)
  let ?x = "\<lparr>ax_journal = Some ?j, ax_written_paths = w, ax_moved_paths = mv, ax_deleted_paths = dl\<rparr>"
  have ap: "apply_staged_pull_plan env p (Some i) at s = (Inr ?x, s1)"
    using y(1) upsert_journal s by (simp add: apply_staged_begins [OF j at] ebind_def w)
  have b: "besides (reboot s1) = besides (reboot (put_journal ?j s))"
    using y(2) t by (simp add: midway_def)
  note f = same_store [OF b]
  have j1: "apply_journal_for env p s1 ?j"
    using begun_journal(2) [OF j at, of s] unfolding apply_journal_for_def load_sync_apply_journal_def f(3) .
  have ld: "load_vault_state (ae_vault_id env) (de_client s1) = Inr (Some st)"
    using st(1) f(2) by (simp add: store_ready_def load_vault_state_def)
  have "powered s1" using y(2) by simp
  then obtain fz s' where fz: "finalize_applied_pull_plan env p ?x at s1 = (Inr (Some fz), s')" "fz_state fz = st'"
    "cl_apply_journal (de_client s') (ae_vault_id env) = None"
    "\<forall>q. plain_path q \<longrightarrow> file_bytes s' (path_parts q) = file_bytes s1 (path_parts q)"
    using finalize_ok [OF _ j1 _ _ ld _ at, of ?x st'] st(2) by auto
  have e: "hash_at env s' (path_parts q) = plan_effect p (\<lambda>q. hash_at env s0 (path_parts q)) q" if "plain_path q" for q
    using fz(4) that replay_effect [OF r' y(2-5) that] by (simp add: hash_at_def)
  have "\<exists>v. replay_pull_apply_plan env p i at s = (Inr v, s') \<and> pv_mode v = ''replayed'' \<and> pv_state v = Some st'"
    using ap fz(1,2) by (simp add: replay_pull_apply_plan_def ebind_def)
  with fz(3) e show thesis using that by blast
qed

lemma resume_replays:
  assumes r: "replayable env p s0" and s: "on_track env p s0 s" and j: "journal_ready env p s j"
    and l: "load_pull_apply_plan_file s = Inr (Some p)"
    and st: "store_ready env st s" "apply_manifest_reconciled_state st (pp_revision p) (aj_target_manifest_hash j) = Inr st'"
    and at: "0 \<le> at"
  obtains v s' where "resume_pull_apply_recovery env at s = (Inr v, s')" "pv_mode v = ''replayed''" "pv_state v = Some st'"
    "cl_apply_journal (de_client s') (ae_vault_id env) = None"
    "\<forall>q. plain_path q \<longrightarrow> hash_at env s' (path_parts q) = plan_effect p (\<lambda>q. hash_at env s0 (path_parts q)) q"
proof -
  have a: "apply_journal_for env p s j" using j by (simp add: journal_ready_def)
  note d = apply_journal_loads [OF a]
  obtain sn where sn: "in_store (load_desk_snapshot env) s = (Inr sn, s)" by (rule load_desk_snapshot_ready [OF st(1)])
  have v: "validate_recovery_pull_apply_plan p j = Inr ()"
    using d j by (simp add: validate_recovery_pull_apply_plan_def journal_ready_def)
  obtain x s' where x: "replay_pull_apply_plan env p j at s = (Inr x, s')" "pv_mode x = ''replayed''" "pv_state x = Some st'"
    "cl_apply_journal (de_client s') (ae_vault_id env) = None"
    "\<forall>q. plain_path q \<longrightarrow> hash_at env s' (path_parts q) = plan_effect p (\<lambda>q. hash_at env s0 (path_parts q)) q"
    by (rule replay_ok [OF r s a st at])
  have "resume_pull_apply_recovery env at s = (Inr x, s')"
    using d sn v x(1) l j
    by (cases "aj_phase j = ''materializing''")
      (simp_all add: resume_pull_apply_recovery_def ebind_def etry_def eread_def journal_ready_def)
  with x(2-) show thesis by (intro that)
qed


text \<open>Staged and ready: the journal is that of the staged plan, the plan file holds the plan, and the
  vault state will take the target revision.\<close>

definition staged_for :: "apply_env \<Rightarrow> pull_plan \<Rightarrow> apply_journal \<Rightarrow> vault_state \<Rightarrow> vault_state \<Rightarrow> desk \<Rightarrow> bool" where
  "staged_for env p j st st' s \<longleftrightarrow> apply_journal_for env p s j \<and> aj_phase j = ''staging''
     \<and> aj_ops_hash j = Some (pp_ops_hash p) \<and> load_pull_apply_plan_file s = Inr (Some p) \<and> store_ready env st s
     \<and> apply_manifest_reconciled_state st (pp_revision p) (aj_target_manifest_hash j) = Inr st'"

lemma after_power_loss:
  assumes r: "replayable env p s" and on: "powered s" and sf: "staged_for env p j st st' s" and at: "0 \<le> at"
    and c_def: "c = reboot (snd (apply_staged_pull_plan env p (Some j) at (set_power k s)))"
  obtains s0 j' where "replayable env p s0" "on_track env p s0 c" "journal_ready env p c j'"
    "load_pull_apply_plan_file c = Inr (Some p)" "store_ready env st c"
    "apply_manifest_reconciled_state st (pp_revision p) (aj_target_manifest_hash j') = Inr st'"
    "\<And>q. hash_at env s0 q = hash_at env s q"
proof -
  let ?j = "begun j p at"
  have j: "apply_journal_for env p s j" using sf by (simp add: staged_for_def)
  have jk: "apply_journal_for env p (set_power k s) j" using j
    by (simp add: apply_journal_for_def load_sync_apply_journal_def set_power_def)
  let ?m = "\<lambda>_. ebind (materialize_plan env p at) (\<lambda>(written, moved, deleted).
      eret \<lparr>ax_journal = Some ?j, ax_written_paths = written, ax_moved_paths = moved, ax_deleted_paths = deleted\<rparr>)"
  have run: "apply_staged_pull_plan env p (Some j) at (set_power k s)
      = ebind (in_store (upsert_sync_apply_journal ?j)) ?m (set_power k s)"
    by (rule apply_staged_begins [OF jk at])
  have up: "in_store (upsert_sync_apply_journal ?j) (set_power k s) = (Inl PowerLoss, set_power k s)
      \<or> (\<exists>k'. in_store (upsert_sync_apply_journal ?j) (set_power k s) = (Inr (), put_journal ?j (set_power k' s)))"
    by (cases k; cases "the k")
      (auto simp: in_store_def upsert_sync_apply_journal_def persist_def set_power_def put_journal_def)
  from up show thesis
  proof
    assume "in_store (upsert_sync_apply_journal ?j) (set_power k s) = (Inl PowerLoss, set_power k s)"
    then have c: "c = s" using set_power_same [OF on] by (simp add: c_def run ebind_def)
    show thesis
    proof (rule that [of s j])
      show "on_track env p s c"
        using midway_start [of env p s k] replayableD(2,3) [OF r] on by (simp add: c)
      show "journal_ready env p c j" using sf by (simp add: c journal_ready_def staged_for_def)
    qed (use r sf in \<open>simp_all add: c staged_for_def\<close>)
  next
    assume "\<exists>k'. in_store (upsert_sync_apply_journal ?j) (set_power k s) = (Inr (), put_journal ?j (set_power k' s))"
    then obtain k' where k: "in_store (upsert_sync_apply_journal ?j) (set_power k s)
      = (Inr (), put_journal ?j (set_power k' s))" by blast
    let ?s0 = "put_journal ?j s"
    have r0: "replayable env p ?s0" by (rule replayable_journal [OF r])
    have ps: "put_journal ?j (set_power k' s) = set_power k' ?s0"
      by (simp add: put_journal_def set_power_def put_apply_journal_def)
    have "midway env p ?s0 (set_power k' ?s0)"
      using midway_start [of env p ?s0 k'] replayableD(2,3) [OF r0] by simp
    moreover have "keeps (midway env p ?s0) (?m ())"
    proof (rule keeps_bind [OF keeps_materialize [OF r0]])
      show "keeps (midway env p ?s0) ((\<lambda>(written, moved, deleted). eret \<lparr>ax_journal = Some ?j,
        ax_written_paths = written, ax_moved_paths = moved, ax_deleted_paths = deleted\<rparr>) x)" for x
        by (cases x) simp
    qed
    ultimately have "midway env p ?s0 (snd (?m () (set_power k' ?s0)))" by (rule keepsD [rotated])
    moreover have "apply_staged_pull_plan env p (Some j) at (set_power k s) = ?m () (set_power k' ?s0)"
      unfolding run using k by (simp add: ebind_def [of "in_store _"] ps)
    ultimately have t: "on_track env p ?s0 c" unfolding c_def by simp
    then have b: "besides (reboot c) = besides (reboot ?s0)" by (simp add: midway_def)
    note f = same_store [OF b]
    have jc: "apply_journal_for env p c ?j"
      using begun_journal(2) [OF j at, of s] unfolding apply_journal_for_def load_sync_apply_journal_def f(3) .
    show thesis
    proof (rule that [of ?s0 ?j])
      show "journal_ready env p c ?j" using jc by (simp add: journal_ready_def)
      show "load_pull_apply_plan_file c = Inr (Some p)"
        using sf f(5) by (simp add: staged_for_def load_pull_apply_plan_file_def)
      have "store_ready env st ?s0"
        using sf by (simp add: staged_for_def store_ready_def load_filemap_def load_vault_state_def)
      then show "store_ready env st c" using store_ready_same [OF b] by simp
    qed (use r0 t sf in \<open>simp_all add: staged_for_def hash_at_def\<close>)
  qed
qed

text \<open>C3: an interrupted pull is recovered: when the power fails at any durable step of an application
  (writing a temporary file, renaming, deleting, creating directories, updating the journal), the
  recovery after the restart replays the plan, answers ``replayed'', drops the journal and gives the
  vault state of the target revision, and the workspace is the one an uninterrupted application
  makes: every path of the manifest with its hash, every other path of the file map gone, all other
  files as they were. The plan has no blocking paths and overwrites no file in place: for others a
  replay can take files that are already in place for local changes.\<close>

theorem interrupted_pull_recovers:
  assumes p: "build_pull_apply_plan sha d (Some m) = Inr p" and a: "applicable env d m p s" and q: "quiet_plan p"
    and sf: "staged_for env p j st st' s" and at: "0 \<le> at" "0 \<le> at'"
  shows "\<exists>v s'. resume_pull_apply_recovery env at'
        (reboot (snd (apply_staged_pull_plan env p (Some j) at (set_power k s)))) = (Inr v, s')
    \<and> pv_mode v = ''replayed'' \<and> pv_state v = Some st' \<and> cl_apply_journal (de_client s') (ae_vault_id env) = None
    \<and> (\<forall>q. plain_path q \<longrightarrow> hash_at env s' (path_parts q)
        = (if q \<in> fr_path ` set (active_records d) \<or> manifest_content m q \<noteq> None then manifest_content m q
           else hash_at env s (path_parts q)))"
proof -
  have i: "pull_input d m" and on: "powered s" using a by (simp_all add: applicable_def)
  have r: "replayable env p s"
    using built_plan_orderly [OF p i] built_plan_settled [OF p i] a q by (simp add: replayable_def applicable_def)
  let ?c = "reboot (snd (apply_staged_pull_plan env p (Some j) at (set_power k s)))"
  obtain s0 j' where c: "replayable env p s0" "on_track env p s0 ?c" "journal_ready env p ?c j'"
    "load_pull_apply_plan_file ?c = Inr (Some p)" "store_ready env st ?c"
    "apply_manifest_reconciled_state st (pp_revision p) (aj_target_manifest_hash j') = Inr st'"
    "\<And>q. hash_at env s0 q = hash_at env s q" by (rule after_power_loss [OF r on sf at(1), where k = k, OF refl]) blast
  obtain v s' where v: "resume_pull_apply_recovery env at' ?c = (Inr v, s')" "pv_mode v = ''replayed''" "pv_state v = Some st'"
    "cl_apply_journal (de_client s') (ae_vault_id env) = None"
    "\<forall>q. plain_path q \<longrightarrow> hash_at env s' (path_parts q) = plan_effect p (\<lambda>q. hash_at env s0 (path_parts q)) q"
    by (rule resume_replays [OF c(1-6) at(2)])
  have "hash_at env s' (path_parts q) = (if q \<in> fr_path ` set (active_records d) \<or> manifest_content m q \<noteq> None
      then manifest_content m q else hash_at env s (path_parts q))" if "plain_path q" for q
    using v(5) that effect_is_manifest [OF p i, of env s q] a by (simp add: c(7) applicable_def)
  with v show ?thesis by blast
qed

lemma applicable_same:
  assumes "file_bytes s = file_bytes t" "file_paths s = file_paths t" "de_dirs s = de_dirs t" "powered s = powered t"
  shows "applicable env d m p s = applicable env d m p t"
  unfolding applicable_def workspace_agrees_def writes_staged_def room_to_apply_def files_of_apply_def dirs_of_apply_def
    hash_at_def assms ..

text \<open>A plan with one write, one move and one deletion, staged.\<close>

definition calm_document :: filemap_document where
  "calm_document = swap_document\<lparr>fd_files := [swap_rec ''1'' ''a.md'' ''A'', swap_rec ''3'' ''c.md'' ''C'']\<rparr>"

definition calm_manifest :: manifest where
  "calm_manifest = swap_manifest\<lparr>mn_files := [swap_entry ''1'' ''n.md'' ''A'', swap_entry ''4'' ''d.md'' ''D'']\<rparr>"

lemma calm_plan:
  obtains p where "build_pull_apply_plan id calm_document (Some calm_manifest) = Inr p"
    "pp_writes p = [write_of calm_document (swap_entry ''4'' ''d.md'' ''D'')]"
    "pp_moves p = [move_of (swap_rec ''1'' ''a.md'' ''A'') (swap_entry ''1'' ''n.md'' ''A'')]"
    "pp_blocking_paths p = []" "pp_vault_id p = ''v''" "pp_revision p = 2"
proof -
  have "\<forall>e \<in> set (mn_files calm_manifest). safe_file_id (mf_file_id e)" by code_simp
  then obtain p where p: "build_pull_apply_plan id calm_document (Some calm_manifest) = Inr p"
    "pp_writes p = concat (map (fst \<circ> entry_ops calm_document) (mn_sorted_files calm_manifest))"
    "pp_moves p = concat (map (fst \<circ> snd \<circ> entry_ops calm_document) (mn_sorted_files calm_manifest))"
    "pp_deletes p = concat (map (snd \<circ> snd \<circ> entry_ops calm_document) (mn_sorted_files calm_manifest))
      @ gone_records calm_document calm_manifest"
    "pp_blocking_paths p = blocking_paths (pp_writes p) (pp_moves p) (pp_deletes p)"
    "pp_vault_id p = mn_vault_id calm_manifest" "pp_revision p = mn_revision calm_manifest"
    by (rule pull_plan_exists)
  have e: "concat (map (fst \<circ> entry_ops calm_document) (mn_sorted_files calm_manifest))
        = [write_of calm_document (swap_entry ''4'' ''d.md'' ''D'')]"
      "concat (map (fst \<circ> snd \<circ> entry_ops calm_document) (mn_sorted_files calm_manifest))
        = [move_of (swap_rec ''1'' ''a.md'' ''A'') (swap_entry ''1'' ''n.md'' ''A'')]"
      "blocking_paths [write_of calm_document (swap_entry ''4'' ''d.md'' ''D'')]
         [move_of (swap_rec ''1'' ''a.md'' ''A'') (swap_entry ''1'' ''n.md'' ''A'')]
         (concat (map (snd \<circ> snd \<circ> entry_ops calm_document) (mn_sorted_files calm_manifest))
           @ gone_records calm_document calm_manifest) = []"
    by code_simp+
  show thesis
    by (rule that [OF p(1)]) (simp_all only: p(2-7) e, simp_all add: calm_manifest_def swap_manifest_def)
qed

definition calm_desk :: "pull_plan \<Rightarrow> desk" where
  "calm_desk p = \<lparr>de_client = put_apply_journal (swap_journal\<lparr>aj_ops_hash := Some (pp_ops_hash p)\<rparr>)
       (put_vault_state idle_state (empty_client\<lparr>cl_staging := [(''4.staging'', ''D'')],
          cl_filemap := Some (Text (JObj (filemap_to_dict calm_document)))\<rparr>)),
     de_files = [([''a.md''], ''A''), ([''c.md''], ''C''), ([''x.md''], ''X'')],
     de_dirs = [[''.noteapp''], [''.noteapp'', ''staging'']],
     de_plan = Some (Text (serialize_pull_apply_plan p))\<rparr>"

abbreviation idle_at_two :: vault_state where
  "idle_at_two \<equiv> idle_state\<lparr>vs_last_applied_revision := 2, vs_remote_head_revision := 2, vs_acked_revision := 2,
     vs_pending_ack_to_server := [2], vs_last_manifest_summary := Some ''s''\<rparr>"

lemma calm_staged:
  assumes "pp_vault_id p = ''v''" "pp_revision p = 2"
  shows "staged_for swap_env p (swap_journal\<lparr>aj_ops_hash := Some (pp_ops_hash p)\<rparr>) idle_state idle_at_two (calm_desk p)"
proof -
  let ?j = "swap_journal\<lparr>aj_ops_hash := Some (pp_ops_hash p)\<rparr>"
  have w: "SyncApplyJournalRecord ?j = Inr ?j"
    by (simp add: result_simps wf_apply_journal_iff swap_journal_def VALID_SYNC_APPLY_PHASES_def)
  have f: "load_filemap (de_client (calm_desk p)) = parse_filemap (Some (Text (JObj (filemap_to_dict calm_document))))"
    by (simp add: load_filemap_def calm_desk_def put_apply_journal_def put_vault_state_def)
  have d: "parse_filemap (Some (Text (JObj (filemap_to_dict calm_document)))) = Inr calm_document" by code_simp
  have v: "VaultStateRecord idle_state = Inr idle_state" by code_simp
  have r: "apply_manifest_reconciled_state idle_state 2 ''s'' = Inr idle_at_two" by code_simp
  have l: "load_vault_state ''v'' (de_client (calm_desk p)) = Inr (Some idle_state)"
    using v by (simp add: load_vault_state_def calm_desk_def put_apply_journal_def put_vault_state_def)
      (simp add: submitted_state_def)
  have "store_ready swap_env idle_state (calm_desk p)"
    using l by (simp add: store_ready_def f d swap_env_def)
      (simp add: calm_desk_def put_apply_journal_def put_vault_state_def empty_client_def calm_document_def
        swap_document_def submitted_state_def)
  moreover have "load_pull_apply_plan_file (calm_desk p) = Inr (Some p)"
    by (simp add: load_pull_apply_plan_file_def calm_desk_def plan_json_round_trip)
  moreover have "load_sync_apply_journal ''v'' (de_client (calm_desk p)) = Inr (Some ?j)"
    using w by (simp add: load_sync_apply_journal_def calm_desk_def put_apply_journal_def) (simp add: swap_journal_def)
  ultimately show ?thesis
    using r assms by (simp add: staged_for_def apply_journal_for_def swap_env_def) (simp add: swap_journal_def)
qed

lemma calm_applicable:
  assumes "pp_writes p = [write_of calm_document (swap_entry ''4'' ''d.md'' ''D'')]"
    "pp_moves p = [move_of (swap_rec ''1'' ''a.md'' ''A'') (swap_entry ''1'' ''n.md'' ''A'')]"
  shows "applicable swap_env calm_document calm_manifest p (calm_desk p)"
proof -
  define s where "s = \<lparr>de_client = empty_client\<lparr>cl_staging := [(''4.staging'', ''D'')]\<rparr>,
     de_files = [([''a.md''], ''A''), ([''c.md''], ''C''), ([''x.md''], ''X'')],
     de_dirs = [[''.noteapp''], [''.noteapp'', ''staging'']], de_plan = None\<rparr>"
  have e: "file_bytes (calm_desk p) = file_bytes s" "file_paths (calm_desk p) = file_paths s"
    "de_dirs (calm_desk p) = de_dirs s" "powered (calm_desk p) = powered s"
    by (simp_all add: calm_desk_def s_def fun_eq_iff file_bytes_def file_paths_def powered_def put_apply_journal_def
        put_vault_state_def empty_client_def split: option.splits)
  have "workspace_agrees swap_env calm_document s" unfolding s_def by code_simp
  moreover have "writes_staged swap_env p s" unfolding writes_staged_def assms s_def by code_simp
  moreover have "room_to_apply p s"
    unfolding room_to_apply_def files_of_apply_def dirs_of_apply_def plan_targets_def plan_ids_def assms s_def
    by code_simp
  moreover have "powered s" unfolding s_def by code_simp
  moreover have "pull_input calm_document calm_manifest" "usable_names calm_document calm_manifest" by code_simp+
  ultimately have "applicable swap_env calm_document calm_manifest p s" by (simp add: applicable_def)
  then show ?thesis using applicable_same [OF e] by simp
qed

theorem interrupted_pull_recovers_witness:
  "\<exists>p v s'. build_pull_apply_plan id calm_document (Some calm_manifest) = Inr p
     \<and> resume_pull_apply_recovery swap_env 6 (reboot (snd (apply_staged_pull_plan swap_env p
         (Some (swap_journal\<lparr>aj_ops_hash := Some (pp_ops_hash p)\<rparr>)) 5 (set_power (Some 4) (calm_desk p))))) = (Inr v, s')
     \<and> pv_mode v = ''replayed'' \<and> pv_state v = Some idle_at_two"
proof -
  obtain p where p: "build_pull_apply_plan id calm_document (Some calm_manifest) = Inr p"
    "pp_writes p = [write_of calm_document (swap_entry ''4'' ''d.md'' ''D'')]"
    "pp_moves p = [move_of (swap_rec ''1'' ''a.md'' ''A'') (swap_entry ''1'' ''n.md'' ''A'')]"
    "pp_blocking_paths p = []" "pp_vault_id p = ''v''" "pp_revision p = 2" by (rule calm_plan)
  have "\<not> overwrites (write_of calm_document (swap_entry ''4'' ''d.md'' ''D''))" by code_simp
  then have q: "quiet_plan p" by (simp add: quiet_plan_def p)
  from interrupted_pull_recovers [OF p(1) calm_applicable [OF p(2,3)] q calm_staged [OF p(5,6)], of 5 6 "Some 4"] p(1)
  show ?thesis by auto
qed

section \<open>A replay that fails\<close>

text \<open>The file at \<open>c.md\<close> is deleted and two new files come, one of them at the same path.\<close>

definition over_document :: filemap_document where
  "over_document = swap_document\<lparr>fd_files := [swap_rec ''3'' ''c.md'' ''C'']\<rparr>"

definition over_manifest :: manifest where
  "over_manifest = swap_manifest\<lparr>mn_files := [swap_entry ''4'' ''c.md'' ''D'', swap_entry ''5'' ''d.md'' ''E'']\<rparr>"

definition over_filemap :: filemap_document where
  "over_filemap = over_document\<lparr>fd_files :=
     [(swap_rec ''4'' ''c.md'' ''D'')\<lparr>fr_last_known_revision := Some 2\<rparr>,
      (swap_rec ''5'' ''d.md'' ''E'')\<lparr>fr_last_known_revision := Some 2\<rparr>]\<rparr>"

definition over_delete :: pull_delete where
  "over_delete = \<lparr>pd_file_id = ''3'', pd_path = ''c.md'', pd_reason = ''deleted'',
     pd_expected_content_hash = Some ''sha256:C''\<rparr>"

definition over_write :: "string \<Rightarrow> string \<Rightarrow> string \<Rightarrow> pull_write" where
  "over_write i q h = \<lparr>px_file_id = i, px_target_path = q, px_staging_path = ''.noteapp/staging/'' @ i @ ''.staging'',
     px_type = ''note'', px_content_hash = ''sha256:'' @ h, px_previous_path = None,
     px_expected_previous_content_hash = None\<rparr>"

definition is_over_plan :: "pull_plan \<Rightarrow> bool" where
  "is_over_plan p \<longleftrightarrow> pp_writes p = [over_write ''4'' ''c.md'' ''D'', over_write ''5'' ''d.md'' ''E'']
     \<and> pp_moves p = [] \<and> pp_deletes p = [over_delete] \<and> pp_blocking_paths p = [''c.md'']
     \<and> pp_vault_id p = ''v'' \<and> pp_revision p = 2"

lemma over_converged: "\<exists>c. converge_manifest_state over_document over_manifest [] 1 = Inr c \<and> cv_filemap c = over_filemap"
proof -
  have "(case converge_manifest_state over_document over_manifest [] 1 of Inl _ \<Rightarrow> False | Inr c \<Rightarrow> cv_filemap c = over_filemap)"
    by code_simp
  then show ?thesis by (auto split: sum.splits)
qed

lemma over_plan:
  obtains p where "build_pull_apply_plan id over_document (Some over_manifest) = Inr p" "is_over_plan p"
proof -
  have "\<forall>e \<in> set (mn_files over_manifest). safe_file_id (mf_file_id e)" by code_simp
  then obtain p where p: "build_pull_apply_plan id over_document (Some over_manifest) = Inr p"
    "pp_writes p = concat (map (fst \<circ> entry_ops over_document) (mn_sorted_files over_manifest))"
    "pp_moves p = concat (map (fst \<circ> snd \<circ> entry_ops over_document) (mn_sorted_files over_manifest))"
    "pp_deletes p = concat (map (snd \<circ> snd \<circ> entry_ops over_document) (mn_sorted_files over_manifest))
      @ gone_records over_document over_manifest"
    "pp_blocking_paths p = blocking_paths (pp_writes p) (pp_moves p) (pp_deletes p)"
    "pp_vault_id p = mn_vault_id over_manifest" "pp_revision p = mn_revision over_manifest"
    by (rule pull_plan_exists)
  have "concat (map (fst \<circ> entry_ops over_document) (mn_sorted_files over_manifest))
        = [over_write ''4'' ''c.md'' ''D'', over_write ''5'' ''d.md'' ''E'']"
      "concat (map (fst \<circ> snd \<circ> entry_ops over_document) (mn_sorted_files over_manifest)) = []"
      "concat (map (snd \<circ> snd \<circ> entry_ops over_document) (mn_sorted_files over_manifest))
           @ gone_records over_document over_manifest = [over_delete]"
      "blocking_paths [over_write ''4'' ''c.md'' ''D'', over_write ''5'' ''d.md'' ''E''] [] [over_delete] = [''c.md'']"
      "mn_vault_id over_manifest = ''v''" "mn_revision over_manifest = 2"
    by code_simp+
  with p(2-) have "is_over_plan p" unfolding is_over_plan_def by (simp only: simp_thms)
  with p(1) show thesis by (rule that)
qed

lemma over_parts: "path_parts ''c.md'' = [''c.md'']" "path_parts ''d.md'' = [''d.md'']"
    "plain_path ''c.md''" "plain_path ''d.md''" "safe_file_id ''4''" "safe_file_id ''5''"
  by code_simp+

text \<open>The next pull of the same manifest finds nothing to do.\<close>

lemma over_next_plan:
  obtains p where "build_pull_apply_plan id over_filemap (Some over_manifest) = Inr p"
    "pp_writes p = []" "pp_moves p = []" "pp_deletes p = []"
proof -
  have "\<forall>e \<in> set (mn_files over_manifest). safe_file_id (mf_file_id e)" by code_simp
  then obtain p where p: "build_pull_apply_plan id over_filemap (Some over_manifest) = Inr p"
    "pp_writes p = concat (map (fst \<circ> entry_ops over_filemap) (mn_sorted_files over_manifest))"
    "pp_moves p = concat (map (fst \<circ> snd \<circ> entry_ops over_filemap) (mn_sorted_files over_manifest))"
    "pp_deletes p = concat (map (snd \<circ> snd \<circ> entry_ops over_filemap) (mn_sorted_files over_manifest))
      @ gone_records over_filemap over_manifest"
    by (rule pull_plan_exists)
  have "concat (map (fst \<circ> entry_ops over_filemap) (mn_sorted_files over_manifest)) = []"
      "concat (map (fst \<circ> snd \<circ> entry_ops over_filemap) (mn_sorted_files over_manifest)) = []"
      "concat (map (snd \<circ> snd \<circ> entry_ops over_filemap) (mn_sorted_files over_manifest))
           @ gone_records over_filemap over_manifest = []" by code_simp+
  with p show thesis by (intro that) simp_all
qed


text \<open>The desk with the payloads staged: the journal, the power left and the files vary.\<close>

definition over_state :: "pull_plan \<Rightarrow> apply_journal \<Rightarrow> nat option \<Rightarrow> (string list \<times> string) list \<Rightarrow> desk" where
  "over_state p j k fs = \<lparr>de_client = (put_apply_journal j (put_vault_state idle_state
       (empty_client\<lparr>cl_staging := [(''4.staging'', ''D''), (''5.staging'', ''E'')],
          cl_filemap := Some (Text (JObj (filemap_to_dict over_filemap)))\<rparr>)))\<lparr>cl_power := k\<rparr>,
     de_files = fs, de_dirs = [[''.noteapp''], [''.noteapp'', ''staging'']],
     de_plan = Some (Text (serialize_pull_apply_plan p))\<rparr>"

abbreviation over_journal :: "pull_plan \<Rightarrow> apply_journal" where
  "over_journal p \<equiv> swap_journal\<lparr>aj_ops_hash := Some (pp_ops_hash p)\<rparr>"

lemma over_client [simp]:
  "cl_power (de_client (over_state p j k fs)) = k"
  "de_files (over_state p j k fs) = fs"
  "de_plan (over_state p j k fs) = Some (Text (serialize_pull_apply_plan p))"
  "de_dirs (over_state p j k fs) = [[''.noteapp''], [''.noteapp'', ''staging'']]"
  "cl_staging (de_client (over_state p j k fs)) = [(''4.staging'', ''D''), (''5.staging'', ''E'')]"
  "cl_filemap (de_client (over_state p j k fs)) = Some (Text (JObj (filemap_to_dict over_filemap)))"
  "cl_ledger (de_client (over_state p j k fs)) = None"
  "cl_vault_state (de_client (over_state p j k fs)) = [''v'' \<mapsto> idle_state]"
  "cl_apply_journal (de_client (over_state p j k fs)) = [aj_vault_id j \<mapsto> j]"
  by (simp_all add: over_state_def put_apply_journal_def put_vault_state_def empty_client_def submitted_state_def)

lemma over_bytes [simp]:
  "file_bytes (over_state p j k fs) [n] = map_of fs [n]"
  "put_bytes [n] b (over_state p j k fs) = over_state p j k (AList.update [n] b fs)"
  "del_bytes [n] (over_state p j k fs) = over_state p j k (AList.delete [n] fs)"
  by (simp_all add: file_bytes_def put_bytes_def del_bytes_def staging_name_def) (simp_all add: over_state_def)

lemma over_staged [simp]:
  "file_bytes (over_state p j k fs) (staged_parts i) = map_of [(''4.staging'', ''D''), (''5.staging'', ''E'')] (i @ ''.staging'')"
  by (simp add: file_bytes_def staging_name_def staged_parts_def)

lemma over_step [simp]:
  "disk_step f (over_state p j (Some (Suc k)) fs) = (Inr (), f (over_state p j (Some k) fs))"
  "disk_step f (over_state p j (Some 0) fs) = (Inl PowerLoss, over_state p j (Some 0) fs)"
  "disk_step f (over_state p j None fs) = (Inr (), f (over_state p j None fs))"
  by (simp_all add: disk_step_def persist_def) (simp_all add: over_state_def)

lemma over_dir [simp]: "is_dir (over_state p j k fs) [n] \<longleftrightarrow> n = ''.noteapp''" "is_dir (over_state p j k fs) []"
  by (simp_all add: is_dir_def)

lemma over_mkdir [simp]:
  "make_dirs [] (over_state p j (Some (Suc k)) fs) = (Inr (), over_state p j (Some k) fs)"
  "make_dirs [] (over_state p j (Some 0) fs) = (Inl PowerLoss, over_state p j (Some 0) fs)"
  "make_dirs [] (over_state p j None fs) = (Inr (), over_state p j None fs)"
  by (simp_all add: make_dirs_def prefixes_def ebind_def)

lemma with_tmp_one [simp]: "with_tmp [n] = [n @ ''.tmp'']"
  by (simp add: with_tmp_def)

lemma over_atomic:
  assumes "n \<noteq> ''.noteapp''" "n @ ''.tmp'' \<noteq> ''.noteapp''"
    "fs' = AList.delete [n @ ''.tmp''] (AList.update [n] b (AList.delete [n @ ''.tmp'']
       (AList.update [n @ ''.tmp''] b (AList.update [n @ ''.tmp''] [] fs))))"
  shows "write_bytes_atomic [n] b (over_state p j (Some (Suc (Suc (Suc (Suc (Suc k)))))) fs) = (Inr (), over_state p j (Some k) fs')"
    "write_bytes_atomic [n] b (over_state p j None fs) = (Inr (), over_state p j None fs')"
    "write_bytes_atomic [n] b (over_state p j (Some 0) fs) = (Inl PowerLoss, over_state p j (Some 0) fs)"
proof -
  show "write_bytes_atomic [n] b (over_state p j (Some (Suc (Suc (Suc (Suc (Suc k)))))) fs) = (Inr (), over_state p j (Some k) fs')"
    using assms(1,2) by (simp add: write_bytes_atomic_def write_bytes_def check_target_def rename_path_def read_bytes_def
        unlink_path_def ebind_def efinally_def update_conv' assms(3))
  show "write_bytes_atomic [n] b (over_state p j None fs) = (Inr (), over_state p j None fs')"
    using assms(1,2) by (simp add: write_bytes_atomic_def write_bytes_def check_target_def rename_path_def read_bytes_def
        unlink_path_def ebind_def efinally_def update_conv' assms(3))
  show "write_bytes_atomic [n] b (over_state p j (Some 0) fs) = (Inl PowerLoss, over_state p j (Some 0) fs)"
    by (simp add: write_bytes_atomic_def ebind_def)
qed

lemma over_hash [simp]: "content_hash swap_env b = ''sha256:'' @ b"
  by (simp add: content_hash_def sha256_hex_def swap_env_def)

lemma over_upsert:
  "aj_vault_id j' = aj_vault_id j \<Longrightarrow> in_store (upsert_sync_apply_journal j') (over_state p j (Some (Suc k)) fs)
     = (Inr (), over_state p j' (Some k) fs)"
  "aj_vault_id j' = aj_vault_id j \<Longrightarrow> in_store (upsert_sync_apply_journal j') (over_state p j None fs)
     = (Inr (), over_state p j' None fs)"
  by (simp_all add: in_store_def upsert_sync_apply_journal_def persist_def)
    (simp_all add: over_state_def put_apply_journal_def put_vault_state_def)

lemma over_delete_run:
  "apply_delete swap_env at over_delete (over_state p j (Some (Suc k)) [([''c.md''], ''C'')])
     = (Inr [[''c.md'']], over_state p j (Some k) [])"
proof -
  let ?s = "over_state p j (Some (Suc k)) [([''c.md''], ''C'')]"
  have "preserve_dirty_pull_conflict_copy swap_env ''3'' [''c.md''] ''c.md'' (Some ''sha256:C'') at ?s = (Inr None, ?s)"
    by (rule midway_preserve) (simp add: hash_at_def)
  then show ?thesis
    by (simp add: apply_delete_def over_delete_def plain_path_resolves over_parts ebind_def path_exists_def unlink_path_def)
qed

lemma over_write_staged:
  assumes "i \<in> {''4'', ''5''}" "map_of [(''4.staging'', ''D''), (''5.staging'', ''E'')] (i @ ''.staging'') = Some b"
    "plain_path q" "path_parts q = [q]"
  shows "apply_write swap_env at (over_write i q b) (over_state p j k fs)
    = ebind (write_bytes_atomic [q] b) (\<lambda>_. eret (i, [q])) (over_state p j k fs)"
proof -
  have st: "px_staging_path (over_write i q b) = staging_path_of i"
    by (simp add: over_write_def staging_path_of_def STAGING_DIRNAME_def)
  have "resolve_desktop_path (staging_path_of i) = Inr (staged_parts i)"
    using assms(1) over_parts staging_path_parts(2) by auto
  then show ?thesis
    using assms(2-4) by (simp add: apply_write_def st) (simp add: over_write_def plain_path_resolves ebind_def
      is_file_def read_bytes_def)
qed

lemma over_interrupted:
  assumes p: "is_over_plan p"
  shows "reboot (snd (apply_staged_pull_plan swap_env p (Some j) 5 (over_state p (over_journal p) (Some 7) [([''c.md''], ''C'')])))
    = over_state p (begun (over_journal p) p 5) None [([''c.md''], ''D'')]"
proof -
  let ?j = "begun (over_journal p) p 5" and ?s = "over_state p (over_journal p) (Some 7) [([''c.md''], ''C'')]"
  have jr: "apply_journal_for swap_env p ?s (over_journal p)"
    using p by (simp add: apply_journal_for_def load_sync_apply_journal_def is_over_plan_def swap_env_def)
      (simp add: swap_journal_def result_simps wf_apply_journal_iff VALID_SYNC_APPLY_PHASES_def)
  have n: "(7 :: nat) = Suc (Suc (Suc (Suc (Suc (Suc (Suc 0))))))" by simp
  have w4: "apply_write swap_env 5 (over_write ''4'' ''c.md'' ''D'') (over_state p ?j (Some (Suc (Suc (Suc (Suc (Suc 0)))))) [])
      = (Inr (''4'', [''c.md'']), over_state p ?j (Some 0) [([''c.md''], ''D'')])"
    by (simp add: over_write_staged over_parts ebind_def) (simp add: over_atomic)
  have w5: "apply_write swap_env 5 (over_write ''5'' ''d.md'' ''E'') (over_state p ?j (Some 0) [([''c.md''], ''D'')])
      = (Inl PowerLoss, over_state p ?j (Some 0) [([''c.md''], ''D'')])"
    by (simp add: over_write_staged over_parts ebind_def) (simp add: over_atomic)
  have d: "apply_delete swap_env 5 over_delete (over_state p ?j (Some (Suc (Suc (Suc (Suc (Suc (Suc 0))))))) [([''c.md''], ''C'')])
      = (Inr [[''c.md'']], over_state p ?j (Some (Suc (Suc (Suc (Suc (Suc 0)))))) [])"
    by (rule over_delete_run)
  have m: "materialize_plan swap_env p 5 (over_state p ?j (Some (Suc (Suc (Suc (Suc (Suc (Suc 0))))))) [([''c.md''], ''C'')])
      = (Inl PowerLoss, over_state p ?j (Some 0) [([''c.md''], ''D'')])"
    using p d w4 w5 by (simp add: materialize_plan_def is_over_plan_def ebind_def over_delete_def)
  have "snd (apply_staged_pull_plan swap_env p (Some j) 5 ?s) = over_state p ?j (Some 0) [([''c.md''], ''D'')]"
    using m unfolding apply_staged_begins [OF jr zero_le_numeral] unfolding n
    by (simp add: ebind_def over_upsert)
  then show ?thesis by (simp add: over_state_def set_power_def)
qed


text \<open>Isolating the staging files changes nothing else.\<close>

lemma isolate_ok:
  assumes "cl_power c = None"
  obtains xs c' where "isolate_staging_orphans c = (Inr xs, c')" "cl_power c' = None"
    "c'\<lparr>cl_staging := [], cl_staging_orphans := []\<rparr> = c\<lparr>cl_staging := [], cl_staging_orphans := []\<rparr>"
proof -
  have f: "\<exists>x c'. move_staging_orphan n c = (Inr x, c') \<and> cl_power c' = None
      \<and> c'\<lparr>cl_staging := [], cl_staging_orphans := []\<rparr> = c\<lparr>cl_staging := [], cl_staging_orphans := []\<rparr>"
    if "cl_power c = None" for n c
    using that by (auto simp: move_staging_orphan_def ebind_def eget_def persist_def split: option.splits)
  have "\<exists>xs c'. each move_staging_orphan ns c = (Inr xs, c') \<and> cl_power c' = None
      \<and> c'\<lparr>cl_staging := [], cl_staging_orphans := []\<rparr> = c\<lparr>cl_staging := [], cl_staging_orphans := []\<rparr>" for ns
    using assms
  proof (induction ns arbitrary: c)
    case (Cons n ns)
    obtain x c1 where 1: "move_staging_orphan n c = (Inr x, c1)" "cl_power c1 = None"
      "c1\<lparr>cl_staging := [], cl_staging_orphans := []\<rparr> = c\<lparr>cl_staging := [], cl_staging_orphans := []\<rparr>"
      using f [OF Cons.prems] by blast
    from Cons.IH [OF 1(2)] 1 show ?case by (fastforce simp: ebind_def)
  qed simp
  from this [of "map fst (staged_files c)"] that show thesis
    by (auto simp: isolate_staging_orphans_def ebind_def eget_def o_def)
qed

lemma degrade_ok:
  assumes on: "powered s" and st: "load_vault_state (ae_vault_id env) (de_client s) = Inr (Some st)"
    and st': "apply_manifest_summary_stale st = Inr st'"
  obtains v s' where "degrade_pull_apply_recovery env j s = (Inr v, s')" "pv_mode v = ''degraded''"
    "de_files s' = de_files s" "load_filemap (de_client s') = load_filemap (de_client s)"
    "cl_apply_journal (de_client s') (ae_vault_id env) = None"
proof -
  let ?v = "ae_vault_id env"
  let ?s1 = "s\<lparr>de_client := put_vault_state st' (de_client s)\<rparr>"
  let ?s2 = "s\<lparr>de_client := del_apply_journal ?v (put_vault_state st' (de_client s))\<rparr>"
  have 1: "in_store (upsert_vault_state st') s = (Inr (), ?s1)"
    using in_store_on [OF on] by (simp add: upsert_vault_state_def)
  have "powered ?s1" using on by (simp add: powered_def put_vault_state_def)
  then have 2: "in_store (clear_sync_apply_journal ?v) ?s1 = (Inr (), ?s2)"
    using in_store_on by (simp add: clear_sync_apply_journal_def)
  have "cl_power (de_client ?s2) = None" using on by (simp add: powered_def put_vault_state_def del_apply_journal_def)
  then obtain xs c' where 3: "isolate_staging_orphans (de_client ?s2) = (Inr xs, c')" "cl_power c' = None"
    "c'\<lparr>cl_staging := [], cl_staging_orphans := []\<rparr> = (de_client ?s2)\<lparr>cl_staging := [], cl_staging_orphans := []\<rparr>"
    by (rule isolate_ok)
  have f: "cl_filemap c' = cl_filemap (de_client s)" "cl_apply_journal c' ?v = None"
    using arg_cong [OF 3(3), of cl_filemap] arg_cong [OF 3(3), of cl_apply_journal]
    by (simp_all add: put_vault_state_def del_apply_journal_def)
  have i: "in_store isolate_staging_orphans ?s2 = (Inr xs, s\<lparr>de_client := c'\<rparr>)"
    using 3(1) by (simp add: in_store_def)
  have on': "powered (s\<lparr>de_client := c'\<rparr>)" using 3(2) by (simp add: powered_def)
  obtain b s3 where b: "cleanup_pull_apply_plan_file (s\<lparr>de_client := c'\<rparr>) = (Inr b, s3)" "de_client s3 = c'"
    "de_files s3 = de_files s"
  proof (cases "de_plan s")
    case None
    then show thesis by (intro that [of False "s\<lparr>de_client := c'\<rparr>"]) (simp_all add: cleanup_pull_apply_plan_file_def ebind_def)
  next
    case (Some y)
    then show thesis using on'
      by (intro that [of True "s\<lparr>de_client := c', de_plan := None\<rparr>"]) (simp_all add: cleanup_pull_apply_plan_file_def ebind_def)
  qed
  have "\<exists>v. degrade_pull_apply_recovery env j s = (Inr v, s3) \<and> pv_mode v = ''degraded''"
    using st st' 1 2 i b(1) by (simp add: degrade_pull_apply_recovery_def ebind_def)
  with b f show thesis using that by (auto simp: load_filemap_def)
qed


abbreviation conflict_name :: string where
  "conflict_name \<equiv> ''c (conflict 2024-01-01 d).md''"

lemma over_loads: "load_filemap (de_client (over_state p j k fs)) = Inr over_filemap"
proof -
  have "parse_filemap (Some (Text (JObj (filemap_to_dict over_filemap)))) = Inr over_filemap" by code_simp
  then show ?thesis by (simp add: load_filemap_def)
qed

lemma over_states:
  "load_vault_state ''v'' (de_client (over_state p j k fs)) = Inr (Some idle_state)"
  "\<exists>st. apply_manifest_summary_stale idle_state = Inr st"
proof -
  have "VaultStateRecord idle_state = Inr idle_state" by code_simp
  then show "load_vault_state ''v'' (de_client (over_state p j k fs)) = Inr (Some idle_state)"
    by (simp add: load_vault_state_def)
  have "(case apply_manifest_summary_stale idle_state of Inl _ \<Rightarrow> False | Inr _ \<Rightarrow> True)" by code_simp
  then show "\<exists>st. apply_manifest_summary_stale idle_state = Inr st" by (auto split: sum.splits)
qed

lemma over_not_dirty: "find (same_conflict ''3'' ''sha256:D'') (fd_files over_filemap) = None"
    "find (\<lambda>r. fr_file_id r = ''3'') (fd_files over_filemap) = None"
  by code_simp+

text \<open>The replay takes the new file at \<open>c.md\<close> for a local change of the deleted one.\<close>

lemma over_replay_delete:
  "\<exists>e. apply_delete swap_env at over_delete (over_state p j None [([''c.md''], ''D'')])
     = (Inl (KeyError e), over_state p j None [([''c.md''], ''D''), ([conflict_name], ''D'')])"
proof -
  let ?s = "over_state p j None [([''c.md''], ''D'')]"
  have "allocate_conflict_copy_path [''c.md'', ''.noteapp''] ''c.md'' ''2024-01-01'' ''d'' = conflict_name" by code_simp
  moreover have "split_slash ''4.staging'' = [''4.staging'']" "split_slash ''5.staging'' = [''5.staging'']" by code_simp+
  then have n: "names_in ?s [] = [''c.md'', ''.noteapp'']"
    by (simp add: names_in_def all_paths_def)
  ultimately have al: "allocate_pull_conflict_copy_path swap_env ''c.md'' at ?s = (Inr [conflict_name], ?s)"
    by (simp add: allocate_pull_conflict_copy_path_def plain_path_resolves over_parts ebind_def path_exists_def
        path_basename_def Let_def) (simp add: swap_env_def)
  have w: "write_bytes_atomic [conflict_name] ''D'' ?s = (Inr (), over_state p j None [([''c.md''], ''D''), ([conflict_name], ''D'')])"
    by (simp add: over_atomic)
  have rg: "register_conflict_copy over_filemap ''3'' i q at h = Inl (KeyError ''source file_id not found: 3'')" for i q h
    by (simp add: register_conflict_copy_def over_not_dirty)
  have pr: "preserve_dirty_pull_conflict_copy swap_env ''3'' [''c.md''] ''c.md'' (Some ''sha256:C'') at ?s
      = (Inl (KeyError ''source file_id not found: 3''), over_state p j None [([''c.md''], ''D''), ([conflict_name], ''D'')])"
    by (simp add: preserve_dirty_pull_conflict_copy_def ebind_def is_file_def read_bytes_def over_loads over_not_dirty al w Let_def rg)
  then show ?thesis
    by (simp add: apply_delete_def over_delete_def plain_path_resolves over_parts ebind_def)
qed

lemma over_mismatch:
  "workspace_matches_document swap_env over_filemap (over_state p j None [([''c.md''], ''D''), ([conflict_name], ''D'')])
     = (Inr False, over_state p j None [([''c.md''], ''D''), ([conflict_name], ''D'')])"
proof -
  have f: "fd_files over_filemap = [(swap_rec ''4'' ''c.md'' ''D'')\<lparr>fr_last_known_revision := Some 2\<rparr>,
      (swap_rec ''5'' ''d.md'' ''E'')\<lparr>fr_last_known_revision := Some 2\<rparr>]"
    by (simp add: over_filemap_def)
  show ?thesis
    by (simp add: workspace_matches_document_def f swap_rec_def plain_path_resolves over_parts eread_def)
qed

lemma over_recovery:
  assumes p: "is_over_plan p"
  obtains v s' where "resume_pull_apply_recovery swap_env 6 (over_state p (begun (over_journal p) p 5) None [([''c.md''], ''D'')]) = (Inr v, s')"
    "pv_mode v = ''degraded''" "de_files s' = [([''c.md''], ''D''), ([conflict_name], ''D'')]"
    "load_filemap (de_client s') = Inr over_filemap" "cl_apply_journal (de_client s') ''v'' = None"
proof -
  let ?j = "begun (over_journal p) p 5" and ?fs = "[([''c.md''], ''D''), ([conflict_name], ''D'')]"
  let ?s = "over_state p ?j None [([''c.md''], ''D'')]" and ?j' = "begun (begun (over_journal p) p 5) p 6"
  have env: "ae_vault_id swap_env = ''v''" by (simp add: swap_env_def)
  have jr: "apply_journal_for swap_env p ?s ?j"
    using p by (simp add: apply_journal_for_def load_sync_apply_journal_def is_over_plan_def env)
      (simp add: swap_journal_def result_simps wf_apply_journal_iff VALID_SYNC_APPLY_PHASES_def)
  note d = apply_journal_loads [OF jr, unfolded env]
  have "store_ready swap_env idle_state ?s"
    using over_loads over_states(1) by (simp add: store_ready_def env)
      (simp add: over_filemap_def over_document_def swap_document_def submitted_state_def)
  then obtain sn where sn: "in_store (load_desk_snapshot swap_env) ?s = (Inr sn, ?s)" by (rule load_desk_snapshot_ready)
  have doc: "dn_document sn = over_filemap"
    using sn over_loads [of p ?j None "[([''c.md''], ''D'')]"]
    by (auto simp: in_store_def load_desk_snapshot_def ebind_def eread_def elift_def split: prod.splits sum.splits option.splits)
  have pl: "load_pull_apply_plan_file ?s = Inr (Some p)"
    by (simp add: load_pull_apply_plan_file_def plan_json_round_trip)
  have v: "validate_recovery_pull_apply_plan p ?j = Inr ()"
    using d by (simp add: validate_recovery_pull_apply_plan_def)
  obtain e where e: "apply_delete swap_env 6 over_delete (over_state p ?j' None [([''c.md''], ''D'')])
      = (Inl (KeyError e), over_state p ?j' None ?fs)" using over_replay_delete by blast
  have up: "in_store (upsert_sync_apply_journal ?j') ?s = (Inr (), over_state p ?j' None [([''c.md''], ''D'')])"
    by (rule over_upsert) simp
  have mt: "materialize_plan swap_env p 6 (over_state p ?j' None [([''c.md''], ''D'')]) = (Inl (KeyError e), over_state p ?j' None ?fs)"
    using p e by (simp add: materialize_plan_def is_over_plan_def ebind_def over_delete_def)
  have rp: "replay_pull_apply_plan swap_env p ?j 6 ?s = (Inl (KeyError e), over_state p ?j' None ?fs)"
    using up mt
    unfolding replay_pull_apply_plan_def ebind_def [of "apply_staged_pull_plan _ _ _ _"] apply_staged_begins [OF jr zero_le_numeral]
    by (simp add: ebind_def)
  obtain st where st: "apply_manifest_summary_stale idle_state = Inr st" using over_states(2) by blast
  have on: "powered (over_state p ?j' None ?fs)" by (simp add: powered_def)
  obtain x s' where x: "degrade_pull_apply_recovery swap_env ?j (over_state p ?j' None ?fs) = (Inr x, s')" "pv_mode x = ''degraded''"
    "de_files s' = ?fs" "load_filemap (de_client s') = Inr over_filemap" "cl_apply_journal (de_client s') ''v'' = None"
    using degrade_ok [OF on over_states(1) [of p ?j' None ?fs, folded env] st, of ?j] over_loads env by auto
  have "resume_pull_apply_recovery swap_env 6 ?s = (Inr x, s')"
    using d sn pl v rp x(1) doc over_mismatch
    by (simp add: resume_pull_apply_recovery_def ebind_def env etry_def eread_def recover_unreplayable_def)
  with x show thesis by (intro that)
qed


lemma over_applicable:
  assumes p: "is_over_plan p"
  shows "applicable swap_env over_document over_manifest p (over_state p (over_journal p) None [([''c.md''], ''C'')])"
proof -
  define s where "s = \<lparr>de_client = empty_client\<lparr>cl_staging := [(''4.staging'', ''D''), (''5.staging'', ''E'')]\<rparr>,
     de_files = [([''c.md''], ''C'')], de_dirs = [[''.noteapp''], [''.noteapp'', ''staging'']], de_plan = None\<rparr>"
  have e: "file_bytes (over_state p (over_journal p) None [([''c.md''], ''C'')]) = file_bytes s"
    "file_paths (over_state p (over_journal p) None [([''c.md''], ''C'')]) = file_paths s"
    "de_dirs (over_state p (over_journal p) None [([''c.md''], ''C'')]) = de_dirs s"
    "powered (over_state p (over_journal p) None [([''c.md''], ''C'')]) = powered s"
    by (simp_all add: s_def fun_eq_iff file_bytes_def file_paths_def powered_def empty_client_def split: option.splits)
  have l: "pp_writes p = [over_write ''4'' ''c.md'' ''D'', over_write ''5'' ''d.md'' ''E'']" "pp_moves p = []"
    using p by (simp_all add: is_over_plan_def)
  have "workspace_agrees swap_env over_document s" unfolding s_def by code_simp
  moreover have "writes_staged swap_env p s" unfolding writes_staged_def l s_def by code_simp
  moreover have "room_to_apply p s"
    unfolding room_to_apply_def files_of_apply_def dirs_of_apply_def plan_targets_def plan_ids_def l s_def by code_simp
  moreover have "pull_input over_document over_manifest" "usable_names over_document over_manifest" by code_simp+
  moreover have "powered s" by (simp add: s_def powered_def empty_client_def)
  ultimately have "applicable swap_env over_document over_manifest p s" by (simp add: applicable_def)
  then show ?thesis using applicable_same [OF e] by simp
qed

text \<open>C4: an interrupted pull that replaces a deleted file can lose another one for good. A file is
  deleted at the head, a new file takes its path and a second new file comes; the workspace is clean
  and staged, so uninterrupted the application reaches the manifest. The power fails right after the
  first new file is in place. The replay takes that file for a local change of the deleted one,
  makes a conflict copy of it, fails because the deleted file has left the file map, and degrades:
  the second file is not written and its staged bytes are put aside. The file map, which already
  mirrors the manifest, lists it as active, and the next pull of the same manifest plans nothing.\<close>

theorem interrupted_replacement_loses_file:
  "\<exists>p c v s' p'. build_pull_apply_plan id over_document (Some over_manifest) = Inr p
     \<and> converge_manifest_state over_document over_manifest [] 1 = Inr c
     \<and> applicable swap_env over_document over_manifest p (over_state p (over_journal p) None [([''c.md''], ''C'')])
     \<and> resume_pull_apply_recovery swap_env 6 (reboot (snd (apply_staged_pull_plan swap_env p (Some (over_journal p)) 5
         (over_state p (over_journal p) (Some 7) [([''c.md''], ''C'')])))) = (Inr v, s')
     \<and> pv_mode v = ''degraded'' \<and> map_of (de_files s') [''d.md''] = None
     \<and> map_of (de_files s') [conflict_name] = Some ''D''
     \<and> load_filemap (de_client s') = Inr (cv_filemap c) \<and> cl_apply_journal (de_client s') ''v'' = None
     \<and> build_pull_apply_plan id (cv_filemap c) (Some over_manifest) = Inr p'
     \<and> pp_writes p' = [] \<and> pp_moves p' = [] \<and> pp_deletes p' = []"
proof -
  obtain p where p: "build_pull_apply_plan id over_document (Some over_manifest) = Inr p" "is_over_plan p" by (rule over_plan)
  obtain c where c: "converge_manifest_state over_document over_manifest [] 1 = Inr c" "cv_filemap c = over_filemap"
    using over_converged by blast
  obtain v s' where v: "resume_pull_apply_recovery swap_env 6 (over_state p (begun (over_journal p) p 5) None [([''c.md''], ''D'')]) = (Inr v, s')"
    "pv_mode v = ''degraded''" "de_files s' = [([''c.md''], ''D''), ([conflict_name], ''D'')]"
    "load_filemap (de_client s') = Inr over_filemap" "cl_apply_journal (de_client s') ''v'' = None"
    by (rule over_recovery [OF p(2)])
  obtain p' where p': "build_pull_apply_plan id over_filemap (Some over_manifest) = Inr p'"
    "pp_writes p' = []" "pp_moves p' = []" "pp_deletes p' = []" by (rule over_next_plan)
  have "map_of (de_files s') [''d.md''] = None" "map_of (de_files s') [conflict_name] = Some ''D''" by (simp_all add: v(3))
  moreover have "resume_pull_apply_recovery swap_env 6 (reboot (snd (apply_staged_pull_plan swap_env p (Some (over_journal p)) 5
         (over_state p (over_journal p) (Some 7) [([''c.md''], ''C'')])))) = (Inr v, s')"
    unfolding over_interrupted [OF p(2)] by (rule v(1))
  moreover have "build_pull_apply_plan id (cv_filemap c) (Some over_manifest) = Inr p'"
    "load_filemap (de_client s') = Inr (cv_filemap c)" unfolding c(2) by (rule p'(1), rule v(4))
  ultimately show ?thesis using p(1) c(1) v(2,5) p'(2-) over_applicable [OF p(2)] by blast
qed

end
