(* ===== verification/Change_Plan.thy ===== *)
theory Change_Plan
  imports Change_Detection
begin

text \<open>
  The second half of \<open>clients/desktop/change_detection.py\<close>: the commit plan that takes the file map
  and the tombstones to the state of the workspace, with local renames recognized by their content.
  The specification reads a record without its time and metadata (\<open>core\<close>) and says what becomes of
  every record of the document; the loops of the code are folds of updates of such records.
\<close>

section \<open>Renames\<close>

text \<open>\<open>d.setdefault(key, []).append(x)\<close> on an insertion-ordered dictionary.\<close>

definition append_at :: "'k \<Rightarrow> 'a \<Rightarrow> ('k \<times> 'a list) list \<Rightarrow> ('k \<times> 'a list) list" where
  "append_at k x m = AList.update k ((case map_of m k of None \<Rightarrow> [] | Some xs \<Rightarrow> xs) @ [x]) m"

type_synonym rename_key = "string \<times> string"

definition missing_by_key ::
  "change_record list \<Rightarrow> filemap_document \<Rightarrow> (rename_key \<times> change_record list) list" where
  "missing_by_key changes d =
     (let active_record = dict_of fr_file_id (filter (\<lambda>r. fr_status r = ''active'') (fd_files d)) in
      fold (\<lambda>c m. case (ch_content_hash c, ch_file_id c) of
          (Some h, Some i) \<Rightarrow>
            (if ch_kind c = ''missing''
             then (case active_record i of None \<Rightarrow> m | Some r \<Rightarrow> append_at (h, fr_type r) c m)
             else m)
        | _ \<Rightarrow> m) changes [])"

definition untracked_by_key ::
  "change_record list \<Rightarrow> (rename_key \<times> change_record list) list" where
  "untracked_by_key changes =
     fold (\<lambda>c m. case ch_content_hash c of
         Some h \<Rightarrow> (if \<not> (ch_kind c = ''missing'' \<and> ch_file_id c \<noteq> None) \<and> ch_kind c = ''untracked''
           then append_at (h, ch_file_type c) c m else m)
       | None \<Rightarrow> m) changes []"

definition match_local_rename_candidates ::
  "change_set \<Rightarrow> filemap_document \<Rightarrow> (string \<times> change_record) list" where
  "match_local_rename_candidates cs d =
     fold (\<lambda>(k, missing_changes) m.
       (case (missing_changes, map_of (untracked_by_key (cs_changes cs)) k) of
          ([missing], Some [target]) \<Rightarrow>
            (case ch_file_id missing of
               None \<Rightarrow> m
             | Some i \<Rightarrow> if ch_path missing = ch_path target then m else AList.update i target m)
        | _ \<Rightarrow> m)) (missing_by_key (cs_changes cs) d) []"

section \<open>The commit plan\<close>


text \<open>What the plan is built with: the digest, \<open>mimetypes.guess_type\<close>, the builder of blob
  identifiers, and the identifier drawn for a new file. Every path is asked for an identifier at
  most once, so a function of the path also stands for \<open>uuid4\<close>.\<close>

record plan_env =
  pe_sha :: "string \<Rightarrow> string"
  pe_guess_type :: "string \<Rightarrow> string option"
  pe_blob_id :: "string \<Rightarrow> string"
  pe_file_id :: "string \<Rightarrow> string"

record change_plan =
  cp_change_set :: change_set
  cp_document :: filemap_document
  cp_content :: "(string \<times> string) list"
  cp_tombstones :: "tombstone list"
  cp_local_delete_sequence :: int

definition build_source_version_token :: "string \<Rightarrow> int \<Rightarrow> int \<Rightarrow> string" where
  "build_source_version_token content_hash size_bytes mtime =
     ''mtime:'' @ int_str mtime @ '':size:'' @ int_str size_bytes @ '':hash:'' @ content_hash"

definition resolve_mime_type :: "plan_env \<Rightarrow> file_record \<Rightarrow> string \<Rightarrow> string option" where
  "resolve_mime_type env r relative_path =
     (case dget (case fr_meta r of None \<Rightarrow> [] | Some m \<Rightarrow> m) ''mime_type'' of
        JStr m \<Rightarrow> Some m
      | _ \<Rightarrow> pe_guess_type env relative_path)"

definition content_meta ::
  "string \<Rightarrow> string option \<Rightarrow> string \<Rightarrow> disk_file \<Rightarrow> dict" where
  "content_meta blob_id mime_type content_hash f =
     [(''blob_id'', JStr blob_id), (''size'', JInt (int (length (df_bytes f)))),
      (''mtime'', JInt (mtime_ms f)), (''mime_type'', opt_json JStr mime_type),
      (''source_version_token'', JStr (build_source_version_token content_hash
         (int (length (df_bytes f))) (mtime_ms f)))]"

definition dict_update :: "dict \<Rightarrow> dict \<Rightarrow> dict" where
  "dict_update m kvs = fold (\<lambda>(k, v). AList.update k v) kvs m"

definition record_meta :: "file_record \<Rightarrow> dict" where
  "record_meta r = (case fr_meta r of None \<Rightarrow> [] | Some m \<Rightarrow> m)"

definition unsupported_change :: "change_record \<Rightarrow> bool" where
  "unsupported_change c \<longleftrightarrow>
     ch_kind c \<in> {''modified'', ''missing''} \<and> (ch_record_status c \<noteq> Some ''active'' \<or> ch_file_id c = None)
     \<or> ch_kind c \<notin> {''modified'', ''missing'', ''untracked''}"

definition unsupported_kind :: "change_record \<Rightarrow> string" where
  "unsupported_kind c = ch_kind c @ '':'' @
     (case ch_record_status c of None \<Rightarrow> ''none'' | Some s \<Rightarrow> if s = [] then ''none'' else s)"

definition modified_record :: "plan_env \<Rightarrow> string \<Rightarrow> disk_file \<Rightarrow> file_record \<Rightarrow> file_record" where
  "modified_record env relative_path f r =
     (let content_hash = sha256_hex (pe_sha env) (df_bytes f) in
      \<lparr>fr_file_id = fr_file_id r, fr_path = fr_path r, fr_type = fr_type r,
       fr_status = fr_status r, fr_updated_at = mtime_ms f, fr_content_hash = Some content_hash,
       fr_last_known_revision = fr_last_known_revision r,
       fr_conflict_source_file_id = fr_conflict_source_file_id r,
       fr_meta = Some (dict_update (record_meta r)
         (content_meta (pe_blob_id env content_hash) (resolve_mime_type env r relative_path)
           content_hash f))\<rparr>)"

text \<open>The loop over the records: the new records, the contents and the latest time.\<close>

definition plan_modify ::
  "plan_env \<Rightarrow> workspace \<Rightarrow> string list \<Rightarrow> file_record list \<times> (string \<times> string) list \<times> int \<Rightarrow> file_record
     \<Rightarrow> (file_record list \<times> (string \<times> string) list \<times> int) result" where
  "plan_modify env ws modified_ids = (\<lambda>(files, content, latest) r.
     if fr_file_id r \<notin> set modified_ids then Inr (files @ [r], content, latest)
     else
       rbind (normalize_relative_path (fr_path r)) (\<lambda>relative_path.
       rbind (read_file ws relative_path) (\<lambda>f.
       rbind (FileRecord (modified_record env relative_path f r)) (\<lambda>r'.
       Inr (files @ [r'], AList.update (fr_file_id r) (df_bytes f) content,
            max latest (mtime_ms f))))))"

definition renamed_blob_id :: "plan_env \<Rightarrow> file_record \<Rightarrow> string \<Rightarrow> string" where
  "renamed_blob_id env r content_hash =
     (case dget (record_meta r) ''blob_id'' of
        JStr b \<Rightarrow> if b = [] then pe_blob_id env content_hash else b
      | _ \<Rightarrow> pe_blob_id env content_hash)"

definition renamed_record ::
  "plan_env \<Rightarrow> string \<Rightarrow> int \<Rightarrow> disk_file \<Rightarrow> file_record \<Rightarrow> file_record" where
  "renamed_record env relative_path renamed_at f r =
     (let content_hash = sha256_hex (pe_sha env) (df_bytes f) in
      \<lparr>fr_file_id = fr_file_id r, fr_path = relative_path, fr_type = fr_type r,
       fr_status = fr_status r, fr_updated_at = renamed_at, fr_content_hash = Some content_hash,
       fr_last_known_revision = fr_last_known_revision r,
       fr_conflict_source_file_id = fr_conflict_source_file_id r,
       fr_meta = Some (dict_update (record_meta r)
         (content_meta (renamed_blob_id env r content_hash) (resolve_mime_type env r relative_path)
           content_hash f))\<rparr>)"

text \<open>One matched rename; \<open>d\<close> is the document the plan started from, \<open>wd\<close> the working document.\<close>

definition plan_rename ::
  "plan_env \<Rightarrow> workspace \<Rightarrow> filemap_document
     \<Rightarrow> filemap_document \<times> (string \<times> string) list \<Rightarrow> string \<times> change_record
     \<Rightarrow> (filemap_document \<times> (string \<times> string) list) result" where
  "plan_rename env ws d = (\<lambda>(wd, content) (file_id, rename_target).
     case dict_of fr_file_id (fd_files d) file_id of
       None \<Rightarrow> Inl (KeyError (''file_id not found in document: '' @ file_id))
     | Some current \<Rightarrow>
         rbind (normalize_relative_path (ch_path rename_target)) (\<lambda>relative_path.
         rbind (read_file ws relative_path) (\<lambda>f.
         let content_hash = sha256_hex (pe_sha env) (df_bytes f);
             renamed_at = max (max (fd_updated_at wd) (fr_updated_at current)) (mtime_ms f) + 1 in
         if Some content_hash \<noteq> fr_content_hash current
         then Inl (ValueError (''rename candidate content hash mismatch for file_id: '' @ file_id))
         else
         rbind (rename_file wd file_id relative_path renamed_at) (\<lambda>wd.
         rbind (mapM (\<lambda>r. if fr_file_id r \<noteq> file_id then Inr r
             else FileRecord (renamed_record env relative_path renamed_at f r))
           (fd_files wd)) (\<lambda>files.
         rbind (replace_files wd files (max (fd_updated_at wd) renamed_at)) (\<lambda>wd.
         Inr (wd, AList.update file_id (df_bytes f) content)))))))"

definition rename_order :: "string \<times> change_record \<Rightarrow> string \<times> string" where
  "rename_order e = (ch_path (snd e), fst e)"

definition plan_delete ::
  "string option \<Rightarrow> filemap_document \<times> int \<times> tombstone list \<Rightarrow> file_record
     \<Rightarrow> (filemap_document \<times> int \<times> tombstone list) result" where
  "plan_delete deleted_by_device = (\<lambda>(wd, delete_seq, tombstones) r.
     rbind (mark_deleted wd (fr_file_id r) (max (fd_updated_at wd) (fr_updated_at r) + 1)
              (delete_seq + 1) None deleted_by_device) (\<lambda>(wd, t).
     Inr (wd, delete_seq + 1, tombstones @ [t])))"

definition added_record :: "plan_env \<Rightarrow> string \<Rightarrow> string \<Rightarrow> disk_file \<Rightarrow> file_record" where
  "added_record env relative_path type f =
     (let content_hash = sha256_hex (pe_sha env) (df_bytes f) in
      \<lparr>fr_file_id = pe_file_id env relative_path, fr_path = relative_path, fr_type = type,
       fr_status = ''active'', fr_updated_at = mtime_ms f, fr_content_hash = Some content_hash,
       fr_last_known_revision = None, fr_conflict_source_file_id = None,
       fr_meta = Some (content_meta (pe_blob_id env content_hash)
         (pe_guess_type env relative_path) content_hash f)\<rparr>)"

definition plan_add ::
  "plan_env \<Rightarrow> workspace \<Rightarrow> filemap_document \<times> (string \<times> string) list \<Rightarrow> change_record
     \<Rightarrow> (filemap_document \<times> (string \<times> string) list) result" where
  "plan_add env ws = (\<lambda>(wd, content) c.
     rbind (normalize_relative_path (ch_path c)) (\<lambda>relative_path.
     rbind (read_file ws relative_path) (\<lambda>f.
     let content_hash = sha256_hex (pe_sha env) (df_bytes f);
         file_id = pe_file_id env relative_path in
     rbind (add_file wd file_id relative_path (ch_file_type c) (mtime_ms f) (Some content_hash) None) (\<lambda>wd.
     rbind (mapM (\<lambda>r. if fr_file_id r \<noteq> file_id then Inr r
         else FileRecord (added_record env relative_path (ch_file_type c) f))
       (fd_files wd)) (\<lambda>files.
     rbind (replace_files wd files (max (fd_updated_at wd) (mtime_ms f))) (\<lambda>wd.
     Inr (wd, AList.update file_id (df_bytes f) content)))))))"

text \<open>The last loop reads the active files no earlier loop has read.\<close>

definition plan_unchanged ::
  "plan_env \<Rightarrow> workspace \<Rightarrow> (string \<times> string) list \<Rightarrow> file_record
     \<Rightarrow> (string \<times> string) list result" where
  "plan_unchanged env ws content r =
     (if fr_status r \<noteq> ''active'' \<or> map_of content (fr_file_id r) \<noteq> None then Inr content
      else rbind (read_file ws (fr_path r)) (\<lambda>f.
        if Some (sha256_hex (pe_sha env) (df_bytes f)) \<noteq> fr_content_hash r
        then Inl (ValueError (''active file drifted outside detected change plan: '' @ fr_file_id r))
        else Inr (AList.update (fr_file_id r) (df_bytes f) content)))"

definition build_tracked_change_commit_plan ::
  "plan_env \<Rightarrow> workspace \<Rightarrow> filemap_document \<Rightarrow> change_set option \<Rightarrow> tombstone list \<Rightarrow> int
     \<Rightarrow> string option \<Rightarrow> change_plan result" where
  "build_tracked_change_commit_plan env ws d change_set tombstones delete_seq deleted_by_device =
     rbind (case change_set of
         None \<Rightarrow> detect_local_workspace_changes (pe_sha env) ws d | Some cs \<Rightarrow> Inr cs) (\<lambda>cs.
     let unsupported = filter unsupported_change (cs_changes cs) in
     if unsupported \<noteq> []
     then Inl (ValueError (''detected local changes include unsupported items for tracked submit: ''
            @ join '', '' (sorted_set (map unsupported_kind unsupported))))
     else if cs_changes cs = [] \<and> \<not> (\<exists>t \<in> set tombstones. tb_deleted_revision t = None)
     then Inl (ValueError ''no supported tracked changes detected'')
     else
     let renames = match_local_rename_candidates cs d;
         consumed = map (ch_path \<circ> snd) renames in
     rbind (foldM (plan_modify env ws (cs_modified_file_ids cs)) ([], [], fd_updated_at d) (fd_files d))
       (\<lambda>(files, content, latest).
     rbind (replace_files d files latest) (\<lambda>wd.
     rbind (foldM (plan_rename env ws d) (wd, content) (sort_key rename_order renames))
       (\<lambda>(wd, content).
     rbind (foldM (plan_delete deleted_by_device) (wd, delete_seq, tombstones)
         (filter (\<lambda>r. fr_file_id r \<in> set (cs_missing_file_ids cs) \<and> fr_file_id r \<notin> fst ` set renames)
           (fd_files d))) (\<lambda>(wd, delete_seq, tombstones).
     rbind (foldM (plan_add env ws) (wd, content)
         (filter (\<lambda>c. ch_kind c = ''untracked'' \<and> ch_path c \<notin> set consumed) (cs_changes cs)))
       (\<lambda>(wd, content).
     rbind (foldM (plan_unchanged env ws) content (fd_files wd)) (\<lambda>content.
     Inr \<lparr>cp_change_set = cs, cp_document = wd, cp_content = content,
          cp_tombstones = tombstones, cp_local_delete_sequence = delete_seq\<rparr>)))))))"

section \<open>Which renames are matched\<close>

definition grouped :: "('k \<Rightarrow> 'a \<Rightarrow> bool) \<Rightarrow> ('k \<times> 'a list) list \<Rightarrow> bool" where
  "grouped Q m \<longleftrightarrow> distinct (map fst m) \<and> (\<forall>k xs. map_of m k = Some xs \<longrightarrow> (\<forall>x \<in> set xs. Q k x))"

lemma grouped_Nil [simp]: "grouped Q []"
  by (simp add: grouped_def)

lemma grouped_append_at: "grouped Q m \<Longrightarrow> Q k x \<Longrightarrow> grouped Q (append_at k x m)"
  by (auto simp: grouped_def append_at_def distinct_update update_conv' split: option.splits if_splits)

lemma grouped_mem: "grouped Q m \<Longrightarrow> (k, xs) \<in> set m \<Longrightarrow> x \<in> set xs \<Longrightarrow> Q k x"
  by (auto simp: grouped_def)

definition missing_under :: "change_record list \<Rightarrow> rename_key \<Rightarrow> change_record \<Rightarrow> bool" where
  "missing_under changes k c \<longleftrightarrow>
     c \<in> set changes \<and> ch_kind c = ''missing'' \<and> ch_content_hash c = Some (fst k)"

definition untracked_under :: "change_record list \<Rightarrow> rename_key \<Rightarrow> change_record \<Rightarrow> bool" where
  "untracked_under changes k c \<longleftrightarrow> c \<in> set changes \<and> ch_kind c = ''untracked''
     \<and> ch_content_hash c = Some (fst k) \<and> ch_file_type c = snd k"

lemma grouped_missing: "grouped (missing_under changes) (missing_by_key changes d)"
  unfolding missing_by_key_def Let_def
  by (rule fold_invariant [where Q = "\<lambda>c. c \<in> set changes"])
     (auto intro!: grouped_append_at simp: missing_under_def split: option.splits)

lemma grouped_untracked: "grouped (untracked_under changes) (untracked_by_key changes)"
  unfolding untracked_by_key_def
  by (rule fold_invariant [where Q = "\<lambda>c. c \<in> set changes"])
     (auto intro!: grouped_append_at simp: untracked_under_def split: option.splits)

text \<open>A matched rename takes a missing record to an untracked file with the same hash.\<close>

definition rename_pair :: "change_set \<Rightarrow> string \<Rightarrow> change_record \<Rightarrow> bool" where
  "rename_pair cs i c \<longleftrightarrow> (\<exists>k x. missing_under (cs_changes cs) k x \<and> ch_file_id x = Some i
     \<and> untracked_under (cs_changes cs) k c)"

definition renames_ok :: "change_set \<Rightarrow> (string \<times> change_record) list \<Rightarrow> bool" where
  "renames_ok cs m \<longleftrightarrow> distinct (map fst m) \<and> (\<forall>e \<in> set m. rename_pair cs (fst e) (snd e))"

lemma rename_pairD:
  assumes "rename_pair cs i c"
  obtains x where "x \<in> set (cs_changes cs)" "ch_kind x = ''missing''" "ch_file_id x = Some i"
    "c \<in> set (cs_changes cs)" "ch_kind c = ''untracked''" "ch_content_hash c = ch_content_hash x"
  using assms by (auto simp: rename_pair_def missing_under_def untracked_under_def)

lemma set_update: "e \<in> set (AList.update i c m) \<Longrightarrow> e = (i, c) \<or> e \<in> set m"
  by (induction m) (auto split: if_splits)

lemma renames_ok_update:
  "renames_ok cs m \<Longrightarrow> rename_pair cs i c \<Longrightarrow> renames_ok cs (AList.update i c m)"
  by (auto simp: renames_ok_def distinct_update dest!: set_update)

lemma match_renames_ok: "renames_ok cs (match_local_rename_candidates cs d)"
  unfolding match_local_rename_candidates_def
proof (rule fold_invariant [where Q = "\<lambda>e. e \<in> set (missing_by_key (cs_changes cs) d)"])
  fix e m
  assume e: "e \<in> set (missing_by_key (cs_changes cs) d)" and m: "renames_ok cs m"
  obtain k ms where k: "e = (k, ms)" by (cases e)
  have pair: "rename_pair cs i c" if "ms = [x]" "ch_file_id x = Some i"
    "map_of (untracked_by_key (cs_changes cs)) k = Some [c]" for x i c
  proof -
    have "missing_under (cs_changes cs) k x"
      using grouped_mem [OF grouped_missing] e k that(1) by auto
    moreover have "untracked_under (cs_changes cs) k c"
      using grouped_mem [OF grouped_untracked map_of_SomeD [OF that(3)]] by simp
    ultimately show ?thesis using that(2) by (auto simp only: rename_pair_def)
  qed
  show "renames_ok cs ((case e of (k, missing_changes) \<Rightarrow> \<lambda>m.
      (case (missing_changes, map_of (untracked_by_key (cs_changes cs)) k) of
          ([missing], Some [target]) \<Rightarrow>
            (case ch_file_id missing of
               None \<Rightarrow> m
             | Some i \<Rightarrow> if ch_path missing = ch_path target then m else AList.update i target m)
        | _ \<Rightarrow> m)) m)"
    using m by (auto simp: k intro!: renames_ok_update pair split: list.splits option.splits)
qed (auto simp: renames_ok_def)

section \<open>Records without their time and metadata\<close>

definition core :: "file_record \<Rightarrow> file_record" where
  "core r = r\<lparr>fr_updated_at := 0, fr_meta := None\<rparr>"

lemma core_fields [simp]:
  "fr_file_id (core r) = fr_file_id r" "fr_path (core r) = fr_path r" "fr_type (core r) = fr_type r"
  "fr_status (core r) = fr_status r" "fr_content_hash (core r) = fr_content_hash r"
  "live (core r) = live r" "tracked (core r) = tracked r"
  by (simp_all add: core_def live_def tracked_def)

lemma core_update [simp]:
  "core (r\<lparr>fr_path := p\<rparr>) = (core r)\<lparr>fr_path := p\<rparr>" "core (r\<lparr>fr_updated_at := t\<rparr>) = core r"
  "core (core r) = core r"
  by (simp_all add: core_def)

lemma core_records [simp]:
  "core (modified_record env p f r)
     = (core r)\<lparr>fr_content_hash := Some (sha256_hex (pe_sha env) (df_bytes f))\<rparr>"
  "core (renamed_record env p t f r)
     = (core r)\<lparr>fr_path := p, fr_content_hash := Some (sha256_hex (pe_sha env) (df_bytes f))\<rparr>"
  by (cases r, simp add: core_def modified_record_def renamed_record_def Let_def)+

text \<open>What the plan does to a record: a modified one, a renamed one, a deleted one, a new one.\<close>

definition rehash :: "(string \<Rightarrow> string) \<Rightarrow> workspace \<Rightarrow> file_record \<Rightarrow> file_record" where
  "rehash sha ws r = r\<lparr>fr_content_hash := disk_hash sha ws (fr_path r)\<rparr>"

definition move_to ::
  "(string \<Rightarrow> string) \<Rightarrow> workspace \<Rightarrow> string \<times> change_record \<Rightarrow> file_record \<Rightarrow> file_record" where
  "move_to sha ws e r = (if fr_file_id r = fst e
     then rehash sha ws (r\<lparr>fr_path := as_posix (path_parts (ch_path (snd e)))\<rparr>) else r)"

definition drop_record :: "string \<Rightarrow> file_record \<Rightarrow> file_record" where
  "drop_record i r = (if fr_file_id r = i
     then r\<lparr>fr_status := ''deleted'', fr_conflict_source_file_id := None\<rparr> else r)"

definition new_record :: "plan_env \<Rightarrow> workspace \<Rightarrow> change_record \<Rightarrow> file_record" where
  "new_record env ws c = (let p = as_posix (path_parts (ch_path c)) in
     \<lparr>fr_file_id = pe_file_id env p, fr_path = p, fr_type = ch_file_type c, fr_status = ''active'',
      fr_updated_at = 0, fr_content_hash = disk_hash (pe_sha env) ws p,
      fr_last_known_revision = None, fr_conflict_source_file_id = None, fr_meta = None\<rparr>)"

definition add_record :: "file_record \<Rightarrow> file_record list \<Rightarrow> file_record list" where
  "add_record n rs = map (\<lambda>r. if fr_file_id r = fr_file_id n then n else r) rs @ [n]"

definition cores :: "filemap_document \<Rightarrow> file_record list" where
  "cores d = map core (fd_files d)"

lemma mapM_rewrite [result_simps]:
  "mapM (\<lambda>r. if fr_file_id r \<noteq> i then Inr r else FileRecord (f r)) xs = Inr ys \<longleftrightarrow>
     ys = map (\<lambda>r. if fr_file_id r = i then f r else r) xs
     \<and> (\<forall>r \<in> set xs. fr_file_id r = i \<longrightarrow> wf_file_record (f r))"
  by (induction xs arbitrary: ys) (auto simp: result_simps)

text \<open>A step of a loop that went through, seen on the cores.\<close>

lemma plan_rename_step:
  assumes "plan_rename env ws d (wd, content) (i, c) = Inr (wd', content')"
  obtains f cur where "dict_of fr_file_id (fd_files d) i = Some cur" "safe_path (ch_path c)"
    "file_at ws (ch_path c) = Some f"
    "fr_content_hash cur = Some (sha256_hex (pe_sha env) (df_bytes f))"
    "content' = AList.update i (df_bytes f) content"
    "cores wd' = map (move_to (pe_sha env) ws (i, c)) (cores wd)"
    "fd_vault_id wd' = fd_vault_id wd" "fd_updated_at wd < fd_updated_at wd'"
proof -
  let ?p = "as_posix (path_parts (ch_path c))"
  from assms obtain cur where cur: "dict_of fr_file_id (fd_files d) i = Some cur"
    by (auto simp: plan_rename_def split: option.splits)
  from assms obtain f where p: "safe_path (ch_path c)" and f: "file_at ws (ch_path c) = Some f"
    by (auto simp: plan_rename_def cur rbind_eq_Inr read_file_eq_Inr normalize_eq_safe file_at_normal)
  have rf: "read_file ws ?p = Inr f" using p f by (simp add: read_file_eq_Inr file_at_normal)
  let ?h = "sha256_hex (pe_sha env) (df_bytes f)"
  have h: "fr_content_hash cur = Some ?h"
    using assms by (auto simp: plan_rename_def cur p rf Let_def split: if_splits)
  let ?t = "max (max (fd_updated_at wd) (fr_updated_at cur)) (mtime_ms f) + 1"
  from assms obtain wd1 where r: "rename_file wd i ?p ?t = Inr wd1"
    by (auto simp: plan_rename_def cur p rf h Let_def rbind_eq_Inr)
  have wd': "wd' = wd1\<lparr>fd_files := map (\<lambda>r. if fr_file_id r = i then renamed_record env ?p ?t f r else r)
        (fd_files wd1), fd_updated_at := max (fd_updated_at wd1) ?t\<rparr>"
    and c: "content' = AList.update i (df_bytes f) content"
    using assms unfolding plan_rename_def
    by (auto simp: cur p rf h r Let_def rbind_eq_Inr mapM_rewrite replace_files_eq_Inr)
  have w: "fd_files wd1 = map (\<lambda>r. if fr_file_id r = i then r\<lparr>fr_path := ?p, fr_updated_at := ?t\<rparr> else r) (fd_files wd)"
    and v: "wd1 = wd\<lparr>fd_files := fd_files wd1, fd_updated_at := ?t\<rparr>"
    using r unfolding rename_file_edited edited_def by blast+
  have "fd_vault_id wd1 = fd_vault_id wd" "fd_updated_at wd1 = ?t" by (subst v, simp)+
  moreover have "cores wd' = map (move_to (pe_sha env) ws (i, c)) (cores wd)"
    by (simp add: cores_def wd' w move_to_def rehash_def disk_hash_def file_at_normal p f)
  ultimately show thesis
    using cur p f h c by (intro that) (simp_all add: wd')
qed

lemma plan_delete_step:
  assumes "plan_delete dev (wd, delete_seq, ts) r = Inr (wd', delete_seq', ts')"
  obtains t where "cores wd' = map (drop_record (fr_file_id r)) (cores wd)"
    "delete_seq' = delete_seq + 1" "ts' = ts @ [t]" "wf_tombstone t" "tb_file_id t = fr_file_id r"
    "tb_deleted_revision t = None" "tb_local_delete_seq t = delete_seq + 1"
    "tb_deleted_by_device t = dev"
proof -
  let ?t = "max (fd_updated_at wd) (fr_updated_at r) + 1"
  from assms obtain t where m: "mark_deleted wd (fr_file_id r) ?t (delete_seq + 1) None dev = Inr (wd', t)"
    and s: "delete_seq' = delete_seq + 1" "ts' = ts @ [t]"
    by (auto simp: plan_delete_def rbind_eq_Inr)
  from mark_deleted_edited [OF m] have
    "fd_files wd' = map (\<lambda>q. if fr_file_id q = fr_file_id r then deleted_record ?t None q else q) (fd_files wd)"
    by (auto simp: edited_def)
  moreover have "core (deleted_record ?t None q)
      = (core q)\<lparr>fr_status := ''deleted'', fr_conflict_source_file_id := None\<rparr>" for q
    by (cases q) (simp add: core_def deleted_record_def)
  ultimately have "cores wd' = map (drop_record (fr_file_id r)) (cores wd)"
    by (simp add: cores_def drop_record_def)
  with s mark_deleted_edited [OF m] show thesis by (intro that) auto
qed

lemma plan_add_step:
  assumes "plan_add env ws (wd, content) c = Inr (wd', content')"
  obtains f where "safe_path (ch_path c)" "file_at ws (ch_path c) = Some f"
    "content' = AList.update (fr_file_id (new_record env ws c)) (df_bytes f) content"
    "cores wd' = add_record (new_record env ws c) (cores wd)" "fd_updated_at wd' = mtime_ms f"
proof -
  let ?p = "as_posix (path_parts (ch_path c))"
  from assms obtain f where p: "safe_path (ch_path c)" and f: "file_at ws (ch_path c) = Some f"
    by (auto simp: plan_add_def rbind_eq_Inr read_file_eq_Inr normalize_eq_safe file_at_normal)
  have rf: "read_file ws ?p = Inr f" using p f by (simp add: read_file_eq_Inr file_at_normal)
  let ?h = "sha256_hex (pe_sha env) (df_bytes f)"
  from assms obtain wd1 where
    a: "add_file wd (pe_file_id env ?p) ?p (ch_file_type c) (mtime_ms f) (Some ?h) None = Inr wd1"
    by (auto simp: plan_add_def p rf Let_def rbind_eq_Inr)
  have wd': "fd_files wd' = map (\<lambda>r. if fr_file_id r = pe_file_id env ?p
        then added_record env ?p (ch_file_type c) f else r) (fd_files wd1)"
      "fd_updated_at wd' = max (fd_updated_at wd1) (mtime_ms f)"
    and c: "content' = AList.update (pe_file_id env ?p) (df_bytes f) content"
    using assms unfolding plan_add_def
    by (auto simp: p rf a Let_def rbind_eq_Inr mapM_rewrite replace_files_eq_Inr)
  obtain r where r: "fr_file_id r = pe_file_id env ?p" "fd_files wd1 = fd_files wd @ [r]"
    using add_file_appended [OF a] by (auto simp: appended_def)
  have n: "core (added_record env ?p (ch_file_type c) f) = new_record env ws c"
    by (simp add: core_def added_record_def new_record_def Let_def disk_hash_def file_at_normal p f)
  have "cores wd' = add_record (new_record env ws c) (cores wd)"
    by (simp add: cores_def wd' r n add_record_def if_distrib cong: if_cong)
       (simp add: new_record_def Let_def)
  moreover have "fd_updated_at wd1 = mtime_ms f"
    using a by (auto simp: add_file_def rbind_eq_Inr replace_files_eq_Inr)
  ultimately show thesis using p f c wd'(2) by (intro that) (simp_all add: new_record_def Let_def)
qed

definition modified_core ::
  "(string \<Rightarrow> string) \<Rightarrow> workspace \<Rightarrow> string list \<Rightarrow> file_record \<Rightarrow> file_record" where
  "modified_core sha ws ids r = (if fr_file_id r \<in> set ids then rehash sha ws (core r) else core r)"

lemma plan_modify_step:
  assumes "plan_modify env ws ids (files, content, latest) r = Inr (files', content', latest')"
  shows "map core files' = map core files @ [modified_core (pe_sha env) ws ids r]"
    and "fr_file_id r \<notin> set ids \<and> content' = content
      \<or> fr_file_id r \<in> set ids \<and> (\<exists>f. safe_path (fr_path r) \<and> file_at ws (fr_path r) = Some f
          \<and> content' = AList.update (fr_file_id r) (df_bytes f) content)"
    and "latest \<le> latest'"
  using assms by (auto simp: plan_modify_def result_simps modified_core_def rehash_def disk_hash_def
      normalize_eq_safe file_at_normal split: if_splits)

lemma fold_snoc: "fold (\<lambda>x ys. ys @ [g x]) xs ys = ys @ map g xs"
  by (induction xs arbitrary: ys) auto

lemma plan_modify_core:
  assumes "foldM (plan_modify env ws ids) ([], [], t) rs = Inr (files, content, latest)"
  shows "map core files = map (modified_core (pe_sha env) ws ids) rs"
proof -
  have step: "plan_modify env ws ids s r = Inr u \<Longrightarrow>
      map core (fst u) = map core (fst s) @ [modified_core (pe_sha env) ws ids r]" for s r u
    by (cases s, cases u) (auto dest: plan_modify_step(1))
  have "map core files = fold (\<lambda>r ys. ys @ [modified_core (pe_sha env) ws ids r]) rs []"
    using foldM_fold [OF assms, where g = "\<lambda>s. map core (fst s)"
        and h = "\<lambda>r ys. ys @ [modified_core (pe_sha env) ws ids r]", OF step] by simp
  then show ?thesis by (simp add: fold_snoc)
qed

lemma fold_of_maps: "fold (\<lambda>x. map (f x)) xs ys = map (fold f xs) ys"
  by (induction xs arbitrary: ys) (auto simp: o_def)

lemma move_to_id [simp]: "fr_file_id (move_to sha ws e r) = fr_file_id r"
  by (simp add: move_to_def rehash_def)

lemma drop_record_id [simp]: "fr_file_id (drop_record i r) = fr_file_id r"
  by (simp add: drop_record_def)

lemma fold_move_to:
  "distinct (map fst es) \<Longrightarrow> fold (move_to sha ws) es r =
     (case map_of es (fr_file_id r) of None \<Rightarrow> r | Some c \<Rightarrow> move_to sha ws (fr_file_id r, c) r)"
proof (induction es arbitrary: r)
  case (Cons e es)
  then have "fr_file_id r = fst e \<Longrightarrow> map_of es (fr_file_id r) = None"
    by (simp add: map_of_eq_None_iff)
  with Cons show ?case by (cases e; cases "fr_file_id r = fst e") (auto simp: move_to_def rehash_def)
qed simp

lemma fold_drop_record:
  "fold drop_record is r = (if fr_file_id r \<in> set is then drop_record (fr_file_id r) r else r)"
  by (induction "is" arbitrary: r) (auto simp: drop_record_def)

lemma fold_add_record:
  "distinct (map fr_file_id ns) \<Longrightarrow> fr_file_id ` set ns \<inter> fr_file_id ` set rs = {} \<Longrightarrow>
     fold add_record ns rs = rs @ ns"
proof (induction ns arbitrary: rs)
  case (Cons n ns)
  have "map (\<lambda>r. if fr_file_id r = fr_file_id n then n else r) rs = rs"
    using Cons.prems(2) by (intro map_idI) (auto simp: image_iff)
  then have "add_record n rs = rs @ [n]" by (simp add: add_record_def)
  moreover have "fold add_record ns (rs @ [n]) = (rs @ [n]) @ ns"
    using Cons.prems by (intro Cons.IH) auto
  ultimately show ?case by simp
qed simp

lemma map_of_sort_key [simp]: "distinct (map fst es) \<Longrightarrow> map_of (sort_key k es) = map_of es"
  by (simp add: map_of_inject_set)

section \<open>The stages of a plan\<close>

definition adds_of :: "change_set \<Rightarrow> (string \<times> change_record) list \<Rightarrow> change_record list" where
  "adds_of cs renames =
     filter (\<lambda>c. ch_kind c = ''untracked'' \<and> ch_path c \<notin> (ch_path \<circ> snd) ` set renames) (cs_changes cs)"

definition deletes_of ::
  "change_set \<Rightarrow> (string \<times> change_record) list \<Rightarrow> filemap_document \<Rightarrow> file_record list" where
  "deletes_of cs renames d = filter (\<lambda>r. fr_file_id r \<in> set (cs_missing_file_ids cs)
     \<and> fr_file_id r \<notin> fst ` set renames) (fd_files d)"

text \<open>The documents after the loops over the modified, the renamed, the deleted and the new files.\<close>

record stages =
  st_changes :: change_set
  st_modified :: "file_record list \<times> (string \<times> string) list \<times> int"
  st_renamed :: "filemap_document \<times> (string \<times> string) list"
  st_deleted :: "filemap_document \<times> int \<times> tombstone list"
  st_added :: "filemap_document \<times> (string \<times> string) list"

definition staged ::
  "plan_env \<Rightarrow> workspace \<Rightarrow> filemap_document \<Rightarrow> tombstone list \<Rightarrow> int \<Rightarrow> string option \<Rightarrow> stages
     \<Rightarrow> change_plan \<Rightarrow> bool" where
  "staged env ws d ts n dev s p \<longleftrightarrow> (let cs = st_changes s; renames = match_local_rename_candidates cs d in
     \<not> (\<exists>c \<in> set (cs_changes cs). unsupported_change c) \<and>
     foldM (plan_modify env ws (cs_modified_file_ids cs)) ([], [], fd_updated_at d) (fd_files d)
       = Inr (st_modified s) \<and>
     foldM (plan_rename env ws d) (d\<lparr>fd_files := fst (st_modified s),
         fd_updated_at := snd (snd (st_modified s))\<rparr>, fst (snd (st_modified s)))
       (sort_key rename_order renames) = Inr (st_renamed s) \<and>
     foldM (plan_delete dev) (fst (st_renamed s), n, ts) (deletes_of cs renames d) = Inr (st_deleted s) \<and>
     foldM (plan_add env ws) (fst (st_deleted s), snd (st_renamed s)) (adds_of cs renames)
       = Inr (st_added s) \<and>
     foldM (plan_unchanged env ws) (snd (st_added s)) (fd_files (fst (st_added s)))
       = Inr (cp_content p) \<and>
     cp_change_set p = cs \<and> cp_document p = fst (st_added s) \<and>
     cp_tombstones p = snd (snd (st_deleted s)) \<and> cp_local_delete_sequence p = fst (snd (st_deleted s)))"

lemma plan_staged:
  assumes "build_tracked_change_commit_plan env ws d None ts n dev = Inr p"
  obtains s where "detect_local_workspace_changes (pe_sha env) ws d = Inr (st_changes s)"
    "staged env ws d ts n dev s p"
proof -
  from assms obtain cs where cs: "detect_local_workspace_changes (pe_sha env) ws d = Inr cs"
    by (auto simp: build_tracked_change_commit_plan_def rbind_eq_Inr)
  let ?r = "match_local_rename_candidates cs d"
  have a: "filter (\<lambda>c. ch_kind c = ''untracked'' \<and> ch_path c \<notin> set (map (ch_path \<circ> snd) ?r)) (cs_changes cs)
      = adds_of cs ?r" by (simp add: adds_of_def)
  note b = assms [unfolded build_tracked_change_commit_plan_def cs option.case rbind_Inr Let_def a
      deletes_of_def [symmetric]]
  from b obtain m1 m2 m3 r1 r2 e1 e2 e3 a1 a2 where
    u: "filter unsupported_change (cs_changes cs) = []" and
    "foldM (plan_modify env ws (cs_modified_file_ids cs)) ([], [], fd_updated_at d) (fd_files d)
       = Inr (m1, m2, m3)"
    "foldM (plan_rename env ws d) (d\<lparr>fd_files := m1, fd_updated_at := m3\<rparr>, m2)
       (sort_key rename_order ?r) = Inr (r1, r2)"
    "foldM (plan_delete dev) (r1, n, ts) (deletes_of cs ?r d) = Inr (e1, e2, e3)"
    "foldM (plan_add env ws) (e1, r2) (adds_of cs ?r) = Inr (a1, a2)"
    "foldM (plan_unchanged env ws) a2 (fd_files a1) = Inr (cp_content p)"
    "cp_change_set p = cs" "cp_document p = a1" "cp_tombstones p = e3" "cp_local_delete_sequence p = e2"
    by (auto simp: rbind_eq_Inr replace_files_eq_Inr simp del: filter_empty_conv split: if_splits)
  then have "staged env ws d ts n dev \<lparr>st_changes = cs, st_modified = (m1, m2, m3), st_renamed = (r1, r2),
      st_deleted = (e1, e2, e3), st_added = (a1, a2)\<rparr> p"
    by (simp add: staged_def Let_def filter_empty_conv)
  with cs show thesis by (intro that) simp_all
qed

lemma rename_loop_core:
  assumes "foldM (plan_rename env ws d) s es = Inr t"
  shows "cores (fst t) = map (fold (move_to (pe_sha env) ws) es) (cores (fst s))"
proof -
  have "plan_rename env ws d s e = Inr t \<Longrightarrow>
      cores (fst t) = map (move_to (pe_sha env) ws e) (cores (fst s))" for s e t
    by (cases s, cases e, cases t) (auto elim!: plan_rename_step)
  from foldM_fold [OF assms, where g = "\<lambda>s. cores (fst s)" and h = "\<lambda>e. map (move_to (pe_sha env) ws e)",
      OF this] show ?thesis by (simp add: fold_of_maps)
qed

lemma delete_loop_core:
  assumes "foldM (plan_delete dev) s rs = Inr t"
  shows "cores (fst t) = map (fold drop_record (map fr_file_id rs)) (cores (fst s))"
proof -
  have "plan_delete dev s r = Inr t \<Longrightarrow>
      cores (fst t) = map (drop_record (fr_file_id r)) (cores (fst s))" for s r t
    by (cases s, cases t) (auto elim!: plan_delete_step)
  from foldM_fold [OF assms, where g = "\<lambda>s. cores (fst s)" and h = "\<lambda>r. map (drop_record (fr_file_id r))",
      OF this] show ?thesis by (simp add: fold_map o_def fold_of_maps)
qed

lemma add_loop_core:
  assumes "foldM (plan_add env ws) s cs = Inr t"
  shows "cores (fst t) = fold add_record (map (new_record env ws) cs) (cores (fst s))"
proof -
  have "plan_add env ws s c = Inr t \<Longrightarrow>
      cores (fst t) = add_record (new_record env ws c) (cores (fst s))" for s c t
    by (cases s, cases t) (auto elim!: plan_add_step)
  from foldM_fold [OF assms, where g = "\<lambda>s. cores (fst s)" and h = "\<lambda>c. add_record (new_record env ws c)",
      OF this] show ?thesis by (simp add: fold_map o_def)
qed

text \<open>What becomes of a record of the document.\<close>

definition planned_record ::
  "(string \<Rightarrow> string) \<Rightarrow> workspace \<Rightarrow> (string \<times> change_record) list \<Rightarrow> file_record \<Rightarrow> file_record" where
  "planned_record sha ws renames r =
     (if \<not> tracked r then core r
      else if file_at ws (fr_path r) \<noteq> None then rehash sha ws (core r)
      else case map_of renames (fr_file_id r) of
        Some c \<Rightarrow> (core r)\<lparr>fr_path := ch_path c\<rparr>
      | None \<Rightarrow> drop_record (fr_file_id r) (core r))"

lemma untracked_filesD:
  assumes "wf_workspace ws" "e \<in> set (untracked_files ws d)"
  shows "clean_parts (fst e)" "fst e \<noteq> []" "map_of ws (fst e) = Some (snd e)" "synced (fst e)"
    "\<not> tracked_path d (as_posix (fst e))"
  using assms by (auto simp: untracked_files_def wf_workspace_def)

lemma untracked_change_found:
  assumes ws: "wf_workspace ws" and cs: "detect_local_workspace_changes sha ws d = Inr cs"
    and c: "c \<in> set (cs_changes cs)" "ch_kind c = ''untracked''"
  obtains e where "e \<in> set (untracked_files ws d)" "c = untracked_change sha e"
  using c unfolding detectD(4) [OF ws cs] set_found_changes by auto

lemma rename_found:
  assumes ws: "wf_workspace ws" and cs: "detect_local_workspace_changes sha ws d = Inr cs"
    and m: "map_of (match_local_rename_candidates cs d) i = Some c"
  obtains r e where "r \<in> set (fd_files d)" "gone ws r" "fr_file_id r = i"
    "e \<in> set (untracked_files ws d)" "c = untracked_change sha e"
    "disk_hash sha ws (as_posix (fst e)) = fr_content_hash r"
proof -
  have "rename_pair cs i c"
    using match_renames_ok [of cs d] map_of_SomeD [OF m] by (auto simp: renames_ok_def)
  then obtain x where x: "x \<in> set (cs_changes cs)" "ch_kind x = ''missing''" "ch_file_id x = Some i"
    and c: "c \<in> set (cs_changes cs)" "ch_kind c = ''untracked''" and h: "ch_content_hash c = ch_content_hash x"
    by (rule rename_pairD)
  obtain e where e: "e \<in> set (untracked_files ws d)" "c = untracked_change sha e"
    using untracked_change_found [OF ws cs c] .
  from x obtain r where r: "r \<in> set (fd_files d)" "gone ws r" "x = missing_change r" "fr_file_id r = i"
    unfolding detectD(4) [OF ws cs] set_found_changes by auto
  have "disk_hash sha ws (as_posix (fst e)) = fr_content_hash r"
    using h e r untracked_filesD [OF ws e(1)] by (simp add: disk_hash_def)
  with r e show thesis by (intro that)
qed

lemma staged_record:
  assumes ws: "wf_workspace ws" and cs: "detect_local_workspace_changes sha ws d = Inr cs"
    and u: "distinct (map fr_file_id (fd_files d))" and r: "r \<in> set (fd_files d)"
  defines "renames \<equiv> match_local_rename_candidates cs d"
  shows "fold drop_record (map fr_file_id (deletes_of cs renames d))
      (fold (move_to sha ws) (sort_key rename_order renames) (modified_core sha ws (cs_modified_file_ids cs) r))
    = planned_record sha ws renames r"
proof -
  have one: "q \<in> set (fd_files d) \<Longrightarrow> fr_file_id q = fr_file_id r \<longleftrightarrow> q = r" for q
    using u r by (auto simp: distinct_map dest: inj_onD)
  have mod: "fr_file_id r \<in> set (cs_modified_file_ids cs) \<longleftrightarrow> edited_on_disk sha ws r"
    using r one by (auto simp: detectD(2) [OF ws cs])
  have miss: "fr_file_id r \<in> set (cs_missing_file_ids cs) \<longleftrightarrow> gone ws r"
    using r one by (auto simp: detectD(3) [OF ws cs])
  have dist: "distinct (map fst renames)"
    using match_renames_ok [of cs d] by (simp add: renames_def renames_ok_def)
  have "fr_file_id r \<in> fr_file_id ` set (deletes_of cs renames d) \<longleftrightarrow> r \<in> set (deletes_of cs renames d)"
  proof
    assume "fr_file_id r \<in> fr_file_id ` set (deletes_of cs renames d)"
    then obtain q where q: "q \<in> set (deletes_of cs renames d)" "fr_file_id q = fr_file_id r" by auto
    then have "q = r" using one by (simp add: deletes_of_def)
    with q show "r \<in> set (deletes_of cs renames d)" by simp
  qed simp
  then have del: "fr_file_id r \<in> fr_file_id ` set (deletes_of cs renames d)
      \<longleftrightarrow> gone ws r \<and> map_of renames (fr_file_id r) = None"
    using r by (simp add: deletes_of_def miss map_of_eq_None_iff)
  have ren: "gone ws r \<and> clean_parts (path_parts (ch_path c)) \<and> ch_path c = as_posix (path_parts (ch_path c))
      \<and> disk_hash sha ws (ch_path c) = fr_content_hash r"
    if c: "map_of renames (fr_file_id r) = Some c" for c
  proof -
    from rename_found [OF ws cs c [unfolded renames_def]] obtain q e where
      q: "q \<in> set (fd_files d)" "gone ws q" "fr_file_id q = fr_file_id r"
      and e: "e \<in> set (untracked_files ws d)" "c = untracked_change sha e"
      "disk_hash sha ws (as_posix (fst e)) = fr_content_hash q" .
    from q one have "q = r" by blast
    with q e untracked_filesD(1) [OF ws e(1)] show ?thesis by simp
  qed
  have m: "modified_core sha ws (cs_modified_file_ids cs) r
      = (if edited_on_disk sha ws r then rehash sha ws (core r) else core r)"
    by (simp add: modified_core_def mod)
  have same: "fr_content_hash q = disk_hash sha ws (fr_path q) \<Longrightarrow> rehash sha ws q = q" for q
    by (cases q) (simp add: rehash_def)
  show ?thesis
  proof (cases "map_of renames (fr_file_id r)")
    case None
    then have "fold (move_to sha ws) (sort_key rename_order renames)
        (modified_core sha ws (cs_modified_file_ids cs) r) = (if edited_on_disk sha ws r then rehash sha ws (core r) else core r)"
      by (simp add: fold_move_to dist m rehash_def)
    moreover have "\<not> edited_on_disk sha ws r \<Longrightarrow> tracked r \<Longrightarrow> file_at ws (fr_path r) \<noteq> None \<Longrightarrow>
        rehash sha ws (core r) = core r" by (rule same) (auto simp: edited_on_disk_def)
    ultimately show ?thesis
      using None by (auto simp: fold_drop_record del planned_record_def gone_def edited_on_disk_def rehash_def)
  next
    case (Some c)
    note c = ren [OF Some]
    then have "fold (move_to sha ws) (sort_key rename_order renames)
        (modified_core sha ws (cs_modified_file_ids cs) r) = (core r)\<lparr>fr_path := ch_path c\<rparr>"
      using same [of "(core r)\<lparr>fr_path := ch_path c\<rparr>"] Some
      by (simp add: fold_move_to dist m move_to_def gone_def edited_on_disk_def)
    with Some c show ?thesis by (simp add: fold_drop_record del planned_record_def gone_def)
  qed
qed

lemma inj_on_as_posix: "wf_workspace ws \<Longrightarrow> inj_on as_posix (fst ` set ws)"
  by (auto intro!: inj_onI as_posix_inj simp: wf_workspace_def)

lemma distinct_adds:
  assumes ws: "wf_workspace ws" and cs: "detect_local_workspace_changes sha ws d = Inr cs"
  shows "distinct (map ch_path (adds_of cs renames))"
proof -
  let ?u = "map (untracked_change sha) (untracked_files ws d)"
  have "ch_kind c \<noteq> ''untracked''" if "c \<in> set (found_changes sha ws d)" for c
    using that by (auto simp: set_found_changes)
  then have "filter (\<lambda>c. ch_kind c = ''untracked'') (found_changes sha ws d) = []"
    by (simp add: filter_empty_conv)
  moreover have "filter (\<lambda>c. ch_kind c = ''untracked'') ?u = ?u" by (simp add: filter_id_conv)
  ultimately have u: "filter (\<lambda>c. ch_kind c = ''untracked'') (found_changes sha ws d @ ?u) = ?u" by simp
  have "mset (cs_changes cs) = mset (found_changes sha ws d @ ?u)"
    using cs by (simp add: detect_eq_Inr [OF ws] Let_def)
  then have "mset (filter (\<lambda>c. ch_kind c = ''untracked'') (cs_changes cs)) = mset ?u"
    using u by (metis mset_filter)
  then have "distinct (map ch_path (filter (\<lambda>c. ch_kind c = ''untracked'') (cs_changes cs)))
      = distinct (map ch_path ?u)" by (rule distinct_map_mset)
  also have "map ch_path ?u = map as_posix (map fst (untracked_files ws d))" by simp
  also have "distinct \<dots>"
    using ws inj_on_as_posix [OF ws] unfolding untracked_files_def
    by (subst distinct_map) (auto simp: wf_workspace_def distinct_map_filter intro: inj_on_subset)
  finally show ?thesis
    unfolding adds_of_def by (rule distinct_map_filter_sub [where Q = "\<lambda>c. ch_path c \<notin> _", simplified conj_commute])
qed

definition unused_ids :: "plan_env \<Rightarrow> filemap_document \<Rightarrow> bool" where
  "unused_ids env d \<longleftrightarrow> inj (pe_file_id env) \<and> (\<forall>p. pe_file_id env p \<notin> fr_file_id ` set (fd_files d))"

lemma new_record_path:
  assumes "wf_workspace ws" "detect_local_workspace_changes sha ws d = Inr cs" "c \<in> set (adds_of cs renames)"
  obtains e where "e \<in> set (untracked_files ws d)" "c = untracked_change sha e"
    "new_record env ws c = \<lparr>fr_file_id = pe_file_id env (as_posix (fst e)), fr_path = as_posix (fst e),
      fr_type = infer_workspace_type (as_posix (fst e)), fr_status = ''active'', fr_updated_at = 0,
      fr_content_hash = Some (sha256_hex (pe_sha env) (df_bytes (snd e))),
      fr_last_known_revision = None, fr_conflict_source_file_id = None, fr_meta = None\<rparr>"
proof -
  obtain e where e: "e \<in> set (untracked_files ws d)" "c = untracked_change sha e"
    using untracked_change_found [OF assms(1,2)] assms(3) unfolding adds_of_def by auto
  with untracked_filesD [OF assms(1) e(1)] show thesis
    by (intro that [of e]) (simp_all add: new_record_def Let_def disk_hash_def)
qed

lemma planned_cores:
  assumes ws: "wf_workspace ws" and u: "distinct (map fr_file_id (fd_files d))"
    and fresh: "unused_ids env d"
    and p: "build_tracked_change_commit_plan env ws d None ts n dev = Inr p"
  shows "detect_local_workspace_changes (pe_sha env) ws d = Inr (cp_change_set p)"
    and "cores (cp_document p) =
      map (planned_record (pe_sha env) ws (match_local_rename_candidates (cp_change_set p) d)) (fd_files d)
      @ map (new_record env ws)
          (adds_of (cp_change_set p) (match_local_rename_candidates (cp_change_set p) d))"
    and "distinct (map fr_file_id (fd_files (cp_document p)))"
proof -
  obtain s where cs': "detect_local_workspace_changes (pe_sha env) ws d = Inr (st_changes s)"
    and s: "staged env ws d ts n dev s p" using plan_staged [OF p] .
  then have cs: "detect_local_workspace_changes (pe_sha env) ws d = Inr (cp_change_set p)"
    by (simp add: staged_def Let_def)
  then show "detect_local_workspace_changes (pe_sha env) ws d = Inr (cp_change_set p)" .
  define renames where "renames = match_local_rename_candidates (cp_change_set p) d"
  have st: "st_changes s = cp_change_set p" using cs cs' by simp
  have m: "map core (fst (st_modified s))
      = map (modified_core (pe_sha env) ws (cs_modified_file_ids (cp_change_set p))) (fd_files d)"
    using s plan_modify_core [of env ws _ _ _ "fst (st_modified s)"] by (simp add: staged_def Let_def st)
       (metis prod.collapse)
  have r: "cores (fst (st_renamed s)) = map (fold (move_to (pe_sha env) ws) (sort_key rename_order renames))
      (map core (fst (st_modified s)))"
    using s rename_loop_core by (fastforce simp: staged_def Let_def st renames_def cores_def)
  have x: "cores (fst (st_deleted s)) = map (fold drop_record (map fr_file_id (deletes_of (cp_change_set p) renames d)))
      (cores (fst (st_renamed s)))"
    using s delete_loop_core by (fastforce simp: staged_def Let_def st renames_def)
  have "cores (fst (st_deleted s)) = map (planned_record (pe_sha env) ws renames) (fd_files d)"
    unfolding x r m map_map using staged_record [OF ws cs u] by (simp add: renames_def)
  moreover have "cores (cp_document p) = fold add_record
      (map (new_record env ws) (adds_of (cp_change_set p) renames)) (cores (fst (st_deleted s)))"
    using s add_loop_core by (fastforce simp: staged_def Let_def st renames_def)
  moreover have "fr_file_id (planned_record (pe_sha env) ws renames q) = fr_file_id q" for q
    by (simp add: planned_record_def rehash_def split: option.splits)
  moreover have "map fr_file_id (map (new_record env ws) (adds_of (cp_change_set p) renames))
      = map (pe_file_id env) (map ch_path (adds_of (cp_change_set p) renames))"
    by (auto elim!: new_record_path [OF ws cs, where env = env])
  ultimately have "cores (cp_document p) = fold add_record
      (map (new_record env ws) (adds_of (cp_change_set p) renames))
      (map (planned_record (pe_sha env) ws renames) (fd_files d))"
    and i: "\<And>q. fr_file_id (planned_record (pe_sha env) ws renames q) = fr_file_id q"
    and n: "map fr_file_id (map (new_record env ws) (adds_of (cp_change_set p) renames))
      = map (pe_file_id env) (map ch_path (adds_of (cp_change_set p) renames))" by simp_all
  moreover have dn: "distinct (map fr_file_id (map (new_record env ws) (adds_of (cp_change_set p) renames)))"
    unfolding n using distinct_adds [OF ws cs] fresh
    by (subst distinct_map) (auto simp: unused_ids_def intro: inj_on_subset)
  moreover have disj: "fr_file_id ` set (map (new_record env ws) (adds_of (cp_change_set p) renames))
      \<inter> fr_file_id ` set (map (planned_record (pe_sha env) ws renames) (fd_files d)) = {}"
  proof -
    have "fr_file_id ` set (map (new_record env ws) (adds_of (cp_change_set p) renames))
        \<subseteq> range (pe_file_id env)"
      by (metis n list.set_map image_mono subset_UNIV image_image)
    moreover have "fr_file_id ` set (map (planned_record (pe_sha env) ws renames) (fd_files d))
        = fr_file_id ` set (fd_files d)" by (simp add: image_image i)
    moreover have "range (pe_file_id env) \<inter> fr_file_id ` set (fd_files d) = {}"
      using fresh by (auto simp: unused_ids_def)
    ultimately show ?thesis by blast
  qed
  ultimately have c: "cores (cp_document p) =
      map (planned_record (pe_sha env) ws (match_local_rename_candidates (cp_change_set p) d)) (fd_files d)
      @ map (new_record env ws)
          (adds_of (cp_change_set p) (match_local_rename_candidates (cp_change_set p) d))"
    by (simp add: fold_add_record renames_def)
  have di: "distinct (map fr_file_id (cores (cp_document p)))"
    unfolding c map_append distinct_append
    using dn disj u by (simp only: flip: renames_def) (simp add: o_def i Int_commute image_image)
  show "distinct (map fr_file_id (fd_files (cp_document p)))"
    using di by (simp add: cores_def o_def)
  show "cores (cp_document p) =
      map (planned_record (pe_sha env) ws (match_local_rename_candidates (cp_change_set p) d)) (fd_files d)
      @ map (new_record env ws)
          (adds_of (cp_change_set p) (match_local_rename_candidates (cp_change_set p) d))" by (rule c)
qed

section \<open>A plan leaves nothing to commit\<close>

text \<open>A record the detection has nothing to say about.\<close>

definition settled :: "(string \<Rightarrow> string) \<Rightarrow> workspace \<Rightarrow> file_record \<Rightarrow> bool" where
  "settled sha ws r \<longleftrightarrow> (tracked r \<longrightarrow> safe_path (fr_path r) \<and> file_at ws (fr_path r) \<noteq> None
     \<and> disk_hash sha ws (fr_path r) = fr_content_hash r)"

lemma settled_core [simp]: "settled sha ws (core r) = settled sha ws r"
  by (simp add: settled_def)

lemma synced_not_volatile:
  "clean_parts ps \<Longrightarrow> synced ps \<Longrightarrow> \<not> is_volatile_workspace_file_path (as_posix ps)"
  by (auto simp: synced_def is_sync_excluded_workspace_path_def Let_def)

lemma detect_settled:
  assumes ws: "wf_workspace ws"
    and s: "\<forall>r \<in> set (fd_files d). settled sha ws r"
    and f: "\<forall>e \<in> set ws. synced (fst e) \<longrightarrow> tracked_path d (as_posix (fst e))"
  shows "detect_local_workspace_changes sha ws d = Inr \<lparr>cs_vault_id = fd_vault_id d,
    cs_tracked_record_count = int (length (filter tracked (fd_files d))), cs_change_count = 0,
    cs_modified_file_ids = [], cs_missing_file_ids = [], cs_changes = []\<rparr>"
proof -
  have "record_change sha ws r = None" if "r \<in> set (fd_files d)" "tracked r" for r
    using s that by (auto simp: settled_def record_change_def split: option.splits)
  then have "found_changes sha ws d = []"
    by (auto simp: found_changes_def List.map_filter_def filter_empty_conv)
  moreover have "untracked_files ws d = []"
    using f by (auto simp: untracked_files_def filter_empty_conv)
  ultimately show ?thesis
    using s by (simp add: detect_eq_Inr [OF ws] settled_def ids_of_kind_def)
qed

lemma planned_settled:
  assumes ws: "wf_workspace ws" and cs: "detect_local_workspace_changes sha ws d = Inr cs"
    and r: "r \<in> set (fd_files d)"
    and u: "distinct (map fr_file_id (fd_files d))"
  defines "q \<equiv> planned_record sha ws (match_local_rename_candidates cs d) r"
  shows "settled sha ws q"
    and "tracked r \<Longrightarrow> file_at ws (fr_path r) \<noteq> None \<Longrightarrow> tracked q \<and> fr_path q = fr_path r"
    and "map_of (match_local_rename_candidates cs d) (fr_file_id r) = Some c \<Longrightarrow>
      tracked q \<and> fr_path q = ch_path c"
proof -
  have safe: "tracked r \<Longrightarrow> safe_path (fr_path r)" using detectD(1) [OF ws cs r] .
  have ren: "\<exists>e \<in> set (untracked_files ws d). c = untracked_change sha e \<and> gone ws r
      \<and> disk_hash sha ws (as_posix (fst e)) = fr_content_hash r"
    if "map_of (match_local_rename_candidates cs d) (fr_file_id r) = Some c" for c
  proof -
    from rename_found [OF ws cs that] obtain r' e where
      q: "r' \<in> set (fd_files d)" "gone ws r'" "fr_file_id r' = fr_file_id r"
      and e: "e \<in> set (untracked_files ws d)" "c = untracked_change sha e"
      "disk_hash sha ws (as_posix (fst e)) = fr_content_hash r'" .
    have "r' = r" using q r u by (auto simp: distinct_map dest: inj_onD)
    with q e show ?thesis by auto
  qed
  show "tracked r \<Longrightarrow> file_at ws (fr_path r) \<noteq> None \<Longrightarrow> tracked q \<and> fr_path q = fr_path r"
    by (simp add: q_def planned_record_def rehash_def tracked_def live_def)
  have moved: "tracked q \<and> fr_path q = ch_path c \<and> settled sha ws q"
    if c: "map_of (match_local_rename_candidates cs d) (fr_file_id r) = Some c" for c
  proof -
    from ren [OF c] obtain e where e: "e \<in> set (untracked_files ws d)" "c = untracked_change sha e"
      "gone ws r" "disk_hash sha ws (as_posix (fst e)) = fr_content_hash r" by auto
    then have q: "q = (core r)\<lparr>fr_path := ch_path c\<rparr>"
      using c by (simp add: q_def planned_record_def gone_def)
    show ?thesis
      using e untracked_filesD [OF ws e(1)] synced_not_volatile [of "fst e"]
      by (simp add: q settled_def gone_def tracked_def live_def core_def)
  qed
  then show "map_of (match_local_rename_candidates cs d) (fr_file_id r) = Some c \<Longrightarrow>
      tracked q \<and> fr_path q = ch_path c" by blast
  show "settled sha ws q"
  proof (cases "tracked r \<and> file_at ws (fr_path r) = None \<and>
      map_of (match_local_rename_candidates cs d) (fr_file_id r) \<noteq> None")
    case True
    then show ?thesis using moved by auto
  next
    case False
    then show ?thesis
      using safe by (auto simp: q_def planned_record_def settled_def rehash_def drop_record_def tracked_def live_def
          split: option.splits)
  qed
qed

lemma planned_record_cases:
  assumes ws: "wf_workspace ws" and u: "distinct (map fr_file_id (fd_files d))"
    and fresh: "unused_ids env d"
    and p: "build_tracked_change_commit_plan env ws d None ts n dev = Inr p"
    and q: "q \<in> set (fd_files (cp_document p))"
  defines "renames \<equiv> match_local_rename_candidates (cp_change_set p) d"
  obtains (kept) r where "r \<in> set (fd_files d)" "core q = planned_record (pe_sha env) ws renames r"
    "fr_file_id r = fr_file_id q"
  | (new) c where "c \<in> set (adds_of (cp_change_set p) renames)" "core q = new_record env ws c"
    "fr_file_id q = pe_file_id env (ch_path c)"
proof -
  note cs = planned_cores(1) [OF ws u fresh p]
  have "core q \<in> set (cores (cp_document p))" using q by (simp add: cores_def)
  then consider r where "r \<in> set (fd_files d)" "core q = planned_record (pe_sha env) ws renames r"
    | c where "c \<in> set (adds_of (cp_change_set p) renames)" "core q = new_record env ws c"
    unfolding planned_cores(2) [OF ws u fresh p] renames_def by auto
  then show thesis
  proof cases
    case 1
    then have "fr_file_id (core q) = fr_file_id r"
      by (simp add: planned_record_def rehash_def split: option.splits)
    then have "fr_file_id r = fr_file_id q" by simp
    with 1 show thesis by (rule kept)
  next
    case 2
    from 2(1) obtain e where e: "c = untracked_change (pe_sha env) e" and
      "fr_file_id (new_record env ws c) = pe_file_id env (as_posix (fst e))"
      by (rule new_record_path [OF ws cs, where env = env]) simp
    with 2(2) have "fr_file_id (core q) = pe_file_id env (ch_path c)" by simp
    then have "fr_file_id q = pe_file_id env (ch_path c)" by simp
    with 2 show thesis by (rule new)
  qed
qed

lemma plan_settles:
  assumes ws: "wf_workspace ws" and u: "distinct (map fr_file_id (fd_files d))"
    and fresh: "unused_ids env d"
    and p: "build_tracked_change_commit_plan env ws d None ts n dev = Inr p"
  shows "\<forall>q \<in> set (fd_files (cp_document p)). settled (pe_sha env) ws q"
proof
  fix q assume q: "q \<in> set (fd_files (cp_document p))"
  note cs = planned_cores(1) [OF ws u fresh p]
  from ws u fresh p q have "settled (pe_sha env) ws (core q)"
  proof (cases rule: planned_record_cases)
    case (kept r)
    then show ?thesis using planned_settled(1) [OF ws cs _ u] by simp
  next
    case (new c)
    from new(1) obtain e where e: "e \<in> set (untracked_files ws d)"
      and "new_record env ws c = \<lparr>fr_file_id = pe_file_id env (as_posix (fst e)), fr_path = as_posix (fst e),
        fr_type = infer_workspace_type (as_posix (fst e)), fr_status = ''active'', fr_updated_at = 0,
        fr_content_hash = Some (sha256_hex (pe_sha env) (df_bytes (snd e))),
        fr_last_known_revision = None, fr_conflict_source_file_id = None, fr_meta = None\<rparr>"
      by (rule new_record_path [OF ws cs, where env = env])
    then show ?thesis using new(2) untracked_filesD [OF ws e] by (simp add: settled_def disk_hash_def)
  qed
  then show "settled (pe_sha env) ws q" by simp
qed

lemma plan_tracks:
  assumes ws: "wf_workspace ws" and u: "distinct (map fr_file_id (fd_files d))"
    and fresh: "unused_ids env d"
    and p: "build_tracked_change_commit_plan env ws d None ts n dev = Inr p"
    and e: "e \<in> set ws" "synced (fst e)"
  shows "tracked_path (cp_document p) (as_posix (fst e))"
proof -
  define renames where "renames = match_local_rename_candidates (cp_change_set p) d"
  note cs = planned_cores(1) [OF ws u fresh p]
  have clean: "clean_parts (fst e)" using ws e by (auto simp: wf_workspace_def)
  have "\<exists>q \<in> set (cores (cp_document p)). tracked q \<and> as_posix (path_parts (fr_path q)) = as_posix (fst e)"
  proof (cases "tracked_path d (as_posix (fst e))")
    case True
    then obtain r where r: "r \<in> set (fd_files d)" "tracked r"
      "as_posix (path_parts (fr_path r)) = as_posix (fst e)" by (auto simp: tracked_path_def)
    then have "path_parts (fr_path r) = fst e"
      using clean detectD(1) [OF ws cs r(1,2)] by (intro as_posix_inj) (auto simp: safe_path_def)
    then have f: "file_at ws (fr_path r) \<noteq> None" using e by (auto simp: file_at_def map_of_eq_None_iff)
    show ?thesis
      using planned_settled(2) [OF ws cs r(1) u r(2) f] r
      unfolding planned_cores(2) [OF ws u fresh p] by auto
  next
    case False
    then have un: "e \<in> set (untracked_files ws d)" using e by (auto simp: untracked_files_def)
    let ?c = "untracked_change (pe_sha env) e"
    have c: "?c \<in> set (cs_changes (cp_change_set p))"
      using un by (auto simp: detectD(4) [OF ws cs])
    show ?thesis
    proof (cases "ch_path ?c \<in> (ch_path \<circ> snd) ` set renames")
      case True
      then obtain i c where ic: "(i, c) \<in> set renames" "ch_path c = as_posix (fst e)" by auto
      then have m: "map_of renames i = Some c"
        using match_renames_ok [of "cp_change_set p" d] by (simp add: renames_ok_def renames_def)
      from rename_found [OF ws cs m [unfolded renames_def]] obtain r where
        r: "r \<in> set (fd_files d)" "fr_file_id r = i" .
      show ?thesis
        using planned_settled(3) [OF ws cs r(1) u, of c] m r ic clean
        unfolding planned_cores(2) [OF ws u fresh p] by (auto simp: renames_def)
    next
      case False
      then have "?c \<in> set (adds_of (cp_change_set p) renames)" using c by (simp add: adds_of_def)
      moreover have "tracked (new_record env ws ?c) \<and> as_posix (path_parts (fr_path (new_record env ws ?c))) = as_posix (fst e)"
        using clean synced_not_volatile [OF clean e(2)]
        by (simp add: new_record_def Let_def tracked_def live_def)
      ultimately show ?thesis
        unfolding planned_cores(2) [OF ws u fresh p] by (auto simp: renames_def)
    qed
  qed
  then show ?thesis by (auto simp: cores_def tracked_path_def)
qed

section \<open>Where the contents come from\<close>

lemma modify_content:
  assumes "foldM (plan_modify env ws ids) (fs, [], t) rs = Inr u" "map_of (fst (snd u)) i = Some b"
  shows "\<exists>r \<in> set rs. fr_file_id r = i \<and> i \<in> set ids \<and> map_option df_bytes (file_at ws (fr_path r)) = Some b"
proof -
  let ?P = "\<lambda>u. \<forall>i b. map_of (fst (snd u)) i = Some b \<longrightarrow> (\<exists>r \<in> set rs. fr_file_id r = i \<and> i \<in> set ids
      \<and> map_option df_bytes (file_at ws (fr_path r)) = Some b)"
  have "?P u"
  proof (rule foldM_invariant [OF assms(1)])
    fix s r v
    assume r: "r \<in> set rs" and s: "?P s" and v: "plan_modify env ws ids s r = Inr v"
    obtain fs ct l fs' ct' l' where sv: "s = (fs, ct, l)" "v = (fs', ct', l')" by (cases s, cases v)
    from plan_modify_step(2) [OF v [unfolded sv]] r s show "?P v"
      by (auto simp: sv update_conv' split: if_splits) force
  qed simp
  with assms(2) show ?thesis by blast
qed

lemma rename_content:
  assumes "foldM (plan_rename env ws d) s es = Inr u" "map_of (snd u) i = Some b"
  shows "map_of (snd s) i = Some b \<or>
    (\<exists>c. (i, c) \<in> set es \<and> map_option df_bytes (file_at ws (ch_path c)) = Some b)"
proof -
  let ?P = "\<lambda>u. \<forall>i b. map_of (snd u) i = Some b \<longrightarrow> map_of (snd s) i = Some b \<or>
    (\<exists>c. (i, c) \<in> set es \<and> map_option df_bytes (file_at ws (ch_path c)) = Some b)"
  have "?P u"
  proof (rule foldM_invariant [OF assms(1)])
    fix s' e v
    assume e: "e \<in> set es" and s: "?P s'" and v: "plan_rename env ws d s' e = Inr v"
    obtain wd ct wd' ct' j c where sv: "s' = (wd, ct)" "v = (wd', ct')" "e = (j, c)"
      by (cases s', cases v, cases e)
    from v [unfolded sv] obtain f where
      "file_at ws (ch_path c) = Some f" "ct' = AList.update j (df_bytes f) ct" by (rule plan_rename_step)
    with e s show "?P v" by (auto simp: sv update_conv')
  qed simp
  with assms(2) show ?thesis by blast
qed

lemma add_content:
  assumes "foldM (plan_add env ws) s cs = Inr u" "map_of (snd u) i = Some b"
  shows "map_of (snd s) i = Some b \<or>
    (\<exists>c \<in> set cs. fr_file_id (new_record env ws c) = i \<and> map_option df_bytes (file_at ws (ch_path c)) = Some b)"
proof -
  let ?P = "\<lambda>u. \<forall>i b. map_of (snd u) i = Some b \<longrightarrow> map_of (snd s) i = Some b \<or>
    (\<exists>c \<in> set cs. fr_file_id (new_record env ws c) = i \<and> map_option df_bytes (file_at ws (ch_path c)) = Some b)"
  have "?P u"
  proof (rule foldM_invariant [OF assms(1)])
    fix s' c v
    assume c: "c \<in> set cs" and s: "?P s'" and v: "plan_add env ws s' c = Inr v"
    obtain wd ct wd' ct' where sv: "s' = (wd, ct)" "v = (wd', ct')" by (cases s', cases v)
    from v [unfolded sv] obtain f where "file_at ws (ch_path c) = Some f"
      "ct' = AList.update (fr_file_id (new_record env ws c)) (df_bytes f) ct" by (rule plan_add_step)
    with c s show "?P v" by (auto simp: sv update_conv')
  qed simp
  with assms(2) show ?thesis by blast
qed

definition active_on_disk :: "plan_env \<Rightarrow> workspace \<Rightarrow> file_record \<Rightarrow> string \<Rightarrow> bool" where
  "active_on_disk env ws r b \<longleftrightarrow> fr_content_hash r = Some (sha256_hex (pe_sha env) b)
     \<and> (\<exists>f. file_at ws (fr_path r) = Some f \<and> df_bytes f = b)"

lemma plan_unchanged_step:
  assumes "plan_unchanged env ws content r = Inr ct"
  shows "ct = content \<and> (fr_status r = ''active'' \<longrightarrow> map_of content (fr_file_id r) \<noteq> None) \<or>
      map_of content (fr_file_id r) = None \<and>
      (\<exists>b. active_on_disk env ws r b \<and> ct = AList.update (fr_file_id r) b content)"
  using assms
  by (auto simp: plan_unchanged_def active_on_disk_def rbind_eq_Inr read_file_eq_Inr split: if_splits)

lemma unchanged_content:
  assumes "foldM (plan_unchanged env ws) content rs = Inr content'"
  shows "(\<forall>i b. map_of content i = Some b \<longrightarrow> map_of content' i = Some b) \<and>
    (\<forall>r \<in> set rs. fr_status r = ''active'' \<longrightarrow> map_of content' (fr_file_id r) \<noteq> None) \<and>
    (\<forall>i b. map_of content' i = Some b \<longrightarrow> map_of content i = Some b \<or>
      (\<exists>r \<in> set rs. fr_file_id r = i \<and> active_on_disk env ws r b))"
  using assms
proof (induction rs arbitrary: content)
  case (Cons q qs)
  from Cons.prems obtain ct where ct: "plan_unchanged env ws content q = Inr ct"
    and rest: "foldM (plan_unchanged env ws) ct qs = Inr content'" by (auto simp: result_simps)
  note step = plan_unchanged_step [OF ct] and IH = Cons.IH [OF rest]
  have keep: "map_of content i = Some b \<Longrightarrow> map_of ct i = Some b" for i b
    using step by (auto simp: update_conv')
  have "fr_status q = ''active'' \<Longrightarrow> map_of ct (fr_file_id q) \<noteq> None"
    using step by (auto simp: update_conv')
  then have q: "fr_status q = ''active'' \<Longrightarrow> map_of content' (fr_file_id q) \<noteq> None"
    using IH by (metis not_None_eq)
  have came: "map_of ct i = Some b \<Longrightarrow> map_of content i = Some b
      \<or> fr_file_id q = i \<and> active_on_disk env ws q b" for i b
    using step by (auto simp: update_conv' split: if_splits)
  show ?case
  proof (intro conjI)
    show "\<forall>i b. map_of content i = Some b \<longrightarrow> map_of content' i = Some b" using keep IH by blast
    show "\<forall>r \<in> set (q # qs). fr_status r = ''active'' \<longrightarrow> map_of content' (fr_file_id r) \<noteq> None"
      using q IH by simp
    show "\<forall>i b. map_of content' i = Some b \<longrightarrow> map_of content i = Some b \<or>
        (\<exists>r \<in> set (q # qs). fr_file_id r = i \<and> active_on_disk env ws r b)"
    proof (intro allI impI)
      fix i b assume "map_of content' i = Some b"
      then have "map_of ct i = Some b \<or> (\<exists>r \<in> set qs. fr_file_id r = i \<and> active_on_disk env ws r b)"
        using IH by blast
      then show "map_of content i = Some b \<or>
          (\<exists>r \<in> set (q # qs). fr_file_id r = i \<and> active_on_disk env ws r b)"
        using came by auto
    qed
  qed
qed simp

text \<open>Where a content of the plan comes from: a modified file, a renamed one or a new one; or it was
  read by the last loop.\<close>

definition content_from ::
  "plan_env \<Rightarrow> workspace \<Rightarrow> filemap_document \<Rightarrow> change_set \<Rightarrow> string \<Rightarrow> string \<Rightarrow> bool" where
  "content_from env ws d cs i b \<longleftrightarrow> (let renames = match_local_rename_candidates cs d in
     (\<exists>r \<in> set (fd_files d). fr_file_id r = i \<and> i \<in> set (cs_modified_file_ids cs)
        \<and> map_option df_bytes (file_at ws (fr_path r)) = Some b) \<or>
     (\<exists>c. map_of renames i = Some c \<and> map_option df_bytes (file_at ws (ch_path c)) = Some b) \<or>
     (\<exists>c \<in> set (adds_of cs renames). fr_file_id (new_record env ws c) = i
        \<and> map_option df_bytes (file_at ws (ch_path c)) = Some b))"

lemma staged_content:
  assumes s: "staged env ws d ts n dev s p" and q: "map_of (cp_content p) i = Some b"
  shows "content_from env ws d (cp_change_set p) i b \<or>
    (\<exists>r \<in> set (fd_files (cp_document p)). fr_file_id r = i \<and> active_on_disk env ws r b)"
proof -
  define renames where "renames = match_local_rename_candidates (cp_change_set p) d"
  have st: "st_changes s = cp_change_set p" "cp_document p = fst (st_added s)"
    using s by (simp_all add: staged_def Let_def)
  note l = s [unfolded staged_def Let_def st(1), folded renames_def]
  have dist: "distinct (map fst renames)"
    using match_renames_ok [of "cp_change_set p" d] by (simp add: renames_def renames_ok_def)
  from l q have "map_of (snd (st_added s)) i = Some b \<or>
      (\<exists>r \<in> set (fd_files (cp_document p)). fr_file_id r = i \<and> active_on_disk env ws r b)"
    using unchanged_content [of env ws "snd (st_added s)" _ "cp_content p"] by (metis st(2))
  moreover have "map_of (snd (st_added s)) i = Some b \<Longrightarrow> map_of (snd (st_renamed s)) i = Some b \<or>
      (\<exists>c \<in> set (adds_of (cp_change_set p) renames). fr_file_id (new_record env ws c) = i
        \<and> map_option df_bytes (file_at ws (ch_path c)) = Some b)"
    using l add_content [of env ws _ _ "st_added s" i b] by fastforce
  moreover have "map_of (snd (st_renamed s)) i = Some b \<Longrightarrow> map_of (fst (snd (st_modified s))) i = Some b \<or>
      (\<exists>c. map_of renames i = Some c \<and> map_option df_bytes (file_at ws (ch_path c)) = Some b)"
    using l rename_content [of env ws d _ _ "st_renamed s" i b] dist by fastforce
  moreover have "map_of (fst (snd (st_modified s))) i = Some b \<Longrightarrow>
      \<exists>r \<in> set (fd_files d). fr_file_id r = i \<and> i \<in> set (cs_modified_file_ids (cp_change_set p))
        \<and> map_option df_bytes (file_at ws (fr_path r)) = Some b"
    using l modify_content [of env ws _ _ _ _ "st_modified s" i b] by blast
  ultimately show ?thesis unfolding content_from_def Let_def renames_def by blast
qed

lemma adds_path:
  assumes ws: "wf_workspace ws" and cs: "detect_local_workspace_changes sha ws d = Inr cs"
    and c: "c \<in> set (adds_of cs renames)"
  shows "fr_file_id (new_record env ws c) = pe_file_id env (ch_path c)"
    "fr_path (new_record env ws c) = ch_path c" "tracked (new_record env ws c)"
proof -
  obtain e where e: "e \<in> set (untracked_files ws d)" "c = untracked_change sha e"
    using untracked_change_found [OF ws cs] c unfolding adds_of_def by auto
  note clean = untracked_filesD [OF ws e(1)]
  then show "fr_file_id (new_record env ws c) = pe_file_id env (ch_path c)"
    "fr_path (new_record env ws c) = ch_path c" "tracked (new_record env ws c)"
    using e synced_not_volatile [of "fst e"]
    by (simp_all add: new_record_def Let_def tracked_def live_def)
qed

lemma content_from_record:
  assumes ws: "wf_workspace ws" and u: "distinct (map fr_file_id (fd_files d))"
    and fresh: "unused_ids env d"
    and p: "build_tracked_change_commit_plan env ws d None ts n dev = Inr p"
    and q: "q \<in> set (fd_files (cp_document p))"
    and c: "content_from env ws d (cp_change_set p) (fr_file_id q) b"
  shows "tracked q \<and> map_option df_bytes (file_at ws (fr_path q)) = Some b"
proof -
  define renames where "renames = match_local_rename_candidates (cp_change_set p) d"
  note cs = planned_cores(1) [OF ws u fresh p]
  note from_ = c [unfolded content_from_def Let_def, folded renames_def]
  have ids: "r \<in> set (fd_files d) \<Longrightarrow> fr_file_id r \<noteq> pe_file_id env x" for r x
    using fresh by (metis unused_ids_def image_eqI)
  have same: "r \<in> set (fd_files d) \<Longrightarrow> r' \<in> set (fd_files d) \<Longrightarrow> fr_file_id r = fr_file_id r' \<Longrightarrow> r = r'" for r r'
    using u by (metis distinct_map inj_onD)
  from ws u fresh p q have "tracked (core q) \<and> map_option df_bytes (file_at ws (fr_path (core q))) = Some b"
  proof (cases rule: planned_record_cases)
    case (kept r)
    with from_ ids consider r' where "r' \<in> set (fd_files d)" "fr_file_id r' = fr_file_id q"
        "fr_file_id q \<in> set (cs_modified_file_ids (cp_change_set p))"
        "map_option df_bytes (file_at ws (fr_path r')) = Some b"
      | c where "map_of renames (fr_file_id q) = Some c" "map_option df_bytes (file_at ws (ch_path c)) = Some b"
      using adds_path(1) [OF ws cs] by metis
    then show ?thesis
    proof cases
      case 1
      then have "r' = r" using kept same by metis
      moreover have "edited_on_disk (pe_sha env) ws r"
        using 1(3) kept same unfolding detectD(2) [OF ws cs] by metis
      ultimately show ?thesis
        using 1 planned_settled(2) [OF ws cs kept(1) u] kept(2) by (simp add: edited_on_disk_def)
    next
      case 2
      then show ?thesis
        using planned_settled(3) [OF ws cs kept(1) u, of c] kept(2,3) by (simp add: renames_def)
    qed
  next
    case (new c)
    have "map_of renames (fr_file_id q) = None"
    proof (rule ccontr)
      assume "map_of renames (fr_file_id q) \<noteq> None"
      then obtain c' where "map_of renames (fr_file_id q) = Some c'" by auto
      then show False using rename_found [OF ws cs] ids new(3) unfolding renames_def by metis
    qed
    with from_ ids new(3) obtain c' where c': "c' \<in> set (adds_of (cp_change_set p) renames)"
      "fr_file_id (new_record env ws c') = fr_file_id q"
      "map_option df_bytes (file_at ws (ch_path c')) = Some b" by auto
    then have "ch_path c' = ch_path c"
      using adds_path(1) [OF ws cs] new(3) fresh by (auto simp: unused_ids_def dest: injD)
    with c' new(1) show ?thesis
      using adds_path(2,3) [OF ws cs] by (simp add: new(2) renames_def)
  qed
  then show ?thesis by simp
qed

section \<open>Deletions\<close>

lemma delete_loop_tombstones:
  assumes "foldM (plan_delete dev) (wd, n, ts) rs = Inr (wd', n', ts')"
  shows "n' = n + int (length rs) \<and> (\<exists>new. ts' = ts @ new \<and> map tb_file_id new = map fr_file_id rs
    \<and> map tb_local_delete_seq new = map (\<lambda>k. n + 1 + int k) [0..<length rs]
    \<and> (\<forall>t \<in> set new. tb_deleted_revision t = None \<and> tb_deleted_by_device t = dev))"
  using assms
proof (induction rs arbitrary: wd n ts)
  case (Cons r rs)
  from Cons.prems obtain wd1 n1 ts1 where step: "plan_delete dev (wd, n, ts) r = Inr (wd1, n1, ts1)"
    and rest: "foldM (plan_delete dev) (wd1, n1, ts1) rs = Inr (wd', n', ts')" by (auto simp: result_simps)
  from step obtain t where t: "n1 = n + 1" "ts1 = ts @ [t]" "tb_file_id t = fr_file_id r"
    "tb_deleted_revision t = None" "tb_local_delete_seq t = n + 1" "tb_deleted_by_device t = dev"
    by (rule plan_delete_step)
  from Cons.IH [OF rest] obtain new where new: "n' = n1 + int (length rs)" "ts' = ts1 @ new"
    "map tb_file_id new = map fr_file_id rs"
    "map tb_local_delete_seq new = map (\<lambda>k. n1 + 1 + int k) [0..<length rs]"
    "\<forall>t \<in> set new. tb_deleted_revision t = None \<and> tb_deleted_by_device t = dev" by auto
  have "map (\<lambda>k. n + 1 + int k) [0..<length (r # rs)] = (n + 1) # map (\<lambda>k. n1 + 1 + int k) [0..<length rs]"
    by (simp add: upt_conv_Cons map_Suc_upt [symmetric] t(1) o_def algebra_simps del: upt_Suc)
  with t new show ?case by (intro conjI exI [of _ "t # new"]) simp_all
qed simp

section \<open>Properties\<close>

definition ex_rec :: "string \<Rightarrow> string \<Rightarrow> string \<Rightarrow> file_record" where
  "ex_rec i p h = \<lparr>fr_file_id = i, fr_path = p, fr_type = ''note'', fr_status = ''active'',
    fr_updated_at = 3, fr_content_hash = Some (''sha256:'' @ h), fr_last_known_revision = Some 1,
    fr_conflict_source_file_id = None, fr_meta = None\<rparr>"

definition ex_env :: plan_env where
  "ex_env = \<lparr>pe_sha = (\<lambda>b. b), pe_guess_type = (\<lambda>_. None), pe_blob_id = (\<lambda>h. ''blob-'' @ h),
    pe_file_id = (\<lambda>p. ''new:'' @ p)\<rparr>"

definition ex_doc :: filemap_document where
  "ex_doc = \<lparr>fd_vault_id = ''v'', fd_updated_at = 9, fd_files = [ex_rec ''n1'' ''a.md'' ''1'',
     ex_rec ''n2'' ''b.md'' ''2'', ex_rec ''n3'' ''d.md'' ''3'', ex_rec ''n4'' ''k.md'' ''4''],
     fd_schema_version = ''v1'', fd_meta = None\<rparr>"

definition ex_file :: "string \<Rightarrow> string \<Rightarrow> int \<Rightarrow> string list \<times> disk_file" where
  "ex_file p b t = ([p], \<lparr>df_bytes = b, df_mtime_ns = t\<rparr>)"

definition ex_workspace :: workspace where
  "ex_workspace = [ex_file ''e.md'' ''5'' 5000000, ex_file ''a.md'' ''1x'' 20000000, ex_file ''k.md'' ''4'' 0,
     ex_file ''c.md'' ''2'' 0]"
definition ex_plan :: "change_plan result" where
  "ex_plan = build_tracked_change_commit_plan ex_env ex_workspace ex_doc None [] 0 (Some ''dev'')"

lemma ex_plan_value:
  "case ex_plan of Inl e \<Rightarrow> False
   | Inr p \<Rightarrow> map fr_status (fd_files (cp_document p)) = [''active'', ''active'', ''deleted'', ''active'', ''active'']
       \<and> fd_updated_at (cp_document p) = 5
       \<and> map ch_path (adds_of (cp_change_set p) (match_local_rename_candidates (cp_change_set p) ex_doc)) = [''e.md'']"
  by code_simp

lemma ex_plan_ok:
  obtains p where "build_tracked_change_commit_plan ex_env ex_workspace ex_doc None [] 0 (Some ''dev'') = Inr p"
    "map fr_status (fd_files (cp_document p)) = [''active'', ''active'', ''deleted'', ''active'', ''active'']"
    "fd_updated_at (cp_document p) = 5"
    "map ch_path (adds_of (cp_change_set p) (match_local_rename_candidates (cp_change_set p) ex_doc)) = [''e.md'']"
  using ex_plan_value unfolding ex_plan_def by (auto split: sum.splits)

lemma ex_hyps: "wf_workspace ex_workspace" "distinct (map fr_file_id (fd_files ex_doc))"
  "unused_ids ex_env ex_doc"
proof -
  show "wf_workspace ex_workspace"
    by (auto simp: wf_workspace_def ex_workspace_def ex_file_def clean_parts_def)
  show "distinct (map fr_file_id (fd_files ex_doc))" by (simp add: ex_doc_def ex_rec_def)
  show "unused_ids ex_env ex_doc" by (auto simp: unused_ids_def ex_env_def ex_doc_def ex_rec_def intro: injI)
qed

lemma plan_reconciled:
  assumes ws: "wf_workspace ws" and u: "distinct (map fr_file_id (fd_files d))"
    and fresh: "unused_ids env d"
    and p: "build_tracked_change_commit_plan env ws d None ts n dev = Inr p"
  defines "renames \<equiv> match_local_rename_candidates (cp_change_set p) d"
  shows "detect_local_workspace_changes (pe_sha env) ws d = Inr (cp_change_set p)
    \<and> map core (fd_files (cp_document p)) = map (planned_record (pe_sha env) ws renames) (fd_files d)
        @ map (new_record env ws) (adds_of (cp_change_set p) renames)
    \<and> (\<exists>new. cp_tombstones p = ts @ new
        \<and> map tb_file_id new = map fr_file_id (filter (\<lambda>r. gone ws r \<and> map_of renames (fr_file_id r) = None) (fd_files d))
        \<and> map tb_local_delete_seq new = map (\<lambda>k. n + 1 + int k) [0..<length new]
        \<and> list_all (\<lambda>t. tb_deleted_revision t = None \<and> tb_deleted_by_device t = dev) new
        \<and> cp_local_delete_sequence p = n + int (length new))"
proof -
  note c = planned_cores [OF ws u fresh p, folded renames_def]
  obtain s where s: "staged env ws d ts n dev s p"
    "detect_local_workspace_changes (pe_sha env) ws d = Inr (st_changes s)" using plan_staged [OF p] .
  obtain wd n' ts' where d: "st_deleted s = (wd, n', ts')" by (cases "st_deleted s")
  have l: "foldM (plan_delete dev) (fst (st_renamed s), n, ts) (deletes_of (cp_change_set p) renames d) = Inr (wd, n', ts')"
    "cp_tombstones p = ts'" "cp_local_delete_sequence p = n'"
    using s c(1) d by (simp_all add: staged_def Let_def renames_def)
  have g: "fr_file_id r \<in> set (cs_missing_file_ids (cp_change_set p)) \<longleftrightarrow> gone ws r" if "r \<in> set (fd_files d)" for r
    using that u unfolding detectD(3) [OF ws c(1)] by (auto simp: distinct_map dest: inj_onD)
  have del: "deletes_of (cp_change_set p) renames d
      = filter (\<lambda>r. gone ws r \<and> map_of renames (fr_file_id r) = None) (fd_files d)"
    unfolding deletes_of_def by (rule filter_cong) (auto simp: g map_of_eq_None_iff)
  from delete_loop_tombstones [OF l(1)] obtain new where new: "ts' = ts @ new"
    "map tb_file_id new = map fr_file_id (deletes_of (cp_change_set p) renames d)"
    "map tb_local_delete_seq new = map (\<lambda>k. n + 1 + int k) [0..<length (deletes_of (cp_change_set p) renames d)]"
    "\<forall>t \<in> set new. tb_deleted_revision t = None \<and> tb_deleted_by_device t = dev"
    "n' = n + int (length (deletes_of (cp_change_set p) renames d))" by auto
  from new(2) have "length (deletes_of (cp_change_set p) renames d) = length new" by (metis length_map)
  with new l(2,3) c(1,2) show ?thesis
    unfolding del [symmetric] by (intro conjI exI [of _ new]) (simp_all add: cores_def list_all_iff)
qed



text \<open>C27: after a commit plan there is nothing left to commit: when a plan is built from a workspace,
  detecting changes again, on the same workspace and the plan's document, succeeds and reports none,
  whatever was modified, moved, removed or added.\<close>

theorem plan_leaves_nothing_to_commit:
  assumes "wf_workspace ws" "distinct (map fr_file_id (fd_files d))" "unused_ids env d"
    and "build_tracked_change_commit_plan env ws d None ts n dev = Inr p"
  shows "\<exists>cs. detect_local_workspace_changes (pe_sha env) ws (cp_document p) = Inr cs \<and> cs_changes cs = []"
  using detect_settled [OF assms(1) plan_settles [OF assms]] plan_tracks [OF assms] by auto

theorem plan_leaves_nothing_to_commit_witness:
  "\<exists>p cs. build_tracked_change_commit_plan ex_env ex_workspace ex_doc None [] 0 (Some ''dev'') = Inr p
     \<and> detect_local_workspace_changes (pe_sha ex_env) ex_workspace (cp_document p) = Inr cs \<and> cs_changes cs = []"
proof -
  obtain p where p: "build_tracked_change_commit_plan ex_env ex_workspace ex_doc None [] 0 (Some ''dev'') = Inr p"
    by (rule ex_plan_ok)
  with plan_leaves_nothing_to_commit [OF ex_hyps p] show ?thesis by blast
qed

text \<open>A plan carries the bytes it announces: every active record of its document has a file at its
  path, and the plan's contents hold its bytes under the record's identifier.\<close>

lemma plan_contents:
  assumes ws: "wf_workspace ws" and u: "distinct (map fr_file_id (fd_files d))"
    and fresh: "unused_ids env d"
    and p: "build_tracked_change_commit_plan env ws d None ts n dev = Inr p"
    and q: "q \<in> set (fd_files (cp_document p))" "fr_status q = ''active''"
  shows "\<exists>f. file_at ws (fr_path q) = Some f \<and> map_of (cp_content p) (fr_file_id q) = Some (df_bytes f)
    \<and> fr_content_hash q = Some (sha256_hex (pe_sha env) (df_bytes f))"
proof -
  obtain s where s: "staged env ws d ts n dev s p" using plan_staged [OF p] .
  then obtain b where b: "map_of (cp_content p) (fr_file_id q) = Some b"
    using unchanged_content [of env ws _ _ "cp_content p"] q by (fastforce simp: staged_def Let_def)
  have "active_on_disk env ws q b \<or> tracked q \<and> map_option df_bytes (file_at ws (fr_path q)) = Some b"
    using staged_content [OF s b] content_from_record [OF ws u fresh p q(1)] q(1) planned_cores(3) [OF ws u fresh p]
    by (metis distinct_map inj_onD)
  then show ?thesis
    using b plan_settles [OF ws u fresh p] q(1) by (auto simp: active_on_disk_def settled_def disk_hash_def)
qed

lemma add_loop_time:
  assumes "foldM (plan_add env ws) s cs = Inr t" "cs \<noteq> []"
  shows "\<exists>f. file_at ws (ch_path (last cs)) = Some f \<and> fd_updated_at (fst t) = mtime_ms f"
  using assms
proof (induction cs arbitrary: s)
  case (Cons c cs)
  from Cons.prems obtain u where u: "plan_add env ws s c = Inr u" "foldM (plan_add env ws) u cs = Inr t"
    by (auto simp: result_simps)
  show ?case
  proof (cases "cs = []")
    case True
    with u have "plan_add env ws (fst s, snd s) c = Inr (fst t, snd t)" by simp
    then obtain f where "file_at ws (ch_path c) = Some f" "fd_updated_at (fst t) = mtime_ms f"
      by (rule plan_add_step)
    with True show ?thesis by auto
  qed (use Cons.IH [OF u(2)] in simp)
qed simp

text \<open>A plan that adds a file can turn the document's clock back. The document's \<open>updated_at\<close>
  after a plan with new files is the modification time of the last new file, whatever it was before
  and whatever the modified, renamed and deleted records carry: \<open>add_file\<close> overwrites it before the
  maximum is taken. In the witness a file with an old modification time takes it from 9 to 5.\<close>

lemma added_file_sets_document_time:
  assumes "wf_workspace ws" "distinct (map fr_file_id (fd_files d))" "unused_ids env d"
    and p: "build_tracked_change_commit_plan env ws d None ts n dev = Inr p"
    and adds: "adds_of (cp_change_set p) (match_local_rename_candidates (cp_change_set p) d) \<noteq> []"
  shows "\<exists>f. file_at ws (ch_path (last (adds_of (cp_change_set p)
      (match_local_rename_candidates (cp_change_set p) d)))) = Some f
    \<and> fd_updated_at (cp_document p) = mtime_ms f"
proof -
  obtain s where s: "staged env ws d ts n dev s p" using plan_staged [OF p] .
  then show ?thesis using adds add_loop_time [of env ws _ _ "st_added s"]
    by (fastforce simp: staged_def Let_def)
qed

theorem added_file_sets_document_time_witness:
  "\<exists>p f. build_tracked_change_commit_plan ex_env ex_workspace ex_doc None [] 0 (Some ''dev'') = Inr p
     \<and> file_at ex_workspace ''e.md'' = Some f \<and> fd_updated_at (cp_document p) = mtime_ms f
     \<and> fd_updated_at (cp_document p) < fd_updated_at ex_doc"
proof -
  obtain p where p: "build_tracked_change_commit_plan ex_env ex_workspace ex_doc None [] 0 (Some ''dev'') = Inr p"
    "fd_updated_at (cp_document p) = 5"
    "map ch_path (adds_of (cp_change_set p) (match_local_rename_candidates (cp_change_set p) ex_doc)) = [''e.md'']"
    by (rule ex_plan_ok)
  from p(3) obtain c where c:
    "adds_of (cp_change_set p) (match_local_rename_candidates (cp_change_set p) ex_doc) = [c]" "ch_path c = ''e.md''"
    by auto
  with added_file_sets_document_time [OF ex_hyps p(1)] obtain f where
    "file_at ex_workspace ''e.md'' = Some f" "fd_updated_at (cp_document p) = mtime_ms f" by auto
  moreover have "fd_updated_at ex_doc = 9" by (simp add: ex_doc_def)
  ultimately show ?thesis using p(1,2) by (intro exI [of _ p] exI [of _ f]) simp
qed

text \<open>C28: an active record of an Office lock file blocks every plan once the file is gone. The
  detection does not follow such records, so the missing file is never reported as deleted, but the
  last loop of the plan still reads it: no plan can be built, whatever the other changes are, until
  the record leaves the file map.\<close>

theorem lost_lock_file_blocks_plan:
  assumes ws: "wf_workspace ws" and u: "distinct (map fr_file_id (fd_files d))" and fresh: "unused_ids env d"
    and r: "r \<in> set (fd_files d)" "fr_status r = ''active''" "is_volatile_workspace_file_path (fr_path r)"
    and f: "file_at ws (fr_path r) = None"
  shows "\<exists>e. build_tracked_change_commit_plan env ws d None ts n dev = Inl e"
proof (rule ccontr)
  assume "\<not> ?thesis"
  then obtain p where p: "build_tracked_change_commit_plan env ws d None ts n dev = Inr p"
    by (meson old.sum.exhaust)
  have "planned_record (pe_sha env) ws (match_local_rename_candidates (cp_change_set p) d) r = core r"
    using r(3) by (simp add: planned_record_def tracked_def)
  then have "core r \<in> set (cores (cp_document p))"
    using r(1) unfolding planned_cores(2) [OF ws u fresh p] by force
  then obtain q where q: "q \<in> set (fd_files (cp_document p))" "core q = core r" by (auto simp: cores_def)
  then have "fr_status q = ''active''" "fr_path q = fr_path r"
    using r(2) by (metis core_fields(4), metis core_fields(2))
  with plan_contents [OF ws u fresh p q(1)] f show False by simp
qed

definition ex_lock_doc :: filemap_document where
  "ex_lock_doc = \<lparr>fd_vault_id = ''v'', fd_updated_at = 9, fd_files = [ex_rec ''n1'' ''~$a.docx'' ''1''],
     fd_schema_version = ''v1'', fd_meta = None\<rparr>"

theorem lost_lock_file_blocks_plan_witness:
  "\<exists>e. build_tracked_change_commit_plan ex_env ex_workspace ex_lock_doc None [] 0 None = Inl e"
proof (rule lost_lock_file_blocks_plan [where r = "ex_rec ''n1'' ''~$a.docx'' ''1''"])
  show "is_volatile_workspace_file_path (fr_path (ex_rec ''n1'' ''~$a.docx'' ''1''))" by code_simp
  show "file_at ex_workspace (fr_path (ex_rec ''n1'' ''~$a.docx'' ''1'')) = None" by code_simp
qed (use ex_hyps in \<open>auto simp: ex_lock_doc_def ex_rec_def unused_ids_def ex_env_def intro: injI\<close>)

end
