(* ===== verification/Pull_Composition.thy ===== *)
theory Pull_Composition
  imports Pull_Replay Change_Plan
begin

text \<open>
  How a pull composes with what comes after it. The session converges the file map before the
  service has materialized anything, so the file map can be ahead of the workspace: after a failed
  download, a degraded recovery or an error in the application.
\<close>

section \<open>After the file map has converged\<close>

lemma converged_files:
  assumes i: "convergence_input d m ls at" and c: "converge_manifest_state d m ls at = Inr c"
  shows "active_records (cv_filemap c) = map (active_of d m at) (mn_sorted_files m)"
    and "e \<in> set (mn_files m) \<Longrightarrow> active_of d m at e \<in> set (fd_files (cv_filemap c))"
proof -
  have f: "fd_files (cv_filemap c) = rebuilt_files d m (retained_ledger ls m) at"
    using c unfolding converge_eq_Inr [OF i] by auto
  then show "active_records (cv_filemap c) = map (active_of d m at) (mn_sorted_files m)"
    by (simp add: active_records_def rebuilt_files_def filter_map comp_def)
  show "e \<in> set (mn_files m) \<Longrightarrow> active_of d m at e \<in> set (fd_files (cv_filemap c))"
    by (auto simp: f rebuilt_files_def mn_sorted_files_def)
qed

lemma active_of_more [simp]:
  "fr_path (active_of d m at e) = mf_path e" "fr_content_hash (active_of d m at e) = Some (mf_content_hash e)"
  by (simp_all add: active_of_def)

text \<open>C15: a pull that was not materialized is not made up for: once the file map has converged to a
  manifest, the plan of any pull of the same manifest is empty, whatever the workspace holds, since a
  plan compares the manifest with the file map and not with the files. What a failed download or a
  degraded recovery left out is never written by a later pull of that revision.\<close>

theorem converged_pull_plans_nothing:
  assumes "convergence_input d m ls at" and "distinct (map mf_path (mn_files m))"
    and "converge_manifest_state d m ls at = Inr c"
    and "build_pull_apply_plan sha (cv_filemap c) (Some m) = Inr p"
  shows "pp_writes p = [] \<and> pp_moves p = [] \<and> pp_deletes p = []"
proof -
  note a = converged_files [OF assms(1,3)]
  have dm: "distinct (map mf_file_id (mn_files m))" using assms(1) by (simp add: convergence_input_def)
  then have i: "pull_input (cv_filemap c) m"
    using assms(2) by (simp add: pull_input_def a(1) comp_def mn_sorted_files_def)
  have k: "known (cv_filemap c) e = Some (active_of d m at e)" if "e \<in> set (mn_files m)" for e
    using known_iff [OF i] that by (auto simp: a(1) mn_sorted_files_def)
  have "\<not> changed (cv_filemap c) e" "\<not> relocates (cv_filemap c) e" if "e \<in> set (mn_files m)" for e
    using k [OF that] by (simp_all add: changed_def relocates_def)
  moreover have "set (mn_sorted_files m) = set (mn_files m)" by (simp add: mn_sorted_files_def)
  moreover have "filter (\<lambda>r. fr_file_id r \<notin> mf_file_id ` set (mn_files m)) (active_records (cv_filemap c)) = []"
    by (auto simp: a(1) filter_empty_conv mn_sorted_files_def)
  ultimately show ?thesis
    unfolding plan_lists [OF assms(4) i] by (simp add: filter_empty_conv)
qed

theorem converged_pull_plans_nothing_witness:
  "\<exists>c p. converge_manifest_state over_document over_manifest [] 1 = Inr c
     \<and> build_pull_apply_plan id (cv_filemap c) (Some over_manifest) = Inr p
     \<and> pp_writes p = [] \<and> pp_moves p = [] \<and> pp_deletes p = []"
proof -
  obtain c where c: "converge_manifest_state over_document over_manifest [] 1 = Inr c"
    using over_converged by blast
  have "\<forall>e \<in> set (mn_files over_manifest). safe_file_id (mf_file_id e)" by code_simp
  then obtain p where p: "build_pull_apply_plan id (cv_filemap c) (Some over_manifest) = Inr p"
    by (rule pull_plan_exists)
  have i: "convergence_input over_document over_manifest [] 1" "distinct (map mf_path (mn_files over_manifest))"
    by code_simp+
  from converged_pull_plans_nothing [OF i c p] c p show ?thesis by blast
qed

section \<open>Committing before a pull is materialized\<close>

text \<open>C12: what a pull did not materialize, the next commit undoes at the head. When local changes are
  planned after the file map has converged to a manifest, a file of the manifest that is not in the
  workspace is marked deleted and gets a new tombstone (unless a new local file with its content is
  taken for its rename), and a file that still has older bytes is committed with those: the
  revision another device made is reverted as if the user had done it.\<close>

theorem unmaterialized_pull_is_reverted:
  assumes i: "convergence_input d m ls at" and c: "converge_manifest_state d m ls at = Inr c"
    and ws: "wf_workspace ws" and u: "distinct (map fr_file_id (fd_files (cv_filemap c)))"
    and fresh: "unused_ids env (cv_filemap c)"
    and p: "build_tracked_change_commit_plan env ws (cv_filemap c) None (cv_tombstones c) n dev = Inr p"
    and e: "e \<in> set (mn_files m)" "\<not> is_volatile_workspace_file_path (mf_path e)"
  defines "renames \<equiv> match_local_rename_candidates (cp_change_set p) (cv_filemap c)"
  shows "(file_at ws (mf_path e) = None \<and> map_of renames (mf_file_id e) = None \<longrightarrow>
      (\<exists>q \<in> set (fd_files (cp_document p)). fr_file_id q = mf_file_id e \<and> fr_status q = ''deleted'')
      \<and> (\<exists>t \<in> set (cp_tombstones p). tb_file_id t = mf_file_id e \<and> tb_deleted_revision t = None))
    \<and> (\<forall>f. file_at ws (mf_path e) = Some f \<longrightarrow>
      (\<exists>q \<in> set (fd_files (cp_document p)). fr_file_id q = mf_file_id e \<and> fr_path q = mf_path e
        \<and> fr_status q = ''active'' \<and> fr_content_hash q = Some (sha256_hex (pe_sha env) (df_bytes f))))"
proof -
  let ?r = "active_of d m at e" and ?d = "cv_filemap c"
  have r: "?r \<in> set (fd_files ?d)" by (rule converged_files(2) [OF i c e(1)])
  have t: "tracked ?r" using e(2) by (simp add: tracked_def live_def)
  obtain new where k: "map core (fd_files (cp_document p)) = map (planned_record (pe_sha env) ws renames) (fd_files ?d)
        @ map (new_record env ws) (adds_of (cp_change_set p) renames)"
    "cp_tombstones p = cv_tombstones c @ new"
    "map tb_file_id new = map fr_file_id (filter (\<lambda>r. gone ws r \<and> map_of renames (fr_file_id r) = None) (fd_files ?d))"
    "list_all (\<lambda>t. tb_deleted_revision t = None \<and> tb_deleted_by_device t = dev) new"
    using plan_reconciled [OF ws u fresh p, folded renames_def] by (elim conjE exE) (rule that; assumption)
  have "planned_record (pe_sha env) ws renames ?r \<in> set (map core (fd_files (cp_document p)))"
    unfolding k(1) using r by simp
  then obtain q where q: "q \<in> set (fd_files (cp_document p))" "core q = planned_record (pe_sha env) ws renames ?r"
    by auto
  let ?x = "planned_record (pe_sha env) ws renames ?r"
  have id: "fr_file_id q = fr_file_id ?x" "fr_status q = fr_status ?x" "fr_path q = fr_path ?x"
    "fr_content_hash q = fr_content_hash ?x" unfolding q(2) [symmetric] by simp_all
  show ?thesis
  proof (intro conjI impI allI)
    fix f assume f: "file_at ws (mf_path e) = Some f"
    then show "\<exists>q \<in> set (fd_files (cp_document p)). fr_file_id q = mf_file_id e \<and> fr_path q = mf_path e
        \<and> fr_status q = ''active'' \<and> fr_content_hash q = Some (sha256_hex (pe_sha env) (df_bytes f))"
      using t by (intro bexI [OF _ q(1)]) (simp add: id planned_record_def rehash_def disk_hash_def)
  next
    assume a: "file_at ws (mf_path e) = None \<and> map_of renames (mf_file_id e) = None"
    then show "\<exists>q \<in> set (fd_files (cp_document p)). fr_file_id q = mf_file_id e \<and> fr_status q = ''deleted''"
      using t by (intro bexI [OF _ q(1)]) (simp add: id planned_record_def drop_record_def)
    have "fr_file_id ?r \<in> set (map tb_file_id new)" unfolding k(3) using r t a by (auto simp: gone_def intro!: image_eqI [of _ _ ?r])
    then obtain t where "t \<in> set new" "tb_file_id t = mf_file_id e" by auto
    with k(2,4) show "\<exists>t \<in> set (cp_tombstones p). tb_file_id t = mf_file_id e \<and> tb_deleted_revision t = None"
      by (auto simp: list_all_iff)
  qed
qed


text \<open>The workspace the degraded recovery of \<open>over_recovery\<close> leaves, without its conflict copy.\<close>

definition left_workspace :: workspace where
  "left_workspace = [ex_file ''c.md'' ''D'' 0]"

lemma left_plan:
  obtains p where "build_tracked_change_commit_plan ex_env left_workspace over_filemap None [] 0 (Some ''dev'') = Inr p"
    "map_of (match_local_rename_candidates (cp_change_set p) over_filemap) ''5'' = None"
proof -
  have "case build_tracked_change_commit_plan ex_env left_workspace over_filemap None [] 0 (Some ''dev'') of
      Inl e \<Rightarrow> False | Inr p \<Rightarrow> map_of (match_local_rename_candidates (cp_change_set p) over_filemap) ''5'' = None"
    by code_simp
  then show thesis using that by (auto split: sum.splits)
qed

theorem unmaterialized_pull_is_reverted_witness:
  "\<exists>c p. converge_manifest_state over_document over_manifest [] 1 = Inr c
     \<and> build_tracked_change_commit_plan ex_env left_workspace (cv_filemap c) None (cv_tombstones c) 0 (Some ''dev'') = Inr p
     \<and> (\<exists>q \<in> set (fd_files (cp_document p)). fr_file_id q = ''5'' \<and> fr_status q = ''deleted'')
     \<and> (\<exists>t \<in> set (cp_tombstones p). tb_file_id t = ''5'')"
proof -
  have "case converge_manifest_state over_document over_manifest [] 1 of
      Inl _ \<Rightarrow> False | Inr c \<Rightarrow> cv_filemap c = over_filemap \<and> cv_tombstones c = []" by code_simp
  then obtain c where c: "converge_manifest_state over_document over_manifest [] 1 = Inr c" "cv_filemap c = over_filemap"
    "cv_tombstones c = []" by (auto split: sum.splits)
  obtain p where p: "build_tracked_change_commit_plan ex_env left_workspace over_filemap None [] 0 (Some ''dev'') = Inr p"
    "map_of (match_local_rename_candidates (cp_change_set p) over_filemap) ''5'' = None" by (rule left_plan)
  have i: "convergence_input over_document over_manifest [] 1" by code_simp
  have ws: "wf_workspace left_workspace" by (auto simp: wf_workspace_def left_workspace_def ex_file_def clean_parts_def)
  have u: "distinct (map fr_file_id (fd_files over_filemap))" by code_simp
  have f: "unused_ids ex_env over_filemap"
    by (auto simp: unused_ids_def ex_env_def over_filemap_def swap_rec_def intro: injI)
  have e: "swap_entry ''5'' ''d.md'' ''E'' \<in> set (mn_files over_manifest)"
    "\<not> is_volatile_workspace_file_path (mf_path (swap_entry ''5'' ''d.md'' ''E''))" by code_simp+
  have n: "file_at left_workspace (mf_path (swap_entry ''5'' ''d.md'' ''E'')) = None" by code_simp
  have id: "mf_file_id (swap_entry ''5'' ''d.md'' ''E'') = ''5''" by (simp add: swap_entry_def)
  from unmaterialized_pull_is_reverted [OF i c(1) ws, unfolded c(2,3), OF u f p(1) e] n p(2) c p(1)
  show ?thesis unfolding id by (intro exI [of _ c] exI [of _ p]) auto
qed

end
