(* ===== verification/Spec2Isabelle.thy ===== *)
theory Spec2Isabelle
  imports Operations Recovery Crash_Safety Commit_Plan Paths Sync_Apply Commit_Settlement
    Server_Protocol Server_Repository Server_Worker Sync_System Pull_Composition
begin

text \<open>
  The synchronization core of a personal knowledge base: the client library
  \<open>packages/vault-core/src/vault_core\<close>, the sync server \<open>apps/backend/noteapp-server\<close>, and what the
  desktop client \<open>clients/desktop\<close> does between the library and the files of the user.

  A client keeps a vault of files. What the vault holds is described by \<open>filemap.json\<close>; deletions
  are a ledger of tombstones; a SQLite database holds the state of the vault and the journals of
  a commit and of a pull in progress. A commit freezes the files, uploads encrypted blobs, sends
  a manifest under an intent identifier and a hash, and settles what came of it; a pull fetches
  the head manifest and converges the local state to it. The server keeps, per vault, a history
  of manifests, one per revision, the commits that made them, and what each device has
  acknowledged; it stores blobs, hands out capabilities to move them, and collects tombstones
  every active device has seen.

  The desktop client reads the workspace, compares it with the file map and plans a commit; after a
  pull it plans which files to write, move and delete, stages what it downloaded and applies the
  plan under a journal, so that an interrupted application can be replayed.

  \<^bold>\<open>Theories and the code they model.\<close>

  \<^item> \<open>Vault_Prelude\<close>: values of JSON, dictionaries, results and exceptions of the code, the
    rewriting collections (\<open>result_simps\<close>), lemmas on lists and maps all components share.
  \<^item> \<open>Models\<close>, \<open>State_Records\<close>: \<open>models.py\<close>, each dataclass a record with its \<open>__post_init__\<close>
    checks, its \<open>to_dict\<close> and its \<open>from_dict\<close>.
  \<^item> \<open>Manifest\<close>: \<open>manifest.py\<close>, canonical form and hashes.
  \<^item> \<open>Operations\<close>: \<open>operations.py\<close>, the edits of the file map.
  \<^item> \<open>Recovery\<close>: \<open>recovery.py\<close> and \<open>sync_plan.py\<close>, transitions of the vault state.
  \<^item> \<open>Convergence\<close>: \<open>convergence.py\<close>, merging a manifest into the file map and the ledger.
  \<^item> \<open>Local_Store\<close>: \<open>sqlite_store.py\<close>, \<open>filemap.py\<close>, \<open>ledger.py\<close>: the durable state of a client, each
    operation a sequence of durable writes.
  \<^item> \<open>Crash_Safety\<close>: stopping between any two writes of a convergence, and the recovery after it.
  \<^item> \<open>Commit_Plan\<close>, \<open>Commit_Flow\<close>: \<open>sync_commit.py\<close>, planning a commit and running it.
  \<^item> \<open>Paths\<close>: \<open>paths.py\<close>, names of conflict copies and orphans.
  \<^item> \<open>Sync_Apply\<close>: \<open>sync_apply.py\<close> and \<open>sync_reconcile.py\<close>, applying a pulled manifest and settling a
    submitted commit.
  \<^item> \<open>Commit_Protocol\<close>, \<open>Commit_Recovery\<close>, \<open>Commit_Settlement\<close>: the client as a state machine, with
    crashes; reachable stores, and what recovery makes of each.
  \<^item> \<open>Server_Manifest\<close>: readers of requests, \<open>finalize_manifest_payload\<close> and the cutting of blobs into
    chunks (\<open>sync_store.py\<close> up to line 315, and \<open>build_blob_chunk_descriptors\<close> of \<open>sync_api.py\<close>).
  \<^item> \<open>Server_State\<close>: the document of \<open>SyncStore\<close> as a record \<open>server\<close>.
  \<^item> \<open>Server_Commits\<close>: \<open>create_commit\<close>, \<open>resolve_commit_intent\<close>, file version records,
    \<open>_run_tombstone_gc_locked\<close>, \<open>ack_revisions\<close>, \<open>heartbeat_device\<close>.
  \<^item> \<open>Server_Versions\<close>: retention of file versions, \<open>list_file_versions\<close>, \<open>update_file_version\<close>.
  \<^item> \<open>Server_Auth\<close>: accounts, sessions and tokens.
  \<^item> \<open>Server_Blobs\<close>, \<open>Server_Uploads\<close>: \<open>FileSystemBlobStore\<close> of \<open>blob_storage.py\<close>, every upload and
    download request; the contract of an object store is the locale \<open>object_store\<close>, interpreted on
    the file system store as \<open>fs\<close>.
  \<^item> \<open>Server_Devices\<close>: \<open>list_vault_devices\<close> and \<open>delete_device\<close>.
  \<^item> \<open>Server_History\<close>, \<open>Server_GC\<close>, \<open>Server_Protocol\<close>: the invariant of a vault, the effect of a
    collection, and the server as a state machine \<open>server_step\<close> over all its requests.
  \<^item> \<open>Server_Repository\<close>: \<open>sync_repository.py\<close>, where the document is kept: the JSON file and the SQLite
    database with its versioned row, derived tables and migrations. The contract of a repository is
    the locale \<open>state_repository\<close>, interpreted on both.
  \<^item> \<open>Server_Http\<close>: \<open>main.py\<close>, the routes of the HTTP application; \<open>serve\<close> takes a request, the state and
    the files to a reply, a state and files.
  \<^item> \<open>Server_Worker\<close>: the background collector of \<open>main.py\<close> and its metrics.
  \<^item> \<open>Sync_Api\<close>: \<open>sync_api.py\<close>, the records of requests and responses, serializing and parsing them.
  \<^item> \<open>Sync_Client\<close>: \<open>sync_client.py\<close>, the client's side of every exchange over a transport that is a
    parameter; the locale \<open>commit_service\<close> states what the recovery of a commit relies on.
  \<^item> \<open>Sync_Http\<close>: \<open>sync_http.py\<close>, the transport over HTTP and the movers of blobs.
  \<^item> \<open>Sync_System\<close>: client and server joined by a network that loses requests and replies; there
    \<open>commit_service\<close> is interpreted on the HTTP application as \<open>http\<close>.
  \<^item> \<open>Change_Detection\<close>: \<open>workspace_filters.py\<close> and \<open>detect_local_workspace_changes\<close> of the desktop
    client's \<open>change_detection.py\<close>: which files count and what changed.
  \<^item> \<open>Change_Plan\<close>: \<open>build_tracked_change_commit_plan\<close> of the same file, with the recognition of local
    renames by content.
  \<^item> \<open>Pull_Plan\<close>: \<open>_build_pull_apply_plan\<close> of \<open>service.py\<close>, the operations hash of a plan and the JSON
    it is kept in.
  \<^item> \<open>Desk_Files\<close>: the files of the workspace and the calls of \<open>pathlib\<close> and \<open>os\<close> on them. The contract
    of a tree of files is the locale \<open>file_tree\<close>, interpreted on them as \<open>desk_tree\<close>.
  \<^item> \<open>Pull_Apply\<close>: required blobs, staging, \<open>apply_staged_pull_plan\<close>, \<open>finalize_applied_pull_plan\<close>,
    \<open>resume_pull_apply_recovery\<close> and the composed \<open>_pull_and_apply\<close> of \<open>service.py\<close>; the snapshot of
    \<open>workspace.py\<close>.
  \<^item> \<open>Pull_Workspace\<close>: what an application does to the workspace seen as a map from paths to bytes.
  \<^item> \<open>Pull_Replay\<close>: a power loss at any durable step of an application, and the replay after it.
  \<^item> \<open>Pull_Composition\<close>: what a pull that was not materialized means for the next pull and commit.

  \<^bold>\<open>How it is modelled.\<close> A raise of the code is an \<open>Inl\<close> of a result; a request of the server is a
  function from the state to an error or an answer and the new state; what a request does to
  files even when it fails is in the second component of \<open>commit_state\<close>. The clock, drawn
  identifiers and tokens are arguments. SHA-256 (\<open>sha\<close>, \<open>digest\<close>), PBKDF2 (\<open>kdf\<close>), decryption and Unicode
  normalization (\<open>nfc\<close>) are arguments of the definitions that use them; where a property needs
  that normalizing is idempotent and keeps strings non-empty it says \<open>normal_form nfc\<close>. Bytes
  are characters of a \<open>string\<close>.

  \<^bold>\<open>What the lemmas show.\<close> For the client: hashes do not depend on order, edits keep paths unique,
  convergence mirrors the manifest, is idempotent and never drops a pending deletion; a crash at
  any point of a convergence or a commit is recovered from. For the server: the history is
  append-only and complete, a commit takes effect exactly once and only on the head, a collection
  removes exactly what it may, an upload delivers the bytes sent in whatever order, a removed
  device stays out, the summary the server stores is the one the client computes when no
  tombstone is pending. For the desktop client: a plan of local changes takes the file map to the
  state of the workspace and leaves nothing to commit; a pull plan, applied to a workspace that
  agrees with the file map, makes it the manifest and touches no other file, also when files swap
  their paths; an application without blocking paths and without overwriting in place survives a
  power loss at any step. The properties of kind error show where the code falls short: what a pull
  did not materialize is never made up for and is undone by the next commit, and an interrupted
  replacement can lose a file.

  \<^bold>\<open>Bounds.\<close> Integers of Python are \<open>int\<close>. The cutting of a blob is a recursion with a termination
  proof; following the cursor of a listing takes as many turns as there are rows and one more,
  which the property about it uses as its fuel.

  The network takes the fate of each request from a list, so a run has as many requests as the list
  has fates; the properties hold for every list. The power of a client is a number of durable writes
  it can still make, or unlimited; the properties about power loss hold for every number.

  \<^bold>\<open>Not modelled.\<close> What FastAPI answers by itself (unknown routes, bodies that are not objects) is a
  parameter of the HTTP application; its configuration from the environment, the diagnostics
  routes and CORS are left out, as are the S3 store and the creation of a vault's directories. Of the
  desktop client, \<open>service.py\<close> beyond pulling is left out (settings, notes, panels, search, AI
  context, migration packages, its wrapper of a commit), and so are its command line and local
  service. A document of an older schema, whose fields may have other
  types, is outside the model of the server state.
\<close>

end
